(* ===== verification/Prelude.thy ===== *)
theory Prelude
  imports Main "HOL-Library.Word"
begin

text \<open>
  Shared vocabulary of the development.  It fixes how the Go runtime's basic types are read in
  HOL (instants and durations as whole nanoseconds, \<open>int64\<close> arithmetic with its wrap-around
  written out, results with an error as sums) and collects the generic lemmas on lists, sums and
  relations that the component theories use.

  The two collections hold the unfolding equations of the model's straight-line operations
  (\<open>ops\<close>) and the case rules that invert a successful result (\<open>ok_dest\<close>).
\<close>

named_theorems ops "definitions of straight-line operations, unfolded together"
named_theorems ok_dest "what a successful result says about the inputs"

section \<open>Time, durations and 64-bit integers\<close>

text \<open>\<open>time.Time\<close> is an instant in nanoseconds; \<open>time.Duration\<close> a number of nanoseconds.\<close>

type_synonym instant = int
type_synonym duration = int

abbreviation second :: duration where
  "second \<equiv> 1000000000"

abbreviation minute :: duration where
  "minute \<equiv> 60 * second"

text \<open>Two's complement wrap-around of a 64-bit signed result.\<close>

definition wrap64 :: "int \<Rightarrow> int" where
  "wrap64 x = (x + 2 ^ 63) mod 2 ^ 64 - 2 ^ 63"

definition in_int64 :: "int \<Rightarrow> bool" where
  "in_int64 x \<longleftrightarrow> - (2 ^ 63) \<le> x \<and> x < 2 ^ 63"

lemma wrap64_id: "in_int64 x \<Longrightarrow> wrap64 x = x"
  by (simp add: wrap64_def in_int64_def)

lemma wrap64_range: "in_int64 (wrap64 x)"
  by (simp add: wrap64_def in_int64_def)

section \<open>Results\<close>

text \<open>A Go pair \<open>(value, error)\<close> is a sum: \<open>Inl e\<close> for a non-nil error, \<open>Inr v\<close> otherwise.\<close>

primrec is_ok :: "'e + 'a \<Rightarrow> bool" where
  "is_ok (Inl e) = False"
| "is_ok (Inr a) = True"

lemma is_ok_iff: "is_ok r \<longleftrightarrow> (\<exists>a. r = Inr a)"
  by (cases r) auto

text \<open>
  The loop \<open>for _, x := range xs { v, err := f(x); if err != nil { return nil, err } }\<close>: results
  are collected in order and the first error stops the loop.
\<close>

fun mapR :: "('a \<Rightarrow> 'e + 'b) \<Rightarrow> 'a list \<Rightarrow> 'e + 'b list" where
  "mapR f [] = Inr []"
| "mapR f (x # xs) =
     (case f x of Inl e \<Rightarrow> Inl e
      | Inr y \<Rightarrow> (case mapR f xs of Inl e \<Rightarrow> Inl e | Inr ys \<Rightarrow> Inr (y # ys)))"

lemma mapR_Inr_iff:
  "mapR f xs = Inr ys \<longleftrightarrow> list_all2 (\<lambda>x y. f x = Inr y) xs ys"
proof (induction xs arbitrary: ys)
  case Nil
  show ?case by auto
next
  case (Cons x xs)
  show ?case
    by (cases "f x"; cases "mapR f xs"; cases ys) (auto simp flip: Cons)
qed

lemma mapR_total: "(\<And>x. x \<in> set xs \<Longrightarrow> f x = Inr (g x)) \<Longrightarrow> mapR f xs = Inr (map g xs)"
  by (induction xs) auto

lemma mapR_InlD: "mapR f xs = Inl e \<Longrightarrow> \<exists>x \<in> set xs. f x = Inl e"
  by (induction xs) (auto split: sum.splits)

section \<open>Lists\<close>

text \<open>Go's idiom of a \<open>seen\<close> map that keeps the first occurrence of each value.\<close>

fun dedup_onto :: "'a list \<Rightarrow> 'a list \<Rightarrow> 'a list" where
  "dedup_onto acc [] = acc"
| "dedup_onto acc (x # xs) = (if x \<in> set acc then dedup_onto acc xs else dedup_onto (acc @ [x]) xs)"

lemma set_dedup_onto [simp]: "set (dedup_onto acc xs) = set acc \<union> set xs"
  by (induction acc xs rule: dedup_onto.induct) auto

lemma distinct_dedup_onto [simp]: "distinct (dedup_onto acc xs) \<longleftrightarrow> distinct acc"
  by (induction acc xs rule: dedup_onto.induct) auto

lemma dedup_onto_append: "dedup_onto acc (xs @ ys) = dedup_onto (dedup_onto acc xs) ys"
  by (induction acc xs rule: dedup_onto.induct) auto

lemma concat_map_eq_Nil:
  "(\<And>x. x \<in> set xs \<Longrightarrow> f x \<noteq> []) \<Longrightarrow> concat (map f xs) = [] \<longleftrightarrow> xs = []"
  by (cases xs) auto

lemma find_append: "List.find P (s @ t) = (case List.find P s of None \<Rightarrow> List.find P t | Some r \<Rightarrow> Some r)"
  by (induction s) auto

lemma dropWhile_all_iff: "(\<forall>x \<in> set (dropWhile P xs). P x) \<longleftrightarrow> (\<forall>x \<in> set xs. P x)"
  by (induction xs) auto

definition dropWhileEnd :: "('a \<Rightarrow> bool) \<Rightarrow> 'a list \<Rightarrow> 'a list" where
  "dropWhileEnd P xs = rev (dropWhile P (rev xs))"

lemma dropWhileEnd_Nil [simp]: "dropWhileEnd P [] = []"
  by (simp add: dropWhileEnd_def)

lemma set_dropWhileEnd: "x \<in> set (dropWhileEnd P xs) \<Longrightarrow> x \<in> set xs"
  by (metis dropWhileEnd_def set_dropWhileD set_rev)

lemma dropWhileEnd_eq_Nil [simp]: "dropWhileEnd P xs = [] \<longleftrightarrow> (\<forall>x \<in> set xs. P x)"
  by (simp add: dropWhileEnd_def dropWhile_eq_Nil_conv)

text \<open>Splitting a string at every occurrence of a one-byte separator (\<open>strings.Split\<close>).\<close>

fun split_on :: "'a \<Rightarrow> 'a list \<Rightarrow> 'a list list" where
  "split_on s [] = [[]]"
| "split_on s (x # xs) =
     (if x = s then [] # split_on s xs
      else (case split_on s xs of [] \<Rightarrow> [[x]] | p # ps \<Rightarrow> (x # p) # ps))"

lemma split_on_nonempty [simp]: "split_on s xs \<noteq> []"
  by (induction xs) (auto split: list.splits)

lemma split_on_no_sep: "s \<notin> set xs \<Longrightarrow> split_on s xs = [xs]"
  by (induction xs) auto

lemma split_on_append: "s \<notin> set xs \<Longrightarrow> split_on s (xs @ s # ys) = xs # split_on s ys"
  by (induction xs) auto

lemma split_on_parts: "p \<in> set (split_on s xs) \<Longrightarrow> s \<notin> set p"
  by (induction xs arbitrary: p) (auto split: list.splits if_splits)

fun join_with :: "'a \<Rightarrow> 'a list list \<Rightarrow> 'a list" where
  "join_with s [] = []"
| "join_with s [p] = p"
| "join_with s (p # q # ps) = p @ s # join_with s (q # ps)"

lemma join_split [simp]: "join_with s (split_on s xs) = xs"
proof (induction xs)
  case Nil
  show ?case by simp
next
  case (Cons x xs)
  obtain p ps where ps: "split_on s xs = p # ps"
    by (cases "split_on s xs") auto
  with Cons show ?case by (cases ps) (auto split: if_splits)
qed

section \<open>Relations\<close>

text \<open>
  Following a single-valued relation from a point ends in at most one place.
\<close>

lemma single_valued_confluent:
  assumes "single_valued r" "(a, b) \<in> r\<^sup>*" "(a, c) \<in> r\<^sup>*"
  shows "(b, c) \<in> r\<^sup>* \<or> (c, b) \<in> r\<^sup>*"
  using assms(2)
proof (induction rule: rtrancl_induct)
  case base
  show ?case using assms(3) by simp
next
  case (step y z)
  from step.IH show ?case
  proof
    assume yc: "(y, c) \<in> r\<^sup>*"
    show ?thesis
    proof (cases "y = c")
      case True
      with step.hyps(2) show ?thesis by auto
    next
      case False
      with yc obtain z' where "(y, z') \<in> r" "(z', c) \<in> r\<^sup>*"
        by (meson converse_rtranclE)
      with step.hyps(2) assms(1) show ?thesis
        by (auto dest: single_valuedD)
    qed
  next
    assume "(c, y) \<in> r\<^sup>*"
    with step.hyps(2) show ?thesis by (meson rtrancl.rtrancl_into_rtrancl)
  qed
qed

lemma single_valued_end_unique:
  assumes "single_valued r" "(a, b) \<in> r\<^sup>*" "(a, c) \<in> r\<^sup>*" "b \<notin> Domain r" "c \<notin> Domain r"
  shows "b = c"
  using single_valued_confluent [OF assms(1-3)] assms(4,5)
  by (metis Domain.DomainI converse_rtranclE)

text \<open>A map of nodes that sends edges to edges sends paths to paths.\<close>

lemma trancl_image:
  assumes "\<And>x y. (x, y) \<in> r \<Longrightarrow> (f x, f y) \<in> s" and "(x, y) \<in> r\<^sup>+"
  shows "(f x, f y) \<in> s\<^sup>+"
  using assms(2)
proof (induction rule: trancl_induct)
  case (base y)
  then show ?case by (auto intro: assms(1))
next
  case (step y z)
  then show ?case by (meson assms(1) trancl.trancl_into_trancl)
qed

lemma acyclic_inv_image:
  assumes "acyclic s" and "\<And>x y. (x, y) \<in> r \<Longrightarrow> (f x, f y) \<in> s"
  shows "acyclic r"
  using assms trancl_image [of r f s] unfolding acyclic_def by blast

lemma rtrancl_trancl_ne: "(a, b) \<in> r\<^sup>* \<Longrightarrow> a \<noteq> b \<Longrightarrow> (a, b) \<in> r\<^sup>+"
  by (simp add: rtrancl_eq_or_trancl)

end
