(* ===== verification/Domain_Error.thy ===== *)
theory Domain_Error
  imports Prelude
begin

text \<open>
  The typed errors of \<open>internal/domain/error.go\<close>.  A Go error value is its chain of wrapped
  errors: a \<open>*domain.Error\<close> with its category and client-facing message, a value made by
  \<open>errors.New\<close> (compared by identity, so by name), an error wrapped by \<open>fmt.Errorf\<close> with
  \<open>%w\<close>, and the driver's \<open>*pgconn.PgError\<close> with its SQLSTATE.  \<open>fmt.Sprintf\<close> is kept
  symbolic: a message is its format with its arguments.
\<close>

datatype category = NotFound | InvalidInput | Unauthorized | Conflict | Unavailable | Internal

datatype fmt_arg = AStr string | AInt int

datatype message = Msg string "fmt_arg list"

datatype go_error =
    DomainError category message "go_error option"
  | ErrorsNew string
  | Wrapf message go_error
  | PgError string

type_synonym 'a result = "go_error + 'a"

text \<open>A domain error with a constant message and nothing wrapped.\<close>

abbreviation derr :: "category \<Rightarrow> string \<Rightarrow> go_error" where
  "derr c m \<equiv> DomainError c (Msg m []) None"

fun Unwrap :: "go_error \<Rightarrow> go_error option" where
  "Unwrap (DomainError c m e) = e"
| "Unwrap (Wrapf m e) = Some e"
| "Unwrap (ErrorsNew s) = None"
| "Unwrap (PgError code) = None"

text \<open>\<open>errors.Is\<close>: does the chain hold the target?\<close>

fun errors_Is :: "go_error \<Rightarrow> go_error \<Rightarrow> bool" where
  "errors_Is (DomainError c m e) t \<longleftrightarrow>
     DomainError c m e = t \<or> (case e of None \<Rightarrow> False | Some e' \<Rightarrow> errors_Is e' t)"
| "errors_Is (Wrapf m e) t \<longleftrightarrow> Wrapf m e = t \<or> errors_Is e t"
| "errors_Is (ErrorsNew s) t \<longleftrightarrow> ErrorsNew s = t"
| "errors_Is (PgError code) t \<longleftrightarrow> PgError code = t"

text \<open>\<open>CategoryOf\<close>: the category of the first \<open>*Error\<close> of the chain, \<open>Internal\<close> if none.\<close>

fun CategoryOf :: "go_error \<Rightarrow> category" where
  "CategoryOf (DomainError c m e) = c"
| "CategoryOf (Wrapf m e) = CategoryOf e"
| "CategoryOf (ErrorsNew s) = Internal"
| "CategoryOf (PgError code) = Internal"

text \<open>\<open>errors.As(err, &pgErr)\<close>: the SQLSTATE of the first driver error of the chain.\<close>

fun as_PgError :: "go_error \<Rightarrow> string option" where
  "as_PgError (PgError code) = Some code"
| "as_PgError (Wrapf m e) = as_PgError e"
| "as_PgError (DomainError c m e) = (case e of None \<Rightarrow> None | Some e' \<Rightarrow> as_PgError e')"
| "as_PgError (ErrorsNew s) = None"

text \<open>Failing with a given category.\<close>

definition fails_with :: "category \<Rightarrow> 'a result \<Rightarrow> bool" where
  "fails_with c r \<longleftrightarrow> (case r of Inl e \<Rightarrow> CategoryOf e = c | Inr _ \<Rightarrow> False)"

lemma fails_with_simps [simp]:
  "fails_with c (Inl e) \<longleftrightarrow> CategoryOf e = c"
  "fails_with c (Inr a) \<longleftrightarrow> False"
  by (simp_all add: fails_with_def)

end
