(* ===== verification/Go_Text.thy ===== *)
theory Go_Text
  imports Prelude
begin

text \<open>
  Go strings.  A Go string is a sequence of bytes, here a \<open>string\<close> (HOL characters are bytes);
  \<open>len\<close> counts bytes and \<open>range\<close> decodes UTF-8, yielding the replacement rune for each byte that
  starts no valid sequence.  This theory models what the sources use of the packages
  \<open>strings\<close>, \<open>unicode\<close> and \<open>unicode/utf8\<close>: decoding and encoding of runes, \<open>TrimSpace\<close>,
  \<open>ReplaceAll\<close> of one byte, \<open>ToUpper\<close>, \<open>ToLower\<close>, \<open>IsSpace\<close>, \<open>IsControl\<close>.

  Above ASCII, the case tables of package \<open>unicode\<close> are a parameter \<open>cm\<close> of \<open>ToUpper\<close> and
  \<open>ToLower\<close>; every fact about them holds for any table.
\<close>

section \<open>UTF-8\<close>

type_synonym rune = nat

abbreviation byte_of :: "char \<Rightarrow> nat" where
  "byte_of c \<equiv> of_char c"

definition RuneError :: rune where
  "RuneError = 65533"

definition between :: "nat \<Rightarrow> nat \<Rightarrow> nat \<Rightarrow> bool" where
  "between lo hi x \<longleftrightarrow> lo \<le> x \<and> x \<le> hi"

definition cont :: "char \<Rightarrow> bool" where
  "cont c \<longleftrightarrow> between 128 191 (byte_of c)"

text \<open>
  \<open>utf8.DecodeRune\<close> on the bytes after a first byte \<open>b\<close>: the rune and how many bytes beyond the
  first it takes.  An ill-formed sequence is the replacement rune, one byte wide.
\<close>

definition decode_rune :: "nat \<Rightarrow> string \<Rightarrow> rune \<times> nat" where
  "decode_rune b cs =
     (if b < 128 then (b, 0)
      else if between 194 223 b then
        (case cs of c1 # _ \<Rightarrow>
           if cont c1 then ((b - 192) * 64 + (byte_of c1 - 128), 1) else (RuneError, 0)
         | [] \<Rightarrow> (RuneError, 0))
      else if between 224 239 b then
        (case cs of c1 # c2 # _ \<Rightarrow>
           if between (if b = 224 then 160 else 128) (if b = 237 then 159 else 191) (byte_of c1) \<and> cont c2
           then ((b - 224) * 4096 + (byte_of c1 - 128) * 64 + (byte_of c2 - 128), 2)
           else (RuneError, 0)
         | _ \<Rightarrow> (RuneError, 0))
      else if between 240 244 b then
        (case cs of c1 # c2 # c3 # _ \<Rightarrow>
           if between (if b = 240 then 144 else 128) (if b = 244 then 143 else 191) (byte_of c1)
              \<and> cont c2 \<and> cont c3
           then ((b - 240) * 262144 + (byte_of c1 - 128) * 4096 + (byte_of c2 - 128) * 64
                 + (byte_of c3 - 128), 3)
           else (RuneError, 0)
         | _ \<Rightarrow> (RuneError, 0))
      else (RuneError, 0))"

text \<open>The runes of a string, each with the bytes it was decoded from.\<close>

function segments :: "string \<Rightarrow> (rune \<times> string) list" where
  "segments [] = []"
| "segments (c # cs) =
     (fst (decode_rune (byte_of c) cs), c # take (snd (decode_rune (byte_of c) cs)) cs)
     # segments (drop (snd (decode_rune (byte_of c) cs)) cs)"
  by pat_completeness auto
termination
  by (relation "measure length") auto

declare segments.simps(2) [simp del]
lemmas segments_Cons = segments.simps(2)

definition runes :: "string \<Rightarrow> rune list" where
  "runes s = map fst (segments s)"

lemma concat_segments [simp]: "concat (map snd (segments s)) = s"
  by (induction s rule: segments.induct) (auto simp: segments_Cons)

lemma segments_nonempty: "(r, bs) \<in> set (segments s) \<Longrightarrow> bs \<noteq> []"
  by (induction s rule: segments.induct) (auto simp: segments_Cons)

lemma segments_eq_Nil [simp]: "segments s = [] \<longleftrightarrow> s = []"
  by (cases s) (auto simp: segments_Cons)

lemma segments_ascii: "byte_of c < 128 \<Longrightarrow> segments (c # cs) = (byte_of c, [c]) # segments cs"
  by (simp add: segments_Cons decode_rune_def)

lemma length_runes_le: "length (runes s) \<le> length s"
  by (induction s rule: segments.induct) (auto simp: runes_def segments_Cons)

lemma runes_all_ascii:
  "list_all (\<lambda>c. byte_of c < 128) s \<Longrightarrow> runes s = map byte_of s"
  by (induction s) (auto simp: runes_def segments_ascii)

lemma decode_rune_multibyte:
  assumes "\<not> b < 128"
  shows "128 \<le> fst (decode_rune b cs)"
proof -
  consider "between 194 223 b" | "b = 224" | "between 225 239 b" | "b = 240" | "between 241 244 b"
    | "\<not> between 194 244 b"
    by (fastforce simp: between_def)
  then show ?thesis
  proof cases
    case 1
    then show ?thesis
      by (auto simp: decode_rune_def RuneError_def between_def split: list.splits)
  next
    case 2
    then show ?thesis
      by (auto simp: decode_rune_def RuneError_def between_def split: list.splits)
  next
    case 3
    then have "1 \<le> b - 224" by (auto simp: between_def)
    then have "128 \<le> (b - 224) * 4096 + x" for x by simp
    with 3 show ?thesis
      by (simp add: decode_rune_def RuneError_def between_def add.assoc split: list.splits)
  next
    case 4
    then show ?thesis
      by (auto simp: decode_rune_def RuneError_def between_def split: list.splits)
  next
    case 5
    then have "1 \<le> b - 240" by (auto simp: between_def)
    then have "128 \<le> (b - 240) * 262144 + x" for x by simp
    with 5 show ?thesis
      by (simp add: decode_rune_def RuneError_def between_def add.assoc split: list.splits)
  next
    case 6
    with assms show ?thesis
      by (auto simp: decode_rune_def RuneError_def between_def)
  qed
qed

lemma decode_rune_ascii: "fst (decode_rune b cs) < 128 \<Longrightarrow> decode_rune b cs = (b, 0)"
  using decode_rune_multibyte [of b cs] by (cases "b < 128") (simp_all add: decode_rune_def)

lemma ascii_if_runes_ascii:
  "list_all (\<lambda>r. r < 128) (runes s) \<Longrightarrow> list_all (\<lambda>c. byte_of c < 128) s"
proof (induction s rule: segments.induct)
  case 1
  show ?case by simp
next
  case (2 c cs)
  then have a: "fst (decode_rune (byte_of c) cs) < 128"
    by (simp add: runes_def segments_Cons)
  then have d: "decode_rune (byte_of c) cs = (byte_of c, 0)"
    by (rule decode_rune_ascii)
  with a have "byte_of c < 128" by simp
  with "2" d show ?case
    by (simp add: runes_def segments_Cons)
qed

text \<open>\<open>utf8.AppendRune\<close>: surrogates and values above \<open>U+10FFFF\<close> become the replacement rune.\<close>

definition encode_rune :: "rune \<Rightarrow> string" where
  "encode_rune r0 =
     (let r = (if between 55296 57343 r0 \<or> 1114111 < r0 then RuneError else r0) in
      map char_of
       (if r < 128 then [r]
        else if r < 2048 then [192 + r div 64, 128 + r mod 64]
        else if r < 65536 then [224 + r div 4096, 128 + r div 64 mod 64, 128 + r mod 64]
        else [240 + r div 262144, 128 + r div 4096 mod 64, 128 + r div 64 mod 64, 128 + r mod 64]))"

lemma encode_rune_nonempty [simp]: "encode_rune r \<noteq> []"
  by (simp add: encode_rune_def Let_def)

section \<open>Classes of runes\<close>

text \<open>\<open>unicode.IsSpace\<close>: the White Space property.\<close>

definition IsSpace :: "rune \<Rightarrow> bool" where
  "IsSpace r \<longleftrightarrow> between 9 13 r \<or> r \<in> {32, 133, 160, 5760, 8232, 8233, 8239, 8287, 12288}
     \<or> between 8192 8202 r"

text \<open>\<open>unicode.IsControl\<close>: the category Cc.\<close>

definition IsControl :: "rune \<Rightarrow> bool" where
  "IsControl r \<longleftrightarrow> r < 32 \<or> between 127 159 r"

definition is_lower :: "char \<Rightarrow> bool" where
  "is_lower c \<longleftrightarrow> between 97 122 (byte_of c)"

definition is_upper :: "char \<Rightarrow> bool" where
  "is_upper c \<longleftrightarrow> between 65 90 (byte_of c)"

definition is_digit :: "char \<Rightarrow> bool" where
  "is_digit c \<longleftrightarrow> between 48 57 (byte_of c)"

definition is_alpha :: "char \<Rightarrow> bool" where
  "is_alpha c \<longleftrightarrow> is_lower c \<or> is_upper c"

definition is_alnum :: "char \<Rightarrow> bool" where
  "is_alnum c \<longleftrightarrow> is_alpha c \<or> is_digit c"

lemmas char_classes = is_alnum_def is_alpha_def is_lower_def is_upper_def is_digit_def between_def

section \<open>Package \<open>strings\<close>\<close>

definition TrimSpace :: "string \<Rightarrow> string" where
  "TrimSpace s =
     concat (map snd (dropWhileEnd (IsSpace \<circ> fst) (dropWhile (IsSpace \<circ> fst) (segments s))))"

text \<open>\<open>strings.TrimSpace(s) == ""\<close>, the guard most constructors start with.\<close>

definition blank :: "string \<Rightarrow> bool" where
  "blank s \<longleftrightarrow> TrimSpace s = []"

definition remove_byte :: "char \<Rightarrow> string \<Rightarrow> string" where
  "remove_byte c s = filter (\<lambda>x. x \<noteq> c) s"

definition map_runes :: "(rune \<Rightarrow> rune) \<Rightarrow> string \<Rightarrow> string" where
  "map_runes f s = concat (map (encode_rune \<circ> f) (runes s))"

definition ToUpper :: "(rune \<Rightarrow> rune) \<Rightarrow> string \<Rightarrow> string" where
  "ToUpper cm = map_runes (\<lambda>r. if r < 128 then (if between 97 122 r then r - 32 else r) else cm r)"

definition ToLower :: "(rune \<Rightarrow> rune) \<Rightarrow> string \<Rightarrow> string" where
  "ToLower cm = map_runes (\<lambda>r. if r < 128 then (if between 65 90 r then r + 32 else r) else cm r)"

lemma TrimSpace_Nil [simp]: "TrimSpace [] = []"
  by (simp add: TrimSpace_def)

lemma set_TrimSpace: "set (TrimSpace s) \<subseteq> set s"
proof -
  have "set (TrimSpace s) \<subseteq> (\<Union>x \<in> set (segments s). set (snd x))"
    unfolding TrimSpace_def
    by (auto dest!: set_dropWhileEnd set_dropWhileD)
  also have "\<dots> = set (concat (map snd (segments s)))" by (simp del: concat_segments)
  finally show ?thesis by simp
qed

lemma blank_iff: "blank s \<longleftrightarrow> (\<forall>r \<in> set (runes s). IsSpace r)"
proof -
  let ?P = "IsSpace \<circ> fst"
  let ?t = "dropWhileEnd ?P (dropWhile ?P (segments s))"
  have ne: "x \<in> set ?t \<Longrightarrow> snd x \<noteq> []" for x
    by (cases x) (auto dest!: set_dropWhileEnd set_dropWhileD segments_nonempty)
  have "concat (map snd ?t) = [] \<longleftrightarrow> ?t = []"
    by (rule concat_map_eq_Nil) (rule ne)
  also have "\<dots> \<longleftrightarrow> (\<forall>x \<in> set (dropWhile ?P (segments s)). ?P x)"
    by (rule dropWhileEnd_eq_Nil)
  also have "\<dots> \<longleftrightarrow> (\<forall>x \<in> set (segments s). ?P x)"
    by (rule dropWhile_all_iff)
  finally show ?thesis by (auto simp: runes_def blank_def TrimSpace_def)
qed

lemma TrimSpace_printable:
  assumes "list_all (\<lambda>c. 32 < byte_of c \<and> byte_of c < 127) s" "s \<noteq> []"
  shows "TrimSpace s \<noteq> []"
proof -
  have "runes s = map byte_of s"
    using assms(1) by (intro runes_all_ascii) (auto simp: list_all_iff)
  then have "\<exists>r \<in> set (runes s). \<not> IsSpace r"
    using assms by (cases s) (auto simp: IsSpace_def between_def)
  then show ?thesis using blank_iff [of s] by (simp add: blank_def)
qed

lemma blank_Nil [simp]: "blank []"
  by (simp add: blank_def)

lemma not_blank_nonempty: "\<not> blank s \<Longrightarrow> s \<noteq> []"
  by auto

lemma ToUpper_ascii:
  assumes "list_all (\<lambda>c. byte_of c < 128 \<and> \<not> is_lower c) s"
  shows "ToUpper cm s = s"
  using assms
  by (induction s)
     (auto simp: ToUpper_def map_runes_def runes_def segments_ascii encode_rune_def between_def
        is_lower_def)

lemma remove_byte_id: "c \<notin> set s \<Longrightarrow> remove_byte c s = s"
  by (auto simp: remove_byte_def filter_id_conv)

lemma set_remove_byte [simp]: "set (remove_byte c s) = set s - {c}"
  by (auto simp: remove_byte_def)

lemma TrimSpace_id:
  assumes "list_all (\<lambda>r. \<not> IsSpace r) (runes s)"
  shows "TrimSpace s = s"
proof -
  have "\<forall>x \<in> set (segments s). \<not> (IsSpace \<circ> fst) x"
    using assms by (auto simp: runes_def list_all_iff)
  then have "dropWhile (IsSpace \<circ> fst) (segments s) = segments s"
    and "dropWhile (IsSpace \<circ> fst) (rev (segments s)) = rev (segments s)"
    by (auto simp: dropWhile_eq_self_iff hd_rev)
  then show ?thesis by (simp add: TrimSpace_def dropWhileEnd_def)
qed

text \<open>Visible ASCII text: trimming leaves it alone, and only the empty one is blank.\<close>

definition visible :: "string \<Rightarrow> bool" where
  "visible s \<longleftrightarrow> list_all (\<lambda>c. 32 < byte_of c \<and> byte_of c < 127) s"

lemma visible_runes: "visible s \<Longrightarrow> runes s = map byte_of s"
  by (rule runes_all_ascii) (auto simp: visible_def list_all_iff)

lemma TrimSpace_visible: "visible s \<Longrightarrow> TrimSpace s = s"
  by (rule TrimSpace_id) (auto simp: visible_runes, auto simp: visible_def list_all_iff IsSpace_def between_def)

lemma blank_visible: "visible s \<Longrightarrow> blank s \<longleftrightarrow> s = []"
  by (simp add: blank_def TrimSpace_visible)

lemma ToLower_ascii:
  assumes "list_all (\<lambda>c. byte_of c < 128 \<and> \<not> is_upper c) s"
  shows "ToLower cm s = s"
  using assms
  by (induction s)
     (auto simp: ToLower_def map_runes_def runes_def segments_ascii encode_rune_def between_def
        is_upper_def)

end
