(* ===== verification/Go_Regexp.thy ===== *)
theory Go_Regexp
  imports Go_Text
begin

text \<open>
  Regular expressions as the sources use them through package \<open>regexp\<close>: anchored at both ends,
  over ASCII classes, with bounded and unbounded repetition.  \<open>MatchString\<close> is an executable
  matcher by derivatives; \<open>lang\<close> is the language an expression denotes, and \<open>MatchString_iff\<close>
  says the matcher decides it.  A class of ASCII bytes contains no byte of a multi-byte rune, so
  matching bytes and matching runes agree on these expressions.
\<close>

datatype rx =
    Never
  | Eps
  | Cls "char \<Rightarrow> bool"
  | Alt rx rx
  | Cat rx rx
  | Star rx

inductive lang :: "rx \<Rightarrow> string \<Rightarrow> bool" where
  Eps: "lang Eps []"
| Cls: "p c \<Longrightarrow> lang (Cls p) [c]"
| AltL: "lang r s \<Longrightarrow> lang (Alt r q) s"
| AltR: "lang q s \<Longrightarrow> lang (Alt r q) s"
| Cat: "lang r s \<Longrightarrow> lang q t \<Longrightarrow> lang (Cat r q) (s @ t)"
| StarNil: "lang (Star r) []"
| StarCons: "lang r s \<Longrightarrow> lang (Star r) t \<Longrightarrow> lang (Star r) (s @ t)"

inductive_simps lang_Never [simp]: "lang Never s"
inductive_simps lang_Eps [simp]: "lang Eps s"
inductive_simps lang_Cls: "lang (Cls p) s"
inductive_simps lang_Alt [simp]: "lang (Alt r q) s"
inductive_simps lang_Cat: "lang (Cat r q) s"
inductive_simps lang_Star: "lang (Star r) s"

fun nullable :: "rx \<Rightarrow> bool" where
  "nullable Never = False"
| "nullable Eps = True"
| "nullable (Cls p) = False"
| "nullable (Alt r q) = (nullable r \<or> nullable q)"
| "nullable (Cat r q) = (nullable r \<and> nullable q)"
| "nullable (Star r) = True"

text \<open>\<open>cat\<close> and \<open>alt\<close> drop the dead branches that derivatives create.\<close>

fun cat :: "rx \<Rightarrow> rx \<Rightarrow> rx" where
  "cat Never q = Never"
| "cat Eps q = q"
| "cat r q = Cat r q"

fun alt :: "rx \<Rightarrow> rx \<Rightarrow> rx" where
  "alt Never q = q"
| "alt r Never = r"
| "alt r q = Alt r q"

fun deriv :: "char \<Rightarrow> rx \<Rightarrow> rx" where
  "deriv c Never = Never"
| "deriv c Eps = Never"
| "deriv c (Cls p) = (if p c then Eps else Never)"
| "deriv c (Alt r q) = alt (deriv c r) (deriv c q)"
| "deriv c (Cat r q) =
     (if nullable r then alt (cat (deriv c r) q) (deriv c q) else cat (deriv c r) q)"
| "deriv c (Star r) = cat (deriv c r) (Star r)"

fun MatchString :: "rx \<Rightarrow> string \<Rightarrow> bool" where
  "MatchString r [] = nullable r"
| "MatchString r (c # cs) = MatchString (deriv c r) cs"

lemma lang_cat [simp]: "lang (cat r q) s \<longleftrightarrow> lang (Cat r q) s"
  by (cases r) (auto simp: lang_Cat)

lemma lang_alt [simp]: "lang (alt r q) s \<longleftrightarrow> lang (Alt r q) s"
  by (cases r; cases q) auto

lemma nullable_iff: "nullable r \<longleftrightarrow> lang r []"
  by (induction r) (auto simp: lang_Cls lang_Cat intro: lang.StarNil)

lemma lang_Star_Cons:
  "lang (Star r) (c # s) \<longleftrightarrow> (\<exists>u v. s = u @ v \<and> lang r (c # u) \<and> lang (Star r) v)"
proof
  have "lang q t \<Longrightarrow> q = Star r \<Longrightarrow> t = c # s \<Longrightarrow>
      \<exists>u v. s = u @ v \<and> lang r (c # u) \<and> lang (Star r) v" for q t
  proof (induction arbitrary: s rule: lang.induct)
    case (StarCons r' u t')
    then show ?case by (cases u) auto
  qed auto
  then show "lang (Star r) (c # s) \<Longrightarrow>
      \<exists>u v. s = u @ v \<and> lang r (c # u) \<and> lang (Star r) v" by blast
next
  assume "\<exists>u v. s = u @ v \<and> lang r (c # u) \<and> lang (Star r) v"
  then obtain u v where "s = u @ v" "lang r (c # u)" "lang (Star r) v" by blast
  then show "lang (Star r) (c # s)"
    using lang.StarCons [of r "c # u" v] by simp
qed

lemma lang_Cat_Cons:
  "lang (Cat r q) (c # s) \<longleftrightarrow>
     (\<exists>u v. s = u @ v \<and> lang r (c # u) \<and> lang q v) \<or> (lang r [] \<and> lang q (c # s))"
  by (auto simp: lang_Cat Cons_eq_append_conv)

lemma lang_Cls_Cat: "lang (Cat (Cls p) q) s \<longleftrightarrow> (\<exists>c t. s = c # t \<and> p c \<and> lang q t)"
  unfolding lang_Cat lang_Cls by (metis append_Cons append_Nil)

lemma lang_deriv: "lang (deriv c r) s \<longleftrightarrow> lang r (c # s)"
proof (induction r arbitrary: s)
  case (Cat r q)
  then show ?case
    by (simp add: nullable_iff lang_Cat_Cons lang_Cat [of "deriv c r"])
next
  case (Star r)
  then show ?case by (simp add: lang_Cat lang_Star_Cons)
qed (auto simp: lang_Cls)

theorem MatchString_iff: "MatchString r s \<longleftrightarrow> lang r s"
  by (induction r s rule: MatchString.induct) (simp_all add: nullable_iff lang_deriv)

section \<open>Repetition\<close>

definition Opt :: "rx \<Rightarrow> rx" where
  "Opt r = Alt r Eps"

definition Plus :: "rx \<Rightarrow> rx" where
  "Plus r = Cat r (Star r)"

text \<open>\<open>r{m,m+n}\<close>: \<open>m\<close> copies and up to \<open>n\<close> more.\<close>

fun upto_times :: "nat \<Rightarrow> rx \<Rightarrow> rx" where
  "upto_times 0 r = Eps"
| "upto_times (Suc n) r = Opt (Cat r (upto_times n r))"

fun times :: "nat \<Rightarrow> rx \<Rightarrow> rx" where
  "times 0 r = Eps"
| "times (Suc m) r = Cat r (times m r)"

definition Rep :: "nat \<Rightarrow> nat \<Rightarrow> rx \<Rightarrow> rx" where
  "Rep m n r = Cat (times m r) (upto_times (n - m) r)"

lemma lang_upto_times_Cls:
  "lang (upto_times n (Cls p)) s \<longleftrightarrow> length s \<le> n \<and> list_all p s"
proof (induction n arbitrary: s)
  case 0
  show ?case by auto
next
  case (Suc n)
  then show ?case
    by (cases s) (auto simp: Opt_def lang_Cls_Cat)
qed

lemma lang_times_Cls: "lang (times m (Cls p)) s \<longleftrightarrow> length s = m \<and> list_all p s"
proof (induction m arbitrary: s)
  case 0
  show ?case by auto
next
  case (Suc m)
  then show ?case by (cases s) (auto simp: lang_Cls_Cat)
qed

lemma lang_Rep_Cls:
  assumes "m \<le> n"
  shows "lang (Rep m n (Cls p)) s \<longleftrightarrow> m \<le> length s \<and> length s \<le> n \<and> list_all p s"
proof
  assume "lang (Rep m n (Cls p)) s"
  then show "m \<le> length s \<and> length s \<le> n \<and> list_all p s"
    using assms by (auto simp: Rep_def lang_Cat lang_times_Cls lang_upto_times_Cls)
next
  assume a: "m \<le> length s \<and> length s \<le> n \<and> list_all p s"
  then have "list_all p (take m s)" "list_all p (drop m s)"
    by (metis append_take_drop_id list_all_append)+
  with a have "lang (times m (Cls p)) (take m s)"
    and "lang (upto_times (n - m) (Cls p)) (drop m s)"
    by (auto simp: lang_times_Cls lang_upto_times_Cls)
  then show "lang (Rep m n (Cls p)) s"
    unfolding Rep_def using lang.Cat append_take_drop_id by metis
qed

lemma lang_Star_concat:
  "lang (Star r) s \<longleftrightarrow> (\<exists>ss. s = concat ss \<and> (\<forall>u \<in> set ss. lang r u))"
proof
  have "lang q s \<Longrightarrow> q = Star r \<Longrightarrow> \<exists>ss. s = concat ss \<and> (\<forall>u \<in> set ss. lang r u)" for q
  proof (induction rule: lang.induct)
    case (StarNil r)
    then show ?case by (intro exI [of _ "[]"]) simp
  next
    case (StarCons r' s' t)
    then obtain ss where "t = concat ss" "\<forall>u \<in> set ss. lang r u" by auto
    with StarCons show ?case by (intro exI [of _ "s' # ss"]) auto
  qed auto
  then show "lang (Star r) s \<Longrightarrow> \<exists>ss. s = concat ss \<and> (\<forall>u \<in> set ss. lang r u)" by blast
next
  assume "\<exists>ss. s = concat ss \<and> (\<forall>u \<in> set ss. lang r u)"
  then obtain ss where "s = concat ss" "\<forall>u \<in> set ss. lang r u" by blast
  then show "lang (Star r) s"
    by (induction ss arbitrary: s) (auto intro: lang.StarNil lang.StarCons)
qed

end
