(* ===== verification/Domain_Validate.thy ===== *)
theory Domain_Validate
  imports Domain_Error Go_Regexp
begin

text \<open>
  The shared validators of \<open>internal/domain/validate.go\<close>: bounded text, BCP-47 language tags and
  ISBN check digits.  The language-tag pattern is the regular expression of the source, run by
  the matcher of \<open>Go_Regexp\<close>; the ISBN checks are the source's loops, shown to compute the
  weighted check sums and to detect every single wrong digit.
\<close>

section \<open>Bounded text\<close>

definition ValidateBoundedText :: "string \<Rightarrow> string \<Rightarrow> nat \<Rightarrow> go_error option" where
  "ValidateBoundedText field s maxLen =
     (if TrimSpace s = [] then
        Some (DomainError InvalidInput
          (Msg ''%s must not be empty or whitespace-only'' [AStr field]) None)
      else if length (runes s) > maxLen then
        Some (DomainError InvalidInput
          (Msg ''%s exceeds maximum length of %d characters'' [AStr field, AInt (int maxLen)]) None)
      else if list_ex IsControl (runes s) then
        Some (DomainError InvalidInput (Msg ''%s contains a control character'' [AStr field]) None)
      else None)"

text \<open>What a value that passed is.\<close>

definition bounded_text :: "nat \<Rightarrow> string \<Rightarrow> bool" where
  "bounded_text maxLen s \<longleftrightarrow>
     (\<exists>r \<in> set (runes s). \<not> IsSpace r) \<and> length (runes s) \<le> maxLen
     \<and> (\<forall>r \<in> set (runes s). \<not> IsControl r)"

lemma ValidateBoundedText_iff: "ValidateBoundedText f s n = None \<longleftrightarrow> bounded_text n s"
  using blank_iff [of s]
  by (auto simp: ValidateBoundedText_def bounded_text_def blank_def list_ex_iff)

lemma ValidateBoundedText_dest:
  "ValidateBoundedText f s n = None \<Longrightarrow> bounded_text n s"
  "ValidateBoundedText f s n = Some e \<Longrightarrow> \<not> bounded_text n s"
  using ValidateBoundedText_iff [of f s n] by auto

lemma ValidateBoundedText_category:
  "ValidateBoundedText f s n = Some e \<Longrightarrow> CategoryOf e = InvalidInput"
  by (auto simp: ValidateBoundedText_def split: if_splits)

text \<open>Printable ASCII without spaces is accepted up to the length bound.\<close>

lemma ValidateBoundedText_printable:
  assumes "list_all (\<lambda>c. 32 < byte_of c \<and> byte_of c < 127) s" "s \<noteq> []" "length s \<le> n"
  shows "ValidateBoundedText f s n = None"
proof -
  have "runes s = map byte_of s"
    using assms(1) by (intro runes_all_ascii) (auto simp: list_all_iff)
  then show ?thesis
    using assms unfolding ValidateBoundedText_iff bounded_text_def
    by (cases s) (auto simp: list_all_iff IsSpace_def IsControl_def between_def)
qed

lemma bounded_text_nonempty: "bounded_text n s \<Longrightarrow> s \<noteq> []"
  by (auto simp: bounded_text_def runes_def)

section \<open>Language tags\<close>

definition bcp47Pattern :: rx where
  "bcp47Pattern =
     Cat (Rep 2 8 (Cls is_alpha))
         (Star (Cat (Cls (\<lambda>c. c = CHR ''-'')) (Rep 1 8 (Cls is_alnum))))"

definition ValidateLanguageTag :: "string \<Rightarrow> go_error option" where
  "ValidateLanguageTag s =
     (if \<not> MatchString bcp47Pattern s
      then Some (derr InvalidInput ''language must be a valid BCP-47 tag'') else None)"

text \<open>The shape of a tag, read off its hyphen-separated subtags.\<close>

definition tag_shape :: "string list \<Rightarrow> bool" where
  "tag_shape ps \<longleftrightarrow>
     (case ps of [] \<Rightarrow> False
      | p # qs \<Rightarrow> 2 \<le> length p \<and> length p \<le> 8 \<and> list_all is_alpha p
          \<and> (\<forall>q \<in> set qs. 1 \<le> length q \<and> length q \<le> 8 \<and> list_all is_alnum q))"

lemma no_hyphen:
  "list_all is_alpha s \<Longrightarrow> CHR ''-'' \<notin> set s" "list_all is_alnum s \<Longrightarrow> CHR ''-'' \<notin> set s"
  by (auto simp: list_all_iff char_classes)

lemma split_on_hyphens:
  assumes "CHR ''-'' \<notin> set p" "\<forall>q \<in> set qs. CHR ''-'' \<notin> set q"
  shows "split_on CHR ''-'' (p @ concat (map (Cons CHR ''-'') qs)) = p # qs"
  using assms
proof (induction qs arbitrary: p)
  case Nil
  then show ?case by (simp add: split_on_no_sep)
next
  case (Cons q qs)
  then show ?case by (simp add: split_on_append)
qed

lemma join_hyphens: "join_with s (p # qs) = p @ concat (map (Cons s) qs)"
  by (induction qs arbitrary: p) auto

lemma lang_subtags:
  "lang (Star (Cat (Cls (\<lambda>c. c = CHR ''-'')) (Rep 1 8 (Cls is_alnum)))) s \<longleftrightarrow>
     (\<exists>qs. s = concat (map (Cons CHR ''-'') qs)
        \<and> (\<forall>q \<in> set qs. 1 \<le> length q \<and> length q \<le> 8 \<and> list_all is_alnum q))"
  (is "?L \<longleftrightarrow> ?R")
proof
  assume ?L
  then obtain ss where ss: "s = concat ss"
    "\<forall>u \<in> set ss. lang (Cat (Cls (\<lambda>c. c = CHR ''-'')) (Rep 1 8 (Cls is_alnum))) u"
    by (auto simp: lang_Star_concat)
  then have "\<forall>u \<in> set ss. u = CHR ''-'' # tl u \<and> 1 \<le> length (tl u) \<and> length (tl u) \<le> 8
      \<and> list_all is_alnum (tl u)"
    by (auto simp: lang_Cls_Cat lang_Rep_Cls)
  then have "ss = map (Cons CHR ''-'') (map tl ss)"
    and "\<forall>q \<in> set (map tl ss). 1 \<le> length q \<and> length q \<le> 8 \<and> list_all is_alnum q"
    by (induction ss) auto
  with ss(1) show ?R by metis
next
  assume ?R
  then obtain qs where qs: "s = concat (map (Cons CHR ''-'') qs)"
    "\<forall>q \<in> set qs. 1 \<le> length q \<and> length q \<le> 8 \<and> list_all is_alnum q" by blast
  then show ?L
    unfolding lang_Star_concat
    by (intro exI [of _ "map (Cons CHR ''-'') qs"]) (auto simp: lang_Cls_Cat lang_Rep_Cls)
qed

lemma ValidateLanguageTag_iff:
  "ValidateLanguageTag s = None \<longleftrightarrow> tag_shape (split_on CHR ''-'' s)"
proof -
  have "ValidateLanguageTag s = None \<longleftrightarrow> lang bcp47Pattern s"
    by (simp add: ValidateLanguageTag_def MatchString_iff)
  also have "\<dots> \<longleftrightarrow> (\<exists>p qs. s = p @ concat (map (Cons CHR ''-'') qs) \<and> tag_shape (p # qs))"
    unfolding bcp47Pattern_def lang_Cat lang_subtags by (auto simp: lang_Rep_Cls tag_shape_def)
  also have "\<dots> \<longleftrightarrow> tag_shape (split_on CHR ''-'' s)" (is "?L \<longleftrightarrow> ?R")
  proof
    assume ?L
    then show ?R by (auto simp: tag_shape_def no_hyphen split_on_hyphens)
  next
    assume R: ?R
    obtain p qs where pq: "split_on CHR ''-'' s = p # qs"
      by (cases "split_on CHR ''-'' s") auto
    then have "s = p @ concat (map (Cons CHR ''-'') qs)"
      by (metis join_split join_hyphens)
    with R pq show ?L by auto
  qed
  finally show ?thesis .
qed

section \<open>ISBN check sums\<close>

definition digit_value :: "char \<Rightarrow> int" where
  "digit_value c = int (byte_of c) - 48"

text \<open>The loop of \<open>isValidISBN10\<close>: \<open>i\<close> is the loop counter, the list the bytes not yet read.\<close>

fun isbn10_loop :: "nat \<Rightarrow> int \<Rightarrow> string \<Rightarrow> bool" where
  "isbn10_loop i acc [] \<longleftrightarrow> acc mod 11 = 0"
| "isbn10_loop i acc (c # cs) \<longleftrightarrow>
     (if is_digit c then isbn10_loop (Suc i) (acc + digit_value c * (10 - int i)) cs
      else if c = CHR ''X'' \<and> i = 9 then isbn10_loop (Suc i) (acc + 10 * (10 - int i)) cs
      else False)"

definition isValidISBN10 :: "string \<Rightarrow> bool" where
  "isValidISBN10 s = isbn10_loop 0 0 (take 10 s)"

fun isbn13_loop :: "nat \<Rightarrow> int \<Rightarrow> string \<Rightarrow> bool" where
  "isbn13_loop i acc [] \<longleftrightarrow> acc mod 10 = 0"
| "isbn13_loop i acc (c # cs) \<longleftrightarrow>
     (if \<not> is_digit c then False
      else isbn13_loop (Suc i)
        (if i mod 2 = 0 then acc + digit_value c else acc + digit_value c * 3) cs)"

definition isValidISBN13 :: "string \<Rightarrow> bool" where
  "isValidISBN13 s = isbn13_loop 0 0 (take 13 s)"

definition ValidateISBN :: "string \<Rightarrow> go_error option" where
  "ValidateISBN s =
     (let cleaned = remove_byte CHR ''-'' s;
          valid = (if length cleaned = 10 then isValidISBN10 cleaned
                   else if length cleaned = 13 then isValidISBN13 cleaned
                   else False)
      in if \<not> valid then Some (derr InvalidInput ''isbn is not a valid ISBN-10 or ISBN-13'')
         else None)"

subsection \<open>The loops compute weighted check sums\<close>

text \<open>The check sum of a string read from position \<open>i\<close> on: a weight per position.\<close>

fun wsum :: "(nat \<Rightarrow> int) \<Rightarrow> (char \<Rightarrow> int) \<Rightarrow> nat \<Rightarrow> string \<Rightarrow> int" where
  "wsum w v i [] = 0"
| "wsum w v i (c # cs) = w i * v c + wsum w v (Suc i) cs"

lemma wsum_eq_sum: "wsum w v i s = (\<Sum>k < length s. w (i + k) * v (s ! k))"
  by (induction w v i s rule: wsum.induct)
     (simp_all add: sum.lessThan_Suc_shift del: sum.lessThan_Suc)

lemma wsum_update:
  "k < length s \<Longrightarrow> wsum w v i (s[k := c]) = wsum w v i s + w (i + k) * (v c - v (s ! k))"
proof (induction s arbitrary: i k)
  case Nil
  then show ?case by simp
next
  case (Cons x xs)
  show ?case
  proof (cases k)
    case 0
    then show ?thesis by (simp add: right_diff_distrib)
  next
    case (Suc m)
    with Cons.prems Cons.IH [of m "Suc i"] show ?thesis by simp
  qed
qed

text \<open>Values and weights of the two formats; \<open>X\<close> is worth ten and only ends an ISBN-10.\<close>

definition isbn10_value :: "char \<Rightarrow> int" where
  "isbn10_value c = (if c = CHR ''X'' then 10 else digit_value c)"

definition isbn10_char :: "nat \<Rightarrow> char \<Rightarrow> bool" where
  "isbn10_char i c \<longleftrightarrow> is_digit c \<or> (c = CHR ''X'' \<and> i = 9)"

definition isbn13_weight :: "nat \<Rightarrow> int" where
  "isbn13_weight i = (if even i then 1 else 3)"

lemma digit_not_X: "is_digit c \<Longrightarrow> c \<noteq> CHR ''X''"
  by (auto simp: char_classes)

lemma digit_value_range: "is_digit c \<Longrightarrow> 0 \<le> digit_value c \<and> digit_value c \<le> 9"
  by (auto simp: char_classes digit_value_def)

lemma digit_value_inj: "is_digit c \<Longrightarrow> is_digit d \<Longrightarrow> digit_value c = digit_value d \<Longrightarrow> c = d"
  by (auto simp: digit_value_def)

lemma isbn10_value_range: "isbn10_char i c \<Longrightarrow> 0 \<le> isbn10_value c \<and> isbn10_value c \<le> 10"
  using digit_value_range [of c] by (auto simp: isbn10_value_def isbn10_char_def)

lemma isbn10_value_inj:
  "isbn10_char i c \<Longrightarrow> isbn10_char j d \<Longrightarrow> isbn10_value c = isbn10_value d \<Longrightarrow> c = d"
  using digit_value_range [of c] digit_value_range [of d]
  by (auto simp: isbn10_value_def isbn10_char_def digit_not_X intro: digit_value_inj split: if_splits)

lemma isbn10_loop_iff:
  "isbn10_loop i acc cs \<longleftrightarrow>
     (\<forall>k < length cs. isbn10_char (i + k) (cs ! k))
     \<and> (acc + wsum (\<lambda>k. 10 - int k) isbn10_value i cs) mod 11 = 0"
proof (induction i acc cs rule: isbn10_loop.induct)
  case (1 i acc)
  show ?case by simp
next
  case (2 i acc c cs)
  have all: "(\<forall>k < length (c # cs). isbn10_char (i + k) ((c # cs) ! k)) \<longleftrightarrow>
      isbn10_char i c \<and> (\<forall>k < length cs. isbn10_char (Suc i + k) (cs ! k))"
    by (auto simp: less_Suc_eq_0_disj)
  show ?case
  proof (cases "is_digit c")
    case True
    with "2.IH"(1) show ?thesis
      by (simp only: all) (simp add: isbn10_char_def isbn10_value_def digit_not_X algebra_simps)
  next
    case False
    with "2.IH"(2) show ?thesis
      by (simp only: all) (auto simp: isbn10_char_def isbn10_value_def algebra_simps)
  qed
qed

lemma isbn13_loop_iff:
  "isbn13_loop i acc cs \<longleftrightarrow>
     list_all is_digit cs \<and> (acc + wsum isbn13_weight digit_value i cs) mod 10 = 0"
  by (induction i acc cs rule: isbn13_loop.induct)
     (auto simp: isbn13_weight_def even_iff_mod_2_eq_zero algebra_simps)

lemma isValidISBN10_iff:
  assumes "length s = 10"
  shows "isValidISBN10 s \<longleftrightarrow> (\<forall>k < 10. isbn10_char k (s ! k))
     \<and> (\<Sum>k < 10. (10 - int k) * isbn10_value (s ! k)) mod 11 = 0"
  using assms by (simp add: isValidISBN10_def isbn10_loop_iff wsum_eq_sum)

lemma isValidISBN13_iff:
  assumes "length s = 13"
  shows "isValidISBN13 s \<longleftrightarrow> list_all is_digit s
     \<and> (\<Sum>k < 13. isbn13_weight k * digit_value (s ! k)) mod 10 = 0"
  using assms by (simp add: isValidISBN13_def isbn13_loop_iff wsum_eq_sum)

subsection \<open>Error detection\<close>

lemma isbn13_update_invalid:
  assumes "length s = 13" "isValidISBN13 s" "k < 13" "c \<noteq> s ! k"
  shows "\<not> isValidISBN13 (s[k := c])"
proof
  assume v': "isValidISBN13 (s[k := c])"
  let ?W = "wsum isbn13_weight digit_value 0"
  have s: "list_all is_digit s" "?W s mod 10 = 0"
    using assms(1,2) by (auto simp: isValidISBN13_def isbn13_loop_iff)
  have s': "list_all is_digit (s[k := c])" "?W (s[k := c]) mod 10 = 0"
    using assms(1) v' by (auto simp: isValidISBN13_def isbn13_loop_iff)
  have dk: "is_digit (s ! k)" using s(1) assms(1,3) by (simp add: list_all_length)
  have dc: "is_digit c"
    using s'(1) assms(1,3) by (metis length_list_update list_all_length nth_list_update_eq)
  let ?d = "digit_value c - digit_value (s ! k)"
  have "(?W s + isbn13_weight k * ?d) mod 10 = 0"
    using s'(2) assms(1,3) by (simp add: wsum_update)
  with s(2) have "(isbn13_weight k * ?d) mod 10 = 0"
    by presburger
  moreover have "-9 \<le> ?d \<and> ?d \<le> 9"
    using digit_value_range [OF dc] digit_value_range [OF dk] by simp
  ultimately have "?d = 0"
    by (auto simp: isbn13_weight_def split: if_splits; presburger)
  with digit_value_inj [OF dc dk] assms(4) show False by simp
qed

text \<open>A product of two non-zero factors below 11 is never a multiple of 11.\<close>

lemma no_zero_divisors_11:
  fixes a b :: int
  assumes "(a * b) mod 11 = 0" "\<bar>a\<bar> < 11" "\<bar>b\<bar> < 11"
  shows "a = 0 \<or> b = 0"
proof -
  have pos: "b = 0" if "(m * b) mod 11 = 0" "0 < m" "m < 11" for m :: int
  proof -
    have "m \<in> {1, 2, 3, 4, 5, 6, 7, 8, 9, 10}"
      unfolding insert_iff empty_iff using that(2,3) by presburger
    then show ?thesis using that(1) assms(3) by (elim insertE; simp; presburger)
  qed
  have "(\<bar>a\<bar> * b) mod 11 = 0"
    using assms(1) by (cases "a < 0") (simp_all add: zmod_zminus1_eq_if)
  then show ?thesis using pos [of "\<bar>a\<bar>"] assms(2) by auto
qed

lemma isbn10_validD:
  assumes "length s = 10" "isValidISBN10 s"
  shows "wsum (\<lambda>k. 10 - int k) isbn10_value 0 s mod 11 = 0"
    and "k < 10 \<Longrightarrow> isbn10_char k (s ! k)"
  using assms by (auto simp: isValidISBN10_def isbn10_loop_iff)

lemma isbn10_update_invalid:
  assumes "length s = 10" "isValidISBN10 s" "k < 10" "c \<noteq> s ! k"
  shows "\<not> isValidISBN10 (s[k := c])"
proof
  assume v': "isValidISBN10 (s[k := c])"
  let ?W = "wsum (\<lambda>k. 10 - int k) isbn10_value 0"
  note s = isbn10_validD [OF assms(1,2)]
  note s' = isbn10_validD [of "s[k := c]", OF _ v']
  have ck: "isbn10_char k (s ! k)" by (rule s(2)) (rule assms(3))
  have cc: "isbn10_char k c" using s'(2) [of k] assms(1,3) by simp
  let ?d = "isbn10_value c - isbn10_value (s ! k)"
  have "(?W s + (10 - int k) * ?d) mod 11 = 0"
    using s'(1) assms(1,3) by (simp add: wsum_update)
  with s(1) have "((10 - int k) * ?d) mod 11 = 0"
    by presburger
  moreover have "\<bar>?d\<bar> < 11"
    using isbn10_value_range [OF cc] isbn10_value_range [OF ck] by linarith
  ultimately have "?d = 0"
    using no_zero_divisors_11 [of "10 - int k" ?d] assms(3) by auto
  with isbn10_value_inj [OF cc ck] assms(4) show False by simp
qed

lemma isbn10_swap_invalid:
  assumes "length s = 10" "isValidISBN10 s" "j < 10" "k < 10" "s ! j \<noteq> s ! k"
  shows "\<not> isValidISBN10 (s[j := s ! k, k := s ! j])"
proof
  assume v': "isValidISBN10 (s[j := s ! k, k := s ! j])"
  let ?W = "wsum (\<lambda>k. 10 - int k) isbn10_value 0"
  have jk: "j \<noteq> k" using assms(5) by auto
  note s = isbn10_validD [OF assms(1,2)]
  have cj: "isbn10_char j (s ! j)" and ck: "isbn10_char k (s ! k)"
    using s(2) assms(3,4) by auto
  let ?d = "isbn10_value (s ! k) - isbn10_value (s ! j)"
  have "?W (s[j := s ! k, k := s ! j]) = ?W s + (10 - int j) * ?d - (10 - int k) * ?d"
    using assms(1,3,4) jk by (simp add: wsum_update algebra_simps)
  also have "\<dots> = ?W s + (int k - int j) * ?d" by (simp add: algebra_simps)
  finally have "(?W s + (int k - int j) * ?d) mod 11 = 0"
    using isbn10_validD(1) [of "s[j := s ! k, k := s ! j]", OF _ v'] assms(1) by simp
  with s(1) have "((int k - int j) * ?d) mod 11 = 0"
    by presburger
  moreover have "\<bar>?d\<bar> < 11"
    using isbn10_value_range [OF cj] isbn10_value_range [OF ck] by linarith
  ultimately have "?d = 0"
    using no_zero_divisors_11 [of "int k - int j" ?d] assms(3,4) jk by auto
  with isbn10_value_inj [OF ck cj] assms(5) show False by simp
qed

text \<open>Lifted to \<open>ValidateISBN\<close>, for a number written without hyphens.\<close>

lemma ValidateISBN_None_iff:
  assumes "CHR ''-'' \<notin> set s"
  shows "ValidateISBN s = None \<longleftrightarrow>
     length s = 10 \<and> isValidISBN10 s \<or> length s = 13 \<and> isValidISBN13 s"
  using assms by (auto simp: ValidateISBN_def Let_def remove_byte_id)

lemma ValidateISBN_None_length:
  "ValidateISBN s = None \<Longrightarrow> length (remove_byte CHR ''-'' s) \<in> {10, 13}"
  by (auto simp: ValidateISBN_def Let_def split: if_splits)

lemma length_remove_byte_update:
  assumes "c \<notin> set s" "k < length s"
  shows "length (remove_byte c (s[k := c])) = length s - 1"
proof -
  have "filter (\<lambda>x. x \<noteq> c) (take k s) = take k s"
    and "filter (\<lambda>x. x \<noteq> c) (drop (Suc k) s) = drop (Suc k) s"
    using assms(1) by (auto simp: filter_id_conv dest: in_set_takeD in_set_dropD)
  then have "remove_byte c (s[k := c]) = take k s @ drop (Suc k) s"
    using assms(2) by (simp add: remove_byte_def upd_conv_take_nth_drop)
  then show ?thesis using assms(2) by simp
qed

text \<open>ISBN validation detects every single-character error.  In an accepted number written
  without hyphens, replacing one character by any different one (a wrong digit, a letter, a
  hyphen) is rejected, for ISBN-10 and ISBN-13 alike.
\<close>

theorem isbn_single_error_detected:
  assumes "ValidateISBN s = None" and "CHR ''-'' \<notin> set s" and "k < length s" and "c \<noteq> s ! k"
  shows "ValidateISBN (s[k := c]) \<noteq> None"
proof (cases "c = CHR ''-''")
  case True
  have "length s \<in> {10, 13}"
    using ValidateISBN_None_length [OF assms(1)] assms(2) by (simp add: remove_byte_id)
  then have "length (remove_byte CHR ''-'' (s[k := c])) \<notin> {10, 13}"
    using True assms(2,3) by (auto simp: length_remove_byte_update)
  then show ?thesis using ValidateISBN_None_length by blast
next
  case False
  then have "CHR ''-'' \<notin> set (s[k := c])"
    using assms(2,3) set_update_subset_insert [of s k c] by auto
  then show ?thesis
    using assms isbn10_update_invalid isbn13_update_invalid
    by (auto simp: ValidateISBN_None_iff)
qed

theorem isbn_single_error_detected_witness:
  "ValidateISBN ''9780306406157'' = None \<and> ValidateISBN (''9780306406157''[12 := CHR ''8'']) \<noteq> None"
proof -
  have ok: "ValidateISBN ''9780306406157'' = None"
    by (simp add: ValidateISBN_def remove_byte_def isValidISBN13_def char_classes digit_value_def)
  show ?thesis
    using ok isbn_single_error_detected [OF ok, of 12 "CHR ''8''"] by simp
qed

end
