(* ===== verification/Domain_Catalog.thy ===== *)
theory Domain_Catalog
  imports Domain_Validate
begin

text \<open>
  The catalogue and library aggregates of \<open>internal/domain\<close>: identifiers, value types, the
  aggregates' records and their constructors (\<open>work.go\<close>, \<open>author.go\<close>, \<open>edition.go\<close>,
  \<open>source.go\<close>, \<open>source_offering.go\<close>, \<open>file_reference.go\<close>, \<open>library_entry.go\<close>,
  \<open>collection.go\<close>, \<open>bookmark_and_highlight.go\<close>, \<open>reading_preferences.go\<close>, \<open>rehydrate.go\<close>).
  A constructor returns \<open>Inl\<close> the validation error or \<open>Inr\<close> the aggregate; for each
  validating constructor the accepted arguments are characterised exactly.
\<close>

section \<open>Identifiers and value types\<close>

type_synonym WorkID = string
type_synonym EditionID = string
type_synonym AuthorID = string
type_synonym LibraryEntryID = string
type_synonym CollectionID = string
type_synonym SourceID = string
type_synonym SourceOfferingID = string
type_synonym BookmarkID = string
type_synonym HighlightID = string
type_synonym LibraryID = string
type_synonym UserID = string
type_synonym DeviceID = string

text \<open>\<open>ExternalReference\<close>, \<open>Subject\<close> and \<open>Language\<close> are compared by value.\<close>

record ExternalReference =
  er_source :: string
  er_id :: string

datatype Subject = Subject (subject_value: string)

datatype Language = Language (language_tag: string)

definition maxAuthorNameLength :: nat where "maxAuthorNameLength = 200"
definition maxTitleLength :: nat where "maxTitleLength = 500"
definition maxSubjectLength :: nat where "maxSubjectLength = 100"
definition maxSourceLabelLength :: nat where "maxSourceLabelLength = 100"
definition maxCollectionNameLength :: nat where "maxCollectionNameLength = 100"

definition NewSubject :: "string \<Rightarrow> Subject result" where
  "NewSubject value =
     (case ValidateBoundedText ''subject'' value maxSubjectLength of
        Some err \<Rightarrow> Inl err | None \<Rightarrow> Inr (Subject value))"

definition NewLanguage :: "string \<Rightarrow> Language result" where
  "NewLanguage tag =
     (case ValidateLanguageTag tag of Some err \<Rightarrow> Inl err | None \<Rightarrow> Inr (Language tag))"

lemma NewSubject_ok_iff: "NewSubject v = Inr s \<longleftrightarrow> s = Subject v \<and> bounded_text maxSubjectLength v"
  by (auto simp: NewSubject_def split: option.splits dest: ValidateBoundedText_dest)

lemma NewLanguage_ok_iff:
  "NewLanguage t = Inr l \<longleftrightarrow> l = Language t \<and> tag_shape (split_on CHR ''-'' t)"
  by (auto simp: NewLanguage_def split: option.splits simp flip: ValidateLanguageTag_iff)

section \<open>Works and authors\<close>

record Work =
  w_id :: WorkID
  w_title :: string
  w_subtitle :: string
  w_authors :: "AuthorID list"
  w_subjects :: "Subject list"
  w_originalLanguage :: "Language option"
  w_externalReferences :: "ExternalReference list"
  w_mergedInto :: "WorkID option"
  w_contains :: "WorkID list"

record Author =
  a_id :: AuthorID
  a_name :: string
  a_externalReferences :: "ExternalReference list"
  a_mergedInto :: "AuthorID option"

definition NewWork ::
  "WorkID \<Rightarrow> string \<Rightarrow> string \<Rightarrow> AuthorID list \<Rightarrow> Subject list \<Rightarrow> Language option
   \<Rightarrow> ExternalReference list \<Rightarrow> Work result" where
  "NewWork wid title subtitle authors subjects originalLanguage externalReferences =
     (case ValidateBoundedText ''title'' title maxTitleLength of
        Some err \<Rightarrow> Inl err
      | None \<Rightarrow>
         (case (if subtitle \<noteq> [] then ValidateBoundedText ''subtitle'' subtitle maxTitleLength
                else None) of
            Some err \<Rightarrow> Inl err
          | None \<Rightarrow> Inr \<lparr> w_id = wid, w_title = title, w_subtitle = subtitle, w_authors = authors,
                     w_subjects = subjects, w_originalLanguage = originalLanguage,
                     w_externalReferences = externalReferences, w_mergedInto = None,
                     w_contains = [] \<rparr>))"

definition NewAuthor :: "AuthorID \<Rightarrow> string \<Rightarrow> ExternalReference list \<Rightarrow> Author result" where
  "NewAuthor aid name externalReferences =
     (case ValidateBoundedText ''name'' name maxAuthorNameLength of
        Some err \<Rightarrow> Inl err
      | None \<Rightarrow> Inr \<lparr> a_id = aid, a_name = name, a_externalReferences = externalReferences,
                 a_mergedInto = None \<rparr>)"

definition RehydrateWork ::
  "WorkID \<Rightarrow> string \<Rightarrow> string \<Rightarrow> AuthorID list \<Rightarrow> Subject list \<Rightarrow> Language option
   \<Rightarrow> ExternalReference list \<Rightarrow> WorkID option \<Rightarrow> WorkID list \<Rightarrow> Work" where
  "RehydrateWork wid title subtitle authors subjects originalLanguage externalReferences
       mergedInto contains =
     \<lparr> w_id = wid, w_title = title, w_subtitle = subtitle, w_authors = authors,
       w_subjects = subjects, w_originalLanguage = originalLanguage,
       w_externalReferences = externalReferences, w_mergedInto = mergedInto,
       w_contains = contains \<rparr>"

definition RehydrateAuthor ::
  "AuthorID \<Rightarrow> string \<Rightarrow> ExternalReference list \<Rightarrow> AuthorID option \<Rightarrow> Author" where
  "RehydrateAuthor aid name externalReferences mergedInto =
     \<lparr> a_id = aid, a_name = name, a_externalReferences = externalReferences,
       a_mergedInto = mergedInto \<rparr>"

definition valid_work_text :: "Work \<Rightarrow> bool" where
  "valid_work_text w \<longleftrightarrow> bounded_text maxTitleLength (w_title w)
     \<and> (w_subtitle w = [] \<or> bounded_text maxTitleLength (w_subtitle w))"

lemma NewWork_ok [ok_dest]:
  assumes "NewWork i t st as ss ol rs = Inr w"
  shows "valid_work_text w" "w_id w = i" "w_mergedInto w = None" "w_contains w = []"
  using assms
  by (auto simp: NewWork_def valid_work_text_def split: option.splits if_splits
      dest: ValidateBoundedText_dest)

lemma NewWork_total:
  "bounded_text maxTitleLength t \<Longrightarrow> st = [] \<or> bounded_text maxTitleLength st \<Longrightarrow>
   \<exists>w. NewWork i t st as ss ol rs = Inr w"
  by (auto simp: NewWork_def ValidateBoundedText_iff [THEN iffD2])

section \<open>Editions\<close>

record Edition =
  e_id :: EditionID
  e_workID :: WorkID
  e_language :: Language
  e_isbn :: "string option"
  e_publisher :: string
  e_publicationYear :: "int option"
  e_externalReferences :: "ExternalReference list"

definition NewEdition ::
  "EditionID \<Rightarrow> WorkID \<Rightarrow> Language \<Rightarrow> string option \<Rightarrow> string \<Rightarrow> int option
   \<Rightarrow> ExternalReference list \<Rightarrow> Edition result" where
  "NewEdition eid workID language isbn publisher publicationYear externalReferences =
     (case (case isbn of None \<Rightarrow> None | Some i \<Rightarrow> ValidateISBN i) of
        Some err \<Rightarrow> Inl err
      | None \<Rightarrow>
         (case (if publisher \<noteq> [] then ValidateBoundedText ''publisher'' publisher maxTitleLength
                else None) of
            Some err \<Rightarrow> Inl err
          | None \<Rightarrow> Inr \<lparr> e_id = eid, e_workID = workID, e_language = language, e_isbn = isbn,
                     e_publisher = publisher, e_publicationYear = publicationYear,
                     e_externalReferences = externalReferences \<rparr>))"

definition valid_edition :: "Edition \<Rightarrow> bool" where
  "valid_edition e \<longleftrightarrow> (\<forall>i. e_isbn e = Some i \<longrightarrow> ValidateISBN i = None)
     \<and> (e_publisher e = [] \<or> bounded_text maxTitleLength (e_publisher e))"

lemma NewEdition_ok_iff:
  "NewEdition i wk l isbn p y rs = Inr e \<longleftrightarrow>
     e = \<lparr> e_id = i, e_workID = wk, e_language = l, e_isbn = isbn, e_publisher = p,
           e_publicationYear = y, e_externalReferences = rs \<rparr> \<and> valid_edition e"
  by (auto simp: NewEdition_def valid_edition_def split: option.splits if_splits
      dest: ValidateBoundedText_dest)

section \<open>Sources and offerings\<close>

record SourceCapabilities =
  CanList :: bool
  CanSearch :: bool
  CanDownload :: bool

record Source =
  s_id :: SourceID
  s_label :: string
  s_capabilities :: SourceCapabilities
  s_kind :: string

definition NewSource :: "SourceID \<Rightarrow> string \<Rightarrow> SourceCapabilities \<Rightarrow> string \<Rightarrow> Source result" where
  "NewSource sid label capabilities kind =
     (case ValidateBoundedText ''label'' label maxSourceLabelLength of
        Some err \<Rightarrow> Inl err
      | None \<Rightarrow> Inr \<lparr> s_id = sid, s_label = label, s_capabilities = capabilities, s_kind = kind \<rparr>)"

lemma NewSource_ok_iff:
  "NewSource i l c k = Inr s \<longleftrightarrow>
     s = \<lparr> s_id = i, s_label = l, s_capabilities = c, s_kind = k \<rparr> \<and> bounded_text maxSourceLabelLength l"
  by (auto simp: NewSource_def split: option.splits dest: ValidateBoundedText_dest)

record FileReference =
  fr_ReferenceID :: string
  fr_Format :: string
  fr_SizeBytes :: "int option"

definition NewFileReference :: "string \<Rightarrow> string \<Rightarrow> int option \<Rightarrow> FileReference result" where
  "NewFileReference referenceID format sizeBytes =
     (if TrimSpace referenceID = [] then
        Inl (derr InvalidInput ''file reference id must not be empty'')
      else if TrimSpace format = [] then
        Inl (derr InvalidInput ''file reference format must not be empty'')
      else Inr \<lparr> fr_ReferenceID = referenceID, fr_Format = format, fr_SizeBytes = sizeBytes \<rparr>)"

record SourceOffering =
  so_id :: SourceOfferingID
  so_sourceID :: SourceID
  so_editionID :: EditionID
  so_fileReference :: FileReference
  so_observedAt :: instant

type_synonym SourceOfferingKey = "SourceID \<times> EditionID \<times> string"

definition NewSourceOffering ::
  "SourceOfferingID \<Rightarrow> SourceID \<Rightarrow> EditionID \<Rightarrow> FileReference \<Rightarrow> instant \<Rightarrow> SourceOffering" where
  "NewSourceOffering oid sourceID editionID fileReference observedAt =
     \<lparr> so_id = oid, so_sourceID = sourceID, so_editionID = editionID,
       so_fileReference = fileReference, so_observedAt = observedAt \<rparr>"

definition UniquenessKey :: "SourceOffering \<Rightarrow> SourceOfferingKey" where
  "UniquenessKey off = (so_sourceID off, so_editionID off, fr_Format (so_fileReference off))"

section \<open>Library entries, collections, marks and preferences\<close>

record LibraryEntry =
  le_id :: LibraryEntryID
  le_editionID :: EditionID
  le_addedAt :: instant

definition NewLibraryEntry :: "LibraryEntryID \<Rightarrow> EditionID \<Rightarrow> instant \<Rightarrow> LibraryEntry" where
  "NewLibraryEntry lid editionID addedAt =
     \<lparr> le_id = lid, le_editionID = editionID, le_addedAt = addedAt \<rparr>"

record CollectionMember =
  cm_WorkID :: WorkID
  cm_AddedAt :: instant

record Collection =
  c_id :: CollectionID
  c_name :: string
  c_members :: "CollectionMember list"

definition NewCollection :: "CollectionID \<Rightarrow> string \<Rightarrow> Collection result" where
  "NewCollection cid name =
     (case ValidateBoundedText ''name'' name maxCollectionNameLength of
        Some err \<Rightarrow> Inl err
      | None \<Rightarrow> Inr \<lparr> c_id = cid, c_name = name, c_members = [] \<rparr>)"

definition AddMember :: "Collection \<Rightarrow> WorkID \<Rightarrow> instant \<Rightarrow> Collection" where
  "AddMember c workID addedAt =
     (if list_ex (\<lambda>m. cm_WorkID m = workID) (c_members c) then c
      else c\<lparr>c_members := c_members c @ [\<lparr> cm_WorkID = workID, cm_AddedAt = addedAt \<rparr>]\<rparr>)"

definition RemoveMember :: "Collection \<Rightarrow> WorkID \<Rightarrow> Collection" where
  "RemoveMember c workID =
     c\<lparr>c_members := filter (\<lambda>m. cm_WorkID m \<noteq> workID) (c_members c)\<rparr>"

definition member_ids :: "Collection \<Rightarrow> WorkID list" where
  "member_ids c = map cm_WorkID (c_members c)"

lemma member_ids_AddMember:
  "member_ids (AddMember c w t) = (if w \<in> set (member_ids c) then member_ids c else member_ids c @ [w])"
  by (auto simp: member_ids_def AddMember_def list_ex_iff)

lemma member_ids_RemoveMember:
  "member_ids (RemoveMember c w) = filter (\<lambda>x. x \<noteq> w) (member_ids c)"
  by (simp add: member_ids_def RemoveMember_def filter_map comp_def)

lemma distinct_member_ids:
  "distinct (member_ids c) \<Longrightarrow> distinct (member_ids (AddMember c w t))"
  "distinct (member_ids c) \<Longrightarrow> distinct (member_ids (RemoveMember c w))"
  by (simp_all add: member_ids_AddMember member_ids_RemoveMember)

lemma NewCollection_ok_iff:
  "NewCollection i n = Inr c \<longleftrightarrow>
     c = \<lparr> c_id = i, c_name = n, c_members = [] \<rparr> \<and> bounded_text maxCollectionNameLength n"
  by (auto simp: NewCollection_def split: option.splits dest: ValidateBoundedText_dest)

record Bookmark =
  bm_id :: BookmarkID
  bm_editionID :: EditionID
  bm_position :: string
  bm_label :: string
  bm_createdAt :: instant

definition NewBookmark :: "BookmarkID \<Rightarrow> EditionID \<Rightarrow> string \<Rightarrow> string \<Rightarrow> instant \<Rightarrow> Bookmark" where
  "NewBookmark bid editionID position label createdAt =
     \<lparr> bm_id = bid, bm_editionID = editionID, bm_position = position, bm_label = label,
       bm_createdAt = createdAt \<rparr>"

record Highlight =
  hl_id :: HighlightID
  hl_editionID :: EditionID
  hl_startPosition :: string
  hl_endPosition :: string
  hl_note :: string
  hl_category :: string
  hl_createdAt :: instant

definition NewHighlight ::
  "HighlightID \<Rightarrow> EditionID \<Rightarrow> string \<Rightarrow> string \<Rightarrow> string \<Rightarrow> string \<Rightarrow> instant \<Rightarrow> Highlight" where
  "NewHighlight hid editionID startPosition endPosition note category createdAt =
     \<lparr> hl_id = hid, hl_editionID = editionID, hl_startPosition = startPosition,
       hl_endPosition = endPosition, hl_note = note, hl_category = category,
       hl_createdAt = createdAt \<rparr>"

record ReadingPreferences =
  rp_deviceID :: DeviceID
  rp_settings :: "(string \<times> string) list"

definition NewReadingPreferences :: "DeviceID \<Rightarrow> ReadingPreferences" where
  "NewReadingPreferences deviceID = \<lparr> rp_deviceID = deviceID, rp_settings = [] \<rparr>"

text \<open>Assignment to a Go map, kept as the list of its entries.\<close>

fun map_set :: "'k \<Rightarrow> 'v \<Rightarrow> ('k \<times> 'v) list \<Rightarrow> ('k \<times> 'v) list" where
  "map_set k v [] = [(k, v)]"
| "map_set k v ((k', v') # m) = (if k' = k then (k, v) # m else (k', v') # map_set k v m)"

lemma map_of_map_set [simp]: "map_of (map_set k v m) = (map_of m)(k \<mapsto> v)"
  by (induction k v m rule: map_set.induct) auto

lemma keys_map_set: "fst ` set (map_set k v m) = insert k (fst ` set m)"
  by (induction k v m rule: map_set.induct) auto

lemma distinct_map_set: "distinct (map fst m) \<Longrightarrow> distinct (map fst (map_set k v m))"
  by (induction k v m rule: map_set.induct) (auto simp: keys_map_set [simplified])

definition SetPreference :: "ReadingPreferences \<Rightarrow> string \<Rightarrow> string \<Rightarrow> ReadingPreferences" where
  "SetPreference p key value = p\<lparr>rp_settings := map_set key value (rp_settings p)\<rparr>"

end
