(* ===== verification/Domain_Event.thy ===== *)
theory Domain_Event
  imports Prelude
begin

text \<open>
  The domain events of \<open>internal/domain/event.go\<close>.  Each Go event type is a constructor of
  \<open>event_kind\<close>; its \<open>New...\<close> function is \<open>new_event\<close> at that kind.  The two marker
  interfaces are predicates on the kind, since sensitivity is a property of the type.
\<close>

datatype event_kind =
    WorkCreated | EditionCreated | AuthorCreated
  | WorkMerged | WorkMergeUndone | AuthorMerged | AuthorMergeUndone
  | WorkContainsAdded | WorkContainsRemoved
  | SourceCreated | SourceRemoved | SourceOfferingObserved | SourceOfferingRemoved
  | WorkImported | EditionImported | LibraryEntryAdded | LibraryEntryRemoved
  | CollectionCreated | CollectionMemberAdded | CollectionMemberRemoved
  | ReadingProgressUpdated | BookmarkCreated | HighlightCreated

record event =
  ev_kind :: event_kind
  ev_aggregateID :: string
  ev_occurredAt :: instant

definition new_event :: "event_kind \<Rightarrow> string \<Rightarrow> instant \<Rightarrow> event" where
  "new_event k aggregateID occurredAt =
     \<lparr> ev_kind = k, ev_aggregateID = aggregateID, ev_occurredAt = occurredAt \<rparr>"

fun event_Type :: "event_kind \<Rightarrow> string" where
  "event_Type WorkCreated = ''WorkCreated''"
| "event_Type EditionCreated = ''EditionCreated''"
| "event_Type AuthorCreated = ''AuthorCreated''"
| "event_Type WorkMerged = ''WorkMerged''"
| "event_Type WorkMergeUndone = ''WorkMergeUndone''"
| "event_Type AuthorMerged = ''AuthorMerged''"
| "event_Type AuthorMergeUndone = ''AuthorMergeUndone''"
| "event_Type WorkContainsAdded = ''WorkContainsAdded''"
| "event_Type WorkContainsRemoved = ''WorkContainsRemoved''"
| "event_Type SourceCreated = ''SourceCreated''"
| "event_Type SourceRemoved = ''SourceRemoved''"
| "event_Type SourceOfferingObserved = ''SourceOfferingObserved''"
| "event_Type SourceOfferingRemoved = ''SourceOfferingRemoved''"
| "event_Type WorkImported = ''WorkImported''"
| "event_Type EditionImported = ''EditionImported''"
| "event_Type LibraryEntryAdded = ''LibraryEntryAdded''"
| "event_Type LibraryEntryRemoved = ''LibraryEntryRemoved''"
| "event_Type CollectionCreated = ''CollectionCreated''"
| "event_Type CollectionMemberAdded = ''CollectionMemberAdded''"
| "event_Type CollectionMemberRemoved = ''CollectionMemberRemoved''"
| "event_Type ReadingProgressUpdated = ''ReadingProgressUpdated''"
| "event_Type BookmarkCreated = ''BookmarkCreated''"
| "event_Type HighlightCreated = ''HighlightCreated''"

text \<open>Which kinds embed \<open>publicMarker\<close> and which \<open>sensitiveMarker\<close>.\<close>

fun isPublicEvent :: "event_kind \<Rightarrow> bool" where
  "isPublicEvent WorkCreated = True"
| "isPublicEvent EditionCreated = True"
| "isPublicEvent AuthorCreated = True"
| "isPublicEvent WorkMerged = True"
| "isPublicEvent WorkMergeUndone = True"
| "isPublicEvent AuthorMerged = True"
| "isPublicEvent AuthorMergeUndone = True"
| "isPublicEvent WorkContainsAdded = True"
| "isPublicEvent WorkContainsRemoved = True"
| "isPublicEvent SourceCreated = True"
| "isPublicEvent SourceRemoved = True"
| "isPublicEvent SourceOfferingObserved = True"
| "isPublicEvent SourceOfferingRemoved = True"
| "isPublicEvent _ = False"

fun isSensitiveEvent :: "event_kind \<Rightarrow> bool" where
  "isSensitiveEvent WorkImported = True"
| "isSensitiveEvent EditionImported = True"
| "isSensitiveEvent LibraryEntryAdded = True"
| "isSensitiveEvent LibraryEntryRemoved = True"
| "isSensitiveEvent CollectionCreated = True"
| "isSensitiveEvent CollectionMemberAdded = True"
| "isSensitiveEvent CollectionMemberRemoved = True"
| "isSensitiveEvent ReadingProgressUpdated = True"
| "isSensitiveEvent BookmarkCreated = True"
| "isSensitiveEvent HighlightCreated = True"
| "isSensitiveEvent _ = False"

text \<open>The split is exhaustive and exclusive, and the type names identify the kinds.\<close>

lemma public_xor_sensitive: "isPublicEvent k \<longleftrightarrow> \<not> isSensitiveEvent k"
  by (cases k) simp_all

lemma event_Type_inj: "event_Type k = event_Type l \<Longrightarrow> k = l"
  by (cases k; cases l) simp_all

end
