(* ===== verification/Merge_Graph.thy ===== *)
theory Merge_Graph
  imports Domain_Error "HOL-Library.Multiset"
begin

text \<open>
  The graphs behind merges and containment, apart from any repository.  A catalogue graph maps
  the id of a work to what it is merged into and to the set of works it contains.  Merge edges
  form a single-valued relation; the canonical form of a work is where its chain of merges ends;
  a resolved containment edge joins the canonical forms of a container and its containee.

  The locale \<open>merge_chain\<close> is the interface of the two services that look for a merge cycle:
  a lookup that can fail, the field holding the merge target, and the walking loop given by its
  unfolding equation.
\<close>

section \<open>Graphs of works\<close>

type_synonym 'k node = "'k option \<times> 'k set"
type_synonym 'k graph = "'k \<rightharpoonup> 'k node"

definition merge_rel :: "'k graph \<Rightarrow> ('k \<times> 'k) set" where
  "merge_rel g = {(a, b). \<exists>S. g a = Some (Some b, S)}"

definition contains_rel :: "'k graph \<Rightarrow> ('k \<times> 'k) set" where
  "contains_rel g = {(a, b). \<exists>m S. g a = Some (m, S) \<and> b \<in> S}"

definition canon_of :: "'k graph \<Rightarrow> 'k \<Rightarrow> 'k \<Rightarrow> bool" where
  "canon_of g a c \<longleftrightarrow> (a, c) \<in> (merge_rel g)\<^sup>* \<and> c \<notin> Domain (merge_rel g)"

text \<open>The merge-resolved containment graph.\<close>

definition resolved :: "'k graph \<Rightarrow> ('k \<times> 'k) set" where
  "resolved g = {(x, y). \<exists>a b. canon_of g a x \<and> (a, b) \<in> contains_rel g \<and> canon_of g b y}"

text \<open>References name existing works, and there are finitely many of them.\<close>

definition closed_graph :: "'k graph \<Rightarrow> bool" where
  "closed_graph g \<longleftrightarrow> finite (dom g) \<and> Range (merge_rel g) \<subseteq> dom g \<and> Range (contains_rel g) \<subseteq> dom g"

lemma single_valued_merge_rel: "single_valued (merge_rel g)"
  by (auto simp: merge_rel_def single_valued_def)

lemma Domain_merge_rel: "Domain (merge_rel g) \<subseteq> dom g"
  by (auto simp: merge_rel_def)

lemma Domain_contains_rel: "Domain (contains_rel g) \<subseteq> dom g"
  by (auto simp: contains_rel_def)

lemma canonical_unique: "canon_of g a c \<Longrightarrow> canon_of g a d \<Longrightarrow> c = d"
  unfolding canon_of_def by (metis single_valued_end_unique single_valued_merge_rel)

lemma canonical_self: "a \<notin> Domain (merge_rel g) \<Longrightarrow> canon_of g a a"
  by (simp add: canon_of_def)

lemma canonical_idem: "canon_of g a c \<Longrightarrow> canon_of g c c"
  by (simp add: canon_of_def)

lemma canonical_step: "(a, b) \<in> merge_rel g \<Longrightarrow> canon_of g b c \<Longrightarrow> canon_of g a c"
  by (meson canon_of_def converse_rtrancl_into_rtrancl)

lemma canonical_rtrancl: "(a, b) \<in> (merge_rel g)\<^sup>* \<Longrightarrow> canon_of g b c \<Longrightarrow> canon_of g a c"
  by (meson canon_of_def rtrancl_trans)

lemma finite_merge_rel:
  assumes "finite (dom g)"
  shows "finite (merge_rel g)"
proof -
  have "merge_rel g \<subseteq> (\<lambda>a. (a, the (fst (the (g a))))) ` dom g"
    by (force simp: merge_rel_def dom_def)
  then show ?thesis using assms by (meson finite_imageI finite_subset)
qed

lemma wf_merge_rel:
  assumes "finite (dom g)" "acyclic (merge_rel g)"
  shows "wf (merge_rel g)" "wf ((merge_rel g)\<inverse>)"
  using finite_merge_rel [OF assms(1)] assms(2)
  by (simp_all add: finite_acyclic_wf finite_acyclic_wf_converse)

lemma canonical_exists:
  assumes "finite (dom g)" "acyclic (merge_rel g)"
  shows "\<exists>c. canon_of g a c"
  using wf_merge_rel(2) [OF assms]
proof (induction a rule: wf_induct_rule)
  case (less a)
  show ?case
  proof (cases "a \<in> Domain (merge_rel g)")
    case True
    then obtain b where "(a, b) \<in> merge_rel g" by auto
    then show ?thesis using less [of b] by (auto intro: canonical_step)
  qed (auto intro: canonical_self)
qed

lemma canonical_in_dom:
  assumes "closed_graph g" "canon_of g a c" "a \<in> dom g"
  shows "c \<in> dom g"
  using assms(2) unfolding canon_of_def
  by (metis RangeI assms(1,3) closed_graph_def rtranclE subsetD)

section \<open>Changing one node\<close>

text \<open>Updating only the containees of a node leaves merges and canonical forms alone.\<close>

lemma merge_rel_upd_contains:
  assumes "g a = Some (m, S)"
  shows "merge_rel (g(a \<mapsto> (m, S'))) = merge_rel g"
  using assms by (auto simp: merge_rel_def split: if_splits)

lemma canonical_upd_contains:
  assumes "g a = Some (m, S)"
  shows "canon_of (g(a \<mapsto> (m, S'))) x y \<longleftrightarrow> canon_of g x y"
  using assms by (simp add: canon_of_def merge_rel_upd_contains)

lemma contains_rel_upd:
  assumes "g a = Some (m, S)"
  shows "contains_rel (g(a \<mapsto> (m', insert b S))) = insert (a, b) (contains_rel g)"
  using assms by (auto simp: contains_rel_def split: if_splits)

lemma resolved_insert:
  assumes "g a = Some (m, S)" "canon_of g a x" "canon_of g b y"
  shows "resolved (g(a \<mapsto> (m, insert b S))) = insert (x, y) (resolved g)"
  unfolding resolved_def canonical_upd_contains [of g, OF assms(1)] contains_rel_upd [of g, OF assms(1)]
  using assms(2,3) by (auto dest: canonical_unique)

lemma acyclic_resolved_insert:
  assumes "acyclic (resolved g)" "g a = Some (m, S)" "canon_of g a x" "canon_of g b y"
    and "x \<noteq> y" "(y, x) \<notin> (resolved g)\<^sup>+"
  shows "acyclic (resolved (g(a \<mapsto> (m, insert b S))))"
  using assms by (simp add: resolved_insert rtrancl_eq_or_trancl)

lemma resolved_mono_contains:
  assumes "g a = Some (m, S)" "S' \<subseteq> S"
  shows "resolved (g(a \<mapsto> (m, S'))) \<subseteq> resolved g"
proof -
  have "contains_rel (g(a \<mapsto> (m, S'))) \<subseteq> contains_rel g"
    using assms by (auto simp: contains_rel_def split: if_splits)
  then show ?thesis
    unfolding resolved_def canonical_upd_contains [of g, OF assms(1)] by blast
qed

text \<open>Undoing a merge: the canonical form before is a function of the canonical form after.\<close>

lemma merge_rel_undo: "g s = Some (m, S) \<Longrightarrow> merge_rel (g(s \<mapsto> (None, S))) = {(a, b) \<in> merge_rel g. a \<noteq> s}"
  by (auto simp: merge_rel_def split: if_splits)

lemma contains_rel_upd_merge:
  "g s = Some (m, S) \<Longrightarrow> contains_rel (g(s \<mapsto> (m', S))) = contains_rel g"
  by (auto simp: contains_rel_def split: if_splits)

lemma acyclic_merge_undo:
  assumes "acyclic (merge_rel g)" "g s = Some (m, S)"
  shows "acyclic (merge_rel (g(s \<mapsto> (None, S))))"
proof (rule acyclic_subset [OF assms(1)])
  show "merge_rel (g(s \<mapsto> (None, S))) \<subseteq> merge_rel g"
    using assms(2) by (auto simp: merge_rel_undo)
qed

lemma acyclic_resolved_undo:
  assumes "finite (dom g)" "acyclic (merge_rel g)" "acyclic (resolved g)" "g s = Some (m, S)"
  shows "acyclic (resolved (g(s \<mapsto> (None, S))))"
proof -
  let ?g = "g(s \<mapsto> (None, S))"
  define cn where "cn a = (SOME c. canon_of g a c)" for a
  have cn: "canon_of g a (cn a)" for a
    unfolding cn_def using canonical_exists [OF assms(1,2)] by (rule someI_ex)
  have sub: "(merge_rel ?g)\<^sup>* \<subseteq> (merge_rel g)\<^sup>*"
    using assms(4) by (intro rtrancl_mono) (auto simp: merge_rel_undo)
  have cn_eq: "canon_of g a (cn x)" if "canon_of ?g a x" for a x
  proof -
    have "(a, x) \<in> (merge_rel g)\<^sup>*" using that sub by (auto simp: canon_of_def)
    then show ?thesis using cn by (rule canonical_rtrancl)
  qed
  have "(x, y) \<in> resolved ?g \<Longrightarrow> (cn x, cn y) \<in> resolved g" for x y
    unfolding resolved_def [of ?g] contains_rel_upd_merge [of g, OF assms(4)]
    by (auto simp: resolved_def intro: cn_eq)
  then show ?thesis using assms(3) by (rule acyclic_inv_image [rotated])
qed

text \<open>Recording a merge of an unmerged work \<open>s\<close> into \<open>t\<close>.\<close>

lemma merge_rel_record:
  "g s = Some (m, S) \<Longrightarrow> merge_rel (g(s \<mapsto> (Some t, S))) = insert (s, t) {(a, b) \<in> merge_rel g. a \<noteq> s}"
  by (auto simp: merge_rel_def split: if_splits)

lemma acyclic_merge_record:
  assumes "acyclic (merge_rel g)" "g s = Some (m, S)" "(t, s) \<notin> (merge_rel g)\<^sup>*"
  shows "acyclic (merge_rel (g(s \<mapsto> (Some t, S))))"
proof -
  let ?R = "{(a, b) \<in> merge_rel g. a \<noteq> s}"
  have "?R\<^sup>* \<subseteq> (merge_rel g)\<^sup>*" by (intro rtrancl_mono) auto
  then have "(t, s) \<notin> ?R\<^sup>*" using assms(3) by blast
  moreover have "acyclic ?R" by (rule acyclic_subset [OF assms(1)]) auto
  ultimately show ?thesis using assms(2) by (simp add: merge_rel_record)
qed

lemma canonical_record_unmerged:
  assumes "g s = Some (None, S)" "canon_of g t T" "T \<noteq> s"
    and "canon_of (g(s \<mapsto> (Some t, S))) a x"
  shows "x \<noteq> s" and "\<exists>c. canon_of g a c \<and> x = (if c = s then T else c)"
proof -
  let ?g = "g(s \<mapsto> (Some t, S))"
  have s: "s \<notin> Domain (merge_rel g)" using assms(1) by (auto simp: merge_rel_def)
  have M': "merge_rel ?g = insert (s, t) (merge_rel g)"
    using assms(1) by (auto simp: merge_rel_def split: if_splits)
  show xs: "x \<noteq> s" using assms(4) unfolding canon_of_def M' by auto
  have end_g: "x \<notin> Domain (merge_rel g)" using assms(4) unfolding canon_of_def M' by auto
  have "(b, x) \<in> (insert (s, t) (merge_rel g))\<^sup>* \<Longrightarrow>
      \<exists>c. canon_of g b c \<and> x = (if c = s then T else c)" for b
  proof (induction rule: converse_rtrancl_induct)
    case base
    then show ?case using canonical_self [OF end_g] xs by auto
  next
    case (step b d)
    show ?case
    proof (cases "(b, d) = (s, t)")
      case True
      have "x = T"
        using step.IH True canonical_unique [OF assms(2)] assms(3) by (auto split: if_splits)
      then show ?thesis using True canonical_self [OF s] by auto
    next
      case False
      then have "(b, d) \<in> merge_rel g" using step.hyps(1) by auto
      then show ?thesis using step.IH by (blast intro: canonical_step)
    qed
  qed
  then show "\<exists>c. canon_of g a c \<and> x = (if c = s then T else c)"
    using assms(4) unfolding canon_of_def [of ?g] M' by blast
qed

text \<open>
  Identifying two nodes with no path between them in either direction keeps a graph acyclic.
\<close>

lemma acyclic_identify:
  assumes "acyclic r" "(s, T) \<notin> r\<^sup>+" "(T, s) \<notin> r\<^sup>+" "s \<noteq> T"
    and f: "\<And>x. f x = (if x = s then T else x)"
    and r': "r' \<subseteq> {(f x, f y) | x y. (x, y) \<in> r}"
  shows "acyclic r'"
proof -
  have path: "(u, v) \<in> r'\<^sup>+ \<Longrightarrow> u \<noteq> s \<and> v \<noteq> s \<and>
      ((u, v) \<in> r\<^sup>+ \<or> (u = T \<or> (u, T) \<in> r\<^sup>+ \<or> (u, s) \<in> r\<^sup>+) \<and> (v = T \<or> (T, v) \<in> r\<^sup>+ \<or> (s, v) \<in> r\<^sup>+)
        \<and> ((u, T) \<in> r\<^sup>+ \<or> (u, s) \<in> r\<^sup>+ \<or> (T, v) \<in> r\<^sup>+ \<or> (s, v) \<in> r\<^sup>+))" for u v
  proof (induction rule: trancl_induct)
    case (base v)
    then obtain x y where "(x, y) \<in> r" "u = f x" "v = f y" using r' by blast
    moreover have "(x, x) \<notin> r" for x using assms(1) by (auto simp: acyclic_def)
    moreover have "(s, T) \<notin> r" "(T, s) \<notin> r" using assms(2,3) by auto
    ultimately show ?case using assms(4) by (auto simp: f)
  next
    case (step v w)
    from step.hyps(2) obtain x y where xy: "(x, y) \<in> r" "v = f x" "w = f y" using r' by blast
    have "(s, x) \<in> r\<^sup>+ \<Longrightarrow> (x, s) \<notin> r" "(T, x) \<in> r\<^sup>+ \<Longrightarrow> (x, T) \<notin> r" for x
      using assms(1) by (auto simp: acyclic_def dest: trancl.trancl_into_trancl)
    with step.IH xy show ?case
      using assms(4) by (auto simp: f split: if_splits intro: trancl.trancl_into_trancl)
  qed
  show ?thesis
  proof (rule acyclicI, intro allI notI)
    fix u assume "(u, u) \<in> r'\<^sup>+"
    from path [OF this] show False
      using assms(1-3) unfolding acyclic_def by (metis trancl_trans)
  qed
qed

lemma acyclic_resolved_record:
  assumes "acyclic (resolved g)" "g s = Some (None, S)" "canon_of g t T" "T \<noteq> s"
    and "(s, T) \<notin> (resolved g)\<^sup>+" "(T, s) \<notin> (resolved g)\<^sup>+"
  shows "acyclic (resolved (g(s \<mapsto> (Some t, S))))"
proof (rule acyclic_identify [where s = s and T = T and f = "\<lambda>x. if x = s then T else x"])
  show "resolved (g(s \<mapsto> (Some t, S)))
      \<subseteq> {((if x = s then T else x), (if y = s then T else y)) | x y. (x, y) \<in> resolved g}"
  proof clarify
    fix x y assume "(x, y) \<in> resolved (g(s \<mapsto> (Some t, S)))"
    then obtain a b where ab: "canon_of (g(s \<mapsto> (Some t, S))) a x" "(a, b) \<in> contains_rel g"
        "canon_of (g(s \<mapsto> (Some t, S))) b y"
      unfolding resolved_def contains_rel_upd_merge [of g, OF assms(2)] by blast
    obtain c d where "canon_of g a c" "x = (if c = s then T else c)"
        "canon_of g b d" "y = (if d = s then T else d)"
      using canonical_record_unmerged(2) [OF assms(2-4)] ab(1,3) by meson
    then show "\<exists>x' y'. (x, y) = ((if x' = s then T else x'), (if y' = s then T else y'))
        \<and> (x', y') \<in> resolved g"
      using ab(2) unfolding resolved_def by blast
  qed
qed (use assms in auto)

section \<open>Losing containments\<close>

text \<open>
  A write that stops half way may lose containments of a node, never merges or nodes.
\<close>

definition graph_le :: "'k graph \<Rightarrow> 'k graph \<Rightarrow> bool" where
  "graph_le g h \<longleftrightarrow> (\<forall>i. case g i of None \<Rightarrow> h i = None
     | Some (m, S) \<Rightarrow> (\<exists>S'. h i = Some (m, S') \<and> S \<subseteq> S'))"

lemma graph_le_refl: "graph_le g g"
  by (auto simp: graph_le_def split: option.split)

lemma graph_le_Some: "graph_le g h \<Longrightarrow> g i = Some (m, S) \<Longrightarrow> \<exists>S'. h i = Some (m, S') \<and> S \<subseteq> S'"
  unfolding graph_le_def by (drule spec [of _ i]) simp

lemma graph_le_None: "graph_le g h \<Longrightarrow> g i = None \<Longrightarrow> h i = None"
  unfolding graph_le_def by (drule spec [of _ i]) simp

lemma graph_le_merge:
  assumes "graph_le g h"
  shows "merge_rel g = merge_rel h"
proof -
  have "(\<exists>S. g i = Some (m, S)) \<longleftrightarrow> (\<exists>S. h i = Some (m, S))" for i m
    using graph_le_Some [OF assms, of i] graph_le_None [OF assms, of i] by (cases "g i") auto
  then show ?thesis unfolding merge_rel_def by simp
qed

lemma graph_le_contains: "graph_le g h \<Longrightarrow> contains_rel g \<subseteq> contains_rel h"
  unfolding contains_rel_def using graph_le_Some [of g h] by fast

lemma graph_le_resolved: "graph_le g h \<Longrightarrow> resolved g \<subseteq> resolved h"
  using graph_le_merge [of g h] graph_le_contains [of g h]
  by (fastforce simp: resolved_def canon_of_def)

text \<open>After a write that may have stopped anywhere, the graph is the old one or part of the new.\<close>

lemma written_acyclic:
  assumes "g' = g \<or> graph_le g' h"
  shows "acyclic (resolved g) \<Longrightarrow> acyclic (resolved h) \<Longrightarrow> acyclic (resolved g')"
    and "acyclic (merge_rel g) \<Longrightarrow> acyclic (merge_rel h) \<Longrightarrow> acyclic (merge_rel g')"
    and "merge_rel h = merge_rel g \<Longrightarrow> merge_rel g' = merge_rel g"
  using assms graph_le_merge [of g' h] graph_le_resolved [of g' h] by (auto intro: acyclic_subset)

lemma graph_le_upd: "S \<subseteq> S' \<Longrightarrow> graph_le (g(i \<mapsto> (m, S))) (g(i \<mapsto> (m, S')))"
  by (auto simp: graph_le_def split: option.split)

end
