(* ===== verification/Domain_Repository.thy ===== *)
theory Domain_Repository
  imports Domain_Catalog Domain_Event Merge_Graph
begin

text \<open>
  The repository interfaces of \<open>internal/domain/repository.go\<close> that the domain services of
  this development use.  A Go interface value is a record of functions over the state \<open>'db\<close> of
  whatever implements it: a query maps the state to a result, a command also returns the state it
  leaves, together with its error if it failed.

  What the services may rely on is stated as locales: \<open>work_repository\<close> for works,
  \<open>author_repository\<close> for authors, both extending the view of a store as a merge graph.  The
  laws speak of successful calls only, so they hold for a store that can fail at any call.
\<close>

section \<open>The interfaces\<close>

type_synonym 'db command = "'db \<Rightarrow> go_error option \<times> 'db"

record 'db WorkRepository =
  wr_FindByID :: "'db \<Rightarrow> WorkID \<Rightarrow> Work result"
  wr_FindMergedInto :: "'db \<Rightarrow> WorkID \<Rightarrow> Work list result"
  wr_Save :: "Work \<Rightarrow> 'db command"

record 'db AuthorRepository =
  ar_FindByID :: "'db \<Rightarrow> AuthorID \<Rightarrow> Author result"
  ar_Save :: "Author \<Rightarrow> 'db command"

record 'db EditionRepository =
  er_FindByID :: "'db \<Rightarrow> EditionID \<Rightarrow> Edition result"
  er_FindByWork :: "'db \<Rightarrow> WorkID \<Rightarrow> Edition list result"
  er_Save :: "Edition \<Rightarrow> 'db command"

record 'db LibraryEntryRepository =
  lr_FindByEdition :: "'db \<Rightarrow> EditionID \<Rightarrow> LibraryEntry result"
  lr_Save :: "LibraryEntry \<Rightarrow> 'db command"
  lr_DeleteByEdition :: "EditionID \<Rightarrow> 'db command"

record 'db CollectionRepository =
  cr_FindByID :: "'db \<Rightarrow> LibraryID \<Rightarrow> CollectionID \<Rightarrow> Collection result"
  cr_Save :: "LibraryID \<Rightarrow> Collection \<Rightarrow> 'db command"
  cr_Delete :: "LibraryID \<Rightarrow> CollectionID \<Rightarrow> 'db command"

record 'db SourceRepository =
  sr_FindByID :: "'db \<Rightarrow> SourceID \<Rightarrow> Source result"
  sr_Save :: "Source \<Rightarrow> 'db command"
  sr_Delete :: "SourceID \<Rightarrow> 'db command"

record 'db SourceOfferingRepository =
  or_FindByID :: "'db \<Rightarrow> SourceOfferingID \<Rightarrow> SourceOffering result"
  or_FindBySource :: "'db \<Rightarrow> SourceID \<Rightarrow> SourceOffering list result"
  or_FindByEdition :: "'db \<Rightarrow> EditionID \<Rightarrow> SourceOffering list result"
  or_Save :: "SourceOffering \<Rightarrow> 'db command"
  or_Delete :: "SourceOfferingID \<Rightarrow> 'db command"

section \<open>Walking a merge chain\<close>

text \<open>
  The contract behind \<open>sourceReachableFromTarget\<close>, which the work service and the author
  service each define for their own type: \<open>reach\<close> is the walking loop, given by its unfolding
  equation over the lookup \<open>find\<close>; \<open>M\<close> is the merge relation the store holds.
\<close>

locale merge_chain =
  fixes find :: "'db \<Rightarrow> 'k \<Rightarrow> 'r result"
    and merged :: "'r \<Rightarrow> 'k option"
    and reach :: "('k \<Rightarrow> 'r result) \<Rightarrow> 'k \<Rightarrow> 'k \<Rightarrow> 'k set \<Rightarrow> bool result option"
    and inv :: "'db \<Rightarrow> bool"
    and M :: "'db \<Rightarrow> ('k \<times> 'k) set"
    and keys :: "'db \<Rightarrow> 'k set"
  assumes reach_unfold:
    "reach f src cur visited =
       (if cur = src then Some (Inr True)
        else if cur \<in> visited then Some (Inr False)
        else (case f cur of Inl e \<Rightarrow> Some (Inl e)
              | Inr r \<Rightarrow> (case merged r of None \<Rightarrow> Some (Inr False)
                          | Some nxt \<Rightarrow> reach f src nxt (insert cur visited))))"
    and find_M: "inv db \<Longrightarrow> find db x = Inr r \<Longrightarrow> (x, y) \<in> M db \<longleftrightarrow> merged r = Some y"
    and find_keys: "inv db \<Longrightarrow> find db x = Inr r \<Longrightarrow> x \<in> keys db"
    and finite_keys: "inv db \<Longrightarrow> finite (keys db)"
begin

lemma reach_total_aux:
  "inv db \<Longrightarrow> card (keys db - visited) = n \<Longrightarrow>
   \<exists>r. reach (find db) src cur visited = Some r"
proof (induction n arbitrary: cur visited rule: less_induct)
  case (less n)
  show ?case
  proof (cases "cur = src \<or> cur \<in> visited")
    case True
    then show ?thesis by (auto simp: reach_unfold [of _ src])
  next
    case False
    show ?thesis
    proof (cases "find db cur")
      case (Inl e)
      with False show ?thesis by (simp add: reach_unfold [of _ src])
    next
      case (Inr r)
      then have "cur \<in> keys db - visited" using find_keys less.prems(1) False by blast
      then have "card (keys db - insert cur visited) < n"
        using less.prems finite_keys
        by (metis Diff_insert card_Diff1_less finite_Diff)
      then have "\<exists>q. reach (find db) src nxt (insert cur visited) = Some q" for nxt
        using less by blast
      with False Inr show ?thesis
        by (cases "merged r") (simp_all add: reach_unfold [of _ src cur])
    qed
  qed
qed

text \<open>The walk ends, whatever the store holds.\<close>

lemma reach_total: "inv db \<Longrightarrow> \<exists>r. reach (find db) src cur {} = Some r"
  using reach_total_aux by blast

text \<open>
  The answer \<open>False\<close> is right: the nodes visited are closed under the merge relation except for
  the current one, and none of them is the source.
\<close>

lemma reach_False_aux:
  assumes "inv db"
  shows "card (keys db - visited) = n \<Longrightarrow> src \<notin> visited \<Longrightarrow>
    (\<And>v w. v \<in> visited \<Longrightarrow> (v, w) \<in> M db \<Longrightarrow> w \<in> insert cur visited) \<Longrightarrow>
    reach (find db) src cur visited = Some (Inr False) \<Longrightarrow> (cur, src) \<notin> (M db)\<^sup>*"
proof (induction n arbitrary: cur visited rule: less_induct)
  case (less n)
  have ne: "cur \<noteq> src" using less.prems(4) by (auto simp: reach_unfold [of _ src])
  show ?case
  proof (cases "cur \<in> visited")
    case True
    have "w \<in> visited" if "(cur, w) \<in> (M db)\<^sup>*" for w
      using that by (induction rule: rtrancl_induct) (use less.prems(3) True in auto)
    then show ?thesis using less.prems(2) by blast
  next
    case False
    then obtain r where r: "find db cur = Inr r"
      and rest: "case merged r of None \<Rightarrow> True
         | Some nxt \<Rightarrow> reach (find db) src nxt (insert cur visited) = Some (Inr False)"
      using less.prems(4) ne
      by (simp add: reach_unfold [of _ src cur] split: sum.splits option.splits)
    show ?thesis
    proof (cases "merged r")
      case None
      then have "cur \<notin> Domain (M db)" using find_M [OF assms r] by auto
      then show ?thesis using ne by (metis Domain.DomainI converse_rtranclE)
    next
      case (Some nxt)
      have step: "(cur, w) \<in> M db \<longleftrightarrow> w = nxt" for w
        using find_M [OF assms r] Some by auto
      have "cur \<in> keys db - visited" using find_keys [OF assms r] False by blast
      then have "card (keys db - insert cur visited) < n"
        using less.prems(1) finite_keys [OF assms] by (metis Diff_insert card_Diff1_less finite_Diff)
      then have "(nxt, src) \<notin> (M db)\<^sup>*"
        using rest Some less.prems(2,3) ne step
        by (intro less.IH [OF _ refl, of "insert cur visited"]) auto
      then show ?thesis using step ne by (metis converse_rtranclE)
    qed
  qed
qed

lemma reach_False:
  "inv db \<Longrightarrow> reach (find db) src cur {} = Some (Inr False) \<Longrightarrow> (cur, src) \<notin> (M db)\<^sup>*"
  by (rule reach_False_aux [OF _ refl]) auto

lemma reach_True_aux:
  "inv db \<Longrightarrow> card (keys db - visited) = n \<Longrightarrow>
   reach (find db) src cur visited = Some (Inr True) \<Longrightarrow> (cur, src) \<in> (M db)\<^sup>*"
proof (induction n arbitrary: cur visited rule: less_induct)
  case (less n)
  show ?case
  proof (cases "cur = src")
    case False
    with less.prems(3) obtain r nxt where r: "find db cur = Inr r" "merged r = Some nxt"
        "cur \<notin> visited" "reach (find db) src nxt (insert cur visited) = Some (Inr True)"
      by (simp add: reach_unfold [of _ src cur] split: if_splits sum.splits option.splits)
    then have "cur \<in> keys db - visited" using find_keys [OF less.prems(1)] by blast
    then have "card (keys db - insert cur visited) < n"
      using less.prems(2) finite_keys [OF less.prems(1)]
      by (metis Diff_insert card_Diff1_less finite_Diff)
    with less.IH less.prems(1) r(4) have "(nxt, src) \<in> (M db)\<^sup>*" by blast
    moreover have "(cur, nxt) \<in> M db" using find_M [OF less.prems(1) r(1)] r(2) by simp
    ultimately show ?thesis by (rule converse_rtrancl_into_rtrancl [rotated])
  qed simp
qed

lemma reach_True:
  "inv db \<Longrightarrow> reach (find db) src cur {} = Some (Inr True) \<Longrightarrow> (cur, src) \<in> (M db)\<^sup>*"
  using reach_True_aux by blast

end

section \<open>Works\<close>

text \<open>The node of the catalogue graph that a work's record stands for.\<close>

definition work_node :: "Work \<Rightarrow> WorkID node" where
  "work_node w = (w_mergedInto w, set (w_contains w))"

text \<open>
  What \<open>domain.WorkRepository\<close> promises, for the graph \<open>graph db\<close> a store holds while it is in
  order (\<open>inv\<close>): lookups return the stored node, \<open>FindMergedInto\<close> returns exactly the works
  merged directly into its argument, as a lookup returns them, a successful \<open>Save\<close> replaces the node of that work and
  keeps the store in order, a failed one may have written the work itself and any part of its
  containments, and references between works stay within the store.
\<close>

locale work_repository =
  fixes repo :: "'db WorkRepository"
    and inv :: "'db \<Rightarrow> bool"
    and graph :: "'db \<Rightarrow> WorkID graph"
  assumes find_node: "inv db \<Longrightarrow> wr_FindByID repo db i = Inr w \<Longrightarrow>
      w_id w = i \<and> graph db i = Some (work_node w)"
    and find_missing: "inv db \<Longrightarrow> wr_FindByID repo db i = Inl e \<Longrightarrow> CategoryOf e = NotFound \<Longrightarrow>
      graph db i = None"
    and merged_members: "inv db \<Longrightarrow> wr_FindMergedInto repo db c = Inr ws \<Longrightarrow>
      w_id ` set ws = {a. (a, c) \<in> merge_rel (graph db)}"
    and merged_found: "inv db \<Longrightarrow> wr_FindMergedInto repo db c = Inr ws \<Longrightarrow> w \<in> set ws \<Longrightarrow>
      wr_FindByID repo db (w_id w) = Inr w"
    and save_node: "inv db \<Longrightarrow> wr_Save repo w db = (None, db') \<Longrightarrow>
      inv db' \<and> graph db' = (graph db)(w_id w \<mapsto> work_node w)"
    and save_failed: "inv db \<Longrightarrow> wr_Save repo w db = (Some e, db') \<Longrightarrow>
      inv db' \<and> (graph db' = graph db \<or> (\<exists>S. S \<subseteq> set (w_contains w) \<union> contains_rel (graph db) `` {w_id w}
        \<and> graph db' = (graph db)(w_id w \<mapsto> (w_mergedInto w, S))))"
    and closed: "inv db \<Longrightarrow> closed_graph (graph db)"

text \<open>The same for authors, whose only graph is that of merges.\<close>

locale author_repository =
  fixes repo :: "'db AuthorRepository"
    and inv :: "'db \<Rightarrow> bool"
    and graph :: "'db \<Rightarrow> AuthorID graph"
  assumes find_node: "inv db \<Longrightarrow> ar_FindByID repo db i = Inr a \<Longrightarrow>
      a_id a = i \<and> graph db i = Some (a_mergedInto a, {})"
    and save_node: "inv db \<Longrightarrow> ar_Save repo a db = (None, db') \<Longrightarrow>
      inv db' \<and> graph db' = (graph db)(a_id a \<mapsto> (a_mergedInto a, {}))"
    and closed: "inv db \<Longrightarrow> closed_graph (graph db)"

section \<open>Transactions\<close>

text \<open>What a service may rely on when it runs an operation in a transaction.\<close>

locale transactor =
  fixes inTx :: "('db \<Rightarrow> 'a result \<times> 'db) \<Rightarrow> 'db \<Rightarrow> 'a result \<times> 'db"
    and same :: "'db \<Rightarrow> 'db \<Rightarrow> bool"
  assumes failed: "inTx fn db = (Inl e, db') \<Longrightarrow> same db' db"
    and committed: "inTx fn db = (Inr a, db') \<Longrightarrow> fn db = (Inr a, db')"

end
