(* ===== verification/Go_Float.thy ===== *)
theory Go_Float
  imports Prelude Complex_Main
begin

text \<open>
  \<open>float64\<close> as far as comparisons go: a value is NaN, an infinity or finite, and the finite ones
  compare as the rationals they denote (both zeros denote 0).  Every comparison with NaN is false.
\<close>

datatype float64 = NaN | PInf | NInf | Fin rat

fun flt :: "float64 \<Rightarrow> float64 \<Rightarrow> bool" where
  "flt NaN y = False"
| "flt x NaN = False"
| "flt PInf y = False"
| "flt x PInf = True"
| "flt x NInf = False"
| "flt NInf y = True"
| "flt (Fin x) (Fin y) = (x < y)"

fun feq :: "float64 \<Rightarrow> float64 \<Rightarrow> bool" where
  "feq NaN y = False"
| "feq x NaN = False"
| "feq PInf PInf = True"
| "feq NInf NInf = True"
| "feq (Fin x) (Fin y) = (x = y)"
| "feq x y = False"

lemma flt_simps [simp]:
  "flt x NaN = False" "flt PInf y = False" "flt x NInf = False"
  "flt (Fin a) PInf = True" "flt NInf PInf = True" "flt NInf (Fin b) = True"
  by (cases x; simp; fail)+ (cases y; simp; fail | cases x; simp; fail | simp)+

lemma feq_iff: "feq x y \<longleftrightarrow> x = y \<and> x \<noteq> NaN"
  by (cases x; cases y) auto

end
