(* ===== verification/Postgres_Store.thy ===== *)
theory Postgres_Store
  imports Domain_Repository Go_Float
begin

text \<open>
  The database behind \<open>internal/persistence/postgres\<close>: the tables the repositories of this
  development use, with the keys and references of the migrations
  (\<open>migrations/00002_phase02_schema.sql\<close>, and the later files of
  \<open>migrations\<close>), statements
  that succeed or fail with a SQLSTATE, \<open>TranslateError\<close> (\<open>errors.go\<close>) and the transactor
  (\<open>transactor.go\<close>).

  The connection is part of the state: \<open>db_links = Some n\<close> says it breaks after \<open>n\<close> more
  writing statements, \<open>None\<close> that it does not break.  So a sequence of statements may fail at
  any point, and what it leaves behind is visible.  \<open>sync_seq\<close> is the last value the sequence of that
  name handed out; a transaction that is rolled back does not give its values back.  A \<open>SELECT\<close> without \<open>ORDER BY\<close> is read
  in table order, but no theorem depends on that order.
\<close>

section \<open>Tables\<close>

record work_row =
  wk_id :: WorkID
  wk_title :: string
  wk_subtitle :: string
  wk_original_language :: "string option"
  wk_merged_into :: "WorkID option"

record author_row =
  au_id :: AuthorID
  au_name :: string
  au_merged_into :: "AuthorID option"

record edition_row =
  ed_id :: EditionID
  ed_work_id :: WorkID
  ed_language :: string
  ed_isbn :: "string option"
  ed_publisher :: string
  ed_publication_year :: "int option"

record library_entry_row =
  en_id :: LibraryEntryID
  en_library_id :: LibraryID
  en_edition_id :: EditionID
  en_added_at :: instant

record collection_row =
  co_id :: CollectionID
  co_name :: string
  co_library_id :: LibraryID

record member_row =
  me_collection_id :: CollectionID
  me_work_id :: WorkID
  me_added_at :: instant

record source_row =
  sc_id :: SourceID
  sc_label :: string
  sc_can_list :: bool
  sc_can_search :: bool
  sc_can_download :: bool
  sc_kind :: string
  sc_library_id :: LibraryID
  sc_config_base_path :: string
  sc_config_base_url :: string
  sc_credential_ciphertext :: "string option"
  sc_credential_nonce :: "string option"
  sc_health_status :: string
  sc_health_detail :: "string option"
  sc_health_checked_at :: "instant option"
  sc_search_link_url :: "string option"
  sc_created_at :: instant

record offering_row =
  of_id :: SourceOfferingID
  of_source_id :: SourceID
  of_edition_id :: EditionID
  of_reference_id :: string
  of_format :: string
  of_size_bytes :: "int option"
  of_observed_at :: instant

record progress_row =
  pr_id :: string
  pr_work_id :: WorkID
  pr_user_id :: "UserID option"
  pr_library_id :: "LibraryID option"
  pr_percentage :: float64
  pr_epoch :: int
  pr_position_edition_id :: "EditionID option"
  pr_position_value :: "string option"
  pr_device_id :: DeviceID
  pr_observed_at :: instant
  pr_sync_sequence :: int

record bookmark_row =
  bk_id :: BookmarkID
  bk_edition_id :: EditionID
  bk_user_id :: "UserID option"
  bk_library_id :: "LibraryID option"
  bk_position :: string
  bk_label :: string
  bk_created_at :: instant
  bk_sync_sequence :: int

record highlight_row =
  hg_id :: HighlightID
  hg_edition_id :: EditionID
  hg_user_id :: "UserID option"
  hg_library_id :: "LibraryID option"
  hg_start_position :: string
  hg_end_position :: string
  hg_note :: string
  hg_category :: string
  hg_created_at :: instant
  hg_sync_sequence :: int

record preferences_row =
  rx_user_id :: UserID
  rx_device_id :: DeviceID
  rx_settings :: string

record candidate_row =
  ic_id :: string
  ic_source_id :: SourceID
  ic_file_reference :: string
  ic_status :: string
  ic_extracted_metadata :: "string option"
  ic_match_candidates :: "string option"
  ic_job_id :: "string option"
  ic_last_error :: "string option"
  ic_created_at :: instant
  ic_updated_at :: instant

record session_row =
  sr_id :: string
  sr_initiated_by :: UserID
  sr_code_ciphertext :: string
  sr_code_index :: string
  sr_state :: string
  sr_created_at :: instant
  sr_expires_at :: instant
  sr_device_id :: "DeviceID option"
  sr_initiator_ip :: "string option"

record device_row =
  dr_id :: DeviceID
  dr_owner_id :: "UserID option"
  dr_label :: string
  dr_device_class :: string
  dr_enrolled_via :: string
  dr_created_at :: instant
  dr_last_seen_at :: instant
  dr_revoked_at :: "instant option"
  dr_pairing_session_id :: "string option"
  dr_sync_cursor :: int
  dr_last_synced_at :: "instant option"

record job_row =
  jb_id :: string
  jb_kind :: string
  jb_payload :: string
  jb_status :: string
  jb_attempts :: int
  jb_max_attempts :: int
  jb_available_at :: instant
  jb_locked_until :: "instant option"
  jb_lease_token :: "string option"
  jb_locked_by :: "string option"
  jb_last_error :: "string option"
  jb_progress :: "(int \<times> int) option"
  jb_created_at :: instant
  jb_updated_at :: instant
  jb_completed_at :: "instant option"

record user_row =
  ur_id :: UserID
  ur_username :: string
  ur_email :: string
  ur_role :: string
  ur_created_at :: instant
  ur_updated_at :: instant

record credential_row =
  cr_user_id :: UserID
  cr_password_hash :: string
  cr_updated_at :: instant

record refresh_row =
  rf_id :: string
  rf_user_id :: UserID
  rf_token_hash :: string
  rf_expires_at :: instant
  rf_revoked_at :: "instant option"
  rf_created_at :: instant

record mfa_row =
  mf_user_id :: UserID
  mf_encrypted_secret :: string
  mf_recovery_code_hashes :: "string list"
  mf_enabled :: bool
  mf_confirmed_at :: "instant option"
  mf_created_at :: instant

record reset_row =
  rs_id :: string
  rs_user_id :: UserID
  rs_token_hash :: string
  rs_expires_at :: instant
  rs_used_at :: "instant option"
  rs_created_at :: instant

record library_row =
  lb_id :: LibraryID
  lb_name :: string
  lb_description :: string
  lb_allow_reader_uploads :: bool
  lb_created_at :: instant
  lb_updated_at :: instant

record membership_row =
  mb_id :: string
  mb_library_id :: LibraryID
  mb_user_id :: UserID
  mb_role :: string
  mb_created_at :: instant

record invitation_row =
  iv_id :: string
  iv_library_id :: LibraryID
  iv_email :: string
  iv_role :: string
  iv_token_hash :: string
  iv_created_by :: UserID
  iv_expires_at :: instant
  iv_used_at :: "instant option"
  iv_created_at :: instant

record network_row =
  nw_host_name :: string
  nw_remember_device_days :: int
  nw_updated_at :: instant

record database =
  db_links :: "nat option"
  sync_seq :: int
  libraries :: "library_row list"
  works :: "work_row list"
  work_authors :: "(WorkID \<times> AuthorID) list"
  work_subjects :: "(WorkID \<times> string) list"
  work_references :: "(WorkID \<times> string \<times> string) list"
  work_contains :: "(WorkID \<times> WorkID) list"
  authors :: "author_row list"
  author_references :: "(AuthorID \<times> string \<times> string) list"
  editions :: "edition_row list"
  edition_references :: "(EditionID \<times> string \<times> string) list"
  library_entries :: "library_entry_row list"
  collections :: "collection_row list"
  collection_members :: "member_row list"
  sources :: "source_row list"
  source_offerings :: "offering_row list"
  import_candidates :: "candidate_row list"
  reading_progress :: "progress_row list"
  bookmarks :: "bookmark_row list"
  highlights :: "highlight_row list"
  reading_preferences :: "preferences_row list"
  users :: "user_row list"
  pairing_sessions :: "session_row list"
  paired_devices :: "device_row list"
  jobs :: "job_row list"
  user_credentials :: "credential_row list"
  user_refresh_tokens :: "refresh_row list"
  mfa_totp_settings :: "mfa_row list"
  password_resets :: "reset_row list"
  library_memberships :: "membership_row list"
  library_invitations :: "invitation_row list"
  enrolment_grant_jtis :: "(string \<times> instant) list"
  mfa_ticket_jtis :: "(string \<times> instant) list"
  network_settings :: "network_row option"

abbreviation user_ids :: "database \<Rightarrow> UserID set" where
  "user_ids db \<equiv> ur_id ` set (users db)"

abbreviation library_ids :: "database \<Rightarrow> LibraryID set" where
  "library_ids db \<equiv> lb_id ` set (libraries db)"

text \<open>A timestamp column keeps microseconds.\<close>

definition timestamptz :: "instant \<Rightarrow> instant" where
  "timestamptz t = t div 1000 * 1000"

definition named_library :: "LibraryID \<Rightarrow> library_row" where
  "named_library i = \<lparr> lb_id = i, lb_name = i, lb_description = [], lb_allow_reader_uploads = False,
     lb_created_at = 0, lb_updated_at = 0 \<rparr>"

lemma lb_id_named_library [simp]: "lb_id (named_library i) = i"
  by (simp add: named_library_def)

definition empty_database :: "LibraryID list \<Rightarrow> database" where
  "empty_database libs =
     \<lparr> db_links = None, sync_seq = 0, libraries = map named_library libs, works = [], work_authors = [], work_subjects = [],
       work_references = [], work_contains = [], authors = [], author_references = [],
       editions = [], edition_references = [], library_entries = [], collections = [],
       collection_members = [], sources = [], source_offerings = [], import_candidates = [],
       reading_progress = [], bookmarks = [], highlights = [], reading_preferences = [], users = [],
       pairing_sessions = [], paired_devices = [], jobs = [], user_credentials = [],
       user_refresh_tokens = [], mfa_totp_settings = [], password_resets = [], library_memberships = [],
       library_invitations = [], enrolment_grant_jtis = [], mfa_ticket_jtis = [], network_settings = None \<rparr>"

section \<open>Statements\<close>

text \<open>
  A statement maps the tables to a SQLSTATE, or to the tables after it and the number of rows it
  affected.
\<close>

type_synonym statement = "database \<Rightarrow> string + database \<times> nat"

definition unique_violation :: string where "unique_violation = ''23505''"
definition foreign_key_violation :: string where "foreign_key_violation = ''23503''"
definition numeric_out_of_range :: string where "numeric_out_of_range = ''22003''"
definition check_violation :: string where "check_violation = ''23514''"
definition invalid_column_reference :: string where "invalid_column_reference = ''42P10''"

definition ErrClosed :: go_error where
  "ErrClosed = ErrorsNew ''conn closed''"

definition tick :: "database \<Rightarrow> database" where
  "tick db = db\<lparr>db_links := map_option (\<lambda>n. n - 1) (db_links db)\<rparr>"

definition connected :: "database \<Rightarrow> bool" where
  "connected db \<longleftrightarrow> db_links db \<noteq> Some 0"

text \<open>\<open>exec.Exec\<close> and \<open>exec.Query\<close>.\<close>

definition Exec :: "statement \<Rightarrow> database \<Rightarrow> nat result \<times> database" where
  "Exec stmt db =
     (if \<not> connected db then (Inl ErrClosed, db)
      else (case stmt db of
              Inl sqlstate \<Rightarrow> (Inl (PgError sqlstate), tick db)
            | Inr (db', n) \<Rightarrow> (Inr n, tick db')))"

definition Query :: "(database \<Rightarrow> 'a) \<Rightarrow> database \<Rightarrow> 'a result" where
  "Query q db = (if connected db then Inr (q db) else Inl ErrClosed)"

definition TranslateError :: "go_error \<Rightarrow> go_error" where
  "TranslateError err =
     (if as_PgError err = Some unique_violation
      then DomainError Conflict
             (Msg ''the requested change conflicts with an existing record'' []) (Some err)
      else DomainError Internal (Msg ''an internal error occurred'' []) (Some err))"

lemma CategoryOf_TranslateError:
  "CategoryOf (TranslateError err) =
     (if as_PgError err = Some unique_violation then Conflict else Internal)"
  by (simp add: TranslateError_def)

text \<open>
  The shape of every \<open>Save\<close>: statements in order, each followed by
  \<open>if err != nil { return TranslateError(err) }\<close>.
\<close>

fun exec_all :: "statement list \<Rightarrow> database \<Rightarrow> go_error option \<times> database" where
  "exec_all [] db = (None, db)"
| "exec_all (s # ss) db =
     (case Exec s db of
        (Inl err, db') \<Rightarrow> (Some (TranslateError err), db')
      | (Inr n, db') \<Rightarrow> exec_all ss db')"

lemma exec_all_append:
  "exec_all (ss @ ts) db =
     (case exec_all ss db of (Some e, db') \<Rightarrow> (Some e, db') | (None, db') \<Rightarrow> exec_all ts db')"
  by (induction ss db rule: exec_all.induct) (auto split: sum.splits prod.splits)

lemma Exec_ok:
  assumes "Exec s db = (Inr n, db')"
  obtains d where "s db = Inr (d, n)" "db' = tick d" "connected db"
  using assms by (auto simp: Exec_def split: if_splits sum.splits prod.splits)

lemma exec_all_okE:
  assumes "exec_all (s # ss) db = (None, db')"
  obtains d n where "s db = Inr (d, n)" "exec_all ss (tick d) = (None, db')"
  using assms by (auto split: sum.splits prod.splits elim: Exec_ok)

text \<open>A method that is a single statement.\<close>

definition exec_one :: "statement \<Rightarrow> database \<Rightarrow> go_error option \<times> database" where
  "exec_one s db = exec_all [s] db"

lemma exec_one_ok:
  assumes "exec_one s db = (None, db')"
  obtains d n where "s db = Inr (d, n)" "db' = tick d"
proof -
  obtain d n where "s db = Inr (d, n)" "exec_all [] (tick d) = (None, db')"
    using assms unfolding exec_one_def by (rule exec_all_okE)
  then show ?thesis using that by simp
qed

lemma exec_one_up: "db_links db = None \<Longrightarrow> s db = Inr (d, n) \<Longrightarrow> exec_one s db = (None, tick d)"
  by (simp add: exec_one_def Exec_def connected_def)

text \<open>
  Whatever a statement leaves alone, a sequence of such statements leaves alone, wherever it
  stops.
\<close>

definition keeps :: "(database \<Rightarrow> 'a) \<Rightarrow> statement \<Rightarrow> bool" where
  "keeps f s \<longleftrightarrow> (\<forall>db db' n. s db = Inr (db', n) \<longrightarrow> f db' = f db)"

definition unlinked :: "(database \<Rightarrow> 'a) \<Rightarrow> bool" where
  "unlinked f \<longleftrightarrow> (\<forall>db l s. f (db\<lparr>db_links := l, sync_seq := s\<rparr>) = f db)"

lemma unlinked_links: "unlinked f \<Longrightarrow> f (db\<lparr>db_links := l\<rparr>) = f db"
  unfolding unlinked_def by (metis database.surjective database.update_convs(1,2))

lemma unlinked_tick: "unlinked f \<Longrightarrow> f (tick db) = f db"
  by (simp add: unlinked_links tick_def)

lemma Exec_keeps:
  "unlinked f \<Longrightarrow> keeps f s \<Longrightarrow> f (snd (Exec s db)) = f db"
  by (auto simp: Exec_def keeps_def unlinked_tick split: sum.split)

lemma exec_all_keeps:
  assumes "unlinked f" "\<forall>s \<in> set ss. keeps f s"
  shows "f (snd (exec_all ss db)) = f db"
  using assms(2)
proof (induction ss db rule: exec_all.induct)
  case (2 s ss db)
  have "f (snd (Exec s db)) = f db" using assms(1) 2 by (intro Exec_keeps) auto
  with 2 show ?case by (auto split: sum.splits prod.splits)
qed simp

lemma exec_all_keeps_ok:
  "exec_all ss db = (r, db') \<Longrightarrow> unlinked f \<Longrightarrow> (\<And>s. s \<in> set ss \<Longrightarrow> keeps f s) \<Longrightarrow> f db' = f db"
  using exec_all_keeps [of f ss db] by simp

text \<open>A property every statement of a sequence keeps holds wherever the sequence stops.\<close>

lemma exec_all_invariant:
  assumes "unlinked P" and "\<And>s d d' n. s \<in> set ss \<Longrightarrow> P d \<Longrightarrow> s d = Inr (d', n) \<Longrightarrow> P d'"
    and "P db" "exec_all ss db = (r, db')"
  shows "P db'"
  using assms(2-)
proof (induction ss arbitrary: db)
  case (Cons s ss)
  show ?case
  proof (cases "connected db")
    case False
    with Cons.prems show ?thesis by (auto simp: Exec_def)
  next
    case True
    show ?thesis
    proof (cases "s db")
      case (Inl code)
      with True Cons.prems show ?thesis by (auto simp: Exec_def unlinked_tick [OF assms(1)])
    next
      case (Inr dn)
      obtain d n where dn: "dn = (d, n)" by (cases dn)
      have "P d" using Cons.prems(1) [of s db d n] Cons.prems(2) Inr dn by simp
      then have "P (tick d)" by (simp add: unlinked_tick [OF assms(1)])
      moreover have "exec_all ss (tick d) = (r, db')"
        using Cons.prems(3) True Inr dn by (simp add: Exec_def)
      ultimately show ?thesis
        using Cons.prems(1) by (intro Cons.IH) (auto intro: Cons.prems(1))
    qed
  qed
qed simp

text \<open>Deleting the rows of a table that match a condition, and inserting into a keyed table.\<close>

definition delete_where :: "('r \<Rightarrow> bool) \<Rightarrow> 'r list \<Rightarrow> 'r list" where
  "delete_where P t = filter (\<lambda>r. \<not> P r) t"

lemma keys_delete_where: "key ` set (delete_where (\<lambda>r. key r = k) t) = key ` set t - {k}"
  by (auto simp: delete_where_def)

fun upsert_by :: "('r \<Rightarrow> 'k) \<Rightarrow> 'r \<Rightarrow> 'r list \<Rightarrow> 'r list" where
  "upsert_by key r [] = [r]"
| "upsert_by key r (x # xs) = (if key x = key r then r # xs else x # upsert_by key r xs)"

definition row_by :: "('r \<Rightarrow> 'k) \<Rightarrow> 'k \<Rightarrow> 'r list \<Rightarrow> 'r option" where
  "row_by key k t = List.find (\<lambda>r. key r = k) t"

lemma row_by_upsert:
  "row_by key k (upsert_by key r t) = (if k = key r then Some r else row_by key k t)"
  by (induction t) (auto simp: row_by_def)

lemma keys_upsert: "key ` set (upsert_by key r t) = insert (key r) (key ` set t)"
  by (induction t) auto

lemma set_upsert: "x \<in> set (upsert_by key r t) \<Longrightarrow> x = r \<or> x \<in> set t"
  by (induction t) (auto split: if_splits)

lemma distinct_upsert:
  "distinct (map key t) \<Longrightarrow> distinct (map key (upsert_by key r t))"
proof (induction t)
  case (Cons x xs)
  have "set (map key (upsert_by key r xs)) = insert (key r) (key ` set xs)"
    by (simp add: keys_upsert)
  with Cons show ?case by auto
qed simp

lemma row_by_eq_Some_iff:
  "distinct (map key t) \<Longrightarrow> row_by key k t = Some r \<longleftrightarrow> r \<in> set t \<and> key r = k"
  by (induction t) (auto simp: row_by_def)

lemma row_by_eq_None_iff: "row_by key k t = None \<longleftrightarrow> k \<notin> key ` set t"
  by (auto simp: row_by_def find_None_iff)

lemma row_by_SomeD: "row_by key k t = Some r \<Longrightarrow> r \<in> set t \<and> key r = k"
  by (auto simp: row_by_def find_Some_iff)

lemma row_by_append:
  "row_by key k (s @ t) = (case row_by key k s of None \<Rightarrow> row_by key k t | Some r \<Rightarrow> Some r)"
  by (induction s) (simp_all add: row_by_def)

text \<open>Updating the rows that match a condition.\<close>

definition update_where :: "('r \<Rightarrow> bool) \<Rightarrow> ('r \<Rightarrow> 'r) \<Rightarrow> 'r list \<Rightarrow> 'r list" where
  "update_where P f t = map (\<lambda>r. if P r then f r else r) t"

lemma set_update_where: "set (update_where P f t) = (\<lambda>r. if P r then f r else r) ` set t"
  by (simp add: update_where_def)

lemma map_update_where: "(\<And>r. key (f r) = key r) \<Longrightarrow> map key (update_where P f t) = map key t"
  by (simp add: update_where_def)

section \<open>Transactions\<close>

text \<open>
  \<open>InTx\<close>: begin, run \<open>fn\<close>, commit on success and roll back on its error.  Rolling back
  restores the tables; the connection and the sequence stay in the state \<open>fn\<close> left them in, and a
  commit over a broken connection fails.  A Go closure's captured results are the value \<open>fn\<close> returns.
\<close>

definition rollback :: "database \<Rightarrow> database \<Rightarrow> database" where
  "rollback before after = before\<lparr>db_links := db_links after, sync_seq := sync_seq after\<rparr>"

definition InTx :: "(database \<Rightarrow> 'a result \<times> database) \<Rightarrow> database \<Rightarrow> 'a result \<times> database" where
  "InTx fn db =
     (if \<not> connected db then (Inl (TranslateError ErrClosed), db)
      else (case fn db of
              (Inl err, db') \<Rightarrow> (Inl err, rollback db db')
            | (Inr a, db') \<Rightarrow>
                (if connected db' then (Inr a, db')
                 else (Inl (TranslateError ErrClosed), rollback db db'))))"

definition same_tables :: "database \<Rightarrow> database \<Rightarrow> bool" where
  "same_tables db db' \<longleftrightarrow> db\<lparr>db_links := None, sync_seq := 0\<rparr> = db'\<lparr>db_links := None, sync_seq := 0\<rparr>"

lemma same_tables_unlinked: "same_tables db db' \<Longrightarrow> unlinked f \<Longrightarrow> f db = f db'"
  unfolding same_tables_def unlinked_def by metis

interpretation pgtx: transactor InTx same_tables
proof unfold_locales
  show "same_tables db' db" if "InTx fn db = (Inl e, db')"
    for fn :: "database \<Rightarrow> 'a result \<times> database" and db e db'
    using that
    by (auto simp: InTx_def same_tables_def rollback_def split: if_splits prod.splits sum.splits)
  show "fn db = (Inr a, db')" if "InTx fn db = (Inr a, db')"
    for fn :: "database \<Rightarrow> 'a result \<times> database" and db a db'
    using that by (auto simp: InTx_def split: if_splits prod.splits sum.splits)
qed

end
