(* ===== verification/Work_Services.thy ===== *)
theory Work_Services
  imports Domain_Repository
begin

text \<open>
  Merging, containment and resolution of works: \<open>resolve_work.go\<close>, \<open>work_merge_service.go\<close>,
  \<open>work_containment_service.go\<close> of \<open>internal/domain\<close>.  Every loop of the source is a
  \<open>partial_function\<close> whose value \<open>None\<close> means that it does not return; the merge group loop of
  the source keeps no visited set, so its termination is a theorem about acyclic merges, not a
  fact of its shape.
\<close>

section \<open>The loops\<close>

partial_function (option) resolve_loop ::
  "(WorkID \<Rightarrow> Work result) \<Rightarrow> WorkID \<Rightarrow> WorkID set \<Rightarrow> WorkID result option" where
  "resolve_loop findByID current seen =
     (if current \<in> seen then
        Some (Inl (derr Internal ''merge chain contains an existing cycle''))
      else (case findByID current of
              Inl err \<Rightarrow> Some (Inl err)
            | Inr w \<Rightarrow> (case w_mergedInto w of
                 None \<Rightarrow> Some (Inr current)
               | Some nxt \<Rightarrow> resolve_loop findByID nxt (insert current seen))))"

definition resolveCanonicalWork :: "'db WorkRepository \<Rightarrow> 'db \<Rightarrow> WorkID \<Rightarrow> WorkID result option" where
  "resolveCanonicalWork works db i = resolve_loop (wr_FindByID works db) i {}"

partial_function (option) collect_loop ::
  "(WorkID \<Rightarrow> Work list result) \<Rightarrow> WorkID list \<Rightarrow> Work list \<Rightarrow> Work list result option" where
  "collect_loop findMerged queue grp =
     (case queue of
        [] \<Rightarrow> Some (Inr grp)
      | current # rest \<Rightarrow>
          (case findMerged current of
             Inl err \<Rightarrow> Some (Inl err)
           | Inr members \<Rightarrow> collect_loop findMerged (rest @ map w_id members) (grp @ members)))"

definition collectMergeGroup :: "'db WorkRepository \<Rightarrow> 'db \<Rightarrow> WorkID \<Rightarrow> Work list result option" where
  "collectMergeGroup works db canonical =
     (case wr_FindByID works db canonical of
        Inl err \<Rightarrow> Some (Inl err)
      | Inr canonicalWork \<Rightarrow> collect_loop (wr_FindMergedInto works db) [canonical] [canonicalWork])"

text \<open>The two inner loops of \<open>containsClosure\<close>, over the contained ids of a whole merge group.\<close>

fun closure_inner ::
  "'db WorkRepository \<Rightarrow> 'db \<Rightarrow> WorkID list \<Rightarrow> WorkID set \<Rightarrow> WorkID list
   \<Rightarrow> (WorkID set \<times> WorkID list) result option" where
  "closure_inner works db [] closure queue = Some (Inr (closure, queue))"
| "closure_inner works db (containedID # cs) closure queue =
     (case resolveCanonicalWork works db containedID of
        None \<Rightarrow> None
      | Some (Inl err) \<Rightarrow> Some (Inl err)
      | Some (Inr r) \<Rightarrow>
          (if r \<notin> closure then closure_inner works db cs (insert r closure) (queue @ [r])
           else closure_inner works db cs closure queue))"

partial_function (option) closure_loop ::
  "'db WorkRepository \<Rightarrow> 'db \<Rightarrow> WorkID list \<Rightarrow> WorkID set \<Rightarrow> WorkID set \<Rightarrow> WorkID set result option" where
  "closure_loop works db queue visitedGroups closure =
     (case queue of
        [] \<Rightarrow> Some (Inr closure)
      | canonical # rest \<Rightarrow>
          (if canonical \<in> visitedGroups then closure_loop works db rest visitedGroups closure
           else (case collectMergeGroup works db canonical of
                   None \<Rightarrow> None
                 | Some (Inl err) \<Rightarrow> Some (Inl err)
                 | Some (Inr grp) \<Rightarrow>
                     (case closure_inner works db (concat (map w_contains grp)) closure rest of
                        None \<Rightarrow> None
                      | Some (Inl err) \<Rightarrow> Some (Inl err)
                      | Some (Inr (closure', queue')) \<Rightarrow>
                          closure_loop works db queue' (insert canonical visitedGroups) closure'))))"

definition containsClosure :: "'db WorkRepository \<Rightarrow> 'db \<Rightarrow> WorkID \<Rightarrow> WorkID set result option" where
  "containsClosure works db start =
     (case resolveCanonicalWork works db start of
        None \<Rightarrow> None
      | Some (Inl err) \<Rightarrow> Some (Inl err)
      | Some (Inr startCanonical) \<Rightarrow> closure_loop works db [startCanonical] {} {})"

partial_function (option) work_reach_loop ::
  "(WorkID \<Rightarrow> Work result) \<Rightarrow> WorkID \<Rightarrow> WorkID \<Rightarrow> WorkID set \<Rightarrow> bool result option" where
  "work_reach_loop findByID source current visited =
     (if current = source then Some (Inr True)
      else if current \<in> visited then Some (Inr False)
      else (case findByID current of
              Inl err \<Rightarrow> Some (Inl err)
            | Inr w \<Rightarrow> (case w_mergedInto w of
                 None \<Rightarrow> Some (Inr False)
               | Some nxt \<Rightarrow> work_reach_loop findByID source nxt (insert current visited))))"

section \<open>ResolveWork\<close>

record ResolvedWork =
  rw_CanonicalID :: WorkID
  rw_Title :: string
  rw_Subtitle :: string
  rw_Authors :: "AuthorID list"
  rw_Subjects :: "Subject list"
  rw_OriginalLanguage :: "Language option"
  rw_ExternalReferences :: "ExternalReference list"
  rw_Contains :: "WorkID list"

definition ResolveWork :: "'db WorkRepository \<Rightarrow> 'db \<Rightarrow> WorkID \<Rightarrow> ResolvedWork result option" where
  "ResolveWork works db i =
     (case resolveCanonicalWork works db i of
        None \<Rightarrow> None
      | Some (Inl err) \<Rightarrow> Some (Inl err)
      | Some (Inr canonical) \<Rightarrow>
         (case wr_FindByID works db canonical of
            Inl err \<Rightarrow> Some (Inl err)
          | Inr canonicalWork \<Rightarrow>
             (case collectMergeGroup works db canonical of
                None \<Rightarrow> None
              | Some (Inl err) \<Rightarrow> Some (Inl err)
              | Some (Inr grp) \<Rightarrow>
                  Some (Inr
                    \<lparr> rw_CanonicalID = canonical,
                      rw_Title = w_title canonicalWork,
                      rw_Subtitle = w_subtitle canonicalWork,
                      rw_Authors = dedup_onto [] (concat (map w_authors grp)),
                      rw_Subjects = dedup_onto [] (concat (map w_subjects grp)),
                      rw_OriginalLanguage = w_originalLanguage canonicalWork,
                      rw_ExternalReferences = dedup_onto [] (concat (map w_externalReferences grp)),
                      rw_Contains = dedup_onto [] (concat (map w_contains grp)) \<rparr>))))"

section \<open>WorkMergeService\<close>

definition sourceReachableFromTarget ::
  "'db WorkRepository \<Rightarrow> 'db \<Rightarrow> WorkID \<Rightarrow> WorkID \<Rightarrow> bool result option" where
  "sourceReachableFromTarget works db source target =
     work_reach_loop (wr_FindByID works db) source target {}"

definition wouldCreateSelfContainment ::
  "'db WorkRepository \<Rightarrow> 'db \<Rightarrow> WorkID \<Rightarrow> WorkID \<Rightarrow> bool result option" where
  "wouldCreateSelfContainment works db source target =
     (case resolveCanonicalWork works db target of
        None \<Rightarrow> None
      | Some (Inl err) \<Rightarrow> Some (Inl err)
      | Some (Inr targetCanonical) \<Rightarrow>
         (case resolveCanonicalWork works db source of
            None \<Rightarrow> None
          | Some (Inl err) \<Rightarrow> Some (Inl err)
          | Some (Inr sourceCanonical) \<Rightarrow>
             (case containsClosure works db targetCanonical of
                None \<Rightarrow> None
              | Some (Inl err) \<Rightarrow> Some (Inl err)
              | Some (Inr closure) \<Rightarrow> Some (Inr (sourceCanonical \<in> closure)))))"

text \<open>Saving a changed work and turning success into the operation's event.\<close>

definition save_then ::
  "'db WorkRepository \<Rightarrow> 'db \<Rightarrow> Work \<Rightarrow> event \<Rightarrow> event result \<times> 'db" where
  "save_then works db w ev =
     (case wr_Save works w db of (Some err, db') \<Rightarrow> (Inl err, db') | (None, db') \<Rightarrow> (Inr ev, db'))"

definition RecordMerge ::
  "'db WorkRepository \<Rightarrow> 'db \<Rightarrow> WorkID \<Rightarrow> WorkID \<Rightarrow> instant \<Rightarrow> (event result \<times> 'db) option" where
  "RecordMerge works db source target occurredAt =
     (case sourceReachableFromTarget works db source target of
        None \<Rightarrow> None
      | Some (Inl err) \<Rightarrow> Some (Inl err, db)
      | Some (Inr True) \<Rightarrow>
          Some (Inl (derr Conflict ''recording this merge would create a cycle''), db)
      | Some (Inr False) \<Rightarrow>
         (case wouldCreateSelfContainment works db source target of
            None \<Rightarrow> None
          | Some (Inl err) \<Rightarrow> Some (Inl err, db)
          | Some (Inr True) \<Rightarrow>
              Some (Inl (derr Conflict
                ''recording this merge would make a Work's resolved containment reach itself''), db)
          | Some (Inr False) \<Rightarrow>
             (case wr_FindByID works db source of
                Inl err \<Rightarrow> Some (Inl err, db)
              | Inr sourceWork \<Rightarrow>
                  Some (save_then works db (sourceWork\<lparr>w_mergedInto := Some target\<rparr>)
                    (new_event WorkMerged source occurredAt)))))"

definition UndoMerge ::
  "'db WorkRepository \<Rightarrow> 'db \<Rightarrow> WorkID \<Rightarrow> instant \<Rightarrow> event result \<times> 'db" where
  "UndoMerge works db source occurredAt =
     (case wr_FindByID works db source of
        Inl err \<Rightarrow> (Inl err, db)
      | Inr sourceWork \<Rightarrow>
          save_then works db (sourceWork\<lparr>w_mergedInto := None\<rparr>)
            (new_event WorkMergeUndone source occurredAt))"

section \<open>WorkContainmentService\<close>

definition AddContains ::
  "'db WorkRepository \<Rightarrow> 'db \<Rightarrow> WorkID \<Rightarrow> WorkID \<Rightarrow> instant \<Rightarrow> (event result \<times> 'db) option" where
  "AddContains works db container containee occurredAt =
     (case resolveCanonicalWork works db container of
        None \<Rightarrow> None
      | Some (Inl err) \<Rightarrow> Some (Inl err, db)
      | Some (Inr containerCanonical) \<Rightarrow>
         (case resolveCanonicalWork works db containee of
            None \<Rightarrow> None
          | Some (Inl err) \<Rightarrow> Some (Inl err, db)
          | Some (Inr containeeCanonical) \<Rightarrow>
             (if containerCanonical = containeeCanonical then
                Some (Inl (derr Conflict ''a Work cannot contain itself''), db)
              else (case containsClosure works db containeeCanonical of
                 None \<Rightarrow> None
               | Some (Inl err) \<Rightarrow> Some (Inl err, db)
               | Some (Inr closure) \<Rightarrow>
                  (if containerCanonical \<in> closure then
                     Some (Inl (derr Conflict
                       ''adding this containment reference would create a cycle''), db)
                   else (case wr_FindByID works db container of
                      Inl err \<Rightarrow> Some (Inl err, db)
                    | Inr containerWork \<Rightarrow>
                        Some (save_then works db
                          (containerWork\<lparr>w_contains := w_contains containerWork @ [containee]\<rparr>)
                          (new_event WorkContainsAdded container occurredAt))))))))"

definition RemoveContains ::
  "'db WorkRepository \<Rightarrow> 'db \<Rightarrow> WorkID \<Rightarrow> WorkID \<Rightarrow> instant \<Rightarrow> event result \<times> 'db" where
  "RemoveContains works db container containee occurredAt =
     (case wr_FindByID works db container of
        Inl err \<Rightarrow> (Inl err, db)
      | Inr containerWork \<Rightarrow>
          save_then works db
            (containerWork\<lparr>w_contains := filter (\<lambda>i. i \<noteq> containee) (w_contains containerWork)\<rparr>)
            (new_event WorkContainsRemoved container occurredAt))"

section \<open>Correctness over any repository that keeps its contract\<close>

sublocale work_repository \<subseteq> wchain: merge_chain "wr_FindByID repo" w_mergedInto work_reach_loop inv
  "\<lambda>db. merge_rel (graph db)" "\<lambda>db. dom (graph db)"
proof unfold_locales
  show "work_reach_loop f src cur visited =
       (if cur = src then Some (Inr True)
        else if cur \<in> visited then Some (Inr False)
        else (case f cur of Inl e \<Rightarrow> Some (Inl e)
              | Inr r \<Rightarrow> (case w_mergedInto r of None \<Rightarrow> Some (Inr False)
                          | Some nxt \<Rightarrow> work_reach_loop f src nxt (insert cur visited))))"
    for f src cur visited
    by (subst work_reach_loop.simps) simp
  show "(x, y) \<in> merge_rel (graph db) \<longleftrightarrow> w_mergedInto r = Some y"
    if "inv db" "wr_FindByID repo db x = Inr r" for db x y r
    using find_node [OF that] by (auto simp: merge_rel_def work_node_def)
  show "x \<in> dom (graph db)" if "inv db" "wr_FindByID repo db x = Inr r" for db x r
    using find_node [OF that] by auto
  show "finite (dom (graph db))" if "inv db" for db
    using closed [OF that] by (simp add: closed_graph_def)
qed

context work_repository
begin

subsection \<open>Canonical forms\<close>

lemma resolve_loop_total_aux:
  "inv db \<Longrightarrow> card (dom (graph db) - seen) = n \<Longrightarrow>
   \<exists>r. resolve_loop (wr_FindByID repo db) cur seen = Some r"
proof (induction n arbitrary: cur seen rule: less_induct)
  case (less n)
  show ?case
  proof (cases "cur \<in> seen")
    case True
    then show ?thesis by (subst resolve_loop.simps) simp
  next
    case new: False
    show ?thesis
    proof (cases "wr_FindByID repo db cur")
      case (Inl e)
      with new show ?thesis by (subst resolve_loop.simps) simp
    next
      case (Inr w)
      then have "cur \<in> dom (graph db) - seen"
        using wchain.find_keys less.prems(1) new by blast
      then have "card (dom (graph db) - insert cur seen) < n"
        using less.prems wchain.finite_keys by (metis Diff_insert card_Diff1_less finite_Diff)
      then have "\<exists>q. resolve_loop (wr_FindByID repo db) nxt (insert cur seen) = Some q" for nxt
        using less by blast
      with new Inr show ?thesis
        by (subst resolve_loop.simps) (cases "w_mergedInto w"; simp)
    qed
  qed
qed

lemma resolve_total: "inv db \<Longrightarrow> \<exists>r. resolveCanonicalWork repo db i = Some r"
  unfolding resolveCanonicalWork_def using resolve_loop_total_aux by blast

lemma resolve_loop_sound:
  assumes inv: "inv db" and ret: "resolve_loop (wr_FindByID repo db) cur seen = Some (Inr c)"
  shows "canon_of (graph db) cur c \<and> c \<in> dom (graph db) \<and> cur \<in> dom (graph db)"
proof -
  let ?P = "\<lambda>f cur (seen :: WorkID set) (r :: WorkID result). f = wr_FindByID repo db \<longrightarrow> (\<forall>c. r = Inr c \<longrightarrow>
      canon_of (graph db) cur c \<and> c \<in> dom (graph db) \<and> cur \<in> dom (graph db))"
  have "?P (wr_FindByID repo db) cur seen (Inr c)"
  proof (rule resolve_loop.raw_induct [where P = ?P, OF _ ret])
    fix rl f cur seen r
    assume IH: "\<And>f cur seen r. rl f cur seen = Some r \<Longrightarrow> ?P f cur seen r"
      and step: "(if cur \<in> seen then Some (Inl (derr Internal ''merge chain contains an existing cycle''))
           else case f cur of Inl err \<Rightarrow> Some (Inl err)
             | Inr w \<Rightarrow> case w_mergedInto w of None \<Rightarrow> Some (Inr cur)
                 | Some nxt \<Rightarrow> rl f nxt (insert cur seen)) = Some r"
    show "?P f cur seen r"
    proof (intro impI allI)
    fix c
    assume f: "f = wr_FindByID repo db" and r: "r = Inr c"
    obtain w where w: "wr_FindByID repo db cur = Inr w"
      and rest: "(case w_mergedInto w of None \<Rightarrow> Some (Inr cur)
         | Some nxt \<Rightarrow> rl f nxt (insert cur seen)) = Some (Inr c)"
      using step unfolding f r by (auto split: if_splits sum.splits)
    have node: "graph db cur = Some (w_mergedInto w, set (w_contains w))"
      using find_node [OF inv w] by (simp add: work_node_def)
    show "canon_of (graph db) cur c \<and> c \<in> dom (graph db) \<and> cur \<in> dom (graph db)"
    proof (cases "w_mergedInto w")
      case None
      then have "cur \<notin> Domain (merge_rel (graph db))"
        using node by (auto simp: merge_rel_def)
      with rest None node show ?thesis by (auto intro: canonical_self)
    next
      case (Some nxt)
      then have "(cur, nxt) \<in> merge_rel (graph db)"
        using node by (auto simp: merge_rel_def)
      moreover have "canon_of (graph db) nxt c \<and> c \<in> dom (graph db)"
        using IH [of f nxt "insert cur seen" "Inr c"] rest Some f by simp
      ultimately show ?thesis using node by (auto intro: canonical_step)
    qed
    qed
  qed
  then show ?thesis by simp
qed

lemma resolve_sound:
  assumes "inv db" "resolveCanonicalWork repo db i = Some (Inr c)"
  shows "canon_of (graph db) i c" "c \<in> dom (graph db)" "i \<in> dom (graph db)"
  using resolve_loop_sound [OF assms(1)] assms(2) by (auto simp: resolveCanonicalWork_def)

lemma resolve_unique:
  assumes "inv db" "canon_of (graph db) i c" "resolveCanonicalWork repo db i = Some (Inr d)"
  shows "d = c"
  using resolve_sound(1) [OF assms(1,3)] assms(2) by (rule canonical_unique)

subsection \<open>Merge groups\<close>

definition merge_group :: "'db \<Rightarrow> WorkID \<Rightarrow> WorkID set" where
  "merge_group db c = {a. (a, c) \<in> (merge_rel (graph db))\<^sup>*}"

text \<open>
  The queue invariant: ids found so far all lead to \<open>c\<close>, the queue holds ids found, and the
  direct sources of every id that left the queue have been found.
\<close>

definition collect_inv :: "'db \<Rightarrow> WorkID \<Rightarrow> WorkID list \<Rightarrow> Work list \<Rightarrow> bool" where
  "collect_inv db c queue grp \<longleftrightarrow>
     c \<in> w_id ` set grp \<and> w_id ` set grp \<subseteq> merge_group db c \<and> set queue \<subseteq> w_id ` set grp
     \<and> (\<forall>x y. y \<in> w_id ` set grp - set queue \<longrightarrow> (x, y) \<in> merge_rel (graph db) \<longrightarrow> x \<in> w_id ` set grp)
     \<and> (\<forall>w \<in> set grp. wr_FindByID repo db (w_id w) = Inr w)"

lemma collect_inv_step:
  assumes "inv db" "collect_inv db c (cur # rest) grp" "wr_FindMergedInto repo db cur = Inr ms"
  shows "collect_inv db c (rest @ map w_id ms) (grp @ ms)"
proof -
  let ?M = "merge_rel (graph db)"
  have mem: "w_id ` set ms = {a. (a, cur) \<in> ?M}"
    using merged_members [OF assms(1,3)] .
  have "cur \<in> merge_group db c" using assms(2) by (auto simp: collect_inv_def)
  then have "w_id ` set ms \<subseteq> merge_group db c"
    unfolding mem merge_group_def by (auto intro: converse_rtrancl_into_rtrancl)
  moreover have "x \<in> w_id ` set (grp @ ms)"
    if "y \<in> w_id ` set (grp @ ms) - set (rest @ map w_id ms)" "(x, y) \<in> ?M" for x y
  proof (cases "y = cur")
    case True
    with that(2) have "x \<in> w_id ` set ms" unfolding mem by simp
    then show ?thesis by auto
  next
    case False
    with that(1) have "y \<in> w_id ` set grp - set (cur # rest)" by auto
    with that(2) assms(2) have "x \<in> w_id ` set grp" unfolding collect_inv_def by blast
    then show ?thesis by auto
  qed
  ultimately show ?thesis
    using assms(2) merged_found [OF assms(1,3)] by (auto simp: collect_inv_def image_Un)
qed

lemma collect_inv_done:
  assumes "collect_inv db c [] grp"
  shows "w_id ` set grp = merge_group db c"
proof -
  have "a \<in> w_id ` set grp" if "(a, c) \<in> (merge_rel (graph db))\<^sup>*" for a
    using that by (induction rule: converse_rtrancl_induct)
      (use assms in \<open>auto simp: collect_inv_def\<close>)
  then show ?thesis using assms by (auto simp: collect_inv_def merge_group_def)
qed

lemma collect_loop_sound:
  assumes inv: "inv db"
    and ret: "collect_loop (wr_FindMergedInto repo db) queue grp = Some (Inr res)"
    and start: "collect_inv db c queue grp"
  shows "collect_inv db c [] res"
proof -
  let ?P = "\<lambda>f queue grp (r :: Work list result). f = wr_FindMergedInto repo db \<longrightarrow> collect_inv db c queue grp \<longrightarrow>
      (\<forall>res. r = Inr res \<longrightarrow> collect_inv db c [] res)"
  have "?P (wr_FindMergedInto repo db) queue grp (Inr res)"
  proof (rule collect_loop.raw_induct [where P = ?P, OF _ ret])
    fix cl f queue grp r
    assume IH: "\<And>f queue grp r. cl f queue grp = Some r \<Longrightarrow> ?P f queue grp r"
      and step: "(case queue of [] \<Rightarrow> Some (Inr grp)
           | cur # rest \<Rightarrow> (case f cur of Inl err \<Rightarrow> Some (Inl err)
               | Inr ms \<Rightarrow> cl f (rest @ map w_id ms) (grp @ ms))) = Some r"
    show "?P f queue grp r"
    proof (intro impI allI)
    fix res
    assume f: "f = wr_FindMergedInto repo db" and I: "collect_inv db c queue grp" and r: "r = Inr res"
    show "collect_inv db c [] res"
    proof (cases queue)
      case Nil
      with step I r show ?thesis by simp
    next
      case (Cons cur rest)
      with step r f obtain ms where ms: "wr_FindMergedInto repo db cur = Inr ms"
        and rec: "cl f (rest @ map w_id ms) (grp @ ms) = Some (Inr res)"
        by (auto split: sum.splits)
      show ?thesis
        using IH [OF rec] f collect_inv_step [OF inv _ ms] I Cons by blast
    qed
    qed
  qed
  then show ?thesis using start by simp
qed

lemma collect_sound:
  assumes "inv db" "collectMergeGroup repo db c = Some (Inr grp)"
  shows "w_id ` set grp = merge_group db c"
    and "w \<in> set grp \<Longrightarrow> wr_FindByID repo db (w_id w) = Inr w"
    and "w \<in> set grp \<Longrightarrow> graph db (w_id w) = Some (work_node w)"
proof -
  obtain cw where cw: "wr_FindByID repo db c = Inr cw"
    and ret: "collect_loop (wr_FindMergedInto repo db) [c] [cw] = Some (Inr grp)"
    using assms(2) by (auto simp: collectMergeGroup_def split: sum.splits)
  note node = find_node [OF assms(1) cw]
  have "collect_inv db c [] grp"
    by (rule collect_loop_sound [OF assms(1) ret])
       (use node cw in \<open>auto simp: collect_inv_def merge_group_def\<close>)
  then show "w_id ` set grp = merge_group db c"
    and found: "w \<in> set grp \<Longrightarrow> wr_FindByID repo db (w_id w) = Inr w"
    using collect_inv_done [of db c grp] unfolding collect_inv_def by blast+
  then show "w \<in> set grp \<Longrightarrow> graph db (w_id w) = Some (work_node w)"
    using find_node [OF assms(1)] by blast
qed

text \<open>
  The loop keeps no visited set.  It ends because each work taken from the queue is replaced by
  works merged into it, which are below it in the well-founded order of an acyclic merge graph.
\<close>

lemma collect_loop_total:
  assumes "inv db" "acyclic (merge_rel (graph db))"
  shows "\<exists>r. collect_loop (wr_FindMergedInto repo db) queue grp = Some r"
proof -
  let ?M = "merge_rel (graph db)"
  have "wf (mult ?M)"
    using wf_merge_rel(1) assms wchain.finite_keys by (intro wf_mult) blast
  then show ?thesis
  proof (induction "mset queue" arbitrary: queue grp rule: wf_induct_rule)
    case less
    show ?case
    proof (cases queue)
      case Nil
      then show ?thesis by (subst collect_loop.simps) simp
    next
      case (Cons cur rest)
      show ?thesis
      proof (cases "wr_FindMergedInto repo db cur")
        case (Inl e)
        with Cons show ?thesis by (subst collect_loop.simps) simp
      next
        case (Inr ms)
        have "(mset rest + mset (map w_id ms), mset rest + {#cur#}) \<in> mult ?M"
          by (rule one_step_implies_mult)
             (use merged_members [OF assms(1) Inr] in auto)
        then have "(mset (rest @ map w_id ms), mset queue) \<in> mult ?M"
          using Cons by simp
        then show ?thesis
          using less [of "rest @ map w_id ms" "grp @ ms"] Cons Inr
          by (subst collect_loop.simps) simp
      qed
    qed
  qed
qed

lemma collect_total:
  assumes "inv db" "acyclic (merge_rel (graph db))"
  shows "\<exists>r. collectMergeGroup repo db c = Some r"
  using collect_loop_total [OF assms] by (simp add: collectMergeGroup_def split: sum.split)

subsection \<open>The containment closure\<close>

lemma closure_inner_sound:
  "inv db \<Longrightarrow> closure_inner repo db cs closure queue = Some (Inr (closure', queue')) \<Longrightarrow>
   closure' = closure \<union> {y. \<exists>b \<in> set cs. canon_of (graph db) b y}
   \<and> set queue' = set queue \<union> (closure' - closure)
   \<and> closure' - closure \<subseteq> dom (graph db)"
proof (induction cs arbitrary: closure queue)
  case Nil
  then show ?case by auto
next
  case (Cons b cs)
  then obtain r where r: "resolveCanonicalWork repo db b = Some (Inr r)"
    and rec: "closure_inner repo db cs (insert r closure) (if r \<in> closure then queue else queue @ [r])
       = Some (Inr (closure', queue'))"
    by (auto simp: insert_absorb split: option.splits sum.splits if_splits)
  note cr = resolve_sound [OF Cons.prems(1) r]
  have "{y. canon_of (graph db) b y} = {r}"
    using cr(1) by (auto dest: canonical_unique)
  then show ?case
    using Cons.IH [OF Cons.prems(1) rec] cr(2) by (auto split: if_splits)
qed

lemma closure_inner_grows:
  "closure_inner repo db cs closure queue = Some (Inr (closure', queue')) \<Longrightarrow>
   closure \<subseteq> closure' \<and> (closure' = closure \<longrightarrow> queue' = queue)"
proof (induction cs arbitrary: closure queue)
  case (Cons b cs)
  then obtain r where "resolveCanonicalWork repo db b = Some (Inr r)"
    by (auto split: option.splits sum.splits)
  with Cons show ?case by (cases "r \<in> closure") fastforce+
qed simp

lemma closure_inner_total:
  "inv db \<Longrightarrow> \<exists>r. closure_inner repo db cs closure queue = Some r"
proof (induction cs arbitrary: closure queue)
  case (Cons b cs)
  obtain q where "resolveCanonicalWork repo db b = Some q"
    using resolve_total [OF Cons.prems] by blast
  with Cons show ?case by (cases q) auto
qed simp

text \<open>The resolved containees of a canonical work are those of the works of its merge group.\<close>

lemma resolved_of_group:
  assumes "inv db" "collectMergeGroup repo db x = Some (Inr grp)" "x \<notin> Domain (merge_rel (graph db))"
  shows "{y. \<exists>b \<in> set (concat (map w_contains grp)). canon_of (graph db) b y} = resolved (graph db) `` {x}"
proof -
  note grp = collect_sound [OF assms(1,2)]
  have "(\<exists>w \<in> set grp. b \<in> set (w_contains w)) \<longleftrightarrow>
      (\<exists>a. a \<in> merge_group db x \<and> (a, b) \<in> contains_rel (graph db))" for b
  proof
    assume "\<exists>w \<in> set grp. b \<in> set (w_contains w)"
    then obtain w where w: "w \<in> set grp" "b \<in> set (w_contains w)" by blast
    with grp(3) [OF w(1)] have "(w_id w, b) \<in> contains_rel (graph db)"
      by (auto simp: contains_rel_def work_node_def)
    with w(1) grp(1) show "\<exists>a. a \<in> merge_group db x \<and> (a, b) \<in> contains_rel (graph db)" by blast
  next
    assume "\<exists>a. a \<in> merge_group db x \<and> (a, b) \<in> contains_rel (graph db)"
    then obtain a where a: "a \<in> merge_group db x" "(a, b) \<in> contains_rel (graph db)" by blast
    then obtain w where "w \<in> set grp" "a = w_id w" using grp(1) by blast
    with a(2) grp(3) show "\<exists>w \<in> set grp. b \<in> set (w_contains w)"
      by (auto simp: contains_rel_def work_node_def)
  qed
  moreover have "a \<in> merge_group db x \<longleftrightarrow> canon_of (graph db) a x" for a
    using assms(3) by (simp add: merge_group_def canon_of_def)
  ultimately have "(\<exists>b. (\<exists>w \<in> set grp. b \<in> set (w_contains w)) \<and> canon_of (graph db) b y) \<longleftrightarrow>
      (x, y) \<in> resolved (graph db)" for y
    unfolding resolved_def mem_Collect_eq case_prod_conv by metis
  then show ?thesis by (simp add: set_eq_iff) metis
qed

text \<open>
  The invariant of the outer loop from the canonical work \<open>root\<close>: everything in the closure is
  reachable, every id of the closure (and the root) is queued or already expanded, and the
  successors of an expanded id are in the closure.
\<close>

definition closure_inv :: "'db \<Rightarrow> WorkID \<Rightarrow> WorkID list \<Rightarrow> WorkID set \<Rightarrow> WorkID set \<Rightarrow> bool" where
  "closure_inv db root queue visited closure \<longleftrightarrow>
     root \<notin> Domain (merge_rel (graph db))
     \<and> closure \<subseteq> (resolved (graph db))\<^sup>+ `` {root} \<and> closure \<subseteq> dom (graph db)
     \<and> set queue \<subseteq> insert root closure \<and> insert root closure \<subseteq> visited \<union> set queue
     \<and> visited \<subseteq> insert root closure \<and> resolved (graph db) `` visited \<subseteq> closure"

lemma resolved_range_canonical:
  "(x, y) \<in> (resolved g)\<^sup>+ \<Longrightarrow> y \<notin> Domain (merge_rel g)"
  by (induction rule: trancl_induct) (auto simp: resolved_def canon_of_def)

lemma closure_inv_skip:
  "closure_inv db root (x # rest) visited closure \<Longrightarrow> x \<in> visited \<Longrightarrow>
   closure_inv db root rest visited closure"
  by (auto simp: closure_inv_def)

lemma closure_inv_step:
  assumes inv: "inv db" and I: "closure_inv db root (x # rest) visited closure"
    and grp: "collectMergeGroup repo db x = Some (Inr grp)"
    and inner: "closure_inner repo db (concat (map w_contains grp)) closure rest
      = Some (Inr (closure', queue'))"
  shows "closure_inv db root queue' (insert x visited) closure'"
proof -
  let ?E = "resolved (graph db)"
  have x: "x \<in> insert root closure" using I by (auto simp: closure_inv_def)
  have "x \<notin> Domain (merge_rel (graph db))"
    using I x resolved_range_canonical [of root _ "graph db"] by (auto simp: closure_inv_def)
  then have succ: "{y. \<exists>b \<in> set (concat (map w_contains grp)). canon_of (graph db) b y} = ?E `` {x}"
    by (rule resolved_of_group [OF inv grp])
  note inn = closure_inner_sound [OF inv inner, unfolded succ]
  have "?E `` {x} \<subseteq> ?E\<^sup>+ `` {root}"
    using x I by (auto simp: closure_inv_def intro: trancl.trancl_into_trancl)
  then show ?thesis
    using I inn by (auto simp: closure_inv_def)
qed

lemma closure_inv_done:
  assumes "closure_inv db root [] visited closure"
  shows "closure = (resolved (graph db))\<^sup>+ `` {root}"
proof -
  have "insert root closure \<subseteq> visited" "resolved (graph db) `` visited \<subseteq> closure"
    using assms by (simp_all add: closure_inv_def)
  then have sub: "resolved (graph db) `` insert root closure \<subseteq> closure" by blast
  have "y \<in> closure" if "(root, y) \<in> (resolved (graph db))\<^sup>+" for y
    using that by (induction rule: trancl_induct) (use sub in blast)+
  then show ?thesis using assms by (auto simp: closure_inv_def)
qed

lemma closure_loop_sound:
  assumes inv: "inv db"
    and ret: "closure_loop repo db queue visited closure = Some (Inr res)"
    and start: "closure_inv db root queue visited closure"
  shows "res = (resolved (graph db))\<^sup>+ `` {root}"
proof -
  let ?P = "\<lambda>works d queue visited closure (r :: WorkID set result). works = repo \<longrightarrow> d = db \<longrightarrow>
      closure_inv db root queue visited closure \<longrightarrow> (\<forall>res. r = Inr res \<longrightarrow> res = (resolved (graph db))\<^sup>+ `` {root})"
  have "?P repo db queue visited closure (Inr res)"
  proof (rule closure_loop.raw_induct [where P = ?P, OF _ ret])
    fix cl works d queue visited closure r
    assume IH: "\<And>works d queue visited closure r.
        cl works d queue visited closure = Some r \<Longrightarrow> ?P works d queue visited closure r"
      and step: "(case queue of [] \<Rightarrow> Some (Inr closure)
        | x # rest \<Rightarrow>
          (if x \<in> visited then cl works d rest visited closure
           else (case collectMergeGroup works d x of
                   None \<Rightarrow> None
                 | Some (Inl err) \<Rightarrow> Some (Inl err)
                 | Some (Inr grp) \<Rightarrow>
                     (case closure_inner works d (concat (map w_contains grp)) closure rest of
                        None \<Rightarrow> None
                      | Some (Inl err) \<Rightarrow> Some (Inl err)
                      | Some (Inr (closure', queue')) \<Rightarrow>
                          cl works d queue' (insert x visited) closure')))) = Some r"
    show "?P works d queue visited closure r"
    proof (intro impI allI)
      fix res
      assume eqs: "works = repo" "d = db" and I: "closure_inv db root queue visited closure"
        and r: "r = Inr res"
      show "res = (resolved (graph db))\<^sup>+ `` {root}"
      proof (cases queue)
        case Nil
        with step I r show ?thesis using closure_inv_done by simp
      next
        case (Cons x rest)
        show ?thesis
        proof (cases "x \<in> visited")
          case True
          then have "cl works d rest visited closure = Some r" using step Cons by simp
          with IH I Cons True eqs r show ?thesis using closure_inv_skip by blast
        next
          case False
          then obtain grp closure' queue'
            where g: "collectMergeGroup repo db x = Some (Inr grp)"
              and i: "closure_inner repo db (concat (map w_contains grp)) closure rest
                = Some (Inr (closure', queue'))"
              and rec: "cl works d queue' (insert x visited) closure' = Some r"
            using step Cons r unfolding eqs by (auto split: option.splits sum.splits)
          have "closure_inv db root queue' (insert x visited) closure'"
            by (rule closure_inv_step [OF inv _ g i]) (use I Cons in simp)
          with IH [OF rec] eqs r show ?thesis by blast
        qed
      qed
    qed
  qed
  then show ?thesis using start by simp
qed

lemma closure_loop_total:
  assumes "inv db" "acyclic (merge_rel (graph db))"
  shows "closure \<subseteq> dom (graph db) \<Longrightarrow> \<exists>r. closure_loop repo db queue visited closure = Some r"
proof (induction "(card (dom (graph db) - closure), length queue)" arbitrary: queue visited closure
    rule: wf_induct_rule [OF wf_lex_prod [OF wf_less_than wf_less_than]])
  case 1
  show ?case
  proof (cases queue)
    case Nil
    then show ?thesis by (subst closure_loop.simps) simp
  next
    case (Cons x rest)
    have skip: "\<exists>r. closure_loop repo db rest visited closure = Some r"
      using 1 Cons by simp
    obtain gr where gr: "collectMergeGroup repo db x = Some gr"
      using collect_total [OF assms] by blast
    show ?thesis
    proof (cases "x \<in> visited")
      case True
      with skip Cons show ?thesis by (subst closure_loop.simps) simp
    next
      case False
      show ?thesis
      proof (cases gr)
        case (Inl e)
        with False gr Cons show ?thesis by (subst closure_loop.simps) simp
      next
        case (Inr grp)
        obtain ir where ir: "closure_inner repo db (concat (map w_contains grp)) closure rest = Some ir"
          using closure_inner_total [OF assms(1)] by blast
        show ?thesis
        proof (cases ir)
          case Inl
          with Inr False gr ir Cons show ?thesis by (subst closure_loop.simps) simp
        next
          case iro: (Inr cq)
          obtain closure' queue' where cq: "cq = (closure', queue')" by (cases cq)
          have inn: "closure_inner repo db (concat (map w_contains grp)) closure rest
              = Some (Inr (closure', queue'))" using ir iro cq by simp
          have new: "closure' - closure \<subseteq> dom (graph db)"
            using closure_inner_sound [OF assms(1) inn] by blast
          then have ext: "closure' \<subseteq> dom (graph db)" using "1.prems" by blast
          have fin: "finite (dom (graph db) - closure)" using wchain.finite_keys [OF assms(1)] by simp
          have "card (dom (graph db) - closure') < card (dom (graph db) - closure)
              \<or> closure' = closure \<and> length queue' < length queue"
          proof (cases "closure' = closure")
            case True
            then show ?thesis using closure_inner_grows [OF inn] Cons by simp
          next
            case False
            then have "dom (graph db) - closure' \<subset> dom (graph db) - closure"
              using closure_inner_grows [OF inn] new by blast
            then show ?thesis using fin by (simp add: psubset_card_mono)
          qed
          then have "\<exists>r. closure_loop repo db queue' (insert x visited) closure' = Some r"
            using "1.hyps" [of closure' queue' "insert x visited"] ext by auto
          with Inr False gr ir iro cq Cons show ?thesis by (subst closure_loop.simps) simp
        qed
      qed
    qed
  qed
qed

lemma containsClosure_sound:
  assumes "inv db" "containsClosure repo db start = Some (Inr cl)" "canon_of (graph db) start c"
  shows "cl = (resolved (graph db))\<^sup>+ `` {c}"
proof -
  obtain c' where c': "resolveCanonicalWork repo db start = Some (Inr c')"
    and ret: "closure_loop repo db [c'] {} {} = Some (Inr cl)"
    using assms(2) by (auto simp: containsClosure_def split: option.splits sum.splits)
  have "c' = c" using resolve_sound(1) [OF assms(1) c'] assms(3) by (rule canonical_unique)
  with ret show ?thesis
    using assms(3)
    by (intro closure_loop_sound [OF assms(1) ret]) (simp add: closure_inv_def canon_of_def)
qed

lemma containsClosure_total:
  assumes "inv db" "acyclic (merge_rel (graph db))"
  shows "\<exists>r. containsClosure repo db start = Some r"
proof -
  obtain q where "resolveCanonicalWork repo db start = Some q"
    using resolve_total [OF assms(1)] by blast
  then show ?thesis
    using closure_loop_total [OF assms, of "{}"]
    by (cases q) (simp_all add: containsClosure_def)
qed

subsection \<open>The services\<close>

lemma save_then_ok:
  assumes "inv db" "save_then repo db w ev = (Inr ev', db')"
  shows "ev' = ev" "inv db'" "graph db' = (graph db)(w_id w \<mapsto> work_node w)"
  using assms save_node by (auto simp: save_then_def split: prod.splits option.splits)

text \<open>
  Whether it succeeds or fails, saving leaves the store in order, with the old graph or a part of
  the graph in which the work is written over the old containments.
\<close>

lemma save_then_any:
  assumes "inv db" "save_then repo db w ev = (r, db')" "graph db (w_id w) = Some (m, S)"
  shows "inv db'" and "graph db' = graph db \<or>
    graph_le (graph db') ((graph db)(w_id w \<mapsto> (w_mergedInto w, set (w_contains w) \<union> S)))"
proof -
  have old: "contains_rel (graph db) `` {w_id w} = S"
    using assms(3) by (auto simp: contains_rel_def)
  have "inv db' \<and> (graph db' = graph db \<or>
    graph_le (graph db') ((graph db)(w_id w \<mapsto> (w_mergedInto w, set (w_contains w) \<union> S))))"
  proof (cases "wr_Save repo w db")
    case (Pair res d)
    then show ?thesis
      using assms save_node [OF assms(1), of w d] save_failed [OF assms(1), of w _ d]
      unfolding old work_node_def
      by (cases res) (auto simp: save_then_def graph_le_upd)
  qed
  then show "inv db'" and "graph db' = graph db \<or>
    graph_le (graph db') ((graph db)(w_id w \<mapsto> (w_mergedInto w, set (w_contains w) \<union> S)))"
    by blast+
qed

text \<open>
  \<open>AddContains\<close> either refuses and writes nothing, or passes its checks and saves the
  container with one more containee.
\<close>

lemma AddContains_cases:
  assumes inv: "inv db" and ret: "AddContains repo db a b t = Some (r, db')"
  obtains (refused) e where "r = Inl e" "db' = db"
    | (saved) S x y w where "graph db a = Some (w_mergedInto w, S)" "w_id w = a"
      "set (w_contains w) = insert b S" "canon_of (graph db) a x" "canon_of (graph db) b y"
      "x \<noteq> y" "(y, x) \<notin> (resolved (graph db))\<^sup>+"
      "save_then repo db w (new_event WorkContainsAdded a t) = (r, db')"
proof (cases "\<exists>e. r = Inl e \<and> db' = db")
  case True
  then show ?thesis using refused by blast
next
  case False
  then obtain x y cl w where x: "resolveCanonicalWork repo db a = Some (Inr x)"
    and y: "resolveCanonicalWork repo db b = Some (Inr y)" and ne: "x \<noteq> y"
    and cl: "containsClosure repo db y = Some (Inr cl)" "x \<notin> cl"
    and w: "wr_FindByID repo db a = Inr w"
    and sv: "save_then repo db (w\<lparr>w_contains := w_contains w @ [b]\<rparr>)
        (new_event WorkContainsAdded a t) = (r, db')"
    using ret by (auto simp: AddContains_def split: option.splits sum.splits if_splits)
  note cx = resolve_sound [OF inv x] and cy = resolve_sound [OF inv y]
  have "cl = (resolved (graph db))\<^sup>+ `` {y}"
    by (rule containsClosure_sound [OF inv cl(1) canonical_idem [OF cy(1)]])
  then have acy: "(y, x) \<notin> (resolved (graph db))\<^sup>+" using cl(2) by auto
  show ?thesis
    by (rule saved [of "w\<lparr>w_contains := w_contains w @ [b]\<rparr>" "set (w_contains w)" x y])
       (use find_node [OF inv w] sv cx cy ne acy in \<open>simp_all add: work_node_def\<close>)
qed

lemma AddContains_ok:
  assumes inv: "inv db" and ok: "AddContains repo db a b t = Some (Inr ev, db')"
  obtains m S where "graph db a = Some (m, S)" "graph db' = (graph db)(a \<mapsto> (m, insert b S))"
    "ev = new_event WorkContainsAdded a t"
  using inv ok
proof (cases rule: AddContains_cases)
  case (saved S x y w)
  with save_then_ok [OF inv saved(8)] show ?thesis by (intro that) (auto simp: work_node_def)
qed simp

text \<open>Whatever it answers, merges are untouched and containment stays acyclic.\<close>

lemma AddContains_safe:
  assumes inv: "inv db" and ret: "AddContains repo db a b t = Some (r, db')"
  shows "inv db' \<and> merge_rel (graph db') = merge_rel (graph db)
    \<and> (acyclic (resolved (graph db)) \<longrightarrow> acyclic (resolved (graph db')))"
  using inv ret
proof (cases rule: AddContains_cases)
  case (saved S x y w)
  let ?g = "(graph db)(a \<mapsto> (w_mergedInto w, insert b S))"
  have sub: "graph db' = graph db \<or> graph_le (graph db') ?g" and inv': "inv db'"
    using save_then_any [OF inv saved(8)] saved(1,2,3) by (simp_all add: insert_absorb2 Un_absorb2)
  have "acyclic (resolved (graph db)) \<Longrightarrow> acyclic (resolved ?g)"
    by (rule acyclic_resolved_insert [OF _ saved(1,4,5,6,7)])
  moreover have "merge_rel ?g = merge_rel (graph db)"
    using saved(1) by (rule merge_rel_upd_contains)
  ultimately show ?thesis using inv' written_acyclic [OF sub] by blast
qed (use inv in simp)

text \<open>Asking for a containment that would close a cycle is refused, and nothing is written.\<close>

lemma AddContains_refuses:
  assumes "inv db" "acyclic (merge_rel (graph db))" "canon_of (graph db) a x" "canon_of (graph db) b y"
    and "x = y \<or> (y, x) \<in> (resolved (graph db))\<^sup>+"
  shows "\<exists>e. AddContains repo db a b t = Some (Inl e, db)"
proof -
  obtain ra where ra: "resolveCanonicalWork repo db a = Some ra" using resolve_total assms(1) by blast
  obtain rb where rb: "resolveCanonicalWork repo db b = Some rb" using resolve_total assms(1) by blast
  obtain rc where rc: "containsClosure repo db y = Some rc"
    using containsClosure_total assms(1,2) by blast
  have a: "ra = Inr z \<Longrightarrow> z = x" for z
    using resolve_unique [OF assms(1,3)] ra by simp
  have b: "rb = Inr z \<Longrightarrow> z = y" for z
    using resolve_unique [OF assms(1,4)] rb by simp
  have c: "x \<in> cl" if "rc = Inr cl" "x \<noteq> y" for cl
  proof -
    have "containsClosure repo db y = Some (Inr cl)" using rc that(1) by simp
    from containsClosure_sound [OF assms(1) this canonical_idem [OF assms(4)]]
    show ?thesis using assms(5) that(2) by blast
  qed
  show ?thesis
  proof (cases ra)
    case (Inl e)
    then show ?thesis using ra by (simp add: AddContains_def)
  next
    case ax: (Inr z)
    show ?thesis
    proof (cases rb)
      case (Inl e)
      then show ?thesis using ra ax by (simp add: AddContains_def rb)
    next
      case bz: (Inr z')
      show ?thesis
        using ra rb rc a [OF ax] b [OF bz] ax bz c
        by (cases rc) (simp_all add: AddContains_def)
    qed
  qed
qed

lemma AddContains_total:
  assumes "inv db" "acyclic (merge_rel (graph db))"
  shows "\<exists>r. AddContains repo db a b t = Some r"
proof -
  obtain ra where ra: "resolveCanonicalWork repo db a = Some ra" using resolve_total assms(1) by blast
  obtain rb where rb: "resolveCanonicalWork repo db b = Some rb" using resolve_total assms(1) by blast
  show ?thesis
  proof (cases "\<exists>x y. ra = Inr x \<and> rb = Inr y")
    case True
    then obtain x y where xy: "ra = Inr x" "rb = Inr y" by blast
    obtain rc where "containsClosure repo db y = Some rc" using containsClosure_total assms by blast
    then show ?thesis using ra rb xy by (simp add: AddContains_def split: sum.split)
  next
    case False
    then show ?thesis using ra rb by (cases ra; cases rb) (simp_all add: AddContains_def)
  qed
qed

text \<open>\<open>RecordMerge\<close> either refuses or passes its checks and saves the source redirected.\<close>

lemma RecordMerge_cases:
  assumes inv: "inv db" and ret: "RecordMerge repo db s t at' = Some (r, db')"
  obtains (refused) e where "r = Inl e" "db' = db"
    | (saved) m S x y w where "graph db s = Some (m, S)" "w_id w = s" "w_mergedInto w = Some t"
      "set (w_contains w) = S" "canon_of (graph db) s x" "canon_of (graph db) t y"
      "(t, s) \<notin> (merge_rel (graph db))\<^sup>*" "(y, x) \<notin> (resolved (graph db))\<^sup>+"
      "save_then repo db w (new_event WorkMerged s at') = (r, db')"
proof (cases "\<exists>e. r = Inl e \<and> db' = db")
  case True
  then show ?thesis using refused by blast
next
  case False
  then obtain w where nr: "work_reach_loop (wr_FindByID repo db) s t {} = Some (Inr False)"
    and sc: "wouldCreateSelfContainment repo db s t = Some (Inr False)"
    and w: "wr_FindByID repo db s = Inr w"
    and sv: "save_then repo db (w\<lparr>w_mergedInto := Some t\<rparr>) (new_event WorkMerged s at') = (r, db')"
    using ret by (auto simp: RecordMerge_def sourceReachableFromTarget_def
        split: option.splits sum.splits bool.splits)
  obtain x y cl where y: "resolveCanonicalWork repo db t = Some (Inr y)"
    and x: "resolveCanonicalWork repo db s = Some (Inr x)"
    and cl: "containsClosure repo db y = Some (Inr cl)" "x \<notin> cl"
    using sc by (auto simp: wouldCreateSelfContainment_def split: option.splits sum.splits)
  note cx = resolve_sound [OF inv x] and cy = resolve_sound [OF inv y]
  have "cl = (resolved (graph db))\<^sup>+ `` {y}"
    by (rule containsClosure_sound [OF inv cl(1) canonical_idem [OF cy(1)]])
  then have acy: "(y, x) \<notin> (resolved (graph db))\<^sup>+" using cl(2) by auto
  show ?thesis
    by (rule saved [of "w_mergedInto w" "set (w_contains w)" "w\<lparr>w_mergedInto := Some t\<rparr>" x y])
       (use find_node [OF inv w] sv cx cy acy wchain.reach_False [OF inv nr] in
         \<open>simp_all add: work_node_def\<close>)
qed

lemma RecordMerge_ok:
  assumes inv: "inv db" and ok: "RecordMerge repo db s t at' = Some (Inr ev, db')"
  obtains m S where "graph db s = Some (m, S)" "graph db' = (graph db)(s \<mapsto> (Some t, S))"
    "ev = new_event WorkMerged s at'"
  using inv ok
proof (cases rule: RecordMerge_cases)
  case (saved m S x y w)
  with save_then_ok [OF inv saved(9)] show ?thesis by (intro that) (auto simp: work_node_def)
qed simp

lemma RecordMerge_safe:
  assumes inv: "inv db" and ret: "RecordMerge repo db s t at' = Some (r, db')"
    and acy: "acyclic (merge_rel (graph db))"
  shows "inv db' \<and> acyclic (merge_rel (graph db'))"
  using inv ret
proof (cases rule: RecordMerge_cases)
  case (saved m S x y w)
  let ?g = "(graph db)(s \<mapsto> (Some t, S))"
  have "graph db' = graph db \<or> graph_le (graph db') ?g" and inv': "inv db'"
    using save_then_any [OF inv saved(9)] saved(1-4) by simp_all
  note w = written_acyclic(2) [OF this(1) acy]
  have "acyclic (merge_rel ?g)" by (rule acyclic_merge_record [OF acy saved(1,7)])
  then show ?thesis using w inv' by blast
qed (use inv acy in simp)

text \<open>
  Containment stays acyclic too if the source was not merged before and does not itself contain
  the target's work, directly or through others.
\<close>

lemma RecordMerge_resolved_safe:
  assumes inv: "inv db" and ret: "RecordMerge repo db s t at' = Some (r, db')"
    and acy: "acyclic (resolved (graph db))" and un: "s \<notin> Domain (merge_rel (graph db))"
    and not: "\<And>y. canon_of (graph db) t y \<Longrightarrow> (s, y) \<notin> (resolved (graph db))\<^sup>+"
  shows "acyclic (resolved (graph db'))"
  using inv ret
proof (cases rule: RecordMerge_cases)
  case (saved m S x y w)
  let ?g = "(graph db)(s \<mapsto> (Some t, S))"
  have xs: "x = s" using saved(5) canonical_self [OF un] by (rule canonical_unique)
  have "m = None" using saved(1) un by (cases m) (auto simp: merge_rel_def)
  moreover have "y \<noteq> s" using saved(6,7) by (auto simp: canon_of_def)
  ultimately have "acyclic (resolved ?g)"
    using saved acy not xs by (simp add: acyclic_resolved_record)
  moreover have "graph db' = graph db \<or> graph_le (graph db') ?g"
    using save_then_any [OF inv saved(9)] saved(1-4) by simp
  ultimately show ?thesis using written_acyclic(1) [OF _ acy] by blast
qed (use acy in simp)

lemma RecordMerge_total:
  assumes "inv db" "acyclic (merge_rel (graph db))"
  shows "\<exists>r. RecordMerge repo db s t at' = Some r"
proof -
  obtain q where q: "work_reach_loop (wr_FindByID repo db) s t {} = Some q"
    using wchain.reach_total [OF assms(1)] by blast
  obtain rt where rt: "resolveCanonicalWork repo db t = Some rt" using resolve_total assms(1) by blast
  obtain rs where rs: "resolveCanonicalWork repo db s = Some rs" using resolve_total assms(1) by blast
  have "\<exists>r. wouldCreateSelfContainment repo db s t = Some r"
  proof (cases rt)
    case (Inr y)
    obtain rc where "containsClosure repo db y = Some rc" using containsClosure_total assms by blast
    then show ?thesis using rt rs Inr by (simp add: wouldCreateSelfContainment_def split: sum.split)
  qed (simp add: wouldCreateSelfContainment_def rt)
  then obtain sc where sc: "wouldCreateSelfContainment repo db s t = Some sc" by blast
  show ?thesis
    unfolding RecordMerge_def sourceReachableFromTarget_def q sc
    by (simp split: sum.split bool.split)
qed

text \<open>The two operations without checks.\<close>

lemma UndoMerge_cases:
  assumes inv: "inv db" and ret: "UndoMerge repo db s at' = (r, db')"
  obtains (failed) e where "r = Inl e" "db' = db"
    | (saved) m S w where "graph db s = Some (m, S)" "w_id w = s" "w_mergedInto w = None"
      "set (w_contains w) = S" "save_then repo db w (new_event WorkMergeUndone s at') = (r, db')"
proof (cases "wr_FindByID repo db s")
  case (Inl e)
  then show ?thesis using ret failed [of e] by (auto simp: UndoMerge_def)
next
  case (Inr w)
  show ?thesis
    by (rule saved [of "w_mergedInto w" "set (w_contains w)" "w\<lparr>w_mergedInto := None\<rparr>"])
       (use find_node [OF inv Inr] ret Inr in \<open>simp_all add: work_node_def UndoMerge_def\<close>)
qed

lemma UndoMerge_ok:
  assumes inv: "inv db" and ok: "UndoMerge repo db s at' = (Inr ev, db')"
  obtains m S where "graph db s = Some (m, S)" "graph db' = (graph db)(s \<mapsto> (None, S))"
  using inv ok
proof (cases rule: UndoMerge_cases)
  case (saved m S w)
  with save_then_ok [OF inv saved(5)] show ?thesis by (intro that) (auto simp: work_node_def)
qed simp

lemma UndoMerge_safe:
  assumes inv: "inv db" and ret: "UndoMerge repo db s at' = (r, db')"
    and acy: "acyclic (merge_rel (graph db))"
  shows "inv db' \<and> acyclic (merge_rel (graph db'))
    \<and> (acyclic (resolved (graph db)) \<longrightarrow> acyclic (resolved (graph db')))"
  using inv ret
proof (cases rule: UndoMerge_cases)
  case (saved m S w)
  let ?g = "(graph db)(s \<mapsto> (None, S))"
  have "graph db' = graph db \<or> graph_le (graph db') ?g" and "inv db'"
    using save_then_any [OF inv saved(5)] saved(1-4) by simp_all
  moreover have "acyclic (merge_rel ?g)"
      "acyclic (resolved (graph db)) \<Longrightarrow> acyclic (resolved ?g)"
    using saved(1) acy wchain.finite_keys [OF inv]
    by (simp_all add: acyclic_merge_undo acyclic_resolved_undo)
  ultimately show ?thesis
    using acy written_acyclic [of "graph db'" "graph db" ?g] by blast
qed (use inv acy in simp)

lemma RemoveContains_cases:
  assumes inv: "inv db" and ret: "RemoveContains repo db a b at' = (r, db')"
  obtains (failed) e where "r = Inl e" "db' = db"
    | (saved) S w where "graph db a = Some (w_mergedInto w, S)" "w_id w = a"
      "set (w_contains w) = S - {b}"
      "save_then repo db w (new_event WorkContainsRemoved a at') = (r, db')"
proof (cases "wr_FindByID repo db a")
  case (Inl e)
  then show ?thesis using ret failed [of e] by (auto simp: RemoveContains_def)
next
  case (Inr w)
  show ?thesis
    by (rule saved [of "w\<lparr>w_contains := filter (\<lambda>i. i \<noteq> b) (w_contains w)\<rparr>" "set (w_contains w)"])
       (use find_node [OF inv Inr] ret Inr in \<open>auto simp: work_node_def RemoveContains_def\<close>)
qed

lemma RemoveContains_ok:
  assumes inv: "inv db" and ok: "RemoveContains repo db a b at' = (Inr ev, db')"
  obtains m S where "graph db a = Some (m, S)" "graph db' = (graph db)(a \<mapsto> (m, S - {b}))"
  using inv ok
proof (cases rule: RemoveContains_cases)
  case (saved S w)
  with save_then_ok [OF inv saved(4)] show ?thesis by (intro that) (auto simp: work_node_def)
qed simp

lemma RemoveContains_safe:
  assumes inv: "inv db" and ret: "RemoveContains repo db a b at' = (r, db')"
  shows "inv db' \<and> graph_le (graph db') (graph db)"
  using inv ret
proof (cases rule: RemoveContains_cases)
  case (saved S w)
  have "(graph db)(a \<mapsto> (w_mergedInto w, S - {b} \<union> S)) = graph db"
    using saved(1) by (auto simp: Un_absorb1 fun_upd_idem_iff)
  then show ?thesis
    using save_then_any [OF inv saved(4)] saved(1-3) graph_le_refl by auto
qed (use inv graph_le_refl in simp)

lemma ResolveWork_total:
  assumes "inv db" "acyclic (merge_rel (graph db))"
  shows "\<exists>r. ResolveWork repo db i = Some r"
proof -
  obtain q where q: "resolveCanonicalWork repo db i = Some q" using resolve_total assms(1) by blast
  show ?thesis
  proof (cases q)
    case (Inr c)
    obtain gr where "collectMergeGroup repo db c = Some gr" using collect_total assms by blast
    then show ?thesis using q Inr by (simp add: ResolveWork_def split: sum.split)
  qed (simp add: ResolveWork_def q)
qed

text \<open>What \<open>ResolveWork\<close> returns: the union over the merge group of the canonical work.\<close>

definition group_works :: "'db \<Rightarrow> WorkID \<Rightarrow> Work set" where
  "group_works db c = {w. w_id w \<in> merge_group db c \<and> wr_FindByID repo db (w_id w) = Inr w}"

lemma ResolveWork_sound:
  assumes "inv db" "ResolveWork repo db i = Some (Inr r)"
  obtains cw :: Work where "canon_of (graph db) i (rw_CanonicalID r)"
    "wr_FindByID repo db (rw_CanonicalID r) = Inr cw" "rw_Title r = w_title cw"
    "rw_OriginalLanguage r = w_originalLanguage cw"
    "set (rw_Authors r) = (\<Union>w \<in> group_works db (rw_CanonicalID r). set (w_authors w))" "distinct (rw_Authors r)"
    "set (rw_Subjects r) = (\<Union>w \<in> group_works db (rw_CanonicalID r). set (w_subjects w))" "distinct (rw_Subjects r)"
    "set (rw_ExternalReferences r) = (\<Union>w \<in> group_works db (rw_CanonicalID r). set (w_externalReferences w))"
    "distinct (rw_ExternalReferences r)"
    "set (rw_Contains r) = contains_rel (graph db) `` merge_group db (rw_CanonicalID r)"
    "distinct (rw_Contains r)"
proof -
  obtain c cw grp where c: "resolveCanonicalWork repo db i = Some (Inr c)"
    and cw: "wr_FindByID repo db c = Inr cw" and grp: "collectMergeGroup repo db c = Some (Inr grp)"
    and r: "rw_CanonicalID r = c" "rw_Title r = w_title cw"
      "rw_OriginalLanguage r = w_originalLanguage cw"
      "rw_Subjects r = dedup_onto [] (concat (map w_subjects grp))"
      "rw_ExternalReferences r = dedup_onto [] (concat (map w_externalReferences grp))"
      "rw_Authors r = dedup_onto [] (concat (map w_authors grp))"
      "rw_Contains r = dedup_onto [] (concat (map w_contains grp))"
    using assms(2) by (auto simp: ResolveWork_def split: option.splits sum.splits)
  note g = collect_sound [OF assms(1) grp]
  have "set (concat (map w_contains grp)) = contains_rel (graph db) `` (w_id ` set grp)"
    using g(3) by (fastforce simp: contains_rel_def work_node_def)
  moreover have "group_works db c = set grp"
  proof
    show "set grp \<subseteq> group_works db c" using g(1,2) by (auto simp: group_works_def)
    show "group_works db c \<subseteq> set grp"
    proof
      fix w
      assume w: "w \<in> group_works db c"
      then have "w_id w \<in> w_id ` set grp" unfolding g(1) by (simp add: group_works_def)
      then obtain w' where "w' \<in> set grp" "w_id w' = w_id w" by auto
      with w g(2) [OF this(1)] show "w \<in> set grp" by (simp add: group_works_def)
    qed
  qed
  ultimately show ?thesis
    using resolve_sound(1) [OF assms(1) c] cw r g(1) by (intro that [of cw]) simp_all
qed

end

end
