(* ===== verification/Author_Services.thy ===== *)
theory Author_Services
  imports Domain_Repository
begin

text \<open>
  \<open>author_merge_service.go\<close> of \<open>internal/domain\<close>: merging authors and undoing a merge.  The
  walk along the merge chain keeps a visited set; its correctness comes from the interface
  \<open>merge_chain\<close>, of which every author repository is an instance.
\<close>

partial_function (option) author_reach_loop ::
  "(AuthorID \<Rightarrow> Author result) \<Rightarrow> AuthorID \<Rightarrow> AuthorID \<Rightarrow> AuthorID set \<Rightarrow> bool result option" where
  "author_reach_loop findByID source current visited =
     (if current = source then Some (Inr True)
      else if current \<in> visited then Some (Inr False)
      else (case findByID current of
              Inl err \<Rightarrow> Some (Inl err)
            | Inr a \<Rightarrow> (case a_mergedInto a of
                 None \<Rightarrow> Some (Inr False)
               | Some nxt \<Rightarrow> author_reach_loop findByID source nxt (insert current visited))))"

definition author_sourceReachableFromTarget ::
  "'db AuthorRepository \<Rightarrow> 'db \<Rightarrow> AuthorID \<Rightarrow> AuthorID \<Rightarrow> bool result option" where
  "author_sourceReachableFromTarget authors db source target =
     author_reach_loop (ar_FindByID authors db) source target {}"

definition author_save_then ::
  "'db AuthorRepository \<Rightarrow> 'db \<Rightarrow> Author \<Rightarrow> event \<Rightarrow> event result \<times> 'db" where
  "author_save_then authors db a ev =
     (case ar_Save authors a db of (Some err, db') \<Rightarrow> (Inl err, db') | (None, db') \<Rightarrow> (Inr ev, db'))"

definition AuthorRecordMerge ::
  "'db AuthorRepository \<Rightarrow> 'db \<Rightarrow> AuthorID \<Rightarrow> AuthorID \<Rightarrow> instant \<Rightarrow> (event result \<times> 'db) option" where
  "AuthorRecordMerge authors db source target occurredAt =
     (case author_sourceReachableFromTarget authors db source target of
        None \<Rightarrow> None
      | Some (Inl err) \<Rightarrow> Some (Inl err, db)
      | Some (Inr True) \<Rightarrow>
          Some (Inl (derr Conflict ''recording this merge would create a cycle''), db)
      | Some (Inr False) \<Rightarrow>
         (case ar_FindByID authors db source of
            Inl err \<Rightarrow> Some (Inl err, db)
          | Inr sourceAuthor \<Rightarrow>
              Some (author_save_then authors db (sourceAuthor\<lparr>a_mergedInto := Some target\<rparr>)
                (new_event AuthorMerged source occurredAt))))"

definition AuthorUndoMerge ::
  "'db AuthorRepository \<Rightarrow> 'db \<Rightarrow> AuthorID \<Rightarrow> instant \<Rightarrow> event result \<times> 'db" where
  "AuthorUndoMerge authors db source occurredAt =
     (case ar_FindByID authors db source of
        Inl err \<Rightarrow> (Inl err, db)
      | Inr sourceAuthor \<Rightarrow>
          author_save_then authors db (sourceAuthor\<lparr>a_mergedInto := None\<rparr>)
            (new_event AuthorMergeUndone source occurredAt))"

sublocale author_repository \<subseteq> achain: merge_chain "ar_FindByID repo" a_mergedInto author_reach_loop inv
  "\<lambda>db. merge_rel (graph db)" "\<lambda>db. dom (graph db)"
proof unfold_locales
  show "author_reach_loop f src cur visited =
       (if cur = src then Some (Inr True)
        else if cur \<in> visited then Some (Inr False)
        else (case f cur of Inl e \<Rightarrow> Some (Inl e)
              | Inr r \<Rightarrow> (case a_mergedInto r of None \<Rightarrow> Some (Inr False)
                          | Some nxt \<Rightarrow> author_reach_loop f src nxt (insert cur visited))))"
    for f src cur visited
    by (subst author_reach_loop.simps) simp
  show "(x, y) \<in> merge_rel (graph db) \<longleftrightarrow> a_mergedInto r = Some y"
    if "inv db" "ar_FindByID repo db x = Inr r" for db x y r
    using find_node [OF that] by (auto simp: merge_rel_def)
  show "x \<in> dom (graph db)" if "inv db" "ar_FindByID repo db x = Inr r" for db x r
    using find_node [OF that] by auto
  show "finite (dom (graph db))" if "inv db" for db
    using closed [OF that] by (simp add: closed_graph_def)
qed

context author_repository
begin

lemma author_save_ok:
  assumes "inv db" "author_save_then repo db a ev = (Inr ev', db')"
  shows "ev' = ev" "inv db'" "graph db' = (graph db)(a_id a \<mapsto> (a_mergedInto a, {}))"
  using assms save_node by (auto simp: author_save_then_def split: prod.splits option.splits)

lemma AuthorRecordMerge_ok:
  assumes inv: "inv db" and ok: "AuthorRecordMerge repo db s t at' = Some (Inr ev, db')"
  obtains m where "graph db s = Some (m, {})" "inv db'" "graph db' = (graph db)(s \<mapsto> (Some t, {}))"
    "(t, s) \<notin> (merge_rel (graph db))\<^sup>*"
proof -
  obtain a where nr: "author_reach_loop (ar_FindByID repo db) s t {} = Some (Inr False)"
    and a: "ar_FindByID repo db s = Inr a"
    and sv: "author_save_then repo db (a\<lparr>a_mergedInto := Some t\<rparr>) (new_event AuthorMerged s at')
      = (Inr ev, db')"
    using ok by (auto simp: AuthorRecordMerge_def author_sourceReachableFromTarget_def
        split: option.splits sum.splits bool.splits)
  show ?thesis
    by (rule that [of "a_mergedInto a"])
       (use find_node [OF inv a] author_save_ok [OF inv sv] achain.reach_False [OF inv nr] in simp_all)
qed

lemma AuthorRecordMerge_acyclic:
  assumes "inv db" "AuthorRecordMerge repo db s t at' = Some (Inr ev, db')"
    and "acyclic (merge_rel (graph db))"
  shows "inv db' \<and> acyclic (merge_rel (graph db'))"
  by (rule AuthorRecordMerge_ok [OF assms(1,2)]) (use assms(3) in \<open>simp add: acyclic_merge_record\<close>)

lemma AuthorRecordMerge_total:
  assumes "inv db"
  shows "\<exists>r. AuthorRecordMerge repo db s t at' = Some r"
proof -
  obtain q where "author_reach_loop (ar_FindByID repo db) s t {} = Some q"
    using achain.reach_total [OF assms] by blast
  then show ?thesis
    by (simp add: AuthorRecordMerge_def author_sourceReachableFromTarget_def
        split: sum.split bool.split)
qed

lemma AuthorUndoMerge_ok:
  assumes inv: "inv db" and ok: "AuthorUndoMerge repo db s at' = (Inr ev, db')"
  shows "inv db' \<and> graph db' = (graph db)(s \<mapsto> (None, {}))"
proof -
  obtain a where a: "ar_FindByID repo db s = Inr a"
    and sv: "author_save_then repo db (a\<lparr>a_mergedInto := None\<rparr>) (new_event AuthorMergeUndone s at')
      = (Inr ev, db')"
    using ok by (auto simp: AuthorUndoMerge_def split: sum.splits)
  show ?thesis using find_node [OF inv a] author_save_ok [OF inv sv] by simp
qed

end

end
