(* ===== verification/Postgres_Catalog.thy ===== *)
theory Postgres_Catalog
  imports Postgres_Store Work_Services Author_Services
begin

text \<open>
  The catalogue repositories of \<open>internal/persistence/postgres\<close>: \<open>work_repository.go\<close>
  (\<open>FindByID\<close>, \<open>FindMergedInto\<close>, \<open>Save\<close>), \<open>author_repository.go\<close> and
  \<open>edition_repository.go\<close>.  \<open>Save\<close> writes one parent row and replaces the child rows, one
  statement at a time.  The interfaces \<open>work_repository\<close> and \<open>author_repository\<close> of the
  domain are interpreted on them, so the services' guarantees hold for the real store.
\<close>

section \<open>Works\<close>

definition work_ids :: "database \<Rightarrow> WorkID set" where
  "work_ids db = wk_id ` set (works db)"

definition upsert_work :: "work_row \<Rightarrow> statement" where
  "upsert_work r db =
     (let db' = db\<lparr>works := upsert_by wk_id r (works db)\<rparr> in
      (case wk_merged_into r of
         None \<Rightarrow> Inr (db', 1)
       | Some m \<Rightarrow> if m \<in> work_ids db' then Inr (db', 1) else Inl foreign_key_violation))"

definition delete_work_authors :: "WorkID \<Rightarrow> statement" where
  "delete_work_authors i db =
     Inr (db\<lparr>work_authors := delete_where (\<lambda>r. fst r = i) (work_authors db)\<rparr>,
          length (filter (\<lambda>r. fst r = i) (work_authors db)))"

definition insert_work_author :: "WorkID \<Rightarrow> AuthorID \<Rightarrow> statement" where
  "insert_work_author i a db =
     (if i \<notin> work_ids db then Inl foreign_key_violation
      else if (i, a) \<in> set (work_authors db) then Inl unique_violation
      else Inr (db\<lparr>work_authors := work_authors db @ [(i, a)]\<rparr>, 1))"

definition delete_work_subjects :: "WorkID \<Rightarrow> statement" where
  "delete_work_subjects i db =
     Inr (db\<lparr>work_subjects := delete_where (\<lambda>r. fst r = i) (work_subjects db)\<rparr>,
          length (filter (\<lambda>r. fst r = i) (work_subjects db)))"

definition insert_work_subject :: "WorkID \<Rightarrow> string \<Rightarrow> statement" where
  "insert_work_subject i s db =
     (if i \<notin> work_ids db then Inl foreign_key_violation
      else if (i, s) \<in> set (work_subjects db) then Inl unique_violation
      else Inr (db\<lparr>work_subjects := work_subjects db @ [(i, s)]\<rparr>, 1))"

definition delete_work_references :: "WorkID \<Rightarrow> statement" where
  "delete_work_references i db =
     Inr (db\<lparr>work_references := delete_where (\<lambda>r. fst r = i) (work_references db)\<rparr>,
          length (filter (\<lambda>r. fst r = i) (work_references db)))"

definition insert_work_reference :: "WorkID \<Rightarrow> ExternalReference \<Rightarrow> statement" where
  "insert_work_reference i ref db =
     (if i \<notin> work_ids db then Inl foreign_key_violation
      else if (i, er_source ref, er_id ref) \<in> set (work_references db) then Inl unique_violation
      else Inr (db\<lparr>work_references := work_references db @ [(i, er_source ref, er_id ref)]\<rparr>, 1))"

definition delete_work_contains :: "WorkID \<Rightarrow> statement" where
  "delete_work_contains i db =
     Inr (db\<lparr>work_contains := delete_where (\<lambda>r. fst r = i) (work_contains db)\<rparr>,
          length (filter (\<lambda>r. fst r = i) (work_contains db)))"

definition insert_work_contains :: "WorkID \<Rightarrow> WorkID \<Rightarrow> statement" where
  "insert_work_contains i c db =
     (if i \<notin> work_ids db \<or> c \<notin> work_ids db then Inl foreign_key_violation
      else if (i, c) \<in> set (work_contains db) then Inl unique_violation
      else Inr (db\<lparr>work_contains := work_contains db @ [(i, c)]\<rparr>, 1))"

definition work_row_of :: "Work \<Rightarrow> work_row" where
  "work_row_of w =
     \<lparr> wk_id = w_id w, wk_title = w_title w, wk_subtitle = w_subtitle w,
       wk_original_language = map_option language_tag (w_originalLanguage w),
       wk_merged_into = w_mergedInto w \<rparr>"

definition work_Save_statements :: "Work \<Rightarrow> statement list" where
  "work_Save_statements w =
     [upsert_work (work_row_of w), delete_work_authors (w_id w)]
     @ map (insert_work_author (w_id w)) (w_authors w)
     @ [delete_work_subjects (w_id w)]
     @ map (insert_work_subject (w_id w) \<circ> subject_value) (w_subjects w)
     @ [delete_work_references (w_id w)]
     @ map (insert_work_reference (w_id w)) (w_externalReferences w)
     @ [delete_work_contains (w_id w)]
     @ map (insert_work_contains (w_id w)) (w_contains w)"

definition work_Save :: "Work \<Rightarrow> database command" where
  "work_Save w db = exec_all (work_Save_statements w) db"

text \<open>\<open>children i t\<close>: the second components of the rows of \<open>i\<close>.\<close>

definition children :: "'k \<Rightarrow> ('k \<times> 'a) list \<Rightarrow> 'a list" where
  "children i t = map snd (filter (\<lambda>r. fst r = i) t)"

definition optR :: "('a \<Rightarrow> 'b result) \<Rightarrow> 'a option \<Rightarrow> 'b option result" where
  "optR f x = (case x of None \<Rightarrow> Inr None | Some a \<Rightarrow> (case f a of Inl e \<Rightarrow> Inl e | Inr b \<Rightarrow> Inr (Some b)))"

definition work_load :: "database \<Rightarrow> WorkID \<Rightarrow> Work result" where
  "work_load db i =
     (if \<not> connected db then Inl (TranslateError ErrClosed)
      else (case row_by wk_id i (works db) of
              None \<Rightarrow> Inl (derr NotFound ''work not found'')
            | Some row \<Rightarrow>
               (case optR NewLanguage (wk_original_language row) of
                  Inl err \<Rightarrow> Inl (TranslateError err)
                | Inr olang \<Rightarrow>
                   (case mapR NewSubject (children i (work_subjects db)) of
                      Inl err \<Rightarrow> Inl (TranslateError err)
                    | Inr subjects \<Rightarrow>
                        Inr (RehydrateWork i (wk_title row) (wk_subtitle row)
                          (children i (work_authors db)) subjects olang
                          (map (\<lambda>(s, x). \<lparr> er_source = s, er_id = x \<rparr>) (children i (work_references db)))
                          (wk_merged_into row) (children i (work_contains db)))))))"

definition work_FindMergedInto :: "database \<Rightarrow> WorkID \<Rightarrow> Work list result" where
  "work_FindMergedInto db canonical =
     (if \<not> connected db then Inl (TranslateError ErrClosed)
      else mapR (work_load db)
             (map wk_id (filter (\<lambda>r. wk_merged_into r = Some canonical) (works db))))"

definition PgWorkRepository :: "database WorkRepository" where
  "PgWorkRepository =
     \<lparr> wr_FindByID = work_load, wr_FindMergedInto = work_FindMergedInto, wr_Save = work_Save \<rparr>"

lemma PgWorkRepository_simps [simp]:
  "wr_FindByID PgWorkRepository = work_load"
  "wr_FindMergedInto PgWorkRepository = work_FindMergedInto"
  "wr_Save PgWorkRepository = work_Save"
  by (simp_all add: PgWorkRepository_def)

text \<open>The keys and references of the tables of works hold.\<close>

definition works_inv :: "database \<Rightarrow> bool" where
  "works_inv db \<longleftrightarrow> distinct (map wk_id (works db)) \<and> distinct (work_contains db)
     \<and> (\<forall>r \<in> set (works db). \<forall>m. wk_merged_into r = Some m \<longrightarrow> m \<in> work_ids db)
     \<and> (\<forall>(a, b) \<in> set (work_contains db). a \<in> work_ids db \<and> b \<in> work_ids db)"

definition works_graph :: "database \<Rightarrow> WorkID graph" where
  "works_graph db i =
     map_option (\<lambda>r. (wk_merged_into r, set (children i (work_contains db))))
       (row_by wk_id i (works db))"

lemma works_graph_dom: "dom (works_graph db) = work_ids db"
  by (auto simp: works_graph_def work_ids_def dom_def row_by_eq_None_iff
      simp flip: not_None_eq)

lemma children_iff [simp]: "x \<in> set (children i t) \<longleftrightarrow> (i, x) \<in> set t"
  by (force simp: children_def)

lemma work_load_ok:
  assumes "work_load db i = Inr w"
  obtains row where "connected db" "row_by wk_id i (works db) = Some row"
    "w_id w = i" "w_mergedInto w = wk_merged_into row" "w_contains w = children i (work_contains db)"
  using assms
  by (auto simp: work_load_def RehydrateWork_def split: if_splits option.splits sum.splits)

lemma work_load_NotFound:
  "work_load db i = Inl e \<Longrightarrow> CategoryOf e = NotFound \<Longrightarrow> row_by wk_id i (works db) = None"
  by (auto simp: work_load_def CategoryOf_TranslateError split: if_splits option.splits sum.splits)

text \<open>What the statements leave alone.\<close>

lemma unlinked_tables [simp]:
  "unlinked works" "unlinked work_contains" "unlinked work_ids" "unlinked authors" "unlinked editions"
  "unlinked (\<lambda>db. (works db, work_contains db))"
  by (simp_all add: unlinked_def work_ids_def)

lemma keeps_works [simp]:
  "keeps (\<lambda>db. (works db, work_contains db)) (delete_work_authors i)"
  "keeps (\<lambda>db. (works db, work_contains db)) (insert_work_author i a)"
  "keeps (\<lambda>db. (works db, work_contains db)) (delete_work_subjects i)"
  "keeps (\<lambda>db. (works db, work_contains db)) (insert_work_subject i s)"
  "keeps (\<lambda>db. (works db, work_contains db)) (delete_work_references i)"
  "keeps (\<lambda>db. (works db, work_contains db)) (insert_work_reference i ref)"
  "keeps works (delete_work_contains i)"
  "keeps works (insert_work_contains i c)"
  by (auto simp: keeps_def delete_work_authors_def insert_work_author_def delete_work_subjects_def
      insert_work_subject_def delete_work_references_def insert_work_reference_def
      delete_work_contains_def insert_work_contains_def split: if_splits)

text \<open>Inserting the containees of \<open>i\<close> one by one.\<close>

lemma exec_insert_contains:
  "exec_all (map (insert_work_contains i) cs) db = (None, db') \<Longrightarrow>
   works db' = works db \<and> work_contains db' = work_contains db @ map (Pair i) cs
   \<and> (cs \<noteq> [] \<longrightarrow> i \<in> work_ids db) \<and> set cs \<subseteq> work_ids db
   \<and> (distinct (work_contains db) \<longrightarrow> distinct (work_contains db'))"
proof (induction cs arbitrary: db)
  case Nil
  then show ?case by simp
next
  case (Cons c cs)
  obtain d n where d: "insert_work_contains i c db = Inr (d, n)"
    and rest: "exec_all (map (insert_work_contains i) cs) (tick d) = (None, db')"
    using Cons.prems unfolding list.map by (rule exec_all_okE)
  have e: "i \<in> work_ids db" "c \<in> work_ids db" "(i, c) \<notin> set (work_contains db)"
      "d = db\<lparr>work_contains := work_contains db @ [(i, c)]\<rparr>"
    using d by (auto simp: insert_work_contains_def split: if_splits)
  have "works (tick d) = works db" "work_contains (tick d) = work_contains db @ [(i, c)]"
      "work_ids (tick d) = work_ids db"
    unfolding e by (simp_all add: tick_def work_ids_def)
  with Cons.IH [OF rest] e show ?case by auto blast
qed

lemma work_Save_ok:
  assumes "work_Save w db = (None, db')"
  shows "works db' = upsert_by wk_id (work_row_of w) (works db)"
    and "work_contains db' =
      delete_where (\<lambda>r. fst r = w_id w) (work_contains db) @ map (Pair (w_id w)) (w_contains w)"
    and "set (w_contains w) \<subseteq> work_ids db'" "w_id w \<in> work_ids db'"
    and "w_mergedInto w = Some m \<Longrightarrow> m \<in> work_ids db'"
    and "distinct (work_contains db) \<Longrightarrow> distinct (work_contains db')"
proof -
  let ?i = "w_id w"
  let ?mid = "delete_work_authors ?i # map (insert_work_author ?i) (w_authors w)
     @ delete_work_subjects ?i # map (insert_work_subject ?i \<circ> subject_value) (w_subjects w)
     @ delete_work_references ?i # map (insert_work_reference ?i) (w_externalReferences w)"
  let ?ins = "map (insert_work_contains ?i) (w_contains w)"
  have "exec_all (upsert_work (work_row_of w) # (?mid @ (delete_work_contains ?i # ?ins))) db = (None, db')"
    using assms by (simp add: work_Save_def work_Save_statements_def)
  then obtain d1 n where d1: "upsert_work (work_row_of w) db = Inr (d1, n)"
    and r1: "exec_all (?mid @ (delete_work_contains ?i # ?ins)) (tick d1) = (None, db')"
    by (rule exec_all_okE)
  obtain d2 where d2: "exec_all ?mid (tick d1) = (None, d2)"
    and r2: "exec_all (delete_work_contains ?i # ?ins) d2 = (None, db')"
    using r1 by (auto simp only: exec_all_append split: prod.splits option.splits)
  obtain d3 k where d3: "delete_work_contains ?i d2 = Inr (d3, k)"
    and r3: "exec_all ?ins (tick d3) = (None, db')"
    using r2 by (rule exec_all_okE)
  have e1: "works d1 = upsert_by wk_id (work_row_of w) (works db)" "work_contains d1 = work_contains db"
    and m1: "w_mergedInto w = Some m \<Longrightarrow> m \<in> work_ids d1"
    using d1 by (auto simp: upsert_work_def Let_def work_row_of_def split: option.splits if_splits)
  have "(works d2, work_contains d2) = (works (tick d1), work_contains (tick d1))"
    by (rule exec_all_keeps_ok [OF d2]) auto
  then have e2: "works d2 = works d1" "work_contains d2 = work_contains d1" by (simp_all add: tick_def)
  have e3: "works d3 = works d2" "work_contains d3 = delete_where (\<lambda>r. fst r = ?i) (work_contains d2)"
    using d3 by (auto simp: delete_work_contains_def)
  note e4 = exec_insert_contains [OF r3]
  have ids: "work_ids db' = work_ids d1" "work_ids (tick d3) = work_ids d1"
    using e4 e3 e2 by (simp_all add: work_ids_def tick_def)
  show "works db' = upsert_by wk_id (work_row_of w) (works db)"
    "work_contains db' = delete_where (\<lambda>r. fst r = ?i) (work_contains db) @ map (Pair ?i) (w_contains w)"
    using e1 e2 e3 e4 by (simp_all add: tick_def)
  show "set (w_contains w) \<subseteq> work_ids db'" using e4 ids by simp
  show "w_id w \<in> work_ids db'"
    unfolding ids by (simp add: work_ids_def e1 keys_upsert) (simp add: work_row_of_def)
  show "w_mergedInto w = Some m \<Longrightarrow> m \<in> work_ids db'" using m1 ids by simp
  show "distinct (work_contains db) \<Longrightarrow> distinct (work_contains db')"
  proof -
    assume "distinct (work_contains db)"
    then have "distinct (work_contains (tick d3))"
      using e1 e2 e3 by (simp add: tick_def delete_where_def)
    then show ?thesis using e4 by blast
  qed
qed

text \<open>Every statement of \<open>Save\<close> keeps the keys and references in order.\<close>

lemma unlinked_works_inv [simp]: "unlinked works_inv"
  by (simp add: unlinked_def works_inv_def work_ids_def)

lemma keeps_works_inv:
  assumes "works_inv d" "s d = Inr (d', n)" "keeps (\<lambda>db. (works db, work_contains db)) s"
  shows "works_inv d'"
proof -
  have "works d' = works d" "work_contains d' = work_contains d"
    using assms(2,3) unfolding keeps_def by blast+
  with assms(1) show ?thesis by (simp add: works_inv_def work_ids_def)
qed

lemma works_inv_upsert_work:
  assumes "works_inv d" "upsert_work r d = Inr (d', n)"
  shows "works_inv d'"
proof -
  have d': "d' = d\<lparr>works := upsert_by wk_id r (works d)\<rparr>"
    and m: "\<And>m. wk_merged_into r = Some m \<Longrightarrow> m \<in> work_ids d'"
    using assms(2) by (auto simp: upsert_work_def Let_def split: option.splits if_splits)
  have ids: "work_ids d' = insert (wk_id r) (work_ids d)"
    unfolding work_ids_def d' by (simp add: keys_upsert)
  have "m \<in> work_ids d'" if "x \<in> set (works d')" "wk_merged_into x = Some m" for x m
    using set_upsert [of x wk_id r "works d"] that m assms(1) ids d'
    by (auto simp: works_inv_def)
  moreover have "a \<in> work_ids d' \<and> b \<in> work_ids d'" if "(a, b) \<in> set (work_contains d')" for a b
    using that ids assms(1) d' by (auto simp: works_inv_def)
  moreover have "distinct (map wk_id (works d'))"
    using assms(1) d' by (simp add: works_inv_def distinct_upsert)
  ultimately show ?thesis using assms(1) d' by (auto simp: works_inv_def)
qed

lemma works_inv_contains:
  "works_inv d \<Longrightarrow> delete_work_contains i d = Inr (d', n) \<Longrightarrow> works_inv d'"
  "works_inv d \<Longrightarrow> insert_work_contains i c d = Inr (d', n) \<Longrightarrow> works_inv d'"
  by (auto simp: works_inv_def delete_work_contains_def insert_work_contains_def work_ids_def
      delete_where_def split: if_splits)

text \<open>The first statement writes the row; the others write children only.\<close>

definition children_only :: "Work \<Rightarrow> statement \<Rightarrow> bool" where
  "children_only w s \<longleftrightarrow> keeps (\<lambda>db. (works db, work_contains db)) s
     \<or> s = delete_work_contains (w_id w) \<or> (\<exists>c \<in> set (w_contains w). s = insert_work_contains (w_id w) c)"

lemma work_Save_statements_split:
  obtains ss where "work_Save_statements w = upsert_work (work_row_of w) # ss"
    "\<And>s. s \<in> set ss \<Longrightarrow> children_only w s"
proof -
  let ?ss = "tl (work_Save_statements w)"
  have "\<forall>s \<in> set ?ss. children_only w s"
    unfolding work_Save_statements_def children_only_def by (simp add: ball_Un) blast
  moreover have "work_Save_statements w = upsert_work (work_row_of w) # ?ss"
    by (simp add: work_Save_statements_def)
  ultimately show ?thesis using that by blast
qed

lemma works_inv_children_only:
  "children_only w s \<Longrightarrow> works_inv d \<Longrightarrow> s d = Inr (d', n) \<Longrightarrow> works_inv d'"
  unfolding children_only_def using keeps_works_inv works_inv_contains by blast

lemma works_inv_Save:
  assumes "works_inv db" "work_Save w db = (r, db')"
  shows "works_inv db'"
proof (rule exec_all_invariant [where P = works_inv, OF _ _ assms(1)])
  show "exec_all (work_Save_statements w) db = (r, db')" using assms(2) by (simp add: work_Save_def)
  show "works_inv d'" if "s \<in> set (work_Save_statements w)" "works_inv d" "s d = Inr (d', n)" for s d d' n
  proof -
    obtain ss where "work_Save_statements w = upsert_work (work_row_of w) # ss"
      "\<And>s. s \<in> set ss \<Longrightarrow> children_only w s" using work_Save_statements_split by blast
    with that(1) have "s = upsert_work (work_row_of w) \<or> children_only w s" by auto
    then show ?thesis using that works_inv_upsert_work works_inv_children_only by blast
  qed
qed simp

text \<open>Where a failing \<open>Save\<close> may stop.\<close>

definition partly_saved :: "Work \<Rightarrow> database \<Rightarrow> database \<Rightarrow> bool" where
  "partly_saved w db d \<longleftrightarrow> works d = upsert_by wk_id (work_row_of w) (works db)
     \<and> set (work_contains d) \<subseteq> set (work_contains db) \<union> Pair (w_id w) ` set (w_contains w)
     \<and> {r \<in> set (work_contains db). fst r \<noteq> w_id w} \<subseteq> set (work_contains d)"

lemma keeps_partly_saved:
  assumes "partly_saved w db d" "s d = Inr (d', n)" "keeps (\<lambda>db. (works db, work_contains db)) s"
  shows "partly_saved w db d'"
proof -
  have "works d' = works d" "work_contains d' = work_contains d"
    using assms(2,3) unfolding keeps_def by blast+
  with assms(1) show ?thesis by (simp add: partly_saved_def)
qed

lemma partly_saved_contains:
  "partly_saved w db d \<Longrightarrow> delete_work_contains (w_id w) d = Inr (d', n) \<Longrightarrow> partly_saved w db d'"
  "partly_saved w db d \<Longrightarrow> c \<in> set (w_contains w) \<Longrightarrow> insert_work_contains (w_id w) c d = Inr (d', n) \<Longrightarrow>
   partly_saved w db d'"
  by (auto simp: partly_saved_def delete_work_contains_def insert_work_contains_def
      delete_where_def split: if_splits)

lemma partly_saved_children_only:
  "children_only w s \<Longrightarrow> partly_saved w db d \<Longrightarrow> s d = Inr (d', n) \<Longrightarrow> partly_saved w db d'"
  unfolding children_only_def using keeps_partly_saved partly_saved_contains by blast

lemma work_Save_partly:
  assumes "work_Save w db = (r, db')"
  shows "(works db', work_contains db') = (works db, work_contains db) \<or> partly_saved w db db'"
proof -
  obtain ss where ss: "work_Save_statements w = upsert_work (work_row_of w) # ss"
    and mem: "\<And>s. s \<in> set ss \<Longrightarrow> children_only w s"
    using work_Save_statements_split by blast
  have un: "unlinked (partly_saved w db)" by (simp add: unlinked_def partly_saved_def)
  show ?thesis
  proof (cases "\<exists>d n. upsert_work (work_row_of w) db = Inr (d, n) \<and> connected db")
    case True
    then obtain d n where d: "upsert_work (work_row_of w) db = Inr (d, n)" "connected db" by blast
    then have "partly_saved w db d"
      by (auto simp: partly_saved_def upsert_work_def Let_def split: option.splits if_splits)
    then have start: "partly_saved w db (tick d)" by (simp add: unlinked_tick [OF un])
    have ret: "exec_all ss (tick d) = (r, db')"
      using assms d by (simp add: work_Save_def ss Exec_def)
    have "partly_saved w db db'"
      by (rule exec_all_invariant [where P = "partly_saved w db", OF un _ start ret])
         (use mem partly_saved_children_only in blast)
    then show ?thesis by blast
  next
    case False
    then have "db' = db \<or> db' = tick db"
      using assms by (auto simp: work_Save_def ss Exec_def split: if_splits sum.splits)
    then show ?thesis by (auto simp: tick_def)
  qed
qed

lemma contains_rel_works_graph:
  assumes "works_inv db" "(a, b) \<in> set (work_contains db)"
  shows "(a, b) \<in> contains_rel (works_graph db)"
proof -
  have "a \<in> work_ids db" using assms by (auto simp: works_inv_def)
  then obtain r where "row_by wk_id a (works db) = Some r"
    using row_by_eq_None_iff [of wk_id a "works db"] by (auto simp: work_ids_def)
  with assms(2) show ?thesis by (auto simp: contains_rel_def works_graph_def)
qed

lemma works_graph_failed_Save:
  assumes inv: "works_inv db" and "work_Save w db = (r, db')"
  shows "works_graph db' = works_graph db \<or>
    (\<exists>S. S \<subseteq> set (w_contains w) \<union> contains_rel (works_graph db) `` {w_id w}
       \<and> works_graph db' = (works_graph db)(w_id w \<mapsto> (w_mergedInto w, S)))"
  using work_Save_partly [OF assms(2)]
proof
  assume same: "(works db', work_contains db') = (works db, work_contains db)"
  then have "works_graph db' = works_graph db" by (simp add: works_graph_def fun_eq_iff)
  then show ?thesis ..
next
  assume p: "partly_saved w db db'"
  let ?S = "set (children (w_id w) (work_contains db'))"
  have other: "set (children i (work_contains db')) = set (children i (work_contains db))"
    if "i \<noteq> w_id w" for i
    using p that by (auto simp: partly_saved_def)
  have "works_graph db' = (works_graph db)(w_id w \<mapsto> (w_mergedInto w, ?S))"
  proof
    fix i
    have "wk_id (work_row_of w) = w_id w" "wk_merged_into (work_row_of w) = w_mergedInto w"
      by (simp_all add: work_row_of_def)
    moreover have "works db' = upsert_by wk_id (work_row_of w) (works db)"
      using p by (simp add: partly_saved_def)
    ultimately show "works_graph db' i = ((works_graph db)(w_id w \<mapsto> (w_mergedInto w, ?S))) i"
      using other [of i] by (simp add: works_graph_def row_by_upsert)
  qed
  moreover have "?S \<subseteq> set (w_contains w) \<union> contains_rel (works_graph db) `` {w_id w}"
  proof
    fix b
    assume "b \<in> ?S"
    then have "b \<in> set (w_contains w) \<or> (w_id w, b) \<in> set (work_contains db)"
      using p by (auto simp: partly_saved_def)
    then show "b \<in> set (w_contains w) \<union> contains_rel (works_graph db) `` {w_id w}"
      using contains_rel_works_graph [OF inv] by blast
  qed
  ultimately show ?thesis by blast
qed

lemma works_graph_Save:
  assumes "work_Save w db = (None, db')"
  shows "works_graph db' = (works_graph db)(w_id w \<mapsto> work_node w)"
proof
  fix i
  have c: "set (children i (work_contains db')) =
      (if i = w_id w then set (w_contains w) else set (children i (work_contains db)))"
    unfolding work_Save_ok(2) [OF assms] by (auto simp: delete_where_def)
  have "wk_id (work_row_of w) = w_id w" "wk_merged_into (work_row_of w) = w_mergedInto w"
    by (simp_all add: work_row_of_def)
  then show "works_graph db' i = ((works_graph db)(w_id w \<mapsto> work_node w)) i"
    unfolding works_graph_def c unfolding work_Save_ok(1) [OF assms] row_by_upsert
    by (simp add: work_node_def)
qed

lemma works_graph_merge_iff:
  assumes "works_inv db"
  shows "(a, c) \<in> merge_rel (works_graph db) \<longleftrightarrow>
    a \<in> wk_id ` set (filter (\<lambda>r. wk_merged_into r = Some c) (works db))"
proof -
  have "distinct (map wk_id (works db))" using assms by (simp add: works_inv_def)
  then show ?thesis
    by (auto simp: merge_rel_def works_graph_def row_by_eq_Some_iff)
qed

lemma works_graph_closed:
  assumes "works_inv db"
  shows "closed_graph (works_graph db)"
proof -
  have "finite (work_ids db)" by (simp add: work_ids_def)
  moreover have "m \<in> work_ids db" if "works_graph db i = Some (Some m, S)" for i m S
    using that assms row_by_SomeD [of wk_id i "works db"] by (fastforce simp: works_graph_def works_inv_def)
  moreover have "S \<subseteq> work_ids db" if "works_graph db i = Some (m, S)" for i m S
    using that assms by (fastforce simp: works_graph_def works_inv_def)
  ultimately show ?thesis
    by (fastforce simp: closed_graph_def works_graph_dom merge_rel_def contains_rel_def)
qed

interpretation pgworks: work_repository PgWorkRepository works_inv works_graph
proof unfold_locales
  show "w_id w = i \<and> works_graph db i = Some (work_node w)"
    if "works_inv db" "wr_FindByID PgWorkRepository db i = Inr w" for db i w
    using that(2) by (auto elim!: work_load_ok simp: works_graph_def work_node_def)
  show "works_graph db i = None"
    if "works_inv db" "wr_FindByID PgWorkRepository db i = Inl e" "CategoryOf e = NotFound" for db i e
    using work_load_NotFound [of db i e] that by (simp add: works_graph_def)
  show "w_id ` set ws = {a. (a, c) \<in> merge_rel (works_graph db)}"
    if inv: "works_inv db" and ws: "wr_FindMergedInto PgWorkRepository db c = Inr ws" for db c ws
  proof -
    have "list_all2 (\<lambda>i w. work_load db i = Inr w)
        (map wk_id (filter (\<lambda>r. wk_merged_into r = Some c) (works db))) ws"
      using ws by (simp add: work_FindMergedInto_def mapR_Inr_iff split: if_splits)
    then have "map w_id ws = map wk_id (filter (\<lambda>r. wk_merged_into r = Some c) (works db))"
      by (induction rule: list_all2_induct) (auto elim: work_load_ok)
    then have "w_id ` set ws = wk_id ` set (filter (\<lambda>r. wk_merged_into r = Some c) (works db))"
      by (metis list.set_map)
    then show ?thesis using works_graph_merge_iff [OF inv] by auto
  qed
  show "wr_FindByID PgWorkRepository db (w_id w) = Inr w"
    if "works_inv db" and ws: "wr_FindMergedInto PgWorkRepository db c = Inr ws" and "w \<in> set ws"
    for db c ws w
  proof -
    obtain i where "work_load db i = Inr w"
      using ws \<open>w \<in> set ws\<close>
      by (auto simp: work_FindMergedInto_def mapR_Inr_iff list_all2_conv_all_nth in_set_conv_nth
          split: if_splits)
    then show ?thesis by (auto elim: work_load_ok)
  qed
  show "works_inv db' \<and> works_graph db' = (works_graph db)(w_id w \<mapsto> work_node w)"
    if "works_inv db" "wr_Save PgWorkRepository w db = (None, db')" for db w db'
    using that works_inv_Save works_graph_Save by simp
  show "works_inv db' \<and> (works_graph db' = works_graph db \<or>
      (\<exists>S. S \<subseteq> set (w_contains w) \<union> contains_rel (works_graph db) `` {w_id w}
        \<and> works_graph db' = (works_graph db)(w_id w \<mapsto> (w_mergedInto w, S))))"
    if "works_inv db" "wr_Save PgWorkRepository w db = (Some e, db')" for db w e db'
    using that works_inv_Save works_graph_failed_Save by simp
  show "closed_graph (works_graph db)" if "works_inv db" for db
    using works_graph_closed [OF that] .
qed

section \<open>Authors\<close>

definition author_ids :: "database \<Rightarrow> AuthorID set" where
  "author_ids db = au_id ` set (authors db)"

definition upsert_author :: "author_row \<Rightarrow> statement" where
  "upsert_author r db =
     (let db' = db\<lparr>authors := upsert_by au_id r (authors db)\<rparr> in
      (case au_merged_into r of
         None \<Rightarrow> Inr (db', 1)
       | Some m \<Rightarrow> if m \<in> author_ids db' then Inr (db', 1) else Inl foreign_key_violation))"

definition delete_author_references :: "AuthorID \<Rightarrow> statement" where
  "delete_author_references i db =
     Inr (db\<lparr>author_references := delete_where (\<lambda>r. fst r = i) (author_references db)\<rparr>,
          length (filter (\<lambda>r. fst r = i) (author_references db)))"

definition insert_author_reference :: "AuthorID \<Rightarrow> ExternalReference \<Rightarrow> statement" where
  "insert_author_reference i ref db =
     (if i \<notin> author_ids db then Inl foreign_key_violation
      else if (i, er_source ref, er_id ref) \<in> set (author_references db) then Inl unique_violation
      else Inr (db\<lparr>author_references := author_references db @ [(i, er_source ref, er_id ref)]\<rparr>, 1))"

definition author_row_of :: "Author \<Rightarrow> author_row" where
  "author_row_of a = \<lparr> au_id = a_id a, au_name = a_name a, au_merged_into = a_mergedInto a \<rparr>"

definition author_Save :: "Author \<Rightarrow> database command" where
  "author_Save a db =
     exec_all ([upsert_author (author_row_of a), delete_author_references (a_id a)]
       @ map (insert_author_reference (a_id a)) (a_externalReferences a)) db"

definition author_FindByID :: "database \<Rightarrow> AuthorID \<Rightarrow> Author result" where
  "author_FindByID db i =
     (if \<not> connected db then Inl (TranslateError ErrClosed)
      else (case row_by au_id i (authors db) of
              None \<Rightarrow> Inl (derr NotFound ''author not found'')
            | Some row \<Rightarrow>
                Inr (RehydrateAuthor i (au_name row)
                  (map (\<lambda>(s, x). \<lparr> er_source = s, er_id = x \<rparr>) (children i (author_references db)))
                  (au_merged_into row))))"

definition PgAuthorRepository :: "database AuthorRepository" where
  "PgAuthorRepository = \<lparr> ar_FindByID = author_FindByID, ar_Save = author_Save \<rparr>"

definition authors_inv :: "database \<Rightarrow> bool" where
  "authors_inv db \<longleftrightarrow> distinct (map au_id (authors db))
     \<and> (\<forall>r \<in> set (authors db). \<forall>m. au_merged_into r = Some m \<longrightarrow> m \<in> author_ids db)"

definition authors_graph :: "database \<Rightarrow> AuthorID graph" where
  "authors_graph db i = map_option (\<lambda>r. (au_merged_into r, {})) (row_by au_id i (authors db))"

lemma keeps_authors [simp]:
  "keeps authors (delete_author_references i)"
  "keeps authors (insert_author_reference i ref)"
  by (auto simp: keeps_def delete_author_references_def insert_author_reference_def split: if_splits)

lemma author_Save_ok:
  assumes "author_Save a db = (None, db')"
  shows "authors db' = upsert_by au_id (author_row_of a) (authors db)"
    and "a_mergedInto a = Some m \<Longrightarrow> m \<in> author_ids db'"
proof -
  let ?rest = "delete_author_references (a_id a)
     # map (insert_author_reference (a_id a)) (a_externalReferences a)"
  have "exec_all (upsert_author (author_row_of a) # ?rest) db = (None, db')"
    using assms by (simp add: author_Save_def)
  then obtain d n where d: "upsert_author (author_row_of a) db = Inr (d, n)"
    and r: "exec_all ?rest (tick d) = (None, db')"
    by (rule exec_all_okE)
  have "authors db' = authors (tick d)" by (rule exec_all_keeps_ok [OF r]) auto
  then have eq: "authors db' = authors d" by (simp add: tick_def)
  show "authors db' = upsert_by au_id (author_row_of a) (authors db)"
    using d eq by (auto simp: upsert_author_def Let_def split: option.splits if_splits)
  show "a_mergedInto a = Some m \<Longrightarrow> m \<in> author_ids db'"
    using d eq by (auto simp: upsert_author_def author_row_of_def author_ids_def Let_def split: if_splits)
qed

lemma authors_inv_Save:
  assumes "authors_inv db" "author_Save a db = (None, db')"
  shows "authors_inv db'"
proof -
  note sv = author_Save_ok [OF assms(2)]
  have ids: "author_ids db' = insert (a_id a) (author_ids db)"
    unfolding author_ids_def sv(1) keys_upsert by (simp add: author_row_of_def)
  have "m \<in> author_ids db'" if "r \<in> set (authors db')" "au_merged_into r = Some m" for r m
    using set_upsert [of r au_id "author_row_of a" "authors db"] that sv assms(1) ids
    by (auto simp: authors_inv_def author_row_of_def)
  then show ?thesis
    using assms(1) sv(1) distinct_upsert by (auto simp: authors_inv_def)
qed

interpretation pgauthors: author_repository PgAuthorRepository authors_inv authors_graph
proof unfold_locales
  show "a_id a = i \<and> authors_graph db i = Some (a_mergedInto a, {})"
    if "authors_inv db" "ar_FindByID PgAuthorRepository db i = Inr a" for db i a
    using that(2)
    by (auto simp: PgAuthorRepository_def author_FindByID_def authors_graph_def RehydrateAuthor_def
        split: if_splits option.splits)
  show "authors_inv db' \<and> authors_graph db' = (authors_graph db)(a_id a \<mapsto> (a_mergedInto a, {}))"
    if "authors_inv db" "ar_Save PgAuthorRepository a db = (None, db')" for db a db'
  proof -
    have sv: "author_Save a db = (None, db')" using that(2) by (simp add: PgAuthorRepository_def)
    have "authors_graph db' = (authors_graph db)(a_id a \<mapsto> (a_mergedInto a, {}))"
      unfolding authors_graph_def author_Save_ok(1) [OF sv] row_by_upsert
      by (auto simp: author_row_of_def)
    with authors_inv_Save [OF that(1) sv] show ?thesis by blast
  qed
  show "closed_graph (authors_graph db)" if "authors_inv db" for db
  proof -
    have "dom (authors_graph db) = author_ids db"
      by (auto simp: authors_graph_def author_ids_def dom_def row_by_eq_None_iff simp flip: not_None_eq)
    moreover have "m \<in> author_ids db" if "authors_graph db i = Some (Some m, S)" for i m S
      using that \<open>authors_inv db\<close> row_by_SomeD [of au_id i "authors db"]
      by (fastforce simp: authors_graph_def authors_inv_def)
    moreover have "S = {}" if "authors_graph db i = Some (m, S)" for i m S
      using that by (auto simp: authors_graph_def)
    ultimately show ?thesis
      by (fastforce simp: closed_graph_def merge_rel_def contains_rel_def author_ids_def)
  qed
qed

section \<open>Editions\<close>

definition edition_ids :: "database \<Rightarrow> EditionID set" where
  "edition_ids db = ed_id ` set (editions db)"

text \<open>\<open>publication_year\<close> is a 32-bit column.\<close>

definition fits_int32 :: "int \<Rightarrow> bool" where
  "fits_int32 y \<longleftrightarrow> - (2 ^ 31) \<le> y \<and> y < 2 ^ 31"

definition upsert_edition :: "edition_row \<Rightarrow> statement" where
  "upsert_edition r db =
     (if pred_option fits_int32 (ed_publication_year r) then
        (if ed_work_id r \<in> work_ids db
         then Inr (db\<lparr>editions := upsert_by ed_id r (editions db)\<rparr>, 1)
         else Inl foreign_key_violation)
      else Inl numeric_out_of_range)"

definition delete_edition_references :: "EditionID \<Rightarrow> statement" where
  "delete_edition_references i db =
     Inr (db\<lparr>edition_references := delete_where (\<lambda>r. fst r = i) (edition_references db)\<rparr>,
          length (filter (\<lambda>r. fst r = i) (edition_references db)))"

definition insert_edition_reference :: "EditionID \<Rightarrow> ExternalReference \<Rightarrow> statement" where
  "insert_edition_reference i ref db =
     (if i \<notin> edition_ids db then Inl foreign_key_violation
      else if (i, er_source ref, er_id ref) \<in> set (edition_references db) then Inl unique_violation
      else Inr (db\<lparr>edition_references := edition_references db @ [(i, er_source ref, er_id ref)]\<rparr>, 1))"

definition edition_row_of :: "Edition \<Rightarrow> edition_row" where
  "edition_row_of e =
     \<lparr> ed_id = e_id e, ed_work_id = e_workID e, ed_language = language_tag (e_language e),
       ed_isbn = e_isbn e, ed_publisher = e_publisher e, ed_publication_year = e_publicationYear e \<rparr>"

definition edition_Save :: "Edition \<Rightarrow> database command" where
  "edition_Save e db =
     exec_all ([upsert_edition (edition_row_of e), delete_edition_references (e_id e)]
       @ map (insert_edition_reference (e_id e)) (e_externalReferences e)) db"

definition edition_load :: "database \<Rightarrow> EditionID \<Rightarrow> Edition result" where
  "edition_load db i =
     (if \<not> connected db then Inl (TranslateError ErrClosed)
      else (case row_by ed_id i (editions db) of
              None \<Rightarrow> Inl (derr NotFound ''edition not found'')
            | Some row \<Rightarrow>
               (case NewLanguage (ed_language row) of
                  Inl err \<Rightarrow> Inl (TranslateError err)
                | Inr l \<Rightarrow>
                   (case NewEdition i (ed_work_id row) l (ed_isbn row) (ed_publisher row)
                        (ed_publication_year row)
                        (map (\<lambda>(s, x). \<lparr> er_source = s, er_id = x \<rparr>) (children i (edition_references db))) of
                      Inl err \<Rightarrow> Inl (TranslateError err)
                    | Inr e \<Rightarrow> Inr e))))"

definition edition_FindByWork :: "database \<Rightarrow> WorkID \<Rightarrow> Edition list result" where
  "edition_FindByWork db workID =
     (if \<not> connected db then Inl (TranslateError ErrClosed)
      else mapR (edition_load db)
             (map ed_id (filter (\<lambda>r. ed_work_id r = workID) (editions db))))"

definition PgEditionRepository :: "database EditionRepository" where
  "PgEditionRepository =
     \<lparr> er_FindByID = edition_load, er_FindByWork = edition_FindByWork, er_Save = edition_Save \<rparr>"

end
