(* ===== verification/Catalog_Safety.thy ===== *)
theory Catalog_Safety
  imports Postgres_Catalog
begin

text \<open>
  What the catalogue services guarantee on the Postgres store, over every sequence of operations:
  the step relation \<open>catalog_step\<close> has one rule per operation on works, with any answer (so a
  connection that breaks half way through a \<open>Save\<close> is a step as well), and the invariants are
  proved by rule induction.
\<close>

section \<open>Steps and reachable stores\<close>

inductive catalog_step :: "database \<Rightarrow> database \<Rightarrow> bool" where
  step_create: "NewWork i t st as ss ol rs = Inr w \<Longrightarrow> i \<notin> work_ids db \<Longrightarrow>
    work_Save w db = (r, db') \<Longrightarrow> catalog_step db db'"
| step_record: "RecordMerge PgWorkRepository db s t at' = Some (r, db') \<Longrightarrow> catalog_step db db'"
| step_undo: "UndoMerge PgWorkRepository db s at' = (r, db') \<Longrightarrow> catalog_step db db'"
| step_add: "AddContains PgWorkRepository db a b at' = Some (r, db') \<Longrightarrow> catalog_step db db'"
| step_remove: "RemoveContains PgWorkRepository db a b at' = (r, db') \<Longrightarrow> catalog_step db db'"
| step_connection: "catalog_step db (db\<lparr>db_links := l\<rparr>)"

inductive_cases catalog_stepE: "catalog_step db db'"

inductive reachable_catalog :: "database \<Rightarrow> bool" where
  reach_init: "works db = [] \<Longrightarrow> work_contains db = [] \<Longrightarrow> reachable_catalog db"
| reach_step: "reachable_catalog db \<Longrightarrow> catalog_step db db' \<Longrightarrow> reachable_catalog db'"

definition catalog_ok :: "database \<Rightarrow> bool" where
  "catalog_ok db \<longleftrightarrow> works_inv db \<and> acyclic (merge_rel (works_graph db))"

text \<open>A work written for the first time is an isolated node, whether or not its save completes.\<close>

lemma fresh_node:
  assumes "g i = None" "h = g \<or> h = g(i \<mapsto> (None, S))"
  shows "merge_rel h = merge_rel g"
  using assms by (auto simp: merge_rel_def split: if_splits)

lemma create_ok:
  assumes "catalog_ok db" "NewWork i t st as ss ol rs = Inr w" "i \<notin> work_ids db" "work_Save w db = (r, db')"
  shows "catalog_ok db'"
proof -
  note nw = NewWork_ok [OF assms(2)]
  have inv: "works_inv db" using assms(1) by (simp add: catalog_ok_def)
  have none: "works_graph db i = None" using works_graph_dom [of db] assms(3) by blast
  obtain S where "works_graph db' = works_graph db \<or> works_graph db' = (works_graph db)(i \<mapsto> (None, S))"
    using works_graph_failed_Save [OF inv assms(4)] nw by auto
  then have "merge_rel (works_graph db') = merge_rel (works_graph db)"
    using fresh_node [of "works_graph db" i "works_graph db'" S] none by auto
  then show ?thesis
    using works_inv_Save [OF inv assms(4)] assms(1) by (simp add: catalog_ok_def)
qed

lemma catalog_step_ok:
  assumes "catalog_step db db'" "catalog_ok db"
  shows "catalog_ok db'"
proof -
  have inv: "works_inv db" and acy: "acyclic (merge_rel (works_graph db))"
    using assms(2) by (auto simp: catalog_ok_def)
  from assms(1) show ?thesis
  proof cases
    case step_create
    then show ?thesis using create_ok assms(2) by blast
  next
    case step_record
    from pgworks.RecordMerge_safe [OF inv this acy] show ?thesis by (simp add: catalog_ok_def)
  next
    case step_undo
    from pgworks.UndoMerge_safe [OF inv this acy] show ?thesis by (simp add: catalog_ok_def)
  next
    case step_add
    from pgworks.AddContains_safe [OF inv this] acy show ?thesis by (simp add: catalog_ok_def)
  next
    case step_remove
    from pgworks.RemoveContains_safe [OF inv this] acy show ?thesis
      using graph_le_merge [of "works_graph db'" "works_graph db"] by (simp add: catalog_ok_def)
  next
    case (step_connection l)
    then show ?thesis
      using assms(2) by (simp add: catalog_ok_def works_inv_def work_ids_def works_graph_def [abs_def])
  qed
qed

lemma reachable_ok: "reachable_catalog db \<Longrightarrow> catalog_ok db"
proof (induction rule: reachable_catalog.induct)
  case (reach_init db)
  then show ?case
    by (auto simp: catalog_ok_def works_inv_def works_graph_def merge_rel_def row_by_def acyclic_def)
next
  case (reach_step db db')
  then show ?case using catalog_step_ok by blast
qed

lemma reachable_inv:
  "reachable_catalog db \<Longrightarrow> works_inv db"
  "reachable_catalog db \<Longrightarrow> acyclic (merge_rel (works_graph db))"
  using reachable_ok by (auto simp: catalog_ok_def)

section \<open>A box set and one of its volumes\<close>

text \<open>
  A concrete history used by the examples: two works are created, the box set \<open>S\<close> is made to
  contain the volume \<open>T\<close>, and \<open>S\<close> is then merged into \<open>T\<close>.
\<close>

definition box_set :: Work where
  "box_set = RehydrateWork ''S'' ''Box'' [] [] [] None [] None []"

definition volume :: Work where
  "volume = RehydrateWork ''T'' ''Vol'' [] [] [] None [] None []"

definition shelf :: "(WorkID option) \<Rightarrow> (WorkID \<times> WorkID) list \<Rightarrow> database" where
  "shelf m cs = (empty_database [''L''])
     \<lparr> works := [(work_row_of box_set)\<lparr>wk_merged_into := m\<rparr>, work_row_of volume], work_contains := cs \<rparr>"

lemmas eval_works = box_set_def volume_def shelf_def empty_database_def RehydrateWork_def work_Save_def
  work_Save_statements_def upsert_work_def work_row_of_def Let_def Exec_def connected_def tick_def
  delete_work_authors_def delete_work_subjects_def delete_work_references_def
  delete_work_contains_def delete_where_def insert_work_contains_def work_ids_def

lemmas eval_ops = AddContains_def RecordMerge_def ResolveWork_def resolveCanonicalWork_def
  collectMergeGroup_def containsClosure_def wouldCreateSelfContainment_def
  sourceReachableFromTarget_def save_then_def work_load_def work_FindMergedInto_def row_by_def
  children_def optR_def resolve_loop.simps collect_loop.simps closure_loop.simps
  work_reach_loop.simps

lemma shelf_created:
  "NewWork ''S'' ''Box'' [] [] [] None [] = Inr box_set"
  "NewWork ''T'' ''Vol'' [] [] [] None [] = Inr volume"
  "work_Save box_set (empty_database [''L'']) = (None, (empty_database [''L''])\<lparr>works := [work_row_of box_set]\<rparr>)"
  "work_Save volume ((empty_database [''L''])\<lparr>works := [work_row_of box_set]\<rparr>) = (None, shelf None [])"
  by (simp_all add: NewWork_def ValidateBoundedText_printable maxTitleLength_def eval_works)

lemma shelf_contains:
  "AddContains PgWorkRepository (shelf None []) ''S'' ''T'' 0
    = Some (Inr (new_event WorkContainsAdded ''S'' 0), shelf None [(''S'', ''T'')])"
  by (simp add: eval_works eval_ops)

lemma shelf_merged:
  "RecordMerge PgWorkRepository (shelf None [(''S'', ''T'')]) ''S'' ''T'' 0
    = Some (Inr (new_event WorkMerged ''S'' 0), shelf (Some ''T'') [(''S'', ''T'')])"
  by (simp add: eval_works eval_ops)

lemma shelf_resolved:
  "ResolveWork PgWorkRepository (shelf (Some ''T'') [(''S'', ''T'')]) ''T'' =
    Some (Inr \<lparr> rw_CanonicalID = ''T'', rw_Title = ''Vol'', rw_Subtitle = [], rw_Authors = [],
      rw_Subjects = [], rw_OriginalLanguage = None, rw_ExternalReferences = [], rw_Contains = [''T''] \<rparr>)"
  by (simp add: eval_works eval_ops)

lemma shelf_undone:
  "UndoMerge PgWorkRepository (shelf (Some ''T'') [(''S'', ''T'')]) ''S'' 1
    = (Inr (new_event WorkMergeUndone ''S'' 1), shelf None [(''S'', ''T'')])"
  by (simp add: eval_works eval_ops UndoMerge_def)

lemma shelf_merged_plain:
  "RecordMerge PgWorkRepository (shelf None []) ''S'' ''T'' 0
    = Some (Inr (new_event WorkMerged ''S'' 0), shelf (Some ''T'') [])"
  by (simp add: eval_works eval_ops)

lemma shelf_canonical:
  "resolveCanonicalWork PgWorkRepository (shelf (Some ''T'') [(''S'', ''T'')]) ''T'' = Some (Inr ''T'')"
  "resolveCanonicalWork PgWorkRepository (shelf (Some ''T'') [(''S'', ''T'')]) ''S'' = Some (Inr ''T'')"
  by (simp_all add: eval_works eval_ops)

lemma shelf_reachable:
  "reachable_catalog (shelf None [])"
  "reachable_catalog (shelf None [(''S'', ''T'')])"
  "reachable_catalog (shelf (Some ''T'') [(''S'', ''T'')])"
proof -
  have r0: "reachable_catalog (empty_database [''L''])"
    by (rule reach_init) (simp_all add: empty_database_def)
  have r1: "reachable_catalog ((empty_database [''L''])\<lparr>works := [work_row_of box_set]\<rparr>)"
    by (rule reach_step [OF r0 step_create [OF shelf_created(1) _ shelf_created(3)]])
       (simp add: empty_database_def work_ids_def)
  show r2: "reachable_catalog (shelf None [])"
    by (rule reach_step [OF r1 step_create [OF shelf_created(2) _ shelf_created(4)]])
       (simp add: eval_works)
  show r3: "reachable_catalog (shelf None [(''S'', ''T'')])"
    by (rule reach_step [OF r2 step_add [OF shelf_contains]])
  show "reachable_catalog (shelf (Some ''T'') [(''S'', ''T'')])"
    by (rule reach_step [OF r3 step_record [OF shelf_merged]])
qed

lemma shelf_resolved_empty: "resolved (works_graph (shelf None [])) = {}"
  by (auto simp: resolved_def contains_rel_def works_graph_def eval_works row_by_def children_def
      split: if_splits)

lemma shelf_no_containment: "acyclic (resolved (works_graph (shelf None [])))"
  by (simp add: shelf_resolved_empty acyclic_def)

lemma shelf_contained_acyclic: "acyclic (resolved (works_graph (shelf None [(''S'', ''T'')])))"
  using pgworks.AddContains_safe [OF reachable_inv(1) [OF shelf_reachable(1)] shelf_contains]
    shelf_no_containment by blast

lemma shelf_cyclic: "\<not> acyclic (resolved (works_graph (shelf (Some ''T'') [(''S'', ''T'')])))"
proof -
  let ?g = "works_graph (shelf (Some ''T'') [(''S'', ''T'')])"
  note inv = reachable_inv(1) [OF shelf_reachable(3)]
  have "(''S'', ''T'') \<in> contains_rel ?g"
    using inv by (rule contains_rel_works_graph) (simp add: shelf_def)
  then have "(''T'', ''T'') \<in> resolved ?g"
    using pgworks.resolve_sound(1) [OF inv shelf_canonical(1)]
      pgworks.resolve_sound(1) [OF inv shelf_canonical(2)]
    by (auto simp: resolved_def)
  then show ?thesis by (auto simp: acyclic_def)
qed

section \<open>Properties\<close>

text \<open>The works a canonical work stands for, as the store returns them.\<close>

definition merged_works :: "database \<Rightarrow> WorkID \<Rightarrow> Work set" where
  "merged_works db c =
     {w. (w_id w, c) \<in> (merge_rel (works_graph db))\<^sup>* \<and> work_load db (w_id w) = Inr w}"

text \<open>C1: In every store the catalogue operations can lead to, by any sequence of creations,
  merges, undone merges and containment changes, each with any outcome (refused, successful or
  broken off between two statements), the merge relation between works has no cycle, every work's
  merge chain ends in exactly one canonical work, and the keys and references of the tables hold.\<close>

theorem reachable_merges_acyclic:
  assumes "reachable_catalog db"
  shows "works_inv db \<and> acyclic (merge_rel (works_graph db))
    \<and> (\<forall>i \<in> work_ids db. \<exists>!c. canon_of (works_graph db) i c)"
proof -
  note inv = reachable_inv [OF assms]
  have fin: "finite (dom (works_graph db))" by (simp add: works_graph_dom work_ids_def)
  have "\<exists>!c. canon_of (works_graph db) i c" for i
  proof -
    obtain c where c: "canon_of (works_graph db) i c" using canonical_exists [OF fin inv(2)] ..
    then show ?thesis by (rule ex1I) (rule canonical_unique [OF _ c])
  qed
  then show ?thesis using inv by blast
qed

theorem reachable_merges_acyclic_witness:
  "acyclic (merge_rel (works_graph (shelf (Some ''T'') [(''S'', ''T'')])))"
  using reachable_merges_acyclic [OF shelf_reachable(3)] by blast

text \<open>C2: On every reachable store the loops of \<open>ResolveWork\<close>, \<open>RecordMerge\<close> and \<open>AddContains\<close>
  return, though the loop over a merge group keeps no record of what it has visited.\<close>

theorem reachable_operations_return:
  assumes "reachable_catalog db"
  shows "(\<exists>r. ResolveWork PgWorkRepository db i = Some r)
    \<and> (\<exists>r. RecordMerge PgWorkRepository db s t at' = Some r)
    \<and> (\<exists>r. AddContains PgWorkRepository db a b at' = Some r)"
  using pgworks.ResolveWork_total pgworks.RecordMerge_total pgworks.AddContains_total
    reachable_inv [OF assms] by blast

theorem reachable_operations_return_witness:
  "\<exists>r. ResolveWork PgWorkRepository (shelf (Some ''T'') [(''S'', ''T'')]) ''S'' = Some r"
  using reachable_operations_return [OF shelf_reachable(3)] by blast

text \<open>C3: \<open>AddContains\<close>, whatever it answers and wherever its save stops, leaves merges as they
  were and keeps containment between canonical works free of cycles.\<close>

theorem AddContains_keeps_containment_acyclic:
  assumes "reachable_catalog db" "AddContains PgWorkRepository db a b at' = Some (r, db')"
    and "acyclic (resolved (works_graph db))"
  shows "acyclic (resolved (works_graph db')) \<and> merge_rel (works_graph db') = merge_rel (works_graph db)"
  using pgworks.AddContains_safe [OF reachable_inv(1) [OF assms(1)] assms(2)] assms(3) by simp

theorem AddContains_keeps_containment_acyclic_witness:
  "acyclic (resolved (works_graph (shelf None [(''S'', ''T'')])))"
  using AddContains_keeps_containment_acyclic [OF shelf_reachable(1) shelf_contains shelf_no_containment]
  by blast

text \<open>A containment that would close a cycle is refused with a \<open>Conflict\<close> and writes nothing:
  on a working connection over a reachable store, when container and containee resolve to the same
  work or the containee already contains the container, directly or through others.\<close>

theorem AddContains_refuses_cycle:
  assumes "reachable_catalog db" "canon_of (works_graph db) a x" "canon_of (works_graph db) b y"
    and "x = y \<or> (y, x) \<in> (resolved (works_graph db))\<^sup>+"
  shows "\<exists>e. AddContains PgWorkRepository db a b at' = Some (Inl e, db)"
  using pgworks.AddContains_refuses [OF reachable_inv [OF assms(1)] assms(2-)] .

theorem AddContains_refuses_cycle_witness:
  "\<exists>e. AddContains PgWorkRepository (shelf (Some ''T'') [(''S'', ''T'')]) ''T'' ''S'' 5
     = Some (Inl e, shelf (Some ''T'') [(''S'', ''T'')])"
proof -
  have "canon_of (works_graph (shelf (Some ''T'') [(''S'', ''T'')])) ''T'' ''T''"
    using pgworks.resolve_sound(1) [OF reachable_inv(1) [OF shelf_reachable(3)] shelf_canonical(1)] .
  moreover have "canon_of (works_graph (shelf (Some ''T'') [(''S'', ''T'')])) ''S'' ''T''"
    using pgworks.resolve_sound(1) [OF reachable_inv(1) [OF shelf_reachable(3)] shelf_canonical(2)] .
  ultimately show ?thesis
    using AddContains_refuses_cycle [OF shelf_reachable(3), of "''T''" "''T''" "''S''" "''T''"] by simp
qed

text \<open>Merging a canonical work that does not, directly or through others, contain the target's
  canonical work keeps containment between canonical works free of cycles, with any outcome.\<close>

theorem RecordMerge_keeps_containment_acyclic:
  assumes "reachable_catalog db" "RecordMerge PgWorkRepository db s t at' = Some (r, db')"
    and "acyclic (resolved (works_graph db))" "s \<notin> Domain (merge_rel (works_graph db))"
    and "\<And>y. canon_of (works_graph db) t y \<Longrightarrow> (s, y) \<notin> (resolved (works_graph db))\<^sup>+"
  shows "acyclic (resolved (works_graph db'))"
  using pgworks.RecordMerge_resolved_safe [OF reachable_inv(1) [OF assms(1)] assms(2-)] .

theorem RecordMerge_keeps_containment_acyclic_witness:
  "acyclic (resolved (works_graph (shelf (Some ''T'') [])))"
proof (rule RecordMerge_keeps_containment_acyclic [OF shelf_reachable(1) shelf_merged_plain])
  show "acyclic (resolved (works_graph (shelf None [])))" by (rule shelf_no_containment)
  show "''S'' \<notin> Domain (merge_rel (works_graph (shelf None [])))"
    by (auto simp: merge_rel_def works_graph_def eval_works row_by_def split: if_splits)
  show "(''S'', y) \<notin> (resolved (works_graph (shelf None [])))\<^sup>+" for y
    by (simp add: shelf_resolved_empty)
qed

text \<open>The check of \<open>RecordMerge\<close> against self-containment looks in one direction only.  From a
  reachable store in which a box set contains a volume, merging the box set into that volume
  succeeds, and the volume, resolved, then contains itself: the cycle that \<open>AddContains\<close> refuses.\<close>

theorem RecordMerge_allows_self_containment:
  "\<exists>db db' ev rw. reachable_catalog db \<and> acyclic (resolved (works_graph db))
     \<and> RecordMerge PgWorkRepository db ''S'' ''T'' 0 = Some (Inr ev, db')
     \<and> ResolveWork PgWorkRepository db' ''T'' = Some (Inr rw)
     \<and> rw_CanonicalID rw = ''T'' \<and> ''T'' \<in> set (rw_Contains rw)
     \<and> \<not> acyclic (resolved (works_graph db'))"
  using shelf_reachable(2) shelf_contained_acyclic shelf_merged shelf_resolved shelf_cyclic
  by (intro exI conjI) (assumption | simp)+

text \<open>C28: \<open>ResolveWork\<close> answers with the canonical work's title and original language and with
  exactly the union of authors, subjects, external references and containments over the canonical
  work and everything merged into it, directly or through others, each value once.\<close>

theorem ResolveWork_is_union:
  assumes "reachable_catalog db" "ResolveWork PgWorkRepository db i = Some (Inr rw)"
  shows "canon_of (works_graph db) i (rw_CanonicalID rw)
    \<and> (\<exists>cw. work_load db (rw_CanonicalID rw) = Inr cw \<and> rw_Title rw = w_title cw
         \<and> rw_OriginalLanguage rw = w_originalLanguage cw)
    \<and> set (rw_Authors rw) = (\<Union>w \<in> merged_works db (rw_CanonicalID rw). set (w_authors w))
    \<and> set (rw_Subjects rw) = (\<Union>w \<in> merged_works db (rw_CanonicalID rw). set (w_subjects w))
    \<and> set (rw_ExternalReferences rw)
        = (\<Union>w \<in> merged_works db (rw_CanonicalID rw). set (w_externalReferences w))
    \<and> set (rw_Contains rw) =
        contains_rel (works_graph db) `` {a. (a, rw_CanonicalID rw) \<in> (merge_rel (works_graph db))\<^sup>*}
    \<and> distinct (rw_Authors rw) \<and> distinct (rw_Subjects rw)
    \<and> distinct (rw_ExternalReferences rw) \<and> distinct (rw_Contains rw)"
  by (rule pgworks.ResolveWork_sound [OF reachable_inv(1) [OF assms(1)] assms(2)])
     (simp add: merged_works_def pgworks.group_works_def pgworks.merge_group_def)

theorem ResolveWork_is_union_witness:
  "canon_of (works_graph (shelf (Some ''T'') [(''S'', ''T'')])) ''T'' ''T''"
  using ResolveWork_is_union [OF shelf_reachable(3) shelf_resolved, THEN conjunct1] by simp

text \<open>Undoing a merge restores what the merge changed: after a successful \<open>RecordMerge\<close> of a
  work that was not merged, a successful \<open>UndoMerge\<close> brings back the same graph of merges and
  containments.\<close>

theorem UndoMerge_reverts_RecordMerge:
  assumes "reachable_catalog db" "s \<notin> Domain (merge_rel (works_graph db))"
    and "RecordMerge PgWorkRepository db s t t1 = Some (Inr ev, db')"
    and "UndoMerge PgWorkRepository db' s t2 = (Inr ev', db'')"
  shows "works_graph db'' = works_graph db"
proof -
  note inv = reachable_inv(1) [OF assms(1)]
  have inv': "works_inv db'"
    using pgworks.RecordMerge_safe [OF inv assms(3) reachable_inv(2) [OF assms(1)]] by blast
  obtain m S where g: "works_graph db s = Some (m, S)" "works_graph db' = (works_graph db)(s \<mapsto> (Some t, S))"
    using pgworks.RecordMerge_ok [OF inv assms(3)] by metis
  obtain m' S' where g': "works_graph db' s = Some (m', S')" "works_graph db'' = (works_graph db')(s \<mapsto> (None, S'))"
    using pgworks.UndoMerge_ok [OF inv' assms(4)] by metis
  have "m = None" using g(1) assms(2) by (cases m) (auto simp: merge_rel_def)
  with g g' show ?thesis by (auto simp: fun_upd_idem)
qed

theorem UndoMerge_reverts_RecordMerge_witness:
  "\<exists>db''. UndoMerge PgWorkRepository (shelf (Some ''T'') [(''S'', ''T'')]) ''S'' 1
      = (Inr (new_event WorkMergeUndone ''S'' 1), db'')
    \<and> works_graph db'' = works_graph (shelf None [(''S'', ''T'')])"
proof -
  have "''S'' \<notin> Domain (merge_rel (works_graph (shelf None [(''S'', ''T'')])))"
    by (auto simp: merge_rel_def works_graph_def eval_works row_by_def split: if_splits)
  from UndoMerge_reverts_RecordMerge [OF shelf_reachable(2) this shelf_merged shelf_undone]
  show ?thesis using shelf_undone by blast
qed

text \<open>Merging authors never closes a cycle: whenever \<open>AuthorRecordMerge\<close> succeeds on a store
  whose author merges are acyclic they stay acyclic, and the operation returns on every store.\<close>

theorem author_merges_stay_acyclic:
  assumes "authors_inv db" "acyclic (merge_rel (authors_graph db))"
  shows "\<exists>r db'. AuthorRecordMerge PgAuthorRepository db s t at' = Some (r, db')
    \<and> (is_ok r \<longrightarrow> authors_inv db' \<and> acyclic (merge_rel (authors_graph db'))
         \<and> authors_graph db' s = Some (Some t, {}))"
proof -
  obtain r db' where ret: "AuthorRecordMerge PgAuthorRepository db s t at' = Some (r, db')"
    using pgauthors.AuthorRecordMerge_total [OF assms(1)] by fastforce
  show ?thesis
  proof (cases r)
    case (Inr ev)
    have "authors_graph db' s = Some (Some t, {})"
      by (rule pgauthors.AuthorRecordMerge_ok [OF assms(1) ret [unfolded Inr]]) simp
    then show ?thesis
      using pgauthors.AuthorRecordMerge_acyclic [OF assms(1) ret [unfolded Inr] assms(2)] ret by blast
  qed (use ret in simp)
qed

theorem author_merges_stay_acyclic_witness:
  "\<exists>r db'. AuthorRecordMerge PgAuthorRepository (empty_database [''L'']) ''A'' ''B'' 0 = Some (r, db')"
proof -
  have "authors_inv (empty_database [''L''])"
    by (simp add: authors_inv_def empty_database_def)
  moreover have "acyclic (merge_rel (authors_graph (empty_database [''L''])))"
    by (simp add: authors_graph_def empty_database_def row_by_def merge_rel_def acyclic_def)
  ultimately show ?thesis using author_merges_stay_acyclic [of "empty_database [''L'']" "''A''"] by blast
qed

end
