(* ===== verification/Library_Services.thy ===== *)
theory Library_Services
  imports Work_Services
begin

text \<open>
  The library-side services of \<open>internal/domain\<close>: \<open>library_service.go\<close>,
  \<open>is_in_library.go\<close>, \<open>collection_service.go\<close> and \<open>source_removal_service.go\<close>, over the
  repository interfaces, with what they rely on stated as locales.
\<close>

section \<open>LibraryService\<close>

definition AddEntry ::
  "'db EditionRepository \<Rightarrow> 'db LibraryEntryRepository \<Rightarrow> 'db \<Rightarrow> EditionID \<Rightarrow> instant
   \<Rightarrow> (LibraryEntry \<times> event option) result \<times> 'db" where
  "AddEntry editions entries db editionID addedAt =
     (case er_FindByID editions db editionID of
        Inl err \<Rightarrow> (Inl err, db)
      | Inr _ \<Rightarrow>
         (case lr_FindByEdition entries db editionID of
            Inr existing \<Rightarrow> (Inr (existing, None), db)
          | Inl err \<Rightarrow>
              (if CategoryOf err \<noteq> NotFound then (Inl err, db)
               else let entryID = editionID; entry = NewLibraryEntry entryID editionID addedAt in
                 (case lr_Save entries entry db of
                    (Some err', db') \<Rightarrow> (Inl err', db')
                  | (None, db') \<Rightarrow> (Inr (entry, Some (new_event LibraryEntryAdded entryID addedAt)), db')))))"

definition RemoveEntry ::
  "'db LibraryEntryRepository \<Rightarrow> 'db \<Rightarrow> EditionID \<Rightarrow> instant \<Rightarrow> event option result \<times> 'db" where
  "RemoveEntry entries db editionID occurredAt =
     (case lr_FindByEdition entries db editionID of
        Inl err \<Rightarrow> (if CategoryOf err = NotFound then (Inr None, db) else (Inl err, db))
      | Inr existing \<Rightarrow>
         (case lr_DeleteByEdition entries editionID db of
            (Some err, db') \<Rightarrow> (Inl err, db')
          | (None, db') \<Rightarrow> (Inr (Some (new_event LibraryEntryRemoved (le_id existing) occurredAt)), db')))"

section \<open>IsInLibrary\<close>

fun any_owned :: "'db LibraryEntryRepository \<Rightarrow> 'db \<Rightarrow> Edition list \<Rightarrow> bool result" where
  "any_owned entries db [] = Inr False"
| "any_owned entries db (e # es) =
     (case lr_FindByEdition entries db (e_id e) of
        Inr _ \<Rightarrow> Inr True
      | Inl err \<Rightarrow> (if CategoryOf err \<noteq> NotFound then Inl err else any_owned entries db es))"

fun any_work_owned ::
  "'db EditionRepository \<Rightarrow> 'db LibraryEntryRepository \<Rightarrow> 'db \<Rightarrow> Work list \<Rightarrow> bool result" where
  "any_work_owned editions entries db [] = Inr False"
| "any_work_owned editions entries db (w # ws) =
     (case er_FindByWork editions db (w_id w) of
        Inl err \<Rightarrow> Inl err
      | Inr editionsForWork \<Rightarrow>
         (case any_owned entries db editionsForWork of
            Inl err \<Rightarrow> Inl err
          | Inr True \<Rightarrow> Inr True
          | Inr False \<Rightarrow> any_work_owned editions entries db ws))"

definition IsInLibrary ::
  "'db WorkRepository \<Rightarrow> 'db EditionRepository \<Rightarrow> 'db LibraryEntryRepository \<Rightarrow> 'db \<Rightarrow> WorkID
   \<Rightarrow> bool result option" where
  "IsInLibrary works editions entries db workID =
     (case resolveCanonicalWork works db workID of
        None \<Rightarrow> None
      | Some (Inl err) \<Rightarrow> Some (Inl err)
      | Some (Inr canonical) \<Rightarrow>
         (case collectMergeGroup works db canonical of
            None \<Rightarrow> None
          | Some (Inl err) \<Rightarrow> Some (Inl err)
          | Some (Inr grp) \<Rightarrow> Some (any_work_owned editions entries db grp)))"

section \<open>CollectionService\<close>

text \<open>\<open>newID\<close> is what \<open>s.ids.NewID()\<close> returns.\<close>

definition CreateCollection ::
  "'db CollectionRepository \<Rightarrow> CollectionID \<Rightarrow> 'db \<Rightarrow> LibraryID \<Rightarrow> string \<Rightarrow> instant
   \<Rightarrow> (Collection \<times> event) result \<times> 'db" where
  "CreateCollection collections newID db libraryID name occurredAt =
     (case NewCollection newID name of
        Inl err \<Rightarrow> (Inl err, db)
      | Inr c \<Rightarrow>
         (case cr_Save collections libraryID c db of
            (Some err, db') \<Rightarrow> (Inl err, db')
          | (None, db') \<Rightarrow> (Inr (c, new_event CollectionCreated newID occurredAt), db')))"

definition DeleteCollection ::
  "'db CollectionRepository \<Rightarrow> 'db \<Rightarrow> LibraryID \<Rightarrow> CollectionID \<Rightarrow> go_error option \<times> 'db" where
  "DeleteCollection collections db libraryID i = cr_Delete collections libraryID i db"

definition AddCollectionMember ::
  "'db CollectionRepository \<Rightarrow> 'db \<Rightarrow> LibraryID \<Rightarrow> CollectionID \<Rightarrow> WorkID \<Rightarrow> instant
   \<Rightarrow> event result \<times> 'db" where
  "AddCollectionMember collections db libraryID collectionID workID occurredAt =
     (case cr_FindByID collections db libraryID collectionID of
        Inl err \<Rightarrow> (Inl err, db)
      | Inr c \<Rightarrow>
         (case cr_Save collections libraryID (AddMember c workID occurredAt) db of
            (Some err, db') \<Rightarrow> (Inl err, db')
          | (None, db') \<Rightarrow> (Inr (new_event CollectionMemberAdded collectionID occurredAt), db')))"

definition RemoveCollectionMember ::
  "'db CollectionRepository \<Rightarrow> 'db \<Rightarrow> LibraryID \<Rightarrow> CollectionID \<Rightarrow> WorkID \<Rightarrow> instant
   \<Rightarrow> event result \<times> 'db" where
  "RemoveCollectionMember collections db libraryID collectionID workID occurredAt =
     (case cr_FindByID collections db libraryID collectionID of
        Inl err \<Rightarrow> (Inl err, db)
      | Inr c \<Rightarrow>
         (case cr_Save collections libraryID (RemoveMember c workID) db of
            (Some err, db') \<Rightarrow> (Inl err, db')
          | (None, db') \<Rightarrow> (Inr (new_event CollectionMemberRemoved collectionID occurredAt), db')))"

section \<open>SourceRemovalService\<close>

text \<open>The loop over the offerings inside the transaction.\<close>

fun delete_offerings ::
  "'db SourceOfferingRepository \<Rightarrow> SourceOffering list \<Rightarrow> 'db command" where
  "delete_offerings offerings [] db = (None, db)"
| "delete_offerings offerings (off # offs) db =
     (case or_Delete offerings (so_id off) db of
        (Some err, db') \<Rightarrow> (Some err, db')
      | (None, db') \<Rightarrow> delete_offerings offerings offs db')"

definition remove_body ::
  "'db SourceRepository \<Rightarrow> 'db SourceOfferingRepository \<Rightarrow> SourceID \<Rightarrow> instant \<Rightarrow> 'db
   \<Rightarrow> (event \<times> event list) result \<times> 'db" where
  "remove_body sources offerings sourceID occurredAt db =
     (case or_FindBySource offerings db sourceID of
        Inl err \<Rightarrow> (Inl err, db)
      | Inr offs \<Rightarrow>
         (case delete_offerings offerings offs db of
            (Some err, db') \<Rightarrow> (Inl err, db')
          | (None, db') \<Rightarrow>
             (case sr_Delete sources sourceID db' of
                (Some err, db'') \<Rightarrow> (Inl err, db'')
              | (None, db'') \<Rightarrow>
                  (Inr (new_event SourceRemoved sourceID occurredAt,
                        map (\<lambda>off. new_event SourceOfferingRemoved (so_id off) occurredAt) offs),
                   db''))))"

definition RemoveSource ::
  "(('db \<Rightarrow> (event \<times> event list) result \<times> 'db) \<Rightarrow> 'db \<Rightarrow> (event \<times> event list) result \<times> 'db)
   \<Rightarrow> 'db SourceRepository \<Rightarrow> 'db SourceOfferingRepository \<Rightarrow> 'db \<Rightarrow> SourceID \<Rightarrow> instant
   \<Rightarrow> (event \<times> event list) result \<times> 'db" where
  "RemoveSource inTx sources offerings db sourceID occurredAt =
     inTx (remove_body sources offerings sourceID occurredAt) db"

text \<open>
  What the removal relies on: \<open>offers\<close> is the set of stored offerings with their source, and
  \<open>others\<close> everything else a delete may not touch.
\<close>

locale source_store =
  fixes sources :: "'db SourceRepository"
    and offerings :: "'db SourceOfferingRepository"
    and offers :: "'db \<Rightarrow> (SourceOfferingID \<times> SourceID) set"
    and source_ids :: "'db \<Rightarrow> SourceID set"
    and others :: "'db \<Rightarrow> 'rest"
  assumes by_source: "or_FindBySource offerings db s = Inr offs \<Longrightarrow>
      so_id ` set offs = {i. (i, s) \<in> offers db}"
    and delete_offering: "or_Delete offerings i db = (None, db') \<Longrightarrow>
      offers db' = {(j, s) \<in> offers db. j \<noteq> i} \<and> source_ids db' = source_ids db \<and> others db' = others db"
    and delete_source: "sr_Delete sources s db = (None, db') \<Longrightarrow>
      offers db' = offers db \<and> source_ids db' = source_ids db - {s} \<and> others db' = others db"
begin

lemma delete_offerings_ok:
  "delete_offerings offerings offs db = (None, db') \<Longrightarrow>
   offers db' = {(j, s) \<in> offers db. j \<notin> so_id ` set offs}
   \<and> source_ids db' = source_ids db \<and> others db' = others db"
proof (induction offs arbitrary: db)
  case (Cons off offs)
  then obtain d where d: "or_Delete offerings (so_id off) db = (None, d)"
    and rest: "delete_offerings offerings offs d = (None, db')"
    by (auto split: prod.splits option.splits)
  from Cons.IH [OF rest] delete_offering [OF d] show ?case by auto
qed auto

lemma remove_body_ok:
  assumes "remove_body sources offerings s t db = (Inr (ev, evs), db')"
  shows "offers db' = {(j, x) \<in> offers db. (j, s) \<notin> offers db} \<and> source_ids db' = source_ids db - {s}
    \<and> others db' = others db \<and> ev = new_event SourceRemoved s t
    \<and> set evs = (\<lambda>i. new_event SourceOfferingRemoved i t) ` {i. (i, s) \<in> offers db}"
proof -
  obtain offs d where f: "or_FindBySource offerings db s = Inr offs"
    and d: "delete_offerings offerings offs db = (None, d)" and sd: "sr_Delete sources s d = (None, db')"
    and e: "ev = new_event SourceRemoved s t"
      "evs = map (\<lambda>off. new_event SourceOfferingRemoved (so_id off) t) offs"
    using assms by (auto simp: remove_body_def split: sum.splits prod.splits option.splits)
  note ids = by_source [OF f]
  have "set evs = (\<lambda>i. new_event SourceOfferingRemoved i t) ` (so_id ` set offs)"
    unfolding e by (simp add: image_image)
  then show ?thesis
    using delete_offerings_ok [OF d] delete_source [OF sd] e(1) unfolding ids by auto
qed

end

locale source_removal = source_store sources offerings offers source_ids others + transactor inTx same
  for sources :: "'db SourceRepository" and offerings offers source_ids
    and others :: "'db \<Rightarrow> 'rest"
    and inTx :: "('db \<Rightarrow> (event \<times> event list) result \<times> 'db) \<Rightarrow> 'db \<Rightarrow> (event \<times> event list) result \<times> 'db"
    and same
begin

lemma RemoveSource_atomic:
  "RemoveSource inTx sources offerings db s t = (Inl e, db') \<Longrightarrow> same db' db"
  "RemoveSource inTx sources offerings db s t = (Inr (ev, evs), db') \<Longrightarrow>
     offers db' = {(j, x) \<in> offers db. (j, s) \<notin> offers db} \<and> source_ids db' = source_ids db - {s}
     \<and> others db' = others db \<and> ev = new_event SourceRemoved s t
     \<and> set evs = (\<lambda>i. new_event SourceOfferingRemoved i t) ` {i. (i, s) \<in> offers db}"
  unfolding RemoveSource_def by (rule failed, assumption) (rule remove_body_ok, rule committed)

end

end
