(* ===== verification/Postgres_Library.thy ===== *)
theory Postgres_Library
  imports Postgres_Catalog Library_Services "HOL-Library.Product_Lexorder"
begin

text \<open>
  The library-side repositories of \<open>internal/persistence/postgres\<close>:
  \<open>library_entry_repository.go\<close>, \<open>source_repository.go\<close>, \<open>source_offering_repository.go\<close>
  and \<open>collection_repository.go\<close>.  Where a query orders by a text column, the database's
  collation is a parameter \<open>ck\<close>: texts compare as their keys do.
\<close>

definition DefaultLibraryID :: LibraryID where
  "DefaultLibraryID = ''00000000-0000-0000-0000-000000000001''"

section \<open>Library entries\<close>

definition entry_FindByEdition :: "database \<Rightarrow> EditionID \<Rightarrow> LibraryEntry result" where
  "entry_FindByEdition db editionID =
     (if \<not> connected db then Inl (TranslateError ErrClosed)
      else (case row_by en_edition_id editionID (library_entries db) of
              None \<Rightarrow> Inl (derr NotFound ''library entry not found'')
            | Some row \<Rightarrow> Inr (NewLibraryEntry (en_id row) editionID (en_added_at row))))"

definition EditionInLibrary :: "database \<Rightarrow> EditionID \<Rightarrow> LibraryID \<Rightarrow> bool result" where
  "EditionInLibrary db editionID libraryID =
     (if \<not> connected db then Inl (TranslateError ErrClosed)
      else Inr (list_ex (\<lambda>r. en_edition_id r = editionID \<and> en_library_id r = libraryID)
                 (library_entries db)))"

definition WorkInLibrary :: "database \<Rightarrow> WorkID \<Rightarrow> LibraryID \<Rightarrow> bool result" where
  "WorkInLibrary db workID libraryID =
     (if \<not> connected db then Inl (TranslateError ErrClosed)
      else Inr (list_ex (\<lambda>r. en_library_id r = libraryID \<and>
                   list_ex (\<lambda>e. ed_id e = en_edition_id r \<and> ed_work_id e = workID) (editions db))
                 (library_entries db)))"

text \<open>
  \<open>INSERT \<dots> ON CONFLICT (library_id, edition_id) DO NOTHING\<close>, and the fallback on
  \<open>(edition_id)\<close>, for which the schema has no unique constraint since the migration to several
  libraries: it always fails.
\<close>

definition insert_entry :: "library_entry_row \<Rightarrow> statement" where
  "insert_entry r db =
     (if list_ex (\<lambda>x. en_library_id x = en_library_id r \<and> en_edition_id x = en_edition_id r)
           (library_entries db) then Inr (db, 0)
      else if en_id r \<in> en_id ` set (library_entries db) then Inl unique_violation
      else if en_edition_id r \<notin> edition_ids db \<or> en_library_id r \<notin> library_ids db
        then Inl foreign_key_violation
      else Inr (db\<lparr>library_entries := library_entries db @ [r]\<rparr>, 1))"

definition insert_entry_on_edition :: "library_entry_row \<Rightarrow> statement" where
  "insert_entry_on_edition r db = Inl invalid_column_reference"

definition entry_row_of :: "LibraryEntry \<Rightarrow> library_entry_row" where
  "entry_row_of e =
     \<lparr> en_id = le_id e, en_library_id = DefaultLibraryID, en_edition_id = le_editionID e,
       en_added_at = timestamptz (le_addedAt e) \<rparr>"

definition affected_or_conflict :: "nat \<Rightarrow> go_error option" where
  "affected_or_conflict n =
     (if n = 0 then Some (derr Conflict ''the requested change conflicts with an existing record'')
      else None)"

definition entry_Save :: "LibraryEntry \<Rightarrow> database command" where
  "entry_Save e db =
     (case Exec (insert_entry (entry_row_of e)) db of
        (Inr n, db') \<Rightarrow> (affected_or_conflict n, db')
      | (Inl _, db') \<Rightarrow>
         (case Exec (insert_entry_on_edition (entry_row_of e)) db' of
            (Inl err, db'') \<Rightarrow> (Some (TranslateError err), db'')
          | (Inr n, db'') \<Rightarrow> (affected_or_conflict n, db'')))"

definition delete_entries :: "EditionID \<Rightarrow> statement" where
  "delete_entries editionID db =
     Inr (db\<lparr>library_entries := delete_where (\<lambda>r. en_edition_id r = editionID) (library_entries db)\<rparr>,
          length (filter (\<lambda>r. en_edition_id r = editionID) (library_entries db)))"

definition entry_DeleteByEdition :: "EditionID \<Rightarrow> database command" where
  "entry_DeleteByEdition editionID db = exec_one (delete_entries editionID) db"

definition PgLibraryEntryRepository :: "database LibraryEntryRepository" where
  "PgLibraryEntryRepository =
     \<lparr> lr_FindByEdition = entry_FindByEdition, lr_Save = entry_Save,
       lr_DeleteByEdition = entry_DeleteByEdition \<rparr>"

section \<open>Sources and offerings\<close>

definition source_FindByID :: "database \<Rightarrow> SourceID \<Rightarrow> Source result" where
  "source_FindByID db i =
     (if \<not> connected db then Inl (TranslateError ErrClosed)
      else (case row_by sc_id i (sources db) of
              None \<Rightarrow> Inl (derr NotFound ''source not found'')
            | Some row \<Rightarrow>
               (case NewSource i (sc_label row)
                    \<lparr> CanList = sc_can_list row, CanSearch = sc_can_search row, CanDownload = sc_can_download row \<rparr>
                    (sc_kind row) of
                  Inl err \<Rightarrow> Inl (TranslateError err)
                | Inr s \<Rightarrow> Inr s)))"

text \<open>
  The upsert of \<open>source_repository.go\<close>: a new row takes the defaults of the other columns (\<open>now\<close> is
  the server's \<open>now()\<close>), an existing one keeps them.  A credential needs the kind \<open>opds\<close>.
\<close>

definition upsert_source :: "instant \<Rightarrow> Source \<Rightarrow> statement" where
  "upsert_source now s db =
     (if s_id s \<in> sc_id ` set (sources db) then
        (if list_ex (\<lambda>r. sc_id r = s_id s \<and> sc_credential_ciphertext r \<noteq> None) (sources db)
            \<and> s_kind s \<noteq> ''opds'' then Inl check_violation
         else Inr (db\<lparr>sources := update_where (\<lambda>r. sc_id r = s_id s)
             (\<lambda>r. r\<lparr>sc_label := s_label s, sc_can_list := CanList (s_capabilities s),
                sc_can_search := CanSearch (s_capabilities s), sc_can_download := CanDownload (s_capabilities s),
                sc_kind := s_kind s\<rparr>) (sources db)\<rparr>, 1))
      else if DefaultLibraryID \<notin> library_ids db then Inl foreign_key_violation
      else Inr (db\<lparr>sources := sources db @
         [\<lparr> sc_id = s_id s, sc_label = s_label s, sc_can_list = CanList (s_capabilities s),
           sc_can_search = CanSearch (s_capabilities s), sc_can_download = CanDownload (s_capabilities s),
           sc_kind = s_kind s, sc_library_id = DefaultLibraryID, sc_config_base_path = [],
           sc_config_base_url = [], sc_credential_ciphertext = None, sc_credential_nonce = None,
           sc_health_status = ''unknown'', sc_health_detail = None, sc_health_checked_at = None,
           sc_search_link_url = None, sc_created_at = timestamptz now \<rparr>]\<rparr>, 1))"

definition source_Save :: "instant \<Rightarrow> Source \<Rightarrow> database command" where
  "source_Save now s db = exec_one (upsert_source now s) db"

text \<open>Deleting a source that an offering still refers to violates the reference; its import
  candidates are deleted with it.\<close>

definition delete_source_row :: "SourceID \<Rightarrow> statement" where
  "delete_source_row i db =
     (if list_ex (\<lambda>r. of_source_id r = i) (source_offerings db) \<and> i \<in> sc_id ` set (sources db)
      then Inl foreign_key_violation
      else Inr (db\<lparr>sources := delete_where (\<lambda>r. sc_id r = i) (sources db),
                     import_candidates := delete_where (\<lambda>r. ic_source_id r = i) (import_candidates db)\<rparr>,
                length (filter (\<lambda>r. sc_id r = i) (sources db))))"

definition source_Delete :: "SourceID \<Rightarrow> database command" where
  "source_Delete i db = exec_one (delete_source_row i) db"

definition PgSourceRepository :: "instant \<Rightarrow> database SourceRepository" where
  "PgSourceRepository now =
     \<lparr> sr_FindByID = source_FindByID, sr_Save = source_Save now, sr_Delete = source_Delete \<rparr>"

definition scan_offering :: "offering_row \<Rightarrow> SourceOffering result" where
  "scan_offering r =
     (case NewFileReference (of_reference_id r) (of_format r) (of_size_bytes r) of
        Inl err \<Rightarrow> Inl (TranslateError err)
      | Inr ref \<Rightarrow> Inr (NewSourceOffering (of_id r) (of_source_id r) (of_edition_id r) ref (of_observed_at r)))"

definition offering_FindByID :: "database \<Rightarrow> SourceOfferingID \<Rightarrow> SourceOffering result" where
  "offering_FindByID db i =
     (if \<not> connected db then Inl (TranslateError ErrClosed)
      else (case row_by of_id i (source_offerings db) of
              None \<Rightarrow> Inl (derr NotFound ''source offering not found'')
            | Some row \<Rightarrow> scan_offering row))"

definition offering_FindBySource :: "database \<Rightarrow> SourceID \<Rightarrow> SourceOffering list result" where
  "offering_FindBySource db sourceID =
     (if \<not> connected db then Inl (TranslateError ErrClosed)
      else mapR scan_offering (filter (\<lambda>r. of_source_id r = sourceID) (source_offerings db)))"

definition offering_FindByEdition ::
  "(string \<Rightarrow> 'k :: linorder) \<Rightarrow> database \<Rightarrow> EditionID \<Rightarrow> SourceOffering list result" where
  "offering_FindByEdition ck db editionID =
     (if \<not> connected db then Inl (TranslateError ErrClosed)
      else mapR scan_offering
             (sort_key (\<lambda>r. (- of_observed_at r, ck (of_id r)))
               (filter (\<lambda>r. of_edition_id r = editionID) (source_offerings db))))"

definition offering_key :: "offering_row \<Rightarrow> SourceID \<times> EditionID \<times> string" where
  "offering_key r = (of_source_id r, of_edition_id r, of_format r)"

definition offering_row_of :: "SourceOffering \<Rightarrow> offering_row" where
  "offering_row_of off =
     \<lparr> of_id = so_id off, of_source_id = so_sourceID off, of_edition_id = so_editionID off,
       of_reference_id = fr_ReferenceID (so_fileReference off), of_format = fr_Format (so_fileReference off),
       of_size_bytes = fr_SizeBytes (so_fileReference off), of_observed_at = timestamptz (so_observedAt off) \<rparr>"

text \<open>
  \<open>ON CONFLICT (source_id, edition_id, file_reference_format) DO UPDATE\<close>: the row with the same
  key keeps its id and takes the new reference, size and time.
\<close>

definition upsert_offering :: "offering_row \<Rightarrow> statement" where
  "upsert_offering r db =
     (if offering_key r \<in> offering_key ` set (source_offerings db) then
        Inr (db\<lparr>source_offerings := map (\<lambda>x. if offering_key x = offering_key r
               then x\<lparr>of_reference_id := of_reference_id r, of_size_bytes := of_size_bytes r,
                      of_observed_at := of_observed_at r\<rparr> else x) (source_offerings db)\<rparr>, 1)
      else if of_id r \<in> of_id ` set (source_offerings db) then Inl unique_violation
      else if of_source_id r \<notin> sc_id ` set (sources db) \<or> of_edition_id r \<notin> edition_ids db
        then Inl foreign_key_violation
      else Inr (db\<lparr>source_offerings := source_offerings db @ [r]\<rparr>, 1))"

definition offering_Save :: "SourceOffering \<Rightarrow> database command" where
  "offering_Save off db = exec_one (upsert_offering (offering_row_of off)) db"

definition delete_offering_row :: "SourceOfferingID \<Rightarrow> statement" where
  "delete_offering_row i db =
     Inr (db\<lparr>source_offerings := delete_where (\<lambda>r. of_id r = i) (source_offerings db)\<rparr>,
          length (filter (\<lambda>r. of_id r = i) (source_offerings db)))"

definition offering_Delete :: "SourceOfferingID \<Rightarrow> database command" where
  "offering_Delete i db = exec_one (delete_offering_row i) db"

definition PgSourceOfferingRepository :: "(string \<Rightarrow> 'k :: linorder) \<Rightarrow> database SourceOfferingRepository" where
  "PgSourceOfferingRepository ck =
     \<lparr> or_FindByID = offering_FindByID, or_FindBySource = offering_FindBySource,
       or_FindByEdition = offering_FindByEdition ck, or_Save = offering_Save, or_Delete = offering_Delete \<rparr>"

section \<open>Collections\<close>

definition in_library :: "LibraryID \<Rightarrow> CollectionID \<Rightarrow> collection_row \<Rightarrow> bool" where
  "in_library libraryID i r \<longleftrightarrow> co_id r = i \<and> co_library_id r = libraryID"

definition collection_FindByID :: "database \<Rightarrow> LibraryID \<Rightarrow> CollectionID \<Rightarrow> Collection result" where
  "collection_FindByID db libraryID i =
     (if \<not> connected db then Inl (TranslateError ErrClosed)
      else (case List.find (in_library libraryID i) (collections db) of
              None \<Rightarrow> Inl (derr NotFound ''collection not found'')
            | Some row \<Rightarrow>
               (case NewCollection i (co_name row) of
                  Inl err \<Rightarrow> Inl (TranslateError err)
                | Inr c \<Rightarrow>
                    Inr (foldl (\<lambda>c m. AddMember c (me_work_id m) (me_added_at m)) c
                      (filter (\<lambda>m. me_collection_id m = i) (collection_members db))))))"

definition upsert_collection :: "CollectionID \<Rightarrow> string \<Rightarrow> LibraryID \<Rightarrow> statement" where
  "upsert_collection i name libraryID db =
     (if i \<in> co_id ` set (collections db) then
        Inr (db\<lparr>collections := map (\<lambda>r. if in_library libraryID i r then r\<lparr>co_name := name\<rparr> else r)
                 (collections db)\<rparr>,
             length (filter (in_library libraryID i) (collections db)))
      else if libraryID \<notin> library_ids db then Inl foreign_key_violation
      else Inr (db\<lparr>collections := collections db @
              [\<lparr> co_id = i, co_name = name, co_library_id = libraryID \<rparr>]\<rparr>, 1))"

definition delete_members :: "CollectionID \<Rightarrow> statement" where
  "delete_members i db =
     Inr (db\<lparr>collection_members := delete_where (\<lambda>m. me_collection_id m = i) (collection_members db)\<rparr>,
          length (filter (\<lambda>m. me_collection_id m = i) (collection_members db)))"

definition insert_member :: "CollectionID \<Rightarrow> CollectionMember \<Rightarrow> statement" where
  "insert_member i m db =
     (if list_ex (\<lambda>x. me_collection_id x = i \<and> me_work_id x = cm_WorkID m) (collection_members db)
        then Inl unique_violation
      else if i \<notin> co_id ` set (collections db) \<or> cm_WorkID m \<notin> work_ids db then Inl foreign_key_violation
      else Inr (db\<lparr>collection_members := collection_members db @
              [\<lparr> me_collection_id = i, me_work_id = cm_WorkID m, me_added_at = timestamptz (cm_AddedAt m) \<rparr>]\<rparr>, 1))"

definition collection_Save :: "LibraryID \<Rightarrow> Collection \<Rightarrow> database command" where
  "collection_Save libraryID c db =
     (case Exec (upsert_collection (c_id c) (c_name c) libraryID) db of
        (Inl err, db') \<Rightarrow> (Some (TranslateError err), db')
      | (Inr n, db') \<Rightarrow>
          (if n = 0 then (Some (derr NotFound ''collection not found''), db')
           else exec_all (delete_members (c_id c) # map (insert_member (c_id c)) (c_members c)) db'))"

definition delete_members_scoped :: "LibraryID \<Rightarrow> CollectionID \<Rightarrow> statement" where
  "delete_members_scoped libraryID i db =
     (let hit = (\<lambda>m. me_collection_id m = i \<and> list_ex (in_library libraryID i) (collections db)) in
      Inr (db\<lparr>collection_members := delete_where hit (collection_members db)\<rparr>,
           length (filter hit (collection_members db))))"

definition delete_collection :: "LibraryID \<Rightarrow> CollectionID \<Rightarrow> statement" where
  "delete_collection libraryID i db =
     (if list_ex (\<lambda>m. me_collection_id m = i) (collection_members db)
         \<and> list_ex (in_library libraryID i) (collections db) then Inl foreign_key_violation
      else Inr (db\<lparr>collections := delete_where (in_library libraryID i) (collections db)\<rparr>,
                length (filter (in_library libraryID i) (collections db))))"

definition collection_Delete :: "LibraryID \<Rightarrow> CollectionID \<Rightarrow> database command" where
  "collection_Delete libraryID i db =
     (case Exec (delete_members_scoped libraryID i) db of
        (Inl err, db') \<Rightarrow> (Some (TranslateError err), db')
      | (Inr _, db') \<Rightarrow>
         (case Exec (delete_collection libraryID i) db' of
            (Inl err, db'') \<Rightarrow> (Some (TranslateError err), db'')
          | (Inr n, db'') \<Rightarrow>
              (if n = 0 then (Some (derr NotFound ''collection not found''), db'') else (None, db''))))"

definition PgCollectionRepository :: "database CollectionRepository" where
  "PgCollectionRepository =
     \<lparr> cr_FindByID = collection_FindByID, cr_Save = collection_Save, cr_Delete = collection_Delete \<rparr>"

text \<open>The repository's own \<open>AddMember\<close>, \<open>RemoveMember\<close> and \<open>Rename\<close>.\<close>

definition collection_AddMember ::
  "LibraryID \<Rightarrow> CollectionID \<Rightarrow> WorkID \<Rightarrow> instant \<Rightarrow> database command" where
  "collection_AddMember libraryID i workID addedAt db =
     (if \<not> connected db then (Some (TranslateError ErrClosed), db)
      else if \<not> list_ex (in_library libraryID i) (collections db) then
        (Some (derr NotFound ''collection not found''), db)
      else if workID \<notin> work_ids db then (Some (derr NotFound ''work not found''), db)
      else exec_one (\<lambda>db.
         if list_ex (\<lambda>x. me_collection_id x = i \<and> me_work_id x = workID) (collection_members db)
         then Inr (db, 0) else insert_member i \<lparr> cm_WorkID = workID, cm_AddedAt = addedAt \<rparr> db) db)"

definition collection_RemoveMember :: "LibraryID \<Rightarrow> CollectionID \<Rightarrow> WorkID \<Rightarrow> database command" where
  "collection_RemoveMember libraryID i workID db =
     (if \<not> connected db then (Some (TranslateError ErrClosed), db)
      else if \<not> list_ex (in_library libraryID i) (collections db) then
        (Some (derr NotFound ''collection not found''), db)
      else (case Exec (\<lambda>db. Inr (db\<lparr>collection_members :=
                 delete_where (\<lambda>m. me_collection_id m = i \<and> me_work_id m = workID) (collection_members db)\<rparr>,
               length (filter (\<lambda>m. me_collection_id m = i \<and> me_work_id m = workID) (collection_members db)))) db of
              (Inl err, db') \<Rightarrow> (Some (TranslateError err), db')
            | (Inr n, db') \<Rightarrow>
                (if n = 0 then
                   (Some (derr NotFound ''no membership found for that work in this collection''), db')
                 else (None, db'))))"

definition collection_Rename :: "LibraryID \<Rightarrow> CollectionID \<Rightarrow> string \<Rightarrow> database command" where
  "collection_Rename libraryID i name db =
     (case ValidateBoundedText ''name'' name 100 of
        Some err \<Rightarrow> (Some err, db)
      | None \<Rightarrow>
         (case Exec (\<lambda>db. Inr (db\<lparr>collections := map (\<lambda>r. if in_library libraryID i r then r\<lparr>co_name := name\<rparr> else r)
                 (collections db)\<rparr>, length (filter (in_library libraryID i) (collections db)))) db of
            (Inl err, db') \<Rightarrow> (Some (TranslateError err), db')
          | (Inr n, db') \<Rightarrow>
              (if n = 0 then (Some (derr NotFound ''collection not found''), db') else (None, db'))))"

section \<open>Removing a source\<close>

definition offers :: "database \<Rightarrow> (SourceOfferingID \<times> SourceID) set" where
  "offers db = (\<lambda>r. (of_id r, of_source_id r)) ` set (source_offerings db)"

definition source_ids :: "database \<Rightarrow> SourceID set" where
  "source_ids db = sc_id ` set (sources db)"

definition other_tables :: "database \<Rightarrow> database" where
  "other_tables db = db\<lparr>db_links := None, sync_seq := 0, sources := [], source_offerings := [], import_candidates := []\<rparr>"

lemma scan_offering_ok: "scan_offering r = Inr off \<Longrightarrow> so_id off = of_id r"
  by (auto simp: scan_offering_def NewSourceOffering_def split: sum.splits)

lemma offering_FindBySource_ids:
  assumes "offering_FindBySource db s = Inr offs"
  shows "so_id ` set offs = {i. (i, s) \<in> offers db}"
proof -
  have "list_all2 (\<lambda>r off. scan_offering r = Inr off)
      (filter (\<lambda>r. of_source_id r = s) (source_offerings db)) offs"
    using assms by (auto simp: offering_FindBySource_def mapR_Inr_iff split: if_splits)
  then have "map so_id offs = map of_id (filter (\<lambda>r. of_source_id r = s) (source_offerings db))"
    by (induction rule: list_all2_induct) (auto dest: scan_offering_ok)
  then have "so_id ` set offs = of_id ` set (filter (\<lambda>r. of_source_id r = s) (source_offerings db))"
    by (metis list.set_map)
  then show ?thesis by (auto simp: offers_def)
qed

interpretation pgremoval: source_removal "PgSourceRepository now" "PgSourceOfferingRepository ck"
  offers source_ids other_tables InTx same_tables
  for now and ck :: "string \<Rightarrow> 'k :: linorder"
proof unfold_locales
  fix db db' :: database and i s
  show "so_id ` set offs = {i. (i, s) \<in> offers db}"
    if "or_FindBySource (PgSourceOfferingRepository ck) db s = Inr offs" for offs
    using that offering_FindBySource_ids by (simp add: PgSourceOfferingRepository_def)
  show "offers db' = {(j, s) \<in> offers db. j \<noteq> i} \<and> source_ids db' = source_ids db
      \<and> other_tables db' = other_tables db"
    if "or_Delete (PgSourceOfferingRepository ck) i db = (None, db')"
    using that
    by (auto simp: PgSourceOfferingRepository_def offering_Delete_def delete_offering_row_def
        delete_where_def offers_def source_ids_def other_tables_def tick_def elim!: exec_one_ok)
  show "offers db' = offers db \<and> source_ids db' = source_ids db - {s} \<and> other_tables db' = other_tables db"
    if "sr_Delete (PgSourceRepository now) s db = (None, db')"
    using that
    by (auto simp only: PgSourceRepository_def SourceRepository.simps source_Delete_def
        delete_source_row_def elim!: exec_one_ok split: if_splits)
       (simp_all add: offers_def source_ids_def other_tables_def tick_def keys_delete_where)
qed

text \<open>Removing a source is atomic.  If \<open>RemoveSource\<close> reports an error, at whatever statement
  the connection broke, no table has changed; if it succeeds, the source and exactly its offerings
  are gone with the source's import candidates, every other table (library entries among them) is untouched, and the events name the
  source and exactly the offerings removed.\<close>

theorem source_removal_atomic:
  "case RemoveSource InTx (PgSourceRepository now) (PgSourceOfferingRepository ck) db s t of
     (Inl e, db') \<Rightarrow> same_tables db' db
   | (Inr (ev, evs), db') \<Rightarrow>
       offers db' = {(j, x) \<in> offers db. (j, s) \<notin> offers db} \<and> source_ids db' = source_ids db - {s}
       \<and> other_tables db' = other_tables db \<and> ev = new_event SourceRemoved s t
       \<and> set evs = (\<lambda>i. new_event SourceOfferingRemoved i t) ` {i. (i, s) \<in> offers db}"
  by (auto split: prod.split sum.split dest: pgremoval.RemoveSource_atomic)

text \<open>On a connection that does not break, removal succeeds whenever the offerings can be read.\<close>

lemma delete_offerings_up:
  "db_links db = None \<Longrightarrow>
   \<exists>db'. delete_offerings (PgSourceOfferingRepository ck) offs db = (None, db') \<and> db_links db' = None"
proof (induction offs arbitrary: db)
  case (Cons off offs)
  let ?d = "tick (db\<lparr>source_offerings := delete_where (\<lambda>r. of_id r = so_id off) (source_offerings db)\<rparr>)"
  have "or_Delete (PgSourceOfferingRepository ck) (so_id off) db = (None, ?d)"
    using Cons.prems
    by (simp add: PgSourceOfferingRepository_def offering_Delete_def exec_one_up delete_offering_row_def)
  moreover have "db_links ?d = None" using Cons.prems by (simp add: tick_def)
  ultimately show ?case using Cons.IH by simp
qed simp

text \<open>On a connection that stays up, a source whose offerings can all be read back is always
  removed: deleting the offerings first clears the references that would block deleting it.\<close>

theorem source_removal_succeeds:
  assumes "db_links db = None" "offering_FindBySource db s = Inr offs"
  shows "is_ok (fst (RemoveSource InTx (PgSourceRepository now) (PgSourceOfferingRepository ck) db s t))"
proof -
  let ?off = "PgSourceOfferingRepository ck"
  obtain d where d: "delete_offerings ?off offs db = (None, d)" and up: "db_links d = None"
    using delete_offerings_up [OF assms(1)] by blast
  have f: "or_FindBySource ?off db s = Inr offs" using assms(2) by (simp add: PgSourceOfferingRepository_def)
  have "offers d = {(j, x) \<in> offers db. (j, s) \<notin> offers db}"
    using pgremoval.delete_offerings_ok [OF d] offering_FindBySource_ids [OF assms(2)] by simp
  then have "\<not> list_ex (\<lambda>r. of_source_id r = s) (source_offerings d)"
    by (fastforce simp: offers_def list_ex_iff)
  then have "sr_Delete (PgSourceRepository now) s d
      = (None, tick (d\<lparr>sources := delete_where (\<lambda>r. sc_id r = s) (sources d),
          import_candidates := delete_where (\<lambda>r. ic_source_id r = s) (import_candidates d)\<rparr>))"
    using up by (simp add: PgSourceRepository_def source_Delete_def exec_one_up delete_source_row_def)
  then show ?thesis
    using assms(1) up f d
    by (simp add: RemoveSource_def InTx_def remove_body_def connected_def tick_def)
qed

definition shelf_source :: "SourceID \<Rightarrow> source_row" where
  "shelf_source i =
     \<lparr> sc_id = i, sc_label = ''disk'', sc_can_list = True, sc_can_search = False, sc_can_download = True,
       sc_kind = ''filesystem'', sc_library_id = DefaultLibraryID, sc_config_base_path = ''/books'',
       sc_config_base_url = [], sc_credential_ciphertext = None, sc_credential_nonce = None,
       sc_health_status = ''reachable'', sc_health_detail = None, sc_health_checked_at = None,
       sc_search_link_url = None, sc_created_at = 0 \<rparr>"

theorem source_removal_succeeds_witness:
  "is_ok (fst (RemoveSource InTx (PgSourceRepository 0) (PgSourceOfferingRepository length)
     ((empty_database [''L''])\<lparr>sources := [shelf_source ''s''],
        source_offerings := [\<lparr> of_id = ''o'', of_source_id = ''s'', of_edition_id = ''e'',
          of_reference_id = ''f'', of_format = ''epub'', of_size_bytes = None, of_observed_at = 0 \<rparr>]\<rparr>) ''s'' 7))"
  by (rule source_removal_succeeds)
     (simp_all add: empty_database_def offering_FindBySource_def connected_def scan_offering_def
       NewFileReference_def TrimSpace_printable)

section \<open>Library entries through the service\<close>

text \<open>Adding an edition to the library is idempotent.  After a successful \<open>AddEntry\<close> that made an
  entry, and as long as the connection is up, adding the same edition again at any later time
  changes nothing, emits no event and returns that entry with its time as the column stores it.\<close>

theorem AddEntry_idempotent:
  assumes "AddEntry PgEditionRepository PgLibraryEntryRepository db ed t = (Inr (e, Some ev), db')"
    and "connected db'"
  shows "AddEntry PgEditionRepository PgLibraryEntryRepository db' ed t'
    = (Inr (e\<lparr>le_addedAt := timestamptz t\<rparr>, None), db')
    \<and> EditionInLibrary db' ed DefaultLibraryID = Inr True"
proof -
  obtain ed' err where f: "edition_load db ed = Inr ed'" "entry_FindByEdition db ed = Inl err"
      "CategoryOf err = NotFound"
    and e: "e = NewLibraryEntry ed ed t" and sv: "entry_Save e db = (None, db')"
    using assms(1)
    by (auto simp: AddEntry_def PgEditionRepository_def PgLibraryEntryRepository_def Let_def
        split: sum.splits if_splits prod.splits option.splits)
  have none: "row_by en_edition_id ed (library_entries db) = None"
    using f(2,3)
    by (auto simp: entry_FindByEdition_def CategoryOf_TranslateError ErrClosed_def
        split: if_splits option.splits)
  have "db' = tick (db\<lparr>library_entries := library_entries db @ [entry_row_of e]\<rparr>)"
    using sv
    by (auto simp: entry_Save_def insert_entry_def insert_entry_on_edition_def Exec_def
        affected_or_conflict_def split: if_splits sum.splits prod.splits)
  then have le: "library_entries db' = library_entries db @ [entry_row_of e]"
    and ed: "editions db' = editions db" "edition_references db' = edition_references db"
    by (simp_all add: tick_def)
  have "connected db" using f(1) by (auto simp: edition_load_def split: if_splits)
  then have "edition_load db' ed = Inr ed'"
    using f(1) assms(2) unfolding edition_load_def ed by simp
  moreover have "entry_FindByEdition db' ed = Inr (e\<lparr>le_addedAt := timestamptz t\<rparr>)"
    using none assms(2)
    by (simp add: entry_FindByEdition_def le row_by_append)
       (simp add: row_by_def entry_row_of_def e NewLibraryEntry_def)
  moreover have "EditionInLibrary db' ed DefaultLibraryID = Inr True"
    using assms(2) by (simp add: EditionInLibrary_def le entry_row_of_def e NewLibraryEntry_def)
  ultimately show ?thesis
    by (simp add: AddEntry_def PgEditionRepository_def PgLibraryEntryRepository_def)
qed

text \<open>A store with one edition, and the same with an entry of another library.\<close>

definition novel :: edition_row where
  "novel = \<lparr> ed_id = ''e'', ed_work_id = ''T'', ed_language = ''en'', ed_isbn = None,
     ed_publisher = [], ed_publication_year = None \<rparr>"

definition novel_db :: "library_entry_row list \<Rightarrow> database" where
  "novel_db es = (empty_database [DefaultLibraryID, ''B''])
     \<lparr> editions := [novel], library_entries := es \<rparr>"

lemma novel_load: "is_ok (edition_load (novel_db es) ''e'')"
proof -
  have "NewLanguage ''en'' = Inr (Language ''en'')"
    unfolding NewLanguage_ok_iff by (simp add: tag_shape_def char_classes)
  then show ?thesis
    by (simp add: edition_load_def novel_db_def empty_database_def connected_def row_by_def novel_def
        NewEdition_def)
qed

theorem AddEntry_idempotent_witness:
  "\<exists>e ev db'. AddEntry PgEditionRepository PgLibraryEntryRepository (novel_db []) ''e'' 1234
       = (Inr (e, Some ev), db')
     \<and> AddEntry PgEditionRepository PgLibraryEntryRepository db' ''e'' 9999
       = (Inr (e\<lparr>le_addedAt := 1000\<rparr>, None), db')"
proof -
  let ?e = "NewLibraryEntry ''e'' ''e'' 1234"
  let ?db' = "novel_db [entry_row_of ?e]"
  have "AddEntry PgEditionRepository PgLibraryEntryRepository (novel_db []) ''e'' 1234
      = (Inr (?e, Some (new_event LibraryEntryAdded ''e'' 1234)), ?db')"
    using novel_load [of "[]"]
    by (auto simp: AddEntry_def PgEditionRepository_def PgLibraryEntryRepository_def is_ok_iff
        entry_FindByEdition_def entry_Save_def Exec_def insert_entry_def connected_def row_by_def
        novel_db_def empty_database_def affected_or_conflict_def entry_row_of_def edition_ids_def
        NewLibraryEntry_def novel_def tick_def Let_def)
  moreover have "connected ?db'" by (simp add: connected_def novel_db_def empty_database_def)
  ultimately show ?thesis
    using AddEntry_idempotent [of "novel_db []" "''e''" 1234 ?e _ ?db' 9999]
    by (simp add: timestamptz_def)
qed

text \<open>The service looks an edition up across all libraries but writes to the default one.  There
  is a store in which the edition belongs to another library only, \<open>AddEntry\<close> answers success with
  that library's entry, and the edition is not in the default library afterwards.\<close>

lemma AddEntry_ignores_default_library:
  "\<exists>db e. AddEntry PgEditionRepository PgLibraryEntryRepository db ''e'' t = (Inr (e, None), db)
     \<and> EditionInLibrary db ''e'' DefaultLibraryID = Inr False"
proof -
  let ?row = "\<lparr> en_id = ''x'', en_library_id = ''B'', en_edition_id = ''e'', en_added_at = 0 \<rparr>"
  have "AddEntry PgEditionRepository PgLibraryEntryRepository (novel_db [?row]) ''e'' t
      = (Inr (NewLibraryEntry ''x'' ''e'' 0, None), novel_db [?row])"
    using novel_load [of "[?row]"]
    by (auto simp: AddEntry_def PgEditionRepository_def PgLibraryEntryRepository_def is_ok_iff
        entry_FindByEdition_def connected_def row_by_def novel_db_def empty_database_def)
  moreover have "EditionInLibrary (novel_db [?row]) ''e'' DefaultLibraryID = Inr False"
    by (simp add: EditionInLibrary_def novel_db_def empty_database_def connected_def DefaultLibraryID_def)
  ultimately show ?thesis by blast
qed

section \<open>Collections of different libraries\<close>

text \<open>What belongs to the libraries other than \<open>L\<close>: their collections and the members of these.\<close>

definition foreign :: "LibraryID \<Rightarrow> database \<Rightarrow> collection_row list \<times> member_row list" where
  "foreign L db =
     (let rows = filter (\<lambda>r. co_library_id r \<noteq> L) (collections db) in
      (rows, filter (\<lambda>m. me_collection_id m \<in> co_id ` set rows) (collection_members db)))"

definition foreign_ids :: "LibraryID \<Rightarrow> database \<Rightarrow> CollectionID set" where
  "foreign_ids L db = co_id ` set (fst (foreign L db))"

lemma unlinked_foreign [simp]: "unlinked (foreign L)"
  by (simp add: unlinked_def foreign_def)

lemma foreign_delete_members:
  assumes "i \<notin> foreign_ids L d" "delete_members i d = Inr (d', n)"
  shows "foreign L d' = foreign L d"
proof -
  let ?I = "foreign_ids L d"
  have "filter (\<lambda>m. me_collection_id m \<in> ?I) (delete_where (\<lambda>m. me_collection_id m = i) ms)
      = filter (\<lambda>m. me_collection_id m \<in> ?I) ms" for ms
    using assms(1) by (auto simp: delete_where_def intro!: filter_cong)
  then show ?thesis
    using assms(2) by (auto simp: delete_members_def foreign_def foreign_ids_def Let_def)
qed

lemma foreign_insert_member:
  "i \<notin> foreign_ids L d \<Longrightarrow> insert_member i m d = Inr (d', n) \<Longrightarrow> foreign L d' = foreign L d"
  by (auto simp: insert_member_def foreign_def foreign_ids_def Let_def split: if_splits)

lemma foreign_same_rows:
  assumes "filter (\<lambda>r. co_library_id r \<noteq> L) (collections d') = filter (\<lambda>r. co_library_id r \<noteq> L) (collections d)"
    and "collection_members d' = collection_members d"
  shows "foreign L d' = foreign L d"
  using assms by (simp add: foreign_def)

lemma filter_map_other:
  "filter (\<lambda>r. co_library_id r \<noteq> L) (map (\<lambda>r. if in_library L i r then r\<lparr>co_name := name\<rparr> else r) rs)
   = filter (\<lambda>r. co_library_id r \<noteq> L) rs"
  by (induction rs) (auto simp: in_library_def)

lemma filter_delete_other:
  "filter (\<lambda>r. co_library_id r \<noteq> L) (delete_where (in_library L i) rs) = filter (\<lambda>r. co_library_id r \<noteq> L) rs"
  by (induction rs) (auto simp: delete_where_def in_library_def)

lemma foreign_upsert:
  assumes "upsert_collection i name L d = Inr (d', n)"
  shows "foreign L d' = foreign L d"
  by (rule foreign_same_rows)
     (use assms in \<open>auto simp: upsert_collection_def filter_map_other split: if_splits\<close>)

text \<open>The id of a collection that a statement of library \<open>L\<close> has hit is not a foreign one.\<close>

lemma hit_not_foreign:
  assumes "distinct (map co_id (collections d))" "r \<in> set (collections d)" "in_library L i r"
  shows "i \<notin> foreign_ids L d"
  using assms by (auto simp: foreign_ids_def foreign_def Let_def in_library_def distinct_map inj_on_def)

lemma upsert_hit:
  assumes "distinct (map co_id (collections d))" "upsert_collection i name L d = Inr (d', n)" "n \<noteq> 0"
  shows "i \<notin> foreign_ids L d"
proof (cases "i \<in> co_id ` set (collections d)")
  case True
  then have "filter (in_library L i) (collections d) \<noteq> []"
    using assms(2,3) by (auto simp: upsert_collection_def)
  then obtain r where "r \<in> set (collections d)" "in_library L i r"
    by (auto simp: filter_empty_conv)
  then show ?thesis using hit_not_foreign assms(1) by blast
next
  case False
  then show ?thesis by (auto simp: foreign_ids_def foreign_def Let_def)
qed

lemma foreign_exec:
  assumes "i \<notin> foreign_ids L db" "exec_all (delete_members i # map (insert_member i) ms) db = (r, db')"
  shows "foreign L db' = foreign L db"
proof (rule exec_all_invariant [where P = "\<lambda>d. foreign L d = foreign L db", OF _ _ refl assms(2)])
  show "unlinked (\<lambda>d. foreign L d = foreign L db)"
    using unlinked_foreign [of L] by (simp add: unlinked_def)
  show "foreign L d' = foreign L db"
    if "s \<in> set (delete_members i # map (insert_member i) ms)" "foreign L d = foreign L db"
      "s d = Inr (d', n)" for s d d' n
  proof -
    have "i \<notin> foreign_ids L d" using assms(1) that(2) by (simp add: foreign_ids_def)
    then show ?thesis
      using that foreign_delete_members [of i L d d' n] foreign_insert_member [of i L d _ d' n] by auto
  qed
qed

lemma foreign_Exec:
  assumes "\<And>d n. s db = Inr (d, n) \<Longrightarrow> foreign L d = foreign L db" "Exec s db = (r, db')"
  shows "foreign L db' = foreign L db"
  using assms
  by (auto simp: Exec_def unlinked_tick [OF unlinked_foreign] split: if_splits sum.splits)

lemma foreign_exec_one:
  assumes "\<And>d n. s db = Inr (d, n) \<Longrightarrow> foreign L d = foreign L db"
  shows "foreign L (snd (exec_one s db)) = foreign L db"
proof -
  have "foreign L (snd (Exec s db)) = foreign L db"
    by (rule foreign_Exec [OF assms]) (simp_all add: prod_eq_iff)
  then show ?thesis by (auto simp: exec_one_def split: prod.split sum.split)
qed

lemma foreign_Save:
  assumes "distinct (map co_id (collections db))"
  shows "foreign L (snd (collection_Save L c db)) = foreign L db"
proof -
  obtain r d where d: "Exec (upsert_collection (c_id c) (c_name c) L) db = (r, d)" by fastforce
  have fd: "foreign L d = foreign L db" by (rule foreign_Exec [OF foreign_upsert d])
  show ?thesis
  proof (cases "\<exists>n. r = Inr n \<and> n \<noteq> 0")
    case True
    then obtain n where n: "r = Inr n" "n \<noteq> 0" by blast
    then have "c_id c \<notin> foreign_ids L db"
      using d upsert_hit [OF assms, of "c_id c" "c_name c" L _ n] by (auto elim!: Exec_ok)
    then have "c_id c \<notin> foreign_ids L d" using fd by (simp add: foreign_ids_def)
    then have "foreign L (snd (exec_all (delete_members (c_id c) # map (insert_member (c_id c)) (c_members c)) d))
        = foreign L d"
      by (rule foreign_exec) (simp add: prod_eq_iff)
    then show ?thesis using n d fd by (simp add: collection_Save_def del: exec_all.simps)
  next
    case False
    then show ?thesis using d fd by (auto simp: collection_Save_def split: sum.splits)
  qed
qed

lemma foreign_delete_scoped:
  assumes "distinct (map co_id (collections d))" "delete_members_scoped L i d = Inr (d', n)"
  shows "foreign L d' = foreign L d"
proof (cases "list_ex (in_library L i) (collections d)")
  case True
  then have "i \<notin> foreign_ids L d"
    using hit_not_foreign [OF assms(1)] by (auto simp: list_ex_iff)
  moreover have "delete_members i d = Inr (d', n)"
    using assms(2) True by (simp add: delete_members_scoped_def delete_members_def Let_def)
  ultimately show ?thesis by (rule foreign_delete_members)
next
  case False
  then show ?thesis using assms(2) by (auto simp: delete_members_scoped_def delete_where_def)
qed

lemma foreign_Delete:
  assumes "distinct (map co_id (collections db))"
  shows "foreign L (snd (collection_Delete L i db)) = foreign L db"
proof -
  obtain r d where d: "Exec (delete_members_scoped L i) db = (r, d)" by fastforce
  have fd: "foreign L d = foreign L db" by (rule foreign_Exec [OF foreign_delete_scoped [OF assms] d])
  obtain r' d' where d': "Exec (delete_collection L i) d = (r', d')" by fastforce
  have "foreign L x = foreign L d" if "delete_collection L i d = Inr (x, n)" for x n
    by (rule foreign_same_rows)
       (use that filter_delete_other [of L i] in \<open>auto simp: delete_collection_def split: if_splits\<close>)
  then have "foreign L d' = foreign L d" by (rule foreign_Exec [OF _ d'])
  then show ?thesis using d d' fd by (auto simp: collection_Delete_def split: sum.splits)
qed

lemma foreign_member_ops:
  assumes "distinct (map co_id (collections db))"
  shows "foreign L (snd (collection_AddMember L i w t db)) = foreign L db"
    and "foreign L (snd (collection_RemoveMember L i w db)) = foreign L db"
proof -
  have hit: "i \<notin> foreign_ids L db" if "list_ex (in_library L i) (collections db)"
    using that hit_not_foreign [OF assms] by (auto simp: list_ex_iff)
  show "foreign L (snd (collection_AddMember L i w t db)) = foreign L db"
    using hit foreign_insert_member
    by (auto simp: collection_AddMember_def intro!: foreign_exec_one split: if_splits)
  let ?del = "\<lambda>db. Inr (db\<lparr>collection_members :=
                 delete_where (\<lambda>m. me_collection_id m = i \<and> me_work_id m = w) (collection_members db)\<rparr>,
               length (filter (\<lambda>m. me_collection_id m = i \<and> me_work_id m = w) (collection_members db)))"
  obtain r d where d: "Exec ?del db = (r, d)" by fastforce
  have "foreign L d = foreign L db" if "list_ex (in_library L i) (collections db)"
    by (rule foreign_Exec [OF _ d])
       (use hit [OF that] in \<open>auto simp: foreign_def foreign_ids_def Let_def delete_where_def
         intro!: filter_cong\<close>)
  then show "foreign L (snd (collection_RemoveMember L i w db)) = foreign L db"
    using d by (auto simp: collection_RemoveMember_def split: sum.splits)
qed

lemma foreign_Rename: "foreign L (snd (collection_Rename L i name db)) = foreign L db"
proof -
  let ?upd = "\<lambda>db. Inr (db\<lparr>collections := map (\<lambda>r. if in_library L i r then r\<lparr>co_name := name\<rparr> else r)
                 (collections db)\<rparr>, length (filter (in_library L i) (collections db)))"
  obtain r d where d: "Exec ?upd db = (r, d)" by fastforce
  have "foreign L d = foreign L db"
    by (rule foreign_Exec [OF _ d]) (auto intro!: foreign_same_rows simp: filter_map_other)
  then show ?thesis using d by (auto simp: collection_Rename_def split: option.split sum.split)
qed

text \<open>A library's collection operations cannot touch another library's collections.  Saving,
  deleting or renaming a collection and adding or removing a member on behalf of one library
  leaves every collection of the other libraries, and its members, exactly as they were, even when
  the id given belongs to another library and wherever the operation breaks off.\<close>

theorem collections_are_isolated:
  assumes "distinct (map co_id (collections db))"
  shows "foreign L (snd (collection_Save L c db)) = foreign L db
    \<and> foreign L (snd (collection_Delete L i db)) = foreign L db
    \<and> foreign L (snd (collection_AddMember L i w t db)) = foreign L db
    \<and> foreign L (snd (collection_RemoveMember L i w db)) = foreign L db
    \<and> foreign L (snd (collection_Rename L i name db)) = foreign L db"
  using foreign_Save foreign_Delete foreign_member_ops foreign_Rename assms by blast

theorem collections_are_isolated_witness:
  "foreign ''A'' (snd (collection_Delete ''A'' ''c''
     ((empty_database [''A'', ''B''])\<lparr>collections := [\<lparr> co_id = ''c'', co_name = ''Poems'', co_library_id = ''B'' \<rparr>]\<rparr>)))
   = ([\<lparr> co_id = ''c'', co_name = ''Poems'', co_library_id = ''B'' \<rparr>], [])"
proof -
  let ?db = "(empty_database [''A'', ''B''])
      \<lparr>collections := [\<lparr> co_id = ''c'', co_name = ''Poems'', co_library_id = ''B'' \<rparr>]\<rparr>"
  have "foreign ''A'' (snd (collection_Delete ''A'' ''c'' ?db)) = foreign ''A'' ?db"
    using collections_are_isolated [of ?db "''A''"] by (simp add: empty_database_def)
  also have "\<dots> = ([\<lparr> co_id = ''c'', co_name = ''Poems'', co_library_id = ''B'' \<rparr>], [])"
    by (simp add: foreign_def empty_database_def)
  finally show ?thesis .
qed

section \<open>Offerings are identified by source, edition and format\<close>

definition offerings_inv :: "database \<Rightarrow> bool" where
  "offerings_inv db \<longleftrightarrow> distinct (map offering_key (source_offerings db))
     \<and> distinct (map of_id (source_offerings db))"

lemma offering_key_update [simp]:
  "offering_key (x\<lparr>of_reference_id := a, of_size_bytes := b, of_observed_at := c\<rparr>) = offering_key x"
  by (simp add: offering_key_def)

lemma map_key_update:
  "map offering_key (map (\<lambda>x. if P x then x\<lparr>of_reference_id := a, of_size_bytes := b, of_observed_at := c\<rparr> else x) rs)
   = map offering_key rs"
  "map of_id (map (\<lambda>x. if P x then x\<lparr>of_reference_id := a, of_size_bytes := b, of_observed_at := c\<rparr> else x) rs)
   = map of_id rs"
  by (induction rs) simp_all

text \<open>Observing an offering again does not duplicate it.  A successful \<open>Save\<close> leaves exactly one
  row for the offering's source, edition and format, holding the new reference, size and time, and
  a row that was already there keeps its id, so that ids held by callers stay valid.\<close>

theorem offering_Save_keeps_identity:
  assumes "offerings_inv db" "offering_Save off db = (None, db')"
  shows "offerings_inv db'
    \<and> (\<exists>r \<in> set (source_offerings db'). offering_key r = UniquenessKey off
         \<and> of_reference_id r = fr_ReferenceID (so_fileReference off)
         \<and> of_size_bytes r = fr_SizeBytes (so_fileReference off)
         \<and> of_observed_at r = timestamptz (so_observedAt off)
         \<and> of_id r = (case List.find (\<lambda>x. offering_key x = UniquenessKey off) (source_offerings db) of
              Some old \<Rightarrow> of_id old | None \<Rightarrow> so_id off))"
proof -
  let ?r = "offering_row_of off"
  let ?t = "source_offerings db"
  have key: "offering_key ?r = UniquenessKey off"
    by (simp add: offering_key_def offering_row_of_def UniquenessKey_def)
  obtain d n where d: "upsert_offering ?r db = Inr (d, n)" and db': "db' = tick d"
    using assms(2) unfolding offering_Save_def by (rule exec_one_ok)
  have so: "source_offerings db' = source_offerings d" unfolding db' by (simp add: tick_def)
  show ?thesis
  proof (cases "List.find (\<lambda>x. offering_key x = UniquenessKey off) ?t")
    case None
    then have new: "offering_key ?r \<notin> offering_key ` set ?t" by (auto simp: find_None_iff key)
    then have t': "source_offerings d = ?t @ [?r]" "of_id ?r \<notin> of_id ` set ?t"
      using d by (auto simp: upsert_offering_def split: if_splits)
    show ?thesis
      using assms(1) new None unfolding offerings_inv_def so t'(1)
      by (auto simp: key t'(2)) (use t'(2) in \<open>auto simp: offering_row_of_def image_iff\<close>)
  next
    case (Some old)
    then have old: "old \<in> set ?t" "offering_key old = UniquenessKey off"
      by (auto simp: find_Some_iff)
    let ?f = "\<lambda>x. if offering_key x = offering_key ?r
               then x\<lparr>of_reference_id := of_reference_id ?r, of_size_bytes := of_size_bytes ?r,
                      of_observed_at := of_observed_at ?r\<rparr> else x"
    have "offering_key ?r \<in> offering_key ` set ?t" using old key by (metis imageI)
    then have t': "source_offerings d = map ?f ?t"
      using d by (auto simp: upsert_offering_def)
    have "offerings_inv db'"
      using assms(1) unfolding offerings_inv_def so t' map_key_update .
    moreover have "?f old \<in> set (source_offerings db')" unfolding so t' using old(1) by simp
    ultimately show ?thesis
      using Some old(2) key by (auto simp: offering_row_of_def intro!: bexI [of _ "?f old"])
  qed
qed

theorem offering_Save_keeps_identity_witness:
  "\<exists>db'. offering_Save \<lparr> so_id = ''new'', so_sourceID = ''s'', so_editionID = ''e'',
        so_fileReference = \<lparr> fr_ReferenceID = ''g'', fr_Format = ''epub'', fr_SizeBytes = Some 5 \<rparr>,
        so_observedAt = 2000 \<rparr>
      ((empty_database [''L''])\<lparr>source_offerings := [\<lparr> of_id = ''o'', of_source_id = ''s'', of_edition_id = ''e'',
        of_reference_id = ''f'', of_format = ''epub'', of_size_bytes = None, of_observed_at = 0 \<rparr>]\<rparr>) = (None, db')
    \<and> offerings_inv db' \<and> (\<exists>r \<in> set (source_offerings db'). of_id r = ''o'')"
proof -
  let ?off = "\<lparr> so_id = ''new'', so_sourceID = ''s'', so_editionID = ''e'',
        so_fileReference = \<lparr> fr_ReferenceID = ''g'', fr_Format = ''epub'', fr_SizeBytes = Some 5 \<rparr>,
        so_observedAt = 2000 \<rparr>"
  let ?db = "(empty_database [''L''])\<lparr>source_offerings := [\<lparr> of_id = ''o'', of_source_id = ''s'',
        of_edition_id = ''e'', of_reference_id = ''f'', of_format = ''epub'', of_size_bytes = None,
        of_observed_at = 0 \<rparr>]\<rparr>"
  obtain db' where sv: "offering_Save ?off ?db = (None, db')"
    by (auto simp: offering_Save_def exec_one_def Exec_def upsert_offering_def offering_key_def
        offering_row_of_def connected_def empty_database_def)
  have "offerings_inv ?db" by (simp add: offerings_inv_def empty_database_def)
  from offering_Save_keeps_identity [OF this sv] show ?thesis
    using sv by (auto simp: UniquenessKey_def offering_key_def empty_database_def)
qed

end
