(* ===== verification/Go_Base64.thy ===== *)
theory Go_Base64
  imports Prelude
begin

text \<open>
  \<open>base64.RawURLEncoding\<close> of Go's \<open>encoding/base64\<close>: the URL alphabet without padding.  The
  decoder skips carriage returns and line feeds, rejects any other character outside the alphabet
  and a final group of a single character, and ignores the unused low bits of a final partial
  group, as the standard library's non-strict decoder does.
\<close>

definition b64_alphabet :: string where
  "b64_alphabet = ''ABCDEFGHIJKLMNOPQRSTUVWXYZabcdefghijklmnopqrstuvwxyz0123456789-_''"

definition enc6 :: "nat \<Rightarrow> char" where
  "enc6 n = b64_alphabet ! n"

fun index_of :: "'a \<Rightarrow> 'a list \<Rightarrow> nat option" where
  "index_of x [] = None"
| "index_of x (y # ys) = (if x = y then Some 0 else map_option Suc (index_of x ys))"

definition dec6 :: "char \<Rightarrow> nat option" where
  "dec6 c = index_of c b64_alphabet"

abbreviation byte_val :: "char \<Rightarrow> nat" where
  "byte_val c \<equiv> of_char c"

fun EncodeToString :: "string \<Rightarrow> string" where
  "EncodeToString [] = []"
| "EncodeToString [a] = [enc6 (byte_val a div 4), enc6 (byte_val a mod 4 * 16)]"
| "EncodeToString [a, b] =
     [enc6 (byte_val a div 4), enc6 (byte_val a mod 4 * 16 + byte_val b div 16),
      enc6 (byte_val b mod 16 * 4)]"
| "EncodeToString (a # b # c # r) =
     enc6 (byte_val a div 4) # enc6 (byte_val a mod 4 * 16 + byte_val b div 16)
     # enc6 (byte_val b mod 16 * 4 + byte_val c div 64) # enc6 (byte_val c mod 64) # EncodeToString r"

fun decode_groups :: "nat list \<Rightarrow> string option" where
  "decode_groups [] = Some []"
| "decode_groups [v] = None"
| "decode_groups [v, w] = Some [char_of (v * 4 + w div 16)]"
| "decode_groups [v, w, x] = Some [char_of (v * 4 + w div 16), char_of (w mod 16 * 16 + x div 4)]"
| "decode_groups (v # w # x # y # r) =
     map_option (\<lambda>s. char_of (v * 4 + w div 16) # char_of (w mod 16 * 16 + x div 4)
         # char_of (x mod 4 * 64 + y) # s)
       (decode_groups r)"

fun all_Some :: "'a option list \<Rightarrow> 'a list option" where
  "all_Some [] = Some []"
| "all_Some (None # r) = None"
| "all_Some (Some x # r) = map_option ((#) x) (all_Some r)"

definition DecodeString :: "string \<Rightarrow> string option" where
  "DecodeString s =
     (case all_Some (map dec6 (filter (\<lambda>c. c \<noteq> CHR 0x0A \<and> c \<noteq> CHR 0x0D) s)) of
        None \<Rightarrow> None
      | Some vs \<Rightarrow> decode_groups vs)"

section \<open>Round trip\<close>

lemma enc6_ok_all:
  "list_all (\<lambda>n. dec6 (enc6 n) = Some n \<and> enc6 n \<noteq> CHR 0x0A \<and> enc6 n \<noteq> CHR 0x0D) [0..<64]"
  by code_simp

lemma enc6_ok [simp]:
  "n < 64 \<Longrightarrow> dec6 (enc6 n) = Some n"
  "n < 64 \<Longrightarrow> enc6 n \<noteq> CHR 0x0A"
  "n < 64 \<Longrightarrow> enc6 n \<noteq> CHR 0x0D"
  using enc6_ok_all by (auto simp: list_all_iff)

text \<open>The six-bit values of a byte string.\<close>

fun sextets :: "nat list \<Rightarrow> nat list" where
  "sextets [] = []"
| "sextets [a] = [a div 4, a mod 4 * 16]"
| "sextets [a, b] = [a div 4, a mod 4 * 16 + b div 16, b mod 16 * 4]"
| "sextets (a # b # c # r) =
     a div 4 # (a mod 4 * 16 + b div 16) # (b mod 16 * 4 + c div 64) # (c mod 64) # sextets r"

lemma EncodeToString_sextets: "EncodeToString s = map enc6 (sextets (map of_char s))"
  by (induction s rule: EncodeToString.induct) simp_all

lemma sextets_bound: "\<forall>b \<in> set bs. b < 256 \<Longrightarrow> \<forall>v \<in> set (sextets bs). v < 64"
proof (induction bs rule: sextets.induct)
  case (4 a b c r)
  then show ?case by auto
qed auto

lemma all_Some_map: "(\<And>x. x \<in> set xs \<Longrightarrow> f x = Some (g x)) \<Longrightarrow> all_Some (map f xs) = Some (map g xs)"
  by (induction xs) auto

lemma decode_sextets: "\<forall>b \<in> set bs. b < 256 \<Longrightarrow> decode_groups (sextets bs) = Some (map char_of bs)"
proof (induction bs rule: sextets.induct)
  case (4 a b c r)
  have "a div 4 * 4 + (a mod 4 * 16 + b div 16) div 16 = a"
    "(a mod 4 * 16 + b div 16) mod 16 * 16 + (b mod 16 * 4 + c div 64) div 4 = b"
    "(b mod 16 * 4 + c div 64) mod 4 * 64 + c mod 64 = c"
    using 4 by auto
  with 4 show ?case by simp
next
  case (3 a b)
  have "a div 4 * 4 + (a mod 4 * 16 + b div 16) div 16 = a"
    "(a mod 4 * 16 + b div 16) mod 16 * 16 + (b mod 16 * 4) div 4 = b"
    using 3 by auto
  then show ?case by simp
qed simp_all

lemma Decode_Encode: "DecodeString (EncodeToString s) = Some s"
proof -
  let ?vs = "sextets (map of_char s :: nat list)"
  have b: "\<forall>x \<in> set (map of_char s :: nat list). x < 256" by auto
  have v: "v < 64" if "v \<in> set ?vs" for v using sextets_bound [OF b] that by blast
  have f: "filter (\<lambda>c. c \<noteq> CHR 0x0A \<and> c \<noteq> CHR 0x0D) (map enc6 ?vs) = map enc6 ?vs"
    using v by (auto simp: filter_id_conv)
  have "all_Some (map (dec6 \<circ> enc6) ?vs) = Some (map (\<lambda>v. v) ?vs)"
    using v by (intro all_Some_map) auto
  then show ?thesis
    unfolding DecodeString_def EncodeToString_sextets f by (simp add: decode_sextets [OF b] comp_def)
qed

lemma EncodeToString_eq_Nil [simp]: "EncodeToString s = [] \<longleftrightarrow> s = []"
  by (cases s rule: EncodeToString.cases) simp_all

end
