(* ===== verification/Library_Query.thy ===== *)
theory Library_Query
  imports Catalog_Safety Postgres_Library Go_Base64 "HOL-Library.List_Lexorder" "HOL-Library.Char_ord"
begin

text \<open>
  Reading a library: the cursors of \<open>internal/domain/library_query.go\<close>, and \<open>QueryLibrary\<close>,
  \<open>FindWorkDetail\<close> (\<open>work_repository.go\<close>) and \<open>FindDetail\<close> (\<open>collection_repository.go\<close>).

  Three things of the database and of package \<open>time\<close> are parameters: the collation \<open>ck\<close>, the
  full-text match \<open>tsmatch\<close> of a row's search vector against a query string, and the pair
  \<open>tfmt\<close>, \<open>tparse\<close> for \<open>time.RFC3339Nano\<close>.
\<close>

section \<open>Cursors\<close>

abbreviation NUL :: char where "NUL \<equiv> CHR 0x00"

definition EncodeTitleCursor :: "string \<Rightarrow> WorkID \<Rightarrow> string" where
  "EncodeTitleCursor title i = EncodeToString (title @ NUL # i)"

definition DecodeTitleCursor :: "string \<Rightarrow> (string \<times> WorkID) result" where
  "DecodeTitleCursor cursor =
     (if cursor = [] then Inl (derr InvalidInput ''invalid cursor'')
      else (case DecodeString cursor of
              None \<Rightarrow> Inl (derr InvalidInput ''invalid cursor'')
            | Some b \<Rightarrow>
               (let parts = split_on NUL b in
                if length parts \<noteq> 2 \<or> parts ! 1 = [] then Inl (derr InvalidInput ''invalid cursor'')
                else Inr (parts ! 0, parts ! 1))))"

definition EncodeAddedAtCursor :: "(instant \<Rightarrow> string) \<Rightarrow> instant \<Rightarrow> WorkID \<Rightarrow> string" where
  "EncodeAddedAtCursor tfmt addedAt i = EncodeToString (tfmt addedAt @ NUL # i)"

definition DecodeAddedAtCursor :: "(string \<Rightarrow> instant option) \<Rightarrow> string \<Rightarrow> (instant \<times> WorkID) result" where
  "DecodeAddedAtCursor tparse cursor =
     (if cursor = [] then Inl (derr InvalidInput ''invalid cursor'')
      else (case DecodeString cursor of
              None \<Rightarrow> Inl (derr InvalidInput ''invalid cursor'')
            | Some b \<Rightarrow>
               (let parts = split_on NUL b in
                if length parts \<noteq> 2 \<or> parts ! 0 = [] \<or> parts ! 1 = []
                then Inl (derr InvalidInput ''invalid cursor'')
                else (case tparse (parts ! 0) of
                        None \<Rightarrow> Inl (derr InvalidInput ''invalid cursor'')
                      | Some t \<Rightarrow> Inr (t, parts ! 1)))))"

lemma split_pair: "NUL \<notin> set a \<Longrightarrow> NUL \<notin> set b \<Longrightarrow> split_on NUL (a @ NUL # b) = [a, b]"
  by (simp add: split_on_append split_on_no_sep)

lemma title_cursor_roundtrip:
  assumes "NUL \<notin> set title" "NUL \<notin> set i" "i \<noteq> []"
  shows "DecodeTitleCursor (EncodeTitleCursor title i) = Inr (title, i)"
  using assms by (simp add: DecodeTitleCursor_def EncodeTitleCursor_def Decode_Encode split_pair)

lemma added_at_cursor_roundtrip:
  assumes "NUL \<notin> set i" "i \<noteq> []" "NUL \<notin> set (tfmt t)" "tfmt t \<noteq> []" "tparse (tfmt t) = Some t"
  shows "DecodeAddedAtCursor tparse (EncodeAddedAtCursor tfmt t i) = Inr (t, i)"
  using assms by (simp add: DecodeAddedAtCursor_def EncodeAddedAtCursor_def Decode_Encode split_pair)

lemma EncodeTitleCursor_nonempty [simp]: "EncodeTitleCursor t i \<noteq> []"
  by (simp add: EncodeTitleCursor_def)

lemma EncodeAddedAtCursor_nonempty [simp]: "EncodeAddedAtCursor tfmt t i \<noteq> []"
  by (simp add: EncodeAddedAtCursor_def)

section \<open>The page query\<close>

text \<open>The full-text matches of a work's and of an author's search vector.\<close>

type_synonym text_match = "(work_row \<Rightarrow> string \<Rightarrow> bool) \<times> (author_row \<Rightarrow> string \<Rightarrow> bool)"

record LibraryQuery =
  lq_Cursor :: string
  lq_Limit :: int
  lq_Q :: string
  lq_Filter :: string
  lq_Sort :: string
  lq_LibraryID :: LibraryID

record CollectionRef =
  cf_ID :: CollectionID
  cf_Name :: string
  cf_AddedAt :: instant

record WorkSummary =
  ws_ID :: WorkID
  ws_Title :: string
  ws_Subtitle :: string
  ws_Authors :: "string list"
  ws_IsOwned :: bool
  ws_Collections :: "CollectionRef list"
  ws_AddedAt :: "instant option"

record LibraryPage =
  lp_Works :: "WorkSummary list"
  lp_NextCursor :: string

text \<open>The subqueries: entries of a work in a library, and its memberships in the library's collections.\<close>

definition owned_times :: "database \<Rightarrow> LibraryID \<Rightarrow> WorkID \<Rightarrow> instant list" where
  "owned_times db L w =
     concat (map (\<lambda>e. map en_added_at (filter (\<lambda>r. en_edition_id r = ed_id e \<and> en_library_id r = L)
         (library_entries db)))
       (filter (\<lambda>e. ed_work_id e = w) (editions db)))"

definition memberships :: "database \<Rightarrow> LibraryID \<Rightarrow> WorkID \<Rightarrow> (collection_row \<times> member_row) list" where
  "memberships db L w =
     concat (map (\<lambda>m. map (\<lambda>c. (c, m)) (filter (\<lambda>c. co_id c = me_collection_id m \<and> co_library_id c = L)
         (collections db)))
       (filter (\<lambda>m. me_work_id m = w) (collection_members db)))"

definition effective_added_at :: "database \<Rightarrow> LibraryID \<Rightarrow> WorkID \<Rightarrow> instant option" where
  "effective_added_at db L w =
     (case owned_times db L w of
        t # ts \<Rightarrow> Some (foldl min t ts)
      | [] \<Rightarrow> (case memberships db L w of
          [] \<Rightarrow> None
        | (c, m) # ms \<Rightarrow> Some (foldl max (me_added_at m) (map (me_added_at \<circ> snd) ms))))"

definition in_pool ::
  "text_match \<Rightarrow> database \<Rightarrow> LibraryID \<Rightarrow> string \<Rightarrow> string \<Rightarrow> work_row \<Rightarrow> bool" where
  "in_pool tsmatch db L filt q w \<longleftrightarrow>
     (let owned = owned_times db L (wk_id w) \<noteq> []; wanted = memberships db L (wk_id w) \<noteq> [] in
      (filt = ''owned'' \<and> owned) \<or> (filt = ''wanted'' \<and> wanted \<and> \<not> owned)
      \<or> (filt = ''all'' \<and> (owned \<or> wanted)))
     \<and> (q = [] \<or> fst tsmatch w q
        \<or> list_ex (\<lambda>(i, a). i = wk_id w \<and> list_ex (\<lambda>r. au_id r = a \<and> snd tsmatch r q) (authors db))
             (work_authors db))"

definition author_names :: "(string \<Rightarrow> 'k :: linorder) \<Rightarrow> database \<Rightarrow> WorkID \<Rightarrow> string list" where
  "author_names ck db w =
     concat (map (\<lambda>a. map au_name (filter (\<lambda>r. au_id r = a) (authors db)))
       (sort_key ck (children w (work_authors db))))"

definition collection_refs :: "database \<Rightarrow> LibraryID \<Rightarrow> WorkID \<Rightarrow> CollectionRef list" where
  "collection_refs db L w =
     map (\<lambda>(c, m). \<lparr> cf_ID = co_id c, cf_Name = co_name c, cf_AddedAt = me_added_at m \<rparr>)
       (sort_key (\<lambda>(c, m). - me_added_at m) (memberships db L w))"

definition summary_of ::
  "(string \<Rightarrow> 'k :: linorder) \<Rightarrow> database \<Rightarrow> LibraryID \<Rightarrow> work_row \<Rightarrow> WorkSummary" where
  "summary_of ck db L w =
     \<lparr> ws_ID = wk_id w, ws_Title = wk_title w, ws_Subtitle = wk_subtitle w,
       ws_Authors = author_names ck db (wk_id w), ws_IsOwned = (owned_times db L (wk_id w) \<noteq> []),
       ws_Collections = collection_refs db L (wk_id w),
       ws_AddedAt = effective_added_at db L (wk_id w) \<rparr>"

text \<open>The two orders.  \<open>effective_added_at\<close> is never null on the pool; null reads as the zero time.\<close>

definition added_key :: "database \<Rightarrow> LibraryID \<Rightarrow> work_row \<Rightarrow> instant" where
  "added_key db L w = (case effective_added_at db L (wk_id w) of None \<Rightarrow> 0 | Some t \<Rightarrow> t)"

definition clamp_limit :: "int \<Rightarrow> nat" where
  "clamp_limit limit = (if limit \<le> 0 then 50 else if limit > 100 then 100 else nat limit)"

text \<open>Defaults for an empty filter, sort or library.\<close>

definition query_library_id :: "LibraryQuery \<Rightarrow> LibraryID" where
  "query_library_id q = (if lq_LibraryID q = [] then DefaultLibraryID else lq_LibraryID q)"

definition by_title :: "LibraryQuery \<Rightarrow> bool" where
  "by_title q \<longleftrightarrow> (if lq_Sort q = [] then ''added_at'' else lq_Sort q) = ''title''"

text \<open>The rows of the pool in the query's order: the query without a cursor.\<close>

definition ordered_pool ::
  "(string \<Rightarrow> 'k :: linorder) \<Rightarrow> text_match \<Rightarrow> database \<Rightarrow> LibraryQuery
   \<Rightarrow> work_row list" where
  "ordered_pool ck tsmatch db q =
     (let filt = (if lq_Filter q = [] then ''all'' else lq_Filter q); L = query_library_id q;
          pool = filter (in_pool tsmatch db L filt (lq_Q q)) (works db) in
      if by_title q then sort_key (\<lambda>w. (ck (wk_title w), ck (wk_id w))) pool
      else rev (sort_key (\<lambda>w. (added_key db L w, ck (wk_id w))) pool))"

text \<open>The rows after the cursor.\<close>

definition library_rows ::
  "(string \<Rightarrow> 'k :: linorder) \<Rightarrow> text_match \<Rightarrow> (string \<Rightarrow> instant option)
   \<Rightarrow> database \<Rightarrow> LibraryQuery \<Rightarrow> work_row list result" where
  "library_rows ck tsmatch tparse db q =
     (let rows = ordered_pool ck tsmatch db q; L = query_library_id q in
      if lq_Cursor q = [] then Inr rows
      else if by_title q then
        (case DecodeTitleCursor (lq_Cursor q) of
           Inl err \<Rightarrow> Inl err
         | Inr (t, i) \<Rightarrow>
             Inr (filter (\<lambda>w. ck t < ck (wk_title w) \<or> ck t = ck (wk_title w) \<and> ck i < ck (wk_id w)) rows))
      else
        (case DecodeAddedAtCursor tparse (lq_Cursor q) of
           Inl err \<Rightarrow> Inl err
         | Inr (t, i) \<Rightarrow>
             Inr (filter (\<lambda>w. added_key db L w < t \<or> added_key db L w = t \<and> ck (wk_id w) < ck i) rows)))"

definition cursor_of :: "(instant \<Rightarrow> string) \<Rightarrow> database \<Rightarrow> LibraryQuery \<Rightarrow> work_row \<Rightarrow> string" where
  "cursor_of tfmt db q w =
     (if by_title q then EncodeTitleCursor (wk_title w) (wk_id w)
      else EncodeAddedAtCursor tfmt (added_key db (query_library_id q) w) (wk_id w))"

definition page_of ::
  "(string \<Rightarrow> 'k :: linorder) \<Rightarrow> (instant \<Rightarrow> string) \<Rightarrow> database \<Rightarrow> LibraryQuery \<Rightarrow> work_row list
   \<Rightarrow> LibraryPage" where
  "page_of ck tfmt db q rows =
     (let limit = clamp_limit (lq_Limit q); fetched = take (limit + 1) rows;
          hasMore = (length fetched > limit); page = (if hasMore then take limit fetched else fetched)
      in \<lparr> lp_Works = map (summary_of ck db (query_library_id q)) page,
           lp_NextCursor = (if hasMore \<and> page \<noteq> [] then cursor_of tfmt db q (last page) else []) \<rparr>)"

definition QueryLibrary ::
  "(string \<Rightarrow> 'k :: linorder) \<Rightarrow> text_match \<Rightarrow> (instant \<Rightarrow> string)
   \<Rightarrow> (string \<Rightarrow> instant option) \<Rightarrow> database \<Rightarrow> LibraryQuery \<Rightarrow> LibraryPage result" where
  "QueryLibrary ck tsmatch tfmt tparse db q =
     (case library_rows ck tsmatch tparse db q of
        Inl err \<Rightarrow> Inl err
      | Inr rows \<Rightarrow>
          (if \<not> connected db then Inl (TranslateError ErrClosed)
           else Inr (page_of ck tfmt db q rows)))"

text \<open>Nothing but the starting point depends on the cursor.\<close>

lemma query_cursor_simps [simp]:
  "by_title (q\<lparr>lq_Cursor := c\<rparr>) = by_title q"
  "query_library_id (q\<lparr>lq_Cursor := c\<rparr>) = query_library_id q"
  by (simp_all add: by_title_def query_library_id_def)

lemma cursor_of_cursor [simp]: "cursor_of tfmt db (q\<lparr>lq_Cursor := c\<rparr>) = cursor_of tfmt db q"
  by (simp add: cursor_of_def fun_eq_iff)

lemma ordered_pool_cursor [simp]: "ordered_pool ck tsmatch db (q\<lparr>lq_Cursor := c\<rparr>) = ordered_pool ck tsmatch db q"
  unfolding ordered_pool_def query_cursor_simps by simp

section \<open>Walking all pages\<close>

text \<open>A client that follows \<open>NextCursor\<close> until it is empty, with at most \<open>n\<close> requests.\<close>

fun all_pages ::
  "(string \<Rightarrow> 'k :: linorder) \<Rightarrow> text_match \<Rightarrow> (instant \<Rightarrow> string)
   \<Rightarrow> (string \<Rightarrow> instant option) \<Rightarrow> database \<Rightarrow> LibraryQuery \<Rightarrow> nat \<Rightarrow> WorkSummary list list result" where
  "all_pages ck tsmatch tfmt tparse db q 0 = Inr []"
| "all_pages ck tsmatch tfmt tparse db q (Suc n) =
     (case QueryLibrary ck tsmatch tfmt tparse db q of
        Inl err \<Rightarrow> Inl err
      | Inr page \<Rightarrow>
         (if lp_NextCursor page = [] then Inr [lp_Works page]
          else (case all_pages ck tsmatch tfmt tparse db (q\<lparr>lq_Cursor := lp_NextCursor page\<rparr>) n of
                  Inl err \<Rightarrow> Inl err
                | Inr rest \<Rightarrow> Inr (lp_Works page # rest))))"

text \<open>
  What the walk needs of the texts and of the parameters: ids are unique, non-empty and, like
  titles, free of NUL bytes (\<open>ValidateBoundedText\<close> rejects them in titles); the collation orders
  different texts differently; times print without NUL and parse back.
\<close>

definition cursor_safe ::
  "(string \<Rightarrow> 'k) \<Rightarrow> (instant \<Rightarrow> string) \<Rightarrow> (string \<Rightarrow> instant option) \<Rightarrow> database \<Rightarrow> bool" where
  "cursor_safe ck tfmt tparse db \<longleftrightarrow> inj ck \<and> distinct (map wk_id (works db))
     \<and> (\<forall>w \<in> set (works db). wk_id w \<noteq> [] \<and> NUL \<notin> set (wk_id w) \<and> NUL \<notin> set (wk_title w))
     \<and> (\<forall>t. NUL \<notin> set (tfmt t) \<and> tfmt t \<noteq> [] \<and> tparse (tfmt t) = Some t)"

lemma sort_key_strict:
  assumes "inj_on f (set xs)" "distinct xs"
  shows "sorted_wrt (\<lambda>a b. f a < f b) (sort_key f xs)"
proof -
  have "distinct (map f (sort_key f xs))" using assms by (simp add: distinct_map)
  then have "sorted_wrt (<) (map f (sort_key f xs))" by (simp add: strict_sorted_iff)
  then show ?thesis by (simp add: sorted_wrt_map)
qed

lemma filter_after:
  assumes "sorted_wrt R (ys @ x # zs)" "\<And>a b. R a b \<Longrightarrow> \<not> R b a"
  shows "filter (R x) (ys @ x # zs) = zs"
proof -
  have "filter (R x) ys = []" "\<not> R x x" "filter (R x) zs = zs"
    using assms by (auto simp: sorted_wrt_append filter_empty_conv filter_id_conv)
  then show ?thesis by simp
qed

text \<open>The order of the query, strictly: \<open>before q a b\<close> when \<open>a\<close> comes first.\<close>

definition before :: "(string \<Rightarrow> 'k :: linorder) \<Rightarrow> database \<Rightarrow> LibraryQuery \<Rightarrow> work_row \<Rightarrow> work_row \<Rightarrow> bool" where
  "before ck db q a b \<longleftrightarrow>
     (if by_title q then (ck (wk_title a), ck (wk_id a)) < (ck (wk_title b), ck (wk_id b))
      else (added_key db (query_library_id q) b, ck (wk_id b)) < (added_key db (query_library_id q) a, ck (wk_id a)))"

lemma ordered_pool_sorted:
  assumes "cursor_safe ck tfmt tparse db"
  shows "sorted_wrt (before ck db q) (ordered_pool ck tsmatch db q)"
proof -
  let ?pool = "filter (in_pool tsmatch db (query_library_id q)
      (if lq_Filter q = [] then ''all'' else lq_Filter q) (lq_Q q)) (works db)"
  have inj: "inj_on (\<lambda>w. (g w, ck (wk_id w))) (set ?pool)" for g :: "work_row \<Rightarrow> 'x"
    using assms by (auto simp: cursor_safe_def inj_on_def distinct_map dest: injD)
  have dis: "distinct ?pool" using assms by (simp add: cursor_safe_def distinct_map)
  show ?thesis
    using sort_key_strict [OF inj dis] sort_key_strict [OF inj dis, THEN sorted_wrt_rev [THEN iffD2, rotated]]
    by (auto simp: ordered_pool_def before_def [abs_def] Let_def sorted_wrt_rev)
qed

lemma ordered_pool_set: "w \<in> set (ordered_pool ck tsmatch db q) \<Longrightarrow> w \<in> set (works db)"
  by (auto simp: ordered_pool_def Let_def split: if_splits)

lemma rows_after_cursor:
  assumes safe: "cursor_safe ck tfmt tparse db" and split: "ordered_pool ck tsmatch db q = ys @ x # zs"
  shows "library_rows ck tsmatch tparse db (q\<lparr>lq_Cursor := cursor_of tfmt db q x\<rparr>) = Inr zs"
proof -
  let ?q = "q\<lparr>lq_Cursor := cursor_of tfmt db q x\<rparr>"
  have same: "by_title ?q = by_title q" "query_library_id ?q = query_library_id q"
      "ordered_pool ck tsmatch db ?q = ys @ x # zs"
    using split by simp_all
  have "x \<in> set (works db)" using ordered_pool_set [of x ck tsmatch db q] split by simp
  then have x: "wk_id x \<noteq> []" "NUL \<notin> set (wk_id x)" "NUL \<notin> set (wk_title x)"
    using safe by (auto simp: cursor_safe_def)
  have inj: "ck a = ck b \<longleftrightarrow> a = b" for a b using safe by (auto simp: cursor_safe_def inj_eq)
  have asym: "before ck db q a b \<Longrightarrow> \<not> before ck db q b a" for a b
    by (auto simp: before_def split: if_splits)
  have "filter (before ck db q x) (ys @ x # zs) = zs"
  proof (rule filter_after)
    show "sorted_wrt (before ck db q) (ys @ x # zs)"
      using ordered_pool_sorted [OF safe, of q tsmatch] split by simp
  qed (rule asym)
  moreover have "library_rows ck tsmatch tparse db ?q = Inr (filter (before ck db q x) (ys @ x # zs))"
  proof (cases "by_title q")
    case True
    have "DecodeTitleCursor (lq_Cursor ?q) = Inr (wk_title x, wk_id x)" "lq_Cursor ?q \<noteq> []"
      using True x by (simp_all add: cursor_of_def title_cursor_roundtrip)
    moreover have "before ck db q x =
        (\<lambda>w. ck (wk_title x) < ck (wk_title w) \<or> ck (wk_title x) = ck (wk_title w) \<and> ck (wk_id x) < ck (wk_id w))"
      using True by (auto simp: before_def fun_eq_iff)
    ultimately show ?thesis
      using True same by (simp add: library_rows_def Let_def)
  next
    case False
    have "DecodeAddedAtCursor tparse (lq_Cursor ?q) = Inr (added_key db (query_library_id q) x, wk_id x)"
        "lq_Cursor ?q \<noteq> []"
      using False x safe by (simp_all add: cursor_of_def added_at_cursor_roundtrip cursor_safe_def)
    moreover have "before ck db q x =
        (\<lambda>w. added_key db (query_library_id q) w < added_key db (query_library_id q) x
           \<or> added_key db (query_library_id q) w = added_key db (query_library_id q) x \<and> ck (wk_id w) < ck (wk_id x))"
      using False by (auto simp: before_def fun_eq_iff)
    ultimately show ?thesis
      using False same by (simp add: library_rows_def Let_def)
  qed
  ultimately show ?thesis by simp
qed

lemma clamp_limit_pos: "0 < clamp_limit l" "clamp_limit l \<le> 100"
  by (auto simp: clamp_limit_def)

text \<open>A page is a prefix of the rows left, and its cursor leads to the rest.\<close>

lemma page_of_cases:
  shows "lp_Works (page_of ck tfmt db q rows)
      = map (summary_of ck db (query_library_id q)) (take (clamp_limit (lq_Limit q)) rows)"
    and "lp_NextCursor (page_of ck tfmt db q rows) =
      (if clamp_limit (lq_Limit q) < length rows
       then cursor_of tfmt db q (rows ! (clamp_limit (lq_Limit q) - 1)) else [])"
proof -
  let ?l = "clamp_limit (lq_Limit q)"
  have l: "0 < ?l" by (rule clamp_limit_pos)
  show "lp_Works (page_of ck tfmt db q rows) = map (summary_of ck db (query_library_id q)) (take ?l rows)"
    by (simp add: page_of_def Let_def min_def)
  show "lp_NextCursor (page_of ck tfmt db q rows) =
      (if ?l < length rows then cursor_of tfmt db q (rows ! (?l - 1)) else [])"
    using l by (auto simp: page_of_def Let_def min_def last_conv_nth)
qed

lemma all_pages_from:
  assumes safe: "cursor_safe ck tfmt tparse db" and up: "connected db"
  shows "ordered_pool ck tsmatch db q = ys @ zs \<Longrightarrow> library_rows ck tsmatch tparse db q = Inr zs \<Longrightarrow>
    length zs < n \<Longrightarrow>
    \<exists>pages. all_pages ck tsmatch tfmt tparse db q n = Inr pages
      \<and> concat pages = map (summary_of ck db (query_library_id q)) zs
      \<and> (\<forall>p \<in> set pages. length p \<le> clamp_limit (lq_Limit q))"
proof (induction n arbitrary: q ys zs)
  case (Suc n)
  let ?l = "clamp_limit (lq_Limit q)"
  let ?sum = "map (summary_of ck db (query_library_id q))"
  let ?page = "page_of ck tfmt db q zs"
  have query: "QueryLibrary ck tsmatch tfmt tparse db q = Inr ?page"
    using Suc.prems up by (simp add: QueryLibrary_def)
  note page = page_of_cases [of ck tfmt db q zs]
  show ?case
  proof (cases "?l < length zs")
    case False
    then show ?thesis using query page by simp
  next
    case True
    let ?x = "zs ! (?l - 1)"
    let ?q = "q\<lparr>lq_Cursor := cursor_of tfmt db q ?x\<rparr>"
    have l: "0 < ?l" by (rule clamp_limit_pos)
    have zs: "zs = take (?l - 1) zs @ ?x # drop ?l zs"
      using True l id_take_nth_drop [of "?l - 1" zs] by simp
    then have pool: "ordered_pool ck tsmatch db q = (ys @ take (?l - 1) zs) @ ?x # drop ?l zs"
      using Suc.prems(1) by simp
    have "library_rows ck tsmatch tparse db ?q = Inr (drop ?l zs)"
      using safe pool by (rule rows_after_cursor)
    moreover have "ordered_pool ck tsmatch db ?q = (ys @ take ?l zs) @ drop ?l zs"
      using Suc.prems(1) by simp
    moreover have "length (drop ?l zs) < n" using True l Suc.prems(3) by simp
    ultimately obtain pages where "all_pages ck tsmatch tfmt tparse db ?q n = Inr pages"
        "concat pages = ?sum (drop ?l zs)" "\<forall>p \<in> set pages. length p \<le> ?l"
      using Suc.IH [of ?q "ys @ take ?l zs" "drop ?l zs"] by auto
    moreover have "lp_NextCursor ?page = cursor_of tfmt db q ?x" "lp_NextCursor ?page \<noteq> []"
      using page(2) True by (simp_all add: cursor_of_def)
    moreover have "?sum zs = ?sum (take ?l zs) @ ?sum (drop ?l zs)"
      by (simp flip: map_append)
    ultimately show ?thesis using query page(1) by simp
  qed
qed simp

text \<open>C32: Following \<open>NextCursor\<close> until it is empty returns every work of the filtered library exactly
  once, in the query's order, in pages of at most the clamped limit, and ends after at most one
  request more than there are works.  This holds for both sort orders, for any filter and search,
  on a store that does not change meanwhile.\<close>

theorem pages_cover_library:
  assumes "cursor_safe ck tfmt tparse db" "connected db" "lq_Cursor q = []"
    and "length (ordered_pool ck tsmatch db q) < n"
  shows "\<exists>pages. all_pages ck tsmatch tfmt tparse db q n = Inr pages
    \<and> concat pages = map (summary_of ck db (query_library_id q)) (ordered_pool ck tsmatch db q)
    \<and> (\<forall>p \<in> set pages. length p \<le> clamp_limit (lq_Limit q))
    \<and> distinct (map ws_ID (concat pages))"
proof -
  let ?rows = "ordered_pool ck tsmatch db q"
  have "library_rows ck tsmatch tparse db q = Inr ?rows" using assms(3) by (simp add: library_rows_def)
  from all_pages_from [OF assms(1,2) _ this assms(4), of "[]"] obtain pages
    where p: "all_pages ck tsmatch tfmt tparse db q n = Inr pages"
      "concat pages = map (summary_of ck db (query_library_id q)) ?rows"
      "\<forall>p \<in> set pages. length p \<le> clamp_limit (lq_Limit q)"
    by auto
  have "distinct (map wk_id ?rows)"
    using assms(1) by (auto simp: cursor_safe_def ordered_pool_def Let_def distinct_map
        intro: inj_on_subset simp flip: rev_map)
  then have "distinct (map ws_ID (concat pages))" by (simp add: p(2) summary_of_def comp_def)
  with p show ?thesis by blast
qed

section \<open>Details, and what they disclose\<close>

record OwnedEdition =
  oe_ID :: EditionID
  oe_Language :: string
  oe_ISBN :: "string option"
  oe_Publisher :: string
  oe_PublicationYear :: "int option"
  oe_AddedAt :: instant
  oe_Formats :: "string list"

record WorkDetail =
  wd_ID :: WorkID
  wd_Title :: string
  wd_Subtitle :: string
  wd_Authors :: "string list"
  wd_Subjects :: "string list"
  wd_OriginalLanguage :: "Language option"
  wd_OwnedEditions :: "OwnedEdition list"
  wd_Collections :: "CollectionRef list"

definition owned_editions ::
  "(string \<Rightarrow> 'k :: linorder) \<Rightarrow> database \<Rightarrow> LibraryID \<Rightarrow> WorkID \<Rightarrow> OwnedEdition list" where
  "owned_editions ck db L w =
     map (\<lambda>(e, r). \<lparr> oe_ID = ed_id e, oe_Language = ed_language e, oe_ISBN = ed_isbn e,
           oe_Publisher = ed_publisher e, oe_PublicationYear = ed_publication_year e,
           oe_AddedAt = en_added_at r,
           oe_Formats = sort_key ck (remdups (map of_format
             (filter (\<lambda>x. of_edition_id x = ed_id e) (source_offerings db)))) \<rparr>)
       (sort_key (\<lambda>(e, r). - en_added_at r)
         (concat (map (\<lambda>e. map (Pair e) (filter (\<lambda>r. en_edition_id r = ed_id e \<and> en_library_id r = L)
             (library_entries db)))
           (filter (\<lambda>e. ed_work_id e = w) (editions db)))))"

definition FindWorkDetail ::
  "(string \<Rightarrow> 'k :: linorder) \<Rightarrow> database \<Rightarrow> WorkID \<Rightarrow> LibraryID \<Rightarrow> WorkDetail result" where
  "FindWorkDetail ck db i libraryID =
     (let L = (if libraryID = [] then DefaultLibraryID else libraryID) in
      if \<not> connected db then Inl (TranslateError ErrClosed)
      else (case row_by wk_id i (works db) of
              None \<Rightarrow> Inl (derr NotFound ''work not found'')
            | Some w \<Rightarrow>
                (if owned_times db L i = [] \<and> memberships db L i = [] then
                   Inl (derr NotFound ''work not found'')
                 else (case optR NewLanguage (wk_original_language w) of
                         Inl err \<Rightarrow> Inl (TranslateError err)
                       | Inr ol \<Rightarrow>
                           Inr \<lparr> wd_ID = i, wd_Title = wk_title w, wd_Subtitle = wk_subtitle w,
                                 wd_Authors = author_names ck db i,
                                 wd_Subjects = sort_key ck (children i (work_subjects db)),
                                 wd_OriginalLanguage = ol, wd_OwnedEditions = owned_editions ck db L i,
                                 wd_Collections = collection_refs db L i \<rparr>))))"

text \<open>
  \<open>FindDetail\<close> of a collection.  The subqueries for \<open>is_owned\<close> and \<open>collections\<close> of a member
  work carry no library condition.
\<close>

definition owned_anywhere :: "database \<Rightarrow> WorkID \<Rightarrow> bool" where
  "owned_anywhere db w \<longleftrightarrow>
     list_ex (\<lambda>e. ed_work_id e = w \<and> list_ex (\<lambda>r. en_edition_id r = ed_id e) (library_entries db)) (editions db)"

definition collection_refs_anywhere :: "database \<Rightarrow> WorkID \<Rightarrow> CollectionRef list" where
  "collection_refs_anywhere db w =
     map (\<lambda>(c, m). \<lparr> cf_ID = co_id c, cf_Name = co_name c, cf_AddedAt = me_added_at m \<rparr>)
       (sort_key (\<lambda>(c, m). - me_added_at m)
         (concat (map (\<lambda>m. map (\<lambda>c. (c, m)) (filter (\<lambda>c. co_id c = me_collection_id m) (collections db)))
           (filter (\<lambda>m. me_work_id m = w) (collection_members db)))))"

record CollectionDetail =
  cd_ID :: CollectionID
  cd_Name :: string
  cd_Works :: "WorkSummary list"

definition collection_FindDetail ::
  "(string \<Rightarrow> 'k :: linorder) \<Rightarrow> database \<Rightarrow> LibraryID \<Rightarrow> CollectionID \<Rightarrow> CollectionDetail result" where
  "collection_FindDetail ck db L i =
     (if \<not> connected db then Inl (TranslateError ErrClosed)
      else (case List.find (in_library L i) (collections db) of
              None \<Rightarrow> Inl (derr NotFound ''collection not found'')
            | Some c \<Rightarrow>
                Inr \<lparr> cd_ID = i, cd_Name = co_name c,
                      cd_Works = concat (map (\<lambda>m. map (\<lambda>w.
                          \<lparr> ws_ID = wk_id w, ws_Title = wk_title w, ws_Subtitle = wk_subtitle w,
                            ws_Authors = author_names ck db (wk_id w),
                            ws_IsOwned = owned_anywhere db (wk_id w),
                            ws_Collections = collection_refs_anywhere db (wk_id w),
                            ws_AddedAt = Some (me_added_at m) \<rparr>)
                          (filter (\<lambda>w. wk_id w = me_work_id m) (works db)))
                        (sort_key (\<lambda>m. - me_added_at m)
                          (filter (\<lambda>m. me_collection_id m = i) (collection_members db)))) \<rparr>))"

text \<open>What the store holds for one library: the shared catalogue, and that library's own rows.\<close>

definition library_view :: "LibraryID \<Rightarrow> database \<Rightarrow> database" where
  "library_view L db =
     (let cs = filter (\<lambda>c. co_library_id c = L) (collections db) in
      db\<lparr>library_entries := filter (\<lambda>r. en_library_id r = L) (library_entries db),
         collections := cs,
         collection_members := filter (\<lambda>m. me_collection_id m \<in> co_id ` set cs) (collection_members db)\<rparr>)"

lemma library_view_tables [simp]:
  "works (library_view L db) = works db" "authors (library_view L db) = authors db"
  "work_authors (library_view L db) = work_authors db" "editions (library_view L db) = editions db"
  "work_subjects (library_view L db) = work_subjects db"
  "source_offerings (library_view L db) = source_offerings db"
  "connected (library_view L db) = connected db"
  by (simp_all add: library_view_def Let_def connected_def)

lemma owned_times_view [simp]: "owned_times (library_view L db) L w = owned_times db L w"
  by (simp add: owned_times_def library_view_def Let_def conj_commute)

lemma concat_map_filter_neutral:
  "(\<And>x. x \<in> set xs \<Longrightarrow> \<not> P x \<Longrightarrow> f x = []) \<Longrightarrow> concat (map f (filter P xs)) = concat (map f xs)"
  by (induction xs) auto

lemma memberships_view [simp]: "memberships (library_view L db) L w = memberships db L w"
proof -
  let ?f = "\<lambda>m. map (\<lambda>c. (c, m)) (filter (\<lambda>c. co_id c = me_collection_id m \<and> co_library_id c = L) (collections db))"
  let ?P = "\<lambda>m. me_collection_id m \<in> co_id ` set (filter (\<lambda>c. co_library_id c = L) (collections db))"
  have "memberships (library_view L db) L w
      = concat (map ?f (filter ?P (filter (\<lambda>m. me_work_id m = w) (collection_members db))))"
    by (simp add: memberships_def library_view_def Let_def conj_ac)
  also have "\<dots> = concat (map ?f (filter (\<lambda>m. me_work_id m = w) (collection_members db)))"
    by (rule concat_map_filter_neutral) (auto simp: filter_empty_conv image_iff)
  finally show ?thesis by (simp add: memberships_def)
qed

lemma library_view_derived [simp]:
  "author_names ck (library_view L db) w = author_names ck db w"
  "collection_refs (library_view L db) L w = collection_refs db L w"
  "effective_added_at (library_view L db) L w = effective_added_at db L w"
  "added_key (library_view L db) L r = added_key db L r"
  unfolding author_names_def collection_refs_def effective_added_at_def added_key_def
    library_view_tables owned_times_view memberships_view by simp_all

lemma summary_view [simp]: "summary_of ck (library_view L db) L = summary_of ck db L"
  by (simp add: summary_of_def fun_eq_iff)

lemma in_pool_view [simp]: "in_pool tsmatch (library_view L db) L f q = in_pool tsmatch db L f q"
  by (simp add: in_pool_def fun_eq_iff)

lemma owned_editions_view [simp]: "owned_editions ck (library_view L db) L w = owned_editions ck db L w"
proof -
  have *: "filter (\<lambda>r. en_edition_id r = ed_id e \<and> en_library_id r = L) (library_entries (library_view L db))
      = filter (\<lambda>r. en_edition_id r = ed_id e \<and> en_library_id r = L) (library_entries db)" for e
    by (simp add: library_view_def Let_def conj_ac)
  show ?thesis unfolding owned_editions_def library_view_tables * ..
qed

lemma QueryLibrary_view:
  assumes "query_library_id q = L"
  shows "QueryLibrary ck tsmatch tfmt tparse (library_view L db) q = QueryLibrary ck tsmatch tfmt tparse db q"
proof -
  have o: "ordered_pool ck tsmatch (library_view L db) q = ordered_pool ck tsmatch db q"
    unfolding ordered_pool_def assms Let_def library_view_tables in_pool_view library_view_derived ..
  have c: "cursor_of tfmt (library_view L db) q = cursor_of tfmt db q"
    by (simp add: cursor_of_def fun_eq_iff assms)
  have r: "library_rows ck tsmatch tparse (library_view L db) q = library_rows ck tsmatch tparse db q"
    unfolding library_rows_def o assms Let_def library_view_derived ..
  have p: "page_of ck tfmt (library_view L db) q = page_of ck tfmt db q"
    unfolding page_of_def [abs_def] assms Let_def c by simp
  show ?thesis unfolding QueryLibrary_def library_view_tables r p ..
qed

text \<open>The library page and the work detail of one library disclose nothing of the others: both
  answer the same on a store from which every entry, collection and membership of all other
  libraries has been removed.\<close>

theorem library_reads_are_scoped:
  "QueryLibrary ck tsmatch tfmt tparse (library_view (query_library_id q) db) q
     = QueryLibrary ck tsmatch tfmt tparse db q
   \<and> FindWorkDetail ck (library_view (if L = [] then DefaultLibraryID else L) db) i L
     = FindWorkDetail ck db i L"
  using QueryLibrary_view [OF refl, of ck tsmatch tfmt tparse q db]
  unfolding FindWorkDetail_def Let_def library_view_tables owned_times_view memberships_view
    library_view_derived owned_editions_view by simp

text \<open>The detail of a collection is not scoped in that way.  There is a store in which it shows
  the name of a collection of another library and that library's ownership of the work.\<close>

theorem collection_detail_discloses_other_library:
  "\<exists>db d w. collection_FindDetail length db ''A'' ''mine'' = Inr d \<and> w \<in> set (cd_Works d)
     \<and> ''Secret'' \<in> cf_Name ` set (ws_Collections w) \<and> ws_IsOwned w
     \<and> filter (\<lambda>r. en_library_id r \<noteq> ''B'') (library_entries db) = []
     \<and> filter (\<lambda>c. co_name c = ''Secret'' \<and> co_library_id c \<noteq> ''B'') (collections db) = []
     \<and> collection_FindDetail length (library_view ''A'' db) ''A'' ''mine'' \<noteq> Inr d"
proof -
  let ?db = "(shelf None [])\<lparr>libraries := map named_library [''A'', ''B''],
      editions := [novel], library_entries := [\<lparr> en_id = ''x'', en_library_id = ''B'', en_edition_id = ''e'', en_added_at = 0 \<rparr>],
      collections := [\<lparr> co_id = ''mine'', co_name = ''Mine'', co_library_id = ''A'' \<rparr>,
                      \<lparr> co_id = ''theirs'', co_name = ''Secret'', co_library_id = ''B'' \<rparr>],
      collection_members := [\<lparr> me_collection_id = ''mine'', me_work_id = ''T'', me_added_at = 0 \<rparr>,
                             \<lparr> me_collection_id = ''theirs'', me_work_id = ''T'', me_added_at = 0 \<rparr>]\<rparr>"
  let ?w = "\<lambda>own cs. \<lparr> ws_ID = ''T'', ws_Title = ''Vol'', ws_Subtitle = [], ws_Authors = [], ws_IsOwned = own,
      ws_Collections = cs, ws_AddedAt = Some 0 \<rparr>"
  let ?mine = "\<lparr> cf_ID = ''mine'', cf_Name = ''Mine'', cf_AddedAt = 0 \<rparr>"
  let ?theirs = "\<lparr> cf_ID = ''theirs'', cf_Name = ''Secret'', cf_AddedAt = 0 \<rparr>"
  let ?d = "\<lambda>w. \<lparr> cd_ID = ''mine'', cd_Name = ''Mine'', cd_Works = [w] \<rparr>"
  note ev = collection_FindDetail_def eval_works in_library_def owned_anywhere_def
    collection_refs_anywhere_def author_names_def children_def novel_def
  have "collection_FindDetail length ?db ''A'' ''mine'' = Inr (?d (?w True [?mine, ?theirs]))"
    by (simp add: ev)
  moreover have "collection_FindDetail length (library_view ''A'' ?db) ''A'' ''mine'' = Inr (?d (?w False [?mine]))"
    by (simp add: ev library_view_def)
  ultimately show ?thesis
    by (intro exI [of _ ?db] exI [of _ "?d (?w True [?mine, ?theirs])"] exI [of _ "?w True [?mine, ?theirs]"])
       simp
qed

section \<open>Concrete parameters\<close>

text \<open>Concrete parameters: byte order as the collation, and times written in unary.\<close>

definition unary_time :: "instant \<Rightarrow> string" where
  "unary_time t = (if t < 0 then CHR ''-'' # replicate (nat (- t)) CHR ''1'' else CHR ''+'' # replicate (nat t) CHR ''1'')"

definition parse_unary :: "string \<Rightarrow> instant option" where
  "parse_unary s = (case s of [] \<Rightarrow> None | c # r \<Rightarrow>
     Some (if c = CHR ''-'' then - int (length r) else int (length r)))"

theorem pages_cover_library_witness:
  "\<exists>pages. all_pages (\<lambda>s. s) (\<lambda>_ _. True, \<lambda>_ _. True) unary_time parse_unary (shelf None [])
      \<lparr> lq_Cursor = [], lq_Limit = 1, lq_Q = [], lq_Filter = [], lq_Sort = ''title'', lq_LibraryID = ''L'' \<rparr> 3
      = Inr pages \<and> distinct (map ws_ID (concat pages))"
proof -
  let ?q = "\<lparr> lq_Cursor = [], lq_Limit = 1, lq_Q = [], lq_Filter = [], lq_Sort = ''title'', lq_LibraryID = ''L'' \<rparr>"
  have "cursor_safe (\<lambda>s. s) unary_time parse_unary (shelf None [])"
    by (auto simp: cursor_safe_def unary_time_def parse_unary_def eval_works)
  moreover have "connected (shelf None [])" by (simp add: eval_works)
  moreover have "length (ordered_pool (\<lambda>s. s) (\<lambda>_ _. True, \<lambda>_ _. True) (shelf None []) ?q) < 3"
  proof -
    have "length (ordered_pool (\<lambda>s. s) (\<lambda>_ _. True, \<lambda>_ _. True) (shelf None []) ?q) \<le> length (works (shelf None []))"
      by (simp add: ordered_pool_def Let_def)
    also have "\<dots> = 2" by (simp add: eval_works)
    finally show ?thesis by simp
  qed
  ultimately show ?thesis using pages_cover_library [of _ _ _ "shelf None []" ?q _ 3] by fastforce
qed

end
