(* ===== verification/Reading_Progress.thy ===== *)
theory Reading_Progress
  imports Domain_Repository Go_Float "HOL-Library.Multiset"
begin

text \<open>
  Reading progress: \<open>percentage.go\<close>, \<open>reading_progress.go\<close>, \<open>reconcile_progress.go\<close>,
  \<open>reading_progress_service.go\<close> of \<open>internal/domain\<close> and \<open>reader/api/progress.go\<close>.  Folding
  reports into the canonical value is a maximum over epoch and percentage; the theorems say what of
  it is independent of the order of arrival, and what is not.
\<close>

section \<open>Percentages\<close>

datatype ReadingStatus = NotStarted | InProgress | Finished

definition NewPercentage :: "float64 \<Rightarrow> float64 result" where
  "NewPercentage value =
     (if flt value (Fin 0) \<or> flt (Fin 1) value
      then Inl (derr InvalidInput ''percentage must be within [0.0, 1.0]'')
      else Inr value)"

definition Status :: "float64 \<Rightarrow> ReadingStatus" where
  "Status p = (if feq p (Fin 0) then NotStarted else if feq p (Fin 1) then Finished else InProgress)"

definition valid_percentage :: "float64 \<Rightarrow> bool" where
  "valid_percentage p \<longleftrightarrow> (\<exists>x. p = Fin x \<and> 0 \<le> x \<and> x \<le> 1)"

lemma valid_percentageI: "0 \<le> x \<Longrightarrow> x \<le> 1 \<Longrightarrow> valid_percentage (Fin x)"
  by (auto simp: valid_percentage_def)

text \<open>The guard lets NaN through, since both comparisons are false.\<close>

lemma NewPercentage_ok_iff: "NewPercentage v = Inr p \<longleftrightarrow> p = v \<and> (valid_percentage v \<or> v = NaN)"
  by (cases v) (auto simp: NewPercentage_def valid_percentage_def)

section \<open>Progress and reports\<close>

record PrecisePosition =
  pp_EditionID :: EditionID
  pp_Value :: string

record ReadingProgress =
  rp_id :: string
  rp_workID :: WorkID
  rp_percentage :: float64
  rp_epoch :: int
  rp_precisePosition :: "PrecisePosition option"
  rp_deviceID :: DeviceID
  rp_observedAt :: instant

record ProgressReport =
  pg_WorkID :: WorkID
  pg_Percentage :: float64
  pg_ObservedEpoch :: int
  pg_PrecisePosition :: "PrecisePosition option"
  pg_DeviceID :: DeviceID
  pg_ReportedAt :: instant

definition NewReadingProgress :: "string \<Rightarrow> WorkID \<Rightarrow> float64 \<Rightarrow> DeviceID \<Rightarrow> instant \<Rightarrow> ReadingProgress" where
  "NewReadingProgress i workID percentage deviceID observedAt =
     \<lparr> rp_id = i, rp_workID = workID, rp_percentage = percentage, rp_epoch = 0,
       rp_precisePosition = None, rp_deviceID = deviceID, rp_observedAt = observedAt \<rparr>"

definition RehydrateReadingProgress ::
  "string \<Rightarrow> WorkID \<Rightarrow> float64 \<Rightarrow> int \<Rightarrow> PrecisePosition option \<Rightarrow> DeviceID \<Rightarrow> instant \<Rightarrow> ReadingProgress" where
  "RehydrateReadingProgress i workID percentage epoch precisePosition deviceID observedAt =
     \<lparr> rp_id = i, rp_workID = workID, rp_percentage = percentage, rp_epoch = epoch,
       rp_precisePosition = precisePosition, rp_deviceID = deviceID, rp_observedAt = observedAt \<rparr>"

datatype ReconcileOutcome = ReconcileAdvanced | ReconcileUnchanged | ReconcileRejected | ReconcileOverridden

definition ReconcileProgress :: "ReadingProgress \<Rightarrow> ProgressReport \<Rightarrow> ReadingProgress \<times> ReconcileOutcome" where
  "ReconcileProgress canonical report =
     (if pg_ObservedEpoch report < rp_epoch canonical then (canonical, ReconcileRejected)
      else if flt (rp_percentage canonical) (pg_Percentage report) then
        (\<lparr> rp_id = rp_id canonical, rp_workID = rp_workID canonical,
           rp_percentage = pg_Percentage report, rp_epoch = rp_epoch canonical,
           rp_precisePosition = pg_PrecisePosition report, rp_deviceID = pg_DeviceID report,
           rp_observedAt = pg_ReportedAt report \<rparr>, ReconcileAdvanced)
      else if feq (pg_Percentage report) (rp_percentage canonical) then (canonical, ReconcileUnchanged)
      else (canonical, ReconcileRejected))"

definition FirstProgress :: "string \<Rightarrow> ProgressReport \<Rightarrow> ReadingProgress" where
  "FirstProgress i report =
     \<lparr> rp_id = i, rp_workID = pg_WorkID report, rp_percentage = pg_Percentage report, rp_epoch = 0,
       rp_precisePosition = pg_PrecisePosition report, rp_deviceID = pg_DeviceID report,
       rp_observedAt = pg_ReportedAt report \<rparr>"

definition OverrideProgress ::
  "ReadingProgress \<Rightarrow> float64 \<Rightarrow> PrecisePosition option \<Rightarrow> DeviceID \<Rightarrow> instant \<Rightarrow> ReadingProgress" where
  "OverrideProgress canonical target position deviceID at' =
     \<lparr> rp_id = rp_id canonical, rp_workID = rp_workID canonical, rp_percentage = target,
       rp_epoch = wrap64 (rp_epoch canonical + 1), rp_precisePosition = position,
       rp_deviceID = deviceID, rp_observedAt = at' \<rparr>"

definition AttachPrecisePosition ::
  "'db EditionRepository \<Rightarrow> 'db \<Rightarrow> ReadingProgress \<Rightarrow> PrecisePosition \<Rightarrow> go_error option \<times> ReadingProgress" where
  "AttachPrecisePosition editions db progress position =
     (case er_FindByID editions db (pp_EditionID position) of
        Inl err \<Rightarrow> (Some err, progress)
      | Inr edition \<Rightarrow>
          (if e_workID edition \<noteq> rp_workID progress then
             (Some (derr InvalidInput
               ''precise position's edition does not belong to this reading progress's work''), progress)
           else (None, progress\<lparr>rp_precisePosition := Some position\<rparr>)))"

definition ErrEditionWorkMismatch :: go_error where
  "ErrEditionWorkMismatch = derr InvalidInput ''precisePosition.editionId does not belong to this work''"

definition CheckPrecisePositionWork ::
  "'db EditionRepository \<Rightarrow> 'db \<Rightarrow> WorkID \<Rightarrow> PrecisePosition option \<Rightarrow> go_error option" where
  "CheckPrecisePositionWork editions db workID pos =
     (case pos of
        None \<Rightarrow> None
      | Some p \<Rightarrow>
         (case er_FindByID editions db (pp_EditionID p) of
            Inl err \<Rightarrow> Some (if CategoryOf err = NotFound then ErrEditionWorkMismatch else err)
          | Inr edition \<Rightarrow> (if e_workID edition \<noteq> workID then Some ErrEditionWorkMismatch else None)))"

section \<open>Folding reports\<close>

definition fold_reports :: "ReadingProgress \<Rightarrow> ProgressReport list \<Rightarrow> ReadingProgress" where
  "fold_reports p rs = foldl (\<lambda>p r. fst (ReconcileProgress p r)) p rs"

lemma reconcile_epoch [simp]: "rp_epoch (fst (ReconcileProgress p r)) = rp_epoch p"
  by (simp add: ReconcileProgress_def)

lemma reconcile_ids [simp]:
  "rp_id (fst (ReconcileProgress p r)) = rp_id p" "rp_workID (fst (ReconcileProgress p r)) = rp_workID p"
  by (simp_all add: ReconcileProgress_def)

text \<open>On valid percentages the fold computes a maximum over the reports that are not behind.\<close>

primrec fin :: "float64 \<Rightarrow> rat" where
  "fin (Fin x) = x"
| "fin NaN = 0"
| "fin PInf = 0"
| "fin NInf = 0"

definition counts :: "int \<Rightarrow> ProgressReport \<Rightarrow> bool" where
  "counts e r \<longleftrightarrow> e \<le> pg_ObservedEpoch r"

lemma reconcile_percentage:
  assumes "valid_percentage (rp_percentage p)" "valid_percentage (pg_Percentage r)"
  shows "rp_percentage (fst (ReconcileProgress p r)) =
    (if counts (rp_epoch p) r then Fin (max (fin (rp_percentage p)) (fin (pg_Percentage r))) else rp_percentage p)"
  using assms by (auto simp: ReconcileProgress_def counts_def valid_percentage_def max_def)

lemma reconcile_valid:
  assumes "valid_percentage (rp_percentage p)" "valid_percentage (pg_Percentage r)"
  shows "valid_percentage (rp_percentage (fst (ReconcileProgress p r)))"
  using assms by (auto simp: ReconcileProgress_def valid_percentage_def)

lemma Max_insert_max: "finite S \<Longrightarrow> Max (insert (max a b) S) = Max (insert a (insert (b :: rat) S))"
  by (cases "S = {}") (simp_all add: max.assoc)

lemma fold_reports_max:
  "valid_percentage (rp_percentage p) \<Longrightarrow> \<forall>r \<in> set rs. valid_percentage (pg_Percentage r) \<Longrightarrow>
   rp_percentage (fold_reports p rs) =
     Fin (Max (insert (fin (rp_percentage p)) ((fin \<circ> pg_Percentage) ` {r \<in> set rs. counts (rp_epoch p) r})))
   \<and> rp_epoch (fold_reports p rs) = rp_epoch p \<and> rp_workID (fold_reports p rs) = rp_workID p
   \<and> rp_id (fold_reports p rs) = rp_id p"
proof (induction rs arbitrary: p)
  case Nil
  then show ?case by (auto simp: fold_reports_def valid_percentage_def)
next
  case (Cons r rs)
  let ?q = "fst (ReconcileProgress p r)"
  let ?S = "(fin \<circ> pg_Percentage) ` {r \<in> set rs. counts (rp_epoch p) r}"
  have fin: "finite ?S" by simp
  have step: "fold_reports p (r # rs) = fold_reports ?q rs" by (simp add: fold_reports_def)
  have q: "valid_percentage (rp_percentage ?q)" using Cons.prems reconcile_valid by simp
  note IH = Cons.IH [OF q] Cons.prems(2)
  have "Max (insert (fin (rp_percentage ?q)) ?S) =
      Max (insert (fin (rp_percentage p)) ((fin \<circ> pg_Percentage) ` {x \<in> set (r # rs). counts (rp_epoch p) x}))"
  proof (cases "counts (rp_epoch p) r")
    case True
    have "{x \<in> set (r # rs). counts (rp_epoch p) x} = insert r {x \<in> set rs. counts (rp_epoch p) x}"
      using True by auto
    then have "(fin \<circ> pg_Percentage) ` {x \<in> set (r # rs). counts (rp_epoch p) x}
        = insert (fin (pg_Percentage r)) ?S" by simp
    moreover have "fin (rp_percentage ?q) = max (fin (rp_percentage p)) (fin (pg_Percentage r))"
      using reconcile_percentage [of p r] Cons.prems True by simp
    ultimately show ?thesis
      using Max_insert_max [OF fin, of "fin (rp_percentage p)" "fin (pg_Percentage r)"] by simp
  next
    case False
    then have "{x \<in> set (r # rs). counts (rp_epoch p) x} = {x \<in> set rs. counts (rp_epoch p) x}" by auto
    then show ?thesis using reconcile_percentage [of p r] Cons.prems False by simp
  qed
  with IH step show ?case by simp
qed

text \<open>C34: Reports may arrive in any order.  Folding the same reports in two different orders into a
  canonical value gives the same percentage and epoch: the greatest valid percentage among the
  canonical one and the reports that have seen its epoch.\<close>

theorem reconcile_order_independent:
  assumes "valid_percentage (rp_percentage p)" "\<forall>r \<in> set rs. valid_percentage (pg_Percentage r)"
    and "mset rs' = mset rs"
  shows "rp_percentage (fold_reports p rs') = rp_percentage (fold_reports p rs)
    \<and> rp_epoch (fold_reports p rs') = rp_epoch (fold_reports p rs)
    \<and> rp_percentage (fold_reports p rs) = Fin (Max (insert (fin (rp_percentage p))
        ((fin \<circ> pg_Percentage) ` {r \<in> set rs. rp_epoch p \<le> pg_ObservedEpoch r})))"
proof -
  have "set rs' = set rs" using assms(3) by (metis set_mset_mset)
  then show ?thesis
    using fold_reports_max [OF assms(1), of rs] fold_reports_max [OF assms(1), of rs'] assms(2)
    by (simp add: counts_def)
qed

definition sample_report :: "rat \<Rightarrow> DeviceID \<Rightarrow> ProgressReport" where
  "sample_report x d = \<lparr> pg_WorkID = ''w'', pg_Percentage = Fin x, pg_ObservedEpoch = 0,
     pg_PrecisePosition = None, pg_DeviceID = d, pg_ReportedAt = 0 \<rparr>"

definition sample_progress :: ReadingProgress where
  "sample_progress = NewReadingProgress ''p'' ''w'' (Fin 0) ''phone'' 0"

theorem reconcile_order_independent_witness:
  "rp_percentage (fold_reports sample_progress [sample_report (1/2) ''a'', sample_report (1/4) ''b''])
   = rp_percentage (fold_reports sample_progress [sample_report (1/4) ''b'', sample_report (1/2) ''a''])"
proof -
  have "valid_percentage (rp_percentage sample_progress)"
    by (simp add: sample_progress_def NewReadingProgress_def valid_percentage_def)
  moreover have "valid_percentage (Fin (1/4))" "valid_percentage (Fin (1/2))"
    by (rule valid_percentageI; simp)+
  then have "\<forall>r \<in> set [sample_report (1/4) ''b'', sample_report (1/2) ''a'']. valid_percentage (pg_Percentage r)"
    by (simp add: sample_report_def)
  ultimately show ?thesis using reconcile_order_independent by (simp add: add_mset_commute)
qed

text \<open>Where a position came from does depend on the order: of two devices that report the same
  percentage, the canonical value keeps the device whose report arrived first.\<close>

lemma reconcile_provenance_depends_on_order:
  "rp_deviceID (fold_reports sample_progress [sample_report (1/2) ''a'', sample_report (1/2) ''b''])
   \<noteq> rp_deviceID (fold_reports sample_progress [sample_report (1/2) ''b'', sample_report (1/2) ''a''])"
  by (simp add: fold_reports_def sample_progress_def NewReadingProgress_def sample_report_def
      ReconcileProgress_def)

text \<open>An override wins and stays.  After \<open>OverrideProgress\<close> (short of the last 64-bit epoch) every
  report from a device that has not seen the new epoch is rejected and leaves the overridden value
  exactly as it is, in whatever number and order such reports arrive.\<close>

theorem override_wins:
  assumes "in_int64 (rp_epoch p + 1)" "\<forall>r \<in> set rs. pg_ObservedEpoch r \<le> rp_epoch p"
  shows "fold_reports (OverrideProgress p x pos d t) rs = OverrideProgress p x pos d t
    \<and> (\<forall>r \<in> set rs. snd (ReconcileProgress (OverrideProgress p x pos d t) r) = ReconcileRejected)"
proof -
  let ?o = "OverrideProgress p x pos d t"
  have e: "rp_epoch ?o = rp_epoch p + 1" using assms(1) by (simp add: OverrideProgress_def wrap64_id)
  have rej: "ReconcileProgress ?o r = (?o, ReconcileRejected)" if "r \<in> set rs" for r
  proof -
    have "pg_ObservedEpoch r \<le> rp_epoch p" using assms(2) that by blast
    then show ?thesis by (simp add: ReconcileProgress_def e)
  qed
  have "foldl (\<lambda>p r. fst (ReconcileProgress p r)) ?o rs' = ?o" if "set rs' \<subseteq> set rs" for rs'
    using that by (induction rs') (simp_all add: rej)
  then show ?thesis using rej by (simp add: fold_reports_def)
qed

theorem override_wins_witness:
  "fold_reports (OverrideProgress sample_progress (Fin 0) None ''tablet'' 9) [sample_report (1/2) ''a'']
   = OverrideProgress sample_progress (Fin 0) None ''tablet'' 9"
  using override_wins [of sample_progress "[sample_report (1/2) ''a'']" "Fin 0" None "''tablet''" 9]
  by (simp add: sample_progress_def NewReadingProgress_def sample_report_def in_int64_def)

section \<open>Reporting progress\<close>

text \<open>The row-locking slice of the repository that \<open>ReportProgress\<close> uses.\<close>

record 'db ProgressStore =
  ps_FindByWorkForUpdate :: "'db \<Rightarrow> WorkID \<Rightarrow> ReadingProgress result"
  ps_Save :: "ReadingProgress \<Rightarrow> 'db command"

definition save_outcome ::
  "'db ProgressStore \<Rightarrow> ReadingProgress \<Rightarrow> ReconcileOutcome \<Rightarrow> 'db
   \<Rightarrow> (ReadingProgress \<times> ReconcileOutcome) result \<times> 'db" where
  "save_outcome store p out db =
     (case ps_Save store p db of (Some err, db') \<Rightarrow> (Inl err, db') | (None, db') \<Rightarrow> (Inr (p, out), db'))"

definition report_body ::
  "'db ProgressStore \<Rightarrow> string \<Rightarrow> ProgressReport \<Rightarrow> bool \<Rightarrow> 'db
   \<Rightarrow> (ReadingProgress \<times> ReconcileOutcome) result \<times> 'db" where
  "report_body store newID report override db =
     (case ps_FindByWorkForUpdate store db (pg_WorkID report) of
        Inl err \<Rightarrow>
          (if CategoryOf err = NotFound
           then save_outcome store (FirstProgress newID report) ReconcileAdvanced db
           else (Inl err, db))
      | Inr current \<Rightarrow>
          (if override then
             save_outcome store
               (OverrideProgress current (pg_Percentage report) (pg_PrecisePosition report)
                 (pg_DeviceID report) (pg_ReportedAt report)) ReconcileOverridden db
           else (case ReconcileProgress current report of
                   (p, out) \<Rightarrow>
                     (if out = ReconcileAdvanced then save_outcome store p out db
                      else (Inr (p, out), db)))))"

definition ReportProgress ::
  "(('db \<Rightarrow> (ReadingProgress \<times> ReconcileOutcome) result \<times> 'db) \<Rightarrow> 'db
     \<Rightarrow> (ReadingProgress \<times> ReconcileOutcome) result \<times> 'db)
   \<Rightarrow> 'db ProgressStore \<Rightarrow> string \<Rightarrow> 'db \<Rightarrow> ProgressReport \<Rightarrow> bool
   \<Rightarrow> (ReadingProgress \<times> ReconcileOutcome) result \<times> 'db" where
  "ReportProgress inTx store newID db report override = inTx (report_body store newID report override) db"

text \<open>What a report does to the canonical value of its work, if there is one.\<close>

definition report_spec ::
  "string \<Rightarrow> ProgressReport \<Rightarrow> bool \<Rightarrow> ReadingProgress option \<Rightarrow> ReadingProgress \<times> ReconcileOutcome" where
  "report_spec newID report override v =
     (case v of
        None \<Rightarrow> (FirstProgress newID report, ReconcileAdvanced)
      | Some p \<Rightarrow>
          (if override then
             (OverrideProgress p (pg_Percentage report) (pg_PrecisePosition report) (pg_DeviceID report)
               (pg_ReportedAt report), ReconcileOverridden)
           else ReconcileProgress p report))"

definition moves :: "ReconcileOutcome \<Rightarrow> bool" where
  "moves out \<longleftrightarrow> out = ReconcileAdvanced \<or> out = ReconcileOverridden"

text \<open>
  The contract of a progress store with an abstract view of its rows: lookups agree with the view,
  and a successful save of a row whose id is free or already its own replaces that work's value.
\<close>

locale progress_store =
  fixes store :: "'db ProgressStore"
    and inv :: "'db \<Rightarrow> bool"
    and view :: "'db \<Rightarrow> WorkID \<Rightarrow> ReadingProgress option"
    and owns :: "'db \<Rightarrow> string \<Rightarrow> WorkID \<Rightarrow> bool"
    and stored :: "ReadingProgress \<Rightarrow> ReadingProgress"
  assumes found: "inv db \<Longrightarrow> ps_FindByWorkForUpdate store db w = Inr p \<Longrightarrow>
      view db w = Some p \<and> rp_workID p = w \<and> owns db (rp_id p) w"
    and missing: "inv db \<Longrightarrow> ps_FindByWorkForUpdate store db w = Inl e \<Longrightarrow> CategoryOf e = NotFound \<Longrightarrow>
      view db w = None"
    and saved: "inv db \<Longrightarrow> ps_Save store p db = (None, db') \<Longrightarrow> owns db (rp_id p) (rp_workID p) \<Longrightarrow>
      inv db' \<and> view db' = (view db)(rp_workID p \<mapsto> stored p)"
begin

lemma save_outcome_ok:
  assumes "inv db" "save_outcome store p out db = (Inr r, db')" "owns db (rp_id p) (rp_workID p)"
  shows "r = (p, out) \<and> inv db' \<and> view db' = (view db)(rp_workID p \<mapsto> stored p)"
  using assms saved by (auto simp: save_outcome_def split: prod.splits option.splits)

lemma report_body_ok:
  assumes inv: "inv db" and ret: "report_body store newID report override db = (Inr (p, out), db')"
    and new: "owns db newID (pg_WorkID report)"
  shows "(p, out) = report_spec newID report override (view db (pg_WorkID report)) \<and> inv db'
    \<and> view db' = (if moves out then (view db)(pg_WorkID report \<mapsto> stored p) else view db)"
proof (cases "ps_FindByWorkForUpdate store db (pg_WorkID report)")
  case (Inl err)
  then have nf: "CategoryOf err = NotFound"
    and sv: "save_outcome store (FirstProgress newID report) ReconcileAdvanced db = (Inr (p, out), db')"
    using ret by (auto simp: report_body_def split: if_splits)
  from save_outcome_ok [OF inv sv] missing [OF inv Inl nf] new show ?thesis
    by (simp add: FirstProgress_def report_spec_def moves_def)
next
  case (Inr current)
  note cur = found [OF inv Inr]
  show ?thesis
  proof (cases override)
    case True
    let ?o = "OverrideProgress current (pg_Percentage report) (pg_PrecisePosition report)
        (pg_DeviceID report) (pg_ReportedAt report)"
    have "save_outcome store ?o ReconcileOverridden db = (Inr (p, out), db')"
      using ret Inr True by (simp add: report_body_def)
    from save_outcome_ok [OF inv this] cur True show ?thesis
      by (simp add: OverrideProgress_def report_spec_def moves_def)
  next
    case False
    obtain q o' where rec: "ReconcileProgress current report = (q, o')" by fastforce
    have ids: "rp_id q = rp_id current" "rp_workID q = rp_workID current"
      using reconcile_ids [of current report] rec by simp_all
    have never: "o' \<noteq> ReconcileOverridden"
      using rec by (auto simp: ReconcileProgress_def split: if_splits)
    show ?thesis
    proof (cases "o' = ReconcileAdvanced")
      case True
      then have "save_outcome store q o' db = (Inr (p, out), db')"
        using ret Inr False rec by (simp add: report_body_def)
      from save_outcome_ok [OF inv this] cur ids rec False True show ?thesis
        by (simp add: report_spec_def moves_def)
    next
      case unmoved: False
      then show ?thesis
        using ret Inr False rec cur inv never by (simp add: report_body_def report_spec_def moves_def)
    qed
  qed
qed

end

end
