(* ===== verification/Postgres_Reading.thy ===== *)
theory Postgres_Reading
  imports Postgres_Catalog Reading_Progress
begin

text \<open>
  \<open>reading_progress_repository.go\<close> and \<open>scope.go\<close> of \<open>internal/persistence/postgres\<close>: reading
  progress per user and library, and the refinement of \<open>ReportProgress\<close> by the stored rows.
\<close>

text \<open>\<open>appendOwnerScope\<close>: an empty owner compares with NULL, any other by equality.\<close>

definition owner :: "string \<Rightarrow> string option" where
  "owner value = (if value = [] then None else Some value)"

definition in_scope :: "UserID \<Rightarrow> LibraryID \<Rightarrow> WorkID \<Rightarrow> progress_row \<Rightarrow> bool" where
  "in_scope userID libraryID workID r \<longleftrightarrow>
     pr_work_id r = workID \<and> pr_user_id r = owner userID \<and> pr_library_id r = owner libraryID"

definition position_of :: "progress_row \<Rightarrow> PrecisePosition option" where
  "position_of r =
     (case (pr_position_edition_id r, pr_position_value r) of
        (Some e, Some v) \<Rightarrow> Some \<lparr> pp_EditionID = e, pp_Value = v \<rparr>
      | _ \<Rightarrow> None)"

definition progress_of :: "WorkID \<Rightarrow> progress_row \<Rightarrow> ReadingProgress" where
  "progress_of workID r =
     RehydrateReadingProgress (pr_id r) workID (pr_percentage r) (pr_epoch r) (position_of r)
       (pr_device_id r) (pr_observed_at r)"

definition progress_findByWork :: "UserID \<Rightarrow> LibraryID \<Rightarrow> database \<Rightarrow> WorkID \<Rightarrow> ReadingProgress result" where
  "progress_findByWork userID libraryID db workID =
     (if \<not> connected db then Inl (TranslateError ErrClosed)
      else (case List.find (in_scope userID libraryID workID) (reading_progress db) of
              None \<Rightarrow> Inl (derr NotFound ''reading progress not found'')
            | Some r \<Rightarrow>
               (case NewPercentage (pr_percentage r) of
                  Inl err \<Rightarrow> Inl (TranslateError err)
                | Inr pct \<Rightarrow> Inr (progress_of workID r))))"

definition progress_key :: "progress_row \<Rightarrow> string \<times> string \<times> WorkID" where
  "progress_key r =
     ((case pr_user_id r of None \<Rightarrow> [] | Some u \<Rightarrow> u), (case pr_library_id r of None \<Rightarrow> [] | Some l \<Rightarrow> l),
      pr_work_id r)"

text \<open>
  The triggers of \<open>migrations/00011\<close> stamp a written row with the next value of the sequence.  An
  upsert that meets an existing row fires the one for inserts and then the one for updates, so it
  takes two values and stores the second.
\<close>

definition upsert_stamp :: "bool \<Rightarrow> database \<Rightarrow> int" where
  "upsert_stamp exists db = sync_seq db + (if exists then 2 else 1)"

text \<open>The upsert by id, under the references and the unique index on user, library and work.\<close>

definition upsert_progress :: "progress_row \<Rightarrow> statement" where
  "upsert_progress r db =
     (if list_ex (\<lambda>x. pr_id x \<noteq> pr_id r \<and> progress_key x = progress_key r) (reading_progress db)
        then Inl unique_violation
      else if pr_work_id r \<notin> work_ids db
          \<or> (case pr_position_edition_id r of None \<Rightarrow> False | Some e \<Rightarrow> e \<notin> edition_ids db)
          \<or> (case pr_library_id r of None \<Rightarrow> False | Some l \<Rightarrow> l \<notin> library_ids db)
        then Inl foreign_key_violation
      else (let seq = upsert_stamp (pr_id r \<in> pr_id ` set (reading_progress db)) db in
            Inr (db\<lparr>reading_progress := upsert_by pr_id (r\<lparr>pr_sync_sequence := seq\<rparr>) (reading_progress db),
                   sync_seq := seq\<rparr>, 1)))"

definition progress_row_of :: "UserID \<Rightarrow> LibraryID \<Rightarrow> ReadingProgress \<Rightarrow> progress_row" where
  "progress_row_of userID libraryID p =
     \<lparr> pr_id = rp_id p, pr_work_id = rp_workID p, pr_user_id = owner userID,
       pr_library_id = owner libraryID, pr_percentage = rp_percentage p, pr_epoch = rp_epoch p,
       pr_position_edition_id = map_option pp_EditionID (rp_precisePosition p),
       pr_position_value = map_option pp_Value (rp_precisePosition p),
       pr_device_id = rp_deviceID p, pr_observed_at = timestamptz (rp_observedAt p),
       pr_sync_sequence = 0 \<rparr>"

definition progress_SaveForUser :: "UserID \<Rightarrow> LibraryID \<Rightarrow> ReadingProgress \<Rightarrow> database command" where
  "progress_SaveForUser userID libraryID p db =
     exec_one (upsert_progress (progress_row_of userID libraryID p)) db"

definition PgProgressStore :: "UserID \<Rightarrow> LibraryID \<Rightarrow> database ProgressStore" where
  "PgProgressStore u l =
     \<lparr> ps_FindByWorkForUpdate = progress_findByWork u l, ps_Save = progress_SaveForUser u l \<rparr>"

section \<open>The store keeps its contract\<close>

definition progress_inv :: "database \<Rightarrow> bool" where
  "progress_inv db \<longleftrightarrow> distinct (map pr_id (reading_progress db))"

definition progress_view :: "UserID \<Rightarrow> LibraryID \<Rightarrow> database \<Rightarrow> WorkID \<Rightarrow> ReadingProgress option" where
  "progress_view u l db w = map_option (progress_of w) (List.find (in_scope u l w) (reading_progress db))"

text \<open>The id is free, or the row that has it is this user's row for this work.\<close>

definition progress_owns :: "UserID \<Rightarrow> LibraryID \<Rightarrow> database \<Rightarrow> string \<Rightarrow> WorkID \<Rightarrow> bool" where
  "progress_owns u l db i w \<longleftrightarrow>
     (\<forall>r \<in> set (reading_progress db). pr_id r = i \<longrightarrow> in_scope u l w r)"

definition stored_progress :: "ReadingProgress \<Rightarrow> ReadingProgress" where
  "stored_progress p = p\<lparr>rp_observedAt := timestamptz (rp_observedAt p)\<rparr>"

lemma progress_of_row:
  "progress_of (rp_workID p) (progress_row_of u l p) = stored_progress p"
  by (cases "rp_precisePosition p")
     (auto simp: progress_of_def RehydrateReadingProgress_def progress_row_of_def stored_progress_def
       position_of_def)

lemma progress_of_stamped:
  "progress_of w (r\<lparr>pr_sync_sequence := s\<rparr>) = progress_of w r"
  "in_scope u l w (r\<lparr>pr_sync_sequence := s\<rparr>) = in_scope u l w r"
  by (simp_all add: progress_of_def position_of_def in_scope_def)

lemma in_scope_work: "in_scope u l w y \<Longrightarrow> in_scope u l w' y \<longleftrightarrow> w' = w"
  by (auto simp: in_scope_def)

lemma find_scope_upsert:
  assumes "\<forall>x \<in> set t. pr_id x = pr_id r \<longleftrightarrow> in_scope u l w x" "in_scope u l w r"
  shows "List.find (in_scope u l w') (upsert_by pr_id r t) =
    (if w' = w then Some r else List.find (in_scope u l w') t)"
  using assms(1)
proof (induction t)
  case Nil
  then show ?case by (simp add: in_scope_work [OF assms(2)])
next
  case (Cons x t)
  show ?case
  proof (cases "in_scope u l w x")
    case True
    then have "pr_id x = pr_id r" using Cons.prems by simp
    then show ?thesis by (simp add: in_scope_work [OF True] in_scope_work [OF assms(2)])
  next
    case False
    then have "pr_id x \<noteq> pr_id r" using Cons.prems by simp
    then show ?thesis using False Cons by (cases "w' = w") simp_all
  qed
qed

lemma same_key:
  "in_scope u l w r \<Longrightarrow> in_scope u l w x \<Longrightarrow> progress_key x = progress_key r"
  by (auto simp: in_scope_def progress_key_def)

interpretation pgprogress: progress_store "PgProgressStore u l" progress_inv "progress_view u l"
  "progress_owns u l" stored_progress for u l
proof unfold_locales
  show "progress_view u l db w = Some p \<and> rp_workID p = w \<and> progress_owns u l db (rp_id p) w"
    if inv: "progress_inv db" and f: "ps_FindByWorkForUpdate (PgProgressStore u l) db w = Inr p" for db w p
  proof -
    obtain r where r: "List.find (in_scope u l w) (reading_progress db) = Some r" "p = progress_of w r"
      using f by (auto simp: PgProgressStore_def progress_findByWork_def split: if_splits option.splits sum.splits)
    then have "r \<in> set (reading_progress db)" "in_scope u l w r" by (auto simp: find_Some_iff)
    then have "progress_owns u l db (pr_id r) w"
      using inv by (auto simp: progress_owns_def progress_inv_def distinct_map inj_on_def)
    then show ?thesis using r by (simp add: progress_view_def progress_of_def RehydrateReadingProgress_def)
  qed
  show "progress_view u l db w = None"
    if "progress_inv db" "ps_FindByWorkForUpdate (PgProgressStore u l) db w = Inl e" "CategoryOf e = NotFound"
    for db w e
    using that by (auto simp: PgProgressStore_def progress_findByWork_def progress_view_def
        CategoryOf_TranslateError split: if_splits option.splits sum.splits)
  show "progress_inv db' \<and> progress_view u l db' = (progress_view u l db)(rp_workID p \<mapsto> stored_progress p)"
    if inv: "progress_inv db" and sv: "ps_Save (PgProgressStore u l) p db = (None, db')"
      and own: "progress_owns u l db (rp_id p) (rp_workID p)" for db p db'
  proof -
    define row where "row = progress_row_of u l p"
    have sc: "in_scope u l (rp_workID p) row" and i: "pr_id row = rp_id p"
      by (simp_all add: row_def progress_row_of_def in_scope_def)
    obtain d n where d: "upsert_progress row db = Inr (d, n)" and db': "db' = tick d"
      using sv unfolding PgProgressStore_def progress_SaveForUser_def row_def by (auto elim: exec_one_ok)
    have uniq: "pr_id x = pr_id row"
      if "x \<in> set (reading_progress db)" "in_scope u l (rp_workID p) x" for x
      using d that same_key [OF sc] by (auto simp: upsert_progress_def list_ex_iff split: if_splits)
    obtain seq where rows: "reading_progress db' = upsert_by pr_id (row\<lparr>pr_sync_sequence := seq\<rparr>) (reading_progress db)"
      using d db' by (auto simp: upsert_progress_def tick_def Let_def split: if_splits)
    let ?r = "row\<lparr>pr_sync_sequence := seq\<rparr>"
    have ids: "\<forall>x \<in> set (reading_progress db). pr_id x = pr_id ?r \<longleftrightarrow> in_scope u l (rp_workID p) x"
      using own uniq unfolding progress_owns_def i [symmetric] by auto
    have sc': "in_scope u l (rp_workID p) ?r" using sc by (simp add: progress_of_stamped)
    have "progress_view u l db' w = ((progress_view u l db)(rp_workID p \<mapsto> stored_progress p)) w" for w
      using find_scope_upsert [OF ids sc', of w] progress_of_row [of p u l]
      unfolding progress_view_def rows row_def by (simp add: progress_of_stamped)
    then show ?thesis
      using inv rows by (auto simp: progress_inv_def distinct_upsert)
  qed
qed

text \<open>Everything but one user's row for one work of one library is as before.\<close>

definition changes_only :: "UserID \<Rightarrow> LibraryID \<Rightarrow> WorkID \<Rightarrow> database \<Rightarrow> database \<Rightarrow> bool" where
  "changes_only u l w db db' \<longleftrightarrow>
     same_tables (db'\<lparr>reading_progress := reading_progress db\<rparr>) db
     \<and> filter (\<lambda>r. \<not> in_scope u l w r) (reading_progress db') = filter (\<lambda>r. \<not> in_scope u l w r) (reading_progress db)"

lemma changes_only_refl: "changes_only u l w db db"
  by (simp add: changes_only_def same_tables_def)

lemma filter_upsert_other:
  assumes "\<forall>x \<in> set t. key x = key r \<longrightarrow> \<not> P x" "\<not> P r"
  shows "filter P (upsert_by key r t) = filter P t"
  using assms by (induction t) auto

lemma SaveForUser_changes_only:
  assumes "progress_SaveForUser u l p db = (None, db')" "progress_owns u l db (rp_id p) (rp_workID p)"
  shows "changes_only u l (rp_workID p) db db'"
proof -
  let ?row = "progress_row_of u l p"
  obtain d n where d: "upsert_progress ?row db = Inr (d, n)" and db': "db' = tick d"
    using assms(1) unfolding progress_SaveForUser_def by (auto elim: exec_one_ok)
  obtain seq where e: "d = db\<lparr>reading_progress := upsert_by pr_id (?row\<lparr>pr_sync_sequence := seq\<rparr>) (reading_progress db),
      sync_seq := seq\<rparr>"
    using d by (auto simp: upsert_progress_def Let_def split: if_splits)
  have sc: "in_scope u l (rp_workID p) (?row\<lparr>pr_sync_sequence := seq\<rparr>)" "pr_id ?row = rp_id p"
    by (simp_all add: progress_row_of_def in_scope_def)
  have "filter (\<lambda>r. \<not> in_scope u l (rp_workID p) r) (reading_progress d)
      = filter (\<lambda>r. \<not> in_scope u l (rp_workID p) r) (reading_progress db)"
    unfolding e using assms(2) sc by (auto simp: progress_owns_def intro!: filter_upsert_other)
  then show ?thesis unfolding db' e by (simp add: changes_only_def same_tables_def tick_def)
qed

lemma report_changes_only:
  assumes "progress_inv db" "progress_owns u l db newID (pg_WorkID report)"
    and "report_body (PgProgressStore u l) newID report override db = (Inr (p, out), db')"
  shows "changes_only u l (pg_WorkID report) db db'"
proof -
  let ?S = "PgProgressStore u l"
  have sv: "changes_only u l (pg_WorkID report) db db'"
    if "save_outcome ?S q o' db = (Inr (p, out), db')" "progress_owns u l db (rp_id q) (rp_workID q)"
      "rp_workID q = pg_WorkID report" for q o'
    using that SaveForUser_changes_only [of u l q db db']
    by (auto simp: save_outcome_def PgProgressStore_def split: prod.splits option.splits)
  show ?thesis
  proof (cases "ps_FindByWorkForUpdate ?S db (pg_WorkID report)")
    case (Inl err)
    then show ?thesis using assms(2,3) sv [of "FirstProgress newID report"]
      by (auto simp: report_body_def FirstProgress_def split: if_splits)
  next
    case (Inr current)
    note cur = pgprogress.found [OF assms(1) Inr]
    obtain q o' where rec: "ReconcileProgress current report = (q, o')" by fastforce
    have "rp_id q = rp_id current" "rp_workID q = rp_workID current"
      using reconcile_ids [of current report] rec by simp_all
    then show ?thesis using assms(3) Inr cur rec sv [of q] changes_only_refl sv [of "OverrideProgress current
        (pg_Percentage report) (pg_PrecisePosition report) (pg_DeviceID report) (pg_ReportedAt report)"]
      by (auto simp: report_body_def OverrideProgress_def split: if_splits)
  qed
qed

text \<open>C35: Reporting progress refines its specification and is atomic.  For a user and library whose
  rows have distinct ids, and a new id that no row of another user, library or work has, a
  successful \<open>ReportProgress\<close> returns what the specification computes from the stored value, and
  the store then holds that value exactly when the outcome says it moved.  Every row of another
  user, library or work and every other table is as before; a failed report changes no table.\<close>

theorem ReportProgress_refines:
  assumes "progress_inv db" "progress_owns u l db newID (pg_WorkID report)"
  shows "case ReportProgress InTx (PgProgressStore u l) newID db report override of
      (Inl e, db') \<Rightarrow> same_tables db' db
    | (Inr (p, out), db') \<Rightarrow>
        (p, out) = report_spec newID report override (progress_view u l db (pg_WorkID report))
        \<and> progress_inv db'
        \<and> progress_view u l db' = (if moves out
            then (progress_view u l db)(pg_WorkID report \<mapsto> stored_progress p) else progress_view u l db)
        \<and> filter (\<lambda>r. \<not> in_scope u l (pg_WorkID report) r) (reading_progress db')
            = filter (\<lambda>r. \<not> in_scope u l (pg_WorkID report) r) (reading_progress db)
        \<and> same_tables (db'\<lparr>reading_progress := reading_progress db\<rparr>) db"
proof -
  obtain r db' where ret: "ReportProgress InTx (PgProgressStore u l) newID db report override = (r, db')"
    by fastforce
  note tx = ret [unfolded ReportProgress_def]
  show ?thesis
  proof (cases r)
    case (Inl e)
    have "same_tables db' db" by (rule pgtx.failed [OF tx [unfolded Inl]])
    then show ?thesis using ret Inl by simp
  next
    case (Inr po)
    obtain p out where po: "po = (p, out)" by fastforce
    have body: "report_body (PgProgressStore u l) newID report override db = (Inr (p, out), db')"
      by (rule pgtx.committed [OF tx [unfolded Inr po]])
    show ?thesis
      using pgprogress.report_body_ok [OF assms(1) body assms(2)] report_changes_only [OF assms body]
      unfolding ret Inr po sum.case prod.case changes_only_def by blast
  qed
qed

definition reading_shelf :: database where
  "reading_shelf = (empty_database [''L''])
     \<lparr> works := [\<lparr> wk_id = ''w'', wk_title = ''Novel'', wk_subtitle = [], wk_original_language = None,
                  wk_merged_into = None \<rparr>] \<rparr>"

lemma reading_shelf_report:
  "\<exists>db'. ReportProgress InTx (PgProgressStore ''u'' ''L'') ''p'' reading_shelf (sample_report (1/2) ''a'') False
     = (Inr (FirstProgress ''p'' (sample_report (1/2) ''a''), ReconcileAdvanced), db')"
  by (simp add: ReportProgress_def InTx_def report_body_def PgProgressStore_def progress_findByWork_def
      reading_shelf_def empty_database_def connected_def save_outcome_def progress_SaveForUser_def
      exec_one_def Exec_def upsert_progress_def work_ids_def progress_row_of_def FirstProgress_def
      sample_report_def owner_def tick_def Let_def)

theorem ReportProgress_refines_witness:
  "progress_view ''u'' ''L''
     (snd (ReportProgress InTx (PgProgressStore ''u'' ''L'') ''p'' reading_shelf (sample_report (1/2) ''a'') False)) ''w''
   = Some (stored_progress (FirstProgress ''p'' (sample_report (1/2) ''a'')))"
proof -
  have "progress_inv reading_shelf" "progress_owns ''u'' ''L'' reading_shelf ''p'' (pg_WorkID (sample_report (1/2) ''a''))"
    by (simp_all add: progress_inv_def progress_owns_def reading_shelf_def empty_database_def)
  from ReportProgress_refines [OF this, of False] reading_shelf_report show ?thesis
    by (auto simp: sample_report_def moves_def)
qed

end
