(* ===== verification/Device_Pairing.thy ===== *)
theory Device_Pairing
  imports Domain_Catalog Domain_Error Go_Text
begin

text \<open>
  Device pairing: \<open>internal/domain/device_pairing.go\<close> (the pairing code, the pairing session's
  state machine, the paired device) and \<open>internal/pairing/code.go\<close> (the code generator).

  A method with a pointer receiver returns its error and the receiver afterwards, also when it
  fails: a rejected call may still move a stale session to expired.  The bytes of
  \<open>crypto/rand\<close> are an argument of the generator.
\<close>

unbundle bit_operations_syntax

section \<open>The pairing code\<close>

definition ErrInvalidPairingCode :: go_error where
  "ErrInvalidPairingCode = ErrorsNew ''pairing code is malformed''"
definition ErrPairingExpired :: go_error where
  "ErrPairingExpired = ErrorsNew ''pairing session has expired''"
definition ErrPairingWrongState :: go_error where
  "ErrPairingWrongState = ErrorsNew ''pairing session is in the wrong state for this operation''"
definition ErrPairingCodeMismatch :: go_error where
  "ErrPairingCodeMismatch = ErrorsNew ''pairing code does not match''"
definition ErrDeviceRevoked :: go_error where
  "ErrDeviceRevoked = ErrorsNew ''paired device is revoked''"
definition ErrDeviceAlreadyRevoked :: go_error where
  "ErrDeviceAlreadyRevoked = ErrorsNew ''paired device is already revoked''"

definition CrockfordAlphabet :: string where
  "CrockfordAlphabet = ''0123456789ABCDEFGHJKMNPQRSTVWXYZ''"

definition pairingCodeLen :: nat where
  "pairingCodeLen = 8"

record PairingCode =
  pc_b :: string

definition NewPairingCode :: "(rune \<Rightarrow> rune) \<Rightarrow> string \<Rightarrow> PairingCode result" where
  "NewPairingCode cm untrusted =
     (let n = ToUpper cm (remove_byte CHR ''-'' (TrimSpace untrusted)) in
      if length n \<noteq> pairingCodeLen then
        Inl (DomainError InvalidInput (Msg ''pairing code must be %d characters'' [AInt (int pairingCodeLen)])
              (Some ErrInvalidPairingCode))
      else if list_ex (\<lambda>r. r \<notin> set (map byte_of CrockfordAlphabet)) (runes n) then
        Inl (DomainError InvalidInput
              (Msg ''pairing code must use the Crockford base32 alphabet (no I, L, O or U)'' [])
              (Some ErrInvalidPairingCode))
      else Inr \<lparr> pc_b = n \<rparr>)"

text \<open>\<open>subtle.ConstantTimeCompare\<close> returns 1 exactly for equal contents.\<close>

definition Equal :: "PairingCode \<Rightarrow> PairingCode \<Rightarrow> bool" where
  "Equal c other \<longleftrightarrow>
     (if length (pc_b c) \<noteq> pairingCodeLen \<or> length (pc_b other) \<noteq> pairingCodeLen then False
      else pc_b c = pc_b other)"

definition Display :: "PairingCode \<Rightarrow> string" where
  "Display c = (if length (pc_b c) \<noteq> pairingCodeLen then []
     else take 4 (pc_b c) @ ''-'' @ drop 4 (pc_b c))"

text \<open>The loop that fills the eight characters from the right.\<close>

primrec encode_groups :: "nat \<Rightarrow> 64 word \<Rightarrow> string" where
  "encode_groups 0 v = []"
| "encode_groups (Suc i) v =
     encode_groups i (drop_bit 5 v) @ [CrockfordAlphabet ! unat (v AND 0x1f)]"

type_synonym code_bytes = "8 word \<times> 8 word \<times> 8 word \<times> 8 word \<times> 8 word"

definition pack40 :: "code_bytes \<Rightarrow> 64 word" where
  "pack40 b = (case b of (b0, b1, b2, b3, b4) \<Rightarrow>
     push_bit 32 (ucast b0) OR push_bit 24 (ucast b1) OR push_bit 16 (ucast b2)
       OR push_bit 8 (ucast b3) OR ucast b4)"

definition encodeCrockford40 :: "code_bytes \<Rightarrow> string" where
  "encodeCrockford40 b = encode_groups 8 (pack40 b)"

definition GeneratePairingCode :: "(rune \<Rightarrow> rune) \<Rightarrow> code_bytes result \<Rightarrow> PairingCode result" where
  "GeneratePairingCode cm rand =
     (case rand of
        Inl err \<Rightarrow> Inl (Wrapf (Msg ''pairing code entropy: %w'' []) err)
      | Inr b \<Rightarrow> NewPairingCode cm (encodeCrockford40 b))"

subsection \<open>Codes are canonical and injective\<close>

definition crockford :: "string \<Rightarrow> bool" where
  "crockford s \<longleftrightarrow> length s = pairingCodeLen \<and> set s \<subseteq> set CrockfordAlphabet"

lemma alphabet_chars:
  "c \<in> set CrockfordAlphabet \<Longrightarrow> 48 \<le> byte_of c \<and> byte_of c < 91 \<and> c \<noteq> CHR ''-''"
  by (auto simp: CrockfordAlphabet_def)

lemma alphabet_distinct: "distinct CrockfordAlphabet"
  by (simp add: CrockfordAlphabet_def)

lemma alphabet_length: "length CrockfordAlphabet = 32"
  by (simp add: CrockfordAlphabet_def)

lemma crockford_bytes:
  assumes "set s \<subseteq> set CrockfordAlphabet"
  shows "list_all (\<lambda>c. byte_of c < 128 \<and> \<not> is_lower c) s" "runes s = map byte_of s"
    "list_all (\<lambda>r. \<not> IsSpace r) (runes s)" "CHR ''-'' \<notin> set s"
proof -
  have c: "48 \<le> byte_of c \<and> byte_of c < 91 \<and> c \<noteq> CHR ''-''" if "c \<in> set s" for c
    using assms that alphabet_chars by blast
  show a: "list_all (\<lambda>c. byte_of c < 128 \<and> \<not> is_lower c) s"
    using c by (fastforce simp: list_all_iff is_lower_def between_def)
  then show r: "runes s = map byte_of s"
    by (intro runes_all_ascii) (simp add: list_all_iff)
  show "list_all (\<lambda>r. \<not> IsSpace r) (runes s)"
    unfolding r using c by (fastforce simp: list_all_iff IsSpace_def between_def)
  show "CHR ''-'' \<notin> set s" using c by blast
qed

lemma NewPairingCode_crockford:
  assumes "crockford s"
  shows "NewPairingCode cm s = Inr \<lparr> pc_b = s \<rparr>"
proof -
  have s: "set s \<subseteq> set CrockfordAlphabet" "length s = pairingCodeLen"
    using assms by (simp_all add: crockford_def)
  then show ?thesis
    using crockford_bytes [OF s(1)]
    by (auto simp: NewPairingCode_def TrimSpace_id remove_byte_id ToUpper_ascii Let_def list_ex_iff)
qed

lemma NewPairingCode_ok [ok_dest]:
  assumes "NewPairingCode cm s = Inr c"
  shows "crockford (pc_b c)"
proof -
  let ?n = "ToUpper cm (remove_byte CHR ''-'' (TrimSpace s))"
  have n: "length ?n = pairingCodeLen" "c = \<lparr> pc_b = ?n \<rparr>"
    and r: "set (runes ?n) \<subseteq> byte_of ` set CrockfordAlphabet"
    using assms by (auto simp: NewPairingCode_def Let_def list_ex_iff split: if_splits)
  have "list_all (\<lambda>r. r < 128) (runes ?n)"
    using r alphabet_chars by (fastforce simp: list_all_iff)
  then have "runes ?n = map byte_of ?n"
    by (intro runes_all_ascii ascii_if_runes_ascii)
  then have "byte_of ` set ?n \<subseteq> (byte_of ` set CrockfordAlphabet :: nat set)" using r by simp
  then have "set ?n \<subseteq> set CrockfordAlphabet" by (auto simp: image_subset_iff)
  then show ?thesis using n by (simp add: crockford_def)
qed

lemma Display_round_trip:
  assumes "crockford (pc_b c)"
  shows "NewPairingCode cm (Display c) = Inr c"
proof -
  let ?a = "take 4 (pc_b c)" and ?z = "drop 4 (pc_b c)"
  have s: "set (pc_b c) \<subseteq> set CrockfordAlphabet" and l: "length (pc_b c) = pairingCodeLen"
    using assms by (simp_all add: crockford_def)
  have sub: "set ?a \<subseteq> set (pc_b c)" "set ?z \<subseteq> set (pc_b c)"
    by (simp_all add: set_take_subset set_drop_subset)
  have d: "Display c = ?a @ CHR ''-'' # ?z" using l by (simp add: Display_def)
  note ch = crockford_bytes [OF s]
  have c: "48 \<le> byte_of x \<and> byte_of x < 91" if "x \<in> set (pc_b c)" for x
    using s that alphabet_chars by blast
  have asc: "list_all (\<lambda>x. byte_of x < 128) (Display c)"
  proof -
    have "byte_of x < 128" if "x \<in> set (pc_b c)" for x using c [OF that] by linarith
    then show ?thesis unfolding d using sub by (auto simp: list_all_iff)
  qed
  have sp: "\<not> IsSpace (byte_of x)" if "x \<in> set (pc_b c)" for x
    using c [OF that] by (auto simp: IsSpace_def between_def)
  have "\<not> IsSpace (byte_of x)" if "x \<in> set (Display c)" for x
    using that sp sub unfolding d by (auto simp: IsSpace_def between_def)
  then have "list_all (\<lambda>r. \<not> IsSpace r) (runes (Display c))"
    unfolding runes_all_ascii [OF asc] by (simp add: list_all_iff)
  then have "TrimSpace (Display c) = Display c" by (rule TrimSpace_id)
  moreover have "remove_byte CHR ''-'' (Display c) = pc_b c"
  proof -
    have "CHR ''-'' \<notin> set ?a" "CHR ''-'' \<notin> set ?z" using ch(4) sub by blast+
    then show ?thesis
      unfolding d using remove_byte_id [of "CHR ''-''" ?a] remove_byte_id [of "CHR ''-''" ?z]
      by (simp add: remove_byte_def)
  qed
  ultimately show ?thesis
    using NewPairingCode_crockford [OF assms, of cm] TrimSpace_id [OF ch(3)] remove_byte_id [OF ch(4)]
    by (simp add: NewPairingCode_def)
qed

lemma low_bits: "unat ((v :: 64 word) AND 0x1f) = unat v mod 32"
proof -
  have "v AND 0x1f = take_bit 5 v" by (simp add: take_bit_eq_mask mask_eq_exp_minus_1)
  then show ?thesis by (simp only: unsigned_take_bit_eq) (simp add: take_bit_eq_mod)
qed

lemma encode_groups_alphabet: "set (encode_groups n v) \<subseteq> set CrockfordAlphabet"
  by (induction n arbitrary: v) (simp_all add: low_bits alphabet_length)

lemma encode_groups_length: "length (encode_groups n v) = n"
  by (induction n arbitrary: v) simp_all

lemma encode_groups_inj:
  assumes "encode_groups n v = encode_groups n v'" "unat v < 32 ^ n" "unat v' < 32 ^ n"
  shows "v = v'"
  using assms
proof (induction n arbitrary: v v')
  case 0
  then show ?case by (simp add: unat_eq_0)
next
  case (Suc n)
  have up: "unat (drop_bit 5 x) = unat x div 32" for x :: "64 word"
    by (simp only: unat_drop_bit_eq) (simp add: drop_bit_eq_div)
  have "unat v mod 32 = unat v' mod 32"
    using Suc.prems(1) alphabet_distinct by (simp add: low_bits nth_eq_iff_index_eq alphabet_length)
  moreover have "drop_bit 5 v = drop_bit 5 v'"
    using Suc.prems by (intro Suc.IH) (simp_all add: up less_mult_imp_div_less mult.commute)
  then have "unat v div 32 = unat v' div 32" using up by metis
  ultimately have "unat v = unat v'" by (metis div_mult_mod_eq)
  then show ?case by (simp add: word_unat_eq_iff)
qed

text \<open>Each byte sits in its own place of the packed word.\<close>

definition byte_at :: "nat \<Rightarrow> 64 word \<Rightarrow> 8 word" where
  "byte_at k v = ucast (drop_bit k v)"

lemma bit_byte_at: "n < 8 \<Longrightarrow> bit (byte_at k v) n \<longleftrightarrow> bit v (k + n)"
  by (simp add: byte_at_def bit_simps)

lemma byte_no_bit: "8 \<le> n \<Longrightarrow> \<not> bit (x :: 8 word) n"
  using bit_imp_le_length [of x n] by auto

lemma bit_pack40:
  "bit (pack40 (b0, b1, b2, b3, b4)) n \<longleftrightarrow>
     n < 40 \<and> (if 32 \<le> n then bit b0 (n - 32) else if 24 \<le> n then bit b1 (n - 24)
       else if 16 \<le> n then bit b2 (n - 16) else if 8 \<le> n then bit b3 (n - 8) else bit b4 n)"
proof (cases "n < 40")
  case True
  then have "n - 32 < 64" "n - 24 < 64" "n - 16 < 64" "n - 8 < 64" by linarith+
  with True show ?thesis
    by (simp add: pack40_def bit_or_iff bit_push_bit_iff bit_ucast_iff byte_no_bit)
next
  case False
  then show ?thesis
    by (simp add: pack40_def bit_or_iff bit_push_bit_iff bit_ucast_iff byte_no_bit)
qed

lemma pack40_bytes:
  "byte_at 32 (pack40 (b0, b1, b2, b3, b4)) = b0" "byte_at 24 (pack40 (b0, b1, b2, b3, b4)) = b1"
  "byte_at 16 (pack40 (b0, b1, b2, b3, b4)) = b2" "byte_at 8 (pack40 (b0, b1, b2, b3, b4)) = b3"
  "byte_at 0 (pack40 (b0, b1, b2, b3, b4)) = b4"
  by (rule bit_word_eqI; simp add: bit_byte_at bit_pack40)+

lemma pack40_inj: "pack40 b = pack40 b' \<longleftrightarrow> b = b'"
  using pack40_bytes by (cases b; cases b') (auto, metis+)

lemma pack40_bound: "unat (pack40 b) < 32 ^ 8"
proof -
  obtain b0 b1 b2 b3 b4 where b: "b = (b0, b1, b2, b3, b4)" by (cases b)
  have "pack40 b = take_bit 40 (pack40 b)"
    unfolding b by (rule bit_word_eqI) (simp add: bit_take_bit_iff bit_pack40)
  then have "unat (pack40 b) = take_bit 40 (unat (pack40 b))" by (metis unsigned_take_bit_eq)
  also have "\<dots> < 2 ^ 40" by (rule take_bit_nat_less_exp)
  finally show ?thesis by simp
qed

lemma encodeCrockford40_crockford: "crockford (encodeCrockford40 b)"
  using encode_groups_alphabet by (simp add: crockford_def encodeCrockford40_def encode_groups_length pairingCodeLen_def)

lemma encodeCrockford40_inj: "encodeCrockford40 b = encodeCrockford40 b' \<longleftrightarrow> b = b'"
  using encode_groups_inj [OF _ pack40_bound pack40_bound, of b b'] pack40_inj [of b b']
  unfolding encodeCrockford40_def by blast

text \<open>A generated code carries all 40 bits: given its random bytes the generator always succeeds,
  the displayed form reads back as the code, and two codes are equal exactly when they were made
  from the same bytes.\<close>

theorem generated_codes_faithful:
  "\<exists>c c'. GeneratePairingCode cm (Inr b) = Inr c \<and> GeneratePairingCode cm (Inr b') = Inr c'
     \<and> NewPairingCode cm (Display c) = Inr c \<and> (Equal c c' \<longleftrightarrow> b = b')"
proof -
  have "GeneratePairingCode cm (Inr x) = Inr \<lparr> pc_b = encodeCrockford40 x \<rparr>" for x
    by (simp add: GeneratePairingCode_def NewPairingCode_crockford encodeCrockford40_crockford)
  moreover have "length (encodeCrockford40 x) = pairingCodeLen" for x
    using encodeCrockford40_crockford by (simp add: crockford_def)
  ultimately show ?thesis
    by (simp add: Display_round_trip encodeCrockford40_crockford Equal_def encodeCrockford40_inj)
qed

section \<open>The pairing session\<close>

type_synonym PairingSessionID = string
type_synonym PairingState = string

abbreviation PairingPending :: PairingState where "PairingPending \<equiv> ''pending''"
abbreviation PairingVerified :: PairingState where "PairingVerified \<equiv> ''verified''"
abbreviation PairingConsumed :: PairingState where "PairingConsumed \<equiv> ''consumed''"
abbreviation PairingExpired :: PairingState where "PairingExpired \<equiv> ''expired''"

definition PairingState_valid :: "PairingState \<Rightarrow> bool" where
  "PairingState_valid s \<longleftrightarrow> s \<in> {PairingPending, PairingVerified, PairingConsumed, PairingExpired}"

definition maxPairingTTL :: duration where
  "maxPairingTTL = 5 * minute"

record PairingSession =
  ss_id :: PairingSessionID
  ss_initiatedBy :: UserID
  ss_code :: PairingCode
  ss_state :: PairingState
  ss_createdAt :: instant
  ss_expiresAt :: instant
  ss_deviceID :: "DeviceID option"

definition NewPairingSession ::
  "PairingSessionID \<Rightarrow> UserID \<Rightarrow> PairingCode \<Rightarrow> duration \<Rightarrow> instant \<Rightarrow> PairingSession result" where
  "NewPairingSession id' initiatedBy code ttl now =
     (if blank id' then Inl (derr InvalidInput ''pairing session ID cannot be empty'')
      else if blank initiatedBy then
        Inl (derr InvalidInput ''pairing session must record the initiating user'')
      else if ttl \<le> 0 \<or> ttl > maxPairingTTL then
        Inl (DomainError InvalidInput (Msg ''pairing TTL must be within (0, %s]'' [AInt maxPairingTTL]) None)
      else Inr \<lparr> ss_id = id', ss_initiatedBy = initiatedBy, ss_code = code, ss_state = PairingPending,
                 ss_createdAt = now, ss_expiresAt = now + ttl, ss_deviceID = None \<rparr>)"

definition RehydratePairingSession ::
  "PairingSessionID \<Rightarrow> UserID \<Rightarrow> PairingCode \<Rightarrow> PairingState \<Rightarrow> instant \<Rightarrow> instant \<Rightarrow> DeviceID option
   \<Rightarrow> PairingSession result" where
  "RehydratePairingSession id' initiatedBy code state createdAt expiresAt deviceID =
     (if blank id' \<or> blank initiatedBy then
        Inl (derr Internal ''persisted pairing session is missing an identifier'')
      else if length (pc_b code) \<noteq> pairingCodeLen then
        Inl (derr Internal ''persisted pairing session has an invalid code'')
      else if \<not> PairingState_valid state then
        Inl (DomainError Internal (Msg ''persisted pairing session has an unknown state %q'' [AStr state]) None)
      else if expiresAt - createdAt \<le> 0 \<or> expiresAt - createdAt > maxPairingTTL then
        Inl (DomainError Internal
          (Msg ''persisted pairing session has an out-of-range TTL of %s'' [AInt (expiresAt - createdAt)]) None)
      else if (case deviceID of None \<Rightarrow> False | Some d \<Rightarrow> blank d) then
        Inl (derr Internal ''persisted pairing session has a blank device ID'')
      else if state = PairingPending \<and> deviceID \<noteq> None then
        Inl (derr Internal ''persisted pending pairing session has a device ID'')
      else if (state = PairingVerified \<or> state = PairingConsumed) \<and> deviceID = None then
        Inl (DomainError Internal (Msg ''persisted %s pairing session has no device ID'' [AStr state]) None)
      else Inr \<lparr> ss_id = id', ss_initiatedBy = initiatedBy, ss_code = code, ss_state = state,
                 ss_createdAt = createdAt, ss_expiresAt = expiresAt, ss_deviceID = deviceID \<rparr>)"

definition isExpired :: "PairingSession \<Rightarrow> instant \<Rightarrow> bool" where
  "isExpired s now \<longleftrightarrow> \<not> now < ss_expiresAt s"

definition terminal :: "PairingSession \<Rightarrow> bool" where
  "terminal s \<longleftrightarrow> ss_state s = PairingConsumed \<or> ss_state s = PairingExpired"

definition ExpireAt :: "instant \<Rightarrow> PairingSession \<Rightarrow> PairingSession" where
  "ExpireAt now s =
     (if ss_state s \<noteq> PairingPending \<and> ss_state s \<noteq> PairingVerified then s
      else if isExpired s now then s\<lparr>ss_state := PairingExpired\<rparr> else s)"

definition checkAdvanceable ::
  "instant \<Rightarrow> PairingState \<Rightarrow> string \<Rightarrow> string \<Rightarrow> PairingSession \<Rightarrow> go_error option \<times> PairingSession" where
  "checkAdvanceable now expected verb expiredMsg s =
     (let wrong = DomainError Conflict (Msg ''pairing session in state %q cannot be %s'' [AStr (ss_state s), AStr verb])
            (Some ErrPairingWrongState) in
      if terminal s then (Some wrong, s)
      else if isExpired s now then
        (Some (DomainError Conflict (Msg expiredMsg []) (Some ErrPairingExpired)), s\<lparr>ss_state := PairingExpired\<rparr>)
      else if ss_state s \<noteq> expected then (Some wrong, s)
      else (None, s))"

definition Verify ::
  "instant \<Rightarrow> PairingCode \<Rightarrow> DeviceID \<Rightarrow> PairingSession \<Rightarrow> go_error option \<times> PairingSession" where
  "Verify now submitted deviceID s =
     (case checkAdvanceable now PairingPending ''verified'' ''pairing code not recognised'' s of
        (Some err, s') \<Rightarrow> (Some err, s')
      | (None, s') \<Rightarrow>
          (if blank deviceID then (Some (derr Internal ''Verify requires a non-empty device ID''), s')
           else if \<not> Equal (ss_code s') submitted then
             (Some (DomainError Conflict (Msg ''pairing code not recognised'' []) (Some ErrPairingCodeMismatch)), s')
           else (None, s'\<lparr>ss_deviceID := Some deviceID, ss_state := PairingVerified\<rparr>)))"

definition Consume :: "instant \<Rightarrow> PairingSession \<Rightarrow> go_error option \<times> PairingSession" where
  "Consume now s =
     (case checkAdvanceable now PairingVerified ''consumed'' ''pairing session has expired'' s of
        (Some err, s') \<Rightarrow> (Some err, s')
      | (None, s') \<Rightarrow> (None, s'\<lparr>ss_state := PairingConsumed\<rparr>))"

lemmas session_ops = Verify_def Consume_def ExpireAt_def checkAdvanceable_def terminal_def isExpired_def Let_def

subsection \<open>Well-formed sessions\<close>

definition session_ok :: "PairingSession \<Rightarrow> bool" where
  "session_ok s \<longleftrightarrow> \<not> blank (ss_id s) \<and> \<not> blank (ss_initiatedBy s)
     \<and> length (pc_b (ss_code s)) = pairingCodeLen
     \<and> ss_createdAt s < ss_expiresAt s \<and> ss_expiresAt s - ss_createdAt s \<le> maxPairingTTL
     \<and> (case ss_deviceID s of
          None \<Rightarrow> ss_state s = PairingPending \<or> ss_state s = PairingExpired
        | Some d \<Rightarrow> \<not> blank d \<and> ss_state s \<in> {PairingVerified, PairingConsumed, PairingExpired})"

lemma RehydratePairingSession_ok_iff:
  "RehydratePairingSession (ss_id s) (ss_initiatedBy s) (ss_code s) (ss_state s) (ss_createdAt s)
     (ss_expiresAt s) (ss_deviceID s) = Inr s \<longleftrightarrow> session_ok s"
  by (cases "ss_deviceID s")
     (auto simp: RehydratePairingSession_def session_ok_def PairingState_valid_def)

lemma session_ok_Verify: "session_ok s \<Longrightarrow> session_ok (snd (Verify now c d s))"
  by (cases "ss_deviceID s") (auto simp: session_ops session_ok_def)

lemma session_ok_Consume: "session_ok s \<Longrightarrow> session_ok (snd (Consume now s))"
  by (cases "ss_deviceID s") (auto simp: session_ops session_ok_def)

lemma session_ok_ExpireAt: "session_ok s \<Longrightarrow> session_ok (ExpireAt now s)"
  by (cases "ss_deviceID s") (auto simp: session_ops session_ok_def)

lemma session_ok_New:
  "NewPairingSession i u c ttl now = Inr s \<Longrightarrow> crockford (pc_b c) \<Longrightarrow> session_ok s"
  by (auto simp: NewPairingSession_def session_ok_def crockford_def split: if_splits)

subsection \<open>Histories of a session\<close>

text \<open>The calls a session receives, at times that need not be ordered, and the calls it accepted.\<close>

datatype pairing_call = CallVerify instant PairingCode DeviceID | CallConsume instant | CallExpire instant

fun pairing_call_result :: "pairing_call \<Rightarrow> PairingSession \<Rightarrow> go_error option \<times> PairingSession" where
  "pairing_call_result (CallVerify now c d) s = Verify now c d s"
| "pairing_call_result (CallConsume now) s = Consume now s"
| "pairing_call_result (CallExpire now) s = (None, ExpireAt now s)"

fun advances :: "pairing_call \<Rightarrow> bool" where
  "advances (CallExpire now) \<longleftrightarrow> False"
| "advances c \<longleftrightarrow> True"

fun pairing_run :: "pairing_call list \<Rightarrow> PairingSession \<Rightarrow> pairing_call list \<times> PairingSession" where
  "pairing_run [] s = ([], s)"
| "pairing_run (c # cs) s =
     (case pairing_call_result c s of (e, s') \<Rightarrow>
       (case pairing_run cs s' of (acc, s'') \<Rightarrow>
          (if e = None \<and> advances c then c # acc else acc, s'')))"

lemma run_terminal: "terminal s \<Longrightarrow> pairing_run cs s = ([], s)"
proof (induction cs)
  case (Cons c cs)
  then have "snd (pairing_call_result c s) = s" "fst (pairing_call_result c s) \<noteq> None \<or> \<not> advances c"
    by (cases c; auto simp: session_ops)+
  with Cons show ?case by (auto split: prod.splits)
qed simp

lemma step_verified:
  assumes "ss_state s = PairingVerified" "pairing_call_result c s = (e, s')"
  shows "s' = s \<and> \<not> (e = None \<and> advances c)
    \<or> s' = s\<lparr>ss_state := PairingExpired\<rparr> \<and> \<not> (e = None \<and> advances c)
    \<or> (\<exists>t. c = CallConsume t \<and> e = None \<and> t < ss_expiresAt s \<and> s' = s\<lparr>ss_state := PairingConsumed\<rparr>)"
  using assms by (cases c) (auto simp: session_ops split: if_splits)

lemma step_pending:
  assumes "ss_state s = PairingPending" "pairing_call_result c s = (e, s')"
  shows "s' = s \<and> \<not> (e = None \<and> advances c)
    \<or> s' = s\<lparr>ss_state := PairingExpired\<rparr> \<and> \<not> (e = None \<and> advances c)
    \<or> (\<exists>t k d. c = CallVerify t k d \<and> e = None \<and> t < ss_expiresAt s \<and> Equal (ss_code s) k \<and> \<not> blank d
        \<and> s' = s\<lparr>ss_deviceID := Some d, ss_state := PairingVerified\<rparr>)"
  using assms by (cases c) (auto simp: session_ops split: if_splits)

definition enrolled_by :: "PairingSession \<Rightarrow> PairingSession \<Rightarrow> pairing_call list \<Rightarrow> bool" where
  "enrolled_by s s' acc \<longleftrightarrow>
     (acc = [] \<and> ss_state s' = PairingVerified \<or> acc = [] \<and> ss_state s' = PairingExpired
      \<or> (\<exists>t. acc = [CallConsume t] \<and> t < ss_expiresAt s \<and> ss_state s' = PairingConsumed))
     \<and> ss_deviceID s' = ss_deviceID s \<and> ss_code s' = ss_code s \<and> ss_expiresAt s' = ss_expiresAt s"

lemma run_verified:
  assumes "ss_state s = PairingVerified" "pairing_run cs s = (acc, s')"
  shows "enrolled_by s s' acc"
  using assms
proof (induction cs arbitrary: s acc s')
  case Nil
  then show ?case by (simp add: enrolled_by_def)
next
  case (Cons c cs)
  obtain e s1 where c: "pairing_call_result c s = (e, s1)" by fastforce
  obtain a1 where r: "pairing_run cs s1 = (a1, s')" and a: "acc = (if e = None \<and> advances c then c # a1 else a1)"
    using Cons.prems(2) c by (auto split: prod.splits)
  from step_verified [OF Cons.prems(1) c] show ?case
  proof (elim disjE exE conjE)
    assume "s1 = s" "\<not> (e = None \<and> advances c)"
    moreover from this have "acc = a1" using a by auto
    ultimately show ?thesis using Cons.IH [OF Cons.prems(1)] r by simp
  next
    assume s1: "s1 = s\<lparr>ss_state := PairingExpired\<rparr>" and "\<not> (e = None \<and> advances c)"
    then have "acc = a1" using a by auto
    moreover have "a1 = []" "s' = s1" using run_terminal [of s1 cs] r s1 by (simp_all add: terminal_def)
    ultimately show ?thesis using s1 by (simp add: enrolled_by_def)
  next
    fix t assume t: "c = CallConsume t" "e = None" "t < ss_expiresAt s"
      and s1: "s1 = s\<lparr>ss_state := PairingConsumed\<rparr>"
    have "a1 = []" "s' = s1" using run_terminal [of s1 cs] r s1 by (simp_all add: terminal_def)
    then show ?thesis using s1 t a by (simp add: enrolled_by_def)
  qed
qed

lemma run_pending:
  assumes "ss_state s = PairingPending" "pairing_run cs s = (acc, s')"
  shows "acc = [] \<and> ss_state s' \<in> {PairingPending, PairingExpired} \<and> ss_deviceID s' = ss_deviceID s
    \<or> (\<exists>t k d s1 rest. acc = CallVerify t k d # rest \<and> Equal (ss_code s) k \<and> t < ss_expiresAt s \<and> \<not> blank d
         \<and> s1 = s\<lparr>ss_deviceID := Some d, ss_state := PairingVerified\<rparr> \<and> enrolled_by s1 s' rest)"
  using assms
proof (induction cs arbitrary: s acc s')
  case (Cons c cs)
  obtain e s1 where c: "pairing_call_result c s = (e, s1)" by fastforce
  obtain a1 where r: "pairing_run cs s1 = (a1, s')" and a: "acc = (if e = None \<and> advances c then c # a1 else a1)"
    using Cons.prems(2) c by (auto split: prod.splits)
  from step_pending [OF Cons.prems(1) c] show ?case
  proof (elim disjE exE conjE)
    assume "s1 = s" "\<not> (e = None \<and> advances c)"
    moreover from this have "acc = a1" using a by auto
    ultimately show ?thesis using Cons.IH [OF Cons.prems(1)] r by simp
  next
    assume s1: "s1 = s\<lparr>ss_state := PairingExpired\<rparr>" and "\<not> (e = None \<and> advances c)"
    then have "acc = a1" using a by auto
    moreover have "a1 = []" "s' = s1" using run_terminal [of s1 cs] r s1 by (simp_all add: terminal_def)
    ultimately show ?thesis using s1 by simp
  next
    fix t k d
    assume v: "c = CallVerify t k d" "e = None" "t < ss_expiresAt s" "Equal (ss_code s) k" "\<not> blank d"
      and s1: "s1 = s\<lparr>ss_deviceID := Some d, ss_state := PairingVerified\<rparr>"
    have "enrolled_by s1 s' a1" using run_verified [OF _ r] s1 by simp
    then show ?thesis using v s1 a by auto
  qed
qed simp

text \<open>A device is enrolled only with the code, in time, and once.  Whatever calls a fresh session
  receives, in any order and at any times, it accepts at most one \<open>Verify\<close>, which carried the
  session's code before the expiry, and after it at most one \<open>Consume\<close>, also before the expiry;
  the session is consumed exactly when both were accepted and then names the verified device.\<close>

theorem pairing_needs_code_in_time_once:
  assumes "NewPairingSession i u c ttl now = Inr s" "pairing_run cs s = (acc, s')"
  shows "(acc = [] \<and> ss_state s' \<in> {PairingPending, PairingExpired} \<and> ss_deviceID s' = None)
    \<or> (\<exists>t k d. Equal c k \<and> t < now + ttl \<and> ss_deviceID s' = Some d
         \<and> (acc = [CallVerify t k d] \<and> ss_state s' \<in> {PairingVerified, PairingExpired}
            \<or> (\<exists>t'. acc = [CallVerify t k d, CallConsume t'] \<and> t' < now + ttl \<and> ss_state s' = PairingConsumed)))"
proof -
  have s: "ss_state s = PairingPending" "ss_deviceID s = None" "ss_code s = c" "ss_expiresAt s = now + ttl"
    using assms(1) by (auto simp: NewPairingSession_def split: if_splits)
  from run_pending [OF s(1) assms(2)] show ?thesis
    by (auto simp: s enrolled_by_def)
qed

theorem pairing_needs_code_in_time_once_witness:
  "\<exists>s acc s'. NewPairingSession ''a'' ''b'' \<lparr> pc_b = ''01234567'' \<rparr> 10 0 = Inr s
    \<and> pairing_run [CallVerify 1 \<lparr> pc_b = ''01234567'' \<rparr> ''d'', CallConsume 2, CallConsume 3] s = (acc, s')
    \<and> acc = [CallVerify 1 \<lparr> pc_b = ''01234567'' \<rparr> ''d'', CallConsume 2] \<and> ss_deviceID s' = Some ''d''"
proof -
  let ?s = "\<lparr> ss_id = ''a'', ss_initiatedBy = ''b'', ss_code = \<lparr> pc_b = ''01234567'' \<rparr>, ss_state = PairingPending,
    ss_createdAt = 0, ss_expiresAt = 10, ss_deviceID = None \<rparr>"
  let ?s' = "?s\<lparr>ss_deviceID := Some ''d'', ss_state := PairingConsumed\<rparr>"
  have nb: "\<not> blank ''a''" "\<not> blank ''b''" "\<not> blank ''d''"
    by (simp_all add: blank_iff runes_def segments_ascii IsSpace_def between_def)
  have n: "NewPairingSession ''a'' ''b'' \<lparr> pc_b = ''01234567'' \<rparr> 10 0 = Inr ?s"
    by (simp add: NewPairingSession_def nb maxPairingTTL_def)
  have r: "pairing_run [CallVerify 1 \<lparr> pc_b = ''01234567'' \<rparr> ''d'', CallConsume 2, CallConsume 3] ?s
    = ([CallVerify 1 \<lparr> pc_b = ''01234567'' \<rparr> ''d'', CallConsume 2], ?s')"
    by (simp add: session_ops nb Equal_def pairingCodeLen_def)
  from pairing_needs_code_in_time_once [OF n r] show ?thesis using n r by auto
qed

section \<open>The paired device\<close>

type_synonym DeviceClass = string
type_synonym EnrolledVia = string

definition DeviceClass_valid :: "DeviceClass \<Rightarrow> bool" where
  "DeviceClass_valid c \<longleftrightarrow> c \<in> {''phone'', ''tablet'', ''desktop'', ''tv'', ''unknown''}"

definition EnrolledVia_valid :: "EnrolledVia \<Rightarrow> bool" where
  "EnrolledVia_valid v \<longleftrightarrow> v = ''pairing_code'' \<or> v = ''password_login''"

definition maxDeviceLabelRunes :: nat where
  "maxDeviceLabelRunes = 100"

record PairedDevice =
  pd_id :: DeviceID
  pd_owner :: UserID
  pd_label :: string
  pd_deviceClass :: DeviceClass
  pd_enrolledVia :: EnrolledVia
  pd_createdAt :: instant
  pd_lastSeenAt :: instant
  pd_revokedAt :: "instant option"
  pd_syncCursor :: int
  pd_lastSyncedAt :: "instant option"

definition NewPairedDevice ::
  "DeviceID \<Rightarrow> UserID \<Rightarrow> string \<Rightarrow> DeviceClass \<Rightarrow> EnrolledVia \<Rightarrow> instant \<Rightarrow> PairedDevice result" where
  "NewPairedDevice id' owner label0 deviceClass enrolledVia now =
     (let label = TrimSpace label0 in
      if blank id' then Inl (derr InvalidInput ''device ID cannot be empty'')
      else if blank owner then Inl (derr InvalidInput ''paired device must have an owner'')
      else if label = [] then Inl (derr InvalidInput ''device label cannot be empty'')
      else if length (runes label) > maxDeviceLabelRunes then
        Inl (DomainError InvalidInput
          (Msg ''device label cannot exceed %d characters'' [AInt (int maxDeviceLabelRunes)]) None)
      else if \<not> DeviceClass_valid deviceClass then
        Inl (DomainError InvalidInput (Msg ''unknown device class %q'' [AStr deviceClass]) None)
      else if \<not> EnrolledVia_valid enrolledVia then
        Inl (DomainError InvalidInput (Msg ''unknown enrolment method %q'' [AStr enrolledVia]) None)
      else Inr \<lparr> pd_id = id', pd_owner = owner, pd_label = label, pd_deviceClass = deviceClass,
                 pd_enrolledVia = enrolledVia, pd_createdAt = now, pd_lastSeenAt = now,
                 pd_revokedAt = None, pd_syncCursor = 0, pd_lastSyncedAt = None \<rparr>)"

definition RehydratePairedDevice ::
  "DeviceID \<Rightarrow> UserID \<Rightarrow> string \<Rightarrow> DeviceClass \<Rightarrow> EnrolledVia \<Rightarrow> instant \<Rightarrow> instant \<Rightarrow> instant option
   \<Rightarrow> int \<Rightarrow> instant option \<Rightarrow> PairedDevice result" where
  "RehydratePairedDevice id' owner label deviceClass enrolledVia createdAt lastSeenAt revokedAt syncCursor lastSyncedAt =
     (if blank id' \<or> blank owner then Inl (derr Internal ''persisted paired device is missing an identifier'')
      else if blank label \<or> length (runes label) > maxDeviceLabelRunes then
        Inl (derr Internal ''persisted paired device has an invalid label'')
      else if \<not> DeviceClass_valid deviceClass then
        Inl (DomainError Internal (Msg ''persisted paired device has an unknown class %q'' [AStr deviceClass]) None)
      else if \<not> EnrolledVia_valid enrolledVia then
        Inl (DomainError Internal
          (Msg ''persisted paired device has an unknown enrolment method %q'' [AStr enrolledVia]) None)
      else if syncCursor < 0 then Inl (derr Internal ''persisted paired device has a negative sync cursor'')
      else Inr \<lparr> pd_id = id', pd_owner = owner, pd_label = label, pd_deviceClass = deviceClass,
                 pd_enrolledVia = enrolledVia, pd_createdAt = createdAt, pd_lastSeenAt = lastSeenAt,
                 pd_revokedAt = revokedAt, pd_syncCursor = syncCursor, pd_lastSyncedAt = lastSyncedAt \<rparr>)"

definition Revoke :: "instant \<Rightarrow> PairedDevice \<Rightarrow> go_error option \<times> PairedDevice" where
  "Revoke now d =
     (if pd_revokedAt d \<noteq> None then
        (Some (DomainError Conflict (Msg ''paired device is already revoked'' []) (Some ErrDeviceAlreadyRevoked)), d)
      else (None, d\<lparr>pd_revokedAt := Some now\<rparr>))"

definition Touch :: "instant \<Rightarrow> PairedDevice \<Rightarrow> go_error option \<times> PairedDevice" where
  "Touch now d =
     (if pd_revokedAt d \<noteq> None then
        (Some (DomainError Conflict (Msg ''paired device is revoked'' []) (Some ErrDeviceRevoked)), d)
      else if now > pd_lastSeenAt d then (None, d\<lparr>pd_lastSeenAt := now\<rparr>)
      else (None, d))"

definition AdvanceCursor :: "int \<Rightarrow> instant \<Rightarrow> PairedDevice \<Rightarrow> go_error option \<times> PairedDevice" where
  "AdvanceCursor newCursor at' d =
     (if pd_revokedAt d \<noteq> None then
        (Some (DomainError Conflict (Msg ''paired device is revoked'' []) (Some ErrDeviceRevoked)), d)
      else if newCursor \<le> pd_syncCursor d then
        (Some (DomainError InvalidInput (Msg ''new sync cursor %d must be strictly greater than current %d''
           [AInt newCursor, AInt (pd_syncCursor d)]) None), d)
      else (None, d\<lparr>pd_syncCursor := newCursor, pd_lastSyncedAt := Some at'\<rparr>))"

lemmas device_ops = Revoke_def Touch_def AdvanceCursor_def

definition device_ok :: "PairedDevice \<Rightarrow> bool" where
  "device_ok d \<longleftrightarrow> \<not> blank (pd_id d) \<and> \<not> blank (pd_owner d) \<and> \<not> blank (pd_label d)
     \<and> length (runes (pd_label d)) \<le> maxDeviceLabelRunes \<and> DeviceClass_valid (pd_deviceClass d)
     \<and> EnrolledVia_valid (pd_enrolledVia d) \<and> 0 \<le> pd_syncCursor d"

lemma RehydratePairedDevice_ok_iff:
  "RehydratePairedDevice (pd_id d) (pd_owner d) (pd_label d) (pd_deviceClass d) (pd_enrolledVia d)
     (pd_createdAt d) (pd_lastSeenAt d) (pd_revokedAt d) (pd_syncCursor d) (pd_lastSyncedAt d) = Inr d
   \<longleftrightarrow> device_ok d"
  by (auto simp: RehydratePairedDevice_def device_ok_def)

datatype device_call = CallRevoke instant | CallTouch instant | CallAdvance int instant

fun device_call_result :: "device_call \<Rightarrow> PairedDevice \<Rightarrow> go_error option \<times> PairedDevice" where
  "device_call_result (CallRevoke now) d = Revoke now d"
| "device_call_result (CallTouch now) d = Touch now d"
| "device_call_result (CallAdvance c at') d = AdvanceCursor c at' d"

fun device_run :: "device_call list \<Rightarrow> PairedDevice \<Rightarrow> PairedDevice" where
  "device_run [] d = d"
| "device_run (c # cs) d = device_run cs (snd (device_call_result c d))"

lemma device_step_ok: "device_ok d \<Longrightarrow> device_ok (snd (device_call_result c d))"
  by (cases c) (auto simp: device_ops device_ok_def)

lemma device_step_mono:
  "pd_lastSeenAt d \<le> pd_lastSeenAt (snd (device_call_result c d))"
  "pd_syncCursor d \<le> pd_syncCursor (snd (device_call_result c d))"
  by (cases c; simp add: device_ops)+

lemma device_step_revoked: "pd_revokedAt d \<noteq> None \<Longrightarrow> device_call_result c d = (e, d') \<Longrightarrow> d' = d \<and> e \<noteq> None"
  by (cases c) (auto simp: device_ops)

text \<open>A paired device only moves forward.  Under any calls its last-seen time and its sync cursor
  never decrease and it stays well formed, so that its row can be loaded again; once revoked,
  nothing about it changes.\<close>

theorem paired_device_moves_forward:
  assumes "device_ok d"
  shows "pd_lastSeenAt d \<le> pd_lastSeenAt (device_run cs d) \<and> pd_syncCursor d \<le> pd_syncCursor (device_run cs d)
    \<and> device_ok (device_run cs d) \<and> (pd_revokedAt d \<noteq> None \<longrightarrow> device_run cs d = d)"
  using assms
proof (induction cs arbitrary: d)
  case Nil
  then show ?case by simp
next
  case (Cons c cs)
  obtain e d' where c: "device_call_result c d = (e, d')" by fastforce
  note mono = device_step_mono [of d c, unfolded c snd_conv]
  have "d' = d" if "pd_revokedAt d \<noteq> None" using device_step_revoked [OF that c] by simp
  moreover have "device_ok d'" using device_step_ok [OF Cons.prems, of c] c by simp
  ultimately show ?case using Cons.IH [of d'] mono c by auto
qed

definition sample_device :: PairedDevice where
  "sample_device = \<lparr> pd_id = ''d'', pd_owner = ''u'', pd_label = ''e-reader'', pd_deviceClass = ''tablet'',
     pd_enrolledVia = ''pairing_code'', pd_createdAt = 0, pd_lastSeenAt = 5, pd_revokedAt = None,
     pd_syncCursor = 3, pd_lastSyncedAt = None \<rparr>"

theorem paired_device_moves_forward_witness:
  "pd_lastSeenAt sample_device
     \<le> pd_lastSeenAt (device_run [CallTouch 2, CallAdvance 9 4, CallRevoke 6, CallTouch 8] sample_device)
   \<and> pd_syncCursor (device_run [CallTouch 2, CallAdvance 9 4, CallRevoke 6, CallTouch 8] sample_device) = 9"
proof -
  have "device_ok sample_device"
    by (simp add: device_ok_def sample_device_def blank_iff runes_def segments_ascii IsSpace_def between_def
        maxDeviceLabelRunes_def DeviceClass_valid_def EnrolledVia_valid_def)
  from paired_device_moves_forward [OF this, of "[CallTouch 2, CallAdvance 9 4, CallRevoke 6, CallTouch 8]"]
  show ?thesis by (simp add: sample_device_def device_ops)
qed

end
