(* ===== verification/Postgres_Pairing.thy ===== *)
theory Postgres_Pairing
  imports Postgres_Store Device_Pairing
begin

text \<open>
  The stored side of device pairing: \<open>pairing_session_repository.go\<close>,
  \<open>paired_device_repository.go\<close> and \<open>pairing_verify.go\<close> of \<open>internal/persistence/postgres\<close>.

  The cryptographic primitives the session repository is built with are a parameter of the model,
  a record with the sealing and opening functions of the AEAD and the keyed hash; what is relied
  upon is that opening a sealed text returns it (\<open>aead_opens\<close>).  The random nonce is an argument.
\<close>

text \<open>One statement that has to affect a row: \<open>if tag.RowsAffected() == 0 { return missing }\<close>.\<close>

definition exec_found :: "go_error \<Rightarrow> statement \<Rightarrow> database command" where
  "exec_found missing s db =
     (case Exec s db of
        (Inl err, db') \<Rightarrow> (Some (TranslateError err), db')
      | (Inr n, db') \<Rightarrow> (if n = 0 then (Some missing, db') else (None, db')))"

lemma exec_found_ok:
  assumes "exec_found missing s db = (None, db')"
  obtains d n where "s db = Inr (d, n)" "n \<noteq> 0" "db' = tick d"
  using assms by (auto simp: exec_found_def split: prod.splits sum.splits if_splits elim!: Exec_ok)

section \<open>Sessions\<close>

record PairingSessionRepository =
  aead_Seal :: "string \<Rightarrow> string \<Rightarrow> string"
  aead_Open :: "string \<Rightarrow> string \<Rightarrow> string result"
  hmac_sha256 :: "string \<Rightarrow> string \<Rightarrow> string"
  indexKey :: string
  unicode_upper :: "rune \<Rightarrow> rune"

definition nonceSize :: nat where
  "nonceSize = 12"

definition aead_opens :: "PairingSessionRepository \<Rightarrow> bool" where
  "aead_opens R \<longleftrightarrow> (\<forall>nonce text. length nonce = nonceSize \<longrightarrow> aead_Open R nonce (aead_Seal R nonce text) = Inr text)"

definition CodeIndex :: "PairingSessionRepository \<Rightarrow> PairingCode \<Rightarrow> string" where
  "CodeIndex R code = hmac_sha256 R (indexKey R) (pc_b code)"

definition encryptCode :: "PairingSessionRepository \<Rightarrow> string result \<Rightarrow> PairingCode \<Rightarrow> string result" where
  "encryptCode R rand code =
     (case rand of
        Inl err \<Rightarrow> Inl (Wrapf (Msg ''read nonce: %w'' []) err)
      | Inr nonce \<Rightarrow> Inr (nonce @ aead_Seal R nonce (pc_b code)))"

definition decryptCode :: "PairingSessionRepository \<Rightarrow> string \<Rightarrow> PairingCode result" where
  "decryptCode R ciphertext =
     (if length ciphertext < nonceSize then Inl (ErrorsNew ''ciphertext too short'')
      else (case aead_Open R (take nonceSize ciphertext) (drop nonceSize ciphertext) of
              Inl err \<Rightarrow> Inl err
            | Inr plaintext \<Rightarrow> NewPairingCode (unicode_upper R) plaintext))"

lemma decrypt_encrypt:
  assumes "aead_opens R" "length nonce = nonceSize" "crockford (pc_b code)"
    and "encryptCode R (Inr nonce) code = Inr text"
  shows "decryptCode R text = Inr code"
  using assms by (auto simp: encryptCode_def decryptCode_def aead_opens_def NewPairingCode_crockford)

text \<open>
  The upsert: a new row under the references and constraints of the table, or an update of state,
  expiry and device of the row with that id.
\<close>

definition upsert_session :: "session_row \<Rightarrow> statement" where
  "upsert_session r db =
     (if sr_state r \<notin> {PairingPending, PairingVerified, PairingConsumed, PairingExpired}
        then Inl check_violation
      else if list_ex (\<lambda>x. sr_id x = sr_id r) (pairing_sessions db) then
        Inr (db\<lparr>pairing_sessions := update_where (\<lambda>x. sr_id x = sr_id r)
          (\<lambda>x. x\<lparr>sr_state := sr_state r, sr_expires_at := sr_expires_at r, sr_device_id := sr_device_id r\<rparr>)
          (pairing_sessions db)\<rparr>, 1)
      else if list_ex (\<lambda>x. sr_code_index x = sr_code_index r) (pairing_sessions db) then Inl unique_violation
      else if sr_initiated_by r \<notin> user_ids db then Inl foreign_key_violation
      else Inr (db\<lparr>pairing_sessions := pairing_sessions db @ [r]\<rparr>, 1))"

definition session_row_of ::
  "PairingSessionRepository \<Rightarrow> string \<Rightarrow> string \<Rightarrow> PairingSession \<Rightarrow> session_row" where
  "session_row_of R ciphertext ip s =
     \<lparr> sr_id = ss_id s, sr_initiated_by = ss_initiatedBy s, sr_code_ciphertext = ciphertext,
       sr_code_index = CodeIndex R (ss_code s), sr_state = ss_state s,
       sr_created_at = timestamptz (ss_createdAt s), sr_expires_at = timestamptz (ss_expiresAt s),
       sr_device_id = ss_deviceID s, sr_initiator_ip = (if ip = [] then None else Some ip) \<rparr>"

text \<open>The cast of the initiator's address to \<open>inet\<close> is a check \<open>inet\<close> of the address text.\<close>

definition SaveWithInitiatorIP ::
  "(string \<Rightarrow> bool) \<Rightarrow> PairingSessionRepository \<Rightarrow> string result \<Rightarrow> PairingSession \<Rightarrow> string \<Rightarrow> database command" where
  "SaveWithInitiatorIP inet R rand s ip db =
     (case encryptCode R rand (ss_code s) of
        Inl err \<Rightarrow> (Some (DomainError Internal (Msg ''failed to encrypt pairing code'' []) (Some err)), db)
      | Inr ciphertext \<Rightarrow>
          exec_one (\<lambda>db. if ip \<noteq> [] \<and> \<not> inet ip then Inl ''22P02''
                         else upsert_session (session_row_of R ciphertext ip s) db) db)"

definition session_Save ::
  "PairingSessionRepository \<Rightarrow> string result \<Rightarrow> PairingSession \<Rightarrow> database command" where
  "session_Save R rand s db = SaveWithInitiatorIP (\<lambda>_. True) R rand s [] db"

definition scanSession :: "PairingSessionRepository \<Rightarrow> session_row option \<Rightarrow> PairingSession result" where
  "scanSession R row =
     (case row of
        None \<Rightarrow> Inl (derr NotFound ''pairing session not found'')
      | Some r \<Rightarrow>
         (case decryptCode R (sr_code_ciphertext r) of
            Inl err \<Rightarrow>
              Inl (DomainError Internal (Msg ''could not decrypt stored pairing code'' []) (Some err))
          | Inr code \<Rightarrow>
              RehydratePairingSession (sr_id r) (sr_initiated_by r) code (sr_state r) (sr_created_at r)
                (sr_expires_at r) (sr_device_id r)))"

definition session_query ::
  "(session_row \<Rightarrow> bool) \<Rightarrow> PairingSessionRepository \<Rightarrow> database \<Rightarrow> PairingSession result" where
  "session_query P R db =
     (if \<not> connected db then Inl (TranslateError ErrClosed)
      else scanSession R (List.find P (pairing_sessions db)))"

definition session_FindByID :: "PairingSessionRepository \<Rightarrow> database \<Rightarrow> PairingSessionID \<Rightarrow> PairingSession result" where
  "session_FindByID R db i = session_query (\<lambda>r. sr_id r = i) R db"

definition FindByCodeIndex :: "PairingSessionRepository \<Rightarrow> database \<Rightarrow> string \<Rightarrow> PairingSession result" where
  "FindByCodeIndex R db codeIndex = session_query (\<lambda>r. sr_code_index r = codeIndex) R db"

definition FindPendingByCodeIndexForUpdate ::
  "bool \<Rightarrow> PairingSessionRepository \<Rightarrow> database \<Rightarrow> string \<Rightarrow> instant \<Rightarrow> PairingSession result" where
  "FindPendingByCodeIndexForUpdate inTransaction R db codeIndex now =
     (if \<not> inTransaction then
        Inl (derr Internal ''FindPendingByCodeIndexForUpdate requires an active transaction'')
      else session_query
        (\<lambda>r. sr_code_index r = codeIndex \<and> sr_state r = PairingPending \<and> sr_expires_at r > timestamptz now) R db)"

definition session_Delete :: "PairingSessionID \<Rightarrow> database command" where
  "session_Delete i db =
     exec_found (derr NotFound ''pairing session not found'')
       (\<lambda>db. Inr (db\<lparr>pairing_sessions := delete_where (\<lambda>r. sr_id r = i) (pairing_sessions db),
                      paired_devices := update_where (\<lambda>r. dr_pairing_session_id r = Some i)
                        (\<lambda>r. r\<lparr>dr_pairing_session_id := None\<rparr>) (paired_devices db)\<rparr>,
                  length (filter (\<lambda>r. sr_id r = i) (pairing_sessions db)))) db"

section \<open>Devices\<close>

text \<open>The constraints of a device row; \<open>trim\<close> of the check removes spaces only.\<close>

definition device_check :: "string \<Rightarrow> string \<Rightarrow> string \<Rightarrow> bool" where
  "device_check label class via \<longleftrightarrow>
     list_ex (\<lambda>c. c \<noteq> CHR '' '') label \<and> length (runes label) \<le> 100 \<and> DeviceClass_valid class \<and> EnrolledVia_valid via"

definition upsert_device :: "PairedDevice \<Rightarrow> statement" where
  "upsert_device d db =
     (if \<not> device_check (pd_label d) (pd_deviceClass d) (pd_enrolledVia d) then Inl check_violation
      else if pd_owner d \<notin> user_ids db then Inl foreign_key_violation
      else if list_ex (\<lambda>x. dr_id x = pd_id d) (paired_devices db) then
        Inr (db\<lparr>paired_devices := update_where (\<lambda>x. dr_id x = pd_id d)
          (\<lambda>x. x\<lparr>dr_owner_id := Some (pd_owner d), dr_label := pd_label d, dr_device_class := pd_deviceClass d,
                  dr_enrolled_via := pd_enrolledVia d, dr_last_seen_at := timestamptz (pd_lastSeenAt d),
                  dr_revoked_at := map_option timestamptz (pd_revokedAt d), dr_sync_cursor := pd_syncCursor d,
                  dr_last_synced_at := map_option timestamptz (pd_lastSyncedAt d)\<rparr>) (paired_devices db)\<rparr>, 1)
      else Inr (db\<lparr>paired_devices := paired_devices db @
        [\<lparr> dr_id = pd_id d, dr_owner_id = Some (pd_owner d), dr_label = pd_label d,
           dr_device_class = pd_deviceClass d, dr_enrolled_via = pd_enrolledVia d,
           dr_created_at = timestamptz (pd_createdAt d), dr_last_seen_at = timestamptz (pd_lastSeenAt d),
           dr_revoked_at = map_option timestamptz (pd_revokedAt d), dr_pairing_session_id = None,
           dr_sync_cursor = pd_syncCursor d,
           dr_last_synced_at = map_option timestamptz (pd_lastSyncedAt d) \<rparr>]\<rparr>, 1))"

definition device_Save :: "PairedDevice \<Rightarrow> database command" where
  "device_Save d db = exec_one (upsert_device d) db"

definition default_label :: "string \<Rightarrow> DeviceClass \<Rightarrow> string" where
  "default_label label deviceClass =
     (let trimmed = TrimSpace label in
      if trimmed = [] then (if deviceClass = [] then ''Device'' else deviceClass) else trimmed)"

definition insert_provisional :: "device_row \<Rightarrow> statement" where
  "insert_provisional r db =
     (if \<not> device_check (dr_label r) (dr_device_class r) (dr_enrolled_via r) then Inl check_violation
      else if list_ex (\<lambda>x. dr_id x = dr_id r \<or> dr_pairing_session_id x = dr_pairing_session_id r
                        \<and> dr_pairing_session_id r \<noteq> None) (paired_devices db) then Inl unique_violation
      else if (case dr_pairing_session_id r of None \<Rightarrow> False
               | Some i \<Rightarrow> i \<notin> sr_id ` set (pairing_sessions db)) then Inl foreign_key_violation
      else Inr (db\<lparr>paired_devices := paired_devices db @ [r]\<rparr>, 1))"

definition provisional_row ::
  "DeviceID \<Rightarrow> string \<Rightarrow> DeviceClass \<Rightarrow> EnrolledVia \<Rightarrow> PairingSessionID \<Rightarrow> instant \<Rightarrow> device_row" where
  "provisional_row i label deviceClass enrolledVia sessionID now =
     \<lparr> dr_id = i, dr_owner_id = None, dr_label = label, dr_device_class = deviceClass,
       dr_enrolled_via = enrolledVia, dr_created_at = timestamptz now, dr_last_seen_at = timestamptz now,
       dr_revoked_at = None, dr_pairing_session_id = Some sessionID, dr_sync_cursor = 0,
       dr_last_synced_at = None \<rparr>"

definition InsertProvisional ::
  "DeviceID \<Rightarrow> string \<Rightarrow> DeviceClass \<Rightarrow> EnrolledVia \<Rightarrow> PairingSessionID \<Rightarrow> instant \<Rightarrow> database command" where
  "InsertProvisional i label deviceClass enrolledVia sessionID now db =
     (let trimmed = default_label label deviceClass in
      if length (runes trimmed) > 100 then
        (Some (derr InvalidInput ''device label cannot exceed 100 characters''), db)
      else exec_one (insert_provisional (provisional_row i trimmed deviceClass enrolledVia sessionID now)) db)"

definition update_devices :: "(device_row \<Rightarrow> bool) \<Rightarrow> (device_row \<Rightarrow> device_row) \<Rightarrow> statement" where
  "update_devices P f db =
     Inr (db\<lparr>paired_devices := update_where P f (paired_devices db)\<rparr>, length (filter P (paired_devices db)))"

definition AssignOwnerByPairingSession :: "PairingSessionID \<Rightarrow> UserID \<Rightarrow> database command" where
  "AssignOwnerByPairingSession sessionID owner db =
     exec_found (derr NotFound ''provisional paired device not found for session'')
       (\<lambda>db. let P = (\<lambda>r. dr_pairing_session_id r = Some sessionID \<and> dr_owner_id r = None \<and> dr_revoked_at r = None) in
          if list_ex P (paired_devices db) \<and> owner \<notin> user_ids db then Inl foreign_key_violation
          else update_devices P (\<lambda>r. r\<lparr>dr_owner_id := Some owner\<rparr>) db) db"

definition device_Revoke :: "DeviceID \<Rightarrow> instant \<Rightarrow> database command" where
  "device_Revoke i now db =
     exec_found (derr NotFound ''paired device not found or already revoked'')
       (update_devices (\<lambda>r. dr_id r = i \<and> dr_revoked_at r = None)
         (\<lambda>r. r\<lparr>dr_revoked_at := Some (timestamptz now)\<rparr>)) db"

definition RevokeByPairingSessionID :: "PairingSessionID \<Rightarrow> instant \<Rightarrow> database command" where
  "RevokeByPairingSessionID sessionID now db =
     exec_found (derr NotFound ''paired device not found for session or already revoked'')
       (update_devices (\<lambda>r. dr_pairing_session_id r = Some sessionID \<and> dr_revoked_at r = None)
         (\<lambda>r. r\<lparr>dr_revoked_at := Some (timestamptz now)\<rparr>)) db"

definition UpdateLastSeen :: "DeviceID \<Rightarrow> instant \<Rightarrow> database command" where
  "UpdateLastSeen i now db =
     exec_found (derr NotFound ''paired device not found or already revoked'')
       (update_devices (\<lambda>r. dr_id r = i \<and> dr_revoked_at r = None)
         (\<lambda>r. r\<lparr>dr_last_seen_at := timestamptz now\<rparr>)) db"

definition scanDevice :: "device_row option \<Rightarrow> PairedDevice result" where
  "scanDevice row =
     (case row of
        None \<Rightarrow> Inl (derr NotFound ''paired device not found'')
      | Some r \<Rightarrow>
         (case dr_owner_id r of
            None \<Rightarrow> Inl (derr NotFound ''paired device is provisional (unassigned owner)'')
          | Some owner \<Rightarrow>
             (if owner = [] then Inl (derr NotFound ''paired device is provisional (unassigned owner)'')
              else RehydratePairedDevice (dr_id r) owner (dr_label r) (dr_device_class r) (dr_enrolled_via r)
                (dr_created_at r) (dr_last_seen_at r) (dr_revoked_at r) (dr_sync_cursor r) (dr_last_synced_at r))))"

definition device_query :: "(device_row \<Rightarrow> bool) \<Rightarrow> database \<Rightarrow> PairedDevice result" where
  "device_query P db =
     (if \<not> connected db then Inl (TranslateError ErrClosed)
      else scanDevice (List.find P (paired_devices db)))"

definition device_FindByID :: "database \<Rightarrow> DeviceID \<Rightarrow> PairedDevice result" where
  "device_FindByID db i = device_query (\<lambda>r. dr_id r = i) db"

definition FindByPairingSessionID :: "database \<Rightarrow> PairingSessionID \<Rightarrow> PairedDevice result" where
  "FindByPairingSessionID db i = device_query (\<lambda>r. dr_pairing_session_id r = Some i) db"

definition FindByOwner :: "database \<Rightarrow> UserID \<Rightarrow> PairedDevice list result" where
  "FindByOwner db owner =
     (if \<not> connected db then Inl (TranslateError ErrClosed)
      else mapR (\<lambda>r. scanDevice (Some r))
        (sort_key (\<lambda>r. - dr_created_at r) (filter (\<lambda>r. dr_owner_id r = Some owner) (paired_devices db))))"

definition device_AdvanceCursor :: "DeviceID \<Rightarrow> int \<Rightarrow> instant \<Rightarrow> database command" where
  "device_AdvanceCursor i newCursor now db =
     (case Exec (update_devices (\<lambda>r. dr_id r = i \<and> dr_revoked_at r = None \<and> dr_sync_cursor r < newCursor)
              (\<lambda>r. r\<lparr>dr_sync_cursor := newCursor, dr_last_synced_at := Some (timestamptz now)\<rparr>)) db of
        (Inl err, db') \<Rightarrow> (Some (TranslateError err), db')
      | (Inr n, db') \<Rightarrow>
          (if n = 0 then
             (case device_FindByID db' i of
                Inl err \<Rightarrow> (Some (derr NotFound ''paired device not found or already revoked''), db')
              | Inr dev \<Rightarrow>
                  (if pd_revokedAt dev \<noteq> None
                   then (Some (derr NotFound ''paired device not found or already revoked''), db')
                   else (None, db')))
           else (None, db')))"

section \<open>Verify and consume\<close>

definition verify_body ::
  "PairingSessionRepository \<Rightarrow> string result \<Rightarrow> PairingCode \<Rightarrow> DeviceID \<Rightarrow> string \<Rightarrow> DeviceClass \<Rightarrow> instant
   \<Rightarrow> database \<Rightarrow> PairingSession result \<times> database" where
  "verify_body R rand code deviceID label deviceClass now db =
     (case FindPendingByCodeIndexForUpdate True R db (CodeIndex R code) now of
        Inl err \<Rightarrow> (Inl err, db)
      | Inr session0 \<Rightarrow>
         (case Verify now code deviceID session0 of
            (Some err, _) \<Rightarrow> (Inl err, db)
          | (None, session1) \<Rightarrow>
             (case Consume now session1 of
                (Some err, _) \<Rightarrow> (Inl err, db)
              | (None, session) \<Rightarrow>
                 (case session_Save R rand session db of
                    (Some err, db') \<Rightarrow> (Inl err, db')
                  | (None, db') \<Rightarrow>
                     (case InsertProvisional deviceID label deviceClass ''pairing_code'' (ss_id session) now db' of
                        (Some err, db'') \<Rightarrow> (Inl err, db'')
                      | (None, db'') \<Rightarrow> (Inr session, db''))))))"

definition VerifyAndConsume ::
  "PairingSessionRepository \<Rightarrow> string result \<Rightarrow> PairingCode \<Rightarrow> DeviceID \<Rightarrow> string \<Rightarrow> DeviceClass \<Rightarrow> instant
   \<Rightarrow> database \<Rightarrow> PairingSession result \<times> database" where
  "VerifyAndConsume R rand code deviceID label deviceClass now db =
     (if length (runes (default_label label deviceClass)) > 100 then
        (Inl (derr InvalidInput ''device label cannot exceed 100 characters''), db)
      else InTx (verify_body R rand code deviceID label deviceClass now) db)"

definition enrols ::
  "PairingSessionRepository \<Rightarrow> PairingCode \<Rightarrow> DeviceID \<Rightarrow> string \<Rightarrow> DeviceClass \<Rightarrow> instant
   \<Rightarrow> database \<Rightarrow> PairingSession \<Rightarrow> database \<Rightarrow> bool" where
  "enrols R code d label cls now db s db' \<longleftrightarrow>
     (\<exists>r c. r \<in> set (pairing_sessions db) \<and> sr_state r = PairingPending \<and> now < sr_expires_at r
        \<and> decryptCode R (sr_code_ciphertext r) = Inr c \<and> Equal c code \<and> sr_code_index r = CodeIndex R code
        \<and> ss_id s = sr_id r \<and> ss_state s = PairingConsumed \<and> ss_deviceID s = Some d
        \<and> pairing_sessions db' = update_where (\<lambda>x. sr_id x = sr_id r)
             (\<lambda>x. x\<lparr>sr_state := PairingConsumed, sr_expires_at := timestamptz (sr_expires_at r), sr_device_id := Some d\<rparr>)
             (pairing_sessions db)
        \<and> paired_devices db' = paired_devices db
             @ [provisional_row d (default_label label cls) cls ''pairing_code'' (sr_id r) now])"

lemma pending_scan:
  assumes "FindPendingByCodeIndexForUpdate True R db k now = Inr s"
  obtains r c where "r \<in> set (pairing_sessions db)" "sr_code_index r = k" "sr_state r = PairingPending"
    "decryptCode R (sr_code_ciphertext r) = Inr c" "ss_id s = sr_id r" "ss_code s = c"
    "ss_state s = PairingPending" "ss_expiresAt s = sr_expires_at r"
proof -
  obtain r where r: "List.find (\<lambda>r. sr_code_index r = k \<and> sr_state r = PairingPending
        \<and> sr_expires_at r > timestamptz now) (pairing_sessions db) = Some r" and sc: "scanSession R (Some r) = Inr s"
    using assms
    by (cases "List.find (\<lambda>r. sr_code_index r = k \<and> sr_state r = PairingPending
        \<and> sr_expires_at r > timestamptz now) (pairing_sessions db)")
       (auto simp: FindPendingByCodeIndexForUpdate_def session_query_def scanSession_def split: if_splits)
  have "r \<in> set (pairing_sessions db)" "sr_code_index r = k" "sr_state r = PairingPending"
    using r by (auto simp: find_Some_iff)
  moreover obtain c where "decryptCode R (sr_code_ciphertext r) = Inr c"
    and re: "RehydratePairingSession (sr_id r) (sr_initiated_by r) c (sr_state r) (sr_created_at r)
        (sr_expires_at r) (sr_device_id r) = Inr s"
    using sc by (auto simp: scanSession_def split: sum.splits)
  moreover have "ss_id s = sr_id r" "ss_code s = c" "ss_state s = sr_state r" "ss_expiresAt s = sr_expires_at r"
    using re by (auto simp: RehydratePairingSession_def split: if_splits)
  ultimately show ?thesis by (intro that) auto
qed

lemma Verify_accepts:
  assumes "Verify now code d s = (None, s')"
  shows "Equal (ss_code s) code" "now < ss_expiresAt s" "s' = s\<lparr>ss_deviceID := Some d, ss_state := PairingVerified\<rparr>"
  using assms by (auto simp: session_ops split: if_splits)

lemma Consume_accepts:
  assumes "Consume now s = (None, s')"
  shows "s' = s\<lparr>ss_state := PairingConsumed\<rparr>"
  using assms by (auto simp: session_ops split: if_splits)

lemma session_Save_existing:
  assumes "session_Save R rand s db = (None, db')" "ss_id s \<in> sr_id ` set (pairing_sessions db)"
  shows "pairing_sessions db' = update_where (\<lambda>x. sr_id x = ss_id s)
      (\<lambda>x. x\<lparr>sr_state := ss_state s, sr_expires_at := timestamptz (ss_expiresAt s), sr_device_id := ss_deviceID s\<rparr>)
      (pairing_sessions db) \<and> paired_devices db' = paired_devices db"
proof -
  obtain t where "exec_one (upsert_session (session_row_of R t [] s)) db = (None, db')"
    using assms(1) by (auto simp: session_Save_def SaveWithInitiatorIP_def split: sum.splits)
  then obtain d n where d: "upsert_session (session_row_of R t [] s) db = Inr (d, n)" "db' = tick d"
    by (rule exec_one_ok)
  have "list_ex (\<lambda>x. sr_id x = ss_id s) (pairing_sessions db)" using assms(2) by (auto simp: list_ex_iff)
  then show ?thesis using d
    by (auto simp: upsert_session_def session_row_of_def tick_def split: if_splits)
qed

lemma InsertProvisional_ok:
  assumes "InsertProvisional i l c v sid now db = (None, db')"
  shows "pairing_sessions db' = pairing_sessions db
    \<and> paired_devices db' = paired_devices db @ [provisional_row i (default_label l c) c v sid now]"
proof -
  have "exec_one (insert_provisional (provisional_row i (default_label l c) c v sid now)) db = (None, db')"
    using assms by (auto simp: InsertProvisional_def Let_def split: if_splits)
  then obtain d n where "insert_provisional (provisional_row i (default_label l c) c v sid now) db = Inr (d, n)"
    "db' = tick d" by (rule exec_one_ok)
  then show ?thesis by (auto simp: insert_provisional_def tick_def split: if_splits)
qed

lemma verify_body_ok:
  assumes "verify_body R rand code d label cls now db = (Inr s, db')"
  shows "enrols R code d label cls now db s db'"
proof -
  obtain s0 where f: "FindPendingByCodeIndexForUpdate True R db (CodeIndex R code) now = Inr s0"
    using assms by (auto simp: verify_body_def split: sum.splits)
  obtain s1 where v: "Verify now code d s0 = (None, s1)"
    using assms f by (auto simp: verify_body_def split: prod.splits option.splits)
  obtain s2 where c: "Consume now s1 = (None, s2)"
    using assms f v by (auto simp: verify_body_def split: prod.splits option.splits)
  obtain db1 where sv: "session_Save R rand s2 db = (None, db1)"
    using assms f v c by (auto simp: verify_body_def split: prod.splits option.splits)
  have i: "InsertProvisional d label cls ''pairing_code'' (ss_id s2) now db1 = (None, db')" "s = s2"
    using assms f v c sv by (auto simp: verify_body_def split: prod.splits option.splits)
  obtain r k where r: "r \<in> set (pairing_sessions db)" "sr_code_index r = CodeIndex R code"
      "sr_state r = PairingPending" "decryptCode R (sr_code_ciphertext r) = Inr k" "ss_id s0 = sr_id r"
      "ss_code s0 = k" "ss_expiresAt s0 = sr_expires_at r"
    using f by (rule pending_scan)
  note s1 = Verify_accepts [OF v] and s2 = Consume_accepts [OF c]
  have "ss_id s2 \<in> sr_id ` set (pairing_sessions db)" using r s1 s2 by simp
  from session_Save_existing [OF sv this] InsertProvisional_ok [OF i(1)]
  show ?thesis
    using r s1 s2 i(2) unfolding enrols_def by (intro exI [of _ r] exI [of _ k]) simp
qed

lemma VerifyAndConsume_failed:
  "VerifyAndConsume R rand code d label cls now db = (Inl e, db') \<Longrightarrow> same_tables db' db"
  by (auto simp: VerifyAndConsume_def same_tables_def dest: pgtx.failed split: if_splits)

lemma VerifyAndConsume_enrols:
  assumes "VerifyAndConsume R rand code d label cls now db = (Inr s, db')"
  shows "enrols R code d label cls now db s db'"
proof -
  have "InTx (verify_body R rand code d label cls now) db = (Inr s, db')"
    using assms by (simp add: VerifyAndConsume_def split: if_splits)
  from verify_body_ok [OF pgtx.committed [OF this]] show ?thesis .
qed

text \<open>Pairing is atomic and needs the code.  A failed \<open>VerifyAndConsume\<close> changes no table.  A
  successful one found a pending session that had not expired and whose stored code is the one
  submitted, turned exactly that session into a consumed one naming the device, and added exactly
  one device row, without owner, for that session.\<close>

theorem VerifyAndConsume_atomic:
  "case VerifyAndConsume R rand code d label cls now db of
     (Inl e, db') \<Rightarrow> same_tables db' db
   | (Inr s, db') \<Rightarrow> enrols R code d label cls now db s db'"
  by (auto dest: VerifyAndConsume_failed VerifyAndConsume_enrols split: prod.splits sum.splits)

section \<open>A code works once\<close>

text \<open>No pending session answers to the index \<open>k\<close>.\<close>

definition spent :: "string \<Rightarrow> database \<Rightarrow> bool" where
  "spent k db \<longleftrightarrow> (\<forall>r \<in> set (pairing_sessions db). sr_code_index r = k \<longrightarrow> sr_state r \<noteq> PairingPending)"

record verify_call =
  vc_rand :: "string result"
  vc_code :: PairingCode
  vc_deviceID :: DeviceID
  vc_label :: string
  vc_deviceClass :: DeviceClass
  vc_now :: instant

definition verify_call_db :: "PairingSessionRepository \<Rightarrow> verify_call \<Rightarrow> database \<Rightarrow> database" where
  "verify_call_db R v db =
     snd (VerifyAndConsume R (vc_rand v) (vc_code v) (vc_deviceID v) (vc_label v) (vc_deviceClass v) (vc_now v) db)"

lemma unlinked_spent: "unlinked (spent k)"
  by (simp add: unlinked_def spent_def)

lemma spent_after:
  assumes "VerifyAndConsume R rand code d label cls now db = (res, db')" "spent k db"
  shows "spent k db'"
proof (cases res)
  case (Inl e)
  then have "same_tables db' db" using VerifyAndConsume_failed assms(1) by blast
  then show ?thesis using same_tables_unlinked [OF _ unlinked_spent] assms(2) by simp
next
  case (Inr s)
  then have "enrols R code d label cls now db s db'"
    using VerifyAndConsume_enrols assms(1) by blast
  then show ?thesis using assms(2) unfolding enrols_def by (auto simp: spent_def set_update_where)
qed

lemma spent_by_success:
  assumes "VerifyAndConsume R rand code d label cls now db = (Inr s, db')"
    and "distinct (map sr_code_index (pairing_sessions db))"
  shows "spent (CodeIndex R code) db'"
proof -
  have "enrols R code d label cls now db s db'"
    using VerifyAndConsume_enrols assms(1) by blast
  then obtain r d' where r: "r \<in> set (pairing_sessions db)" "sr_code_index r = CodeIndex R code"
    and u: "pairing_sessions db' = update_where (\<lambda>x. sr_id x = sr_id r)
             (\<lambda>x. x\<lparr>sr_state := PairingConsumed, sr_expires_at := timestamptz (sr_expires_at r), sr_device_id := Some d'\<rparr>)
             (pairing_sessions db)"
    unfolding enrols_def by blast
  have only: "x = r" if "x \<in> set (pairing_sessions db)" "sr_code_index x = CodeIndex R code" for x
    using assms(2) r that by (auto simp: distinct_map inj_on_def)
  show ?thesis
    unfolding spent_def u set_update_where using only by auto
qed

lemma spent_refuses:
  assumes "spent (CodeIndex R code) db"
  shows "\<exists>e. fst (VerifyAndConsume R rand code d label cls now db) = Inl e"
proof (rule ccontr)
  assume "\<not> ?thesis"
  then obtain s db' where v: "VerifyAndConsume R rand code d label cls now db = (Inr s, db')"
    by (metis prod.collapse sum.exhaust)
  then have "enrols R code d label cls now db s db'"
    by (rule VerifyAndConsume_enrols)
  then show False using assms unfolding enrols_def spent_def by blast
qed

text \<open>A pairing code enrols one device.  Once a code was accepted, no later call accepts it,
  whatever other pairing calls happen in between.\<close>

theorem code_enrols_once:
  assumes "distinct (map sr_code_index (pairing_sessions db))"
    and "VerifyAndConsume R rand code d label cls now db = (Inr s, db')"
  shows "\<exists>e. fst (VerifyAndConsume R rand2 code d2 label2 cls2 now2 (fold (verify_call_db R) vs db')) = Inl e"
proof -
  have "spent (CodeIndex R code) x \<Longrightarrow> spent (CodeIndex R code) (fold (verify_call_db R) vs x)" for x
  proof (induction vs arbitrary: x)
    case (Cons v vs)
    have "spent (CodeIndex R code) (verify_call_db R v x)"
      using spent_after [of R "vc_rand v" "vc_code v" "vc_deviceID v" "vc_label v" "vc_deviceClass v" "vc_now v" x]
        Cons.prems unfolding verify_call_db_def by (metis prod.collapse)
    then show ?case using Cons.IH by simp
  qed simp
  then show ?thesis using spent_by_success [OF assms(2,1)] spent_refuses by blast
qed

section \<open>Saving and loading a session\<close>

text \<open>A saved session loads back.  For a well-formed session with a fresh id and code index and
  times in whole microseconds, over a connection that stays up and a cipher that opens what it
  sealed, \<open>Save\<close> succeeds and \<open>FindByID\<close> returns the session.\<close>

theorem session_Save_FindByID:
  assumes "session_ok s" "crockford (pc_b (ss_code s))"
    and "timestamptz (ss_createdAt s) = ss_createdAt s" "timestamptz (ss_expiresAt s) = ss_expiresAt s"
    and "aead_opens R" "length nonce = nonceSize" "db_links db = None" "ss_initiatedBy s \<in> user_ids db"
    and "\<forall>r \<in> set (pairing_sessions db). sr_id r \<noteq> ss_id s \<and> sr_code_index r \<noteq> CodeIndex R (ss_code s)"
  shows "\<exists>db'. session_Save R (Inr nonce) s db = (None, db') \<and> session_FindByID R db' (ss_id s) = Inr s"
proof -
  obtain t where t: "encryptCode R (Inr nonce) (ss_code s) = Inr t" by (simp add: encryptCode_def)
  let ?r = "session_row_of R t [] s"
  let ?db = "db\<lparr>pairing_sessions := pairing_sessions db @ [?r]\<rparr>"
  have st: "ss_state s \<in> {PairingPending, PairingVerified, PairingConsumed, PairingExpired}"
    using assms(1) by (auto simp: session_ok_def split: option.splits)
  have "upsert_session ?r db = Inr (?db, 1)"
    using assms(8,9) st by (auto simp: upsert_session_def session_row_of_def list_ex_iff)
  then have "session_Save R (Inr nonce) s db = (None, tick ?db)"
    using t exec_one_up [OF assms(7)] by (simp add: session_Save_def SaveWithInitiatorIP_def)
  moreover have "List.find (\<lambda>r. sr_id r = ss_id s) (pairing_sessions db @ [?r]) = Some ?r"
    using assms(9) row_by_append [of sr_id "ss_id s" "pairing_sessions db" "[?r]"]
      row_by_eq_None_iff [of sr_id "ss_id s" "pairing_sessions db"]
    by (auto simp: row_by_def session_row_of_def)
  moreover have "scanSession R (Some ?r) = Inr s"
    using decrypt_encrypt [OF assms(5,6,2) t] assms(1,3,4) RehydratePairingSession_ok_iff [of s]
    by (simp add: scanSession_def session_row_of_def)
  ultimately show ?thesis
    using assms(7) by (simp add: session_FindByID_def session_query_def connected_def tick_def)
qed

section \<open>Examples\<close>

definition sample_session :: PairingSession where
  "sample_session = \<lparr> ss_id = ''s'', ss_initiatedBy = ''u'', ss_code = \<lparr> pc_b = ''01234567'' \<rparr>,
     ss_state = PairingPending, ss_createdAt = 0, ss_expiresAt = 60000, ss_deviceID = None \<rparr>"

text \<open>A repository whose cipher is the identity, enough to run the operations on.\<close>

definition plain_repo :: PairingSessionRepository where
  "plain_repo = \<lparr> aead_Seal = (\<lambda>_ t. t), aead_Open = (\<lambda>_ t. Inr t), hmac_sha256 = (\<lambda>_ t. t),
     indexKey = [], unicode_upper = (\<lambda>r. r) \<rparr>"

definition host_user :: user_row where
  "host_user = \<lparr> ur_id = ''u'', ur_username = ''host'', ur_email = ''host@example.org'', ur_role = ''admin'',
     ur_created_at = 0, ur_updated_at = 0 \<rparr>"

lemma ur_id_host_user [simp]: "ur_id host_user = ''u''"
  by (simp add: host_user_def)

definition pairing_host :: database where
  "pairing_host = (empty_database [''L''])\<lparr>users := [host_user]\<rparr>"

definition paired_host :: database where
  "paired_host = snd (session_Save plain_repo (Inr ''000000000000'') sample_session pairing_host)"

lemma nonblank_ids: "\<not> blank ''s''" "\<not> blank ''u''" "\<not> blank ''d''"
  by (simp_all add: blank_iff runes_def segments_ascii IsSpace_def between_def)

lemma sample_session_ok: "session_ok sample_session" "crockford (pc_b (ss_code sample_session))"
  by (simp_all add: session_ok_def sample_session_def nonblank_ids maxPairingTTL_def pairingCodeLen_def
      crockford_def CrockfordAlphabet_def)

theorem session_Save_FindByID_witness:
  "\<exists>db'. session_Save plain_repo (Inr ''000000000000'') sample_session pairing_host = (None, db')
     \<and> session_FindByID plain_repo db' ''s'' = Inr sample_session"
proof -
  have "aead_opens plain_repo" "length ''000000000000'' = nonceSize" "db_links pairing_host = None"
    "ss_initiatedBy sample_session \<in> user_ids pairing_host"
    "\<forall>r \<in> set (pairing_sessions pairing_host). sr_id r \<noteq> ss_id sample_session
       \<and> sr_code_index r \<noteq> CodeIndex plain_repo (ss_code sample_session)"
    "timestamptz (ss_createdAt sample_session) = ss_createdAt sample_session"
    "timestamptz (ss_expiresAt sample_session) = ss_expiresAt sample_session"
    by (simp_all add: aead_opens_def plain_repo_def nonceSize_def pairing_host_def empty_database_def
        sample_session_def timestamptz_def)
  from session_Save_FindByID [OF sample_session_ok this(6,7,1-5)] show ?thesis
    by (simp add: sample_session_def)
qed

lemma paired_host_rows:
  "paired_host = pairing_host\<lparr>pairing_sessions :=
     [session_row_of plain_repo ''00000000000001234567'' [] sample_session]\<rparr>"
  by (simp add: paired_host_def session_Save_def SaveWithInitiatorIP_def encryptCode_def plain_repo_def
      sample_session_def exec_one_def Exec_def connected_def pairing_host_def empty_database_def
      upsert_session_def session_row_of_def CodeIndex_def tick_def)

lemma sample_scan:
  "FindPendingByCodeIndexForUpdate True plain_repo paired_host ''01234567'' 5 = Inr sample_session"
proof -
  have "decryptCode plain_repo ''00000000000001234567'' = Inr (ss_code sample_session)"
    using NewPairingCode_crockford [OF sample_session_ok(2)]
    by (simp add: decryptCode_def nonceSize_def plain_repo_def sample_session_def)
  then have "scanSession plain_repo (Some (session_row_of plain_repo ''00000000000001234567'' [] sample_session))
      = Inr sample_session"
    using RehydratePairingSession_ok_iff [of sample_session] sample_session_ok(1)
    by (simp add: scanSession_def session_row_of_def sample_session_def timestamptz_def)
  then show ?thesis
    by (simp add: FindPendingByCodeIndexForUpdate_def session_query_def paired_host_rows pairing_host_def
        empty_database_def connected_def session_row_of_def CodeIndex_def plain_repo_def sample_session_def
        timestamptz_def)
qed

lemma phone_label: "default_label ''phone'' ''phone'' = ''phone''" "runes ''phone'' = map byte_of ''phone''"
proof -
  show r: "runes ''phone'' = map byte_of ''phone''" by (rule runes_all_ascii) simp
  have "TrimSpace ''phone'' = ''phone''"
    by (rule TrimSpace_id) (simp add: r IsSpace_def between_def)
  then show "default_label ''phone'' ''phone'' = ''phone''" by (simp add: default_label_def)
qed

lemma sample_enrolment:
  "\<exists>s db'. VerifyAndConsume plain_repo (Inr ''000000000000'') \<lparr> pc_b = ''01234567'' \<rparr> ''d'' ''phone'' ''phone'' 5 paired_host
     = (Inr s, db')"
proof -
  let ?v = "sample_session\<lparr>ss_deviceID := Some ''d'', ss_state := PairingVerified\<rparr>"
  have v: "Verify 5 \<lparr> pc_b = ''01234567'' \<rparr> ''d'' sample_session = (None, ?v)"
    by (simp add: session_ops sample_session_def nonblank_ids Equal_def pairingCodeLen_def)
  have c: "Consume 5 ?v = (None, ?v\<lparr>ss_state := PairingConsumed\<rparr>)"
    by (simp add: session_ops sample_session_def)
  have k: "CodeIndex plain_repo \<lparr> pc_b = ''01234567'' \<rparr> = ''01234567''"
    by (simp add: CodeIndex_def plain_repo_def)
  show ?thesis
    by (simp add: VerifyAndConsume_def phone_label InTx_def verify_body_def k sample_scan v c)
       (simp add: paired_host_rows pairing_host_def empty_database_def connected_def session_Save_def
        SaveWithInitiatorIP_def encryptCode_def plain_repo_def exec_one_def Exec_def upsert_session_def
        session_row_of_def update_where_def tick_def InsertProvisional_def phone_label Let_def
        insert_provisional_def provisional_row_def device_check_def DeviceClass_valid_def
        EnrolledVia_valid_def sample_session_def)
qed

theorem code_enrols_once_witness:
  "\<exists>s db' e. VerifyAndConsume plain_repo (Inr ''000000000000'') \<lparr> pc_b = ''01234567'' \<rparr> ''d'' ''phone'' ''phone'' 5 paired_host
     = (Inr s, db')
   \<and> fst (VerifyAndConsume plain_repo (Inr ''000000000000'') \<lparr> pc_b = ''01234567'' \<rparr> ''x'' ''tv'' ''tv'' 6
       (fold (verify_call_db plain_repo) [] db')) = Inl e"
proof -
  have "distinct (map sr_code_index (pairing_sessions paired_host))" by (simp add: paired_host_rows)
  moreover obtain s db' where v: "VerifyAndConsume plain_repo (Inr ''000000000000'') \<lparr> pc_b = ''01234567'' \<rparr>
      ''d'' ''phone'' ''phone'' 5 paired_host = (Inr s, db')" using sample_enrolment by blast
  ultimately obtain e where "fst (VerifyAndConsume plain_repo (Inr ''000000000000'') \<lparr> pc_b = ''01234567'' \<rparr>
      ''x'' ''tv'' ''tv'' 6 (fold (verify_call_db plain_repo) [] db')) = Inl e"
    using code_enrols_once [of paired_host plain_repo "Inr ''000000000000''" "\<lparr> pc_b = ''01234567'' \<rparr>" "''d''"
      "''phone''" "''phone''" 5 s db' "Inr ''000000000000''" "''x''" "''tv''" "''tv''" 6 "[]"] by blast
  with v show ?thesis by blast
qed

text \<open>The stored last-seen time can move backwards.  \<open>Touch\<close> only moves it forward, but
  \<open>UpdateLastSeen\<close>, which writes the row, stores whatever time it is given: a device last seen at
  microsecond 9 is recorded as last seen at microsecond 2.\<close>

lemma UpdateLastSeen_moves_backward:
  "\<exists>db d d' db'. device_FindByID db ''d'' = Inr d \<and> UpdateLastSeen ''d'' 2000 db = (None, db')
     \<and> device_FindByID db' ''d'' = Inr d' \<and> pd_lastSeenAt d' < pd_lastSeenAt d
     \<and> pd_lastSeenAt (snd (Touch 2000 d)) = pd_lastSeenAt d"
proof -
  let ?row = "\<lambda>t. \<lparr> dr_id = ''d'', dr_owner_id = Some ''u'', dr_label = ''phone'', dr_device_class = ''phone'',
    dr_enrolled_via = ''pairing_code'', dr_created_at = 0, dr_last_seen_at = t, dr_revoked_at = None,
    dr_pairing_session_id = None, dr_sync_cursor = 0, dr_last_synced_at = None \<rparr>"
  let ?db = "\<lambda>t. pairing_host\<lparr>paired_devices := [?row t]\<rparr>"
  let ?dev = "\<lambda>t. \<lparr> pd_id = ''d'', pd_owner = ''u'', pd_label = ''phone'', pd_deviceClass = ''phone'',
    pd_enrolledVia = ''pairing_code'', pd_createdAt = 0, pd_lastSeenAt = t, pd_revokedAt = None,
    pd_syncCursor = 0, pd_lastSyncedAt = None \<rparr>"
  have nb: "\<not> blank ''phone''" by (simp add: blank_iff phone_label IsSpace_def between_def)
  have f: "device_FindByID (?db t) ''d'' = Inr (?dev t)" for t
    by (simp add: device_FindByID_def device_query_def pairing_host_def empty_database_def connected_def
        scanDevice_def RehydratePairedDevice_def nonblank_ids nb phone_label maxDeviceLabelRunes_def
        DeviceClass_valid_def EnrolledVia_valid_def)
  have "UpdateLastSeen ''d'' 2000 (?db 9000) = (None, ?db 2000)"
    by (simp add: UpdateLastSeen_def exec_found_def Exec_def update_devices_def update_where_def
        pairing_host_def empty_database_def connected_def tick_def timestamptz_def)
  with f [of 9000] f [of 2000] show ?thesis
    by (intro exI [of _ "?db 9000"] exI [of _ "?dev 9000"] exI [of _ "?dev 2000"] exI [of _ "?db 2000"])
       (simp add: Touch_def)
qed

end
