(* ===== verification/Go_Rounding.thy ===== *)
theory Go_Rounding
  imports Complex_Main "HOL-Library.Log_Nat"
begin

text \<open>
  \<open>float64\<close> arithmetic on finite values of ordinary size: the exact result is rounded to the nearest
  number with a 53-bit significand, ties to even.  The bounds proved here are the ones the retry
  delays need; they also hold where a compiler fuses a product and a sum into one rounding.
\<close>

definition round_half_even :: "rat \<Rightarrow> int" where
  "round_half_even x =
     (let f = \<lfloor>x\<rfloor>; d = x - of_int f in
      if d < 1/2 then f else if d > 1/2 then f + 1 else if even f then f else f + 1)"

text \<open>The exponent of the leading bit of a positive value, from those of numerator and denominator.\<close>

definition exponent :: "rat \<Rightarrow> int" where
  "exponent x =
     (let (a, b) = quotient_of x;
          e = int (floorlog 2 (nat a)) - int (floorlog 2 (nat b)) in
      if 2 powi e \<le> x then e else e - 1)"

definition round_pos :: "rat \<Rightarrow> rat" where
  "round_pos x = (let u = 2 powi (exponent x - 52) in of_int (round_half_even (x / u)) * u)"

definition round64 :: "rat \<Rightarrow> rat" where
  "round64 x = (if x = 0 then 0 else if x < 0 then - round_pos (- x) else round_pos x)"

text \<open>Conversion to an integer type: truncation toward zero.\<close>

definition trunc :: "rat \<Rightarrow> int" where
  "trunc x = (if 0 \<le> x then \<lfloor>x\<rfloor> else \<lceil>x\<rceil>)"

lemma round_half_even_error: "\<bar>of_int (round_half_even x) - x\<bar> \<le> 1/2"
proof -
  define d where "d = x - of_int \<lfloor>x\<rfloor>"
  have d: "0 \<le> d" "d < 1" unfolding d_def by linarith+
  have "of_int (round_half_even x) - x = - d \<and> d \<le> 1/2 \<or> of_int (round_half_even x) - x = 1 - d \<and> 1/2 \<le> d"
    by (simp add: round_half_even_def Let_def d_def)
  then show ?thesis using d by (elim disjE conjE) (simp_all add: abs_if)
qed

lemma exponent_lower:
  assumes "0 < x"
  shows "2 powi exponent x \<le> x"
proof -
  obtain a b where q: "quotient_of x = (a, b)" by fastforce
  have b: "0 < b" using quotient_of_denom_pos [OF q] .
  have x: "x = of_int a / of_int b" using quotient_of_div [OF q] .
  have a: "0 < a" using assms x b by (simp add: zero_less_divide_iff)
  let ?A = "floorlog 2 (nat a)" and ?B = "floorlog 2 (nat b)"
  have na: "0 < nat a" and nb: "0 < nat b" using a b by simp_all
  have A: "2 ^ (?A - 1) \<le> nat a"
    using floorlog_bounds [OF na, of 2] by (simp del: power_Suc)
  have A0: "0 < ?A" using na floorlog_eq_zero_iff [of 2 "nat a"] by linarith
  have la: "(2 :: rat) ^ (?A - 1) \<le> of_int a"
  proof -
    have "(of_nat (2 ^ (?A - 1)) :: rat) \<le> of_nat (nat a)" using A by (simp only: of_nat_le_iff)
    then show ?thesis using a by simp
  qed
  have B: "nat b < 2 ^ ?B" using floorlog_bounds [OF nb, of 2] by simp
  have ub: "of_int b < (2 :: rat) ^ ?B"
  proof -
    have "(of_nat (nat b) :: rat) < of_nat (2 ^ ?B)" using B by (simp only: of_nat_less_iff)
    then show ?thesis using b by simp
  qed
  have "2 powi (int ?A - int ?B - 1) = (2 :: rat) ^ (?A - 1) / 2 ^ ?B"
  proof -
    have pow: "2 powi (int n - int m) = (2 :: rat) ^ n / 2 ^ m" for n m
      using power_int_diff [of "2 :: rat" "int n" "int m"] by simp
    have "int ?A - int ?B - 1 = int (?A - 1) - int ?B" using A0 by linarith
    then show ?thesis by (simp only: pow)
  qed
  also have "\<dots> \<le> of_int a / of_int b"
    by (rule frac_le [OF _ la _ less_imp_le [OF ub]]) (use a b in simp_all)
  finally have "2 powi (int ?A - int ?B - 1) \<le> x" by (simp only: x [symmetric])
  then show ?thesis unfolding exponent_def q Let_def prod.case by (cases "2 powi (int ?A - int ?B) \<le> x") simp_all
qed

lemma round_pos_error:
  assumes "0 < x"
  shows "\<bar>round_pos x - x\<bar> \<le> x / 2 ^ 53"
proof -
  let ?u = "2 powi (exponent x - 52) :: rat"
  have u: "0 < ?u" by simp
  have "round_pos x - x = (of_int (round_half_even (x / ?u)) - x / ?u) * ?u"
    using u by (simp add: round_pos_def Let_def field_simps)
  also have "\<bar>\<dots>\<bar> \<le> 1/2 * ?u"
    unfolding abs_mult using round_half_even_error [of "x / ?u"] u by (intro mult_mono) auto
  also have "1/2 * ?u = 2 powi exponent x / 2 ^ 53"
    by (simp add: power_int_diff)
  also have "\<dots> \<le> x / 2 ^ 53"
    using exponent_lower [OF assms] by (intro divide_right_mono) auto
  finally show ?thesis .
qed

lemma round64_between:
  assumes "0 \<le> lo" "lo \<le> x" "x \<le> hi"
  shows "lo * (1 - 1 / 2 ^ 53) \<le> round64 x" "round64 x \<le> hi * (1 + 1 / 2 ^ 53)"
proof -
  have "x * (1 - 1 / 2 ^ 53) \<le> round64 x \<and> round64 x \<le> x * (1 + 1 / 2 ^ 53)"
  proof (cases "x = 0")
    case False
    then have "0 < x" using assms by simp
    then have "round_pos x - x \<le> x / 2 ^ 53" "- (round_pos x - x) \<le> x / 2 ^ 53"
      using round_pos_error [of x] by (simp_all only: abs_le_iff)
    then show ?thesis using \<open>0 < x\<close> unfolding round64_def ring_distribs by auto
  qed (simp add: round64_def)
  moreover have "lo * (1 - 1 / 2 ^ 53) \<le> x * (1 - 1 / 2 ^ 53)" "x * (1 + 1 / 2 ^ 53) \<le> hi * (1 + 1 / 2 ^ 53)"
    using assms by (auto intro: mult_right_mono)
  ultimately show "lo * (1 - 1 / 2 ^ 53) \<le> round64 x" "round64 x \<le> hi * (1 + 1 / 2 ^ 53)" by linarith+
qed

lemma round64_scaled:
  assumes "0 \<le> d" "0 \<le> lo" "lo \<le> f" "f \<le> hi"
  shows "d * lo * (1 - 1 / 2 ^ 53) ^ 2 \<le> round64 (round64 d * f)"
    and "round64 (round64 d * f) \<le> d * hi * (1 + 1 / 2 ^ 53) ^ 2"
proof -
  have e: "d * (1 - 1 / 2 ^ 53) \<le> round64 d" "round64 d \<le> d * (1 + 1 / 2 ^ 53)"
    using round64_between [of d d d] assms(1) by auto
  have e0: "0 \<le> d * (1 - 1 / 2 ^ 53)" using assms(1) by simp
  have lo: "d * (1 - 1 / 2 ^ 53) * lo \<le> round64 d * f"
    using e e0 assms by (intro mult_mono) linarith+
  have hi: "round64 d * f \<le> d * (1 + 1 / 2 ^ 53) * hi"
    using e e0 assms by (intro mult_mono) linarith+
  have "0 \<le> d * (1 - 1 / 2 ^ 53) * lo" using e0 assms(2) by (rule mult_nonneg_nonneg)
  from round64_between [OF this lo hi] show
    "d * lo * (1 - 1 / 2 ^ 53) ^ 2 \<le> round64 (round64 d * f)"
    "round64 (round64 d * f) \<le> d * hi * (1 + 1 / 2 ^ 53) ^ 2"
    by (simp_all only: power2_eq_square mult.assoc mult.commute mult.left_commute)
qed

end
