(* ===== verification/Job_Model.thy ===== *)
theory Job_Model
  imports Domain_Error Go_Text Go_Rounding "HOL-Library.List_Lexorder" "HOL-Library.Char_ord"
begin

text \<open>
  The pure part of the background job queue, package \<open>internal/jobs\<close>: job states (\<open>job.go\<close>), retry
  delays (\<open>backoff.go\<close>), the bounded error text (\<open>errortext.go\<close>), the handler registry
  (\<open>registry.go\<close>) and the tuning (\<open>config.go\<close>).
\<close>

section \<open>States\<close>

type_synonym State = string

abbreviation StateQueued :: State where "StateQueued \<equiv> ''queued''"
abbreviation StateRunning :: State where "StateRunning \<equiv> ''running''"
abbreviation StateRetrying :: State where "StateRetrying \<equiv> ''retrying''"
abbreviation StateCompleted :: State where "StateCompleted \<equiv> ''completed''"
abbreviation StateDeadLetter :: State where "StateDeadLetter \<equiv> ''dead_letter''"

definition IsTerminal :: "State \<Rightarrow> bool" where
  "IsTerminal s \<longleftrightarrow> s = StateCompleted \<or> s = StateDeadLetter"

definition CanTransitionTo :: "State \<Rightarrow> State \<Rightarrow> bool" where
  "CanTransitionTo s next \<longleftrightarrow>
     (if s = StateQueued \<or> s = StateRetrying then next = StateRunning
      else if s = StateRunning then next = StateCompleted \<or> next = StateRetrying \<or> next = StateDeadLetter
      else False)"

section \<open>Retry delays\<close>

record Backoff =
  Base :: duration
  Max :: duration

text \<open>The doubling loop: \<open>n\<close> more rounds, each with its 64-bit product.\<close>

primrec double_delay :: "Backoff \<Rightarrow> nat \<Rightarrow> duration \<Rightarrow> duration" where
  "double_delay b 0 delay = delay"
| "double_delay b (Suc n) delay =
     (let delay' = wrap64 (delay * 2) in
      if Max b > 0 \<and> delay' \<ge> Max b then Max b else double_delay b n delay')"

definition capped_delay :: "Backoff \<Rightarrow> int \<Rightarrow> duration" where
  "capped_delay b attempts0 =
     (let attempts = (if attempts0 < 1 then 1 else attempts0);
          delay = double_delay b (nat (attempts - 1)) (Base b) in
      if Max b > 0 \<and> delay > Max b then Max b else delay)"

text \<open>
  \<open>time.Duration(float64(delay) * (0.8 + 0.4*jitter))\<close>: every operation rounds to a double, the
  conversion to a whole number of nanoseconds truncates.
\<close>

definition jitter_factor :: "rat \<Rightarrow> rat" where
  "jitter_factor jitter0 =
     (let jitter = (if jitter0 < 0 then 0 else jitter0);
          jitter = (if jitter \<ge> 1 then round64 (999999 / 1000000) else jitter) in
      round64 (round64 (4/5) + round64 (round64 (2/5) * jitter)))"

definition For :: "Backoff \<Rightarrow> int \<Rightarrow> rat \<Rightarrow> duration" where
  "For b attempts jitter =
     trunc (round64 (round64 (of_int (capped_delay b attempts)) * jitter_factor jitter))"

lemma double_delay_capped:
  assumes "0 < delay" "delay \<le> Max b" "Max b < 2 ^ 62"
  shows "double_delay b n delay = min (delay * 2 ^ n) (Max b)"
  using assms(1,2)
proof (induction n arbitrary: delay)
  case (Suc n)
  have w: "wrap64 (delay * 2) = delay * 2"
    using Suc.prems assms(3) by (intro wrap64_id) (simp add: in_int64_def)
  show ?case
  proof (cases "delay * 2 \<ge> Max b")
    case True
    have "delay * 2 * 1 \<le> delay * 2 * 2 ^ n" using Suc.prems by (intro mult_left_mono) simp_all
    then have "Max b \<le> delay * 2 ^ Suc n" using True by (simp add: mult.assoc)
    then show ?thesis using True w Suc.prems by (simp add: Let_def)
  next
    case False
    then show ?thesis using w Suc.prems Suc.IH [of "delay * 2"] by (simp add: Let_def mult.assoc)
  qed
qed simp

lemma capped_delay_min:
  assumes "0 < Base b" "Base b \<le> Max b" "Max b < 2 ^ 62" "1 \<le> attempts"
  shows "capped_delay b attempts = min (Base b * 2 ^ nat (attempts - 1)) (Max b)"
  using double_delay_capped [OF assms(1-3)] assms by (simp add: capped_delay_def Let_def)

lemma jitter_factor_bounds:
  assumes "0 \<le> jitter" "jitter < 1"
  shows "4/5 * (1 - 1 / 2 ^ 51) \<le> jitter_factor jitter" "jitter_factor jitter \<le> 6/5 * (1 + 1 / 2 ^ 51)"
proof -
  let ?u = "1 / 2 ^ 53 :: rat"
  define p where "p = round64 (round64 (2/5) * jitter)"
  have t: "round64 (2/5) \<le> 2/5 * (1 + ?u)" "0 \<le> round64 (2/5)"
    using round64_between [of "2/5" "2/5" "2/5"] by simp_all
  have "round64 (2/5) * jitter \<le> 2/5 * (1 + ?u) * 1"
    using t assms by (intro mult_mono) auto
  moreover have "0 \<le> round64 (2/5) * jitter" using t assms by simp
  ultimately have p: "0 \<le> p" "p \<le> 2/5 * (1 + ?u) * (1 + ?u)"
    using round64_between [of 0 "round64 (2/5) * jitter" "2/5 * (1 + ?u)"] by (simp_all add: p_def)
  have q: "4/5 * (1 - ?u) \<le> round64 (4/5)" "round64 (4/5) \<le> 4/5 * (1 + ?u)"
    using round64_between [of "4/5" "4/5" "4/5"] by simp_all
  have s: "4/5 * (1 - ?u) \<le> round64 (4/5) + p"
    "round64 (4/5) + p \<le> 4/5 * (1 + ?u) + 2/5 * (1 + ?u) * (1 + ?u)" using p q by linarith+
  have "4/5 * (1 - ?u) * (1 - ?u) \<le> round64 (round64 (4/5) + p)"
    "round64 (round64 (4/5) + p) \<le> (4/5 * (1 + ?u) + 2/5 * (1 + ?u) * (1 + ?u)) * (1 + ?u)"
    using round64_between [OF _ s] by simp_all
  moreover have "jitter_factor jitter = round64 (round64 (4/5) + p)"
    using assms by (simp add: jitter_factor_def p_def)
  moreover have "4/5 * (1 - 1 / 2 ^ 51) \<le> 4/5 * (1 - ?u) * (1 - ?u)"
    "(4/5 * (1 + ?u) + 2/5 * (1 + ?u) * (1 + ?u)) * (1 + ?u) \<le> 6/5 * (1 + 1 / 2 ^ 51)" by simp_all
  ultimately show "4/5 * (1 - 1 / 2 ^ 51) \<le> jitter_factor jitter" "jitter_factor jitter \<le> 6/5 * (1 + 1 / 2 ^ 51)"
    by linarith+
qed

lemma trunc_bounds: "0 \<le> x \<Longrightarrow> x - 1 < of_int (trunc x)" "0 \<le> x \<Longrightarrow> of_int (trunc x) \<le> x"
  by (simp_all add: trunc_def) linarith

text \<open>C40: A retry waits for the documented delay.  With a positive base not above the cap, the delay
  before the retry that follows attempt \<open>n\<close> is \<open>min (Base * 2^(n-1)) Max\<close> spread by a factor
  between 0.8 and 1.2, up to the rounding of double arithmetic and the truncation to whole
  nanoseconds; so it is positive and never above 1.21 times the cap.\<close>

theorem backoff_bounds:
  assumes "0 < Base b" "Base b \<le> Max b" "Max b < 2 ^ 62" "1 \<le> attempts" "0 \<le> jitter" "jitter < 1"
  shows "4/5 * of_int (min (Base b * 2 ^ nat (attempts - 1)) (Max b)) * (1 - 1 / 2 ^ 50) - 1
      < (of_int (For b attempts jitter) :: rat)
    \<and> of_int (For b attempts jitter)
      \<le> 6/5 * of_int (min (Base b * 2 ^ nat (attempts - 1)) (Max b)) * (1 + 1 / 2 ^ 50 :: rat)"
proof -
  define d where "d = (of_int (min (Base b * 2 ^ nat (attempts - 1)) (Max b)) :: rat)"
  have d: "0 \<le> d" "d = of_int (capped_delay b attempts)"
    using assms(1,2) capped_delay_min [OF assms(1-4)] by (simp_all add: d_def)
  define x where "x = round64 (round64 d * jitter_factor jitter)"
  note f = jitter_factor_bounds [OF assms(5,6)]
  have "d * (4/5 * (1 - 1 / 2 ^ 51)) * (1 - 1 / 2 ^ 53) ^ 2 \<le> x"
    "x \<le> d * (6/5 * (1 + 1 / 2 ^ 51)) * (1 + 1 / 2 ^ 53) ^ 2"
    unfolding x_def using round64_scaled [OF d(1) _ f] by simp_all
  moreover have "d * (4/5 * (1 - 1 / 2 ^ 50)) \<le> d * ((4/5 * (1 - 1 / 2 ^ 51)) * (1 - 1 / 2 ^ 53) ^ 2)"
    "d * ((6/5 * (1 + 1 / 2 ^ 51)) * (1 + 1 / 2 ^ 53) ^ 2) \<le> d * (6/5 * (1 + 1 / 2 ^ 50))"
    using d(1) by (intro mult_left_mono; simp add: power2_eq_square)+
  ultimately have x: "4/5 * d * (1 - 1 / 2 ^ 50) \<le> x" "x \<le> 6/5 * d * (1 + 1 / 2 ^ 50)"
    by (simp_all only: mult.assoc mult.commute mult.left_commute)
  have "0 \<le> 4/5 * d * (1 - 1 / 2 ^ 50)" using d(1) by simp
  then have "0 \<le> x" using x(1) by linarith
  moreover have "For b attempts jitter = trunc x" by (simp add: For_def x_def d(2))
  ultimately show ?thesis using trunc_bounds [of x] x unfolding d_def [symmetric] by auto
qed

theorem backoff_bounds_witness:
  "of_int (For \<lparr> Base = 5 * second, Max = 5 * minute \<rparr> 3 (1/2))
     \<le> 6/5 * of_int (min (5 * second * 2 ^ nat (3 - 1)) (5 * minute)) * (1 + 1 / 2 ^ 50 :: rat)"
  using backoff_bounds [of "\<lparr> Base = 5 * second, Max = 5 * minute \<rparr>" 3 "1/2"] by simp

section \<open>The recorded error text\<close>

definition maxLastErrorBytes :: nat where
  "maxLastErrorBytes = 512"

definition redactedPlaceholder :: string where
  "redactedPlaceholder = ''[redacted]''"

text \<open>\<open>utf8.RuneStart\<close>: not a continuation byte.\<close>

definition RuneStart :: "char \<Rightarrow> bool" where
  "RuneStart c \<longleftrightarrow> \<not> cont c"

primrec truncate_at :: "string \<Rightarrow> nat \<Rightarrow> nat" where
  "truncate_at s 0 = 0"
| "truncate_at s (Suc n) = (if \<not> RuneStart (s ! Suc n) then truncate_at s n else Suc n)"

definition truncateBytes :: "string \<Rightarrow> nat \<Rightarrow> string" where
  "truncateBytes s limit = (if length s \<le> limit then s else take (truncate_at s limit) s)"

text \<open>The text of an error value is an argument; a nil error has none.\<close>

definition redactError :: "string option \<Rightarrow> string" where
  "redactError text = (case text of None \<Rightarrow> [] | Some t \<Rightarrow> truncateBytes t maxLastErrorBytes)"

text \<open>Logging and JSON encoding of a \<open>RedactedText\<close> never show it.\<close>

definition LogValue :: "string \<Rightarrow> string" where
  "LogValue t = redactedPlaceholder"

definition MarshalJSON :: "string \<Rightarrow> string" where
  "MarshalJSON t = CHR 0x22 # redactedPlaceholder @ [CHR 0x22]"

text \<open>Text in which every rune decodes.\<close>

definition valid_utf8 :: "string \<Rightarrow> bool" where
  "valid_utf8 s \<longleftrightarrow> (\<forall>(r, bs) \<in> set (segments s). \<not> (r = RuneError \<and> length bs = 1))"

definition rune_chunk :: "string \<Rightarrow> bool" where
  "rune_chunk bs \<longleftrightarrow> bs \<noteq> [] \<and> RuneStart (hd bs) \<and> list_all cont (tl bs)"

lemma decode_rune_chunk:
  assumes "decode_rune (byte_of c) cs = (r, n)" "\<not> (r = RuneError \<and> n = 0)"
  shows "RuneStart c \<and> list_all cont (take n cs)"
  using assms
  by (auto simp: decode_rune_def RuneStart_def cont_def between_def split: if_splits list.splits)

lemma segments_chunks: "valid_utf8 s \<Longrightarrow> list_all rune_chunk (map snd (segments s))"
proof (induction s rule: segments.induct)
  case 1
  show ?case by simp
next
  case (2 c cs)
  obtain r n where d: "decode_rune (byte_of c) cs = (r, n)" by fastforce
  have v: "\<not> (r = RuneError \<and> length (c # take n cs) = 1)" "valid_utf8 (drop n cs)"
    using "2.prems" d by (auto simp: valid_utf8_def segments_Cons)
  then have "\<not> (r = RuneError \<and> n = 0)" by auto
  then show ?case
    using "2.IH" v d decode_rune_chunk [OF d] by (simp add: segments_Cons rune_chunk_def)
qed

lemma start_is_boundary:
  assumes "list_all rune_chunk bss" "n < length (concat bss)"
  shows "RuneStart (concat bss ! n) \<longleftrightarrow> (\<exists>k < length bss. n = length (concat (take k bss)))"
  using assms
proof (induction bss arbitrary: n)
  case (Cons b bss)
  have b: "b \<noteq> []" "RuneStart (hd b)" "list_all cont (tl b)" using Cons.prems by (simp_all add: rune_chunk_def)
  have split_k: "(\<exists>k < length (b # bss). n = length (concat (take k (b # bss))))
      \<longleftrightarrow> n = 0 \<or> (\<exists>k < length bss. n = length b + length (concat (take k bss)))"
    by (simp add: Ex_less_Suc2)
  show ?case
  proof (cases "n < length b")
    case True
    have "RuneStart (b ! n) \<longleftrightarrow> n = 0"
    proof (cases n)
      case 0
      then show ?thesis using b by (simp add: hd_conv_nth)
    next
      case (Suc m)
      then have "cont (tl b ! m)" using b(3) True by (auto simp: list_all_length nth_tl)
      then show ?thesis using Suc True by (simp add: RuneStart_def nth_tl)
    qed
    moreover have "\<not> (\<exists>k < length bss. n = length b + length (concat (take k bss)))" using True by auto
    ultimately show ?thesis using True split_k by (simp add: nth_append)
  next
    case False
    have "RuneStart (concat bss ! (n - length b))
        \<longleftrightarrow> (\<exists>k < length bss. n - length b = length (concat (take k bss)))"
      using Cons.prems False by (intro Cons.IH) auto
    moreover have "0 < length b" using b(1) by simp
    then have "n \<noteq> 0" using False by linarith
    moreover have "n - length b = x \<longleftrightarrow> n = length b + x" for x using False by linarith
    ultimately show ?thesis using False unfolding split_k by (simp add: nth_append)
  qed
qed simp

lemma truncate_at_spec:
  "truncate_at s n \<le> n \<and> (truncate_at s n = 0 \<or> RuneStart (s ! truncate_at s n))
   \<and> (\<forall>j. truncate_at s n < j \<longrightarrow> j \<le> n \<longrightarrow> \<not> RuneStart (s ! j))"
proof (induction n)
  case (Suc n)
  then show ?case by (auto simp: le_Suc_eq)
qed simp

lemma concat_take_prefix: "concat (take j bss) = take (length (concat (take j bss))) (concat bss)"
proof -
  have "concat bss = concat (take j bss) @ concat (drop j bss)"
    by (simp only: concat_append [symmetric] append_take_drop_id)
  then show ?thesis by (metis append_eq_conv_conj)
qed

lemma longest_chunks:
  assumes ch: "list_all rune_chunk bss" and lt: "limit < length (concat bss)"
  obtains k where "k < length bss" "truncate_at (concat bss) limit = length (concat (take k bss))"
    "limit < length (concat (take (Suc k) bss))"
proof -
  let ?m = "truncate_at (concat bss) limit"
  note spec = truncate_at_spec [of "concat bss" limit]
  have m: "?m \<le> limit" by (rule conjunct1 [OF spec])
  note zero_or_start = conjunct1 [OF conjunct2 [OF spec]] and none_between = conjunct2 [OF conjunct2 [OF spec]]
  have m': "?m < length (concat bss)" using m lt by (rule le_less_trans)
  have "\<exists>k < length bss. ?m = length (concat (take k bss))"
  proof (cases "?m = 0")
    case True
    have "bss \<noteq> []" using lt by auto
    then show ?thesis using True by (intro exI [of _ 0]) simp
  next
    case False
    with zero_or_start have "RuneStart (concat bss ! ?m)" by metis
    then show ?thesis by (rule start_is_boundary [OF ch m', THEN iffD1])
  qed
  then obtain k where k: "k < length bss" "?m = length (concat (take k bss))" by blast
  let ?j = "length (concat (take (Suc k) bss))"
  have "rune_chunk (bss ! k)" using ch k(1) by (simp add: list_all_length)
  then have "0 < length (bss ! k)" by (simp add: rune_chunk_def)
  then have gt: "?m < ?j" unfolding k(2) take_Suc_conv_app_nth [OF k(1)] by simp
  have "limit < ?j"
  proof (rule ccontr)
    assume "\<not> limit < ?j"
    then have le: "?j \<le> limit" by simp
    have "Suc k < length bss"
    proof (rule ccontr)
      assume "\<not> Suc k < length bss"
      then have "take (Suc k) bss = bss" by simp
      then show False using le lt by simp
    qed
    moreover have "?j < length (concat bss)" using le lt by linarith
    ultimately have "RuneStart (concat bss ! ?j)"
      by (intro start_is_boundary [OF ch, THEN iffD2] exI [of _ "Suc k"] conjI refl)
    with none_between [rule_format, OF gt le] show False by contradiction
  qed
  then show ?thesis by (rule that [OF k])
qed

text \<open>The recorded error text is the longest prefix of whole characters within the limit: of valid
  UTF-8 text it keeps the first \<open>k\<close> runes, at most \<open>limit\<close> bytes, and one rune more would not
  fit.\<close>

theorem truncateBytes_longest:
  assumes "valid_utf8 s"
  shows "\<exists>k \<le> length (segments s). truncateBytes s limit = concat (map snd (take k (segments s)))
    \<and> length (truncateBytes s limit) \<le> limit
    \<and> (k < length (segments s) \<longrightarrow> limit < length (concat (map snd (take (Suc k) (segments s)))))"
proof (cases "length s \<le> limit")
  case True
  then show ?thesis by (intro exI [of _ "length (segments s)"]) (simp add: truncateBytes_def)
next
  case False
  then have lt: "limit < length s" by simp
  obtain k where "k < length (segments s)" "truncate_at s limit = length (concat (take k (map snd (segments s))))"
    "limit < length (concat (take (Suc k) (map snd (segments s))))"
    using longest_chunks [OF segments_chunks [OF assms], of limit] lt by auto
  moreover have "concat (take k (map snd (segments s))) = take (length (concat (take k (map snd (segments s))))) s"
    using concat_take_prefix [of k "map snd (segments s)"] by simp
  moreover have "truncate_at s limit \<le> limit" using truncate_at_spec [of s limit] by blast
  ultimately show ?thesis using lt
    by (intro exI [of _ k]) (simp add: truncateBytes_def take_map)
qed

definition accented :: string where
  "accented = [CHR ''n'', CHR 0xC3, CHR 0xA9]"

lemma accented_segments: "segments accented = [(110, ''n''), (233, [CHR 0xC3, CHR 0xA9])]"
  by (simp add: accented_def segments_Cons decode_rune_def between_def cont_def)

theorem truncateBytes_longest_witness: "truncateBytes accented 2 = ''n''"
proof -
  have "valid_utf8 accented" by (simp add: valid_utf8_def accented_segments RuneError_def)
  from truncateBytes_longest [OF this, of 2] obtain k where
    k: "k \<le> length (segments accented)" "truncateBytes accented 2 = concat (map snd (take k (segments accented)))"
      "length (truncateBytes accented 2) \<le> 2"
      "k < length (segments accented) \<longrightarrow> 2 < length (concat (map snd (take (Suc k) (segments accented))))"
    by blast
  have "k \<noteq> 0" using k(4) by (cases k) (simp_all add: accented_segments)
  moreover have "k \<noteq> 2" using k(2,3) by (auto simp: accented_segments)
  ultimately have "k = 1" using k(1) by (simp add: accented_segments)
  then show ?thesis using k(2) by (simp add: accented_segments)
qed

section \<open>The registry\<close>

type_synonym Kind = string

record 'h registration =
  maxAttempts :: int
  handler :: 'h

type_synonym 'h Registry = "(Kind \<times> 'h registration) list"

text \<open>A nil handler is \<open>None\<close>; a panic is its message.\<close>

definition Register :: "Kind \<Rightarrow> int \<Rightarrow> 'h option \<Rightarrow> 'h Registry \<Rightarrow> message + 'h Registry" where
  "Register kind attempts h r =
     (if kind = [] then Inl (Msg ''jobs: Register called with an empty kind'' [])
      else (case h of
              None \<Rightarrow> Inl (Msg ''jobs: Register(%q) called with a nil handler'' [AStr kind])
            | Some fn \<Rightarrow>
               (if attempts < 1 then
                  Inl (Msg ''jobs: Register(%q) called with maxAttempts %d, must be >= 1'' [AStr kind, AInt attempts])
                else if map_of r kind \<noteq> None then
                  Inl (Msg ''jobs: kind %q is already registered'' [AStr kind])
                else Inr ((kind, \<lparr> maxAttempts = attempts, handler = fn \<rparr>) # r))))"

definition lookup :: "'h Registry \<Rightarrow> Kind \<Rightarrow> 'h registration option" where
  "lookup r kind = map_of r kind"

definition kinds :: "'h Registry \<Rightarrow> Kind list" where
  "kinds r = sort (map fst r)"

definition registry_ok :: "'h Registry \<Rightarrow> bool" where
  "registry_ok r \<longleftrightarrow> distinct (map fst r) \<and> (\<forall>(k, g) \<in> set r. k \<noteq> [] \<and> 1 \<le> maxAttempts g)"

lemma Register_ok: "registry_ok r \<Longrightarrow> Register k n h r = Inr r' \<Longrightarrow> registry_ok r'"
  by (auto simp: Register_def registry_ok_def map_of_eq_None_iff split: if_splits option.splits)

lemma lookup_maxAttempts: "registry_ok r \<Longrightarrow> lookup r k = Some g \<Longrightarrow> 1 \<le> maxAttempts g"
  by (auto simp: registry_ok_def lookup_def dest: map_of_SomeD)

lemma kinds_lookup: "k \<in> set (kinds r) \<longleftrightarrow> lookup r k \<noteq> None"
  by (auto simp: kinds_def lookup_def map_of_eq_None_iff)

section \<open>Tuning\<close>

record Config =
  Concurrency :: int
  PollInterval :: duration
  LeaseDuration :: duration
  HeartbeatInterval :: duration
  ReaperInterval :: duration
  BackoffCurve :: Backoff
  ShutdownGracePeriod :: duration

definition DefaultConfig :: Config where
  "DefaultConfig =
     \<lparr> Concurrency = 4, PollInterval = 2 * second, LeaseDuration = 60 * second,
       HeartbeatInterval = 20 * second, ReaperInterval = 30 * second,
       BackoffCurve = \<lparr> Base = 5 * second, Max = 5 * minute \<rparr>, ShutdownGracePeriod = 10 * second \<rparr>"

definition withDefaults :: "Config \<Rightarrow> Config" where
  "withDefaults c =
     (let d = DefaultConfig; pick = (\<lambda>f. if f c \<le> 0 then f d else f c) in
      \<lparr> Concurrency = pick Concurrency, PollInterval = pick PollInterval, LeaseDuration = pick LeaseDuration,
        HeartbeatInterval = pick HeartbeatInterval, ReaperInterval = pick ReaperInterval,
        BackoffCurve = \<lparr> Base = pick (\<lambda>x. Base (BackoffCurve x)), Max = pick (\<lambda>x. Max (BackoffCurve x)) \<rparr>,
        ShutdownGracePeriod = pick ShutdownGracePeriod \<rparr>)"

lemma withDefaults_positive:
  "0 < Concurrency (withDefaults c)" "0 < LeaseDuration (withDefaults c)"
  "0 < HeartbeatInterval (withDefaults c)" "0 < Base (BackoffCurve (withDefaults c))"
  "0 < Max (BackoffCurve (withDefaults c))"
  by (simp_all add: withDefaults_def DefaultConfig_def Let_def)

end
