(* ===== verification/Job_Store.thy ===== *)
theory Job_Store
  imports Postgres_Store Job_Model
begin

text \<open>
  The jobs table and its operations: \<open>internal/jobs/store.go\<close> and \<open>errors.go\<close>.

  What a call gets from outside is an argument: the time, the identifiers the generator produces
  (lease tokens, ids of new jobs), the rows other transactions hold locked (which
  \<open>FOR UPDATE SKIP LOCKED\<close> passes over), and \<open>jsonb\<close>, PostgreSQL's normalisation of a JSON text,
  \<open>None\<close> when it is not JSON.
\<close>

section \<open>Errors, rows and jobs\<close>

definition translateError :: "go_error \<Rightarrow> go_error" where
  "translateError err =
     (if as_PgError err = Some unique_violation
      then DomainError Conflict (Msg ''the job conflicts with an existing record'' []) (Some err)
      else DomainError Internal (Msg ''an internal job store error occurred'' []) (Some err))"

definition notFound :: go_error where
  "notFound = derr NotFound ''job not found''"

record Job =
  job_ID :: string
  job_Kind :: Kind
  job_Payload :: string
  job_State :: State
  job_Attempts :: int
  job_MaxAttempts :: int
  job_AvailableAt :: instant
  job_LockedUntil :: "instant option"
  job_LeaseToken :: string
  job_LockedBy :: string
  job_LastError :: string
  job_Progress :: "(int \<times> int) option"
  job_CreatedAt :: instant
  job_UpdatedAt :: instant
  job_CompletedAt :: "instant option"

definition text_or_empty :: "string option \<Rightarrow> string" where
  "text_or_empty v = (case v of None \<Rightarrow> [] | Some t \<Rightarrow> t)"

definition scanJob :: "job_row option \<Rightarrow> Job result" where
  "scanJob row =
     (case row of
        None \<Rightarrow> Inl notFound
      | Some r \<Rightarrow> Inr
          \<lparr> job_ID = jb_id r, job_Kind = jb_kind r, job_Payload = jb_payload r, job_State = jb_status r,
            job_Attempts = jb_attempts r, job_MaxAttempts = jb_max_attempts r,
            job_AvailableAt = jb_available_at r, job_LockedUntil = jb_locked_until r,
            job_LeaseToken = text_or_empty (jb_lease_token r), job_LockedBy = text_or_empty (jb_locked_by r),
            job_LastError = text_or_empty (jb_last_error r), job_Progress = jb_progress r,
            job_CreatedAt = jb_created_at r, job_UpdatedAt = jb_updated_at r,
            job_CompletedAt = jb_completed_at r \<rparr>)"

text \<open>\<open>s.pool.Exec\<close> followed by the error translation of this package.\<close>

definition job_exec :: "statement \<Rightarrow> database \<Rightarrow> nat result \<times> database" where
  "job_exec s db =
     (case Exec s db of (Inl err, db') \<Rightarrow> (Inl (translateError err), db') | (Inr n, db') \<Rightarrow> (Inr n, db'))"

text \<open>
  \<open>Begin\<close>, the body, \<open>Commit\<close> on success and \<open>Rollback\<close> otherwise.
\<close>

definition job_tx :: "(database \<Rightarrow> 'a result \<times> database) \<Rightarrow> database \<Rightarrow> 'a result \<times> database" where
  "job_tx fn db =
     (if \<not> connected db then (Inl (translateError ErrClosed), db)
      else (case fn db of
              (Inl err, db') \<Rightarrow> (Inl err, rollback db db')
            | (Inr a, db') \<Rightarrow>
                (if connected db' then (Inr a, db')
                 else (Inl (translateError ErrClosed), rollback db db'))))"

definition update_jobs :: "(job_row \<Rightarrow> bool) \<Rightarrow> (job_row \<Rightarrow> job_row) \<Rightarrow> statement" where
  "update_jobs P f db = Inr (db\<lparr>jobs := update_where P f (jobs db)\<rparr>, length (filter P (jobs db)))"

section \<open>Enqueueing\<close>

record NewJob =
  nj_ID :: string
  nj_Kind :: Kind
  nj_Payload :: string
  nj_MaxAttempts :: int
  nj_AvailableAt :: instant
  nj_Now :: instant

definition queued_row :: "string \<Rightarrow> Kind \<Rightarrow> string \<Rightarrow> int \<Rightarrow> instant \<Rightarrow> instant \<Rightarrow> job_row" where
  "queued_row i kind payload attempts available now =
     \<lparr> jb_id = i, jb_kind = kind, jb_payload = payload, jb_status = StateQueued, jb_attempts = 0,
       jb_max_attempts = attempts, jb_available_at = timestamptz available, jb_locked_until = None,
       jb_lease_token = None, jb_locked_by = None, jb_last_error = None, jb_progress = None,
       jb_created_at = timestamptz now, jb_updated_at = timestamptz now, jb_completed_at = None \<rparr>"

definition insert_job :: "(string \<Rightarrow> string option) \<Rightarrow> job_row \<Rightarrow> statement" where
  "insert_job jsonb r db =
     (case jsonb (jb_payload r) of
        None \<Rightarrow> Inl ''22P02''
      | Some p \<Rightarrow>
          (if jb_max_attempts r > 2 ^ 31 - 1 then Inl numeric_out_of_range
           else if jb_max_attempts r < 1 then Inl check_violation
           else if jb_id r \<in> jb_id ` set (jobs db) then Inl unique_violation
           else Inr (db\<lparr>jobs := jobs db @ [r\<lparr>jb_payload := p\<rparr>]\<rparr>, 1)))"

definition payload_or_null :: "string \<Rightarrow> string" where
  "payload_or_null p = (if p = [] then ''null'' else p)"

definition Enqueue :: "(string \<Rightarrow> string option) \<Rightarrow> NewJob \<Rightarrow> database command" where
  "Enqueue jsonb j db =
     (case job_exec (insert_job jsonb (queued_row (nj_ID j) (nj_Kind j) (payload_or_null (nj_Payload j))
         (nj_MaxAttempts j) (nj_AvailableAt j) (nj_Now j))) db of
        (Inl err, db') \<Rightarrow> (Some err, db') | (Inr _, db') \<Rightarrow> (None, db'))"

section \<open>Claiming\<close>

definition GetJob :: "database \<Rightarrow> string \<Rightarrow> Job result" where
  "GetJob db i =
     (if \<not> connected db then Inl (translateError ErrClosed) else scanJob (row_by jb_id i (jobs db)))"

definition claimable :: "Kind list \<Rightarrow> instant \<Rightarrow> job_row \<Rightarrow> bool" where
  "claimable ks now r \<longleftrightarrow>
     (jb_status r = StateQueued \<or> jb_status r = StateRetrying) \<and> jb_available_at r \<le> timestamptz now
     \<and> (ks = [] \<or> jb_kind r \<in> set ks)"

text \<open>\<open>ORDER BY available_at LIMIT 1 FOR UPDATE SKIP LOCKED\<close>.\<close>

definition next_claim :: "(string \<Rightarrow> bool) \<Rightarrow> Kind list \<Rightarrow> instant \<Rightarrow> database \<Rightarrow> job_row option" where
  "next_claim locked ks now db =
     List.find (\<lambda>r. claimable ks now r \<and> \<not> locked (jb_id r)) (sort_key jb_available_at (jobs db))"

definition claimed :: "duration \<Rightarrow> string \<Rightarrow> string \<Rightarrow> instant \<Rightarrow> job_row \<Rightarrow> job_row" where
  "claimed lease token workerID now r =
     r\<lparr>jb_status := StateRunning, jb_locked_until := Some (timestamptz (now + lease)),
        jb_lease_token := Some token, jb_locked_by := Some workerID, jb_attempts := jb_attempts r + 1,
        jb_updated_at := timestamptz now\<rparr>"

definition claim_row :: "duration \<Rightarrow> string \<Rightarrow> string \<Rightarrow> instant \<Rightarrow> string \<Rightarrow> statement" where
  "claim_row lease token workerID now i db =
     (if list_ex (\<lambda>r. jb_id r = i \<and> jb_attempts r + 1 > 2 ^ 31 - 1) (jobs db) then Inl numeric_out_of_range
      else update_jobs (\<lambda>r. jb_id r = i) (claimed lease token workerID now) db)"

definition ClaimNext ::
  "duration \<Rightarrow> (string \<Rightarrow> bool) \<Rightarrow> string \<Rightarrow> string \<Rightarrow> Kind list \<Rightarrow> instant \<Rightarrow> database
   \<Rightarrow> Job option result \<times> database" where
  "ClaimNext lease locked token workerID ks now db =
     (if \<not> connected db then (Inl (translateError ErrClosed), db)
      else (case next_claim locked ks now db of
              None \<Rightarrow> (Inr None, db)
            | Some r \<Rightarrow>
               (case job_tx (job_exec (claim_row lease token workerID now (jb_id r))) db of
                  (Inl err, db') \<Rightarrow> (Inl err, db')
                | (Inr _, db') \<Rightarrow>
                   (case GetJob db' (jb_id r) of
                      Inl err \<Rightarrow> (Inl err, db') | Inr job \<Rightarrow> (Inr (Some job), db')))))"

section \<open>Writes fenced by the lease\<close>

definition fenced :: "string \<Rightarrow> string \<Rightarrow> job_row \<Rightarrow> bool" where
  "fenced i token r \<longleftrightarrow> jb_id r = i \<and> jb_lease_token r = Some token \<and> jb_status r = StateRunning"

definition fenced_write ::
  "string \<Rightarrow> string \<Rightarrow> (job_row \<Rightarrow> job_row) \<Rightarrow> database \<Rightarrow> bool result \<times> database" where
  "fenced_write i token f db =
     (case job_exec (update_jobs (fenced i token) f) db of
        (Inl err, db') \<Rightarrow> (Inl err, db') | (Inr n, db') \<Rightarrow> (Inr (n = 1), db'))"

definition Heartbeat :: "duration \<Rightarrow> string \<Rightarrow> string \<Rightarrow> instant \<Rightarrow> database \<Rightarrow> bool result \<times> database" where
  "Heartbeat lease i token now db =
     fenced_write i token
       (\<lambda>r. r\<lparr>jb_locked_until := Some (timestamptz (now + lease)), jb_updated_at := timestamptz now\<rparr>) db"

definition Complete :: "string \<Rightarrow> string \<Rightarrow> instant \<Rightarrow> database \<Rightarrow> bool result \<times> database" where
  "Complete i token now db =
     fenced_write i token
       (\<lambda>r. r\<lparr>jb_status := StateCompleted, jb_completed_at := Some (timestamptz now), jb_locked_until := None,
               jb_updated_at := timestamptz now\<rparr>) db"

definition Fail ::
  "string \<Rightarrow> string \<Rightarrow> instant \<Rightarrow> instant \<Rightarrow> bool \<Rightarrow> string option \<Rightarrow> database \<Rightarrow> bool result \<times> database" where
  "Fail i token now nextRunAt deadLetter cause db =
     fenced_write i token
       (\<lambda>r. r\<lparr>jb_status := (if deadLetter then StateDeadLetter else StateRetrying),
               jb_available_at := timestamptz nextRunAt, jb_last_error := Some (redactError cause),
               jb_locked_until := None, jb_updated_at := timestamptz now\<rparr>) db"

definition UpdateProgress ::
  "string \<Rightarrow> string \<Rightarrow> int \<Rightarrow> int \<Rightarrow> instant \<Rightarrow> database command" where
  "UpdateProgress i token current total' now db =
     (case fenced_write i token
         (\<lambda>r. r\<lparr>jb_progress := Some (current, total'), jb_updated_at := timestamptz now\<rparr>) db of
        (Inl err, db') \<Rightarrow> (Some err, db') | (Inr _, db') \<Rightarrow> (None, db'))"

section \<open>The reaper\<close>

definition reaperLastError :: string where
  "reaperLastError = ''worker lease expired without heartbeat''"

definition stale :: "instant \<Rightarrow> job_row \<Rightarrow> bool" where
  "stale now r \<longleftrightarrow> jb_status r = StateRunning
     \<and> (case jb_locked_until r of None \<Rightarrow> False | Some t \<Rightarrow> t < timestamptz now)"

definition reclaimed :: "(int \<Rightarrow> duration) \<Rightarrow> string \<Rightarrow> instant \<Rightarrow> job_row \<Rightarrow> job_row" where
  "reclaimed backoffFor token now r =
     (let exhausted = jb_attempts r \<ge> jb_max_attempts r in
      r\<lparr>jb_status := (if exhausted then StateDeadLetter else StateRetrying),
         jb_available_at := timestamptz (if exhausted then now else now + backoffFor (jb_attempts r)),
         jb_lease_token := Some token, jb_locked_by := None, jb_locked_until := None,
         jb_last_error := Some reaperLastError, jb_updated_at := timestamptz now\<rparr>)"

definition reclaimOne ::
  "(string \<Rightarrow> bool) \<Rightarrow> (int \<Rightarrow> duration) \<Rightarrow> string \<Rightarrow> instant \<Rightarrow> string \<Rightarrow> database \<Rightarrow> bool result \<times> database" where
  "reclaimOne locked backoffFor token now i db =
     (if \<not> connected db then (Inl (translateError ErrClosed), db)
      else if \<not> list_ex (\<lambda>r. jb_id r = i \<and> stale now r \<and> \<not> locked i) (jobs db) then (Inr False, db)
      else (case job_tx (job_exec (update_jobs (\<lambda>r. jb_id r = i) (reclaimed backoffFor token now))) db of
              (Inl err, db') \<Rightarrow> (Inl err, db') | (Inr _, db') \<Rightarrow> (Inr True, db')))"

text \<open>The loop over the stale ids; the first error ends it.  \<open>tokens\<close> and \<open>delays\<close> give what the
  generator and the jitter produce for each job.\<close>

fun recover_loop ::
  "(string \<Rightarrow> bool) \<Rightarrow> (string \<Rightarrow> int \<Rightarrow> duration) \<Rightarrow> (string \<Rightarrow> string) \<Rightarrow> instant \<Rightarrow> string list \<Rightarrow> nat
   \<Rightarrow> database \<Rightarrow> nat result \<times> database" where
  "recover_loop locked delays tokens now [] recovered db = (Inr recovered, db)"
| "recover_loop locked delays tokens now (i # is) recovered db =
     (case reclaimOne locked (delays i) (tokens i) now i db of
        (Inl err, db') \<Rightarrow> (Inl err, db')
      | (Inr ok, db') \<Rightarrow>
          recover_loop locked delays tokens now is (if ok then recovered + 1 else recovered) db')"

definition RecoverStale ::
  "(string \<Rightarrow> bool) \<Rightarrow> (string \<Rightarrow> int \<Rightarrow> duration) \<Rightarrow> (string \<Rightarrow> string) \<Rightarrow> instant \<Rightarrow> database
   \<Rightarrow> nat result \<times> database" where
  "RecoverStale locked delays tokens now db =
     (if \<not> connected db then (Inl (translateError ErrClosed), db)
      else recover_loop locked delays tokens now (map jb_id (filter (stale now) (jobs db))) 0 db)"

section \<open>Queries and administration\<close>

record JobFilter =
  jf_Kind :: Kind
  jf_State :: State

text \<open>\<open>ORDER BY created_at, id\<close>.\<close>

definition ListJobs :: "database \<Rightarrow> JobFilter \<Rightarrow> Job list result" where
  "ListJobs db f =
     (if \<not> connected db then Inl (translateError ErrClosed)
      else mapR (\<lambda>r. scanJob (Some r))
        (sort_key jb_created_at (sort_key jb_id
          (filter (\<lambda>r. (jf_Kind f = [] \<or> jb_kind r = jf_Kind f) \<and> (jf_State f = [] \<or> jb_status r = jf_State f))
            (jobs db)))))"

definition job_states :: "State list" where
  "job_states = [StateQueued, StateRunning, StateRetrying, StateCompleted, StateDeadLetter]"

definition CountByState :: "database \<Rightarrow> (State \<rightharpoonup> nat) result" where
  "CountByState db =
     (if \<not> connected db then Inl (translateError ErrClosed)
      else Inr (\<lambda>s. if s \<in> set job_states \<or> s \<in> jb_status ` set (jobs db)
                    then Some (length (filter (\<lambda>r. jb_status r = s) (jobs db))) else None))"

definition cancelled :: "instant \<Rightarrow> job_row \<Rightarrow> job_row" where
  "cancelled now r =
     r\<lparr>jb_status := StateDeadLetter, jb_last_error := Some ''cancelled_by_admin'',
        jb_completed_at := Some (timestamptz now), jb_locked_until := None, jb_updated_at := timestamptz now\<rparr>"

text \<open>The error of the last \<open>Commit\<close> is returned untranslated.\<close>

definition CancelJob :: "string \<Rightarrow> instant \<Rightarrow> database command" where
  "CancelJob i now db =
     (if \<not> connected db then (Some (translateError ErrClosed), db)
      else (case row_by jb_id i (jobs db) of
              None \<Rightarrow> (Some notFound, db)
            | Some r \<Rightarrow>
               (if IsTerminal (jb_status r) then (Some (derr Conflict ''job is already in a terminal state''), db)
                else (case job_exec (update_jobs (\<lambda>r. jb_id r = i) (cancelled now)) db of
                        (Inl err, db') \<Rightarrow> (Some err, rollback db db')
                      | (Inr _, db') \<Rightarrow>
                          (if connected db' then (None, db') else (Some ErrClosed, rollback db db'))))))"

definition RetryJob ::
  "(string \<Rightarrow> string option) \<Rightarrow> string \<Rightarrow> string \<Rightarrow> instant \<Rightarrow> database \<Rightarrow> string result \<times> database" where
  "RetryJob jsonb i newID now db =
     (if \<not> connected db then (Inl (translateError ErrClosed), db)
      else (case row_by jb_id i (jobs db) of
              None \<Rightarrow> (Inl notFound, db)
            | Some r \<Rightarrow>
               (if jb_status r \<noteq> StateDeadLetter then
                  (Inl (DomainError Conflict
                    (Msg ''only a dead-letter job can be retried; this job is %s'' [AStr (jb_status r)]) None), db)
                else (case job_tx (job_exec (insert_job jsonb (queued_row newID (jb_kind r)
                              (payload_or_null (jb_payload r)) (jb_max_attempts r) now now))) db of
                        (Inl err, db') \<Rightarrow> (Inl err, db')
                      | (Inr _, db') \<Rightarrow> (Inr newID, db')))))"

definition clearable :: "instant \<Rightarrow> job_row \<Rightarrow> bool" where
  "clearable olderThan r \<longleftrightarrow> jb_status r = StateCompleted
     \<and> (case jb_completed_at r of
          Some t \<Rightarrow> t \<le> timestamptz olderThan | None \<Rightarrow> jb_updated_at r \<le> timestamptz olderThan)"

definition ClearCompleted :: "instant \<Rightarrow> database \<Rightarrow> nat result \<times> database" where
  "ClearCompleted olderThan db =
     job_exec (\<lambda>db. Inr (db\<lparr>jobs := delete_where (clearable olderThan) (jobs db)\<rparr>,
                         length (filter (clearable olderThan) (jobs db)))) db"

end
