(* ===== verification/Job_Safety.thy ===== *)
theory Job_Safety
  imports Job_Store
begin

text \<open>
  The promises of the job table.  \<open>job_event\<close> lets any operation of the store happen, with any
  arguments and any outcome, on a ghost set of the identifiers generated so far, and records the
  jobs it hands to a worker; \<open>job_step\<close> forgets them.  The only assumptions are that a generated identifier is new and that a worker dead-letters a failed job
  whose attempts are used up, which \<open>Job_Engine\<close> proves of the engine.  \<open>table_step\<close> is the
  abstract specification: what an operation may do to the table.  Every operation implements it,
  and the promises are proved of the specification.
\<close>

section \<open>The specification\<close>

inductive table_step :: "string set \<times> job_row list \<Rightarrow> string set \<times> job_row list \<Rightarrow> bool" where
  t_same: "U \<subseteq> U' \<Longrightarrow> table_step (U, t) (U', t)"
| t_insert: "i \<notin> U \<Longrightarrow> 1 \<le> n \<Longrightarrow>
    table_step (U, t) (insert i U, t @ [(queued_row i k p n a now)\<lparr>jb_payload := p'\<rparr>])"
| t_claim: "token \<notin> U \<Longrightarrow> r \<in> set t \<Longrightarrow> jb_status r = StateQueued \<or> jb_status r = StateRetrying \<Longrightarrow>
    table_step (U, t) (insert token U, update_where (\<lambda>x. jb_id x = jb_id r) (claimed lease token w now) t)"
| t_keep: "(\<And>x. jb_id (f x) = jb_id x \<and> jb_status (f x) = jb_status x \<and> jb_lease_token (f x) = jb_lease_token x
      \<and> jb_attempts (f x) = jb_attempts x \<and> jb_max_attempts (f x) = jb_max_attempts x) \<Longrightarrow>
    table_step (U, t) (U, update_where (fenced i token) f t)"
| t_finish: "s \<in> {StateCompleted, StateRetrying, StateDeadLetter} \<Longrightarrow>
    (\<And>x. jb_id (f x) = jb_id x \<and> jb_status (f x) = s \<and> jb_lease_token (f x) = jb_lease_token x
      \<and> jb_attempts (f x) = jb_attempts x \<and> jb_max_attempts (f x) = jb_max_attempts x) \<Longrightarrow>
    (\<forall>x \<in> set t. fenced i token x \<longrightarrow> s = StateRetrying \<longrightarrow> jb_attempts x < jb_max_attempts x) \<Longrightarrow>
    table_step (U, t) (U, update_where (fenced i token) f t)"
| t_reclaim: "token \<notin> U \<Longrightarrow> r \<in> set t \<Longrightarrow> jb_status r = StateRunning \<Longrightarrow>
    table_step (U, t) (insert token U, update_where (\<lambda>x. jb_id x = jb_id r) (reclaimed d token now) t)"
| t_cancel: "r \<in> set t \<Longrightarrow> \<not> IsTerminal (jb_status r) \<Longrightarrow>
    table_step (U, t) (U, update_where (\<lambda>x. jb_id x = jb_id r) (cancelled now) t)"
| t_clear: "table_step (U, t) (U, delete_where (clearable cutoff) t)"

definition job_inv :: "string set \<Rightarrow> job_row list \<Rightarrow> bool" where
  "job_inv U t \<longleftrightarrow> distinct (map jb_id t) \<and> jb_id ` set t \<subseteq> U
     \<and> (\<forall>r \<in> set t. jb_status r \<in> set job_states \<and> 0 \<le> jb_attempts r \<and> jb_attempts r \<le> jb_max_attempts r
          \<and> (jb_status r \<in> {StateQueued, StateRetrying} \<longrightarrow> jb_attempts r < jb_max_attempts r)
          \<and> (jb_status r = StateRunning \<longrightarrow> jb_lease_token r \<noteq> None)
          \<and> (case jb_lease_token r of None \<Rightarrow> True | Some k \<Rightarrow> k \<in> U))"

lemma same_id_same_row:
  "distinct (map jb_id t) \<Longrightarrow> r \<in> set t \<Longrightarrow> x \<in> set t \<Longrightarrow> jb_id x = jb_id r \<Longrightarrow> x = r"
  by (auto simp: distinct_map inj_on_def)

lemma ids_update_where: "(\<And>x. jb_id (f x) = jb_id x) \<Longrightarrow> map jb_id (update_where P f t) = map jb_id t"
  by (rule map_update_where)

lemma job_inv_update:
  assumes "job_inv U t" "U \<subseteq> U'" "\<And>x. jb_id (f x) = jb_id x"
    and "\<And>x. x \<in> set t \<Longrightarrow> P x \<Longrightarrow>
      jb_status (f x) \<in> set job_states \<and> 0 \<le> jb_attempts (f x) \<and> jb_attempts (f x) \<le> jb_max_attempts (f x)
      \<and> (jb_status (f x) \<in> {StateQueued, StateRetrying} \<longrightarrow> jb_attempts (f x) < jb_max_attempts (f x))
      \<and> (jb_status (f x) = StateRunning \<longrightarrow> jb_lease_token (f x) \<noteq> None)
      \<and> (case jb_lease_token (f x) of None \<Rightarrow> True | Some k \<Rightarrow> k \<in> U')"
  shows "job_inv U' (update_where P f t)"
proof -
  have "set (map jb_id (update_where P f t)) = set (map jb_id t)" by (simp only: ids_update_where [OF assms(3)])
  then have "jb_id ` set (update_where P f t) \<subseteq> U'" using assms(1,2) by (auto simp: job_inv_def)
  moreover have "distinct (map jb_id (update_where P f t))"
    using assms(1) by (simp only: ids_update_where [OF assms(3)] job_inv_def)
  moreover have "case jb_lease_token x of None \<Rightarrow> True | Some k \<Rightarrow> k \<in> U'" if "x \<in> set t" for x
    using assms(1,2) that by (fastforce simp: job_inv_def split: option.splits)
  ultimately show ?thesis
    using assms(1,4) unfolding job_inv_def set_update_where by auto
qed

lemma table_step_inv:
  assumes "table_step S S'" "job_inv (fst S) (snd S)"
  shows "job_inv (fst S') (snd S')"
  using assms
proof (induction rule: table_step.induct)
  case (t_same U U' t)
  then show ?case by (auto simp: job_inv_def split: option.splits)
next
  case (t_insert i U n t k p a now p')
  then show ?case by (auto simp: job_inv_def queued_row_def job_states_def split: option.splits)
next
  case (t_claim token U r t lease w now)
  have inv: "job_inv U t" using t_claim by simp
  have r: "jb_attempts r < jb_max_attempts r" "0 \<le> jb_attempts r"
    using inv t_claim(2,3) by (auto simp: job_inv_def)
  have "job_inv (insert token U) (update_where (\<lambda>x. jb_id x = jb_id r) (claimed lease token w now) t)"
  proof (rule job_inv_update [OF inv])
    fix x assume "x \<in> set t" "jb_id x = jb_id r"
    then have "x = r" using same_id_same_row t_claim(2) inv by (auto simp: job_inv_def)
    then show "jb_status (claimed lease token w now x) \<in> set job_states \<and> 0 \<le> jb_attempts (claimed lease token w now x)
      \<and> jb_attempts (claimed lease token w now x) \<le> jb_max_attempts (claimed lease token w now x)
      \<and> (jb_status (claimed lease token w now x) \<in> {StateQueued, StateRetrying} \<longrightarrow>
          jb_attempts (claimed lease token w now x) < jb_max_attempts (claimed lease token w now x))
      \<and> (jb_status (claimed lease token w now x) = StateRunning \<longrightarrow> jb_lease_token (claimed lease token w now x) \<noteq> None)
      \<and> (case jb_lease_token (claimed lease token w now x) of None \<Rightarrow> True | Some k \<Rightarrow> k \<in> insert token U)"
      using r by (simp add: claimed_def job_states_def)
  qed (auto simp: claimed_def)
  then show ?case by simp
next
  case (t_keep f U t i token)
  then show ?case
    unfolding fst_conv snd_conv by (intro job_inv_update [where U = U]) (auto simp: job_inv_def)
next
  case (t_finish s f t i token U)
  then show ?case
    unfolding fst_conv snd_conv
    by (intro job_inv_update [where U = U]) (auto simp: job_inv_def job_states_def)
next
  case (t_reclaim token U r t d now)
  have "x = r" if "x \<in> set t" "jb_id x = jb_id r" for x
    using same_id_same_row t_reclaim that by (auto simp: job_inv_def)
  then show ?case
    unfolding fst_conv snd_conv using t_reclaim
    by (intro job_inv_update [where U = U]) (auto simp: reclaimed_def job_states_def job_inv_def Let_def)
next
  case (t_cancel r t U now)
  then show ?case
    unfolding fst_conv snd_conv
    by (intro job_inv_update [where U = U]) (auto simp: cancelled_def job_states_def job_inv_def)
next
  case (t_clear U t cutoff)
  then show ?case by (auto simp: job_inv_def delete_where_def distinct_map inj_on_def)
qed

section \<open>What never happens\<close>

text \<open>The worker with this token may write this job.\<close>

definition holds_lease :: "string \<Rightarrow> string \<Rightarrow> job_row list \<Rightarrow> bool" where
  "holds_lease i token t \<longleftrightarrow> (\<exists>r \<in> set t. fenced i token r)"

lemma lost_lease_step:
  assumes "table_step S S'" "\<not> holds_lease i k (snd S)" "k \<in> fst S"
  shows "\<not> holds_lease i k (snd S') \<and> k \<in> fst S'"
  using assms
proof (induction rule: table_step.induct)
  case (t_claim token U r t lease w now)
  then show ?case by (auto simp: holds_lease_def fenced_def set_update_where claimed_def)
next
  case (t_finish s f t j token U)
  have "\<not> fenced i k (f x)" for x using t_finish(1,2) by (auto simp: fenced_def)
  then show ?case using t_finish by (auto simp: holds_lease_def set_update_where)
next
  case (t_keep f U t j token)
  have "fenced i k (f x) \<longleftrightarrow> fenced i k x" for x using t_keep(1) by (simp add: fenced_def)
  then show ?case using t_keep by (auto simp: holds_lease_def set_update_where split: if_splits)
next
  case (t_reclaim token U r t d now)
  then show ?case by (auto simp: holds_lease_def fenced_def set_update_where reclaimed_def Let_def)
next
  case (t_cancel r t U now)
  then show ?case by (auto simp: holds_lease_def fenced_def set_update_where cancelled_def)
qed (auto simp: holds_lease_def fenced_def queued_row_def delete_where_def)

text \<open>The row with this id, if there is one, is \<open>r\<close>.\<close>

definition only_row :: "job_row \<Rightarrow> job_row list \<Rightarrow> bool" where
  "only_row r t \<longleftrightarrow> (\<forall>x \<in> set t. jb_id x = jb_id r \<longrightarrow> x = r)"

lemma only_row_update:
  assumes "only_row r t" "\<And>x. jb_id (f x) = jb_id x" "\<not> P r"
  shows "only_row r (update_where P f t)"
  using assms by (auto simp: only_row_def set_update_where)

lemma terminal_row_step:
  assumes "table_step S S'" "only_row z (snd S)" "IsTerminal (jb_status z)" "jb_id z \<in> fst S"
  shows "only_row z (snd S') \<and> jb_id z \<in> fst S'"
  using assms
proof (induction rule: table_step.induct)
  case (t_claim token U r t lease w now)
  have "jb_id z \<noteq> jb_id r" using t_claim by (force simp: only_row_def IsTerminal_def)
  then show ?case using t_claim only_row_update [of z t "claimed lease token w now"] by (simp add: claimed_def)
next
  case (t_finish s f t j token U)
  have "\<not> fenced j token z" using t_finish by (auto simp: fenced_def IsTerminal_def)
  then show ?case using t_finish only_row_update [of z t f] by simp
next
  case (t_keep f U t j token)
  have "\<not> fenced j token z" using t_keep by (auto simp: fenced_def IsTerminal_def)
  then show ?case using t_keep only_row_update [of z t f] by simp
next
  case (t_reclaim token U r t d now)
  have "jb_id z \<noteq> jb_id r" using t_reclaim by (force simp: only_row_def IsTerminal_def)
  then show ?case using t_reclaim only_row_update [of z t "reclaimed d token now"] by (simp add: reclaimed_def Let_def)
next
  case (t_cancel r t U now)
  have "jb_id z \<noteq> jb_id r" using t_cancel by (force simp: only_row_def)
  then show ?case using t_cancel only_row_update [of z t "cancelled now"] by (simp add: cancelled_def)
qed (auto simp: only_row_def queued_row_def delete_where_def)

section \<open>The operations implement the specification\<close>

interpretation jobtx: transactor job_tx same_tables
proof unfold_locales
  show "same_tables db' db" if "job_tx fn db = (Inl e, db')"
    for fn :: "database \<Rightarrow> 'a result \<times> database" and db e db'
    using that by (auto simp: job_tx_def same_tables_def rollback_def split: if_splits prod.splits sum.splits)
  show "fn db = (Inr a, db')" if "job_tx fn db = (Inr a, db')"
    for fn :: "database \<Rightarrow> 'a result \<times> database" and db a db'
    using that by (auto simp: job_tx_def split: if_splits prod.splits sum.splits)
qed

lemma same_tables_jobs: "same_tables db db' \<Longrightarrow> jobs db = jobs db'"
  by (rule same_tables_unlinked) (simp_all add: unlinked_def)

lemma job_exec_cases:
  assumes "job_exec s db = (r, db')"
  obtains e where "r = Inl e" "jobs db' = jobs db"
  | d n where "r = Inr n" "s db = Inr (d, n)" "jobs db' = jobs d"
  using assms
  by (auto simp: job_exec_def Exec_def tick_def split: if_splits sum.splits prod.splits)

lemma job_tx_exec_cases:
  assumes "job_tx (job_exec s) db = (r, db')"
  obtains e where "r = Inl e" "jobs db' = jobs db"
  | d n where "r = Inr n" "s db = Inr (d, n)" "jobs db' = jobs d"
proof (cases r)
  case (Inl e)
  have "jobs db' = jobs db" by (rule same_tables_jobs [OF jobtx.failed [OF assms [unfolded Inl]]])
  then show ?thesis using that Inl by blast
next
  case (Inr n)
  from jobtx.committed [OF assms [unfolded Inr]] show ?thesis
    by (rule job_exec_cases) (use that Inr in auto)
qed

lemma fenced_write_cases:
  assumes "fenced_write i token f db = (r, db')"
  obtains e where "r = Inl e" "jobs db' = jobs db"
  | "r = Inr (length (filter (fenced i token) (jobs db)) = 1)" "jobs db' = update_where (fenced i token) f (jobs db)"
proof -
  obtain r1 d1 where j: "job_exec (update_jobs (fenced i token) f) db = (r1, d1)" by fastforce
  have r: "db' = d1" "r = (case r1 of Inl e \<Rightarrow> Inl e | Inr n \<Rightarrow> Inr (n = 1))"
    using assms j by (auto simp: fenced_write_def split: sum.splits)
  from j show ?thesis by (rule job_exec_cases) (use that r in \<open>auto simp: update_jobs_def\<close>)
qed

lemma insert_job_jobs:
  assumes "insert_job jsonb (queued_row i k p n a now) db = Inr (d, m)"
  obtains p' where "jobs d = jobs db @ [(queued_row i k p n a now)\<lparr>jb_payload := p'\<rparr>]" "1 \<le> n"
  using assms by (auto simp: insert_job_def queued_row_def split: if_splits option.splits)

text \<open>The job a claim hands to its worker, if it hands one out.\<close>

definition handed_out :: "Job option result \<Rightarrow> Job list" where
  "handed_out res = (case res of Inr (Some job) \<Rightarrow> [job] | _ \<Rightarrow> [])"

text \<open>One operation of the store, labelled with the jobs it hands to a worker to run.\<close>

inductive job_event :: "string set \<times> database \<Rightarrow> Job list \<Rightarrow> string set \<times> database \<Rightarrow> bool" where
  enqueue: "nj_ID j \<notin> U \<Longrightarrow> Enqueue jsonb j db = (e, db') \<Longrightarrow> job_event (U, db) [] (insert (nj_ID j) U, db')"
| claim: "token \<notin> U \<Longrightarrow> ClaimNext lease locked token w ks now db = (res, db') \<Longrightarrow>
    job_event (U, db) (handed_out res) (insert token U, db')"
| heartbeat: "Heartbeat lease i token now db = (ok, db') \<Longrightarrow> job_event (U, db) [] (U, db')"
| complete: "Complete i token now db = (ok, db') \<Longrightarrow> job_event (U, db) [] (U, db')"
| fail: "\<forall>r \<in> set (jobs db). fenced i token r \<longrightarrow> jb_max_attempts r \<le> jb_attempts r \<longrightarrow> deadLetter \<Longrightarrow>
    Fail i token now nextRun deadLetter cause db = (ok, db') \<Longrightarrow> job_event (U, db) [] (U, db')"
| progress: "UpdateProgress i token c n now db = (e, db') \<Longrightarrow> job_event (U, db) [] (U, db')"
| reclaim: "token \<notin> U \<Longrightarrow> reclaimOne locked d token now i db = (ok, db') \<Longrightarrow>
    job_event (U, db) [] (insert token U, db')"
| cancel: "CancelJob i now db = (e, db') \<Longrightarrow> job_event (U, db) [] (U, db')"
| retry: "newID \<notin> U \<Longrightarrow> RetryJob jsonb i newID now db = (res', db') \<Longrightarrow> job_event (U, db) [] (insert newID U, db')"
| clear: "ClearCompleted cutoff db = (m, db') \<Longrightarrow> job_event (U, db) [] (U, db')"

definition job_step :: "string set \<times> database \<Rightarrow> string set \<times> database \<Rightarrow> bool" where
  "job_step S S' \<longleftrightarrow> (\<exists>handed. job_event S handed S')"

lemma job_stepI: "job_event S handed S' \<Longrightarrow> job_step S S'"
  by (auto simp: job_step_def)

text \<open>A history with all the jobs handed out in it, in order.\<close>

inductive job_history :: "string set \<times> database \<Rightarrow> Job list \<Rightarrow> string set \<times> database \<Rightarrow> bool" for S where
  h_start: "job_history S [] S"
| h_event: "job_history S starts S' \<Longrightarrow> job_event S' handed S'' \<Longrightarrow> job_history S (starts @ handed) S''"

text \<open>Every sequence of steps is such a history.\<close>

lemma steps_history: "job_step\<^sup>*\<^sup>* S S' \<longleftrightarrow> (\<exists>starts. job_history S starts S')"
proof
  show "\<exists>starts. job_history S starts S'" if "job_step\<^sup>*\<^sup>* S S'"
    using that
  proof (induction rule: rtranclp_induct)
    case base
    then show ?case by (blast intro: h_start)
  next
    case (step S1 S2)
    then show ?case unfolding job_step_def by (blast intro: h_event)
  qed
next
  assume "\<exists>starts. job_history S starts S'"
  then obtain starts where "job_history S starts S'" by blast
  then show "job_step\<^sup>*\<^sup>* S S'"
    by induction (auto intro: rtranclp.rtrancl_into_rtrancl job_stepI)
qed

lemma find_sorted:
  "sorted (map k xs) \<Longrightarrow> List.find P xs = Some r \<Longrightarrow> r \<in> set xs \<and> P r \<and> (\<forall>x \<in> set xs. P x \<longrightarrow> k r \<le> k x)"
  by (induction xs) (auto split: if_splits)

lemma next_claim_Some:
  assumes "next_claim locked ks now db = Some r"
  shows "r \<in> set (jobs db)" "claimable ks now r" "\<not> locked (jb_id r)"
    "\<forall>x \<in> set (jobs db). claimable ks now x \<and> \<not> locked (jb_id x) \<longrightarrow> jb_available_at r \<le> jb_available_at x"
  using find_sorted [OF sorted_sort_key assms [unfolded next_claim_def]] by simp_all

lemma claim_implements:
  assumes "ClaimNext lease locked token w ks now db = (res, db')" "token \<notin> U"
  shows "table_step (U, jobs db) (insert token U, jobs db')"
proof (cases "connected db \<and> next_claim locked ks now db \<noteq> None")
  case False
  then have "db' = db" using assms(1) by (auto simp: ClaimNext_def split: if_splits option.splits)
  then show ?thesis by (auto intro: t_same)
next
  case True
  then obtain r where r: "next_claim locked ks now db = Some r" by blast
  have cl: "r \<in> set (jobs db)" "jb_status r = StateQueued \<or> jb_status r = StateRetrying"
    using next_claim_Some [OF r] by (simp_all add: claimable_def)
  obtain x d1 where tx: "job_tx (job_exec (claim_row lease token w now (jb_id r))) db = (x, d1)" by fastforce
  have db': "db' = d1" using assms(1) True r tx by (auto simp: ClaimNext_def split: sum.splits)
  from tx show ?thesis
  proof (rule job_tx_exec_cases)
    fix d n assume "claim_row lease token w now (jb_id r) db = Inr (d, n)" "jobs d1 = jobs d"
    then have "jobs db' = update_where (\<lambda>x. jb_id x = jb_id r) (claimed lease token w now) (jobs db)"
      using db' by (auto simp: claim_row_def update_jobs_def split: if_splits)
    then show ?thesis using t_claim [OF assms(2) cl] by simp
  next
    assume "jobs d1 = jobs db"
    then show ?thesis using db' by (auto intro: t_same)
  qed
qed

lemma reclaim_implements:
  assumes "reclaimOne locked d token now i db = (ok, db')" "token \<notin> U"
  shows "table_step (U, jobs db) (insert token U, jobs db')"
proof (cases "connected db \<and> list_ex (\<lambda>r. jb_id r = i \<and> stale now r \<and> \<not> locked i) (jobs db)")
  case False
  then have "db' = db" using assms(1) by (auto simp: reclaimOne_def split: if_splits)
  then show ?thesis by (auto intro: t_same)
next
  case True
  then obtain r where r: "r \<in> set (jobs db)" "jb_id r = i" "jb_status r = StateRunning"
    by (auto simp: list_ex_iff stale_def)
  obtain x d1 where tx: "job_tx (job_exec (update_jobs (\<lambda>r. jb_id r = i) (reclaimed d token now))) db = (x, d1)"
    by fastforce
  have db': "db' = d1" using assms(1) True tx by (auto simp: reclaimOne_def split: sum.splits)
  from tx show ?thesis
  proof (rule job_tx_exec_cases)
    fix d' n assume "update_jobs (\<lambda>r. jb_id r = i) (reclaimed d token now) db = Inr (d', n)" "jobs d1 = jobs d'"
    then have "jobs db' = update_where (\<lambda>x. jb_id x = jb_id r) (reclaimed d token now) (jobs db)"
      using db' r by (auto simp: update_jobs_def)
    then show ?thesis using t_reclaim [OF assms(2) r(1,3)] by simp
  next
    assume "jobs d1 = jobs db"
    then show ?thesis using db' by (auto intro: t_same)
  qed
qed

lemma cancel_implements:
  assumes "CancelJob i now db = (e, db')"
  shows "table_step (U, jobs db) (U, jobs db')"
proof (cases "jobs db' = jobs db")
  case True
  then show ?thesis by (auto intro: t_same)
next
  case False
  then obtain r where r: "connected db" "row_by jb_id i (jobs db) = Some r" "\<not> IsTerminal (jb_status r)"
    using assms by (auto simp: CancelJob_def split: if_splits option.splits)
  obtain x d1 where ex: "job_exec (update_jobs (\<lambda>r. jb_id r = i) (cancelled now)) db = (x, d1)" by fastforce
  have "db' = rollback db d1 \<or> db' = d1 \<and> is_ok x"
    using assms r ex by (auto simp: CancelJob_def split: sum.splits if_splits)
  then have db': "db' = d1" "is_ok x" using False by (auto simp: rollback_def)
  from ex have "jobs db' = update_where (\<lambda>r. jb_id r = i) (cancelled now) (jobs db)"
    by (rule job_exec_cases) (use db' in \<open>auto simp: update_jobs_def\<close>)
  then show ?thesis
    using t_cancel [of r "jobs db" U now] r row_by_SomeD [OF r(2)] by simp
qed

lemma retry_implements:
  assumes "RetryJob jsonb i newID now db = (res, db')" "newID \<notin> U"
  shows "table_step (U, jobs db) (insert newID U, jobs db')"
proof (cases "jobs db' = jobs db")
  case True
  then show ?thesis by (auto intro: t_same)
next
  case False
  then obtain r where r: "connected db" "row_by jb_id i (jobs db) = Some r" "jb_status r = StateDeadLetter"
    using assms(1) by (auto simp: RetryJob_def split: if_splits option.splits)
  let ?q = "queued_row newID (jb_kind r) (payload_or_null (jb_payload r)) (jb_max_attempts r) now now"
  obtain x d1 where tx: "job_tx (job_exec (insert_job jsonb ?q)) db = (x, d1)" by fastforce
  have db': "db' = d1" using assms(1) r tx by (auto simp: RetryJob_def split: sum.splits)
  from tx show ?thesis
  proof (rule job_tx_exec_cases)
    fix d n assume i: "insert_job jsonb ?q db = Inr (d, n)" and j: "jobs d1 = jobs d"
    from i show ?thesis by (rule insert_job_jobs) (use t_insert [OF assms(2)] j db' in simp)
  next
    assume "jobs d1 = jobs db"
    then show ?thesis using db' False by simp
  qed
qed

lemma enqueue_implements:
  assumes "Enqueue jsonb j db = (e, db')" "nj_ID j \<notin> U"
  shows "table_step (U, jobs db) (insert (nj_ID j) U, jobs db')"
proof -
  let ?q = "queued_row (nj_ID j) (nj_Kind j) (payload_or_null (nj_Payload j)) (nj_MaxAttempts j)
    (nj_AvailableAt j) (nj_Now j)"
  obtain x d1 where tx: "job_exec (insert_job jsonb ?q) db = (x, d1)" by fastforce
  have db': "db' = d1" using assms(1) tx by (auto simp: Enqueue_def split: sum.splits)
  from tx show ?thesis
  proof (rule job_exec_cases)
    fix d n assume i: "insert_job jsonb ?q db = Inr (d, n)" and j: "jobs d1 = jobs d"
    from i show ?thesis by (rule insert_job_jobs) (use t_insert [OF assms(2)] j db' in simp)
  next
    assume "jobs d1 = jobs db"
    then show ?thesis using db' by (auto intro: t_same)
  qed
qed

lemma fenced_implements:
  assumes "fenced_write i token f db = (r, db')" "table_step (U, jobs db) (U, update_where (fenced i token) f (jobs db))"
  shows "table_step (U, jobs db) (U, jobs db')"
  using assms(1) by (rule fenced_write_cases) (use assms(2) in \<open>auto intro: t_same\<close>)

lemma job_event_implements:
  "job_event S handed S' \<Longrightarrow> table_step (fst S, jobs (snd S)) (fst S', jobs (snd S'))"
proof (induction rule: job_event.induct)
  case (heartbeat lease i token now db ok db' U)
  show ?case unfolding fst_conv snd_conv
    by (rule fenced_implements [OF heartbeat [unfolded Heartbeat_def]]) (rule t_keep, simp)
next
  case (complete i token now db ok db' U)
  show ?case unfolding fst_conv snd_conv
    by (rule fenced_implements [OF complete [unfolded Complete_def]]) (rule t_finish [where s = StateCompleted], simp_all)
next
  case (fail db i token deadLetter now nextRun cause ok db' U)
  show ?case unfolding fst_conv snd_conv
    by (rule fenced_implements [OF fail(2) [unfolded Fail_def]],
        rule t_finish [where s = "if deadLetter then StateDeadLetter else StateRetrying"])
       (use fail(1) in \<open>auto simp: linorder_not_le [symmetric]\<close>)
next
  case (progress i token c n now db e db' U)
  obtain x where "fenced_write i token (\<lambda>r. r\<lparr>jb_progress := Some (c, n), jb_updated_at := timestamptz now\<rparr>) db = (x, db')"
    using progress by (auto simp: UpdateProgress_def split: prod.splits sum.splits)
  then show ?case unfolding fst_conv snd_conv by (rule fenced_implements) (rule t_keep, simp)
next
  case (clear cutoff db m db' U)
  show ?case unfolding fst_conv snd_conv
    by (rule job_exec_cases [OF clear [unfolded ClearCompleted_def]]) (auto intro: t_same t_clear)
qed (simp_all add: enqueue_implements claim_implements reclaim_implements cancel_implements retry_implements)

lemma job_step_implements:
  "job_step S S' \<Longrightarrow> table_step (fst S, jobs (snd S)) (fst S', jobs (snd S'))"
  unfolding job_step_def by (blast intro: job_event_implements)

section \<open>Histories\<close>

lemma history_induct:
  assumes "job_step\<^sup>*\<^sup>* S S'" "P (fst S) (jobs (snd S))"
    and "\<And>T T'. table_step T T' \<Longrightarrow> P (fst T) (snd T) \<Longrightarrow> P (fst T') (snd T')"
  shows "P (fst S') (jobs (snd S'))"
  using assms(1,2)
proof (induction rule: rtranclp_induct)
  case (step S1 S2)
  then show ?case using assms(3) [OF job_step_implements [OF step.hyps(2)]] by simp
qed

text \<open>A claim takes the job that has waited longest.  When \<open>ClaimNext\<close> returns a job, it was the
  available, unlocked, queued or retrying job of the requested kinds with the earliest due time;
  it is returned with its limit, the fresh lease token and one more attempt, and every other row is
  unchanged.  When it returns none, no such job was available.\<close>

theorem ClaimNext_takes_earliest:
  assumes "distinct (map jb_id (jobs db))"
  shows "case ClaimNext lease locked token w ks now db of
      (Inl e, db') \<Rightarrow> True
    | (Inr None, db') \<Rightarrow> db' = db \<and> (\<forall>x \<in> set (jobs db). claimable ks now x \<longrightarrow> locked (jb_id x))
    | (Inr (Some job), db') \<Rightarrow>
        (\<exists>r \<in> set (jobs db). claimable ks now r \<and> \<not> locked (jb_id r)
          \<and> (\<forall>x \<in> set (jobs db). claimable ks now x \<and> \<not> locked (jb_id x) \<longrightarrow> jb_available_at r \<le> jb_available_at x)
          \<and> job_ID job = jb_id r \<and> job_LeaseToken job = token \<and> job_Attempts job = jb_attempts r + 1
          \<and> job_MaxAttempts job = jb_max_attempts r
          \<and> job_State job = StateRunning
          \<and> jobs db' = map (\<lambda>x. if x = r then claimed lease token w now r else x) (jobs db))"
proof (cases "connected db")
  case False
  then show ?thesis by (simp add: ClaimNext_def)
next
  case up: True
  show ?thesis
  proof (cases "next_claim locked ks now db")
    case None
    then have "\<forall>x \<in> set (jobs db). claimable ks now x \<longrightarrow> locked (jb_id x)"
      by (auto simp: next_claim_def find_None_iff)
    then show ?thesis using up None by (simp add: ClaimNext_def)
  next
    case (Some r)
    note r = next_claim_Some [OF Some]
    obtain x d1 where tx: "job_tx (job_exec (claim_row lease token w now (jb_id r))) db = (x, d1)" by fastforce
    show ?thesis
    proof (cases x)
      case (Inl e)
      then show ?thesis using up Some tx by (simp add: ClaimNext_def)
    next
      case (Inr n)
      have "jobs d1 = update_where (\<lambda>x. jb_id x = jb_id r) (claimed lease token w now) (jobs db)"
        using tx by (rule job_tx_exec_cases) (use Inr in \<open>auto simp: claim_row_def update_jobs_def split: if_splits\<close>)
      also have "\<dots> = map (\<lambda>x. if x = r then claimed lease token w now r else x) (jobs db)"
        unfolding update_where_def using same_id_same_row [OF assms r(1)] by (intro map_cong) auto
      finally have rows: "jobs d1 = map (\<lambda>x. if x = r then claimed lease token w now r else x) (jobs db)" .
      have dist: "distinct (map jb_id (jobs d1))"
      proof -
        have "map jb_id (jobs d1) = map jb_id (jobs db)" unfolding rows by (simp add: claimed_def)
        then show ?thesis using assms by simp
      qed
      have "claimed lease token w now r \<in> set (jobs d1)" unfolding rows using r(1) by force
      then have "row_by jb_id (jb_id r) (jobs d1) = Some (claimed lease token w now r)"
        using row_by_eq_Some_iff [OF dist] by (simp add: claimed_def)
      then have "GetJob d1 (jb_id r) = Inl (translateError ErrClosed)
          \<or> GetJob d1 (jb_id r) = scanJob (Some (claimed lease token w now r))" by (simp add: GetJob_def)
      then show ?thesis using up Some tx Inr r rows
        by (auto simp: ClaimNext_def scanJob_def claimed_def text_or_empty_def intro!: bexI [of _ r])
    qed
  qed
qed

section \<open>How often a job is started\<close>

text \<open>How often a job was handed to a worker.\<close>

definition start_count :: "string \<Rightarrow> Job list \<Rightarrow> int" where
  "start_count i starts = int (length (filter (\<lambda>job. job_ID job = i) starts))"

lemma start_count_simps [simp]:
  "start_count i [] = 0"
  "start_count i (starts @ [job]) = start_count i starts + (if job_ID job = i then 1 else 0)"
  by (simp_all add: start_count_def)

text \<open>The column \<open>attempts\<close> counts the starts at least, and the limit of a row is the one its job was
  handed out with.\<close>

definition starts_counted :: "string set \<Rightarrow> job_row list \<Rightarrow> Job list \<Rightarrow> bool" where
  "starts_counted U t starts \<longleftrightarrow>
     (\<forall>r \<in> set t. start_count (jb_id r) starts \<le> jb_attempts r)
     \<and> (\<forall>job \<in> set starts. job_ID job \<in> U \<and> start_count (job_ID job) starts \<le> job_MaxAttempts job
          \<and> (\<forall>r \<in> set t. jb_id r = job_ID job \<longrightarrow> jb_max_attempts r = job_MaxAttempts job))"

lemma rows_update:
  assumes "r' \<in> set (update_where P f t)"
    and "\<And>x. jb_id (f x) = jb_id x \<and> jb_max_attempts (f x) = jb_max_attempts x \<and> jb_attempts x \<le> jb_attempts (f x)"
  shows "\<exists>r \<in> set t. jb_id r = jb_id r' \<and> jb_max_attempts r = jb_max_attempts r' \<and> jb_attempts r \<le> jb_attempts r'"
proof -
  obtain x where x: "x \<in> set t" "r' = (if P x then f x else x)" using assms(1) by (auto simp: set_update_where)
  then show ?thesis using assms(2) [of x] by (intro bexI [of _ x]) auto
qed

lemma table_step_rows:
  assumes "table_step S S'" "r' \<in> set (snd S')"
  shows "jb_id r' \<notin> fst S \<and> jb_attempts r' = 0
    \<or> (\<exists>r \<in> set (snd S). jb_id r = jb_id r' \<and> jb_max_attempts r = jb_max_attempts r' \<and> jb_attempts r \<le> jb_attempts r')"
  using assms
proof (induction rule: table_step.induct)
  case (t_claim token U r t lease w now)
  show ?case unfolding fst_conv snd_conv
    by (rule disjI2 [OF rows_update]) (use t_claim in \<open>auto simp: claimed_def\<close>)
next
  case (t_keep f U t i token)
  show ?case unfolding fst_conv snd_conv by (rule disjI2 [OF rows_update]) (use t_keep in auto)
next
  case (t_finish s f t i token U)
  show ?case unfolding fst_conv snd_conv by (rule disjI2 [OF rows_update]) (use t_finish in auto)
next
  case (t_reclaim token U r t d now)
  show ?case unfolding fst_conv snd_conv
    by (rule disjI2 [OF rows_update]) (use t_reclaim in \<open>auto simp: reclaimed_def Let_def\<close>)
next
  case (t_cancel r t U now)
  show ?case unfolding fst_conv snd_conv
    by (rule disjI2 [OF rows_update]) (use t_cancel in \<open>auto simp: cancelled_def\<close>)
qed (auto simp: queued_row_def delete_where_def)

lemma table_step_grows: "table_step S S' \<Longrightarrow> fst S \<subseteq> fst S'"
  by (induction rule: table_step.induct) auto

lemma unused_never_started:
  assumes "starts_counted U t starts" "i \<notin> U"
  shows "start_count i starts = 0"
  using assms by (auto simp: starts_counted_def start_count_def filter_empty_conv)

lemma table_step_counted:
  assumes "table_step (U, t) (U', t')" "starts_counted U t starts"
  shows "starts_counted U' t' starts"
proof -
  have "start_count (jb_id r') starts \<le> jb_attempts r'" if "r' \<in> set t'" for r'
    using table_step_rows [OF assms(1), of r'] that assms(2) unused_never_started [OF assms(2)]
    by (fastforce simp: starts_counted_def)
  moreover have "jb_max_attempts r' = job_MaxAttempts job"
    if "r' \<in> set t'" "job \<in> set starts" "jb_id r' = job_ID job" for r' job
    using table_step_rows [OF assms(1), of r'] that assms(2) by (fastforce simp: starts_counted_def)
  ultimately show ?thesis
    using table_step_grows [OF assms(1)] assms(2) by (auto simp: starts_counted_def)
qed

lemma claim_hands_out:
  assumes "ClaimNext lease locked token w ks now db = (Inr (Some job), db')" "job_inv U (jobs db)"
  obtains r where "r \<in> set (jobs db)" "job_ID job = jb_id r" "job_MaxAttempts job = jb_max_attempts r"
    "jb_attempts r < jb_max_attempts r" "jb_id r \<in> U"
    "\<And>x. x \<in> set (jobs db) \<Longrightarrow> x \<noteq> r \<Longrightarrow> jb_id x \<noteq> jb_id r"
    "set (jobs db') = insert (claimed lease token w now r) (set (jobs db) - {r})"
proof -
  have dist: "distinct (map jb_id (jobs db))" using assms(2) by (simp add: job_inv_def)
  obtain r where r: "r \<in> set (jobs db)" "claimable ks now r" "job_ID job = jb_id r"
      "job_MaxAttempts job = jb_max_attempts r"
    and rows: "jobs db' = map (\<lambda>x. if x = r then claimed lease token w now r else x) (jobs db)"
    using ClaimNext_takes_earliest [OF dist, where lease = lease and locked = locked and token = token and w = w
      and ks = ks and now = now] assms(1) by auto
  have "jb_attempts r < jb_max_attempts r" "jb_id r \<in> U"
    using assms(2) r(1,2) by (auto simp: job_inv_def claimable_def)
  moreover have "jb_id x \<noteq> jb_id r" if "x \<in> set (jobs db)" "x \<noteq> r" for x
    using same_id_same_row [OF dist r(1) that(1)] that(2) by blast
  moreover have "set (jobs db') = insert (claimed lease token w now r) (set (jobs db) - {r})"
    unfolding rows using r(1) by auto
  ultimately show ?thesis using that r by blast
qed

lemma claim_counted:
  assumes "ClaimNext lease locked token w ks now db = (Inr (Some job), db')"
    and "job_inv U (jobs db)" "starts_counted U (jobs db) starts"
  shows "starts_counted (insert token U) (jobs db') (starts @ [job])"
proof -
  obtain r where r: "r \<in> set (jobs db)" "job_ID job = jb_id r" "job_MaxAttempts job = jb_max_attempts r"
      "jb_attempts r < jb_max_attempts r" "jb_id r \<in> U"
    and other: "\<And>x. x \<in> set (jobs db) \<Longrightarrow> x \<noteq> r \<Longrightarrow> jb_id x \<noteq> jb_id r"
    and rows: "set (jobs db') = insert (claimed lease token w now r) (set (jobs db) - {r})"
    using claim_hands_out [OF assms(1,2)] by metis
  have c: "jb_id (claimed lease token w now r) = jb_id r" "jb_attempts (claimed lease token w now r) = jb_attempts r + 1"
      "jb_max_attempts (claimed lease token w now r) = jb_max_attempts r"
    by (simp_all add: claimed_def)
  have row: "start_count (jb_id x) starts \<le> jb_attempts x" if "x \<in> set (jobs db)" for x
    using assms(3) that by (simp add: starts_counted_def)
  have started: "job_ID j \<in> U" "start_count (job_ID j) starts \<le> job_MaxAttempts j"
      "x \<in> set (jobs db) \<Longrightarrow> jb_id x = job_ID j \<Longrightarrow> jb_max_attempts x = job_MaxAttempts j"
    if "j \<in> set starts" for j x
    using assms(3) that by (simp_all add: starts_counted_def)
  have count: "start_count (jb_id x) (starts @ [job]) \<le> jb_attempts x" if x: "x \<in> set (jobs db')" for x
  proof (cases "jb_id x = jb_id r")
    case True
    then have "x = claimed lease token w now r" using x other unfolding rows by blast
    then show ?thesis using row [OF r(1)] r(2) c by simp
  next
    case False
    then have "x \<in> set (jobs db)" using x c(1) unfolding rows by force
    then show ?thesis using row False r(2) by simp
  qed
  have new: "job_MaxAttempts j = jb_max_attempts r" if "j \<in> set (starts @ [job])" "job_ID j = jb_id r" for j
    using that started(3) [of j r] r(1,3) by auto
  have bound: "start_count (job_ID j) (starts @ [job]) \<le> job_MaxAttempts j" if j: "j \<in> set (starts @ [job])" for j
  proof (cases "job_ID j = jb_id r")
    case True
    then show ?thesis using new [OF j True] row [OF r(1)] r(2,4) by simp
  next
    case False
    then have "j \<in> set starts" using j r(2) by auto
    then show ?thesis using started(2) False r(2) by simp
  qed
  have limit: "jb_max_attempts x = job_MaxAttempts j"
    if "j \<in> set (starts @ [job])" "x \<in> set (jobs db')" "jb_id x = job_ID j" for j x
  proof (cases "jb_id x = jb_id r")
    case True
    then have "x = claimed lease token w now r" using that(2) other unfolding rows by blast
    then show ?thesis using new [OF that(1)] that(3) c True by simp
  next
    case False
    then have "x \<in> set (jobs db)" "j \<in> set starts" using that c(1) r(2) unfolding rows by force+
    then show ?thesis using started(3) that(3) by blast
  qed
  have "job_ID j \<in> insert token U" if "j \<in> set (starts @ [job])" for j
    using that started(1) r(2,5) by auto
  then show ?thesis unfolding starts_counted_def using count bound limit by blast
qed

lemma event_counted:
  assumes "job_event S handed S'" "job_inv (fst S) (jobs (snd S))" "starts_counted (fst S) (jobs (snd S)) starts"
  shows "starts_counted (fst S') (jobs (snd S')) (starts @ handed)"
proof (cases "handed = []")
  case True
  then show ?thesis using table_step_counted [OF job_event_implements [OF assms(1)] assms(3)] by simp
next
  case False
  with assms(1) obtain U db lease locked token w ks now job db' where
      e: "S = (U, db)" "S' = (insert token U, db')" "handed = [job]"
      "ClaimNext lease locked token w ks now db = (Inr (Some job), db')"
    by cases (auto simp: handed_out_def split: sum.splits option.splits)
  then show ?thesis using claim_counted [OF e(4)] assms(2,3) by simp
qed

lemma history_counted:
  assumes "job_history S starts S'" "jobs (snd S) = []"
  shows "job_inv (fst S') (jobs (snd S')) \<and> starts_counted (fst S') (jobs (snd S')) starts"
  using assms
proof (induction rule: job_history.induct)
  case h_start
  then show ?case by (simp add: job_inv_def starts_counted_def)
next
  case (h_event starts S' handed S'')
  then show ?case
    using event_counted [OF h_event.hyps(2)] table_step_inv [OF job_event_implements [OF h_event.hyps(2)]] by simp
qed

text \<open>C37: A job is started at most \<open>max_attempts\<close> times.  Take any history of a job table that starts
  empty, whatever the operations, their arguments, their order and their failures, where a worker
  that reports the failure of a job whose attempts are used up asks for the dead letter.  Then no
  job is handed to a worker more often than its limit says, counting every job \<open>ClaimNext\<close>
  returned in the history, also those of rows deleted since.  Each job has one row with one of
  the five states, its attempts never exceed its limit, a job that waits to run has attempts left
  and a running job has a lease token.\<close>

theorem job_attempts_bounded:
  assumes "job_history (U, db) starts (U', db')" "jobs db = []"
  shows "(\<forall>job \<in> set starts. int (length (filter (\<lambda>j. job_ID j = job_ID job) starts)) \<le> job_MaxAttempts job)
    \<and> job_inv U' (jobs db')"
  using history_counted [OF assms(1)] assms(2) by (auto simp: starts_counted_def start_count_def)

lemma fenced_write_lost:
  assumes "\<not> holds_lease i token (jobs db)" "fenced_write i token f db = (r, db')"
  shows "same_tables db' db \<and> r \<noteq> Inr True"
proof -
  have n: "\<not> fenced i token x" if "x \<in> set (jobs db)" for x
    using assms(1) that by (auto simp: holds_lease_def)
  then have "update_where (fenced i token) f (jobs db) = jobs db" "filter (fenced i token) (jobs db) = []"
    by (auto simp: update_where_def intro!: map_idI)
  then have "update_jobs (fenced i token) f db = Inr (db, 0)" by (simp add: update_jobs_def)
  then show ?thesis using assms(2)
    by (auto simp: fenced_write_def job_exec_def Exec_def tick_def same_tables_def split: if_splits)
qed

text \<open>C38: A worker that lost its lease can write nothing.  Once a worker's token no longer holds a job
  (the reaper reclaimed it, it was cancelled or finished), then after any further operations its
  heartbeat, completion, failure and progress calls change no table, and none of the first three
  reports success.\<close>

theorem lost_lease_fences_worker:
  assumes "token \<in> U" "\<not> holds_lease i token (jobs db)" "job_step\<^sup>*\<^sup>* (U, db) (U', db')"
  shows "(case Heartbeat lease i token now db' of (r, d) \<Rightarrow> same_tables d db' \<and> r \<noteq> Inr True)
    \<and> (case Complete i token now db' of (r, d) \<Rightarrow> same_tables d db' \<and> r \<noteq> Inr True)
    \<and> (case Fail i token now nextRun dead cause db' of (r, d) \<Rightarrow> same_tables d db' \<and> r \<noteq> Inr True)
    \<and> same_tables (snd (UpdateProgress i token c n now db')) db'"
proof -
  have "\<not> holds_lease i token (jobs (snd (U', db'))) \<and> token \<in> fst (U', db')"
    by (rule history_induct [where P = "\<lambda>V t. \<not> holds_lease i token t \<and> token \<in> V", OF assms(3)])
       (use assms(1,2) in simp, elim conjE, rule lost_lease_step)
  then have lost: "\<not> holds_lease i token (jobs db')" by simp
  have w: "case fenced_write i token f db' of (r, d) \<Rightarrow> same_tables d db' \<and> r \<noteq> Inr True" for f
    using fenced_write_lost [OF lost] by (auto split: prod.splits)
  have p: "same_tables (snd (UpdateProgress i token c n now db')) db'"
    using w [of "\<lambda>r. r\<lparr>jb_progress := Some (c, n), jb_updated_at := timestamptz now\<rparr>"]
    by (auto simp: UpdateProgress_def split: prod.splits sum.splits)
  show ?thesis unfolding Heartbeat_def Complete_def Fail_def by (intro conjI w p)
qed

text \<open>A finished job stays as it is.  A completed or dead-lettered row is never changed again by
  any operation, in any history; it can only be deleted, and its id never comes back.\<close>

theorem finished_job_is_final:
  assumes "r \<in> set (jobs db)" "IsTerminal (jb_status r)" "job_inv U (jobs db)"
    and "job_step\<^sup>*\<^sup>* (U, db) (U', db')" "r' \<in> set (jobs db')" "jb_id r' = jb_id r"
  shows "r' = r"
proof -
  have "only_row r (jobs db)" "jb_id r \<in> U"
    using assms(1,3) same_id_same_row by (auto simp: only_row_def job_inv_def)
  then have start: "only_row r (jobs (snd (U, db))) \<and> jb_id r \<in> fst (U, db)" by simp
  have "only_row r (jobs (snd (U', db'))) \<and> jb_id r \<in> fst (U', db')"
    by (rule history_induct [where P = "\<lambda>V t. only_row r t \<and> jb_id r \<in> V", OF assms(4) start])
       (elim conjE, rule terminal_row_step [OF _ _ assms(2)])
  then show ?thesis using assms(5,6) by (simp add: only_row_def)
qed

section \<open>The reaper's sweep\<close>

definition sweep_row :: "(string \<Rightarrow> int \<Rightarrow> duration) \<Rightarrow> (string \<Rightarrow> string) \<Rightarrow> instant \<Rightarrow> job_row \<Rightarrow> job_row" where
  "sweep_row delays tokens now r = reclaimed (delays (jb_id r)) (tokens (jb_id r)) now r"

lemma tick_up: "db_links db = None \<Longrightarrow> tick db = db"
  by (simp add: tick_def)

lemma reclaimOne_up:
  assumes "db_links db = None" "r \<in> set (jobs db)" "stale now r"
  shows "reclaimOne (\<lambda>_. False) d token now (jb_id r) db
    = (Inr True, db\<lparr>jobs := update_where (\<lambda>x. jb_id x = jb_id r) (reclaimed d token now) (jobs db)\<rparr>)"
proof -
  let ?db = "db\<lparr>jobs := update_where (\<lambda>x. jb_id x = jb_id r) (reclaimed d token now) (jobs db)\<rparr>"
  have "list_ex (\<lambda>x. jb_id x = jb_id r \<and> stale now x) (jobs db)" using assms(2,3) by (auto simp: list_ex_iff)
  moreover have "tick ?db = ?db" using assms(1) by (intro tick_up) simp
  ultimately show ?thesis
    using assms(1) by (simp add: reclaimOne_def job_tx_def job_exec_def Exec_def connected_def update_jobs_def)
qed

lemma recover_loop_up:
  assumes "db_links db = None" "distinct is" "distinct (map jb_id (jobs db))"
    and "\<forall>i \<in> set is. \<exists>r \<in> set (jobs db). jb_id r = i \<and> stale now r"
  shows "recover_loop (\<lambda>_. False) delays tokens now is n db
    = (Inr (n + length is), db\<lparr>jobs := update_where (\<lambda>x. jb_id x \<in> set is) (sweep_row delays tokens now) (jobs db)\<rparr>)"
  using assms
proof (induction "is" arbitrary: n db)
  case Nil
  have "update_where (\<lambda>x. False) (sweep_row delays tokens now) (jobs db) = jobs db"
    by (simp add: update_where_def)
  then show ?case by simp
next
  case (Cons i "is")
  obtain r where r: "r \<in> set (jobs db)" "jb_id r = i" "stale now r" using Cons.prems(4) by auto
  define t where "t = update_where (\<lambda>x. jb_id x = i) (reclaimed (delays i) (tokens i) now) (jobs db)"
  have ids: "map jb_id t = map jb_id (jobs db)"
    unfolding t_def by (rule ids_update_where) (simp add: reclaimed_def Let_def)
  have rest: "\<exists>r \<in> set t. jb_id r = j \<and> stale now r" if j: "j \<in> set is" for j
  proof -
    obtain x where x: "x \<in> set (jobs db)" "jb_id x = j" "stale now x"
      using Cons.prems(4) j by (meson list.set_intros(2))
    moreover have "j \<noteq> i" using j Cons.prems(2) by auto
    ultimately have "x \<in> set t" unfolding t_def set_update_where by force
    with x show ?thesis by blast
  qed
  have "recover_loop (\<lambda>_. False) delays tokens now is (n + 1) (db\<lparr>jobs := t\<rparr>)
    = (Inr (n + 1 + length is), (db\<lparr>jobs := t\<rparr>)\<lparr>jobs := update_where (\<lambda>x. jb_id x \<in> set is) (sweep_row delays tokens now) t\<rparr>)"
    using Cons.prems rest ids by (subst Cons.IH) simp_all
  moreover have "update_where (\<lambda>x. jb_id x \<in> set is) (sweep_row delays tokens now) t
      = update_where (\<lambda>x. jb_id x \<in> set (i # is)) (sweep_row delays tokens now) (jobs db)"
    unfolding t_def update_where_def map_map using Cons.prems(2)
    by (intro map_cong) (auto simp: sweep_row_def reclaimed_def Let_def)
  moreover have "reclaimOne (\<lambda>_. False) (delays i) (tokens i) now i db = (Inr True, db\<lparr>jobs := t\<rparr>)"
    using reclaimOne_up [OF Cons.prems(1) r(1,3), of "delays i" "tokens i"] r(2) by (simp add: t_def)
  ultimately show ?case by simp
qed

text \<open>The sweep leaves no stale job.  Over a connection that stays up and with no row locked,
  \<open>RecoverStale\<close> reclaims exactly the running jobs whose lease has expired, each with its own new
  token, as retrying while attempts are left and as dead letter otherwise, returns their number,
  and changes nothing else.\<close>

theorem RecoverStale_reclaims_all:
  assumes "db_links db = None" "distinct (map jb_id (jobs db))"
  shows "RecoverStale (\<lambda>_. False) delays tokens now db
    = (Inr (length (filter (stale now) (jobs db))),
       db\<lparr>jobs := map (\<lambda>r. if stale now r then sweep_row delays tokens now r else r) (jobs db)\<rparr>)"
proof -
  let ?is = "map jb_id (filter (stale now) (jobs db))"
  have "distinct ?is" using assms(2) by (simp add: distinct_map inj_on_def)
  moreover have "\<forall>i \<in> set ?is. \<exists>r \<in> set (jobs db). jb_id r = i \<and> stale now r" by auto
  ultimately have "recover_loop (\<lambda>_. False) delays tokens now ?is 0 db
    = (Inr (0 + length ?is), db\<lparr>jobs := update_where (\<lambda>x. jb_id x \<in> set ?is) (sweep_row delays tokens now) (jobs db)\<rparr>)"
    using assms by (intro recover_loop_up)
  moreover have "update_where (\<lambda>x. jb_id x \<in> set ?is) (sweep_row delays tokens now) (jobs db)
      = map (\<lambda>r. if stale now r then sweep_row delays tokens now r else r) (jobs db)"
    unfolding update_where_def
  proof (intro map_cong refl)
    fix x assume "x \<in> set (jobs db)"
    then have "jb_id x \<in> set ?is \<longleftrightarrow> stale now x" using same_id_same_row [OF assms(2)] by force
    then show "(if jb_id x \<in> set ?is then sweep_row delays tokens now x else x)
      = (if stale now x then sweep_row delays tokens now x else x)" by simp
  qed
  ultimately show ?thesis using assms(1) by (simp add: RecoverStale_def connected_def)
qed

section \<open>Examples\<close>

definition scan_row :: "State \<Rightarrow> int \<Rightarrow> string option \<Rightarrow> instant option \<Rightarrow> job_row" where
  "scan_row st n token locked =
     (queued_row ''j'' ''scan'' ''null'' 2 0 0)
       \<lparr>jb_status := st, jb_attempts := n, jb_lease_token := token, jb_locked_until := locked\<rparr>"

definition scan_db :: "job_row \<Rightarrow> database" where
  "scan_db r = (empty_database [''L''])\<lparr>jobs := [r]\<rparr>"

definition scan_job :: NewJob where
  "scan_job = \<lparr> nj_ID = ''j'', nj_Kind = ''scan'', nj_Payload = [], nj_MaxAttempts = 2, nj_AvailableAt = 0, nj_Now = 0 \<rparr>"

lemma scan_enqueued:
  "Enqueue Some scan_job (empty_database [''L'']) = (None, scan_db (scan_row StateQueued 0 None None))"
  by (simp add: Enqueue_def scan_job_def job_exec_def Exec_def empty_database_def connected_def insert_job_def
      queued_row_def payload_or_null_def tick_def scan_db_def scan_row_def timestamptz_def)

lemma scan_claimed:
  assumes "st = StateQueued \<or> st = StateRetrying" "n < 100"
  shows "\<exists>job. ClaimNext 60000 (\<lambda>_. False) token ''w'' [] 5000 (scan_db (scan_row st n k None))
    = (Inr (Some job), scan_db (claimed 60000 token ''w'' 5000 (scan_row st n k None)))
    \<and> job_ID job = ''j'' \<and> job_Kind job = ''scan'' \<and> job_MaxAttempts job = 2 \<and> job_LeaseToken job = token
    \<and> job_Attempts job = n + 1"
  using assms
  by (auto simp: ClaimNext_def scan_db_def empty_database_def connected_def next_claim_def claimable_def
      scan_row_def queued_row_def timestamptz_def job_tx_def job_exec_def Exec_def claim_row_def
      update_jobs_def update_where_def tick_def GetJob_def row_by_def claimed_def scanJob_def text_or_empty_def)

theorem job_attempts_bounded_witness:
  "\<exists>job. ClaimNext 60000 (\<lambda>_. False) ''t'' ''w'' [] 5000 (scan_db (scan_row StateQueued 0 None None))
       = (Inr (Some job), scan_db (claimed 60000 ''t'' ''w'' 5000 (scan_row StateQueued 0 None None)))
     \<and> int (length [job]) \<le> job_MaxAttempts job
     \<and> job_inv {''t'', ''j''} (jobs (scan_db (claimed 60000 ''t'' ''w'' 5000 (scan_row StateQueued 0 None None))))"
proof -
  let ?db = "empty_database [''L'']" and ?q = "scan_db (scan_row StateQueued 0 None None)"
  obtain job where c: "ClaimNext 60000 (\<lambda>_. False) ''t'' ''w'' [] 5000 ?q
      = (Inr (Some job), scan_db (claimed 60000 ''t'' ''w'' 5000 (scan_row StateQueued 0 None None)))"
    using scan_claimed [of StateQueued 0 "''t''" None] by auto
  have "job_event ({}, ?db) [] ({''j''}, ?q)"
    using job_event.enqueue [OF _ scan_enqueued, of "{}"] by (simp add: scan_job_def)
  moreover have "job_event ({''j''}, ?q) [job] ({''t'', ''j''}, scan_db (claimed 60000 ''t'' ''w'' 5000 (scan_row StateQueued 0 None None)))"
    using job_event.claim [OF _ c, of "{''j''}"] by (simp add: handed_out_def)
  ultimately have "job_history ({}, ?db) (([] @ []) @ [job])
      ({''t'', ''j''}, scan_db (claimed 60000 ''t'' ''w'' 5000 (scan_row StateQueued 0 None None)))"
    by (meson h_start h_event)
  from job_attempts_bounded [OF this] c show ?thesis by (simp add: empty_database_def)
qed

text \<open>The reaper gave the job a new token \<open>k\<close>, another worker claimed it, and the first worker, with
  token \<open>t\<close>, returns late.\<close>

theorem lost_lease_fences_worker_witness:
  "case Complete ''j'' ''t'' 9000 (scan_db (claimed 60000 ''u'' ''w'' 5000 (scan_row StateRetrying 1 (Some ''k'') None))) of
     (r, d) \<Rightarrow> same_tables d (scan_db (claimed 60000 ''u'' ''w'' 5000 (scan_row StateRetrying 1 (Some ''k'') None))) \<and> r \<noteq> Inr True"
proof -
  let ?db = "scan_db (scan_row StateRetrying 1 (Some ''k'') None)"
  obtain job where "ClaimNext 60000 (\<lambda>_. False) ''u'' ''w'' [] 5000 ?db
      = (Inr (Some job), scan_db (claimed 60000 ''u'' ''w'' 5000 (scan_row StateRetrying 1 (Some ''k'') None)))"
    using scan_claimed [of StateRetrying 1 "''u''" "Some ''k''"] by auto
  then have h: "job_step\<^sup>*\<^sup>* ({''t'', ''k''}, ?db)
      (insert ''u'' {''t'', ''k''}, scan_db (claimed 60000 ''u'' ''w'' 5000 (scan_row StateRetrying 1 (Some ''k'') None)))"
    by (intro r_into_rtranclp job_stepI [OF job_event.claim]) simp_all
  have "\<not> holds_lease ''j'' ''t'' (jobs ?db)"
    by (simp add: holds_lease_def fenced_def scan_db_def scan_row_def)
  from lost_lease_fences_worker [OF _ this h, THEN conjunct2, THEN conjunct1] show ?thesis by simp
qed

theorem finished_job_is_final_witness:
  "\<exists>e db'. CancelJob ''j'' 9000 (scan_db (scan_row StateCompleted 1 (Some ''t'') None)) = (Some e, db')
     \<and> (\<forall>r' \<in> set (jobs db'). r' = scan_row StateCompleted 1 (Some ''t'') None)"
proof -
  let ?r = "scan_row StateCompleted 1 (Some ''t'') None"
  have id: "jb_id ?r = ''j''" "jb_status ?r = StateCompleted" by (simp_all add: scan_row_def queued_row_def)
  have c: "CancelJob ''j'' 9000 (scan_db ?r) = (Some (derr Conflict ''job is already in a terminal state''), scan_db ?r)"
    by (simp add: CancelJob_def scan_db_def empty_database_def connected_def row_by_def id IsTerminal_def)
  have "job_step\<^sup>*\<^sup>* ({''j'', ''t''}, scan_db ?r) ({''j'', ''t''}, scan_db ?r)"
    by (intro r_into_rtranclp job_stepI [OF job_event.cancel [OF c]])
  moreover have "job_inv {''j'', ''t''} (jobs (scan_db ?r))"
    by (simp add: job_inv_def scan_db_def scan_row_def queued_row_def job_states_def)
  ultimately have "r' = ?r" if "r' \<in> set (jobs (scan_db ?r))" for r'
    using finished_job_is_final [of ?r "scan_db ?r" "{''j'', ''t''}" "{''j'', ''t''}" "scan_db ?r" r'] that id
    by (auto simp: scan_db_def IsTerminal_def)
  then show ?thesis using c by blast
qed

theorem ClaimNext_takes_earliest_witness:
  "\<exists>job db'. ClaimNext 60000 (\<lambda>_. False) ''t'' ''w'' [] 5000 (scan_db (scan_row StateQueued 0 None None)) = (Inr (Some job), db')
     \<and> job_Attempts job = 1 \<and> job_LeaseToken job = ''t''"
proof -
  let ?q = "scan_row StateQueued 0 None None"
  obtain job where c: "ClaimNext 60000 (\<lambda>_. False) ''t'' ''w'' [] 5000 (scan_db ?q)
      = (Inr (Some job), scan_db (claimed 60000 ''t'' ''w'' 5000 ?q))"
    using scan_claimed [of StateQueued 0 "''t''" None] by auto
  have "distinct (map jb_id (jobs (scan_db ?q)))" by (simp add: scan_db_def)
  from ClaimNext_takes_earliest [OF this, where lease = 60000 and locked = "\<lambda>_. False"
      and token = "''t''" and w = "''w''" and ks = "[]" and now = 5000] c show ?thesis
    by (auto simp: scan_db_def scan_row_def queued_row_def)
qed

theorem RecoverStale_reclaims_all_witness:
  "RecoverStale (\<lambda>_. False) (\<lambda>_ _. 1000) (\<lambda>_. ''k'') 9000 (scan_db (scan_row StateRunning 2 (Some ''t'') (Some 5000)))
   = (Inr 1, scan_db (sweep_row (\<lambda>_ _. 1000) (\<lambda>_. ''k'') 9000 (scan_row StateRunning 2 (Some ''t'') (Some 5000))))"
proof -
  let ?r = "scan_row StateRunning 2 (Some ''t'') (Some 5000)"
  have "stale 9000 ?r" by (simp add: stale_def scan_row_def timestamptz_def)
  moreover have "db_links (scan_db ?r) = None" "distinct (map jb_id (jobs (scan_db ?r)))"
    by (simp_all add: scan_db_def empty_database_def)
  ultimately show ?thesis
    using RecoverStale_reclaims_all [of "scan_db ?r" "\<lambda>_ _. 1000" "\<lambda>_. ''k''" 9000] by (simp add: scan_db_def)
qed

text \<open>Cancelling moves a job that is not running straight to dead letter, a transition that
  \<open>CanTransitionTo\<close> does not allow.\<close>

lemma CancelJob_skips_running:
  "\<exists>db' r r'. CancelJob ''j'' 9000 (scan_db (scan_row StateQueued 0 None None)) = (None, db')
     \<and> jobs (scan_db (scan_row StateQueued 0 None None)) = [r] \<and> jobs db' = [r']
     \<and> \<not> CanTransitionTo (jb_status r) (jb_status r')"
  by (simp add: CancelJob_def scan_db_def empty_database_def connected_def row_by_def scan_row_def queued_row_def
      IsTerminal_def job_exec_def Exec_def update_jobs_def update_where_def cancelled_def tick_def CanTransitionTo_def)

end
