(* ===== verification/Job_Engine.thy ===== *)
theory Job_Engine
  imports Job_Safety
begin

text \<open>
  The worker pool and the enqueue API: \<open>engine.go\<close>, \<open>queue.go\<close> and the failure marking of
  \<open>job.go\<close>, package \<open>internal/jobs\<close>.

  A worker claims a job, runs its handler and writes the outcome; other workers, the reaper and
  administrators act in between.  So \<open>execute\<close> is applied to the database as it is when the
  handler has returned, and takes as argument what the worker then observes: how the handler
  ended, whether its lease was lost and which contexts are cancelled.  Heartbeats and progress
  reports are the store's operations.  Logging is left out.
\<close>

section \<open>Failures\<close>

datatype handler_error = Plain string | PermanentError handler_error | Wrapped string handler_error

definition Permanent :: "handler_error option \<Rightarrow> handler_error option" where
  "Permanent err = map_option PermanentError err"

fun IsPermanent :: "handler_error \<Rightarrow> bool" where
  "IsPermanent (PermanentError e) = True"
| "IsPermanent (Wrapped t e) = IsPermanent e"
| "IsPermanent (Plain t) = False"

fun error_text :: "handler_error \<Rightarrow> string" where
  "error_text (PermanentError e) = error_text e"
| "error_text (Wrapped t e) = t @ error_text e"
| "error_text (Plain t) = t"

section \<open>Running a job\<close>

datatype handler_outcome = Returned "handler_error option" | Panicked string

definition runHandler :: "handler_outcome \<Rightarrow> handler_error option" where
  "runHandler out = (case out of Returned e \<Rightarrow> e | Panicked v \<Rightarrow> Some (Plain (''handler panicked: '' @ v)))"

record worker_view =
  vw_outcome :: handler_outcome
  vw_leaseLost :: bool
  vw_parentDone :: bool
  vw_jobDone :: bool
  vw_now :: instant
  vw_jitter :: rat

definition finishSuccess :: "Job \<Rightarrow> worker_view \<Rightarrow> database \<Rightarrow> database" where
  "finishSuccess job v db = snd (Complete (job_ID job) (job_LeaseToken job) (vw_now v) db)"

definition finishFailure :: "Config \<Rightarrow> Job \<Rightarrow> worker_view \<Rightarrow> handler_error \<Rightarrow> bool \<Rightarrow> database \<Rightarrow> database" where
  "finishFailure cfg job v cause deadLetter db =
     (let now = vw_now v;
          nextRun = (if deadLetter then now
                     else now + For (BackoffCurve cfg) (job_Attempts job) (vw_jitter v)) in
      snd (Fail (job_ID job) (job_LeaseToken job) now nextRun deadLetter (Some (error_text cause)) db))"

text \<open>The registered kinds need no escaping, so \<open>%q\<close> puts them in double quotes.\<close>

definition no_handler :: "Kind \<Rightarrow> handler_error" where
  "no_handler kind = Plain (''no handler registered for kind '' @ CHR 0x22 # kind @ [CHR 0x22])"

definition execute :: "Config \<Rightarrow> 'h Registry \<Rightarrow> Job \<Rightarrow> worker_view \<Rightarrow> database \<Rightarrow> database" where
  "execute cfg registry job v db =
     (case lookup registry (job_Kind job) of
        None \<Rightarrow> finishFailure cfg job v (no_handler (job_Kind job)) True db
      | Some reg \<Rightarrow>
          (let runErr = runHandler (vw_outcome v) in
           if vw_leaseLost v then db
           else if vw_parentDone v then db
           else if vw_jobDone v then db
           else (case runErr of
                   None \<Rightarrow> finishSuccess job v db
                 | Some err \<Rightarrow>
                     finishFailure cfg job v err (IsPermanent err \<or> job_Attempts job \<ge> maxAttempts reg) db)))"

definition pollOnce ::
  "Config \<Rightarrow> 'h Registry \<Rightarrow> bool \<Rightarrow> (string \<Rightarrow> bool) \<Rightarrow> string \<Rightarrow> string \<Rightarrow> instant \<Rightarrow> worker_view \<Rightarrow> database
   \<Rightarrow> bool \<times> database" where
  "pollOnce cfg registry paused locked token workerID now v db =
     (if paused then (False, db)
      else (case ClaimNext (LeaseDuration cfg) locked token workerID (kinds registry) now db of
              (Inl err, db') \<Rightarrow> (False, db')
            | (Inr None, db') \<Rightarrow> (False, db')
            | (Inr (Some job), db') \<Rightarrow> (True, execute cfg registry job v db')))"

text \<open>A tick of the heartbeat goroutine: whether the lease is lost.\<close>

definition heartbeat_tick :: "Config \<Rightarrow> Job \<Rightarrow> instant \<Rightarrow> database \<Rightarrow> bool \<times> database" where
  "heartbeat_tick cfg job now db =
     (case Heartbeat (LeaseDuration cfg) (job_ID job) (job_LeaseToken job) now db of
        (Inl err, db') \<Rightarrow> (False, db') | (Inr alive, db') \<Rightarrow> (\<not> alive, db'))"

section \<open>The queue\<close>

text \<open>\<open>json.Marshal\<close> of the payload is its result, an argument.\<close>

definition queue_Enqueue ::
  "(string \<Rightarrow> string option) \<Rightarrow> 'h Registry \<Rightarrow> string \<Rightarrow> instant \<Rightarrow> Kind \<Rightarrow> string result \<Rightarrow> database
   \<Rightarrow> string result \<times> database" where
  "queue_Enqueue jsonb registry newID now kind payload db =
     (case lookup registry kind of
        None \<Rightarrow> (Inl (DomainError InvalidInput (Msg ''no handler is registered for job kind %q'' [AStr kind]) None), db)
      | Some reg \<Rightarrow>
         (case payload of
            Inl err \<Rightarrow> (Inl (DomainError InvalidInput (Msg ''job payload is not JSON-serializable'' []) (Some err)), db)
          | Inr raw \<Rightarrow>
             (case Enqueue jsonb \<lparr> nj_ID = newID, nj_Kind = kind, nj_Payload = raw, nj_MaxAttempts = maxAttempts reg,
                   nj_AvailableAt = now, nj_Now = now \<rparr> db of
                (Some err, db') \<Rightarrow> (Inl err, db') | (None, db') \<Rightarrow> (Inr newID, db'))))"

text \<open>
  \<open>CancelJob\<close> of the queue: the row first, then the handler if it runs in this process; the live
  handlers are the ids registered by \<open>execute\<close>, and the result says which context is cancelled.
\<close>

definition queue_CancelJob ::
  "string set \<Rightarrow> string \<Rightarrow> instant \<Rightarrow> database \<Rightarrow> (go_error option \<times> string option) \<times> database" where
  "queue_CancelJob live i now db =
     (case CancelJob i now db of
        (Some err, db') \<Rightarrow> ((Some err, None), db')
      | (None, db') \<Rightarrow> ((None, if i \<in> live then Some i else None), db'))"

section \<open>The engine keeps to the attempt limit\<close>

text \<open>While a token holds a job, the job's attempts are those of the claim.\<close>

definition lease_row :: "string \<Rightarrow> string \<Rightarrow> int \<Rightarrow> int \<Rightarrow> job_row list \<Rightarrow> bool" where
  "lease_row i k n m t \<longleftrightarrow> (\<forall>r \<in> set t. fenced i k r \<longrightarrow> jb_attempts r = n \<and> jb_max_attempts r = m)"

lemma lease_row_step:
  assumes "table_step S S'" "lease_row i k n m (snd S)" "k \<in> fst S"
  shows "lease_row i k n m (snd S') \<and> k \<in> fst S'"
  using assms
proof (induction rule: table_step.induct)
  case (t_claim token U r t lease w now)
  then show ?case by (auto simp: lease_row_def fenced_def set_update_where claimed_def split: if_splits)
next
  case (t_finish s f t j token U)
  have "\<not> fenced i k (f x)" for x using t_finish(1,2) by (auto simp: fenced_def)
  then show ?case using t_finish by (auto simp: lease_row_def set_update_where split: if_splits)
next
  case (t_keep f U t j token)
  have "fenced i k (f x) \<longleftrightarrow> fenced i k x" for x using t_keep(1) by (simp add: fenced_def)
  then show ?case using t_keep by (auto simp: lease_row_def set_update_where split: if_splits)
next
  case (t_reclaim token U r t d now)
  then show ?case by (auto simp: lease_row_def fenced_def set_update_where reclaimed_def Let_def split: if_splits)
next
  case (t_cancel r t U now)
  then show ?case by (auto simp: lease_row_def fenced_def set_update_where cancelled_def split: if_splits)
qed (auto simp: lease_row_def fenced_def queued_row_def delete_where_def)

lemma lease_row_history:
  assumes "job_step\<^sup>*\<^sup>* (U, db) (U', db')" "lease_row i k n m (jobs db)" "k \<in> U"
  shows "lease_row i k n m (jobs db')"
proof -
  have "lease_row i k n m (jobs (snd (U', db'))) \<and> k \<in> fst (U', db')"
    by (rule history_induct [where P = "\<lambda>V t. lease_row i k n m t \<and> k \<in> V", OF assms(1)])
       (use assms(2,3) in simp, elim conjE, rule lease_row_step)
  then show ?thesis by simp
qed

lemma execute_step:
  assumes "lease_row (job_ID job) (job_LeaseToken job) (job_Attempts job) m (jobs db)"
    and "\<And>reg. lookup registry (job_Kind job) = Some reg \<Longrightarrow> maxAttempts reg \<le> m"
  shows "job_step\<^sup>=\<^sup>= (U, db) (U, execute cfg registry job v db)"
proof -
  have ff: "job_step (U, db) (U, finishFailure cfg job v err dead db)" if "m \<le> job_Attempts job \<Longrightarrow> dead" for err dead
    unfolding finishFailure_def Let_def
    by (rule job_stepI [OF job_event.fail [OF _ prod.collapse [symmetric]]]) (use assms(1) that in \<open>auto simp: lease_row_def\<close>)
  have "job_step (U, db) (U, finishSuccess job v db)"
    unfolding finishSuccess_def by (rule job_stepI [OF job_event.complete [OF prod.collapse [symmetric]]])
  then show ?thesis
    using ff assms(2) by (fastforce simp: execute_def Let_def split: option.splits)
qed

lemma claim_lease_row:
  assumes "ClaimNext lease locked token w ks now db = (Inr (Some job), db1)" "job_inv U (jobs db)" "token \<notin> U"
  shows "lease_row (job_ID job) (job_LeaseToken job) (job_Attempts job) (job_MaxAttempts job) (jobs db1)"
    "job_LeaseToken job = token"
proof -
  have "connected db" "next_claim locked ks now db \<noteq> None"
    using assms(1) by (auto simp: ClaimNext_def split: if_splits option.splits)
  then obtain r where r: "next_claim locked ks now db = Some r" by blast
  obtain x d1 where tx: "job_tx (job_exec (claim_row lease token w now (jb_id r))) db = (x, d1)" by fastforce
  have g: "db1 = d1" "is_ok x" "GetJob d1 (jb_id r) = Inr job"
    using assms(1) r tx \<open>connected db\<close> by (auto simp: ClaimNext_def split: sum.splits)
  have t: "jobs db1 = update_where (\<lambda>x. jb_id x = jb_id r) (claimed lease token w now) (jobs db)"
    using tx by (rule job_tx_exec_cases) (use g in \<open>auto simp: claim_row_def update_jobs_def split: if_splits\<close>)
  obtain y where y: "row_by jb_id (jb_id r) (jobs db1) = Some y" "scanJob (Some y) = Inr job"
    using g by (auto simp: GetJob_def scanJob_def split: if_splits option.splits)
  have dist: "distinct (map jb_id (jobs db))" using assms(2) by (simp add: job_inv_def)
  have "y \<in> set (jobs db1)" "jb_id y = jb_id r" using row_by_SomeD [OF y(1)] by simp_all
  moreover have "x = r" if "x \<in> set (jobs db)" "jb_id x = jb_id r" for x
    using same_id_same_row [OF dist next_claim_Some(1) [OF r]] that by simp
  ultimately have y': "y = claimed lease token w now r" unfolding t set_update_where by (auto simp: claimed_def split: if_splits)
  have job: "job_ID job = jb_id r" "job_LeaseToken job = token" "job_Attempts job = jb_attempts y"
      "job_MaxAttempts job = jb_max_attempts y"
    using y(2) by (auto simp: scanJob_def y' claimed_def text_or_empty_def)
  show "job_LeaseToken job = token" by (rule job(2))
  have "jb_lease_token z \<noteq> Some token" if "z \<in> set (jobs db)" for z
    using assms(2,3) that by (auto simp: job_inv_def split: option.splits)
  then have "z = y" if "z \<in> set (jobs db1)" "fenced (jb_id r) token z" for z
    using that \<open>\<And>x. x \<in> set (jobs db) \<Longrightarrow> jb_id x = jb_id r \<Longrightarrow> x = r\<close> unfolding t set_update_where y'
    by (auto simp: fenced_def split: if_splits)
  then show "lease_row (job_ID job) (job_LeaseToken job) (job_Attempts job) (job_MaxAttempts job) (jobs db1)"
    unfolding job by (auto simp: lease_row_def)
qed

text \<open>C39: The engine keeps to the table's protocol.  A worker that claimed a job under a new token and
  whose registry gives the job's kind no more attempts than the row, writes, after any other
  operations happened meanwhile and whatever its handler did, only what the protocol allows, so the
  invariant of the table holds after it.  The condition on the registry is needed: the engine
  compares the attempts with the registered limit, not with the row's, so after a restart that
  raises the limit of a kind it writes \<open>retrying\<close> on a job whose attempts are used up.\<close>

theorem engine_follows_protocol:
  assumes "job_inv U (jobs db)" "token \<notin> U" "ClaimNext lease locked token w ks now db = (Inr (Some job), db1)"
    and "job_step\<^sup>*\<^sup>* (insert token U, db1) (U2, db2)"
    and "case lookup registry (job_Kind job) of None \<Rightarrow> True | Some reg \<Rightarrow> maxAttempts reg \<le> job_MaxAttempts job"
  shows "job_step\<^sup>*\<^sup>* (U, db) (U2, execute cfg registry job v db2) \<and> job_inv U2 (jobs (execute cfg registry job v db2))"
proof -
  note l = claim_lease_row [OF assms(3,1,2)]
  have "lease_row (job_ID job) (job_LeaseToken job) (job_Attempts job) (job_MaxAttempts job) (jobs db2)"
    by (rule lease_row_history [OF assms(4) l(1)]) (simp add: l(2))
  then have "job_step\<^sup>=\<^sup>= (U2, db2) (U2, execute cfg registry job v db2)"
    by (rule execute_step) (use assms(5) in auto)
  then have last: "job_step\<^sup>*\<^sup>* (U2, db2) (U2, execute cfg registry job v db2)" by auto
  have "job_step\<^sup>*\<^sup>* (U, db) (U2, db2)"
    by (rule converse_rtranclp_into_rtranclp [OF job_stepI [OF job_event.claim [OF assms(2,3)]] assms(4)])
  then have run: "job_step\<^sup>*\<^sup>* (U, db) (U2, execute cfg registry job v db2)" using last by (rule rtranclp_trans)
  have "job_inv (fst (U2, execute cfg registry job v db2)) (jobs (snd (U2, execute cfg registry job v db2)))"
    by (rule history_induct [where P = job_inv, OF run _ table_step_inv]) (simp_all add: assms(1))
  then show ?thesis using run by simp
qed

text \<open>What a finished handler leaves behind.  While the worker still holds the lease, over a
  connection that stays up and with nothing cancelled, the job's row becomes completed after
  success, dead letter after a permanent failure or when its attempts are used up, and retrying
  otherwise, due after the backoff delay; no other row changes.\<close>

theorem execute_outcome:
  assumes "db_links db = None" "distinct (map jb_id (jobs db))" "r \<in> set (jobs db)"
    and "fenced (job_ID job) (job_LeaseToken job) r" "lookup registry (job_Kind job) = Some reg"
    and "\<not> vw_leaseLost v" "\<not> vw_parentDone v" "\<not> vw_jobDone v"
  shows "\<exists>r'. jobs (execute cfg registry job v db) = map (\<lambda>x. if x = r then r' else x) (jobs db)
    \<and> jb_id r' = jb_id r \<and> jb_locked_until r' = None
    \<and> jb_status r' = (case runHandler (vw_outcome v) of
         None \<Rightarrow> StateCompleted
       | Some e \<Rightarrow> if IsPermanent e \<or> maxAttempts reg \<le> job_Attempts job then StateDeadLetter else StateRetrying)
    \<and> (jb_status r' = StateRetrying \<longrightarrow>
         jb_available_at r' = timestamptz (vw_now v + For (BackoffCurve cfg) (job_Attempts job) (vw_jitter v)))"
proof -
  have w: "jobs (snd (fenced_write (job_ID job) (job_LeaseToken job) f db)) = map (\<lambda>x. if x = r then f r else x) (jobs db)" for f
  proof -
    have "fenced (job_ID job) (job_LeaseToken job) x \<longleftrightarrow> x = r" if "x \<in> set (jobs db)" for x
      using assms(4) same_id_same_row [OF assms(2,3) that] by (auto simp: fenced_def)
    then have "update_where (fenced (job_ID job) (job_LeaseToken job)) f (jobs db) = map (\<lambda>x. if x = r then f r else x) (jobs db)"
      unfolding update_where_def by (intro map_cong) auto
    then show ?thesis
      using assms(1) by (simp add: fenced_write_def job_exec_def Exec_def connected_def update_jobs_def tick_def)
  qed
  show ?thesis
  proof (cases "runHandler (vw_outcome v)")
    case None
    then have "execute cfg registry job v db = snd (Complete (job_ID job) (job_LeaseToken job) (vw_now v) db)"
      using assms(5-8) by (simp add: execute_def finishSuccess_def)
    then obtain f where "jobs (execute cfg registry job v db) = map (\<lambda>x. if x = r then f r else x) (jobs db)"
      "jb_id (f r) = jb_id r" "jb_status (f r) = StateCompleted" "jb_locked_until (f r) = None"
      using w unfolding Complete_def by fastforce
    then show ?thesis using None by (intro exI [of _ "f r"]) simp
  next
    case (Some e)
    define dead where "dead = (IsPermanent e \<or> maxAttempts reg \<le> job_Attempts job)"
    have "execute cfg registry job v db = finishFailure cfg job v e dead db"
      using assms(5-8) Some by (simp add: execute_def dead_def)
    then obtain f where "jobs (execute cfg registry job v db) = map (\<lambda>x. if x = r then f r else x) (jobs db)"
      "jb_id (f r) = jb_id r" "jb_locked_until (f r) = None"
      "jb_status (f r) = (if dead then StateDeadLetter else StateRetrying)"
      "\<not> dead \<Longrightarrow> jb_available_at (f r) = timestamptz (vw_now v + For (BackoffCurve cfg) (job_Attempts job) (vw_jitter v))"
      using w unfolding finishFailure_def Fail_def Let_def by fastforce
    then show ?thesis using Some by (intro exI [of _ "f r"]) (simp add: dead_def)
  qed
qed

section \<open>Examples\<close>

definition scan_registry :: "unit Registry" where
  "scan_registry = [(''scan'', \<lparr> maxAttempts = 2, handler = () \<rparr>)]"

definition scan_failed :: worker_view where
  "scan_failed = \<lparr> vw_outcome = Panicked ''index out of range'', vw_leaseLost = False, vw_parentDone = False,
     vw_jobDone = False, vw_now = 7000, vw_jitter = 1/2 \<rparr>"

theorem engine_follows_protocol_witness:
  "\<exists>job db1. ClaimNext 60000 (\<lambda>_. False) ''t'' ''w'' [] 5000 (scan_db (scan_row StateQueued 0 None None))
     = (Inr (Some job), db1)
   \<and> job_inv {''t'', ''j''} (jobs (execute DefaultConfig scan_registry job scan_failed db1))"
proof -
  let ?db = "scan_db (scan_row StateQueued 0 None None)"
  obtain job db1 where c: "ClaimNext 60000 (\<lambda>_. False) ''t'' ''w'' [] 5000 ?db = (Inr (Some job), db1)"
    and k: "job_Kind job = ''scan''" "job_MaxAttempts job = 2"
    using scan_claimed [of StateQueued 0 "''t''" None] by auto
  have inv: "job_inv {''j''} (jobs ?db)"
    by (simp add: job_inv_def scan_db_def scan_row_def queued_row_def job_states_def)
  have reg: "case lookup scan_registry (job_Kind job) of None \<Rightarrow> True | Some reg \<Rightarrow> maxAttempts reg \<le> job_MaxAttempts job"
    by (simp add: scan_registry_def lookup_def k)
  from engine_follows_protocol [OF inv _ c rtranclp.rtrancl_refl reg, of DefaultConfig scan_failed]
  show ?thesis using c by auto
qed

theorem execute_outcome_witness:
  "\<exists>r' job. jobs (execute DefaultConfig scan_registry job scan_failed
       (scan_db (scan_row StateRunning 2 (Some ''t'') (Some 65000)))) = [r'] \<and> jb_status r' = StateDeadLetter"
proof -
  let ?r = "scan_row StateRunning 2 (Some ''t'') (Some 65000)"
  let ?job = "\<lparr> job_ID = ''j'', job_Kind = ''scan'', job_Payload = ''null'', job_State = StateRunning,
    job_Attempts = 2, job_MaxAttempts = 2, job_AvailableAt = 0, job_LockedUntil = Some 65000,
    job_LeaseToken = ''t'', job_LockedBy = ''w'', job_LastError = [], job_Progress = None,
    job_CreatedAt = 0, job_UpdatedAt = 5000, job_CompletedAt = None \<rparr>"
  have "db_links (scan_db ?r) = None" "distinct (map jb_id (jobs (scan_db ?r)))" "?r \<in> set (jobs (scan_db ?r))"
    "fenced (job_ID ?job) (job_LeaseToken ?job) ?r"
    "lookup scan_registry (job_Kind ?job) = Some \<lparr> maxAttempts = 2, handler = () \<rparr>"
    "\<not> vw_leaseLost scan_failed" "\<not> vw_parentDone scan_failed" "\<not> vw_jobDone scan_failed"
    by (simp_all add: scan_db_def empty_database_def scan_row_def queued_row_def fenced_def scan_registry_def
        lookup_def scan_failed_def)
  from execute_outcome [OF this, of DefaultConfig] obtain r' where
    "jobs (execute DefaultConfig scan_registry ?job scan_failed (scan_db ?r)) = [r']" "jb_status r' = StateDeadLetter"
    by (auto simp: scan_db_def scan_failed_def runHandler_def)
  then show ?thesis by blast
qed

end
