(* ===== verification/Domain_Auth.thy ===== *)
theory Domain_Auth
  imports Domain_Catalog Domain_Error Go_Regexp
begin

text \<open>
  Accounts and tenancy: \<open>internal/domain/auth.go\<close> (roles, users, credentials, refresh tokens,
  TOTP settings, password-reset tokens) and \<open>internal/domain/library_aggregate.go\<close> (libraries,
  memberships, invitations).  A \<open>Role\<close> is a Go string type, so any string can be one and
  \<open>role_IsValid\<close> is what the constructors test.  \<open>cm\<close> is the case mapping of
  package \<open>unicode\<close> outside ASCII.
\<close>

type_synonym Role = string
type_synonym RefreshTokenID = string
type_synonym PasswordResetID = string
type_synonym LibraryMembershipID = string
type_synonym LibraryInvitationID = string

section \<open>Roles\<close>

definition RoleAdmin :: Role where "RoleAdmin = ''admin''"
definition RoleReader :: Role where "RoleReader = ''reader''"

definition role_IsValid :: "Role \<Rightarrow> bool" where
  "role_IsValid r \<longleftrightarrow> r = RoleAdmin \<or> r = RoleReader"

definition ParseRole :: "string \<Rightarrow> Role result" where
  "ParseRole s =
     (if s = RoleAdmin then Inr RoleAdmin
      else if s = RoleReader then Inr RoleReader
      else Inl (derr InvalidInput (''invalid role: '' @ s)))"

lemma ParseRole_iff: "ParseRole s = Inr r \<longleftrightarrow> r = s \<and> role_IsValid s"
  by (auto simp: ParseRole_def role_IsValid_def)

section \<open>Users\<close>

definition username_char :: "char \<Rightarrow> bool" where
  "username_char c \<longleftrightarrow> is_alnum c \<or> c = CHR ''_'' \<or> c = CHR ''-''"

definition validUsernameRegex :: rx where
  "validUsernameRegex = Rep 3 50 (Cls username_char)"

definition local_char :: "char \<Rightarrow> bool" where
  "local_char c \<longleftrightarrow> is_alnum c \<or> c \<in> set ''.!#$%&*+/=?^_{|}~-'' \<or> c = CHR 0x27 \<or> c = CHR 0x60"

definition domain_label :: rx where
  "domain_label =
     Cat (Cls is_alnum)
      (Opt (Cat (Rep 0 61 (Cls (\<lambda>c. is_alnum c \<or> c = CHR ''-''))) (Cls is_alnum)))"

definition validEmailRegex :: rx where
  "validEmailRegex =
     Cat (Plus (Cls local_char))
      (Cat (Cls (\<lambda>c. c = CHR ''@''))
        (Cat domain_label (Plus (Cat (Cls (\<lambda>c. c = CHR ''.'')) domain_label))))"

record User =
  us_id :: UserID
  us_username :: string
  us_email :: string
  us_role :: Role
  us_createdAt :: instant
  us_updatedAt :: instant

definition normal_email :: "(rune \<Rightarrow> rune) \<Rightarrow> string \<Rightarrow> string" where
  "normal_email cm email = TrimSpace (ToLower cm email)"

definition NewUser ::
  "(rune \<Rightarrow> rune) \<Rightarrow> UserID \<Rightarrow> string \<Rightarrow> string \<Rightarrow> Role \<Rightarrow> instant \<Rightarrow> instant \<Rightarrow> User result" where
  "NewUser cm i username0 email0 role createdAt updatedAt =
     (if blank i then Inl (derr InvalidInput ''user ID cannot be empty'')
      else
       (let username = TrimSpace username0 in
        if \<not> MatchString validUsernameRegex username then
          Inl (derr InvalidInput ''username must be 3-50 alphanumeric characters or - _'')
        else
         (let email = normal_email cm email0 in
          if length email > 255 \<or> \<not> MatchString validEmailRegex email then
            Inl (derr InvalidInput ''invalid email address format'')
          else if \<not> role_IsValid role then Inl (derr InvalidInput ''invalid user role'')
          else Inr \<lparr> us_id = i, us_username = username, us_email = email, us_role = role,
                     us_createdAt = createdAt, us_updatedAt = updatedAt \<rparr>)))"

definition user_SetRole :: "Role \<Rightarrow> instant \<Rightarrow> User \<Rightarrow> go_error option \<times> User" where
  "user_SetRole r now u =
     (if \<not> role_IsValid r then (Some (derr InvalidInput ''invalid user role''), u)
      else (None, u\<lparr>us_role := r, us_updatedAt := now\<rparr>))"

text \<open>What every user made by the constructor satisfies.\<close>

definition user_ok :: "User \<Rightarrow> bool" where
  "user_ok u \<longleftrightarrow> \<not> blank (us_id u)
     \<and> 3 \<le> length (us_username u) \<and> length (us_username u) \<le> 50 \<and> list_all username_char (us_username u)
     \<and> length (us_email u) \<le> 255 \<and> MatchString validEmailRegex (us_email u) \<and> role_IsValid (us_role u)"

lemma validUsername_iff:
  "MatchString validUsernameRegex s \<longleftrightarrow> 3 \<le> length s \<and> length s \<le> 50 \<and> list_all username_char s"
  by (simp add: MatchString_iff validUsernameRegex_def lang_Rep_Cls)

lemma NewUser_ok [ok_dest]:
  assumes "NewUser cm i un em role c t = Inr u"
  shows "user_ok u \<and> us_id u = i \<and> us_username u = TrimSpace un \<and> us_email u = normal_email cm em
    \<and> us_role u = role \<and> us_createdAt u = c \<and> us_updatedAt u = t"
  using assms unfolding NewUser_def Let_def
  by (auto simp: user_ok_def validUsername_iff split: if_splits)

lemma SetRole_ok: "user_ok u \<Longrightarrow> user_ok (snd (user_SetRole r now u))"
  by (simp add: user_SetRole_def user_ok_def)

text \<open>An address has exactly one local part before its last at sign, and no byte outside ASCII.\<close>

lemma local_char_ascii: "local_char c \<Longrightarrow> byte_of c < 128 \<and> c \<noteq> CHR ''@''"
  by (auto simp: local_char_def is_alnum_def is_alpha_def is_lower_def is_upper_def is_digit_def between_def)

section \<open>Credentials\<close>

record UserCredentials =
  uc_userID :: UserID
  uc_passwordHash :: string
  uc_updatedAt :: instant

definition NewUserCredentials :: "UserID \<Rightarrow> string \<Rightarrow> instant \<Rightarrow> UserCredentials result" where
  "NewUserCredentials userID passwordHash updatedAt =
     (if blank userID then Inl (derr InvalidInput ''user ID cannot be empty'')
      else if blank passwordHash then Inl (derr InvalidInput ''password hash cannot be empty'')
      else Inr \<lparr> uc_userID = userID, uc_passwordHash = passwordHash, uc_updatedAt = updatedAt \<rparr>)"

section \<open>Refresh tokens\<close>

record RefreshToken =
  rt_id :: RefreshTokenID
  rt_userID :: UserID
  rt_tokenHash :: string
  rt_expiresAt :: instant
  rt_revokedAt :: "instant option"
  rt_createdAt :: instant

definition RehydrateRefreshToken ::
  "RefreshTokenID \<Rightarrow> UserID \<Rightarrow> string \<Rightarrow> instant \<Rightarrow> instant option \<Rightarrow> instant \<Rightarrow> RefreshToken" where
  "RehydrateRefreshToken i userID tokenHash expiresAt revokedAt createdAt =
     \<lparr> rt_id = i, rt_userID = userID, rt_tokenHash = tokenHash, rt_expiresAt = expiresAt,
       rt_revokedAt = revokedAt, rt_createdAt = createdAt \<rparr>"

definition NewRefreshToken ::
  "RefreshTokenID \<Rightarrow> UserID \<Rightarrow> string \<Rightarrow> instant \<Rightarrow> instant \<Rightarrow> RefreshToken result" where
  "NewRefreshToken i userID tokenHash expiresAt createdAt =
     (if blank i then Inl (derr InvalidInput ''refresh token ID cannot be empty'')
      else if blank userID then Inl (derr InvalidInput ''user ID cannot be empty'')
      else if blank tokenHash then Inl (derr InvalidInput ''token hash cannot be empty'')
      else Inr (RehydrateRefreshToken i userID tokenHash expiresAt None createdAt))"

definition IsActive :: "RefreshToken \<Rightarrow> instant \<Rightarrow> bool" where
  "IsActive r now \<longleftrightarrow> rt_revokedAt r = None \<and> now < rt_expiresAt r"

definition token_Revoke :: "instant \<Rightarrow> RefreshToken \<Rightarrow> RefreshToken" where
  "token_Revoke now r = r\<lparr>rt_revokedAt := Some now\<rparr>"

section \<open>TOTP settings\<close>

record TOTPSettings =
  ts_userID :: UserID
  ts_encryptedSecret :: string
  ts_recoveryCodeHashes :: "string list"
  ts_enabled :: bool
  ts_confirmedAt :: "instant option"
  ts_createdAt :: instant

definition NewTOTPSettings ::
  "UserID \<Rightarrow> string \<Rightarrow> string list \<Rightarrow> bool \<Rightarrow> instant option \<Rightarrow> instant \<Rightarrow> TOTPSettings result" where
  "NewTOTPSettings userID encryptedSecret recoveryCodeHashes enabled confirmedAt createdAt =
     (if blank userID then Inl (derr InvalidInput ''user ID cannot be empty'')
      else if encryptedSecret = [] then Inl (derr InvalidInput ''encrypted secret cannot be empty'')
      else Inr \<lparr> ts_userID = userID, ts_encryptedSecret = encryptedSecret,
                 ts_recoveryCodeHashes = recoveryCodeHashes, ts_enabled = enabled,
                 ts_confirmedAt = confirmedAt, ts_createdAt = createdAt \<rparr>)"

definition totp_Confirm :: "instant \<Rightarrow> TOTPSettings \<Rightarrow> TOTPSettings" where
  "totp_Confirm now t = t\<lparr>ts_enabled := True, ts_confirmedAt := Some now\<rparr>"

definition totp_Disable :: "TOTPSettings \<Rightarrow> TOTPSettings" where
  "totp_Disable t = t\<lparr>ts_enabled := False, ts_confirmedAt := None\<rparr>"

section \<open>Password-reset tokens\<close>

record PasswordResetToken =
  pt_id :: PasswordResetID
  pt_userID :: UserID
  pt_tokenHash :: string
  pt_expiresAt :: instant
  pt_usedAt :: "instant option"
  pt_createdAt :: instant

definition RehydratePasswordResetToken ::
  "PasswordResetID \<Rightarrow> UserID \<Rightarrow> string \<Rightarrow> instant \<Rightarrow> instant option \<Rightarrow> instant \<Rightarrow> PasswordResetToken" where
  "RehydratePasswordResetToken i userID tokenHash expiresAt usedAt createdAt =
     \<lparr> pt_id = i, pt_userID = userID, pt_tokenHash = tokenHash, pt_expiresAt = expiresAt,
       pt_usedAt = usedAt, pt_createdAt = createdAt \<rparr>"

definition NewPasswordResetToken ::
  "PasswordResetID \<Rightarrow> UserID \<Rightarrow> string \<Rightarrow> instant \<Rightarrow> instant \<Rightarrow> PasswordResetToken result" where
  "NewPasswordResetToken i userID tokenHash expiresAt createdAt =
     (if blank i then Inl (derr InvalidInput ''password reset token ID cannot be empty'')
      else if blank userID then Inl (derr InvalidInput ''user ID cannot be empty'')
      else if blank tokenHash then Inl (derr InvalidInput ''token hash cannot be empty'')
      else Inr (RehydratePasswordResetToken i userID tokenHash expiresAt None createdAt))"

definition reset_IsValid :: "PasswordResetToken \<Rightarrow> instant \<Rightarrow> bool" where
  "reset_IsValid p now \<longleftrightarrow> pt_usedAt p = None \<and> now < pt_expiresAt p"

definition reset_MarkUsed :: "instant \<Rightarrow> PasswordResetToken \<Rightarrow> PasswordResetToken" where
  "reset_MarkUsed now p = p\<lparr>pt_usedAt := Some now\<rparr>"

section \<open>Libraries\<close>

record Library =
  li_id :: LibraryID
  li_name :: string
  li_description :: string
  li_allowReaderUploads :: bool
  li_createdAt :: instant
  li_updatedAt :: instant

definition NewLibrary ::
  "LibraryID \<Rightarrow> string \<Rightarrow> string \<Rightarrow> bool \<Rightarrow> instant \<Rightarrow> instant \<Rightarrow> Library result" where
  "NewLibrary i name0 description allowReaderUploads createdAt updatedAt =
     (if blank i then Inl (derr InvalidInput ''library ID cannot be empty'')
      else
       (let name = TrimSpace name0 in
        if name = [] \<or> length name > 100 then
          Inl (derr InvalidInput ''library name must be between 1 and 100 characters'')
        else if length description > 2000 then
          Inl (derr InvalidInput ''library description cannot exceed 2000 characters'')
        else Inr \<lparr> li_id = i, li_name = name, li_description = description,
                   li_allowReaderUploads = allowReaderUploads, li_createdAt = createdAt,
                   li_updatedAt = updatedAt \<rparr>))"

definition library_Rename :: "string \<Rightarrow> instant \<Rightarrow> Library \<Rightarrow> go_error option \<times> Library" where
  "library_Rename newName0 now l =
     (let newName = TrimSpace newName0 in
      if newName = [] \<or> length newName > 100 then
        (Some (derr InvalidInput ''library name must be between 1 and 100 characters''), l)
      else (None, l\<lparr>li_name := newName, li_updatedAt := now\<rparr>))"

definition library_SetDescription :: "string \<Rightarrow> instant \<Rightarrow> Library \<Rightarrow> go_error option \<times> Library" where
  "library_SetDescription desc now l =
     (if length desc > 2000 then
        (Some (derr InvalidInput ''library description cannot exceed 2000 characters''), l)
      else (None, l\<lparr>li_description := desc, li_updatedAt := now\<rparr>))"

definition library_SetAllowReaderUploads :: "bool \<Rightarrow> instant \<Rightarrow> Library \<Rightarrow> Library" where
  "library_SetAllowReaderUploads allow now l = l\<lparr>li_allowReaderUploads := allow, li_updatedAt := now\<rparr>"

definition library_ok :: "Library \<Rightarrow> bool" where
  "library_ok l \<longleftrightarrow> \<not> blank (li_id l) \<and> li_name l \<noteq> [] \<and> length (li_name l) \<le> 100
     \<and> length (li_description l) \<le> 2000"

lemma NewLibrary_ok [ok_dest]: "NewLibrary i n d a c u = Inr l \<Longrightarrow> library_ok l \<and> li_id l = i"
  by (auto simp: NewLibrary_def library_ok_def Let_def split: if_splits)

lemma library_ops_ok:
  assumes "library_ok l"
  shows "library_ok (snd (library_Rename n now l))" "library_ok (snd (library_SetDescription d now l))"
    "library_ok (library_SetAllowReaderUploads a now l)"
  using assms
  by (simp_all add: library_Rename_def library_SetDescription_def library_SetAllowReaderUploads_def
      library_ok_def Let_def)

section \<open>Memberships and invitations\<close>

record LibraryMembership =
  mm_id :: LibraryMembershipID
  mm_libraryID :: LibraryID
  mm_userID :: UserID
  mm_role :: Role
  mm_createdAt :: instant

definition NewLibraryMembership ::
  "LibraryMembershipID \<Rightarrow> LibraryID \<Rightarrow> UserID \<Rightarrow> Role \<Rightarrow> instant \<Rightarrow> LibraryMembership result" where
  "NewLibraryMembership i libraryID userID role createdAt =
     (if blank i then Inl (derr InvalidInput ''membership ID cannot be empty'')
      else if blank libraryID then Inl (derr InvalidInput ''library ID cannot be empty'')
      else if blank userID then Inl (derr InvalidInput ''user ID cannot be empty'')
      else if \<not> role_IsValid role then Inl (derr InvalidInput ''invalid membership role'')
      else Inr \<lparr> mm_id = i, mm_libraryID = libraryID, mm_userID = userID, mm_role = role,
                 mm_createdAt = createdAt \<rparr>)"

definition membership_SetRole :: "Role \<Rightarrow> LibraryMembership \<Rightarrow> go_error option \<times> LibraryMembership" where
  "membership_SetRole r m =
     (if \<not> role_IsValid r then (Some (derr InvalidInput ''invalid membership role''), m)
      else (None, m\<lparr>mm_role := r\<rparr>))"

record LibraryInvitation =
  in_id :: LibraryInvitationID
  in_libraryID :: LibraryID
  in_email :: string
  in_role :: Role
  in_tokenHash :: string
  in_createdBy :: UserID
  in_expiresAt :: instant
  in_usedAt :: "instant option"
  in_createdAt :: instant

definition RehydrateLibraryInvitation ::
  "LibraryInvitationID \<Rightarrow> LibraryID \<Rightarrow> string \<Rightarrow> Role \<Rightarrow> string \<Rightarrow> UserID \<Rightarrow> instant \<Rightarrow> instant option
   \<Rightarrow> instant \<Rightarrow> LibraryInvitation" where
  "RehydrateLibraryInvitation i libraryID email role tokenHash createdBy expiresAt usedAt createdAt =
     \<lparr> in_id = i, in_libraryID = libraryID, in_email = email, in_role = role, in_tokenHash = tokenHash,
       in_createdBy = createdBy, in_expiresAt = expiresAt, in_usedAt = usedAt, in_createdAt = createdAt \<rparr>"

definition NewLibraryInvitation ::
  "(rune \<Rightarrow> rune) \<Rightarrow> LibraryInvitationID \<Rightarrow> LibraryID \<Rightarrow> string \<Rightarrow> Role \<Rightarrow> string \<Rightarrow> UserID \<Rightarrow> instant
   \<Rightarrow> instant \<Rightarrow> LibraryInvitation result" where
  "NewLibraryInvitation cm i libraryID email0 role tokenHash createdBy expiresAt createdAt =
     (if blank i then Inl (derr InvalidInput ''invitation ID cannot be empty'')
      else if blank libraryID then Inl (derr InvalidInput ''library ID cannot be empty'')
      else
       (let email = normal_email cm email0 in
        if length email > 255 \<or> \<not> MatchString validEmailRegex email then
          Inl (derr InvalidInput ''invalid email format'')
        else if \<not> role_IsValid role then Inl (derr InvalidInput ''invalid invitation role'')
        else if blank tokenHash then Inl (derr InvalidInput ''token hash cannot be empty'')
        else if blank createdBy then Inl (derr InvalidInput ''created by user ID cannot be empty'')
        else Inr (RehydrateLibraryInvitation i libraryID email role tokenHash createdBy expiresAt None createdAt)))"

definition invitation_IsValid :: "LibraryInvitation \<Rightarrow> instant \<Rightarrow> bool" where
  "invitation_IsValid i now \<longleftrightarrow> in_usedAt i = None \<and> now < in_expiresAt i"

definition invitation_MarkUsed :: "instant \<Rightarrow> LibraryInvitation \<Rightarrow> LibraryInvitation" where
  "invitation_MarkUsed now i = i\<lparr>in_usedAt := Some now\<rparr>"

end
