(* ===== verification/Postgres_Accounts.thy ===== *)
theory Postgres_Accounts
  imports Postgres_Pairing Postgres_Library Domain_Auth
begin

text \<open>
  The account and tenancy repositories of \<open>internal/persistence/postgres\<close>:
  \<open>auth_repository.go\<close>, \<open>library_repository.go\<close>, \<open>mfa_ticket_jti_repository.go\<close>,
  \<open>enrolment_grant_repository.go\<close> and \<open>network_settings_repository.go\<close>, over the tables of
  \<open>migrations/00009\<close>, \<open>00010\<close> and \<open>00014\<close>.

  \<open>sql_lower\<close> is SQL's \<open>LOWER\<close>, \<open>ck\<close> the collation key behind \<open>ORDER BY name\<close>; both
  are arguments.  A single-row query reads the first matching row in table order.
\<close>

section \<open>Rows read one at a time\<close>

text \<open>\<open>QueryRow(...).Scan(...)\<close>: no row is a \<open>NotFound\<close> error with the repository's message.\<close>

definition query_row :: "string \<Rightarrow> ('r \<Rightarrow> bool) \<Rightarrow> ('r \<Rightarrow> 'a result) \<Rightarrow> (database \<Rightarrow> 'r list) \<Rightarrow> database \<Rightarrow> 'a result" where
  "query_row missing P scan table db =
     (if \<not> connected db then Inl (TranslateError ErrClosed)
      else (case List.find P (table db) of
              None \<Rightarrow> Inl (derr NotFound missing)
            | Some r \<Rightarrow> scan r))"

lemma query_row_ok:
  assumes "query_row missing P scan table db = Inr a"
  obtains r where "r \<in> set (table db)" "P r" "scan r = Inr a" "List.find P (table db) = Some r" "connected db"
proof -
  obtain r where r: "connected db" "List.find P (table db) = Some r" "scan r = Inr a"
    using assms unfolding query_row_def by (auto split: if_splits option.splits)
  then have "r \<in> set (table db) \<and> P r" by (auto simp: find_Some_iff)
  with r show ?thesis using that by blast
qed

text \<open>\<open>Query\<close> with \<open>ORDER BY\<close>: rows in order, the first conversion error ends the loop.\<close>

definition query_rows :: "('r \<Rightarrow> bool) \<Rightarrow> ('r \<Rightarrow> 'k :: linorder) \<Rightarrow> ('r \<Rightarrow> 'a result) \<Rightarrow> (database \<Rightarrow> 'r list) \<Rightarrow> database \<Rightarrow> 'a list result" where
  "query_rows P key scan table db =
     (if \<not> connected db then Inl (TranslateError ErrClosed)
      else mapR scan (sort_key key (filter P (table db))))"

section \<open>Users\<close>

definition user_FindByID :: "(rune \<Rightarrow> rune) \<Rightarrow> database \<Rightarrow> UserID \<Rightarrow> User result" where
  "user_FindByID cm db i =
     query_row ''user not found'' (\<lambda>r. ur_id r = i)
       (\<lambda>r. case ParseRole (ur_role r) of
              Inl err \<Rightarrow> Inl err
            | Inr role \<Rightarrow> NewUser cm i (ur_username r) (ur_email r) role (ur_created_at r) (ur_updated_at r))
       users db"

definition user_FindByEmail :: "(rune \<Rightarrow> rune) \<Rightarrow> (string \<Rightarrow> string) \<Rightarrow> database \<Rightarrow> string \<Rightarrow> User result" where
  "user_FindByEmail cm sql_lower db email =
     query_row ''user not found'' (\<lambda>r. sql_lower (ur_email r) = sql_lower email)
       (\<lambda>r. case ParseRole (ur_role r) of
              Inl err \<Rightarrow> Inl err
            | Inr role \<Rightarrow> NewUser cm (ur_id r) (ur_username r) email role (ur_created_at r) (ur_updated_at r))
       users db"

definition user_FindByUsername :: "(rune \<Rightarrow> rune) \<Rightarrow> (string \<Rightarrow> string) \<Rightarrow> database \<Rightarrow> string \<Rightarrow> User result" where
  "user_FindByUsername cm sql_lower db username =
     query_row ''user not found'' (\<lambda>r. sql_lower (ur_username r) = sql_lower username)
       (\<lambda>r. case ParseRole (ur_role r) of
              Inl err \<Rightarrow> Inl err
            | Inr role \<Rightarrow> NewUser cm (ur_id r) username (ur_email r) role (ur_created_at r) (ur_updated_at r))
       users db"

definition CountUsers :: "database \<Rightarrow> nat result" where
  "CountUsers db = (if connected db then Inr (length (users db)) else Inl (TranslateError ErrClosed))"

definition user_row_of :: "User \<Rightarrow> user_row" where
  "user_row_of u = \<lparr> ur_id = us_id u, ur_username = us_username u, ur_email = us_email u, ur_role = us_role u,
     ur_created_at = timestamptz (us_createdAt u), ur_updated_at = timestamptz (us_updatedAt u) \<rparr>"

definition upsert_user :: "user_row \<Rightarrow> statement" where
  "upsert_user r db =
     (if ur_role r \<notin> {RoleAdmin, RoleReader} then Inl check_violation
      else if list_ex (\<lambda>x. ur_id x \<noteq> ur_id r \<and> (ur_username x = ur_username r \<or> ur_email x = ur_email r)) (users db)
        then Inl unique_violation
      else if ur_id r \<in> user_ids db then
        Inr (db\<lparr>users := update_where (\<lambda>x. ur_id x = ur_id r)
          (\<lambda>x. x\<lparr>ur_username := ur_username r, ur_email := ur_email r, ur_role := ur_role r,
                 ur_updated_at := ur_updated_at r\<rparr>) (users db)\<rparr>, 1)
      else Inr (db\<lparr>users := users db @ [r]\<rparr>, 1))"

definition user_Save :: "User \<Rightarrow> database command" where
  "user_Save u db = exec_one (upsert_user (user_row_of u)) db"

section \<open>Credentials\<close>

definition credential_FindByUserID :: "database \<Rightarrow> UserID \<Rightarrow> UserCredentials result" where
  "credential_FindByUserID db userID =
     query_row ''credentials not found'' (\<lambda>r. cr_user_id r = userID)
       (\<lambda>r. NewUserCredentials userID (cr_password_hash r) (cr_updated_at r)) user_credentials db"

definition upsert_credential :: "credential_row \<Rightarrow> statement" where
  "upsert_credential r db =
     (if cr_user_id r \<notin> user_ids db then Inl foreign_key_violation
      else Inr (db\<lparr>user_credentials := upsert_by cr_user_id r (user_credentials db)\<rparr>, 1))"

definition credential_Save :: "UserCredentials \<Rightarrow> database command" where
  "credential_Save c db =
     exec_one (upsert_credential \<lparr> cr_user_id = uc_userID c, cr_password_hash = uc_passwordHash c,
       cr_updated_at = timestamptz (uc_updatedAt c) \<rparr>) db"

section \<open>Refresh tokens\<close>

definition refresh_FindByTokenHash :: "database \<Rightarrow> string \<Rightarrow> RefreshToken result" where
  "refresh_FindByTokenHash db hash =
     query_row ''refresh token not found'' (\<lambda>r. rf_token_hash r = hash)
       (\<lambda>r. Inr (RehydrateRefreshToken (rf_id r) (rf_user_id r) hash (rf_expires_at r) (rf_revoked_at r)
         (rf_created_at r))) user_refresh_tokens db"

definition refresh_row_of :: "RefreshToken \<Rightarrow> refresh_row" where
  "refresh_row_of t = \<lparr> rf_id = rt_id t, rf_user_id = rt_userID t, rf_token_hash = rt_tokenHash t,
     rf_expires_at = timestamptz (rt_expiresAt t), rf_revoked_at = map_option timestamptz (rt_revokedAt t),
     rf_created_at = timestamptz (rt_createdAt t) \<rparr>"

definition upsert_refresh :: "refresh_row \<Rightarrow> statement" where
  "upsert_refresh r db =
     (if list_ex (\<lambda>x. rf_id x = rf_id r) (user_refresh_tokens db) then
        Inr (db\<lparr>user_refresh_tokens := update_where (\<lambda>x. rf_id x = rf_id r)
          (\<lambda>x. x\<lparr>rf_revoked_at := rf_revoked_at r\<rparr>) (user_refresh_tokens db)\<rparr>, 1)
      else if list_ex (\<lambda>x. rf_token_hash x = rf_token_hash r) (user_refresh_tokens db) then Inl unique_violation
      else if rf_user_id r \<notin> user_ids db then Inl foreign_key_violation
      else Inr (db\<lparr>user_refresh_tokens := user_refresh_tokens db @ [r]\<rparr>, 1))"

definition refresh_Save :: "RefreshToken \<Rightarrow> database command" where
  "refresh_Save t db = exec_one (upsert_refresh (refresh_row_of t)) db"

definition RevokeAllForUser :: "UserID \<Rightarrow> instant \<Rightarrow> database command" where
  "RevokeAllForUser userID now db =
     exec_one (\<lambda>db. let P = (\<lambda>r. rf_user_id r = userID \<and> rf_revoked_at r = None) in
       Inr (db\<lparr>user_refresh_tokens := update_where P (\<lambda>r. r\<lparr>rf_revoked_at := Some (timestamptz now)\<rparr>)
         (user_refresh_tokens db)\<rparr>, length (filter P (user_refresh_tokens db)))) db"

section \<open>MFA settings\<close>

definition mfa_FindByUserID :: "database \<Rightarrow> UserID \<Rightarrow> TOTPSettings result" where
  "mfa_FindByUserID db userID =
     query_row ''MFA settings not found'' (\<lambda>r. mf_user_id r = userID)
       (\<lambda>r. NewTOTPSettings userID (mf_encrypted_secret r) (mf_recovery_code_hashes r) (mf_enabled r)
         (mf_confirmed_at r) (mf_created_at r)) mfa_totp_settings db"

definition mfa_row_of :: "TOTPSettings \<Rightarrow> mfa_row" where
  "mfa_row_of s = \<lparr> mf_user_id = ts_userID s, mf_encrypted_secret = ts_encryptedSecret s,
     mf_recovery_code_hashes = ts_recoveryCodeHashes s, mf_enabled = ts_enabled s,
     mf_confirmed_at = map_option timestamptz (ts_confirmedAt s), mf_created_at = timestamptz (ts_createdAt s) \<rparr>"

definition upsert_mfa :: "mfa_row \<Rightarrow> statement" where
  "upsert_mfa r db =
     (if list_ex (\<lambda>x. mf_user_id x = mf_user_id r) (mfa_totp_settings db) then
        Inr (db\<lparr>mfa_totp_settings := update_where (\<lambda>x. mf_user_id x = mf_user_id r)
          (\<lambda>x. r\<lparr>mf_created_at := mf_created_at x\<rparr>) (mfa_totp_settings db)\<rparr>, 1)
      else if mf_user_id r \<notin> user_ids db then Inl foreign_key_violation
      else Inr (db\<lparr>mfa_totp_settings := mfa_totp_settings db @ [r]\<rparr>, 1))"

definition mfa_Save :: "TOTPSettings \<Rightarrow> database command" where
  "mfa_Save s db = exec_one (upsert_mfa (mfa_row_of s)) db"

definition mfa_Delete :: "UserID \<Rightarrow> database command" where
  "mfa_Delete userID db =
     exec_one (\<lambda>db. Inr (db\<lparr>mfa_totp_settings := delete_where (\<lambda>r. mf_user_id r = userID) (mfa_totp_settings db)\<rparr>,
       length (filter (\<lambda>r. mf_user_id r = userID) (mfa_totp_settings db)))) db"

section \<open>Password resets\<close>

definition reset_FindByTokenHash :: "database \<Rightarrow> string \<Rightarrow> PasswordResetToken result" where
  "reset_FindByTokenHash db hash =
     query_row ''password reset token not found'' (\<lambda>r. rs_token_hash r = hash)
       (\<lambda>r. Inr (RehydratePasswordResetToken (rs_id r) (rs_user_id r) hash (rs_expires_at r) (rs_used_at r)
         (rs_created_at r))) password_resets db"

definition reset_row_of :: "PasswordResetToken \<Rightarrow> reset_row" where
  "reset_row_of p = \<lparr> rs_id = pt_id p, rs_user_id = pt_userID p, rs_token_hash = pt_tokenHash p,
     rs_expires_at = timestamptz (pt_expiresAt p), rs_used_at = map_option timestamptz (pt_usedAt p),
     rs_created_at = timestamptz (pt_createdAt p) \<rparr>"

definition upsert_reset :: "reset_row \<Rightarrow> statement" where
  "upsert_reset r db =
     (if list_ex (\<lambda>x. rs_id x = rs_id r) (password_resets db) then
        Inr (db\<lparr>password_resets := update_where (\<lambda>x. rs_id x = rs_id r) (\<lambda>x. x\<lparr>rs_used_at := rs_used_at r\<rparr>)
          (password_resets db)\<rparr>, 1)
      else if list_ex (\<lambda>x. rs_token_hash x = rs_token_hash r) (password_resets db) then Inl unique_violation
      else if rs_user_id r \<notin> user_ids db then Inl foreign_key_violation
      else Inr (db\<lparr>password_resets := password_resets db @ [r]\<rparr>, 1))"

definition reset_Save :: "PasswordResetToken \<Rightarrow> database command" where
  "reset_Save p db = exec_one (upsert_reset (reset_row_of p)) db"

section \<open>Single-use identifiers\<close>

text \<open>\<open>INSERT ... ON CONFLICT DO NOTHING\<close>; the number of rows inserted says who claimed first.\<close>

definition claim :: "statement \<Rightarrow> database \<Rightarrow> bool result \<times> database" where
  "claim s db =
     (case Exec s db of (Inl err, db') \<Rightarrow> (Inl (TranslateError err), db') | (Inr n, db') \<Rightarrow> (Inr (n = 1), db'))"

definition ticket_Claim :: "string \<Rightarrow> instant \<Rightarrow> database \<Rightarrow> bool result \<times> database" where
  "ticket_Claim jti spentAt =
     claim (\<lambda>db. if jti \<in> fst ` set (mfa_ticket_jtis db) then Inr (db, 0)
       else Inr (db\<lparr>mfa_ticket_jtis := mfa_ticket_jtis db @ [(jti, timestamptz spentAt)]\<rparr>, 1))"

definition grant_Claim :: "string \<Rightarrow> instant \<Rightarrow> database \<Rightarrow> bool result \<times> database" where
  "grant_Claim jti spentAt =
     claim (\<lambda>db. if jti \<in> fst ` set (enrolment_grant_jtis db) then Inr (db, 0)
       else Inr (db\<lparr>enrolment_grant_jtis := enrolment_grant_jtis db @ [(jti, timestamptz spentAt)]\<rparr>, 1))"

section \<open>Libraries\<close>

definition scan_library :: "library_row \<Rightarrow> Library result" where
  "scan_library r = NewLibrary (lb_id r) (lb_name r) (lb_description r) (lb_allow_reader_uploads r)
     (lb_created_at r) (lb_updated_at r)"

definition library_FindByID :: "database \<Rightarrow> LibraryID \<Rightarrow> Library result" where
  "library_FindByID db i = query_row ''library not found'' (\<lambda>r. lb_id r = i) scan_library libraries db"

definition library_FindAll :: "(string \<Rightarrow> 'k :: linorder) \<Rightarrow> database \<Rightarrow> Library list result" where
  "library_FindAll ck db = query_rows (\<lambda>r. True) (ck \<circ> lb_name) scan_library libraries db"

definition member_libraries :: "UserID \<Rightarrow> database \<Rightarrow> library_row list" where
  "member_libraries userID db =
     concat (map (\<lambda>l. map (\<lambda>m. l) (filter (\<lambda>m. mb_library_id m = lb_id l \<and> mb_user_id m = userID)
       (library_memberships db))) (libraries db))"

definition library_FindByUser :: "(string \<Rightarrow> 'k :: linorder) \<Rightarrow> database \<Rightarrow> UserID \<Rightarrow> Library list result" where
  "library_FindByUser ck db userID =
     query_rows (\<lambda>r. True) (ck \<circ> lb_name) scan_library (member_libraries userID) db"

definition library_row_of :: "Library \<Rightarrow> library_row" where
  "library_row_of l = \<lparr> lb_id = li_id l, lb_name = li_name l, lb_description = li_description l,
     lb_allow_reader_uploads = li_allowReaderUploads l, lb_created_at = timestamptz (li_createdAt l),
     lb_updated_at = timestamptz (li_updatedAt l) \<rparr>"

definition upsert_library :: "library_row \<Rightarrow> statement" where
  "upsert_library r db =
     (if lb_id r \<in> library_ids db then
        Inr (db\<lparr>libraries := update_where (\<lambda>x. lb_id x = lb_id r)
          (\<lambda>x. r\<lparr>lb_created_at := lb_created_at x\<rparr>) (libraries db)\<rparr>, 1)
      else Inr (db\<lparr>libraries := libraries db @ [r]\<rparr>, 1))"

definition library_Save :: "Library \<Rightarrow> database command" where
  "library_Save l db = exec_one (upsert_library (library_row_of l)) db"

text \<open>
  Deleting a library deletes, by the references of the schema, its entries, its collections with their
  members, its sources with their import candidates, its memberships and invitations and the reading
  data kept in it.  The offerings carry the default library's id (no statement sets another), so they
  go with that library only.
\<close>

definition delete_library :: "LibraryID \<Rightarrow> statement" where
  "delete_library i db =
     (let gone = co_id ` set (filter (\<lambda>c. co_library_id c = i) (collections db));
          lost = sc_id ` set (filter (\<lambda>r. sc_library_id r = i) (sources db)) in
      if list_ex (\<lambda>r. of_source_id r \<in> lost \<and> i \<noteq> DefaultLibraryID) (source_offerings db)
      then Inl foreign_key_violation
      else Inr (db\<lparr>libraries := delete_where (\<lambda>r. lb_id r = i) (libraries db),
        library_entries := delete_where (\<lambda>r. en_library_id r = i) (library_entries db),
        collections := delete_where (\<lambda>r. co_library_id r = i) (collections db),
        collection_members := delete_where (\<lambda>r. me_collection_id r \<in> gone) (collection_members db),
        sources := delete_where (\<lambda>r. sc_library_id r = i) (sources db),
        import_candidates := delete_where (\<lambda>r. ic_source_id r \<in> lost) (import_candidates db),
        source_offerings := (if i = DefaultLibraryID then [] else source_offerings db),
        reading_progress := delete_where (\<lambda>r. pr_library_id r = Some i) (reading_progress db),
        bookmarks := delete_where (\<lambda>r. bk_library_id r = Some i) (bookmarks db),
        highlights := delete_where (\<lambda>r. hg_library_id r = Some i) (highlights db),
        library_memberships := delete_where (\<lambda>r. mb_library_id r = i) (library_memberships db),
        library_invitations := delete_where (\<lambda>r. iv_library_id r = i) (library_invitations db)\<rparr>,
        length (filter (\<lambda>r. lb_id r = i) (libraries db))))"

definition library_Delete :: "LibraryID \<Rightarrow> database command" where
  "library_Delete i db = exec_one (delete_library i) db"

section \<open>Memberships\<close>

definition scan_membership :: "membership_row \<Rightarrow> LibraryMembership result" where
  "scan_membership r =
     (case ParseRole (mb_role r) of
        Inl err \<Rightarrow> Inl err
      | Inr role \<Rightarrow> NewLibraryMembership (mb_id r) (mb_library_id r) (mb_user_id r) role (mb_created_at r))"

definition FindMembership :: "database \<Rightarrow> LibraryID \<Rightarrow> UserID \<Rightarrow> LibraryMembership result" where
  "FindMembership db libraryID userID =
     query_row ''membership not found'' (\<lambda>r. mb_library_id r = libraryID \<and> mb_user_id r = userID)
       scan_membership library_memberships db"

definition membership_FindByLibrary :: "database \<Rightarrow> LibraryID \<Rightarrow> LibraryMembership list result" where
  "membership_FindByLibrary db libraryID =
     query_rows (\<lambda>r. mb_library_id r = libraryID) mb_created_at scan_membership library_memberships db"

definition membership_FindByUser :: "database \<Rightarrow> UserID \<Rightarrow> LibraryMembership list result" where
  "membership_FindByUser db userID =
     query_rows (\<lambda>r. mb_user_id r = userID) mb_created_at scan_membership library_memberships db"

definition upsert_membership :: "membership_row \<Rightarrow> statement" where
  "upsert_membership r db =
     (let same = (\<lambda>x. mb_library_id x = mb_library_id r \<and> mb_user_id x = mb_user_id r) in
      if mb_role r \<notin> {RoleAdmin, RoleReader} then Inl check_violation
      else if list_ex same (library_memberships db) then
        Inr (db\<lparr>library_memberships := update_where same (\<lambda>x. x\<lparr>mb_role := mb_role r\<rparr>)
          (library_memberships db)\<rparr>, 1)
      else if mb_id r \<in> mb_id ` set (library_memberships db) then Inl unique_violation
      else if mb_library_id r \<notin> library_ids db \<or> mb_user_id r \<notin> user_ids db then Inl foreign_key_violation
      else Inr (db\<lparr>library_memberships := library_memberships db @ [r]\<rparr>, 1))"

definition membership_row_of :: "LibraryMembership \<Rightarrow> membership_row" where
  "membership_row_of m = \<lparr> mb_id = mm_id m, mb_library_id = mm_libraryID m, mb_user_id = mm_userID m,
     mb_role = mm_role m, mb_created_at = timestamptz (mm_createdAt m) \<rparr>"

definition membership_Save :: "LibraryMembership \<Rightarrow> database command" where
  "membership_Save m db = exec_one (upsert_membership (membership_row_of m)) db"

definition membership_Delete :: "LibraryID \<Rightarrow> UserID \<Rightarrow> database command" where
  "membership_Delete libraryID userID db =
     (let P = (\<lambda>r. mb_library_id r = libraryID \<and> mb_user_id r = userID) in
      exec_one (\<lambda>db. Inr (db\<lparr>library_memberships := delete_where P (library_memberships db)\<rparr>,
        length (filter P (library_memberships db)))) db)"

section \<open>Invitations\<close>

definition scan_invitation :: "invitation_row \<Rightarrow> LibraryInvitation result" where
  "scan_invitation r =
     (case ParseRole (iv_role r) of
        Inl err \<Rightarrow> Inl err
      | Inr role \<Rightarrow> Inr (RehydrateLibraryInvitation (iv_id r) (iv_library_id r) (iv_email r) role (iv_token_hash r)
          (iv_created_by r) (iv_expires_at r) (iv_used_at r) (iv_created_at r)))"

definition invitation_FindByID :: "database \<Rightarrow> LibraryInvitationID \<Rightarrow> LibraryInvitation result" where
  "invitation_FindByID db i =
     query_row ''invitation not found'' (\<lambda>r. iv_id r = i) scan_invitation library_invitations db"

definition invitation_FindByTokenHash :: "database \<Rightarrow> string \<Rightarrow> LibraryInvitation result" where
  "invitation_FindByTokenHash db hash =
     query_row ''invitation not found'' (\<lambda>r. iv_token_hash r = hash) scan_invitation library_invitations db"

definition invitation_FindByLibrary :: "database \<Rightarrow> LibraryID \<Rightarrow> LibraryInvitation list result" where
  "invitation_FindByLibrary db libraryID =
     query_rows (\<lambda>r. iv_library_id r = libraryID) (\<lambda>r. - iv_created_at r) scan_invitation library_invitations db"

definition invitation_row_of :: "LibraryInvitation \<Rightarrow> invitation_row" where
  "invitation_row_of i = \<lparr> iv_id = in_id i, iv_library_id = in_libraryID i, iv_email = in_email i,
     iv_role = in_role i, iv_token_hash = in_tokenHash i, iv_created_by = in_createdBy i,
     iv_expires_at = timestamptz (in_expiresAt i), iv_used_at = map_option timestamptz (in_usedAt i),
     iv_created_at = timestamptz (in_createdAt i) \<rparr>"

definition upsert_invitation :: "invitation_row \<Rightarrow> statement" where
  "upsert_invitation r db =
     (if iv_role r \<notin> {RoleAdmin, RoleReader} then Inl check_violation
      else if list_ex (\<lambda>x. iv_id x = iv_id r) (library_invitations db) then
        Inr (db\<lparr>library_invitations := update_where (\<lambda>x. iv_id x = iv_id r) (\<lambda>x. x\<lparr>iv_used_at := iv_used_at r\<rparr>)
          (library_invitations db)\<rparr>, 1)
      else if list_ex (\<lambda>x. iv_token_hash x = iv_token_hash r) (library_invitations db) then Inl unique_violation
      else if iv_library_id r \<notin> library_ids db \<or> iv_created_by r \<notin> user_ids db then Inl foreign_key_violation
      else Inr (db\<lparr>library_invitations := library_invitations db @ [r]\<rparr>, 1))"

definition invitation_Save :: "LibraryInvitation \<Rightarrow> database command" where
  "invitation_Save i db = exec_one (upsert_invitation (invitation_row_of i)) db"

definition invitation_Delete :: "LibraryInvitationID \<Rightarrow> database command" where
  "invitation_Delete i db =
     exec_one (\<lambda>db. Inr (db\<lparr>library_invitations := delete_where (\<lambda>r. iv_id r = i) (library_invitations db)\<rparr>,
       length (filter (\<lambda>r. iv_id r = i) (library_invitations db)))) db"

section \<open>Network settings\<close>

definition settings_Get :: "database \<Rightarrow> network_row result" where
  "settings_Get db =
     (if \<not> connected db then Inl (TranslateError ErrClosed)
      else (case network_settings db of
              None \<Rightarrow> Inl (derr NotFound ''network settings not found'')
            | Some r \<Rightarrow> Inr r))"

definition settings_Upsert :: "network_row option \<Rightarrow> database command" where
  "settings_Upsert s db =
     (case s of
        None \<Rightarrow> (Some (derr InvalidInput ''network settings cannot be nil''), db)
      | Some r \<Rightarrow>
          exec_one (\<lambda>db. if nw_remember_device_days r < 1 \<or> 90 < nw_remember_device_days r then Inl check_violation
            else Inr (db\<lparr>network_settings := Some (r\<lparr>nw_updated_at := timestamptz (nw_updated_at r)\<rparr>)\<rparr>, 1)) db)"

end
