(* ===== verification/Go_Strconv.thy ===== *)
theory Go_Strconv
  imports Go_Text
begin

text \<open>
  Decimal integers as Go's \<open>strconv\<close> and \<open>fmt\<close> print and read them (\<open>FormatInt\<close>,
  \<open>ParseInt\<close> in base ten at 64 bits, \<open>%d\<close> and \<open>%06d\<close>), and bytes in hexadecimal
  (\<open>encoding/hex\<close>).
\<close>

section \<open>Decimal numbers\<close>

definition digit :: "nat \<Rightarrow> char" where
  "digit n = char_of (48 + n)"

definition digit_val :: "char \<Rightarrow> nat" where
  "digit_val c = byte_of c - 48"

fun dec_nat :: "nat \<Rightarrow> string" where
  "dec_nat n = (if n < 10 then [digit n] else dec_nat (n div 10) @ [digit (n mod 10)])"

declare dec_nat.simps [simp del]

definition FormatInt :: "int \<Rightarrow> string" where
  "FormatInt i = (if i < 0 then CHR ''-'' # dec_nat (nat (- i)) else dec_nat (nat i))"

definition nat_of_digits :: "string \<Rightarrow> nat" where
  "nat_of_digits s = foldl (\<lambda>a c. a * 10 + digit_val c) 0 s"

definition parse_nat :: "string \<Rightarrow> nat option" where
  "parse_nat s = (if s = [] \<or> \<not> list_all is_digit s then None else Some (nat_of_digits s))"

text \<open>\<open>strconv.ParseInt(s, 10, 64)\<close>; any error is \<open>None\<close>.\<close>

definition ParseInt64 :: "string \<Rightarrow> int option" where
  "ParseInt64 s =
     (let neg = (s \<noteq> [] \<and> hd s = CHR ''-'');
          body = (if s \<noteq> [] \<and> (hd s = CHR ''-'' \<or> hd s = CHR ''+'') then tl s else s) in
      case parse_nat body of
        None \<Rightarrow> None
      | Some n \<Rightarrow> (let i = (if neg then - int n else int n) in if in_int64 i then Some i else None))"

text \<open>\<open>fmt.Sprintf("%0wd", n)\<close> for a non-negative number.\<close>

definition pad_dec :: "nat \<Rightarrow> nat \<Rightarrow> string" where
  "pad_dec w n = replicate (w - length (dec_nat n)) CHR ''0'' @ dec_nat n"

lemma digit_props:
  assumes "n < 10"
  shows "byte_of (digit n) = 48 + n" "is_digit (digit n)" "digit_val (digit n) = n"
  using assms by (simp_all add: digit_def is_digit_def digit_val_def between_def)

lemma dec_nat_digits: "list_all is_digit (dec_nat n) \<and> dec_nat n \<noteq> []"
proof (induction n rule: dec_nat.induct)
  case (1 n)
  then show ?case
    by (subst (1 2) dec_nat.simps) (auto simp: digit_props)
qed

lemma nat_of_digits_snoc: "nat_of_digits (s @ [c]) = nat_of_digits s * 10 + digit_val c"
  by (simp add: nat_of_digits_def)

lemma nat_of_dec_nat [simp]: "nat_of_digits (dec_nat n) = n"
proof (induction n rule: dec_nat.induct)
  case (1 n)
  show ?case
  proof (cases "n < 10")
    case True
    then show ?thesis
      by (subst dec_nat.simps) (simp add: nat_of_digits_def digit_props)
  next
    case False
    with 1 show ?thesis
      by (subst dec_nat.simps) (simp add: nat_of_digits_snoc digit_props)
  qed
qed

lemma parse_dec_nat [simp]: "parse_nat (dec_nat n) = Some n"
  using dec_nat_digits by (simp add: parse_nat_def)

lemma digit_not_sign: "is_digit c \<Longrightarrow> c \<noteq> CHR ''-'' \<and> c \<noteq> CHR ''+''"
  by (auto simp: is_digit_def between_def)

lemma hd_dec_nat: "hd (dec_nat n) \<noteq> CHR ''-'' \<and> hd (dec_nat n) \<noteq> CHR ''+''"
  using dec_nat_digits [of n] digit_not_sign by (cases "dec_nat n") auto

lemma Parse_FormatInt:
  assumes "in_int64 i"
  shows "ParseInt64 (FormatInt i) = Some i"
  using assms hd_dec_nat [of "nat i"] dec_nat_digits [of "nat i"]
  by (auto simp: ParseInt64_def FormatInt_def Let_def)

lemma FormatInt_chars:
  "c \<in> set (FormatInt i) \<Longrightarrow> is_digit c \<or> c = CHR ''-''"
  using dec_nat_digits by (auto simp: FormatInt_def list_all_iff split: if_splits)

lemma FormatInt_nonempty [simp]: "FormatInt i \<noteq> []"
  using dec_nat_digits by (simp add: FormatInt_def)

lemma dec_nat_leading: "0 < n \<Longrightarrow> hd (dec_nat n) \<noteq> CHR ''0''"
proof (induction n rule: dec_nat.induct)
  case (1 n)
  show ?case
  proof (cases "n < 10")
    case True
    have "byte_of (digit n) \<noteq> byte_of CHR ''0''" using True 1 by (simp add: digit_props)
    then show ?thesis using True by (subst dec_nat.simps) auto
  next
    case False
    with 1 have "hd (dec_nat (n div 10)) \<noteq> CHR ''0''" by simp
    then show ?thesis
      using False dec_nat_digits [of "n div 10"] by (subst dec_nat.simps) (simp add: hd_append)
  qed
qed

lemma length_dec_nat: "length (dec_nat n) \<le> w \<longleftrightarrow> n < 10 ^ w" if "0 < w"
  using that
proof (induction n arbitrary: w rule: dec_nat.induct)
  case (1 n)
  show ?case
  proof (cases "n < 10")
    case True
    then have "n < 10 ^ w" using 1(2) by (cases w) (auto intro: less_le_trans)
    then show ?thesis using True 1(2) by (subst dec_nat.simps) simp
  next
    case False
    obtain v where v: "w = Suc v" using 1(2) by (cases w) auto
    show ?thesis
    proof (cases v)
      case 0
      then show ?thesis using False v dec_nat_digits [of "n div 10"]
        by (subst dec_nat.simps) (auto simp: Suc_le_eq)
    next
      case (Suc u)
      have "length (dec_nat (n div 10)) \<le> v \<longleftrightarrow> n div 10 < 10 ^ v"
        using 1(1) [OF False, of v] Suc by simp
      also have "\<dots> \<longleftrightarrow> n < 10 ^ w" unfolding v by (auto simp: div_less_iff_less_mult ac_simps)
      finally show ?thesis using False v by (subst dec_nat.simps) simp
    qed
  qed
qed

lemma length_pad_dec: "0 < w \<Longrightarrow> n < 10 ^ w \<Longrightarrow> length (pad_dec w n) = w"
  using length_dec_nat [of w n] by (simp add: pad_dec_def)

lemma pad_dec_digits: "list_all is_digit (pad_dec w n)"
  using dec_nat_digits by (auto simp: pad_dec_def list_all_iff is_digit_def between_def)

lemma nat_of_zeros: "nat_of_digits (replicate k CHR ''0'' @ s) = nat_of_digits s"
  by (induction k) (simp_all add: nat_of_digits_def digit_val_def)

lemma nat_of_pad_dec [simp]: "nat_of_digits (pad_dec w n) = n"
  by (simp add: pad_dec_def nat_of_zeros)

section \<open>Hexadecimal\<close>

definition hex_digits :: string where
  "hex_digits = ''0123456789abcdef''"

definition hex_EncodeToString :: "string \<Rightarrow> string" where
  "hex_EncodeToString s =
     concat (map (\<lambda>c. [hex_digits ! (byte_of c div 16), hex_digits ! (byte_of c mod 16)]) s)"

lemma hex_digits_inj: "i < 16 \<Longrightarrow> j < 16 \<Longrightarrow> hex_digits ! i = hex_digits ! j \<Longrightarrow> i = j"
  using nth_eq_iff_index_eq [of hex_digits i j] by (simp add: hex_digits_def)

lemma hex_pair_inj:
  assumes "hex_digits ! (byte_of c div 16) = hex_digits ! (byte_of d div 16)"
    and "hex_digits ! (byte_of c mod 16) = hex_digits ! (byte_of d mod 16)"
  shows "c = d"
proof -
  have b: "byte_of x div 16 < (16 :: nat)" for x :: char
    using nat_of_char_less_256 [of x] by (simp add: div_less_iff_less_mult)
  have "byte_of c div 16 = (byte_of d div 16 :: nat)" "byte_of c mod 16 = (byte_of d mod 16 :: nat)"
    using hex_digits_inj [OF b b assms(1)] hex_digits_inj [OF _ _ assms(2)] by simp_all
  then have "byte_of c = (byte_of d :: nat)" by (metis div_mult_mod_eq)
  then show ?thesis by simp
qed

lemma hex_simps [simp]:
  "hex_EncodeToString [] = []"
  "hex_EncodeToString (c # s) =
     hex_digits ! (byte_of c div 16) # hex_digits ! (byte_of c mod 16) # hex_EncodeToString s"
  by (simp_all add: hex_EncodeToString_def)

lemma hex_EncodeToString_inj: "hex_EncodeToString s = hex_EncodeToString t \<Longrightarrow> s = t"
proof (induction s arbitrary: t)
  case Nil
  then show ?case by (cases t) simp_all
next
  case (Cons c s)
  then obtain d t' where t: "t = d # t'" by (cases t) auto
  note eq = Cons.prems [unfolded t hex_simps list.inject]
  show ?case unfolding t using hex_pair_inj [of c d] eq Cons.IH [of t'] by blast
qed

lemma length_hex [simp]: "length (hex_EncodeToString s) = 2 * length s"
  by (induction s) simp_all

end
