(* ===== verification/Go_Json.thy ===== *)
theory Go_Json
  imports Go_Strconv Go_Regexp
begin

text \<open>
  The part of \<open>encoding/json\<close> the sources use: \<open>Marshal\<close> of strings, integers, lists and
  structs with its escaping, the lexer and the stack machine of the decoder with its nesting
  limit, and \<open>Unmarshal\<close> into a struct, field by field, with the decoder's rules for unknown
  keys, letter case, repeated keys and \<open>null\<close>.  \<open>Unmarshal_Marshal\<close> is the round trip for
  strings that are valid UTF-8.
\<close>

datatype json =
    JNull
  | JBool bool
  | JNum string
  | JStr string
  | JArr "json list"
  | JObj "(string \<times> json) list"

section \<open>Strings\<close>

text \<open>\<open>appendString\<close> with HTML escaping, per rune; \<open>(r, bs)\<close> is a rune and its bytes.\<close>

definition html_safe :: "nat \<Rightarrow> bool" where
  "html_safe b \<longleftrightarrow> 32 \<le> b \<and> b \<notin> {34, 38, 60, 62, 92}"

definition hex4 :: "nat \<Rightarrow> string" where
  "hex4 u = [hex_digits ! (u div 4096), hex_digits ! (u div 256 mod 16),
             hex_digits ! (u div 16 mod 16), hex_digits ! (u mod 16)]"

definition enc_seg :: "rune \<times> string \<Rightarrow> string" where
  "enc_seg seg = (case seg of (r, bs) \<Rightarrow>
     if r < 128 then
       (if html_safe r then bs
        else if r = 34 \<or> r = 92 then CHR 0x5C # bs
        else if r = 8 then [CHR 0x5C, CHR ''b'']
        else if r = 12 then [CHR 0x5C, CHR ''f'']
        else if r = 10 then [CHR 0x5C, CHR ''n'']
        else if r = 13 then [CHR 0x5C, CHR ''r'']
        else if r = 9 then [CHR 0x5C, CHR ''t'']
        else CHR 0x5C # CHR ''u'' # hex4 r)
     else if r = RuneError \<and> length bs = 1 then CHR 0x5C # CHR ''u'' # hex4 RuneError
     else if r = 8232 \<or> r = 8233 then CHR 0x5C # CHR ''u'' # hex4 r
     else bs)"

definition enc_string :: "string \<Rightarrow> string" where
  "enc_string s = CHR 0x22 # concat (map enc_seg (segments s)) @ [CHR 0x22]"

text \<open>The decoder's side: four hexadecimal digits, the one-letter escapes, surrogate pairs.\<close>

definition hex_val :: "char \<Rightarrow> nat option" where
  "hex_val c =
     (if is_digit c then Some (byte_of c - 48)
      else if between 97 102 (byte_of c) then Some (byte_of c - 87)
      else if between 65 70 (byte_of c) then Some (byte_of c - 55)
      else None)"

fun u4 :: "string \<Rightarrow> nat option" where
  "u4 (a # b # c # d # r) =
     (case (hex_val a, hex_val b, hex_val c, hex_val d) of
        (Some w, Some x, Some y, Some z) \<Rightarrow> Some (w * 4096 + x * 256 + y * 16 + z)
      | _ \<Rightarrow> None)"
| "u4 s = None"

definition simple_escape :: "char \<Rightarrow> char option" where
  "simple_escape e =
     (if e = CHR ''b'' then Some (CHR 0x08) else if e = CHR ''f'' then Some (CHR 0x0C)
      else if e = CHR ''n'' then Some (CHR 0x0A) else if e = CHR ''r'' then Some (CHR 0x0D)
      else if e = CHR ''t'' then Some (CHR 0x09)
      else if e = CHR 0x22 \<or> e = CHR 0x5C \<or> e = CHR ''/'' then Some e else None)"

definition surrogate :: "nat \<Rightarrow> bool" where
  "surrogate u \<longleftrightarrow> between 55296 57343 u"

text \<open>A low surrogate written as an escape right after the high one \<open>u\<close>.\<close>

definition low_half :: "nat \<Rightarrow> string \<Rightarrow> nat option" where
  "low_half u s =
     (if take 2 s = [CHR 0x5C, CHR ''u''] then
        (case u4 (drop 2 s) of
           None \<Rightarrow> None
         | Some v \<Rightarrow> (if between 55296 56319 u \<and> between 56320 57343 v
                      then Some ((u - 55296) * 1024 + (v - 56320) + 65536) else None))
      else None)"

definition prepend :: "string \<Rightarrow> (string \<times> string) option \<Rightarrow> (string \<times> string) option" where
  "prepend p = map_option (\<lambda>(s, r). (p @ s, r))"

text \<open>
  One character of a string literal that starts with the byte \<open>c\<close>: the bytes it stands for and
  how many bytes after \<open>c\<close> it takes.
\<close>

definition lex_escape :: "string \<Rightarrow> (string \<times> nat) option" where
  "lex_escape cs =
     (case cs of
        [] \<Rightarrow> None
      | e # r \<Rightarrow>
         (if e = CHR ''u'' then
            (case u4 r of
               None \<Rightarrow> None
             | Some u \<Rightarrow>
                (if surrogate u then
                   (case low_half u (drop 4 r) of
                      Some v \<Rightarrow> Some (encode_rune v, 11)
                    | None \<Rightarrow> Some (encode_rune RuneError, 5))
                 else Some (encode_rune u, 5)))
          else (case simple_escape e of None \<Rightarrow> None | Some x \<Rightarrow> Some ([x], 1))))"

definition lex_char :: "char \<Rightarrow> string \<Rightarrow> (string \<times> nat) option" where
  "lex_char c cs =
     (if c = CHR 0x5C then lex_escape cs
      else if byte_of c < 32 then None
      else (case decode_rune (byte_of c) cs of (r, n) \<Rightarrow> Some (encode_rune r, n)))"

text \<open>The text after an opening quote: the string's value and what follows the closing quote.\<close>

function lex_string :: "string \<Rightarrow> (string \<times> string) option" where
  "lex_string [] = None"
| "lex_string (c # cs) =
     (if c = CHR 0x22 then Some ([], cs)
      else (case lex_char c cs of
              None \<Rightarrow> None
            | Some (out, n) \<Rightarrow> prepend out (lex_string (drop n cs))))"
  by pat_completeness auto
termination
  by (relation "measure length") auto

lemma lex_string_shorter: "lex_string s = Some (t, r) \<Longrightarrow> length r < length s"
proof (induction s arbitrary: t rule: lex_string.induct)
  case (2 c cs)
  show ?case
  proof (cases "c = CHR 0x22")
    case False
    then obtain out n t' where s: "lex_char c cs = Some (out, n)" "lex_string (drop n cs) = Some (t', r)"
      using 2(2) by (auto simp: prepend_def split: option.splits)
    have "length r < length (drop n cs)"
      using 2(1) [OF False s(1) refl s(2)] .
    then show ?thesis by simp
  qed (use 2(2) in auto)
qed simp

section \<open>Tokens\<close>

datatype token = LBrace | RBrace | LBrack | RBrack | Comma | Colon | TStr string | TNum string | TLit json

definition num_char :: "char \<Rightarrow> bool" where
  "num_char c \<longleftrightarrow> is_digit c \<or> c \<in> set ''+-.eE''"

abbreviation one :: "string \<Rightarrow> rx" where
  "one cs \<equiv> Cls (\<lambda>c. c \<in> set cs)"

definition number_rx :: rx where
  "number_rx =
     Cat (Opt (one ''-''))
      (Cat (Alt (one ''0'') (Cat (Cls (\<lambda>c. is_digit c \<and> c \<noteq> CHR ''0'')) (Star (Cls is_digit))))
       (Cat (Opt (Cat (one ''.'') (Plus (Cls is_digit))))
            (Opt (Cat (one ''eE'') (Cat (Opt (one ''+-'')) (Plus (Cls is_digit)))))))"

definition json_space :: "char \<Rightarrow> bool" where
  "json_space c \<longleftrightarrow> byte_of c \<in> {9, 10, 13, 32}"

definition literal :: "string \<Rightarrow> string \<Rightarrow> bool" where
  "literal w s \<longleftrightarrow> take (length w) s = w"

definition punct :: "char \<Rightarrow> token option" where
  "punct c =
     (if c = CHR ''{'' then Some LBrace else if c = CHR ''}'' then Some RBrace
      else if c = CHR ''['' then Some LBrack else if c = CHR '']'' then Some RBrack
      else if c = CHR '','' then Some Comma else if c = CHR '':'' then Some Colon else None)"

text \<open>The token that starts with the byte \<open>c\<close> (none for white space) and the text after it.\<close>

definition next_token :: "char \<Rightarrow> string \<Rightarrow> (token list \<times> string) option" where
  "next_token c cs =
     (if json_space c then Some ([], cs)
      else if punct c \<noteq> None then Some ([the (punct c)], cs)
      else if c = CHR 0x22 then
        (case lex_string cs of None \<Rightarrow> None | Some (s, r) \<Rightarrow> Some ([TStr s], r))
      else if is_digit c \<or> c = CHR ''-'' then
        (if MatchString number_rx (c # takeWhile num_char cs)
         then Some ([TNum (c # takeWhile num_char cs)], dropWhile num_char cs) else None)
      else if literal ''true'' (c # cs) then Some ([TLit (JBool True)], drop 3 cs)
      else if literal ''false'' (c # cs) then Some ([TLit (JBool False)], drop 4 cs)
      else if literal ''null'' (c # cs) then Some ([TLit JNull], drop 3 cs)
      else None)"

lemma next_token_rest: "next_token c cs = Some (ts, r) \<Longrightarrow> length r \<le> length cs"
  unfolding next_token_def
  by (simp split: if_split_asm option.split_asm prod.split_asm)
     (auto dest: lex_string_shorter intro: length_dropWhile_le)

function lex :: "string \<Rightarrow> token list option" where
  "lex [] = Some []"
| "lex (c # cs) =
     (case next_token c cs of
        None \<Rightarrow> None
      | Some (ts, r) \<Rightarrow> map_option ((@) ts) (lex r))"
  by pat_completeness auto
termination
  by (relation "measure length") (auto dest!: next_token_rest)

section \<open>The stack machine\<close>

text \<open>
  A frame is an array or an object waiting for the value being read; the mode says what may come
  next.  Every step takes one token.  An array or object nested deeper than ten thousand levels is
  refused.
\<close>

datatype frame = FArr "json list" | FObj "(string \<times> json) list" string

datatype mode = Value | ValueOrEnd | Key "(string \<times> json) list" | KeyOrEnd
  | After "(string \<times> json) list" string | Done json

definition maxNestingDepth :: nat where
  "maxNestingDepth = 10000"

definition close_array :: "json list \<Rightarrow> json" where
  "close_array acc = JArr (rev acc)"

definition close_object :: "(string \<times> json) list \<Rightarrow> json" where
  "close_object acc = JObj (rev acc)"

definition open_value :: "frame list \<Rightarrow> token \<Rightarrow> mode option" where
  "open_value st t =
     (case t of
        TStr s \<Rightarrow> Some (Done (JStr s))
      | TNum s \<Rightarrow> Some (Done (JNum s))
      | TLit v \<Rightarrow> Some (Done v)
      | LBrace \<Rightarrow> (if length st < maxNestingDepth then Some KeyOrEnd else None)
      | LBrack \<Rightarrow> (if length st < maxNestingDepth then Some ValueOrEnd else None)
      | _ \<Rightarrow> None)"

definition step :: "frame list \<Rightarrow> mode \<Rightarrow> token \<Rightarrow> (frame list \<times> mode) option" where
  "step st m t =
     (case m of
        Value \<Rightarrow> map_option (Pair st) (open_value st t)
      | ValueOrEnd \<Rightarrow>
          (if t = RBrack then Some (st, Done (close_array []))
           else map_option (Pair (FArr [] # st)) (open_value (FArr [] # st) t))
      | KeyOrEnd \<Rightarrow>
          (case t of RBrace \<Rightarrow> Some (st, Done (close_object []))
           | TStr k \<Rightarrow> Some (st, After [] k) | _ \<Rightarrow> None)
      | Key acc \<Rightarrow> (case t of TStr k \<Rightarrow> Some (st, After acc k) | _ \<Rightarrow> None)
      | After acc k \<Rightarrow> (if t = Colon then Some (FObj acc k # st, Value) else None)
      | Done v \<Rightarrow>
          (case st of
             [] \<Rightarrow> None
           | FArr acc # st' \<Rightarrow>
               (if t = Comma then Some (FArr (v # acc) # st', Value)
                else if t = RBrack then Some (st', Done (close_array (v # acc))) else None)
           | FObj acc k # st' \<Rightarrow>
               (if t = Comma then Some (st', Key ((k, v) # acc))
                else if t = RBrace then Some (st', Done (close_object ((k, v) # acc))) else None)))"

fun run :: "frame list \<Rightarrow> mode \<Rightarrow> token list \<Rightarrow> json option" where
  "run st m [] = (case (st, m) of ([], Done v) \<Rightarrow> Some v | _ \<Rightarrow> None)"
| "run st m (t # ts) = (case step st m t of None \<Rightarrow> None | Some (st', m') \<Rightarrow> run st' m' ts)"

definition parse_json :: "string \<Rightarrow> json option" where
  "parse_json s = (case lex s of None \<Rightarrow> None | Some ts \<Rightarrow> run [] Value ts)"

section \<open>Printing\<close>

fun print_json :: "json \<Rightarrow> string" where
  "print_json JNull = ''null''"
| "print_json (JBool b) = (if b then ''true'' else ''false'')"
| "print_json (JNum s) = s"
| "print_json (JStr s) = enc_string s"
| "print_json (JArr vs) = CHR ''['' # join_with CHR '','' (map print_json vs) @ '']''"
| "print_json (JObj ms) =
     CHR ''{'' # join_with CHR '','' (map (\<lambda>(k, v). enc_string k @ CHR '':'' # print_json v) ms) @ ''}''"

section \<open>Structs\<close>

text \<open>
  \<open>Unmarshal\<close> into a struct: members are taken in order, a key selects the field whose name is
  equal under simple folding (for ASCII names: letter case, the long s and the Kelvin sign), an
  unknown key is skipped, \<open>null\<close> leaves the field alone, a value of the wrong kind is an error
  of the whole call.
\<close>

definition fold_rune :: "rune \<Rightarrow> rune" where
  "fold_rune r = (if between 97 122 r then r - 32 else if r = 383 then 83 else if r = 8490 then 75 else r)"

definition fold_name :: "string \<Rightarrow> rune list" where
  "fold_name s = map fold_rune (runes s)"

type_synonym 'c field = "string \<times> (json \<Rightarrow> 'c \<Rightarrow> 'c option)"

fun decode_members :: "'c field list \<Rightarrow> (string \<times> json) list \<Rightarrow> 'c \<Rightarrow> 'c option" where
  "decode_members fs [] c = Some c"
| "decode_members fs ((k, v) # ms) c =
     (case List.find (\<lambda>f. fold_name (fst f) = fold_name k) fs of
        None \<Rightarrow> decode_members fs ms c
      | Some f \<Rightarrow> (case snd f v c of None \<Rightarrow> None | Some c' \<Rightarrow> decode_members fs ms c'))"

definition decode_struct :: "'c field list \<Rightarrow> 'c \<Rightarrow> json \<Rightarrow> 'c option" where
  "decode_struct fs c v =
     (case v of JNull \<Rightarrow> Some c | JObj ms \<Rightarrow> decode_members fs ms c | _ \<Rightarrow> None)"

definition Unmarshal :: "'c field list \<Rightarrow> 'c \<Rightarrow> string \<Rightarrow> 'c option" where
  "Unmarshal fs zero s = (case parse_json s of None \<Rightarrow> None | Some v \<Rightarrow> decode_struct fs zero v)"

definition str_field :: "(string \<Rightarrow> 'c \<Rightarrow> 'c) \<Rightarrow> json \<Rightarrow> 'c \<Rightarrow> 'c option" where
  "str_field upd v c = (case v of JStr s \<Rightarrow> Some (upd s c) | JNull \<Rightarrow> Some c | _ \<Rightarrow> None)"

definition int_field :: "(int \<Rightarrow> 'c \<Rightarrow> 'c) \<Rightarrow> json \<Rightarrow> 'c \<Rightarrow> 'c option" where
  "int_field upd v c =
     (case v of
        JNum s \<Rightarrow> (case ParseInt64 s of None \<Rightarrow> None | Some i \<Rightarrow> Some (upd i c))
      | JNull \<Rightarrow> Some c | _ \<Rightarrow> None)"

text \<open>A slice is decoded over the elements it already holds; \<open>null\<close> keeps an element.\<close>

fun decode_strs :: "json list \<Rightarrow> string list \<Rightarrow> string list option" where
  "decode_strs [] old = Some []"
| "decode_strs (v # vs) old =
     (case v of
        JStr s \<Rightarrow> map_option ((#) s) (decode_strs vs (tl old))
      | JNull \<Rightarrow> map_option ((#) (if old = [] then [] else hd old)) (decode_strs vs (tl old))
      | _ \<Rightarrow> None)"

definition strs_field ::
  "('c \<Rightarrow> string list) \<Rightarrow> (string list \<Rightarrow> 'c \<Rightarrow> 'c) \<Rightarrow> json \<Rightarrow> 'c \<Rightarrow> 'c option" where
  "strs_field get upd v c =
     (case v of
        JArr vs \<Rightarrow> map_option (\<lambda>xs. upd xs c) (decode_strs vs (get c))
      | JNull \<Rightarrow> Some (upd [] c) | _ \<Rightarrow> None)"

text \<open>\<open>Marshal\<close> of the corresponding values; \<open>omitempty\<close> drops a member.\<close>

definition JInt :: "int \<Rightarrow> json" where
  "JInt i = JNum (FormatInt i)"

definition omitempty :: "string \<Rightarrow> string \<Rightarrow> (string \<times> json) list" where
  "omitempty name s = (if s = [] then [] else [(name, JStr s)])"

section \<open>Round trip\<close>

subsection \<open>Valid UTF-8\<close>

definition valid_utf8 :: "string \<Rightarrow> bool" where
  "valid_utf8 s \<longleftrightarrow> list_all (\<lambda>(r, bs). \<not> (r = RuneError \<and> length bs = 1)) (segments s)"

lemma valid_utf8_ascii: "list_all (\<lambda>c. byte_of c < 128) s \<Longrightarrow> valid_utf8 s"
  by (induction s) (auto simp: valid_utf8_def segments_ascii RuneError_def)

lemma encode_rune_widths:
  "128 \<le> r \<Longrightarrow> r < 2048 \<Longrightarrow> encode_rune r = map char_of [192 + r div 64, 128 + r mod 64]"
  "2048 \<le> r \<Longrightarrow> r < 65536 \<Longrightarrow> r < 55296 \<or> 57343 < r \<Longrightarrow>
     encode_rune r = map char_of [224 + r div 4096, 128 + r div 64 mod 64, 128 + r mod 64]"
  "65536 \<le> r \<Longrightarrow> r \<le> 1114111 \<Longrightarrow>
     encode_rune r = map char_of [240 + r div 262144, 128 + r div 4096 mod 64, 128 + r div 64 mod 64, 128 + r mod 64]"
  by (auto simp: encode_rune_def between_def Let_def)

lemma six_bits: "z < 64 \<Longrightarrow> (z + q * 64) div 64 = q" "z < 64 \<Longrightarrow> (z + q * 64) mod 64 = z" for z q :: nat
  by simp_all

lemma encode_decode_2:
  assumes "between 194 223 (byte_of c)" "cont c1"
  shows "encode_rune ((byte_of c - 192) * 64 + (byte_of c1 - 128)) = [c, c1]"
proof -
  let ?x = "byte_of c - 192 :: nat" and ?y = "byte_of c1 - 128 :: nat"
  have b: "?y < 64" "2 \<le> ?x" "?x < 32" "byte_of c = 192 + ?x" "byte_of c1 = 128 + ?y"
    using assms by (auto simp: between_def cont_def)
  have d: "(?x * 64 + ?y) div 64 = ?x" "(?x * 64 + ?y) mod 64 = ?y" using b(1) by simp_all
  have "128 \<le> ?x * 64 + ?y" "?x * 64 + ?y < 2048" using b(1-3) by linarith+
  from encode_rune_widths(1) [OF this]
  have "encode_rune (?x * 64 + ?y) = map char_of [192 + ?x, 128 + ?y]" unfolding d .
  also have "\<dots> = [c, c1]" using b(4,5) by (metis char_of_char list.simps(8,9))
  finally show ?thesis .
qed

lemma encode_decode_3:
  assumes "between 224 239 (byte_of c)" "cont c2"
    and "between (if byte_of c = 224 then 160 else 128) (if byte_of c = 237 then 159 else 191) (byte_of c1)"
  shows "encode_rune ((byte_of c - 224) * 4096 + (byte_of c1 - 128) * 64 + (byte_of c2 - 128)) = [c, c1, c2]"
proof -
  let ?x = "byte_of c - 224 :: nat" and ?y = "byte_of c1 - 128 :: nat" and ?z = "byte_of c2 - 128 :: nat"
  let ?r = "?x * 4096 + ?y * 64 + ?z"
  have b: "?x < 16" "?y < 64" "?z < 64" "byte_of c = 224 + ?x" "byte_of c1 = 128 + ?y" "byte_of c2 = 128 + ?z"
    using assms by (auto simp: between_def cont_def split: if_splits)
  have lo: "?x = 0 \<Longrightarrow> 32 \<le> ?y" and hi: "?x = 13 \<Longrightarrow> ?y < 32"
    using assms(1,3) b(4,5) by (auto simp: between_def split: if_splits)
  have r: "?r = ?z + (?y + ?x * 64) * 64" by simp
  have d: "?r div 64 = ?y + ?x * 64" "?r mod 64 = ?z" unfolding r by (rule six_bits [OF b(3)])+
  have "?r div 4096 = ?r div 64 div 64" by (simp only: div_mult2_eq [symmetric]) simp
  then have e: "?r div 4096 = ?x" "?r div 64 mod 64 = ?y" unfolding d using b(2) by simp_all
  have "?x < 13 \<or> ?x = 13 \<or> 13 < ?x" by linarith
  then have s: "?r < 55296 \<or> 57343 < ?r"
    using b(1-3) hi by (elim disjE) linarith+
  have "2048 \<le> ?r" "?r < 65536"
    using b(1-3) lo by linarith+
  from encode_rune_widths(2) [OF this s]
  have "encode_rune ?r = map char_of [224 + ?x, 128 + ?y, 128 + ?z]" unfolding e d(2) .
  also have "\<dots> = [c, c1, c2]" using b(4-6) by (metis char_of_char list.simps(8,9))
  finally show ?thesis .
qed

lemma encode_decode_4:
  assumes "between 240 244 (byte_of c)" "cont c2" "cont c3"
    and "between (if byte_of c = 240 then 144 else 128) (if byte_of c = 244 then 143 else 191) (byte_of c1)"
  shows "encode_rune ((byte_of c - 240) * 262144 + (byte_of c1 - 128) * 4096 + (byte_of c2 - 128) * 64
      + (byte_of c3 - 128)) = [c, c1, c2, c3]"
proof -
  let ?w = "byte_of c - 240 :: nat" and ?x = "byte_of c1 - 128 :: nat"
    and ?y = "byte_of c2 - 128 :: nat" and ?z = "byte_of c3 - 128 :: nat"
  let ?r = "?w * 262144 + ?x * 4096 + ?y * 64 + ?z"
  have b: "?w \<le> 4" "?x < 64" "?y < 64" "?z < 64" "byte_of c = 240 + ?w" "byte_of c1 = 128 + ?x"
      "byte_of c2 = 128 + ?y" "byte_of c3 = 128 + ?z"
    using assms by (auto simp: between_def cont_def split: if_splits)
  have lo: "?w = 0 \<Longrightarrow> 16 \<le> ?x" and hi: "?w = 4 \<Longrightarrow> ?x < 16"
    using assms(1,4) b(5,6) by (auto simp: between_def split: if_splits)
  have r: "?r = ?z + (?y + (?x + ?w * 64) * 64) * 64" by simp
  have d: "?r div 64 = ?y + (?x + ?w * 64) * 64" "?r mod 64 = ?z" unfolding r by (rule six_bits [OF b(4)])+
  have "?r div 4096 = ?r div 64 div 64" by (simp only: div_mult2_eq [symmetric]) simp
  then have e: "?r div 4096 = ?x + ?w * 64" "?r div 64 mod 64 = ?y"
    unfolding d by (simp_all only: six_bits [OF b(3)])
  have "?r div 262144 = ?r div 4096 div 64" by (simp only: div_mult2_eq [symmetric]) simp
  then have f: "?r div 262144 = ?w" "?r div 4096 mod 64 = ?x"
    unfolding e by (simp_all only: six_bits [OF b(2)])
  have "65536 \<le> ?r" "?r \<le> 1114111" using b(1-4) lo hi by linarith+
  from encode_rune_widths(3) [OF this]
  have "encode_rune ?r = map char_of [240 + ?w, 128 + ?x, 128 + ?y, 128 + ?z]" unfolding f e(2) d(2) .
  also have "\<dots> = [c, c1, c2, c3]" using b(5-8) by (metis char_of_char list.simps(8,9))
  finally show ?thesis .
qed

lemma decode_ascii_char: "byte_of c < 128 \<Longrightarrow> decode_rune (byte_of c) cs = (byte_of c, 0)"
  by (simp add: decode_rune_def)

lemma encode_ascii_char: "byte_of c < 128 \<Longrightarrow> encode_rune (byte_of c) = [c]"
  by (simp add: encode_rune_def between_def Let_def)

text \<open>A well-formed rune is decoded from its own bytes whatever follows them, and encodes to them.\<close>

lemma decode_rune_prefix:
  assumes "decode_rune (byte_of c) cs = (r, n)" "\<not> (r = RuneError \<and> n = 0)"
  shows "decode_rune (byte_of c) (take n cs @ more) = (r, n) \<and> encode_rune r = c # take n cs"
proof -
  let ?b = "byte_of c :: nat"
  consider "?b < 128" | "between 194 223 ?b" | "between 224 239 ?b" | "between 240 244 ?b"
    | "\<not> ?b < 128" "\<not> between 194 223 ?b" "\<not> between 224 239 ?b" "\<not> between 240 244 ?b"
    by blast
  then show ?thesis
  proof cases
    case 1
    then show ?thesis using assms(1) by (auto simp: decode_ascii_char encode_ascii_char)
  next
    case 2
    then have "\<not> ?b < 128" by (simp add: between_def)
    then obtain c1 cs' where "cs = c1 # cs'" "cont c1" "r = (?b - 192) * 64 + (byte_of c1 - 128)" "n = 1"
      using assms 2 by (auto simp: decode_rune_def split: list.splits if_splits)
    then show ?thesis
      using 2 \<open>\<not> ?b < 128\<close> encode_decode_2 [OF 2] by (simp add: decode_rune_def)
  next
    case 3
    then have n: "\<not> ?b < 128" "\<not> between 194 223 ?b" by (simp_all add: between_def)
    then obtain c1 c2 cs' where "cs = c1 # c2 # cs'" "cont c2"
      "between (if ?b = 224 then 160 else 128) (if ?b = 237 then 159 else 191) (byte_of c1)"
      "r = (?b - 224) * 4096 + (byte_of c1 - 128) * 64 + (byte_of c2 - 128)" "n = 2"
      using assms 3 unfolding decode_rune_def
      by (simp split: list.splits if_split_asm)
    then show ?thesis
      using 3 n encode_decode_3 [OF 3] by (simp add: decode_rune_def numeral_2_eq_2)
  next
    case 4
    then have n: "\<not> ?b < 128" "\<not> between 194 223 ?b" "\<not> between 224 239 ?b"
      by (simp_all add: between_def)
    then obtain c1 c2 c3 cs' where "cs = c1 # c2 # c3 # cs'" "cont c2" "cont c3"
      "between (if ?b = 240 then 144 else 128) (if ?b = 244 then 143 else 191) (byte_of c1)"
      "r = (?b - 240) * 262144 + (byte_of c1 - 128) * 4096 + (byte_of c2 - 128) * 64
         + (byte_of c3 - 128)" "n = 3"
      using assms 4 unfolding decode_rune_def
      by (simp split: list.splits if_split_asm)
    then show ?thesis
      using 4 n encode_decode_4 [OF 4] by (simp add: decode_rune_def numeral_3_eq_3)
  next
    case 5
    then show ?thesis using assms by (auto simp: decode_rune_def)
  qed
qed

subsection \<open>Strings\<close>

lemma hex_val_digits: "n < 16 \<Longrightarrow> hex_val (hex_digits ! n) = Some n"
proof -
  have "list_all (\<lambda>n. hex_val (hex_digits ! n) = Some n) [0..<16]" by code_simp
  then show "n < 16 \<Longrightarrow> hex_val (hex_digits ! n) = Some n" by (simp add: list_all_iff)
qed

lemma u4_hex4: "u < 65536 \<Longrightarrow> u4 (hex4 u @ more) = Some u"
proof -
  assume u: "u < 65536"
  have "u div 4096 < 16" using u by (simp add: div_less_iff_less_mult)
  moreover have "u div 4096 * 4096 + u div 256 mod 16 * 256 + u div 16 mod 16 * 16 + u mod 16 = u"
  proof -
    have "u = u div 16 * 16 + u mod 16" "u div 16 = u div 16 div 16 * 16 + u div 16 mod 16"
      "u div 16 div 16 = u div 16 div 16 div 16 * 16 + u div 16 div 16 mod 16" by simp_all
    moreover have q: "u div 256 = u div 16 div 16" "u div 4096 = u div 16 div 16 div 16"
      by (simp_all only: div_mult2_eq [symmetric]) simp_all
    ultimately show ?thesis unfolding q by linarith
  qed
  ultimately show ?thesis by (simp add: hex4_def hex_val_digits)
qed

lemma lex_string_escape:
  assumes "u < 65536" "\<not> surrogate u"
  shows "lex_string (CHR 0x5C # CHR ''u'' # hex4 u @ more) = prepend (encode_rune u) (lex_string more)"
proof -
  have "drop 5 (CHR ''u'' # hex4 u @ more) = more" by (simp add: hex4_def)
  then show ?thesis
    using assms by (simp add: lex_char_def lex_escape_def u4_hex4)
qed

lemma lex_string_simple_escape:
  "e \<noteq> CHR ''u'' \<Longrightarrow> simple_escape e = Some x \<Longrightarrow>
   lex_string (CHR 0x5C # e # more) = prepend [x] (lex_string more)"
  by (simp add: lex_char_def lex_escape_def)

lemma lex_string_plain:
  assumes "decode_rune (byte_of c) cs = (r, n)" "\<not> (r = RuneError \<and> n = 0)"
    and "c \<noteq> CHR 0x22" "c \<noteq> CHR 0x5C" "32 \<le> byte_of c" "n \<le> length cs"
  shows "lex_string (c # take n cs @ more) = prepend (c # take n cs) (lex_string more)"
  using decode_rune_prefix [OF assms(1,2), of more] assms(3-) by (simp add: lex_char_def)

lemma decode_rune_length: "snd (decode_rune b cs) \<le> length cs"
  by (auto simp: decode_rune_def split: list.splits)

definition escaped :: "char set" where
  "escaped = {CHR 0x22, CHR 0x5C, CHR 0x08, CHR 0x0C, CHR 0x0A, CHR 0x0D, CHR 0x09}"

lemma escaped_bytes: "{34, 92, 8, 12, 10, 13, 9 :: nat} = byte_of ` escaped"
  by (simp add: escaped_def)

lemma ascii_cases:
  assumes "byte_of c < 128"
  shows "lex_string (enc_seg (byte_of c, [c]) @ more) = prepend [c] (lex_string more)"
proof (cases "html_safe (byte_of c)")
  case True
  then have "32 \<le> byte_of c" "c \<noteq> CHR 0x22" "c \<noteq> CHR 0x5C" by (auto simp: html_safe_def)
  then show ?thesis
    using True assms lex_string_plain [OF decode_ascii_char [OF assms], of "[]" more]
    by (simp add: enc_seg_def RuneError_def)
next
  case False
  show ?thesis
  proof (cases "c \<in> escaped")
    case True
    then show ?thesis
      unfolding escaped_def
      by (elim insertE emptyE)
         (simp_all add: enc_seg_def html_safe_def lex_string_simple_escape simple_escape_def
            del: lex_string.simps)
  next
    case no: False
    have "byte_of c \<notin> {34, 92, 8, 12, 10, 13, 9}"
      using no by (simp only: escaped_bytes) (simp only: inj_image_mem_iff [OF inj_of_char] not_False_eq_True)
    then have "enc_seg (byte_of c, [c]) = CHR 0x5C # CHR ''u'' # hex4 (byte_of c)"
      using False assms by (simp add: enc_seg_def)
    moreover have "\<not> surrogate (byte_of c)" using assms by (simp add: surrogate_def between_def)
    ultimately show ?thesis
      using assms lex_string_escape [of "byte_of c" more] by (simp add: encode_ascii_char)
  qed
qed

lemma lex_seg:
  assumes "decode_rune (byte_of c) cs = (r, n)" "\<not> (r = RuneError \<and> n = 0)"
  shows "lex_string (enc_seg (r, c # take n cs) @ more) = prepend (c # take n cs) (lex_string more)"
proof (cases "byte_of c < 128")
  case True
  then show ?thesis using assms(1) ascii_cases [OF True] by (simp add: decode_ascii_char)
next
  case False
  have r: "\<not> r < 128" using decode_rune_multibyte [OF False, of cs] assms(1) by simp
  have l: "n \<le> length cs" using decode_rune_length [of "byte_of c" cs] assms(1) by simp
  have bs: "encode_rune r = c # take n cs" using decode_rune_prefix [OF assms] by blast
  show ?thesis
  proof (cases "r = 8232 \<or> r = 8233")
    case True
    then have "enc_seg (r, c # take n cs) = CHR 0x5C # CHR ''u'' # hex4 r"
      by (auto simp: enc_seg_def RuneError_def)
    moreover have "r < 65536" "\<not> surrogate r" using True by (auto simp: surrogate_def between_def)
    ultimately show ?thesis using bs lex_string_escape [of r more] by simp
  next
    case no: False
    have "enc_seg (r, c # take n cs) = c # take n cs"
      using r no assms(2) l by (auto simp: enc_seg_def)
    moreover have "c \<noteq> CHR 0x22" "c \<noteq> CHR 0x5C" "32 \<le> byte_of c" using False by auto
    ultimately show ?thesis using lex_string_plain [OF assms] l by simp
  qed
qed

lemma lex_enc_string:
  "valid_utf8 s \<Longrightarrow> lex_string (concat (map enc_seg (segments s)) @ CHR 0x22 # more) = Some (s, more)"
proof (induction s rule: segments.induct)
  case (2 c cs)
  obtain r n where d: "decode_rune (byte_of c) cs = (r, n)" by fastforce
  have l: "n \<le> length cs" using decode_rune_length [of "byte_of c" cs] d by simp
  have v: "\<not> (r = RuneError \<and> n = 0)" "valid_utf8 (drop n cs)"
    using 2(2) d l by (auto simp: valid_utf8_def segments_Cons)
  show ?case
    using lex_seg [OF d v(1)] 2(1) v(2) d by (simp add: segments_Cons prepend_def)
qed simp

lemma append_single [simp]: "(@) [x] = (#) x"
  by auto

lemma next_token_quote: "next_token CHR 0x22 cs =
    (case lex_string cs of None \<Rightarrow> None | Some (s, r) \<Rightarrow> Some ([TStr s], r))"
  by (simp add: next_token_def json_space_def punct_def)

lemma lex_string_token:
  "valid_utf8 s \<Longrightarrow> lex (enc_string s @ more) = map_option ((#) (TStr s)) (lex more)"
  by (simp add: enc_string_def next_token_quote lex_enc_string)

subsection \<open>Values\<close>

definition num_ok :: "string \<Rightarrow> bool" where
  "num_ok s \<longleftrightarrow> MatchString number_rx s \<and> list_all num_char s \<and> s \<noteq> []
     \<and> (is_digit (hd s) \<or> hd s = CHR ''-'')"

text \<open>Values whose strings are valid UTF-8, whose numbers are number literals and whose depth is
  at most \<open>d\<close>.\<close>

fun json_ok :: "nat \<Rightarrow> json \<Rightarrow> bool" where
  "json_ok d JNull \<longleftrightarrow> True"
| "json_ok d (JBool b) \<longleftrightarrow> True"
| "json_ok d (JNum s) \<longleftrightarrow> num_ok s"
| "json_ok d (JStr s) \<longleftrightarrow> valid_utf8 s"
| "json_ok d (JArr vs) \<longleftrightarrow> 0 < d \<and> list_all (json_ok (d - 1)) vs"
| "json_ok d (JObj ms) \<longleftrightarrow> 0 < d \<and> list_all (\<lambda>m. valid_utf8 (fst m) \<and> json_ok (d - 1) (snd m)) ms"

fun tokens :: "json \<Rightarrow> token list" where
  "tokens JNull = [TLit JNull]"
| "tokens (JBool b) = [TLit (JBool b)]"
| "tokens (JNum s) = [TNum s]"
| "tokens (JStr s) = [TStr s]"
| "tokens (JArr vs) = LBrack # join_with Comma (map tokens vs) @ [RBrack]"
| "tokens (JObj ms) = LBrace # join_with Comma (map (\<lambda>m. TStr (fst m) # Colon # tokens (snd m)) ms) @ [RBrace]"

definition ends_number :: "string \<Rightarrow> bool" where
  "ends_number r \<longleftrightarrow> r = [] \<or> \<not> num_char (hd r)"

lemma ends_number_simps [simp]:
  "ends_number (CHR '','' # r)" "ends_number (CHR '']'' # r)" "ends_number (CHR ''}'' # r)"
  by (auto simp: ends_number_def num_char_def is_digit_def between_def)

lemma lex_punct:
  "lex (CHR ''['' # r) = map_option ((#) LBrack) (lex r)"
  "lex (CHR '']'' # r) = map_option ((#) RBrack) (lex r)"
  "lex (CHR ''{'' # r) = map_option ((#) LBrace) (lex r)"
  "lex (CHR ''}'' # r) = map_option ((#) RBrace) (lex r)"
  "lex (CHR '','' # r) = map_option ((#) Comma) (lex r)"
  "lex (CHR '':'' # r) = map_option ((#) Colon) (lex r)"
  by (simp_all add: next_token_def json_space_def punct_def)

lemma lex_literal:
  "lex (''null'' @ r) = map_option ((#) (TLit JNull)) (lex r)"
  "lex (''true'' @ r) = map_option ((#) (TLit (JBool True))) (lex r)"
  "lex (''false'' @ r) = map_option ((#) (TLit (JBool False))) (lex r)"
  by (simp_all add: next_token_def json_space_def punct_def literal_def is_digit_def between_def)

lemma lex_number:
  assumes "num_ok s" "ends_number r"
  shows "lex (s @ r) = map_option ((#) (TNum s)) (lex r)"
proof -
  obtain c cs where s: "s = c # cs" using assms(1) by (auto simp: num_ok_def neq_Nil_conv)
  have cs: "list_all num_char cs" and m: "MatchString number_rx (c # cs)"
    and c: "is_digit c \<or> c = CHR ''-''" using assms(1) by (auto simp: num_ok_def s)
  have np: "\<not> json_space c" "punct c = None" "c \<noteq> CHR 0x22"
    using c by (auto simp: json_space_def punct_def is_digit_def between_def)
  have r: "takeWhile num_char r = []" "dropWhile num_char r = r"
    using assms(2) by (cases r; simp add: ends_number_def)+
  have "takeWhile num_char (cs @ r) = cs" "dropWhile num_char (cs @ r) = r"
    using cs r by (simp_all add: takeWhile_append2 dropWhile_append2 list_all_iff)
  then have "next_token c (cs @ r) = Some ([TNum (c # cs)], r)"
    using np c m by (simp add: next_token_def del: MatchString.simps)
  then show ?thesis unfolding s by simp
qed

lemma lex_list:
  assumes "\<And>x r. x \<in> set xs \<Longrightarrow> ends_number r \<Longrightarrow> lex (p x @ r) = map_option ((@) (t x)) (lex r)"
    and "ends_number r"
  shows "lex (join_with CHR '','' (map p xs) @ r) = map_option ((@) (join_with Comma (map t xs))) (lex r)"
  using assms
proof (induction xs rule: induct_list012)
  case (3 x y zs)
  have "lex (join_with CHR '','' (map p (x # y # zs)) @ r) =
      map_option ((@) (t x)) (lex (CHR '','' # join_with CHR '','' (map p (y # zs)) @ r))"
    using 3(3) [of x] by simp
  also have "\<dots> = map_option ((@) (t x @ [Comma] @ join_with Comma (map t (y # zs)))) (lex r)"
    using 3(2) [OF 3(3,4)] by (cases "lex r") (simp_all add: lex_punct del: lex.simps(2))
  finally show ?case by (cases "lex r") simp_all
next
  case 1
  show ?case by (cases "lex r") simp_all
qed auto

lemma lex_print:
  "json_ok d v \<Longrightarrow> ends_number r \<Longrightarrow> lex (print_json v @ r) = map_option ((@) (tokens v)) (lex r)"
proof (induction v arbitrary: d r)
  case (JArr vs)
  have "lex (join_with CHR '','' (map print_json vs) @ CHR '']'' # r) =
      map_option ((@) (join_with Comma (map tokens vs))) (lex (CHR '']'' # r))"
    using JArr by (intro lex_list) (auto simp: list_all_iff)
  then show ?case by (simp add: lex_punct option.map_comp comp_def del: lex.simps(2))
next
  case (JObj ms)
  let ?p = "\<lambda>(k, v). enc_string k @ CHR '':'' # print_json v"
  let ?t = "\<lambda>m. TStr (fst m) # Colon # tokens (snd m)"
  have "lex (join_with CHR '','' (map ?p ms) @ CHR ''}'' # r) =
      map_option ((@) (join_with Comma (map ?t ms))) (lex (CHR ''}'' # r))"
  proof (rule lex_list)
    fix m r' assume m: "m \<in> set ms" and r': "ends_number r'"
    obtain k v where kv: "m = (k, v)" by (cases m)
    have k: "valid_utf8 k" and v: "json_ok (d - 1) v"
      using JObj.prems(1) m kv by (auto simp: list_all_iff)
    have "lex (print_json v @ r') = map_option ((@) (tokens v)) (lex r')"
      using JObj.IH [OF m _ v r'] kv by simp
    then show "lex (?p m @ r') = map_option ((@) (?t m)) (lex r')"
      by (cases "lex r'") (simp_all add: kv lex_string_token [OF k] lex_punct del: lex.simps(2))
  qed simp
  then show ?case by (simp add: lex_punct option.map_comp comp_def del: lex.simps(2))
next
  case JNull
  show ?case using lex_literal(1) [of r] by simp
next
  case (JBool b)
  show ?case using lex_literal(2,3) [of r] by simp
qed (simp_all add: lex_number lex_string_token del: lex.simps(2))

subsection \<open>The stack machine reads the tokens back\<close>

lemma run_ValueOrEnd:
  "t \<noteq> RBrack \<Longrightarrow> run st ValueOrEnd (t # ts) = run (FArr [] # st) Value (t # ts)"
  by (simp add: step_def)

lemma hd_tokens: "tokens v \<noteq> [] \<and> hd (tokens v) \<noteq> RBrack"
  by (cases v) auto

lemma run_array:
  assumes "\<And>v acc ts. v \<in> set vs \<Longrightarrow>
      run (FArr acc # st) Value (tokens v @ ts) = run (FArr acc # st) (Done v) ts"
    and "vs \<noteq> []"
  shows "run (FArr acc # st) Value (join_with Comma (map tokens vs) @ RBrack # ts) =
    run st (Done (JArr (rev acc @ vs))) ts"
  using assms
proof (induction vs arbitrary: acc rule: induct_list012)
  case (2 x)
  then show ?case by (simp add: step_def close_array_def)
next
  case (3 x y zs)
  then show ?case by (simp add: step_def)
qed simp

lemma run_object:
  assumes "\<And>m acc ts. m \<in> set ms \<Longrightarrow>
      run (FObj acc (fst m) # st) Value (tokens (snd m) @ ts) = run (FObj acc (fst m) # st) (Done (snd m)) ts"
    and "ms \<noteq> []" "m = Key acc \<or> m = KeyOrEnd \<and> acc = []"
  shows "run st m (join_with Comma (map (\<lambda>m. TStr (fst m) # Colon # tokens (snd m)) ms) @ RBrace # ts) =
    run st (Done (JObj (rev acc @ ms))) ts"
  using assms
proof (induction ms arbitrary: m acc rule: induct_list012)
  case (2 x)
  have "run (FObj acc (fst x) # st) Value (tokens (snd x) @ RBrace # ts)
      = run (FObj acc (fst x) # st) (Done (snd x)) (RBrace # ts)" by (rule 2(1)) simp
  with 2(3) show ?case by (auto simp: step_def close_object_def)
next
  case (3 x y zs)
  let ?ts = "join_with Comma (map (\<lambda>m. TStr (fst m) # Colon # tokens (snd m)) (y # zs)) @ RBrace # ts"
  have "run (FObj acc (fst x) # st) Value (tokens (snd x) @ Comma # ?ts)
      = run (FObj acc (fst x) # st) (Done (snd x)) (Comma # ?ts)" by (rule 3(3)) simp
  also have "\<dots> = run st (Key (x # acc)) ?ts" by (simp add: step_def)
  also have "\<dots> = run st (Done (JObj (rev (x # acc) @ y # zs))) ts"
    by (rule 3(2)) (auto intro: 3(3))
  finally show ?case using 3(5) by (auto simp: step_def)
qed simp

lemma run_tokens:
  "json_ok d v \<Longrightarrow> length st + d \<le> maxNestingDepth \<Longrightarrow>
   run st Value (tokens v @ ts) = run st (Done v) ts"
proof (induction v arbitrary: d st ts)
  case (JArr vs)
  then have d: "length st < maxNestingDepth" by simp
  show ?case
  proof (cases vs)
    case Nil
    then show ?thesis using d by (simp add: step_def open_value_def close_array_def)
  next
    case (Cons w ws)
    then obtain t ts' where t: "join_with Comma (map tokens vs) = t # ts'" "t \<noteq> RBrack"
      using hd_tokens [of w] by (cases "tokens w"; cases ws) auto
    have "run st Value (tokens (JArr vs) @ ts) =
        run (FArr [] # st) Value (join_with Comma (map tokens vs) @ RBrack # ts)"
      using d t run_ValueOrEnd [OF t(2)] by (simp add: step_def [of st Value] open_value_def)
    also have "\<dots> = run st (Done (JArr (rev [] @ vs))) ts"
    proof (rule run_array)
      fix v acc ts assume v: "v \<in> set vs"
      then have "json_ok (d - 1) v" using JArr.prems by (simp add: list_all_iff)
      then show "run (FArr acc # st) Value (tokens v @ ts) = run (FArr acc # st) (Done v) ts"
        using JArr.prems by (intro JArr.IH [OF v]) auto
    qed (simp add: Cons)
    finally show ?thesis by simp
  qed
next
  case (JObj ms)
  then have d: "length st < maxNestingDepth" by simp
  show ?case
  proof (cases "ms = []")
    case True
    then show ?thesis using d by (simp add: step_def open_value_def close_object_def)
  next
    case False
    have "run st KeyOrEnd (join_with Comma (map (\<lambda>m. TStr (fst m) # Colon # tokens (snd m)) ms) @ RBrace # ts)
        = run st (Done (JObj (rev [] @ ms))) ts"
    proof (rule run_object [OF _ False])
      fix m acc ts assume m: "m \<in> set ms"
      then have "json_ok (d - 1) (snd m)" using JObj.prems by (simp add: list_all_iff)
      then show "run (FObj acc (fst m) # st) Value (tokens (snd m) @ ts)
          = run (FObj acc (fst m) # st) (Done (snd m)) ts"
        using JObj.prems by (intro JObj.IH [OF m]) (auto simp: snds.intros)
    qed simp
    then show ?thesis using d by (simp add: step_def [of st Value] open_value_def)
  qed
qed (simp_all add: step_def open_value_def)

theorem parse_print:
  assumes "json_ok maxNestingDepth v"
  shows "parse_json (print_json v) = Some v"
  using lex_print [OF assms, of "[]"] run_tokens [OF assms, of "[]" "[]"]
  by (simp add: parse_json_def ends_number_def del: run.simps(2))

text \<open>Integers print as number literals.\<close>

lemma lang_digits: "list_all is_digit s \<Longrightarrow> lang (Star (Cls is_digit)) s"
proof (induction s)
  case (Cons c s)
  then have "lang (Star (Cls is_digit)) ([c] @ s)"
    by (intro lang.StarCons) (auto simp: lang_Cls)
  then show ?case by simp
qed (rule lang.StarNil)

lemma number_dec_nat: "lang (Alt (one ''0'') (Cat (Cls (\<lambda>c. is_digit c \<and> c \<noteq> CHR ''0'')) (Star (Cls is_digit)))) (dec_nat n)"
proof (cases "n = 0")
  case True
  then have "dec_nat n = ''0''" by (subst dec_nat.simps) (simp add: digit_def char_of_eq_iff)
  then show ?thesis by (simp add: lang_Cls)
next
  case False
  obtain c cs where d: "dec_nat n = c # cs" using dec_nat_digits [of n] by (cases "dec_nat n") auto
  have "is_digit c" "list_all is_digit cs" "c \<noteq> CHR ''0''"
    using dec_nat_digits [of n] dec_nat_leading [of n] False d by auto
  then show ?thesis unfolding d using lang_digits by (simp add: lang_Cls_Cat)
qed

lemma FormatInt_number: "num_ok (FormatInt i)"
proof -
  have tail: "lang (Cat q (Cat (Opt r) (Opt s))) u" if "lang q u" for q r s u
    using lang.Cat [OF that lang.Cat [of "Opt r" "[]" "Opt s" "[]"]] by (simp add: Opt_def)
  have "lang number_rx (CHR ''-'' # dec_nat m)" "lang number_rx (dec_nat m)" for m
    using lang.Cat [of "Opt (one ''-'')" "''-''", OF _ tail [OF number_dec_nat]]
      lang.Cat [of "Opt (one ''-'')" "[]", OF _ tail [OF number_dec_nat]]
    unfolding number_rx_def by (simp_all add: Opt_def lang_Cls)
  then have "lang number_rx (FormatInt i)" by (simp add: FormatInt_def)
  then show ?thesis
    using dec_nat_digits [of "nat i"] dec_nat_digits [of "nat (- i)"]
    by (auto simp: num_ok_def MatchString_iff FormatInt_def num_char_def list_all_iff hd_in_set)
qed

subsection \<open>Structs\<close>

theorem Unmarshal_print:
  "json_ok maxNestingDepth v \<Longrightarrow> Unmarshal fs zero (print_json v) = decode_struct fs zero v"
  by (simp add: Unmarshal_def parse_print)

lemma decode_strs_JStr [simp]: "decode_strs (map JStr xs) old = Some xs"
  by (induction xs arbitrary: old) simp_all

lemma decode_members_append:
  "decode_members fs (xs @ ys) c =
     (case decode_members fs xs c of None \<Rightarrow> None | Some c' \<Rightarrow> decode_members fs ys c')"
  by (induction fs xs c rule: decode_members.induct) (auto split: option.splits)

lemma json_field_simps [simp]:
  "str_field upd (JStr s) c = Some (upd s c)"
  "in_int64 i \<Longrightarrow> int_field updi (JInt i) c = Some (updi i c)"
  "strs_field get upds (JArr (map JStr xs)) c = Some (upds xs c)"
  by (simp_all add: str_field_def int_field_def strs_field_def JInt_def Parse_FormatInt)

lemma json_ok_JInt [simp]: "json_ok d (JInt i)"
  by (simp add: JInt_def FormatInt_number)

end
