(* ===== verification/Auth_Tokens.thy ===== *)
theory Auth_Tokens
  imports Domain_Auth Go_Json Go_Base64
begin

text \<open>
  Signed tokens: \<open>internal/auth/hs256.go\<close> (the compact envelope), \<open>jwt.go\<close> (access tokens
  and MFA tickets), \<open>enrolment_grant.go\<close> and \<open>reader_content_grant.go\<close>.

  \<open>mac secret data\<close> is \<open>hmac.New(sha256.New, secret)\<close> applied to the data and \<open>hkdf\<close> is
  \<open>hkdf.Key\<close> with the info string of the source; both are arguments.  No theorem here assumes
  anything about them: what is shown is the envelope's round trip, what an accepted token must
  contain, and that a token minted for one purpose is never accepted for another, whatever the
  keys are.
\<close>

type_synonym mac = "string \<Rightarrow> string \<Rightarrow> string"

definition unix :: "instant \<Rightarrow> int" where
  "unix t = t div second"

section \<open>The envelope\<close>

record jwtHeader =
  jh_Algorithm :: string
  jh_Type :: string

definition header_fields :: "jwtHeader field list" where
  "header_fields =
     [(''alg'', str_field (\<lambda>s. jh_Algorithm_update (\<lambda>_. s))),
      (''typ'', str_field (\<lambda>s. jh_Type_update (\<lambda>_. s)))]"

definition header_json :: json where
  "header_json = JObj [(''alg'', JStr ''HS256''), (''typ'', JStr ''JWT'')]"

abbreviation dot :: char where
  "dot \<equiv> CHR ''.''"

definition hs256Sign :: "mac \<Rightarrow> string \<Rightarrow> json \<Rightarrow> string" where
  "hs256Sign mac secret claims =
     (let signingInput = EncodeToString (print_json header_json) @ dot # EncodeToString (print_json claims) in
      signingInput @ dot # EncodeToString (mac secret signingInput))"

definition hs256VerifiedClaims :: "mac \<Rightarrow> string \<Rightarrow> string \<Rightarrow> string result" where
  "hs256VerifiedClaims mac secret token =
     (let parts = split_on dot token in
      if length parts \<noteq> 3 then Inl (ErrorsNew ''auth: invalid token format'')
      else (case DecodeString (parts ! 0) of
        None \<Rightarrow> Inl (ErrorsNew ''auth: invalid header encoding'')
      | Some headerJSON \<Rightarrow>
         (case Unmarshal header_fields \<lparr> jh_Algorithm = [], jh_Type = [] \<rparr> headerJSON of
            None \<Rightarrow> Inl (ErrorsNew ''auth: invalid header JSON'')
          | Some header \<Rightarrow>
             (if jh_Algorithm header \<noteq> ''HS256'' then Inl (ErrorsNew ''auth: unsupported algorithm'')
              else (case DecodeString (parts ! 2) of
                 None \<Rightarrow> Inl (ErrorsNew ''auth: invalid signature encoding'')
               | Some sig \<Rightarrow>
                  (if sig \<noteq> mac secret (parts ! 0 @ dot # parts ! 1) then
                     Inl (ErrorsNew ''auth: signature mismatch'')
                   else (case DecodeString (parts ! 1) of
                      None \<Rightarrow> Inl (ErrorsNew ''auth: invalid claims encoding'')
                    | Some claimsJSON \<Rightarrow> Inr claimsJSON)))))))"

section \<open>Access tokens and MFA tickets\<close>

record Claims =
  cl_Subject :: UserID
  cl_Username :: string
  cl_Role :: Role
  cl_Libraries :: "LibraryID list"
  cl_JTI :: string
  cl_IssuedAt :: int
  cl_ExpiresAt :: int
  cl_Issuer :: string
  cl_Type :: string

definition zero_claims :: Claims where
  "zero_claims = \<lparr> cl_Subject = [], cl_Username = [], cl_Role = [], cl_Libraries = [], cl_JTI = [],
     cl_IssuedAt = 0, cl_ExpiresAt = 0, cl_Issuer = [], cl_Type = [] \<rparr>"

definition claims_fields :: "Claims field list" where
  "claims_fields =
     [(''sub'', str_field (\<lambda>s. cl_Subject_update (\<lambda>_. s))),
      (''username'', str_field (\<lambda>s. cl_Username_update (\<lambda>_. s))),
      (''role'', str_field (\<lambda>s. cl_Role_update (\<lambda>_. s))),
      (''libraries'', strs_field cl_Libraries (\<lambda>xs. cl_Libraries_update (\<lambda>_. xs))),
      (''jti'', str_field (\<lambda>s. cl_JTI_update (\<lambda>_. s))),
      (''iat'', int_field (\<lambda>i. cl_IssuedAt_update (\<lambda>_. i))),
      (''exp'', int_field (\<lambda>i. cl_ExpiresAt_update (\<lambda>_. i))),
      (''iss'', str_field (\<lambda>s. cl_Issuer_update (\<lambda>_. s))),
      (''typ'', str_field (\<lambda>s. cl_Type_update (\<lambda>_. s)))]"

definition claims_json :: "Claims \<Rightarrow> json" where
  "claims_json c = JObj
     ([(''sub'', JStr (cl_Subject c))] @ omitempty ''username'' (cl_Username c) @ omitempty ''role'' (cl_Role c)
      @ (if cl_Libraries c = [] then [] else [(''libraries'', JArr (map JStr (cl_Libraries c)))])
      @ omitempty ''jti'' (cl_JTI c)
      @ [(''iat'', JInt (cl_IssuedAt c)), (''exp'', JInt (cl_ExpiresAt c)), (''iss'', JStr (cl_Issuer c))]
      @ omitempty ''typ'' (cl_Type c))"

definition TokenTypeAccess :: string where "TokenTypeAccess = ''access''"
definition TokenTypeMFATicket :: string where "TokenTypeMFATicket = ''mfa_ticket''"

record JWTSigner =
  js_secret :: string
  js_mfaTicketSecret :: string
  js_issuer :: string

definition NewJWTSigner :: "(string \<Rightarrow> string \<Rightarrow> string result) \<Rightarrow> string \<Rightarrow> string \<Rightarrow> JWTSigner" where
  "NewJWTSigner hkdf secret issuer =
     (let mfaKey = (case hkdf secret ''mfa-ticket-signing-v1'' of Inl _ \<Rightarrow> secret | Inr k \<Rightarrow> k) in
      \<lparr> js_secret = secret, js_mfaTicketSecret = mfaKey, js_issuer = issuer \<rparr>)"

definition jwt_Sign :: "mac \<Rightarrow> JWTSigner \<Rightarrow> Claims \<Rightarrow> string" where
  "jwt_Sign mac s c =
     (let c' = (if cl_Issuer c = [] then c\<lparr>cl_Issuer := js_issuer s\<rparr> else c) in
      hs256Sign mac (js_secret s) (claims_json c'))"

definition decode_claims :: "string \<Rightarrow> Claims option" where
  "decode_claims = Unmarshal claims_fields zero_claims"

definition jwt_Verify :: "mac \<Rightarrow> JWTSigner \<Rightarrow> string \<Rightarrow> instant \<Rightarrow> Claims result" where
  "jwt_Verify mac s token now =
     (case hs256VerifiedClaims mac (js_secret s) token of
        Inl err \<Rightarrow> Inl err
      | Inr claimsJSON \<Rightarrow>
         (case decode_claims claimsJSON of
            None \<Rightarrow> Inl (ErrorsNew ''auth/jwt: invalid claims JSON'')
          | Some c \<Rightarrow>
             (if cl_ExpiresAt c \<le> unix now then Inl (ErrorsNew ''auth/jwt: token expired'')
              else if js_issuer s \<noteq> [] \<and> cl_Issuer c \<noteq> js_issuer s then
                Inl (ErrorsNew ''auth/jwt: issuer mismatch'')
              else Inr c)))"

definition VerifyAccessToken :: "mac \<Rightarrow> JWTSigner \<Rightarrow> string \<Rightarrow> instant \<Rightarrow> Claims result" where
  "VerifyAccessToken mac s token now =
     (case jwt_Verify mac s token now of
        Inl err \<Rightarrow> Inl err
      | Inr c \<Rightarrow>
         (if cl_Type c \<noteq> TokenTypeAccess then Inl (ErrorsNew ''auth/jwt: token type is not an access token'')
          else Inr c))"

text \<open>\<open>rand\<close> is what \<open>crypto/rand\<close> delivers for the ticket's identifier, \<open>clock\<close> the time of the call.\<close>

definition newJTI :: "string result \<Rightarrow> string result" where
  "newJTI rand =
     (case rand of
        Inl err \<Rightarrow> Inl (Wrapf (Msg ''auth/jwt: generate jti: %w'' []) err)
      | Inr b \<Rightarrow> Inr (hex_EncodeToString b))"

definition ticket_claims :: "JWTSigner \<Rightarrow> UserID \<Rightarrow> string \<Rightarrow> instant \<Rightarrow> instant \<Rightarrow> Claims" where
  "ticket_claims s userID jti clock expiresAt =
     zero_claims\<lparr>cl_Subject := userID, cl_Type := TokenTypeMFATicket, cl_JTI := jti,
       cl_IssuedAt := unix clock, cl_ExpiresAt := unix expiresAt, cl_Issuer := js_issuer s\<rparr>"

definition SignMFATicket ::
  "mac \<Rightarrow> JWTSigner \<Rightarrow> string result \<Rightarrow> instant \<Rightarrow> UserID \<Rightarrow> instant \<Rightarrow> string result" where
  "SignMFATicket mac s rand clock userID expiresAt =
     (case newJTI rand of
        Inl err \<Rightarrow> Inl err
      | Inr jti \<Rightarrow>
          Inr (hs256Sign mac (js_mfaTicketSecret s) (claims_json (ticket_claims s userID jti clock expiresAt))))"

definition VerifyMFATicket :: "mac \<Rightarrow> JWTSigner \<Rightarrow> string \<Rightarrow> instant \<Rightarrow> (UserID \<times> string) result" where
  "VerifyMFATicket mac s ticket now =
     (case hs256VerifiedClaims mac (js_mfaTicketSecret s) ticket of
        Inl err \<Rightarrow> Inl err
      | Inr claimsJSON \<Rightarrow>
         (case decode_claims claimsJSON of
            None \<Rightarrow> Inl (ErrorsNew ''auth/jwt: invalid claims JSON'')
          | Some c \<Rightarrow>
             (if cl_ExpiresAt c \<le> unix now then Inl (ErrorsNew ''auth/jwt: token expired'')
              else if js_issuer s \<noteq> [] \<and> cl_Issuer c \<noteq> js_issuer s then
                Inl (ErrorsNew ''auth/jwt: issuer mismatch'')
              else if cl_Type c \<noteq> TokenTypeMFATicket then
                Inl (ErrorsNew ''auth/jwt: invalid token type for MFA ticket'')
              else Inr (cl_Subject c, cl_JTI c))))"

section \<open>Enrolment grants\<close>

definition TokenTypeEnrolment :: string where "TokenTypeEnrolment = ''enrol''"

definition EnrolmentGrantTTL :: duration where
  "EnrolmentGrantTTL = 10 * minute"

record EnrolmentClaims =
  ec_Type :: string
  ec_SessionID :: string
  ec_JTI :: string
  ec_IssuedAt :: int
  ec_ExpiresAt :: int
  ec_Issuer :: string

definition enrolment_fields :: "EnrolmentClaims field list" where
  "enrolment_fields =
     [(''typ'', str_field (\<lambda>s. ec_Type_update (\<lambda>_. s))),
      (''sid'', str_field (\<lambda>s. ec_SessionID_update (\<lambda>_. s))),
      (''jti'', str_field (\<lambda>s. ec_JTI_update (\<lambda>_. s))),
      (''iat'', int_field (\<lambda>i. ec_IssuedAt_update (\<lambda>_. i))),
      (''exp'', int_field (\<lambda>i. ec_ExpiresAt_update (\<lambda>_. i))),
      (''iss'', str_field (\<lambda>s. ec_Issuer_update (\<lambda>_. s)))]"

definition enrolment_json :: "EnrolmentClaims \<Rightarrow> json" where
  "enrolment_json c = JObj
     [(''typ'', JStr (ec_Type c)), (''sid'', JStr (ec_SessionID c)), (''jti'', JStr (ec_JTI c)),
      (''iat'', JInt (ec_IssuedAt c)), (''exp'', JInt (ec_ExpiresAt c)), (''iss'', JStr (ec_Issuer c))]"

record GrantSigner =
  gs_secret :: string
  gs_issuer :: string

definition decode_enrolment :: "string \<Rightarrow> EnrolmentClaims option" where
  "decode_enrolment = Unmarshal enrolment_fields
     \<lparr> ec_Type = [], ec_SessionID = [], ec_JTI = [], ec_IssuedAt = 0, ec_ExpiresAt = 0, ec_Issuer = [] \<rparr>"

text \<open>\<open>newID\<close> is the identifier the signer's generator returns.\<close>

definition enrolment_claims :: "GrantSigner \<Rightarrow> string \<Rightarrow> string \<Rightarrow> instant \<Rightarrow> EnrolmentClaims" where
  "enrolment_claims s newID sessionID now =
     \<lparr> ec_Type = TokenTypeEnrolment, ec_SessionID = sessionID, ec_JTI = newID, ec_IssuedAt = unix now,
       ec_ExpiresAt = unix (now + EnrolmentGrantTTL), ec_Issuer = gs_issuer s \<rparr>"

definition enrolment_Sign :: "mac \<Rightarrow> GrantSigner \<Rightarrow> string \<Rightarrow> string \<Rightarrow> instant \<Rightarrow> string result" where
  "enrolment_Sign mac s newID sessionID now =
     (if sessionID = [] then Inl (ErrorsNew ''auth: enrolment grant needs a pairing session ID'')
      else Inr (hs256Sign mac (gs_secret s) (enrolment_json (enrolment_claims s newID sessionID now))))"

definition enrolment_Verify :: "mac \<Rightarrow> GrantSigner \<Rightarrow> string \<Rightarrow> instant \<Rightarrow> EnrolmentClaims result" where
  "enrolment_Verify mac s token now =
     (case hs256VerifiedClaims mac (gs_secret s) token of
        Inl err \<Rightarrow> Inl err
      | Inr claimsJSON \<Rightarrow>
         (case decode_enrolment claimsJSON of
            None \<Rightarrow> Inl (ErrorsNew ''auth: malformed enrolment grant claims'')
          | Some c \<Rightarrow>
             (if ec_Type c \<noteq> TokenTypeEnrolment then
                Inl (ErrorsNew ''auth: token type is not an enrolment grant'')
              else if ec_ExpiresAt c \<le> unix now then Inl (ErrorsNew ''auth: enrolment grant expired'')
              else if gs_issuer s \<noteq> [] \<and> ec_Issuer c \<noteq> gs_issuer s then
                Inl (ErrorsNew ''auth: enrolment grant issuer mismatch'')
              else if ec_SessionID c = [] \<or> ec_JTI c = [] then
                Inl (ErrorsNew ''auth: enrolment grant is missing a required claim'')
              else Inr c)))"

section \<open>Reader-content grants\<close>

definition TokenTypeReaderContent :: string where "TokenTypeReaderContent = ''reader_content''"

definition ReaderContentGrantTTL :: duration where
  "ReaderContentGrantTTL = 15 * minute"

record ReaderContentClaims =
  rc_Type :: string
  rc_Subject :: UserID
  rc_LibraryID :: LibraryID
  rc_EditionID :: EditionID
  rc_IssuedAt :: int
  rc_ExpiresAt :: int
  rc_Issuer :: string

definition reader_fields :: "ReaderContentClaims field list" where
  "reader_fields =
     [(''typ'', str_field (\<lambda>s. rc_Type_update (\<lambda>_. s))),
      (''sub'', str_field (\<lambda>s. rc_Subject_update (\<lambda>_. s))),
      (''lib'', str_field (\<lambda>s. rc_LibraryID_update (\<lambda>_. s))),
      (''ed'', str_field (\<lambda>s. rc_EditionID_update (\<lambda>_. s))),
      (''iat'', int_field (\<lambda>i. rc_IssuedAt_update (\<lambda>_. i))),
      (''exp'', int_field (\<lambda>i. rc_ExpiresAt_update (\<lambda>_. i))),
      (''iss'', str_field (\<lambda>s. rc_Issuer_update (\<lambda>_. s)))]"

definition reader_json :: "ReaderContentClaims \<Rightarrow> json" where
  "reader_json c = JObj
     [(''typ'', JStr (rc_Type c)), (''sub'', JStr (rc_Subject c)), (''lib'', JStr (rc_LibraryID c)),
      (''ed'', JStr (rc_EditionID c)), (''iat'', JInt (rc_IssuedAt c)), (''exp'', JInt (rc_ExpiresAt c)),
      (''iss'', JStr (rc_Issuer c))]"

definition decode_reader :: "string \<Rightarrow> ReaderContentClaims option" where
  "decode_reader = Unmarshal reader_fields
     \<lparr> rc_Type = [], rc_Subject = [], rc_LibraryID = [], rc_EditionID = [], rc_IssuedAt = 0,
       rc_ExpiresAt = 0, rc_Issuer = [] \<rparr>"

definition reader_claims ::
  "GrantSigner \<Rightarrow> UserID \<Rightarrow> LibraryID \<Rightarrow> EditionID \<Rightarrow> instant \<Rightarrow> ReaderContentClaims" where
  "reader_claims s userID libraryID editionID now =
     \<lparr> rc_Type = TokenTypeReaderContent, rc_Subject = userID, rc_LibraryID = libraryID,
       rc_EditionID = editionID, rc_IssuedAt = unix now,
       rc_ExpiresAt = unix (now + ReaderContentGrantTTL), rc_Issuer = gs_issuer s \<rparr>"

definition reader_Sign ::
  "mac \<Rightarrow> GrantSigner \<Rightarrow> UserID \<Rightarrow> LibraryID \<Rightarrow> EditionID \<Rightarrow> instant \<Rightarrow> (string \<times> instant) result" where
  "reader_Sign mac s userID libraryID editionID now =
     (if userID = [] \<or> libraryID = [] \<or> editionID = [] then
        Inl (ErrorsNew ''auth: reader content grant needs a user, library, and edition'')
      else Inr (hs256Sign mac (gs_secret s) (reader_json (reader_claims s userID libraryID editionID now)),
                now + ReaderContentGrantTTL))"

definition reader_Verify :: "mac \<Rightarrow> GrantSigner \<Rightarrow> string \<Rightarrow> instant \<Rightarrow> ReaderContentClaims result" where
  "reader_Verify mac s token now =
     (case hs256VerifiedClaims mac (gs_secret s) token of
        Inl err \<Rightarrow> Inl err
      | Inr claimsJSON \<Rightarrow>
         (case decode_reader claimsJSON of
            None \<Rightarrow> Inl (ErrorsNew ''auth: malformed reader content grant claims'')
          | Some c \<Rightarrow>
             (if rc_Type c \<noteq> TokenTypeReaderContent then
                Inl (ErrorsNew ''auth: token type is not a reader content grant'')
              else if rc_ExpiresAt c \<le> unix now then Inl (ErrorsNew ''auth: reader content grant expired'')
              else if gs_issuer s \<noteq> [] \<and> rc_Issuer c \<noteq> gs_issuer s then
                Inl (ErrorsNew ''auth: reader content grant issuer mismatch'')
              else if rc_Subject c = [] \<or> rc_LibraryID c = [] \<or> rc_EditionID c = [] then
                Inl (ErrorsNew ''auth: reader content grant is missing a required claim'')
              else Inr c)))"

section \<open>The envelope's round trip\<close>

lemma enc6_no_dot: "n < 64 \<Longrightarrow> enc6 n \<noteq> dot"
proof -
  have "list_all (\<lambda>n. enc6 n \<noteq> dot) [0..<64]" by code_simp
  then show "n < 64 \<Longrightarrow> enc6 n \<noteq> dot" by (simp add: list_all_iff)
qed

lemma EncodeToString_no_dot [simp]: "dot \<notin> set (EncodeToString s)"
proof -
  have "\<forall>v \<in> set (sextets (map of_char s)). v < (64 :: nat)"
    by (rule sextets_bound) auto
  then show ?thesis unfolding EncodeToString_sextets using enc6_no_dot by fastforce
qed

lemma split_signed:
  "split_on dot (EncodeToString a @ dot # EncodeToString b @ dot # EncodeToString c) =
     [EncodeToString a, EncodeToString b, EncodeToString c]"
  by (simp add: split_on_append split_on_no_sep)

lemma fold_names [simp]:
  "fold_name ''alg'' = [65, 76, 71]" "fold_name ''typ'' = [84, 89, 80]" "fold_name ''sub'' = [83, 85, 66]"
  "fold_name ''username'' = [85, 83, 69, 82, 78, 65, 77, 69]" "fold_name ''role'' = [82, 79, 76, 69]"
  "fold_name ''libraries'' = [76, 73, 66, 82, 65, 82, 73, 69, 83]" "fold_name ''jti'' = [74, 84, 73]"
  "fold_name ''iat'' = [73, 65, 84]" "fold_name ''exp'' = [69, 88, 80]" "fold_name ''iss'' = [73, 83, 83]"
  "fold_name ''sid'' = [83, 73, 68]" "fold_name ''lib'' = [76, 73, 66]" "fold_name ''ed'' = [69, 68]"
  by code_simp+

lemma ascii_keys [simp]:
  "valid_utf8 ''alg''" "valid_utf8 ''typ''" "valid_utf8 ''sub''" "valid_utf8 ''username''" "valid_utf8 ''role''"
  "valid_utf8 ''libraries''" "valid_utf8 ''jti''" "valid_utf8 ''iat''" "valid_utf8 ''exp''" "valid_utf8 ''iss''"
  "valid_utf8 ''sid''" "valid_utf8 ''lib''" "valid_utf8 ''ed''" "valid_utf8 ''HS256''" "valid_utf8 ''JWT''"
  by (simp_all add: valid_utf8_ascii)

lemma header_ok:
  "Unmarshal header_fields \<lparr> jh_Algorithm = [], jh_Type = [] \<rparr> (print_json header_json) =
     Some \<lparr> jh_Algorithm = ''HS256'', jh_Type = ''JWT'' \<rparr>"
proof -
  have "json_ok maxNestingDepth header_json" by (simp add: header_json_def maxNestingDepth_def)
  then show ?thesis
    by (simp add: Unmarshal_print) (simp add: header_json_def decode_struct_def header_fields_def)
qed

lemma verified_signed:
  "hs256VerifiedClaims mac k' (hs256Sign mac k v) =
     (let input = EncodeToString (print_json header_json) @ dot # EncodeToString (print_json v) in
      if mac k input = mac k' input then Inr (print_json v) else Inl (ErrorsNew ''auth: signature mismatch''))"
  by (simp add: hs256VerifiedClaims_def hs256Sign_def Let_def split_signed Decode_Encode header_ok)

lemma verified_signed_same [simp]: "hs256VerifiedClaims mac k (hs256Sign mac k v) = Inr (print_json v)"
  by (simp add: verified_signed Let_def)

lemma verified_signed_ok: "hs256VerifiedClaims mac k' (hs256Sign mac k v) = Inr js \<Longrightarrow> js = print_json v"
  by (simp add: verified_signed Let_def split: if_splits)

section \<open>What the claims decode to\<close>

definition claims_ok :: "Claims \<Rightarrow> bool" where
  "claims_ok c \<longleftrightarrow> list_all valid_utf8 ([cl_Subject c, cl_Username c, cl_Role c, cl_JTI c, cl_Issuer c, cl_Type c]
     @ cl_Libraries c) \<and> in_int64 (cl_IssuedAt c) \<and> in_int64 (cl_ExpiresAt c)"

definition enrolment_ok :: "EnrolmentClaims \<Rightarrow> bool" where
  "enrolment_ok c \<longleftrightarrow> list_all valid_utf8 [ec_Type c, ec_SessionID c, ec_JTI c, ec_Issuer c]
     \<and> in_int64 (ec_IssuedAt c) \<and> in_int64 (ec_ExpiresAt c)"

definition reader_ok :: "ReaderContentClaims \<Rightarrow> bool" where
  "reader_ok c \<longleftrightarrow> list_all valid_utf8 [rc_Type c, rc_Subject c, rc_LibraryID c, rc_EditionID c, rc_Issuer c]
     \<and> in_int64 (rc_IssuedAt c) \<and> in_int64 (rc_ExpiresAt c)"

lemma json_ok_claims:
  "claims_ok c \<Longrightarrow> json_ok maxNestingDepth (claims_json c)"
  "enrolment_ok e \<Longrightarrow> json_ok maxNestingDepth (enrolment_json e)"
  "reader_ok r \<Longrightarrow> json_ok maxNestingDepth (reader_json r)"
  by (auto simp: claims_ok_def enrolment_ok_def reader_ok_def claims_json_def enrolment_json_def reader_json_def
      omitempty_def maxNestingDepth_def list_all_iff)

lemma decode_claims_json: "claims_ok c \<Longrightarrow> decode_claims (print_json (claims_json c)) = Some c"
  unfolding decode_claims_def Unmarshal_print [OF json_ok_claims(1)]
  by (simp add: claims_ok_def decode_struct_def claims_json_def claims_fields_def omitempty_def zero_claims_def
      decode_members_append)

lemma decode_enrolment_json: "enrolment_ok c \<Longrightarrow> decode_enrolment (print_json (enrolment_json c)) = Some c"
  unfolding decode_enrolment_def Unmarshal_print [OF json_ok_claims(2)]
  by (simp add: enrolment_ok_def decode_struct_def enrolment_json_def enrolment_fields_def)

lemma decode_reader_json: "reader_ok c \<Longrightarrow> decode_reader (print_json (reader_json c)) = Some c"
  unfolding decode_reader_def Unmarshal_print [OF json_ok_claims(3)]
  by (simp add: reader_ok_def decode_struct_def reader_json_def reader_fields_def)

text \<open>Whatever struct a payload is decoded into, its type is the payload's \<open>typ\<close>.\<close>

lemma decoded_type:
  "claims_ok c \<Longrightarrow> decode_enrolment (print_json (claims_json c)) = Some e' \<Longrightarrow> ec_Type e' = cl_Type c"
  "claims_ok c \<Longrightarrow> decode_reader (print_json (claims_json c)) = Some r' \<Longrightarrow> rc_Type r' = cl_Type c"
  "enrolment_ok e \<Longrightarrow> decode_claims (print_json (enrolment_json e)) = Some c' \<Longrightarrow> cl_Type c' = ec_Type e"
  "enrolment_ok e \<Longrightarrow> decode_reader (print_json (enrolment_json e)) = Some r' \<Longrightarrow> rc_Type r' = ec_Type e"
  "reader_ok r \<Longrightarrow> decode_claims (print_json (reader_json r)) = Some c' \<Longrightarrow> cl_Type c' = rc_Type r"
  "reader_ok r \<Longrightarrow> decode_enrolment (print_json (reader_json r)) = Some e' \<Longrightarrow> ec_Type e' = rc_Type r"
  by (auto simp: decode_claims_def decode_enrolment_def decode_reader_def Unmarshal_print json_ok_claims)
     (auto simp: claims_ok_def enrolment_ok_def reader_ok_def decode_struct_def claims_json_def enrolment_json_def
       reader_json_def claims_fields_def enrolment_fields_def reader_fields_def omitempty_def zero_claims_def
       decode_members_append split: if_splits)

section \<open>Purposes\<close>

datatype purpose = Access | Ticket | Enrolment | ReaderContent

definition purpose_type :: "purpose \<Rightarrow> string" where
  "purpose_type p = (case p of Access \<Rightarrow> TokenTypeAccess | Ticket \<Rightarrow> TokenTypeMFATicket
     | Enrolment \<Rightarrow> TokenTypeEnrolment | ReaderContent \<Rightarrow> TokenTypeReaderContent)"

text \<open>The tokens the four signers can produce, with any keys, identifiers and clocks.\<close>

inductive minted :: "mac \<Rightarrow> purpose \<Rightarrow> string \<Rightarrow> bool" for mac where
  access: "claims_ok c \<Longrightarrow> claims_ok (c\<lparr>cl_Issuer := js_issuer s\<rparr>) \<Longrightarrow> cl_Type c = TokenTypeAccess \<Longrightarrow>
    minted mac Access (jwt_Sign mac s c)"
| ticket: "SignMFATicket mac s rand clock userID expiresAt = Inr t \<Longrightarrow>
    valid_utf8 userID \<Longrightarrow> valid_utf8 (js_issuer s) \<Longrightarrow> in_int64 (unix clock) \<Longrightarrow> in_int64 (unix expiresAt) \<Longrightarrow>
    minted mac Ticket t"
| enrolment: "enrolment_Sign mac g newID sessionID now = Inr t \<Longrightarrow>
    enrolment_ok (enrolment_claims g newID sessionID now) \<Longrightarrow> minted mac Enrolment t"
| reader: "reader_Sign mac g userID libraryID editionID now = Inr (t, until) \<Longrightarrow>
    reader_ok (reader_claims g userID libraryID editionID now) \<Longrightarrow> minted mac ReaderContent t"

text \<open>What some verifier, with any keys and at any time, accepts.\<close>

inductive accepted :: "mac \<Rightarrow> purpose \<Rightarrow> string \<Rightarrow> bool" for mac where
  access: "VerifyAccessToken mac s t now = Inr c \<Longrightarrow> accepted mac Access t"
| ticket: "VerifyMFATicket mac s t now = Inr uj \<Longrightarrow> accepted mac Ticket t"
| enrolment: "enrolment_Verify mac g t now = Inr e \<Longrightarrow> accepted mac Enrolment t"
| reader: "reader_Verify mac g t now = Inr r \<Longrightarrow> accepted mac ReaderContent t"

inductive payload :: "json \<Rightarrow> string \<Rightarrow> bool" where
  claims: "claims_ok c \<Longrightarrow> payload (claims_json c) (cl_Type c)"
| enrolment: "enrolment_ok e \<Longrightarrow> payload (enrolment_json e) (ec_Type e)"
| reader: "reader_ok r \<Longrightarrow> payload (reader_json r) (rc_Type r)"

lemma hex_digit_ascii: "n < 16 \<Longrightarrow> byte_of (hex_digits ! n) < 128"
proof -
  have "list_all (\<lambda>n. byte_of (hex_digits ! n) < (128 :: nat)) [0..<16]" by code_simp
  then show "n < 16 \<Longrightarrow> byte_of (hex_digits ! n) < 128" by (simp add: list_all_iff)
qed

lemma hex_ascii: "list_all (\<lambda>c. byte_of c < 128) (hex_EncodeToString b)"
proof (induction b)
  case (Cons c b)
  have "byte_of c div 16 < (16 :: nat)"
    using nat_of_char_less_256 [of c] by (simp add: div_less_iff_less_mult)
  with Cons show ?case by (simp add: hex_digit_ascii)
qed simp

lemma ticket_claims_ok:
  assumes "valid_utf8 userID" "valid_utf8 (js_issuer s)" "in_int64 (unix clock)" "in_int64 (unix expiresAt)"
  shows "claims_ok (ticket_claims s userID (hex_EncodeToString b) clock expiresAt)"
  using assms
  by (simp add: claims_ok_def ticket_claims_def zero_claims_def TokenTypeMFATicket_def valid_utf8_ascii hex_ascii)

lemma SignMFATicket_ok:
  assumes "SignMFATicket mac s rand clock userID expiresAt = Inr t"
  obtains b where "rand = Inr b"
    "t = hs256Sign mac (js_mfaTicketSecret s)
       (claims_json (ticket_claims s userID (hex_EncodeToString b) clock expiresAt))"
  using assms by (auto simp: SignMFATicket_def newJTI_def split: sum.splits)

lemma minted_payload:
  assumes "minted mac p t"
  shows "\<exists>k v. t = hs256Sign mac k v \<and> payload v (purpose_type p)"
  using assms
proof cases
  case (access c s)
  let ?c = "if cl_Issuer c = [] then c\<lparr>cl_Issuer := js_issuer s\<rparr> else c"
  have "payload (claims_json ?c) (cl_Type ?c)" using access by (intro payload.claims) simp
  then show ?thesis using access unfolding jwt_Sign_def Let_def purpose_type_def by fastforce
next
  case (ticket s rand clock userID expiresAt)
  then obtain b where t: "t = hs256Sign mac (js_mfaTicketSecret s)
      (claims_json (ticket_claims s userID (hex_EncodeToString b) clock expiresAt))"
    by (auto elim: SignMFATicket_ok)
  have "payload (claims_json (ticket_claims s userID (hex_EncodeToString b) clock expiresAt)) TokenTypeMFATicket"
    using payload.claims [OF ticket_claims_ok [OF ticket(3-)]] by (simp add: ticket_claims_def)
  then show ?thesis using t ticket(1) by (auto simp: purpose_type_def)
next
  case (enrolment g newID sessionID now)
  have "payload (enrolment_json (enrolment_claims g newID sessionID now)) TokenTypeEnrolment"
    using payload.enrolment [OF enrolment(3)] by (simp add: enrolment_claims_def)
  then show ?thesis using enrolment by (auto simp: enrolment_Sign_def purpose_type_def split: if_splits)
next
  case (reader g userID libraryID editionID now until)
  have "payload (reader_json (reader_claims g userID libraryID editionID now)) TokenTypeReaderContent"
    using payload.reader [OF reader(3)] by (simp add: reader_claims_def)
  then show ?thesis using reader by (auto simp: reader_Sign_def purpose_type_def split: if_splits)
qed

lemma VerifyAccessToken_ok:
  assumes "VerifyAccessToken mac s t now = Inr c"
  obtains js where "hs256VerifiedClaims mac (js_secret s) t = Inr js" "decode_claims js = Some c"
    "cl_Type c = TokenTypeAccess" "unix now < cl_ExpiresAt c" "js_issuer s = [] \<or> cl_Issuer c = js_issuer s"
  using assms unfolding VerifyAccessToken_def jwt_Verify_def
  by (auto split: sum.splits option.splits if_splits)

lemma VerifyMFATicket_ok:
  assumes "VerifyMFATicket mac s t now = Inr uj"
  obtains js c where "hs256VerifiedClaims mac (js_mfaTicketSecret s) t = Inr js" "decode_claims js = Some c"
    "cl_Type c = TokenTypeMFATicket" "unix now < cl_ExpiresAt c" "uj = (cl_Subject c, cl_JTI c)"
  using assms unfolding VerifyMFATicket_def
  by (auto split: sum.splits option.splits if_splits)

lemma enrolment_Verify_ok:
  assumes "enrolment_Verify mac g t now = Inr c"
  obtains js where "hs256VerifiedClaims mac (gs_secret g) t = Inr js" "decode_enrolment js = Some c"
    "ec_Type c = TokenTypeEnrolment" "unix now < ec_ExpiresAt c" "ec_SessionID c \<noteq> []" "ec_JTI c \<noteq> []"
  using assms unfolding enrolment_Verify_def
  by (auto split: sum.splits option.splits if_splits)

lemma reader_Verify_ok:
  assumes "reader_Verify mac g t now = Inr c"
  obtains js where "hs256VerifiedClaims mac (gs_secret g) t = Inr js" "decode_reader js = Some c"
    "rc_Type c = TokenTypeReaderContent" "unix now < rc_ExpiresAt c"
  using assms unfolding reader_Verify_def
  by (auto split: sum.splits option.splits if_splits)

lemma payload_type:
  assumes "payload v ty"
  shows "decode_claims (print_json v) = Some c \<Longrightarrow> cl_Type c = ty"
    and "decode_enrolment (print_json v) = Some e \<Longrightarrow> ec_Type e = ty"
    and "decode_reader (print_json v) = Some r \<Longrightarrow> rc_Type r = ty"
  using assms
  by (induction) (auto dest: decoded_type simp: decode_claims_json decode_enrolment_json decode_reader_json)

lemma accepted_payload:
  assumes "accepted mac q (hs256Sign mac k v)" "payload v ty"
  shows "ty = purpose_type q"
  using assms(1)
proof cases
  case (access s now c)
  from access(2) show ?thesis
    by (rule VerifyAccessToken_ok)
       (use assms(2) access(1) in \<open>auto dest!: verified_signed_ok payload_type(1) simp: purpose_type_def\<close>)
next
  case (ticket s now uj)
  from ticket(2) show ?thesis
    by (rule VerifyMFATicket_ok)
       (use assms(2) ticket(1) in \<open>auto dest!: verified_signed_ok payload_type(1) simp: purpose_type_def\<close>)
next
  case (enrolment g now e)
  from enrolment(2) show ?thesis
    by (rule enrolment_Verify_ok)
       (use assms(2) enrolment(1) in \<open>auto dest!: verified_signed_ok payload_type(2) simp: purpose_type_def\<close>)
next
  case (reader g now r)
  from reader(2) show ?thesis
    by (rule reader_Verify_ok)
       (use assms(2) reader(1) in \<open>auto dest!: verified_signed_ok payload_type(3) simp: purpose_type_def\<close>)
qed

lemma purpose_type_inj: "purpose_type p = purpose_type q \<Longrightarrow> p = q"
  by (cases p; cases q)
     (simp_all add: purpose_type_def TokenTypeAccess_def TokenTypeMFATicket_def TokenTypeEnrolment_def
        TokenTypeReaderContent_def)

lemma Verify_Sign_access:
  assumes "claims_ok (c\<lparr>cl_Issuer := js_issuer s\<rparr>)" "cl_Type c = TokenTypeAccess"
    and "cl_Issuer c = [] \<or> cl_Issuer c = js_issuer s"
  shows "VerifyAccessToken mac s (jwt_Sign mac s c) now =
    (if unix now < cl_ExpiresAt c then Inr (c\<lparr>cl_Issuer := js_issuer s\<rparr>)
     else Inl (ErrorsNew ''auth/jwt: token expired''))"
proof -
  have "(if cl_Issuer c = [] then c\<lparr>cl_Issuer := js_issuer s\<rparr> else c) = c\<lparr>cl_Issuer := js_issuer s\<rparr>"
    using assms(3) by auto
  then show ?thesis
    using assms(2) decode_claims_json [OF assms(1)]
    by (simp add: VerifyAccessToken_def jwt_Verify_def jwt_Sign_def)
qed

lemma VerifyMFATicket_Sign:
  assumes "valid_utf8 userID" "valid_utf8 (js_issuer s)" "in_int64 (unix clock)" "in_int64 (unix expiresAt)"
    and "SignMFATicket mac s (Inr b) clock userID expiresAt = Inr t"
  shows "VerifyMFATicket mac s t now =
    (if unix now < unix expiresAt then Inr (userID, hex_EncodeToString b)
     else Inl (ErrorsNew ''auth/jwt: token expired''))"
proof -
  have "t = hs256Sign mac (js_mfaTicketSecret s)
      (claims_json (ticket_claims s userID (hex_EncodeToString b) clock expiresAt))"
    using assms(5) by (auto elim: SignMFATicket_ok)
  then show ?thesis
    using decode_claims_json [OF ticket_claims_ok [OF assms(1-4), of b]]
    by (simp add: VerifyMFATicket_def) (simp add: ticket_claims_def)
qed

lemma enrolment_Verify_Sign:
  assumes "enrolment_ok (enrolment_claims g newID sessionID now)" "newID \<noteq> []"
    and "enrolment_Sign mac g newID sessionID now = Inr t" "unix later < unix (now + EnrolmentGrantTTL)"
  shows "enrolment_Verify mac g t later = Inr (enrolment_claims g newID sessionID now)"
proof -
  have "sessionID \<noteq> []" "t = hs256Sign mac (gs_secret g) (enrolment_json (enrolment_claims g newID sessionID now))"
    using assms(3) by (auto simp: enrolment_Sign_def split: if_splits)
  then show ?thesis
    using assms(2,4) decode_enrolment_json [OF assms(1)]
    by (simp add: enrolment_Verify_def) (simp add: enrolment_claims_def)
qed

text \<open>A small server to run the signers on: the MAC keeps key and data apart by a separator.\<close>

definition toy_mac :: mac where
  "toy_mac k d = k @ ''/'' @ d"

definition sample_signer :: JWTSigner where
  "sample_signer = NewJWTSigner (\<lambda>_ _. Inl (ErrorsNew ''hkdf'')) ''key'' ''alexandryn''"

definition sample_access :: Claims where
  "sample_access = \<lparr> cl_Subject = ''u1'', cl_Username = ''ann'', cl_Role = RoleAdmin, cl_Libraries = [''L''],
     cl_JTI = ''j'', cl_IssuedAt = 0, cl_ExpiresAt = 900, cl_Issuer = [], cl_Type = TokenTypeAccess \<rparr>"

lemma sample_access_ok:
  "claims_ok sample_access" "claims_ok (sample_access\<lparr>cl_Issuer := js_issuer sample_signer\<rparr>)"
  "cl_Type sample_access = TokenTypeAccess" "cl_Issuer sample_access = []" "cl_ExpiresAt sample_access = 900"
  by (simp_all add: sample_access_def claims_ok_def RoleAdmin_def TokenTypeAccess_def valid_utf8_ascii
      in_int64_def sample_signer_def NewJWTSigner_def)

text \<open>C29: a token minted as an access token, an MFA ticket, an enrolment grant or a reader-content
  grant is accepted, if at all, only by the verifier of its own purpose.  This holds for all keys,
  the same or different, and for every MAC: it rests on the type assertions alone, so it survives
  the fallback in which the MFA key is the access key.\<close>

theorem token_purposes_separate:
  assumes "minted mac p t" "accepted mac q t"
  shows "p = q"
proof -
  obtain k v where t: "t = hs256Sign mac k v" and v: "payload v (purpose_type p)"
    using minted_payload [OF assms(1)] by blast
  show ?thesis
    using accepted_payload [OF assms(2) [unfolded t] v] by (rule purpose_type_inj)
qed

theorem token_purposes_separate_witness:
  "(\<exists>t. minted toy_mac Access t \<and> accepted toy_mac Access t \<and> \<not> accepted toy_mac Ticket t
      \<and> \<not> accepted toy_mac ReaderContent t)"
proof -
  let ?t = "jwt_Sign toy_mac sample_signer sample_access"
  have m: "minted toy_mac Access ?t"
    by (rule minted.access) (rule sample_access_ok)+
  have "VerifyAccessToken toy_mac sample_signer ?t 0 =
      Inr (sample_access\<lparr>cl_Issuer := js_issuer sample_signer\<rparr>)"
    using Verify_Sign_access [OF sample_access_ok(2,3)] sample_access_ok(4,5) by (simp add: unix_def)
  then have "accepted toy_mac Access ?t" by (rule accepted.access)
  with m show ?thesis using token_purposes_separate [OF m] by blast
qed

text \<open>An access token signed by a signer verifies with that signer, to exactly the claims that
  were signed (with the signer's issuer filled in), at every moment before the second of its
  expiry, and is refused from then on.\<close>

theorem access_token_roundtrip:
  assumes "claims_ok (c\<lparr>cl_Issuer := js_issuer s\<rparr>)" "cl_Type c = TokenTypeAccess"
    and "cl_Issuer c = [] \<or> cl_Issuer c = js_issuer s"
  shows "VerifyAccessToken mac s (jwt_Sign mac s c) now =
    (if unix now < cl_ExpiresAt c then Inr (c\<lparr>cl_Issuer := js_issuer s\<rparr>)
     else Inl (ErrorsNew ''auth/jwt: token expired''))"
  using assms by (rule Verify_Sign_access)

theorem access_token_roundtrip_witness:
  "VerifyAccessToken toy_mac sample_signer (jwt_Sign toy_mac sample_signer sample_access) (899 * second) =
     Inr (sample_access\<lparr>cl_Issuer := ''alexandryn''\<rparr>)
   \<and> VerifyAccessToken toy_mac sample_signer (jwt_Sign toy_mac sample_signer sample_access) (900 * second) =
     Inl (ErrorsNew ''auth/jwt: token expired'')"
proof -
  have "js_issuer sample_signer = ''alexandryn''" by (simp add: sample_signer_def NewJWTSigner_def)
  then show ?thesis
    using access_token_roundtrip [OF sample_access_ok(2,3), of toy_mac "899 * second"]
      access_token_roundtrip [OF sample_access_ok(2,3), of toy_mac "900 * second"] sample_access_ok(4,5)
    by (simp add: unix_def)
qed

text \<open>No token is accepted without the MAC of its own header and payload under the verifier's
  key: a verified access token is \<open>h.p.g\<close> with \<open>g\<close> decoding to \<open>mac secret (h.p)\<close>, and \<open>p\<close> to
  the claims returned, unexpired and of the access type.\<close>

theorem access_token_needs_mac:
  assumes "VerifyAccessToken mac s t now = Inr c"
  shows "\<exists>h p g. t = h @ dot # p @ dot # g \<and> DecodeString g = Some (mac (js_secret s) (h @ dot # p))
    \<and> (\<exists>js. DecodeString p = Some js \<and> decode_claims js = Some c)
    \<and> cl_Type c = TokenTypeAccess \<and> unix now < cl_ExpiresAt c"
proof -
  obtain js where v: "hs256VerifiedClaims mac (js_secret s) t = Inr js" and c: "decode_claims js = Some c"
    "cl_Type c = TokenTypeAccess" "unix now < cl_ExpiresAt c"
    using assms by (rule VerifyAccessToken_ok)
  obtain h p g where parts: "split_on dot t = [h, p, g]"
    using v by (auto simp: hs256VerifiedClaims_def Let_def length_Suc_conv eval_nat_numeral split: if_splits)
  have "t = h @ dot # p @ dot # g" using join_split [of dot t] by (simp add: parts)
  moreover have "DecodeString g = Some (mac (js_secret s) (h @ dot # p))" "DecodeString p = Some js"
    using v by (auto simp: hs256VerifiedClaims_def parts Let_def split: option.splits if_splits)
  ultimately show ?thesis using c by blast
qed

theorem access_token_needs_mac_witness:
  "\<exists>h p g. jwt_Sign toy_mac sample_signer sample_access = h @ dot # p @ dot # g
     \<and> DecodeString g = Some (toy_mac (js_secret sample_signer) (h @ dot # p))"
proof -
  have "VerifyAccessToken toy_mac sample_signer (jwt_Sign toy_mac sample_signer sample_access) 0 =
      Inr (sample_access\<lparr>cl_Issuer := js_issuer sample_signer\<rparr>)"
    using Verify_Sign_access [OF sample_access_ok(2,3)] sample_access_ok(4,5) by (simp add: unix_def)
  from access_token_needs_mac [OF this] show ?thesis by blast
qed

end
