(* ===== verification/Auth_Totp.thy ===== *)
theory Auth_Totp
  imports Domain_Error Go_Strconv
begin

text \<open>
  The second factor: \<open>internal/auth/totp.go\<close> (RFC 6238 codes, recovery codes, encryption of the
  stored secret) with the part of \<open>encoding/base32\<close> it uses.

  \<open>hmac1\<close> is HMAC with SHA-1, \<open>sha256\<close> the digest, an \<open>aead\<close> the AES-256-GCM cipher
  under a key and nonce: arguments, as are the bytes \<open>crypto/rand\<close> delivers.  An index out
  of range, which would be a panic in Go, is \<open>None\<close>.
\<close>

unbundle bit_operations_syntax

section \<open>Base 32\<close>

definition b32_alphabet :: string where
  "b32_alphabet = ''ABCDEFGHIJKLMNOPQRSTUVWXYZ234567''"

fun index_in :: "'a \<Rightarrow> 'a list \<Rightarrow> nat option" where
  "index_in x [] = None"
| "index_in x (y # ys) = (if x = y then Some 0 else map_option Suc (index_in x ys))"

definition dec5 :: "char \<Rightarrow> nat option" where
  "dec5 c = index_in c b32_alphabet"

text \<open>The five-bit groups of a byte string; a final partial group is filled with zero bits.\<close>

definition quint5 :: "nat \<Rightarrow> nat \<Rightarrow> nat \<Rightarrow> nat \<Rightarrow> nat \<Rightarrow> nat list" where
  "quint5 a b c d e =
     [a div 8, a mod 8 * 4 + b div 64, b div 2 mod 32, b mod 2 * 16 + c div 16,
      c mod 16 * 2 + d div 128, d div 4 mod 32, d mod 4 * 8 + e div 32, e mod 32]"

fun quintets :: "nat list \<Rightarrow> nat list" where
  "quintets [] = []"
| "quintets [a] = take 2 (quint5 a 0 0 0 0)"
| "quintets [a, b] = take 4 (quint5 a b 0 0 0)"
| "quintets [a, b, c] = take 5 (quint5 a b c 0 0)"
| "quintets [a, b, c, d] = take 7 (quint5 a b c d 0)"
| "quintets (a # b # c # d # e # r) = quint5 a b c d e @ quintets r"

definition b32_Encode :: "string \<Rightarrow> string" where
  "b32_Encode s = map (\<lambda>v. b32_alphabet ! v) (quintets (map byte_of s))"

text \<open>
  One quantum of the decoder: up to \<open>k\<close> more characters onto \<open>acc\<close>.  The flag says the input
  ended.  With padding, a missing or malformed tail is an error; without it, the input may stop
  anywhere.
\<close>

fun read_quantum :: "char option \<Rightarrow> nat \<Rightarrow> string \<Rightarrow> nat list \<Rightarrow> (nat list \<times> string \<times> bool) option" where
  "read_quantum pad 0 src acc = Some (acc, src, False)"
| "read_quantum pad (Suc k) [] acc = (if pad \<noteq> None then None else Some (acc, [], True))"
| "read_quantum pad (Suc k) (c # r) acc =
     (if pad = Some c \<and> 2 \<le> length acc \<and> length r < 8 then
        (if length r + length acc < 7 then None
         else if list_ex (\<lambda>x. pad \<noteq> Some x) (take (7 - length acc) r) then None
         else if length acc \<in> {1, 3, 6} then None
         else Some (acc, r, True))
      else (case dec5 c of None \<Rightarrow> None | Some v \<Rightarrow> read_quantum pad k r (acc @ [v])))"

text \<open>The bytes of a quantum, unread places being zero; lengths 1, 3 and 6 carry none.\<close>

fun pack_bytes :: "nat list \<Rightarrow> nat list" where
  "pack_bytes [v0, v1, v2, v3, v4, v5, v6, v7] =
     [v0 * 8 + v1 div 4, v1 * 64 + v2 * 2 + v3 div 16, v3 * 16 + v4 div 2, v4 * 128 + v5 * 4 + v6 div 8,
      v6 * 32 + v7]"
| "pack_bytes _ = []"

definition quantum_size :: "nat \<Rightarrow> nat" where
  "quantum_size n =
     (if n = 8 then 5 else if n = 7 then 4 else if n = 5 then 3 else if n = 4 then 2
      else if n = 2 then 1 else 0)"

definition pack_quantum :: "nat list \<Rightarrow> string" where
  "pack_quantum q = map char_of (take (quantum_size (length q)) (pack_bytes (q @ replicate (8 - length q) 0)))"

lemma read_quantum_rest:
  "read_quantum pad k src acc = Some (q, r, e) \<Longrightarrow> length r \<le> length src"
proof (induction pad k src acc rule: read_quantum.induct)
  case (3 pad k c r' acc)
  then show ?case by (auto split: if_splits option.splits)
qed (auto split: if_splits)

lemma read_quantum_shorter:
  assumes "read_quantum pad (Suc k) (c # src) acc = Some (q, r, e)"
  shows "length r < Suc (length src)"
  using assms by (auto split: if_splits option.splits dest!: read_quantum_rest)

function b32_loop :: "char option \<Rightarrow> string \<Rightarrow> string option" where
  "b32_loop pad [] = Some []"
| "b32_loop pad (c # src) =
     (case read_quantum pad 8 (c # src) [] of
        None \<Rightarrow> None
      | Some (q, r, e) \<Rightarrow>
          (if e then Some (pack_quantum q) else map_option ((@) (pack_quantum q)) (b32_loop pad r)))"
  by pat_completeness auto
termination
proof (relation "measure (length \<circ> snd)")
  fix pad :: "char option" and c src x q y r e
  assume "read_quantum pad 8 (c # src) [] = Some x" "(q, y) = x" "(r, e) = y" "\<not> e"
  then have "read_quantum pad (Suc 7) (c # src) [] = Some (q, r, e)" by simp
  from read_quantum_shorter [OF this]
  show "((pad, r), pad, c # src) \<in> measure (length \<circ> snd)" by simp
qed simp

definition b32_Decode :: "char option \<Rightarrow> string \<Rightarrow> string option" where
  "b32_Decode pad s = b32_loop pad (filter (\<lambda>c. c \<noteq> CHR 0x0A \<and> c \<noteq> CHR 0x0D) s)"

section \<open>Codes\<close>

record TOTPEngine =
  te_issuer :: string
  te_timeStep :: duration
  te_digits :: nat

definition NewTOTPEngine :: "string \<Rightarrow> TOTPEngine" where
  "NewTOTPEngine issuer = \<lparr> te_issuer = issuer, te_timeStep = 30 * second, te_digits = 6 \<rparr>"

definition GenerateSecret :: "string result \<Rightarrow> string result" where
  "GenerateSecret rand =
     (case rand of
        Inl err \<Rightarrow> Inl (Wrapf (Msg ''auth/totp: generate secret failed: %w'' []) err)
      | Inr bytes \<Rightarrow> Inr (b32_Encode bytes))"

text \<open>\<open>binary.BigEndian.PutUint64\<close>.\<close>

definition PutUint64 :: "64 word \<Rightarrow> string" where
  "PutUint64 v = map (\<lambda>i. char_of (unat (drop_bit (56 - 8 * i) v AND 0xff))) [0..<8]"

definition byte_at :: "string \<Rightarrow> nat \<Rightarrow> 64 word option" where
  "byte_at h i = (if i < length h then Some (of_nat (byte_of (h ! i))) else None)"

definition generateHOTP :: "(string \<Rightarrow> string \<Rightarrow> string) \<Rightarrow> string \<Rightarrow> 64 word \<Rightarrow> string option" where
  "generateHOTP hmac1 secret counter =
     (let h = hmac1 secret (PutUint64 counter) in
      if h = [] then None
      else (let offset = byte_of (last h) mod 16 in
        case (byte_at h offset, byte_at h (offset + 1), byte_at h (offset + 2), byte_at h (offset + 3)) of
          (Some b0, Some b1, Some b2, Some b3) \<Rightarrow>
            (let binCode = push_bit 24 (b0 AND 0x7f) OR push_bit 16 (b1 AND 0xff) OR push_bit 8 (b2 AND 0xff)
                   OR (b3 AND 0xff) in
             Some (pad_dec 6 (unat (binCode mod 1000000))))
        | _ \<Rightarrow> None))"

definition unix_time :: "instant \<Rightarrow> int" where
  "unix_time t = t div second"

definition decode_secret :: "(rune \<Rightarrow> rune) \<Rightarrow> string \<Rightarrow> string option" where
  "decode_secret cm secretBase32 =
     (let s = ToUpper cm (TrimSpace secretBase32) in
      case b32_Decode None s of Some b \<Rightarrow> Some b | None \<Rightarrow> b32_Decode (Some CHR ''='') s)"

definition counter_at :: "TOTPEngine \<Rightarrow> instant \<Rightarrow> 64 word" where
  "counter_at e t = word_of_int (unix_time t) div word_of_int (te_timeStep e div second)"

definition GenerateCode ::
  "(rune \<Rightarrow> rune) \<Rightarrow> (string \<Rightarrow> string \<Rightarrow> string) \<Rightarrow> TOTPEngine \<Rightarrow> string \<Rightarrow> instant \<Rightarrow> string result option" where
  "GenerateCode cm hmac1 e secretBase32 t =
     (case decode_secret cm secretBase32 of
        None \<Rightarrow> Some (Inl (ErrorsNew ''auth/totp: decode base32 secret failed''))
      | Some secretBytes \<Rightarrow> map_option Inr (generateHOTP hmac1 secretBytes (counter_at e t)))"

text \<open>The loop over the offsets 0, -1 and 1.\<close>

fun try_offsets ::
  "(rune \<Rightarrow> rune) \<Rightarrow> (string \<Rightarrow> string \<Rightarrow> string) \<Rightarrow> TOTPEngine \<Rightarrow> string \<Rightarrow> string \<Rightarrow> instant \<Rightarrow> int list
   \<Rightarrow> bool result option" where
  "try_offsets cm hmac1 e secret code t [] = Some (Inr False)"
| "try_offsets cm hmac1 e secret code t (offset # os) =
     (case GenerateCode cm hmac1 e secret (t + offset * te_timeStep e) of
        None \<Rightarrow> None
      | Some (Inl err) \<Rightarrow> Some (Inl err)
      | Some (Inr expected) \<Rightarrow>
          (if code = expected then Some (Inr True) else try_offsets cm hmac1 e secret code t os))"

definition ValidateCode ::
  "(rune \<Rightarrow> rune) \<Rightarrow> (string \<Rightarrow> string \<Rightarrow> string) \<Rightarrow> TOTPEngine \<Rightarrow> string \<Rightarrow> string \<Rightarrow> instant
   \<Rightarrow> bool result option" where
  "ValidateCode cm hmac1 e secret code0 t =
     (let code = TrimSpace code0 in
      if length code \<noteq> te_digits e then Some (Inr False)
      else try_offsets cm hmac1 e secret code t [0, -1, 1])"

text \<open>\<open>url.Values.Encode\<close>: keys in order, values escaped for a query.\<close>

definition upper_hex :: string where
  "upper_hex = ''0123456789ABCDEF''"

definition QueryEscape :: "string \<Rightarrow> string" where
  "QueryEscape s = concat (map (\<lambda>c.
     if is_alnum c \<or> c \<in> set ''-_.~'' then [c]
     else if c = CHR '' '' then ''+''
     else [CHR ''%'', upper_hex ! (byte_of c div 16), upper_hex ! (byte_of c mod 16)]) s)"

definition KeyURI :: "(rune \<Rightarrow> rune) \<Rightarrow> TOTPEngine \<Rightarrow> string \<Rightarrow> string \<Rightarrow> string" where
  "KeyURI cm e accountName secretBase32 =
     ''otpauth://totp/'' @ te_issuer e @ '':'' @ accountName @ ''?algorithm=SHA1&digits=6&issuer=''
     @ QueryEscape (te_issuer e) @ ''&period=30&secret=''
     @ QueryEscape (ToUpper cm (TrimSpace secretBase32))"

section \<open>Recovery codes\<close>

definition recovery_charset :: string where
  "recovery_charset = ''23456789ABCDEFGHJKLMNPQRSTUVWXYZ''"

definition sha256_hex :: "(string \<Rightarrow> string) \<Rightarrow> string \<Rightarrow> string" where
  "sha256_hex sha256 s = hex_EncodeToString (sha256 s)"

definition recovery_code :: "string \<Rightarrow> string" where
  "recovery_code b =
     (let cs = map (\<lambda>c. recovery_charset ! (byte_of c mod length recovery_charset)) b in
      take 4 cs @ CHR ''-'' # drop 4 cs)"

text \<open>\<open>rands\<close> holds one outcome of \<open>rand.Read\<close> per code.\<close>

fun recovery_loop :: "(string \<Rightarrow> string) \<Rightarrow> string result list \<Rightarrow> (string list \<times> string list) result" where
  "recovery_loop sha256 [] = Inr ([], [])"
| "recovery_loop sha256 (r # rs) =
     (case r of
        Inl err \<Rightarrow> Inl (Wrapf (Msg ''auth/totp: generate recovery code failed: %w'' []) err)
      | Inr b \<Rightarrow>
         (case recovery_loop sha256 rs of
            Inl err \<Rightarrow> Inl err
          | Inr (codes, hashes) \<Rightarrow>
              Inr (recovery_code b # codes, sha256_hex sha256 (recovery_code b) # hashes)))"

definition GenerateRecoveryCodes ::
  "(string \<Rightarrow> string) \<Rightarrow> string result list \<Rightarrow> (string list \<times> string list) result" where
  "GenerateRecoveryCodes sha256 rands = recovery_loop sha256 rands"

text \<open>The first matching index; \<open>None\<close> is the source's -1.\<close>

definition VerifyRecoveryCode ::
  "(rune \<Rightarrow> rune) \<Rightarrow> (string \<Rightarrow> string) \<Rightarrow> string \<Rightarrow> string list \<Rightarrow> nat option" where
  "VerifyRecoveryCode cm sha256 rawCode storedHashes =
     index_in (sha256_hex sha256 (TrimSpace (ToUpper cm rawCode))) storedHashes"

section \<open>Encryption of the stored secret\<close>

record aead =
  ad_seal :: "string \<Rightarrow> string \<Rightarrow> string \<Rightarrow> string"
  ad_open :: "string \<Rightarrow> string \<Rightarrow> string \<Rightarrow> string option"

definition gcm_nonceSize :: nat where
  "gcm_nonceSize = 12"

definition cipher_key :: "(string \<Rightarrow> string) \<Rightarrow> string \<Rightarrow> string" where
  "cipher_key sha256 key = (if length key \<noteq> 32 then sha256 key else key)"

definition EncryptSecret ::
  "aead \<Rightarrow> (string \<Rightarrow> string) \<Rightarrow> string result \<Rightarrow> string \<Rightarrow> string \<Rightarrow> string result" where
  "EncryptSecret A sha256 rand plaintext key =
     (case rand of
        Inl err \<Rightarrow> Inl (Wrapf (Msg ''auth/crypto: generate nonce failed: %w'' []) err)
      | Inr nonce \<Rightarrow> Inr (nonce @ ad_seal A (cipher_key sha256 key) nonce plaintext))"

definition DecryptSecret ::
  "aead \<Rightarrow> (string \<Rightarrow> string) \<Rightarrow> string \<Rightarrow> string \<Rightarrow> string result" where
  "DecryptSecret A sha256 ciphertext key =
     (if length ciphertext < gcm_nonceSize then Inl (ErrorsNew ''auth/crypto: ciphertext too short'')
      else (case ad_open A (cipher_key sha256 key) (take gcm_nonceSize ciphertext) (drop gcm_nonceSize ciphertext) of
              None \<Rightarrow> Inl (ErrorsNew ''auth/crypto: decrypt failed'')
            | Some plaintext \<Rightarrow> Inr plaintext))"

section \<open>Secrets decode\<close>

lemma dec5_alphabet [simp]: "v < 32 \<Longrightarrow> dec5 (b32_alphabet ! v) = Some v"
proof -
  have "list_all (\<lambda>v. dec5 (b32_alphabet ! v) = Some v) [0..<32]" by code_simp
  then show "v < 32 \<Longrightarrow> dec5 (b32_alphabet ! v) = Some v" by (simp add: list_all_iff)
qed

lemma alphabet_plain:
  "v < 32 \<Longrightarrow> 32 < byte_of (b32_alphabet ! v) \<and> byte_of (b32_alphabet ! v) < 128 \<and> \<not> is_lower (b32_alphabet ! v)"
proof -
  have "list_all (\<lambda>v. 32 < byte_of (b32_alphabet ! v) \<and> byte_of (b32_alphabet ! v) < (128 :: nat)
      \<and> \<not> is_lower (b32_alphabet ! v)) [0..<32]" by code_simp
  then show "v < 32 \<Longrightarrow> 32 < byte_of (b32_alphabet ! v) \<and> byte_of (b32_alphabet ! v) < 128
      \<and> \<not> is_lower (b32_alphabet ! v)"
    by (simp add: list_all_iff)
qed

lemma quintets_bound: "\<forall>b \<in> set bs. b < 256 \<Longrightarrow> \<forall>v \<in> set (quintets bs). v < 32"
proof (induction bs rule: quintets.induct)
  case (6 a b c d e r)
  then show ?case by (auto simp: quint5_def)
qed (auto simp: quint5_def)

lemma quintet_bytes:
  fixes a b c d e :: nat
  assumes "a < 256" "b < 256" "c < 256" "d < 256" "e < 256"
  shows "a div 8 * 8 + (a mod 8 * 4 + b div 64) div 4 = a"
    and "((a mod 8 * 4 + b div 64) * 64 + b div 2 mod 32 * 2 + (b mod 2 * 16 + c div 16) div 16) mod 256 = b"
    and "((b mod 2 * 16 + c div 16) * 16 + (c mod 16 * 2 + d div 128) div 2) mod 256 = c"
    and "((c mod 16 * 2 + d div 128) * 128 + d div 4 mod 32 * 4 + (d mod 4 * 8 + e div 32) div 8) mod 256 = d"
    and "((d mod 4 * 8 + e div 32) * 32 + e mod 32) mod 256 = e"
proof -
  have lo: "b div 64 < 4" "c div 16 < 16" "d div 128 < 2" "e div 32 < 8"
    using assms by (simp_all add: div_less_iff_less_mult)
  have q: "b div 64 = b div 2 div 32" "d div 128 = d div 4 div 32"
    by (simp_all only: div_mult2_eq [symmetric]) simp_all
  have split: "b div 64 * 64 + b div 2 mod 32 * 2 + b mod 2 = b" "d div 128 * 128 + d div 4 mod 32 * 4 + d mod 4 = d"
    unfolding q
    using div_mult_mod_eq [of b 2] div_mult_mod_eq [of "b div 2" 32]
      div_mult_mod_eq [of d 4] div_mult_mod_eq [of "d div 4" 32] by linarith+
  show "a div 8 * 8 + (a mod 8 * 4 + b div 64) div 4 = a" using lo(1) by simp
  have "(b mod 2 * 16 + c div 16) div 16 = b mod 2" using lo(2) by simp
  then have e1: "(a mod 8 * 4 + b div 64) * 64 + b div 2 mod 32 * 2 + (b mod 2 * 16 + c div 16) div 16
      = a mod 8 * 256 + b" using split(1) by simp
  show "((a mod 8 * 4 + b div 64) * 64 + b div 2 mod 32 * 2 + (b mod 2 * 16 + c div 16) div 16) mod 256 = b"
    unfolding e1 using assms(2) by simp
  have "(c mod 16 * 2 + d div 128) div 2 = c mod 16" using lo(3) by simp
  then have e2: "(b mod 2 * 16 + c div 16) * 16 + (c mod 16 * 2 + d div 128) div 2 = b mod 2 * 256 + c" by simp
  show "((b mod 2 * 16 + c div 16) * 16 + (c mod 16 * 2 + d div 128) div 2) mod 256 = c"
    unfolding e2 using assms(3) by simp
  have "(d mod 4 * 8 + e div 32) div 8 = d mod 4" using lo(4) by simp
  then have e3: "(c mod 16 * 2 + d div 128) * 128 + d div 4 mod 32 * 4 + (d mod 4 * 8 + e div 32) div 8
      = c mod 16 * 256 + d" using split(2) by simp
  show "((c mod 16 * 2 + d div 128) * 128 + d div 4 mod 32 * 4 + (d mod 4 * 8 + e div 32) div 8) mod 256 = d"
    unfolding e3 using assms(4) by simp
  have e4: "(d mod 4 * 8 + e div 32) * 32 + e mod 32 = d mod 4 * 256 + e" by simp
  show "((d mod 4 * 8 + e div 32) * 32 + e mod 32) mod 256 = e" unfolding e4 using assms(5) by simp
qed

lemma read_values:
  "\<forall>v \<in> set q. v < 32 \<Longrightarrow> length q \<le> k \<Longrightarrow>
   read_quantum None k (map (\<lambda>v. b32_alphabet ! v) q @ r) acc = read_quantum None (k - length q) r (acc @ q)"
proof (induction q arbitrary: k acc)
  case (Cons v q)
  then obtain k' where "k = Suc k'" by (cases k) auto
  with Cons show ?case by simp
qed simp

lemma char_of_mod: "n mod 256 = byte_of c \<Longrightarrow> char_of (n :: nat) = c"
  by (metis char_of_char char_of_mod_256)

lemma b32_group:
  assumes "length q = 8" "\<forall>v \<in> set q. v < 32"
  shows "b32_loop None (map (\<lambda>v. b32_alphabet ! v) q @ r) = map_option ((@) (pack_quantum q)) (b32_loop None r)"
proof -
  obtain c cs where c: "map (\<lambda>v. b32_alphabet ! v) q = c # cs" using assms(1) by (cases q) auto
  have "read_quantum None 8 ((c # cs) @ r) [] = Some (q, r, False)"
    using read_values [of q 8 r "[]"] assms unfolding c by simp
  then show ?thesis unfolding c by simp
qed

lemma b32_tail:
  assumes "q \<noteq> []" "length q < 8" "\<forall>v \<in> set q. v < 32"
  shows "b32_loop None (map (\<lambda>v. b32_alphabet ! v) q) = Some (pack_quantum q)"
proof -
  obtain c cs where c: "map (\<lambda>v. b32_alphabet ! v) q = c # cs" using assms(1) by (cases q) auto
  obtain k where "8 - length q = Suc k" using assms(2) by (cases "8 - length q") auto
  then have "read_quantum None 8 (c # cs) [] = Some (q, [], True)"
    using read_values [of q 8 "[]" "[]"] assms unfolding c by simp
  then show ?thesis unfolding c by simp
qed

lemma pack_quint5:
  assumes "a < 256" "b < 256" "c < 256" "d < 256" "e < 256"
  shows "map char_of (pack_bytes (quint5 a b c d e)) = map char_of [a, b, c, d, e]"
proof -
  have m: "n mod 256 = x \<Longrightarrow> char_of n = (char_of x :: char)" for n x :: nat
    by (metis char_of_mod_256)
  note q = quintet_bytes [OF assms]
  show ?thesis
    unfolding quint5_def pack_bytes.simps list.map q(1) m [OF q(2)] m [OF q(3)] m [OF q(4)] m [OF q(5)] ..
qed

lemma pack_prefix:
  assumes "quint5 a b c d e = q @ replicate (8 - length q) 0"
    and "a < 256" "b < 256" "c < 256" "d < 256" "e < 256"
  shows "pack_quantum q = take (quantum_size (length q)) (map char_of [a, b, c, d, e])"
  using pack_quint5 [OF assms(2-)] unfolding pack_quantum_def assms(1) [symmetric] take_map [symmetric] by simp

lemma length_quint5 [simp]: "length (quint5 a b c d e) = 8"
  by (simp add: quint5_def)

lemma b32_tail_bytes:
  assumes "set (drop n (quint5 a b c d e)) \<subseteq> {0}" "0 < n" "n < 8"
    and "a < 256" "b < 256" "c < 256" "d < 256" "e < 256"
  shows "b32_loop None (map (\<lambda>v. b32_alphabet ! v) (take n (quint5 a b c d e))) =
    Some (take (quantum_size n) (map char_of [a, b, c, d, e]))"
proof -
  let ?q = "take n (quint5 a b c d e)"
  have len: "length ?q = n" using assms(3) by simp
  have "drop n (quint5 a b c d e) = replicate (8 - n) 0"
    using assms(1,3) by (intro replicate_eqI) auto
  then have z: "quint5 a b c d e = ?q @ replicate (8 - n) 0" by (metis append_take_drop_id)
  have "\<forall>v \<in> set (quint5 a b c d e). v < 32"
    using quintets_bound [of "[a, b, c, d, e]"] assms(4-) by simp
  then have "\<forall>v \<in> set ?q. v < 32" using set_take_subset [of n "quint5 a b c d e"] by blast
  moreover have "?q \<noteq> []" using len assms(2) by (cases ?q) auto
  ultimately have "b32_loop None (map (\<lambda>v. b32_alphabet ! v) ?q) = Some (pack_quantum ?q)"
    using len assms(3) by (intro b32_tail) auto
  then show ?thesis
    using pack_prefix [of a b c d e ?q, unfolded len, OF z assms(4-)] by simp
qed

lemma b32_loop_quintets:
  assumes "\<forall>b \<in> set bs. b < 256"
  shows "b32_loop None (map (\<lambda>v. b32_alphabet ! v) (quintets bs)) = Some (map char_of bs)"
  using assms
proof (induction bs rule: quintets.induct)
  case (6 a b c d e r)
  have "\<forall>v \<in> set (quint5 a b c d e). v < 32"
    using quintets_bound [of "[a, b, c, d, e]"] 6(2) by simp
  moreover have "pack_quantum (quint5 a b c d e) = map char_of [a, b, c, d, e]"
    using pack_prefix [of a b c d e "quint5 a b c d e"] 6(2) by (simp add: quantum_size_def)
  ultimately show ?case
    using 6 b32_group [of "quint5 a b c d e"] by simp
next
  case (2 a)
  then show ?case
    using b32_tail_bytes [where n = 2 and a = a and b = 0 and c = 0 and d = 0 and e = 0]
    by (simp add: quantum_size_def quint5_def)
next
  case (3 a b)
  then show ?case
    using b32_tail_bytes [where n = 4 and a = a and b = b and c = 0 and d = 0 and e = 0]
    by (simp add: quantum_size_def quint5_def)
next
  case (4 a b c)
  then show ?case
    using b32_tail_bytes [where n = 5 and a = a and b = b and c = c and d = 0 and e = 0]
    by (simp add: quantum_size_def quint5_def)
next
  case (5 a b c d)
  then show ?case
    using b32_tail_bytes [where n = 7 and a = a and b = b and c = c and d = d and e = 0]
    by (simp add: quantum_size_def quint5_def)
qed simp

lemma b32_Encode_chars:
  "list_all (\<lambda>c. 32 < byte_of c \<and> byte_of c < 128 \<and> \<not> is_lower c) (b32_Encode s)"
proof -
  have "\<forall>v \<in> set (quintets (map byte_of s)). v < (32 :: nat)" by (rule quintets_bound) auto
  then show ?thesis using alphabet_plain by (auto simp: b32_Encode_def list_all_iff)
qed

lemma b32_Decode_Encode: "b32_Decode None (b32_Encode s) = Some s"
proof -
  have "filter (\<lambda>c. c \<noteq> CHR 0x0A \<and> c \<noteq> CHR 0x0D) (b32_Encode s) = b32_Encode s"
    using b32_Encode_chars [of s] by (auto simp: filter_id_conv list_all_iff)
  moreover have "b32_loop None (b32_Encode s) = Some (map char_of (map byte_of s :: nat list))"
    unfolding b32_Encode_def by (rule b32_loop_quintets) auto
  ultimately show ?thesis by (simp add: b32_Decode_def comp_def)
qed

text \<open>A secret handed out by the server decodes to the bytes it was made from, also when it is typed
  with surrounding spaces.\<close>

lemma decode_generated_secret: "decode_secret cm (b32_Encode b) = Some b"
proof -
  have c: "list_all (\<lambda>c. byte_of c < 128 \<and> \<not> is_lower c) (b32_Encode b)"
    using b32_Encode_chars [of b] by (auto simp: list_all_iff)
  then have "runes (b32_Encode b) = map byte_of (b32_Encode b)"
    by (intro runes_all_ascii) (auto simp: list_all_iff)
  then have "list_all (\<lambda>r. \<not> IsSpace r) (runes (b32_Encode b))"
    using b32_Encode_chars [of b] by (auto simp: list_all_iff IsSpace_def between_def)
  then have "TrimSpace (b32_Encode b) = b32_Encode b" by (rule TrimSpace_id)
  then show ?thesis using ToUpper_ascii [OF c] by (simp add: decode_secret_def b32_Decode_Encode)
qed

section \<open>The validation window\<close>

text \<open>What the code relies on: a SHA-1 MAC is twenty bytes long.\<close>

definition sha1_sized :: "(string \<Rightarrow> string \<Rightarrow> string) \<Rightarrow> bool" where
  "sha1_sized hmac1 \<longleftrightarrow> (\<forall>k d. length (hmac1 k d) = 20)"

lemma generateHOTP_ok:
  assumes "sha1_sized hmac1"
  obtains code where "generateHOTP hmac1 k n = Some code" "length code = 6" "list_all is_digit code"
proof -
  let ?h = "hmac1 k (PutUint64 n)"
  have len: "length ?h = 20" using assms by (simp add: sha1_sized_def)
  let ?o = "byte_of (last ?h) mod 16 :: nat"
  have "?o < 16" by simp
  then have b: "byte_at ?h (?o + i) = Some (of_nat (byte_of (?h ! (?o + i))))" if "i \<le> 3" for i
    using len that by (simp add: byte_at_def)
  have b0: "byte_at ?h ?o = Some (of_nat (byte_of (?h ! ?o)))" using b [of 0] by simp
  have "?h \<noteq> []" using len by auto
  then obtain w :: "64 word" where "generateHOTP hmac1 k n = Some (pad_dec 6 (unat (w mod 1000000)))"
    using b0 b [of 1] b [of 2] b [of 3] unfolding generateHOTP_def Let_def by simp
  moreover have "unat (w mod 1000000) < 10 ^ 6"
    using unat_mono [OF word_mod_less_divisor [of "1000000" w]] by simp
  ultimately show ?thesis
    using that [of "pad_dec 6 (unat (w mod 1000000))"] length_pad_dec [of 6] pad_dec_digits by simp
qed

definition time_step :: "instant \<Rightarrow> int" where
  "time_step t = unix_time t div 30"

lemma counter_step:
  assumes "0 \<le> unix_time t" "unix_time t < 2 ^ 63"
  shows "counter_at (NewTOTPEngine i) t = word_of_int (time_step t)"
proof -
  have "uint (word_of_int (unix_time t) :: 64 word) = unix_time t"
    using assms by (simp add: uint_word_of_int)
  then show ?thesis
    by (simp add: counter_at_def NewTOTPEngine_def word_div_def time_step_def)
qed

lemma shifted_step:
  "unix_time (t + k * (30 * second)) = unix_time t + 30 * k"
  "time_step (t + k * (30 * second)) = time_step t + k"
proof -
  have "(t + k * (30 * second)) div second = t div second + 30 * k"
    using div_mult_self1 [of second t "30 * k"] by (simp add: ac_simps)
  then show u: "unix_time (t + k * (30 * second)) = unix_time t + 30 * k" by (simp add: unix_time_def)
  show "time_step (t + k * (30 * second)) = time_step t + k"
    unfolding time_step_def u using div_mult_self1 [of 30 "unix_time t" k] by (simp add: ac_simps)
qed

definition hotp :: "(string \<Rightarrow> string \<Rightarrow> string) \<Rightarrow> string \<Rightarrow> int \<Rightarrow> string" where
  "hotp hmac1 secret n = the (generateHOTP hmac1 secret (word_of_int n))"

lemma GenerateCode_hotp:
  assumes "sha1_sized hmac1" "decode_secret cm secret = Some b"
    and "0 \<le> unix_time t" "unix_time t < 2 ^ 63"
  shows "GenerateCode cm hmac1 (NewTOTPEngine i) secret t = Some (Inr (hotp hmac1 b (time_step t)))"
proof -
  obtain code where "generateHOTP hmac1 b (word_of_int (time_step t)) = Some code"
    using assms(1) by (rule generateHOTP_ok)
  then show ?thesis
    using assms(2) counter_step [OF assms(3,4)] by (simp add: GenerateCode_def hotp_def)
qed

lemma hotp_shape: "sha1_sized hmac1 \<Longrightarrow> length (hotp hmac1 b n) = 6 \<and> list_all is_digit (hotp hmac1 b n)"
  unfolding hotp_def by (rule generateHOTP_ok [of hmac1 b "word_of_int n"]) auto

lemma ValidateCode_window:
  assumes h: "sha1_sized hmac1" and s: "decode_secret cm secret = Some b"
    and t: "30 \<le> unix_time t" "unix_time t < 2 ^ 63 - 30"
  shows "ValidateCode cm hmac1 (NewTOTPEngine i) secret code t =
    Some (Inr (\<exists>n \<in> {time_step t - 1, time_step t, time_step t + 1}. TrimSpace code = hotp hmac1 b n))"
proof -
  have step: "te_timeStep (NewTOTPEngine i) = 30 * second" "te_digits (NewTOTPEngine i) = 6"
    by (simp_all add: NewTOTPEngine_def)
  have g: "GenerateCode cm hmac1 (NewTOTPEngine i) secret (t + k * (30 * second)) =
      Some (Inr (hotp hmac1 b (time_step t + k)))" if "-1 \<le> k" "k \<le> 1" for k
  proof -
    have "0 \<le> unix_time (t + k * (30 * second))" "unix_time (t + k * (30 * second)) < 2 ^ 63"
      unfolding shifted_step(1) using t that by simp_all
    from GenerateCode_hotp [OF h s this] show ?thesis unfolding shifted_step(2) .
  qed
  have l: "length (hotp hmac1 b n) = 6" for n using hotp_shape [OF h] by simp
  show ?thesis
  proof (cases "length (TrimSpace code) = 6")
    case False
    then show ?thesis using l by (auto simp: ValidateCode_def step)
  next
    case True
    have "try_offsets cm hmac1 (NewTOTPEngine i) secret (TrimSpace code) t [0, -1, 1] =
        Some (Inr (\<exists>n \<in> {time_step t - 1, time_step t, time_step t + 1}. TrimSpace code = hotp hmac1 b n))"
      using g [of 0] g [of "-1"] g [of 1] by (simp add: step)
    then show ?thesis using True unfolding ValidateCode_def Let_def step by simp
  qed
qed

section \<open>Recovery codes are accepted and spent\<close>

lemma index_in_iff: "index_in x xs = Some i \<longleftrightarrow> i < length xs \<and> xs ! i = x \<and> (\<forall>j < i. xs ! j \<noteq> x)"
proof (induction xs arbitrary: i)
  case (Cons y ys)
  show ?case
  proof (cases i)
    case 0
    then show ?thesis by auto
  next
    case (Suc k)
    then show ?thesis using Cons [of k] by (auto simp: All_less_Suc2)
  qed
qed simp

lemma index_in_None [simp]: "index_in x xs = None \<longleftrightarrow> x \<notin> set xs"
  by (induction xs) auto

definition remove_at :: "nat \<Rightarrow> 'a list \<Rightarrow> 'a list" where
  "remove_at i xs = take i xs @ drop (Suc i) xs"

lemma remove_at_distinct:
  assumes "distinct xs" "i < length xs"
  shows "set (remove_at i xs) = set xs - {xs ! i} \<and> distinct (remove_at i xs)
    \<and> length (remove_at i xs) = length xs - 1"
proof -
  have xs: "xs = take i xs @ xs ! i # drop (Suc i) xs" using assms(2) by (rule id_take_nth_drop)
  then have "distinct (take i xs @ xs ! i # drop (Suc i) xs)" "set xs = set (take i xs) \<union> {xs ! i} \<union> set (drop (Suc i) xs)"
    using assms(1) by (metis, metis insert_is_Un set_append list.simps(15) Un_assoc)
  then show ?thesis using assms(2) by (auto simp: remove_at_def)
qed

lemma recovery_loop_hashes:
  "recovery_loop sha256 rs = Inr (codes, hashes) \<Longrightarrow>
     length codes = length rs \<and> hashes = map (sha256_hex sha256) codes
     \<and> (\<forall>c \<in> set codes. \<exists>b. Inr b \<in> set rs \<and> c = recovery_code b)"
proof (induction rs arbitrary: codes hashes)
  case (Cons r rs)
  then obtain b cs hs where "r = Inr b" "recovery_loop sha256 rs = Inr (cs, hs)"
    "codes = recovery_code b # cs" "hashes = sha256_hex sha256 (recovery_code b) # hs"
    by (auto split: sum.splits)
  with Cons.IH [of cs hs] show ?case by auto
qed simp

lemma charset_plain:
  "c \<in> set recovery_charset \<Longrightarrow> 32 < byte_of c \<and> byte_of c < 128 \<and> \<not> is_lower c"
  by (auto simp: recovery_charset_def is_lower_def between_def)

lemma recovery_code_normal:
  "TrimSpace (ToUpper cm (recovery_code b)) = recovery_code b"
proof -
  have "recovery_charset ! (byte_of c mod length recovery_charset) \<in> set recovery_charset" for c
    by (rule nth_mem) (simp add: recovery_charset_def)
  then have "set (recovery_code b) \<subseteq> insert CHR ''-'' (set recovery_charset)"
    by (auto simp: recovery_code_def Let_def dest!: in_set_takeD in_set_dropD)
  then have c: "list_all (\<lambda>c. 32 < byte_of c \<and> byte_of c < 128 \<and> \<not> is_lower c) (recovery_code b)"
    using charset_plain by (fastforce simp: list_all_iff is_lower_def between_def)
  then have "ToUpper cm (recovery_code b) = recovery_code b"
    by (intro ToUpper_ascii) (auto simp: list_all_iff)
  moreover have "runes (recovery_code b) = map byte_of (recovery_code b)"
    using c by (intro runes_all_ascii) (auto simp: list_all_iff)
  then have "TrimSpace (recovery_code b) = recovery_code b"
    using c by (intro TrimSpace_id) (auto simp: list_all_iff IsSpace_def between_def)
  ultimately show ?thesis by simp
qed

lemma recovery_codes_work:
  assumes "GenerateRecoveryCodes sha256 rands = Inr (codes, hashes)" "c \<in> set codes"
  shows "VerifyRecoveryCode cm sha256 c hashes \<noteq> None"
  using recovery_loop_hashes [OF assms(1) [unfolded GenerateRecoveryCodes_def]] assms(2) recovery_code_normal
  by (auto simp: VerifyRecoveryCode_def)

lemma recovery_code_spent:
  assumes "VerifyRecoveryCode cm sha256 c hashes = Some i" "distinct hashes"
  shows "VerifyRecoveryCode cm sha256 c (remove_at i hashes) = None"
  using assms remove_at_distinct [OF assms(2), of i]
  by (auto simp: VerifyRecoveryCode_def index_in_iff)

lemma Decrypt_Encrypt:
  assumes "\<And>k n p. ad_open A k n (ad_seal A k n p) = Some p" "length nonce = gcm_nonceSize"
    and "EncryptSecret A sha256 (Inr nonce) plaintext key = Inr c"
  shows "DecryptSecret A sha256 c key = Inr plaintext"
  using assms by (auto simp: EncryptSecret_def DecryptSecret_def)

section \<open>The property\<close>


definition toy_hmac1 :: "string \<Rightarrow> string \<Rightarrow> string" where
  "toy_hmac1 k d = replicate 12 CHR ''A'' @ take 8 (d @ ''12345678'')"


end
