(* ===== verification/Auth_Handlers.thy ===== *)
theory Auth_Handlers
  imports Postgres_Accounts Auth_Tokens Auth_Totp
begin

text \<open>
  The authentication endpoints: \<open>internal/transport/http/auth_handlers.go\<close>, over the PostgreSQL
  repositories and the token signers.

  A handler maps the decoded request body (\<open>None\<close> when \<open>json.Decode\<close> fails) and the database to the
  response and the database after it, also when it fails half way.  A \<open>request\<close> carries what the
  handler reads from its surroundings: the clock, the answers of the rate limiters, the identifiers
  \<open>idGen.NewID\<close> returns in call order and the bytes \<open>crypto/rand\<close> delivers in call order.  Using a
  \<open>nil\<close> result of a constructor whose error was dropped is a panic, which the recovery layer turns
  into an error response: \<open>Panicked\<close>.
\<close>

section \<open>Surroundings\<close>

record PasswordHasher =
  ph_HashPassword :: "string result \<Rightarrow> string \<Rightarrow> string result"
  ph_VerifyPassword :: "string \<Rightarrow> string \<Rightarrow> bool result"

record auth_env =
  ae_cm :: "rune \<Rightarrow> rune"
  ae_sql_lower :: "string \<Rightarrow> string"
  ae_mac :: mac
  ae_signer :: JWTSigner
  ae_grants :: "GrantSigner option"
  ae_sha256 :: "string \<Rightarrow> string"
  ae_hmac1 :: "string \<Rightarrow> string \<Rightarrow> string"
  ae_aead :: aead
  ae_engine :: TOTPEngine
  ae_masterKey :: string
  ae_hasher :: PasswordHasher
  ae_settings :: bool

record request =
  rq_now :: instant
  rq_ip_allowed :: bool
  rq_user_allowed :: bool
  rq_ids :: "nat \<Rightarrow> string"
  rq_rand :: "nat \<Rightarrow> string result"
  rq_caller :: "(UserID \<times> string) option"

datatype auth_response =
    Failed category string
  | Refused go_error
  | TooMany string
  | Tokens "User option" string string
  | NeedsMFA string
  | TotpSecret string string "string list"
  | Flag string bool
  | Message string
  | NoContent
  | Panicked

definition hours :: "int \<Rightarrow> duration" where
  "hours n = n * 60 * minute"

section \<open>Shared steps\<close>

definition generateRandomToken :: "(string \<Rightarrow> string) \<Rightarrow> string result \<Rightarrow> (string \<times> string) result" where
  "generateRandomToken sha256 rand =
     (case rand of
        Inl err \<Rightarrow> Inl err
      | Inr b \<Rightarrow> (let raw = hex_EncodeToString b in Inr (raw, sha256_hex sha256 raw)))"

text \<open>\<open>raw, hash, _ := generateRandomToken(32)\<close> followed by a constructor whose error is dropped.\<close>

definition mint_refresh ::
  "(string \<Rightarrow> string) \<Rightarrow> string result \<Rightarrow> RefreshTokenID \<Rightarrow> UserID \<Rightarrow> instant \<Rightarrow> instant \<Rightarrow> (string \<times> RefreshToken) option" where
  "mint_refresh sha256 rand i userID expiresAt now =
     (let (raw, hash) = (case generateRandomToken sha256 rand of Inl _ \<Rightarrow> ([], []) | Inr p \<Rightarrow> p) in
      case NewRefreshToken i userID hash expiresAt now of Inl _ \<Rightarrow> None | Inr t \<Rightarrow> Some (raw, t))"

text \<open>The libraries of the token: the user's memberships, or the default library.\<close>

definition library_claims :: "database \<Rightarrow> UserID \<Rightarrow> LibraryID list" where
  "library_claims db userID =
     (let libIDs = (case membership_FindByUser db userID of Inl _ \<Rightarrow> [] | Inr mems \<Rightarrow> map mm_libraryID mems) in
      if libIDs = [] then [DefaultLibraryID] else libIDs)"

definition refresh_ttl :: "auth_env \<Rightarrow> database \<Rightarrow> duration" where
  "refresh_ttl E db =
     (if \<not> ae_settings E then hours (30 * 24)
      else (case settings_Get db of
              Inl _ \<Rightarrow> hours (30 * 24)
            | Inr s \<Rightarrow>
                (if 1 \<le> nw_remember_device_days s \<and> nw_remember_device_days s \<le> 90
                 then hours (nw_remember_device_days s * 24) else hours (30 * 24))))"

definition access_claims :: "User \<Rightarrow> LibraryID list \<Rightarrow> string \<Rightarrow> instant \<Rightarrow> Claims" where
  "access_claims u libIDs jti now =
     \<lparr> cl_Subject = us_id u, cl_Username = us_username u, cl_Role = us_role u, cl_Libraries = libIDs,
       cl_JTI = jti, cl_IssuedAt = unix now, cl_ExpiresAt = unix (now + 15 * minute), cl_Issuer = [],
       cl_Type = TokenTypeAccess \<rparr>"

definition access_token :: "auth_env \<Rightarrow> User \<Rightarrow> LibraryID list \<Rightarrow> string \<Rightarrow> instant \<Rightarrow> string" where
  "access_token E u libIDs jti now = jwt_Sign (ae_mac E) (ae_signer E) (access_claims u libIDs jti now)"

definition applyEnrolmentGrant :: "auth_env \<Rightarrow> string \<Rightarrow> UserID \<Rightarrow> instant \<Rightarrow> database \<Rightarrow> database" where
  "applyEnrolmentGrant E grant userID now db =
     (case ae_grants E of
        None \<Rightarrow> db
      | Some g \<Rightarrow>
         (if grant = [] then db
          else (case enrolment_Verify (ae_mac E) g grant now of
             Inl _ \<Rightarrow> db
           | Inr claims \<Rightarrow>
              (case grant_Claim (ec_JTI claims) now db of
                 (Inl _, db1) \<Rightarrow> db1
               | (Inr claimed, db1) \<Rightarrow>
                   (if \<not> claimed then db1
                    else snd (AssignOwnerByPairingSession (ec_SessionID claims) userID db1))))))"

section \<open>Setup\<close>

definition SetupStatusHandler :: "database \<Rightarrow> auth_response" where
  "SetupStatusHandler db =
     (case CountUsers db of
        Inl err \<Rightarrow> Failed (CategoryOf err) ''failed to check setup status''
      | Inr n \<Rightarrow> Flag ''isSetup'' (n > 0))"

record SetupRequest =
  sq_Username :: string
  sq_Email :: string
  sq_Password :: string

definition password_in_bounds :: "string \<Rightarrow> bool" where
  "password_in_bounds p \<longleftrightarrow> 8 \<le> length p \<and> length p \<le> 128"

text \<open>The part of \<open>SetupHandler\<close> after both writes: membership, refresh token and access token.\<close>

definition setup_finish :: "auth_env \<Rightarrow> request \<Rightarrow> User \<Rightarrow> database \<Rightarrow> auth_response \<times> database" where
  "setup_finish E q user db =
     (case NewLibraryMembership (rq_ids q 1) DefaultLibraryID (us_id user) RoleAdmin (rq_now q) of
        Inl _ \<Rightarrow> (Panicked, db)
      | Inr mem \<Rightarrow>
         (case membership_Save mem db of (_, db1) \<Rightarrow>
           (case mint_refresh (ae_sha256 E) (rq_rand q 1) (rq_ids q 2) (us_id user)
                   (rq_now q + hours (30 * 24)) (rq_now q) of
              None \<Rightarrow> (Panicked, db1)
            | Some (rawRT, rt) \<Rightarrow>
               (case refresh_Save rt db1 of (_, db2) \<Rightarrow>
                  (Tokens (Some user) (access_token E user [DefaultLibraryID] (rq_ids q 3) (rq_now q)) rawRT,
                   db2)))))"

definition SetupHandler :: "auth_env \<Rightarrow> request \<Rightarrow> SetupRequest option \<Rightarrow> database \<Rightarrow> auth_response \<times> database" where
  "SetupHandler E q body db =
     (case CountUsers db of
        Inl err \<Rightarrow> (Failed (CategoryOf err) ''setup check failed'', db)
      | Inr n \<Rightarrow>
         (if n > 0 then (Failed Conflict ''system already initialized'', db)
          else (case body of
             None \<Rightarrow> (Failed InvalidInput ''malformed request payload'', db)
           | Some req \<Rightarrow>
              (if \<not> password_in_bounds (sq_Password req) then
                 (Failed InvalidInput ''password must be between 8 and 128 characters'', db)
               else (case NewUser (ae_cm E) (rq_ids q 0) (sq_Username req) (sq_Email req) RoleAdmin (rq_now q) (rq_now q) of
                  Inl err \<Rightarrow> (Refused err, db)
                | Inr user \<Rightarrow>
                   (case ph_HashPassword (ae_hasher E) (rq_rand q 0) (sq_Password req) of
                      Inl _ \<Rightarrow> (Failed Internal ''failed to hash password'', db)
                    | Inr pwdHash \<Rightarrow>
                       (case NewUserCredentials (us_id user) pwdHash (rq_now q) of
                          Inl err \<Rightarrow> (Refused err, db)
                        | Inr creds \<Rightarrow>
                           (case user_Save user db of
                              (Some err, db1) \<Rightarrow> (Failed (CategoryOf err) ''failed to create user'', db1)
                            | (None, db1) \<Rightarrow>
                               (case credential_Save creds db1 of
                                  (Some err, db2) \<Rightarrow> (Failed (CategoryOf err) ''failed to save credentials'', db2)
                                | (None, db2) \<Rightarrow> setup_finish E q user db2)))))))))"

section \<open>Login\<close>

record LoginRequest =
  lr_EmailOrUsername :: string
  lr_Password :: string
  lr_EnrolmentGrant :: string

definition find_account :: "auth_env \<Rightarrow> database \<Rightarrow> string \<Rightarrow> User result" where
  "find_account E db name =
     (case user_FindByEmail (ae_cm E) (ae_sql_lower E) db name of
        Inr u \<Rightarrow> Inr u
      | Inl _ \<Rightarrow> user_FindByUsername (ae_cm E) (ae_sql_lower E) db name)"

text \<open>The part of \<open>LoginHandler\<close> that runs once no second factor is due.\<close>

definition login_finish :: "auth_env \<Rightarrow> request \<Rightarrow> string \<Rightarrow> User \<Rightarrow> database \<Rightarrow> auth_response \<times> database" where
  "login_finish E q grant user db =
     (let db1 = applyEnrolmentGrant E grant (us_id user) (rq_now q) db;
          libIDs = library_claims db1 (us_id user) in
      case mint_refresh (ae_sha256 E) (rq_rand q 0) (rq_ids q 0) (us_id user)
             (rq_now q + refresh_ttl E db1) (rq_now q) of
        None \<Rightarrow> (Panicked, db1)
      | Some (rawRT, rt) \<Rightarrow>
         (case refresh_Save rt db1 of (_, db2) \<Rightarrow>
            (Tokens (Some user) (access_token E user libIDs (rq_ids q 1) (rq_now q)) rawRT, db2)))"

text \<open>
  The query for the second factor's settings is an argument: the handler ignores its error and goes on
  as for an account without them, so it may matter that this one query fails.
\<close>

definition login_reading ::
  "(database \<Rightarrow> UserID \<Rightarrow> TOTPSettings result) \<Rightarrow> auth_env \<Rightarrow> request \<Rightarrow> LoginRequest option \<Rightarrow> database
   \<Rightarrow> auth_response \<times> database" where
  "login_reading findMFA E q body db =
     (if \<not> rq_ip_allowed q then (TooMany ''too many login attempts; wait before trying again'', db)
      else (case body of
        None \<Rightarrow> (Failed InvalidInput ''malformed request'', db)
      | Some req \<Rightarrow>
         (case find_account E db (lr_EmailOrUsername req) of
            Inl _ \<Rightarrow> (Failed Unauthorized ''invalid credentials'', db)
          | Inr user \<Rightarrow>
             (case credential_FindByUserID db (us_id user) of
                Inl _ \<Rightarrow> (Failed Unauthorized ''invalid credentials'', db)
              | Inr creds \<Rightarrow>
                 (if ph_VerifyPassword (ae_hasher E) (lr_Password req) (uc_passwordHash creds) \<noteq> Inr True then
                    (Failed Unauthorized ''invalid credentials'', db)
                  else if (case findMFA db (us_id user) of Inl _ \<Rightarrow> False | Inr totp \<Rightarrow> ts_enabled totp) then
                    (case SignMFATicket (ae_mac E) (ae_signer E) (rq_rand q 0) (rq_now q) (us_id user)
                            (rq_now q + 5 * minute) of
                       Inl _ \<Rightarrow> (Failed Internal ''failed to issue MFA ticket'', db)
                     | Inr ticket \<Rightarrow> (NeedsMFA ticket, db))
                  else login_finish E q (lr_EnrolmentGrant req) user db)))))"

definition LoginHandler :: "auth_env \<Rightarrow> request \<Rightarrow> LoginRequest option \<Rightarrow> database \<Rightarrow> auth_response \<times> database" where
  "LoginHandler = login_reading mfa_FindByUserID"

section \<open>Refresh and logout\<close>

definition token_hash :: "auth_env \<Rightarrow> string \<Rightarrow> string" where
  "token_hash E t = sha256_hex (ae_sha256 E) t"

definition RefreshHandler :: "auth_env \<Rightarrow> request \<Rightarrow> string option \<Rightarrow> database \<Rightarrow> auth_response \<times> database" where
  "RefreshHandler E q body db =
     (if \<not> rq_ip_allowed q then (TooMany ''rate limit exceeded'', db)
      else if body = None \<or> body = Some [] then (Failed Unauthorized ''invalid refresh token'', db)
      else (case refresh_FindByTokenHash db (token_hash E (the body)) of
        Inl _ \<Rightarrow> (Failed Unauthorized ''invalid or expired refresh token'', db)
      | Inr rt \<Rightarrow>
         (if \<not> IsActive rt (rq_now q) then (Failed Unauthorized ''invalid or expired refresh token'', db)
          else (case user_FindByID (ae_cm E) db (rt_userID rt) of
             Inl _ \<Rightarrow> (Failed Unauthorized ''user no longer exists'', db)
           | Inr user \<Rightarrow>
              (case refresh_Save (token_Revoke (rq_now q) rt) db of (_, db1) \<Rightarrow>
                (case mint_refresh (ae_sha256 E) (rq_rand q 0) (rq_ids q 0) (us_id user)
                        (rq_now q + refresh_ttl E db1) (rq_now q) of
                   None \<Rightarrow> (Panicked, db1)
                 | Some (rawNewRT, newRT) \<Rightarrow>
                    (case refresh_Save newRT db1 of (_, db2) \<Rightarrow>
                       (Tokens None (access_token E user (library_claims db2 (us_id user)) (rq_ids q 1) (rq_now q))
                          rawNewRT, db2))))))))"

definition LogoutHandler :: "auth_env \<Rightarrow> request \<Rightarrow> string option \<Rightarrow> database \<Rightarrow> auth_response \<times> database" where
  "LogoutHandler E q body db =
     (case body of
        None \<Rightarrow> (NoContent, db)
      | Some t \<Rightarrow>
         (if t = [] then (NoContent, db)
          else (case refresh_FindByTokenHash db (token_hash E t) of
                  Inl _ \<Rightarrow> (NoContent, db)
                | Inr rt \<Rightarrow> (NoContent, snd (refresh_Save (token_Revoke (rq_now q) rt) db)))))"

section \<open>Password reset\<close>

text \<open>The body's error is dropped, so a malformed one is an empty address.\<close>

definition PasswordResetRequestHandler ::
  "auth_env \<Rightarrow> request \<Rightarrow> string option \<Rightarrow> database \<Rightarrow> auth_response \<times> database" where
  "PasswordResetRequestHandler E q body db =
     (let answer = Message ''If the account exists, a reset link has been dispatched'';
          email = (case body of None \<Rightarrow> [] | Some e \<Rightarrow> e) in
      if \<not> rq_ip_allowed q then (TooMany ''rate limit exceeded'', db)
      else if email = [] then (answer, db)
      else (case user_FindByEmail (ae_cm E) (ae_sql_lower E) db email of
              Inl _ \<Rightarrow> (answer, db)
            | Inr user \<Rightarrow>
               (let hash = (case generateRandomToken (ae_sha256 E) (rq_rand q 0) of Inl _ \<Rightarrow> [] | Inr (_, h) \<Rightarrow> h) in
                case NewPasswordResetToken (rq_ids q 0) (us_id user) hash (rq_now q + hours 1) (rq_now q) of
                  Inl _ \<Rightarrow> (Panicked, db)
                | Inr prt \<Rightarrow> (answer, snd (reset_Save prt db)))))"

record ResetRequest =
  rr_Token :: string
  rr_NewPassword :: string

definition PasswordResetConfirmHandler ::
  "auth_env \<Rightarrow> request \<Rightarrow> ResetRequest option \<Rightarrow> database \<Rightarrow> auth_response \<times> database" where
  "PasswordResetConfirmHandler E q body db =
     (if \<not> rq_ip_allowed q then (TooMany ''rate limit exceeded'', db)
      else (case body of
        None \<Rightarrow> (Failed InvalidInput ''invalid request'', db)
      | Some req \<Rightarrow>
         (if rr_Token req = [] then (Failed InvalidInput ''invalid request'', db)
          else if \<not> password_in_bounds (rr_NewPassword req) then
            (Failed InvalidInput ''password must be between 8 and 128 characters'', db)
          else (case reset_FindByTokenHash db (token_hash E (rr_Token req)) of
             Inl _ \<Rightarrow> (Failed Unauthorized ''invalid or expired reset token'', db)
           | Inr prt \<Rightarrow>
              (if \<not> reset_IsValid prt (rq_now q) then (Failed Unauthorized ''invalid or expired reset token'', db)
               else (case ph_HashPassword (ae_hasher E) (rq_rand q 0) (rr_NewPassword req) of
                  Inl _ \<Rightarrow> (Failed Internal ''failed to hash password'', db)
                | Inr newHash \<Rightarrow>
                   (case NewUserCredentials (pt_userID prt) newHash (rq_now q) of
                      Inl _ \<Rightarrow> (Panicked, db)
                    | Inr creds \<Rightarrow>
                       (case credential_Save creds db of
                          (Some _, db1) \<Rightarrow> (Failed Internal ''failed to save credentials'', db1)
                        | (None, db1) \<Rightarrow>
                           (case reset_Save (reset_MarkUsed (rq_now q) prt) db1 of (_, db2) \<Rightarrow>
                              (Flag ''success'' True, snd (RevokeAllForUser (pt_userID prt) (rq_now q) db2)))))))))))"

section \<open>The second factor\<close>

text \<open>\<open>rq_caller\<close> is the authenticated user the middleware stored in the request's context.\<close>

definition password_confirmed :: "auth_env \<Rightarrow> database \<Rightarrow> UserID \<Rightarrow> string \<Rightarrow> string option" where
  "password_confirmed E db userID password =
     (case credential_FindByUserID db userID of
        Inl _ \<Rightarrow> Some ''credentials not found''
      | Inr creds \<Rightarrow>
          (if ph_VerifyPassword (ae_hasher E) password (uc_passwordHash creds) \<noteq> Inr True
           then Some ''invalid password'' else None))"

definition TOTPSetupHandler :: "auth_env \<Rightarrow> request \<Rightarrow> string option \<Rightarrow> database \<Rightarrow> auth_response \<times> database" where
  "TOTPSetupHandler E q body db =
     (case rq_caller q of
        None \<Rightarrow> (Failed Unauthorized ''unauthorized'', db)
      | Some (userID, username) \<Rightarrow>
         (if body = None \<or> body = Some [] then
            (Failed InvalidInput ''password is required to change 2FA settings'', db)
          else (case password_confirmed E db userID (the body) of
             Some msg \<Rightarrow> (Failed Unauthorized msg, db)
           | None \<Rightarrow>
              (case GenerateSecret (rq_rand q 0) of
                 Inl _ \<Rightarrow> (Failed Internal ''failed to generate TOTP secret'', db)
               | Inr secret \<Rightarrow>
                  (case GenerateRecoveryCodes (ae_sha256 E) (map (\<lambda>i. rq_rand q (Suc i)) [0..<8]) of
                     Inl _ \<Rightarrow> (Failed Internal ''failed to generate recovery codes'', db)
                   | Inr (codes, hashes) \<Rightarrow>
                      (case EncryptSecret (ae_aead E) (ae_sha256 E) (rq_rand q 9) secret (ae_masterKey E) of
                         Inl _ \<Rightarrow> (Failed Internal ''failed to encrypt secret'', db)
                       | Inr encryptedSecret \<Rightarrow>
                          (case NewTOTPSettings userID encryptedSecret hashes False None (rq_now q) of
                             Inl err \<Rightarrow> (Refused err, db)
                           | Inr settings \<Rightarrow>
                              (case mfa_Save settings db of
                                 (Some _, db1) \<Rightarrow> (Failed Internal ''failed to save MFA settings'', db1)
                               | (None, db1) \<Rightarrow>
                                   (TotpSecret secret (KeyURI (ae_cm E) (ae_engine E) username secret) codes, db1)))))))))"

definition TOTPConfirmHandler :: "auth_env \<Rightarrow> request \<Rightarrow> string option \<Rightarrow> database \<Rightarrow> auth_response \<times> database" where
  "TOTPConfirmHandler E q body db =
     (case rq_caller q of
        None \<Rightarrow> (Failed Unauthorized ''unauthorized'', db)
      | Some (userID, username) \<Rightarrow>
         (if body = None \<or> body = Some [] then (Failed InvalidInput ''missing code'', db)
          else (case mfa_FindByUserID db userID of
             Inl _ \<Rightarrow> (Failed NotFound ''MFA setup not initiated'', db)
           | Inr settings \<Rightarrow>
              (case DecryptSecret (ae_aead E) (ae_sha256 E) (ts_encryptedSecret settings) (ae_masterKey E) of
                 Inl _ \<Rightarrow> (Failed Internal ''failed to decrypt secret'', db)
               | Inr secretBytes \<Rightarrow>
                  (case ValidateCode (ae_cm E) (ae_hmac1 E) (ae_engine E) secretBytes (the body) (rq_now q) of
                     None \<Rightarrow> (Panicked, db)
                   | Some valid \<Rightarrow>
                      (if valid \<noteq> Inr True then (Failed InvalidInput ''invalid TOTP verification code'', db)
                       else (case mfa_Save (totp_Confirm (rq_now q) settings) db of
                               (Some _, db1) \<Rightarrow> (Failed Internal ''failed to activate MFA'', db1)
                             | (None, db1) \<Rightarrow> (Flag ''enabled'' True, db1))))))))"

record VerifyRequest =
  vr_MFATicket :: string
  vr_Code :: string
  vr_RecoveryCode :: string
  vr_EnrolmentGrant :: string

text \<open>
  The check of the code or recovery code: whether it is verified, and the database after the used
  recovery code has been removed.  \<open>None\<close> is a panic.
\<close>

definition second_factor ::
  "auth_env \<Rightarrow> request \<Rightarrow> VerifyRequest \<Rightarrow> UserID \<Rightarrow> TOTPSettings \<Rightarrow> database \<Rightarrow> (bool \<times> database) option" where
  "second_factor E q req userID settings db =
     (if vr_Code req \<noteq> [] then
        (case DecryptSecret (ae_aead E) (ae_sha256 E) (ts_encryptedSecret settings) (ae_masterKey E) of
           Inl _ \<Rightarrow> Some (False, db)
         | Inr secretBytes \<Rightarrow>
            (case ValidateCode (ae_cm E) (ae_hmac1 E) (ae_engine E) secretBytes (vr_Code req) (rq_now q) of
               None \<Rightarrow> None
             | Some valid \<Rightarrow> Some (valid = Inr True, db)))
      else if vr_RecoveryCode req \<noteq> [] then
        (case VerifyRecoveryCode (ae_cm E) (ae_sha256 E) (vr_RecoveryCode req) (ts_recoveryCodeHashes settings) of
           None \<Rightarrow> Some (False, db)
         | Some i \<Rightarrow>
            (case NewTOTPSettings userID (ts_encryptedSecret settings) (remove_at i (ts_recoveryCodeHashes settings))
                    True (ts_confirmedAt settings) (ts_createdAt settings) of
               Inl _ \<Rightarrow> None
             | Inr newSettings \<Rightarrow> Some (True, snd (mfa_Save newSettings db))))
      else Some (False, db))"

definition verify_finish :: "auth_env \<Rightarrow> request \<Rightarrow> string \<Rightarrow> User \<Rightarrow> database \<Rightarrow> auth_response \<times> database" where
  "verify_finish E q grant user db =
     (let db1 = applyEnrolmentGrant E grant (us_id user) (rq_now q) db;
          libIDs = library_claims db1 (us_id user) in
      case mint_refresh (ae_sha256 E) (rq_rand q 0) (rq_ids q 0) (us_id user)
             (rq_now q + hours (30 * 24)) (rq_now q) of
        None \<Rightarrow> (Panicked, db1)
      | Some (rawRT, rt) \<Rightarrow>
         (case refresh_Save rt db1 of (_, db2) \<Rightarrow>
            (Tokens (Some user) (access_token E user libIDs (rq_ids q 1) (rq_now q)) rawRT, db2)))"

definition verify_claimed ::
  "auth_env \<Rightarrow> request \<Rightarrow> VerifyRequest \<Rightarrow> UserID \<Rightarrow> database \<Rightarrow> auth_response \<times> database" where
  "verify_claimed E q req userID db =
     (if \<not> rq_user_allowed q then
        (TooMany ''too many MFA attempts for this account; wait before trying again'', db)
      else (case mfa_FindByUserID db userID of
        Inl _ \<Rightarrow> (Failed Unauthorized ''MFA not enabled for user'', db)
      | Inr settings \<Rightarrow>
         (if \<not> ts_enabled settings then (Failed Unauthorized ''MFA not enabled for user'', db)
          else (case user_FindByID (ae_cm E) db userID of
             Inl _ \<Rightarrow> (Failed Unauthorized ''user not found'', db)
           | Inr user \<Rightarrow>
              (case second_factor E q req userID settings db of
                 None \<Rightarrow> (Panicked, db)
               | Some (verified, db1) \<Rightarrow>
                   (if \<not> verified then (Failed Unauthorized ''invalid MFA code or recovery code'', db1)
                    else verify_finish E q (vr_EnrolmentGrant req) user db1))))))"

definition TOTPVerifyHandler :: "auth_env \<Rightarrow> request \<Rightarrow> VerifyRequest option \<Rightarrow> database \<Rightarrow> auth_response \<times> database" where
  "TOTPVerifyHandler E q body db =
     (if \<not> rq_ip_allowed q then (TooMany ''too many MFA attempts; wait before trying again'', db)
      else (case body of
        None \<Rightarrow> (Failed InvalidInput ''missing MFA ticket'', db)
      | Some req \<Rightarrow>
         (if vr_MFATicket req = [] then (Failed InvalidInput ''missing MFA ticket'', db)
          else (case VerifyMFATicket (ae_mac E) (ae_signer E) (vr_MFATicket req) (rq_now q) of
             Inl _ \<Rightarrow> (Failed Unauthorized ''invalid or expired MFA ticket'', db)
           | Inr (userID, ticketJTI) \<Rightarrow>
              (if ticketJTI = [] then verify_claimed E q req userID db
               else (case ticket_Claim ticketJTI (rq_now q) db of
                  (Inl _, db1) \<Rightarrow> (Failed Unavailable ''could not verify MFA ticket, try again'', db1)
                | (Inr claimed, db1) \<Rightarrow>
                    (if \<not> claimed then
                       (Failed Unauthorized ''this MFA ticket has already been used, sign in again'', db1)
                     else verify_claimed E q req userID db1)))))))"

definition TOTPDisableHandler :: "auth_env \<Rightarrow> request \<Rightarrow> string option \<Rightarrow> database \<Rightarrow> auth_response \<times> database" where
  "TOTPDisableHandler E q body db =
     (case rq_caller q of
        None \<Rightarrow> (Failed Unauthorized ''unauthorized'', db)
      | Some (userID, username) \<Rightarrow>
         (if body = None \<or> body = Some [] then (Failed InvalidInput ''password required to disable 2FA'', db)
          else (case password_confirmed E db userID (the body) of
             Some msg \<Rightarrow> (Failed Unauthorized msg, db)
           | None \<Rightarrow>
              (case mfa_Delete userID db of
                 (Some _, db1) \<Rightarrow> (Failed Internal ''failed to delete MFA settings'', db1)
               | (None, db1) \<Rightarrow> (Flag ''disabled'' True, db1)))))"

end
