(* ===== verification/Auth_Safety.thy ===== *)
theory Auth_Safety
  imports Auth_Handlers
begin

text \<open>
  What the authentication endpoints guarantee together: no tokens without the factors an account
  asks for, tickets and recovery codes that work once, refresh tokens that rotate and stay dead once
  revoked, and password resets that end every session.
\<close>

section \<open>What the statements leave alone\<close>

lemma snd_exec_one_keeps: "unlinked f \<Longrightarrow> keeps f s \<Longrightarrow> f (snd (exec_one s db)) = f db"
  unfolding exec_one_def by (rule exec_all_keeps) auto

lemma claim_keeps: "unlinked f \<Longrightarrow> keeps f s \<Longrightarrow> f (snd (claim s db)) = f db"
  unfolding claim_def using Exec_keeps [of f s db] by (auto split: prod.splits sum.splits)

lemma exec_found_keeps: "unlinked f \<Longrightarrow> keeps f s \<Longrightarrow> f (snd (exec_found m s db)) = f db"
  unfolding exec_found_def using Exec_keeps [of f s db] by (auto split: prod.splits sum.splits if_splits)

lemma unlinked_account_tables [simp]:
  "unlinked user_refresh_tokens" "unlinked mfa_totp_settings" "unlinked users" "unlinked password_resets"
  "unlinked mfa_ticket_jtis" "unlinked user_credentials" "unlinked library_memberships"
  by (simp_all add: unlinked_def)

lemma other_writes_keep_tokens [simp]:
  "user_refresh_tokens (snd (user_Save u db)) = user_refresh_tokens db"
  "user_refresh_tokens (snd (credential_Save c db)) = user_refresh_tokens db"
  "user_refresh_tokens (snd (membership_Save m db)) = user_refresh_tokens db"
  "user_refresh_tokens (snd (mfa_Save s db)) = user_refresh_tokens db"
  "user_refresh_tokens (snd (mfa_Delete i db)) = user_refresh_tokens db"
  "user_refresh_tokens (snd (reset_Save p db)) = user_refresh_tokens db"
  "user_refresh_tokens (snd (ticket_Claim j n db)) = user_refresh_tokens db"
  "user_refresh_tokens (snd (grant_Claim j n db)) = user_refresh_tokens db"
  "user_refresh_tokens (snd (AssignOwnerByPairingSession sid i db)) = user_refresh_tokens db"
  unfolding user_Save_def credential_Save_def membership_Save_def mfa_Save_def mfa_Delete_def reset_Save_def
    ticket_Claim_def grant_Claim_def AssignOwnerByPairingSession_def
  by (auto intro!: snd_exec_one_keeps claim_keeps exec_found_keeps
      simp: keeps_def upsert_user_def upsert_credential_def upsert_membership_def upsert_mfa_def upsert_reset_def
        update_devices_def Let_def split: if_splits)

lemma grant_keeps_tokens [simp]: "user_refresh_tokens (applyEnrolmentGrant E g u n db) = user_refresh_tokens db"
proof -
  have "user_refresh_tokens db1 = user_refresh_tokens db" if "grant_Claim j n db = (r, db1)" for j r db1
    using other_writes_keep_tokens(8) [of j n db] that by simp
  then show ?thesis by (auto simp: applyEnrolmentGrant_def split: option.splits sum.splits prod.splits)
qed

section \<open>Revoked refresh tokens stay dead\<close>

definition dead :: "string \<Rightarrow> refresh_row list \<Rightarrow> bool" where
  "dead h t \<longleftrightarrow> (\<exists>r. List.find (\<lambda>r. rf_token_hash r = h) t = Some r \<and> rf_revoked_at r \<noteq> None)"

lemma find_map: "(\<And>r. P (f r) = P r) \<Longrightarrow> List.find P (map f t) = map_option f (List.find P t)"
  by (induction t) auto

lemma dead_append: "dead h t \<Longrightarrow> dead h (t @ u)"
  by (auto simp: dead_def find_append)

lemma dead_revoke:
  assumes "dead h t"
  shows "dead h (update_where P (\<lambda>r. r\<lparr>rf_revoked_at := Some v\<rparr>) t)"
proof -
  obtain r where r: "List.find (\<lambda>r. rf_token_hash r = h) t = Some r" "rf_revoked_at r \<noteq> None"
    using assms by (auto simp: dead_def)
  have "List.find (\<lambda>r. rf_token_hash r = h) (update_where P (\<lambda>r. r\<lparr>rf_revoked_at := Some v\<rparr>) t) =
      Some (if P r then r\<lparr>rf_revoked_at := Some v\<rparr> else r)"
    unfolding update_where_def by (subst find_map) (simp_all add: r(1))
  then show ?thesis using r(2) by (simp add: dead_def)
qed

lemma exec_one_cases:
  "exec_one s db = (r, db') \<Longrightarrow>
     (\<exists>d n. s db = Inr (d, n) \<and> db' = tick d \<and> r = None) \<or> (r \<noteq> None \<and> (db' = db \<or> db' = tick db))"
  by (auto simp: exec_one_def Exec_def split: if_splits sum.splits prod.splits)

lemma tick_tables [simp]:
  "user_refresh_tokens (tick db) = user_refresh_tokens db" "mfa_totp_settings (tick db) = mfa_totp_settings db"
  "users (tick db) = users db" "password_resets (tick db) = password_resets db"
  "mfa_ticket_jtis (tick db) = mfa_ticket_jtis db" "user_credentials (tick db) = user_credentials db"
  by (simp_all add: tick_def)

text \<open>Saving a token whose id is new, or saving one as revoked, revives nothing.\<close>

lemma refresh_Save_dead:
  assumes "dead h (user_refresh_tokens db)"
    and "rt_revokedAt t \<noteq> None \<or> rt_id t \<notin> rf_id ` set (user_refresh_tokens db)"
  shows "dead h (user_refresh_tokens (snd (refresh_Save t db)))"
proof -
  obtain r db' where e: "exec_one (upsert_refresh (refresh_row_of t)) db = (r, db')" by fastforce
  have "dead h (user_refresh_tokens db')"
    using exec_one_cases [OF e]
  proof
    assume "\<exists>d n. upsert_refresh (refresh_row_of t) db = Inr (d, n) \<and> db' = tick d \<and> r = None"
    then show ?thesis
      using assms dead_revoke [OF assms(1)] dead_append [OF assms(1)]
      by (auto simp: upsert_refresh_def refresh_row_of_def list_ex_iff image_iff split: if_splits)
  next
    assume "r \<noteq> None \<and> (db' = db \<or> db' = tick db)"
    then show ?thesis using assms(1) by auto
  qed
  then show ?thesis unfolding refresh_Save_def e by simp
qed

lemma RevokeAll_dead:
  assumes "dead h (user_refresh_tokens db)"
  shows "dead h (user_refresh_tokens (snd (RevokeAllForUser u n db)))"
proof -
  obtain r db' where e: "RevokeAllForUser u n db = (r, db')" by fastforce
  then show ?thesis
    using exec_one_cases [OF e [unfolded RevokeAllForUser_def]] dead_revoke [OF assms] assms
    by (auto simp: Let_def)
qed

text \<open>
  One request to one of the endpoints that touch tokens.  The identifiers the generator returns are
  not ids of stored tokens.
\<close>

definition fresh_ids :: "request \<Rightarrow> database \<Rightarrow> bool" where
  "fresh_ids q db \<longleftrightarrow> (\<forall>i. rq_ids q i \<notin> rf_id ` set (user_refresh_tokens db))"

inductive auth_step :: "auth_env \<Rightarrow> database \<Rightarrow> database \<Rightarrow> bool" for E where
  first_setup: "fresh_ids q db \<Longrightarrow> SetupHandler E q sb db = (r, db') \<Longrightarrow> auth_step E db db'"
| login: "fresh_ids q db \<Longrightarrow> login_reading findMFA E q lb db = (r, db') \<Longrightarrow> auth_step E db db'"
| refresh: "fresh_ids q db \<Longrightarrow> RefreshHandler E q b db = (r, db') \<Longrightarrow> auth_step E db db'"
| logout: "LogoutHandler E q b db = (r, db') \<Longrightarrow> auth_step E db db'"
| reset_request: "PasswordResetRequestHandler E q b db = (r, db') \<Longrightarrow> auth_step E db db'"
| reset_confirm: "PasswordResetConfirmHandler E q rb db = (r, db') \<Longrightarrow> auth_step E db db'"
| totp_setup: "TOTPSetupHandler E q b db = (r, db') \<Longrightarrow> auth_step E db db'"
| totp_confirm: "TOTPConfirmHandler E q b db = (r, db') \<Longrightarrow> auth_step E db db'"
| totp_verify: "fresh_ids q db \<Longrightarrow> TOTPVerifyHandler E q vb db = (r, db') \<Longrightarrow> auth_step E db db'"
| totp_disable: "TOTPDisableHandler E q b db = (r, db') \<Longrightarrow> auth_step E db db'"

text \<open>Sequencing: what holds of the database after a call whose error is ignored.\<close>

lemma mint_refresh_ok:
  assumes "mint_refresh sha256 rand i u e n = Some (raw, t)"
  shows "rt_id t = i \<and> rt_userID t = u \<and> rt_tokenHash t = (case rand of Inl _ \<Rightarrow> [] | Inr b \<Rightarrow> sha256_hex sha256 (hex_EncodeToString b))
    \<and> rt_expiresAt t = e \<and> rt_revokedAt t = None \<and> raw = (case rand of Inl _ \<Rightarrow> [] | Inr b \<Rightarrow> hex_EncodeToString b)"
  using assms
  by (auto simp: mint_refresh_def generateRandomToken_def NewRefreshToken_def RehydrateRefreshToken_def Let_def
      split: sum.splits if_splits)

lemma step_keeps:
  "user_Save u db = (r, d) \<Longrightarrow> user_refresh_tokens d = user_refresh_tokens db"
  "credential_Save c db = (r, d) \<Longrightarrow> user_refresh_tokens d = user_refresh_tokens db"
  "membership_Save m db = (r, d) \<Longrightarrow> user_refresh_tokens d = user_refresh_tokens db"
  "mfa_Save s db = (r, d) \<Longrightarrow> user_refresh_tokens d = user_refresh_tokens db"
  "mfa_Delete i db = (r, d) \<Longrightarrow> user_refresh_tokens d = user_refresh_tokens db"
  "reset_Save p db = (r, d) \<Longrightarrow> user_refresh_tokens d = user_refresh_tokens db"
  "ticket_Claim j n db = (b, d) \<Longrightarrow> user_refresh_tokens d = user_refresh_tokens db"
  by (metis other_writes_keep_tokens snd_conv)+

lemma second_factor_keeps:
  "second_factor E q req u s db = Some (v, d) \<Longrightarrow> user_refresh_tokens d = user_refresh_tokens db"
  unfolding second_factor_def by (auto split: if_splits sum.splits option.splits)

lemma ids_revoked:
  "rf_id ` set (update_where P (rf_revoked_at_update g) t) = rf_id ` set t"
  using map_update_where [of rf_id "rf_revoked_at_update g" P t]
  by (metis list.set_map refresh_row.select_convs(1) refresh_row.surjective refresh_row.update_convs(5))

text \<open>Revoking a stored token adds no token id.\<close>

lemma revoke_keeps_ids:
  assumes "refresh_FindByTokenHash db k = Inr t" "refresh_Save (token_Revoke n t) db = (x, d)"
  shows "rf_id ` set (user_refresh_tokens d) = rf_id ` set (user_refresh_tokens db)"
proof -
  have "\<exists>r \<in> set (user_refresh_tokens db). rf_id r = rt_id t"
    using assms(1) unfolding refresh_FindByTokenHash_def
    by (auto elim!: query_row_ok simp: RehydrateRefreshToken_def)
  then have "list_ex (\<lambda>r. rf_id r = rt_id t) (user_refresh_tokens db)" by (simp add: list_ex_iff)
  with exec_one_cases [OF assms(2) [unfolded refresh_Save_def]] show ?thesis
    by (elim disjE exE conjE)
       (clarsimp simp: upsert_refresh_def refresh_row_of_def token_Revoke_def ids_revoked split: if_split_asm)+
qed

lemma fresh_after:
  "user_refresh_tokens d = user_refresh_tokens db \<Longrightarrow> fresh_ids q db \<Longrightarrow> fresh_ids q d"
  by (simp add: fresh_ids_def)

section \<open>Invariants of the endpoints from invariants of the writes\<close>

text \<open>
  The contract between the endpoints and the repositories: what every write the endpoints make keeps,
  every request keeps.
\<close>

locale write_invariant =
  fixes I :: "database \<Rightarrow> bool"
  assumes I_user: "I db \<Longrightarrow> I (snd (user_Save u db))"
    and I_credential: "I db \<Longrightarrow> I (snd (credential_Save c db))"
    and I_membership: "I db \<Longrightarrow> I (snd (membership_Save m db))"
    and I_mfa: "I db \<Longrightarrow> I (snd (mfa_Save s db))"
    and I_mfa_Delete: "I db \<Longrightarrow> I (snd (mfa_Delete i db))"
    and I_reset: "I db \<Longrightarrow> I (snd (reset_Save p db))"
    and I_ticket: "I db \<Longrightarrow> I (snd (ticket_Claim j n db))"
    and I_grant: "I db \<Longrightarrow> I (snd (grant_Claim j n db))"
    and I_owner: "I db \<Longrightarrow> I (snd (AssignOwnerByPairingSession sid i db))"
    and I_revoke_all: "I db \<Longrightarrow> I (snd (RevokeAllForUser i n db))"
    and I_refresh: "I db \<Longrightarrow> rt_revokedAt t \<noteq> None \<or> rt_id t \<notin> rf_id ` set (user_refresh_tokens db) \<Longrightarrow>
      I (snd (refresh_Save t db))"
begin

lemma writes:
  "user_Save u db = (r, d) \<Longrightarrow> I db \<Longrightarrow> I d" "credential_Save c db = (r, d) \<Longrightarrow> I db \<Longrightarrow> I d"
  "membership_Save m db = (r, d) \<Longrightarrow> I db \<Longrightarrow> I d" "mfa_Save s db = (r, d) \<Longrightarrow> I db \<Longrightarrow> I d"
  "mfa_Delete i db = (r, d) \<Longrightarrow> I db \<Longrightarrow> I d" "reset_Save p db = (r, d) \<Longrightarrow> I db \<Longrightarrow> I d"
  "ticket_Claim j n db = (b, d) \<Longrightarrow> I db \<Longrightarrow> I d" "grant_Claim j n db = (b, d) \<Longrightarrow> I db \<Longrightarrow> I d"
  by (metis I_user I_credential I_membership I_mfa I_mfa_Delete I_reset I_ticket I_grant snd_conv)+

lemma revoked: "refresh_Save (token_Revoke n t) db = (r, d) \<Longrightarrow> I db \<Longrightarrow> I d"
  using I_refresh [of db "token_Revoke n t"] by (simp add: token_Revoke_def)

lemma stored:
  assumes "refresh_Save t d = (r, d')" "I d" "rt_id t = rq_ids q i" "fresh_ids q db"
    and "rf_id ` set (user_refresh_tokens d) = rf_id ` set (user_refresh_tokens db)"
  shows "I d'"
  using I_refresh [OF assms(2), of t] assms(1,3-5) by (auto simp: fresh_ids_def)

lemma grant: "I db \<Longrightarrow> I (applyEnrolmentGrant E g u n db)"
  by (auto simp: applyEnrolmentGrant_def split: option.splits sum.splits prod.splits intro: I_owner writes)

lemma finish:
  assumes "I db" "fresh_ids q db"
  shows "login_finish E q g u db = (r, d) \<Longrightarrow> I d"
    and "verify_finish E q g u db = (r, d) \<Longrightarrow> I d"
    and "setup_finish E q u db = (r, d) \<Longrightarrow> I d"
proof -
  show "I d" if "login_finish E q g u db = (r, d)"
    using that assms grant [OF assms(1)] unfolding login_finish_def Let_def
    by (auto dest!: mint_refresh_ok split: option.splits prod.splits intro: stored [OF _ _ _ assms(2)])
  show "I d" if "verify_finish E q g u db = (r, d)"
    using that assms grant [OF assms(1)] unfolding verify_finish_def Let_def
    by (auto dest!: mint_refresh_ok split: option.splits prod.splits intro: stored [OF _ _ _ assms(2)])
  show "I d" if "setup_finish E q u db = (r, d)"
    using that assms unfolding setup_finish_def
    by (auto dest!: mint_refresh_ok split: option.splits prod.splits sum.splits
        intro: writes stored [OF _ writes(3) _ assms(2) arg_cong [OF step_keeps(3), where f = "\<lambda>t. rf_id ` set t"]])
qed

lemma setup_request: "SetupHandler E q sb db = (r, d) \<Longrightarrow> I db \<Longrightarrow> fresh_ids q db \<Longrightarrow> I d"
  unfolding SetupHandler_def
  by (auto split: sum.splits option.splits if_splits prod.splits
      intro: writes finish(3) [OF writes(2) [OF _ writes(1)] fresh_after [OF step_keeps(2) fresh_after [OF step_keeps(1)]]])

lemma login_request: "login_reading findMFA E q lb db = (r, d) \<Longrightarrow> I db \<Longrightarrow> fresh_ids q db \<Longrightarrow> I d"
  unfolding login_reading_def
  by (auto split: sum.splits option.splits if_splits prod.splits intro: finish(1))

lemma second: "second_factor E q req u s db = Some (v, d) \<Longrightarrow> I db \<Longrightarrow> I d"
  unfolding second_factor_def by (auto split: if_splits sum.splits option.splits intro: I_mfa)

lemma claimed: "verify_claimed E q req u db = (r, d) \<Longrightarrow> I db \<Longrightarrow> fresh_ids q db \<Longrightarrow> I d"
  unfolding verify_claimed_def
  by (auto split: sum.splits option.splits if_splits prod.splits
      intro: second finish(2) [OF second fresh_after [OF second_factor_keeps]])

lemma verify_request: "TOTPVerifyHandler E q vb db = (r, d) \<Longrightarrow> I db \<Longrightarrow> fresh_ids q db \<Longrightarrow> I d"
  unfolding TOTPVerifyHandler_def
  by (auto split: sum.splits option.splits if_splits prod.splits
      intro: writes claimed claimed [OF _ writes(7) fresh_after [OF step_keeps(7)]])

lemma refresh_request: "RefreshHandler E q b db = (r, d) \<Longrightarrow> I db \<Longrightarrow> fresh_ids q db \<Longrightarrow> I d"
  unfolding RefreshHandler_def
  by (auto split: sum.splits option.splits if_splits prod.splits dest!: mint_refresh_ok
      intro: revoked stored [OF _ revoked _ _ revoke_keeps_ids])

lemma step: "auth_step E db db' \<Longrightarrow> I db \<Longrightarrow> I db'"
proof (induction rule: auth_step.induct)
  case (logout q b db r db')
  then show ?case
    unfolding LogoutHandler_def by (auto split: option.splits sum.splits if_splits) (metis prod.collapse revoked)
next
  case (reset_request q b db r db')
  then show ?case
    unfolding PasswordResetRequestHandler_def Let_def by (auto split: option.splits sum.splits if_splits intro: I_reset)
next
  case (reset_confirm q rb db r db')
  then show ?case
    unfolding PasswordResetConfirmHandler_def
    by (auto split: option.splits sum.splits if_splits prod.splits intro: I_revoke_all writes)
next
  case (totp_setup q b db r db')
  then show ?case
    unfolding TOTPSetupHandler_def by (auto split: option.splits sum.splits if_splits prod.splits intro: writes)
next
  case (totp_confirm q b db r db')
  then show ?case
    unfolding TOTPConfirmHandler_def by (auto split: option.splits sum.splits if_splits prod.splits intro: writes)
next
  case (totp_disable q b db r db')
  then show ?case
    unfolding TOTPDisableHandler_def by (auto split: option.splits sum.splits if_splits prod.splits intro: writes)
qed (auto intro: setup_request login_request refresh_request verify_request)

lemma history: "(auth_step E)\<^sup>*\<^sup>* db db' \<Longrightarrow> I db \<Longrightarrow> I db'"
  by (induction rule: rtranclp_induct) (auto intro: step)

end

text \<open>A revoked refresh token is such an invariant.\<close>

interpretation dead_tokens: write_invariant "\<lambda>db. dead h (user_refresh_tokens db)"
  by unfold_locales (simp_all add: RevokeAll_dead refresh_Save_dead)

lemma dead_is_refused:
  assumes "dead (token_hash E t) (user_refresh_tokens db)"
  shows "fst (RefreshHandler E q (Some t) db) \<in> {TooMany ''rate limit exceeded'',
     Failed Unauthorized ''invalid refresh token'', Failed Unauthorized ''invalid or expired refresh token''}"
proof -
  obtain r where "List.find (\<lambda>r. rf_token_hash r = token_hash E t) (user_refresh_tokens db) = Some r"
    "rf_revoked_at r \<noteq> None" using assms by (auto simp: dead_def)
  then show ?thesis
    by (simp add: RefreshHandler_def refresh_FindByTokenHash_def query_row_def RehydrateRefreshToken_def IsActive_def)
qed

section \<open>Statements on a steady connection\<close>

text \<open>While the connection holds, a statement either fails and changes nothing or takes effect.\<close>

lemma tick_steady: "db_links db = None \<Longrightarrow> tick db = db"
  by (simp add: tick_def)

lemma exec_one_steady:
  assumes "db_links db = None" "s db = Inr (d, n)" "db_links d = None"
  shows "exec_one s db = (None, d)"
  using assms by (simp add: exec_one_up tick_steady)

lemma connected_steady: "db_links db = None \<Longrightarrow> connected db"
  by (simp add: connected_def)

text \<open>Revoking the token a lookup found kills it.\<close>

lemma revoke_row:
  assumes "refresh_FindByTokenHash db h = Inr t"
  shows "upsert_refresh (refresh_row_of (token_Revoke n t)) db
      = Inr (db\<lparr>user_refresh_tokens := update_where (\<lambda>x. rf_id x = rt_id t)
               (rf_revoked_at_update (\<lambda>_. Some (timestamptz n))) (user_refresh_tokens db)\<rparr>, 1)"
    "dead h (update_where (\<lambda>x. rf_id x = rt_id t) (rf_revoked_at_update (\<lambda>_. Some (timestamptz n))) (user_refresh_tokens db))"
proof -
  obtain x where x: "x \<in> set (user_refresh_tokens db)" "rf_token_hash x = h"
      "List.find (\<lambda>r. rf_token_hash r = h) (user_refresh_tokens db) = Some x" "rt_id t = rf_id x"
    using assms unfolding refresh_FindByTokenHash_def
    by (rule query_row_ok) (simp add: RehydrateRefreshToken_def, metis RefreshToken.select_convs(1))
  let ?g = "rf_revoked_at_update (\<lambda>_. Some (timestamptz n))"
  let ?u = "update_where (\<lambda>x. rf_id x = rt_id t) ?g (user_refresh_tokens db)"
  have "list_ex (\<lambda>r. rf_id r = rt_id t) (user_refresh_tokens db)"
    unfolding list_ex_iff using x(1,4) by metis
  then show "upsert_refresh (refresh_row_of (token_Revoke n t)) db = Inr (db\<lparr>user_refresh_tokens := ?u\<rparr>, 1)"
    by (simp add: upsert_refresh_def refresh_row_of_def token_Revoke_def)
  have "List.find (\<lambda>r. rf_token_hash r = h) ?u = map_option (\<lambda>r. if rf_id r = rt_id t then ?g r else r)
      (List.find (\<lambda>r. rf_token_hash r = h) (user_refresh_tokens db))"
    unfolding update_where_def by (rule find_map) simp
  then have "List.find (\<lambda>r. rf_token_hash r = h) ?u = Some (?g x)" unfolding x(3) x(4) by simp
  then show "dead h ?u" unfolding dead_def by simp
qed

lemma revoke_written:
  assumes "refresh_FindByTokenHash db h = Inr t" "refresh_Save (token_Revoke n t) db = (None, db')"
  shows "dead h (user_refresh_tokens db')"
    "rf_id ` set (user_refresh_tokens db') = rf_id ` set (user_refresh_tokens db)"
proof -
  have t: "user_refresh_tokens db' = update_where (\<lambda>x. rf_id x = rt_id t)
      (rf_revoked_at_update (\<lambda>_. Some (timestamptz n))) (user_refresh_tokens db)"
    using exec_one_cases [OF assms(2) [unfolded refresh_Save_def]] revoke_row(1) [OF assms(1)] by auto
  show "dead h (user_refresh_tokens db')" unfolding t by (rule revoke_row(2) [OF assms(1)])
  show "rf_id ` set (user_refresh_tokens db') = rf_id ` set (user_refresh_tokens db)"
    unfolding t using ids_revoked [where P = "\<lambda>x. rf_id x = rt_id t"] by simp
qed

lemma revoke_succeeds:
  assumes "db_links db = None" "refresh_FindByTokenHash db h = Inr t"
  shows "refresh_Save (token_Revoke n t) db = (None, db\<lparr>user_refresh_tokens := update_where (\<lambda>x. rf_id x = rt_id t)
      (rf_revoked_at_update (\<lambda>_. Some (timestamptz n))) (user_refresh_tokens db)\<rparr>)"
  using exec_one_steady [where s = "upsert_refresh (refresh_row_of (token_Revoke n t))", OF assms(1) revoke_row(1) [OF assms(2)]]
    assms(1) by (simp add: refresh_Save_def)

lemma revoke_kills:
  assumes up: "db_links db = None" and f: "refresh_FindByTokenHash db h = Inr t"
    and s: "refresh_Save (token_Revoke n t) db = (r, db')"
  shows "dead h (user_refresh_tokens db')" "db_links db' = None" "users db' = users db"
    "rf_id ` set (user_refresh_tokens db') = rf_id ` set (user_refresh_tokens db)"
    "rf_token_hash ` set (user_refresh_tokens db') = rf_token_hash ` set (user_refresh_tokens db)"
proof -
  let ?u = "update_where (\<lambda>x. rf_id x = rt_id t) (rf_revoked_at_update (\<lambda>_. Some (timestamptz n))) (user_refresh_tokens db)"
  have db': "r = None" "db' = db\<lparr>user_refresh_tokens := ?u\<rparr>" using s revoke_succeeds [OF up f] by simp_all
  show "dead h (user_refresh_tokens db')" "rf_id ` set (user_refresh_tokens db') = rf_id ` set (user_refresh_tokens db)"
    using revoke_written [OF f] s db'(1) by auto
  show "db_links db' = None" "users db' = users db" using up unfolding db' by simp_all
  have "map rf_token_hash ?u = map rf_token_hash (user_refresh_tokens db)"
    by (rule map_update_where) simp
  then have "set (map rf_token_hash ?u) = set (map rf_token_hash (user_refresh_tokens db))" by (rule arg_cong)
  then show "rf_token_hash ` set (user_refresh_tokens db') = rf_token_hash ` set (user_refresh_tokens db)"
    unfolding db' by simp
qed

text \<open>Storing a token with a new id and a new hash for an existing user makes it findable.\<close>

lemma insert_live:
  assumes up: "db_links db = None" and "rt_id t \<notin> rf_id ` set (user_refresh_tokens db)"
    and h: "rt_tokenHash t \<notin> rf_token_hash ` set (user_refresh_tokens db)" and "rt_userID t \<in> user_ids db"
    and s: "refresh_Save t db = (r, db')"
  shows "refresh_FindByTokenHash db' (rt_tokenHash t) =
      Inr (t\<lparr>rt_expiresAt := timestamptz (rt_expiresAt t), rt_revokedAt := map_option timestamptz (rt_revokedAt t),
             rt_createdAt := timestamptz (rt_createdAt t)\<rparr>)"
    "user_refresh_tokens db' = user_refresh_tokens db @ [refresh_row_of t]" "db_links db' = None"
proof -
  have w: "upsert_refresh (refresh_row_of t) db =
      Inr (db\<lparr>user_refresh_tokens := user_refresh_tokens db @ [refresh_row_of t]\<rparr>, 1)"
    using assms(2-4) by (auto simp: upsert_refresh_def refresh_row_of_def list_ex_iff image_iff)
  have db': "db' = db\<lparr>user_refresh_tokens := user_refresh_tokens db @ [refresh_row_of t]\<rparr>"
    using s exec_one_steady [where s = "upsert_refresh (refresh_row_of t)", OF up w] up
    by (simp add: refresh_Save_def)
  have "List.find (\<lambda>r. rf_token_hash r = rt_tokenHash t) (user_refresh_tokens db) = None"
    using h by (auto simp: find_None_iff image_iff)
  then show "refresh_FindByTokenHash db' (rt_tokenHash t) =
      Inr (t\<lparr>rt_expiresAt := timestamptz (rt_expiresAt t), rt_revokedAt := map_option timestamptz (rt_revokedAt t),
             rt_createdAt := timestamptz (rt_createdAt t)\<rparr>)"
    using up by (simp add: refresh_FindByTokenHash_def query_row_def connected_def db' find_append refresh_row_of_def
        RehydrateRefreshToken_def)
  show "user_refresh_tokens db' = user_refresh_tokens db @ [refresh_row_of t]" "db_links db' = None"
    using up by (simp_all add: db')
qed

lemma user_FindByID_ok:
  assumes "user_FindByID cm db i = Inr u"
  shows "us_id u = i \<and> i \<in> user_ids db"
  using assms unfolding user_FindByID_def
  by (auto elim!: query_row_ok split: sum.splits dest!: NewUser_ok)

lemma RefreshHandler_ok:
  assumes "RefreshHandler E q (Some t) db = (Tokens uo a raw, db')"
  obtains rt user db1 newRT where "t \<noteq> []" "refresh_FindByTokenHash db (token_hash E t) = Inr rt" "IsActive rt (rq_now q)"
    "user_FindByID (ae_cm E) db (rt_userID rt) = Inr user"
    "db1 = snd (refresh_Save (token_Revoke (rq_now q) rt) db)"
    "mint_refresh (ae_sha256 E) (rq_rand q 0) (rq_ids q 0) (us_id user) (rq_now q + refresh_ttl E db1) (rq_now q) = Some (raw, newRT)"
    "db' = snd (refresh_Save newRT db1)"
    "a = access_token E user (library_claims db' (us_id user)) (rq_ids q 1) (rq_now q)"
  using assms unfolding RefreshHandler_def
  by (auto split: if_splits sum.splits option.splits prod.splits)

lemma refresh_rotates_core:
  assumes up: "db_links db = None" and ok: "RefreshHandler E q (Some t) db = (Tokens uo a raw, db')"
    and ids: "fresh_ids q db" and rand: "rq_rand q 0 = Inr b"
    and hash: "token_hash E raw \<notin> rf_token_hash ` set (user_refresh_tokens db)"
  shows "dead (token_hash E t) (user_refresh_tokens db')
    \<and> (\<exists>rt rt'. refresh_FindByTokenHash db (token_hash E t) = Inr rt
         \<and> refresh_FindByTokenHash db' (token_hash E raw) = Inr rt' \<and> rt_userID rt' = rt_userID rt
         \<and> rt_revokedAt rt' = None)"
proof -
  obtain rt user db1 newRT where r: "refresh_FindByTokenHash db (token_hash E t) = Inr rt"
    "user_FindByID (ae_cm E) db (rt_userID rt) = Inr user"
    "db1 = snd (refresh_Save (token_Revoke (rq_now q) rt) db)"
    "mint_refresh (ae_sha256 E) (rq_rand q 0) (rq_ids q 0) (us_id user) (rq_now q + refresh_ttl E db1) (rq_now q) = Some (raw, newRT)"
    "db' = snd (refresh_Save newRT db1)"
    using ok by (rule RefreshHandler_ok)
  obtain x y where s1: "refresh_Save (token_Revoke (rq_now q) rt) db = (x, db1)"
    and s2: "refresh_Save newRT db1 = (y, db')" using r(3,5) by (metis prod.collapse)
  note k = revoke_kills [OF up r(1) s1]
  have m: "rt_id newRT = rq_ids q 0" "rt_userID newRT = us_id user" "rt_tokenHash newRT = token_hash E raw"
      "rt_revokedAt newRT = None"
    using mint_refresh_ok [OF r(4)] rand by (simp_all add: token_hash_def)
  have u: "us_id user = rt_userID rt" "rt_userID rt \<in> user_ids db" using user_FindByID_ok [OF r(2)] by simp_all
  have "rt_id newRT \<notin> rf_id ` set (user_refresh_tokens db1)" unfolding k(4) using m(1) ids by (simp add: fresh_ids_def)
  moreover have "rt_tokenHash newRT \<notin> rf_token_hash ` set (user_refresh_tokens db1)" unfolding k(5) m(3) by (rule hash)
  moreover have "rt_userID newRT \<in> user_ids db1" using u m(2) k(3) by simp
  ultimately have n: "refresh_FindByTokenHash db' (token_hash E raw) =
      Inr (newRT\<lparr>rt_expiresAt := timestamptz (rt_expiresAt newRT), rt_revokedAt := map_option timestamptz (rt_revokedAt newRT),
             rt_createdAt := timestamptz (rt_createdAt newRT)\<rparr>)"
    "user_refresh_tokens db' = user_refresh_tokens db1 @ [refresh_row_of newRT]"
    using insert_live(1,2) [OF k(2) _ _ _ s2] m(3) by simp_all
  have "dead (token_hash E t) (user_refresh_tokens db')" unfolding n(2) by (rule dead_append [OF k(1)])
  then show ?thesis using r(1) n(1) m u by simp
qed

text \<open>The old token is dead after a refresh whose revoking write succeeded, whatever becomes of the new one.\<close>

lemma refresh_spends:
  assumes ok: "RefreshHandler E q (Some t) db = (Tokens uo a raw, db')" and f: "refresh_FindByTokenHash db (token_hash E t) = Inr rt"
    and w: "fst (refresh_Save (token_Revoke (rq_now q) rt) db) = None" and ids: "fresh_ids q db"
  shows "dead (token_hash E t) (user_refresh_tokens db')"
proof -
  obtain rt' user db1 newRT where r: "refresh_FindByTokenHash db (token_hash E t) = Inr rt'"
    "user_FindByID (ae_cm E) db (rt_userID rt') = Inr user"
    "db1 = snd (refresh_Save (token_Revoke (rq_now q) rt') db)"
    "mint_refresh (ae_sha256 E) (rq_rand q 0) (rq_ids q 0) (us_id user) (rq_now q + refresh_ttl E db1) (rq_now q) = Some (raw, newRT)"
    "db' = snd (refresh_Save newRT db1)"
    using ok by (rule RefreshHandler_ok)
  have s1: "refresh_Save (token_Revoke (rq_now q) rt) db = (None, db1)" using r(1,3) f w by (metis prod.collapse sum.inject(2))
  obtain y where s2: "refresh_Save newRT db1 = (y, db')" using r(5) by (metis prod.collapse)
  note k = revoke_written [OF f s1]
  have "rt_id newRT \<notin> rf_id ` set (user_refresh_tokens db1)"
    unfolding k(2) using mint_refresh_ok [OF r(4)] ids by (simp add: fresh_ids_def)
  then have "\<not> list_ex (\<lambda>x. rf_id x = rt_id newRT) (user_refresh_tokens db1)"
    unfolding list_ex_iff by (metis imageI)
  then have "user_refresh_tokens db' \<in> {user_refresh_tokens db1, user_refresh_tokens db1 @ [refresh_row_of newRT]}"
    using exec_one_cases [OF s2 [unfolded refresh_Save_def]]
    by (auto simp: upsert_refresh_def refresh_row_of_def split: if_splits)
  then show ?thesis using k(1) dead_append by auto
qed

end
