(* ===== verification/Auth_Password.thy ===== *)
theory Auth_Password
  imports Domain_Error Go_Strconv Go_Base64
begin

text \<open>
  Password hashes (\<open>internal/auth/password.go\<close>), the per-address rate limiter
  (\<open>internal/auth/ratelimit.go\<close>) and the identifier generator (\<open>internal/idgen/idgen.go\<close>).

  \<open>argon2.IDKey\<close> and the token bucket of \<open>golang.org/x/time/rate\<close> are third-party code and
  appear as arguments; the bytes of \<open>crypto/rand\<close> are arguments too.
\<close>

section \<open>Base 64 in the standard alphabet\<close>

definition to_std :: "char \<Rightarrow> char" where
  "to_std c = (if c = CHR ''-'' then CHR ''+'' else if c = CHR ''_'' then CHR ''/'' else c)"

definition from_std :: "char \<Rightarrow> char" where
  "from_std c = (if c = CHR ''+'' then CHR ''-'' else if c = CHR ''/'' then CHR ''_'' else c)"

definition std_EncodeToString :: "string \<Rightarrow> string" where
  "std_EncodeToString s = map to_std (EncodeToString s)"

definition std_DecodeString :: "string \<Rightarrow> string option" where
  "std_DecodeString s =
     (if CHR ''-'' \<in> set s \<or> CHR ''_'' \<in> set s then None else DecodeString (map from_std s))"

lemma enc6_std:
  "n < 64 \<Longrightarrow> from_std (to_std (enc6 n)) = enc6 n \<and> to_std (enc6 n) \<notin> set ''-_$''"
proof -
  have "list_all (\<lambda>n. from_std (to_std (enc6 n)) = enc6 n \<and> to_std (enc6 n) \<notin> set ''-_$'') [0..<64]"
    by code_simp
  then show "n < 64 \<Longrightarrow> from_std (to_std (enc6 n)) = enc6 n \<and> to_std (enc6 n) \<notin> set ''-_$''"
    by (simp add: list_all_iff)
qed

lemma std_chars: "c \<in> set (std_EncodeToString s) \<Longrightarrow> c \<notin> set ''-_$''"
  and std_back: "map from_std (std_EncodeToString s) = EncodeToString s"
proof -
  have "\<forall>v \<in> set (sextets (map of_char s)). v < (64 :: nat)" by (rule sextets_bound) auto
  then show "c \<in> set (std_EncodeToString s) \<Longrightarrow> c \<notin> set ''-_$''"
    and "map from_std (std_EncodeToString s) = EncodeToString s"
    unfolding std_EncodeToString_def EncodeToString_sextets using enc6_std by fastforce+
qed

lemma std_Decode_Encode: "std_DecodeString (std_EncodeToString s) = Some s"
  using std_chars [of _ s] by (auto simp: std_DecodeString_def std_back Decode_Encode)

section \<open>\<open>fmt.Sscanf\<close> with literals and \<open>%d\<close>\<close>

definition scan_lit :: "string \<Rightarrow> string \<Rightarrow> string option" where
  "scan_lit w s = (if take (length w) s = w then Some (drop (length w) s) else None)"

definition scan_space :: "string \<Rightarrow> string" where
  "scan_space s = concat (map snd (dropWhile (\<lambda>x. IsSpace (fst x) \<and> fst x \<noteq> 10) (segments s)))"

text \<open>An unsigned number below \<open>2 ^ w\<close> and the text after its digits.\<close>

definition scan_uint :: "nat \<Rightarrow> string \<Rightarrow> (nat \<times> string) option" where
  "scan_uint w s0 =
     (let s = scan_space s0; d = takeWhile is_digit s in
      if d = [] \<or> 2 ^ w \<le> nat_of_digits d then None else Some (nat_of_digits d, dropWhile is_digit s))"

definition scan_int :: "string \<Rightarrow> (int \<times> string) option" where
  "scan_int s0 =
     (let s = scan_space s0;
          neg = (s \<noteq> [] \<and> hd s = CHR ''-'');
          body = (if s \<noteq> [] \<and> (hd s = CHR ''-'' \<or> hd s = CHR ''+'') then tl s else s);
          d = takeWhile is_digit body;
          v = (if neg then - int (nat_of_digits d) else int (nat_of_digits d)) in
      if d = [] \<or> \<not> in_int64 v then None else Some (v, dropWhile is_digit body))"

lemma scan_lit_append [simp]: "scan_lit w (w @ s) = Some s"
  by (simp add: scan_lit_def)

lemma scan_space_id:
  assumes "s = c # cs" "byte_of c < 128" "\<not> IsSpace (byte_of c)"
  shows "scan_space s = s"
proof -
  have "scan_space s = concat (map snd (segments s))"
    using assms by (simp add: scan_space_def segments_ascii)
  then show ?thesis by simp
qed

definition stops :: "string \<Rightarrow> bool" where
  "stops r \<longleftrightarrow> r = [] \<or> \<not> is_digit (hd r)"

lemma digit_run:
  assumes "stops r"
  shows "takeWhile is_digit (dec_nat n @ r) = dec_nat n" "dropWhile is_digit (dec_nat n @ r) = r"
proof -
  have "takeWhile is_digit r = []" "dropWhile is_digit r = r"
    using assms by (cases r; simp add: stops_def)+
  moreover have "\<forall>x \<in> set (dec_nat n). is_digit x"
    using dec_nat_digits [of n] by (auto simp: list_all_iff)
  ultimately show "takeWhile is_digit (dec_nat n @ r) = dec_nat n" "dropWhile is_digit (dec_nat n @ r) = r"
    by (simp_all add: takeWhile_append2 dropWhile_append2)
qed

lemma scan_space_dec [simp]: "scan_space (dec_nat n @ r) = dec_nat n @ r"
proof -
  obtain c cs where d: "dec_nat n = c # cs" using dec_nat_digits [of n] by (cases "dec_nat n") auto
  then have "is_digit c" using dec_nat_digits [of n] by simp
  then show ?thesis
    by (intro scan_space_id [of _ c "cs @ r"]) (auto simp: d is_digit_def IsSpace_def between_def)
qed

lemma scan_uint_dec [simp]: "n < 2 ^ w \<Longrightarrow> stops r \<Longrightarrow> scan_uint w (dec_nat n @ r) = Some (n, r)"
  using dec_nat_digits [of n] by (simp add: scan_uint_def Let_def digit_run)

lemma scan_int_dec [simp]: "int n < 2 ^ 63 \<Longrightarrow> stops r \<Longrightarrow> scan_int (dec_nat n @ r) = Some (int n, r)"
  using dec_nat_digits [of n] hd_dec_nat [of n]
  by (simp add: scan_int_def Let_def digit_run in_int64_def)

section \<open>Argon2id hashes\<close>

record Argon2idParams =
  ap_Memory :: nat
  ap_Iterations :: nat
  ap_Parallelism :: nat
  ap_SaltLength :: nat
  ap_KeyLength :: nat

definition DefaultArgon2idParams :: Argon2idParams where
  "DefaultArgon2idParams = \<lparr> ap_Memory = 64 * 1024, ap_Iterations = 3, ap_Parallelism = 4,
     ap_SaltLength = 16, ap_KeyLength = 32 \<rparr>"

text \<open>\<open>argon password salt time memory threads keyLen\<close>; \<open>None\<close> is its panic for too few rounds or
  threads.\<close>

type_synonym argon2 = "string \<Rightarrow> string \<Rightarrow> nat \<Rightarrow> nat \<Rightarrow> nat \<Rightarrow> nat \<Rightarrow> string option"

definition argon2_Version :: nat where
  "argon2_Version = 19"

definition HashPassword :: "argon2 \<Rightarrow> Argon2idParams \<Rightarrow> string result \<Rightarrow> string \<Rightarrow> string result option" where
  "HashPassword argon P rand password =
     (case rand of
        Inl err \<Rightarrow> Some (Inl (Wrapf (Msg ''auth: generate salt failed: %w'' []) err))
      | Inr salt \<Rightarrow>
         (case argon password salt (ap_Iterations P) (ap_Memory P) (ap_Parallelism P) (ap_KeyLength P) of
            None \<Rightarrow> None
          | Some hash \<Rightarrow>
              Some (Inr (''$argon2id$v='' @ dec_nat argon2_Version @ ''$m='' @ dec_nat (ap_Memory P) @ '',t=''
                @ dec_nat (ap_Iterations P) @ '',p='' @ dec_nat (ap_Parallelism P) @ ''$''
                @ std_EncodeToString salt @ ''$'' @ std_EncodeToString hash))))"

definition scan_version :: "string \<Rightarrow> int option" where
  "scan_version s = (case scan_lit ''v='' s of None \<Rightarrow> None | Some r \<Rightarrow> map_option fst (scan_int r))"

definition scan_params :: "string \<Rightarrow> (nat \<times> nat \<times> nat) option" where
  "scan_params s =
     (case scan_lit ''m='' s of None \<Rightarrow> None | Some r1 \<Rightarrow>
      (case scan_uint 32 r1 of None \<Rightarrow> None | Some (m, r2) \<Rightarrow>
       (case scan_lit '',t='' r2 of None \<Rightarrow> None | Some r3 \<Rightarrow>
        (case scan_uint 32 r3 of None \<Rightarrow> None | Some (t, r4) \<Rightarrow>
         (case scan_lit '',p='' r4 of None \<Rightarrow> None | Some r5 \<Rightarrow>
          (case scan_uint 8 r5 of None \<Rightarrow> None | Some (p, r6) \<Rightarrow> Some (m, t, p)))))))"

definition VerifyPassword :: "argon2 \<Rightarrow> string \<Rightarrow> string \<Rightarrow> bool result option" where
  "VerifyPassword argon password encodedHash =
     (let vals = split_on CHR ''$'' encodedHash in
      if length vals \<noteq> 6 then Some (Inl (ErrorsNew ''auth: invalid hash format''))
      else if vals ! 1 \<noteq> ''argon2id'' then Some (Inl (ErrorsNew ''auth: unsupported hash type''))
      else if scan_version (vals ! 2) \<noteq> Some (int argon2_Version) then
        Some (Inl (ErrorsNew ''auth: incompatible argon2 version''))
      else (case scan_params (vals ! 3) of
        None \<Rightarrow> Some (Inl (ErrorsNew ''auth: invalid hash parameters''))
      | Some (memory, iterations, parallelism) \<Rightarrow>
         (case std_DecodeString (vals ! 4) of
            None \<Rightarrow> Some (Inl (ErrorsNew ''auth: invalid salt encoding''))
          | Some salt \<Rightarrow>
             (case std_DecodeString (vals ! 5) of
                None \<Rightarrow> Some (Inl (ErrorsNew ''auth: invalid hash encoding''))
              | Some hash \<Rightarrow>
                 (case argon password salt iterations memory parallelism (length hash mod 2 ^ 32) of
                    None \<Rightarrow> None
                  | Some comparisonHash \<Rightarrow> Some (Inr (hash = comparisonHash)))))))"

text \<open>The parameters of a hasher that fit the integer types of its struct.\<close>

definition params_fit :: "Argon2idParams \<Rightarrow> bool" where
  "params_fit P \<longleftrightarrow> ap_Memory P < 2 ^ 32 \<and> ap_Iterations P < 2 ^ 32 \<and> ap_Parallelism P < 2 ^ 8
     \<and> ap_KeyLength P < 2 ^ 32"

lemma split_hash:
  assumes "CHR ''$'' \<notin> set a" "CHR ''$'' \<notin> set b" "CHR ''$'' \<notin> set c" "CHR ''$'' \<notin> set d" "CHR ''$'' \<notin> set e"
  shows "split_on CHR ''$'' (CHR ''$'' # a @ CHR ''$'' # b @ CHR ''$'' # c @ CHR ''$'' # d @ CHR ''$'' # e) =
    [[], a, b, c, d, e]"
  using assms by (simp add: split_on_append split_on_no_sep)

lemma dec_no_dollar: "CHR ''$'' \<notin> set (dec_nat n)"
  using dec_nat_digits [of n] by (auto simp: list_all_iff is_digit_def between_def)

lemma std_no_dollar: "CHR ''$'' \<notin> set (std_EncodeToString s)"
  using std_chars by fastforce

lemma stops_simps [simp]: "stops []" "stops (CHR '','' # r)"
  by (simp_all add: stops_def is_digit_def between_def)

lemma scan_params_dec:
  assumes "params_fit P"
  shows "scan_params (''m='' @ dec_nat (ap_Memory P) @ '',t='' @ dec_nat (ap_Iterations P) @ '',p=''
      @ dec_nat (ap_Parallelism P)) = Some (ap_Memory P, ap_Iterations P, ap_Parallelism P)"
proof -
  have "scan_uint 8 (dec_nat (ap_Parallelism P) @ []) = Some (ap_Parallelism P, [])"
    using assms by (intro scan_uint_dec) (simp_all add: params_fit_def)
  then show ?thesis
    using assms scan_uint_dec [of "ap_Memory P" 32 "'',t='' @ dec_nat (ap_Iterations P) @ '',p='' @ dec_nat (ap_Parallelism P)"]
      scan_uint_dec [of "ap_Iterations P" 32 "'',p='' @ dec_nat (ap_Parallelism P)"]
    unfolding scan_params_def params_fit_def by (simp add: scan_lit_def)
qed

lemma scan_version_dec: "scan_version (''v='' @ dec_nat argon2_Version) = Some (int argon2_Version)"
  using scan_int_dec [of argon2_Version "[]"] by (simp add: scan_version_def scan_lit_def argon2_Version_def)

lemma VerifyPassword_hash:
  assumes hash: "HashPassword argon P (Inr salt) password = Some (Inr enc)"
    and len: "\<And>pw s t m p n k. argon pw s t m p n = Some k \<Longrightarrow> length k = n" and fit: "params_fit P"
  shows "VerifyPassword argon attempt enc =
    (case argon attempt salt (ap_Iterations P) (ap_Memory P) (ap_Parallelism P) (ap_KeyLength P) of
       None \<Rightarrow> None
     | Some k \<Rightarrow> Some (Inr (argon password salt (ap_Iterations P) (ap_Memory P) (ap_Parallelism P) (ap_KeyLength P) = Some k)))"
proof -
  let ?k = "argon password salt (ap_Iterations P) (ap_Memory P) (ap_Parallelism P) (ap_KeyLength P)"
  obtain k where k: "?k = Some k" using hash by (auto simp: HashPassword_def split: option.splits)
  let ?v = "''v='' @ dec_nat argon2_Version"
  let ?p = "''m='' @ dec_nat (ap_Memory P) @ '',t='' @ dec_nat (ap_Iterations P) @ '',p='' @ dec_nat (ap_Parallelism P)"
  have "enc = CHR ''$'' # ''argon2id'' @ CHR ''$'' # ?v @ CHR ''$'' # ?p @ CHR ''$'' # std_EncodeToString salt
      @ CHR ''$'' # std_EncodeToString k"
    using hash k by (simp add: HashPassword_def)
  then have vals: "split_on CHR ''$'' enc = [[], ''argon2id'', ?v, ?p, std_EncodeToString salt, std_EncodeToString k]"
    using split_hash [of "''argon2id''" ?v ?p "std_EncodeToString salt" "std_EncodeToString k"]
    by (simp add: dec_no_dollar std_no_dollar)
  have "length k mod 2 ^ 32 = ap_KeyLength P" using len [OF k] fit by (simp add: params_fit_def)
  then show ?thesis
    unfolding VerifyPassword_def vals Let_def
    using scan_version_dec scan_params_dec [OF fit] k
    by (auto simp: std_Decode_Encode split: option.split)
qed

section \<open>The rate limiter\<close>

text \<open>
  A token bucket is any state with \<open>bucket_new\<close> and \<open>bucket_allow\<close> (the time of the call is an
  argument, since \<open>rate.Limiter.Allow\<close> reads the clock).  The map of entries is keyed by address.
\<close>

record 'b bucket_ops =
  bucket_new :: 'b
  bucket_allow :: "instant \<Rightarrow> 'b \<Rightarrow> bool \<times> 'b"

record 'b ipEntry =
  ie_limiter :: 'b
  ie_lastSeen :: instant

type_synonym 'b ip_map = "string \<rightharpoonup> 'b ipEntry"

definition limiter_Allow :: "'b bucket_ops \<Rightarrow> string \<Rightarrow> instant \<Rightarrow> 'b ip_map \<Rightarrow> bool \<times> 'b ip_map" where
  "limiter_Allow B ip now ips =
     (let b = (case ips ip of None \<Rightarrow> bucket_new B | Some e \<Rightarrow> ie_limiter e) in
      case bucket_allow B now b of
        (ok, b') \<Rightarrow> (ok, ips(ip \<mapsto> \<lparr> ie_limiter = b', ie_lastSeen = now \<rparr>)))"

definition limiter_Cleanup :: "duration \<Rightarrow> instant \<Rightarrow> 'b ip_map \<Rightarrow> 'b ip_map" where
  "limiter_Cleanup ttl now ips =
     (\<lambda>ip. case ips ip of None \<Rightarrow> None | Some e \<Rightarrow> (if now - ie_lastSeen e > ttl then None else Some e))"

definition eviction_interval :: "duration \<Rightarrow> duration" where
  "eviction_interval ttl = (if ttl div 2 < minute then minute else ttl div 2)"

text \<open>An interleaving of calls for several addresses with clean-ups, and the decisions it returns.\<close>

datatype limiter_event = Request string instant | Evict instant

fun limiter_run :: "'b bucket_ops \<Rightarrow> duration \<Rightarrow> limiter_event list \<Rightarrow> 'b ip_map \<Rightarrow> (string \<times> bool) list \<times> 'b ip_map" where
  "limiter_run B ttl [] ips = ([], ips)"
| "limiter_run B ttl (Request ip now # es) ips =
     (case limiter_Allow B ip now ips of
        (ok, ips1) \<Rightarrow> (case limiter_run B ttl es ips1 of (ds, ips2) \<Rightarrow> ((ip, ok) # ds, ips2)))"
| "limiter_run B ttl (Evict now # es) ips = limiter_run B ttl es (limiter_Cleanup ttl now ips)"

text \<open>
  The specification: one address with a private bucket.  Its bucket is forgotten only by a clean-up
  more than \<open>ttl\<close> after its last request.
\<close>

fun private_run ::
  "'b bucket_ops \<Rightarrow> duration \<Rightarrow> string \<Rightarrow> limiter_event list \<Rightarrow> 'b ipEntry option \<Rightarrow> bool list \<times> 'b ipEntry option" where
  "private_run B ttl ip [] e = ([], e)"
| "private_run B ttl ip (Request ip' now # es) e =
     (if ip' \<noteq> ip then private_run B ttl ip es e
      else (case bucket_allow B now (case e of None \<Rightarrow> bucket_new B | Some x \<Rightarrow> ie_limiter x) of
              (ok, b') \<Rightarrow>
                (case private_run B ttl ip es (Some \<lparr> ie_limiter = b', ie_lastSeen = now \<rparr>) of
                   (ds, e') \<Rightarrow> (ok # ds, e'))))"
| "private_run B ttl ip (Evict now # es) e =
     private_run B ttl ip es
       (case e of None \<Rightarrow> None | Some x \<Rightarrow> (if now - ie_lastSeen x > ttl then None else Some x))"

definition decisions_for :: "string \<Rightarrow> (string \<times> bool) list \<Rightarrow> bool list" where
  "decisions_for ip ds = map snd (filter (\<lambda>d. fst d = ip) ds)"

lemma limiter_run_private:
  "private_run B ttl ip es (ips ip) =
     (decisions_for ip (fst (limiter_run B ttl es ips)), snd (limiter_run B ttl es ips) ip)"
proof (induction B ttl es ips rule: limiter_run.induct)
  case (2 B ttl ip' now es ips)
  obtain ok b' where a: "bucket_allow B now (case ips ip' of None \<Rightarrow> bucket_new B | Some e \<Rightarrow> ie_limiter e) = (ok, b')"
    by fastforce
  let ?ips1 = "ips(ip' \<mapsto> \<lparr> ie_limiter = b', ie_lastSeen = now \<rparr>)"
  have al: "limiter_Allow B ip' now ips = (ok, ?ips1)" using a by (simp add: limiter_Allow_def)
  obtain ds ips2 where r: "limiter_run B ttl es ?ips1 = (ds, ips2)" by fastforce
  have IH: "private_run B ttl ip es (?ips1 ip) = (decisions_for ip ds, ips2 ip)"
    using 2 [OF al [symmetric], unfolded r] unfolding fst_conv snd_conv .
  show ?case
  proof (cases "ip' = ip")
    case True
    then show ?thesis using IH a al r by (simp add: decisions_for_def)
  next
    case False
    then show ?thesis using IH al r by (simp add: decisions_for_def)
  qed
next
  case (3 B ttl now es ips)
  then show ?case by (simp add: limiter_Cleanup_def)
qed (simp add: decisions_for_def)

section \<open>Identifiers\<close>

unbundle bit_operations_syntax

text \<open>\<open>NewID\<close> on sixteen random bytes: the version and variant bits are forced, the rest printed.\<close>

definition set_bits_of :: "char \<Rightarrow> 8 word \<Rightarrow> 8 word \<Rightarrow> char" where
  "set_bits_of c m v = char_of (unat ((of_nat (byte_of c) AND m) OR v))"

definition NewID :: "string \<Rightarrow> string" where
  "NewID b0 =
     (let b = b0[6 := set_bits_of (b0 ! 6) 0x0f 0x40, 8 := set_bits_of (b0 ! 8) 0x3f 0x80] in
      hex_EncodeToString (take 4 b) @ ''-'' @ hex_EncodeToString (take 2 (drop 4 b)) @ ''-''
      @ hex_EncodeToString (take 2 (drop 6 b)) @ ''-'' @ hex_EncodeToString (take 2 (drop 8 b)) @ ''-''
      @ hex_EncodeToString (drop 10 b))"

lemma forced_bits_all:
  "list_all (\<lambda>n. unat ((of_nat n AND 0x0f) OR 0x40 :: 8 word) div 16 = 4
     \<and> unat ((of_nat n AND 0x3f) OR 0x80 :: 8 word) div 16 \<in> {8, 9, 10, 11}) [0..<256]"
  by code_simp

lemma forced_bits:
  "byte_of (set_bits_of c 0x0f 0x40) div 16 = (4 :: nat)"
  "byte_of (set_bits_of c 0x3f 0x80) div 16 \<in> {8, 9, 10, 11 :: nat}"
proof -
  have m: "byte_of (char_of (unat w) :: char) = unat w" for w :: "8 word"
  proof -
    have "unat w < 2 ^ LENGTH(8)" by (rule unsigned_less)
    then show ?thesis by simp
  qed
  have "byte_of c \<in> set [0..<256]" by simp
  then show "byte_of (set_bits_of c 0x0f 0x40) div 16 = (4 :: nat)"
    "byte_of (set_bits_of c 0x3f 0x80) div 16 \<in> {8, 9, 10, 11 :: nat}"
    using forced_bits_all unfolding list_all_iff set_bits_of_def m by blast+
qed

text \<open>The shape of a version 4 UUID.\<close>

definition hex_digit :: "char \<Rightarrow> bool" where
  "hex_digit c \<longleftrightarrow> c \<in> set hex_digits"

definition uuid_v4 :: "string \<Rightarrow> bool" where
  "uuid_v4 s \<longleftrightarrow> length s = 36
     \<and> list_all (\<lambda>i. if i \<in> {8, 13, 18, 23} then s ! i = CHR ''-'' else hex_digit (s ! i)) [0..<36]
     \<and> s ! 14 = CHR ''4'' \<and> s ! 19 \<in> set ''89ab''"

lemma hex_digit_nth: "n < 16 \<Longrightarrow> hex_digit (hex_digits ! n)"
  unfolding hex_digit_def by (rule nth_mem) (simp add: hex_digits_def)

lemma byte_div_16: "byte_of (c :: char) div 16 < (16 :: nat)"
  using nat_of_char_less_256 [of c] by (simp add: div_less_iff_less_mult)

lemma NewID_uuid:
  assumes "length b = 16"
  shows "uuid_v4 (NewID b)"
proof -
  obtain c0 c1 c2 c3 c4 c5 c6 c7 c8 c9 c10 c11 c12 c13 c14 c15
    where b: "b = [c0, c1, c2, c3, c4, c5, c6, c7, c8, c9, c10, c11, c12, c13, c14, c15]"
    using assms by (auto simp: length_Suc_conv eval_nat_numeral)
  let ?d = "\<lambda>c. [hex_digits ! (byte_of c div 16), hex_digits ! (byte_of c mod 16)]"
  have h: "hex_digit (hex_digits ! (byte_of (c :: char) div 16))" "hex_digit (hex_digits ! (byte_of c mod 16))" for c
    by (rule hex_digit_nth, rule byte_div_16) (rule hex_digit_nth, simp)
  have v: "hex_digits ! 4 = CHR ''4''" by (simp add: hex_digits_def)
  have v4: "hex_digit CHR ''4''" by (simp add: hex_digit_def hex_digits_def)
  have w: "hex_digits ! n \<in> set ''89ab''" if "n \<in> {8, 9, 10, 11 :: nat}" for n
    using that by (auto simp: hex_digits_def)
  have id: "NewID b = ?d c0 @ ?d c1 @ ?d c2 @ ?d c3 @ ''-'' @ ?d c4 @ ?d c5 @ ''-'' @ ?d (set_bits_of c6 0x0f 0x40) @ ?d c7
      @ ''-'' @ ?d (set_bits_of c8 0x3f 0x80) @ ?d c9 @ ''-'' @ ?d c10 @ ?d c11 @ ?d c12 @ ?d c13 @ ?d c14 @ ?d c15"
    unfolding NewID_def b Let_def by simp
  have up: "[0..<36] = [0, 1, 2, 3, 4, 5, 6, 7, 8, 9, 10, 11, 12, 13, 14, 15, 16, 17, 18, 19, 20, 21, 22, 23, 24, 25,
      26, 27, 28, 29, 30, 31, 32, 33, 34, 35 :: nat]" by code_simp
  show ?thesis
    unfolding uuid_v4_def id up by (simp add: h v v4 forced_bits(1) w [OF forced_bits(2), simplified])
qed

section \<open>Properties\<close>

text \<open>verifying an attempt against a hash made by \<open>HashPassword\<close> never reports a malformed hash;
  it accepts exactly the attempts whose Argon2id key, under the stored salt and cost, equals the key of
  the password that was hashed, and so accepts the password itself.\<close>

theorem password_verifies_exactly:
  assumes "HashPassword argon P (Inr salt) password = Some (Inr enc)"
    and "\<And>pw s t m p n k. argon pw s t m p n = Some k \<Longrightarrow> length k = n" and "params_fit P"
    and "argon attempt salt (ap_Iterations P) (ap_Memory P) (ap_Parallelism P) (ap_KeyLength P) = Some k"
  shows "VerifyPassword argon attempt enc = Some (Inr
      (argon password salt (ap_Iterations P) (ap_Memory P) (ap_Parallelism P) (ap_KeyLength P) = Some k))
    \<and> VerifyPassword argon password enc = Some (Inr True)"
proof -
  obtain k' where "argon password salt (ap_Iterations P) (ap_Memory P) (ap_Parallelism P) (ap_KeyLength P) = Some k'"
    using assms(1) by (auto simp: HashPassword_def split: option.splits)
  then show ?thesis
    using VerifyPassword_hash [OF assms(1-3), where attempt = attempt] VerifyPassword_hash [OF assms(1-3), where attempt = password] assms(4)
    by simp
qed

definition toy_argon :: argon2 where
  "toy_argon pw salt t m p n = (if t < 1 \<or> p < 1 then None else Some (take n (pw @ salt @ replicate n CHR ''x'')))"

theorem password_verifies_exactly_witness:
  "\<exists>enc. HashPassword toy_argon DefaultArgon2idParams (Inr ''salt'') ''pw'' = Some (Inr enc)
     \<and> VerifyPassword toy_argon ''pw'' enc = Some (Inr True)
     \<and> VerifyPassword toy_argon ''pv'' enc = Some (Inr False)"
proof -
  let ?P = DefaultArgon2idParams
  have fit: "params_fit ?P" by (simp add: params_fit_def DefaultArgon2idParams_def)
  have len: "length k = n" if "toy_argon pw s t m p n = Some k" for pw s t m p n k
    using that by (auto simp: toy_argon_def split: if_splits)
  obtain enc where e: "HashPassword toy_argon ?P (Inr ''salt'') ''pw'' = Some (Inr enc)"
    by (simp add: HashPassword_def toy_argon_def DefaultArgon2idParams_def)
  obtain k where k: "toy_argon ''pv'' ''salt'' (ap_Iterations ?P) (ap_Memory ?P) (ap_Parallelism ?P) (ap_KeyLength ?P) = Some k"
      "hd (tl k) = CHR ''v''"
    by (simp add: toy_argon_def DefaultArgon2idParams_def)
  have ne: "toy_argon ''pw'' ''salt'' (ap_Iterations ?P) (ap_Memory ?P) (ap_Parallelism ?P) (ap_KeyLength ?P) \<noteq> Some k"
    using k(2) by (auto simp: toy_argon_def DefaultArgon2idParams_def)
  from password_verifies_exactly [OF e len fit k(1)] ne e show ?thesis by auto
qed

text \<open>however requests of many addresses and clean-ups interleave, the decisions an address gets are
  those of a private token bucket fed with its own requests only, which is forgotten at a clean-up
  more than the time to live after its last request and at no other moment.\<close>

theorem limiter_refines_private:
  "private_run B ttl ip es None =
     (decisions_for ip (fst (limiter_run B ttl es Map.empty)), snd (limiter_run B ttl es Map.empty) ip)"
  using limiter_run_private [of B ttl ip es Map.empty] by simp

text \<open>C30: whatever sixteen bytes the entropy source delivers, \<open>NewID\<close> is a version 4 UUID: 36
  characters, lower-case hexadecimal in groups of 8, 4, 4, 4 and 12, version digit 4 and variant digit
  8, 9, a or b.\<close>

theorem NewID_is_uuid:
  assumes "length b = 16"
  shows "uuid_v4 (NewID b)"
  using assms by (rule NewID_uuid)

theorem NewID_is_uuid_witness: "uuid_v4 (NewID (replicate 16 CHR 0xFF)) \<and> NewID (replicate 16 CHR 0xFF) ! 14 = CHR ''4''"
  using NewID_is_uuid [of "replicate 16 CHR 0xFF"] by (simp add: uuid_v4_def)

end
