(* ===== verification/Auth_Sessions.thy ===== *)
theory Auth_Sessions
  imports Auth_Safety Auth_Password
begin

text \<open>
  The guarantees of the authentication endpoints over whole histories of requests: setup runs once,
  tickets and refresh tokens work once, a password alone never opens an account with a second factor,
  and a password reset ends every session of its user.
\<close>

section \<open>More invariants of the writes\<close>

lemma other_writes_keep_tickets [simp]:
  "mfa_ticket_jtis (snd (user_Save u db)) = mfa_ticket_jtis db"
  "mfa_ticket_jtis (snd (credential_Save c db)) = mfa_ticket_jtis db"
  "mfa_ticket_jtis (snd (membership_Save m db)) = mfa_ticket_jtis db"
  "mfa_ticket_jtis (snd (mfa_Save s db)) = mfa_ticket_jtis db"
  "mfa_ticket_jtis (snd (mfa_Delete i db)) = mfa_ticket_jtis db"
  "mfa_ticket_jtis (snd (reset_Save p db)) = mfa_ticket_jtis db"
  "mfa_ticket_jtis (snd (refresh_Save t db)) = mfa_ticket_jtis db"
  "mfa_ticket_jtis (snd (RevokeAllForUser i n db)) = mfa_ticket_jtis db"
  "mfa_ticket_jtis (snd (grant_Claim j n db)) = mfa_ticket_jtis db"
  "mfa_ticket_jtis (snd (AssignOwnerByPairingSession sid i db)) = mfa_ticket_jtis db"
  unfolding user_Save_def credential_Save_def membership_Save_def mfa_Save_def mfa_Delete_def reset_Save_def
    refresh_Save_def RevokeAllForUser_def grant_Claim_def AssignOwnerByPairingSession_def
  by (auto intro!: snd_exec_one_keeps claim_keeps exec_found_keeps
      simp: keeps_def upsert_user_def upsert_credential_def upsert_membership_def upsert_mfa_def upsert_reset_def
        upsert_refresh_def update_devices_def Let_def split: if_splits)

lemma other_writes_keep_users [simp]:
  "users (snd (credential_Save c db)) = users db"
  "users (snd (membership_Save m db)) = users db"
  "users (snd (mfa_Save s db)) = users db"
  "users (snd (mfa_Delete i db)) = users db"
  "users (snd (reset_Save p db)) = users db"
  "users (snd (refresh_Save t db)) = users db"
  "users (snd (RevokeAllForUser i n db)) = users db"
  "users (snd (ticket_Claim j n db)) = users db"
  "users (snd (grant_Claim j n db)) = users db"
  "users (snd (AssignOwnerByPairingSession sid i db)) = users db"
  unfolding credential_Save_def membership_Save_def mfa_Save_def mfa_Delete_def reset_Save_def
    refresh_Save_def RevokeAllForUser_def grant_Claim_def ticket_Claim_def AssignOwnerByPairingSession_def
  by (auto intro!: snd_exec_one_keeps claim_keeps exec_found_keeps
      simp: keeps_def upsert_credential_def upsert_membership_def upsert_mfa_def upsert_reset_def
        upsert_refresh_def update_devices_def Let_def split: if_splits)

lemma claim_cases:
  "claim s db = (r, db') \<Longrightarrow>
     (\<exists>d n. s db = Inr (d, n) \<and> db' = tick d \<and> r = Inr (n = 1)) \<or> ((\<exists>e. r = Inl e) \<and> (db' = db \<or> db' = tick db))"
  by (auto simp: claim_def Exec_def split: if_splits sum.splits prod.splits)

definition spent :: "string \<Rightarrow> database \<Rightarrow> bool" where
  "spent j db \<longleftrightarrow> j \<in> fst ` set (mfa_ticket_jtis db)"

lemma ticket_Claim_spent:
  assumes "ticket_Claim j n db = (r, db')"
  shows "spent k db \<Longrightarrow> spent k db'" "r = Inr b \<Longrightarrow> spent j db' \<and> (b \<longleftrightarrow> \<not> spent j db)"
  using claim_cases [OF assms [unfolded ticket_Claim_def]] by (auto simp: spent_def split: if_splits)

lemma user_Save_nonempty:
  assumes "users db \<noteq> []"
  shows "users (snd (user_Save u db)) \<noteq> []"
proof -
  obtain r db' where e: "exec_one (upsert_user (user_row_of u)) db = (r, db')" by fastforce
  show ?thesis
    using exec_one_cases [OF e] assms unfolding user_Save_def e
    by (auto simp: upsert_user_def update_where_def split: if_splits)
qed

interpretation spent_tickets: write_invariant "spent j"
  by unfold_locales (auto simp: spent_def [abs_def] intro: ticket_Claim_spent(1) [unfolded spent_def, OF prod.collapse [symmetric]])

interpretation set_up: write_invariant "\<lambda>db. users db \<noteq> []"
  by unfold_locales (simp_all add: user_Save_nonempty)

section \<open>A small server\<close>

text \<open>An account, an environment and a request to run the endpoints on.\<close>

definition ann :: User where
  "ann = \<lparr> us_id = ''u1'', us_username = ''ann'', us_email = ''a@b.c'', us_role = RoleAdmin,
     us_createdAt = 0, us_updatedAt = 0 \<rparr>"

definition demo_env :: auth_env where
  "demo_env = \<lparr> ae_cm = id, ae_sql_lower = id, ae_mac = toy_mac, ae_signer = sample_signer, ae_grants = None,
     ae_sha256 = (\<lambda>s. s), ae_hmac1 = (\<lambda>k d. replicate 20 CHR ''a''),
     ae_aead = \<lparr> ad_seal = (\<lambda>k n p. p), ad_open = (\<lambda>k n c. Some c) \<rparr>,
     ae_engine = NewTOTPEngine ''alexandryn'', ae_masterKey = ''master'',
     ae_hasher = \<lparr> ph_HashPassword = (\<lambda>r p. Inr (''h:'' @ p)), ph_VerifyPassword = (\<lambda>p h. Inr (h = ''h:'' @ p)) \<rparr>,
     ae_settings = False \<rparr>"

definition demo_request :: "string \<Rightarrow> request" where
  "demo_request i = \<lparr> rq_now = 0, rq_ip_allowed = True, rq_user_allowed = True, 
     rq_ids = (\<lambda>n. i @ (if n = 0 then ''0'' else if n = 1 then ''1'' else ''2'')),
     rq_rand = (\<lambda>n. Inr i), rq_caller = None \<rparr>"

definition demo_db :: database where
  "demo_db = (empty_database [DefaultLibraryID])\<lparr>users := [user_row_of ann],
     user_credentials := [\<lparr> cr_user_id = ''u1'', cr_password_hash = ''h:password'', cr_updated_at = 0 \<rparr>],
     user_refresh_tokens := [\<lparr> rf_id = ''r1'', rf_user_id = ''u1'', rf_token_hash = sha256_hex (\<lambda>s. s) ''old'',
       rf_expires_at = second, rf_revoked_at = None, rf_created_at = 0 \<rparr>],
     mfa_totp_settings := [\<lparr> mf_user_id = ''u1'', mf_encrypted_secret = ''s'',
       mf_recovery_code_hashes = [sha256_hex (\<lambda>s. s) ''AB''], mf_enabled = True, mf_confirmed_at = Some 0, mf_created_at = 0 \<rparr>],
     password_resets := [\<lparr> rs_id = ''p1'', rs_user_id = ''u1'', rs_token_hash = sha256_hex (\<lambda>s. s) ''reset'',
       rs_expires_at = second, rs_used_at = None, rs_created_at = 0 \<rparr>]\<rparr>"

lemma hex_visible: "visible (hex_EncodeToString b)"
proof -
  have "list_all (\<lambda>n. 32 < byte_of (hex_digits ! n) \<and> byte_of (hex_digits ! n) < (127 :: nat)) [0..<16]" by code_simp
  then have h: "32 < byte_of (hex_digits ! n) \<and> byte_of (hex_digits ! n) < 127" if "n < 16" for n
    using that by (simp add: list_all_iff)
  show ?thesis
    unfolding visible_def by (induction b) (simp_all add: h byte_div_16)
qed

lemma blank_hash: "blank (sha256_hex f s) \<longleftrightarrow> f s = []"
  using length_hex [of "f s"] by (simp add: sha256_hex_def blank_visible [OF hex_visible] del: length_hex flip: length_0_conv)

lemma lang_email: "local_char a \<Longrightarrow> is_alnum b \<Longrightarrow> is_alnum c \<Longrightarrow> lang validEmailRegex [a, CHR ''@'', b, CHR ''.'', c]"
proof -
  assume l: "local_char a" and b: "is_alnum b" "is_alnum c"
  have d: "lang domain_label [x]" if "is_alnum x" for x
    using lang.Cat [OF lang.Cls [of is_alnum, OF that] lang.AltR [OF lang.Eps]]
      lang.Cat [OF lang.Cls [of is_alnum, OF that] lang.AltL [OF lang.Eps]]
    by (simp add: domain_label_def Opt_def)
  have p: "lang (Plus r) s" if "lang r s" for r s
    using lang.Cat [OF that lang.StarNil] by (simp add: Plus_def)
  have "lang (Cat (Cls (\<lambda>c. c = CHR ''.'')) domain_label) ([CHR ''.''] @ [c])"
    by (intro lang.Cat lang.Cls d b) simp
  then have "lang validEmailRegex ([a] @ [CHR ''@''] @ [b] @ [CHR ''.''] @ [c])"
    unfolding validEmailRegex_def by (intro lang.Cat p lang.Cls d b l) simp_all
  then show ?thesis by simp
qed

lemma NewUser_ann:
  assumes "\<not> blank i"
  shows "NewUser id i ''ann'' ''a@b.c'' RoleAdmin 0 0 = Inr (ann\<lparr>us_id := i\<rparr>)"
proof -
  have "lang validEmailRegex ''a@b.c''"
    by (rule lang_email) (simp_all add: local_char_def is_alnum_def is_alpha_def is_lower_def between_def)
  moreover have "visible ''ann''" "visible ''a@b.c''" "list_all username_char ''ann''"
    by (simp_all add: visible_def username_char_def is_alnum_def is_alpha_def is_lower_def between_def)
  moreover have "ToLower id ''a@b.c'' = ''a@b.c''" by (rule ToLower_ascii) (simp add: is_upper_def between_def)
  moreover have "lang validUsernameRegex ''ann''"
    using validUsername_iff [of "''ann''", unfolded MatchString_iff] calculation by simp
  ultimately have "MatchString validEmailRegex ''a@b.c''" "MatchString validUsernameRegex ''ann''"
      "normal_email id ''a@b.c'' = ''a@b.c''" "TrimSpace ''ann'' = ''ann''"
    unfolding MatchString_iff normal_email_def by (simp_all only: TrimSpace_visible)
  moreover have "length ''a@b.c'' \<le> 255" by simp
  ultimately show ?thesis
    using assms unfolding NewUser_def Let_def
    by (simp only: not_False_eq_True not_True_eq_False if_False if_True simp_thms not_less) (simp add: ann_def role_IsValid_def)
qed

lemma demo_FindByID: "connected db \<Longrightarrow> users db = [user_row_of ann] \<Longrightarrow> user_FindByID id db ''u1'' = Inr ann"
proof -
  have "\<not> blank ''u1''" "ParseRole RoleAdmin = Inr RoleAdmin"
    by (simp_all add: blank_visible visible_def ParseRole_def role_IsValid_def RoleAdmin_def)
  then show "connected db \<Longrightarrow> users db = [user_row_of ann] \<Longrightarrow> user_FindByID id db ''u1'' = Inr ann"
    using NewUser_ann [of "''u1''"] by (simp add: user_FindByID_def query_row_def user_row_of_def ann_def timestamptz_def)
qed

section \<open>Setup\<close>

lemma user_Save_stored:
  assumes "user_Save u db = (None, d)"
  shows "users d \<noteq> []"
  using exec_one_cases [OF assms [unfolded user_Save_def]]
  by (auto simp: upsert_user_def update_where_def split: if_splits)

lemma SetupHandler_tokens:
  assumes "SetupHandler E q sb db = (Tokens uo a raw, d)"
  shows "users db = [] \<and> users d \<noteq> []"
proof -
  have f: "users d' \<noteq> []" if "setup_finish E q u d0 = (r, d')" "users d0 \<noteq> []" for u r d0 d'
    using that unfolding setup_finish_def
    by (auto split: sum.splits option.splits prod.splits) (metis other_writes_keep_users(2,6) snd_conv)+
  have c: "users d2 \<noteq> []" if "credential_Save c d1 = (x, d2)" "user_Save u db = (None, d1)" for c x d1 d2 u
    using user_Save_stored [OF that(2)] other_writes_keep_users(1) [of c d1] that(1) by simp
  have "users db = []"
    using assms unfolding SetupHandler_def CountUsers_def by (auto split: if_splits)
  moreover have "users d \<noteq> []"
    using assms unfolding SetupHandler_def
    by (auto split: sum.splits option.splits if_splits prod.splits dest!: f [OF _ c])
  ultimately show ?thesis by simp
qed

text \<open>the first administrator is created only on a server that has no user, and once that has happened
  no sequence of authentication requests makes the setup endpoint create another: it answers a
  conflict (or that the database cannot be reached) and changes nothing.\<close>
theorem setup_runs_once:
  assumes "SetupHandler E q sb db = (Tokens uo a raw, d)" "(auth_step E)\<^sup>*\<^sup>* d d'"
  shows "users db = []
    \<and> SetupHandler E q' sb' d' = ((if connected d' then Failed Conflict ''system already initialized''
         else Failed (CategoryOf (TranslateError ErrClosed)) ''setup check failed''), d')"
proof -
  have "users d' \<noteq> []" using set_up.history [OF assms(2)] SetupHandler_tokens [OF assms(1)] by simp
  then show ?thesis using SetupHandler_tokens [OF assms(1)] by (simp add: SetupHandler_def CountUsers_def)
qed

lemmas demo_writes = user_Save_def credential_Save_def membership_Save_def refresh_Save_def exec_one_up tick_def connected_def
  NewUserCredentials_def upsert_user_def user_row_of_def upsert_credential_def upsert_membership_def upsert_refresh_def
  NewLibraryMembership_def membership_row_of_def mint_refresh_def generateRandomToken_def NewRefreshToken_def
  RehydrateRefreshToken_def refresh_row_of_def ann_def timestamptz_def Let_def role_IsValid_def named_library_def

text \<open>The demo server is set up once.\<close>
theorem setup_runs_once_witness:
  "\<exists>a raw d. SetupHandler demo_env (demo_request ''i'') (Some \<lparr> sq_Username = ''ann'', sq_Email = ''a@b.c'',
       sq_Password = ''password'' \<rparr>) (empty_database [DefaultLibraryID]) = (Tokens (Some (ann\<lparr>us_id := ''i0''\<rparr>)) a raw, d)
     \<and> SetupHandler demo_env (demo_request ''k'') None d = (Failed Conflict ''system already initialized'', d)"
proof -
  have nb: "\<not> blank ''i0''" "\<not> blank ''i1''" "\<not> blank ''i2''" "\<not> blank ''h:password''"
    "\<not> blank DefaultLibraryID"
    by (simp_all add: blank_visible visible_def DefaultLibraryID_def)
  obtain a raw d where 1: "SetupHandler demo_env (demo_request ''i'') (Some \<lparr> sq_Username = ''ann'', sq_Email = ''a@b.c'',
       sq_Password = ''password'' \<rparr>) (empty_database [DefaultLibraryID]) = (Tokens (Some (ann\<lparr>us_id := ''i0''\<rparr>)) a raw, d)"
     "connected d"
    using NewUser_ann [OF nb(1)] nb
    by (simp add: SetupHandler_def CountUsers_def empty_database_def connected_def demo_request_def demo_env_def
        password_in_bounds_def setup_finish_def demo_writes blank_hash)
  show ?thesis using 1 setup_runs_once [OF 1(1) rtranclp.rtrancl_refl, of "demo_request ''k''" None] by auto
qed

section \<open>Refresh tokens\<close>

definition refusals :: "auth_response set" where
  "refusals = {TooMany ''rate limit exceeded'', Failed Unauthorized ''invalid refresh token'',
     Failed Unauthorized ''invalid or expired refresh token''}"

lemma dead_forever:
  assumes "dead (token_hash E t) (user_refresh_tokens d)" "(auth_step E)\<^sup>*\<^sup>* d d'"
  shows "fst (RefreshHandler E q (Some t) d') \<in> refusals"
  using dead_is_refused [OF dead_tokens.history [OF assms(2,1)]] by (simp add: refusals_def)

text \<open>C7: a refresh token is spent by the refresh that uses it, unless the write that revokes it fails, an
  error the handler ignores.  When that write succeeded, then whatever authentication requests follow,
  the old token is refused.  On a connection that stays up both writes succeed, and the answer carries
  a new token that is stored, unrevoked, for the same user.\<close>
theorem refresh_rotates:
  assumes "fresh_ids q db" "rq_rand q 0 = Inr b" "RefreshHandler E q (Some t) db = (Tokens uo a raw, d)"
    and "token_hash E raw \<notin> rf_token_hash ` set (user_refresh_tokens db)" "(auth_step E)\<^sup>*\<^sup>* d d'"
  shows "\<exists>rt. refresh_FindByTokenHash db (token_hash E t) = Inr rt
    \<and> (fst (refresh_Save (token_Revoke (rq_now q) rt) db) = None \<longrightarrow> fst (RefreshHandler E q' (Some t) d') \<in> refusals)
    \<and> (db_links db = None \<longrightarrow> fst (refresh_Save (token_Revoke (rq_now q) rt) db) = None
         \<and> (\<exists>rt'. refresh_FindByTokenHash d (token_hash E raw) = Inr rt' \<and> rt_userID rt' = rt_userID rt
                \<and> rt_revokedAt rt' = None))"
proof -
  obtain rt where rt: "refresh_FindByTokenHash db (token_hash E t) = Inr rt"
    using assms(3) by (rule RefreshHandler_ok)
  have "fst (RefreshHandler E q' (Some t) d') \<in> refusals"
    if "fst (refresh_Save (token_Revoke (rq_now q) rt) db) = None"
    using refresh_spends [OF assms(3) rt that assms(1)] by (rule dead_forever [OF _ assms(5)])
  moreover have "fst (refresh_Save (token_Revoke (rq_now q) rt) db) = None" if "db_links db = None"
    using revoke_succeeds [OF that rt] by simp
  ultimately show ?thesis using rt refresh_rotates_core [OF _ assms(3,1,2,4)] by auto
qed

text \<open>After a logout with a stored refresh token, whatever authentication requests follow, that token is
  refused.\<close>
theorem logout_is_final:
  assumes "db_links db = None" "refresh_FindByTokenHash db (token_hash E t) = Inr rt" "t \<noteq> []"
    and "LogoutHandler E q (Some t) db = (r, d)" "(auth_step E)\<^sup>*\<^sup>* d d'"
  shows "r = NoContent \<and> fst (RefreshHandler E q' (Some t) d') \<in> refusals"
proof -
  have "r = NoContent" and d: "d = snd (refresh_Save (token_Revoke (rq_now q) rt) db)"
    using assms(2-4) by (auto simp: LogoutHandler_def)
  then obtain x where "refresh_Save (token_Revoke (rq_now q) rt) db = (x, d)" by (metis prod.collapse)
  then have "dead (token_hash E t) (user_refresh_tokens d)" by (rule revoke_kills(1) [OF assms(1,2)])
  then show ?thesis using dead_forever [OF _ assms(5)] \<open>r = NoContent\<close> by blast
qed

section \<open>Password resets\<close>

lemma RevokeAll_kills:
  assumes s: "RevokeAllForUser u n db = (None, d)"
    and x: "List.find (\<lambda>r. rf_token_hash r = h) (user_refresh_tokens db) = Some x" "rf_user_id x = u"
  shows "dead h (user_refresh_tokens d)"
proof -
  let ?P = "\<lambda>r. rf_user_id r = u \<and> rf_revoked_at r = None"
  let ?g = "\<lambda>r. r\<lparr>rf_revoked_at := Some (timestamptz n)\<rparr>"
  have d: "user_refresh_tokens d = update_where ?P ?g (user_refresh_tokens db)"
    using exec_one_cases [OF s [unfolded RevokeAllForUser_def]] by (auto simp: Let_def)
  have "List.find (\<lambda>r. rf_token_hash r = h) (user_refresh_tokens d) = map_option (\<lambda>r. if ?P r then ?g r else r)
      (List.find (\<lambda>r. rf_token_hash r = h) (user_refresh_tokens db))"
    unfolding d update_where_def by (rule find_map) simp
  then show ?thesis using x by (auto simp: dead_def)
qed

lemma reset_marks:
  assumes f: "List.find (\<lambda>r. rs_token_hash r = h) (password_resets db) = Some x" "rs_id x = pt_id p"
    and s: "reset_Save (reset_MarkUsed n p) db = (None, d)"
  shows "\<exists>x'. List.find (\<lambda>r. rs_token_hash r = h) (password_resets d) = Some x' \<and> rs_used_at x' \<noteq> None"
proof -
  let ?g = "rs_used_at_update (\<lambda>_. Some (timestamptz n))"
  let ?u = "update_where (\<lambda>x. rs_id x = pt_id p) ?g (password_resets db)"
  have "x \<in> set (password_resets db)" using f(1) by (auto simp: find_Some_iff)
  then have "list_ex (\<lambda>r. rs_id r = pt_id p) (password_resets db)" unfolding list_ex_iff using f(2) by blast
  then have w: "upsert_reset (reset_row_of (reset_MarkUsed n p)) db = Inr (db\<lparr>password_resets := ?u\<rparr>, 1)"
    by (simp add: upsert_reset_def reset_row_of_def reset_MarkUsed_def)
  have d: "password_resets d = ?u"
    using exec_one_cases [OF s [unfolded reset_Save_def]] w by auto
  have "List.find (\<lambda>r. rs_token_hash r = h) ?u = map_option (\<lambda>r. if rs_id r = pt_id p then ?g r else r)
      (List.find (\<lambda>r. rs_token_hash r = h) (password_resets db))"
    unfolding update_where_def by (rule find_map) simp
  then show ?thesis unfolding d f by (simp add: f(2))
qed

lemma credential_stored:
  assumes s: "credential_Save c db = (None, d)" and c: "NewUserCredentials u h n = Inr c"
  shows "\<exists>x. List.find (\<lambda>r. cr_user_id r = u) (user_credentials d) = Some x \<and> cr_password_hash x = h"
    "password_resets d = password_resets db" "user_refresh_tokens d = user_refresh_tokens db"
proof -
  have c': "c = \<lparr> uc_userID = u, uc_passwordHash = h, uc_updatedAt = n \<rparr>"
    using c by (auto simp: NewUserCredentials_def split: if_splits)
  let ?r = "\<lparr> cr_user_id = u, cr_password_hash = h, cr_updated_at = timestamptz n \<rparr>"
  have d: "d = tick (db\<lparr>user_credentials := upsert_by cr_user_id ?r (user_credentials db)\<rparr>)"
    using exec_one_cases [OF s [unfolded credential_Save_def]]
    by (auto simp: upsert_credential_def c' split: if_splits)
  show "password_resets d = password_resets db" "user_refresh_tokens d = user_refresh_tokens db"
    unfolding d by simp_all
  have "List.find (\<lambda>r. cr_user_id r = u) (upsert_by cr_user_id ?r (user_credentials db)) = Some ?r"
    using row_by_upsert [of cr_user_id u ?r] unfolding row_by_def by simp
  then show "\<exists>x. List.find (\<lambda>r. cr_user_id r = u) (user_credentials d) = Some x \<and> cr_password_hash x = h"
    unfolding d by simp
qed

lemma Confirm_ok:
  assumes "PasswordResetConfirmHandler E q (Some req) db = (Flag f b, d)"
  obtains prt h creds d1 d2 x where
    "reset_FindByTokenHash db (token_hash E (rr_Token req)) = Inr prt" "reset_IsValid prt (rq_now q)"
    "ph_HashPassword (ae_hasher E) (rq_rand q 0) (rr_NewPassword req) = Inr h"
    "NewUserCredentials (pt_userID prt) h (rq_now q) = Inr creds" "credential_Save creds db = (None, d1)"
    "reset_Save (reset_MarkUsed (rq_now q) prt) d1 = (x, d2)" "d = snd (RevokeAllForUser (pt_userID prt) (rq_now q) d2)"
  using assms unfolding PasswordResetConfirmHandler_def
  by (auto split: if_splits sum.splits option.splits prod.splits)

lemma RevokeAll_only_tokens:
  assumes "RevokeAllForUser i n db = (r, d)"
  shows "password_resets d = password_resets db" "user_credentials d = user_credentials db"
  using exec_one_cases [OF assms [unfolded RevokeAllForUser_def]] by (auto simp: Let_def)

lemma reset_Save_only_resets:
  assumes "reset_Save p db = (r, d)"
  shows "user_credentials d = user_credentials db" "user_refresh_tokens d = user_refresh_tokens db"
  using exec_one_cases [OF assms [unfolded reset_Save_def]]
  by (auto simp: upsert_reset_def split: if_splits)

text \<open>A spent reset token changes nothing, whatever becomes of the connection.\<close>

lemma spent_reset_refused:
  assumes "List.find (\<lambda>r. rs_token_hash r = token_hash E (rr_Token req)) (password_resets d) = Some x" "rs_used_at x \<noteq> None"
  shows "snd (PasswordResetConfirmHandler E q (Some req) d) = d"
  using assms
  by (auto simp: PasswordResetConfirmHandler_def reset_FindByTokenHash_def query_row_def reset_IsValid_def
      RehydratePasswordResetToken_def split: sum.splits)

lemma discarded_writes_succeed:
  assumes "db_links db = None" "credential_Save creds db = (None, d1)"
    "reset_FindByTokenHash db h = Inr p" "reset_Save (reset_MarkUsed n p) d1 = (e1, d2)" "RevokeAllForUser i n d2 = (e2, d)"
  shows "e1 = None \<and> e2 = None"
proof -
  obtain x where x: "x \<in> set (password_resets db)" "pt_id p = rs_id x"
    using assms(3) unfolding reset_FindByTokenHash_def
    by (rule query_row_ok) (simp add: RehydratePasswordResetToken_def, metis PasswordResetToken.select_convs(1))
  have c: "db_links d1 = None" "password_resets d1 = password_resets db"
    using exec_one_cases [OF assms(2) [unfolded credential_Save_def]] assms(1)
    by (auto simp: upsert_credential_def tick_def split: if_splits)
  have "list_ex (\<lambda>r. rs_id r = pt_id p) (password_resets d1)" unfolding list_ex_iff using x c(2) by metis
  then have e1: "e1 = None" "db_links d2 = None"
    using assms(4) c(1) by (auto simp: reset_Save_def exec_one_up upsert_reset_def reset_row_of_def reset_MarkUsed_def tick_def)
  then show ?thesis using assms(5) by (auto simp: RevokeAllForUser_def exec_one_up Let_def)
qed

text \<open>C8: a confirmed password reset used a token that was unused and unexpired, and has stored the hash of the
  new password.  After it the handler makes two more writes whose errors it ignores: when the first
  succeeded, the reset token can not be used again; when the second succeeded, every refresh token the
  user held is refused from then on, whatever authentication requests follow.  Both succeed on a
  connection that stays up.\<close>
theorem password_reset_ends_sessions:
  assumes ok: "PasswordResetConfirmHandler E q (Some req) db = (Flag f b, d)" and hist: "(auth_step E)\<^sup>*\<^sup>* d d'"
  shows "\<exists>prt h creds d1 d2 e1 e2. reset_FindByTokenHash db (token_hash E (rr_Token req)) = Inr prt \<and> reset_IsValid prt (rq_now q)
     \<and> ph_HashPassword (ae_hasher E) (rq_rand q 0) (rr_NewPassword req) = Inr h
     \<and> (\<exists>x. List.find (\<lambda>r. cr_user_id r = pt_userID prt) (user_credentials d) = Some x \<and> cr_password_hash x = h)
     \<and> NewUserCredentials (pt_userID prt) h (rq_now q) = Inr creds \<and> credential_Save creds db = (None, d1)
     \<and> reset_Save (reset_MarkUsed (rq_now q) prt) d1 = (e1, d2) \<and> RevokeAllForUser (pt_userID prt) (rq_now q) d2 = (e2, d)
     \<and> (db_links db = None \<longrightarrow> e1 = None \<and> e2 = None)
     \<and> (e1 = None \<longrightarrow> (\<forall>q2 req2. rr_Token req2 = rr_Token req \<longrightarrow> snd (PasswordResetConfirmHandler E q2 (Some req2) d) = d))
     \<and> (e2 = None \<longrightarrow> (\<forall>t rt q2. refresh_FindByTokenHash db (token_hash E t) = Inr rt \<longrightarrow> rt_userID rt = pt_userID prt \<longrightarrow>
          fst (RefreshHandler E q2 (Some t) d') \<in> refusals))"
proof -
  obtain prt h creds d1 d2 e1 where r:
    "reset_FindByTokenHash db (token_hash E (rr_Token req)) = Inr prt" "reset_IsValid prt (rq_now q)"
    "ph_HashPassword (ae_hasher E) (rq_rand q 0) (rr_NewPassword req) = Inr h"
    "NewUserCredentials (pt_userID prt) h (rq_now q) = Inr creds" "credential_Save creds db = (None, d1)"
    "reset_Save (reset_MarkUsed (rq_now q) prt) d1 = (e1, d2)" "d = snd (RevokeAllForUser (pt_userID prt) (rq_now q) d2)"
    using ok by (rule Confirm_ok)
  obtain e2 where a: "RevokeAllForUser (pt_userID prt) (rq_now q) d2 = (e2, d)" using r(7) by (metis prod.collapse)
  note c = credential_stored [OF r(5,4)] and o = RevokeAll_only_tokens [OF a] and p = reset_Save_only_resets [OF r(6)]
  have again: "snd (PasswordResetConfirmHandler E q2 (Some req2) d) = d" if "e1 = None" "rr_Token req2 = rr_Token req" for q2 req2
  proof -
    obtain x where x: "List.find (\<lambda>r. rs_token_hash r = token_hash E (rr_Token req)) (password_resets d1) = Some x" "rs_id x = pt_id prt"
      using r(1) unfolding reset_FindByTokenHash_def c(2)
      by (rule query_row_ok) (simp add: RehydratePasswordResetToken_def, metis PasswordResetToken.select_convs(1))
    show ?thesis
      using reset_marks [OF x r(6) [unfolded that(1)]] spent_reset_refused [of E req2 d] that(2) o(1) by auto
  qed
  have out: "fst (RefreshHandler E q2 (Some t) d') \<in> refusals"
    if e: "e2 = None" and rt: "refresh_FindByTokenHash db (token_hash E t) = Inr rt" "rt_userID rt = pt_userID prt" for t rt q2
  proof -
    obtain x where "List.find (\<lambda>r. rf_token_hash r = token_hash E t) (user_refresh_tokens db) = Some x" "rf_user_id x = rt_userID rt"
      using rt(1) unfolding refresh_FindByTokenHash_def
      by (rule query_row_ok) (simp add: RehydrateRefreshToken_def, metis RefreshToken.select_convs(2))
    then have "dead (token_hash E t) (user_refresh_tokens d)"
      using RevokeAll_kills [OF a [unfolded e]] rt(2) p(2) c(3) by simp
    then show ?thesis using hist by (rule dead_forever)
  qed
  show ?thesis
    by (rule exI [of _ prt], rule exI [of _ h], rule exI [of _ creds], rule exI [of _ d1], rule exI [of _ d2],
        rule exI [of _ e1], rule exI [of _ e2])
       (use r(1-6) a c(1) o(2) p(1) discarded_writes_succeed [OF _ r(5,1,6) a] again out in auto)
qed

section \<open>The second factor\<close>

text \<open>The user's stored settings say that the second factor is enabled.\<close>

definition mfa_on :: "database \<Rightarrow> UserID \<Rightarrow> bool" where
  "mfa_on db u \<longleftrightarrow> (case List.find (\<lambda>r. mf_user_id r = u) (mfa_totp_settings db) of None \<Rightarrow> False | Some r \<Rightarrow> mf_enabled r)"

text \<open>A query for the settings answers from the table or fails.\<close>

definition answers_or_fails :: "(database \<Rightarrow> UserID \<Rightarrow> TOTPSettings result) \<Rightarrow> database \<Rightarrow> bool" where
  "answers_or_fails findMFA db \<longleftrightarrow> (\<forall>u. findMFA db u = mfa_FindByUserID db u \<or> (\<exists>e. findMFA db u = Inl e))"

lemma mfa_read:
  assumes "answers_or_fails findMFA db" "findMFA db u = Inr s"
  shows "mfa_on db u \<longleftrightarrow> ts_enabled s"
proof -
  have "mfa_FindByUserID db u = Inr s"
    using assms unfolding answers_or_fails_def by (metis sum.distinct(1))
  then show ?thesis unfolding mfa_FindByUserID_def
    by (rule query_row_ok) (auto simp: mfa_on_def NewTOTPSettings_def split: if_splits)
qed

definition password_right :: "auth_env \<Rightarrow> database \<Rightarrow> LoginRequest option \<Rightarrow> User \<Rightarrow> bool" where
  "password_right E db body user \<longleftrightarrow> (\<exists>req creds. body = Some req \<and> find_account E db (lr_EmailOrUsername req) = Inr user
     \<and> credential_FindByUserID db (us_id user) = Inr creds
     \<and> ph_VerifyPassword (ae_hasher E) (lr_Password req) (uc_passwordHash creds) = Inr True)"

lemma login_finish_response:
  "login_finish E q g user db = (r, d) \<Longrightarrow> r = Panicked \<or> (\<exists>a raw. r = Tokens (Some user) a raw)"
  unfolding login_finish_def Let_def by (auto split: option.splits prod.splits)

lemma login_reading_cases:
  assumes "login_reading findMFA E q body db = (r, d)"
  shows "d = db \<and> (\<forall>uo a raw t. r \<noteq> Tokens uo a raw \<and> r \<noteq> NeedsMFA t) \<or>
    (\<exists>user. password_right E db body user \<and>
      (if case findMFA db (us_id user) of Inl _ \<Rightarrow> False | Inr s \<Rightarrow> ts_enabled s
       then d = db \<and> (\<exists>t. r = NeedsMFA t \<and>
          SignMFATicket (ae_mac E) (ae_signer E) (rq_rand q 0) (rq_now q) (us_id user) (rq_now q + 5 * minute) = Inr t)
       else r = Panicked \<or> (\<exists>a raw. r = Tokens (Some user) a raw)))"
  using assms unfolding login_reading_def password_right_def
  by (auto split: if_splits sum.splits option.splits dest!: login_finish_response)


lemma VerifyMFATicket_same:
  assumes "VerifyMFATicket mac s t n = Inr p" "VerifyMFATicket mac s t n' = Inr p'"
  shows "p' = p"
  using assms by (elim VerifyMFATicket_ok) simp

lemma Verify_spends:
  assumes "TOTPVerifyHandler E q (Some req) db = (r, d)" "rq_ip_allowed q" "vr_MFATicket req \<noteq> []"
    and "VerifyMFATicket (ae_mac E) (ae_signer E) (vr_MFATicket req) (rq_now q) = Inr (u, jti)" "jti \<noteq> []"
    and "r \<noteq> Failed Unavailable ''could not verify MFA ticket, try again''" "fresh_ids q db"
  shows "spent jti d"
proof -
  obtain c d1 where c: "ticket_Claim jti (rq_now q) db = (c, d1)" by fastforce
  then obtain b where b: "c = Inr b" using assms(1-6) by (cases c) (auto simp: TOTPVerifyHandler_def)
  have s: "spent jti d1" using ticket_Claim_spent(2) [OF c b] by simp
  have "fresh_ids q d1" using fresh_after [OF step_keeps(7) [OF c] assms(7)] .
  then show ?thesis
    using assms(1-5) c b s spent_tickets.claimed [of E q req u d1 r d jti]
    by (auto simp: TOTPVerifyHandler_def split: if_splits)
qed

lemma second_factor_ok:
  assumes "second_factor E q req u s db = Some (True, d)"
  shows "(vr_Code req \<noteq> [] \<and> d = db \<and> (\<exists>b. DecryptSecret (ae_aead E) (ae_sha256 E) (ts_encryptedSecret s) (ae_masterKey E) = Inr b
          \<and> ValidateCode (ae_cm E) (ae_hmac1 E) (ae_engine E) b (vr_Code req) (rq_now q) = Some (Inr True)))
    \<or> (vr_Code req = [] \<and> vr_RecoveryCode req \<noteq> [] \<and> (\<exists>i s'. VerifyRecoveryCode (ae_cm E) (ae_sha256 E) (vr_RecoveryCode req) (ts_recoveryCodeHashes s) = Some i
          \<and> NewTOTPSettings u (ts_encryptedSecret s) (remove_at i (ts_recoveryCodeHashes s)) True (ts_confirmedAt s) (ts_createdAt s) = Inr s'
          \<and> d = snd (mfa_Save s' db)))"
  using assms unfolding second_factor_def by (auto split: if_splits sum.splits option.splits)

lemma ticket_Claim_reads:
  assumes "ticket_Claim j n db = (Inr b, d)"
  shows "mfa_totp_settings d = mfa_totp_settings db" "users d = users db" "connected db"
proof -
  show "users d = users db" using other_writes_keep_users(8) [of j n db] assms by simp
  have "mfa_totp_settings (snd (ticket_Claim j n db)) = mfa_totp_settings db"
    unfolding ticket_Claim_def by (rule claim_keeps) (auto simp: keeps_def split: if_splits)
  then show "mfa_totp_settings d = mfa_totp_settings db" using assms by simp
  show "connected db" using assms by (auto simp: ticket_Claim_def claim_def Exec_def split: if_splits sum.splits prod.splits)
qed

lemma verify_finish_response:
  "verify_finish E q g user db = (Tokens uo a raw, d) \<Longrightarrow> uo = Some user"
  unfolding verify_finish_def Let_def by (auto split: option.splits prod.splits)

lemma Verify_tokens:
  assumes "TOTPVerifyHandler E q (Some req) db = (Tokens uo a raw, d)"
  obtains u jti s user d1 d2 where
    "VerifyMFATicket (ae_mac E) (ae_signer E) (vr_MFATicket req) (rq_now q) = Inr (u, jti)"
    "(if jti = [] then d1 = db else ticket_Claim jti (rq_now q) db = (Inr True, d1))"
    "mfa_FindByUserID d1 u = Inr s" "ts_enabled s" "user_FindByID (ae_cm E) d1 u = Inr user"
    "second_factor E q req u s d1 = Some (True, d2)" "verify_finish E q (vr_EnrolmentGrant req) user d2 = (Tokens uo a raw, d)"
  using assms unfolding TOTPVerifyHandler_def verify_claimed_def
  by (auto split: if_splits sum.splits option.splits prod.splits)

text \<open>C5: the second step opens a session only for the account a still valid, unspent ticket names, whose second
  factor is enabled, and only with a code of the current window for its decrypted secret or with one
  of its recovery codes; the ticket is spent then.\<close>
theorem verify_needs_second_factor:
  assumes "TOTPVerifyHandler E q (Some req) db = (Tokens uo a raw, d)" "fresh_ids q db"
  shows "\<exists>user jti s. uo = Some user
     \<and> VerifyMFATicket (ae_mac E) (ae_signer E) (vr_MFATicket req) (rq_now q) = Inr (us_id user, jti)
     \<and> (jti \<noteq> [] \<longrightarrow> \<not> spent jti db \<and> spent jti d)
     \<and> mfa_FindByUserID db (us_id user) = Inr s \<and> ts_enabled s
     \<and> (if vr_Code req \<noteq> []
        then (\<exists>secret. DecryptSecret (ae_aead E) (ae_sha256 E) (ts_encryptedSecret s) (ae_masterKey E) = Inr secret
               \<and> ValidateCode (ae_cm E) (ae_hmac1 E) (ae_engine E) secret (vr_Code req) (rq_now q) = Some (Inr True))
        else VerifyRecoveryCode (ae_cm E) (ae_sha256 E) (vr_RecoveryCode req) (ts_recoveryCodeHashes s) \<noteq> None)"
  using assms(1)
proof (rule Verify_tokens)
  fix u jti s user d1 d2
  assume t: "VerifyMFATicket (ae_mac E) (ae_signer E) (vr_MFATicket req) (rq_now q) = Inr (u, jti)"
    and c: "if jti = [] then d1 = db else ticket_Claim jti (rq_now q) db = (Inr True, d1)"
    and s: "mfa_FindByUserID d1 u = Inr s" "ts_enabled s" and user: "user_FindByID (ae_cm E) d1 u = Inr user"
    and f: "second_factor E q req u s d1 = Some (True, d2)"
    and v: "verify_finish E q (vr_EnrolmentGrant req) user d2 = (Tokens uo a raw, d)"
  have u: "us_id user = u" using user_FindByID_ok [OF user] by simp
  have db: "mfa_FindByUserID db u = Inr s"
    using s(1) c ticket_Claim_reads [of jti "rq_now q" db True d1]
    by (auto simp: mfa_FindByUserID_def query_row_def split: if_splits)
  have "\<not> spent jti db \<and> spent jti d" if "jti \<noteq> []"
    using ticket_Claim_spent(2) [of jti "rq_now q" db "Inr True" d1 True] c that Verify_spends [OF assms(1) _ _ t that _ assms(2)]
      assms(1) by (auto simp: TOTPVerifyHandler_def split: if_splits)
  then show ?thesis
    using t u db s(2) verify_finish_response [OF v] second_factor_ok [OF f] by auto
qed

text \<open>C6: an attempt with a ticket spends it, right or wrong code: no later attempt with the same ticket opens a
  session, whatever authentication requests come between.\<close>
theorem mfa_ticket_single_use:
  assumes "TOTPVerifyHandler E q (Some req) db = (r, d)" "rq_ip_allowed q" "vr_MFATicket req \<noteq> []"
    and "VerifyMFATicket (ae_mac E) (ae_signer E) (vr_MFATicket req) (rq_now q) = Inr (u, jti)" "jti \<noteq> []"
    and "r \<noteq> Failed Unavailable ''could not verify MFA ticket, try again''" "fresh_ids q db"
    and "(auth_step E)\<^sup>*\<^sup>* d d'" "vr_MFATicket req' = vr_MFATicket req"
  shows "fst (TOTPVerifyHandler E q' (Some req') d') \<noteq> Tokens uo a raw"
proof
  assume "fst (TOTPVerifyHandler E q' (Some req') d') = Tokens uo a raw"
  then obtain d'' where "TOTPVerifyHandler E q' (Some req') d' = (Tokens uo a raw, d'')" by (metis prod.collapse)
  then obtain u' jti' d1 where
    t: "VerifyMFATicket (ae_mac E) (ae_signer E) (vr_MFATicket req) (rq_now q') = Inr (u', jti')"
      "if jti' = [] then d1 = d' else ticket_Claim jti' (rq_now q') d' = (Inr True, d1)"
    using assms(9) by (elim Verify_tokens) metis
  have "jti' = jti" using VerifyMFATicket_same [OF assms(4) t(1)] by simp
  then have "\<not> spent jti d'" using t(2) assms(5) ticket_Claim_spent(2) [of jti "rq_now q'" d' "Inr True" d1 True] by simp
  then show False using spent_tickets.history [OF assms(8) Verify_spends [OF assms(1-7)]] by simp
qed

lemma mfa_stored:
  assumes up: "db_links db = None" and n: "NewTOTPSettings u sec hs True ca cr = Inr s'"
    and f: "mfa_FindByUserID db u = Inr s" and w: "d = snd (mfa_Save s' db)"
  shows "\<exists>s2. mfa_FindByUserID d u = Inr s2 \<and> ts_recoveryCodeHashes s2 = hs \<and> ts_enabled s2 \<and> ts_encryptedSecret s2 = sec"
    "db_links d = None"
proof -
  have s': "s' = \<lparr> ts_userID = u, ts_encryptedSecret = sec, ts_recoveryCodeHashes = hs, ts_enabled = True,
      ts_confirmedAt = ca, ts_createdAt = cr \<rparr>" "\<not> blank u" "sec \<noteq> []"
    using n by (auto simp: NewTOTPSettings_def split: if_splits)
  obtain x where x: "x \<in> set (mfa_totp_settings db)" "mf_user_id x = u"
      "List.find (\<lambda>r. mf_user_id r = u) (mfa_totp_settings db) = Some x"
    using f unfolding mfa_FindByUserID_def by (rule query_row_ok) blast
  let ?g = "\<lambda>x. (mfa_row_of s')\<lparr>mf_created_at := mf_created_at x\<rparr>"
  let ?u = "update_where (\<lambda>x. mf_user_id x = u) ?g (mfa_totp_settings db)"
  have m: "mf_user_id (mfa_row_of s') = u" by (simp add: mfa_row_of_def s'(1))
  have "list_ex (\<lambda>r. mf_user_id r = u) (mfa_totp_settings db)" unfolding list_ex_iff using x(1,2) by metis
  then have e: "upsert_mfa (mfa_row_of s') db = Inr (db\<lparr>mfa_totp_settings := ?u\<rparr>, 1)"
    by (simp add: upsert_mfa_def m)
  have d: "d = db\<lparr>mfa_totp_settings := ?u\<rparr>"
    using w exec_one_steady [where s = "upsert_mfa (mfa_row_of s')", OF up e] up by (simp add: mfa_Save_def)
  have "List.find (\<lambda>r. mf_user_id r = u) ?u = map_option (\<lambda>r. if mf_user_id r = u then ?g r else r)
      (List.find (\<lambda>r. mf_user_id r = u) (mfa_totp_settings db))"
    unfolding update_where_def by (rule find_map) (simp add: m)
  then have "List.find (\<lambda>r. mf_user_id r = u) ?u = Some (?g x)" unfolding x(3) using x(2) by simp
  then show "\<exists>s2. mfa_FindByUserID d u = Inr s2 \<and> ts_recoveryCodeHashes s2 = hs \<and> ts_enabled s2 \<and> ts_encryptedSecret s2 = sec"
    unfolding mfa_FindByUserID_def query_row_def d using up s'(2,3)
    by (simp add: connected_def NewTOTPSettings_def mfa_row_of_def s'(1))
  show "db_links d = None" using up unfolding d by simp
qed

text \<open>A connection that holds does so over every request.\<close>

lemma exec_one_links:
  assumes "db_links db = None" "\<And>d n. s db = Inr (d, n) \<Longrightarrow> db_links d = None"
  shows "db_links (snd (exec_one s db)) = None"
proof -
  obtain r d where e: "exec_one s db = (r, d)" by fastforce
  show ?thesis using exec_one_cases [OF e] assms by (auto simp: e tick_def)
qed

lemma claim_links:
  assumes "db_links db = None" "\<And>d n. s db = Inr (d, n) \<Longrightarrow> db_links d = None"
  shows "db_links (snd (claim s db)) = None"
proof -
  obtain r d where e: "claim s db = (r, d)" by fastforce
  show ?thesis using claim_cases [OF e] assms by (auto simp: e tick_def)
qed

lemma exec_found_links:
  assumes "db_links db = None" "\<And>d n. s db = Inr (d, n) \<Longrightarrow> db_links d = None"
  shows "db_links (snd (exec_found m s db)) = None"
  using assms by (auto simp: exec_found_def Exec_def tick_def split: sum.splits prod.splits if_splits)

interpretation steady: write_invariant "\<lambda>db. db_links db = None"
  by unfold_locales
    (auto simp: user_Save_def credential_Save_def membership_Save_def mfa_Save_def mfa_Delete_def reset_Save_def
      refresh_Save_def RevokeAllForUser_def grant_Claim_def ticket_Claim_def AssignOwnerByPairingSession_def Let_def
      upsert_user_def upsert_credential_def upsert_membership_def upsert_mfa_def upsert_reset_def
      upsert_refresh_def update_devices_def intro!: exec_one_links claim_links exec_found_links split: if_splits)

lemma verify_finish_mfa:
  assumes "verify_finish E q g user db = (r, d)"
  shows "mfa_totp_settings d = mfa_totp_settings db"
proof -
  have r: "mfa_totp_settings (snd (refresh_Save t db)) = mfa_totp_settings db" for t db
    unfolding refresh_Save_def
    by (rule snd_exec_one_keeps) (auto simp: keeps_def upsert_refresh_def split: if_splits)
  have o: "mfa_totp_settings (snd (AssignOwnerByPairingSession sid i db)) = mfa_totp_settings db" for sid i db
    unfolding AssignOwnerByPairingSession_def
    by (rule exec_found_keeps) (auto simp: keeps_def update_devices_def Let_def split: if_splits)
  have c: "mfa_totp_settings (snd (grant_Claim j n db)) = mfa_totp_settings db" for j n db
    unfolding grant_Claim_def by (rule claim_keeps) (auto simp: keeps_def split: if_splits)
  have "mfa_totp_settings (applyEnrolmentGrant E g u n db) = mfa_totp_settings db" for u n
    unfolding applyEnrolmentGrant_def using c o
    by (auto split: option.splits sum.splits prod.splits) (metis snd_conv)+
  with assms r show ?thesis
    unfolding verify_finish_def Let_def by (auto split: option.splits prod.splits) (metis snd_conv)+
qed

text \<open>A recovery code opens at most one session: once it has, on a steady connection, it is no longer among
  the account's codes, while every other code still is and the second factor stays enabled.\<close>
theorem recovery_code_single_use:
  assumes "db_links db = None" "fresh_ids q db" "vr_Code req = []"
    and "TOTPVerifyHandler E q (Some req) db = (Tokens (Some user) a raw, d)"
    and "mfa_FindByUserID db (us_id user) = Inr s" "distinct (ts_recoveryCodeHashes s)"
  shows "\<exists>i s'. VerifyRecoveryCode (ae_cm E) (ae_sha256 E) (vr_RecoveryCode req) (ts_recoveryCodeHashes s) = Some i
     \<and> mfa_FindByUserID d (us_id user) = Inr s' \<and> ts_enabled s'
     \<and> VerifyRecoveryCode (ae_cm E) (ae_sha256 E) (vr_RecoveryCode req) (ts_recoveryCodeHashes s') = None
     \<and> set (ts_recoveryCodeHashes s') = set (ts_recoveryCodeHashes s) - {ts_recoveryCodeHashes s ! i}"
  using assms(4)
proof (rule Verify_tokens)
  fix u jti s1 user1 d1 d2
  assume c: "if jti = [] then d1 = db else ticket_Claim jti (rq_now q) db = (Inr True, d1)"
    and s1: "mfa_FindByUserID d1 u = Inr s1" "ts_enabled s1" and user: "user_FindByID (ae_cm E) d1 u = Inr user1"
    and f: "second_factor E q req u s1 d1 = Some (True, d2)"
    and v: "verify_finish E q (vr_EnrolmentGrant req) user1 d2 = (Tokens (Some user) a raw, d)"
  have u: "us_id user = u" using verify_finish_response [OF v] user_FindByID_ok [OF user] by simp
  have l1: "db_links d1 = None" using c assms(1) steady.writes(7) by (auto split: if_splits)
  have "mfa_FindByUserID db u = mfa_FindByUserID d1 u"
    using c l1 assms(1) ticket_Claim_reads(1) by (auto simp: mfa_FindByUserID_def query_row_def connected_def split: if_splits)
  then have s: "s1 = s" using s1(1) assms(5) u by simp
  obtain i s' where i: "VerifyRecoveryCode (ae_cm E) (ae_sha256 E) (vr_RecoveryCode req) (ts_recoveryCodeHashes s) = Some i"
    "NewTOTPSettings u (ts_encryptedSecret s) (remove_at i (ts_recoveryCodeHashes s)) True (ts_confirmedAt s) (ts_createdAt s) = Inr s'"
    "d2 = snd (mfa_Save s' d1)" using second_factor_ok [OF f] assms(3) s by auto
  note m = mfa_stored [OF l1 i(2) s1(1) i(3)]
  have "fresh_ids q d1" using c assms(2) fresh_after [OF step_keeps(7)] by (auto split: if_splits)
  then have "fresh_ids q d2" using fresh_after [OF second_factor_keeps [OF f]] by blast
  then have l: "db_links d = None" by (rule steady.finish(2) [OF m(2) _ v])
  have "mfa_FindByUserID d u = mfa_FindByUserID d2 u"
    using l m(2) verify_finish_mfa [OF v] by (simp add: mfa_FindByUserID_def query_row_def connected_def)
  then obtain s2 where s2: "mfa_FindByUserID d u = Inr s2" "ts_recoveryCodeHashes s2 = remove_at i (ts_recoveryCodeHashes s)" "ts_enabled s2"
    using m(1) by auto
  have "i < length (ts_recoveryCodeHashes s)" using i(1) by (auto simp: VerifyRecoveryCode_def index_in_iff)
  then show ?thesis
    using i(1) s2 u recovery_code_spent [OF i(1) assms(6)] remove_at_distinct [OF assms(6)] by auto
qed

section \<open>The endpoints at work\<close>

lemma demo_blanks: "\<not> blank ''u1''" "\<not> blank ''n0''" "\<not> blank ''h:password''" "\<not> blank ''h:passport''"
  by (simp_all add: blank_visible visible_def)

lemma demo_tables:
  "db_links demo_db = None" "users demo_db = [user_row_of ann]"
  "user_refresh_tokens demo_db = [\<lparr> rf_id = ''r1'', rf_user_id = ''u1'', rf_token_hash = sha256_hex (\<lambda>s. s) ''old'',
     rf_expires_at = second, rf_revoked_at = None, rf_created_at = 0 \<rparr>]"
  "mfa_totp_settings demo_db = [\<lparr> mf_user_id = ''u1'', mf_encrypted_secret = ''s'',
     mf_recovery_code_hashes = [sha256_hex (\<lambda>s. s) ''AB''], mf_enabled = True, mf_confirmed_at = Some 0, mf_created_at = 0 \<rparr>]"
  "password_resets demo_db = [\<lparr> rs_id = ''p1'', rs_user_id = ''u1'', rs_token_hash = sha256_hex (\<lambda>s. s) ''reset'',
     rs_expires_at = second, rs_used_at = None, rs_created_at = 0 \<rparr>]"
  "user_credentials demo_db = [\<lparr> cr_user_id = ''u1'', cr_password_hash = ''h:password'', cr_updated_at = 0 \<rparr>]"
  "mfa_ticket_jtis demo_db = []"
  by (simp_all add: demo_db_def empty_database_def)

lemma demo_fresh: "fresh_ids (demo_request ''n'') demo_db"
  by (simp add: fresh_ids_def demo_request_def demo_tables)

lemma demo_env_parts [simp]:
  "ae_cm demo_env = id" "ae_sql_lower demo_env = id" "ae_sha256 demo_env = (\<lambda>s. s)" "ae_signer demo_env = sample_signer"
  "ae_mac demo_env = toy_mac" "ae_hasher demo_env = \<lparr> ph_HashPassword = (\<lambda>r p. Inr (''h:'' @ p)),
     ph_VerifyPassword = (\<lambda>p h. Inr (h = ''h:'' @ p)) \<rparr>"
  by (simp_all add: demo_env_def)

lemma demo_request_parts [simp]:
  "rq_now (demo_request i) = 0" "rq_ip_allowed (demo_request i)" "rq_user_allowed (demo_request i)"
  "rq_ids (demo_request i) 0 = i @ ''0''" "rq_rand (demo_request i) n = Inr i"
  by (simp_all add: demo_request_def)

lemma demo_token: "refresh_FindByTokenHash demo_db (token_hash demo_env ''old'') =
    Inr \<lparr> rt_id = ''r1'', rt_userID = ''u1'', rt_tokenHash = token_hash demo_env ''old'', rt_expiresAt = second,
          rt_revokedAt = None, rt_createdAt = 0 \<rparr>"
  by (simp add: refresh_FindByTokenHash_def query_row_def demo_tables connected_def token_hash_def RehydrateRefreshToken_def)

definition demo_minted :: "instant \<Rightarrow> RefreshToken" where
  "demo_minted e = RehydrateRefreshToken ''n0'' ''u1'' (token_hash demo_env (hex_EncodeToString ''n'')) e None 0"

lemma demo_mint: "mint_refresh (\<lambda>s. s) (Inr ''n'') ''n0'' ''u1'' e 0 = Some (hex_EncodeToString ''n'', demo_minted e)"
  using demo_blanks by (simp add: mint_refresh_def generateRandomToken_def Let_def NewRefreshToken_def blank_hash demo_minted_def token_hash_def)

theorem logout_is_final_witness:
  "\<exists>d. LogoutHandler demo_env (demo_request ''n'') (Some ''old'') demo_db = (NoContent, d)
     \<and> fst (RefreshHandler demo_env (demo_request ''m'') (Some ''old'') d) \<in> refusals"
proof -
  obtain r d where l: "LogoutHandler demo_env (demo_request ''n'') (Some ''old'') demo_db = (r, d)" by fastforce
  have "r = NoContent \<and> fst (RefreshHandler demo_env (demo_request ''m'') (Some ''old'') d) \<in> refusals"
    by (rule logout_is_final [OF demo_tables(1) demo_token _ l rtranclp.rtrancl_refl]) simp
  with l show ?thesis by blast
qed

theorem refresh_rotates_witness:
  "\<exists>a d. RefreshHandler demo_env (demo_request ''n'') (Some ''old'') demo_db = (Tokens None a (hex_EncodeToString ''n''), d)
     \<and> (\<exists>rt'. refresh_FindByTokenHash d (token_hash demo_env (hex_EncodeToString ''n'')) = Inr rt' \<and> rt_userID rt' = ''u1'')
     \<and> fst (RefreshHandler demo_env (demo_request ''m'') (Some ''old'') d) \<in> refusals"
proof -
  have u: "user_FindByID id demo_db ''u1'' = Inr ann" by (rule demo_FindByID) (simp_all add: demo_tables connected_def)
  have i: "us_id ann = ''u1''" by (simp add: ann_def)
  let ?rt = "\<lparr> rt_id = ''r1'', rt_userID = ''u1'', rt_tokenHash = token_hash demo_env ''old'', rt_expiresAt = second,
          rt_revokedAt = None, rt_createdAt = 0 \<rparr>"
  obtain x d1 where s1: "refresh_Save (token_Revoke 0 ?rt) demo_db = (x, d1)" by fastforce
  obtain y d where s2: "refresh_Save (demo_minted (refresh_ttl demo_env d1)) d1 = (y, d)" by fastforce
  have r: "RefreshHandler demo_env (demo_request ''n'') (Some ''old'') demo_db
      = (Tokens None (access_token demo_env ann (library_claims d ''u1'') (rq_ids (demo_request ''n'') 1) 0)
           (hex_EncodeToString ''n''), d)"
    unfolding RefreshHandler_def by (simp add: demo_token IsActive_def u s1 i demo_mint s2)
  have "token_hash demo_env (hex_EncodeToString ''n'') \<notin> rf_token_hash ` set (user_refresh_tokens demo_db)"
    by (auto simp: demo_tables token_hash_def sha256_hex_def dest!: hex_EncodeToString_inj arg_cong [where f = length])
  from refresh_rotates [OF demo_fresh _ r this rtranclp.rtrancl_refl, of "''n''" "demo_request ''m''"]
  show ?thesis using r demo_token demo_tables(1) by auto
qed

theorem password_reset_ends_sessions_witness:
  "\<exists>d. PasswordResetConfirmHandler demo_env (demo_request ''n'') (Some \<lparr> rr_Token = ''reset'', rr_NewPassword = ''passport'' \<rparr>) demo_db
       = (Flag ''success'' True, d)
     \<and> (\<exists>x. List.find (\<lambda>r. cr_user_id r = ''u1'') (user_credentials d) = Some x \<and> cr_password_hash x = ''h:passport'')
     \<and> fst (RefreshHandler demo_env (demo_request ''m'') (Some ''old'') d) \<in> refusals"
proof -
  let ?req = "\<lparr> rr_Token = ''reset'', rr_NewPassword = ''passport'' \<rparr>"
  let ?p = "RehydratePasswordResetToken ''p1'' ''u1'' (token_hash demo_env ''reset'') second None 0"
  have f: "reset_FindByTokenHash demo_db (token_hash demo_env ''reset'') = Inr ?p"
    by (simp add: reset_FindByTokenHash_def query_row_def demo_tables connected_def token_hash_def)
  have p: "pt_userID ?p = ''u1''" "reset_IsValid ?p 0" by (simp_all add: RehydratePasswordResetToken_def reset_IsValid_def)
  let ?c = "\<lparr> uc_userID = ''u1'', uc_passwordHash = ''h:passport'', uc_updatedAt = 0 \<rparr>"
  have c: "NewUserCredentials ''u1'' ''h:passport'' 0 = Inr ?c" using demo_blanks by (simp add: NewUserCredentials_def)
  obtain d1 where s1: "credential_Save ?c demo_db = (None, d1)"
    by (simp add: credential_Save_def upsert_credential_def exec_one_up demo_tables user_row_of_def ann_def)
  obtain x d2 where s2: "reset_Save (reset_MarkUsed 0 ?p) d1 = (x, d2)" by fastforce
  have r: "PasswordResetConfirmHandler demo_env (demo_request ''n'') (Some ?req) demo_db =
      (Flag ''success'' True, snd (RevokeAllForUser ''u1'' 0 d2))"
    unfolding PasswordResetConfirmHandler_def by (simp add: password_in_bounds_def f p c s1 s2)
  obtain prt h where w: "reset_FindByTokenHash demo_db (token_hash demo_env (rr_Token ?req)) = Inr prt"
      "ph_HashPassword (ae_hasher demo_env) (rq_rand (demo_request ''n'') 0) (rr_NewPassword ?req) = Inr h"
      "\<exists>x. List.find (\<lambda>r. cr_user_id r = pt_userID prt) (user_credentials (snd (RevokeAllForUser ''u1'' 0 d2))) = Some x
         \<and> cr_password_hash x = h"
      "\<forall>t rt q2. refresh_FindByTokenHash demo_db (token_hash demo_env t) = Inr rt \<longrightarrow> rt_userID rt = pt_userID prt \<longrightarrow>
          fst (RefreshHandler demo_env q2 (Some t) (snd (RevokeAllForUser ''u1'' 0 d2))) \<in> refusals"
    using password_reset_ends_sessions [OF r rtranclp.rtrancl_refl] demo_tables(1) by blast
  have "prt = ?p" "h = ''h:passport''" using w(1,2) f by simp_all
  then show ?thesis using r w(3,4) demo_token p(1) by auto
qed

text \<open>Logging in to the account with a second factor, and completing the login with a recovery code.\<close>

definition demo_login :: LoginRequest where
  "demo_login = \<lparr> lr_EmailOrUsername = ''a@b.c'', lr_Password = ''password'', lr_EnrolmentGrant = [] \<rparr>"

definition demo_ticket :: string where
  "demo_ticket = (case SignMFATicket toy_mac sample_signer (Inr ''n'') 0 ''u1'' (5 * minute) of Inl _ \<Rightarrow> [] | Inr t \<Rightarrow> t)"

definition demo_verify :: VerifyRequest where
  "demo_verify = \<lparr> vr_MFATicket = demo_ticket, vr_Code = [], vr_RecoveryCode = ''ab'', vr_EnrolmentGrant = [] \<rparr>"

lemma demo_ticket: "SignMFATicket toy_mac sample_signer (Inr ''n'') 0 ''u1'' (5 * minute) = Inr demo_ticket"
  by (simp add: demo_ticket_def SignMFATicket_def newJTI_def)

lemma demo_signer:
  "valid_utf8 (js_issuer sample_signer)" "valid_utf8 ''u1''" "in_int64 (unix 0)" "in_int64 (unix (5 * minute))"
  by (simp_all add: sample_signer_def NewJWTSigner_def valid_utf8_ascii in_int64_def unix_def)

lemma demo_ticket_verifies: "VerifyMFATicket toy_mac sample_signer demo_ticket 0 = Inr (''u1'', hex_EncodeToString ''n'')"
  using VerifyMFATicket_Sign [OF demo_signer(2,1,3,4) demo_ticket, of 0] by (simp add: unix_def)

lemma demo_mfa: "mfa_FindByUserID demo_db ''u1'' = Inr \<lparr> ts_userID = ''u1'', ts_encryptedSecret = ''s'',
    ts_recoveryCodeHashes = [sha256_hex (\<lambda>s. s) ''AB''], ts_enabled = True, ts_confirmedAt = Some 0, ts_createdAt = 0 \<rparr>"
  using demo_blanks by (simp add: mfa_FindByUserID_def query_row_def demo_tables connected_def NewTOTPSettings_def)

lemma demo_login_answer: "LoginHandler demo_env (demo_request ''n'') (Some demo_login) demo_db = (NeedsMFA demo_ticket, demo_db)"
proof -
  have a: "us_id ann = ''u1''" "ann\<lparr>us_id := ''u1''\<rparr> = ann" by (simp_all add: ann_def)
  have "ParseRole RoleAdmin = Inr RoleAdmin" by (simp add: ParseRole_def)
  then have "find_account demo_env demo_db ''a@b.c'' = Inr ann"
    using NewUser_ann [OF demo_blanks(1)] a(2)
    by (simp add: find_account_def user_FindByEmail_def query_row_def demo_tables connected_def user_row_of_def ann_def timestamptz_def)
  moreover have "credential_FindByUserID demo_db ''u1'' = Inr \<lparr> uc_userID = ''u1'', uc_passwordHash = ''h:password'', uc_updatedAt = 0 \<rparr>"
    using demo_blanks by (simp add: credential_FindByUserID_def query_row_def demo_tables connected_def NewUserCredentials_def)
  ultimately show ?thesis
    unfolding LoginHandler_def login_reading_def by (simp add: demo_login_def a demo_mfa demo_ticket [simplified])
qed


lemma demo_recovery:
  "VerifyRecoveryCode id (\<lambda>s. s) ''ab'' [sha256_hex (\<lambda>s. s) ''AB''] = Some 0"
proof -
  have "ToUpper id ''ab'' = ''AB''"
    by (simp add: ToUpper_def map_runes_def runes_def segments_ascii encode_rune_def between_def) code_simp
  moreover have "TrimSpace ''AB'' = ''AB''" by (rule TrimSpace_visible) (simp add: visible_def)
  ultimately show ?thesis by (simp add: VerifyRecoveryCode_def)
qed

lemma demo_finish:
  "verify_finish demo_env (demo_request ''n'') [] ann db = (Tokens (Some ann)
     (access_token demo_env ann (library_claims db ''u1'') (rq_ids (demo_request ''n'') 1) 0) (hex_EncodeToString ''n''),
     snd (refresh_Save (demo_minted (hours 720)) db))"
proof -
  have a: "us_id ann = ''u1''" by (simp add: ann_def)
  have g: "applyEnrolmentGrant demo_env [] w k db = db" for w k
    by (simp add: applyEnrolmentGrant_def split: option.split)
  obtain y d where s: "refresh_Save (demo_minted (hours 720)) db = (y, d)" by fastforce
  show ?thesis unfolding verify_finish_def Let_def g s by (simp add: a demo_mint s)
qed

lemma demo_verify_answer: "\<exists>a d. TOTPVerifyHandler demo_env (demo_request ''n'') (Some demo_verify) demo_db
    = (Tokens (Some ann) a (hex_EncodeToString ''n''), d)"
proof -
  define d1 where "d1 = demo_db\<lparr>mfa_ticket_jtis := [(hex_EncodeToString ''n'', 0)]\<rparr>"
  have c: "ticket_Claim (hex_EncodeToString ''n'') 0 demo_db = (Inr True, d1)"
    by (simp add: ticket_Claim_def claim_def Exec_def connected_def demo_tables tick_def timestamptz_def d1_def)
  have m: "mfa_FindByUserID d1 u = mfa_FindByUserID demo_db u" for u
    by (simp add: mfa_FindByUserID_def query_row_def connected_def d1_def)
  have u: "user_FindByID id d1 ''u1'' = Inr ann" by (rule demo_FindByID) (simp_all add: demo_tables connected_def d1_def)
  have a: "us_id ann = ''u1''" by (simp add: ann_def)
  have t: "demo_ticket \<noteq> []" using demo_ticket by (auto simp: SignMFATicket_def newJTI_def hs256Sign_def)
  let ?s = "\<lparr> ts_userID = ''u1'', ts_encryptedSecret = ''s'', ts_recoveryCodeHashes = [], ts_enabled = True,
    ts_confirmedAt = Some 0, ts_createdAt = 0 \<rparr>"
  have n: "NewTOTPSettings ''u1'' ''s'' (remove_at 0 [sha256_hex (\<lambda>s. s) ''AB'']) True (Some 0) 0 = Inr ?s"
    using demo_blanks by (simp add: NewTOTPSettings_def remove_at_def)
  define d2 where "d2 = snd (mfa_Save ?s d1)"
  have "verify_finish demo_env (demo_request ''n'') [] ann d2 = (Tokens (Some ann)
      (access_token demo_env ann (library_claims d2 ''u1'') (rq_ids (demo_request ''n'') 1) 0) (hex_EncodeToString ''n''),
      snd (refresh_Save (demo_minted (hours 720)) d2))" by (rule demo_finish)
  moreover have "second_factor demo_env (demo_request ''n'') demo_verify ''u1'' \<lparr> ts_userID = ''u1'', ts_encryptedSecret = ''s'',
    ts_recoveryCodeHashes = [sha256_hex (\<lambda>s. s) ''AB''], ts_enabled = True, ts_confirmedAt = Some 0, ts_createdAt = 0 \<rparr> d1
      = Some (True, d2)"
    unfolding second_factor_def demo_verify_def using demo_recovery n by (simp add: d2_def)
  ultimately have "verify_claimed demo_env (demo_request ''n'') demo_verify ''u1'' d1 = (Tokens (Some ann)
      (access_token demo_env ann (library_claims d2 ''u1'') (rq_ids (demo_request ''n'') 1) 0) (hex_EncodeToString ''n''),
      snd (refresh_Save (demo_minted (hours 720)) d2))"
    unfolding verify_claimed_def m demo_mfa by (simp add: u) (simp add: demo_verify_def)
  then show ?thesis
    unfolding TOTPVerifyHandler_def using t c demo_ticket_verifies by (simp add: demo_verify_def)
qed

theorem verify_needs_second_factor_witness:
  "\<exists>a d. TOTPVerifyHandler demo_env (demo_request ''n'') (Some demo_verify) demo_db = (Tokens (Some ann) a (hex_EncodeToString ''n''), d)
     \<and> spent (hex_EncodeToString ''n'') d"
proof -
  obtain a d where v: "TOTPVerifyHandler demo_env (demo_request ''n'') (Some demo_verify) demo_db
      = (Tokens (Some ann) a (hex_EncodeToString ''n''), d)" using demo_verify_answer by blast
  have "spent (hex_EncodeToString ''n'') d"
    using verify_needs_second_factor [OF v demo_fresh] demo_ticket_verifies by (auto simp: demo_verify_def)
  with v show ?thesis by blast
qed

theorem mfa_ticket_single_use_witness:
  "\<exists>a d. TOTPVerifyHandler demo_env (demo_request ''n'') (Some demo_verify) demo_db = (Tokens (Some ann) a (hex_EncodeToString ''n''), d)
     \<and> (\<forall>uo a' raw. fst (TOTPVerifyHandler demo_env (demo_request ''m'') (Some demo_verify) d) \<noteq> Tokens uo a' raw)"
proof -
  obtain a d where v: "TOTPVerifyHandler demo_env (demo_request ''n'') (Some demo_verify) demo_db
      = (Tokens (Some ann) a (hex_EncodeToString ''n''), d)" using demo_verify_answer by blast
  have t: "vr_MFATicket demo_verify \<noteq> []" using demo_ticket by (auto simp: demo_verify_def SignMFATicket_def newJTI_def hs256Sign_def)
  have w: "VerifyMFATicket (ae_mac demo_env) (ae_signer demo_env) (vr_MFATicket demo_verify) (rq_now (demo_request ''n''))
      = Inr (''u1'', hex_EncodeToString ''n'')" using demo_ticket_verifies by (simp add: demo_verify_def)
  have "fst (TOTPVerifyHandler demo_env (demo_request ''m'') (Some demo_verify) d) \<noteq> Tokens uo a' raw" for uo a' raw
    by (rule mfa_ticket_single_use [OF v _ t w _ _ demo_fresh rtranclp.rtrancl_refl refl]) simp_all
  with v show ?thesis by blast
qed

theorem recovery_code_single_use_witness:
  "\<exists>a d s'. TOTPVerifyHandler demo_env (demo_request ''n'') (Some demo_verify) demo_db = (Tokens (Some ann) a (hex_EncodeToString ''n''), d)
     \<and> mfa_FindByUserID d ''u1'' = Inr s' \<and> VerifyRecoveryCode id (\<lambda>s. s) ''ab'' (ts_recoveryCodeHashes s') = None"
proof -
  obtain a d where v: "TOTPVerifyHandler demo_env (demo_request ''n'') (Some demo_verify) demo_db
      = (Tokens (Some ann) a (hex_EncodeToString ''n''), d)" using demo_verify_answer by blast
  have a: "us_id ann = ''u1''" by (simp add: ann_def)
  from recovery_code_single_use [OF demo_tables(1) demo_fresh _ v] demo_mfa a v show ?thesis
    by (auto simp: demo_verify_def)
qed

end
