(* ===== verification/Auth_Middleware.thy ===== *)
theory Auth_Middleware
  imports Auth_Sessions
begin

text \<open>
  Authorisation of requests: \<open>internal/transport/http/auth_middleware.go\<close>, \<open>limits.go\<close>,
  \<open>bootstrap.go\<close> and \<open>library_handlers.go\<close>.

  The middleware decides what the context of the next handler holds: \<open>Pass\<close> with the request's user
  and library (none on a public path), or a refusal.  A header that is absent is the empty string, as
  \<open>Header.Get\<close> returns it.  The library handlers run over the repositories of
  \<open>Postgres_Accounts\<close>; a caller is the user the middleware stored in the context.
\<close>

section \<open>Requests and contexts\<close>

record AuthenticatedUser =
  au_UserID :: UserID
  au_Username :: string
  au_Role :: Role
  au_Libraries :: "LibraryID list"

record web_request =
  wr_Method :: string
  wr_Path :: string
  wr_Authorization :: string
  wr_LibraryHeader :: string
  wr_Cookie :: "string option"

record req_context =
  cx_user :: "AuthenticatedUser option"
  cx_library :: LibraryID

definition no_context :: req_context where
  "no_context = \<lparr> cx_user = None, cx_library = [] \<rparr>"

definition ActiveLibraryFromContext :: "req_context \<Rightarrow> LibraryID" where
  "ActiveLibraryFromContext c = (if cx_library c = [] then DefaultLibraryID else cx_library c)"

datatype verdict =
    Pass req_context
  | Reject category string
  | Forbidden string

section \<open>Strings\<close>

definition HasPrefix :: "string \<Rightarrow> string \<Rightarrow> bool" where
  "HasPrefix s p \<longleftrightarrow> take (length p) s = p"

definition TrimPrefix :: "string \<Rightarrow> string \<Rightarrow> string" where
  "TrimPrefix s p = (if HasPrefix s p then drop (length p) s else s)"

definition Cut :: "string \<Rightarrow> char \<Rightarrow> (string \<times> string) option" where
  "Cut s c = (if c \<in> set s then Some (takeWhile (\<lambda>x. x \<noteq> c) s, tl (dropWhile (\<lambda>x. x \<noteq> c) s)) else None)"

section \<open>The status of an error\<close>

definition StatusForCategory :: "category \<Rightarrow> nat" where
  "StatusForCategory c =
     (case c of NotFound \<Rightarrow> 404 | InvalidInput \<Rightarrow> 400 | Unauthorized \<Rightarrow> 401 | Conflict \<Rightarrow> 409
        | Unavailable \<Rightarrow> 503 | Internal \<Rightarrow> 500)"

text \<open>\<open>Limits\<close>: the declared length (negative when unknown) decides whether the handler runs.\<close>

definition Limits :: "int \<Rightarrow> int \<Rightarrow> req_context \<Rightarrow> verdict" where
  "Limits maxBodyBytes contentLength c =
     (if contentLength \<ge> 0 \<and> contentLength \<ge> maxBodyBytes
      then Reject InvalidInput ''request body exceeds the maximum allowed size'' else Pass c)"

section \<open>Authentication\<close>

definition libraryInClaims :: "LibraryID \<Rightarrow> LibraryID list \<Rightarrow> bool" where
  "libraryInClaims libID claimed \<longleftrightarrow> list_ex (\<lambda>c. c = libID) claimed"

definition publicAuthPaths :: "string list" where
  "publicAuthPaths =
     [''/api/v1/auth/setup/status'', ''/api/v1/auth/setup'', ''/api/v1/auth/login'', ''/api/v1/auth/refresh'',
      ''/api/v1/auth/logout'', ''/api/v1/auth/password-reset/request'', ''/api/v1/auth/password-reset/confirm'',
      ''/api/v1/auth/mfa/totp/verify'', ''/api/v1/network/pair/verify'']"

definition IsPublicPath :: "string \<Rightarrow> bool" where
  "IsPublicPath path \<longleftrightarrow>
     path = ''/healthz'' \<or> path = ''/readyz'' \<or> path \<in> set publicAuthPaths \<or> \<not> HasPrefix path ''/api/v1/''"

definition readerEditionsPrefix :: string where
  "readerEditionsPrefix = ''/api/v1/library/editions/''"

definition readerContentEditionFromPath :: "string \<Rightarrow> EditionID option" where
  "readerContentEditionFromPath path =
     (if \<not> HasPrefix path readerEditionsPrefix then None
      else (case Cut (drop (length readerEditionsPrefix) path) CHR ''/'' of
              None \<Rightarrow> None
            | Some (i, tail) \<Rightarrow> (if i = [] \<or> \<not> HasPrefix tail ''reader/content/'' then None else Some i)))"

definition readerContentGrantContext :: "mac \<Rightarrow> GrantSigner \<Rightarrow> instant \<Rightarrow> web_request \<Rightarrow> req_context option" where
  "readerContentGrantContext mac grants now r =
     (if wr_Method r \<noteq> ''GET'' \<and> wr_Method r \<noteq> ''HEAD'' then None
      else (case readerContentEditionFromPath (wr_Path r) of
        None \<Rightarrow> None
      | Some editionID \<Rightarrow>
         (case wr_Cookie r of
            None \<Rightarrow> None
          | Some v \<Rightarrow>
             (if v = [] then None
              else (case reader_Verify mac grants v now of
                 Inl _ \<Rightarrow> None
               | Inr claims \<Rightarrow>
                  (if rc_EditionID claims \<noteq> editionID then None
                   else Some \<lparr> cx_user = Some \<lparr> au_UserID = rc_Subject claims, au_Username = [], au_Role = [],
                                 au_Libraries = [rc_LibraryID claims] \<rparr>,
                               cx_library = rc_LibraryID claims \<rparr>))))))"

text \<open>What the bearer token of a protected request gives.\<close>

definition bearer :: "mac \<Rightarrow> JWTSigner \<Rightarrow> instant \<Rightarrow> web_request \<Rightarrow> verdict" where
  "bearer mac signer now r =
     (if wr_Authorization r = [] \<or> \<not> HasPrefix (wr_Authorization r) ''Bearer '' then
        Reject Unauthorized ''missing or invalid authorization token''
      else (case VerifyAccessToken mac signer (TrimPrefix (wr_Authorization r) ''Bearer '') now of
        Inl _ \<Rightarrow> Reject Unauthorized ''invalid or expired token''
      | Inr claims \<Rightarrow>
         (let user = \<lparr> au_UserID = cl_Subject claims, au_Username = cl_Username claims, au_Role = cl_Role claims,
                       au_Libraries = cl_Libraries claims \<rparr>;
              h = wr_LibraryHeader r in
          if h = [] then
            (if cl_Libraries claims \<noteq> [] then Pass \<lparr> cx_user = Some user, cx_library = hd (cl_Libraries claims) \<rparr>
             else if wr_Path r = ''/api/v1/libraries'' \<and> wr_Method r = ''GET'' then
               Pass \<lparr> cx_user = Some user, cx_library = [] \<rparr>
             else Forbidden ''you are not a member of that library'')
          else if \<not> libraryInClaims h (cl_Libraries claims) then Forbidden ''you are not a member of that library''
          else Pass \<lparr> cx_user = Some user, cx_library = h \<rparr>)))"

definition AuthMiddlewareWithReaderGrants ::
  "mac \<Rightarrow> JWTSigner \<Rightarrow> GrantSigner option \<Rightarrow> instant \<Rightarrow> web_request \<Rightarrow> verdict" where
  "AuthMiddlewareWithReaderGrants mac signer grants now r =
     (if IsPublicPath (wr_Path r) then Pass no_context
      else (case (if wr_Authorization r = [] then Option.bind grants (\<lambda>g. readerContentGrantContext mac g now r) else None) of
              Some c \<Rightarrow> Pass c
            | None \<Rightarrow> bearer mac signer now r))"

definition AuthMiddleware :: "mac \<Rightarrow> JWTSigner \<Rightarrow> instant \<Rightarrow> web_request \<Rightarrow> verdict" where
  "AuthMiddleware mac signer now r = AuthMiddlewareWithReaderGrants mac signer None now r"

section \<open>Permissions\<close>

definition RequireRole :: "Role list \<Rightarrow> req_context \<Rightarrow> verdict" where
  "RequireRole roles c =
     (case cx_user c of
        None \<Rightarrow> Reject Unauthorized ''unauthorized''
      | Some u \<Rightarrow> (if list_ex (\<lambda>a. au_Role u = a) roles then Pass c
                   else Forbidden ''insufficient permissions for this resource''))"

definition RequireIngestPermission :: "database \<Rightarrow> req_context \<Rightarrow> verdict" where
  "RequireIngestPermission db c =
     (case cx_user c of
        None \<Rightarrow> Reject Unauthorized ''unauthorized''
      | Some u \<Rightarrow>
         (if au_Role u = RoleAdmin then Pass c
          else (case library_FindByID db (ActiveLibraryFromContext c) of
                  Inl _ \<Rightarrow> Forbidden ''reader uploads are disabled for this library''
                | Inr lib \<Rightarrow> (if li_allowReaderUploads lib then Pass c
                             else Forbidden ''reader uploads are disabled for this library''))))"

definition callerIsLibraryMember :: "database \<Rightarrow> req_context \<Rightarrow> LibraryID \<Rightarrow> bool" where
  "callerIsLibraryMember db c libID =
     (case cx_user c of
        None \<Rightarrow> False
      | Some u \<Rightarrow>
         (if au_Role u = RoleAdmin \<or> libraryInClaims libID (au_Libraries u) then True
          else (case FindMembership db libID (au_UserID u) of Inl _ \<Rightarrow> False | Inr m \<Rightarrow> True)))"

definition callerIsLibraryAdmin :: "database \<Rightarrow> req_context \<Rightarrow> LibraryID \<Rightarrow> bool" where
  "callerIsLibraryAdmin db c libID =
     (case cx_user c of
        None \<Rightarrow> False
      | Some u \<Rightarrow>
         (if au_Role u = RoleAdmin then True
          else (case FindMembership db libID (au_UserID u) of Inl _ \<Rightarrow> False | Inr m \<Rightarrow> mm_role m = RoleAdmin)))"

section \<open>The reader's content grant\<close>

datatype web_response =
    WFailed category string
  | WRefused go_error
  | WForbidden string
  | WGrant string string instant
  | WLibraries "Library list"
  | WLibrary Library
  | WMembers "(LibraryMembership \<times> string \<times> string) list"
  | WInvitation string string instant
  | WAccepted LibraryID Role
  | WNoContent
  | WPanicked

text \<open>\<open>assertEditionInLibrary\<close>: \<open>None\<close> when the edition may be read.\<close>

definition assertEditionInLibrary :: "database \<Rightarrow> EditionID \<Rightarrow> LibraryID \<Rightarrow> web_response option" where
  "assertEditionInLibrary db editionID libID =
     (case EditionInLibrary db editionID libID of
        Inl err \<Rightarrow> Some (WRefused err)
      | Inr ok \<Rightarrow> (if ok then None else Some (WFailed NotFound ''no such edition in your library'')))"

definition readerContentCookiePath :: "EditionID \<Rightarrow> string" where
  "readerContentCookiePath editionID = readerEditionsPrefix @ editionID @ ''/reader/content/''"

definition ReaderSessionHandler ::
  "mac \<Rightarrow> GrantSigner option \<Rightarrow> instant \<Rightarrow> req_context \<Rightarrow> EditionID \<Rightarrow> database \<Rightarrow> web_response" where
  "ReaderSessionHandler mac grants now c editionID db =
     (if editionID = [] \<or> CHR ''/'' \<in> set editionID then WFailed InvalidInput ''editionId is required''
      else (case cx_user c of
        None \<Rightarrow> WFailed Unauthorized ''authentication is required''
      | Some user \<Rightarrow>
         (case grants of
            None \<Rightarrow> WFailed Unavailable ''the reader is not ready yet''
          | Some g \<Rightarrow>
             (let libraryID = ActiveLibraryFromContext c in
              case assertEditionInLibrary db editionID libraryID of
                Some r \<Rightarrow> r
              | None \<Rightarrow>
                 (case reader_Sign mac g (au_UserID user) libraryID editionID now of
                    Inl _ \<Rightarrow> WFailed Internal ''unexpected error''
                  | Inr (token, expiresAt) \<Rightarrow> WGrant token (readerContentCookiePath editionID) expiresAt)))))"

text \<open>The checks of \<open>ReaderContentHandler\<close> before any byte of the book is opened.\<close>

definition reader_content_gate :: "req_context \<Rightarrow> EditionID \<Rightarrow> database \<Rightarrow> web_response option" where
  "reader_content_gate c editionID db =
     (if editionID = [] \<or> CHR ''/'' \<in> set editionID then Some (WFailed InvalidInput ''editionId is required'')
      else if cx_user c = None then Some (WFailed Unauthorized ''authentication is required'')
      else assertEditionInLibrary db editionID (ActiveLibraryFromContext c))"

section \<open>Libraries, members and invitations\<close>

text \<open>
  \<open>ck\<close> is the collation key of \<open>ORDER BY name\<close>; \<open>ids\<close> are the identifiers \<open>idGen.NewID\<close> returns in
  call order, \<open>rand\<close> the bytes of the invitation token.
\<close>

definition ListLibrariesHandler :: "(string \<Rightarrow> 'k :: linorder) \<Rightarrow> req_context \<Rightarrow> database \<Rightarrow> web_response" where
  "ListLibrariesHandler ck c db =
     (case cx_user c of
        None \<Rightarrow> WFailed Unauthorized ''unauthorized''
      | Some user \<Rightarrow>
         (case (if au_Role user = RoleAdmin then library_FindAll ck db else library_FindByUser ck db (au_UserID user)) of
            Inl err \<Rightarrow> WFailed (CategoryOf err) ''failed to list libraries''
          | Inr libs \<Rightarrow> WLibraries libs))"

record CreateRequest =
  cq_Name :: string
  cq_Description :: string
  cq_AllowReaderUploads :: bool

definition CreateLibraryHandler ::
  "req_context \<Rightarrow> (nat \<Rightarrow> string) \<Rightarrow> instant \<Rightarrow> CreateRequest option \<Rightarrow> database \<Rightarrow> web_response \<times> database" where
  "CreateLibraryHandler c ids now body db =
     (case cx_user c of
        None \<Rightarrow> (WForbidden ''only admins can create libraries'', db)
      | Some user \<Rightarrow>
         (if au_Role user \<noteq> RoleAdmin then (WForbidden ''only admins can create libraries'', db)
          else (case body of
             None \<Rightarrow> (WFailed InvalidInput ''malformed request'', db)
           | Some req \<Rightarrow>
              (case NewLibrary (ids 0) (cq_Name req) (cq_Description req) (cq_AllowReaderUploads req) now now of
                 Inl err \<Rightarrow> (WRefused err, db)
               | Inr lib \<Rightarrow>
                  (case library_Save lib db of
                     (Some err, db1) \<Rightarrow> (WFailed (CategoryOf err) ''failed to save library'', db1)
                   | (None, db1) \<Rightarrow>
                      (case NewLibraryMembership (ids 1) (ids 0) (au_UserID user) RoleAdmin now of
                         Inl _ \<Rightarrow> (WPanicked, db1)
                       | Inr mem \<Rightarrow> (WLibrary lib, snd (membership_Save mem db1))))))))"

definition GetLibraryHandler :: "req_context \<Rightarrow> LibraryID \<Rightarrow> database \<Rightarrow> web_response" where
  "GetLibraryHandler c i db =
     (if \<not> callerIsLibraryMember db c i then WFailed NotFound ''library not found''
      else (case library_FindByID db i of
              Inl err \<Rightarrow> WFailed (CategoryOf err) ''library not found''
            | Inr lib \<Rightarrow> WLibrary lib))"

record UpdateRequest =
  uq_Name :: "string option"
  uq_Description :: "string option"
  uq_AllowReaderUploads :: "bool option"

definition apply_update :: "UpdateRequest \<Rightarrow> instant \<Rightarrow> Library \<Rightarrow> Library result" where
  "apply_update req now lib =
     (case (case uq_Name req of None \<Rightarrow> (None, lib) | Some n \<Rightarrow> library_Rename n now lib) of
        (Some err, _) \<Rightarrow> Inl err
      | (None, lib1) \<Rightarrow>
         (case (case uq_Description req of None \<Rightarrow> (None, lib1) | Some d \<Rightarrow> library_SetDescription d now lib1) of
            (Some err, _) \<Rightarrow> Inl err
          | (None, lib2) \<Rightarrow>
              Inr (case uq_AllowReaderUploads req of
                     None \<Rightarrow> lib2 | Some a \<Rightarrow> library_SetAllowReaderUploads a now lib2)))"

definition UpdateLibraryHandler ::
  "req_context \<Rightarrow> instant \<Rightarrow> LibraryID \<Rightarrow> UpdateRequest option \<Rightarrow> database \<Rightarrow> web_response \<times> database" where
  "UpdateLibraryHandler c now i body db =
     (if (case cx_user c of None \<Rightarrow> True | Some u \<Rightarrow> au_Role u \<noteq> RoleAdmin) then
        (WForbidden ''only admins can modify libraries'', db)
      else (case library_FindByID db i of
        Inl err \<Rightarrow> (WFailed (CategoryOf err) ''library not found'', db)
      | Inr lib \<Rightarrow>
         (case body of
            None \<Rightarrow> (WFailed InvalidInput ''malformed request'', db)
          | Some req \<Rightarrow>
             (case apply_update req now lib of
                Inl err \<Rightarrow> (WRefused err, db)
              | Inr lib1 \<Rightarrow>
                 (case library_Save lib1 db of
                    (Some err, db1) \<Rightarrow> (WFailed (CategoryOf err) ''failed to update library'', db1)
                  | (None, db1) \<Rightarrow> (WLibrary lib1, db1))))))"

definition DeleteLibraryHandler :: "req_context \<Rightarrow> LibraryID \<Rightarrow> database \<Rightarrow> web_response \<times> database" where
  "DeleteLibraryHandler c i db =
     (if (case cx_user c of None \<Rightarrow> True | Some u \<Rightarrow> au_Role u \<noteq> RoleAdmin) then
        (WForbidden ''only admins can delete libraries'', db)
      else if i = DefaultLibraryID then (WFailed InvalidInput ''cannot delete default library'', db)
      else (case library_Delete i db of
              (Some err, db1) \<Rightarrow> (WFailed (CategoryOf err) ''failed to delete library'', db1)
            | (None, db1) \<Rightarrow> (WNoContent, db1)))"

definition ListMembersHandler :: "(rune \<Rightarrow> rune) \<Rightarrow> req_context \<Rightarrow> LibraryID \<Rightarrow> database \<Rightarrow> web_response" where
  "ListMembersHandler cm c i db =
     (if \<not> callerIsLibraryAdmin db c i then WForbidden ''you must be an admin of that library''
      else (case membership_FindByLibrary db i of
              Inl err \<Rightarrow> WFailed (CategoryOf err) ''failed to list members''
            | Inr mems \<Rightarrow>
                WMembers (map (\<lambda>m. case user_FindByID cm db (mm_userID m) of
                                     Inl _ \<Rightarrow> (m, [], []) | Inr u \<Rightarrow> (m, us_username u, us_email u)) mems)))"

record InviteRequest =
  iq_Email :: string
  iq_Role :: string

definition CreateInvitationHandler ::
  "auth_env \<Rightarrow> req_context \<Rightarrow> string \<Rightarrow> string result \<Rightarrow> instant \<Rightarrow> LibraryID \<Rightarrow> InviteRequest option \<Rightarrow> database
   \<Rightarrow> web_response \<times> database" where
  "CreateInvitationHandler E c newID rand now libID body db =
     (case cx_user c of
        None \<Rightarrow> (WFailed Unauthorized ''unauthorized'', db)
      | Some user \<Rightarrow>
         (if \<not> callerIsLibraryAdmin db c libID then
            (WForbidden ''you must be an admin of that library to invite members'', db)
          else (case body of
             None \<Rightarrow> (WFailed InvalidInput ''malformed request'', db)
           | Some req \<Rightarrow>
              (let role = (case ParseRole (iq_Role req) of Inl _ \<Rightarrow> RoleReader | Inr r \<Rightarrow> r) in
               case generateRandomToken (ae_sha256 E) rand of
                 Inl _ \<Rightarrow> (WFailed Internal ''failed to generate invite token'', db)
               | Inr (rawToken, tokenHash) \<Rightarrow>
                  (case NewLibraryInvitation (ae_cm E) newID libID (iq_Email req) role tokenHash (au_UserID user)
                          (now + hours (7 * 24)) now of
                     Inl err \<Rightarrow> (WRefused err, db)
                   | Inr invite \<Rightarrow>
                      (case invitation_Save invite db of
                         (Some err, db1) \<Rightarrow> (WFailed (CategoryOf err) ''failed to save invitation'', db1)
                       | (None, db1) \<Rightarrow> (WInvitation rawToken (''/invite/'' @ rawToken) (in_expiresAt invite), db1)))))))"

definition AcceptInvitationHandler ::
  "auth_env \<Rightarrow> req_context \<Rightarrow> string \<Rightarrow> instant \<Rightarrow> string \<Rightarrow> database \<Rightarrow> web_response \<times> database" where
  "AcceptInvitationHandler E c newID now token db =
     (case cx_user c of
        None \<Rightarrow> (WFailed Unauthorized ''unauthorized'', db)
      | Some user \<Rightarrow>
         (if token = [] then (WFailed InvalidInput ''missing invitation token'', db)
          else (case invitation_FindByTokenHash db (token_hash E token) of
             Inl _ \<Rightarrow> (WFailed NotFound ''invalid or expired invitation token'', db)
           | Inr inv0 \<Rightarrow>
              (if \<not> invitation_IsValid inv0 now then (WFailed NotFound ''invalid or expired invitation token'', db)
               else (case NewLibraryMembership newID (in_libraryID inv0) (au_UserID user) (in_role inv0) now of
                  Inl err \<Rightarrow> (WRefused err, db)
                | Inr mem \<Rightarrow>
                   (case membership_Save mem db of
                      (Some err, db1) \<Rightarrow> (WFailed (CategoryOf err) ''failed to add library membership'', db1)
                    | (None, db1) \<Rightarrow>
                        (WAccepted (in_libraryID inv0) (in_role inv0),
                         snd (invitation_Save (invitation_MarkUsed now inv0) db1))))))))"

section \<open>What the middleware lets through\<close>

lemma HasPrefix_iff: "HasPrefix s p \<longleftrightarrow> (\<exists>t. s = p @ t)"
  by (auto simp: HasPrefix_def) (metis append_take_drop_id)

lemma TrimPrefix_append [simp]: "TrimPrefix (p @ t) p = t"
  by (simp add: TrimPrefix_def HasPrefix_def)

lemma HasPrefix_append [simp]: "HasPrefix (p @ t) p"
  by (simp add: HasPrefix_def)

lemma Cut_Some: "Cut s c = Some (i, t) \<Longrightarrow> s = i @ c # t \<and> c \<notin> set i"
proof -
  assume a: "Cut s c = Some (i, t)"
  then have i: "i = takeWhile (\<lambda>x. x \<noteq> c) s" "t = tl (dropWhile (\<lambda>x. x \<noteq> c) s)" "c \<in> set s"
    by (auto simp: Cut_def split: if_splits)
  have "dropWhile (\<lambda>x. x \<noteq> c) s = c # t"
    using i(2,3) by (cases "dropWhile (\<lambda>x. x \<noteq> c) s") (auto dest: hd_dropWhile [of "\<lambda>x. x \<noteq> c" s, simplified] simp: dropWhile_eq_Nil_conv)
  then show ?thesis using i(1) takeWhile_dropWhile_id [of "\<lambda>x. x \<noteq> c" s] set_takeWhileD [of c "\<lambda>x. x \<noteq> c" s] by auto
qed

lemma Cut_append: "c \<notin> set i \<Longrightarrow> Cut (i @ c # t) c = Some (i, t)"
  by (simp add: Cut_def takeWhile_append dropWhile_append)

lemma edition_of_path:
  "readerContentEditionFromPath path = Some i \<longleftrightarrow>
     (i \<noteq> [] \<and> CHR ''/'' \<notin> set i \<and> (\<exists>rest. path = readerContentCookiePath i @ rest))"
proof
  assume a: "readerContentEditionFromPath path = Some i"
  then obtain p where p: "path = readerEditionsPrefix @ p"
    by (auto simp: readerContentEditionFromPath_def HasPrefix_iff split: if_splits)
  with a obtain tail where "Cut p CHR ''/'' = Some (i, tail)" "i \<noteq> []" "HasPrefix tail ''reader/content/''"
    by (auto simp: readerContentEditionFromPath_def split: if_splits option.splits)
  then show "i \<noteq> [] \<and> CHR ''/'' \<notin> set i \<and> (\<exists>rest. path = readerContentCookiePath i @ rest)"
    using p Cut_Some [of p "CHR ''/''" i tail] by (auto simp: HasPrefix_iff readerContentCookiePath_def)
next
  assume a: "i \<noteq> [] \<and> CHR ''/'' \<notin> set i \<and> (\<exists>rest. path = readerContentCookiePath i @ rest)"
  then obtain rest where "path = readerEditionsPrefix @ i @ CHR ''/'' # ''reader/content/'' @ rest"
    by (auto simp: readerContentCookiePath_def)
  then show "readerContentEditionFromPath path = Some i"
    using a Cut_append [of "CHR ''/''" i "''reader/content/'' @ rest"] HasPrefix_append [of "''reader/content/''" rest]
      HasPrefix_append [of readerEditionsPrefix "i @ CHR ''/'' # ''reader/content/'' @ rest"]
    by (simp add: readerContentEditionFromPath_def)
qed

definition user_of_claims :: "Claims \<Rightarrow> AuthenticatedUser" where
  "user_of_claims c = \<lparr> au_UserID = cl_Subject c, au_Username = cl_Username c, au_Role = cl_Role c,
     au_Libraries = cl_Libraries c \<rparr>"

definition user_of_grant :: "ReaderContentClaims \<Rightarrow> AuthenticatedUser" where
  "user_of_grant c = \<lparr> au_UserID = rc_Subject c, au_Username = [], au_Role = [], au_Libraries = [rc_LibraryID c] \<rparr>"

lemma bearer_Pass:
  assumes "bearer mac signer now r = Pass c"
  obtains t claims where "wr_Authorization r = ''Bearer '' @ t" "VerifyAccessToken mac signer t now = Inr claims"
    "cx_user c = Some (user_of_claims claims)"
    "cx_library c \<in> set (cl_Libraries claims)
     \<or> cx_library c = [] \<and> cl_Libraries claims = [] \<and> wr_Path r = ''/api/v1/libraries'' \<and> wr_Method r = ''GET''"
proof -
  obtain t where t: "wr_Authorization r = ''Bearer '' @ t"
    using assms by (auto simp: bearer_def HasPrefix_iff split: if_splits)
  then obtain claims where "VerifyAccessToken mac signer t now = Inr claims"
    using assms TrimPrefix_append [of "''Bearer ''" t] HasPrefix_append [of "''Bearer ''" t]
    by (auto simp: bearer_def split: if_splits sum.splits)
  then show ?thesis
    using assms t TrimPrefix_append [of "''Bearer ''" t] HasPrefix_append [of "''Bearer ''" t]
    by (intro that [of t claims])
       (auto simp: bearer_def Let_def user_of_claims_def libraryInClaims_def list_ex_iff split: if_splits)
qed

lemma grant_Pass:
  assumes "readerContentGrantContext mac g now r = Some c"
  obtains v claims where "wr_Method r = ''GET'' \<or> wr_Method r = ''HEAD''" "wr_Cookie r = Some v"
    "reader_Verify mac g v now = Inr claims" "readerContentEditionFromPath (wr_Path r) = Some (rc_EditionID claims)"
    "c = \<lparr> cx_user = Some (user_of_grant claims), cx_library = rc_LibraryID claims \<rparr>"
  using assms unfolding readerContentGrantContext_def
  by (auto simp: user_of_grant_def split: if_splits option.splits sum.splits)

text \<open>a protected route is reached only by an authenticated request: either with a valid access token, as
  the token's user and in a library the token names (listing one's libraries aside, which needs
  none), or, with no authorization header, on a read of an edition's content, with a valid grant for
  that very edition, as a user with no role and the grant's library alone.\<close>
theorem protected_routes_are_authenticated:
  assumes "AuthMiddlewareWithReaderGrants mac signer grants now r = Pass c" "\<not> IsPublicPath (wr_Path r)"
  shows "(\<exists>t claims. wr_Authorization r = ''Bearer '' @ t \<and> VerifyAccessToken mac signer t now = Inr claims
       \<and> cx_user c = Some (user_of_claims claims)
       \<and> (cx_library c \<in> set (cl_Libraries claims)
          \<or> cx_library c = [] \<and> cl_Libraries claims = [] \<and> wr_Path r = ''/api/v1/libraries'' \<and> wr_Method r = ''GET''))
    \<or> (\<exists>g v claims rest. grants = Some g \<and> wr_Authorization r = [] \<and> wr_Cookie r = Some v
       \<and> reader_Verify mac g v now = Inr claims \<and> (wr_Method r = ''GET'' \<or> wr_Method r = ''HEAD'')
       \<and> wr_Path r = readerContentCookiePath (rc_EditionID claims) @ rest
       \<and> cx_user c = Some (user_of_grant claims) \<and> cx_library c = rc_LibraryID claims)"
proof (cases "wr_Authorization r = [] \<and> Option.bind grants (\<lambda>g. readerContentGrantContext mac g now r) \<noteq> None")
  case True
  then obtain g where g: "grants = Some g" "readerContentGrantContext mac g now r = Some c"
    using assms by (auto simp: AuthMiddlewareWithReaderGrants_def bind_eq_Some_conv)
  from g(2) show ?thesis by (rule grant_Pass) (use True g(1) edition_of_path in auto)
next
  case False
  then have "bearer mac signer now r = Pass c"
    using assms by (auto simp: AuthMiddlewareWithReaderGrants_def split: if_splits option.splits)
  then show ?thesis by (rule bearer_Pass) blast
qed

lemma reader_Verify_Sign:
  assumes "reader_ok (reader_claims g userID libraryID editionID now)" "reader_Sign mac g userID libraryID editionID now = Inr (t, e)"
  shows "reader_Verify mac g t later = (if unix later < unix (now + ReaderContentGrantTTL)
    then Inr (reader_claims g userID libraryID editionID now) else Inl (ErrorsNew ''auth: reader content grant expired''))"
    "e = now + ReaderContentGrantTTL"
  using assms decode_reader_json [OF assms(1)]
  by (auto simp: reader_Sign_def reader_Verify_def split: if_splits) (auto simp: reader_claims_def)

lemma Session_grants:
  assumes "ReaderSessionHandler mac (Some g) now c ed db = WGrant token path e" "cx_user c = Some u"
  shows "path = readerContentCookiePath ed" "EditionInLibrary db ed (ActiveLibraryFromContext c) = Inr True"
    "ed \<noteq> []" "CHR ''/'' \<notin> set ed" "reader_Sign mac g (au_UserID u) (ActiveLibraryFromContext c) ed now = Inr (token, e)"
  using assms unfolding ReaderSessionHandler_def assertEditionInLibrary_def
  by (auto simp: Let_def split: if_splits option.splits sum.splits)

lemma grant_cookie:
  assumes "reader_ok (reader_claims g i l ed now)" "reader_Sign mac g i l ed now = Inr (token, e)" "ed \<noteq> []" "CHR ''/'' \<notin> set ed"
    and "wr_Cookie r = Some token"
  shows "readerContentGrantContext mac g later r =
    (if (wr_Method r = ''GET'' \<or> wr_Method r = ''HEAD'') \<and> unix later < unix (now + ReaderContentGrantTTL)
        \<and> (\<exists>rest. wr_Path r = readerContentCookiePath ed @ rest)
     then Some \<lparr> cx_user = Some (user_of_grant (reader_claims g i l ed now)), cx_library = l \<rparr> else None)"
proof -
  have t: "token \<noteq> []" using assms(2) by (auto simp: reader_Sign_def hs256Sign_def split: if_splits)
  have f: "rc_EditionID (reader_claims g i l ed now) = ed" "rc_LibraryID (reader_claims g i l ed now) = l"
    "rc_Subject (reader_claims g i l ed now) = i" by (simp_all add: reader_claims_def)
  have ed: "readerContentEditionFromPath (wr_Path r) = Some ed \<longleftrightarrow> (\<exists>rest. wr_Path r = readerContentCookiePath ed @ rest)"
    using edition_of_path [of "wr_Path r" ed] assms(3,4) by blast
  show ?thesis
    unfolding readerContentGrantContext_def user_of_grant_def ed [symmetric]
    using assms(5) t reader_Verify_Sign(1) [OF assms(1,2), of later] f
    by (auto split: option.splits)
qed

text \<open>the reader's grant opens the content of one edition and nothing else: it is issued only for an edition
  of the caller's active library, and a request that carries it and no authorization header passes
  exactly when it reads a path under that edition's content route before the grant's fifteen minutes
  are over; it then acts as the caller, with no role, in that library alone.\<close>
theorem reader_grant_opens_one_edition:
  assumes "ReaderSessionHandler mac (Some g) now c ed db = WGrant token path e" "cx_user c = Some u"
    and "reader_ok (reader_claims g (au_UserID u) (ActiveLibraryFromContext c) ed now)"
    and "wr_Authorization r = []" "wr_Cookie r = Some token" "\<not> IsPublicPath (wr_Path r)"
  shows "EditionInLibrary db ed (ActiveLibraryFromContext c) = Inr True
    \<and> AuthMiddlewareWithReaderGrants mac signer (Some g) later r =
       (if (wr_Method r = ''GET'' \<or> wr_Method r = ''HEAD'') \<and> unix later < unix (now + ReaderContentGrantTTL)
           \<and> (\<exists>rest. wr_Path r = path @ rest)
        then Pass \<lparr> cx_user = Some \<lparr> au_UserID = au_UserID u, au_Username = [], au_Role = [],
                      au_Libraries = [ActiveLibraryFromContext c] \<rparr>,
                    cx_library = ActiveLibraryFromContext c \<rparr>
        else Reject Unauthorized ''missing or invalid authorization token'')"
proof -
  note g = Session_grants [OF assms(1,2)]
  show ?thesis
    unfolding AuthMiddlewareWithReaderGrants_def bearer_def
    using assms(4,6) g(2) grant_cookie [OF assms(3) g(5,3,4) assms(5), of later] unfolding g(1)
    by (auto simp: user_of_grant_def reader_claims_def)
qed

lemma library_claims_nonempty: "library_claims db u \<noteq> []"
  by (simp add: library_claims_def Let_def)

lemma login_token:
  assumes "LoginHandler E q (Some req) db = (Tokens (Some user) a raw, d)"
  shows "a = access_token E user (library_claims (applyEnrolmentGrant E (lr_EnrolmentGrant req) (us_id user) (rq_now q) db)
    (us_id user)) (rq_ids q 1) (rq_now q)"
proof -
  have "u = user \<and> a = access_token E u (library_claims (applyEnrolmentGrant E g (us_id u) (rq_now q) db) (us_id u))
      (rq_ids q 1) (rq_now q)"
    if "login_finish E q g u db = (Tokens (Some user) a raw, d)" for g u
    using that unfolding login_finish_def Let_def by (auto split: option.splits prod.splits)
  then show ?thesis
    using assms unfolding LoginHandler_def login_reading_def by (fastforce split: if_splits option.splits sum.splits)
qed

text \<open>C10: the access token of a login authenticates its user: for fifteen minutes every protected request that
  carries it as bearer token passes as that user, with the user's role, in the library its header
  names if that is one of the user's libraries, and in the first of them if there is no header; a
  library that is not among them is forbidden, and after that time the token is refused.\<close>
theorem login_token_authenticates:
  assumes "LoginHandler E q (Some req) db = (Tokens (Some user) a raw, d)"
    and "libs = library_claims (applyEnrolmentGrant E (lr_EnrolmentGrant req) (us_id user) (rq_now q) db) (us_id user)"
    and "claims_ok ((access_claims user libs (rq_ids q 1) (rq_now q))\<lparr>cl_Issuer := js_issuer (ae_signer E)\<rparr>)"
    and "wr_Authorization r = ''Bearer '' @ a" "\<not> IsPublicPath (wr_Path r)"
  shows "AuthMiddlewareWithReaderGrants (ae_mac E) (ae_signer E) grants later r =
       (if unix later < unix (rq_now q + 15 * minute) then
          (let u = \<lparr> au_UserID = us_id user, au_Username = us_username user, au_Role = us_role user, au_Libraries = libs \<rparr> in
           if wr_LibraryHeader r = [] then Pass \<lparr> cx_user = Some u, cx_library = hd libs \<rparr>
           else if wr_LibraryHeader r \<in> set libs then Pass \<lparr> cx_user = Some u, cx_library = wr_LibraryHeader r \<rparr>
           else Forbidden ''you are not a member of that library'')
        else Reject Unauthorized ''invalid or expired token'')"
proof -
  let ?c = "access_claims user libs (rq_ids q 1) (rq_now q)"
  have c: "cl_Type ?c = TokenTypeAccess" "cl_Issuer ?c = []" "cl_ExpiresAt ?c = unix (rq_now q + 15 * minute)"
    "cl_Subject ?c = us_id user" "cl_Username ?c = us_username user" "cl_Role ?c = us_role user" "cl_Libraries ?c = libs"
    by (simp_all add: access_claims_def)
  have v: "VerifyAccessToken (ae_mac E) (ae_signer E) a later =
      (if unix later < unix (rq_now q + 15 * minute) then Inr (?c\<lparr>cl_Issuer := js_issuer (ae_signer E)\<rparr>)
       else Inl (ErrorsNew ''auth/jwt: token expired''))"
    using Verify_Sign_access [OF assms(3) c(1), of "ae_mac E" later] c(2,3) login_token [OF assms(1)] assms(2)
    by (simp add: access_token_def)
  have l: "libs \<noteq> []" using library_claims_nonempty assms(2) by simp
  have b: "wr_Authorization r \<noteq> []" "HasPrefix (wr_Authorization r) ''Bearer ''" "TrimPrefix (wr_Authorization r) ''Bearer '' = a"
    unfolding assms(4) by (rule HasPrefix_append TrimPrefix_append | simp)+
  have "AuthMiddlewareWithReaderGrants (ae_mac E) (ae_signer E) grants later r = bearer (ae_mac E) (ae_signer E) later r"
    using assms(5) b(1) by (simp add: AuthMiddlewareWithReaderGrants_def)
  then show ?thesis
    unfolding bearer_def b(3) v using b(1,2) l c(4-7) by (auto simp: Let_def libraryInClaims_def list_ex_iff)
qed

section \<open>Requests at work\<close>

definition demo_web :: "string \<Rightarrow> string \<Rightarrow> string option \<Rightarrow> string \<Rightarrow> web_request" where
  "demo_web path auth cookie lib = \<lparr> wr_Method = ''GET'', wr_Path = path, wr_Authorization = auth, wr_LibraryHeader = lib,
     wr_Cookie = cookie \<rparr>"

lemma demo_paths:
  "\<not> IsPublicPath ''/api/v1/libraries''" "\<not> IsPublicPath ''/api/v1/library/editions/e/reader/content/a.css''"
  by (simp_all add: IsPublicPath_def publicAuthPaths_def HasPrefix_def)

theorem protected_routes_are_authenticated_witness:
  "\<exists>c t. AuthMiddlewareWithReaderGrants toy_mac sample_signer None 0
       (demo_web ''/api/v1/libraries'' (''Bearer '' @ jwt_Sign toy_mac sample_signer sample_access) None []) = Pass c
     \<and> ''Bearer '' @ jwt_Sign toy_mac sample_signer sample_access = ''Bearer '' @ t
     \<and> is_ok (VerifyAccessToken toy_mac sample_signer t 0) \<and> cx_library c \<in> {''L'', []}"
proof -
  let ?a = "''Bearer '' @ jwt_Sign toy_mac sample_signer sample_access"
  let ?r = "demo_web ''/api/v1/libraries'' ?a None []"
  let ?claims = "sample_access\<lparr>cl_Issuer := js_issuer sample_signer\<rparr>"
  have v: "VerifyAccessToken toy_mac sample_signer (jwt_Sign toy_mac sample_signer sample_access) 0 = Inr ?claims"
    using Verify_Sign_access [OF sample_access_ok(2,3)] sample_access_ok(4,5) by (simp add: unix_def)
  have "TrimPrefix ?a ''Bearer '' = jwt_Sign toy_mac sample_signer sample_access" "HasPrefix ?a ''Bearer ''"
    by (rule TrimPrefix_append HasPrefix_append)+
  then have "bearer toy_mac sample_signer 0 ?r = Pass \<lparr> cx_user = Some (user_of_claims ?claims), cx_library = ''L'' \<rparr>"
    using v by (simp add: bearer_def demo_web_def sample_access_def user_of_claims_def)
  then have p: "AuthMiddlewareWithReaderGrants toy_mac sample_signer None 0 ?r =
      Pass \<lparr> cx_user = Some (user_of_claims ?claims), cx_library = ''L'' \<rparr>"
    using demo_paths(1) by (simp add: AuthMiddlewareWithReaderGrants_def demo_web_def)
  from protected_routes_are_authenticated [OF p] demo_paths(1) p show ?thesis
    by (auto simp: demo_web_def is_ok_def)
qed

definition demo_grants :: GrantSigner where
  "demo_grants = \<lparr> gs_secret = ''reader'', gs_issuer = ''alexandryn'' \<rparr>"

definition demo_reader :: req_context where
  "demo_reader = \<lparr> cx_user = Some \<lparr> au_UserID = ''u1'', au_Username = ''ann'', au_Role = RoleReader, au_Libraries = [''B''] \<rparr>,
     cx_library = ''B'' \<rparr>"

theorem reader_grant_opens_one_edition_witness:
  "\<exists>token path e. ReaderSessionHandler toy_mac (Some demo_grants) 0 demo_reader ''e''
         (novel_db [\<lparr> en_id = ''x'', en_library_id = ''B'', en_edition_id = ''e'', en_added_at = 0 \<rparr>]) = WGrant token path e
     \<and> (\<exists>c. AuthMiddlewareWithReaderGrants toy_mac sample_signer (Some demo_grants) 0
           (demo_web ''/api/v1/library/editions/e/reader/content/a.css'' [] (Some token) []) = Pass c \<and> cx_library c = ''B'')
     \<and> AuthMiddlewareWithReaderGrants toy_mac sample_signer (Some demo_grants) 0
           (demo_web ''/api/v1/libraries'' [] (Some token) []) = Reject Unauthorized ''missing or invalid authorization token''"
proof -
  let ?db = "novel_db [\<lparr> en_id = ''x'', en_library_id = ''B'', en_edition_id = ''e'', en_added_at = 0 \<rparr>]"
  have u: "cx_user demo_reader = Some \<lparr> au_UserID = ''u1'', au_Username = ''ann'', au_Role = RoleReader, au_Libraries = [''B''] \<rparr>"
    "ActiveLibraryFromContext demo_reader = ''B''" by (simp_all add: demo_reader_def ActiveLibraryFromContext_def)
  obtain token e where s: "ReaderSessionHandler toy_mac (Some demo_grants) 0 demo_reader ''e'' ?db =
      WGrant token (readerContentCookiePath ''e'') e"
    by (simp add: ReaderSessionHandler_def assertEditionInLibrary_def EditionInLibrary_def connected_def novel_db_def
        empty_database_def u reader_Sign_def)
  have ok: "reader_ok (reader_claims demo_grants ''u1'' ''B'' ''e'' 0)"
    by (simp add: reader_ok_def reader_claims_def TokenTypeReaderContent_def demo_grants_def valid_utf8_ascii in_int64_def
        unix_def ReaderContentGrantTTL_def)
  define p where "p = ''/api/v1/library/editions/e/reader/content/a.css''"
  have path: "p = readerContentCookiePath ''e'' @ ''a.css''" "\<not> IsPublicPath p"
    using demo_paths(2) by (simp_all add: p_def readerContentCookiePath_def readerEditionsPrefix_def)
  have t: "unix 0 < unix (0 + ReaderContentGrantTTL)" by (simp add: unix_def ReaderContentGrantTTL_def)
  have ok': "reader_ok (reader_claims demo_grants (au_UserID \<lparr> au_UserID = ''u1'', au_Username = ''ann'', au_Role = RoleReader,
      au_Libraries = [''B''] \<rparr>) (ActiveLibraryFromContext demo_reader) ''e'' 0)" using ok u(2) by simp
  have w: "wr_Authorization (demo_web q [] (Some token) []) = []" "wr_Cookie (demo_web q [] (Some token) []) = Some token"
    "wr_Path (demo_web q [] (Some token) []) = q" "wr_Method (demo_web q [] (Some token) []) = ''GET''" for q
    by (simp_all add: demo_web_def)
  have gen: "AuthMiddlewareWithReaderGrants toy_mac sample_signer (Some demo_grants) 0 (demo_web q [] (Some token) []) =
      (if \<exists>rest. q = readerContentCookiePath ''e'' @ rest
       then Pass \<lparr> cx_user = Some \<lparr> au_UserID = ''u1'', au_Username = [], au_Role = [], au_Libraries = [''B''] \<rparr>, cx_library = ''B'' \<rparr>
       else Reject Unauthorized ''missing or invalid authorization token'')" if "\<not> IsPublicPath q" for q
    using reader_grant_opens_one_edition [OF s u(1) ok' w(1,2), of q sample_signer 0] that t u(2) w(3,4) by simp
  have "\<exists>rest. p = readerContentCookiePath ''e'' @ rest" using path(1) by blast
  then have 1: "AuthMiddlewareWithReaderGrants toy_mac sample_signer (Some demo_grants) 0 (demo_web p [] (Some token) []) =
      Pass \<lparr> cx_user = Some \<lparr> au_UserID = ''u1'', au_Username = [], au_Role = [], au_Libraries = [''B''] \<rparr>, cx_library = ''B'' \<rparr>"
    using gen [OF path(2)] by simp
  have "\<not> (\<exists>rest. ''/api/v1/libraries'' = readerContentCookiePath ''e'' @ rest)"
    by (simp add: readerContentCookiePath_def readerEditionsPrefix_def)
  then have "AuthMiddlewareWithReaderGrants toy_mac sample_signer (Some demo_grants) 0
      (demo_web ''/api/v1/libraries'' [] (Some token) []) = Reject Unauthorized ''missing or invalid authorization token''"
    using gen [OF demo_paths(1)] by simp
  then show ?thesis using s 1 unfolding p_def by (intro exI conjI) (assumption | rule refl | simp)+
qed

definition demo_single :: database where
  "demo_single = demo_db\<lparr>mfa_totp_settings := []\<rparr>"

lemma demo_single_login: "\<exists>d. LoginHandler demo_env (demo_request ''n'') (Some demo_login) demo_single =
    (Tokens (Some ann) (access_token demo_env ann [DefaultLibraryID] (rq_ids (demo_request ''n'') 1) 0) (hex_EncodeToString ''n''), d)"
proof -
  have a: "us_id ann = ''u1''" "ann\<lparr>us_id := ''u1''\<rparr> = ann" by (simp_all add: ann_def)
  have t: "db_links demo_single = None" "users demo_single = [user_row_of ann]" "mfa_totp_settings demo_single = []"
    "user_credentials demo_single = [\<lparr> cr_user_id = ''u1'', cr_password_hash = ''h:password'', cr_updated_at = 0 \<rparr>]"
    "library_memberships demo_single = []"
    by (simp_all add: demo_single_def demo_tables) (simp add: demo_db_def empty_database_def)
  have "ParseRole RoleAdmin = Inr RoleAdmin" by (simp add: ParseRole_def)
  then have "find_account demo_env demo_single ''a@b.c'' = Inr ann"
    using NewUser_ann [OF demo_blanks(1)] a(2)
    by (simp add: find_account_def user_FindByEmail_def query_row_def t connected_def user_row_of_def ann_def timestamptz_def)
  moreover have "credential_FindByUserID demo_single ''u1'' = Inr \<lparr> uc_userID = ''u1'', uc_passwordHash = ''h:password'', uc_updatedAt = 0 \<rparr>"
    using demo_blanks by (simp add: credential_FindByUserID_def query_row_def t connected_def NewUserCredentials_def)
  moreover have "mfa_FindByUserID demo_single ''u1'' = Inl (derr NotFound ''MFA settings not found'')"
    by (simp add: mfa_FindByUserID_def query_row_def t connected_def)
  moreover have "applyEnrolmentGrant demo_env [] w k db = db" for w k db
    by (simp add: applyEnrolmentGrant_def split: option.split)
  moreover have "library_claims demo_single ''u1'' = [DefaultLibraryID]"
    by (simp add: library_claims_def membership_FindByUser_def query_rows_def t connected_def)
  moreover obtain x d where "refresh_Save (demo_minted (refresh_ttl demo_env demo_single)) demo_single = (x, d)" by fastforce
  ultimately show ?thesis
    unfolding LoginHandler_def login_reading_def login_finish_def Let_def
    by (simp add: demo_login_def a demo_mint)
qed

theorem login_token_authenticates_witness:
  "\<exists>a raw d u. LoginHandler demo_env (demo_request ''n'') (Some demo_login) demo_single = (Tokens (Some ann) a raw, d)
     \<and> AuthMiddlewareWithReaderGrants toy_mac sample_signer None 0 (demo_web ''/api/v1/libraries'' (''Bearer '' @ a) None [])
         = Pass \<lparr> cx_user = Some u, cx_library = DefaultLibraryID \<rparr> \<and> au_UserID u = ''u1''
     \<and> AuthMiddlewareWithReaderGrants toy_mac sample_signer None 0 (demo_web ''/api/v1/libraries'' (''Bearer '' @ a) None ''B'')
         = Forbidden ''you are not a member of that library''"
proof -
  obtain a d where l: "LoginHandler demo_env (demo_request ''n'') (Some demo_login) demo_single =
      (Tokens (Some ann) a (hex_EncodeToString ''n''), d)" using demo_single_login by blast
  have g: "applyEnrolmentGrant demo_env (lr_EnrolmentGrant demo_login) w k db = db" for w k db
    by (simp add: applyEnrolmentGrant_def demo_login_def split: option.split)
  have m: "library_claims demo_single ''u1'' = [DefaultLibraryID]"
    by (simp add: library_claims_def membership_FindByUser_def query_rows_def connected_def demo_single_def demo_db_def empty_database_def)
  have ok: "claims_ok ((access_claims ann [DefaultLibraryID] (rq_ids (demo_request ''n'') 1) (rq_now (demo_request ''n'')))
      \<lparr>cl_Issuer := js_issuer (ae_signer demo_env)\<rparr>)"
    by (simp add: claims_ok_def access_claims_def ann_def RoleAdmin_def TokenTypeAccess_def valid_utf8_ascii in_int64_def unix_def
        demo_request_def DefaultLibraryID_def sample_signer_def NewJWTSigner_def)
  have libs: "[DefaultLibraryID] = library_claims (applyEnrolmentGrant demo_env (lr_EnrolmentGrant demo_login) (us_id ann)
      (rq_now (demo_request ''n'')) demo_single) (us_id ann)" by (simp add: g m ann_def)
  have t: "unix 0 < unix (rq_now (demo_request ''n'') + 15 * minute)" by (simp add: unix_def)
  have w: "wr_Authorization (demo_web p b None h) = b" "wr_Path (demo_web p b None h) = p" "wr_LibraryHeader (demo_web p b None h) = h"
    for p b h by (simp_all add: demo_web_def)
  have pub: "\<not> IsPublicPath (wr_Path (demo_web ''/api/v1/libraries'' b None h))" for b h using demo_paths(1) w(2) by simp
  have gen: "AuthMiddlewareWithReaderGrants toy_mac sample_signer None 0 (demo_web ''/api/v1/libraries'' (''Bearer '' @ a) None h) =
      (let u = \<lparr> au_UserID = us_id ann, au_Username = us_username ann, au_Role = us_role ann, au_Libraries = [DefaultLibraryID] \<rparr> in
           if h = [] then Pass \<lparr> cx_user = Some u, cx_library = DefaultLibraryID \<rparr>
           else if h = DefaultLibraryID then Pass \<lparr> cx_user = Some u, cx_library = h \<rparr>
           else Forbidden ''you are not a member of that library'')" for h
    using login_token_authenticates [OF l libs ok w(1) pub, of None 0] t by (simp add: Let_def w(3))
  have "DefaultLibraryID \<noteq> ''B''" by (simp add: DefaultLibraryID_def)
  then show ?thesis
    using l gen [of "[]"] gen [of "''B''"] by (simp add: Let_def ann_def)
qed

end
