(* ===== verification/Library_Access.thy ===== *)
theory Library_Access
  imports Auth_Middleware
begin

text \<open>
  Who may join and manage libraries: the guarantees of the handlers of \<open>library_handlers.go\<close> over the
  membership and invitation tables.
\<close>

section \<open>Requests\<close>

datatype library_request =
    Create req_context "nat \<Rightarrow> string" instant "CreateRequest option"
  | Update req_context instant LibraryID "UpdateRequest option"
  | Delete req_context LibraryID
  | Invite req_context string "string result" instant LibraryID "InviteRequest option"
  | Accept req_context string instant string

fun serve :: "auth_env \<Rightarrow> library_request \<Rightarrow> database \<Rightarrow> web_response \<times> database" where
  "serve E (Create c ids now body) db = CreateLibraryHandler c ids now body db"
| "serve E (Update c now i body) db = UpdateLibraryHandler c now i body db"
| "serve E (Delete c i) db = DeleteLibraryHandler c i db"
| "serve E (Invite c newID rand now i body) db = CreateInvitationHandler E c newID rand now i body db"
| "serve E (Accept c newID now token) db = AcceptInvitationHandler E c newID now token db"

definition role_in :: "database \<Rightarrow> LibraryID \<Rightarrow> UserID \<Rightarrow> Role option" where
  "role_in db l u = map_option mb_role (List.find (\<lambda>r. mb_library_id r = l \<and> mb_user_id r = u) (library_memberships db))"

definition global_admin :: "req_context \<Rightarrow> bool" where
  "global_admin c \<longleftrightarrow> (\<exists>u. cx_user c = Some u \<and> au_Role u = RoleAdmin)"

section \<open>Memberships\<close>

lemma unlinked_more [simp]: "unlinked library_memberships" "unlinked library_invitations"
  by (simp_all add: unlinked_def)

lemma tick_more [simp]:
  "library_memberships (tick db) = library_memberships db" "library_invitations (tick db) = library_invitations db"
  by (simp_all add: tick_def)

lemma keeps_memberships [simp]:
  "library_memberships (snd (library_Save l db)) = library_memberships db"
  "library_memberships (snd (invitation_Save i db)) = library_memberships db"
  unfolding library_Save_def invitation_Save_def
  by (auto intro!: snd_exec_one_keeps simp: keeps_def upsert_library_def upsert_invitation_def split: if_splits)

lemma role_in_Save:
  assumes "membership_Save m db = (r, d)"
  shows "role_in d l u = (if r = None \<and> l = mm_libraryID m \<and> u = mm_userID m then Some (mm_role m) else role_in db l u)"
proof -
  let ?same = "\<lambda>x. mb_library_id x = mm_libraryID m \<and> mb_user_id x = mm_userID m"
  let ?P = "\<lambda>r. mb_library_id r = l \<and> mb_user_id r = u"
  have up: "List.find ?P (update_where ?same (\<lambda>x. x\<lparr>mb_role := mm_role m\<rparr>) t) =
      map_option (\<lambda>x. if ?same x then x\<lparr>mb_role := mm_role m\<rparr> else x) (List.find ?P t)" for t
    unfolding update_where_def by (rule find_map) simp
  consider (bad) "r \<noteq> None" "library_memberships d = library_memberships db" | (upd) "r = None" "list_ex ?same (library_memberships db)"
      "library_memberships d = update_where ?same (\<lambda>x. x\<lparr>mb_role := mm_role m\<rparr>) (library_memberships db)"
    | (new) "r = None" "\<not> list_ex ?same (library_memberships db)"
      "library_memberships d = library_memberships db @ [membership_row_of m]"
    using exec_one_cases [OF assms [unfolded membership_Save_def]]
    by (auto simp: upsert_membership_def membership_row_of_def Let_def split: if_splits)
  then show ?thesis
  proof cases
    case bad
    then show ?thesis by (auto simp: role_in_def)
  next
    case upd
    show ?thesis
    proof (cases "l = mm_libraryID m \<and> u = mm_userID m")
      case True
      then have "List.find ?P (library_memberships db) \<noteq> None" using upd(2) by (auto simp: find_None_iff list_ex_iff)
      then obtain x where x: "List.find ?P (library_memberships db) = Some x" "?P x" by (auto simp: find_Some_iff)
      show ?thesis unfolding role_in_def upd(3) up x(1) using True upd(1) x(2) by simp
    next
      case False
      then have "\<not> ?same x" if "List.find ?P (library_memberships db) = Some x" for x
        using that by (auto simp: find_Some_iff)
      then show ?thesis
        unfolding role_in_def upd(3) up using False
        by (cases "List.find ?P (library_memberships db)") auto
    qed
  next
    case new
    have "List.find ?P (library_memberships db) = None" if "l = mm_libraryID m \<and> u = mm_userID m"
      using new(2) that by (auto simp: find_None_iff list_ex_iff)
    then show ?thesis
      using new(1,3) by (auto simp: role_in_def find_append membership_row_of_def split: option.splits)
  qed
qed

lemma role_in_Delete:
  assumes "library_Delete i db = (r, d)"
  shows "role_in d l u = (if r = None \<and> l = i then None else role_in db l u)"
proof -
  have f: "List.find (\<lambda>r. mb_library_id r = l \<and> mb_user_id r = u) (delete_where (\<lambda>r. mb_library_id r = i) t) =
     (if l = i then None else List.find (\<lambda>r. mb_library_id r = l \<and> mb_user_id r = u) t)" for t
    by (induction t) (auto simp: delete_where_def)
  show ?thesis
    using exec_one_cases [OF assms [unfolded library_Delete_def]] f [of "library_memberships db"]
    by (auto simp: role_in_def delete_library_def Let_def split: if_splits)
qed

lemma Save_memberships:
  "library_Save lib db = (x, d) \<Longrightarrow> library_memberships d = library_memberships db"
  "invitation_Save v db = (x, d) \<Longrightarrow> library_memberships d = library_memberships db"
  using keeps_memberships(1) [of lib db] keeps_memberships(2) [of v db] by simp_all

lemma role_in_cong: "library_memberships d = library_memberships db \<Longrightarrow> role_in d l u = role_in db l u"
  by (simp add: role_in_def)

lemma Create_memberships:
  assumes "CreateLibraryHandler c ids now body db = (r, d)"
  shows "library_memberships d = library_memberships db \<or>
    (\<exists>user mem d1. cx_user c = Some user \<and> au_Role user = RoleAdmin \<and> library_memberships d1 = library_memberships db
       \<and> NewLibraryMembership (ids 1) (ids 0) (au_UserID user) RoleAdmin now = Inr mem \<and> d = snd (membership_Save mem d1))"
  using assms unfolding CreateLibraryHandler_def
  by (auto split: option.splits if_splits sum.splits prod.splits dest!: Save_memberships(1))

lemma Update_memberships:
  "UpdateLibraryHandler c now i body db = (r, d) \<Longrightarrow> library_memberships d = library_memberships db"
  unfolding UpdateLibraryHandler_def
  by (auto split: option.splits if_splits sum.splits prod.splits dest!: Save_memberships(1))

lemma Delete_memberships:
  "DeleteLibraryHandler c i db = (r, d) \<Longrightarrow> d = db \<or> (global_admin c \<and> i \<noteq> DefaultLibraryID \<and> (\<exists>x. library_Delete i db = (x, d)))"
  unfolding DeleteLibraryHandler_def global_admin_def
  by (auto split: option.splits if_splits prod.splits)

lemma Invite_memberships:
  "CreateInvitationHandler E c newID rand now i body db = (r, d) \<Longrightarrow> library_memberships d = library_memberships db"
  unfolding CreateInvitationHandler_def Let_def
  by (auto split: option.splits if_splits sum.splits prod.splits dest!: Save_memberships(2))

lemma Accept_memberships:
  assumes "AcceptInvitationHandler E c newID now token db = (r, d)"
  shows "d = db \<or> (\<exists>user v mem x d1. cx_user c = Some user \<and> invitation_FindByTokenHash db (token_hash E token) = Inr v
     \<and> invitation_IsValid v now \<and> NewLibraryMembership newID (in_libraryID v) (au_UserID user) (in_role v) now = Inr mem
     \<and> membership_Save mem db = (x, d1) \<and> (if x = None then r = WAccepted (in_libraryID v) (in_role v)
          \<and> d = snd (invitation_Save (invitation_MarkUsed now v) d1) else d = d1))"
  using assms unfolding AcceptInvitationHandler_def
  by (auto split: option.splits if_splits sum.splits prod.splits)

lemma NewLibraryMembership_fields:
  "NewLibraryMembership i l u role now = Inr m \<Longrightarrow> mm_libraryID m = l \<and> mm_userID m = u \<and> mm_role m = role"
  by (auto simp: NewLibraryMembership_def split: if_splits)

lemma other_writes_keep_memberships:
  "user_Save v db = (x, d) \<Longrightarrow> library_memberships d = library_memberships db"
  "credential_Save w db = (x, d) \<Longrightarrow> library_memberships d = library_memberships db"
  "refresh_Save t db = (x, d) \<Longrightarrow> library_memberships d = library_memberships db"
  unfolding user_Save_def credential_Save_def refresh_Save_def
  by (auto dest!: exec_one_cases simp: upsert_user_def upsert_credential_def upsert_refresh_def split: if_splits)

lemma Setup_memberships:
  assumes "SetupHandler E q body db = (r, d)"
  shows "library_memberships d = library_memberships db \<or>
    (\<exists>mem x d1 d2. users db = [] \<and> library_memberships d1 = library_memberships db
       \<and> NewLibraryMembership (rq_ids q 1) DefaultLibraryID (rq_ids q 0) RoleAdmin (rq_now q) = Inr mem
       \<and> membership_Save mem d1 = (x, d2) \<and> library_memberships d = library_memberships d2)"
proof -
  have fin: "library_memberships d = library_memberships d0 \<or>
    (\<exists>mem x d2. NewLibraryMembership (rq_ids q 1) DefaultLibraryID (us_id user) RoleAdmin (rq_now q) = Inr mem
       \<and> membership_Save mem d0 = (x, d2) \<and> library_memberships d = library_memberships d2)"
    if "setup_finish E q user d0 = (r, d)" for user d0
    using that unfolding setup_finish_def
    by (auto split: sum.splits option.splits prod.splits dest!: other_writes_keep_memberships(3))
  have "library_memberships d = library_memberships db \<or>
    (\<exists>user d1. users db = [] \<and> us_id user = rq_ids q 0 \<and> library_memberships d1 = library_memberships db
       \<and> setup_finish E q user d1 = (r, d))"
    using assms unfolding SetupHandler_def CountUsers_def
    by (auto split: sum.splits option.splits prod.splits if_splits dest!: other_writes_keep_memberships(1,2) NewUser_ok)
  then show ?thesis using fin by metis
qed

text \<open>Every request that writes memberships: the handlers of the libraries, and the first setup.\<close>

datatype membership_request = Setup request "SetupRequest option" | Library library_request

fun membership_after :: "auth_env \<Rightarrow> membership_request \<Rightarrow> database \<Rightarrow> database" where
  "membership_after E (Setup q body) db = snd (SetupHandler E q body db)"
| "membership_after E (Library req) db = snd (serve E req db)"

lemma setup_change_granted:
  assumes "SetupHandler E q body db = (resp, d)" "role_in d l u \<noteq> role_in db l u"
  shows "users db = [] \<and> l = DefaultLibraryID \<and> u = rq_ids q 0 \<and> role_in d l u = Some RoleAdmin"
proof -
  have "library_memberships d \<noteq> library_memberships db" using assms(2) role_in_cong by metis
  then obtain mem x d1 d2 where c: "users db = []" "library_memberships d1 = library_memberships db"
      "NewLibraryMembership (rq_ids q 1) DefaultLibraryID (rq_ids q 0) RoleAdmin (rq_now q) = Inr mem"
      "membership_Save mem d1 = (x, d2)" "library_memberships d = library_memberships d2"
    using Setup_memberships [OF assms(1)] by blast
  show ?thesis
    using role_in_Save [OF c(4), of l u] assms(2) NewLibraryMembership_fields [OF c(3)]
      role_in_cong [OF c(2), of l u] role_in_cong [OF c(5), of l u] c(1)
    by (simp split: if_split_asm)
qed

lemma library_change_granted:
  assumes "serve E req db = (resp, d)" "role_in d l u \<noteq> role_in db l u"
  shows "case req of
      Create c ids now body \<Rightarrow> global_admin c \<and> map_option au_UserID (cx_user c) = Some u \<and> l = ids 0
        \<and> role_in d l u = Some RoleAdmin
    | Delete c i \<Rightarrow> global_admin c \<and> l = i \<and> i \<noteq> DefaultLibraryID \<and> role_in d l u = None
    | Accept c newID now token \<Rightarrow> map_option au_UserID (cx_user c) = Some u
        \<and> (\<exists>v. invitation_FindByTokenHash db (token_hash E token) = Inr v \<and> invitation_IsValid v now
             \<and> in_libraryID v = l \<and> role_in d l u = Some (in_role v))
    | Update c now i body \<Rightarrow> False
    | Invite c newID rand now i body \<Rightarrow> False"
proof (cases req)
  case (Create c ids now body)
  have run: "CreateLibraryHandler c ids now body db = (resp, d)" using assms(1) Create by simp
  have "library_memberships d \<noteq> library_memberships db" using assms(2) role_in_cong by metis
  then obtain user mem d1 where c: "cx_user c = Some user" "au_Role user = RoleAdmin" "library_memberships d1 = library_memberships db"
      "NewLibraryMembership (ids 1) (ids 0) (au_UserID user) RoleAdmin now = Inr mem" "d = snd (membership_Save mem d1)"
    using Create_memberships [OF run] by blast
  obtain x where x: "membership_Save mem d1 = (x, d)" using c(5) by (metis prod.collapse)
  have "l = ids 0 \<and> u = au_UserID user \<and> role_in d l u = Some RoleAdmin"
    using role_in_Save [OF x, of l u] assms(2) NewLibraryMembership_fields [OF c(4)] role_in_cong [OF c(3), of l u]
    by (simp split: if_split_asm)
  then show ?thesis using c(1,2) by (auto simp: Create global_admin_def)
next
  case (Update c now i body)
  have run: "UpdateLibraryHandler c now i body db = (resp, d)" using assms(1) Update by simp
  then show ?thesis using role_in_cong [OF Update_memberships [OF run]] assms(2) by blast
next
  case (Delete c i)
  have run: "DeleteLibraryHandler c i db = (resp, d)" using assms(1) Delete by simp
  have "d \<noteq> db" using assms(2) by blast
  then obtain x where x: "global_admin c" "i \<noteq> DefaultLibraryID" "library_Delete i db = (x, d)"
    using Delete_memberships [OF run] by blast
  then show ?thesis using role_in_Delete [OF x(3), of l u] assms(2) by (simp add: Delete split: if_split_asm)
next
  case (Invite c newID rand now i body)
  have run: "CreateInvitationHandler E c newID rand now i body db = (resp, d)" using assms(1) Invite by simp
  then show ?thesis using role_in_cong [OF Invite_memberships [OF run]] assms(2) by blast
next
  case (Accept c newID now token)
  have run: "AcceptInvitationHandler E c newID now token db = (resp, d)" using assms(1) Accept by simp
  have "d \<noteq> db" using assms(2) by blast
  then obtain user v mem x d1 where a: "cx_user c = Some user"
    "invitation_FindByTokenHash db (token_hash E token) = Inr v" "invitation_IsValid v now"
    "NewLibraryMembership newID (in_libraryID v) (au_UserID user) (in_role v) now = Inr mem" "membership_Save mem db = (x, d1)"
    "if x = None then resp = WAccepted (in_libraryID v) (in_role v) \<and> d = snd (invitation_Save (invitation_MarkUsed now v) d1) else d = d1"
    using Accept_memberships [OF run] by blast
  have "library_memberships d = library_memberships d1" using a(6) by (simp split: if_split_asm)
  then have "role_in d l u = role_in d1 l u" by (rule role_in_cong)
  then have "l = in_libraryID v \<and> u = au_UserID user \<and> role_in d l u = Some (in_role v)"
    using role_in_Save [OF a(5), of l u] NewLibraryMembership_fields [OF a(4)] assms(2) by (simp split: if_split_asm)
  then show ?thesis using a(1-3) by (auto simp: Accept)
qed

text \<open>C11: a user's membership of a library changes in four ways only: on a server without users, the setup makes
  the user it creates administrator of the default library; the global administrator who creates a
  library becomes its administrator; deleting a library other than the default one, which takes a
  global administrator, ends its memberships; and accepting an unused, unexpired invitation to the
  library gives the caller the role the invitation names.  The library's own administrator can neither
  delete it nor remove a member: the specification grants both, the code neither.\<close>
theorem membership_changes_are_granted:
  assumes "role_in (membership_after E req db) l u \<noteq> role_in db l u"
  shows "let after = role_in (membership_after E req db) l u in case req of
      Setup q body \<Rightarrow> users db = [] \<and> l = DefaultLibraryID \<and> u = rq_ids q 0 \<and> after = Some RoleAdmin
    | Library (Create c ids now body) \<Rightarrow> global_admin c \<and> map_option au_UserID (cx_user c) = Some u \<and> l = ids 0
        \<and> after = Some RoleAdmin
    | Library (Delete c i) \<Rightarrow> global_admin c \<and> l = i \<and> i \<noteq> DefaultLibraryID \<and> after = None
    | Library (Accept c newID now token) \<Rightarrow> map_option au_UserID (cx_user c) = Some u
        \<and> (\<exists>v. invitation_FindByTokenHash db (token_hash E token) = Inr v \<and> invitation_IsValid v now
             \<and> in_libraryID v = l \<and> after = Some (in_role v))
    | Library (Update c now i body) \<Rightarrow> False
    | Library (Invite c newID rand now i body) \<Rightarrow> False"
proof (cases req)
  case (Setup q body)
  then show ?thesis using assms setup_change_granted [OF prod.collapse [symmetric]] by simp
next
  case (Library lr)
  then show ?thesis
    using assms library_change_granted [OF prod.collapse [symmetric], of E lr db l u] by (cases lr) auto
qed

section \<open>Invitations\<close>

text \<open>No invitation that a token opens is left: every one with its hash is used.\<close>

definition closed :: "string \<Rightarrow> database \<Rightarrow> bool" where
  "closed h db \<longleftrightarrow> (\<forall>r \<in> set (library_invitations db). iv_token_hash r = h \<longrightarrow> iv_used_at r \<noteq> None)"

text \<open>Later requests: new invitations have new identifiers and their tokens another hash.\<close>

definition unrelated :: "auth_env \<Rightarrow> string \<Rightarrow> library_request \<Rightarrow> database \<Rightarrow> bool" where
  "unrelated E h req db \<longleftrightarrow> (case req of
      Invite c newID rand now i body \<Rightarrow> newID \<notin> iv_id ` set (library_invitations db)
        \<and> (\<forall>raw. generateRandomToken (ae_sha256 E) rand \<noteq> Inr (raw, h))
    | Create c ids now body \<Rightarrow> True | Update c now i body \<Rightarrow> True | Delete c i \<Rightarrow> True | Accept c newID now token \<Rightarrow> True)"

inductive later :: "auth_env \<Rightarrow> string \<Rightarrow> database \<Rightarrow> database \<Rightarrow> bool" for E h where
  now: "later E h db db"
| request: "later E h db d \<Longrightarrow> unrelated E h req d \<Longrightarrow> serve E req d = (r, d') \<Longrightarrow> later E h db d'"

lemma keeps_invitations [simp]:
  "library_invitations (snd (library_Save l db)) = library_invitations db"
  "library_invitations (snd (membership_Save m db)) = library_invitations db"
  unfolding library_Save_def membership_Save_def
  by (auto intro!: snd_exec_one_keeps simp: keeps_def upsert_library_def upsert_membership_def Let_def split: if_splits)

lemma Save_invitations:
  "library_Save lib db = (x, d) \<Longrightarrow> library_invitations d = library_invitations db"
  "membership_Save m db = (x, d) \<Longrightarrow> library_invitations d = library_invitations db"
  using keeps_invitations(1) [of lib db] keeps_invitations(2) [of m db] by simp_all

lemma closed_cong: "library_invitations d = library_invitations db \<Longrightarrow> closed h d = closed h db"
  by (simp add: closed_def)

lemma invitation_Save_cases:
  assumes "invitation_Save v db = (x, d)"
  obtains (same) "library_invitations d = library_invitations db"
    | (marked) "in_id v \<in> iv_id ` set (library_invitations db)" "x = None"
      "library_invitations d = update_where (\<lambda>y. iv_id y = in_id v)
         (\<lambda>y. y\<lparr>iv_used_at := map_option timestamptz (in_usedAt v)\<rparr>) (library_invitations db)"
    | (added) "in_id v \<notin> iv_id ` set (library_invitations db)"
      "library_invitations d = library_invitations db @ [invitation_row_of v]"
proof -
  have "list_ex (\<lambda>y. iv_id y = in_id v) t \<longleftrightarrow> in_id v \<in> iv_id ` set t" for t :: "invitation_row list"
    unfolding list_ex_iff by (metis image_iff)
  then show ?thesis
    using exec_one_cases [OF assms [unfolded invitation_Save_def]] that
    by (auto simp: upsert_invitation_def invitation_row_of_def split: if_splits)
qed

lemma closed_mark:
  assumes "closed h db" "in_usedAt v \<noteq> None \<or> (in_id v \<notin> iv_id ` set (library_invitations db) \<and> in_tokenHash v \<noteq> h)"
    and "invitation_Save v db = (x, d)"
  shows "closed h d"
  using assms(3)
proof (cases rule: invitation_Save_cases)
  case same
  then show ?thesis using assms(1) closed_cong by blast
next
  case marked
  then have "in_usedAt v \<noteq> None" using assms(2) by blast
  then show ?thesis using assms(1) unfolding closed_def marked(3) set_update_where by auto
next
  case added
  then show ?thesis
    using assms(1,2) by (auto simp: closed_def invitation_row_of_def)
qed

lemma closed_Delete: "library_Delete i db = (x, d) \<Longrightarrow> closed h db \<Longrightarrow> closed h d"
proof -
  assume a: "library_Delete i db = (x, d)" "closed h db"
  have "set (library_invitations d) \<subseteq> set (library_invitations db)"
    using exec_one_cases [OF a(1) [unfolded library_Delete_def]]
    by (auto simp: delete_library_def Let_def delete_where_def split: if_splits)
  then show ?thesis using a(2) by (auto simp: closed_def)
qed

lemma Create_closed:
  assumes "CreateLibraryHandler c ids now body db = (r, d)"
  shows "library_invitations d = library_invitations db"
  using assms unfolding CreateLibraryHandler_def
  by (auto split: option.splits if_splits sum.splits prod.splits dest!: Save_invitations(1))

lemma Update_closed:
  "UpdateLibraryHandler c now i body db = (r, d) \<Longrightarrow> library_invitations d = library_invitations db"
  unfolding UpdateLibraryHandler_def
  by (auto split: option.splits if_splits sum.splits prod.splits dest!: Save_invitations(1))

lemma Invite_saves:
  assumes "CreateInvitationHandler E c newID rand now i body db = (r, d)"
  shows "d = db \<or> (\<exists>v x raw. invitation_Save v db = (x, d) \<and> in_id v = newID
    \<and> generateRandomToken (ae_sha256 E) rand = Inr (raw, in_tokenHash v))"
  using assms unfolding CreateInvitationHandler_def Let_def
  by (auto simp: NewLibraryInvitation_def RehydrateLibraryInvitation_def Let_def
      split: option.splits if_splits sum.splits prod.splits)

lemma serve_closed:
  assumes "closed h db" "unrelated E h req db" "serve E req db = (r, d)"
  shows "closed h d"
proof (cases req)
  case (Create c ids now body)
  then show ?thesis using assms(1,3) Create_closed closed_cong by (metis serve.simps(1))
next
  case (Update c now i body)
  then show ?thesis using assms(1,3) Update_closed closed_cong by (metis serve.simps(2))
next
  case (Delete c i)
  then show ?thesis using assms(1,3) Delete_memberships closed_Delete by (metis serve.simps(3))
next
  case (Invite c newID rand now i body)
  then show ?thesis
    using Invite_saves [of E c newID rand now i body db r d] assms closed_mark [OF assms(1)]
    by (auto simp: unrelated_def)
next
  case (Accept c newID now token)
  then have run: "AcceptInvitationHandler E c newID now token db = (r, d)" using assms(3) by simp
  consider "d = db" | v mem x d1 where "membership_Save mem db = (x, d1)"
      "if x = None then r = WAccepted (in_libraryID v) (in_role v) \<and> d = snd (invitation_Save (invitation_MarkUsed now v) d1)
       else d = d1"
    using Accept_memberships [OF run] by blast
  then show ?thesis
  proof cases
    case (2 v mem x d1)
    have "closed h d1" using closed_cong [OF Save_invitations(2) [OF 2(1)]] assms(1) by blast
    moreover have "in_usedAt (invitation_MarkUsed now v) \<noteq> None" by (simp add: invitation_MarkUsed_def)
    ultimately show ?thesis
      using 2(2) closed_mark [of h d1 "invitation_MarkUsed now v"] by (auto split: if_splits) (metis prod.collapse)
  qed (use assms(1) in simp)
qed

lemma later_closed: "later E h db d \<Longrightarrow> closed h db \<Longrightarrow> closed h d"
  by (induction rule: later.induct) (auto intro: serve_closed)

lemma closed_refuses:
  assumes "closed (token_hash E token) db"
  shows "fst (AcceptInvitationHandler E c newID now token db) \<noteq> WAccepted l role"
proof -
  have "\<not> invitation_IsValid v now" if "invitation_FindByTokenHash db (token_hash E token) = Inr v" for v
    using that unfolding invitation_FindByTokenHash_def
  proof (rule query_row_ok)
    fix r assume r: "r \<in> set (library_invitations db)" "iv_token_hash r = token_hash E token" "scan_invitation r = Inr v"
    have "iv_used_at r \<noteq> None" using assms r(1,2) unfolding closed_def by blast
    then show ?thesis
      using r(3) by (auto simp: scan_invitation_def RehydrateLibraryInvitation_def invitation_IsValid_def split: sum.splits)
  qed
  then show ?thesis
    unfolding AcceptInvitationHandler_def by (auto split: option.splits sum.splits if_splits prod.splits)
qed

lemma used_closes:
  assumes dist: "distinct (map iv_token_hash (library_invitations db))"
    and r: "r \<in> set (library_invitations db)" "iv_token_hash r = h" "scan_invitation r = Inr v"
    and s: "invitation_Save (invitation_MarkUsed n v) db = (x, d)"
  shows "x = None \<Longrightarrow> closed h d" "db_links db = None \<Longrightarrow> x = None"
proof -
  have v: "in_id v = iv_id r" "in_role v \<in> {RoleAdmin, RoleReader}"
    using r(3) by (auto simp: scan_invitation_def RehydrateLibraryInvitation_def ParseRole_def split: sum.splits if_splits)
  let ?s = "\<lambda>y. iv_id y = in_id v" and ?g = "\<lambda>y. y\<lparr>iv_used_at := Some (timestamptz n)\<rparr>"
  have "list_ex ?s (library_invitations db)" unfolding list_ex_iff using r(1) v(1) by metis
  then have w: "upsert_invitation (invitation_row_of (invitation_MarkUsed n v)) db =
      Inr (db\<lparr>library_invitations := update_where ?s ?g (library_invitations db)\<rparr>, 1)"
    using v(2) by (simp add: upsert_invitation_def invitation_row_of_def invitation_MarkUsed_def)
  show "x = None" if up: "db_links db = None"
    using s exec_one_steady [where s = "upsert_invitation (invitation_row_of (invitation_MarkUsed n v))", OF up w] up
    by (auto simp: invitation_Save_def)
  assume "x = None"
  then have d: "library_invitations d = update_where ?s ?g (library_invitations db)"
    using exec_one_cases [OF s [unfolded invitation_Save_def]] w by auto
  have one: "y = r" if "y \<in> set (library_invitations db)" "iv_token_hash y = h" for y
    using inj_onD [of iv_token_hash "set (library_invitations db)" y r] dist that r(1,2) unfolding distinct_map by simp
  show "closed h d"
    unfolding closed_def d set_update_where
  proof (intro ballI impI)
    fix z assume "z \<in> (\<lambda>y. if ?s y then ?g y else y) ` set (library_invitations db)" "iv_token_hash z = h"
    then obtain y where y: "y \<in> set (library_invitations db)" "z = (if ?s y then ?g y else y)" "iv_token_hash y = h"
      by (auto split: if_splits)
    then have "y = r" using one by blast
    then show "iv_used_at z \<noteq> None" using y(2) v(1) by simp
  qed
qed

lemma Accept_ok:
  assumes "AcceptInvitationHandler E c newID now token db = (WAccepted l role, d)"
  obtains user v mem d1 where "cx_user c = Some user"
    "invitation_FindByTokenHash db (token_hash E token) = Inr v" "invitation_IsValid v now"
    "NewLibraryMembership newID (in_libraryID v) (au_UserID user) (in_role v) now = Inr mem" "membership_Save mem db = (None, d1)"
    "l = in_libraryID v" "role = in_role v" "d = snd (invitation_Save (invitation_MarkUsed now v) d1)"
  using assms unfolding AcceptInvitationHandler_def
  by (auto split: option.splits if_splits sum.splits prod.splits)

text \<open>C12: an invitation admits one user once, unless the write that marks it used fails, an error the handler
  ignores.  Accepting it takes a token whose invitation is unused and unexpired and gives the caller
  exactly the library and the role it names; when the mark was written, as it is on a connection that
  stays up, no later request by anyone with that token is accepted, whatever is created, deleted or
  invited between.  Token hashes are taken to be distinct, as the table's unique index makes them.\<close>
theorem invitation_single_use:
  assumes "distinct (map iv_token_hash (library_invitations db))"
    and "AcceptInvitationHandler E c newID now token db = (WAccepted l role, d)" "later E (token_hash E token) d d'"
  shows "\<exists>u v mem d1 x. cx_user c = Some u \<and> invitation_FindByTokenHash db (token_hash E token) = Inr v
     \<and> invitation_IsValid v now \<and> in_libraryID v = l \<and> in_role v = role \<and> role_in d l (au_UserID u) = Some role
     \<and> NewLibraryMembership newID l (au_UserID u) role now = Inr mem
     \<and> membership_Save mem db = (None, d1) \<and> invitation_Save (invitation_MarkUsed now v) d1 = (x, d)
     \<and> (db_links db = None \<longrightarrow> x = None)
     \<and> (x = None \<longrightarrow> fst (AcceptInvitationHandler E c' newID' now' token d') \<noteq> WAccepted l' role')"
proof -
  obtain user v mem d1 where a: "cx_user c = Some user"
    "invitation_FindByTokenHash db (token_hash E token) = Inr v" "invitation_IsValid v now"
    "NewLibraryMembership newID (in_libraryID v) (au_UserID user) (in_role v) now = Inr mem" "membership_Save mem db = (None, d1)"
    "l = in_libraryID v" "role = in_role v" "d = snd (invitation_Save (invitation_MarkUsed now v) d1)"
    using assms(2) by (rule Accept_ok)
  have inv: "library_invitations d1 = library_invitations db" by (rule Save_invitations(2) [OF a(5)])
  obtain r where r: "r \<in> set (library_invitations d1)" "iv_token_hash r = token_hash E token" "scan_invitation r = Inr v"
    using a(2) unfolding invitation_FindByTokenHash_def inv by (rule query_row_ok)
  obtain x where x: "invitation_Save (invitation_MarkUsed now v) d1 = (x, d)" using a(8) by (metis prod.collapse)
  have dist: "distinct (map iv_token_hash (library_invitations d1))" using assms(1) inv by simp
  note c = used_closes [OF dist r x]
  have out: "fst (AcceptInvitationHandler E c' newID' now' token d') \<noteq> WAccepted l' role'" if "x = None"
    using later_closed [OF assms(3) c(1) [OF that]] closed_refuses by blast
  have steady: "x = None" if "db_links db = None" using c(2) steady.writes(3) [OF a(5) that] by blast
  have "role_in d l (au_UserID user) = role_in d1 l (au_UserID user)" unfolding a(8) by (rule role_in_cong) simp
  then have "role_in d l (au_UserID user) = Some role"
    using role_in_Save [OF a(5), of l "au_UserID user"] NewLibraryMembership_fields [OF a(4)] a(6,7) by simp
  then show ?thesis
    by (intro exI [of _ user] exI [of _ v] exI [of _ mem] exI [of _ d1] exI [of _ x])
       (use a(1-7) x out steady in auto)
qed

section \<open>An invitation at work\<close>

definition demo_invited :: database where
  "demo_invited = (empty_database [DefaultLibraryID, ''B''])\<lparr>users := [user_row_of ann],
     library_invitations := [\<lparr> iv_id = ''v1'', iv_library_id = ''B'', iv_email = ''a@b.c'', iv_role = RoleReader,
       iv_token_hash = token_hash demo_env ''tok'', iv_created_by = ''u1'', iv_expires_at = second, iv_used_at = None,
       iv_created_at = 0 \<rparr>]\<rparr>"

definition demo_caller :: req_context where
  "demo_caller = \<lparr> cx_user = Some \<lparr> au_UserID = ''u1'', au_Username = ''ann'', au_Role = RoleReader, au_Libraries = [] \<rparr>,
     cx_library = [] \<rparr>"

lemma demo_accept: "\<exists>d. AcceptInvitationHandler demo_env demo_caller ''m1'' 0 ''tok'' demo_invited = (WAccepted ''B'' RoleReader, d)"
proof -
  have nb: "\<not> blank ''m1''" "\<not> blank ''B''" "\<not> blank ''u1''" by (simp_all add: blank_visible visible_def)
  have p: "ParseRole RoleReader = Inr RoleReader" by (simp add: ParseRole_def RoleReader_def RoleAdmin_def)
  have f: "invitation_FindByTokenHash demo_invited (token_hash demo_env ''tok'') = Inr (RehydrateLibraryInvitation ''v1'' ''B'' ''a@b.c''
      RoleReader (token_hash demo_env ''tok'') ''u1'' second None 0)"
    by (simp add: invitation_FindByTokenHash_def query_row_def demo_invited_def empty_database_def connected_def scan_invitation_def p)
  let ?m = "\<lparr> mm_id = ''m1'', mm_libraryID = ''B'', mm_userID = ''u1'', mm_role = RoleReader, mm_createdAt = 0 \<rparr>"
  have n: "NewLibraryMembership ''m1'' ''B'' ''u1'' RoleReader 0 = Inr ?m"
    using nb by (simp add: NewLibraryMembership_def role_IsValid_def)
  obtain d1 where s: "membership_Save ?m demo_invited = (None, d1)"
    by (simp add: membership_Save_def upsert_membership_def membership_row_of_def Let_def exec_one_up demo_invited_def empty_database_def
        named_library_def user_row_of_def ann_def)
  show ?thesis
    unfolding AcceptInvitationHandler_def
    by (simp add: demo_caller_def f RehydrateLibraryInvitation_def invitation_IsValid_def n s)
qed

theorem invitation_single_use_witness:
  "\<exists>d. AcceptInvitationHandler demo_env demo_caller ''m1'' 0 ''tok'' demo_invited = (WAccepted ''B'' RoleReader, d)
     \<and> role_in d ''B'' ''u1'' = Some RoleReader
     \<and> (\<forall>l role. fst (AcceptInvitationHandler demo_env demo_caller ''m2'' 0 ''tok'' d) \<noteq> WAccepted l role)"
proof -
  obtain d where a: "AcceptInvitationHandler demo_env demo_caller ''m1'' 0 ''tok'' demo_invited = (WAccepted ''B'' RoleReader, d)"
    using demo_accept by blast
  have l: "db_links demo_invited = None" "distinct (map iv_token_hash (library_invitations demo_invited))"
    by (simp_all add: demo_invited_def empty_database_def)
  from invitation_single_use [OF l(2) a later.now, of demo_caller "''m2''" 0] a l(1) show ?thesis
    by (auto simp: demo_caller_def)
qed

theorem membership_changes_are_granted_witness:
  "role_in (membership_after demo_env (Library (Accept demo_caller ''m1'' 0 ''tok'')) demo_invited) ''B'' ''u1''
       \<noteq> role_in demo_invited ''B'' ''u1''
     \<and> (\<exists>v. invitation_FindByTokenHash demo_invited (token_hash demo_env ''tok'') = Inr v \<and> in_libraryID v = ''B'')"
proof -
  obtain d where a: "AcceptInvitationHandler demo_env demo_caller ''m1'' 0 ''tok'' demo_invited = (WAccepted ''B'' RoleReader, d)"
    using demo_accept by blast
  then have s: "serve demo_env (Accept demo_caller ''m1'' 0 ''tok'') demo_invited = (WAccepted ''B'' RoleReader, d)" by simp
  obtain user v mem d1 where k: "cx_user demo_caller = Some user"
    "NewLibraryMembership ''m1'' (in_libraryID v) (au_UserID user) (in_role v) 0 = Inr mem"
    "membership_Save mem demo_invited = (None, d1)" "''B'' = in_libraryID v" "RoleReader = in_role v"
    "d = snd (invitation_Save (invitation_MarkUsed 0 v) d1)" using a by (rule Accept_ok)
  have "role_in d ''B'' ''u1'' = role_in d1 ''B'' ''u1''" unfolding k(6) by (rule role_in_cong) simp
  have n: "role_in d ''B'' ''u1'' \<noteq> role_in demo_invited ''B'' ''u1''"
  proof -
    have u: "au_UserID user = ''u1''" using k(1) by (auto simp: demo_caller_def)
    have "role_in d1 ''B'' ''u1'' = Some RoleReader"
      using role_in_Save [OF k(3), of "''B''" "''u1''"] NewLibraryMembership_fields [OF k(2)] k(4,5) u by simp
    moreover have "role_in demo_invited ''B'' ''u1'' = None" by (simp add: role_in_def demo_invited_def empty_database_def)
    ultimately show ?thesis using \<open>role_in d ''B'' ''u1'' = role_in d1 ''B'' ''u1''\<close> by simp
  qed
  have "d = membership_after demo_env (Library (Accept demo_caller ''m1'' 0 ''tok'')) demo_invited" using s by simp
  from membership_changes_are_granted [OF n [unfolded this]] n [unfolded this] show ?thesis by (auto simp: Let_def)
qed

end
