(* ===== verification/Postgres_Sources.thy ===== *)
theory Postgres_Sources
  imports Postgres_Accounts Postgres_Pairing Go_Json
begin

text \<open>
  The full source rows of \<open>internal/persistence/postgres/sources.go\<close>: configuration, encrypted
  credential and health of a source, with the checks of \<open>migrations/00005\<close>.  The columns of one
  source are shared with \<open>source_repository.go\<close> (\<open>Postgres_Library\<close>).
\<close>

record SourceRecord =
  sx_ID :: SourceID
  sx_Label :: string
  sx_Kind :: string
  sx_ConfigBasePath :: string
  sx_ConfigBaseURL :: string
  sx_CredentialCiphertext :: string
  sx_CredentialNonce :: string
  sx_HealthStatus :: string
  sx_HealthDetail :: string
  sx_HealthCheckedAt :: "instant option"
  sx_SearchLinkURL :: string
  sx_Capabilities :: SourceCapabilities
  sx_CreatedAt :: instant

definition HasCredential :: "SourceRecord \<Rightarrow> bool" where
  "HasCredential r \<longleftrightarrow> sx_CredentialCiphertext r \<noteq> []"

text \<open>A nil and an empty byte slice are both the empty string here.\<close>

definition nilIfEmpty :: "string \<Rightarrow> string option" where
  "nilIfEmpty b = (if b = [] then None else Some b)"

definition nullIfEmpty :: "string \<Rightarrow> string option" where
  "nullIfEmpty s = (if s = [] then None else Some s)"

definition orEmpty :: "string option \<Rightarrow> string" where
  "orEmpty x = (case x of None \<Rightarrow> [] | Some s \<Rightarrow> s)"

definition statusOrUnknown :: "string \<Rightarrow> string" where
  "statusOrUnknown s = (if s = [] then ''unknown'' else s)"

text \<open>The zero \<open>time.Time\<close>, midnight of the first of January of year 1, in nanoseconds of Unix time.\<close>

definition zero_time :: instant where
  "zero_time = - 62135596800 * 10 ^ 9"

definition orNow :: "instant \<Rightarrow> instant \<Rightarrow> instant" where
  "orNow now t = (if t = zero_time then now else t)"

lemma orEmpty_simps [simp]: "orEmpty (nilIfEmpty b) = b" "orEmpty (nullIfEmpty b) = b"
  by (simp_all add: orEmpty_def nilIfEmpty_def nullIfEmpty_def)

definition scanSource :: "source_row \<Rightarrow> SourceRecord result" where
  "scanSource r = Inr
     \<lparr> sx_ID = sc_id r, sx_Label = sc_label r, sx_Kind = sc_kind r, sx_ConfigBasePath = sc_config_base_path r,
       sx_ConfigBaseURL = sc_config_base_url r, sx_CredentialCiphertext = orEmpty (sc_credential_ciphertext r),
       sx_CredentialNonce = orEmpty (sc_credential_nonce r), sx_HealthStatus = sc_health_status r,
       sx_HealthDetail = orEmpty (sc_health_detail r), sx_HealthCheckedAt = sc_health_checked_at r,
       sx_SearchLinkURL = orEmpty (sc_search_link_url r),
       sx_Capabilities = \<lparr> CanList = sc_can_list r, CanSearch = sc_can_search r, CanDownload = sc_can_download r \<rparr>,
       sx_CreatedAt = sc_created_at r \<rparr>"

section \<open>Checks of the table\<close>

definition health_details :: "string list" where
  "health_details =
     [''timeout'', ''connection-refused'', ''http-4xx'', ''http-5xx'', ''http-3xx-unsupported'',
      ''unparseable-response'', ''path-not-found'', ''path-not-readable'', ''auth-rejected'']"

definition source_checks :: "source_row \<Rightarrow> bool" where
  "source_checks r \<longleftrightarrow>
     sc_health_status r \<in> {''unknown'', ''reachable'', ''unreachable''}
     \<and> (case sc_health_detail r of None \<Rightarrow> True | Some d \<Rightarrow> d \<in> set health_details)
     \<and> (sc_credential_ciphertext r = None \<or> sc_kind r = ''opds'')
     \<and> ((sc_credential_ciphertext r = None) = (sc_credential_nonce r = None))"

definition insert_source :: "source_row \<Rightarrow> statement" where
  "insert_source r db =
     (if \<not> source_checks r then Inl check_violation
      else if sc_id r \<in> sc_id ` set (sources db) then Inl unique_violation
      else if sc_library_id r \<notin> library_ids db then Inl foreign_key_violation
      else Inr (db\<lparr>sources := sources db @ [r]\<rparr>, 1))"

definition update_source :: "SourceID \<Rightarrow> (source_row \<Rightarrow> source_row) \<Rightarrow> statement" where
  "update_source i f db =
     (if list_ex (\<lambda>r. sc_id r = i \<and> \<not> source_checks (f r)) (sources db) then Inl check_violation
      else Inr (db\<lparr>sources := update_where (\<lambda>r. sc_id r = i) f (sources db)\<rparr>,
                length (filter (\<lambda>r. sc_id r = i) (sources db))))"

section \<open>SourceRecordRepository\<close>

definition source_row_of :: "instant \<Rightarrow> SourceRecord \<Rightarrow> source_row" where
  "source_row_of now rec =
     \<lparr> sc_id = sx_ID rec, sc_label = sx_Label rec, sc_can_list = CanList (sx_Capabilities rec),
       sc_can_search = CanSearch (sx_Capabilities rec), sc_can_download = CanDownload (sx_Capabilities rec),
       sc_kind = sx_Kind rec, sc_library_id = DefaultLibraryID, sc_config_base_path = sx_ConfigBasePath rec,
       sc_config_base_url = sx_ConfigBaseURL rec,
       sc_credential_ciphertext = nilIfEmpty (sx_CredentialCiphertext rec),
       sc_credential_nonce = nilIfEmpty (sx_CredentialNonce rec),
       sc_health_status = statusOrUnknown (sx_HealthStatus rec),
       sc_health_detail = nullIfEmpty (sx_HealthDetail rec),
       sc_health_checked_at = map_option timestamptz (sx_HealthCheckedAt rec),
       sc_search_link_url = nullIfEmpty (sx_SearchLinkURL rec),
       sc_created_at = timestamptz (orNow now (sx_CreatedAt rec)) \<rparr>"

definition source_Create :: "instant \<Rightarrow> SourceRecord \<Rightarrow> database command" where
  "source_Create now rec db = exec_one (insert_source (source_row_of now rec)) db"

definition source_Get :: "database \<Rightarrow> SourceID \<Rightarrow> SourceRecord result" where
  "source_Get db i = query_row ''source not found'' (\<lambda>r. sc_id r = i) scanSource sources db"

definition source_List :: "(string \<Rightarrow> 'k :: linorder) \<Rightarrow> database \<Rightarrow> SourceRecord list result" where
  "source_List ck db = query_rows (\<lambda>r. True) (\<lambda>r. (sc_created_at r, ck (sc_id r))) scanSource sources db"

definition source_missing :: go_error where
  "source_missing = derr NotFound ''source not found''"

definition UpdateConfig :: "SourceID \<Rightarrow> string \<Rightarrow> string \<Rightarrow> string \<Rightarrow> database command" where
  "UpdateConfig i label basePath baseURL db =
     exec_found source_missing
       (update_source i (\<lambda>r. r\<lparr>sc_label := label, sc_config_base_path := basePath, sc_config_base_url := baseURL\<rparr>)) db"

definition SetCredential :: "SourceID \<Rightarrow> string \<Rightarrow> string \<Rightarrow> database command" where
  "SetCredential i ciphertext nonce db =
     exec_found source_missing
       (update_source i (\<lambda>r. r\<lparr>sc_credential_ciphertext := nilIfEmpty ciphertext,
          sc_credential_nonce := nilIfEmpty nonce\<rparr>)) db"

definition UpdateHealth ::
  "SourceID \<Rightarrow> string \<Rightarrow> string \<Rightarrow> instant \<Rightarrow> SourceCapabilities \<Rightarrow> string \<Rightarrow> database command" where
  "UpdateHealth i status detail checkedAt caps searchLinkURL db =
     exec_found source_missing
       (update_source i (\<lambda>r. r\<lparr>sc_health_status := statusOrUnknown status, sc_health_detail := nullIfEmpty detail,
          sc_health_checked_at := Some (timestamptz checkedAt), sc_search_link_url := nullIfEmpty searchLinkURL,
          sc_can_list := CanList caps, sc_can_search := CanSearch caps, sc_can_download := CanDownload caps\<rparr>)) db"

definition CountWithCredential :: "database \<Rightarrow> nat result" where
  "CountWithCredential db =
     (if \<not> connected db then Inl (TranslateError ErrClosed)
      else Inr (length (filter (\<lambda>r. sc_credential_ciphertext r \<noteq> None) (sources db))))"

section \<open>What the table keeps\<close>

definition sources_inv :: "database \<Rightarrow> bool" where
  "sources_inv db \<longleftrightarrow> distinct (map sc_id (sources db)) \<and> list_all source_checks (sources db)
     \<and> list_all (\<lambda>r. sc_library_id r = DefaultLibraryID) (sources db)"

lemma update_source_inv:
  assumes "sources_inv db" "update_source i f db = Inr (d, n)"
    and "\<And>r. sc_id (f r) = sc_id r" "\<And>r. sc_library_id (f r) = sc_library_id r"
  shows "sources_inv d"
proof -
  have d: "sources d = update_where (\<lambda>r. sc_id r = i) f (sources db)"
    and ok: "\<forall>r \<in> set (sources db). sc_id r = i \<longrightarrow> source_checks (f r)"
    using assms(2) by (auto simp: update_source_def list_ex_iff split: if_splits)
  show ?thesis
    using assms(1) ok unfolding sources_inv_def d list_all_iff set_update_where
    by (auto simp: map_update_where assms(3,4))
qed

text \<open>Whatever a successful write stored is what \<open>Get\<close> reads back, up to the column's microseconds.\<close>

lemma source_Create_Get:
  assumes "db_links db = None" "source_Create now rec db = (None, db')"
  shows "source_Get db' (sx_ID rec) =
    Inr (rec\<lparr>sx_HealthStatus := statusOrUnknown (sx_HealthStatus rec),
      sx_HealthCheckedAt := map_option timestamptz (sx_HealthCheckedAt rec),
      sx_CreatedAt := timestamptz (orNow now (sx_CreatedAt rec))\<rparr>)"
proof -
  obtain d n where d: "insert_source (source_row_of now rec) db = Inr (d, n)" "db' = tick d"
    using assms(2) unfolding source_Create_def by (elim exec_one_ok)
  then have new: "sx_ID rec \<notin> sc_id ` set (sources db)"
    and t: "sources db' = sources db @ [source_row_of now rec]" "db_links db' = None"
    using assms(1) by (auto simp: insert_source_def source_row_of_def tick_def split: if_splits)
  have "List.find (\<lambda>r. sc_id r = sx_ID rec) (sources db) = None"
    using new by (force simp: find_None_iff)
  then have "List.find (\<lambda>r. sc_id r = sx_ID rec) (sources db') = Some (source_row_of now rec)"
    unfolding t by (simp add: find_append source_row_of_def)
  then show ?thesis
    using t(2) by (simp add: source_Get_def query_row_def connected_def scanSource_def source_row_of_def)
qed

end
