(* ===== verification/Import_Candidates.thy ===== *)
theory Import_Candidates
  imports Postgres_Sources
begin

text \<open>
  \<open>import_candidate_repository.go\<close> of \<open>internal/persistence/postgres\<close>: the staging rows of the import
  pipeline and the lookup of owned editions by ISBN.

  \<open>jsonb\<close> is PostgreSQL's conversion of a JSON text, as in \<open>Job_Store\<close>: \<open>None\<close> when the text is
  refused, else the text the column returns.  \<open>ck\<close> is the collation key behind \<open>ORDER BY\<close> on text.
\<close>

section \<open>Records\<close>

definition ImportCandidateStatusQueued :: string where "ImportCandidateStatusQueued = ''queued''"
definition ImportCandidateStatusPending :: string where "ImportCandidateStatusPending = ''pending''"
definition ImportCandidateStatusAutoImported :: string where "ImportCandidateStatusAutoImported = ''auto_imported''"
definition ImportCandidateStatusConfirmed :: string where "ImportCandidateStatusConfirmed = ''confirmed''"
definition ImportCandidateStatusRejected :: string where "ImportCandidateStatusRejected = ''rejected''"
definition ImportCandidateStatusFailed :: string where "ImportCandidateStatusFailed = ''failed''"

lemmas import_statuses =
  ImportCandidateStatusQueued_def ImportCandidateStatusPending_def ImportCandidateStatusAutoImported_def
  ImportCandidateStatusConfirmed_def ImportCandidateStatusRejected_def ImportCandidateStatusFailed_def

definition ValidImportCandidateStatus :: "string \<Rightarrow> bool" where
  "ValidImportCandidateStatus s \<longleftrightarrow>
     s \<in> {ImportCandidateStatusQueued, ImportCandidateStatusPending, ImportCandidateStatusAutoImported,
          ImportCandidateStatusConfirmed, ImportCandidateStatusRejected, ImportCandidateStatusFailed}"

record ImportCandidateRecord =
  ca_ID :: string
  ca_SourceID :: SourceID
  ca_FileReference :: FileReference
  ca_Status :: string
  ca_ExtractedMetadata :: string
  ca_MatchCandidates :: string
  ca_JobID :: "string option"
  ca_LastError :: "string option"
  ca_CreatedAt :: instant
  ca_UpdatedAt :: instant

section \<open>The file reference column\<close>

record fileReferenceJSON =
  fj_ID :: string
  fj_Format :: string
  fj_SizeBytes :: "int option"

definition file_reference_json :: "fileReferenceJSON \<Rightarrow> json" where
  "file_reference_json r =
     JObj ([(''id'', JStr (fj_ID r)), (''format'', JStr (fj_Format r))]
           @ (case fj_SizeBytes r of None \<Rightarrow> [] | Some n \<Rightarrow> [(''sizeBytes'', JInt n)]))"

text \<open>A pointer field: \<open>null\<close> makes it nil.\<close>

definition int_ptr_field :: "(int option \<Rightarrow> 'c \<Rightarrow> 'c) \<Rightarrow> json \<Rightarrow> 'c \<Rightarrow> 'c option" where
  "int_ptr_field upd v c =
     (case v of
        JNull \<Rightarrow> Some (upd None c)
      | JNum s \<Rightarrow> (case ParseInt64 s of None \<Rightarrow> None | Some i \<Rightarrow> Some (upd (Some i) c))
      | _ \<Rightarrow> None)"

definition file_reference_fields :: "fileReferenceJSON field list" where
  "file_reference_fields =
     [(''id'', str_field (\<lambda>s. fj_ID_update (\<lambda>_. s))),
      (''format'', str_field (\<lambda>s. fj_Format_update (\<lambda>_. s))),
      (''sizeBytes'', int_ptr_field (\<lambda>i. fj_SizeBytes_update (\<lambda>_. i)))]"

definition zero_file_reference :: fileReferenceJSON where
  "zero_file_reference = \<lparr> fj_ID = [], fj_Format = [], fj_SizeBytes = None \<rparr>"

definition marshal_file_reference :: "FileReference \<Rightarrow> string" where
  "marshal_file_reference ref =
     print_json (file_reference_json
       \<lparr> fj_ID = fr_ReferenceID ref, fj_Format = fr_Format ref, fj_SizeBytes = fr_SizeBytes ref \<rparr>)"

definition unmarshalling_failed :: go_error where
  "unmarshalling_failed = ErrorsNew ''unmarshalling file reference''"

definition scan_file_reference :: "string \<Rightarrow> FileReference result" where
  "scan_file_reference raw =
     (case Unmarshal file_reference_fields zero_file_reference raw of
        None \<Rightarrow> Inl unmarshalling_failed
      | Some r \<Rightarrow> NewFileReference (fj_ID r) (fj_Format r) (fj_SizeBytes r))"

text \<open>\<open>scanImportCandidate\<close>; every error of it goes through \<open>TranslateError\<close>.\<close>

definition scanImportCandidate :: "candidate_row \<Rightarrow> ImportCandidateRecord result" where
  "scanImportCandidate r =
     (case scan_file_reference (ic_file_reference r) of
        Inl err \<Rightarrow> Inl (TranslateError err)
      | Inr ref \<Rightarrow> Inr
         \<lparr> ca_ID = ic_id r, ca_SourceID = ic_source_id r, ca_FileReference = ref, ca_Status = ic_status r,
           ca_ExtractedMetadata = orEmpty (ic_extracted_metadata r),
           ca_MatchCandidates = orEmpty (ic_match_candidates r), ca_JobID = ic_job_id r,
           ca_LastError = ic_last_error r, ca_CreatedAt = ic_created_at r, ca_UpdatedAt = ic_updated_at r \<rparr>)"

section \<open>Statements\<close>

type_synonym jsonb = "string \<Rightarrow> string option"

definition invalid_text_representation :: string where
  "invalid_text_representation = ''22P02''"

text \<open>A nullable \<open>jsonb\<close> parameter: \<open>None\<close> when the text is refused.\<close>

definition jsonb_arg :: "jsonb \<Rightarrow> string \<Rightarrow> string option option" where
  "jsonb_arg jsonb b = (case nilIfEmpty b of None \<Rightarrow> Some None | Some t \<Rightarrow> map_option Some (jsonb t))"

definition insert_candidate :: "candidate_row \<Rightarrow> statement" where
  "insert_candidate r db =
     (if \<not> ValidImportCandidateStatus (ic_status r) then Inl check_violation
      else if ic_id r \<in> ic_id ` set (import_candidates db) then Inl unique_violation
      else if ic_source_id r \<notin> sc_id ` set (sources db) then Inl foreign_key_violation
      else Inr (db\<lparr>import_candidates := import_candidates db @ [r]\<rparr>, 1))"

definition update_candidate :: "string \<Rightarrow> (candidate_row \<Rightarrow> candidate_row) \<Rightarrow> statement" where
  "update_candidate i f db =
     (if list_ex (\<lambda>r. ic_id r = i \<and> \<not> ValidImportCandidateStatus (ic_status (f r))) (import_candidates db)
      then Inl check_violation
      else Inr (db\<lparr>import_candidates := update_where (\<lambda>r. ic_id r = i) f (import_candidates db)\<rparr>,
                length (filter (\<lambda>r. ic_id r = i) (import_candidates db))))"

section \<open>ImportCandidateRepository\<close>

definition candidate_Create :: "jsonb \<Rightarrow> instant \<Rightarrow> ImportCandidateRecord \<Rightarrow> database command" where
  "candidate_Create jsonb now rec db =
     exec_one (\<lambda>db.
       case (jsonb (marshal_file_reference (ca_FileReference rec)), jsonb_arg jsonb (ca_ExtractedMetadata rec),
             jsonb_arg jsonb (ca_MatchCandidates rec)) of
         (Some ref, Some extracted, Some matches) \<Rightarrow>
           insert_candidate
             \<lparr> ic_id = ca_ID rec, ic_source_id = ca_SourceID rec, ic_file_reference = ref,
               ic_status = ca_Status rec, ic_extracted_metadata = extracted, ic_match_candidates = matches,
               ic_job_id = ca_JobID rec, ic_last_error = ca_LastError rec,
               ic_created_at = timestamptz (orNow now (ca_CreatedAt rec)),
               ic_updated_at = timestamptz (orNow now (ca_UpdatedAt rec)) \<rparr> db
       | _ \<Rightarrow> Inl invalid_text_representation) db"

definition candidate_Get :: "database \<Rightarrow> string \<Rightarrow> ImportCandidateRecord result" where
  "candidate_Get db i =
     query_row ''import candidate not found'' (\<lambda>r. ic_id r = i) scanImportCandidate import_candidates db"

text \<open>The rows whose source belongs to the library.\<close>

definition candidates_in :: "LibraryID \<Rightarrow> database \<Rightarrow> candidate_row list" where
  "candidates_in libraryID db =
     filter (\<lambda>r. list_ex (\<lambda>s. sc_id s = ic_source_id r \<and> sc_library_id s = libraryID) (sources db))
       (import_candidates db)"

definition GetInLibrary :: "database \<Rightarrow> LibraryID \<Rightarrow> string \<Rightarrow> ImportCandidateRecord result" where
  "GetInLibrary db libraryID i =
     query_row ''import candidate not found'' (\<lambda>r. ic_id r = i) scanImportCandidate (candidates_in libraryID) db"

text \<open>The optional filters: a nil or empty one does not restrict.\<close>

definition candidate_filter :: "string option \<Rightarrow> string option \<Rightarrow> candidate_row \<Rightarrow> bool" where
  "candidate_filter sourceID status r \<longleftrightarrow>
     (case sourceID of None \<Rightarrow> True | Some s \<Rightarrow> s = [] \<or> ic_source_id r = s)
     \<and> (case status of None \<Rightarrow> True | Some s \<Rightarrow> s = [] \<or> ic_status r = s)"

definition ListInLibrary ::
  "(string \<Rightarrow> 'k :: linorder) \<Rightarrow> database \<Rightarrow> LibraryID \<Rightarrow> string option \<Rightarrow> string option
   \<Rightarrow> ImportCandidateRecord list result" where
  "ListInLibrary ck db libraryID sourceID status =
     query_rows (candidate_filter sourceID status) (\<lambda>r. (ic_created_at r, ck (ic_id r))) scanImportCandidate
       (candidates_in libraryID) db"

definition candidate_List ::
  "(string \<Rightarrow> 'k :: linorder) \<Rightarrow> database \<Rightarrow> string option \<Rightarrow> string option \<Rightarrow> ImportCandidateRecord list result" where
  "candidate_List ck db sourceID status =
     query_rows (candidate_filter sourceID status) (\<lambda>r. (ic_created_at r, ck (ic_id r))) scanImportCandidate
       import_candidates db"

definition candidate_missing :: go_error where
  "candidate_missing = derr NotFound ''import candidate not found''"

definition UpdateStatus :: "string \<Rightarrow> string \<Rightarrow> instant \<Rightarrow> database command" where
  "UpdateStatus i status now db =
     exec_found candidate_missing
       (update_candidate i (\<lambda>r. r\<lparr>ic_status := status, ic_updated_at := timestamptz now\<rparr>)) db"

definition UpdateExtractedAndMatches ::
  "jsonb \<Rightarrow> string \<Rightarrow> string \<Rightarrow> string \<Rightarrow> string \<Rightarrow> instant \<Rightarrow> database command" where
  "UpdateExtractedAndMatches jsonb i status extracted matches now db =
     exec_found candidate_missing (\<lambda>db.
       case (jsonb_arg jsonb extracted, jsonb_arg jsonb matches) of
         (Some e, Some m) \<Rightarrow>
           update_candidate i (\<lambda>r. r\<lparr>ic_status := status, ic_extracted_metadata := e, ic_match_candidates := m,
             ic_updated_at := timestamptz now\<rparr>) db
       | _ \<Rightarrow> Inl invalid_text_representation) db"

definition UpdateFailed :: "string \<Rightarrow> string \<Rightarrow> instant \<Rightarrow> database command" where
  "UpdateFailed i lastError now db =
     exec_found candidate_missing
       (update_candidate i (\<lambda>r. r\<lparr>ic_status := ImportCandidateStatusFailed, ic_last_error := Some lastError,
          ic_updated_at := timestamptz now\<rparr>)) db"

text \<open>\<open>file_reference->>'key'\<close>: the text of a member, NULL when there is none.\<close>

definition json_member :: "string \<Rightarrow> string \<Rightarrow> string option" where
  "json_member t key =
     (case parse_json t of
        Some (JObj ms) \<Rightarrow>
          (case map_of (rev ms) key of
             None \<Rightarrow> None | Some JNull \<Rightarrow> None | Some (JStr s) \<Rightarrow> Some s | Some v \<Rightarrow> Some (print_json v))
      | _ \<Rightarrow> None)"

definition refers_to :: "SourceID \<Rightarrow> string \<Rightarrow> candidate_row \<Rightarrow> bool" where
  "refers_to sourceID fileRefID r \<longleftrightarrow>
     ic_source_id r = sourceID
     \<and> (json_member (ic_file_reference r) ''id'' = Some fileRefID
        \<or> json_member (ic_file_reference r) ''referenceId'' = Some fileRefID)"

definition ExistsBySourceAndFileRefID :: "database \<Rightarrow> SourceID \<Rightarrow> string \<Rightarrow> bool result" where
  "ExistsBySourceAndFileRefID db sourceID fileRefID =
     (if \<not> connected db then Inl (TranslateError ErrClosed)
      else Inr (list_ex (refers_to sourceID fileRefID) (import_candidates db)))"

section \<open>Owned editions by ISBN\<close>

record ExistingEditionHit =
  eh_EditionID :: EditionID
  eh_WorkID :: WorkID
  eh_Title :: string
  eh_Author :: string
  eh_CoverURL :: "string option"
  eh_ISBN :: string

fun join_text :: "string \<Rightarrow> string list \<Rightarrow> string" where
  "join_text sep [] = []"
| "join_text sep [x] = x"
| "join_text sep (x # xs) = x @ sep @ join_text sep xs"

text \<open>
  The rows of one group: an edition of a work joined with the library entries of the edition and the
  authors of the work, so a name comes once for each entry.
\<close>

definition hit_names :: "database \<Rightarrow> edition_row \<Rightarrow> string list" where
  "hit_names db e =
     (let entries = length (filter (\<lambda>en. en_edition_id en = ed_id e) (library_entries db)) in
      concat (map (\<lambda>(w, a). if w = ed_work_id e
         then (case row_by au_id a (authors db) of None \<Rightarrow> [] | Some r \<Rightarrow> replicate entries (au_name r)) else [])
        (work_authors db)))"

definition hit_of :: "database \<Rightarrow> string \<Rightarrow> edition_row \<Rightarrow> ExistingEditionHit list" where
  "hit_of db isbn e =
     (case row_by wk_id (ed_work_id e) (works db) of
        None \<Rightarrow> []
      | Some w \<Rightarrow> [\<lparr> eh_EditionID = ed_id e, eh_WorkID = ed_work_id e, eh_Title = wk_title w,
                   eh_Author = join_text '', '' (hit_names db e), eh_CoverURL = None, eh_ISBN = isbn \<rparr>])"

definition owned_by_isbn :: "database \<Rightarrow> string \<Rightarrow> edition_row \<Rightarrow> bool" where
  "owned_by_isbn db isbn e \<longleftrightarrow>
     ed_isbn e = Some isbn \<and> list_ex (\<lambda>en. en_edition_id en = ed_id e) (library_entries db)"

definition FindOwnedByISBN ::
  "(string \<Rightarrow> 'k :: linorder) \<Rightarrow> database \<Rightarrow> string \<Rightarrow> ExistingEditionHit list result" where
  "FindOwnedByISBN ck db isbn =
     (if \<not> connected db then Inl (TranslateError ErrClosed)
      else Inr (concat (map (hit_of db isbn) (sort_key (ck \<circ> ed_id) (filter (owned_by_isbn db isbn) (editions db))))))"

end
