(* ===== verification/Import_Extract.thy ===== *)
theory Import_Extract
  imports Import_Candidates Auth_Password "HOL-Library.Sublist"
begin

text \<open>
  Extracted metadata and matching: \<open>internal/importer/extract/types.go\<close> and
  \<open>internal/importer/matching.go\<close>.

  \<open>cm\<close> is the case table of package \<open>unicode\<close> above ASCII.  The Open Library client answers a query
  with a list of results, \<open>None\<close> when there is no client or it fails.
\<close>

section \<open>Strings built from runes\<close>

definition of_runes :: "rune list \<Rightarrow> string" where
  "of_runes rs = concat (map encode_rune rs)"

text \<open>A rune that some string decodes to is decoded from its encoding, whatever follows.\<close>

definition decodable :: "rune \<Rightarrow> bool" where
  "decodable r \<longleftrightarrow> (\<forall>t. segments (encode_rune r @ t) = (r, encode_rune r) # segments t)"

lemma decodable_RuneError: "decodable RuneError"
  by (simp add: decodable_def encode_rune_def RuneError_def between_def segments_Cons decode_rune_def cont_def)

lemma decodable_decoded:
  assumes "decode_rune (byte_of c) cs = (r, n)"
  shows "decodable r"
proof (cases "r = RuneError \<and> n = 0")
  case True
  then show ?thesis using decodable_RuneError by simp
next
  case False
  have n: "n \<le> length cs" using decode_rune_length [of "byte_of c" cs] assms by simp
  show ?thesis
    unfolding decodable_def
  proof
    fix t
    have "decode_rune (byte_of c) (take n cs @ t) = (r, n)" and e: "encode_rune r = c # take n cs"
      using decode_rune_prefix [OF assms False] by blast+
    then show "segments (encode_rune r @ t) = (r, encode_rune r) # segments t"
      using n by (simp add: segments_Cons)
  qed
qed

lemma decodable_runes: "r \<in> set (runes s) \<Longrightarrow> decodable r"
proof (induction s rule: segments.induct)
  case (2 c cs)
  show ?case
  proof (cases "r = fst (decode_rune (byte_of c) cs)")
    case True
    then show ?thesis using decodable_decoded [of c cs r "snd (decode_rune (byte_of c) cs)"] by simp
  next
    case False
    then show ?thesis using 2 by (simp add: runes_def segments_Cons)
  qed
qed (simp add: runes_def)

lemma segments_of_runes:
  "list_all decodable rs \<Longrightarrow> segments (of_runes rs) = map (\<lambda>r. (r, encode_rune r)) rs"
  by (induction rs) (auto simp: of_runes_def decodable_def)

lemma runes_of_runes: "list_all decodable rs \<Longrightarrow> runes (of_runes rs) = rs"
  by (simp add: runes_def segments_of_runes comp_def)

definition trim :: "rune list \<Rightarrow> rune list" where
  "trim rs = dropWhileEnd IsSpace (dropWhile IsSpace rs)"

lemma dropWhileEnd_map: "dropWhileEnd P (map f xs) = map f (dropWhileEnd (P \<circ> f) xs)"
  by (simp add: dropWhileEnd_def rev_map dropWhile_map)

lemma TrimSpace_of_runes: "list_all decodable rs \<Longrightarrow> TrimSpace (of_runes rs) = of_runes (trim rs)"
  unfolding TrimSpace_def by (simp add: segments_of_runes trim_def dropWhile_map dropWhileEnd_map comp_def)
    (simp add: of_runes_def comp_def)

lemma set_trim: "set (trim rs) \<subseteq> set rs"
  by (auto simp: trim_def dest!: set_dropWhileEnd set_dropWhileD)

lemma length_trim: "length (trim rs) \<le> length rs"
  unfolding trim_def dropWhileEnd_def by (metis length_rev length_dropWhile_le le_trans)

lemma trim_visible: "trim rs \<noteq> [] \<Longrightarrow> \<exists>r \<in> set (trim rs). \<not> IsSpace r"
proof -
  assume "trim rs \<noteq> []"
  then have "rev (dropWhile IsSpace (rev (dropWhile IsSpace rs))) \<noteq> []"
    by (simp add: trim_def dropWhileEnd_def)
  then have "dropWhile IsSpace (rev (dropWhile IsSpace rs)) \<noteq> []" by simp
  then have "\<not> IsSpace (hd (dropWhile IsSpace (rev (dropWhile IsSpace rs))))" by (rule hd_dropWhile)
  with \<open>dropWhile IsSpace (rev (dropWhile IsSpace rs)) \<noteq> []\<close> show ?thesis
    unfolding trim_def dropWhileEnd_def by (metis hd_in_set set_rev)
qed

section \<open>Extracted metadata\<close>

type_synonym Format = string

definition FormatEPUB :: Format where "FormatEPUB = ''epub''"
definition FormatPDF :: Format where "FormatPDF = ''pdf''"
definition FormatCBZ :: Format where "FormatCBZ = ''cbz''"
definition FormatUnknown :: Format where "FormatUnknown = ''unknown''"

definition ErrOversized :: go_error where
  "ErrOversized = ErrorsNew ''file or decompressed content exceeds size limit''"
definition ErrTooManyEntries :: go_error where
  "ErrTooManyEntries = ErrorsNew ''zip archive exceeds 10,000 entry limit''"
definition ErrMalformed :: go_error where
  "ErrMalformed = ErrorsNew ''malformed or unparseable container''"
definition ErrNoTitle :: go_error where
  "ErrNoTitle = ErrorsNew ''file contains no title metadata''"

definition MaxCoverBytes :: nat where "MaxCoverBytes = 10 * 1024 * 1024"
definition MaxTextLength :: nat where "MaxTextLength = 255"
definition MaxDescriptionLength :: nat where "MaxDescriptionLength = 10000"

record ExtractedMetadata =
  xm_Title :: string
  xm_Authors :: "string list"
  xm_ISBN :: "string option"
  xm_Language :: "string option"
  xm_Publisher :: "string option"
  xm_Description :: "string option"
  xm_CoverBytes :: string
  xm_Format :: Format

definition kept_rune :: "rune \<Rightarrow> bool" where
  "kept_rune r \<longleftrightarrow> \<not> IsControl r \<or> r \<in> {9, 10, 13}"

definition sanitizeField :: "string \<Rightarrow> nat \<Rightarrow> string" where
  "sanitizeField s maxLen =
     (let res = TrimSpace (of_runes (filter kept_rune (runes s)));
          rs = runes res;
          res' = (if length rs > maxLen then of_runes (take maxLen rs) else res) in
      TrimSpace res')"

definition clean_text :: "nat \<Rightarrow> string option \<Rightarrow> string option" where
  "clean_text maxLen raw =
     (case raw of
        None \<Rightarrow> None
      | Some s \<Rightarrow> (let c = sanitizeField (TrimSpace s) maxLen in if c \<noteq> [] then Some c else None))"

definition clean_valid :: "(string \<Rightarrow> go_error option) \<Rightarrow> string option \<Rightarrow> string option" where
  "clean_valid validate raw =
     (case raw of
        None \<Rightarrow> None
      | Some s \<Rightarrow> (let c = TrimSpace s in if validate c = None then Some c else None))"

definition NewExtractedMetadata ::
  "string \<Rightarrow> string list \<Rightarrow> string option \<Rightarrow> string option \<Rightarrow> string option \<Rightarrow> string option \<Rightarrow> string
   \<Rightarrow> Format \<Rightarrow> ExtractedMetadata result" where
  "NewExtractedMetadata rawTitle rawAuthors rawISBN rawLanguage rawPublisher rawDescription coverBytes format =
     (let title0 = TrimSpace rawTitle in
      if title0 = [] then Inl ErrNoTitle
      else let title = sanitizeField title0 MaxTextLength in
      if title = [] then Inl ErrNoTitle
      else Inr
        \<lparr> xm_Title = title,
          xm_Authors = filter (\<lambda>a. a \<noteq> []) (map (\<lambda>a. sanitizeField (TrimSpace a) MaxTextLength) rawAuthors),
          xm_ISBN = clean_valid ValidateISBN rawISBN,
          xm_Language = clean_valid ValidateLanguageTag rawLanguage,
          xm_Publisher = clean_text MaxTextLength rawPublisher,
          xm_Description = clean_text MaxDescriptionLength rawDescription,
          xm_CoverBytes = (if 0 < length coverBytes \<and> length coverBytes \<le> MaxCoverBytes then coverBytes else []),
          xm_Format = format \<rparr>)"

subsection \<open>What a sanitised field is\<close>

lemma sanitizeField_runes:
  "runes (sanitizeField s n) = trim (take n (trim (filter kept_rune (runes s))))"
  "sanitizeField s n = of_runes (trim (take n (trim (filter kept_rune (runes s)))))"
proof -
  let ?k = "filter kept_rune (runes s)"
  have k: "list_all decodable ?k" by (auto simp: list_all_iff dest: decodable_runes)
  then have t: "list_all decodable (trim ?k)" using set_trim [of ?k] by (auto simp: list_all_iff)
  then have u: "list_all decodable (take n (trim ?k))" by (auto simp: list_all_iff dest: in_set_takeD)
  then have v: "list_all decodable (trim (take n (trim ?k)))"
    using set_trim [of "take n (trim ?k)"] by (auto simp: list_all_iff)
  have eq: "sanitizeField s n = TrimSpace (of_runes (take n (trim ?k)))"
    unfolding sanitizeField_def Let_def TrimSpace_of_runes [OF k] runes_of_runes [OF t] by simp
  show f: "sanitizeField s n = of_runes (trim (take n (trim ?k)))"
    unfolding eq by (rule TrimSpace_of_runes [OF u])
  show "runes (sanitizeField s n) = trim (take n (trim ?k))"
    unfolding f by (rule runes_of_runes [OF v])
qed

lemma of_runes_eq_Nil [simp]: "of_runes rs = [] \<longleftrightarrow> rs = []"
  by (cases rs) (auto simp: of_runes_def)

lemma sanitizeField_bounds:
  assumes "sanitizeField s n \<noteq> []" "n \<le> m"
  shows "bounded_text m (sanitizeField s n) \<longleftrightarrow> set (runes (sanitizeField s n)) \<inter> {9, 10, 13} = {}"
proof -
  let ?r = "trim (take n (trim (filter kept_rune (runes s))))"
  have r: "runes (sanitizeField s n) = ?r" by (rule sanitizeField_runes)
  have "?r \<noteq> []" using assms(1) sanitizeField_runes(2) [of s n] by simp
  then have vis: "\<exists>x \<in> set ?r. \<not> IsSpace x" by (rule trim_visible)
  have "length ?r \<le> length (take n (trim (filter kept_rune (runes s))))" by (rule length_trim)
  then have len: "length ?r \<le> m" using assms(2) by simp
  have "set ?r \<subseteq> set (filter kept_rune (runes s))"
    using set_trim set_take_subset by (metis order_trans)
  then have ctl: "IsControl x \<longleftrightarrow> x \<in> {9, 10, 13}" if "x \<in> set ?r" for x
    using that by (auto simp: kept_rune_def IsControl_def)
  show ?thesis
    using vis len ctl unfolding bounded_text_def r by blast
qed

text \<open>The characters the constructors of the catalogue refuse and the sanitiser keeps.\<close>

definition line_breaks :: "rune set" where
  "line_breaks = {9, 10, 13}"

lemma extracted_cases:
  assumes "NewExtractedMetadata t as i l p d c f = Inr m"
  shows "xm_Title m = sanitizeField (TrimSpace t) MaxTextLength" "xm_Title m \<noteq> []"
    "xm_ISBN m = clean_valid ValidateISBN i" "xm_Language m = clean_valid ValidateLanguageTag l"
    "xm_Publisher m = clean_text MaxTextLength p" "xm_Format m = f"
    "a \<in> set (xm_Authors m) \<Longrightarrow> a \<noteq> [] \<and> (\<exists>r. a = sanitizeField r MaxTextLength)"
  using assms by (auto simp: NewExtractedMetadata_def Let_def split: if_splits)

lemma clean_valid_valid: "clean_valid v x = Some y \<Longrightarrow> v y = None"
  by (auto simp: clean_valid_def Let_def split: option.splits if_splits)

lemma clean_text_field:
  "clean_text n x = Some y \<Longrightarrow> y \<noteq> [] \<and> (\<exists>r. y = sanitizeField r n)"
  by (auto simp: clean_text_def Let_def split: option.splits if_splits)

text \<open>
  What extraction hands over is what the catalogue accepts, but for line breaks and tabs.  The
  constructors of works and editions take the title, the language, the ISBN and the publisher of any
  extracted metadata exactly when title and publisher hold no tab, line feed or carriage return, which
  extraction keeps and the catalogue refuses as control characters; an author is taken exactly when
  the name holds none either and has at most 200 characters.
\<close>

theorem extracted_metadata_accepted:
  assumes "NewExtractedMetadata t as i l p d c f = Inr m"
  shows "is_ok (NewWork wid (xm_Title m) [] auths [] None refs) \<longleftrightarrow> set (runes (xm_Title m)) \<inter> line_breaks = {}"
    and "is_ok (NewEdition eid wid lg (xm_ISBN m) (orEmpty (xm_Publisher m)) None []) \<longleftrightarrow>
      set (runes (orEmpty (xm_Publisher m))) \<inter> line_breaks = {}"
    and "xm_Language m = Some tag \<Longrightarrow> NewLanguage tag = Inr (Language tag)"
    and "a \<in> set (xm_Authors m) \<Longrightarrow> is_ok (NewAuthor aid a []) \<longleftrightarrow>
      set (runes a) \<inter> line_breaks = {} \<and> length (runes a) \<le> maxAuthorNameLength"
proof -
  note m = extracted_cases [OF assms]
  have field: "bounded_text maxTitleLength x \<longleftrightarrow> set (runes x) \<inter> line_breaks = {}"
    if "x \<noteq> []" "x = sanitizeField r MaxTextLength" for x r
    using sanitizeField_bounds [of r MaxTextLength maxTitleLength] that
    by (simp add: MaxTextLength_def maxTitleLength_def line_breaks_def)
  show "is_ok (NewWork wid (xm_Title m) [] auths [] None refs) \<longleftrightarrow> set (runes (xm_Title m)) \<inter> line_breaks = {}"
    using field [OF m(2,1)] ValidateBoundedText_iff [of "''title''" "xm_Title m" maxTitleLength]
    by (auto simp: NewWork_def is_ok_iff split: option.splits)
  have isbn: "\<forall>x. xm_ISBN m = Some x \<longrightarrow> ValidateISBN x = None"
    using clean_valid_valid m(3) by metis
  show "is_ok (NewEdition eid wid lg (xm_ISBN m) (orEmpty (xm_Publisher m)) None []) \<longleftrightarrow>
      set (runes (orEmpty (xm_Publisher m))) \<inter> line_breaks = {}"
  proof (cases "xm_Publisher m")
    case None
    then show ?thesis using isbn by (simp add: is_ok_iff NewEdition_ok_iff valid_edition_def orEmpty_def runes_def)
  next
    case (Some x)
    then obtain r where x: "x \<noteq> []" "x = sanitizeField r MaxTextLength"
      using clean_text_field m(5) by metis
    show ?thesis
      using isbn Some field [OF x] x(1)
      by (simp add: is_ok_iff NewEdition_ok_iff valid_edition_def orEmpty_def)
  qed
  show "NewLanguage tag = Inr (Language tag)" if "xm_Language m = Some tag"
    using clean_valid_valid [of ValidateLanguageTag l tag] that m(4) by (simp add: NewLanguage_def)
  show "is_ok (NewAuthor aid a []) \<longleftrightarrow>
      set (runes a) \<inter> line_breaks = {} \<and> length (runes a) \<le> maxAuthorNameLength"
    if mem: "a \<in> set (xm_Authors m)"
  proof -
    obtain r where a: "a \<noteq> []" "a = sanitizeField r MaxTextLength" using m(7) [OF mem] by blast
    have "bounded_text maxAuthorNameLength a \<longleftrightarrow>
        bounded_text maxTitleLength a \<and> length (runes a) \<le> maxAuthorNameLength"
      by (auto simp: bounded_text_def maxAuthorNameLength_def maxTitleLength_def)
    then show ?thesis
      using field [OF a] ValidateBoundedText_iff [of "''name''" a maxAuthorNameLength]
      by (auto simp: NewAuthor_def is_ok_iff split: option.splits)
  qed
qed

definition two_line_title :: string where
  "two_line_title = ''Moby'' @ CHR 0x0A # ''Dick''"

definition two_line_metadata :: ExtractedMetadata where
  "two_line_metadata =
     \<lparr> xm_Title = two_line_title, xm_Authors = [''Melville''], xm_ISBN = None, xm_Language = Some ''en'',
       xm_Publisher = Some ''Harper'', xm_Description = None, xm_CoverBytes = [], xm_Format = FormatEPUB \<rparr>"

lemma trim_id: "rs \<noteq> [] \<Longrightarrow> \<not> IsSpace (hd rs) \<Longrightarrow> \<not> IsSpace (last rs) \<Longrightarrow> trim rs = rs"
proof -
  assume "rs \<noteq> []" "\<not> IsSpace (hd rs)" "\<not> IsSpace (last rs)"
  then have "dropWhile IsSpace rs = rs" "dropWhile IsSpace (rev rs) = rev rs"
    by (simp_all add: dropWhile_eq_self_iff hd_rev)
  then show ?thesis by (simp add: trim_def dropWhileEnd_def)
qed

text \<open>Text of the ASCII range that starts and ends with no space comes through unchanged.\<close>

lemma clean_ascii:
  assumes "list_all (\<lambda>c. byte_of c < 128 \<and> kept_rune (byte_of c)) s" "s \<noteq> []"
    and "\<not> IsSpace (byte_of (hd s))" "\<not> IsSpace (byte_of (last s))"
  shows "runes s = map byte_of s" "TrimSpace s = s" "length s \<le> n \<Longrightarrow> sanitizeField s n = s"
proof -
  have asc: "list_all (\<lambda>c. byte_of c < 128) s" using assms(1) by (simp add: list_all_iff)
  show r: "runes s = map byte_of s" using asc by (intro runes_all_ascii) (simp add: list_all_iff)
  have s: "of_runes (map byte_of s) = s"
    using asc by (induction s) (simp_all add: of_runes_def encode_ascii_char)
  have t: "trim (map byte_of s) = map byte_of s"
    using assms(2-4) by (intro trim_id) (simp_all add: hd_map last_map)
  have d: "list_all decodable (map byte_of s)"
    using decodable_runes [of _ s] r by (auto simp: list_all_iff)
  show "TrimSpace s = s" using TrimSpace_of_runes [OF d] unfolding t s .
  have "filter kept_rune (map byte_of s) = map byte_of s"
    using assms(1) by (auto simp: list_all_iff filter_id_conv)
  then show "sanitizeField s n = s" if "length s \<le> n"
    using that sanitizeField_runes(2) [of s n] by (simp add: r t s)
qed

lemma two_line_fields:
  "TrimSpace two_line_title = two_line_title" "sanitizeField two_line_title MaxTextLength = two_line_title"
  "10 \<in> set (runes two_line_title)"
  "TrimSpace ''Melville'' = ''Melville''" "sanitizeField ''Melville'' MaxTextLength = ''Melville''"
  "runes ''Melville'' = map byte_of ''Melville''"
  "clean_text MaxTextLength (Some ''Harper'') = Some ''Harper''" "runes ''Harper'' = map byte_of ''Harper''"
proof -
  note k = kept_rune_def IsControl_def between_def IsSpace_def MaxTextLength_def
  have t: "list_all (\<lambda>c. byte_of c < 128 \<and> kept_rune (byte_of c)) two_line_title" "two_line_title \<noteq> []"
      "\<not> IsSpace (byte_of (hd two_line_title))" "\<not> IsSpace (byte_of (last two_line_title))"
      "length two_line_title \<le> MaxTextLength"
    by (simp_all add: two_line_title_def k)
  show "TrimSpace two_line_title = two_line_title" "sanitizeField two_line_title MaxTextLength = two_line_title"
    "10 \<in> set (runes two_line_title)"
    using clean_ascii [OF t(1-4)] t(5) by (simp_all add: two_line_title_def)
  have m: "list_all (\<lambda>c. byte_of c < 128 \<and> kept_rune (byte_of c)) ''Melville''"
      "\<not> IsSpace (byte_of (hd ''Melville''))" "\<not> IsSpace (byte_of (last ''Melville''))"
      "length ''Melville'' \<le> MaxTextLength"
    by (simp_all add: k)
  show "TrimSpace ''Melville'' = ''Melville''" "sanitizeField ''Melville'' MaxTextLength = ''Melville''"
      "runes ''Melville'' = map byte_of ''Melville''"
    using clean_ascii [OF m(1) _ m(2,3)] m(4) by blast+
  have h: "list_all (\<lambda>c. byte_of c < 128 \<and> kept_rune (byte_of c)) ''Harper''"
      "\<not> IsSpace (byte_of (hd ''Harper''))" "\<not> IsSpace (byte_of (last ''Harper''))"
      "length ''Harper'' \<le> MaxTextLength"
    by (simp_all add: k)
  have "TrimSpace ''Harper'' = ''Harper''" "sanitizeField ''Harper'' MaxTextLength = ''Harper''"
    using clean_ascii [OF h(1) _ h(2,3)] h(4) by blast+
  then show "clean_text MaxTextLength (Some ''Harper'') = Some ''Harper''" by (simp add: clean_text_def)
  show "runes ''Harper'' = map byte_of ''Harper''" using clean_ascii(1) [OF h(1) _ h(2,3)] by blast
qed

lemma two_line_extracted:
  "NewExtractedMetadata two_line_title [''Melville''] None (Some ''en'') (Some ''Harper'') None [] FormatEPUB
   = Inr two_line_metadata"
proof -
  have "visible ''en''" by (simp add: visible_def)
  moreover have "ValidateLanguageTag ''en'' = None"
    unfolding ValidateLanguageTag_iff by (simp add: tag_shape_def char_classes)
  ultimately have l: "clean_valid ValidateLanguageTag (Some ''en'') = Some ''en''"
    by (simp add: clean_valid_def TrimSpace_visible)
  have "two_line_title \<noteq> []" by (simp add: two_line_title_def)
  then show ?thesis
    unfolding NewExtractedMetadata_def two_line_metadata_def Let_def list.map two_line_fields l
    by (simp add: clean_text_def clean_valid_def)
qed

theorem extracted_metadata_accepted_witness:
  "NewExtractedMetadata two_line_title [''Melville''] None (Some ''en'') (Some ''Harper'') None [] FormatEPUB
     = Inr two_line_metadata
   \<and> \<not> is_ok (NewWork ''w'' two_line_title [] [] [] None [])
   \<and> is_ok (NewEdition ''e'' ''w'' (Language ''en'') None ''Harper'' None [])
   \<and> NewLanguage ''en'' = Inr (Language ''en'') \<and> is_ok (NewAuthor ''a'' ''Melville'' [])"
proof -
  note acc = extracted_metadata_accepted [OF two_line_extracted]
  have t: "set (runes two_line_title) \<inter> line_breaks \<noteq> {}"
    using two_line_fields(3) by (auto simp: line_breaks_def)
  have p: "set (runes ''Harper'') \<inter> line_breaks = {}"
    unfolding two_line_fields by (simp add: line_breaks_def)
  have n: "set (runes ''Melville'') \<inter> line_breaks = {} \<and> length (runes ''Melville'') \<le> maxAuthorNameLength"
    unfolding two_line_fields by (simp add: line_breaks_def maxAuthorNameLength_def)
  have f: "xm_Title two_line_metadata = two_line_title" "xm_ISBN two_line_metadata = None"
      "orEmpty (xm_Publisher two_line_metadata) = ''Harper''" "xm_Language two_line_metadata = Some ''en''"
      "xm_Authors two_line_metadata = [''Melville'']"
    by (simp_all only: two_line_metadata_def ExtractedMetadata.simps orEmpty_def option.case)
  have "\<not> is_ok (NewWork ''w'' two_line_title [] [] [] None [])"
    using acc(1) [of "''w''" "[]" "[]", unfolded f] t by blast
  moreover have "is_ok (NewEdition ''e'' ''w'' (Language ''en'') None ''Harper'' None [])"
    using acc(2) [of "''e''" "''w''" "Language ''en''", unfolded f] p by blast
  moreover have "is_ok (NewAuthor ''a'' ''Melville'' [])"
    using acc(4) [of "''Melville''" "''a''", unfolded f] n by (meson list.set_intros(1))
  ultimately show ?thesis
    using two_line_extracted acc(3) [OF f(4)] by blast
qed

end
