(* ===== verification/Import_Matching.thy ===== *)
theory Import_Matching
  imports Import_Extract
begin

text \<open>
  \<open>internal/importer/matching.go\<close>: scoring of Open Library results and the search for matches of a
  file, with the JSON forms of metadata and matches that the candidate row stores.
\<close>

section \<open>JSON forms\<close>

definition str_ptr_field :: "(string option \<Rightarrow> 'c \<Rightarrow> 'c) \<Rightarrow> json \<Rightarrow> 'c \<Rightarrow> 'c option" where
  "str_ptr_field upd v c =
     (case v of JNull \<Rightarrow> Some (upd None c) | JStr s \<Rightarrow> Some (upd (Some s) c) | _ \<Rightarrow> None)"

text \<open>\<open>base64.StdEncoding\<close>, with padding, which \<open>encoding/json\<close> uses for byte slices.\<close>

definition pad_EncodeToString :: "string \<Rightarrow> string" where
  "pad_EncodeToString s =
     (let e = std_EncodeToString s in e @ replicate ((4 - length e mod 4) mod 4) CHR ''='')"

definition pad_DecodeString :: "string \<Rightarrow> string option" where
  "pad_DecodeString s =
     (let t = filter (\<lambda>c. c \<noteq> CHR 0x0A \<and> c \<noteq> CHR 0x0D) s;
          body = takeWhile (\<lambda>c. c \<noteq> CHR ''='') t; pad = drop (length body) t in
      if length t mod 4 = 0 \<and> (pad = [] \<or> pad = ''='' \<or> pad = ''=='') then std_DecodeString body else None)"

definition bytes_field :: "(string \<Rightarrow> 'c \<Rightarrow> 'c) \<Rightarrow> json \<Rightarrow> 'c \<Rightarrow> 'c option" where
  "bytes_field upd v c =
     (case v of
        JNull \<Rightarrow> Some (upd [] c)
      | JStr s \<Rightarrow> map_option (\<lambda>b. upd b c) (pad_DecodeString s)
      | _ \<Rightarrow> None)"

definition omit_nil :: "string \<Rightarrow> string option \<Rightarrow> (string \<times> json) list" where
  "omit_nil name p = (case p of None \<Rightarrow> [] | Some s \<Rightarrow> [(name, JStr s)])"

definition nullable_str :: "string option \<Rightarrow> json" where
  "nullable_str p = (case p of None \<Rightarrow> JNull | Some s \<Rightarrow> JStr s)"

definition metadata_json :: "ExtractedMetadata \<Rightarrow> json" where
  "metadata_json m =
     JObj ([(''title'', JStr (xm_Title m)), (''authors'', JArr (map JStr (xm_Authors m)))]
       @ omit_nil ''isbn'' (xm_ISBN m) @ omit_nil ''language'' (xm_Language m)
       @ omit_nil ''publisher'' (xm_Publisher m) @ omit_nil ''description'' (xm_Description m)
       @ (if xm_CoverBytes m = [] then [] else [(''coverBytes'', JStr (pad_EncodeToString (xm_CoverBytes m)))])
       @ [(''format'', JStr (xm_Format m))])"

definition metadata_fields :: "ExtractedMetadata field list" where
  "metadata_fields =
     [(''title'', str_field (\<lambda>s. xm_Title_update (\<lambda>_. s))),
      (''authors'', strs_field xm_Authors (\<lambda>xs. xm_Authors_update (\<lambda>_. xs))),
      (''isbn'', str_ptr_field (\<lambda>s. xm_ISBN_update (\<lambda>_. s))),
      (''language'', str_ptr_field (\<lambda>s. xm_Language_update (\<lambda>_. s))),
      (''publisher'', str_ptr_field (\<lambda>s. xm_Publisher_update (\<lambda>_. s))),
      (''description'', str_ptr_field (\<lambda>s. xm_Description_update (\<lambda>_. s))),
      (''coverBytes'', bytes_field (\<lambda>s. xm_CoverBytes_update (\<lambda>_. s))),
      (''format'', str_field (\<lambda>s. xm_Format_update (\<lambda>_. s)))]"

definition zero_metadata :: ExtractedMetadata where
  "zero_metadata = \<lparr> xm_Title = [], xm_Authors = [], xm_ISBN = None, xm_Language = None, xm_Publisher = None,
     xm_Description = None, xm_CoverBytes = [], xm_Format = [] \<rparr>"

section \<open>Matches\<close>

definition MatchCandidateTypeExistingEdition :: string where
  "MatchCandidateTypeExistingEdition = ''existing_edition''"
definition MatchCandidateTypeOpenLibraryWork :: string where
  "MatchCandidateTypeOpenLibraryWork = ''open_library_work''"

definition MatchConfidenceExact :: string where "MatchConfidenceExact = ''exact''"
definition MatchConfidenceHigh :: string where "MatchConfidenceHigh = ''high''"
definition MatchConfidenceMedium :: string where "MatchConfidenceMedium = ''medium''"
definition MatchConfidenceLow :: string where "MatchConfidenceLow = ''low''"

record MatchCandidate =
  mc_Type :: string
  mc_Confidence :: string
  mc_Title :: string
  mc_Author :: "string option"
  mc_CoverURL :: "string option"
  mc_EditionID :: "EditionID option"
  mc_OpenLibraryWorkKey :: "string option"

definition match_json :: "MatchCandidate \<Rightarrow> json" where
  "match_json m =
     JObj ([(''type'', JStr (mc_Type m)), (''confidence'', JStr (mc_Confidence m)), (''title'', JStr (mc_Title m)),
            (''author'', nullable_str (mc_Author m)), (''coverUrl'', nullable_str (mc_CoverURL m))]
       @ omit_nil ''editionId'' (mc_EditionID m) @ omit_nil ''openLibraryWorkKey'' (mc_OpenLibraryWorkKey m))"

text \<open>A slice nothing was appended to is nil and marshals as \<open>null\<close>.\<close>

definition matches_json :: "MatchCandidate list \<Rightarrow> json" where
  "matches_json ms = (if ms = [] then JNull else JArr (map match_json ms))"

section \<open>The Open Library client's values\<close>

record NormalisedAuthor =
  na_OpenLibraryAuthorKey :: "string option"
  na_Name :: string

record NormalisedSearchResult =
  ns_OpenLibraryWorkKey :: string
  ns_Title :: string
  ns_Authors :: "NormalisedAuthor list"
  ns_FirstPublishYear :: "int option"
  ns_CoverURL :: "string option"
  ns_EditionCount :: int

record NormalisedWork =
  nk_Title :: string
  nk_Subtitle :: string
  nk_Description :: string
  nk_Subjects :: "string list"
  nk_Authors :: "NormalisedAuthor list"
  nk_CoverURL :: "string option"

record NormalisedEdition =
  ne_Title :: string
  ne_Publisher :: string
  ne_PublishDate :: string
  ne_Language :: string
  ne_OpenLibraryEditionKey :: string
  ne_CoverURL :: "string option"

record DiscoverWorkDetail =
  dw_Work :: NormalisedWork
  dw_Editions :: "NormalisedEdition list"

section \<open>Scoring\<close>

text \<open>\<open>\s\<close> of package \<open>regexp\<close>, and replacing each run of it by one space.\<close>

definition re_space :: "char \<Rightarrow> bool" where
  "re_space c \<longleftrightarrow> byte_of c \<in> {9, 10, 12, 13, 32 :: nat}"

fun collapse :: "string \<Rightarrow> string" where
  "collapse [] = []"
| "collapse (c # cs) =
     (if re_space c then (case collapse cs of CHR '' '' # r \<Rightarrow> CHR '' '' # r | r \<Rightarrow> CHR '' '' # r)
      else c # collapse cs)"

definition normalizeText :: "(rune \<Rightarrow> rune) \<Rightarrow> string \<Rightarrow> string" where
  "normalizeText cm s = TrimSpace (collapse (ToLower cm s))"

definition Contains :: "string \<Rightarrow> string \<Rightarrow> bool" where
  "Contains s sub \<longleftrightarrow> list_ex (prefix sub) (suffixes s)"

definition author_matches :: "(rune \<Rightarrow> rune) \<Rightarrow> string \<Rightarrow> string \<Rightarrow> bool" where
  "author_matches cm metaAuthor itemName =
     (let normMetaA = normalizeText cm metaAuthor; normItemA = normalizeText cm itemName in
      normMetaA \<noteq> [] \<and> (normMetaA = normItemA \<or> Contains normItemA normMetaA \<or> Contains normMetaA normItemA))"

definition title_base :: "string \<Rightarrow> string" where
  "title_base s = hd (split_on CHR ''('' s)"

definition ScoreOpenLibraryResult ::
  "(rune \<Rightarrow> rune) \<Rightarrow> ExtractedMetadata \<Rightarrow> NormalisedSearchResult \<Rightarrow> string" where
  "ScoreOpenLibraryResult cm meta item =
     (let metaTitle = normalizeText cm (xm_Title meta);
          itemTitle = normalizeText cm (ns_Title item);
          hasParenDiff = (Contains (xm_Title meta) ''('' \<noteq> Contains (ns_Title item) ''('');
          authorMatches = list_ex (\<lambda>a. list_ex (\<lambda>b. author_matches cm a (na_Name b)) (ns_Authors item)) (xm_Authors meta) in
      if metaTitle = itemTitle then
        (if authorMatches then (if hasParenDiff then MatchConfidenceMedium else MatchConfidenceHigh)
         else MatchConfidenceMedium)
      else let baseMeta = normalizeText cm (title_base (xm_Title meta));
               baseItem = normalizeText cm (title_base (ns_Title item)) in
        if baseMeta \<noteq> [] \<and> baseMeta = baseItem then MatchConfidenceMedium else MatchConfidenceLow)"

section \<open>Match\<close>

definition hit_match :: "ExistingEditionHit \<Rightarrow> MatchCandidate" where
  "hit_match hit =
     \<lparr> mc_Type = MatchCandidateTypeExistingEdition, mc_Confidence = MatchConfidenceExact, mc_Title = eh_Title hit,
       mc_Author = nullIfEmpty (eh_Author hit), mc_CoverURL = eh_CoverURL hit,
       mc_EditionID = Some (eh_EditionID hit), mc_OpenLibraryWorkKey = None \<rparr>"

definition result_match :: "(rune \<Rightarrow> rune) \<Rightarrow> ExtractedMetadata \<Rightarrow> NormalisedSearchResult \<Rightarrow> MatchCandidate" where
  "result_match cm meta item =
     \<lparr> mc_Type = MatchCandidateTypeOpenLibraryWork, mc_Confidence = ScoreOpenLibraryResult cm meta item,
       mc_Title = ns_Title item,
       mc_Author = (case ns_Authors item of [] \<Rightarrow> None | a # _ \<Rightarrow> Some (na_Name a)),
       mc_CoverURL = ns_CoverURL item, mc_EditionID = None,
       mc_OpenLibraryWorkKey = Some (ns_OpenLibraryWorkKey item) \<rparr>"

definition library_hits ::
  "(string \<Rightarrow> 'k :: linorder) \<Rightarrow> database \<Rightarrow> ExtractedMetadata \<Rightarrow> ExistingEditionHit list" where
  "library_hits ck db meta =
     (case xm_ISBN meta of
        None \<Rightarrow> []
      | Some isbn \<Rightarrow>
          (if isbn = [] then []
           else (case FindOwnedByISBN ck db isbn of Inl _ \<Rightarrow> [] | Inr hits \<Rightarrow> hits)))"

definition search_query :: "ExtractedMetadata \<Rightarrow> string" where
  "search_query meta =
     (case xm_Authors meta of [] \<Rightarrow> xm_Title meta | a # _ \<Rightarrow> xm_Title meta @ '' '' @ a)"

definition Match ::
  "(string \<Rightarrow> 'k :: linorder) \<Rightarrow> (rune \<Rightarrow> rune) \<Rightarrow> (string \<Rightarrow> NormalisedSearchResult list option) \<Rightarrow> database
   \<Rightarrow> ExtractedMetadata \<Rightarrow> MatchCandidate list \<times> bool" where
  "Match ck cm search db meta =
     (let hits = library_hits ck db meta;
          items = (if xm_Title meta = [] then []
                   else (case search (search_query meta) of None \<Rightarrow> [] | Some items \<Rightarrow> items)) in
      (map hit_match hits @ map (result_match cm meta) items, length hits = 1))"

text \<open>An automatic match names the one owned edition with the file's ISBN.\<close>

lemma hit_of_edition:
  "h \<in> set (hit_of db isbn e) \<Longrightarrow> eh_EditionID h = ed_id e \<and> eh_ISBN h = isbn"
  by (auto simp: hit_of_def split: option.splits)

lemma Match_single:
  assumes "Match ck cm search db meta = ([m], True)"
  obtains isbn e where "xm_ISBN meta = Some isbn" "isbn \<noteq> []" "e \<in> set (editions db)" "ed_isbn e = Some isbn"
    "mc_EditionID m = Some (ed_id e)" "list_ex (\<lambda>en. en_edition_id en = ed_id e) (library_entries db)"
proof -
  obtain h where h: "library_hits ck db meta = [h]" "m = hit_match h"
    using assms by (auto simp: Match_def Let_def length_Suc_conv append_eq_Cons_conv map_eq_Cons_conv split: if_splits)
  then obtain isbn hits where i: "xm_ISBN meta = Some isbn" "isbn \<noteq> []" "FindOwnedByISBN ck db isbn = Inr hits" "hits = [h]"
    by (auto simp: library_hits_def split: option.splits if_splits sum.splits)
  then have c: "concat (map (hit_of db isbn) (sort_key (ck \<circ> ed_id) (filter (owned_by_isbn db isbn) (editions db)))) = [h]"
    by (auto simp: FindOwnedByISBN_def split: if_splits)
  have "h \<in> set (concat (map (hit_of db isbn) (sort_key (ck \<circ> ed_id) (filter (owned_by_isbn db isbn) (editions db)))))"
    unfolding c by simp
  then obtain e where e: "e \<in> set (editions db)" "owned_by_isbn db isbn e" "h \<in> set (hit_of db isbn e)"
    by auto
  from hit_of_edition [OF e(3)] have "mc_EditionID m = Some (ed_id e)" by (simp add: h(2) hit_match_def)
  with e(1,2) i(1,2) show ?thesis by (intro that) (auto simp: owned_by_isbn_def)
qed

end
