(* ===== verification/Import_Service.thy ===== *)
theory Import_Service
  imports Import_Matching Job_Engine
begin

text \<open>
  The import pipeline, package \<open>internal/importer\<close>: confirmation and automatic import
  (\<open>service.go\<close>), the job handler (\<open>job.go\<close>) and discovery (\<open>discovery.go\<close>), with the adapters of
  \<open>transport/http/import_ref.go\<close>, over the PostgreSQL repositories.

  Identifiers come from a generator; \<open>ids k\<close> is what its call number \<open>k\<close> of the operation returns.
  What the source of a file delivers (its bytes, what format and metadata they hold) is an argument of
  the job handler, since archives and books are parsed by library code.  \<open>errtext\<close> is \<open>err.Error()\<close>.
\<close>

section \<open>Transactions of commands\<close>

definition as_result :: "go_error option \<times> 'd \<Rightarrow> unit result \<times> 'd" where
  "as_result c = (case c of (None, db) \<Rightarrow> (Inr (), db) | (Some err, db) \<Rightarrow> (Inl err, db))"

definition tx_command :: "database command \<Rightarrow> database command" where
  "tx_command f db =
     (case InTx (\<lambda>d. as_result (f d)) db of (Inl err, db') \<Rightarrow> (Some err, db') | (Inr _, db') \<Rightarrow> (None, db'))"

lemma tx_command_failed: "tx_command f db = (Some e, db') \<Longrightarrow> same_tables db' db"
  by (auto simp: tx_command_def split: prod.splits sum.splits dest: pgtx.failed)

lemma tx_command_committed: "tx_command f db = (None, db') \<Longrightarrow> f db = (None, db')"
  by (auto simp: tx_command_def as_result_def split: prod.splits sum.splits option.splits dest!: pgtx.committed)

section \<open>Service\<close>

text \<open>The common tail: an offering for the file and a library entry for the edition.\<close>

definition attach_file ::
  "SourceOfferingID \<Rightarrow> SourceID \<Rightarrow> EditionID \<Rightarrow> FileReference \<Rightarrow> instant \<Rightarrow> database command" where
  "attach_file offeringID sourceID editionID ref now db =
     (case offering_Save (NewSourceOffering offeringID sourceID editionID ref now) db of
        (Some err, d) \<Rightarrow> (Some err, d)
      | (None, d) \<Rightarrow>
         (case AddEntry PgEditionRepository PgLibraryEntryRepository d editionID now of
            (Inl err, d') \<Rightarrow> (Some err, d')
          | (Inr _, d') \<Rightarrow> (None, d')))"

definition attach_and_mark ::
  "SourceOfferingID \<Rightarrow> SourceID \<Rightarrow> EditionID \<Rightarrow> FileReference \<Rightarrow> string \<Rightarrow> string \<Rightarrow> instant \<Rightarrow> database command" where
  "attach_and_mark offeringID sourceID editionID ref candidateID status now db =
     (case attach_file offeringID sourceID editionID ref now db of
        (Some err, d) \<Rightarrow> (Some err, d)
      | (None, d) \<Rightarrow> UpdateStatus candidateID status now d)"

definition AutoImport ::
  "string \<Rightarrow> string \<Rightarrow> SourceID \<Rightarrow> EditionID \<Rightarrow> FileReference \<Rightarrow> Format \<Rightarrow> instant \<Rightarrow> database command" where
  "AutoImport newID candidateID sourceID editionID fileRef verifiedFormat now db =
     (case NewFileReference (fr_ReferenceID fileRef) verifiedFormat (fr_SizeBytes fileRef) of
        Inl err \<Rightarrow> (Some (Wrapf (Msg ''building verified file reference: %w'' []) err), db)
      | Inr vRef \<Rightarrow>
          tx_command (attach_and_mark newID sourceID editionID vRef candidateID
            ImportCandidateStatusAutoImported now) db)"

definition not_pending :: "string \<Rightarrow> go_error" where
  "not_pending candidateID =
     DomainError Conflict (Msg ''candidate %s is not in pending status'' [AStr candidateID]) None"

definition pending_candidate :: "database \<Rightarrow> string \<Rightarrow> ImportCandidateRecord result" where
  "pending_candidate db candidateID =
     (case candidate_Get db candidateID of
        Inl err \<Rightarrow> Inl err
      | Inr cand \<Rightarrow>
          (if ca_Status cand \<noteq> ImportCandidateStatusPending then Inl (not_pending candidateID) else Inr cand))"

definition ConfirmAttachExisting :: "string \<Rightarrow> string \<Rightarrow> EditionID \<Rightarrow> instant \<Rightarrow> database command" where
  "ConfirmAttachExisting newID candidateID editionID now db =
     (case pending_candidate db candidateID of
        Inl err \<Rightarrow> (Some err, db)
      | Inr cand \<Rightarrow>
          tx_command (attach_and_mark newID (ca_SourceID cand) editionID (ca_FileReference cand) candidateID
            ImportCandidateStatusConfirmed now) db)"

text \<open>
  The loop over the author names: a name the constructor refuses and an author that cannot be saved
  are skipped.  Saving an author without references fails only on a broken connection, so no statement
  after such a failure succeeds, as in an aborted transaction.
\<close>

fun save_authors :: "(nat \<Rightarrow> string) \<Rightarrow> nat \<Rightarrow> string list \<Rightarrow> database \<Rightarrow> AuthorID list \<times> database" where
  "save_authors ids k [] db = ([], db)"
| "save_authors ids k (aName # names) db =
     (case NewAuthor (ids k) aName [] of
        Inl _ \<Rightarrow> save_authors ids (Suc k) names db
      | Inr author \<Rightarrow>
         (case author_Save author db of
            (None, d) \<Rightarrow> (case save_authors ids (Suc k) names d of (rest, d') \<Rightarrow> (ids k # rest, d'))
          | (Some _, d) \<Rightarrow> save_authors ids (Suc k) names d))"

text \<open>The language of the new edition: each tag that validates overrides the one before.\<close>

definition choose_language :: "string list \<Rightarrow> Language" where
  "choose_language tags =
     foldl (\<lambda>l tag. if tag = [] then l else case NewLanguage tag of Inr l' \<Rightarrow> l' | Inl _ \<Rightarrow> l) (Language ''en'') tags"

text \<open>Saving the new work and edition, then the common tail; \<open>k\<close> counts the identifiers used so far.\<close>

definition create_and_attach ::
  "(nat \<Rightarrow> string) \<Rightarrow> nat \<Rightarrow> string \<Rightarrow> string \<Rightarrow> AuthorID list \<Rightarrow> ExternalReference list \<Rightarrow> Language \<Rightarrow> string option
   \<Rightarrow> string \<Rightarrow> ImportCandidateRecord \<Rightarrow> string \<Rightarrow> instant \<Rightarrow> database command" where
  "create_and_attach ids k title subtitle authorIDs refs lng isbn pub cand candidateID now db =
     (case NewWork (ids k) title subtitle authorIDs [] None refs of
        Inl err \<Rightarrow> (Some err, db)
      | Inr work \<Rightarrow>
         (case work_Save work db of
            (Some err, d) \<Rightarrow> (Some err, d)
          | (None, d) \<Rightarrow>
             (case NewEdition (ids (k + 1)) (ids k) lng isbn pub None [] of
                Inl err \<Rightarrow> (Some err, d)
              | Inr edition \<Rightarrow>
                 (case edition_Save edition d of
                    (Some err, d') \<Rightarrow> (Some err, d')
                  | (None, d') \<Rightarrow>
                      attach_and_mark (ids (k + 2)) (ca_SourceID cand) (ids (k + 1)) (ca_FileReference cand)
                        candidateID ImportCandidateStatusConfirmed now d'))))"

definition ConfirmCreateNew ::
  "(nat \<Rightarrow> string) \<Rightarrow> string \<Rightarrow> ExtractedMetadata \<Rightarrow> instant \<Rightarrow> database command" where
  "ConfirmCreateNew ids candidateID meta now db =
     (case pending_candidate db candidateID of
        Inl err \<Rightarrow> (Some err, db)
      | Inr cand \<Rightarrow>
          tx_command (\<lambda>d. case save_authors ids 0 (xm_Authors meta) d of (authorIDs, d') \<Rightarrow>
            create_and_attach ids (length (xm_Authors meta)) (xm_Title meta) [] authorIDs []
              (choose_language [orEmpty (xm_Language meta)]) (xm_ISBN meta) (orEmpty (xm_Publisher meta))
              cand candidateID now d') db)"

definition detail_names :: "ExtractedMetadata \<Rightarrow> DiscoverWorkDetail option \<Rightarrow> string list" where
  "detail_names meta olDetail =
     (case olDetail of
        None \<Rightarrow> xm_Authors meta
      | Some d \<Rightarrow> (if nk_Authors (dw_Work d) \<noteq> [] then map na_Name (nk_Authors (dw_Work d)) else xm_Authors meta))"

definition detail_title :: "ExtractedMetadata \<Rightarrow> DiscoverWorkDetail option \<Rightarrow> string \<times> string" where
  "detail_title meta olDetail =
     (case olDetail of
        None \<Rightarrow> (xm_Title meta, [])
      | Some d \<Rightarrow> (if nk_Title (dw_Work d) \<noteq> [] then (nk_Title (dw_Work d), nk_Subtitle (dw_Work d))
                  else (xm_Title meta, [])))"

definition first_edition :: "DiscoverWorkDetail option \<Rightarrow> NormalisedEdition option" where
  "first_edition olDetail =
     (case olDetail of None \<Rightarrow> None | Some d \<Rightarrow> (case dw_Editions d of [] \<Rightarrow> None | e # _ \<Rightarrow> Some e))"

definition detail_language :: "ExtractedMetadata \<Rightarrow> DiscoverWorkDetail option \<Rightarrow> Language" where
  "detail_language meta olDetail =
     choose_language [orEmpty (xm_Language meta),
       case first_edition olDetail of None \<Rightarrow> [] | Some e \<Rightarrow> ne_Language e]"

definition detail_publisher :: "ExtractedMetadata \<Rightarrow> DiscoverWorkDetail option \<Rightarrow> string" where
  "detail_publisher meta olDetail =
     (case first_edition olDetail of
        None \<Rightarrow> orEmpty (xm_Publisher meta)
      | Some e \<Rightarrow> (if ne_Publisher e \<noteq> [] then ne_Publisher e else orEmpty (xm_Publisher meta)))"

definition ConfirmOpenLibraryMatch ::
  "(nat \<Rightarrow> string) \<Rightarrow> string \<Rightarrow> string \<Rightarrow> ExtractedMetadata \<Rightarrow> DiscoverWorkDetail option \<Rightarrow> instant \<Rightarrow> database command" where
  "ConfirmOpenLibraryMatch ids candidateID openLibraryWorkKey meta olDetail now db =
     (case pending_candidate db candidateID of
        Inl err \<Rightarrow> (Some err, db)
      | Inr cand \<Rightarrow>
          tx_command (\<lambda>d.
            let names = detail_names meta olDetail;
                (workTitle, workSubtitle) = detail_title meta olDetail;
                workExtRefs = (if openLibraryWorkKey \<noteq> []
                  then [\<lparr> er_source = ''openlibrary'', er_id = openLibraryWorkKey \<rparr>] else []) in
            case save_authors ids 0 names d of (authorIDs, d') \<Rightarrow>
            create_and_attach ids (length names) workTitle workSubtitle authorIDs workExtRefs
              (detail_language meta olDetail) (xm_ISBN meta) (detail_publisher meta olDetail)
              cand candidateID now d') db)"

definition Reject :: "string \<Rightarrow> instant \<Rightarrow> database command" where
  "Reject candidateID now db =
     (case pending_candidate db candidateID of
        Inl err \<Rightarrow> (Some err, db)
      | Inr cand \<Rightarrow> UpdateStatus candidateID ImportCandidateStatusRejected now db)"

section \<open>The job handler\<close>

record ImportJobPayload =
  ip_CandidateID :: string
  ip_SourceID :: SourceID
  ip_FileReference :: FileReference

text \<open>\<open>domain.FileReference\<close> has no tags: its members are named as its fields.\<close>

definition payload_json :: "ImportJobPayload \<Rightarrow> json" where
  "payload_json p =
     JObj [(''candidateId'', JStr (ip_CandidateID p)), (''sourceId'', JStr (ip_SourceID p)),
       (''fileReference'', JObj [(''ReferenceID'', JStr (fr_ReferenceID (ip_FileReference p))),
          (''Format'', JStr (fr_Format (ip_FileReference p))),
          (''SizeBytes'', (case fr_SizeBytes (ip_FileReference p) of None \<Rightarrow> JNull | Some n \<Rightarrow> JInt n))])]"

definition reference_fields :: "FileReference field list" where
  "reference_fields =
     [(''ReferenceID'', str_field (\<lambda>s. fr_ReferenceID_update (\<lambda>_. s))),
      (''Format'', str_field (\<lambda>s. fr_Format_update (\<lambda>_. s))),
      (''SizeBytes'', int_ptr_field (\<lambda>i. fr_SizeBytes_update (\<lambda>_. i)))]"

definition payload_fields :: "ImportJobPayload field list" where
  "payload_fields =
     [(''candidateId'', str_field (\<lambda>s. ip_CandidateID_update (\<lambda>_. s))),
      (''sourceId'', str_field (\<lambda>s. ip_SourceID_update (\<lambda>_. s))),
      (''fileReference'', \<lambda>v p. map_option (\<lambda>r. p\<lparr>ip_FileReference := r\<rparr>)
         (decode_struct reference_fields (ip_FileReference p) v))]"

definition zero_payload :: ImportJobPayload where
  "zero_payload = \<lparr> ip_CandidateID = [], ip_SourceID = [],
     ip_FileReference = \<lparr> fr_ReferenceID = [], fr_Format = [], fr_SizeBytes = None \<rparr> \<rparr>"

text \<open>
  What the handler meets outside the database: opening the file, spooling it, detecting its format,
  extracting its metadata, and the Open Library client.
\<close>

record import_env =
  ie_Resolve :: "SourceID \<Rightarrow> FileReference \<Rightarrow> go_error option"
  ie_Materialize :: "SourceID \<Rightarrow> FileReference \<Rightarrow> go_error option"
  ie_DetectFormat :: "SourceID \<Rightarrow> FileReference \<Rightarrow> Format result"
  ie_Extract :: "SourceID \<Rightarrow> FileReference \<Rightarrow> Format \<Rightarrow> ExtractedMetadata result"
  ie_Search :: "string \<Rightarrow> NormalisedSearchResult list option"
  ie_errtext :: "go_error \<Rightarrow> string"

definition mark_failed :: "string \<Rightarrow> string \<Rightarrow> instant \<Rightarrow> database \<Rightarrow> database" where
  "mark_failed candidateID text now db = snd (UpdateFailed candidateID text now db)"

definition fatal_extraction :: "go_error \<Rightarrow> bool" where
  "fatal_extraction err \<longleftrightarrow>
     errors_Is err ErrNoTitle \<or> errors_Is err ErrMalformed \<or> errors_Is err ErrOversized \<or> errors_Is err ErrTooManyEntries"

definition store_pending ::
  "jsonb \<Rightarrow> import_env \<Rightarrow> instant \<Rightarrow> ImportJobPayload \<Rightarrow> ExtractedMetadata \<Rightarrow> MatchCandidate list \<Rightarrow> database
   \<Rightarrow> handler_error option \<times> database" where
  "store_pending jsonb E now p meta matches db =
     (case UpdateExtractedAndMatches jsonb (ip_CandidateID p) ImportCandidateStatusPending
             (print_json (metadata_json meta)) (print_json (matches_json matches)) now db of
        (None, d) \<Rightarrow> (None, d)
      | (Some err, d) \<Rightarrow> (Some (Wrapped ''updating candidate: '' (Plain (ie_errtext E err))), d))"

text \<open>After extraction: matching, then automatic import or a pending candidate.\<close>

definition finish_import ::
  "(string \<Rightarrow> 'k :: linorder) \<Rightarrow> (rune \<Rightarrow> rune) \<Rightarrow> jsonb \<Rightarrow> import_env \<Rightarrow> string \<Rightarrow> instant \<Rightarrow> ImportJobPayload
   \<Rightarrow> Format \<Rightarrow> ExtractedMetadata \<Rightarrow> database \<Rightarrow> handler_error option \<times> database" where
  "finish_import ck cm jsonb E newID now p format meta db =
     (case Match ck cm (ie_Search E) db meta of (matches, autoAccept) \<Rightarrow>
      (case (autoAccept, matches) of
         (True, [m]) \<Rightarrow>
           (case mc_EditionID m of
              Some editionID \<Rightarrow>
                (case AutoImport newID (ip_CandidateID p) (ip_SourceID p) editionID (ip_FileReference p) format now db of
                   (None, d) \<Rightarrow> (None, d)
                 | (Some err, d) \<Rightarrow>
                     (Some (Plain (ie_errtext E err)),
                      mark_failed (ip_CandidateID p) (''auto-importing candidate: '' @ ie_errtext E err) now d))
            | None \<Rightarrow> store_pending jsonb E now p meta matches db)
       | _ \<Rightarrow> store_pending jsonb E now p meta matches db))"

definition import_handler ::
  "(string \<Rightarrow> 'k :: linorder) \<Rightarrow> (rune \<Rightarrow> rune) \<Rightarrow> jsonb \<Rightarrow> import_env \<Rightarrow> string \<Rightarrow> instant \<Rightarrow> string \<Rightarrow> database
   \<Rightarrow> handler_error option \<times> database" where
  "import_handler ck cm jsonb E newID now rawPayload db =
     (case Unmarshal payload_fields zero_payload rawPayload of
        None \<Rightarrow> (Permanent (Some (Plain ''invalid import job payload'')), db)
      | Some p \<Rightarrow>
         (let i = ip_CandidateID p; src = ip_SourceID p; ref = ip_FileReference p;
              text = ie_errtext E in
          case ie_Resolve E src ref of
            Some err \<Rightarrow>
              (Permanent (Some (Wrapped ''resolving source file: '' (Plain (text err)))),
               mark_failed i (''resolving source file: '' @ text err) now db)
          | None \<Rightarrow>
         (case ie_Materialize E src ref of
            Some err \<Rightarrow>
              ((if errors_Is err ErrOversized then Permanent (Some (Plain (text err))) else Some (Plain (text err))),
               mark_failed i (''spooling source file: '' @ text err) now db)
          | None \<Rightarrow>
         (case ie_DetectFormat E src ref of
            Inl err \<Rightarrow>
              (Permanent (Some (Plain (text err))), mark_failed i (''detecting format: '' @ text err) now db)
          | Inr format \<Rightarrow>
              if format = FormatUnknown then
                (Permanent (Some (Plain ''unknown or unsupported file format'')),
                 mark_failed i ''unknown or unsupported file format'' now db)
              else
         (case ie_Extract E src ref format of
            Inl err \<Rightarrow>
              ((if fatal_extraction err then Permanent (Some (Plain (text err))) else Some (Plain (text err))),
               mark_failed i (''extracting metadata: '' @ text err) now db)
          | Inr meta \<Rightarrow> finish_import ck cm jsonb E newID now p format meta db)))))"

section \<open>Discovery\<close>

record SourceCandidate =
  sn_Title :: string
  sn_Author :: "string option"
  sn_FileReference :: FileReference
  sn_CoverURL :: "string option"

record CandidatePage =
  cp_Items :: "SourceCandidate list"
  cp_NextCursor :: "string option"

record DiscoverResult =
  dr_DiscoveredCount :: nat
  dr_SkippedCount :: nat
  dr_JobIDs :: "string list"

text \<open>
  What discovery runs with: the answers of the listing, the cancellation of the context at the start of
  each page, the registered job kinds, the generators of candidate and job identifiers, the queue's
  clock and the time of the request.
\<close>

record 'h discovery =
  dc_List :: "string \<Rightarrow> CandidatePage result"
  dc_CtxErr :: "nat \<Rightarrow> go_error option"
  dc_registry :: "'h Registry"
  dc_candidateIDs :: "nat \<Rightarrow> string"
  dc_jobIDs :: "nat \<Rightarrow> string"
  dc_clock :: instant
  dc_now :: instant

definition EnqueueImportJob ::
  "jsonb \<Rightarrow> 'h Registry \<Rightarrow> string \<Rightarrow> instant \<Rightarrow> ImportJobPayload \<Rightarrow> database \<Rightarrow> string result \<times> database" where
  "EnqueueImportJob jsonb registry newID now payload db =
     queue_Enqueue jsonb registry newID now ''import'' (Inr (print_json (payload_json payload))) db"

definition queued_candidate :: "string \<Rightarrow> SourceID \<Rightarrow> FileReference \<Rightarrow> string \<Rightarrow> instant \<Rightarrow> ImportCandidateRecord" where
  "queued_candidate candID sourceID ref jobID now =
     \<lparr> ca_ID = candID, ca_SourceID = sourceID, ca_FileReference = ref, ca_Status = ImportCandidateStatusQueued,
       ca_ExtractedMetadata = [], ca_MatchCandidates = [], ca_JobID = Some jobID, ca_LastError = None,
       ca_CreatedAt = now, ca_UpdatedAt = now \<rparr>"

text \<open>The loop over the items of one page.\<close>

fun discover_items ::
  "jsonb \<Rightarrow> 'h discovery \<Rightarrow> SourceID \<Rightarrow> SourceCandidate list \<Rightarrow> DiscoverResult \<Rightarrow> database
   \<Rightarrow> DiscoverResult result \<times> database" where
  "discover_items jsonb D sourceID [] acc db = (Inr acc, db)"
| "discover_items jsonb D sourceID (item # items) acc db =
     (case ExistsBySourceAndFileRefID db sourceID (fr_ReferenceID (sn_FileReference item)) of
        Inl err \<Rightarrow> (Inl (Wrapf (Msg ''checking candidate existence: %w'' []) err), db)
      | Inr True \<Rightarrow> discover_items jsonb D sourceID items (acc\<lparr>dr_SkippedCount := dr_SkippedCount acc + 1\<rparr>) db
      | Inr False \<Rightarrow>
         (let k = dr_DiscoveredCount acc; candID = dc_candidateIDs D k;
              payload = \<lparr> ip_CandidateID = candID, ip_SourceID = sourceID, ip_FileReference = sn_FileReference item \<rparr> in
          case EnqueueImportJob jsonb (dc_registry D) (dc_jobIDs D k) (dc_clock D) payload db of
            (Inl err, d) \<Rightarrow> (Inl (Wrapf (Msg ''enqueuing import job: %w'' []) err), d)
          | (Inr jobID, d) \<Rightarrow>
             (case candidate_Create jsonb (dc_clock D)
                    (queued_candidate candID sourceID (sn_FileReference item) jobID (dc_now D)) d of
                (Some err, d') \<Rightarrow> (Inl (Wrapf (Msg ''persisting candidate record: %w'' []) err), d')
              | (None, d') \<Rightarrow>
                  discover_items jsonb D sourceID items
                    (acc\<lparr>dr_DiscoveredCount := k + 1, dr_JobIDs := dr_JobIDs acc @ [jobID]\<rparr>) d')))"

text \<open>The loop over the pages, \<open>page\<close> counting them; \<open>None\<close> when the listing never ends.\<close>

partial_function (option) discover_pages ::
  "jsonb \<Rightarrow> 'h discovery \<Rightarrow> SourceID \<Rightarrow> nat \<Rightarrow> string \<Rightarrow> DiscoverResult \<Rightarrow> database
   \<Rightarrow> (DiscoverResult result \<times> database) option" where
  "discover_pages jsonb D sourceID page cursor acc db =
     (case dc_CtxErr D page of
        Some err \<Rightarrow> Some (Inl err, db)
      | None \<Rightarrow>
         (case dc_List D cursor of
            Inl err \<Rightarrow> Some (Inl (Wrapf (Msg ''listing items from source: %w'' []) err), db)
          | Inr p \<Rightarrow>
             (case discover_items jsonb D sourceID (cp_Items p) acc db of
                (Inl err, d) \<Rightarrow> Some (Inl err, d)
              | (Inr acc', d) \<Rightarrow>
                 (case cp_NextCursor p of
                    None \<Rightarrow> Some (Inr acc', d)
                  | Some c \<Rightarrow> (if c = [] then Some (Inr acc', d)
                              else discover_pages jsonb D sourceID (Suc page) c acc' d)))))"

definition Discover ::
  "jsonb \<Rightarrow> 'h discovery \<Rightarrow> SourceID \<Rightarrow> database \<Rightarrow> (DiscoverResult result \<times> database) option" where
  "Discover jsonb D sourceID db =
     (case source_FindByID db sourceID of
        Inl err \<Rightarrow> Some (Inl err, db)
      | Inr src \<Rightarrow>
          (if \<not> CanList (s_capabilities src) then
             Some (Inl (derr InvalidInput ''source does not support listing''), db)
           else discover_pages jsonb D sourceID 0 []
                  \<lparr> dr_DiscoveredCount = 0, dr_SkippedCount = 0, dr_JobIDs = [] \<rparr> db))"

end
