(* ===== verification/Import_Safety.thy ===== *)
theory Import_Safety
  imports Import_Service
begin

text \<open>
  What the import pipeline promises: a confirmation happens as a whole or not at all, a candidate is
  decided at most once, and a run of the import job writes its own candidate only.
\<close>

section \<open>What the statements leave alone\<close>

abbreviation staging :: "database \<Rightarrow> candidate_row list \<times> source_row list" where
  "staging db \<equiv> (import_candidates db, sources db)"

lemma unlinked_staging [simp]:
  "unlinked (\<lambda>db. (import_candidates db, sources db))" "unlinked import_candidates" "unlinked source_offerings"
  "unlinked library_entries"
  by (simp_all add: unlinked_def)

lemma keeps_staging [simp]:
  "keeps (\<lambda>db. (import_candidates db, sources db)) (upsert_work r)"
  "keeps (\<lambda>db. (import_candidates db, sources db)) (delete_work_authors i)"
  "keeps (\<lambda>db. (import_candidates db, sources db)) (insert_work_author i a)"
  "keeps (\<lambda>db. (import_candidates db, sources db)) (delete_work_subjects i)"
  "keeps (\<lambda>db. (import_candidates db, sources db)) (insert_work_subject i x)"
  "keeps (\<lambda>db. (import_candidates db, sources db)) (delete_work_references i)"
  "keeps (\<lambda>db. (import_candidates db, sources db)) (insert_work_reference i ref)"
  "keeps (\<lambda>db. (import_candidates db, sources db)) (delete_work_contains i)"
  "keeps (\<lambda>db. (import_candidates db, sources db)) (insert_work_contains i c)"
  "keeps (\<lambda>db. (import_candidates db, sources db)) (upsert_author ar)"
  "keeps (\<lambda>db. (import_candidates db, sources db)) (delete_author_references i)"
  "keeps (\<lambda>db. (import_candidates db, sources db)) (insert_author_reference i ref)"
  "keeps (\<lambda>db. (import_candidates db, sources db)) (upsert_edition er)"
  "keeps (\<lambda>db. (import_candidates db, sources db)) (delete_edition_references i)"
  "keeps (\<lambda>db. (import_candidates db, sources db)) (insert_edition_reference i ref)"
  "keeps (\<lambda>db. (import_candidates db, sources db)) (upsert_offering o')"
  by (auto simp: keeps_def upsert_work_def Let_def delete_work_authors_def insert_work_author_def
      delete_work_subjects_def insert_work_subject_def delete_work_references_def insert_work_reference_def
      delete_work_contains_def insert_work_contains_def upsert_author_def delete_author_references_def
      insert_author_reference_def upsert_edition_def delete_edition_references_def
      insert_edition_reference_def upsert_offering_def split: if_splits option.splits)

lemma work_Save_staging: "work_Save w db = (r, d) \<Longrightarrow> staging d = staging db"
  unfolding work_Save_def
  by (drule exec_all_keeps_ok [where f = "\<lambda>db. (import_candidates db, sources db)"]) (auto simp: work_Save_statements_def)

lemma edition_Save_staging: "edition_Save e db = (r, d) \<Longrightarrow> staging d = staging db"
  unfolding edition_Save_def
  by (drule exec_all_keeps_ok [where f = "\<lambda>db. (import_candidates db, sources db)"]) auto

lemma author_Save_staging: "author_Save a db = (r, d) \<Longrightarrow> staging d = staging db"
  unfolding author_Save_def
  by (drule exec_all_keeps_ok [where f = "\<lambda>db. (import_candidates db, sources db)"]) auto

lemma save_authors_staging: "save_authors ids k names db = (xs, d) \<Longrightarrow> staging d = staging db"
  by (induction ids k names db arbitrary: xs rule: save_authors.induct)
     (auto split: sum.splits prod.splits option.splits dest!: author_Save_staging)

text \<open>A failed \<open>Save\<close> of a new author means that the connection is gone.\<close>

lemma author_Save_new:
  assumes "NewAuthor i n [] = Inr a" "author_Save a db = (Some e, d)"
  shows "\<not> connected d"
proof -
  have a: "a_id a = i" "a_mergedInto a = None" "a_externalReferences a = []"
    using assms(1) by (auto simp: NewAuthor_def split: option.splits)
  show ?thesis
    using assms(2)
    by (auto simp: author_Save_def a author_row_of_def Exec_def upsert_author_def delete_author_references_def
        Let_def tick_def connected_def split: if_splits option.splits)
qed

lemma offering_Save_staging: "offering_Save o' db = (r, d) \<Longrightarrow> staging d = staging db"
  unfolding offering_Save_def exec_one_def
  by (drule exec_all_keeps_ok [where f = "\<lambda>db. (import_candidates db, sources db)"]) auto

abbreviation catalog :: "database \<Rightarrow> work_row list \<times> edition_row list" where
  "catalog db \<equiv> (works db, editions db)"

lemma offering_Save_catalog: "offering_Save o' db = (r, d) \<Longrightarrow> catalog d = catalog db"
  unfolding offering_Save_def exec_one_def
  by (drule exec_all_keeps_ok [where f = "\<lambda>db. (works db, editions db)"])
     (auto simp: keeps_def unlinked_def upsert_offering_def split: if_splits)

lemma work_Save_editions: "work_Save w db = (r, d) \<Longrightarrow> editions d = editions db"
  unfolding work_Save_def
  by (drule exec_all_keeps_ok [where f = editions])
     (auto simp: work_Save_statements_def unlinked_def keeps_def upsert_work_def Let_def delete_work_authors_def
       insert_work_author_def delete_work_subjects_def insert_work_subject_def delete_work_references_def
       insert_work_reference_def delete_work_contains_def insert_work_contains_def split: if_splits option.splits)

lemma author_Save_catalog: "author_Save a db = (r, d) \<Longrightarrow> catalog d = catalog db"
  unfolding author_Save_def
  by (drule exec_all_keeps_ok [where f = "\<lambda>db. (works db, editions db)"])
     (auto simp: unlinked_def keeps_def upsert_author_def delete_author_references_def
       insert_author_reference_def Let_def split: if_splits option.splits)

lemma save_authors_catalog: "save_authors ids k names db = (xs, d) \<Longrightarrow> catalog d = catalog db"
  by (induction ids k names db arbitrary: xs rule: save_authors.induct)
     (auto split: sum.splits prod.splits option.splits dest!: author_Save_catalog)

text \<open>Adding a library entry writes that table only.\<close>

lemma entry_Save_only:
  assumes "entry_Save e db = (r, d)"
  shows "staging d = staging db" "source_offerings d = source_offerings db"
    "catalog d = catalog db"
    "r = None \<Longrightarrow> list_ex (\<lambda>en. en_edition_id en = le_editionID e) (library_entries d)"
  using assms
  by (auto simp: entry_Save_def Exec_def insert_entry_def insert_entry_on_edition_def tick_def
      affected_or_conflict_def entry_row_of_def split: if_splits sum.splits prod.splits)

lemma AddEntry_only:
  assumes "AddEntry PgEditionRepository PgLibraryEntryRepository db ed now = (r, d)"
  shows "staging d = staging db" "source_offerings d = source_offerings db"
    "catalog d = catalog db" "r = Inr x \<Longrightarrow> list_ex (\<lambda>en. en_edition_id en = ed) (library_entries d)"
proof -
  have sv: "lr_Save PgLibraryEntryRepository = entry_Save" "lr_FindByEdition PgLibraryEntryRepository = entry_FindByEdition"
    by (simp_all add: PgLibraryEntryRepository_def)
  consider (unwritten) "d = db" "\<And>x. r = Inr x \<Longrightarrow> \<exists>y. entry_FindByEdition db ed = Inr y"
    | (written) e where "entry_Save (NewLibraryEntry ed ed now) db = (e, d)" "\<And>x. r = Inr x \<Longrightarrow> e = None"
    using assms unfolding AddEntry_def sv Let_def
    by (auto split: sum.splits if_splits prod.splits option.splits)
  then have "staging d = staging db \<and> source_offerings d = source_offerings db
    \<and> catalog d = catalog db \<and> (r = Inr x \<longrightarrow> list_ex (\<lambda>en. en_edition_id en = ed) (library_entries d))"
  proof cases
    case unwritten
    have "list_ex (\<lambda>en. en_edition_id en = ed) (library_entries d)" if "r = Inr x"
      using unwritten(2) [OF that] unwritten(1)
      by (auto simp: entry_FindByEdition_def row_by_def list_ex_iff find_Some_iff split: if_splits option.splits)
    with unwritten(1) show ?thesis by simp
  next
    case written
    have "list_ex (\<lambda>en. en_edition_id en = ed) (library_entries d)" if "r = Inr x"
      using entry_Save_only(4) [OF written(1) written(2) [OF that]] by (simp add: NewLibraryEntry_def)
    with entry_Save_only(1-3) [OF written(1)] show ?thesis by simp
  qed
  then show "staging d = staging db" "source_offerings d = source_offerings db"
    "catalog d = catalog db" "r = Inr x \<Longrightarrow> list_ex (\<lambda>en. en_edition_id en = ed) (library_entries d)" by blast+
qed

section \<open>Attaching a file\<close>

text \<open>The edition is offered by the source as this file, and some library has it.\<close>

definition attached :: "database \<Rightarrow> SourceID \<Rightarrow> EditionID \<Rightarrow> FileReference \<Rightarrow> bool" where
  "attached db sourceID editionID ref \<longleftrightarrow>
     list_ex (\<lambda>r. of_source_id r = sourceID \<and> of_edition_id r = editionID \<and> of_format r = fr_Format ref
       \<and> of_reference_id r = fr_ReferenceID ref) (source_offerings db)
     \<and> list_ex (\<lambda>en. en_edition_id en = editionID) (library_entries db)"

lemma offering_Save_ok:
  assumes "offering_Save (NewSourceOffering o' s e ref now) db = (None, d)"
  shows "list_ex (\<lambda>r. of_source_id r = s \<and> of_edition_id r = e \<and> of_format r = fr_Format ref
       \<and> of_reference_id r = fr_ReferenceID ref) (source_offerings d)"
proof -
  let ?row = "offering_row_of (NewSourceOffering o' s e ref now)"
  obtain d0 n where u: "upsert_offering ?row db = Inr (d0, n)" "d = tick d0"
    using assms unfolding offering_Save_def by (elim exec_one_ok)
  have row: "of_source_id ?row = s" "of_edition_id ?row = e" "of_format ?row = fr_Format ref"
      "of_reference_id ?row = fr_ReferenceID ref" "offering_key ?row = (s, e, fr_Format ref)"
    by (simp_all add: offering_row_of_def NewSourceOffering_def offering_key_def)
  show ?thesis
  proof (cases "offering_key ?row \<in> offering_key ` set (source_offerings db)")
    case True
    then obtain x where x: "x \<in> set (source_offerings db)" "offering_key x = offering_key ?row" by force
    have t: "source_offerings d = map (\<lambda>x. if offering_key x = offering_key ?row
        then x\<lparr>of_reference_id := of_reference_id ?row, of_size_bytes := of_size_bytes ?row,
               of_observed_at := of_observed_at ?row\<rparr> else x) (source_offerings db)"
      using u True by (auto simp: upsert_offering_def tick_def)
    have "of_source_id x = s \<and> of_edition_id x = e \<and> of_format x = fr_Format ref"
      using x(2) unfolding row(5) by (simp add: offering_key_def)
    then show ?thesis unfolding t list_ex_iff set_map using x row(4) by (intro bexI [OF _ imageI [OF x(1)]]) simp
  next
    case False
    then show ?thesis
      using u row by (auto simp: upsert_offering_def tick_def split: if_splits)
  qed
qed

lemma attach_file_ok:
  assumes "attach_file o' s e ref now db = (r, d)"
  shows "staging d = staging db" "r = None \<Longrightarrow> attached d s e ref"
proof -
  obtain r1 d1 where o: "offering_Save (NewSourceOffering o' s e ref now) db = (r1, d1)" by fastforce
  obtain r2 d2 where a: "AddEntry PgEditionRepository PgLibraryEntryRepository d1 e now = (r2, d2)" by fastforce
  note f = offering_Save_staging [OF o] AddEntry_only [OF a]
  show "staging d = staging db"
    using assms o a f by (auto simp: attach_file_def split: option.splits sum.splits)
  show "attached d s e ref" if "r = None"
  proof -
    have "r1 = None" "d = d2" "\<exists>x. r2 = Inr x"
      using assms o a that by (auto simp: attach_file_def split: option.splits sum.splits)
    then show ?thesis
      using offering_Save_ok [OF o [unfolded \<open>r1 = None\<close>]] f by (auto simp: attached_def)
  qed
qed


section \<open>Deciding a candidate\<close>

text \<open>The four decisions a user takes on a pending candidate, and the status each leaves.\<close>

datatype decision =
    AttachExisting EditionID
  | CreateNew ExtractedMetadata
  | UseOpenLibrary string ExtractedMetadata "DiscoverWorkDetail option"
  | RejectIt

fun decide :: "(nat \<Rightarrow> string) \<Rightarrow> string \<Rightarrow> decision \<Rightarrow> instant \<Rightarrow> database command" where
  "decide ids i (AttachExisting ed) now db = ConfirmAttachExisting (ids 0) i ed now db"
| "decide ids i (CreateNew meta) now db = ConfirmCreateNew ids i meta now db"
| "decide ids i (UseOpenLibrary key meta detail) now db = ConfirmOpenLibraryMatch ids i key meta detail now db"
| "decide ids i RejectIt now db = Reject i now db"

fun outcome :: "decision \<Rightarrow> string" where
  "outcome RejectIt = ImportCandidateStatusRejected"
| "outcome _ = ImportCandidateStatusConfirmed"

definition set_status :: "string \<Rightarrow> string \<Rightarrow> instant \<Rightarrow> candidate_row list \<Rightarrow> candidate_row list" where
  "set_status i status now =
     update_where (\<lambda>r. ic_id r = i) (\<lambda>r. r\<lparr>ic_status := status, ic_updated_at := timestamptz now\<rparr>)"

lemma UpdateStatus_ok:
  assumes "UpdateStatus i st now db = (r, d)"
  shows "sources d = sources db" "source_offerings d = source_offerings db" "library_entries d = library_entries db"
    "works d = works db" "editions d = editions db"
    "r = None \<Longrightarrow> import_candidates d = set_status i st now (import_candidates db)"
  using assms
  by (auto simp: UpdateStatus_def exec_found_def Exec_def update_candidate_def set_status_def tick_def
      split: if_splits)

lemma UpdateStatus_failed: "UpdateStatus i st now db = (Some e, d) \<Longrightarrow> same_tables d db"
  by (auto simp: UpdateStatus_def exec_found_def Exec_def update_candidate_def same_tables_def tick_def
      list_ex_iff filter_empty_conv update_where_def map_idI split: if_splits)

lemma attach_file_catalog:
  assumes "attach_file o' s e ref now db = (r, d)"
  shows "catalog d = catalog db"
proof -
  obtain r1 d1 where o: "offering_Save (NewSourceOffering o' s e ref now) db = (r1, d1)" by fastforce
  obtain r2 d2 where a: "AddEntry PgEditionRepository PgLibraryEntryRepository d1 e now = (r2, d2)" by fastforce
  show ?thesis
    using assms o a offering_Save_catalog [OF o] AddEntry_only(3) [OF a]
    by (auto simp: attach_file_def split: option.splits sum.splits)
qed

lemma attach_and_mark_ok:
  assumes "attach_and_mark o' s e ref i st now db = (None, d)"
  shows "import_candidates d = set_status i st now (import_candidates db)" "attached d s e ref"
    "works d = works db" "editions d = editions db"
proof -
  obtain d1 where a: "attach_file o' s e ref now db = (None, d1)" and u: "UpdateStatus i st now d1 = (None, d)"
    using assms by (auto simp: attach_and_mark_def split: prod.splits option.splits)
  show "import_candidates d = set_status i st now (import_candidates db)"
    using attach_file_ok(1) [OF a] UpdateStatus_ok(6) [OF u] by simp
  show "attached d s e ref"
    using attach_file_ok(2) [OF a] UpdateStatus_ok(2,3) [OF u] by (simp add: attached_def)
  show "works d = works db" "editions d = editions db"
    using attach_file_catalog [OF a] UpdateStatus_ok(4,5) [OF u] by simp_all
qed

lemma upsert_by_new: "key r \<notin> key ` set t \<Longrightarrow> upsert_by key r t = t @ [r]"
  by (induction t) auto

lemma edition_Save_ok:
  assumes "edition_Save e db = (None, d)"
  shows "works d = works db" "editions d = upsert_by ed_id (edition_row_of e) (editions db)"
proof -
  obtain d1 n where u: "upsert_edition (edition_row_of e) db = Inr (d1, n)"
    and r: "exec_all (delete_edition_references (e_id e) # map (insert_edition_reference (e_id e)) (e_externalReferences e))
      (tick d1) = (None, d)"
    using assms unfolding edition_Save_def append.simps by (rule exec_all_okE)
  have "(works d, editions d) = (works (tick d1), editions (tick d1))"
    by (rule exec_all_keeps_ok [OF r])
       (auto simp: unlinked_def keeps_def delete_edition_references_def insert_edition_reference_def split: if_splits)
  then show "works d = works db" "editions d = upsert_by ed_id (edition_row_of e) (editions db)"
    using u by (auto simp: upsert_edition_def tick_def split: if_splits)
qed

text \<open>
  The generator's identifiers are new to the catalogue; and one work with this title and one edition of
  it were added to the catalogue, and the file is attached to that edition.
\<close>

definition new_ids :: "(nat \<Rightarrow> string) \<Rightarrow> database \<Rightarrow> bool" where
  "new_ids ids db \<longleftrightarrow> (\<forall>k. ids k \<notin> work_ids db \<and> ids k \<notin> edition_ids db)"

definition created :: "string \<Rightarrow> SourceID \<Rightarrow> FileReference \<Rightarrow> database \<Rightarrow> database \<Rightarrow> bool" where
  "created title s ref db d \<longleftrightarrow>
     (\<exists>w e. works d = works db @ [w] \<and> wk_id w \<notin> work_ids db \<and> wk_title w = title
        \<and> editions d = editions db @ [e] \<and> ed_id e \<notin> edition_ids db \<and> ed_work_id e = wk_id w
        \<and> attached d s (ed_id e) ref)"

lemma create_and_attach_ok:
  assumes "create_and_attach ids k t st as refs lng isbn pub cand i now db = (None, d)"
  shows "import_candidates d = set_status i ImportCandidateStatusConfirmed now (import_candidates db)"
    "new_ids ids db \<Longrightarrow> created t (ca_SourceID cand) (ca_FileReference cand) db d"
proof -
  obtain w d1 e d2 where w: "NewWork (ids k) t st as [] None refs = Inr w" "work_Save w db = (None, d1)"
    and e: "NewEdition (ids (k + 1)) (ids k) lng isbn pub None [] = Inr e" "edition_Save e d1 = (None, d2)"
    and m: "attach_and_mark (ids (k + 2)) (ca_SourceID cand) (ids (k + 1)) (ca_FileReference cand) i
        ImportCandidateStatusConfirmed now d2 = (None, d)"
    using assms by (auto simp: create_and_attach_def split: prod.splits option.splits sum.splits)
  note m' = attach_and_mark_ok [OF m]
  show "import_candidates d = set_status i ImportCandidateStatusConfirmed now (import_candidates db)"
    using m'(1) edition_Save_staging [OF e(2)] work_Save_staging [OF w(2)] by simp
  show "created t (ca_SourceID cand) (ca_FileReference cand) db d" if new: "new_ids ids db"
  proof -
    have wr: "wk_id (work_row_of w) = ids k" "wk_title (work_row_of w) = t"
      using w(1) by (auto simp: NewWork_def work_row_of_def split: option.splits)
    have er: "ed_id (edition_row_of e) = ids (k + 1)" "ed_work_id (edition_row_of e) = ids k"
      using e(1) by (auto simp: NewEdition_ok_iff edition_row_of_def)
    have fresh: "ids k \<notin> work_ids db" "ids (k + 1) \<notin> edition_ids db" using new by (simp_all add: new_ids_def)
    have "works d = works db @ [work_row_of w]"
      using work_Save_ok(1) [OF w(2)] edition_Save_ok(1) [OF e(2)] m'(3) fresh(1) wr(1)
      by (simp add: upsert_by_new work_ids_def)
    moreover have "editions d = editions db @ [edition_row_of e]"
      using work_Save_editions [OF w(2)] edition_Save_ok(2) [OF e(2)] m'(4) fresh(2) er(1)
      by (simp add: upsert_by_new edition_ids_def)
    ultimately show ?thesis unfolding created_def using m'(2) wr er fresh by metis
  qed
qed

text \<open>What a decision that succeeded found and left.\<close>

definition decided_as :: "string \<Rightarrow> decision \<Rightarrow> instant \<Rightarrow> database \<Rightarrow> database \<Rightarrow> bool" where
  "decided_as i dec now db d \<longleftrightarrow>
     (\<exists>cand. candidate_Get db i = Inr cand \<and> ca_Status cand = ImportCandidateStatusPending
       \<and> import_candidates d = set_status i (outcome dec) now (import_candidates db)
       \<and> (let s = ca_SourceID cand; ref = ca_FileReference cand in
          case dec of
            AttachExisting e \<Rightarrow> attached d s e ref \<and> works d = works db \<and> editions d = editions db
          | CreateNew meta \<Rightarrow> created (xm_Title meta) s ref db d
          | UseOpenLibrary key meta detail \<Rightarrow> created (fst (detail_title meta detail)) s ref db d
          | RejectIt \<Rightarrow> same_tables (d\<lparr>import_candidates := import_candidates db\<rparr>) db))"

lemma pending_candidate_ok:
  "pending_candidate db i = Inr cand \<longleftrightarrow>
     candidate_Get db i = Inr cand \<and> ca_Status cand = ImportCandidateStatusPending"
  by (auto simp: pending_candidate_def split: sum.splits if_splits)

lemma save_then_create_ok:
  assumes "(case save_authors ids 0 names db of (as, d') \<Rightarrow>
      create_and_attach ids k t st as refs lng isbn pub cand i now d') = (None, d)"
  shows "import_candidates d = set_status i ImportCandidateStatusConfirmed now (import_candidates db)"
    "new_ids ids db \<Longrightarrow> created t (ca_SourceID cand) (ca_FileReference cand) db d"
proof -
  obtain as d' where a: "save_authors ids 0 names db = (as, d')" by fastforce
  with assms have c: "create_and_attach ids k t st as refs lng isbn pub cand i now d' = (None, d)" by simp
  show "import_candidates d = set_status i ImportCandidateStatusConfirmed now (import_candidates db)"
    using create_and_attach_ok(1) [OF c] save_authors_staging [OF a] by simp
  show "created t (ca_SourceID cand) (ca_FileReference cand) db d" if "new_ids ids db"
    using create_and_attach_ok(2) [OF c] save_authors_catalog [OF a] that
    by (simp add: new_ids_def created_def work_ids_def edition_ids_def)
qed

lemma Reject_only:
  assumes "UpdateStatus i st now db = (None, d)"
  shows "same_tables (d\<lparr>import_candidates := import_candidates db\<rparr>) db"
  using assms
  by (auto simp: UpdateStatus_def exec_found_def Exec_def update_candidate_def same_tables_def tick_def split: if_splits)

text \<open>
  The effect of a success, case by case: what it found, the candidate table after it, and the rest given
  new identifiers.
\<close>

lemma decide_effect:
  assumes "decide ids i dec now db = (None, d)"
  obtains cand where "candidate_Get db i = Inr cand" "ca_Status cand = ImportCandidateStatusPending"
    "import_candidates d = set_status i (outcome dec) now (import_candidates db)"
    "new_ids ids db \<Longrightarrow> decided_as i dec now db d"
proof (cases dec)
  case (AttachExisting ed)
  obtain cand where p: "pending_candidate db i = Inr cand"
    and m: "attach_and_mark (ids 0) (ca_SourceID cand) ed (ca_FileReference cand) i ImportCandidateStatusConfirmed now db = (None, d)"
    using assms AttachExisting by (auto simp: ConfirmAttachExisting_def split: sum.splits dest!: tx_command_committed)
  show ?thesis
    by (rule that [of cand])
       (use p AttachExisting attach_and_mark_ok [OF m] in \<open>auto simp: decided_as_def pending_candidate_ok\<close>)
next
  case (CreateNew meta)
  obtain cand where p: "pending_candidate db i = Inr cand"
    and t: "(case save_authors ids 0 (xm_Authors meta) db of (as, d') \<Rightarrow>
      create_and_attach ids (length (xm_Authors meta)) (xm_Title meta) [] as []
        (choose_language [orEmpty (xm_Language meta)]) (xm_ISBN meta) (orEmpty (xm_Publisher meta))
        cand i now d') = (None, d)"
    using assms CreateNew by (auto simp: ConfirmCreateNew_def split: sum.splits dest!: tx_command_committed)
  show ?thesis
    by (rule that [of cand])
       (use p CreateNew save_then_create_ok [OF t] in \<open>auto simp: decided_as_def pending_candidate_ok\<close>)
next
  case (UseOpenLibrary key meta detail)
  obtain cand where p: "pending_candidate db i = Inr cand"
    and t: "(case save_authors ids 0 (detail_names meta detail) db of (as, d') \<Rightarrow>
      create_and_attach ids (length (detail_names meta detail)) (fst (detail_title meta detail))
        (snd (detail_title meta detail)) as
        (if key \<noteq> [] then [\<lparr> er_source = ''openlibrary'', er_id = key \<rparr>] else [])
        (detail_language meta detail) (xm_ISBN meta) (detail_publisher meta detail) cand i now d') = (None, d)"
    using assms UseOpenLibrary
    by (auto simp: ConfirmOpenLibraryMatch_def Let_def case_prod_beta split: sum.splits dest!: tx_command_committed)
  show ?thesis
    by (rule that [of cand])
       (use p UseOpenLibrary save_then_create_ok [OF t] in \<open>auto simp: decided_as_def pending_candidate_ok\<close>)
next
  case RejectIt
  obtain cand where p: "pending_candidate db i = Inr cand"
    and u: "UpdateStatus i ImportCandidateStatusRejected now db = (None, d)"
    using assms RejectIt by (auto simp: Reject_def split: sum.splits)
  show ?thesis
    by (rule that [of cand])
       (use p RejectIt UpdateStatus_ok(6) [OF u] Reject_only [OF u] in \<open>auto simp: decided_as_def pending_candidate_ok\<close>)
qed

lemma decide_failed: "decide ids i dec now db = (Some e, d) \<Longrightarrow> same_tables d db"
  by (cases dec)
     (auto simp: ConfirmAttachExisting_def ConfirmCreateNew_def ConfirmOpenLibraryMatch_def Reject_def same_tables_def
      split: sum.splits dest!: tx_command_failed [unfolded same_tables_def] UpdateStatus_failed [unfolded same_tables_def])

text \<open>C13: A decision on an import candidate happens as a whole or not at all, given identifiers that are
  new to the catalogue.  When it fails, no table has changed.  When it succeeds, the candidate was
  pending and has the new status, and no other candidate has changed.  After an attachment the file is
  attached, as an offering and a library entry, to the chosen edition, and works and editions are as
  before.  After a confirmation from the file's metadata or from Open Library exactly one work, with
  the title of the metadata, and one edition of it have been added to the catalogue, and the file is
  attached to that new edition.  A rejection changes nothing but the candidate.
\<close>

theorem import_decision_atomic:
  assumes "new_ids ids db"
  shows "case decide ids i dec now db of
     (Some e, d) \<Rightarrow> same_tables d db
   | (None, d) \<Rightarrow> decided_as i dec now db d"
proof -
  obtain r d where r: "decide ids i dec now db = (r, d)" by fastforce
  show ?thesis
  proof (cases r)
    case None
    then have "decided_as i dec now db d" using r assms by (auto elim: decide_effect)
    then show ?thesis using r None by simp
  next
    case (Some e)
    then show ?thesis using decide_failed r by auto
  qed
qed

text \<open>
  A history of decisions, each with its identifiers, candidate and time; \<open>successes\<close> counts those on
  one candidate that succeeded.
\<close>

fun successes :: "string \<Rightarrow> ((nat \<Rightarrow> string) \<times> string \<times> decision \<times> instant) list \<Rightarrow> database \<Rightarrow> nat" where
  "successes i [] db = 0"
| "successes i ((ids, j, dec, now) # ds) db =
     (case decide ids j dec now db of
        (None, d) \<Rightarrow> (if j = i then 1 else 0) + successes i ds d
      | (Some _, d) \<Rightarrow> successes i ds d)"

definition decided :: "database \<Rightarrow> string \<Rightarrow> bool" where
  "decided db i \<longleftrightarrow> list_all (\<lambda>r. ic_id r = i \<longrightarrow> ic_status r \<noteq> ImportCandidateStatusPending) (import_candidates db)"

lemma same_tables_candidates: "same_tables d db \<Longrightarrow> import_candidates d = import_candidates db"
  by (drule same_tables_unlinked [where f = import_candidates]) auto

lemma decided_decide:
  assumes "decided db i" "decide ids j dec now db = (r, d)"
  shows "decided d i" "r = None \<Longrightarrow> j \<noteq> i"
proof -
  have "import_candidates d = import_candidates db
      \<or> import_candidates d = set_status j (outcome dec) now (import_candidates db)"
    using assms(2) decide_effect [of ids j dec now db d] same_tables_candidates [OF decide_failed]
    by (cases r) auto
  moreover have "outcome dec \<noteq> ImportCandidateStatusPending" by (cases dec) (simp_all add: import_statuses)
  ultimately show "decided d i"
    using assms(1) by (auto simp: decided_def set_status_def update_where_def list_all_iff)
  show "j \<noteq> i" if "r = None"
  proof
    assume "j = i"
    then obtain cand where c: "candidate_Get db i = Inr cand" "ca_Status cand = ImportCandidateStatusPending"
      using decide_effect [of ids i dec now db d] assms(2) \<open>r = None\<close> by blast
    from c(1) obtain row where "row \<in> set (import_candidates db)" "ic_id row = i" "scanImportCandidate row = Inr cand"
      unfolding candidate_Get_def by (elim query_row_ok) auto
    then show False
      using c(2) assms(1) by (auto simp: decided_def list_all_iff scanImportCandidate_def split: sum.splits)
  qed
qed

lemma set_status_mem:
  assumes "r \<in> set (set_status i st now rs)" "ic_id r = i"
  shows "ic_status r = st"
proof -
  obtain a where "r = (if ic_id a = i then a\<lparr>ic_status := st, ic_updated_at := timestamptz now\<rparr> else a)"
    using assms(1) unfolding set_status_def update_where_def set_map by blast
  then show ?thesis using assms(2) by (cases "ic_id a = i") simp_all
qed

lemma decide_decides:
  assumes "decide ids i dec now db = (None, d)"
  shows "decided d i"
proof -
  have "import_candidates d = set_status i (outcome dec) now (import_candidates db)"
    using decide_effect [OF assms] by blast
  moreover have "outcome dec \<noteq> ImportCandidateStatusPending" by (cases dec) (simp_all add: import_statuses)
  ultimately show ?thesis using set_status_mem unfolding decided_def list_all_iff by metis
qed

lemma successes_decided: "decided db i \<Longrightarrow> successes i ds db = 0"
proof (induction i ds db rule: successes.induct)
  case (2 i ids j dec now ds db)
  obtain r d where r: "decide ids j dec now db = (r, d)" by fastforce
  note k = decided_decide [OF 2(3) r]
  show ?case using 2(1,2) r k by (cases r) auto
qed simp

text \<open>C14: In any history of decisions, whatever their order and their candidates, at most one decision on
  a candidate succeeds: a confirmed or rejected candidate is never decided again.
\<close>

theorem import_decided_once: "successes i ds db \<le> 1"
proof (induction i ds db rule: successes.induct)
  case (2 i ids j dec now ds db)
  obtain r d where r: "decide ids j dec now db = (r, d)" by fastforce
  show ?case
  proof (cases "r = None \<and> j = i")
    case True
    then show ?thesis using r successes_decided [OF decide_decides] by auto
  next
    case False
    then show ?thesis using r 2 by (cases r) auto
  qed
qed simp

section \<open>The job handler\<close>

text \<open>Nothing has changed but this candidate, which may be marked failed.\<close>

definition set_failed :: "string \<Rightarrow> string \<Rightarrow> instant \<Rightarrow> candidate_row list \<Rightarrow> candidate_row list" where
  "set_failed i text now =
     update_where (\<lambda>r. ic_id r = i) (\<lambda>r. r\<lparr>ic_status := ImportCandidateStatusFailed, ic_last_error := Some text,
       ic_updated_at := timestamptz now\<rparr>)"

definition only_failed :: "string \<Rightarrow> instant \<Rightarrow> database \<Rightarrow> database \<Rightarrow> bool" where
  "only_failed i now db d \<longleftrightarrow>
     same_tables (d\<lparr>import_candidates := import_candidates db\<rparr>) db
     \<and> (import_candidates d = import_candidates db
        \<or> (\<exists>text. import_candidates d = set_failed i text now (import_candidates db)))"

definition set_pending :: "string \<Rightarrow> string option \<Rightarrow> string option \<Rightarrow> instant \<Rightarrow> candidate_row list \<Rightarrow> candidate_row list" where
  "set_pending i extracted matches now =
     update_where (\<lambda>r. ic_id r = i) (\<lambda>r. r\<lparr>ic_status := ImportCandidateStatusPending, ic_extracted_metadata := extracted,
       ic_match_candidates := matches, ic_updated_at := timestamptz now\<rparr>)"

lemma same_tables_refl: "same_tables db db"
  by (simp add: same_tables_def)

lemma same_tables_trans: "same_tables a b \<Longrightarrow> same_tables b c \<Longrightarrow> same_tables a c"
  by (simp add: same_tables_def)

lemma only_failed_unchanged:
  assumes "same_tables d db"
  shows "only_failed i now db d"
proof -
  have c: "import_candidates db = import_candidates d" using same_tables_candidates [OF assms] by simp
  show ?thesis using assms unfolding only_failed_def c by simp
qed

lemma only_failed_trans: "same_tables d db \<Longrightarrow> only_failed i now d d' \<Longrightarrow> only_failed i now db d'"
  using same_tables_candidates [of d db] same_tables_trans [of _ d db]
  by (auto simp: only_failed_def)

lemma mark_failed_only: "only_failed i now db (mark_failed i text now db)"
  unfolding only_failed_def set_failed_def
  by (auto simp: mark_failed_def UpdateFailed_def exec_found_def Exec_def update_candidate_def same_tables_def tick_def)

lemma store_pending_outcome:
  assumes "store_pending jsonb E now p meta ms db = (r, d)"
  shows "r = Some e \<Longrightarrow> same_tables d db"
    "r = None \<Longrightarrow> \<exists>x m. jsonb_arg jsonb (print_json (metadata_json meta)) = Some x
       \<and> jsonb_arg jsonb (print_json (matches_json ms)) = Some m
       \<and> import_candidates d = set_pending (ip_CandidateID p) x m now (import_candidates db)
       \<and> same_tables (d\<lparr>import_candidates := import_candidates db\<rparr>) db"
  using assms
  by (auto simp: store_pending_def UpdateExtractedAndMatches_def exec_found_def Exec_def update_candidate_def
      same_tables_def tick_def set_pending_def update_where_def filter_empty_conv map_idI
      split: option.splits if_splits)

text \<open>The automatic import: the one owned edition with the ISBN of the file, offered in the detected format.\<close>

definition auto_imported ::
  "ImportJobPayload \<Rightarrow> Format \<Rightarrow> ExtractedMetadata \<Rightarrow> instant \<Rightarrow> database \<Rightarrow> database \<Rightarrow> bool" where
  "auto_imported p format meta now db d \<longleftrightarrow>
     (\<exists>isbn e ref. xm_ISBN meta = Some isbn \<and> e \<in> set (editions db) \<and> owned_by_isbn db isbn e
       \<and> fr_ReferenceID ref = fr_ReferenceID (ip_FileReference p) \<and> fr_Format ref = format
       \<and> attached d (ip_SourceID p) (ed_id e) ref
       \<and> import_candidates d = set_status (ip_CandidateID p) ImportCandidateStatusAutoImported now (import_candidates db))"

lemma AutoImport_outcome:
  assumes "AutoImport newID i s ed ref fmt now db = (r, d)"
  shows "r = Some e \<Longrightarrow> same_tables d db"
    "r = None \<Longrightarrow> \<exists>ref'. fr_ReferenceID ref' = fr_ReferenceID ref \<and> fr_Format ref' = fmt \<and> attached d s ed ref'
       \<and> import_candidates d = set_status i ImportCandidateStatusAutoImported now (import_candidates db)"
proof -
  show "same_tables d db" if "r = Some e"
    using assms that by (auto simp: AutoImport_def same_tables_refl split: sum.splits dest: tx_command_failed)
  show "\<exists>ref'. fr_ReferenceID ref' = fr_ReferenceID ref \<and> fr_Format ref' = fmt \<and> attached d s ed ref'
       \<and> import_candidates d = set_status i ImportCandidateStatusAutoImported now (import_candidates db)" if none: "r = None"
  proof -
    obtain ref' where n: "NewFileReference (fr_ReferenceID ref) fmt (fr_SizeBytes ref) = Inr ref'"
        and t: "attach_and_mark newID s ed ref' i ImportCandidateStatusAutoImported now db = (None, d)"
      using assms none by (auto simp: AutoImport_def split: sum.splits dest!: tx_command_committed)
    have "fr_ReferenceID ref' = fr_ReferenceID ref" "fr_Format ref' = fmt"
      using n by (auto simp: NewFileReference_def split: option.splits if_splits)
    then show ?thesis using attach_and_mark_ok(1,2) [OF t] by blast
  qed
qed

definition stored_pending :: "jsonb \<Rightarrow> ImportJobPayload \<Rightarrow> ExtractedMetadata \<Rightarrow> MatchCandidate list \<Rightarrow> instant
   \<Rightarrow> database \<Rightarrow> database \<Rightarrow> bool" where
  "stored_pending jsonb p meta ms now db d \<longleftrightarrow>
     (\<exists>x m. jsonb_arg jsonb (print_json (metadata_json meta)) = Some x
       \<and> jsonb_arg jsonb (print_json (matches_json ms)) = Some m
       \<and> import_candidates d = set_pending (ip_CandidateID p) x m now (import_candidates db)
       \<and> same_tables (d\<lparr>import_candidates := import_candidates db\<rparr>) db)"

lemma finish_import_outcome:
  assumes "finish_import ck cm jsonb E newID now p format meta db = (r, d)"
  shows "r = Some e \<Longrightarrow> only_failed (ip_CandidateID p) now db d"
    "r = None \<Longrightarrow> auto_imported p format meta now db d
       \<or> stored_pending jsonb p meta (fst (Match ck cm (ie_Search E) db meta)) now db d"
proof -
  obtain ms aa where m: "Match ck cm (ie_Search E) db meta = (ms, aa)" by fastforce
  consider (pending) "store_pending jsonb E now p meta ms db = (r, d)"
    | (auto) mt ed r1 d1 where "ms = [mt]" "aa" "mc_EditionID mt = Some ed"
      "AutoImport newID (ip_CandidateID p) (ip_SourceID p) ed (ip_FileReference p) format now db = (r1, d1)"
      "(case r1 of None \<Rightarrow> r = None \<and> d = d1 | Some err \<Rightarrow> r \<noteq> None \<and>
          d = mark_failed (ip_CandidateID p) (''auto-importing candidate: '' @ ie_errtext E err) now d1)"
  proof (cases "\<exists>mt ed. ms = [mt] \<and> aa \<and> mc_EditionID mt = Some ed")
    case True
    then obtain mt ed where t: "ms = [mt]" "aa" "mc_EditionID mt = Some ed" by blast
    obtain r1 d1 where
      a: "AutoImport newID (ip_CandidateID p) (ip_SourceID p) ed (ip_FileReference p) format now db = (r1, d1)" by fastforce
    show thesis
      by (rule auto [OF t a]) (use assms m t a in \<open>auto simp: finish_import_def split: option.splits\<close>)
  next
    case False
    show thesis
      by (rule pending) (use assms m False in \<open>auto simp: finish_import_def split: bool.splits list.splits option.splits\<close>)
  qed
  then have "(r \<noteq> None \<longrightarrow> only_failed (ip_CandidateID p) now db d) \<and> (r = None \<longrightarrow> auto_imported p format meta now db d
       \<or> stored_pending jsonb p meta ms now db d)"
  proof cases
    case pending
    then show ?thesis
      using store_pending_outcome [OF pending] only_failed_unchanged by (cases r) (auto simp: stored_pending_def)
  next
    case auto
    note a = AutoImport_outcome [OF auto(4)]
    show ?thesis
    proof (cases r1)
      case (Some err)
      then show ?thesis using auto(5) only_failed_trans [OF a(1) mark_failed_only] by auto
    next
      case None
      obtain isbn e where "xm_ISBN meta = Some isbn" "e \<in> set (editions db)" "ed_isbn e = Some isbn" "mc_EditionID mt = Some (ed_id e)"
          "list_ex (\<lambda>en. en_edition_id en = ed_id e) (library_entries db)"
        by (rule Match_single [of ck cm "ie_Search E" db meta mt]) (use m auto(1,2) in auto)
      moreover from this(4) have "ed = ed_id e" using auto(3) by simp
      ultimately show ?thesis
        using auto(5) None a(2) [OF None] unfolding auto_imported_def owned_by_isbn_def by fastforce
    qed
  qed
  then show "r = Some e \<Longrightarrow> only_failed (ip_CandidateID p) now db d"
    "r = None \<Longrightarrow> auto_imported p format meta now db d
       \<or> stored_pending jsonb p meta (fst (Match ck cm (ie_Search E) db meta)) now db d"
    by (simp_all add: m)
qed

text \<open>C15: A run of the import job ends in one of three ways.  When it reports an error, nothing has changed
  but the candidate its payload names, which is as before or marked failed with the error; no other
  candidate and no other table has changed, and with an unreadable payload none has.  When it
  succeeds, the payload was valid and the file extracted, and either the candidate is pending with the
  metadata and matches and nothing else has changed, or it is automatically imported: its file is
  attached, in the detected format, to an edition some library already owns under the very ISBN of the
  file, and no other candidate has changed.
\<close>

theorem import_job_outcome:
  "case import_handler ck cm jsonb E newID now raw db of
     (Some err, d) \<Rightarrow>
       (case Unmarshal payload_fields zero_payload raw of
          None \<Rightarrow> same_tables d db
        | Some p \<Rightarrow> only_failed (ip_CandidateID p) now db d)
   | (None, d) \<Rightarrow>
       (\<exists>p format meta. Unmarshal payload_fields zero_payload raw = Some p
          \<and> format \<noteq> FormatUnknown \<and> ie_Extract E (ip_SourceID p) (ip_FileReference p) format = Inr meta
          \<and> (auto_imported p format meta now db d
             \<or> stored_pending jsonb p meta (fst (Match ck cm (ie_Search E) db meta)) now db d))"
proof -
  obtain r d where h: "import_handler ck cm jsonb E newID now raw db = (r, d)" by fastforce
  consider (unread) "r \<noteq> None" "Unmarshal payload_fields zero_payload raw = None" "d = db"
    | (early) p where "r \<noteq> None" "Unmarshal payload_fields zero_payload raw = Some p"
        "only_failed (ip_CandidateID p) now db d"
    | (finished) p format meta where "Unmarshal payload_fields zero_payload raw = Some p" "format \<noteq> FormatUnknown"
        "ie_Extract E (ip_SourceID p) (ip_FileReference p) format = Inr meta"
        "finish_import ck cm jsonb E newID now p format meta db = (r, d)"
    using h unfolding import_handler_def Permanent_def
    by (auto simp: Let_def mark_failed_only split: option.splits sum.splits if_splits)
  then show ?thesis
  proof cases
    case unread
    then show ?thesis by (auto simp: h same_tables_refl)
  next
    case early
    then show ?thesis by (auto simp: h)
  next
    case finished
    then show ?thesis using finish_import_outcome [OF finished(4)] by (cases r) (auto simp: h)
  qed
qed

section \<open>Example\<close>

text \<open>A pending candidate confirmed as a new book.\<close>

definition upload_ref :: FileReference where
  "upload_ref = \<lparr> fr_ReferenceID = ''emma.epub'', fr_Format = ''epub'', fr_SizeBytes = None \<rparr>"

definition upload_row :: candidate_row where
  "upload_row = \<lparr> ic_id = ''c'', ic_source_id = ''s'', ic_file_reference = marshal_file_reference upload_ref,
     ic_status = ImportCandidateStatusPending, ic_extracted_metadata = None, ic_match_candidates = None,
     ic_job_id = None, ic_last_error = None, ic_created_at = 0, ic_updated_at = 0 \<rparr>"

definition upload_db :: database where
  "upload_db = (empty_database [DefaultLibraryID])
     \<lparr> sources := [\<lparr> sc_id = ''s'', sc_label = ''Books'', sc_can_list = True, sc_can_search = False, sc_can_download = True,
          sc_kind = ''local'', sc_library_id = DefaultLibraryID, sc_config_base_path = ''/b'', sc_config_base_url = [],
          sc_credential_ciphertext = None, sc_credential_nonce = None, sc_health_status = ''unknown'', sc_health_detail = None,
          sc_health_checked_at = None, sc_search_link_url = None, sc_created_at = 0 \<rparr>],
       import_candidates := [upload_row] \<rparr>"

definition upload_ids :: "nat \<Rightarrow> string" where
  "upload_ids k = (if k = 0 then ''w'' else if k = 1 then ''e'' else ''o'')"

definition upload_meta :: ExtractedMetadata where
  "upload_meta = \<lparr> xm_Title = ''Emma'', xm_Authors = [], xm_ISBN = None, xm_Language = None, xm_Publisher = None,
     xm_Description = None, xm_CoverBytes = [], xm_Format = ''epub'' \<rparr>"


lemma upload_ref_scanned: "scan_file_reference (marshal_file_reference upload_ref) = Inr upload_ref"
proof -
  have "json_ok maxNestingDepth (file_reference_json \<lparr> fj_ID = ''emma.epub'', fj_Format = ''epub'', fj_SizeBytes = None \<rparr>)"
    by (simp add: file_reference_json_def maxNestingDepth_def valid_utf8_ascii)
  then have "Unmarshal file_reference_fields zero_file_reference (marshal_file_reference upload_ref)
      = Some \<lparr> fj_ID = ''emma.epub'', fj_Format = ''epub'', fj_SizeBytes = None \<rparr>"
    unfolding marshal_file_reference_def upload_ref_def FileReference.simps
    by (subst Unmarshal_print) (simp_all add: file_reference_json_def decode_struct_def file_reference_fields_def zero_file_reference_def
      fold_name_def visible_runes visible_def fold_rune_def)
  then show ?thesis
    by (simp add: scan_file_reference_def NewFileReference_def TrimSpace_visible visible_def upload_ref_def)
qed

lemma english: "NewLanguage ''en'' = Inr (Language ''en'')"
  by (simp add: NewLanguage_ok_iff tag_shape_def is_alpha_def is_lower_def between_def)

lemma upload_decided: "fst (decide upload_ids ''c'' (CreateNew upload_meta) 0 upload_db) = None"
  by (simp add: upload_db_def upload_ids_def upload_meta_def upload_row_def ConfirmCreateNew_def pending_candidate_def
    candidate_Get_def query_row_def empty_database_def connected_def scanImportCandidate_def upload_ref_scanned
    tx_command_def InTx_def as_result_def create_and_attach_def NewWork_def ValidateBoundedText_printable maxTitleLength_def
    work_Save_def work_Save_statements_def upsert_work_def work_row_of_def Let_def Exec_def tick_def
    delete_work_authors_def delete_work_subjects_def delete_work_references_def
    delete_work_contains_def delete_where_def orEmpty_def choose_language_def NewEdition_def edition_Save_def
    upsert_edition_def edition_row_of_def delete_edition_references_def work_ids_def
    attach_and_mark_def attach_file_def offering_Save_def exec_one_def upsert_offering_def offering_row_of_def
    NewSourceOffering_def offering_key_def edition_ids_def AddEntry_def PgEditionRepository_def
    PgLibraryEntryRepository_def edition_load_def row_by_def english children_def
    entry_FindByEdition_def NewLibraryEntry_def entry_Save_def insert_entry_def entry_row_of_def affected_or_conflict_def
    named_library_def UpdateStatus_def exec_found_def update_candidate_def
    ValidImportCandidateStatus_def)

theorem import_decision_atomic_witness:
  "new_ids upload_ids upload_db
   \<and> (\<exists>d. decide upload_ids ''c'' (CreateNew upload_meta) 0 upload_db = (None, d)
        \<and> decided_as ''c'' (CreateNew upload_meta) 0 upload_db d)"
proof -
  have n: "new_ids upload_ids upload_db"
    by (simp add: new_ids_def upload_db_def empty_database_def work_ids_def edition_ids_def)
  obtain d where "decide upload_ids ''c'' (CreateNew upload_meta) 0 upload_db = (None, d)"
    using upload_decided by (metis prod.collapse)
  with import_decision_atomic [OF n, of "''c''" "CreateNew upload_meta" 0] n show ?thesis by auto
qed

end
