(* ===== verification/Import_Discovery.thy ===== *)
theory Import_Discovery
  imports Import_Service
begin

text \<open>
  What discovery (\<open>importer/discovery.go\<close>) promises: it ends when the listing ends, stages every listed
  file, and never stages a file twice, whatever happens on the way.
\<close>

section \<open>The file reference column\<close>

text \<open>PostgreSQL's \<open>jsonb\<close> keeps the members of the objects the repository stores.\<close>

definition jsonb_keeps :: "jsonb \<Rightarrow> bool" where
  "jsonb_keeps jsonb \<longleftrightarrow>
     (\<forall>ref t key. jsonb (marshal_file_reference ref) = Some t \<longrightarrow>
        json_member t key = json_member (marshal_file_reference ref) key)"

definition valid_reference :: "FileReference \<Rightarrow> bool" where
  "valid_reference ref \<longleftrightarrow> Go_Json.valid_utf8 (fr_ReferenceID ref) \<and> Go_Json.valid_utf8 (fr_Format ref)"

lemma member_marshal:
  assumes "valid_reference ref"
  shows "json_member (marshal_file_reference ref) ''id'' = Some (fr_ReferenceID ref)"
    "json_member (marshal_file_reference ref) ''referenceId'' = None"
proof -
  let ?v = "file_reference_json
    \<lparr> fj_ID = fr_ReferenceID ref, fj_Format = fr_Format ref, fj_SizeBytes = fr_SizeBytes ref \<rparr>"
  have "json_ok maxNestingDepth ?v"
    using assms
    by (auto simp: file_reference_json_def valid_reference_def maxNestingDepth_def valid_utf8_ascii
        split: option.splits)
  then have "parse_json (marshal_file_reference ref) = Some ?v"
    unfolding marshal_file_reference_def by (rule parse_print)
  then show "json_member (marshal_file_reference ref) ''id'' = Some (fr_ReferenceID ref)"
    "json_member (marshal_file_reference ref) ''referenceId'' = None"
    by (auto simp: json_member_def file_reference_json_def split: option.splits)
qed

section \<open>One item\<close>

definition queued_ids :: "database \<Rightarrow> string set" where
  "queued_ids db = jb_id ` set (jobs db)"

lemma EnqueueImportJob_only:
  assumes "EnqueueImportJob jsonb reg i now payload db = (r, d)"
  shows "import_candidates d = import_candidates db" "queued_ids db \<subseteq> queued_ids d"
    "r = Inr j \<Longrightarrow> j \<in> queued_ids d"
  using assms
  by (auto simp: queued_ids_def EnqueueImportJob_def queue_Enqueue_def Enqueue_def job_exec_def Exec_def insert_job_def
      queued_row_def tick_def split: option.splits sum.splits if_splits prod.splits)

lemma candidate_Create_only:
  assumes "candidate_Create jsonb clk rec db = (r, d)"
  shows "jobs d = jobs db"
    "r = Some e \<Longrightarrow> import_candidates d = import_candidates db"
    "r = None \<Longrightarrow> \<exists>row. import_candidates d = import_candidates db @ [row] \<and> ic_source_id row = ca_SourceID rec
       \<and> ic_job_id row = ca_JobID rec \<and> jsonb (marshal_file_reference (ca_FileReference rec)) = Some (ic_file_reference row)"
  using assms
  by (auto simp: candidate_Create_def exec_one_def Exec_def insert_candidate_def tick_def
      split: option.splits sum.splits if_splits prod.splits)

lemma new_row_refers:
  assumes "jsonb_keeps jsonb" "valid_reference ref" "jsonb (marshal_file_reference ref) = Some (ic_file_reference row)"
    "ic_source_id row = s"
  shows "refers_to s x row \<longleftrightarrow> x = fr_ReferenceID ref"
  using assms member_marshal [OF assms(2)] by (auto simp: refers_to_def jsonb_keeps_def)

section \<open>Many items\<close>

definition staged :: "SourceID \<Rightarrow> string \<Rightarrow> database \<Rightarrow> nat" where
  "staged s x db = length (filter (refers_to s x) (import_candidates db))"

text \<open>
  \<open>extends s db d new\<close>: the rows \<open>new\<close> have been appended, each with its job in the queue, and no file of
  the source that had at most one row has got a second.
\<close>

definition extends :: "SourceID \<Rightarrow> database \<Rightarrow> database \<Rightarrow> candidate_row list \<Rightarrow> bool" where
  "extends s db d new \<longleftrightarrow>
     import_candidates d = import_candidates db @ new
     \<and> (\<forall>x. staged s x d \<le> max 1 (staged s x db))
     \<and> queued_ids db \<subseteq> queued_ids d
     \<and> list_all (\<lambda>r. ic_source_id r = s \<and> ic_job_id r \<in> Some ` queued_ids d) new"

lemma extends_refl: "extends s db db []"
  by (simp add: extends_def)

lemma extends_trans:
  assumes "extends s db d new" "extends s d d' new'"
  shows "extends s db d' (new @ new')"
proof -
  have "staged s x d' \<le> max 1 (staged s x db)" for x
    using assms unfolding extends_def by (meson max.bounded_iff max.cobounded1 order_trans)
  moreover have "queued_ids db \<subseteq> queued_ids d" "queued_ids d \<subseteq> queued_ids d'" using assms by (simp_all add: extends_def)
  moreover from this(2) have "Some ` queued_ids d \<subseteq> Some ` queued_ids d'" by blast
  ultimately show ?thesis using assms unfolding extends_def list_all_iff by auto
qed

lemma extends_staged: "extends s db d new \<Longrightarrow> staged s x db \<le> staged s x d"
  by (simp add: extends_def staged_def)

definition tallies :: "SourceID \<Rightarrow> SourceCandidate list \<Rightarrow> DiscoverResult \<Rightarrow> DiscoverResult \<Rightarrow> database \<Rightarrow> candidate_row list \<Rightarrow> bool" where
  "tallies s items acc acc' d new \<longleftrightarrow>
     list_all (\<lambda>item. staged s (fr_ReferenceID (sn_FileReference item)) d > 0) items
     \<and> map Some (dr_JobIDs acc') = map Some (dr_JobIDs acc) @ map ic_job_id new
     \<and> dr_DiscoveredCount acc' = dr_DiscoveredCount acc + length new
     \<and> dr_DiscoveredCount acc' + dr_SkippedCount acc' = dr_DiscoveredCount acc + dr_SkippedCount acc + length items"

lemma tallies_trans:
  assumes "tallies s items acc acc' d new" "tallies s items' acc' acc'' d' new'" "extends s d d' new'"
  shows "tallies s (items @ items') acc acc'' d' (new @ new')"
proof -
  have "staged s x d > 0 \<Longrightarrow> staged s x d' > 0" for x using extends_staged [OF assms(3), of x] by linarith
  then show ?thesis using assms(1,2) by (auto simp: tallies_def list_all_iff)
qed

lemma discover_item:
  assumes k: "jsonb_keeps jsonb" and v: "valid_reference (sn_FileReference item)"
    and r: "discover_items jsonb D s (item # items) acc db = (r, d)"
  obtains (failed) e where "r = Inl e" "extends s db d []"
  | (going) acc' d1 new where "discover_items jsonb D s items acc' d1 = (r, d)" "extends s db d1 new"
      "tallies s [item] acc acc' d1 new"
proof -
  let ?ref = "sn_FileReference item" and ?k = "dr_DiscoveredCount acc"
  let ?x = "fr_ReferenceID ?ref" and ?i = "dc_candidateIDs D ?k"
  let ?p = "\<lparr> ip_CandidateID = ?i, ip_SourceID = s, ip_FileReference = ?ref \<rparr>"
  consider (err) e where "ExistsBySourceAndFileRefID db s ?x = Inl e"
    | (old) "ExistsBySourceAndFileRefID db s ?x = Inr True"
    | (fresh) "ExistsBySourceAndFileRefID db s ?x = Inr False"
    by (metis sum.exhaust)
  then show thesis
  proof cases
    case err
    with r failed extends_refl show thesis by auto
  next
    case old
    then have "staged s ?x db > 0"
      by (auto simp: ExistsBySourceAndFileRefID_def staged_def list_ex_iff filter_empty_conv split: if_splits)
    then have t: "tallies s [item] acc (acc\<lparr>dr_SkippedCount := dr_SkippedCount acc + 1\<rparr>) db []" by (simp add: tallies_def)
    show thesis using old r by (intro going [OF _ extends_refl t]) simp
  next
    case fresh
    then have none: "staged s ?x db = 0"
      by (auto simp: ExistsBySourceAndFileRefID_def staged_def list_ex_iff split: if_splits)
    obtain r1 d1 where q: "EnqueueImportJob jsonb (dc_registry D) (dc_jobIDs D ?k) (dc_clock D) ?p db = (r1, d1)"
      by fastforce
    note q' = EnqueueImportJob_only [OF q]
    have e1: "extends s db d1 []" using q' by (simp add: extends_def staged_def)
    show thesis
    proof (cases r1)
      case (Inl e)
      with fresh r q e1 failed show thesis by (auto simp: Let_def)
    next
      case (Inr j)
      let ?rec = "queued_candidate ?i s ?ref j (dc_now D)"
      obtain r2 d2 where c: "candidate_Create jsonb (dc_clock D) ?rec d1 = (r2, d2)" by fastforce
      note c' = candidate_Create_only [OF c]
      have jobs: "queued_ids d2 = queued_ids d1" using c'(1) by (simp add: queued_ids_def)
      show thesis
      proof (cases r2)
        case (Some e)
        then have "extends s db d2 []" using e1 c'(2) jobs by (simp add: extends_def staged_def)
        with fresh r q Inr c Some failed show thesis by (auto simp: Let_def)
      next
        case None
        then obtain row where row: "import_candidates d2 = import_candidates d1 @ [row]" "ic_source_id row = s"
            "ic_job_id row = Some j" "jsonb (marshal_file_reference ?ref) = Some (ic_file_reference row)"
          using c'(3) by (auto simp: queued_candidate_def)
        have st: "staged s y d2 = staged s y db + (if y = ?x then 1 else 0)" for y
          using new_row_refers [OF k v row(4,2)] row(1) q'(1) by (simp add: staged_def)
        have "extends s db d2 [row]"
          using row q' jobs none Inr by (auto simp: extends_def st)
        moreover have "tallies s [item] acc (acc\<lparr>dr_DiscoveredCount := ?k + 1, dr_JobIDs := dr_JobIDs acc @ [j]\<rparr>) d2 [row]"
          using row(3) by (simp add: tallies_def st)
        ultimately show thesis using fresh r q Inr c None going by (auto simp: Let_def)
      qed
    qed
  qed
qed

lemma discover_items_ok:
  assumes "jsonb_keeps jsonb" "\<forall>item \<in> set items. valid_reference (sn_FileReference item)"
    and "discover_items jsonb D s items acc db = (r, d)"
  shows "\<exists>new. extends s db d new \<and> (\<forall>acc'. r = Inr acc' \<longrightarrow> tallies s items acc acc' d new)"
  using assms(2,3)
proof (induction items arbitrary: acc db)
  case Nil
  then show ?case using extends_refl by (auto simp: tallies_def)
next
  case (Cons item items)
  from Cons.prems(1) have v: "valid_reference (sn_FileReference item)" by simp
  from assms(1) v Cons.prems(2) show ?case
  proof (cases rule: discover_item)
    case failed
    then show ?thesis by blast
  next
    case (going acc' d1 new)
    then obtain new' where "extends s d1 d new'" "\<forall>acc''. r = Inr acc'' \<longrightarrow> tallies s items acc' acc'' d new'"
      using Cons.IH Cons.prems(1) by (meson list.set_intros(2))
    then show ?thesis
      using going(2,3) extends_trans tallies_trans [of s "[item]" acc acc' d1 new items]
      by (metis append_Cons append_Nil)
  qed
qed


section \<open>All pages\<close>

text \<open>\<open>listing L c items\<close>: the pages from cursor \<open>c\<close> to the last one, or to the first error, hold \<open>items\<close>.\<close>

inductive listing :: "(string \<Rightarrow> CandidatePage result) \<Rightarrow> string \<Rightarrow> SourceCandidate list \<Rightarrow> bool" where
  broken: "L c = Inl e \<Longrightarrow> listing L c []"
| last_page: "L c = Inr p \<Longrightarrow> orEmpty (cp_NextCursor p) = [] \<Longrightarrow> listing L c (cp_Items p)"
| more_pages: "L c = Inr p \<Longrightarrow> cp_NextCursor p = Some c' \<Longrightarrow> c' \<noteq> [] \<Longrightarrow> listing L c' items
    \<Longrightarrow> listing L c (cp_Items p @ items)"

lemma discover_pages_ok:
  assumes "jsonb_keeps jsonb" "listing (dc_List D) c items"
    "\<forall>item \<in> set items. valid_reference (sn_FileReference item)"
  shows "\<exists>r d new. discover_pages jsonb D s n c acc db = Some (r, d) \<and> extends s db d new
    \<and> (\<forall>acc'. r = Inr acc' \<longrightarrow> tallies s items acc acc' d new)"
  using assms(2,3)
proof (induction "dc_List D" c items arbitrary: n acc db rule: listing.induct)
  case (broken c e)
  then show ?case
    by (subst discover_pages.simps) (auto intro!: exI [of _ "[]"] extends_refl split: option.splits)
next
  case (last_page c p)
  obtain r d where i: "discover_items jsonb D s (cp_Items p) acc db = (r, d)" by fastforce
  from discover_items_ok [OF assms(1) last_page(3) i]
  obtain new where e: "extends s db d new" "\<forall>acc'. r = Inr acc' \<longrightarrow> tallies s (cp_Items p) acc acc' d new" by blast
  show ?case
  proof (cases "dc_CtxErr D n")
    case None
    then have "discover_pages jsonb D s n c acc db = Some (r, d)"
      using last_page(1,2) i
      by (subst discover_pages.simps) (auto simp: orEmpty_def split: option.splits sum.splits)
    with e show ?thesis by blast
  next
    case (Some err)
    then have "discover_pages jsonb D s n c acc db = Some (Inl err, db)"
      by (subst discover_pages.simps) simp
    then show ?thesis using extends_refl by blast
  qed
next
  case (more_pages c p c' items)
  obtain r d where i: "discover_items jsonb D s (cp_Items p) acc db = (r, d)" by fastforce
  have "\<forall>item \<in> set (cp_Items p). valid_reference (sn_FileReference item)" using more_pages(6) by simp
  from discover_items_ok [OF assms(1) this i]
  obtain new where e: "extends s db d new" "\<forall>acc'. r = Inr acc' \<longrightarrow> tallies s (cp_Items p) acc acc' d new" by blast
  consider (cancelled) err where "dc_CtxErr D n = Some err" | (failed) err where "dc_CtxErr D n = None" "r = Inl err"
    | (going) acc' where "dc_CtxErr D n = None" "r = Inr acc'" by (cases "dc_CtxErr D n"; cases r) auto
  then show ?case
  proof cases
    case cancelled
    then have "discover_pages jsonb D s n c acc db = Some (Inl err, db)"
      by (subst discover_pages.simps) simp
    then show ?thesis using extends_refl by blast
  next
    case failed
    then have "discover_pages jsonb D s n c acc db = Some (Inl err, d)"
      using more_pages(1) i by (subst discover_pages.simps) simp
    then show ?thesis using e(1) by blast
  next
    case going
    have step: "discover_pages jsonb D s n c acc db = discover_pages jsonb D s (Suc n) c' acc' d"
      using more_pages(1-3) i going by (subst discover_pages.simps) simp
    obtain r' d' new' where "discover_pages jsonb D s (Suc n) c' acc' d = Some (r', d')" "extends s d d' new'"
        "\<forall>acc''. r' = Inr acc'' \<longrightarrow> tallies s items acc' acc'' d' new'"
      using more_pages(5) more_pages(6) by (metis UnCI set_append)
    then show ?thesis
      unfolding step using e going(2) extends_trans tallies_trans by metis
  qed
qed

text \<open>C16: Discovery over a listing that ends, of files whose references are valid UTF-8, returns, and never
  adds a second candidate for a file of the source, whatever fails on the way; the rows it adds belong
  to the source and have their job in the queue.  When it succeeds, every listed file has a candidate,
  and the result counts the new rows and the skipped items and names the jobs.  A file is skipped
  exactly when it has a candidate row: a file the source already offers for an edition, but without a
  candidate row, is staged again, although the comment on the coordinator and the specification say it
  is skipped.  PostgreSQL is assumed to keep the members of a stored JSON object.
\<close>

theorem discover_stages_once:
  assumes "jsonb_keeps jsonb" "listing (dc_List D) [] items"
    "\<forall>item \<in> set items. valid_reference (sn_FileReference item)"
  shows "\<exists>r d new. Discover jsonb D s db = Some (r, d)
    \<and> import_candidates d = import_candidates db @ new
    \<and> (\<forall>x. staged s x d \<le> max 1 (staged s x db))
    \<and> list_all (\<lambda>row. ic_source_id row = s \<and> ic_job_id row \<in> Some ` queued_ids d) new
    \<and> (case r of Inl _ \<Rightarrow> True
       | Inr res \<Rightarrow>
           list_all (\<lambda>item. staged s (fr_ReferenceID (sn_FileReference item)) d > 0) items
           \<and> map Some (dr_JobIDs res) = map ic_job_id new
           \<and> dr_DiscoveredCount res = length new
           \<and> dr_DiscoveredCount res + dr_SkippedCount res = length items)"
proof -
  let ?z = "\<lparr> dr_DiscoveredCount = 0, dr_SkippedCount = 0, dr_JobIDs = [] \<rparr>"
  consider (refused) err where "Discover jsonb D s db = Some (Inl err, db)"
    | (run) "Discover jsonb D s db = discover_pages jsonb D s 0 [] ?z db"
    by (cases "source_FindByID db s"; cases "CanList (s_capabilities (projr (source_FindByID db s)))")
       (auto simp: Discover_def)
  then show ?thesis
  proof cases
    case refused
    then show ?thesis using extends_refl [of s db] by (auto simp: extends_def intro!: exI [of _ "[]"])
  next
    case run
    obtain r d new where "discover_pages jsonb D s 0 [] ?z db = Some (r, d)" and e: "extends s db d new"
        and t: "\<forall>acc'. r = Inr acc' \<longrightarrow> tallies s items ?z acc' d new"
      using discover_pages_ok [OF assms, of s 0 ?z db] by blast
    then show ?thesis
      using run by (intro exI [of _ r] exI [of _ d] exI [of _ new])
        (auto simp: extends_def tallies_def split: sum.splits)
  qed
qed

definition demo_item :: SourceCandidate where
  "demo_item = \<lparr> sn_Title = ''Emma'', sn_Author = None,
     sn_FileReference = \<lparr> fr_ReferenceID = ''emma.epub'', fr_Format = ''epub'', fr_SizeBytes = Some 7 \<rparr>,
     sn_CoverURL = None \<rparr>"

definition demo_discovery :: "unit discovery" where
  "demo_discovery = \<lparr> dc_List = (\<lambda>c. if c = [] then Inr \<lparr> cp_Items = [demo_item], cp_NextCursor = Some ''2'' \<rparr>
       else Inr \<lparr> cp_Items = [demo_item], cp_NextCursor = None \<rparr>),
     dc_CtxErr = (\<lambda>_. None), dc_registry = [], dc_candidateIDs = dec_nat, dc_jobIDs = dec_nat,
     dc_clock = 0, dc_now = 0 \<rparr>"

lemma demo_listing: "listing (dc_List demo_discovery) [] [demo_item, demo_item]"
proof -
  let ?p = "\<lparr> cp_Items = [demo_item], cp_NextCursor = Some ''2'' \<rparr>" and ?q = "\<lparr> cp_Items = [demo_item], cp_NextCursor = None \<rparr>"
  have "listing (dc_List demo_discovery) ''2'' (cp_Items ?q)"
    by (rule last_page) (simp_all add: demo_discovery_def orEmpty_def)
  then have "listing (dc_List demo_discovery) [] (cp_Items ?p @ cp_Items ?q)"
    by (rule more_pages [rotated 3]) (simp_all add: demo_discovery_def)
  then show ?thesis by simp
qed

theorem discover_stages_once_witness:
  "jsonb_keeps Some \<and> listing (dc_List demo_discovery) [] [demo_item, demo_item]
   \<and> list_all (\<lambda>item. valid_reference (sn_FileReference item)) [demo_item, demo_item]
   \<and> (\<exists>r d new. Discover Some demo_discovery ''src'' (empty_database [DefaultLibraryID]) = Some (r, d)
        \<and> import_candidates d = new \<and> staged ''src'' ''emma.epub'' d \<le> 1)"
proof -
  have k: "jsonb_keeps Some" by (simp add: jsonb_keeps_def)
  have v: "\<forall>item \<in> set [demo_item, demo_item]. valid_reference (sn_FileReference item)"
    by (simp add: demo_item_def valid_reference_def valid_utf8_ascii)
  have "staged ''src'' x (empty_database [DefaultLibraryID]) = 0" for x
    by (simp add: staged_def empty_database_def)
  then show ?thesis
    using k v demo_listing discover_stages_once [OF k demo_listing v, of "''src''" "empty_database [DefaultLibraryID]"]
    by (auto simp: empty_database_def)
qed

end
