(* ===== verification/Http_Reply.thy ===== *)
theory Http_Reply
  imports Domain_Error
begin

text \<open>
  What a handler of \<open>internal/transport/http\<close> answers: an error, with the category that fixes the status
  code, or the value that is encoded.
\<close>

section \<open>Answers\<close>

text \<open>
  \<open>RError\<close> is \<open>WriteError\<close> with a fixed message, \<open>RText\<close> the same with \<open>err.Error()\<close> as its message,
  \<open>RDomain\<close> is \<open>writeDomainError\<close>, \<open>RStatus\<close> an error with a status the categories do not have
  (\<open>writeForbidden\<close> and the like) and \<open>ROk\<close> a success with its status code.
\<close>

datatype 'a reply =
    RError category message
  | RText category go_error
  | RDomain go_error
  | RStatus nat string
  | ROk nat 'a

definition refuse :: "category \<Rightarrow> string \<Rightarrow> 'a reply" where
  "refuse c m = RError c (Msg m [])"

fun refused :: "'a reply \<Rightarrow> bool" where
  "refused (ROk n a) = False"
| "refused r = True"

lemma refused_refuse [simp]: "refused (refuse c m)"
  by (simp add: refuse_def)

end
