(* ===== verification/Import_Handlers.thy ===== *)
theory Import_Handlers
  imports Import_Safety Import_Discovery Auth_Middleware Http_Reply
begin

text \<open>
  \<open>transport/http/import.go\<close>: the endpoints of the import pipeline.  A request comes with its context
  and its body already decoded; \<open>None\<close> is a body that does not decode.  An answer is an error, with the
  category that fixes the status, or the value that is encoded.
\<close>

section \<open>Candidates on the wire\<close>

record FileRefWireDTO =
  fw_ID :: string
  fw_Format :: string
  fw_SizeBytes :: "int option"

record ImportCandidateWireDTO =
  iw_ID :: string
  iw_SourceID :: string
  iw_FileReference :: FileRefWireDTO
  iw_Status :: string
  iw_ExtractedMetadata :: "string option"
  iw_MatchCandidates :: "string option"
  iw_JobID :: "string option"
  iw_LastError :: "string option"
  iw_CreatedAt :: string
  iw_UpdatedAt :: string

text \<open>\<open>tfmt\<close> is the text of an instant in \<open>time.RFC3339Nano\<close>.\<close>

definition toCandidateWireDTO :: "(instant \<Rightarrow> string) \<Rightarrow> ImportCandidateRecord \<Rightarrow> ImportCandidateWireDTO" where
  "toCandidateWireDTO tfmt c =
     \<lparr> iw_ID = ca_ID c, iw_SourceID = ca_SourceID c,
       iw_FileReference = \<lparr> fw_ID = fr_ReferenceID (ca_FileReference c), fw_Format = fr_Format (ca_FileReference c),
         fw_SizeBytes = fr_SizeBytes (ca_FileReference c) \<rparr>,
       iw_Status = ca_Status c,
       iw_ExtractedMetadata = nilIfEmpty (ca_ExtractedMetadata c),
       iw_MatchCandidates = nilIfEmpty (ca_MatchCandidates c),
       iw_JobID = ca_JobID c, iw_LastError = ca_LastError c,
       iw_CreatedAt = tfmt (ca_CreatedAt c), iw_UpdatedAt = tfmt (ca_UpdatedAt c) \<rparr>"

section \<open>Discovery and listing\<close>

text \<open>\<open>None\<close> when discovery never returns.\<close>

definition ImportDiscoverHandler ::
  "jsonb \<Rightarrow> 'h discovery \<Rightarrow> string option \<Rightarrow> database \<Rightarrow> (DiscoverResult reply \<times> database) option" where
  "ImportDiscoverHandler jsonb D body db =
     (case body of
        None \<Rightarrow> Some (refuse InvalidInput ''malformed request body'', db)
      | Some raw \<Rightarrow>
         (let sourceID = TrimSpace raw in
          if sourceID = [] then Some (refuse InvalidInput ''sourceId is required'', db)
          else map_option (\<lambda>(r, d).
            case r of
              Inr res \<Rightarrow> (ROk 202 res, d)
            | Inl err \<Rightarrow>
               (if CategoryOf err = NotFound then (refuse NotFound ''source not found'', d)
                else if CategoryOf err = InvalidInput then (RText InvalidInput err, d)
                else (refuse Internal ''could not start discovery for that source'', d)))
            (Discover jsonb D sourceID db)))"

definition ImportCandidatesListHandler ::
  "(string \<Rightarrow> 'k :: linorder) \<Rightarrow> (instant \<Rightarrow> string) \<Rightarrow> req_context \<Rightarrow> string \<Rightarrow> string \<Rightarrow> database
   \<Rightarrow> ImportCandidateWireDTO list reply" where
  "ImportCandidatesListHandler ck tfmt c sourceIDParam statusParam db =
     (let st = TrimSpace statusParam in
      if st \<noteq> [] \<and> \<not> ValidImportCandidateStatus st then
        RError InvalidInput (Msg ''invalid status filter %q'' [AStr st])
      else (case ListInLibrary ck db (ActiveLibraryFromContext c) (nilIfEmpty (TrimSpace sourceIDParam)) (nilIfEmpty st) of
              Inl err \<Rightarrow> RDomain err
            | Inr cands \<Rightarrow> ROk 200 (map (toCandidateWireDTO tfmt) cands)))"

section \<open>Confirming\<close>

record ExtractedMetaBody =
  mb_Title :: string
  mb_Authors :: "string list"
  mb_ISBN :: "string option"
  mb_Language :: "string option"
  mb_Publisher :: "string option"
  mb_Description :: "string option"

record ImportConfirmRequestBody =
  cb_Action :: string
  cb_EditionID :: "string option"
  cb_OpenLibraryWorkKey :: "string option"
  cb_Metadata :: "ExtractedMetaBody option"

text \<open>
  Decoding stored metadata with the error ignored: a text that is no JSON object leaves the zero value,
  a member of the wrong type leaves its field, and an element of the wrong type is the empty name.
\<close>

definition lenient_names :: "json \<Rightarrow> ExtractedMetadata \<Rightarrow> ExtractedMetadata option" where
  "lenient_names v m =
     (case v of
        JNull \<Rightarrow> Some (m\<lparr>xm_Authors := []\<rparr>)
      | JArr vs \<Rightarrow> Some (m\<lparr>xm_Authors := map (\<lambda>x. case x of JStr s \<Rightarrow> s | _ \<Rightarrow> []) vs\<rparr>)
      | _ \<Rightarrow> None)"

fun lenient_members :: "'c field list \<Rightarrow> (string \<times> json) list \<Rightarrow> 'c \<Rightarrow> 'c" where
  "lenient_members fs [] c = c"
| "lenient_members fs (m # ms) c =
     lenient_members fs ms (case decode_members fs [m] c of Some c' \<Rightarrow> c' | None \<Rightarrow> c)"

definition stored_metadata :: "string \<Rightarrow> ExtractedMetadata" where
  "stored_metadata raw =
     (case parse_json raw of
        Some (JObj ms) \<Rightarrow>
          lenient_members (map (\<lambda>(n, f). if n = ''authors'' then (n, lenient_names) else (n, f)) metadata_fields)
            ms zero_metadata
      | _ \<Rightarrow> zero_metadata)"

text \<open>The metadata of \<open>create_new\<close>: the override of the request, else what was extracted.\<close>

definition new_metadata ::
  "ExtractedMetaBody option \<Rightarrow> ImportCandidateRecord \<Rightarrow> 'a reply + ExtractedMetadata" where
  "new_metadata override cand =
     (case override of
        Some b \<Rightarrow>
         (case NewExtractedMetadata (mb_Title b) (mb_Authors b) (mb_ISBN b) (mb_Language b) (mb_Publisher b)
                 (mb_Description b) [] (fr_Format (ca_FileReference cand)) of
            Inl err \<Rightarrow> Inl (RText InvalidInput (Wrapf (Msg ''invalid metadata override: %v'' []) err))
          | Inr m \<Rightarrow> Inr m)
      | None \<Rightarrow>
         (if ca_ExtractedMetadata cand \<noteq> [] then
            (case Unmarshal metadata_fields zero_metadata (ca_ExtractedMetadata cand) of
               None \<Rightarrow> Inl (refuse Internal ''failed to parse candidate extracted metadata'')
             | Some m \<Rightarrow> Inr m)
          else Inl (refuse InvalidInput ''candidate has no extracted metadata to create work'')))"

text \<open>A pointer to a string that holds more than white space.\<close>

definition given :: "string option \<Rightarrow> string option" where
  "given p = (case p of None \<Rightarrow> None | Some s \<Rightarrow> nilIfEmpty (TrimSpace s))"

text \<open>
  What the request asks for: the decision of the service, or the answer that refuses it.  \<open>GetWork\<close> is the
  Open Library client, \<open>None\<close> when the work cannot be fetched.
\<close>

definition requested_decision ::
  "(string \<Rightarrow> DiscoverWorkDetail option) \<Rightarrow> req_context \<Rightarrow> string \<Rightarrow> ImportConfirmRequestBody \<Rightarrow> database
   \<Rightarrow> 'a reply + decision" where
  "requested_decision GetWork c candidateID body db =
     (if cb_Action body = ''attach_existing'' then
        (case given (cb_EditionID body) of
           None \<Rightarrow> Inl (refuse InvalidInput ''editionId is required for attach_existing'')
         | Some e \<Rightarrow> Inr (AttachExisting e))
      else if cb_Action body = ''use_open_library_match'' then
        (case given (cb_OpenLibraryWorkKey body) of
           None \<Rightarrow> Inl (refuse InvalidInput ''openLibraryWorkKey is required for use_open_library_match'')
         | Some workKey \<Rightarrow>
            (case GetInLibrary db (ActiveLibraryFromContext c) candidateID of
               Inl err \<Rightarrow> Inl (RDomain err)
             | Inr cand \<Rightarrow>
                 Inr (UseOpenLibrary workKey (stored_metadata (ca_ExtractedMetadata cand)) (GetWork workKey))))
      else if cb_Action body = ''create_new'' then
        (case GetInLibrary db (ActiveLibraryFromContext c) candidateID of
           Inl err \<Rightarrow> Inl (RDomain err)
         | Inr cand \<Rightarrow>
            (case new_metadata (cb_Metadata body) cand of Inl r \<Rightarrow> Inl r | Inr meta \<Rightarrow> Inr (CreateNew meta)))
      else Inl (RError InvalidInput (Msg ''unknown action %q'' [AStr (cb_Action body)])))"

text \<open>The end of both handlers: the decision is carried out and the candidate read back.\<close>

definition carry_out ::
  "(instant \<Rightarrow> string) \<Rightarrow> (nat \<Rightarrow> string) \<Rightarrow> instant \<Rightarrow> req_context \<Rightarrow> string \<Rightarrow> decision \<Rightarrow> database
   \<Rightarrow> ImportCandidateWireDTO reply \<times> database" where
  "carry_out tfmt ids now c candidateID dec db =
     (case decide ids candidateID dec now db of
        (Some err, d) \<Rightarrow> (RDomain err, d)
      | (None, d) \<Rightarrow>
         (case GetInLibrary d (ActiveLibraryFromContext c) candidateID of
            Inl err \<Rightarrow> (RDomain err, d)
          | Inr updated \<Rightarrow> (ROk 200 (toCandidateWireDTO tfmt updated), d)))"

definition ImportCandidateConfirmHandler ::
  "(instant \<Rightarrow> string) \<Rightarrow> (string \<Rightarrow> DiscoverWorkDetail option) \<Rightarrow> (nat \<Rightarrow> string) \<Rightarrow> instant \<Rightarrow> req_context \<Rightarrow> string
   \<Rightarrow> ImportConfirmRequestBody option \<Rightarrow> database \<Rightarrow> ImportCandidateWireDTO reply \<times> database" where
  "ImportCandidateConfirmHandler tfmt GetWork ids now c candidateID body db =
     (if candidateID = [] then (refuse InvalidInput ''candidate id is required'', db)
      else (case GetInLibrary db (ActiveLibraryFromContext c) candidateID of
        Inl err \<Rightarrow> (RDomain err, db)
      | Inr _ \<Rightarrow>
         (case body of
            None \<Rightarrow> (refuse InvalidInput ''malformed request body'', db)
          | Some b \<Rightarrow>
             (case requested_decision GetWork c candidateID b db of
                Inl r \<Rightarrow> (r, db)
              | Inr dec \<Rightarrow> carry_out tfmt ids now c candidateID dec db))))"

definition ImportCandidateRejectHandler ::
  "(instant \<Rightarrow> string) \<Rightarrow> (nat \<Rightarrow> string) \<Rightarrow> instant \<Rightarrow> req_context \<Rightarrow> string \<Rightarrow> database
   \<Rightarrow> ImportCandidateWireDTO reply \<times> database" where
  "ImportCandidateRejectHandler tfmt ids now c candidateID db =
     (if candidateID = [] then (refuse InvalidInput ''candidate id is required'', db)
      else (case GetInLibrary db (ActiveLibraryFromContext c) candidateID of
        Inl err \<Rightarrow> (RDomain err, db)
      | Inr _ \<Rightarrow> carry_out tfmt ids now c candidateID RejectIt db))"

section \<open>Covers\<close>

text \<open>
  The part of \<open>http.DetectContentType\<close> the handler tells apart: the signatures of the four raster formats
  it serves.  Every other signature gives a type it refuses.
\<close>

definition bytes :: "nat list \<Rightarrow> string" where
  "bytes ns = map char_of ns"

definition raster_type :: "string \<Rightarrow> string option" where
  "raster_type d =
     (if prefix ''GIF87a'' d \<or> prefix ''GIF89a'' d then Some ''image/gif''
      else if prefix (bytes [137, 80, 78, 71, 13, 10, 26, 10]) d then Some ''image/png''
      else if prefix (bytes [255, 216, 255]) d then Some ''image/jpeg''
      else if prefix ''RIFF'' d \<and> prefix ''WEBPVP'' (drop 8 d) then Some ''image/webp''
      else None)"

definition cover_bytes_field :: "string \<Rightarrow> string option" where
  "cover_bytes_field raw = Unmarshal [(''coverBytes'', bytes_field (\<lambda>s _. s))] [] raw"

definition cover_text_field :: "string \<Rightarrow> string option" where
  "cover_text_field raw = Unmarshal [(''coverBytes'', str_field (\<lambda>s _. s))] [] raw"

text \<open>A data URL loses everything up to its first comma.\<close>

definition strip_data_url :: "string \<Rightarrow> string" where
  "strip_data_url s =
     (if CHR '','' \<in> set s \<and> HasPrefix s ''data:'' then tl (dropWhile (\<lambda>ch. ch \<noteq> CHR '','') s) else s)"

definition cover_data :: "string \<Rightarrow> string" where
  "cover_data raw =
     (case cover_bytes_field raw of
        Some (b # bs) \<Rightarrow> b # bs
      | _ \<Rightarrow>
         (case cover_text_field raw of
            Some (x # xs) \<Rightarrow> orEmpty (pad_DecodeString (strip_data_url (TrimSpace (x # xs))))
          | _ \<Rightarrow> []))"

definition ImportCandidateCoverHandler ::
  "req_context \<Rightarrow> string \<Rightarrow> database \<Rightarrow> (string \<times> string) reply" where
  "ImportCandidateCoverHandler c candidateID db =
     (if candidateID = [] then refuse InvalidInput ''candidate id is required''
      else (case GetInLibrary db (ActiveLibraryFromContext c) candidateID of
        Inl err \<Rightarrow> RDomain err
      | Inr cand \<Rightarrow>
         (if ca_ExtractedMetadata cand = [] then refuse NotFound ''cover not found''
          else let d = cover_data (ca_ExtractedMetadata cand) in
            if d = [] then refuse NotFound ''cover not found''
            else (case raster_type d of
                    None \<Rightarrow> refuse NotFound ''cover not found''
                  | Some base \<Rightarrow> ROk 200 (base, d)))))"

section \<open>Scope\<close>

lemma query_rows_mem:
  assumes "query_rows P key scan table db = Inr xs" "x \<in> set xs"
  obtains r where "r \<in> set (table db)" "P r" "scan r = Inr x"
proof -
  have "list_all2 (\<lambda>r y. scan r = Inr y) (sort_key key (filter P (table db))) xs"
    using assms(1) by (auto simp: query_rows_def mapR_Inr_iff split: if_splits)
  then obtain r where "r \<in> set (sort_key key (filter P (table db)))" "scan r = Inr x"
    using assms(2) by (induction rule: list_all2_induct) auto
  then show ?thesis using that by auto
qed

lemma GetInLibrary_foreign:
  assumes "list_all (\<lambda>r. ic_id r \<noteq> i) (candidates_in lib db)"
  obtains e where "GetInLibrary db lib i = Inl e"
proof (cases "GetInLibrary db lib i")
  case (Inr cand)
  then show ?thesis
    using assms unfolding GetInLibrary_def by (elim query_row_ok) (auto simp: list_all_iff)
qed (use that in blast)

text \<open>
  A candidate whose source belongs to another library cannot be decided or looked at: the requests
  fail and change nothing, and the list does not show it.
\<close>

theorem import_requests_are_scoped:
  assumes "list_all (\<lambda>r. ic_id r \<noteq> i) (candidates_in (ActiveLibraryFromContext c) db)"
  shows "\<exists>r. ImportCandidateConfirmHandler tfmt GetWork ids now c i body db = (r, db) \<and> refused r"
    "\<exists>r. ImportCandidateRejectHandler tfmt ids now c i db = (r, db) \<and> refused r"
    "refused (ImportCandidateCoverHandler c i db)"
    "ImportCandidatesListHandler ck tfmt c src st db = ROk n dtos \<Longrightarrow> list_all (\<lambda>dto. iw_ID dto \<noteq> i) dtos"
proof -
  obtain e where e: "GetInLibrary db (ActiveLibraryFromContext c) i = Inl e" by (rule GetInLibrary_foreign [OF assms])
  show "\<exists>r. ImportCandidateConfirmHandler tfmt GetWork ids now c i body db = (r, db) \<and> refused r"
    "\<exists>r. ImportCandidateRejectHandler tfmt ids now c i db = (r, db) \<and> refused r"
    "refused (ImportCandidateCoverHandler c i db)"
    by (simp_all add: ImportCandidateConfirmHandler_def ImportCandidateRejectHandler_def
        ImportCandidateCoverHandler_def e refuse_def)
  show "list_all (\<lambda>dto. iw_ID dto \<noteq> i) dtos" if shown: "ImportCandidatesListHandler ck tfmt c src st db = ROk n dtos"
  proof -
    obtain cands where l: "ListInLibrary ck db (ActiveLibraryFromContext c) (nilIfEmpty (TrimSpace src))
        (nilIfEmpty (TrimSpace st)) = Inr cands" "dtos = map (toCandidateWireDTO tfmt) cands"
      using shown by (auto simp: ImportCandidatesListHandler_def Let_def split: if_splits sum.splits)
    have "ca_ID cand \<noteq> i" if mem: "cand \<in> set cands" for cand
    proof -
      obtain r where "r \<in> set (candidates_in (ActiveLibraryFromContext c) db)" "scanImportCandidate r = Inr cand"
        using l(1) mem unfolding ListInLibrary_def by (rule query_rows_mem)
      then show ?thesis using assms by (auto simp: list_all_iff scanImportCandidate_def split: sum.splits)
    qed
    then show ?thesis by (auto simp: l(2) list_all_iff toCandidateWireDTO_def)
  qed
qed

end
