(* ===== verification/Postgres_Annotations.thy ===== *)
theory Postgres_Annotations
  imports Postgres_Reading Postgres_Pairing Import_Candidates "HOL-Library.List_Lexorder" "HOL-Library.Char_ord"
begin

text \<open>
  \<open>bookmark_repository.go\<close>, \<open>highlight_repository.go\<close> and \<open>reading_preferences_repository.go\<close> of
  \<open>internal/persistence/postgres\<close>: the marks a reader makes, per user and library, and the display
  settings of each device.  Every written mark gets a stamp from the sequence behind synchronisation.
\<close>

section \<open>Bookmarks\<close>

definition bookmark_of :: "bookmark_row \<Rightarrow> Bookmark" where
  "bookmark_of r = NewBookmark (bk_id r) (bk_edition_id r) (bk_position r) (bk_label r) (bk_created_at r)"

definition bookmark_FindByID :: "database \<Rightarrow> BookmarkID \<Rightarrow> Bookmark result" where
  "bookmark_FindByID db i =
     query_row ''bookmark not found'' (\<lambda>r. bk_id r = i) (\<lambda>r. Inr (bookmark_of r)) bookmarks db"

definition bookmark_FindByIDAndUser :: "database \<Rightarrow> UserID \<Rightarrow> BookmarkID \<Rightarrow> Bookmark result" where
  "bookmark_FindByIDAndUser db userID i =
     query_row ''bookmark not found'' (\<lambda>r. bk_id r = i \<and> bk_user_id r = owner userID) (\<lambda>r. Inr (bookmark_of r))
       bookmarks db"

definition bookmark_FindByEditionAndUser ::
  "(string \<Rightarrow> 'k :: linorder) \<Rightarrow> database \<Rightarrow> UserID \<Rightarrow> LibraryID \<Rightarrow> EditionID \<Rightarrow> Bookmark list result" where
  "bookmark_FindByEditionAndUser ck db userID libraryID editionID =
     query_rows (\<lambda>r. bk_edition_id r = editionID \<and> bk_user_id r = owner userID \<and> bk_library_id r = owner libraryID)
       (\<lambda>r. (bk_created_at r, ck (bk_id r))) (\<lambda>r. Inr (bookmark_of r)) bookmarks db"

definition bookmark_FindByEdition ::
  "(string \<Rightarrow> 'k :: linorder) \<Rightarrow> database \<Rightarrow> EditionID \<Rightarrow> Bookmark list result" where
  "bookmark_FindByEdition ck db editionID = bookmark_FindByEditionAndUser ck db [] [] editionID"

text \<open>The references of a mark.\<close>

definition mark_refers :: "database \<Rightarrow> EditionID \<Rightarrow> LibraryID option \<Rightarrow> bool" where
  "mark_refers db ed lib \<longleftrightarrow> ed \<in> edition_ids db \<and> (case lib of None \<Rightarrow> True | Some l \<Rightarrow> l \<in> library_ids db)"

text \<open>On a conflict every column but \<open>created_at\<close> is taken from the new row.\<close>

definition upsert_bookmark :: "bookmark_row \<Rightarrow> statement" where
  "upsert_bookmark r db =
     (if \<not> mark_refers db (bk_edition_id r) (bk_library_id r) then Inl foreign_key_violation
      else (case row_by bk_id (bk_id r) (bookmarks db) of
              None \<Rightarrow>
                Inr (db\<lparr>bookmarks := bookmarks db @ [r\<lparr>bk_sync_sequence := upsert_stamp False db\<rparr>],
                       sync_seq := upsert_stamp False db\<rparr>, 1)
            | Some old \<Rightarrow>
                Inr (db\<lparr>bookmarks := upsert_by bk_id (r\<lparr>bk_created_at := bk_created_at old,
                         bk_sync_sequence := upsert_stamp True db\<rparr>) (bookmarks db),
                       sync_seq := upsert_stamp True db\<rparr>, 1)))"

definition bookmark_row_of :: "UserID \<Rightarrow> LibraryID \<Rightarrow> Bookmark \<Rightarrow> bookmark_row" where
  "bookmark_row_of userID libraryID b =
     \<lparr> bk_id = bm_id b, bk_edition_id = bm_editionID b, bk_user_id = owner userID, bk_library_id = owner libraryID,
       bk_position = bm_position b, bk_label = bm_label b, bk_created_at = timestamptz (bm_createdAt b),
       bk_sync_sequence = 0 \<rparr>"

definition bookmark_SaveForUser :: "UserID \<Rightarrow> LibraryID \<Rightarrow> Bookmark \<Rightarrow> database command" where
  "bookmark_SaveForUser userID libraryID b db = exec_one (upsert_bookmark (bookmark_row_of userID libraryID b)) db"

definition bookmark_Save :: "Bookmark \<Rightarrow> database command" where
  "bookmark_Save b db = bookmark_SaveForUser [] [] b db"

definition delete_bookmarks :: "(bookmark_row \<Rightarrow> bool) \<Rightarrow> statement" where
  "delete_bookmarks P db =
     Inr (db\<lparr>bookmarks := delete_where P (bookmarks db)\<rparr>, length (filter P (bookmarks db)))"

definition bookmark_Delete :: "BookmarkID \<Rightarrow> database command" where
  "bookmark_Delete i db = exec_one (delete_bookmarks (\<lambda>r. bk_id r = i)) db"

definition bookmark_DeleteAndUser :: "UserID \<Rightarrow> BookmarkID \<Rightarrow> database command" where
  "bookmark_DeleteAndUser userID i db =
     exec_found (derr NotFound ''bookmark not found'')
       (delete_bookmarks (\<lambda>r. bk_id r = i \<and> bk_user_id r = owner userID)) db"

section \<open>Highlights\<close>

definition highlight_of :: "highlight_row \<Rightarrow> Highlight" where
  "highlight_of r =
     NewHighlight (hg_id r) (hg_edition_id r) (hg_start_position r) (hg_end_position r) (hg_note r) (hg_category r)
       (hg_created_at r)"

definition highlight_FindByID :: "database \<Rightarrow> HighlightID \<Rightarrow> Highlight result" where
  "highlight_FindByID db i =
     query_row ''highlight not found'' (\<lambda>r. hg_id r = i) (\<lambda>r. Inr (highlight_of r)) highlights db"

definition highlight_FindByIDAndUser :: "database \<Rightarrow> UserID \<Rightarrow> HighlightID \<Rightarrow> Highlight result" where
  "highlight_FindByIDAndUser db userID i =
     query_row ''highlight not found'' (\<lambda>r. hg_id r = i \<and> hg_user_id r = owner userID) (\<lambda>r. Inr (highlight_of r))
       highlights db"

definition highlight_FindByEditionAndUser ::
  "(string \<Rightarrow> 'k :: linorder) \<Rightarrow> database \<Rightarrow> UserID \<Rightarrow> LibraryID \<Rightarrow> EditionID \<Rightarrow> Highlight list result" where
  "highlight_FindByEditionAndUser ck db userID libraryID editionID =
     query_rows (\<lambda>r. hg_edition_id r = editionID \<and> hg_user_id r = owner userID \<and> hg_library_id r = owner libraryID)
       (\<lambda>r. (hg_created_at r, ck (hg_id r))) (\<lambda>r. Inr (highlight_of r)) highlights db"

definition highlight_FindByEdition ::
  "(string \<Rightarrow> 'k :: linorder) \<Rightarrow> database \<Rightarrow> EditionID \<Rightarrow> Highlight list result" where
  "highlight_FindByEdition ck db editionID = highlight_FindByEditionAndUser ck db [] [] editionID"

definition upsert_highlight :: "highlight_row \<Rightarrow> statement" where
  "upsert_highlight r db =
     (if \<not> mark_refers db (hg_edition_id r) (hg_library_id r) then Inl foreign_key_violation
      else (case row_by hg_id (hg_id r) (highlights db) of
              None \<Rightarrow>
                Inr (db\<lparr>highlights := highlights db @ [r\<lparr>hg_sync_sequence := upsert_stamp False db\<rparr>],
                       sync_seq := upsert_stamp False db\<rparr>, 1)
            | Some old \<Rightarrow>
                Inr (db\<lparr>highlights := upsert_by hg_id (r\<lparr>hg_created_at := hg_created_at old,
                         hg_sync_sequence := upsert_stamp True db\<rparr>) (highlights db),
                       sync_seq := upsert_stamp True db\<rparr>, 1)))"

definition highlight_row_of :: "UserID \<Rightarrow> LibraryID \<Rightarrow> Highlight \<Rightarrow> highlight_row" where
  "highlight_row_of userID libraryID h =
     \<lparr> hg_id = hl_id h, hg_edition_id = hl_editionID h, hg_user_id = owner userID, hg_library_id = owner libraryID,
       hg_start_position = hl_startPosition h, hg_end_position = hl_endPosition h, hg_note = hl_note h,
       hg_category = hl_category h, hg_created_at = timestamptz (hl_createdAt h), hg_sync_sequence = 0 \<rparr>"

definition highlight_SaveForUser :: "UserID \<Rightarrow> LibraryID \<Rightarrow> Highlight \<Rightarrow> database command" where
  "highlight_SaveForUser userID libraryID h db = exec_one (upsert_highlight (highlight_row_of userID libraryID h)) db"

definition highlight_Save :: "Highlight \<Rightarrow> database command" where
  "highlight_Save h db = highlight_SaveForUser [] [] h db"

text \<open>The id is a key, so an update with it in its condition meets at most one row and takes one stamp.\<close>

fun update_first :: "('r \<Rightarrow> bool) \<Rightarrow> ('r \<Rightarrow> 'r) \<Rightarrow> 'r list \<Rightarrow> 'r list" where
  "update_first P f [] = []"
| "update_first P f (x # xs) = (if P x then f x # xs else x # update_first P f xs)"

definition update_highlight :: "(highlight_row \<Rightarrow> bool) \<Rightarrow> (highlight_row \<Rightarrow> highlight_row) \<Rightarrow> statement" where
  "update_highlight P f db =
     (if list_ex P (highlights db) then
        Inr (db\<lparr>highlights := update_first P (\<lambda>r. (f r)\<lparr>hg_sync_sequence := sync_seq db + 1\<rparr>) (highlights db),
               sync_seq := sync_seq db + 1\<rparr>, 1)
      else Inr (db, 0))"

definition UpdateNoteCategoryAndUser :: "UserID \<Rightarrow> HighlightID \<Rightarrow> string \<Rightarrow> string \<Rightarrow> database command" where
  "UpdateNoteCategoryAndUser userID i note categ db =
     exec_found (derr NotFound ''highlight not found'')
       (update_highlight (\<lambda>r. hg_id r = i \<and> hg_user_id r = owner userID)
         (\<lambda>r. r\<lparr>hg_note := note, hg_category := categ\<rparr>)) db"

definition delete_highlights :: "(highlight_row \<Rightarrow> bool) \<Rightarrow> statement" where
  "delete_highlights P db =
     Inr (db\<lparr>highlights := delete_where P (highlights db)\<rparr>, length (filter P (highlights db)))"

definition highlight_Delete :: "HighlightID \<Rightarrow> database command" where
  "highlight_Delete i db = exec_one (delete_highlights (\<lambda>r. hg_id r = i)) db"

definition highlight_DeleteAndUser :: "UserID \<Rightarrow> HighlightID \<Rightarrow> database command" where
  "highlight_DeleteAndUser userID i db =
     exec_found (derr NotFound ''highlight not found'')
       (delete_highlights (\<lambda>r. hg_id r = i \<and> hg_user_id r = owner userID)) db"

section \<open>Preferences\<close>

text \<open>\<open>json.Marshal\<close> of a map writes its keys in order; \<open>json.Unmarshal\<close> takes strings and \<open>null\<close>.\<close>

definition settings_json :: "(string \<times> string) list \<Rightarrow> string" where
  "settings_json m = print_json (JObj (map (\<lambda>(k, v). (k, JStr v)) (sort_key fst m)))"

fun decode_settings :: "(string \<times> json) list \<Rightarrow> (string \<times> string) list \<Rightarrow> (string \<times> string) list option" where
  "decode_settings [] m = Some m"
| "decode_settings ((k, JStr s) # ms) m = decode_settings ms (map_set k s m)"
| "decode_settings ((k, JNull) # ms) m = decode_settings ms (map_set k [] m)"
| "decode_settings (_ # ms) m = None"

definition read_settings :: "string \<Rightarrow> (string \<times> string) list option" where
  "read_settings raw =
     (case parse_json raw of Some (JObj ms) \<Rightarrow> decode_settings ms [] | Some JNull \<Rightarrow> Some [] | _ \<Rightarrow> None)"

definition preferences_FindByUserAndDevice :: "database \<Rightarrow> UserID \<Rightarrow> DeviceID \<Rightarrow> ReadingPreferences result" where
  "preferences_FindByUserAndDevice db userID deviceID =
     query_row ''reading preferences not found'' (\<lambda>r. rx_device_id r = deviceID \<and> rx_user_id r = userID)
       (\<lambda>r. case read_settings (rx_settings r) of
              None \<Rightarrow> Inl (TranslateError (ErrorsNew ''json''))
            | Some settings \<Rightarrow>
                Inr (foldl (\<lambda>p (k, v). SetPreference p k v) (NewReadingPreferences deviceID) settings))
       reading_preferences db"

definition preferences_FindByDevice :: "database \<Rightarrow> DeviceID \<Rightarrow> ReadingPreferences result" where
  "preferences_FindByDevice db deviceID = preferences_FindByUserAndDevice db [] deviceID"

definition upsert_preferences :: "preferences_row \<Rightarrow> statement" where
  "upsert_preferences r db =
     Inr (db\<lparr>reading_preferences := upsert_by (\<lambda>x. (rx_user_id x, rx_device_id x)) r (reading_preferences db)\<rparr>, 1)"

definition preferences_SaveForUser :: "jsonb \<Rightarrow> UserID \<Rightarrow> ReadingPreferences \<Rightarrow> database command" where
  "preferences_SaveForUser jsonb userID p db =
     exec_one (\<lambda>db. case jsonb (settings_json (rp_settings p)) of
                 None \<Rightarrow> Inl invalid_text_representation
               | Some t \<Rightarrow> upsert_preferences
                   \<lparr> rx_user_id = userID, rx_device_id = ReadingPreferences.rp_deviceID p, rx_settings = t \<rparr> db) db"

definition preferences_Save :: "jsonb \<Rightarrow> ReadingPreferences \<Rightarrow> database command" where
  "preferences_Save jsonb p db = preferences_SaveForUser jsonb [] p db"

end
