(* ===== verification/Reading_Sync.thy ===== *)
theory Reading_Sync
  imports Postgres_Annotations
begin

text \<open>
  \<open>reading_sync_repository.go\<close> and \<open>reading_export_repository.go\<close> of \<open>internal/persistence/postgres\<close>:
  the changes a device has not seen yet, and the bulk read of a user's reading data.

  \<open>released s\<close> stands for the low-water gate of the three queries: whether the row with stamp \<open>s\<close> was
  written by a transaction older than every one in flight when the snapshot was taken.
\<close>

section \<open>Deltas\<close>

record SyncProgressItem =
  si_WorkID :: WorkID
  si_Percentage :: float64
  si_Epoch :: int
  si_PrecisePosition :: "PrecisePosition option"
  si_DeviceID :: DeviceID
  si_ObservedAt :: instant
  si_SyncSequence :: int

record SyncBookmarkItem =
  sb_ID :: string
  sb_EditionID :: string
  sb_Position :: string
  sb_Label :: string
  sb_CreatedAt :: instant
  sb_SyncSequence :: int

record SyncHighlightItem =
  sh_ID :: string
  sh_EditionID :: string
  sh_StartPosition :: string
  sh_EndPosition :: string
  sh_Note :: string
  sh_Category :: string
  sh_CreatedAt :: instant
  sh_SyncSequence :: int

record ReadingSyncData =
  sd_Cursor :: int
  sd_Progress :: "SyncProgressItem list"
  sd_Bookmarks :: "SyncBookmarkItem list"
  sd_Highlights :: "SyncHighlightItem list"

definition syncDeltaLimit :: nat where
  "syncDeltaLimit = 500"

definition progress_item :: "progress_row \<Rightarrow> SyncProgressItem" where
  "progress_item r =
     \<lparr> si_WorkID = pr_work_id r, si_Percentage = pr_percentage r, si_Epoch = pr_epoch r,
       si_PrecisePosition = position_of r, si_DeviceID = pr_device_id r, si_ObservedAt = pr_observed_at r,
       si_SyncSequence = pr_sync_sequence r \<rparr>"

definition bookmark_item :: "bookmark_row \<Rightarrow> SyncBookmarkItem" where
  "bookmark_item r =
     \<lparr> sb_ID = bk_id r, sb_EditionID = bk_edition_id r, sb_Position = bk_position r, sb_Label = bk_label r,
       sb_CreatedAt = bk_created_at r, sb_SyncSequence = bk_sync_sequence r \<rparr>"

definition highlight_item :: "highlight_row \<Rightarrow> SyncHighlightItem" where
  "highlight_item r =
     \<lparr> sh_ID = hg_id r, sh_EditionID = hg_edition_id r, sh_StartPosition = hg_start_position r,
       sh_EndPosition = hg_end_position r, sh_Note = hg_note r, sh_Category = hg_category r,
       sh_CreatedAt = hg_created_at r, sh_SyncSequence = hg_sync_sequence r \<rparr>"

text \<open>
  One of the three queries: the rows of the user and library past the cursor and through the gate, in
  the order of their stamps, at most the limit of them.
\<close>

definition delta ::
  "('r \<Rightarrow> UserID option) \<Rightarrow> ('r \<Rightarrow> LibraryID option) \<Rightarrow> ('r \<Rightarrow> int) \<Rightarrow> (int \<Rightarrow> bool) \<Rightarrow> UserID \<Rightarrow> LibraryID \<Rightarrow> int
   \<Rightarrow> 'r list \<Rightarrow> 'r list" where
  "delta user library stamp released userID libraryID since rows =
     take syncDeltaLimit (sort_key stamp (filter (\<lambda>r. user r = Some userID \<and> library r = Some libraryID
       \<and> since < stamp r \<and> released (stamp r)) rows))"

definition progress_delta where
  "progress_delta released u l since db = delta pr_user_id pr_library_id pr_sync_sequence released u l since (reading_progress db)"

definition bookmark_delta where
  "bookmark_delta released u l since db = delta bk_user_id bk_library_id bk_sync_sequence released u l since (bookmarks db)"

definition highlight_delta where
  "highlight_delta released u l since db = delta hg_user_id hg_library_id hg_sync_sequence released u l since (highlights db)"

text \<open>The highest stamp delivered, and the boundary of a query that hit the limit.\<close>

definition high_mark :: "int \<Rightarrow> int list \<Rightarrow> int" where
  "high_mark since stamps = foldl (\<lambda>m s. if s > m then s else m) since stamps"

definition cap_cursor :: "int list \<Rightarrow> int \<Rightarrow> int" where
  "cap_cursor stamps cursor = (if length stamps = syncDeltaLimit then min cursor (last stamps) else cursor)"

definition GetReadingSyncData ::
  "(int \<Rightarrow> bool) \<Rightarrow> database \<Rightarrow> UserID \<Rightarrow> LibraryID \<Rightarrow> int \<Rightarrow> ReadingSyncData result" where
  "GetReadingSyncData released db userID libraryID since =
     (if \<not> connected db then Inl (TranslateError ErrClosed)
      else let ps = progress_delta released userID libraryID since db;
               bs = bookmark_delta released userID libraryID since db;
               hs = highlight_delta released userID libraryID since db;
               maxSeq = high_mark (high_mark (high_mark since (map pr_sync_sequence ps))
                          (map bk_sync_sequence bs)) (map hg_sync_sequence hs) in
        Inr \<lparr> sd_Cursor = cap_cursor (map hg_sync_sequence hs) (cap_cursor (map bk_sync_sequence bs)
                (cap_cursor (map pr_sync_sequence ps) maxSeq)),
              sd_Progress = map progress_item ps, sd_Bookmarks = map bookmark_item bs,
              sd_Highlights = map highlight_item hs \<rparr>)"

definition GetProgressSyncSequence :: "database \<Rightarrow> string \<Rightarrow> int result" where
  "GetProgressSyncSequence db i =
     query_row ''reading progress not found'' (\<lambda>r. pr_id r = i) (\<lambda>r. Inr (pr_sync_sequence r)) reading_progress db"

text \<open>The query names \<open>reading_bookmarks\<close> and \<open>reading_highlights\<close>, and no migration makes such tables.\<close>

definition undefined_table :: string where
  "undefined_table = ''42P01''"

definition GetSyncSequenceCeiling :: "database \<Rightarrow> int result" where
  "GetSyncSequenceCeiling db =
     (if \<not> connected db then Inl (TranslateError ErrClosed) else Inl (TranslateError (PgError undefined_table)))"

section \<open>Export\<close>

record ExportProgress =
  xp_WorkID :: string
  xp_Percentage :: float64
  xp_Epoch :: int
  xp_PrecisePosEdID :: "string option"
  xp_PrecisePosCFI :: "string option"
  xp_ObservedAt :: instant

record ExportMark =
  em_ID :: string
  em_EditionID :: string
  em_Kind :: string
  em_StartCFI :: string
  em_EndCFI :: string
  em_Label :: string
  em_Note :: string
  em_Category :: string
  em_CreatedAt :: instant

definition export_progress :: "progress_row \<Rightarrow> ExportProgress" where
  "export_progress r =
     \<lparr> xp_WorkID = pr_work_id r, xp_Percentage = pr_percentage r, xp_Epoch = pr_epoch r,
       xp_PrecisePosEdID = pr_position_edition_id r, xp_PrecisePosCFI = pr_position_value r,
       xp_ObservedAt = pr_observed_at r \<rparr>"

definition ListProgress ::
  "(string \<Rightarrow> 'k :: linorder) \<Rightarrow> database \<Rightarrow> UserID \<Rightarrow> LibraryID \<Rightarrow> string \<Rightarrow> ExportProgress list result" where
  "ListProgress ck db userID libraryID workID =
     query_rows (\<lambda>r. pr_user_id r = owner userID \<and> pr_library_id r = owner libraryID
         \<and> (workID = [] \<or> pr_work_id r = workID))
       (\<lambda>r. ck (pr_work_id r)) (\<lambda>r. Inr (export_progress r)) reading_progress db"

definition edition_of_work :: "database \<Rightarrow> string \<Rightarrow> EditionID \<Rightarrow> bool" where
  "edition_of_work db workID ed \<longleftrightarrow>
     workID = [] \<or> list_ex (\<lambda>e. ed_id e = ed \<and> ed_work_id e = workID) (editions db)"

definition bookmark_mark :: "bookmark_row \<Rightarrow> ExportMark" where
  "bookmark_mark r =
     \<lparr> em_ID = bk_id r, em_EditionID = bk_edition_id r, em_Kind = ''bookmark'', em_StartCFI = bk_position r,
       em_EndCFI = [], em_Label = bk_label r, em_Note = [], em_Category = [], em_CreatedAt = bk_created_at r \<rparr>"

definition highlight_mark :: "highlight_row \<Rightarrow> ExportMark" where
  "highlight_mark r =
     \<lparr> em_ID = hg_id r, em_EditionID = hg_edition_id r, em_Kind = ''highlight'', em_StartCFI = hg_start_position r,
       em_EndCFI = hg_end_position r, em_Label = [], em_Note = hg_note r, em_Category = hg_category r,
       em_CreatedAt = hg_created_at r \<rparr>"

definition ListMarks ::
  "(string \<Rightarrow> 'k :: linorder) \<Rightarrow> database \<Rightarrow> UserID \<Rightarrow> LibraryID \<Rightarrow> string \<Rightarrow> ExportMark list result" where
  "ListMarks ck db userID libraryID workID =
     query_rows (\<lambda>_. True) (\<lambda>m. (ck (em_EditionID m), em_CreatedAt m, ck (em_ID m))) Inr
       (\<lambda>db. map bookmark_mark (filter (\<lambda>r. bk_user_id r = owner userID \<and> bk_library_id r = owner libraryID
                \<and> edition_of_work db workID (bk_edition_id r)) (bookmarks db))
           @ map highlight_mark (filter (\<lambda>r. hg_user_id r = owner userID \<and> hg_library_id r = owner libraryID
                \<and> edition_of_work db workID (hg_edition_id r)) (highlights db))) db"

definition WorkExists :: "database \<Rightarrow> string \<Rightarrow> bool result" where
  "WorkExists db workID =
     (if \<not> connected db then Inl (TranslateError ErrClosed) else Inr (workID \<in> work_ids db))"

end
