(* ===== verification/Sync_Safety.thy ===== *)
theory Sync_Safety
  imports Reading_Sync
begin

text \<open>
  Synchronisation of reading data: every write gets a fresh stamp, and a device that follows the
  cursor misses nothing.
\<close>

section \<open>Stamps\<close>

text \<open>The stamps of the three tables are distinct, and the sequence is past all of them.\<close>

definition fresh_above :: "int \<Rightarrow> int list \<Rightarrow> int list \<Rightarrow> int list \<Rightarrow> bool" where
  "fresh_above n ps bs hs \<longleftrightarrow> distinct (ps @ bs @ hs) \<and> (\<forall>s \<in> set (ps @ bs @ hs). s \<le> n)"

definition stamps_ok :: "database \<Rightarrow> bool" where
  "stamps_ok db \<longleftrightarrow> fresh_above (sync_seq db) (map pr_sync_sequence (reading_progress db))
     (map bk_sync_sequence (bookmarks db)) (map hg_sync_sequence (highlights db))"

text \<open>One row of a table gets the stamp \<open>s\<close>, or rows go.\<close>

definition restamped :: "int \<Rightarrow> int list \<Rightarrow> int list \<Rightarrow> bool" where
  "restamped s xs ys \<longleftrightarrow> set ys \<subseteq> insert s (set xs) \<and> (distinct xs \<longrightarrow> s \<notin> set xs \<longrightarrow> distinct ys)"

lemma fresh_above_restamped:
  assumes "fresh_above n ps bs hs" "n < s"
  shows "restamped s ps ps' \<Longrightarrow> fresh_above s ps' bs hs"
    "restamped s bs bs' \<Longrightarrow> fresh_above s ps bs' hs"
    "restamped s hs hs' \<Longrightarrow> fresh_above s ps bs hs'"
proof -
  have "s \<notin> set ps" "s \<notin> set bs" "s \<notin> set hs" "\<forall>x \<in> set (ps @ bs @ hs). x \<le> s"
    using assms unfolding fresh_above_def by force+
  then show "restamped s ps ps' \<Longrightarrow> fresh_above s ps' bs hs"
    "restamped s bs bs' \<Longrightarrow> fresh_above s ps bs' hs"
    "restamped s hs hs' \<Longrightarrow> fresh_above s ps bs hs'"
    using assms(1) by (auto simp: fresh_above_def restamped_def)
qed

lemma fresh_above_filter:
  assumes "fresh_above n (map f ps) (map g bs) (map h hs)"
  shows "fresh_above n (map f (filter P ps)) (map g bs) (map h hs)"
    "fresh_above n (map f ps) (map g (filter Q bs)) (map h hs)"
    "fresh_above n (map f ps) (map g bs) (map h (filter R hs))"
  using assms by (auto simp: fresh_above_def distinct_map_filter)

lemma upsert_by_set: "set (map st (upsert_by key r t)) \<subseteq> insert (st r) (set (map st t))"
  by (induction t) auto

lemma restamped_upsert: "st r = s \<Longrightarrow> restamped s (map st t) (map st (upsert_by key r t))"
  unfolding restamped_def
proof (intro conjI impI)
  assume r: "st r = s"
  show "set (map st (upsert_by key r t)) \<subseteq> insert s (set (map st t))" using upsert_by_set r by metis
  show "distinct (map st (upsert_by key r t))" if "distinct (map st t)" "s \<notin> set (map st t)"
    using that
  proof (induction t)
    case (Cons x t)
    then show ?case using upsert_by_set [of st key r t] r by auto
  qed simp
qed

lemma update_first_set: "(\<And>x. st (f x) = s) \<Longrightarrow> set (map st (update_first P f t)) \<subseteq> insert s (set (map st t))"
  by (induction t) auto

lemma restamped_update: "(\<And>x. st (f x) = s) \<Longrightarrow> restamped s (map st t) (map st (update_first P f t))"
proof (induction t)
  case (Cons x t)
  then show ?case using update_first_set [of st f s P t] by (auto simp: restamped_def)
qed (simp add: restamped_def)

lemma restamped_snoc: "restamped s (map st t) (map st t @ [s])"
  by (auto simp: restamped_def)

section \<open>Every write keeps the stamps fresh\<close>

lemma stamps_ok_tick: "stamps_ok (tick d) = stamps_ok d"
  by (simp add: stamps_ok_def tick_def)

text \<open>A statement that keeps the stamps fresh, whatever it answers, makes a method that does.\<close>

definition stamps_safe :: "statement \<Rightarrow> bool" where
  "stamps_safe st \<longleftrightarrow> (\<forall>db d n. stamps_ok db \<longrightarrow> st db = Inr (d, n) \<longrightarrow> stamps_ok d)"

lemma stamps_safe_Exec: "stamps_safe st \<Longrightarrow> stamps_ok db \<Longrightarrow> stamps_ok (snd (Exec st db))"
  by (auto simp: Exec_def stamps_safe_def stamps_ok_tick split: sum.splits)

lemma stamps_safe_methods:
  assumes "stamps_safe st" "stamps_ok db"
  shows "stamps_ok (snd (exec_one st db))" "stamps_ok (snd (exec_found e st db))"
  using stamps_safe_Exec [OF assms]
  by (auto simp: exec_one_def exec_found_def split: prod.splits sum.splits)

lemma stamps_ok_write:
  assumes "stamps_ok db" "sync_seq db < s"
  shows "pr_sync_sequence r = s \<Longrightarrow> stamps_ok (db\<lparr>reading_progress := upsert_by pk r (reading_progress db), sync_seq := s\<rparr>)"
    "bk_sync_sequence b = s \<Longrightarrow> stamps_ok (db\<lparr>bookmarks := upsert_by bk b (bookmarks db), sync_seq := s\<rparr>)"
    "bk_sync_sequence b = s \<Longrightarrow> stamps_ok (db\<lparr>bookmarks := bookmarks db @ [b], sync_seq := s\<rparr>)"
    "hg_sync_sequence h = s \<Longrightarrow> stamps_ok (db\<lparr>highlights := upsert_by hk h (highlights db), sync_seq := s\<rparr>)"
    "hg_sync_sequence h = s \<Longrightarrow> stamps_ok (db\<lparr>highlights := highlights db @ [h], sync_seq := s\<rparr>)"
    "(\<And>x. hg_sync_sequence (f x) = s) \<Longrightarrow> stamps_ok (db\<lparr>highlights := update_first P f (highlights db), sync_seq := s\<rparr>)"
  by (simp_all add: stamps_ok_def restamped_upsert restamped_snoc restamped_update
      fresh_above_restamped [OF assms(1) [unfolded stamps_ok_def] assms(2)])

lemma stamps_safe_statements [simp]:
  "stamps_safe (upsert_progress r)" "stamps_safe (upsert_bookmark b)" "stamps_safe (upsert_highlight h)"
  "stamps_safe (update_highlight P f)" "stamps_safe (delete_bookmarks Q)" "stamps_safe (delete_highlights P)"
proof -
  show "stamps_safe (upsert_progress r)"
    by (auto simp: stamps_safe_def upsert_progress_def upsert_stamp_def Let_def stamps_ok_write split: if_splits)
  show "stamps_safe (upsert_bookmark b)"
    by (auto simp: stamps_safe_def upsert_bookmark_def upsert_stamp_def stamps_ok_write split: if_splits option.splits)
  show "stamps_safe (upsert_highlight h)"
    by (auto simp: stamps_safe_def upsert_highlight_def upsert_stamp_def stamps_ok_write split: if_splits option.splits)
  show "stamps_safe (update_highlight P f)"
    by (auto simp: stamps_safe_def update_highlight_def stamps_ok_write split: if_splits)
  show "stamps_safe (delete_bookmarks Q)" "stamps_safe (delete_highlights P)"
    by (auto simp: stamps_safe_def stamps_ok_def delete_bookmarks_def delete_highlights_def delete_where_def
        intro: fresh_above_filter)
qed

text \<open>Writing or deleting progress and marks, whatever it answers, keeps the stamps fresh.\<close>

lemmas reading_methods =
  progress_SaveForUser_def bookmark_SaveForUser_def bookmark_Delete_def bookmark_DeleteAndUser_def
  highlight_SaveForUser_def UpdateNoteCategoryAndUser_def highlight_Delete_def highlight_DeleteAndUser_def

lemma stamps_ok_methods:
  assumes "stamps_ok db"
  shows "stamps_ok (snd (progress_SaveForUser u l p db))" "stamps_ok (snd (bookmark_SaveForUser u l b db))"
    "stamps_ok (snd (bookmark_Delete i db))" "stamps_ok (snd (bookmark_DeleteAndUser u i db))"
    "stamps_ok (snd (highlight_SaveForUser u l h db))" "stamps_ok (snd (UpdateNoteCategoryAndUser u i n c db))"
    "stamps_ok (snd (highlight_Delete i db))" "stamps_ok (snd (highlight_DeleteAndUser u i db))"
  unfolding reading_methods using assms by (auto intro!: stamps_safe_methods)

section \<open>A delta leaves no gap\<close>

text \<open>The gate is a low-water mark: below a released stamp every stamp is released.\<close>

definition low_water :: "(int \<Rightarrow> bool) \<Rightarrow> bool" where
  "low_water released \<longleftrightarrow> (\<forall>s t. released t \<longrightarrow> s \<le> t \<longrightarrow> released s)"

lemma take_sorted_complete:
  assumes "sorted (map f xs)" "distinct (map f xs)" "x \<in> set xs"
    and "length (take n xs) = n \<Longrightarrow> n \<noteq> 0 \<Longrightarrow> f x \<le> f (last (take n xs))" "n \<noteq> 0"
  shows "x \<in> set (take n xs)"
proof (rule ccontr)
  assume no: "x \<notin> set (take n xs)"
  have split: "xs = take n xs @ drop n xs" by simp
  have "set xs = set (take n xs) \<union> set (drop n xs)" by (metis split set_append)
  with no assms(3) have d: "x \<in> set (drop n xs)" by blast
  then have n: "length (take n xs) = n" by (cases "length xs \<le> n") auto
  then have "take n xs \<noteq> []" using assms(5) by force
  then have l: "last (take n xs) \<in> set (take n xs)" by simp
  have "sorted (map f (take n xs) @ map f (drop n xs))" using assms(1) by (metis split map_append)
  then have "f (last (take n xs)) \<le> f x" using l d by (auto simp: sorted_append)
  moreover have "distinct (map f (take n xs) @ map f (drop n xs))" using assms(2) by (metis split map_append)
  then have "f (last (take n xs)) \<noteq> f x" using l d by auto
  ultimately show False using assms(4) [OF n assms(5)] by simp
qed

lemma delta_complete:
  assumes "distinct (map stamp rows)" "r \<in> set rows" "user r = Some u" "library r = Some l" "since < stamp r"
    "released (stamp r)"
    and cap: "length (delta user library stamp released u l since rows) = syncDeltaLimit
      \<Longrightarrow> stamp r \<le> stamp (last (delta user library stamp released u l since rows))"
  shows "r \<in> set (delta user library stamp released u l since rows)"
proof -
  let ?xs = "sort_key stamp (filter (\<lambda>r. user r = Some u \<and> library r = Some l \<and> since < stamp r \<and> released (stamp r)) rows)"
  have "distinct (map stamp ?xs)"
    using distinct_map_filter [OF assms(1)] unfolding distinct_map by simp
  then show ?thesis
    unfolding delta_def using assms(2-6) cap [unfolded delta_def]
    by (intro take_sorted_complete [of stamp]) (simp_all add: syncDeltaLimit_def)
qed

lemma delta_mem:
  "r \<in> set (delta user library stamp released u l since rows) \<Longrightarrow>
     r \<in> set rows \<and> user r = Some u \<and> library r = Some l \<and> since < stamp r \<and> released (stamp r)"
  unfolding delta_def by (drule in_set_takeD) auto

text \<open>The cursor.\<close>

lemma high_mark_simps:
  "high_mark since [] = since" "high_mark since (x # xs) = high_mark (if x > since then x else since) xs"
  by (simp_all add: high_mark_def)

lemma high_mark_ge: "since \<le> high_mark since xs"
  by (induction xs arbitrary: since) (auto simp: high_mark_simps intro: order_trans [OF less_imp_le])

lemma high_mark_upper: "x \<in> set xs \<Longrightarrow> x \<le> high_mark since xs"
proof (induction xs arbitrary: since)
  case (Cons y xs)
  show ?case
  proof (cases "x = y")
    case True
    have "y \<le> (if y > since then y else since)" by simp
    also have "\<dots> \<le> high_mark since (y # xs)" unfolding high_mark_simps by (rule high_mark_ge)
    finally show ?thesis using True by simp
  next
    case False
    then show ?thesis using Cons unfolding high_mark_simps by simp
  qed
qed simp

lemma high_mark_mem: "high_mark since xs = since \<or> high_mark since xs \<in> set xs"
proof (induction xs arbitrary: since)
  case (Cons y xs)
  then show ?case by (cases "y > since") (force simp: high_mark_simps)+
qed (simp add: high_mark_simps)

lemma cap_cursor_bounds:
  "cap_cursor xs c \<le> c" "length xs = syncDeltaLimit \<Longrightarrow> cap_cursor xs c \<le> last xs"
  "since < c \<Longrightarrow> (\<forall>x \<in> set xs. since < x) \<Longrightarrow> since < cap_cursor xs c" "since \<le> c \<Longrightarrow> (\<forall>x \<in> set xs. since < x) \<Longrightarrow> since \<le> cap_cursor xs c"
proof -
  have "xs \<noteq> []" if "length xs = syncDeltaLimit" using that by (auto simp: syncDeltaLimit_def)
  then have "last xs \<in> set xs" if "length xs = syncDeltaLimit" using that by simp
  then show "since < c \<Longrightarrow> (\<forall>x \<in> set xs. since < x) \<Longrightarrow> since < cap_cursor xs c"
    "since \<le> c \<Longrightarrow> (\<forall>x \<in> set xs. since < x) \<Longrightarrow> since \<le> cap_cursor xs c"
    by (auto simp: cap_cursor_def less_imp_le)
qed (simp_all add: cap_cursor_def)

section \<open>Polling\<close>

text \<open>The rows of the user and library past \<open>since\<close> that the gate lets through.\<close>

definition wanted ::
  "('r \<Rightarrow> UserID option) \<Rightarrow> ('r \<Rightarrow> LibraryID option) \<Rightarrow> ('r \<Rightarrow> int) \<Rightarrow> (int \<Rightarrow> bool) \<Rightarrow> UserID \<Rightarrow> LibraryID \<Rightarrow> int
   \<Rightarrow> 'r list \<Rightarrow> 'r set" where
  "wanted user library stamp released u l since rows =
     {r \<in> set rows. user r = Some u \<and> library r = Some l \<and> since < stamp r \<and> released (stamp r)}"

lemma wanted_step:
  assumes "distinct (map stamp rows)" "since \<le> c"
    and "length (delta user library stamp released u l since rows) = syncDeltaLimit
      \<Longrightarrow> c \<le> last (map stamp (delta user library stamp released u l since rows))"
  shows "wanted user library stamp released u l since rows =
    set (delta user library stamp released u l since rows) \<union> wanted user library stamp released u l c rows"
proof
  let ?d = "delta user library stamp released u l since rows"
  show "wanted user library stamp released u l since rows \<subseteq> set ?d \<union> wanted user library stamp released u l c rows"
  proof
    fix r
    assume r: "r \<in> wanted user library stamp released u l since rows"
    show "r \<in> set ?d \<union> wanted user library stamp released u l c rows"
    proof (cases "stamp r \<le> c")
      case True
      have "stamp r \<le> stamp (last ?d)" if "length ?d = syncDeltaLimit"
      proof -
        have "?d \<noteq> []" using that by (auto simp: syncDeltaLimit_def)
        then show ?thesis using True assms(3) [OF that] by (simp add: last_map)
      qed
      moreover have "r \<in> set rows" "user r = Some u" "library r = Some l" "since < stamp r" "released (stamp r)"
        using r by (simp_all add: wanted_def)
      ultimately have "r \<in> set ?d" by (intro delta_complete [OF assms(1)])
      then show ?thesis by simp
    next
      case False
      then show ?thesis using r by (simp add: wanted_def)
    qed
  qed
  show "set ?d \<union> wanted user library stamp released u l c rows \<subseteq> wanted user library stamp released u l since rows"
  proof
    fix r
    assume "r \<in> set ?d \<union> wanted user library stamp released u l c rows"
    then show "r \<in> wanted user library stamp released u l since rows"
    proof
      assume "r \<in> set ?d"
      then show ?thesis using delta_mem [of r user library stamp released u l since rows] by (simp add: wanted_def)
    next
      assume "r \<in> wanted user library stamp released u l c rows"
      then show ?thesis using assms(2) by (simp add: wanted_def)
    qed
  qed
qed

lemma wanted_done:
  assumes "distinct (map stamp rows)" "delta user library stamp released u l since rows = []"
  shows "wanted user library stamp released u l since rows = {}"
proof -
  have "r \<in> set (delta user library stamp released u l since rows)"
    if "r \<in> wanted user library stamp released u l since rows" for r
    by (rule delta_complete [OF assms(1)]) (use that assms(2) in \<open>simp_all add: wanted_def syncDeltaLimit_def\<close>)
  then show ?thesis using assms(2) by auto
qed

text \<open>
  A device polls with the cursor of the last answer until an answer is empty; \<open>None\<close> when the number of
  polls does not suffice or one fails.
\<close>

fun sync_poll ::
  "nat \<Rightarrow> (int \<Rightarrow> bool) \<Rightarrow> database \<Rightarrow> UserID \<Rightarrow> LibraryID \<Rightarrow> int \<Rightarrow> ReadingSyncData list option" where
  "sync_poll 0 released db u l since = None"
| "sync_poll (Suc n) released db u l since =
     (case GetReadingSyncData released db u l since of
        Inl _ \<Rightarrow> None
      | Inr data \<Rightarrow>
         (if sd_Progress data = [] \<and> sd_Bookmarks data = [] \<and> sd_Highlights data = [] then Some []
          else map_option (Cons data) (sync_poll n released db u l (sd_Cursor data))))"

lemma stamps_ok_tables:
  assumes "stamps_ok db"
  shows "distinct (map pr_sync_sequence (reading_progress db))" "distinct (map bk_sync_sequence (bookmarks db))"
    "distinct (map hg_sync_sequence (highlights db))"
    "r \<in> set (reading_progress db) \<Longrightarrow> pr_sync_sequence r \<le> sync_seq db"
    "b \<in> set (bookmarks db) \<Longrightarrow> bk_sync_sequence b \<le> sync_seq db"
    "h \<in> set (highlights db) \<Longrightarrow> hg_sync_sequence h \<le> sync_seq db"
  using assms by (auto simp: stamps_ok_def fresh_above_def)

text \<open>The cursor of an answer: past \<open>since\<close> when there are rows, and not past a cut-off.\<close>

lemma sync_cursor:
  assumes "GetReadingSyncData released db u l since = Inr data"
  defines "ps \<equiv> progress_delta released u l since db" and "bs \<equiv> bookmark_delta released u l since db"
    and "hs \<equiv> highlight_delta released u l since db"
  shows "since \<le> sd_Cursor data" "ps \<noteq> [] \<or> bs \<noteq> [] \<or> hs \<noteq> [] \<Longrightarrow> since < sd_Cursor data"
    "length ps = syncDeltaLimit \<Longrightarrow> sd_Cursor data \<le> last (map pr_sync_sequence ps)"
    "length bs = syncDeltaLimit \<Longrightarrow> sd_Cursor data \<le> last (map bk_sync_sequence bs)"
    "length hs = syncDeltaLimit \<Longrightarrow> sd_Cursor data \<le> last (map hg_sync_sequence hs)"
    "sd_Cursor data \<le> since \<or> (\<exists>s. released s \<and> sd_Cursor data \<le> s)"
proof -
  let ?P = "map pr_sync_sequence ps" and ?B = "map bk_sync_sequence bs" and ?H = "map hg_sync_sequence hs"
  let ?m = "high_mark (high_mark (high_mark since ?P) ?B) ?H"
  have c: "sd_Cursor data = cap_cursor ?H (cap_cursor ?B (cap_cursor ?P ?m))"
    using assms(1) unfolding ps_def bs_def hs_def by (auto simp: GetReadingSyncData_def Let_def split: if_splits)
  have past: "\<forall>x \<in> set ?P. since < x \<and> released x" "\<forall>x \<in> set ?B. since < x \<and> released x"
      "\<forall>x \<in> set ?H. since < x \<and> released x"
    unfolding ps_def bs_def hs_def progress_delta_def bookmark_delta_def highlight_delta_def
    by (auto dest: delta_mem)
  have ge: "since \<le> ?m" using high_mark_ge order_trans by metis
  show "since \<le> sd_Cursor data" unfolding c using ge past by (intro cap_cursor_bounds) auto
  have up: "high_mark since ?P \<le> ?m" "high_mark (high_mark since ?P) ?B \<le> ?m"
    using high_mark_ge order_trans by metis+
  show "since < sd_Cursor data" if rows: "ps \<noteq> [] \<or> bs \<noteq> [] \<or> hs \<noteq> []"
  proof -
    from rows have "set ?P \<union> set ?B \<union> set ?H \<noteq> {}" by auto
    then obtain x where "x \<in> set ?P \<union> set ?B \<union> set ?H" by (meson ex_in_conv)
    then have "since < x" "x \<le> ?m"
      using past high_mark_upper [of x ?P since] high_mark_upper [of x ?B "high_mark since ?P"]
        high_mark_upper [of x ?H "high_mark (high_mark since ?P) ?B"] up by auto
    then have "since < ?m" by simp
    then show ?thesis unfolding c using past by (intro cap_cursor_bounds) auto
  qed
  show "length ps = syncDeltaLimit \<Longrightarrow> sd_Cursor data \<le> last ?P"
    unfolding c using cap_cursor_bounds(2) [of ?P] cap_cursor_bounds(1) order_trans by (metis length_map)
  show "length bs = syncDeltaLimit \<Longrightarrow> sd_Cursor data \<le> last ?B"
    unfolding c using cap_cursor_bounds(2) [of ?B] cap_cursor_bounds(1) order_trans by (metis length_map)
  show "length hs = syncDeltaLimit \<Longrightarrow> sd_Cursor data \<le> last ?H"
    unfolding c using cap_cursor_bounds(2) [of ?H] by simp
  have "sd_Cursor data \<le> ?m" unfolding c using cap_cursor_bounds(1) order_trans by metis
  moreover have "?m = since \<or> ?m \<in> set ?P \<union> set ?B \<union> set ?H"
    using high_mark_mem [of since ?P] high_mark_mem [of "high_mark since ?P" ?B]
      high_mark_mem [of "high_mark (high_mark since ?P) ?B" ?H] by auto
  ultimately show "sd_Cursor data \<le> since \<or> (\<exists>s. released s \<and> sd_Cursor data \<le> s)"
    using past by (metis Un_iff)
qed

lemma sync_data_rows:
  assumes "GetReadingSyncData released db u l since = Inr data"
  shows "sd_Progress data = map progress_item (progress_delta released u l since db)"
    "sd_Bookmarks data = map bookmark_item (bookmark_delta released u l since db)"
    "sd_Highlights data = map highlight_item (highlight_delta released u l since db)"
  using assms by (auto simp: GetReadingSyncData_def Let_def split: if_splits)

lemma connected_sync: "connected db \<Longrightarrow> \<exists>data. GetReadingSyncData released db u l since = Inr data"
  by (simp add: GetReadingSyncData_def Let_def)

definition wanted_progress where
  "wanted_progress released u l since db = wanted pr_user_id pr_library_id pr_sync_sequence released u l since (reading_progress db)"

definition wanted_bookmarks where
  "wanted_bookmarks released u l since db = wanted bk_user_id bk_library_id bk_sync_sequence released u l since (bookmarks db)"

definition wanted_highlights where
  "wanted_highlights released u l since db = wanted hg_user_id hg_library_id hg_sync_sequence released u l since (highlights db)"

lemma wanted_poll:
  assumes "stamps_ok db" "GetReadingSyncData released db u l since = Inr data"
  shows "wanted_progress released u l since db =
      set (progress_delta released u l since db) \<union> wanted_progress released u l (sd_Cursor data) db"
    "wanted_bookmarks released u l since db =
      set (bookmark_delta released u l since db) \<union> wanted_bookmarks released u l (sd_Cursor data) db"
    "wanted_highlights released u l since db =
      set (highlight_delta released u l since db) \<union> wanted_highlights released u l (sd_Cursor data) db"
  unfolding wanted_progress_def wanted_bookmarks_def wanted_highlights_def progress_delta_def bookmark_delta_def
    highlight_delta_def
  by (intro wanted_step stamps_ok_tables [OF assms(1)] sync_cursor(1) [OF assms(2)]
      sync_cursor(3-5) [OF assms(2), unfolded progress_delta_def bookmark_delta_def highlight_delta_def]; assumption)+

lemma wanted_none:
  assumes "stamps_ok db" "progress_delta released u l since db = []" "bookmark_delta released u l since db = []"
    "highlight_delta released u l since db = []"
  shows "wanted_progress released u l since db = {}" "wanted_bookmarks released u l since db = {}"
    "wanted_highlights released u l since db = {}"
  using wanted_done stamps_ok_tables(1-3) [OF assms(1)] assms(2-)
  unfolding wanted_progress_def wanted_bookmarks_def wanted_highlights_def progress_delta_def bookmark_delta_def
    highlight_delta_def by blast+

text \<open>A poll with rows brings the device closer to the end of the sequence.\<close>

lemma poll_advances:
  assumes "stamps_ok db" "GetReadingSyncData released db u l since = Inr data"
    and rows: "progress_delta released u l since db \<noteq> [] \<or> bookmark_delta released u l since db \<noteq> []
      \<or> highlight_delta released u l since db \<noteq> []"
  shows "nat (sync_seq db - sd_Cursor data) < nat (sync_seq db - since)"
proof -
  from rows obtain s where "since < s" "s \<le> sync_seq db"
  proof (elim disjE)
    assume "progress_delta released u l since db \<noteq> []"
    then obtain r where "r \<in> set (progress_delta released u l since db)" by (meson last_in_set)
    then show thesis using stamps_ok_tables(4) [OF assms(1)] that
      unfolding progress_delta_def by (blast dest: delta_mem)
  next
    assume "bookmark_delta released u l since db \<noteq> []"
    then obtain r where "r \<in> set (bookmark_delta released u l since db)" by (meson last_in_set)
    then show thesis using stamps_ok_tables(5) [OF assms(1)] that
      unfolding bookmark_delta_def by (blast dest: delta_mem)
  next
    assume "highlight_delta released u l since db \<noteq> []"
    then obtain r where "r \<in> set (highlight_delta released u l since db)" by (meson last_in_set)
    then show thesis using stamps_ok_tables(6) [OF assms(1)] that
      unfolding highlight_delta_def by (blast dest: delta_mem)
  qed
  moreover have "since < sd_Cursor data" using sync_cursor(2) [OF assms(2)] rows by blast
  ultimately show ?thesis by linarith
qed

text \<open>C18: The store's query for changes, polled with the cursor of its last answer until an answer is empty,
  returns everything its gate releases.  On a connected store whose stamps are fresh and which does not
  change meanwhile, the polling ends, and the answers together hold exactly the progress, bookmarks and
  highlights of this user in this library that lie past the first cursor and that the gate lets through;
  the limit of 500 rows a table loses none of them.  This is a promise of the query: the endpoint built
  on it answers every device with an error, and a row the gate withholds is none of these.\<close>

theorem sync_polling_delivers_all:
  assumes "stamps_ok db" "connected db"
  shows "\<exists>n answers. sync_poll n released db u l since = Some answers
    \<and> set (concat (map sd_Progress answers)) = progress_item ` wanted_progress released u l since db
    \<and> set (concat (map sd_Bookmarks answers)) = bookmark_item ` wanted_bookmarks released u l since db
    \<and> set (concat (map sd_Highlights answers)) = highlight_item ` wanted_highlights released u l since db"
proof (induction "nat (sync_seq db - since)" arbitrary: since rule: less_induct)
  case less
  obtain data where g: "GetReadingSyncData released db u l since = Inr data"
    using connected_sync [OF assms(2)] by blast
  note rows = sync_data_rows [OF g]
  show ?case
  proof (cases "sd_Progress data = [] \<and> sd_Bookmarks data = [] \<and> sd_Highlights data = []")
    case True
    then have "wanted_progress released u l since db = {}" "wanted_bookmarks released u l since db = {}"
        "wanted_highlights released u l since db = {}"
      using wanted_none [OF assms(1)] rows by simp_all
    then show ?thesis using g True by (intro exI [of _ "Suc 0"] exI [of _ "[]"]) simp
  next
    case False
    then have "nat (sync_seq db - sd_Cursor data) < nat (sync_seq db - since)"
      using rows by (intro poll_advances [OF assms(1) g]) auto
    from less.hyps [OF this] obtain n answers where p: "sync_poll n released db u l (sd_Cursor data) = Some answers"
        "set (concat (map sd_Progress answers)) = progress_item ` wanted_progress released u l (sd_Cursor data) db"
        "set (concat (map sd_Bookmarks answers)) = bookmark_item ` wanted_bookmarks released u l (sd_Cursor data) db"
        "set (concat (map sd_Highlights answers)) = highlight_item ` wanted_highlights released u l (sd_Cursor data) db"
      by (elim exE conjE)
    have "sync_poll (Suc n) released db u l since = Some (data # answers)"
      unfolding sync_poll.simps(2) g sum.case if_not_P [OF False] p(1) by simp
    moreover have "set (concat (map sd_Progress (data # answers))) = progress_item ` wanted_progress released u l since db"
      unfolding wanted_poll(1) [OF assms(1) g] list.map(2) concat.simps set_append image_Un p(2) rows(1) set_map ..
    moreover have "set (concat (map sd_Bookmarks (data # answers))) = bookmark_item ` wanted_bookmarks released u l since db"
      unfolding wanted_poll(2) [OF assms(1) g] list.map(2) concat.simps set_append image_Un p(3) rows(2) set_map ..
    moreover have "set (concat (map sd_Highlights (data # answers))) = highlight_item ` wanted_highlights released u l since db"
      unfolding wanted_poll(3) [OF assms(1) g] list.map(2) concat.simps set_append image_Un p(4) rows(3) set_map ..
    ultimately show ?thesis by (intro exI conjI)
  qed
qed

section \<open>The gate\<close>

text \<open>
  No answer's cursor ever passes a row of the user that the answer does not hold, also not one that
  the gate holds back now and will let through later.
\<close>

definition never_passes_a_row :: "(int \<Rightarrow> bool) \<Rightarrow> bool" where
  "never_passes_a_row released \<longleftrightarrow>
     (\<forall>db u l since data. stamps_ok db \<longrightarrow> GetReadingSyncData released db u l since = Inr data \<longrightarrow>
        progress_item ` {r \<in> wanted_progress (\<lambda>_. True) u l since db. pr_sync_sequence r \<le> sd_Cursor data}
          \<subseteq> set (sd_Progress data)
        \<and> bookmark_item ` {r \<in> wanted_bookmarks (\<lambda>_. True) u l since db. bk_sync_sequence r \<le> sd_Cursor data}
          \<subseteq> set (sd_Bookmarks data)
        \<and> highlight_item ` {r \<in> wanted_highlights (\<lambda>_. True) u l since db. hg_sync_sequence r \<le> sd_Cursor data}
          \<subseteq> set (sd_Highlights data))"

lemma low_water_passes_none:
  assumes "low_water released"
  shows "never_passes_a_row released"
  unfolding never_passes_a_row_def
proof (intro allI impI)
  fix db u l since data
  assume ok: "stamps_ok db" and g: "GetReadingSyncData released db u l since = Inr data"
  have rel: "released s" if "since < s" "s \<le> sd_Cursor data" for s
    using sync_cursor(6) [OF g] that assms unfolding low_water_def by (meson linorder_not_less order_trans)
  note rows = sync_data_rows [OF g] wanted_poll [OF ok g]
  have "r \<in> set (progress_delta released u l since db)"
    if "r \<in> wanted_progress (\<lambda>_. True) u l since db" "pr_sync_sequence r \<le> sd_Cursor data" for r
  proof -
    have "r \<in> wanted_progress released u l since db" using that rel by (simp add: wanted_progress_def wanted_def)
    then show ?thesis using that(2) unfolding rows(4) by (simp add: wanted_progress_def wanted_def)
  qed
  moreover have "r \<in> set (bookmark_delta released u l since db)"
    if "r \<in> wanted_bookmarks (\<lambda>_. True) u l since db" "bk_sync_sequence r \<le> sd_Cursor data" for r
  proof -
    have "r \<in> wanted_bookmarks released u l since db" using that rel by (simp add: wanted_bookmarks_def wanted_def)
    then show ?thesis using that(2) unfolding rows(5) by (simp add: wanted_bookmarks_def wanted_def)
  qed
  moreover have "r \<in> set (highlight_delta released u l since db)"
    if "r \<in> wanted_highlights (\<lambda>_. True) u l since db" "hg_sync_sequence r \<le> sd_Cursor data" for r
  proof -
    have "r \<in> wanted_highlights released u l since db" using that rel by (simp add: wanted_highlights_def wanted_def)
    then show ?thesis using that(2) unfolding rows(6) by (simp add: wanted_highlights_def wanted_def)
  qed
  ultimately show "progress_item ` {r \<in> wanted_progress (\<lambda>_. True) u l since db. pr_sync_sequence r \<le> sd_Cursor data}
          \<subseteq> set (sd_Progress data)
      \<and> bookmark_item ` {r \<in> wanted_bookmarks (\<lambda>_. True) u l since db. bk_sync_sequence r \<le> sd_Cursor data}
          \<subseteq> set (sd_Bookmarks data)
      \<and> highlight_item ` {r \<in> wanted_highlights (\<lambda>_. True) u l since db. hg_sync_sequence r \<le> sd_Cursor data}
          \<subseteq> set (sd_Highlights data)"
    unfolding rows(1-3) by auto
qed

text \<open>Two bookmarks whose writers finished in the other order than they took their stamps.\<close>

definition stamped_bookmark :: "string \<Rightarrow> int \<Rightarrow> bookmark_row" where
  "stamped_bookmark i s =
     \<lparr> bk_id = i, bk_edition_id = ''e'', bk_user_id = Some ''u'', bk_library_id = Some ''L'', bk_position = [],
       bk_label = [], bk_created_at = 0, bk_sync_sequence = s \<rparr>"

definition overtaken :: "int \<Rightarrow> int \<Rightarrow> database" where
  "overtaken s t =
     (empty_database [''L''])\<lparr>bookmarks := [stamped_bookmark ''a'' s, stamped_bookmark ''b'' t], sync_seq := t\<rparr>"

lemma overtaken_delta:
  assumes "s < t" "released t" "\<not> released s"
  obtains data where "GetReadingSyncData released (overtaken s t) ''u'' ''L'' (s - 1) = Inr data"
    "sd_Cursor data = t" "sd_Bookmarks data = [bookmark_item (stamped_bookmark ''b'' t)]"
proof -
  let ?db = "overtaken s t"
  have tables: "reading_progress ?db = []" "highlights ?db = []" "connected ?db"
      "bookmarks ?db = [stamped_bookmark ''a'' s, stamped_bookmark ''b'' t]"
    by (simp_all add: overtaken_def empty_database_def connected_def)
  have "bookmark_delta released ''u'' ''L'' (s - 1) ?db = [stamped_bookmark ''b'' t]"
    "progress_delta released ''u'' ''L'' (s - 1) ?db = []" "highlight_delta released ''u'' ''L'' (s - 1) ?db = []"
    using assms by (simp_all add: bookmark_delta_def progress_delta_def highlight_delta_def delta_def tables
        stamped_bookmark_def syncDeltaLimit_def)
  then show ?thesis
    using that assms(1) by (simp add: GetReadingSyncData_def Let_def tables high_mark_simps cap_cursor_def syncDeltaLimit_def
        stamped_bookmark_def)
qed

lemma passes_none_low_water:
  assumes "never_passes_a_row released"
  shows "low_water released"
  unfolding low_water_def
proof (intro allI impI, rule ccontr)
  fix s t :: int
  assume t: "released t" "s \<le> t" "\<not> released s"
  then have "s < t" by (cases "s = t") auto
  obtain data where d: "GetReadingSyncData released (overtaken s t) ''u'' ''L'' (s - 1) = Inr data"
      "sd_Cursor data = t" "sd_Bookmarks data = [bookmark_item (stamped_bookmark ''b'' t)]"
    by (rule overtaken_delta [OF \<open>s < t\<close> t(1,3)])
  have "stamps_ok (overtaken s t)"
    using \<open>s < t\<close> by (simp add: stamps_ok_def fresh_above_def overtaken_def empty_database_def stamped_bookmark_def)
  then have "bookmark_item ` {r \<in> wanted_bookmarks (\<lambda>_. True) ''u'' ''L'' (s - 1) (overtaken s t).
      bk_sync_sequence r \<le> t} \<subseteq> {bookmark_item (stamped_bookmark ''b'' t)}"
    using assms d unfolding never_passes_a_row_def by fastforce
  moreover have "stamped_bookmark ''a'' s \<in> {r \<in> wanted_bookmarks (\<lambda>_. True) ''u'' ''L'' (s - 1) (overtaken s t).
      bk_sync_sequence r \<le> t}"
    using \<open>s < t\<close> by (simp add: wanted_bookmarks_def wanted_def overtaken_def empty_database_def stamped_bookmark_def)
  ultimately show False by (force simp: bookmark_item_def stamped_bookmark_def)
qed

text \<open>C19: The synchronisation loses no row exactly when its gate is a low-water mark on the stamps.  If below
  every stamp the gate lets through all stamps pass, no cursor ever goes past a row the answer does not
  hold; if not, some store has a bookmark that is held back while the cursor goes past it, so that no later
  poll delivers it.  The gate of the code compares transaction ids, which need not be in the order of
  the stamps.\<close>

theorem sync_gate_sound_iff:
  "never_passes_a_row released \<longleftrightarrow> low_water released"
  using low_water_passes_none passes_none_low_water by blast

theorem sync_polling_delivers_all_witness:
  "stamps_ok (overtaken 1 2) \<and> connected (overtaken 1 2)
   \<and> (\<exists>n answers. sync_poll n (\<lambda>_. True) (overtaken 1 2) ''u'' ''L'' 0 = Some answers
        \<and> bookmark_item (stamped_bookmark ''a'' 1) \<in> set (concat (map sd_Bookmarks answers)))"
proof -
  have ok: "stamps_ok (overtaken 1 2)" "connected (overtaken 1 2)"
    by (simp_all add: stamps_ok_def fresh_above_def overtaken_def empty_database_def stamped_bookmark_def connected_def)
  have "stamped_bookmark ''a'' 1 \<in> wanted_bookmarks (\<lambda>_. True) ''u'' ''L'' 0 (overtaken 1 2)"
    by (simp add: wanted_bookmarks_def wanted_def overtaken_def empty_database_def stamped_bookmark_def)
  then show ?thesis
    using ok sync_polling_delivers_all [OF ok, of "\<lambda>_. True" "''u''" "''L''" 0] by blast
qed

end
