(* ===== verification/Reader_Validate.thy ===== *)
theory Reader_Validate
  imports Reading_Progress Go_Regexp Go_Strconv "HOL-Library.Word" "HOL-Library.List_Lexorder" "HOL-Library.Char_ord"
begin

text \<open>
  \<open>internal/reader/api/validate.go\<close>: the shape of positions in a book (EPUB CFIs) and their order, device
  ids, epochs and percentages.
\<close>

section \<open>Positions\<close>

definition maxCFILength :: nat where
  "maxCFILength = 1024"

definition cfi_char :: "char \<Rightarrow> bool" where
  "cfi_char c \<longleftrightarrow> is_alnum c \<or> c \<in> set ''/:.!~@,[]()^;=+*_- ''"

definition cfiBody :: rx where
  "cfiBody = Star (Cls cfi_char)"

text \<open>The two counters of \<open>balanced\<close>; a negative one ends the loop.\<close>

fun balanced_from :: "int \<Rightarrow> int \<Rightarrow> string \<Rightarrow> bool" where
  "balanced_from r q [] = (r = 0 \<and> q = 0)"
| "balanced_from r q (c # cs) =
     (let r' = (if c = CHR ''('' then r + 1 else if c = CHR '')'' then r - 1 else r);
          q' = (if c = CHR ''['' then q + 1 else if c = CHR '']'' then q - 1 else q) in
      if r' < 0 \<or> q' < 0 then False else balanced_from r' q' cs)"

definition balanced :: "string \<Rightarrow> bool" where
  "balanced s = balanced_from 0 0 s"

definition cfi_prefix :: string where
  "cfi_prefix = ''epubcfi(''"

definition cfi_inner :: "string \<Rightarrow> string" where
  "cfi_inner cfi = butlast (drop (length cfi_prefix) cfi)"

definition ValidateCFI :: "string \<Rightarrow> go_error option" where
  "ValidateCFI cfi =
     (if cfi = [] then Some (derr InvalidInput ''position is empty'')
      else if length cfi > maxCFILength then Some (derr InvalidInput ''position is too long to be a valid CFI'')
      else if take (length cfi_prefix) cfi \<noteq> cfi_prefix \<or> last cfi \<noteq> CHR '')'' then
        Some (derr InvalidInput ''position is not an epubcfi(...) value'')
      else if \<not> MatchString cfiBody (cfi_inner cfi) then
        Some (derr InvalidInput ''position contains characters the CFI grammar cannot produce'')
      else if \<not> balanced cfi then Some (derr InvalidInput ''position has unbalanced brackets or parentheses'')
      else None)"

section \<open>Order\<close>

text \<open>\<open>FindAllString\<close> of \<open>\d+\<close>: the maximal runs of digits.\<close>

function digit_runs :: "string \<Rightarrow> string list" where
  "digit_runs [] = []"
| "digit_runs (c # cs) =
     (if is_digit c then takeWhile is_digit (c # cs) # digit_runs (dropWhile is_digit cs) else digit_runs cs)"
  by pat_completeness auto
termination
  by (relation "measure length") (auto simp: le_imp_less_Suc length_dropWhile_le)

text \<open>\<open>int64\<close> arithmetic, which wraps around.\<close>

definition atoiPad :: "string \<Rightarrow> int" where
  "atoiPad s = sint (foldl (\<lambda>n c. n * 10 + word_of_int (int (of_char c) - 48)) (0 :: 64 word) s)"

fun compare_nums :: "int list \<Rightarrow> int list \<Rightarrow> int" where
  "compare_nums [] [] = 0"
| "compare_nums [] (y # ys) = - 1"
| "compare_nums (x # xs) [] = 1"
| "compare_nums (x # xs) (y # ys) = (if x \<noteq> y then (if x < y then - 1 else 1) else compare_nums xs ys)"

definition cfi_numbers :: "string \<Rightarrow> int list" where
  "cfi_numbers a = map atoiPad (digit_runs a)"

definition compareCFI :: "string \<Rightarrow> string \<Rightarrow> int" where
  "compareCFI a b = compare_nums (cfi_numbers a) (cfi_numbers b)"

definition CFISortsBefore :: "string \<Rightarrow> string \<Rightarrow> bool" where
  "CFISortsBefore a b \<longleftrightarrow> compareCFI a b < 0"

section \<open>Devices, epochs and percentages\<close>

definition hexadecimal :: "char \<Rightarrow> bool" where
  "hexadecimal c \<longleftrightarrow> (CHR ''0'' \<le> c \<and> c \<le> CHR ''9'') \<or> (CHR ''a'' \<le> c \<and> c \<le> CHR ''f'') \<or> (CHR ''A'' \<le> c \<and> c \<le> CHR ''F'')"

definition uuidV4 :: rx where
  "uuidV4 =
     (let hex = Cls hexadecimal; dash = Cls (\<lambda>c. c = CHR ''-'') in
      Cat (times 8 hex) (Cat dash (Cat (times 4 hex) (Cat dash (Cat (Cls (\<lambda>c. c = CHR ''4'')) (Cat (times 3 hex)
        (Cat dash (Cat (Cls (\<lambda>c. c \<in> set ''89abAB'')) (Cat (times 3 hex) (Cat dash (times 12 hex)))))))))))"

definition ValidateDeviceID :: "string \<Rightarrow> go_error option" where
  "ValidateDeviceID v =
     (if \<not> MatchString uuidV4 (TrimSpace v) then Some (derr InvalidInput ''X-Device-Id must be a version 4 UUID'')
      else None)"

definition maxObservedEpoch :: int where
  "maxObservedEpoch = 2 ^ 40"

definition ValidateObservedEpoch :: "int \<Rightarrow> go_error option" where
  "ValidateObservedEpoch epoch =
     (if epoch < 0 \<or> epoch > maxObservedEpoch then Some (derr InvalidInput ''observedEpoch is out of range'') else None)"

definition ValidatePercentage :: "float64 \<Rightarrow> go_error option" where
  "ValidatePercentage p =
     (if flt p (Fin 0) \<or> flt (Fin 1) p then Some (derr InvalidInput ''percentage must be within [0.0, 1.0]'') else None)"

section \<open>Facts\<close>

text \<open>A valid position is bracketed by the prefix and the closing parenthesis.\<close>

lemma ValidateCFI_shape:
  assumes "ValidateCFI cfi = None"
  shows "cfi = cfi_prefix @ cfi_inner cfi @ '')''" "length cfi \<le> maxCFILength" "list_all cfi_char (cfi_inner cfi)" "balanced cfi"
proof -
  have v: "cfi \<noteq> []" "length cfi \<le> maxCFILength" "take (length cfi_prefix) cfi = cfi_prefix" "last cfi = CHR '')''"
      "MatchString cfiBody (cfi_inner cfi)" "balanced cfi"
    using assms by (auto simp: ValidateCFI_def split: if_splits)
  have "drop (length cfi_prefix) cfi \<noteq> []"
  proof
    assume "drop (length cfi_prefix) cfi = []"
    with v(3) have "cfi = cfi_prefix" by (metis append_Nil2 append_take_drop_id)
    with v(4) show False by (simp add: cfi_prefix_def)
  qed
  then have "drop (length cfi_prefix) cfi = cfi_inner cfi @ '')''"
    unfolding cfi_inner_def using v(4) by (metis append_butlast_last_id last_drop drop_eq_Nil2 linorder_not_le)
  then show "cfi = cfi_prefix @ cfi_inner cfi @ '')''" using v(3) by (metis append_take_drop_id)
  show "length cfi \<le> maxCFILength" "balanced cfi" using v by simp_all
  have "lang (Star (Cls p)) s \<Longrightarrow> list_all p s" for p s
    unfolding lang_Star_concat by (fastforce simp: lang_Cls list_all_iff)
  then show "list_all cfi_char (cfi_inner cfi)" using v(5) unfolding cfiBody_def MatchString_iff by blast
qed

lemma compare_nums_lex: "compare_nums xs ys = (if xs < ys then - 1 else if xs = ys then 0 else 1)"
  by (induction xs ys rule: compare_nums.induct) auto

text \<open>Numbers of up to eighteen digits are read as they are written.\<close>

definition decimal :: "string \<Rightarrow> int" where
  "decimal s = foldl (\<lambda>n c. n * 10 + (int (of_char c) - 48)) 0 s"

lemma atoiPad_word: "atoiPad s = sint (word_of_int (decimal s) :: 64 word)"
proof -
  have "foldl (\<lambda>n c. n * 10 + word_of_int (int (of_char c) - 48)) (word_of_int k) s =
      (word_of_int (foldl (\<lambda>n c. n * 10 + (int (of_char c) - 48)) k s) :: 64 word)" for k
  proof (induction s arbitrary: k)
    case (Cons c s)
    have "word_of_int k * 10 + word_of_int (int (of_char c) - 48) = (word_of_int (k * 10 + (int (of_char c) - 48)) :: 64 word)"
      by simp
    then show ?case using Cons [of "k * 10 + (int (of_char c) - 48)"] by simp
  qed simp
  from this [of 0] show ?thesis by (simp add: atoiPad_def decimal_def)
qed

lemma decimal_bounds:
  assumes "list_all is_digit s"
  shows "0 \<le> decimal s \<and> decimal s < 10 ^ length s"
  using assms
proof (induction s rule: rev_induct)
  case (snoc c s)
  have d: "decimal (s @ [c]) = decimal s * 10 + (int (of_char c) - 48)" by (simp add: decimal_def)
  have "0 \<le> int (of_char c) - 48" "int (of_char c) - 48 \<le> 9"
    using snoc.prems by (simp_all add: is_digit_def between_def)
  moreover have "0 \<le> decimal s" "decimal s + 1 \<le> 10 ^ length s" using snoc by simp_all
  ultimately show ?case unfolding d by simp
qed (simp add: decimal_def)

lemma atoiPad_decimal:
  assumes "list_all is_digit s" "length s \<le> 18"
  shows "atoiPad s = decimal s"
proof -
  have "(10 :: int) ^ length s \<le> 10 ^ 18" using assms(2) by (intro power_increasing) auto
  with decimal_bounds [OF assms(1)] have "0 \<le> decimal s" "decimal s < 10 ^ 18" by simp_all
  then show ?thesis unfolding atoiPad_word by (simp add: sint_sbintrunc' signed_take_bit_int_eq_self)
qed

end
