(* ===== verification/Reading_Handlers.thy ===== *)
theory Reading_Handlers
  imports Sync_Safety Reader_Validate Http_Reply Auth_Middleware
begin

text \<open>
  \<open>transport/http/reading.go\<close>: progress, bookmarks, highlights and display preferences of the authenticated
  user.  A request comes with its context, the value of its \<open>X-Device-Id\<close> header and its decoded body;
  \<open>None\<close> is a body that does not decode.  \<open>newID\<close> is what the identifier generator returns, \<open>now\<close> the time of
  the request.  \<open>writeJSONCapped\<close> and the marshalling of answers are not modelled.
\<close>

section \<open>Checks every handler shares\<close>

definition readingScope :: "req_context \<Rightarrow> (UserID \<times> LibraryID) option" where
  "readingScope c =
     (case cx_user c of
        None \<Rightarrow> None
      | Some user \<Rightarrow> (if au_UserID user = [] then None else Some (au_UserID user, ActiveLibraryFromContext c)))"

definition unauthenticated :: "'a reply" where
  "unauthenticated = refuse Unauthorized ''authentication is required''"

text \<open>The three assertions: \<open>None\<close> when the request may go on.\<close>

definition edition_gate :: "database \<Rightarrow> EditionID \<Rightarrow> LibraryID \<Rightarrow> 'a reply option" where
  "edition_gate db editionID libID =
     (case EditionInLibrary db editionID libID of
        Inl err \<Rightarrow> Some (RDomain err)
      | Inr ok \<Rightarrow> (if ok then None else Some (refuse NotFound ''no such edition in your library'')))"

definition assertWorkInLibrary :: "database \<Rightarrow> WorkID \<Rightarrow> LibraryID \<Rightarrow> 'a reply option" where
  "assertWorkInLibrary db workID libID =
     (case WorkInLibrary db workID libID of
        Inl err \<Rightarrow> Some (RDomain err)
      | Inr ok \<Rightarrow> (if ok then None else Some (refuse NotFound ''no such book in your library'')))"

definition assertDeviceActive :: "database \<Rightarrow> string \<Rightarrow> UserID \<Rightarrow> 'a reply option" where
  "assertDeviceActive db header userID =
     (let devID = TrimSpace header in
      if devID = [] then None
      else (case device_FindByID db devID of
        Inl err \<Rightarrow> (if CategoryOf err = NotFound then None else Some (RDomain err))
      | Inr dev \<Rightarrow>
         (if pd_owner dev \<noteq> userID then Some (refuse Unauthorized ''unauthorized device'')
          else if pd_revokedAt dev \<noteq> None then Some (refuse Unauthorized ''device revoked'')
          else None)))"

definition bad_body :: "'a reply" where
  "bad_body = refuse InvalidInput ''request body must be a valid JSON object''"

section \<open>Progress\<close>

record wireReadingProgress =
  wp_Percentage :: float64
  wp_Epoch :: int
  wp_PrecisePosition :: "(string \<times> string) option"
  wp_ObservedAt :: instant

record wireProgressReport =
  wq_Percentage :: float64
  wq_ObservedEpoch :: int
  wq_PrecisePosition :: "(string \<times> string) option"
  wq_Override :: bool

definition progressToWire :: "ReadingProgress \<Rightarrow> wireReadingProgress" where
  "progressToWire p =
     \<lparr> wp_Percentage = rp_percentage p, wp_Epoch = rp_epoch p,
       wp_PrecisePosition = map_option (\<lambda>pos. (pp_EditionID pos, pp_Value pos)) (rp_precisePosition p),
       wp_ObservedAt = rp_observedAt p \<rparr>"

definition ReadingProgressGetHandler ::
  "req_context \<Rightarrow> WorkID \<Rightarrow> database \<Rightarrow> wireReadingProgress option reply" where
  "ReadingProgressGetHandler c workID db =
     (if workID = [] then refuse InvalidInput ''workId is required''
      else (case readingScope c of
        None \<Rightarrow> unauthenticated
      | Some (userID, libID) \<Rightarrow>
         (case progress_findByWork userID libID db workID of
            Inl err \<Rightarrow> (if CategoryOf err = NotFound then ROk 200 None else RDomain err)
          | Inr p \<Rightarrow> ROk 200 (Some (progressToWire p)))))"

text \<open>The position of a report: checked in shape, then against the work.\<close>

definition reported_position ::
  "database \<Rightarrow> WorkID \<Rightarrow> (string \<times> string) option \<Rightarrow> 'a reply + PrecisePosition option" where
  "reported_position db workID p =
     (case p of
        None \<Rightarrow> Inr None
      | Some (editionID, cfi) \<Rightarrow>
         (case ValidateCFI cfi of
            Some err \<Rightarrow> Inl (RDomain err)
          | None \<Rightarrow>
             (if editionID = [] then Inl (refuse InvalidInput ''precisePosition.editionId is required'')
              else let pos = Some \<lparr> pp_EditionID = editionID, pp_Value = cfi \<rparr> in
                (case CheckPrecisePositionWork PgEditionRepository db workID pos of
                   Some err \<Rightarrow> Inl (RDomain err)
                 | None \<Rightarrow> Inr pos))))"

definition ReadingProgressReportHandler ::
  "string \<Rightarrow> instant \<Rightarrow> req_context \<Rightarrow> WorkID \<Rightarrow> string \<Rightarrow> wireProgressReport option \<Rightarrow> database
   \<Rightarrow> (wireReadingProgress \<times> ReconcileOutcome) reply \<times> database" where
  "ReadingProgressReportHandler newID now c workID deviceID body db =
     (if workID = [] then (refuse InvalidInput ''workId is required'', db)
      else (case readingScope c of
        None \<Rightarrow> (unauthenticated, db)
      | Some (userID, libID) \<Rightarrow>
         (case assertWorkInLibrary db workID libID of
            Some r \<Rightarrow> (r, db)
          | None \<Rightarrow>
         (case ValidateDeviceID deviceID of
            Some err \<Rightarrow> (RDomain err, db)
          | None \<Rightarrow>
         (case assertDeviceActive db deviceID userID of
            Some r \<Rightarrow> (r, db)
          | None \<Rightarrow>
         (case body of
            None \<Rightarrow> (bad_body, db)
          | Some req \<Rightarrow>
         (case ValidatePercentage (wq_Percentage req) of
            Some err \<Rightarrow> (RDomain err, db)
          | None \<Rightarrow>
         (case ValidateObservedEpoch (wq_ObservedEpoch req) of
            Some err \<Rightarrow> (RDomain err, db)
          | None \<Rightarrow>
         (case reported_position db workID (wq_PrecisePosition req) of
            Inl r \<Rightarrow> (r, db)
          | Inr pos \<Rightarrow>
             (case ReportProgress InTx (PgProgressStore userID libID) newID db
                 \<lparr> pg_WorkID = workID, pg_Percentage = wq_Percentage req, pg_ObservedEpoch = wq_ObservedEpoch req,
                   pg_PrecisePosition = pos, pg_DeviceID = deviceID, pg_ReportedAt = now \<rparr> (wq_Override req) of
                (Inl err, d) \<Rightarrow> (RDomain err, d)
              | (Inr (p, out), d) \<Rightarrow> (ROk 200 (progressToWire p, out), d)))))))))))"

section \<open>Bookmarks\<close>

record wireBookmark =
  wb_ID :: string
  wb_EditionID :: string
  wb_CFI :: string
  wb_Label :: string
  wb_CreatedAt :: instant

definition bookmarkToWire :: "Bookmark \<Rightarrow> wireBookmark" where
  "bookmarkToWire b =
     \<lparr> wb_ID = bm_id b, wb_EditionID = bm_editionID b, wb_CFI = bm_position b, wb_Label = bm_label b,
       wb_CreatedAt = bm_createdAt b \<rparr>"

definition ReadingBookmarksListHandler ::
  "(string \<Rightarrow> 'k :: linorder) \<Rightarrow> req_context \<Rightarrow> EditionID \<Rightarrow> database \<Rightarrow> wireBookmark list reply" where
  "ReadingBookmarksListHandler ck c editionID db =
     (case readingScope c of
        None \<Rightarrow> unauthenticated
      | Some (userID, libID) \<Rightarrow>
         (case bookmark_FindByEditionAndUser ck db userID libID editionID of
            Inl err \<Rightarrow> RDomain err
          | Inr bs \<Rightarrow> ROk 200 (map bookmarkToWire bs)))"

text \<open>An optional text of the request: empty when absent, else within its bound.\<close>

definition optional_text :: "string \<Rightarrow> string \<Rightarrow> nat \<Rightarrow> 'a reply option" where
  "optional_text field value bound =
     (if value = [] then None
      else (case ValidateBoundedText field value bound of
              None \<Rightarrow> None | Some err \<Rightarrow> Some (RText InvalidInput err)))"

definition ReadingBookmarkCreateHandler ::
  "string \<Rightarrow> instant \<Rightarrow> req_context \<Rightarrow> EditionID \<Rightarrow> string \<Rightarrow> (string \<times> string option) option \<Rightarrow> database
   \<Rightarrow> wireBookmark reply \<times> database" where
  "ReadingBookmarkCreateHandler newID now c editionID deviceID body db =
     (if editionID = [] then (refuse InvalidInput ''editionId is required'', db)
      else (case readingScope c of
        None \<Rightarrow> (unauthenticated, db)
      | Some (userID, libID) \<Rightarrow>
         (case assertDeviceActive db deviceID userID of
            Some r \<Rightarrow> (r, db)
          | None \<Rightarrow>
         (case edition_gate db editionID libID of
            Some r \<Rightarrow> (r, db)
          | None \<Rightarrow>
         (case body of
            None \<Rightarrow> (bad_body, db)
          | Some (cfi, label) \<Rightarrow>
         (case ValidateCFI cfi of
            Some err \<Rightarrow> (RDomain err, db)
          | None \<Rightarrow>
         (case optional_text ''label'' (orEmpty label) 500 of
            Some r \<Rightarrow> (r, db)
          | None \<Rightarrow>
             (let b = NewBookmark newID editionID cfi (orEmpty label) now in
              case bookmark_SaveForUser userID libID b db of
                (Some err, d) \<Rightarrow> (RDomain err, d)
              | (None, d) \<Rightarrow> (ROk 201 (bookmarkToWire b), d)))))))))"

definition ReadingBookmarkDeleteHandler ::
  "req_context \<Rightarrow> string \<Rightarrow> BookmarkID \<Rightarrow> database \<Rightarrow> unit reply \<times> database" where
  "ReadingBookmarkDeleteHandler c deviceID i db =
     (case readingScope c of
        None \<Rightarrow> (unauthenticated, db)
      | Some (userID, _) \<Rightarrow>
         (case assertDeviceActive db deviceID userID of
            Some r \<Rightarrow> (r, db)
          | None \<Rightarrow>
             (case bookmark_DeleteAndUser userID i db of
                (Some err, d) \<Rightarrow> (RDomain err, d) | (None, d) \<Rightarrow> (ROk 204 (), d))))"

section \<open>Highlights\<close>

record wireHighlight =
  wh_ID :: string
  wh_EditionID :: string
  wh_StartCFI :: string
  wh_EndCFI :: string
  wh_Note :: string
  wh_Category :: string
  wh_CreatedAt :: instant

definition highlightToWire :: "Highlight \<Rightarrow> wireHighlight" where
  "highlightToWire h =
     \<lparr> wh_ID = hl_id h, wh_EditionID = hl_editionID h, wh_StartCFI = hl_startPosition h,
       wh_EndCFI = hl_endPosition h, wh_Note = hl_note h, wh_Category = hl_category h,
       wh_CreatedAt = hl_createdAt h \<rparr>"

record highlight_body =
  hb_StartCFI :: string
  hb_EndCFI :: string
  hb_Note :: "string option"
  hb_Category :: "string option"

definition ReadingHighlightsListHandler ::
  "(string \<Rightarrow> 'k :: linorder) \<Rightarrow> req_context \<Rightarrow> EditionID \<Rightarrow> database \<Rightarrow> wireHighlight list reply" where
  "ReadingHighlightsListHandler ck c editionID db =
     (case readingScope c of
        None \<Rightarrow> unauthenticated
      | Some (userID, libID) \<Rightarrow>
         (case highlight_FindByEditionAndUser ck db userID libID editionID of
            Inl err \<Rightarrow> RDomain err
          | Inr hs \<Rightarrow> ROk 200 (map highlightToWire hs)))"

definition note_and_category :: "string \<Rightarrow> string \<Rightarrow> 'a reply option" where
  "note_and_category note categ =
     (case optional_text ''note'' note 2000 of Some r \<Rightarrow> Some r | None \<Rightarrow> optional_text ''category'' categ 50)"

definition highlight_range :: "highlight_body \<Rightarrow> 'a reply option" where
  "highlight_range req =
     (case ValidateCFI (hb_StartCFI req) of
        Some err \<Rightarrow> Some (RDomain err)
      | None \<Rightarrow>
         (case ValidateCFI (hb_EndCFI req) of
            Some err \<Rightarrow> Some (RDomain err)
          | None \<Rightarrow>
             (if CFISortsBefore (hb_EndCFI req) (hb_StartCFI req)
              then Some (refuse InvalidInput ''endCfi must not sort before startCfi'') else None)))"

definition ReadingHighlightCreateHandler ::
  "string \<Rightarrow> instant \<Rightarrow> req_context \<Rightarrow> EditionID \<Rightarrow> string \<Rightarrow> highlight_body option \<Rightarrow> database
   \<Rightarrow> wireHighlight reply \<times> database" where
  "ReadingHighlightCreateHandler newID now c editionID deviceID body db =
     (if editionID = [] then (refuse InvalidInput ''editionId is required'', db)
      else (case readingScope c of
        None \<Rightarrow> (unauthenticated, db)
      | Some (userID, libID) \<Rightarrow>
         (case assertDeviceActive db deviceID userID of
            Some r \<Rightarrow> (r, db)
          | None \<Rightarrow>
         (case edition_gate db editionID libID of
            Some r \<Rightarrow> (r, db)
          | None \<Rightarrow>
         (case body of
            None \<Rightarrow> (bad_body, db)
          | Some req \<Rightarrow>
         (case highlight_range req of
            Some r \<Rightarrow> (r, db)
          | None \<Rightarrow>
         (case note_and_category (orEmpty (hb_Note req)) (orEmpty (hb_Category req)) of
            Some r \<Rightarrow> (r, db)
          | None \<Rightarrow>
             (let h = NewHighlight newID editionID (hb_StartCFI req) (hb_EndCFI req) (orEmpty (hb_Note req))
                        (orEmpty (hb_Category req)) now in
              case highlight_SaveForUser userID libID h db of
                (Some err, d) \<Rightarrow> (RDomain err, d)
              | (None, d) \<Rightarrow> (ROk 201 (highlightToWire h), d)))))))))"

text \<open>The patch: absent members keep their value, and nothing is written when nothing changes.\<close>

definition ReadingHighlightPatchHandler ::
  "req_context \<Rightarrow> string \<Rightarrow> HighlightID \<Rightarrow> (string option \<times> string option) option \<Rightarrow> database
   \<Rightarrow> wireHighlight reply \<times> database" where
  "ReadingHighlightPatchHandler c deviceID i body db =
     (case readingScope c of
        None \<Rightarrow> (unauthenticated, db)
      | Some (userID, _) \<Rightarrow>
         (case assertDeviceActive db deviceID userID of
            Some r \<Rightarrow> (r, db)
          | None \<Rightarrow>
         (case highlight_FindByIDAndUser db userID i of
            Inl err \<Rightarrow> (RDomain err, db)
          | Inr old \<Rightarrow>
         (case body of
            None \<Rightarrow> (bad_body, db)
          | Some (note', categ') \<Rightarrow>
             (let note = (case note' of None \<Rightarrow> hl_note old | Some n \<Rightarrow> n);
                  categ = (case categ' of None \<Rightarrow> hl_category old | Some k \<Rightarrow> k);
                  updated = highlightToWire (NewHighlight (hl_id old) (hl_editionID old) (hl_startPosition old)
                    (hl_endPosition old) note categ (hl_createdAt old)) in
              case note_and_category note categ of
                Some r \<Rightarrow> (r, db)
              | None \<Rightarrow>
                 (if note \<noteq> hl_note old \<or> categ \<noteq> hl_category old then
                    (case UpdateNoteCategoryAndUser userID i note categ db of
                       (Some err, d) \<Rightarrow> (RDomain err, d)
                     | (None, d) \<Rightarrow> (ROk 200 updated, d))
                  else (ROk 200 updated, db)))))))"

definition ReadingHighlightDeleteHandler ::
  "req_context \<Rightarrow> string \<Rightarrow> HighlightID \<Rightarrow> database \<Rightarrow> unit reply \<times> database" where
  "ReadingHighlightDeleteHandler c deviceID i db =
     (case readingScope c of
        None \<Rightarrow> (unauthenticated, db)
      | Some (userID, _) \<Rightarrow>
         (case assertDeviceActive db deviceID userID of
            Some r \<Rightarrow> (r, db)
          | None \<Rightarrow>
             (case highlight_DeleteAndUser userID i db of
                (Some err, d) \<Rightarrow> (RDomain err, d) | (None, d) \<Rightarrow> (ROk 204 (), d))))"

section \<open>Preferences\<close>

record wirePreferences =
  pf_Font :: string
  pf_FontSize :: float64
  pf_LineSpacing :: float64
  pf_Theme :: string
  pf_LayoutMode :: string
  pf_ColumnWidth :: string

definition defaultPreferences :: wirePreferences where
  "defaultPreferences =
     \<lparr> pf_Font = ''serif'', pf_FontSize = Fin 19, pf_LineSpacing = Fin (3 / 2), pf_Theme = ''light'',
       pf_LayoutMode = ''paginated'', pf_ColumnWidth = ''default'' \<rparr>"

text \<open>\<open>parseFloat\<close> and \<open>formatFloat\<close> are \<open>strconv\<close>'s; the first is \<open>None\<close> on an error.\<close>

definition preferencesToWire :: "(string \<Rightarrow> float64 option) \<Rightarrow> ReadingPreferences \<Rightarrow> wirePreferences" where
  "preferencesToWire parseFloat p =
     (let s = map_of (rp_settings p); out = defaultPreferences;
          text = (\<lambda>key old. case s key of None \<Rightarrow> old | Some v \<Rightarrow> v);
          num = (\<lambda>key old. case s key of
                    None \<Rightarrow> old | Some v \<Rightarrow> (case parseFloat v of None \<Rightarrow> old | Some f \<Rightarrow> f)) in
      \<lparr> pf_Font = text ''font'' (pf_Font out), pf_FontSize = num ''fontSize'' (pf_FontSize out),
        pf_LineSpacing = num ''lineSpacing'' (pf_LineSpacing out), pf_Theme = text ''theme'' (pf_Theme out),
        pf_LayoutMode = text ''layoutMode'' (pf_LayoutMode out),
        pf_ColumnWidth = text ''columnWidth'' (pf_ColumnWidth out) \<rparr>)"

definition validatePreferences :: "wirePreferences \<Rightarrow> go_error option" where
  "validatePreferences p =
     (case (if pf_Font p = [] then None else ValidateBoundedText ''font'' (pf_Font p) 60) of
        Some err \<Rightarrow> Some err
      | None \<Rightarrow>
         (if pf_Theme p \<notin> {''light'', ''sepia'', ''dark''} then
            Some (derr InvalidInput ''theme must be light, sepia, or dark'')
          else if pf_LayoutMode p \<notin> {''paginated'', ''scroll''} then
            Some (derr InvalidInput ''layoutMode must be paginated or scroll'')
          else if pf_ColumnWidth p \<notin> {''narrow'', ''default'', ''wide''} then
            Some (derr InvalidInput ''columnWidth must be narrow, default, or wide'')
          else if flt (pf_FontSize p) (Fin 12) \<or> flt (Fin 32) (pf_FontSize p) then
            Some (derr InvalidInput ''fontSize must be between 12 and 32'')
          else if flt (pf_LineSpacing p) (Fin 1) \<or> flt (Fin (5 / 2)) (pf_LineSpacing p) then
            Some (derr InvalidInput ''lineSpacing must be between 1.0 and 2.5'')
          else None))"

definition ReadingPreferencesGetHandler ::
  "(string \<Rightarrow> float64 option) \<Rightarrow> req_context \<Rightarrow> string \<Rightarrow> database \<Rightarrow> wirePreferences reply" where
  "ReadingPreferencesGetHandler parseFloat c deviceID db =
     (case ValidateDeviceID deviceID of
        Some err \<Rightarrow> RDomain err
      | None \<Rightarrow>
         (case readingScope c of
            None \<Rightarrow> unauthenticated
          | Some (userID, _) \<Rightarrow>
             (case preferences_FindByUserAndDevice db userID deviceID of
                Inl err \<Rightarrow> (if CategoryOf err = NotFound then ROk 200 defaultPreferences else RDomain err)
              | Inr p \<Rightarrow> ROk 200 (preferencesToWire parseFloat p))))"

definition preferences_of_wire :: "(float64 \<Rightarrow> string) \<Rightarrow> DeviceID \<Rightarrow> wirePreferences \<Rightarrow> ReadingPreferences" where
  "preferences_of_wire formatFloat deviceID req =
     SetPreference (SetPreference (SetPreference (SetPreference (SetPreference (SetPreference
       (NewReadingPreferences deviceID) ''font'' (pf_Font req)) ''theme'' (pf_Theme req))
       ''layoutMode'' (pf_LayoutMode req)) ''columnWidth'' (pf_ColumnWidth req))
       ''fontSize'' (formatFloat (pf_FontSize req))) ''lineSpacing'' (formatFloat (pf_LineSpacing req))"

definition ReadingPreferencesPutHandler ::
  "(string \<Rightarrow> float64 option) \<Rightarrow> (float64 \<Rightarrow> string) \<Rightarrow> jsonb \<Rightarrow> req_context \<Rightarrow> string \<Rightarrow> wirePreferences option
   \<Rightarrow> database \<Rightarrow> wirePreferences reply \<times> database" where
  "ReadingPreferencesPutHandler parseFloat formatFloat jsonb c deviceID body db =
     (case ValidateDeviceID deviceID of
        Some err \<Rightarrow> (RDomain err, db)
      | None \<Rightarrow>
         (case readingScope c of
            None \<Rightarrow> (unauthenticated, db)
          | Some (userID, _) \<Rightarrow>
         (case assertDeviceActive db deviceID userID of
            Some r \<Rightarrow> (r, db)
          | None \<Rightarrow>
         (case body of
            None \<Rightarrow> (bad_body, db)
          | Some req \<Rightarrow>
         (case validatePreferences req of
            Some err \<Rightarrow> (RText InvalidInput err, db)
          | None \<Rightarrow>
             (let p = preferences_of_wire formatFloat deviceID req in
              case preferences_SaveForUser jsonb userID p db of
                (Some err, d) \<Rightarrow> (RDomain err, d)
              | (None, d) \<Rightarrow> (ROk 200 (preferencesToWire parseFloat p), d)))))))"

end
