(* ===== verification/Reading_Safety.thy ===== *)
theory Reading_Safety
  imports Reading_Handlers
begin

text \<open>
  What the reading endpoints promise: a user's reading data is nobody else's business.
\<close>

section \<open>Requests\<close>

datatype reading_request =
    GetProgress WorkID
  | Report WorkID "wireProgressReport option"
  | ListBookmarks EditionID
  | CreateBookmark EditionID "(string \<times> string option) option"
  | DeleteBookmark BookmarkID
  | ListHighlights EditionID
  | CreateHighlight EditionID "highlight_body option"
  | PatchHighlight HighlightID "(string option \<times> string option) option"
  | DeleteHighlight HighlightID
  | GetPreferences
  | PutPreferences "wirePreferences option"

datatype reading_value =
    VProgress "wireReadingProgress option"
  | VReport "wireReadingProgress \<times> ReconcileOutcome"
  | VBookmarks "wireBookmark list"
  | VBookmark wireBookmark
  | VHighlights "wireHighlight list"
  | VHighlight wireHighlight
  | VPreferences wirePreferences
  | VNothing unit

record 'k reading_env =
  re_ck :: "string \<Rightarrow> 'k"
  re_parseFloat :: "string \<Rightarrow> float64 option"
  re_formatFloat :: "float64 \<Rightarrow> string"
  re_jsonb :: jsonb

fun reading_serve ::
  "('k :: linorder) reading_env \<Rightarrow> string \<Rightarrow> instant \<Rightarrow> req_context \<Rightarrow> string \<Rightarrow> reading_request \<Rightarrow> database
   \<Rightarrow> reading_value reply \<times> database" where
  "reading_serve E newID now c dev (GetProgress w) db = (map_reply VProgress (ReadingProgressGetHandler c w db), db)"
| "reading_serve E newID now c dev (Report w body) db =
     apfst (map_reply VReport) (ReadingProgressReportHandler newID now c w dev body db)"
| "reading_serve E newID now c dev (ListBookmarks e) db =
     (map_reply VBookmarks (ReadingBookmarksListHandler (re_ck E) c e db), db)"
| "reading_serve E newID now c dev (CreateBookmark e body) db =
     apfst (map_reply VBookmark) (ReadingBookmarkCreateHandler newID now c e dev body db)"
| "reading_serve E newID now c dev (DeleteBookmark i) db =
     apfst (map_reply VNothing) (ReadingBookmarkDeleteHandler c dev i db)"
| "reading_serve E newID now c dev (ListHighlights e) db =
     (map_reply VHighlights (ReadingHighlightsListHandler (re_ck E) c e db), db)"
| "reading_serve E newID now c dev (CreateHighlight e body) db =
     apfst (map_reply VHighlight) (ReadingHighlightCreateHandler newID now c e dev body db)"
| "reading_serve E newID now c dev (PatchHighlight i body) db =
     apfst (map_reply VHighlight) (ReadingHighlightPatchHandler c dev i body db)"
| "reading_serve E newID now c dev (DeleteHighlight i) db =
     apfst (map_reply VNothing) (ReadingHighlightDeleteHandler c dev i db)"
| "reading_serve E newID now c dev GetPreferences db =
     (map_reply VPreferences (ReadingPreferencesGetHandler (re_parseFloat E) c dev db), db)"
| "reading_serve E newID now c dev (PutPreferences body) db =
     apfst (map_reply VPreferences)
       (ReadingPreferencesPutHandler (re_parseFloat E) (re_formatFloat E) (re_jsonb E) c dev body db)"

section \<open>A user's own part of the store\<close>

text \<open>The store without the reading data of everybody else.\<close>

definition own :: "UserID \<Rightarrow> database \<Rightarrow> database" where
  "own u db = db\<lparr>reading_progress := filter (\<lambda>r. pr_user_id r = Some u) (reading_progress db),
     bookmarks := filter (\<lambda>r. bk_user_id r = Some u) (bookmarks db),
     highlights := filter (\<lambda>r. hg_user_id r = Some u) (highlights db),
     reading_preferences := filter (\<lambda>r. rx_user_id r = u) (reading_preferences db)\<rparr>"

text \<open>The reading data of everybody else.\<close>

definition others :: "UserID \<Rightarrow> database \<Rightarrow> progress_row list \<times> bookmark_row list \<times> highlight_row list \<times> preferences_row list" where
  "others u db = (filter (\<lambda>r. pr_user_id r \<noteq> Some u) (reading_progress db),
     filter (\<lambda>r. bk_user_id r \<noteq> Some u) (bookmarks db), filter (\<lambda>r. hg_user_id r \<noteq> Some u) (highlights db),
     filter (\<lambda>r. rx_user_id r \<noteq> u) (reading_preferences db))"

text \<open>A statement that does not look at or touch the reading data of others.\<close>

definition discreet :: "UserID \<Rightarrow> database \<Rightarrow> statement \<Rightarrow> bool" where
  "discreet u db st \<longleftrightarrow>
     (case st db of
        Inl e \<Rightarrow> st (own u db) = Inl e
      | Inr (d, n) \<Rightarrow> st (own u db) = Inr (own u d, n) \<and> others u d = others u db)"

lemma own_simps [simp]:
  "connected (own u db) = connected db" "tick (own u db) = own u (tick db)" "others u (tick db) = others u db"
  "edition_ids (own u db) = edition_ids db" "work_ids (own u db) = work_ids db" "library_ids (own u db) = library_ids db"
  "sync_seq (own u db) = sync_seq db" "paired_devices (own u db) = paired_devices db"
  "library_entries (own u db) = library_entries db" "editions (own u db) = editions db"
  "edition_references (own u db) = edition_references db"
  by (simp_all add: own_def connected_def tick_def others_def edition_ids_def work_ids_def)

lemma discreet_Exec:
  "discreet u db st \<Longrightarrow> Exec st db = (r, d) \<Longrightarrow> Exec st (own u db) = (r, own u d) \<and> others u d = others u db"
  by (auto simp: discreet_def Exec_def split: sum.splits prod.splits if_splits)

lemma discreet_exec_one:
  "discreet u db st \<Longrightarrow> exec_one st db = (r, d) \<Longrightarrow> exec_one st (own u db) = (r, own u d) \<and> others u d = others u db"
  using discreet_Exec [of u db st] by (auto simp: exec_one_def split: prod.splits sum.splits)

lemma discreet_exec_found:
  "discreet u db st \<Longrightarrow> exec_found e st db = (r, d) \<Longrightarrow>
     exec_found e st (own u db) = (r, own u d) \<and> others u d = others u db"
  using discreet_Exec [of u db st] by (auto simp: exec_found_def split: prod.splits sum.splits if_splits)

section \<open>Statements are discreet\<close>

lemma upsert_by_filter:
  "P r \<Longrightarrow> (\<And>x. x \<in> set t \<Longrightarrow> key x = key r \<Longrightarrow> P x) \<Longrightarrow> filter P (upsert_by key r t) = upsert_by key r (filter P t)"
  "P r \<Longrightarrow> (\<And>x. x \<in> set t \<Longrightarrow> key x = key r \<Longrightarrow> P x) \<Longrightarrow> filter (\<lambda>x. \<not> P x) (upsert_by key r t) = filter (\<lambda>x. \<not> P x) t"
  by (induction t) auto

lemma update_first_filter:
  "(\<And>x. Q x \<Longrightarrow> P x) \<Longrightarrow> (\<And>x. P (f x) = P x) \<Longrightarrow> filter P (update_first Q f t) = update_first Q f (filter P t)"
  "(\<And>x. Q x \<Longrightarrow> P x) \<Longrightarrow> (\<And>x. P (f x) = P x) \<Longrightarrow> filter (\<lambda>x. \<not> P x) (update_first Q f t) = filter (\<lambda>x. \<not> P x) t"
  by (induction t) auto

lemma delete_where_filter:
  "filter P (delete_where Q t) = delete_where Q (filter P t)"
  "(\<And>x. Q x \<Longrightarrow> P x) \<Longrightarrow> filter (\<lambda>x. \<not> P x) (delete_where Q t) = filter (\<lambda>x. \<not> P x) t"
  "(\<And>x. Q x \<Longrightarrow> P x) \<Longrightarrow> length (filter Q (filter P t)) = length (filter Q t)"
  by (auto simp: delete_where_def conj_commute intro!: filter_cong arg_cong [where f = length])

lemma mark_refers_own [simp]: "mark_refers (own u db) = mark_refers db"
  by (auto simp: mark_refers_def fun_eq_iff own_def edition_ids_def split: option.splits)

lemma row_by_fresh: "k \<notin> key ` set t \<Longrightarrow> row_by key k t = None"
  by (auto simp: row_by_def find_None_iff)

lemma discreet_bookmarks:
  assumes "bk_user_id r = Some u" "bk_id r \<notin> bk_id ` set (bookmarks db)"
  shows "discreet u db (upsert_bookmark r)"
proof -
  have "row_by bk_id (bk_id r) (bookmarks db) = None" "row_by bk_id (bk_id r) (bookmarks (own u db)) = None"
    using assms(2) by (auto intro!: row_by_fresh simp: own_def)
  then show ?thesis
    using assms(1) by (simp add: discreet_def upsert_bookmark_def upsert_stamp_def)
      (simp add: own_def others_def)
qed

lemma discreet_highlights:
  assumes "hg_user_id r = Some u" "hg_id r \<notin> hg_id ` set (highlights db)"
  shows "discreet u db (upsert_highlight r)"
proof -
  have "row_by hg_id (hg_id r) (highlights db) = None" "row_by hg_id (hg_id r) (highlights (own u db)) = None"
    using assms(2) by (auto intro!: row_by_fresh simp: own_def)
  then show ?thesis
    using assms(1) by (simp add: discreet_def upsert_highlight_def upsert_stamp_def)
      (simp add: own_def others_def)
qed

lemma discreet_delete_bookmarks:
  assumes "\<And>r. P r \<Longrightarrow> bk_user_id r = Some u"
  shows "discreet u db (delete_bookmarks P)"
  using delete_where_filter [where P = "\<lambda>r. bk_user_id r = Some u" and Q = P and t = "bookmarks db"] assms
  by (simp add: discreet_def delete_bookmarks_def own_def others_def)

lemma discreet_delete_highlights:
  assumes "\<And>r. P r \<Longrightarrow> hg_user_id r = Some u"
  shows "discreet u db (delete_highlights P)"
  using delete_where_filter [where P = "\<lambda>r. hg_user_id r = Some u" and Q = P and t = "highlights db"] assms
  by (simp add: discreet_def delete_highlights_def own_def others_def)

lemma discreet_update_highlight:
  assumes "\<And>r. P r \<Longrightarrow> hg_user_id r = Some u" "\<And>r. hg_user_id (f r) = hg_user_id r"
  shows "discreet u db (update_highlight P f)"
proof -
  have "list_ex P (filter (\<lambda>r. hg_user_id r = Some u) (highlights db)) = list_ex P (highlights db)"
    using assms(1) by (auto simp: list_ex_iff)
  then show ?thesis
    using assms by (simp add: discreet_def update_highlight_def own_def others_def
        update_first_filter [where P = "\<lambda>r. hg_user_id r = Some u"])
qed

lemma discreet_preferences: "rx_user_id r = u \<Longrightarrow> discreet u db (upsert_preferences r)"
  using upsert_by_filter [where P = "\<lambda>x. rx_user_id x = u" and key = "\<lambda>x. (rx_user_id x, rx_device_id x)" and r = r]
  by (simp add: discreet_def upsert_preferences_def own_def others_def)

lemma discreet_progress:
  assumes "pr_user_id r = Some u" "u \<noteq> []" "\<And>x. x \<in> set (reading_progress db) \<Longrightarrow> pr_id x = pr_id r \<Longrightarrow> pr_user_id x = Some u"
  shows "discreet u db (upsert_progress r)"
proof -
  let ?own = "\<lambda>r. pr_user_id r = Some u"
  have key: "pr_user_id x = Some u" if "progress_key x = progress_key r" for x
    using that assms(1,2) by (auto simp: progress_key_def split: option.splits)
  have "list_ex (\<lambda>x. pr_id x \<noteq> pr_id r \<and> progress_key x = progress_key r) (filter ?own (reading_progress db))
      = list_ex (\<lambda>x. pr_id x \<noteq> pr_id r \<and> progress_key x = progress_key r) (reading_progress db)"
    using key by (auto simp: list_ex_iff)
  moreover have "(pr_id r \<in> pr_id ` set (filter ?own (reading_progress db))) = (pr_id r \<in> pr_id ` set (reading_progress db))"
    using assms(3) by (auto simp: image_iff)
  moreover have "filter ?own (upsert_by pr_id (r\<lparr>pr_sync_sequence := q\<rparr>) (reading_progress db))
      = upsert_by pr_id (r\<lparr>pr_sync_sequence := q\<rparr>) (filter ?own (reading_progress db))"
    "filter (\<lambda>x. \<not> ?own x) (upsert_by pr_id (r\<lparr>pr_sync_sequence := q\<rparr>) (reading_progress db)) = filter (\<lambda>x. \<not> ?own x) (reading_progress db)" for q
    using assms(1,3) by (auto intro!: upsert_by_filter [where P = ?own])
  moreover have "(case pr_library_id r of None \<Rightarrow> False | Some l \<Rightarrow> l \<notin> library_ids (own u db))
      = (case pr_library_id r of None \<Rightarrow> False | Some l \<Rightarrow> l \<notin> library_ids db)"
    by (auto simp: own_def split: option.splits)
  moreover have "reading_progress (own u db) = filter ?own (reading_progress db)" by (simp add: own_def)
  ultimately show ?thesis
    by (simp add: discreet_def upsert_progress_def upsert_stamp_def Let_def cong: option.case_cong)
       (simp add: own_def others_def)
qed

section \<open>Reads are discreet\<close>

lemma find_filter: "(\<And>x. P x \<Longrightarrow> Q x) \<Longrightarrow> List.find P (filter Q t) = List.find P t"
  by (induction t) auto

lemma filter_own: "(\<And>x. P x \<Longrightarrow> Q x) \<Longrightarrow> filter P (filter Q t) = filter P t"
  by (simp add: filter_filter) (metis (mono_tags, lifting) filter_cong)

lemma owner_user: "u \<noteq> [] \<Longrightarrow> owner u = Some u"
  by (simp add: owner_def)

lemma reads_own:
  assumes "u \<noteq> []"
  shows "bookmark_FindByEditionAndUser ck (own u db) u l e = bookmark_FindByEditionAndUser ck db u l e"
    "highlight_FindByEditionAndUser ck (own u db) u l e = highlight_FindByEditionAndUser ck db u l e"
    "highlight_FindByIDAndUser (own u db) u i = highlight_FindByIDAndUser db u i"
    "progress_findByWork u l (own u db) w = progress_findByWork u l db w"
    "preferences_FindByUserAndDevice (own u db) u dev = preferences_FindByUserAndDevice db u dev"
proof -
  have t: "bookmarks (own u db) = filter (\<lambda>r. bk_user_id r = Some u) (bookmarks db)"
    "highlights (own u db) = filter (\<lambda>r. hg_user_id r = Some u) (highlights db)"
    "reading_progress (own u db) = filter (\<lambda>r. pr_user_id r = Some u) (reading_progress db)"
    "reading_preferences (own u db) = filter (\<lambda>r. rx_user_id r = u) (reading_preferences db)"
    by (simp_all add: own_def)
  show "bookmark_FindByEditionAndUser ck (own u db) u l e = bookmark_FindByEditionAndUser ck db u l e"
    unfolding bookmark_FindByEditionAndUser_def query_rows_def t owner_user [OF assms]
    by (subst filter_own) simp_all
  show "highlight_FindByEditionAndUser ck (own u db) u l e = highlight_FindByEditionAndUser ck db u l e"
    unfolding highlight_FindByEditionAndUser_def query_rows_def t owner_user [OF assms]
    by (subst filter_own) simp_all
  show "highlight_FindByIDAndUser (own u db) u i = highlight_FindByIDAndUser db u i"
    unfolding highlight_FindByIDAndUser_def query_row_def t owner_user [OF assms]
    by (subst find_filter) simp_all
  show "progress_findByWork u l (own u db) w = progress_findByWork u l db w"
    unfolding progress_findByWork_def t
    by (subst find_filter) (simp_all add: in_scope_def owner_user [OF assms])
  show "preferences_FindByUserAndDevice (own u db) u dev = preferences_FindByUserAndDevice db u dev"
    unfolding preferences_FindByUserAndDevice_def query_row_def t
    by (subst find_filter) simp_all
qed

lemma gates_own [simp]:
  "edition_gate (own u db) = edition_gate db" "assertWorkInLibrary (own u db) = assertWorkInLibrary db"
  "assertDeviceActive (own u db) = assertDeviceActive db"
proof -
  have d: "device_FindByID (own u db) = device_FindByID db" by (simp add: fun_eq_iff device_FindByID_def device_query_def)
  show "assertDeviceActive (own u db) = assertDeviceActive db"
    by (intro ext) (unfold assertDeviceActive_def d, rule refl)
qed (simp_all add: fun_eq_iff edition_gate_def EditionInLibrary_def assertWorkInLibrary_def WorkInLibrary_def)

lemma reported_position_own [simp]: "reported_position (own u db) = reported_position db"
proof -
  have "edition_load (own u db) e = edition_load db e" for e
    by (simp add: edition_load_def cong: option.case_cong sum.case_cong)
  then have c: "CheckPrecisePositionWork PgEditionRepository (own u db) = CheckPrecisePositionWork PgEditionRepository db"
    by (intro ext) (simp add: CheckPrecisePositionWork_def PgEditionRepository_def cong: option.case_cong)
  show ?thesis by (intro ext) (unfold reported_position_def c, rule refl)
qed

section \<open>Writes are discreet\<close>

definition apart :: "UserID \<Rightarrow> (database \<Rightarrow> 'a \<times> database) \<Rightarrow> database \<Rightarrow> bool" where
  "apart u f db \<longleftrightarrow> f (own u db) = apsnd (own u) (f db) \<and> others u (snd (f db)) = others u db"

lemma apart_return: "apart u (\<lambda>d. (r, d)) db"
  by (simp add: apart_def)

lemma apart_reply:
  assumes "apart u f db"
  shows "apart u (\<lambda>d. case f d of (None, d') \<Rightarrow> (g, d') | (Some e, d') \<Rightarrow> (h e, d')) db"
  using assms unfolding apart_def by (cases "f db"; cases "fst (f db)") auto

lemma apart_methods:
  "discreet u db st \<Longrightarrow> apart u (exec_one st) db" "discreet u db st \<Longrightarrow> apart u (exec_found e st) db"
  unfolding apart_def
  using discreet_exec_one [of u db st "fst (exec_one st db)" "snd (exec_one st db)"]
    discreet_exec_found [of u db st e "fst (exec_found e st db)" "snd (exec_found e st db)"]
  by (auto simp: apsnd_def map_prod_def split: prod.splits)

lemma rollback_own: "rollback (own u db) (own u d) = own u (rollback db d)" "others u (rollback db d) = others u db"
  by (simp_all add: rollback_def own_def others_def)

lemma apart_InTx: "apart u f db \<Longrightarrow> apart u (InTx f) db"
  unfolding apart_def InTx_def
  by (cases "f db"; cases "fst (f db)") (auto simp: rollback_own split: sum.splits)

lemma apart_save_progress:
  assumes "u \<noteq> []" "\<And>x. x \<in> set (reading_progress db) \<Longrightarrow> pr_id x = rp_id p \<Longrightarrow> pr_user_id x = Some u"
  shows "apart u (save_outcome (PgProgressStore u l) p out) db"
proof -
  have "apart u (progress_SaveForUser u l p) db"
    unfolding progress_SaveForUser_def
    using assms by (intro apart_methods discreet_progress) (auto simp: progress_row_of_def owner_def)
  then show ?thesis
    unfolding apart_def save_outcome_def PgProgressStore_def
    by (cases "progress_SaveForUser u l p db"; cases "fst (progress_SaveForUser u l p db)") auto
qed

lemma reconciled_id:
  "rp_id (OverrideProgress p q pos d t) = rp_id p" "ReconcileProgress p report = (p', out) \<Longrightarrow> rp_id p' = rp_id p"
  by (auto simp: OverrideProgress_def ReconcileProgress_def Let_def split: if_splits)

lemma apart_report:
  assumes "u \<noteq> []" "progress_inv db" "newID \<notin> pr_id ` set (reading_progress db)"
  shows "apart u (report_body (PgProgressStore u l) newID report override) db"
proof -
  have f: "ps_FindByWorkForUpdate (PgProgressStore u l) = progress_findByWork u l" by (simp add: PgProgressStore_def)
  note r = reads_own(4) [OF assms(1), of l db "pg_WorkID report"]
  show ?thesis
  proof (cases "progress_findByWork u l db (pg_WorkID report)")
    case (Inl e)
    have "apart u (save_outcome (PgProgressStore u l) (FirstProgress newID report) ReconcileAdvanced) db"
      using assms(1,3) by (intro apart_save_progress) (auto simp: FirstProgress_def)
    then show ?thesis using Inl r by (simp add: apart_def report_body_def f)
  next
    case (Inr current)
    have "progress_owns u l db (rp_id current) (pg_WorkID report)"
      using pgprogress.found [OF assms(2), of u l "pg_WorkID report" current] Inr f by simp
    then have own: "apart u (save_outcome (PgProgressStore u l) p out) db" if "rp_id p = rp_id current" for p out
      using that assms(1) by (intro apart_save_progress) (auto simp: progress_owns_def in_scope_def owner_def)
    obtain p out where p: "ReconcileProgress current report = (p, out)" by fastforce
    show ?thesis
      using Inr r p own [OF reconciled_id(1)] own [OF reconciled_id(2) [OF p]]
      by (simp add: apart_def report_body_def f)
  qed
qed

text \<open>The identifier is new and the progress rows have distinct ones.\<close>

definition fresh_id :: "string \<Rightarrow> database \<Rightarrow> bool" where
  "fresh_id i db \<longleftrightarrow> progress_inv db \<and> i \<notin> pr_id ` set (reading_progress db) \<and> i \<notin> bk_id ` set (bookmarks db)
     \<and> i \<notin> hg_id ` set (highlights db)"

lemma readingScope_user: "readingScope c = Some (u, l) \<Longrightarrow> u \<noteq> []"
  by (auto simp: readingScope_def split: option.splits if_splits)

lemma apart_saves:
  assumes "u \<noteq> []" "fresh_id newID db"
  shows "apart u (bookmark_SaveForUser u l (NewBookmark newID e p t n)) db"
    "apart u (highlight_SaveForUser u l (NewHighlight newID e p q t k n)) db"
    "apart u (bookmark_DeleteAndUser u i) db" "apart u (highlight_DeleteAndUser u i) db"
    "apart u (UpdateNoteCategoryAndUser u i t k) db"
    "ReadingPreferences.rp_deviceID pf = dev \<Longrightarrow> apart u (preferences_SaveForUser jsonb u pf) db"
proof -
  note [simp] = owner_user [OF assms(1)]
  show "apart u (bookmark_SaveForUser u l (NewBookmark newID e p t n)) db"
    "apart u (highlight_SaveForUser u l (NewHighlight newID e p q t k n)) db"
    unfolding bookmark_SaveForUser_def highlight_SaveForUser_def
    using assms(2) by (intro apart_methods discreet_bookmarks discreet_highlights;
      simp add: bookmark_row_of_def NewBookmark_def highlight_row_of_def NewHighlight_def fresh_id_def)+
  show "apart u (bookmark_DeleteAndUser u i) db" "apart u (highlight_DeleteAndUser u i) db"
    "apart u (UpdateNoteCategoryAndUser u i t k) db"
    unfolding bookmark_DeleteAndUser_def highlight_DeleteAndUser_def UpdateNoteCategoryAndUser_def
    by (intro apart_methods discreet_delete_bookmarks discreet_delete_highlights discreet_update_highlight; simp)+
  have "discreet u db (\<lambda>db. case jsonb (settings_json (rp_settings pf)) of
      None \<Rightarrow> Inl invalid_text_representation
    | Some t \<Rightarrow> upsert_preferences \<lparr> rx_user_id = u, rx_device_id = ReadingPreferences.rp_deviceID pf, rx_settings = t \<rparr> db)"
    using discreet_preferences by (cases "jsonb (settings_json (rp_settings pf))") (simp_all add: discreet_def)
  then show "apart u (preferences_SaveForUser jsonb u pf) db"
    unfolding preferences_SaveForUser_def by (rule apart_methods)
qed

lemma apart_map: "apart u f db \<Longrightarrow> apart u (\<lambda>d. apfst g (f d)) db"
  unfolding apart_def by (cases "f db") auto

lemma apart_read: "f (own u db) = f db \<Longrightarrow> apart u (\<lambda>d. (f d, d)) db"
  by (simp add: apart_def)

lemma apart_cases:
  assumes "apart u f db"
  obtains r d where "f db = (r, d)" "f (own u db) = (r, own u d)" "others u d = others u db"
  using assms unfolding apart_def by (cases "f db") simp

lemma apart_bookmark_create:
  assumes "readingScope c = Some (u, l)" "fresh_id newID db"
  shows "apart u (ReadingBookmarkCreateHandler newID now c e dev body) db"
proof (cases body)
  case (Some req)
  obtain cfi label where req: "req = (cfi, label)" by fastforce
  obtain r d where "bookmark_SaveForUser u l (NewBookmark newID e cfi (orEmpty label) now) db = (r, d)"
      "bookmark_SaveForUser u l (NewBookmark newID e cfi (orEmpty label) now) (own u db) = (r, own u d)"
      "others u d = others u db"
    by (rule apart_cases [OF apart_saves(1) [OF readingScope_user [OF assms(1)] assms(2)]])
  then show ?thesis
    unfolding apart_def ReadingBookmarkCreateHandler_def Let_def assms(1) gates_own Some req
    by (auto split: option.splits)
qed (auto simp: apart_def ReadingBookmarkCreateHandler_def assms(1) split: option.splits)

lemma apart_highlight_create:
  assumes "readingScope c = Some (u, l)" "fresh_id newID db"
  shows "apart u (ReadingHighlightCreateHandler newID now c e dev body) db"
proof (cases body)
  case (Some req)
  let ?h = "NewHighlight newID e (hb_StartCFI req) (hb_EndCFI req) (orEmpty (hb_Note req)) (orEmpty (hb_Category req)) now"
  obtain r d where "highlight_SaveForUser u l ?h db = (r, d)" "highlight_SaveForUser u l ?h (own u db) = (r, own u d)"
      "others u d = others u db"
    by (rule apart_cases [OF apart_saves(2) [OF readingScope_user [OF assms(1)] assms(2)]])
  then show ?thesis
    unfolding apart_def ReadingHighlightCreateHandler_def Let_def assms(1) gates_own Some
    by (auto split: option.splits)
qed (auto simp: apart_def ReadingHighlightCreateHandler_def assms(1) split: option.splits)

lemma apart_deletes:
  assumes "readingScope c = Some (u, l)" "fresh_id newID db"
  shows "apart u (ReadingBookmarkDeleteHandler c dev i) db" "apart u (ReadingHighlightDeleteHandler c dev i) db"
proof -
  note u = readingScope_user [OF assms(1)]
  obtain r d where "bookmark_DeleteAndUser u i db = (r, d)" "bookmark_DeleteAndUser u i (own u db) = (r, own u d)"
      "others u d = others u db"
    by (rule apart_cases [OF apart_saves(3) [OF u assms(2)]])
  then show "apart u (ReadingBookmarkDeleteHandler c dev i) db"
    unfolding apart_def ReadingBookmarkDeleteHandler_def assms(1) gates_own by (auto split: option.splits)
  obtain r d where "highlight_DeleteAndUser u i db = (r, d)" "highlight_DeleteAndUser u i (own u db) = (r, own u d)"
      "others u d = others u db"
    by (rule apart_cases [OF apart_saves(4) [OF u assms(2)]])
  then show "apart u (ReadingHighlightDeleteHandler c dev i) db"
    unfolding apart_def ReadingHighlightDeleteHandler_def assms(1) gates_own by (auto split: option.splits)
qed

lemma apart_patch:
  assumes "readingScope c = Some (u, l)" "fresh_id newID db"
  shows "apart u (ReadingHighlightPatchHandler c dev i body) db"
proof -
  note u = readingScope_user [OF assms(1)]
  show ?thesis
  proof (cases "highlight_FindByIDAndUser db u i")
    case (Inl e)
    then show ?thesis
      unfolding apart_def ReadingHighlightPatchHandler_def assms(1) gates_own reads_own(3) [OF u] option.case prod.case
      by (auto split: option.splits)
  next
    case (Inr old)
    show ?thesis
    proof (cases body)
      case (Some req)
      obtain n k where req: "req = (n, k)" by fastforce
      let ?n = "case n of None \<Rightarrow> hl_note old | Some n \<Rightarrow> n" and ?k = "case k of None \<Rightarrow> hl_category old | Some k \<Rightarrow> k"
      obtain r d where up: "UpdateNoteCategoryAndUser u i ?n ?k db = (r, d)"
          "UpdateNoteCategoryAndUser u i ?n ?k (own u db) = (r, own u d)" "others u d = others u db"
        by (rule apart_cases [OF apart_saves(5) [OF u assms(2)]])
      show ?thesis
        unfolding apart_def ReadingHighlightPatchHandler_def assms(1) gates_own reads_own(3) [OF u] option.case prod.case
          Inr sum.case Some req Let_def up
        using up(3) by (auto split: option.split)
    next
      case None
      then show ?thesis
        unfolding apart_def ReadingHighlightPatchHandler_def assms(1) gates_own reads_own(3) [OF u] option.case prod.case
          Inr sum.case None by (simp split: option.split)
    qed
  qed
qed

lemma apart_put_preferences:
  assumes "readingScope c = Some (u, l)" "fresh_id newID db"
  shows "apart u (ReadingPreferencesPutHandler pf ff jsonb c dev body) db"
proof (cases body)
  case (Some req)
  note u = readingScope_user [OF assms(1)]
  obtain r d where "preferences_SaveForUser jsonb u (preferences_of_wire ff dev req) db = (r, d)"
      "preferences_SaveForUser jsonb u (preferences_of_wire ff dev req) (own u db) = (r, own u d)" "others u d = others u db"
    by (rule apart_cases [OF apart_saves(6) [OF u assms(2) refl]])
  then show ?thesis
    unfolding apart_def ReadingPreferencesPutHandler_def assms(1) gates_own Some Let_def by (auto split: option.splits)
qed (auto simp: apart_def ReadingPreferencesPutHandler_def assms(1) split: option.splits)

lemma apart_report_handler:
  assumes "readingScope c = Some (u, l)" "fresh_id newID db"
  shows "apart u (ReadingProgressReportHandler newID now c w dev body) db"
proof (cases body)
  case (Some req)
  note u = readingScope_user [OF assms(1)]
  have rep: "apart u (InTx (report_body (PgProgressStore u l) newID report ov)) db" for report ov
    using assms(2) by (intro apart_InTx apart_report u) (simp_all add: fresh_id_def)
  show ?thesis
  proof (cases "reported_position db w (wq_PrecisePosition req) :: (wireReadingProgress \<times> ReconcileOutcome) reply + _")
    case (Inl e)
    then show ?thesis
      unfolding apart_def ReadingProgressReportHandler_def assms(1) gates_own reported_position_own Some
      by (auto split: option.splits)
  next
    case (Inr pos)
    let ?report = "\<lparr> pg_WorkID = w, pg_Percentage = wq_Percentage req, pg_ObservedEpoch = wq_ObservedEpoch req,
      pg_PrecisePosition = pos, pg_DeviceID = dev, pg_ReportedAt = now \<rparr>"
    obtain r d where "InTx (report_body (PgProgressStore u l) newID ?report (wq_Override req)) db = (r, d)"
        "InTx (report_body (PgProgressStore u l) newID ?report (wq_Override req)) (own u db) = (r, own u d)"
        "others u d = others u db"
      by (rule apart_cases [OF rep])
    then show ?thesis
      unfolding apart_def ReadingProgressReportHandler_def assms(1) gates_own reported_position_own Some
      by (auto simp: Inr ReportProgress_def split: option.splits sum.splits)
  qed
qed (auto simp: apart_def ReadingProgressReportHandler_def assms(1) split: option.splits)

lemma reading_serve_writes:
  "reading_serve E newID now c dev (Report w pb) =
     (\<lambda>d. apfst (map_reply VReport) (ReadingProgressReportHandler newID now c w dev pb d))"
  "reading_serve E newID now c dev (CreateBookmark e bb) =
     (\<lambda>d. apfst (map_reply VBookmark) (ReadingBookmarkCreateHandler newID now c e dev bb d))"
  "reading_serve E newID now c dev (DeleteBookmark i) =
     (\<lambda>d. apfst (map_reply VNothing) (ReadingBookmarkDeleteHandler c dev i d))"
  "reading_serve E newID now c dev (CreateHighlight e hb) =
     (\<lambda>d. apfst (map_reply VHighlight) (ReadingHighlightCreateHandler newID now c e dev hb d))"
  "reading_serve E newID now c dev (PatchHighlight i ub) =
     (\<lambda>d. apfst (map_reply VHighlight) (ReadingHighlightPatchHandler c dev i ub d))"
  "reading_serve E newID now c dev (DeleteHighlight i) =
     (\<lambda>d. apfst (map_reply VNothing) (ReadingHighlightDeleteHandler c dev i d))"
  "reading_serve E newID now c dev (PutPreferences xb) =
     (\<lambda>d. apfst (map_reply VPreferences)
       (ReadingPreferencesPutHandler (re_parseFloat E) (re_formatFloat E) (re_jsonb E) c dev xb d))"
  by (simp_all add: fun_eq_iff)

lemma apart_serve:
  assumes "readingScope c = Some (u, l)" "fresh_id newID db"
  shows "apart u (reading_serve E newID now c dev req) db"
proof (cases req)
  case (GetProgress w)
  then show ?thesis
    unfolding apart_def by (simp add: ReadingProgressGetHandler_def assms(1) reads_own [OF readingScope_user [OF assms(1)]])
next
  case (ListBookmarks e)
  then show ?thesis
    unfolding apart_def by (simp add: ReadingBookmarksListHandler_def assms(1) reads_own [OF readingScope_user [OF assms(1)]])
next
  case (ListHighlights e)
  then show ?thesis
    unfolding apart_def by (simp add: ReadingHighlightsListHandler_def assms(1) reads_own [OF readingScope_user [OF assms(1)]])
next
  case GetPreferences
  then show ?thesis
    unfolding apart_def
    by (simp add: ReadingPreferencesGetHandler_def assms(1) reads_own [OF readingScope_user [OF assms(1)]] split: option.split)
qed (simp_all only: reading_serve_writes apart_map [OF apart_bookmark_create [OF assms]]
    apart_map [OF apart_highlight_create [OF assms]] apart_map [OF apart_deletes(1) [OF assms]]
    apart_map [OF apart_deletes(2) [OF assms]] apart_map [OF apart_patch [OF assms]]
    apart_map [OF apart_put_preferences [OF assms]] apart_map [OF apart_report_handler [OF assms]])

text \<open>C17: Reading data is private.  For a request of an authenticated user, with a new identifier, the store
  without the progress, marks and preferences of everybody else gives the same answer and the same
  data of the user as the whole store, so nothing of others can be seen; and the data of others
  is left exactly as it was.\<close>

theorem reading_data_is_private:
  assumes "readingScope c = Some (u, l)" "fresh_id newID db" "reading_serve E newID now c dev req db = (r, d)"
  shows "reading_serve E newID now c dev req (own u db) = (r, own u d) \<and> others u d = others u db"
  using apart_serve [OF assms(1,2), of E now dev req] assms(3) by (simp add: apart_def)

text \<open>A store in which two readers have a bookmark each.\<close>

definition bookmark_by :: "string \<Rightarrow> UserID \<Rightarrow> bookmark_row" where
  "bookmark_by i u = \<lparr> bk_id = i, bk_edition_id = ''e'', bk_user_id = Some u, bk_library_id = Some ''L'',
     bk_position = ''epubcfi(/6/4)'', bk_label = [], bk_created_at = 0, bk_sync_sequence = 1 \<rparr>"

definition two_readers :: database where
  "two_readers = (empty_database [])\<lparr>bookmarks := [bookmark_by ''a'' ''u'', bookmark_by ''b'' ''v'']\<rparr>"

definition as_user :: "UserID \<Rightarrow> req_context" where
  "as_user u = \<lparr> cx_user = Some \<lparr> au_UserID = u, au_Username = u, au_Role = ''reader'', au_Libraries = [''L''] \<rparr>,
     cx_library = ''L'' \<rparr>"

definition plain_env :: "nat reading_env" where
  "plain_env = \<lparr> re_ck = length, re_parseFloat = (\<lambda>_. None), re_formatFloat = (\<lambda>_. []), re_jsonb = Some \<rparr>"

text \<open>The user \<open>u\<close> cannot delete the bookmark of \<open>v\<close>: it is not found, and stays.\<close>

theorem reading_data_is_private_witness:
  "reading_serve plain_env ''n'' 0 (as_user ''u'') [] (DeleteBookmark ''b'') two_readers
     = (RDomain (derr NotFound ''bookmark not found''), tick two_readers)
   \<and> reading_serve plain_env ''n'' 0 (as_user ''u'') [] (DeleteBookmark ''b'') (own ''u'' two_readers)
     = (RDomain (derr NotFound ''bookmark not found''), own ''u'' (tick two_readers))
   \<and> others ''u'' (tick two_readers) = others ''u'' two_readers"
proof -
  have scope: "readingScope (as_user ''u'') = Some (''u'', ''L'')"
    by (simp add: readingScope_def as_user_def ActiveLibraryFromContext_def)
  have fresh: "fresh_id ''n'' two_readers"
    by (simp add: fresh_id_def progress_inv_def two_readers_def empty_database_def bookmark_by_def)
  have run: "reading_serve plain_env ''n'' 0 (as_user ''u'') [] (DeleteBookmark ''b'') two_readers
      = (RDomain (derr NotFound ''bookmark not found''), tick two_readers)"
    by (simp add: ReadingBookmarkDeleteHandler_def scope assertDeviceActive_def bookmark_DeleteAndUser_def
        exec_found_def Exec_def delete_bookmarks_def delete_where_def connected_def two_readers_def empty_database_def bookmark_by_def
        owner_def TrimSpace_def)
  show ?thesis using run reading_data_is_private [OF scope fresh run] by blast
qed

end
