(* ===== verification/Device_Sync.thy ===== *)
theory Device_Sync
  imports Reading_Handlers
begin

text \<open>
  \<open>transport/http/device_sync.go\<close>: the middleware that checks the requesting device, the list and the
  revocation of a user's devices, and the two synchronisation endpoints.

  A request comes with its context, its path, the value of its \<open>X-Device-Id\<close> header and its decoded body;
  the device the middleware puts into the context is an argument of the handlers, \<open>None\<close> when there is none.
  Times of answers are instants: their text in RFC 3339 is not modelled.
\<close>

section \<open>The middleware\<close>

text \<open>What the middleware does with a request: an answer, or the next handler with or without a device.\<close>

datatype sync_verdict =
    SReject category string
  | SPass "PairedDevice option"

definition isSyncRoute :: "string \<Rightarrow> bool" where
  "isSyncRoute path \<longleftrightarrow> HasPrefix path ''/api/v1/sync/''"

definition shouldUpdateDB :: "instant \<Rightarrow> PairedDevice \<Rightarrow> bool" where
  "shouldUpdateDB currentTime dev \<longleftrightarrow>
     pd_lastSeenAt dev = zero_time \<or> currentTime - pd_lastSeenAt dev \<ge> 60 * second"

definition SyncMiddleware ::
  "instant \<Rightarrow> req_context \<Rightarrow> string \<Rightarrow> string \<Rightarrow> database \<Rightarrow> sync_verdict \<times> database" where
  "SyncMiddleware now c path header db =
     (case cx_user c of
        None \<Rightarrow> (SReject Unauthorized ''unauthorized'', db)
      | Some user \<Rightarrow>
         (let devID = TrimSpace header in
          if devID = [] then
            (if isSyncRoute path then (SReject InvalidInput ''missing device identifier'', db) else (SPass None, db))
          else (case device_FindByID db devID of
             Inl err \<Rightarrow>
               (if CategoryOf err = NotFound
                then (if isSyncRoute path then (SReject Unauthorized ''unauthorized device'', db) else (SPass None, db))
                else (SReject Internal ''failed to lookup device'', db))
           | Inr dev \<Rightarrow>
               (if pd_owner dev \<noteq> au_UserID user then (SReject Unauthorized ''unauthorized device'', db)
                else if pd_revokedAt dev \<noteq> None then (SReject Unauthorized ''device revoked'', db)
                else let touched = snd (Touch now dev) in
                  (SPass (Some touched),
                   if shouldUpdateDB now dev then snd (UpdateLastSeen (pd_id dev) now db) else db)))))"

section \<open>Devices\<close>

record DeviceResponse =
  dv_ID :: string
  dv_Label :: string
  dv_DeviceClass :: string
  dv_EnrolledVia :: string
  dv_CreatedAt :: instant
  dv_LastSeenAt :: instant
  dv_LastSyncedAt :: "instant option"
  dv_RevokedAt :: "instant option"

definition device_response :: "PairedDevice \<Rightarrow> DeviceResponse" where
  "device_response d =
     \<lparr> dv_ID = pd_id d, dv_Label = pd_label d, dv_DeviceClass = pd_deviceClass d, dv_EnrolledVia = pd_enrolledVia d,
       dv_CreatedAt = pd_createdAt d, dv_LastSeenAt = pd_lastSeenAt d, dv_LastSyncedAt = pd_lastSyncedAt d,
       dv_RevokedAt = pd_revokedAt d \<rparr>"

definition ListDevicesHandler :: "req_context \<Rightarrow> database \<Rightarrow> DeviceResponse list reply" where
  "ListDevicesHandler c db =
     (case cx_user c of
        None \<Rightarrow> refuse Unauthorized ''unauthorized''
      | Some user \<Rightarrow>
         (case FindByOwner db (au_UserID user) of
            Inl err \<Rightarrow> refuse Internal ''failed to list devices''
          | Inr devices \<Rightarrow> ROk 200 (map device_response devices)))"

definition RevokeDeviceHandler :: "instant \<Rightarrow> req_context \<Rightarrow> DeviceID \<Rightarrow> database \<Rightarrow> unit reply \<times> database" where
  "RevokeDeviceHandler now c i db =
     (case cx_user c of
        None \<Rightarrow> (refuse Unauthorized ''unauthorized'', db)
      | Some user \<Rightarrow>
         (if i = [] then (refuse InvalidInput ''missing device id'', db)
          else (case device_FindByID db i of
             Inl err \<Rightarrow> (refuse NotFound ''paired device not found'', db)
           | Inr dev \<Rightarrow>
              (if pd_owner dev \<noteq> au_UserID user then (refuse NotFound ''paired device not found'', db)
               else if pd_revokedAt dev \<noteq> None then (refuse Conflict ''paired device is already revoked'', db)
               else (case device_Revoke i now db of
                       (Some err, d) \<Rightarrow> (RDomain err, d)
                     | (None, d) \<Rightarrow> (ROk 204 (), d))))))"

section \<open>Pulling\<close>

text \<open>The \<open>since\<close> parameter; \<open>None\<close> is an answer with an error.\<close>

definition since_param :: "string \<Rightarrow> int option" where
  "since_param s =
     (if s = [] then Some 0
      else (case ParseInt64 s of None \<Rightarrow> None | Some n \<Rightarrow> (if n < 0 then None else Some n)))"

definition hasUpdates :: "ReadingSyncData \<Rightarrow> bool" where
  "hasUpdates data \<longleftrightarrow> sd_Progress data \<noteq> [] \<or> sd_Bookmarks data \<noteq> [] \<or> sd_Highlights data \<noteq> []"

definition SyncReadingHandler ::
  "(int \<Rightarrow> bool) \<Rightarrow> instant \<Rightarrow> req_context \<Rightarrow> PairedDevice option \<Rightarrow> string \<Rightarrow> database
   \<Rightarrow> ReadingSyncData reply \<times> database" where
  "SyncReadingHandler released now c device sinceStr db =
     (case cx_user c of
        None \<Rightarrow> (refuse Unauthorized ''unauthorized'', db)
      | Some user \<Rightarrow>
     (case device of
        None \<Rightarrow> (refuse Unauthorized ''unauthorized device'', db)
      | Some dev \<Rightarrow>
     (case since_param sinceStr of
        None \<Rightarrow> (refuse InvalidInput ''invalid since parameter'', db)
      | Some asked \<Rightarrow>
     (let floored = (if asked < pd_syncCursor dev then pd_syncCursor dev else asked) in
      case GetSyncSequenceCeiling db of
        Inl err \<Rightarrow> (refuse Internal ''failed to check sync ceiling'', db)
      | Inr ceil \<Rightarrow>
     (let since = (if floored > ceil then ceil else floored) in
      case GetReadingSyncData released db (au_UserID user) (ActiveLibraryFromContext c) since of
        Inl err \<Rightarrow> (refuse Internal ''failed to fetch sync data'', db)
      | Inr data \<Rightarrow>
          (ROk 200 data,
           if hasUpdates data \<and> sd_Cursor data > pd_syncCursor dev
           then snd (device_AdvanceCursor (pd_id dev) (sd_Cursor data) now db) else db))))))"

section \<open>Pushing\<close>

record SyncProgressInput =
  sp_WorkID :: string
  sp_Percentage :: float64
  sp_ObservedEpoch :: int
  sp_Override :: bool
  sp_PrecisePosition :: "(string \<times> string \<times> string) option"
  sp_DeviceID :: string
  sp_ReportedAt :: "instant option"

text \<open>The position of the body: its edition with its value, or with its CFI when the value is empty.\<close>

definition pushed_position :: "(string \<times> string \<times> string) option \<Rightarrow> PrecisePosition option result" where
  "pushed_position p =
     (case p of
        None \<Rightarrow> Inr None
      | Some (editionID, v, c) \<Rightarrow>
         (let cfi = (if v = [] then c else v) in
          case ValidateCFI cfi of
            Some err \<Rightarrow> Inl err
          | None \<Rightarrow> Inr (Some \<lparr> pp_EditionID = editionID, pp_Value = cfi \<rparr>)))"

definition pushed_at :: "instant \<Rightarrow> instant option \<Rightarrow> instant" where
  "pushed_at currentTime reportedAt =
     (case reportedAt of
        None \<Rightarrow> currentTime
      | Some t \<Rightarrow>
         (if t > currentTime + minute \<or> t < currentTime - 30 * 24 * 60 * minute then currentTime else t))"

text \<open>The part of the transaction that stores the progress.\<close>

definition push_progress ::
  "UserID \<Rightarrow> LibraryID \<Rightarrow> string \<Rightarrow> ProgressReport \<Rightarrow> bool \<Rightarrow> database
   \<Rightarrow> (ReadingProgress \<times> ReconcileOutcome) result \<times> database" where
  "push_progress userID libID newID report override db =
     (case progress_findByWork userID libID db (pg_WorkID report) of
        Inl err \<Rightarrow>
          (if CategoryOf err = NotFound
           then save_outcome (PgProgressStore userID libID) (FirstProgress newID report) ReconcileAdvanced db
           else (Inl err, db))
      | Inr current \<Rightarrow>
          (if override then
             save_outcome (PgProgressStore userID libID)
               (OverrideProgress current (pg_Percentage report) (pg_PrecisePosition report)
                 (pg_DeviceID report) (pg_ReportedAt report)) ReconcileOverridden db
           else
             let clamped = (if pg_ObservedEpoch report > rp_epoch current
                            then report\<lparr>pg_ObservedEpoch := rp_epoch current\<rparr> else report) in
             (case ReconcileProgress current clamped of
                (p, out) \<Rightarrow>
                  (if out = ReconcileAdvanced then save_outcome (PgProgressStore userID libID) p out db
                   else (Inr (p, out), db)))))"

text \<open>The cursor moves only when the stamp of the row is the very next one.\<close>

definition advance_echo :: "instant \<Rightarrow> PairedDevice \<Rightarrow> string \<Rightarrow> database \<Rightarrow> int \<times> database" where
  "advance_echo now dev progressID db =
     (case GetProgressSyncSequence db progressID of
        Inl err \<Rightarrow> (pd_syncCursor dev, db)
      | Inr seq \<Rightarrow>
         (if seq = wrap64 (pd_syncCursor dev + 1) then
            (case device_AdvanceCursor (pd_id dev) seq now db of
               (Some err, d) \<Rightarrow> (pd_syncCursor dev, d)
             | (None, d) \<Rightarrow> (seq, d))
          else (pd_syncCursor dev, db)))"

definition push_body ::
  "UserID \<Rightarrow> LibraryID \<Rightarrow> string \<Rightarrow> instant \<Rightarrow> PairedDevice \<Rightarrow> ProgressReport \<Rightarrow> bool \<Rightarrow> database
   \<Rightarrow> (ReadingProgress \<times> ReconcileOutcome \<times> int) result \<times> database" where
  "push_body userID libID newID now dev report override db =
     (case push_progress userID libID newID report override db of
        (Inl err, d) \<Rightarrow> (Inl err, d)
      | (Inr (res, out), d) \<Rightarrow>
         (case advance_echo now dev (rp_id res) d of
            (cur, d') \<Rightarrow> (Inr (res, out, cur), d')))"

definition SyncProgressHandler ::
  "string \<Rightarrow> instant \<Rightarrow> req_context \<Rightarrow> PairedDevice option \<Rightarrow> SyncProgressInput option \<Rightarrow> database
   \<Rightarrow> (ReconcileOutcome \<times> wireReadingProgress \<times> int) reply \<times> database" where
  "SyncProgressHandler newID now c device body db =
     (case cx_user c of
        None \<Rightarrow> (refuse Unauthorized ''unauthorized'', db)
      | Some user \<Rightarrow>
     (let libID = ActiveLibraryFromContext c in
      case device of
        None \<Rightarrow> (refuse Unauthorized ''unauthorized device'', db)
      | Some dev \<Rightarrow>
     (case body of
        None \<Rightarrow> (refuse InvalidInput ''request body must be valid JSON'', db)
      | Some req \<Rightarrow>
     (if TrimSpace (sp_WorkID req) = [] then (refuse InvalidInput ''workId is required'', db)
      else
     (case ValidatePercentage (sp_Percentage req) of
        Some err \<Rightarrow> (RDomain err, db)
      | None \<Rightarrow>
     (case ValidateObservedEpoch (sp_ObservedEpoch req) of
        Some err \<Rightarrow> (RDomain err, db)
      | None \<Rightarrow>
     (case pushed_position (sp_PrecisePosition req) of
        Inl err \<Rightarrow> (RDomain err, db)
      | Inr pos \<Rightarrow>
     (if WorkInLibrary db (sp_WorkID req) libID \<noteq> Inr True
      then (refuse NotFound ''work not found in your library'', db)
      else
     (case CheckPrecisePositionWork PgEditionRepository db (sp_WorkID req) pos of
        Some err \<Rightarrow> (RDomain err, db)
      | None \<Rightarrow>
     (if sp_DeviceID req \<noteq> [] \<and> sp_DeviceID req \<noteq> pd_id dev
      then (refuse Unauthorized ''deviceId does not match authenticated device'', db)
      else
        let report = \<lparr> pg_WorkID = sp_WorkID req, pg_Percentage = sp_Percentage req,
              pg_ObservedEpoch = sp_ObservedEpoch req, pg_PrecisePosition = pos, pg_DeviceID = pd_id dev,
              pg_ReportedAt = pushed_at now (sp_ReportedAt req) \<rparr> in
        (case InTx (push_body (au_UserID user) libID newID now dev report (sp_Override req)) db of
           (Inl err, d) \<Rightarrow> (RDomain err, d)
         | (Inr (res, out, cur), d) \<Rightarrow> (ROk 200 (out, progressToWire res, cur), d))))))))))))"

end
