(* ===== verification/Device_Sync_Safety.thy ===== *)
theory Device_Sync_Safety
  imports Device_Sync
begin

text \<open>
  What the synchronisation endpoints promise: a push never moves the cursor over a change the device has
  not seen, and a revoked device is shut out for good.
\<close>

section \<open>The cursor after a push\<close>

text \<open>The tables of a store that carry stamps.\<close>

definition stamped_tables :: "database \<Rightarrow> progress_row list \<times> bookmark_row list \<times> highlight_row list \<times> int" where
  "stamped_tables db = (reading_progress db, bookmarks db, highlights db, sync_seq db)"

lemma stamps_ok_same_tables: "stamped_tables d = stamped_tables db \<Longrightarrow> stamps_ok d = stamps_ok db"
  by (simp add: stamped_tables_def stamps_ok_def)

lemma stamped_tables_tick [simp]: "stamped_tables (tick d) = stamped_tables d"
  by (simp add: stamped_tables_def tick_def)

lemma update_devices_tables: "update_devices P f db = Inr (d, n) \<Longrightarrow> stamped_tables d = stamped_tables db"
  by (auto simp: update_devices_def stamped_tables_def)

lemma Exec_devices_tables: "Exec (update_devices P f) db = (r, d) \<Longrightarrow> stamped_tables d = stamped_tables db"
  by (auto simp: Exec_def split: sum.splits if_splits dest!: update_devices_tables)

lemma AdvanceCursor_tables: "stamped_tables (snd (device_AdvanceCursor i n t db)) = stamped_tables db"
  using Exec_devices_tables by (fastforce simp: device_AdvanceCursor_def split: prod.splits sum.splits)

lemma advance_echo_tables: "stamped_tables (snd (advance_echo t dev i db)) = stamped_tables db"
  using AdvanceCursor_tables [of "pd_id dev" _ t db]
  by (auto simp: advance_echo_def split: sum.splits prod.splits option.splits)
    (metis snd_conv)+

text \<open>The answer of the transaction shows the progress of that row.\<close>

definition shows_row :: "ReadingProgress \<Rightarrow> UserID \<Rightarrow> LibraryID \<Rightarrow> progress_row \<Rightarrow> bool" where
  "shows_row p u l r \<longleftrightarrow>
     pr_id r = rp_id p \<and> pr_work_id r = rp_workID p \<and> pr_user_id r = owner u \<and> pr_library_id r = owner l
     \<and> pr_percentage r = rp_percentage p \<and> pr_epoch r = rp_epoch p \<and> position_of r = rp_precisePosition p"

lemma shows_progress_row_of: "shows_row p u l ((progress_row_of u l p)\<lparr>pr_sync_sequence := s\<rparr>)"
  by (cases "rp_precisePosition p") (simp_all add: shows_row_def progress_row_of_def position_of_def)

lemma upserted_row_mem: "r \<in> set (upsert_by key r t)"
  by (induction t) auto

lemma save_shows:
  assumes "progress_SaveForUser u l p db = (None, d)" "progress_inv db"
  shows "progress_inv d \<and> (\<exists>r \<in> set (reading_progress d). shows_row p u l r)"
proof -
  obtain d' n where up: "upsert_progress (progress_row_of u l p) db = Inr (d', n)" "d = tick d'"
    using assms(1) unfolding progress_SaveForUser_def by (rule exec_one_ok)
  then obtain s where rows: "reading_progress d =
      upsert_by pr_id ((progress_row_of u l p)\<lparr>pr_sync_sequence := s\<rparr>) (reading_progress db)"
    by (auto simp: upsert_progress_def Let_def tick_def split: if_splits)
  have "(progress_row_of u l p)\<lparr>pr_sync_sequence := s\<rparr> \<in> set (reading_progress d)"
    unfolding rows by (rule upserted_row_mem)
  then have "\<exists>r \<in> set (reading_progress d). shows_row p u l r"
    using shows_progress_row_of by (rule rev_bexI)
  moreover have "progress_inv d" using assms(2) by (simp add: progress_inv_def rows distinct_upsert)
  ultimately show ?thesis by simp
qed

lemma reconcile_unchanged:
  "ReconcileProgress p r = (q, out) \<Longrightarrow> out \<noteq> ReconcileAdvanced \<Longrightarrow> q = p"
  by (auto simp: ReconcileProgress_def split: if_splits)

lemma found_shows:
  assumes "progress_findByWork u l db w = Inr p"
  shows "\<exists>r \<in> set (reading_progress db). shows_row p u l r"
proof -
  obtain r where "List.find (in_scope u l w) (reading_progress db) = Some r" "p = progress_of w r"
    using assms by (auto simp: progress_findByWork_def split: if_splits option.splits sum.splits)
  then show ?thesis
    by (auto simp: find_Some_iff shows_row_def in_scope_def progress_of_def RehydrateReadingProgress_def intro!: bexI [of _ r])
qed

lemma push_progress_ok:
  assumes "push_progress u l newID report ov db = (Inr (p, out), d)" "stamps_ok db" "progress_inv db"
  shows "stamps_ok d \<and> progress_inv d \<and> (\<exists>r \<in> set (reading_progress d). shows_row p u l r)"
proof -
  have save: "stamps_ok d \<and> progress_inv d \<and> (\<exists>r \<in> set (reading_progress d). shows_row p u l r)"
    if "save_outcome (PgProgressStore u l) q o' db = (Inr (p, out), d)" for q o'
    using that save_shows [of u l q db d] stamps_ok_methods(1) [OF assms(2), of u l q] assms(3)
    by (auto simp: save_outcome_def PgProgressStore_def split: prod.splits option.splits)
  show ?thesis
  proof (cases "progress_findByWork u l db (pg_WorkID report)")
    case (Inl e)
    then show ?thesis using assms(1) save by (auto simp: push_progress_def split: if_splits)
  next
    case (Inr cur)
    then show ?thesis
      using assms save found_shows [OF Inr]
      by (auto simp: push_progress_def Let_def split: if_splits prod.splits dest: reconcile_unchanged)
  qed
qed

lemma advance_echo_cursor:
  assumes "advance_echo t dev i db = (cur, d)"
  shows "cur = pd_syncCursor dev
    \<or> cur = wrap64 (pd_syncCursor dev + 1) \<and> (\<exists>r \<in> set (reading_progress db). pr_id r = i \<and> pr_sync_sequence r = cur)"
proof (cases "GetProgressSyncSequence db i")
  case (Inr seq)
  then obtain r where "r \<in> set (reading_progress db)" "pr_id r = i" "pr_sync_sequence r = seq"
    unfolding GetProgressSyncSequence_def by (auto elim: query_row_ok)
  then show ?thesis
    using assms Inr by (auto simp: advance_echo_def split: if_splits prod.splits option.splits)
qed (use assms in \<open>simp add: advance_echo_def\<close>)

text \<open>The rows between two values of a cursor, and whether an answer shows what a row holds.\<close>

definition passed :: "('r \<Rightarrow> int) \<Rightarrow> int \<Rightarrow> int \<Rightarrow> 'r list \<Rightarrow> 'r list" where
  "passed stamp before after rows = filter (\<lambda>r. before < stamp r \<and> stamp r \<le> after) rows"

definition answered :: "UserID \<Rightarrow> wireReadingProgress \<Rightarrow> progress_row \<Rightarrow> bool" where
  "answered u w r \<longleftrightarrow>
     pr_user_id r = owner u \<and> pr_percentage r = wp_Percentage w \<and> pr_epoch r = wp_Epoch w
     \<and> map_option (\<lambda>pos. (pp_EditionID pos, pp_Value pos)) (position_of r) = wp_PrecisePosition w"

lemma shows_answered: "shows_row p u l r \<Longrightarrow> answered u (progressToWire p) r"
  by (simp add: shows_row_def answered_def progressToWire_def)

lemma stamps_ok_disjoint:
  assumes "stamps_ok db" "r \<in> set (reading_progress db)" "pr_sync_sequence r = s"
  shows "r' \<in> set (reading_progress db) \<Longrightarrow> pr_sync_sequence r' = s \<Longrightarrow> r' = r"
    "b \<in> set (bookmarks db) \<Longrightarrow> bk_sync_sequence b \<noteq> s" "h \<in> set (highlights db) \<Longrightarrow> hg_sync_sequence h \<noteq> s"
  using assms by (auto simp: stamps_ok_def fresh_above_def distinct_map inj_on_def)

text \<open>A push leaves the cursor where it was, or moves it over one row, whose value is in the answer.\<close>

definition skips_nothing :: "UserID \<Rightarrow> int \<Rightarrow> int \<Rightarrow> wireReadingProgress \<Rightarrow> database \<Rightarrow> bool" where
  "skips_nothing u before after w d \<longleftrightarrow>
     (after = before \<or> after = before + 1) \<and> passed bk_sync_sequence before after (bookmarks d) = []
     \<and> passed hg_sync_sequence before after (highlights d) = []
     \<and> list_all (answered u w) (passed pr_sync_sequence before after (reading_progress d))"

lemma skips_nothing_refl: "skips_nothing u c c w d"
  by (simp add: skips_nothing_def passed_def filter_empty_conv list_all_iff)

lemma push_body_ok:
  assumes "push_body u l newID now dev report ov db = (Inr (p, out, cur), d)" "stamps_ok db" "progress_inv db"
    "in_int64 (pd_syncCursor dev + 1)"
  shows "stamps_ok d \<and> progress_inv d \<and> skips_nothing u (pd_syncCursor dev) cur (progressToWire p) d"
proof -
  obtain d1 where push: "push_progress u l newID report ov db = (Inr (p, out), d1)"
      and adv: "advance_echo now dev (rp_id p) d1 = (cur, d)"
    using assms(1) by (auto simp: push_body_def split: prod.splits sum.splits)
  have tables: "stamped_tables d = stamped_tables d1"
    using advance_echo_tables [of now dev "rp_id p" d1] adv by simp
  obtain r where r: "stamps_ok d1" "progress_inv d1" "r \<in> set (reading_progress d1)" "shows_row p u l r"
    using push_progress_ok [OF push assms(2,3)] by blast
  have ok: "stamps_ok d" "progress_inv d" "r \<in> set (reading_progress d)"
    using r tables by (simp_all add: stamps_ok_same_tables [OF tables]) (simp_all add: stamped_tables_def progress_inv_def)
  have "skips_nothing u (pd_syncCursor dev) cur (progressToWire p) d"
  proof (cases "cur = pd_syncCursor dev")
    case False
    then obtain r' where r': "cur = pd_syncCursor dev + 1" "r' \<in> set (reading_progress d1)" "pr_id r' = rp_id p"
        "pr_sync_sequence r' = cur"
      using advance_echo_cursor [OF adv] wrap64_id [OF assms(4)] by auto
    then have "r' = r" using r by (auto simp: progress_inv_def distinct_map inj_on_def shows_row_def)
    then have "pr_sync_sequence r = cur" using r' by simp
    note only = stamps_ok_disjoint [OF ok(1,3) this]
    have "passed bk_sync_sequence (pd_syncCursor dev) cur (bookmarks d) = []"
      "passed hg_sync_sequence (pd_syncCursor dev) cur (highlights d) = []"
      using only(2,3) r'(1) by (fastforce simp: passed_def filter_empty_conv)+
    moreover have "list_all (answered u (progressToWire p)) (passed pr_sync_sequence (pd_syncCursor dev) cur (reading_progress d))"
      using only(1) r'(1) shows_answered [OF r(4)] by (fastforce simp: passed_def list_all_iff)
    ultimately show ?thesis using r'(1) by (simp add: skips_nothing_def)
  qed (simp add: skips_nothing_refl)
  then show ?thesis using ok by simp
qed

text \<open>C20: A push does not lose a change for the device that pushes.  When the stamps of the store are fresh, the
  cursor a device gets back is the one it had or one more; between the two there is no bookmark and no
  highlight of anybody, and the only progress row there can be is the user's own, whose
  value is in the answer.  The store keeps its fresh stamps.\<close>

theorem push_skips_nothing:
  assumes "stamps_ok db" "progress_inv db" "in_int64 (pd_syncCursor dev + 1)" "cx_user c = Some user"
    "SyncProgressHandler newID now c (Some dev) body db = (ROk n (out, w, cur), d)"
  shows "stamps_ok d \<and> progress_inv d \<and> skips_nothing (au_UserID user) (pd_syncCursor dev) cur w d"
proof -
  obtain report ov p where "InTx (push_body (au_UserID user) (ActiveLibraryFromContext c) newID now dev report ov) db
      = (Inr (p, out, cur), d)" "w = progressToWire p"
    using assms(4,5)
    by (auto simp: SyncProgressHandler_def Let_def refuse_def split: option.splits if_splits sum.splits prod.splits)
  then show ?thesis
    using push_body_ok [OF _ assms(1-3)] by (auto simp: InTx_def split: if_splits prod.splits sum.splits)
qed

section \<open>Revoked devices\<close>

text \<open>The endpoints behind the middleware, and what they answer.\<close>

datatype sync_request =
    ListDevices
  | RevokeDevice DeviceID
  | PullReading string
  | PushProgress "SyncProgressInput option"

datatype sync_value =
    VDevices "DeviceResponse list"
  | VRevoked unit
  | VDelta ReadingSyncData
  | VPushed "ReconcileOutcome \<times> wireReadingProgress \<times> int"

fun sync_path :: "sync_request \<Rightarrow> string" where
  "sync_path ListDevices = ''/api/v1/devices''"
| "sync_path (RevokeDevice i) = ''/api/v1/devices/'' @ i"
| "sync_path (PullReading s) = ''/api/v1/sync/reading''"
| "sync_path (PushProgress b) = ''/api/v1/sync/progress''"

fun sync_handle ::
  "(int \<Rightarrow> bool) \<Rightarrow> string \<Rightarrow> instant \<Rightarrow> req_context \<Rightarrow> PairedDevice option \<Rightarrow> sync_request \<Rightarrow> database
   \<Rightarrow> sync_value reply \<times> database" where
  "sync_handle released newID now c dev ListDevices db = (map_reply VDevices (ListDevicesHandler c db), db)"
| "sync_handle released newID now c dev (RevokeDevice i) db = apfst (map_reply VRevoked) (RevokeDeviceHandler now c i db)"
| "sync_handle released newID now c dev (PullReading s) db =
     apfst (map_reply VDelta) (SyncReadingHandler released now c dev s db)"
| "sync_handle released newID now c dev (PushProgress b) db =
     apfst (map_reply VPushed) (SyncProgressHandler newID now c dev b db)"

definition sync_serve ::
  "(int \<Rightarrow> bool) \<Rightarrow> string \<Rightarrow> instant \<Rightarrow> req_context \<Rightarrow> string \<Rightarrow> sync_request \<Rightarrow> database
   \<Rightarrow> sync_value reply \<times> database" where
  "sync_serve released newID now c header req db =
     (case SyncMiddleware now c (sync_path req) header db of
        (SReject k m, d) \<Rightarrow> (refuse k m, d)
      | (SPass dev, d) \<Rightarrow> sync_handle released newID now c dev req d)"

text \<open>The row of the device is there, has an owner and is revoked.\<close>

definition revoked_row :: "device_row \<Rightarrow> bool" where
  "revoked_row r \<longleftrightarrow> dr_revoked_at r \<noteq> None \<and> dr_owner_id r \<noteq> None \<and> dr_owner_id r \<noteq> Some []"

definition revoked :: "DeviceID \<Rightarrow> database \<Rightarrow> bool" where
  "revoked i db \<longleftrightarrow> (\<exists>r. List.find (\<lambda>r. dr_id r = i) (paired_devices db) = Some r \<and> revoked_row r)"

lemma find_update_where:
  "(\<And>r. key (f r) = key r) \<Longrightarrow> List.find (\<lambda>r. key r = k) (update_where P f t) =
     map_option (\<lambda>r. if P r then f r else r) (List.find (\<lambda>r. key r = k) t)"
  by (induction t) (simp_all add: update_where_def)

lemma revoked_tick [simp]: "revoked i (tick d) = revoked i d"
  by (simp add: revoked_def tick_def)

text \<open>No update of a live device and no write of reading data brings a revoked device back.\<close>

lemma revoked_update_devices:
  assumes "update_devices P f db = Inr (d, n)" "revoked i db" "\<And>r. dr_id (f r) = dr_id r"
    "\<And>r. revoked_row r \<Longrightarrow> revoked_row (f r)"
  shows "revoked i d"
  using assms by (auto simp: update_devices_def revoked_def find_update_where)

lemma revoked_Exec:
  assumes "Exec (update_devices P f) db = (r, d)" "revoked i db" "\<And>r. dr_id (f r) = dr_id r"
    "\<And>r. revoked_row r \<Longrightarrow> revoked_row (f r)"
  shows "revoked i d"
  using assms(1,2) revoked_update_devices [OF _ _ assms(3,4)]
  by (auto simp: Exec_def split: sum.splits if_splits)

lemma revoked_device_methods:
  assumes "revoked i db"
  shows "revoked i (snd (UpdateLastSeen j t db))" "revoked i (snd (device_Revoke j t db))"
    "revoked i (snd (device_AdvanceCursor j n t db))"
proof -
  show "revoked i (snd (UpdateLastSeen j t db))"
    using assms unfolding UpdateLastSeen_def exec_found_def
    by (auto split: prod.split sum.split elim!: revoked_Exec simp: revoked_row_def)
  show "revoked i (snd (device_Revoke j t db))"
    using assms unfolding device_Revoke_def exec_found_def
    by (auto split: prod.split sum.split elim!: revoked_Exec simp: revoked_row_def)
  show "revoked i (snd (device_AdvanceCursor j n t db))"
    using assms unfolding device_AdvanceCursor_def
    by (auto split: prod.split sum.split elim!: revoked_Exec simp: revoked_row_def)
qed

lemma progress_save_devices:
  "paired_devices (snd (progress_SaveForUser u l p db)) = paired_devices db"
  by (auto simp: progress_SaveForUser_def exec_one_def Exec_def upsert_progress_def Let_def tick_def
      split: sum.splits if_splits)

lemma push_progress_devices:
  "paired_devices (snd (push_progress u l newID report ov db)) = paired_devices db"
proof -
  have "paired_devices (snd (save_outcome (PgProgressStore u l) q out db)) = paired_devices db" for q out
    using progress_save_devices [of u l q db] by (auto simp: save_outcome_def PgProgressStore_def split: prod.splits option.splits)
  then show ?thesis by (auto simp: push_progress_def Let_def split: sum.split prod.split)
qed

lemma revoked_advance_echo: "revoked i db \<Longrightarrow> revoked i (snd (advance_echo t dev j db))"
  using revoked_device_methods(3) [of i db "pd_id dev" _ t]
  by (auto simp: advance_echo_def split: sum.split prod.split option.split) (metis snd_conv)+

lemma revoked_push_body:
  assumes "revoked i db" shows "revoked i (snd (push_body u l newID now dev report ov db))"
proof -
  have "revoked i (snd (push_progress u l newID report ov db))"
    using assms by (simp add: revoked_def push_progress_devices)
  then show ?thesis
    using revoked_advance_echo [of i] by (auto simp: push_body_def split: prod.splits sum.splits) (metis snd_conv)+
qed

lemma revoked_push:
  assumes "revoked i db" shows "revoked i (snd (SyncProgressHandler newID now c dev body db))"
proof -
  have "revoked i (snd (InTx (push_body u l newID now d report ov) db))" for u l d report ov
    using assms revoked_push_body [OF assms, of u l newID now d report ov]
    by (auto simp: InTx_def rollback_def revoked_def split: prod.split sum.split)
  then show ?thesis
    using assms by (auto simp: SyncProgressHandler_def Let_def split: option.split sum.split prod.split) (metis snd_conv)+
qed

lemma revoked_handle: "revoked i db \<Longrightarrow> revoked i (snd (sync_handle released newID now c dev req db))"
proof (induction released newID now c dev req db rule: sync_handle.induct)
  case (2 released newID now c dev j db)
  then show ?case
    using revoked_device_methods(2) [of i db j now]
    by (auto simp: RevokeDeviceHandler_def split: option.split sum.split prod.split)
next
  case (3 released newID now c dev s db)
  then show ?case
    using revoked_device_methods(3) [of i db]
    by (auto simp: SyncReadingHandler_def Let_def split: option.split sum.split)
qed (simp_all add: revoked_push)

lemma revoked_middleware: "revoked i db \<Longrightarrow> revoked i (snd (SyncMiddleware now c path header db))"
  using revoked_device_methods(1) [of i db] by (auto simp: SyncMiddleware_def Let_def split: option.split sum.split)

lemma revoked_serve: "revoked i db \<Longrightarrow> revoked i (snd (sync_serve released newID now c header req db))"
  using revoked_middleware [of i db now c "sync_path req" header] revoked_handle [of i]
  by (auto simp: sync_serve_def split: prod.split sync_verdict.split)

text \<open>A revoked device is refused on every route, and the request changes nothing.\<close>

lemma revoked_refused:
  assumes "revoked i db" "i \<noteq> []" "TrimSpace header = i"
  shows "\<exists>k m. SyncMiddleware now c path header db = (SReject k m, db)"
proof -
  obtain r where r: "List.find (\<lambda>r. dr_id r = i) (paired_devices db) = Some r" "revoked_row r"
    using assms(1) by (auto simp: revoked_def)
  have "device_FindByID db i = Inl e \<Longrightarrow> CategoryOf e \<noteq> NotFound" for e
    using r by (auto simp: device_FindByID_def device_query_def scanDevice_def RehydratePairedDevice_def revoked_row_def
        CategoryOf_TranslateError split: if_splits)
  moreover have "device_FindByID db i = Inr dev \<Longrightarrow> pd_revokedAt dev \<noteq> None" for dev
    using r by (auto simp: device_FindByID_def device_query_def scanDevice_def RehydratePairedDevice_def revoked_row_def
        split: if_splits)
  ultimately show ?thesis
    using assms(2,3) by (auto simp: SyncMiddleware_def split: option.split sum.split)
qed

lemma revoke_revokes:
  assumes "RevokeDeviceHandler now c i db = (ROk n (), d)"
  shows "i \<noteq> [] \<and> revoked i d"
proof -
  obtain dev where dev: "i \<noteq> []" "device_FindByID db i = Inr dev" "device_Revoke i now db = (None, d)"
    using assms by (auto simp: RevokeDeviceHandler_def refuse_def split: option.splits if_splits sum.splits prod.splits)
  obtain r where r: "List.find (\<lambda>r. dr_id r = i) (paired_devices db) = Some r" "dr_owner_id r \<noteq> None" "dr_owner_id r \<noteq> Some []"
    using dev(2) by (auto simp: device_FindByID_def device_query_def scanDevice_def split: if_splits option.splits)
  obtain d' k where "update_devices (\<lambda>r. dr_id r = i \<and> dr_revoked_at r = None)
      (\<lambda>r. r\<lparr>dr_revoked_at := Some (timestamptz now)\<rparr>) db = Inr (d', k)" "d = tick d'"
    using dev(3) unfolding device_Revoke_def by (rule exec_found_ok)
  then have "List.find (\<lambda>r. dr_id r = i) (paired_devices d) = map_option
      (\<lambda>r. if dr_id r = i \<and> dr_revoked_at r = None then r\<lparr>dr_revoked_at := Some (timestamptz now)\<rparr> else r)
      (List.find (\<lambda>r. dr_id r = i) (paired_devices db))"
    by (auto simp: update_devices_def tick_def find_update_where)
  moreover have "dr_id r = i" using r(1) by (auto simp: find_Some_iff)
  ultimately show ?thesis using r dev(1) by (simp add: revoked_def revoked_row_def)
qed

text \<open>A call: its new identifier, time, context, device header and request.\<close>

type_synonym sync_call = "string \<times> instant \<times> req_context \<times> string \<times> sync_request"

fun sync_run :: "(int \<Rightarrow> bool) \<Rightarrow> sync_call list \<Rightarrow> database \<Rightarrow> database" where
  "sync_run released [] db = db"
| "sync_run released ((newID, now, c, header, req) # calls) db =
     sync_run released calls (snd (sync_serve released newID now c header req db))"

lemma revoked_run: "revoked i db \<Longrightarrow> revoked i (sync_run released calls db)"
  by (induction released calls db rule: sync_run.induct) (simp_all add: revoked_serve)

text \<open>C21: A revoked device is shut out for good.  Once its owner has revoked a device, then after any
  sequence of calls to the device and synchronisation endpoints, by whomever, every request that names
  the device is answered with an error and changes nothing.\<close>

theorem revoked_device_shut_out:
  assumes "RevokeDeviceHandler now0 c0 i db = (ROk n (), d)" "TrimSpace header = i"
  shows "\<exists>r. sync_serve released newID now c header req (sync_run released calls d) = (r, sync_run released calls d)
    \<and> refused r"
proof -
  have "i \<noteq> []" "revoked i (sync_run released calls d)"
    using revoke_revokes [OF assms(1)] revoked_run by auto
  from revoked_refused [OF this(2,1) assms(2), of now c "sync_path req"] obtain k m where
    "SyncMiddleware now c (sync_path req) header (sync_run released calls d) = (SReject k m, sync_run released calls d)"
    by blast
  then show ?thesis by (auto simp: sync_serve_def refuse_def)
qed

section \<open>Pulling does not work\<close>

text \<open>Pulling never delivers anything: the ceiling is looked up in tables that do not exist, so that
  every request to the reading synchronisation is answered with an error, and the store stays as
  it is.\<close>

theorem sync_reading_never_answers:
  "\<exists>r. SyncReadingHandler released now c device sinceStr db = (r, db) \<and> refused r"
  by (auto simp: SyncReadingHandler_def GetSyncSequenceCeiling_def Let_def refuse_def split: option.split)

section \<open>Witnesses\<close>

text \<open>A user with one work in the library and one device.\<close>

definition device_d :: device_row where
  "device_d = \<lparr> dr_id = ''d'', dr_owner_id = Some ''u'', dr_label = ''phone'', dr_device_class = ''phone'',
     dr_enrolled_via = ''pairing_code'', dr_created_at = 0, dr_last_seen_at = 0, dr_revoked_at = None,
     dr_pairing_session_id = None, dr_sync_cursor = 0, dr_last_synced_at = None \<rparr>"

definition one_device :: database where
  "one_device = (empty_database [''L''])\<lparr>paired_devices := [device_d]\<rparr>"

definition reader_u :: req_context where
  "reader_u = \<lparr> cx_user = Some \<lparr> au_UserID = ''u'', au_Username = ''u'', au_Role = ''reader'', au_Libraries = [''L''] \<rparr>,
     cx_library = ''L'' \<rparr>"

definition dev_d :: PairedDevice where
  "dev_d = \<lparr> pd_id = ''d'', pd_owner = ''u'', pd_label = ''phone'', pd_deviceClass = ''phone'',
     pd_enrolledVia = ''pairing_code'', pd_createdAt = 0, pd_lastSeenAt = 0, pd_revokedAt = None,
     pd_syncCursor = 0, pd_lastSyncedAt = None \<rparr>"

lemma trim_letters: "TrimSpace ''d'' = ''d''" "TrimSpace ''w'' = ''w''" "blank ''d'' = False" "blank ''u'' = False"
  "blank ''phone'' = False" "length (runes ''phone'') = 5"
  by (simp_all add: TrimSpace_visible blank_visible visible_runes visible_def)

lemma scan_device_d: "scanDevice (Some device_d) = Inr dev_d"
  by (simp add: scanDevice_def device_d_def RehydratePairedDevice_def trim_letters DeviceClass_valid_def
      EnrolledVia_valid_def maxDeviceLabelRunes_def dev_d_def)

lemma find_one_device: "device_FindByID one_device ''d'' = Inr dev_d"
proof -
  have "List.find (\<lambda>r. dr_id r = ''d'') (paired_devices one_device) = Some device_d" "connected one_device"
    by (simp_all add: one_device_def device_d_def empty_database_def connected_def)
  then show ?thesis unfolding device_FindByID_def device_query_def by (simp add: scan_device_d)
qed

lemma revoke_one_device:
  "RevokeDeviceHandler 5 reader_u ''d'' one_device =
     (ROk 204 (), tick (one_device\<lparr>paired_devices := [device_d\<lparr>dr_revoked_at := Some (timestamptz 5)\<rparr>]\<rparr>))"
  by (simp add: RevokeDeviceHandler_def reader_u_def find_one_device)
    (simp add: dev_d_def one_device_def empty_database_def connected_def device_d_def device_Revoke_def
      exec_found_def Exec_def update_devices_def update_where_def)

theorem revoked_device_shut_out_witness:
  "\<exists>r d. RevokeDeviceHandler 5 reader_u ''d'' one_device = (ROk 204 (), d)
    \<and> sync_serve (\<lambda>_. True) ''n'' 6 reader_u ''d'' (PullReading []) d = (r, d) \<and> refused r"
  using revoked_device_shut_out [OF revoke_one_device trim_letters(1),
      of "\<lambda>_. True" "''n''" 6 reader_u "PullReading []" "[]"] revoke_one_device by auto

definition pushable :: database where
  "pushable = reading_shelf\<lparr>paired_devices := [device_d],
     editions := [\<lparr> ed_id = ''e'', ed_work_id = ''w'', ed_language = ''en'', ed_isbn = None, ed_publisher = [],
       ed_publication_year = None \<rparr>],
     library_entries := [\<lparr> en_id = ''x'', en_library_id = ''L'', en_edition_id = ''e'', en_added_at = 0 \<rparr>]\<rparr>"

definition first_push :: SyncProgressInput where
  "first_push = \<lparr> sp_WorkID = ''w'', sp_Percentage = Fin (1/2), sp_ObservedEpoch = 0, sp_Override = False,
     sp_PrecisePosition = None, sp_DeviceID = [], sp_ReportedAt = None \<rparr>"

lemma push_first:
  "\<exists>w d. SyncProgressHandler ''p'' 5 reader_u (Some dev_d) (Some first_push) pushable = (ROk 200 (ReconcileAdvanced, w, 1), d)"
proof -
  let ?report = "\<lparr> pg_WorkID = ''w'', pg_Percentage = Fin (1/2), pg_ObservedEpoch = 0, pg_PrecisePosition = None,
     pg_DeviceID = ''d'', pg_ReportedAt = 5 \<rparr>"
  have "\<exists>p d. InTx (push_body ''u'' ''L'' ''p'' 5 dev_d ?report False) pushable = (Inr (p, ReconcileAdvanced, 1), d)"
    by (simp add: InTx_def push_body_def push_progress_def PgProgressStore_def progress_findByWork_def pushable_def
      reading_shelf_def empty_database_def connected_def save_outcome_def progress_SaveForUser_def
      exec_one_def Exec_def upsert_progress_def work_ids_def progress_row_of_def FirstProgress_def
      owner_def tick_def Let_def upsert_stamp_def advance_echo_def GetProgressSyncSequence_def query_row_def
      dev_d_def wrap64_def device_AdvanceCursor_def update_devices_def update_where_def device_d_def)
  then show ?thesis
    by (auto simp: SyncProgressHandler_def reader_u_def first_push_def trim_letters ActiveLibraryFromContext_def
        ValidatePercentage_def ValidateObservedEpoch_def maxObservedEpoch_def pushed_position_def WorkInLibrary_def pushable_def
        reading_shelf_def empty_database_def connected_def CheckPrecisePositionWork_def pushed_at_def dev_d_def)
qed

theorem push_skips_nothing_witness:
  "\<exists>w d. SyncProgressHandler ''p'' 5 reader_u (Some dev_d) (Some first_push) pushable = (ROk 200 (ReconcileAdvanced, w, 1), d)
    \<and> skips_nothing ''u'' 0 1 w d"
proof -
  obtain w d where run: "SyncProgressHandler ''p'' 5 reader_u (Some dev_d) (Some first_push) pushable
      = (ROk 200 (ReconcileAdvanced, w, 1), d)"
    using push_first by blast
  have "stamps_ok pushable" "progress_inv pushable"
    by (simp_all add: stamps_ok_def fresh_above_def progress_inv_def pushable_def reading_shelf_def empty_database_def)
  moreover have "in_int64 (pd_syncCursor dev_d + 1)" by (simp add: dev_d_def in_int64_def)
  moreover have "cx_user reader_u = Some \<lparr> au_UserID = ''u'', au_Username = ''u'', au_Role = ''reader'', au_Libraries = [''L''] \<rparr>"
    by (simp add: reader_u_def)
  ultimately show ?thesis
    using push_skips_nothing [OF _ _ _ _ run] run by (fastforce simp: dev_d_def)
qed

end
