(* ===== verification/Go_Filepath.thy ===== *)
theory Go_Filepath
  imports Go_Text "HOL-Library.Sublist"
begin

text \<open>
  What the sources use of the packages \<open>strings\<close>, \<open>path\<close> and \<open>path/filepath\<close> on names of files, for a system
  with \<open>/\<close> as its separator.  A cleaned path is a list of elements.
\<close>

section \<open>Strings\<close>

definition TrimSuffix :: "string \<Rightarrow> string \<Rightarrow> string" where
  "TrimSuffix s ending = (if length ending \<le> length s \<and> drop (length s - length ending) s = ending
     then take (length s - length ending) s else s)"

text \<open>\<open>strings.ReplaceAll\<close> with a non-empty old string, from left to right.\<close>

function ReplaceAll :: "string \<Rightarrow> string \<Rightarrow> string \<Rightarrow> string" where
  "ReplaceAll [] old new = []"
| "ReplaceAll (c # cs) old new =
     (if old \<noteq> [] \<and> prefix old (c # cs) then new @ ReplaceAll (drop (length old) (c # cs)) old new
      else c # ReplaceAll cs old new)"
  by pat_completeness auto
termination
  by (relation "measure (\<lambda>(s, old, new). length s)") (auto simp: length_greater_0_conv [symmetric] simp del: length_greater_0_conv)

definition str_Contains :: "string \<Rightarrow> string \<Rightarrow> bool" where
  "str_Contains s sub \<longleftrightarrow> list_ex (prefix sub) (suffixes s)"

section \<open>Paths\<close>

definition rooted :: "string \<Rightarrow> bool" where
  "rooted s \<longleftrightarrow> take 1 s = ''/''"

definition clean_elem :: "bool \<Rightarrow> string \<Rightarrow> string list \<Rightarrow> string list" where
  "clean_elem r e out =
     (if e = [] \<or> e = ''.'' then out
      else if e = ''..'' then
        (case out of
           [] \<Rightarrow> (if r then [] else [''..''])
         | o1 # os \<Rightarrow> (if o1 = ''..'' then ''..'' # out else os))
      else e # out)"

definition clean_elems :: "string \<Rightarrow> string list" where
  "clean_elems s = rev (fold (clean_elem (rooted s)) (split_on CHR ''/'' s) [])"

definition Clean :: "string \<Rightarrow> string" where
  "Clean s =
     (let es = clean_elems s in
      if rooted s then CHR ''/'' # join_with CHR ''/'' es
      else if es = [] then ''.'' else join_with CHR ''/'' es)"

definition path_Join :: "string \<Rightarrow> string \<Rightarrow> string" where
  "path_Join a b =
     (if a = [] then (if b = [] then [] else Clean b)
      else Clean (a @ CHR ''/'' # b))"

fun strip_common :: "'a list \<Rightarrow> 'a list \<Rightarrow> 'a list \<times> 'a list" where
  "strip_common (x # xs) (y # ys) = (if x = y then strip_common xs ys else (x # xs, y # ys))"
| "strip_common xs ys = (xs, ys)"

text \<open>
  \<open>filepath.Rel\<close>: steps up for the elements of the base that are left, then the rest of the target.  A step
  up over \<open>..\<close> cannot be computed and is an error.
\<close>

definition Rel :: "string \<Rightarrow> string \<Rightarrow> string option" where
  "Rel base targ =
     (if Clean targ = Clean base then Some ''.''
      else if rooted (Clean base) \<noteq> rooted (Clean targ) then None
      else (case strip_common (clean_elems base) (if Clean targ = ''.'' then [''.''] else clean_elems targ) of
              ([], t) \<Rightarrow> Some (join_with CHR ''/'' t)
            | (b # bs, t) \<Rightarrow>
               (if b = ''..'' then None
                else Some (join_with CHR ''/'' (replicate (Suc (length bs)) ''..'' @ t)))))"

definition path_Ext :: "string \<Rightarrow> string" where
  "path_Ext s =
     (let name = rev (takeWhile (\<lambda>c. c \<noteq> CHR ''/'') (rev s)) in
      if CHR ''.'' \<in> set name then CHR ''.'' # rev (takeWhile (\<lambda>c. c \<noteq> CHR ''.'') (rev name)) else [])"

section \<open>Lemmas\<close>

lemma strip_common_prefix: "strip_common xs ys = ([], zs) \<Longrightarrow> ys = xs @ zs"
  by (induction xs ys rule: strip_common.induct) (auto split: if_splits)

definition elem_ok :: "string \<Rightarrow> bool" where
  "elem_ok e \<longleftrightarrow> e \<noteq> [] \<and> e \<noteq> ''.'' \<and> CHR ''/'' \<notin> set e"

lemma clean_elem_ok: "list_all elem_ok out \<Longrightarrow> CHR ''/'' \<notin> set e \<Longrightarrow> list_all elem_ok (clean_elem r e out)"
  by (auto simp: clean_elem_def elem_ok_def split: list.split)

lemma clean_elems_ok: "list_all elem_ok (clean_elems s)"
proof -
  have "list_all elem_ok out \<Longrightarrow> \<forall>e \<in> set es. CHR ''/'' \<notin> set e \<Longrightarrow> list_all elem_ok (fold (clean_elem r) es out)"
    for es out r by (induction es arbitrary: out) (auto intro: clean_elem_ok)
  from this [of "[]" "split_on CHR ''/'' s"] show ?thesis
    by (auto simp: clean_elems_def dest: split_on_parts)
qed

lemma split_join: "es \<noteq> [] \<Longrightarrow> \<forall>e \<in> set es. c \<notin> set e \<Longrightarrow> split_on c (join_with c es) = es"
  by (induction c es rule: join_with.induct) (auto simp: split_on_no_sep split_on_append)

lemma join_elems_inj:
  assumes "list_all elem_ok xs" "list_all elem_ok ys" "join_with CHR ''/'' xs = join_with CHR ''/'' ys"
  shows "xs = ys"
proof -
  have empty: "join_with CHR ''/'' zs = [] \<longleftrightarrow> zs = []" if "list_all elem_ok zs" for zs
    using that by (cases zs; cases "tl zs") (auto simp: elem_ok_def)
  show ?thesis
  proof (cases "xs = []")
    case True
    then show ?thesis using assms empty by (metis join_with.simps(1))
  next
    case False
    then have "ys \<noteq> []" using assms empty by metis
    moreover have "\<forall>e \<in> set xs. CHR ''/'' \<notin> set e" "\<forall>e \<in> set ys. CHR ''/'' \<notin> set e"
      using assms(1,2) by (auto simp: list_all_iff elem_ok_def)
    ultimately show ?thesis using False assms(3) split_join by metis
  qed
qed

lemma join_elems_unrooted:
  assumes "list_all elem_ok es"
  shows "\<not> rooted (join_with CHR ''/'' es)" "join_with CHR ''/'' es \<noteq> ''.''"
proof -
  show "\<not> rooted (join_with CHR ''/'' es)"
  proof (cases es)
    case (Cons e more)
    then show ?thesis using assms by (cases more; cases e) (auto simp: elem_ok_def rooted_def)
  qed (simp add: rooted_def)
  show "join_with CHR ''/'' es \<noteq> ''.''"
  proof
    assume e: "join_with CHR ''/'' es = ''.''"
    then have "es \<noteq> []" by auto
    moreover have "\<forall>e \<in> set es. CHR ''/'' \<notin> set e" using assms by (auto simp: list_all_iff elem_ok_def)
    ultimately have "es = split_on CHR ''/'' ''.''" using e split_join by metis
    then show False using assms by (simp add: elem_ok_def)
  qed
qed

lemma rooted_Clean: "rooted (Clean s) = rooted s"
  using join_elems_unrooted(1) [OF clean_elems_ok] by (auto simp: Clean_def Let_def rooted_def)

lemma Clean_inj: "Clean a = Clean b \<Longrightarrow> clean_elems a = clean_elems b"
  using rooted_Clean [of a] rooted_Clean [of b] join_elems_unrooted(2) [OF clean_elems_ok]
    join_elems_inj [OF clean_elems_ok clean_elems_ok, of a b]
  by (auto simp: Clean_def Let_def split: if_splits)

lemma Clean_dot: "Clean s = ''.'' \<Longrightarrow> clean_elems s = []"
  using join_elems_unrooted(2) [OF clean_elems_ok, of s] by (auto simp: Clean_def Let_def split: if_splits)

end
