(* ===== verification/Pairing_Handlers.thy ===== *)
theory Pairing_Handlers
  imports Go_Filepath Postgres_Pairing Auth_Middleware Import_Matching Http_Reply "HOL-Library.Char_ord"
begin

text \<open>
  \<open>transport/http/network.go\<close>: the endpoints that start, verify, show and cancel a pairing, and the runtime
  network settings.

  What the handlers are built with is the record \<open>network_env\<close>; a request is the record \<open>network_request\<close> with
  its context, headers and what the clock, the identifier generator and the random source return while it is
  handled.  A body comes decoded, \<open>None\<close> when it does not decode or exceeds the cap.  \<open>NetworkStatusHandler\<close>
  only formats addresses and is left out.
\<close>

section \<open>Requests\<close>

record network_env =
  ne_repo :: PairingSessionRepository
  ne_inet :: "string \<Rightarrow> bool"
  ne_lower :: "rune \<Rightarrow> rune"
  ne_pairingSecret :: string
  ne_serverAddress :: string
  ne_scheme :: string
  ne_hostName :: string
  ne_mac :: mac
  ne_grantSigner :: GrantSigner

record network_request =
  nr_context :: req_context
  nr_contentLength :: int
  nr_contentType :: string
  nr_userAgent :: string
  nr_clientIP :: string
  nr_newID :: string
  nr_jti :: string
  nr_nonce :: "string result"
  nr_codeBytes :: "code_bytes result"
  nr_now :: instant

definition checkJSONContentType :: "network_env \<Rightarrow> network_request \<Rightarrow> bool" where
  "checkJSONContentType E r \<longleftrightarrow>
     nr_contentLength r = 0 \<or> HasPrefix (ToLower (ne_lower E) (nr_contentType r)) ''application/json''"

definition unsupported :: "'a reply" where
  "unsupported = RStatus 415 ''Content-Type must be application/json''"

definition forbidden :: "string \<Rightarrow> 'a reply" where
  "forbidden m = RStatus 403 m"

text \<open>The user and role check the admin endpoints start with; \<open>Inl\<close> is the answer of a request that fails it.\<close>

definition require_admin :: "req_context \<Rightarrow> 'a reply + AuthenticatedUser" where
  "require_admin c =
     (case cx_user c of
        None \<Rightarrow> Inl (refuse Unauthorized ''unauthorized'')
      | Some user \<Rightarrow>
         (if au_Role user \<noteq> RoleAdmin then Inl (forbidden ''insufficient permissions for this resource'')
          else Inr user))"

section \<open>Starting a pairing\<close>

record InitiatePairingResponseWire =
  ip_PairingID :: string
  ip_Code :: string
  ip_Payload :: string
  ip_Address :: string
  ip_ExpiresAt :: instant

definition scheme_of :: "network_env \<Rightarrow> string" where
  "scheme_of E = (if ne_scheme E = [] then ''http'' else ne_scheme E)"

definition connect_payload :: "network_env \<Rightarrow> string \<Rightarrow> string" where
  "connect_payload E code = scheme_of E @ ''://'' @ ne_serverAddress E @ ''/connect?c='' @ code"

definition InitiatePairingHandler ::
  "network_env \<Rightarrow> network_request \<Rightarrow> string option \<Rightarrow> database \<Rightarrow> InitiatePairingResponseWire reply \<times> database" where
  "InitiatePairingHandler E r body db =
     (case require_admin (nr_context r) of
        Inl e \<Rightarrow> (e, db)
      | Inr user \<Rightarrow>
     (if \<not> checkJSONContentType E r then (unsupported, db)
      else
     (case body of
        None \<Rightarrow> (refuse InvalidInput ''malformed request body or body too large'', db)
      | Some secret \<Rightarrow>
     (if ne_pairingSecret E \<noteq> [] \<and> secret \<noteq> ne_pairingSecret E then (forbidden ''invalid pairing secret'', db)
      else
     (case GeneratePairingCode (unicode_upper (ne_repo E)) (nr_codeBytes r) of
        Inl err \<Rightarrow> (refuse Internal ''failed to generate pairing code'', db)
      | Inr code \<Rightarrow>
     (case NewPairingSession (nr_newID r) (au_UserID user) code (5 * minute) (nr_now r) of
        Inl err \<Rightarrow> (refuse Internal ''failed to create pairing session'', db)
      | Inr session \<Rightarrow>
     (case SaveWithInitiatorIP (ne_inet E) (ne_repo E) (nr_nonce r) session (nr_clientIP r) db of
        (Some err, d) \<Rightarrow> (refuse (CategoryOf err) ''failed to save pairing session'', d)
      | (None, d) \<Rightarrow>
          (ROk 201 \<lparr> ip_PairingID = nr_newID r, ip_Code = Display code,
             ip_Payload = connect_payload E (Display code), ip_Address = ne_serverAddress E,
             ip_ExpiresAt = ss_expiresAt session \<rparr>, d))))))))"

section \<open>Verifying a code\<close>

record VerifyPairingResponseWire =
  vp_EnrolmentGrant :: string
  vp_Address :: string
  vp_HostName :: string

definition genericPairingNotFoundMsg :: string where
  "genericPairingNotFoundMsg = ''pairing code not recognised''"

definition parseDeviceClass :: "(rune \<Rightarrow> rune) \<Rightarrow> string \<Rightarrow> DeviceClass" where
  "parseDeviceClass cm userAgent =
     (let ua = ToLower cm userAgent; has = Contains ua in
      if has ''tv'' \<or> has ''smart-tv'' \<or> has ''crkey'' \<or> has ''googletv'' \<or> has ''appletv'' then ''tv''
      else if has ''ipad'' \<or> has ''tablet'' \<or> has ''android'' \<and> \<not> has ''mobile'' then ''tablet''
      else if has ''mobile'' \<or> has ''iphone'' \<or> has ''android'' then ''phone''
      else if has ''windows'' \<or> has ''macintosh'' \<or> has ''linux'' \<or> has ''x11'' then ''desktop''
      else ''unknown'')"

definition device_label :: "string \<Rightarrow> DeviceClass \<Rightarrow> string" where
  "device_label label deviceClass =
     (let l = TrimSpace label in
      if l = [] then (if deviceClass = [] then ''Device'' else deviceClass) else l)"

definition VerifyPairingHandler ::
  "network_env \<Rightarrow> network_request \<Rightarrow> (string \<times> string) option \<Rightarrow> database \<Rightarrow> VerifyPairingResponseWire reply \<times> database" where
  "VerifyPairingHandler E r body db =
     (if \<not> checkJSONContentType E r then (unsupported, db)
      else
     (case body of
        None \<Rightarrow> (refuse InvalidInput ''malformed request body or body too large'', db)
      | Some (text, label) \<Rightarrow>
     (case NewPairingCode (unicode_upper (ne_repo E)) text of
        Inl err \<Rightarrow> (refuse InvalidInput ''malformed pairing code: must be 8 Crockford base32 characters'', db)
      | Inr code \<Rightarrow>
     (let deviceClass = parseDeviceClass (ne_lower E) (nr_userAgent r) in
      case VerifyAndConsume (ne_repo E) (nr_nonce r) code (nr_newID r) (device_label label deviceClass) deviceClass
          (nr_now r) db of
        (Inl err, d) \<Rightarrow> (refuse NotFound genericPairingNotFoundMsg, d)
      | (Inr session, d) \<Rightarrow>
         (case enrolment_Sign (ne_mac E) (ne_grantSigner E) (nr_jti r) (ss_id session) (nr_now r) of
            Inl err \<Rightarrow> (refuse Internal ''failed to issue enrolment grant'', d)
          | Inr grant \<Rightarrow>
              (ROk 200 \<lparr> vp_EnrolmentGrant = grant, vp_Address = ne_serverAddress E, vp_HostName = ne_hostName E \<rparr>, d))))))"

section \<open>Showing and cancelling\<close>

record PairingQRResponseWire =
  qr_Payload :: string
  qr_Address :: string
  qr_Code :: string
  qr_ExpiresAt :: instant
  qr_State :: string

text \<open>The session of the path, for the admin who started it; the same answer for every other case.\<close>

definition own_session :: "network_env \<Rightarrow> AuthenticatedUser \<Rightarrow> PairingSessionID \<Rightarrow> database \<Rightarrow> PairingSession option" where
  "own_session E user i db =
     (if i = [] then None
      else (case session_FindByID (ne_repo E) db i of
              Inl err \<Rightarrow> None
            | Inr s \<Rightarrow> (if ss_initiatedBy s \<noteq> au_UserID user then None else Some s)))"

definition PairingQRHandler ::
  "network_env \<Rightarrow> network_request \<Rightarrow> PairingSessionID \<Rightarrow> database \<Rightarrow> PairingQRResponseWire reply" where
  "PairingQRHandler E r i db =
     (case require_admin (nr_context r) of
        Inl e \<Rightarrow> e
      | Inr user \<Rightarrow>
     (case own_session E user i db of
        None \<Rightarrow> refuse NotFound ''pairing session not found''
      | Some s \<Rightarrow>
         (let code = (if ss_state s = PairingConsumed \<or> ss_state s = PairingExpired then [] else Display (ss_code s));
              payload = (if ss_state s = PairingConsumed \<or> ss_state s = PairingExpired then [] else connect_payload E code) in
          ROk 200 \<lparr> qr_Payload = payload, qr_Address = ne_serverAddress E, qr_Code = code,
            qr_ExpiresAt = ss_expiresAt s, qr_State = ss_state s \<rparr>)))"

definition cancel_session ::
  "network_env \<Rightarrow> network_request \<Rightarrow> PairingSession \<Rightarrow> database \<Rightarrow> database" where
  "cancel_session E r s db =
     (if ss_state s = PairingConsumed then snd (RevokeByPairingSessionID (ss_id s) (nr_now r) db)
      else if ss_state s = PairingPending \<or> ss_state s = PairingVerified then
        snd (session_Save (ne_repo E) (nr_nonce r) (ExpireAt (ss_expiresAt s) s) db)
      else db)"

definition DeletePairingHandler ::
  "network_env \<Rightarrow> network_request \<Rightarrow> PairingSessionID \<Rightarrow> database \<Rightarrow> unit reply \<times> database" where
  "DeletePairingHandler E r i db =
     (case require_admin (nr_context r) of
        Inl e \<Rightarrow> (e, db)
      | Inr user \<Rightarrow>
     (case own_session E user i db of
        None \<Rightarrow> (refuse NotFound ''pairing session not found'', db)
      | Some s \<Rightarrow> (ROk 204 (), cancel_session E r s db)))"

section \<open>Settings\<close>

definition dnsLabelRegex :: rx where
  "dnsLabelRegex =
     (let alnum = Cls (\<lambda>c. CHR ''a'' \<le> c \<and> c \<le> CHR ''z'' \<or> CHR ''0'' \<le> c \<and> c \<le> CHR ''9'');
          inner = Cls (\<lambda>c. CHR ''a'' \<le> c \<and> c \<le> CHR ''z'' \<or> CHR ''0'' \<le> c \<and> c \<le> CHR ''9'' \<or> c = CHR ''-'') in
      Cat alnum (Alt Eps (Cat (Star inner) alnum)))"

definition isValidHostName :: "string \<Rightarrow> bool" where
  "isValidHostName host =
     (let label = TrimSuffix host ''.local'' in
      if length label < 1 \<or> length label > 63 then False else MatchString dnsLabelRegex label)"

definition defaultNetworkSettings :: "instant \<Rightarrow> network_row" where
  "defaultNetworkSettings now =
     \<lparr> nw_host_name = ''alexandryn.local'', nw_remember_device_days = 30, nw_updated_at = now \<rparr>"

text \<open>The saved settings, or the defaults when there are none.\<close>

definition current_settings :: "instant \<Rightarrow> database \<Rightarrow> 'a reply + network_row" where
  "current_settings now db =
     (case settings_Get db of
        Inr s \<Rightarrow> Inr s
      | Inl err \<Rightarrow>
         (if CategoryOf err = NotFound then Inr (defaultNetworkSettings now)
          else Inl (refuse (CategoryOf err) ''failed to read network settings'')))"

definition GetNetworkSettingsHandler :: "network_request \<Rightarrow> database \<Rightarrow> network_row reply" where
  "GetNetworkSettingsHandler r db =
     (case require_admin (nr_context r) of
        Inl e \<Rightarrow> e
      | Inr user \<Rightarrow> (case current_settings (nr_now r) db of Inl e \<Rightarrow> e | Inr s \<Rightarrow> ROk 200 s))"

text \<open>What is wrong with a key of the body, if anything.\<close>

definition settings_key_error :: "string \<Rightarrow> message option" where
  "settings_key_error key =
     (if key = ''hostName'' \<or> key = ''rememberDeviceDays'' then None
      else if key = ''bindAddress'' then
        Some (Msg ''changes to the bind address require editing the config file and restarting'' [])
      else if key = ''tlsCertFile'' \<or> key = ''tlsKeyFile'' \<or> key = ''tlsMode'' then
        Some (Msg ''changes to TLS configuration require editing the config file and restarting'' [])
      else if key = ''acmeDomain'' \<or> key = ''acmeEmail'' then
        Some (Msg ''changes to ACME domain require editing the config file and restarting'' [])
      else if key = ''authRequired'' then Some (Msg ''authentication cannot be disabled'' [])
      else Some (Msg ''unrecognised settings key %q'' [AStr key]))"

definition unmarshal_string :: "json \<Rightarrow> string option" where
  "unmarshal_string j = (case j of JStr s \<Rightarrow> Some s | JNull \<Rightarrow> Some [] | _ \<Rightarrow> None)"

definition unmarshal_int :: "json \<Rightarrow> int option" where
  "unmarshal_int j = (case j of JNum s \<Rightarrow> ParseInt64 s | JNull \<Rightarrow> Some 0 | _ \<Rightarrow> None)"

definition set_host_name :: "json option \<Rightarrow> network_row \<Rightarrow> network_row option" where
  "set_host_name v s =
     (case v of
        None \<Rightarrow> Some s
      | Some j \<Rightarrow>
         (case unmarshal_string j of
            None \<Rightarrow> None
          | Some h \<Rightarrow> (if \<not> isValidHostName h then None else Some (s\<lparr>nw_host_name := h\<rparr>))))"

definition set_remember_days :: "json option \<Rightarrow> network_row \<Rightarrow> network_row option" where
  "set_remember_days v s =
     (case v of
        None \<Rightarrow> Some s
      | Some j \<Rightarrow>
         (case unmarshal_int j of
            None \<Rightarrow> None
          | Some days \<Rightarrow> (if days < 1 \<or> days > 90 then None else Some (s\<lparr>nw_remember_device_days := days\<rparr>))))"

text \<open>The body is a map; the list has its keys once each, in the order the loop visits them.\<close>

definition UpdateNetworkSettingsHandler ::
  "network_env \<Rightarrow> network_request \<Rightarrow> (string \<times> json) list option \<Rightarrow> database \<Rightarrow> network_row reply \<times> database" where
  "UpdateNetworkSettingsHandler E r body db =
     (case require_admin (nr_context r) of
        Inl e \<Rightarrow> (e, db)
      | Inr user \<Rightarrow>
     (if \<not> checkJSONContentType E r then (unsupported, db)
      else
     (case body of
        None \<Rightarrow> (refuse InvalidInput ''malformed request body or body too large'', db)
      | Some rawMap \<Rightarrow>
     (case List.find (\<lambda>(k, v). settings_key_error k \<noteq> None) rawMap of
        Some (k, v) \<Rightarrow> (RError InvalidInput (the (settings_key_error k)), db)
      | None \<Rightarrow>
     (case current_settings (nr_now r) db of
        Inl e \<Rightarrow> (e, db)
      | Inr existing \<Rightarrow>
     (case set_host_name (map_of rawMap ''hostName'') existing of
        None \<Rightarrow> (refuse InvalidInput (''invalid hostName: must be 1..63 lowercase alphanumeric characters or ''
                  @ ''hyphens with optional .local suffix''), db)
      | Some s1 \<Rightarrow>
     (case set_remember_days (map_of rawMap ''rememberDeviceDays'') s1 of
        None \<Rightarrow> (refuse InvalidInput ''rememberDeviceDays must be an integer between 1 and 90'', db)
      | Some s2 \<Rightarrow>
         (let s = s2\<lparr>nw_updated_at := nr_now r\<rparr> in
          case settings_Upsert (Some s) db of
            (Some err, d) \<Rightarrow> (refuse (CategoryOf err) ''failed to save network settings'', d)
          | (None, d) \<Rightarrow> (ROk 200 s, d)))))))))"

end
