(* ===== verification/Pairing_Safety.thy ===== *)
theory Pairing_Safety
  imports Pairing_Handlers
begin

text \<open>
  What the pairing endpoints promise together: a code that has been used, or whose pairing has been cancelled,
  enrols nothing any more, whatever requests follow.
\<close>

section \<open>The endpoints as steps\<close>

text \<open>
  One request to a pairing endpoint, or a login that presents an enrolment grant.  A new pairing gets an
  identifier that no session has.
\<close>

inductive pairing_step :: "network_env \<Rightarrow> database \<Rightarrow> database \<Rightarrow> bool" for E where
  Initiate: "nr_newID r \<notin> sr_id ` set (pairing_sessions db) \<Longrightarrow>
    pairing_step E db (snd (InitiatePairingHandler E r secret db))"
| Verified: "pairing_step E db (snd (VerifyPairingHandler E r code db))"
| Cancel: "pairing_step E db (snd (DeletePairingHandler E r i db))"
| Settings: "pairing_step E db (snd (UpdateNetworkSettingsHandler E r settings db))"
| Login: "pairing_step E db (applyEnrolmentGrant A grant u t db)"

text \<open>A session has the index \<open>k\<close>, and none that has it is pending.\<close>

definition closed_code :: "string \<Rightarrow> database \<Rightarrow> bool" where
  "closed_code k db \<longleftrightarrow> k \<in> sr_code_index ` set (pairing_sessions db) \<and> Postgres_Pairing.spent k db"

lemma closed_sessions: "pairing_sessions d = pairing_sessions db \<Longrightarrow> closed_code k d = closed_code k db"
  by (simp add: closed_code_def Postgres_Pairing.spent_def)

lemma unlinked_closed: "unlinked (closed_code k)"
  by (simp add: unlinked_def closed_code_def Postgres_Pairing.spent_def)

lemma unlinked_sessions: "unlinked pairing_sessions"
  by (simp add: unlinked_def)

section \<open>A closed code stays closed\<close>

lemma keys_update_where: "(\<And>r. key (f r) = key r) \<Longrightarrow> key ` set (update_where P f t) = key ` set t"
  by (metis image_set map_update_where)

text \<open>A statement that keeps the code closed, whatever it answers, makes a method that does.\<close>

lemma closed_exec_one:
  assumes "closed_code k db" "\<And>d n. st db = Inr (d, n) \<Longrightarrow> closed_code k d"
  shows "closed_code k (snd (exec_one st db))"
  using assms unlinked_tick [OF unlinked_closed]
  by (auto simp: exec_one_def Exec_def split: sum.split)

lemma closed_insert:
  assumes "upsert_session row db = Inr (d, n)" "closed_code k db" "sr_id row \<notin> sr_id ` set (pairing_sessions db)"
  shows "closed_code k d"
proof -
  have "d = db\<lparr>pairing_sessions := pairing_sessions db @ [row]\<rparr>"
      "\<not> list_ex (\<lambda>x. sr_code_index x = sr_code_index row) (pairing_sessions db)"
    using assms(1,3) by (auto simp: upsert_session_def list_ex_iff image_iff split: if_splits)
  then show ?thesis using assms(2) by (auto simp: closed_code_def Postgres_Pairing.spent_def list_ex_iff)
qed

lemma closed_close:
  assumes "upsert_session row db = Inr (d, n)" "closed_code k db" "sr_id row \<in> sr_id ` set (pairing_sessions db)"
    "sr_state row \<noteq> PairingPending"
  shows "closed_code k d"
proof -
  have "d = db\<lparr>pairing_sessions := update_where (\<lambda>x. sr_id x = sr_id row)
      (\<lambda>x. x\<lparr>sr_state := sr_state row, sr_expires_at := sr_expires_at row, sr_device_id := sr_device_id row\<rparr>)
      (pairing_sessions db)\<rparr>"
    using assms(1,3) by (auto simp: upsert_session_def list_ex_iff image_iff split: if_splits)
  moreover have "sr_code_index ` set (pairing_sessions d) = sr_code_index ` set (pairing_sessions db)"
    using calculation by (simp add: keys_update_where)
  ultimately show ?thesis
    using assms(2,4) by (auto simp: closed_code_def Postgres_Pairing.spent_def set_update_where)
qed

lemma closed_Initiate:
  assumes "closed_code k db" "nr_newID r \<notin> sr_id ` set (pairing_sessions db)"
  shows "closed_code k (snd (InitiatePairingHandler E r secret db))"
proof -
  have "closed_code k (snd (SaveWithInitiatorIP (ne_inet E) (ne_repo E) (nr_nonce r) s ip db))" if "ss_id s = nr_newID r" for s ip
    unfolding SaveWithInitiatorIP_def
    using assms that
    by (auto split: sum.split if_splits intro!: closed_exec_one elim!: closed_insert simp: session_row_of_def)
  moreover have "NewPairingSession (nr_newID r) u code ttl t = Inr s \<Longrightarrow> ss_id s = nr_newID r" for u code ttl t s
    by (auto simp: NewPairingSession_def split: if_splits)
  ultimately show ?thesis
    using assms(1) unfolding InitiatePairingHandler_def
    by (auto split: sum.split option.split prod.split) (metis snd_conv)+
qed

lemma closed_VerifyAndConsume:
  assumes "closed_code k db" shows "closed_code k (snd (VerifyAndConsume R rand code d label cls now db))"
proof (cases "VerifyAndConsume R rand code d label cls now db")
  case (Pair res db')
  show ?thesis
  proof (cases res)
    case (Inl e)
    then have "same_tables db' db" using VerifyAndConsume_failed Pair by blast
    then show ?thesis using same_tables_unlinked [OF _ unlinked_closed] assms Pair by simp
  next
    case (Inr s)
    then have "enrols R code d label cls now db s db'" using VerifyAndConsume_enrols Pair by blast
    then have "sr_code_index ` set (pairing_sessions db') = sr_code_index ` set (pairing_sessions db)"
      unfolding enrols_def by (elim exE conjE) (simp add: keys_update_where)
    then show ?thesis using Postgres_Pairing.spent_after [OF Pair] assms Pair by (simp add: closed_code_def)
  qed
qed

lemma closed_Verify: "closed_code k db \<Longrightarrow> closed_code k (snd (VerifyPairingHandler E r body db))"
  using closed_VerifyAndConsume [of k db "ne_repo E" "nr_nonce r"]
  by (auto simp: VerifyPairingHandler_def Let_def split: option.split sum.split prod.split) (metis snd_conv)+

lemma own_session_stored:
  assumes "own_session E user i db = Some s"
  obtains row where "List.find (\<lambda>x. sr_id x = i) (pairing_sessions db) = Some row" "ss_id s = sr_id row"
    "ss_state s = sr_state row" "sr_id row = i" "row \<in> set (pairing_sessions db)" "connected db"
proof -
  have "session_FindByID (ne_repo E) db i = Inr s"
    using assms by (auto simp: own_session_def split: if_splits sum.splits)
  then obtain row where row: "List.find (\<lambda>x. sr_id x = i) (pairing_sessions db) = Some row"
      "scanSession (ne_repo E) (Some row) = Inr s" "connected db"
    by (cases "List.find (\<lambda>x. sr_id x = i) (pairing_sessions db)")
       (auto simp: session_FindByID_def session_query_def scanSession_def split: if_splits)
  moreover have "ss_id s = sr_id row" "ss_state s = sr_state row"
    using row(2) by (auto simp: scanSession_def RehydratePairingSession_def split: sum.splits if_splits)
  moreover have "sr_id row = i" "row \<in> set (pairing_sessions db)" using row(1) by (auto simp: find_Some_iff)
  ultimately show thesis using that by blast
qed

lemma cancelled_state:
  "ss_state s = PairingPending \<or> ss_state s = PairingVerified \<Longrightarrow> ss_state (ExpireAt (ss_expiresAt s) s) = PairingExpired"
  "ss_id (ExpireAt t s) = ss_id s" "ss_code (ExpireAt t s) = ss_code s"
  by (auto simp: ExpireAt_def isExpired_def)

lemma RevokeByPairingSessionID_sessions: "pairing_sessions (snd (RevokeByPairingSessionID i t db)) = pairing_sessions db"
  by (simp add: RevokeByPairingSessionID_def exec_found_def Exec_def update_devices_def tick_def split: sum.split prod.split)

lemma closed_Cancel: "closed_code k db \<Longrightarrow> closed_code k (snd (DeletePairingHandler E r i db))"
proof -
  assume closed: "closed_code k db"
  have "closed_code k (cancel_session E r s db)" if own: "own_session E user i db = Some s" for user s
  proof -
    obtain row where row: "ss_id s = sr_id row" "row \<in> set (pairing_sessions db)"
      by (rule own_session_stored [OF own])
    have "PairingExpired \<noteq> PairingPending" by simp
    then have "closed_code k (snd (session_Save (ne_repo E) (nr_nonce r) (ExpireAt (ss_expiresAt s) s) db))"
      if "ss_state s = PairingPending \<or> ss_state s = PairingVerified"
      using closed row cancelled_state(1) [of s] cancelled_state(2,3) that unfolding session_Save_def SaveWithInitiatorIP_def
      by (auto split: sum.split intro!: closed_exec_one elim!: closed_close simp: session_row_of_def)
    then show ?thesis
      using closed closed_sessions [OF RevokeByPairingSessionID_sessions] by (auto simp: cancel_session_def)
  qed
  then show ?thesis using closed by (auto simp: DeletePairingHandler_def split: sum.split option.split)
qed

lemma grant_sessions: "pairing_sessions (applyEnrolmentGrant A grant u t db) = pairing_sessions db"
proof -
  have "pairing_sessions (snd (AssignOwnerByPairingSession i v d)) = pairing_sessions d" for i v d
    by (auto simp: AssignOwnerByPairingSession_def exec_found_def Exec_def update_devices_def tick_def Let_def
        split: sum.split prod.split)
  moreover have "grant_Claim j t d = (res, d') \<Longrightarrow> pairing_sessions d' = pairing_sessions d" for j d res d'
    by (auto simp: grant_Claim_def claim_def Exec_def tick_def Let_def split: sum.splits prod.splits if_splits)
  ultimately show ?thesis
    by (auto simp: applyEnrolmentGrant_def split: option.split sum.split prod.split)
qed

lemma settings_sessions: "pairing_sessions (snd (UpdateNetworkSettingsHandler E r body db)) = pairing_sessions db"
proof -
  have "pairing_sessions (snd (settings_Upsert s d)) = pairing_sessions d" for s d
    by (auto simp: settings_Upsert_def exec_one_def Exec_def tick_def split: option.split sum.split)
  then show ?thesis
    by (auto simp: UpdateNetworkSettingsHandler_def Let_def split: sum.split option.split prod.split) (metis snd_conv)+
qed

lemma closed_step: "pairing_step E db d \<Longrightarrow> closed_code k db \<Longrightarrow> closed_code k d"
  by (induction rule: pairing_step.induct)
    (simp_all add: closed_Initiate closed_Verify closed_Cancel closed_sessions [OF settings_sessions]
      closed_sessions [OF grant_sessions])

lemma closed_steps: "(pairing_step E)\<^sup>*\<^sup>* db d \<Longrightarrow> closed_code k db \<Longrightarrow> closed_code k d"
  by (induction rule: rtranclp_induct) (auto intro: closed_step)

section \<open>How a code closes\<close>

text \<open>
  A code of the store that has been accepted, or whose waiting session its admin has cancelled.  The
  handler ignores the error of the write that expires the session and answers as if it had happened, so
  a cancellation counts only when that write succeeded.
\<close>

inductive retired :: "network_env \<Rightarrow> string \<Rightarrow> database \<Rightarrow> database \<Rightarrow> bool" for E where
  Used: "VerifyPairingHandler E r (Some (text, label)) db = (ROk n v, d) \<Longrightarrow>
    NewPairingCode (unicode_upper (ne_repo E)) text = Inr code \<Longrightarrow> retired E (CodeIndex (ne_repo E) code) db d"
| Cancelled: "DeletePairingHandler E r i db = (ROk n v, d) \<Longrightarrow>
    row \<in> set (pairing_sessions db) \<Longrightarrow> sr_id row = i \<Longrightarrow> sr_state row \<in> {PairingPending, PairingVerified} \<Longrightarrow>
    session_FindByID (ne_repo E) db i = Inr s \<Longrightarrow>
    fst (session_Save (ne_repo E) (nr_nonce r) (ExpireAt (ss_expiresAt s) s) db) = None \<Longrightarrow>
    retired E (sr_code_index row) db d"

lemma closed_by_use:
  assumes "VerifyPairingHandler E r (Some (text, label)) db = (ROk n v, d)"
    "NewPairingCode (unicode_upper (ne_repo E)) text = Inr code" "distinct (map sr_code_index (pairing_sessions db))"
  shows "closed_code (CodeIndex (ne_repo E) code) d"
proof -
  define cls where "cls = parseDeviceClass (ne_lower E) (nr_userAgent r)"
  define lab where "lab = device_label label cls"
  obtain res d1 where run: "VerifyAndConsume (ne_repo E) (nr_nonce r) code (nr_newID r) lab cls (nr_now r) db = (res, d1)"
    by fastforce
  note def = VerifyPairingHandler_def [of E r "Some (text, label)" db, unfolded Let_def option.case prod.case assms(2) sum.case,
      folded cls_def, folded lab_def, unfolded run prod.case]
  obtain s where v: "VerifyAndConsume (ne_repo E) (nr_nonce r) code (nr_newID r) lab cls (nr_now r) db = (Inr s, d)"
  proof (cases res)
    case (Inl e)
    then show ?thesis using assms(1) def by (simp add: refuse_def unsupported_def split: if_splits)
  next
    case (Inr s)
    then have "d = d1"
      using assms(1) def by (simp add: refuse_def unsupported_def split: if_splits sum.splits)
    then show ?thesis using that Inr run by simp
  qed
  then have "enrols (ne_repo E) code (nr_newID r) lab cls (nr_now r) db s d" by (rule VerifyAndConsume_enrols)
  then have "CodeIndex (ne_repo E) code \<in> sr_code_index ` set (pairing_sessions d)"
    unfolding enrols_def by (elim exE conjE) (simp add: keys_update_where, force)
  then show ?thesis using spent_by_success [OF v assms(3)] by (simp add: closed_code_def)
qed

lemma require_admin_refuses: "require_admin c = Inl e \<Longrightarrow> refused e"
  by (auto simp: require_admin_def forbidden_def split: option.splits if_splits)

lemma upsert_session_existing:
  "sr_state row = PairingExpired \<Longrightarrow> sr_id row \<in> sr_id ` set (pairing_sessions db) \<Longrightarrow>
     \<exists>d n. upsert_session row db = Inr (d, n)"
  by (auto simp: upsert_session_def list_ex_iff)

text \<open>The write succeeds on a connection that stays up, given a nonce for the sealed code.\<close>

lemma cancel_is_written:
  assumes "db_links db = None" "nr_nonce r = Inr nonce" "ss_id s \<in> sr_id ` set (pairing_sessions db)"
    "ss_state s \<in> {PairingPending, PairingVerified}"
  shows "fst (session_Save (ne_repo E) (nr_nonce r) (ExpireAt (ss_expiresAt s) s) db) = None"
proof -
  let ?s = "ExpireAt (ss_expiresAt s) s"
  have st: "ss_state ?s = PairingExpired" "ss_id ?s = ss_id s"
    using cancelled_state(1) [of s] cancelled_state(2) [of "ss_expiresAt s" s] assms(4) by auto
  obtain t where t: "encryptCode (ne_repo E) (nr_nonce r) (ss_code ?s) = Inr t" using assms(2) by (simp add: encryptCode_def)
  obtain d' k where "upsert_session (session_row_of (ne_repo E) t [] ?s) db = Inr (d', k)"
    using upsert_session_existing [of "session_row_of (ne_repo E) t [] ?s" db] st assms(3)
    by (auto simp: session_row_of_def)
  from exec_one_up [OF assms(1), of "upsert_session (session_row_of (ne_repo E) t [] ?s)", OF this]
  show ?thesis unfolding session_Save_def SaveWithInitiatorIP_def t by simp
qed

lemma closed_by_cancel:
  assumes "DeletePairingHandler E r i db = (ROk n v, d)"
    "row \<in> set (pairing_sessions db)" "sr_id row = i" "sr_state row \<in> {PairingPending, PairingVerified}"
    "session_FindByID (ne_repo E) db i = Inr s"
    "fst (session_Save (ne_repo E) (nr_nonce r) (ExpireAt (ss_expiresAt s) s) db) = None"
    "distinct (map sr_id (pairing_sessions db))" "distinct (map sr_code_index (pairing_sessions db))"
  shows "closed_code (sr_code_index row) d"
proof -
  obtain user where user: "require_admin (nr_context r) = (Inr user :: unit reply + _)"
    using assms(1) require_admin_refuses [of "nr_context r"]
    by (cases "require_admin (nr_context r) :: unit reply + _") (fastforce simp: DeletePairingHandler_def)+
  have own: "own_session E user i db = Some s" and d: "d = cancel_session E r s db"
    using assms(1,5) user by (auto simp: DeletePairingHandler_def refuse_def own_session_def split: if_splits option.splits)
  obtain row' where row': "ss_id s = sr_id row'" "ss_state s = sr_state row'" "sr_id row' = i" "row' \<in> set (pairing_sessions db)"
    by (rule own_session_stored [OF own])
  then have same: "row' = row" using assms(2,3,7) by (auto simp: distinct_map inj_on_def)
  let ?s = "ExpireAt (ss_expiresAt s) s"
  have st: "ss_state ?s = PairingExpired" "ss_id ?s = i"
    using cancelled_state(1) [of s] cancelled_state(2) [of "ss_expiresAt s" s] row'(1-3) assms(4) unfolding same by auto
  have known: "ss_id ?s \<in> sr_id ` set (pairing_sessions db)" using st(2) row'(3,4) by (simp add: rev_image_eqI)
  have "d = snd (session_Save (ne_repo E) (nr_nonce r) ?s db)"
    using row'(2) assms(4) unfolding d cancel_session_def same by auto
  then have saved: "session_Save (ne_repo E) (nr_nonce r) ?s db = (None, d)" using assms(6) by (metis prod.collapse)
  from session_Save_existing [OF saved known] have p: "pairing_sessions d = update_where (\<lambda>x. sr_id x = i)
      (\<lambda>x. x\<lparr>sr_state := PairingExpired, sr_expires_at := timestamptz (ss_expiresAt ?s), sr_device_id := ss_deviceID ?s\<rparr>)
      (pairing_sessions db)"
    unfolding st by simp
  have only: "x = row" if "x \<in> set (pairing_sessions db)" "sr_code_index x = sr_code_index row" for x
    using assms(2,8) that by (auto simp: distinct_map inj_on_def)
  have "sr_code_index ` set (pairing_sessions d) = sr_code_index ` set (pairing_sessions db)"
    unfolding p by (rule keys_update_where) simp
  moreover have "Postgres_Pairing.spent (sr_code_index row) d"
    unfolding Postgres_Pairing.spent_def p set_update_where using only assms(3) by auto
  ultimately show ?thesis using assms(2) by (auto simp: closed_code_def)
qed

lemma closed_code_refused:
  assumes "closed_code (CodeIndex (ne_repo E) code) db" "NewPairingCode (unicode_upper (ne_repo E)) text = Inr code"
  shows "\<exists>a d. VerifyPairingHandler E q (Some (text, label)) db = (a, d) \<and> refused a \<and> paired_devices d = paired_devices db"
proof -
  have "\<exists>e d. VerifyAndConsume (ne_repo E) (nr_nonce q) code (nr_newID q) lab cls (nr_now q) db = (Inl e, d)
      \<and> paired_devices d = paired_devices db" for lab cls
    using spent_refuses [of "ne_repo E" code db "nr_nonce q" "nr_newID q" lab cls "nr_now q"] assms(1)
      VerifyAndConsume_failed [of "ne_repo E" "nr_nonce q" code "nr_newID q" lab cls "nr_now q" db]
      same_tables_unlinked [of _ db paired_devices]
    by (cases "VerifyAndConsume (ne_repo E) (nr_nonce q) code (nr_newID q) lab cls (nr_now q) db")
       (auto simp: closed_code_def unlinked_def)
  then show ?thesis
    using assms(2) by (auto simp: VerifyPairingHandler_def Let_def unsupported_def split: prod.splits) (metis (no_types, lifting) Pair_inject sum.case(1) refused_refuse)
qed

text \<open>C36: A pairing code that has been used, or whose waiting pairing has been cancelled by a request whose
  write succeeded, is closed for good.  After any sequence of requests to the pairing endpoints and of
  logins with grants, a request with that code is refused and enrols no device.  When the write of a
  cancellation fails the handler still answers that the pairing is gone, and its code stays open; the
  write succeeds on a connection that stays up.  The sessions are taken to have distinct ids and
  codes, as the table's keys make them.\<close>

theorem retired_code_enrols_nothing:
  assumes "retired E (CodeIndex (ne_repo E) code) db d"
    "distinct (map sr_id (pairing_sessions db))" "distinct (map sr_code_index (pairing_sessions db))"
    "(pairing_step E)\<^sup>*\<^sup>* d d'" "NewPairingCode (unicode_upper (ne_repo E)) text = Inr code"
  shows "\<exists>a d''. VerifyPairingHandler E q (Some (text, label)) d' = (a, d'') \<and> refused a
    \<and> paired_devices d'' = paired_devices d'"
proof -
  have "closed_code k d" if "retired E k db d" for k
    using that assms(2,3) by cases (auto intro: closed_by_use closed_by_cancel)
  then have "closed_code (CodeIndex (ne_repo E) code) d'" using assms(1,4) closed_steps by blast
  then show ?thesis by (rule closed_code_refused [OF _ assms(5)])
qed

section \<open>Witness\<close>

definition host_env :: network_env where
  "host_env = \<lparr> ne_repo = plain_repo, ne_inet = (\<lambda>_. True), ne_lower = (\<lambda>r. r), ne_pairingSecret = [],
     ne_serverAddress = ''h'', ne_scheme = [], ne_hostName = ''h'', ne_mac = (\<lambda>_ t. t),
     ne_grantSigner = \<lparr> gs_secret = ''k'', gs_issuer = [] \<rparr> \<rparr>"

definition host_request :: network_request where
  "host_request = \<lparr> nr_context = \<lparr> cx_user = Some \<lparr> au_UserID = ''u'', au_Username = ''host'', au_Role = RoleAdmin,
       au_Libraries = [''L''] \<rparr>, cx_library = ''L'' \<rparr>, nr_contentLength = 0, nr_contentType = [], nr_userAgent = [],
     nr_clientIP = [], nr_newID = ''n'', nr_jti = ''j'', nr_nonce = Inr ''000000000000'', nr_codeBytes = Inl ErrClosed, nr_now = 5 \<rparr>"

lemma host_session: "session_FindByID plain_repo paired_host ''s'' = Inr sample_session"
proof -
  have "scanSession plain_repo (Some (session_row_of plain_repo ''00000000000001234567'' [] sample_session)) = Inr sample_session"
    using sample_scan
    by (simp add: FindPendingByCodeIndexForUpdate_def session_query_def paired_host_rows pairing_host_def
        empty_database_def connected_def session_row_of_def CodeIndex_def plain_repo_def sample_session_def timestamptz_def)
  then show ?thesis
    by (simp add: session_FindByID_def session_query_def paired_host_rows pairing_host_def empty_database_def
        connected_def session_row_of_def sample_session_def)
qed

lemma host_cancels: "\<exists>d. DeletePairingHandler host_env host_request ''s'' paired_host = (ROk 204 (), d)"
proof -
  have "ss_initiatedBy sample_session = ''u''" by (simp add: sample_session_def)
  then show ?thesis
    by (simp add: DeletePairingHandler_def require_admin_def host_request_def own_session_def host_env_def host_session)
qed

theorem retired_code_enrols_nothing_witness:
  "\<exists>d a d'. DeletePairingHandler host_env host_request ''s'' paired_host = (ROk 204 (), d)
     \<and> VerifyPairingHandler host_env host_request (Some (''01234567'', [])) d = (a, d') \<and> refused a
     \<and> paired_devices d' = paired_devices d"
proof -
  obtain d where del: "DeletePairingHandler host_env host_request ''s'' paired_host = (ROk 204 (), d)"
    using host_cancels by blast
  let ?row = "session_row_of plain_repo ''00000000000001234567'' [] sample_session"
  have rows: "pairing_sessions paired_host = [?row]" "db_links paired_host = None"
    by (simp_all add: paired_host_rows pairing_host_def empty_database_def)
  have w: "fst (session_Save (ne_repo host_env) (nr_nonce host_request) (ExpireAt (ss_expiresAt sample_session) sample_session)
      paired_host) = None"
    by (rule cancel_is_written [OF rows(2), where nonce = "''000000000000''"])
       (simp_all add: rows host_request_def session_row_of_def sample_session_def)
  have "retired host_env (sr_code_index ?row) paired_host d"
    by (rule retired.Cancelled [OF del _ _ _ _ w])
       (simp_all add: rows session_row_of_def sample_session_def host_env_def host_session [unfolded sample_session_def])
  moreover have "sr_code_index ?row = CodeIndex (ne_repo host_env) (ss_code sample_session)"
    by (simp add: session_row_of_def host_env_def)
  moreover have "NewPairingCode (unicode_upper (ne_repo host_env)) ''01234567'' = Inr (ss_code sample_session)"
    using NewPairingCode_crockford [OF sample_session_ok(2)] by (simp add: host_env_def sample_session_def)
  moreover have "distinct (map sr_id (pairing_sessions paired_host))" "distinct (map sr_code_index (pairing_sessions paired_host))"
    by (simp_all add: rows)
  ultimately show ?thesis
    using del retired_code_enrols_nothing [of host_env "ss_code sample_session" paired_host d d "''01234567''" host_request "[]"]
    by auto
qed

end
