(* ===== verification/Go_Netip.thy ===== *)
theory Go_Netip
  imports Go_Text Go_Strconv "HOL-Library.Word" "HOL-Library.Char_ord"
begin

text \<open>
  What the sources use of the packages \<open>net\<close> and \<open>net/netip\<close>: parsing and printing of addresses, the predicates of
  \<open>net.IP\<close>, prefixes, and \<open>SplitHostPort\<close>.  An address is its bytes, most significant first.
\<close>

unbundle bit_operations_syntax

section \<open>Parsing\<close>

type_synonym byte = "8 word"

datatype Addr = Addr4 "byte list" | Addr6 "byte list" string

definition dec_value :: "char \<Rightarrow> nat option" where
  "dec_value c = (if CHR ''0'' \<le> c \<and> c \<le> CHR ''9'' then Some (of_char c - 48) else None)"

definition hex_value :: "char \<Rightarrow> nat option" where
  "hex_value c =
     (if CHR ''0'' \<le> c \<and> c \<le> CHR ''9'' then Some (of_char c - 48)
      else if CHR ''a'' \<le> c \<and> c \<le> CHR ''f'' then Some (of_char c - 87)
      else if CHR ''A'' \<le> c \<and> c \<le> CHR ''F'' then Some (of_char c - 55)
      else None)"

text \<open>One field of a dotted address: digits without a leading zero, at most 255.\<close>

fun octet_from :: "nat \<Rightarrow> string \<Rightarrow> nat option" where
  "octet_from v [] = Some v"
| "octet_from v (c # cs) =
     (case dec_value c of
        None \<Rightarrow> None
      | Some d \<Rightarrow> (if v * 10 + d > 255 then None else octet_from (v * 10 + d) cs))"

definition octet :: "string \<Rightarrow> nat option" where
  "octet s = (if s = [] \<or> (length s > 1 \<and> hd s = CHR ''0'') then None else octet_from 0 s)"

definition parseIPv4Fields :: "string \<Rightarrow> byte list option" where
  "parseIPv4Fields s =
     (case map octet (split_on CHR ''.'' s) of
        [Some a, Some b, Some c, Some d] \<Rightarrow> Some [of_nat a, of_nat b, of_nat c, of_nat d]
      | _ \<Rightarrow> None)"

text \<open>A leading run of hexadecimal digits with its value.\<close>

fun hex_run :: "nat \<Rightarrow> nat \<Rightarrow> string \<Rightarrow> nat \<times> nat \<times> string" where
  "hex_run n acc [] = (n, acc, [])"
| "hex_run n acc (c # cs) =
     (case hex_value c of None \<Rightarrow> (n, acc, c # cs) | Some d \<Rightarrow> hex_run (Suc n) (16 * acc + d) cs)"

lemma hex_run_length: "length (snd (snd (hex_run n acc s))) \<le> length s"
  by (induction s arbitrary: n acc) (auto split: option.split intro: le_SucI)

lemma hex_run_shorter: "hex_run 0 acc s = (n, v, rest) \<Longrightarrow> n \<noteq> 0 \<Longrightarrow> length rest < length s"
proof (cases s)
  case (Cons c cs)
  assume "hex_run 0 acc s = (n, v, rest)" "n \<noteq> 0"
  then show ?thesis
    using Cons hex_run_length [of 1 "16 * acc + the (hex_value c)" cs] by (auto split: option.splits)
qed simp

text \<open>
  The loop over the groups: the bytes so far, the position of the ellipsis, the rest of the text.  It ends
  with the bytes and the ellipsis, or fails.
\<close>

function groups :: "byte list \<Rightarrow> nat option \<Rightarrow> string \<Rightarrow> (byte list \<times> nat option) option" where
  "groups bs e s =
     (if length bs \<ge> 16 then (if s = [] then Some (bs, e) else None)
      else (case hex_run 0 0 s of
        (n, acc, rest) \<Rightarrow>
          if n = 0 \<or> n > 4 then None
          else (case rest of
             [] \<Rightarrow> Some (bs @ [of_nat (acc div 256), of_nat acc], e)
           | c # more \<Rightarrow>
               if c = CHR ''.'' then
                 (if (e = None \<and> length bs \<noteq> 12) \<or> length bs + 4 > 16 then None
                  else map_option (\<lambda>v4. (bs @ v4, e)) (parseIPv4Fields s))
               else if c \<noteq> CHR '':'' \<or> more = [] then None
               else if hd more = CHR '':'' then
                 (if e \<noteq> None then None
                  else if tl more = [] then Some (bs @ [of_nat (acc div 256), of_nat acc], Some (length bs + 2))
                  else groups (bs @ [of_nat (acc div 256), of_nat acc]) (Some (length bs + 2)) (tl more))
               else groups (bs @ [of_nat (acc div 256), of_nat acc]) e more)))"
  by pat_completeness auto
termination
  by (relation "measure (\<lambda>(bs, e, s). length s)") (auto dest!: hex_run_shorter [OF sym])

declare groups.simps [simp del]

definition expand_ellipsis :: "byte list \<times> nat option \<Rightarrow> byte list option" where
  "expand_ellipsis r =
     (case r of
        (bs, None) \<Rightarrow> (if length bs < 16 then None else Some bs)
      | (bs, Some e) \<Rightarrow> (if length bs < 16 then Some (take e bs @ replicate (16 - length bs) 0 @ drop e bs) else None))"

definition parseIPv6Bytes :: "string \<Rightarrow> byte list option" where
  "parseIPv6Bytes s =
     (if take 2 s = ''::'' then
        (if drop 2 s = [] then Some (replicate 16 0)
         else Option.bind (groups [] (Some 0) (drop 2 s)) expand_ellipsis)
      else Option.bind (groups [] None s) expand_ellipsis)"

definition parseIPv6 :: "string \<Rightarrow> Addr option" where
  "parseIPv6 s =
     (case split_on CHR ''%'' s of
        [t] \<Rightarrow> map_option (\<lambda>bs. Addr6 bs []) (parseIPv6Bytes t)
      | t # more \<Rightarrow>
         (let zone = drop (Suc (length t)) s in
          if zone = [] then None else map_option (\<lambda>bs. Addr6 bs zone) (parseIPv6Bytes t)))"

definition ParseAddr :: "string \<Rightarrow> Addr option" where
  "ParseAddr s =
     (case List.find (\<lambda>c. c = CHR ''.'' \<or> c = CHR '':'' \<or> c = CHR ''%'') s of
        None \<Rightarrow> None
      | Some c \<Rightarrow>
         (if c = CHR ''.'' then map_option Addr4 (parseIPv4Fields s)
          else if c = CHR '':'' then parseIPv6 s else None))"

section \<open>Addresses\<close>

definition v4InV6Prefix :: "byte list" where
  "v4InV6Prefix = [0, 0, 0, 0, 0, 0, 0, 0, 0, 0, 255, 255]"

definition Unmap :: "Addr \<Rightarrow> Addr" where
  "Unmap a =
     (case a of
        Addr4 bs \<Rightarrow> a
      | Addr6 bs z \<Rightarrow> (if take 12 bs = v4InV6Prefix then Addr4 (drop 12 bs) else a))"

definition Is6 :: "Addr \<Rightarrow> bool" where
  "Is6 a = (case a of Addr4 _ \<Rightarrow> False | Addr6 _ _ \<Rightarrow> True)"

text \<open>\<open>net.ParseIP\<close>: always the sixteen byte form; \<open>[]\<close> is the nil slice.\<close>

definition ParseIP :: "string \<Rightarrow> byte list" where
  "ParseIP s =
     (case ParseAddr s of
        None \<Rightarrow> []
      | Some (Addr4 bs) \<Rightarrow> v4InV6Prefix @ bs
      | Some (Addr6 bs z) \<Rightarrow> (if z = [] then bs else []))"

definition To4 :: "byte list \<Rightarrow> byte list option" where
  "To4 ip =
     (if length ip = 4 then Some ip
      else if length ip = 16 \<and> take 12 ip = v4InV6Prefix then Some (drop 12 ip) else None)"

definition ip_Equal :: "byte list \<Rightarrow> byte list \<Rightarrow> bool" where
  "ip_Equal a b =
     (if length a = length b then a = b
      else if length a = 4 \<and> length b = 16 then take 12 b = v4InV6Prefix \<and> a = drop 12 b
      else if length a = 16 \<and> length b = 4 then take 12 a = v4InV6Prefix \<and> drop 12 a = b
      else False)"

definition IsUnspecified :: "byte list \<Rightarrow> bool" where
  "IsUnspecified ip \<longleftrightarrow> ip_Equal ip (v4InV6Prefix @ [0, 0, 0, 0]) \<or> ip_Equal ip (replicate 16 0)"

definition IsLoopback :: "byte list \<Rightarrow> bool" where
  "IsLoopback ip =
     (case To4 ip of Some ip4 \<Rightarrow> ip4 ! 0 = 127 | None \<Rightarrow> ip_Equal ip (replicate 15 0 @ [1]))"

definition IsPrivate :: "byte list \<Rightarrow> bool" where
  "IsPrivate ip =
     (case To4 ip of
        Some ip4 \<Rightarrow> ip4 ! 0 = 10 \<or> (ip4 ! 0 = 172 \<and> ip4 ! 1 AND 0xf0 = 16) \<or> (ip4 ! 0 = 192 \<and> ip4 ! 1 = 168)
      | None \<Rightarrow> length ip = 16 \<and> ip ! 0 AND 0xfe = 0xfc)"

definition IsMulticast :: "byte list \<Rightarrow> bool" where
  "IsMulticast ip =
     (case To4 ip of Some ip4 \<Rightarrow> ip4 ! 0 AND 0xf0 = 0xe0 | None \<Rightarrow> length ip = 16 \<and> ip ! 0 = 0xff)"

definition IsInterfaceLocalMulticast :: "byte list \<Rightarrow> bool" where
  "IsInterfaceLocalMulticast ip \<longleftrightarrow> length ip = 16 \<and> ip ! 0 = 0xff \<and> ip ! 1 AND 0x0f = 0x01"

definition IsLinkLocalMulticast :: "byte list \<Rightarrow> bool" where
  "IsLinkLocalMulticast ip =
     (case To4 ip of
        Some ip4 \<Rightarrow> ip4 ! 0 = 224 \<and> ip4 ! 1 = 0 \<and> ip4 ! 2 = 0
      | None \<Rightarrow> length ip = 16 \<and> ip ! 0 = 0xff \<and> ip ! 1 AND 0x0f = 0x02)"

definition IsLinkLocalUnicast :: "byte list \<Rightarrow> bool" where
  "IsLinkLocalUnicast ip =
     (case To4 ip of
        Some ip4 \<Rightarrow> ip4 ! 0 = 169 \<and> ip4 ! 1 = 254
      | None \<Rightarrow> length ip = 16 \<and> ip ! 0 = 0xfe \<and> ip ! 1 AND 0xc0 = 0x80)"

section \<open>Prefixes\<close>

definition byte_bits :: "byte \<Rightarrow> bool list" where
  "byte_bits b = map (bit b) [7, 6, 5, 4, 3, 2, 1, 0]"

definition addr_bits :: "byte list \<Rightarrow> bool list" where
  "addr_bits bs = concat (map byte_bits bs)"

text \<open>The leading \<open>n\<close> bits agree, for addresses of the same family.\<close>

definition in_cidr :: "byte list \<Rightarrow> nat \<Rightarrow> byte list \<Rightarrow> bool" where
  "in_cidr p n a \<longleftrightarrow> length a = length p \<and> take n (addr_bits a) = take n (addr_bits p)"

record Prefix =
  pf_ip :: Addr
  pf_bits :: nat

definition prefix_Contains :: "Prefix \<Rightarrow> Addr \<Rightarrow> bool" where
  "prefix_Contains p a =
     (case (pf_ip p, a) of
        (Addr4 b, Addr4 c) \<Rightarrow> in_cidr b (pf_bits p) c
      | (Addr6 b z, Addr6 c z') \<Rightarrow> z' = [] \<and> in_cidr b (pf_bits p) c
      | _ \<Rightarrow> False)"

definition AddrFromSlice :: "byte list \<Rightarrow> Addr option" where
  "AddrFromSlice bs =
     (if length bs = 4 then Some (Addr4 bs) else if length bs = 16 then Some (Addr6 bs []) else None)"

section \<open>Printing\<close>

definition word16 :: "byte list \<Rightarrow> nat \<Rightarrow> nat" where
  "word16 bs i = unat (bs ! (2 * i)) * 256 + unat (bs ! (2 * i + 1))"

fun hex_nat :: "nat \<Rightarrow> string" where
  "hex_nat n = (if n < 16 then [hex_digits ! n] else hex_nat (n div 16) @ [hex_digits ! (n mod 16)])"

declare hex_nat.simps [simp del]

text \<open>The first longest run of at least two zero groups, as its start and its end; \<open>None\<close> when there is none.\<close>

definition zero_run :: "byte list \<Rightarrow> nat \<Rightarrow> nat" where
  "zero_run bs i = length (takeWhile (\<lambda>j. word16 bs j = 0) [i..<8])"

definition longest_zeros :: "byte list \<Rightarrow> (nat \<times> nat) option" where
  "longest_zeros bs =
     fold (\<lambda>i best. let l = zero_run bs i in
        if l \<ge> 2 \<and> l > (case best of None \<Rightarrow> 0 | Some (a, b) \<Rightarrow> b - a) then Some (i, i + l) else best)
       [0..<8] None"

definition colon_groups :: "byte list \<Rightarrow> nat \<Rightarrow> nat \<Rightarrow> string" where
  "colon_groups bs a b = join_with CHR '':'' (map (\<lambda>i. hex_nat (word16 bs i)) [a..<b])"

definition string6 :: "byte list \<Rightarrow> string" where
  "string6 bs =
     (case longest_zeros bs of
        None \<Rightarrow> colon_groups bs 0 8
      | Some (a, b) \<Rightarrow> colon_groups bs 0 a @ ''::'' @ colon_groups bs b 8)"

definition string4 :: "byte list \<Rightarrow> string" where
  "string4 bs = join_with CHR ''.'' (map (\<lambda>b. dec_nat (unat b)) bs)"

definition addr_String :: "Addr \<Rightarrow> string" where
  "addr_String a =
     (case a of
        Addr4 bs \<Rightarrow> string4 bs
      | Addr6 bs z \<Rightarrow>
         (if take 12 bs = v4InV6Prefix then ''::ffff:'' @ string4 (drop 12 bs) else string6 bs)
         @ (if z = [] then [] else CHR ''%'' # z))"

text \<open>\<open>Addr.Prefix\<close>: the zone is dropped and the bits past the length are cleared.\<close>

definition mask_byte :: "nat \<Rightarrow> byte \<Rightarrow> byte" where
  "mask_byte k b = (if k \<ge> 8 then b else push_bit (8 - k) (drop_bit (8 - k) b))"

definition mask_bytes :: "nat \<Rightarrow> byte list \<Rightarrow> byte list" where
  "mask_bytes n bs = map (\<lambda>(i, b). mask_byte (n - 8 * i) b) (zip [0..<length bs] bs)"

definition addr_Prefix :: "Addr \<Rightarrow> nat \<Rightarrow> Prefix option" where
  "addr_Prefix a n =
     (case a of
        Addr4 bs \<Rightarrow> (if n > 32 then None else Some \<lparr> pf_ip = Addr4 (mask_bytes n bs), pf_bits = n \<rparr>)
      | Addr6 bs z \<Rightarrow> (if n > 128 then None else Some \<lparr> pf_ip = Addr6 (mask_bytes n bs) [], pf_bits = n \<rparr>))"

definition prefix_String :: "Prefix \<Rightarrow> string" where
  "prefix_String p = addr_String (pf_ip p) @ ''/'' @ dec_nat (pf_bits p)"

section \<open>Host and port\<close>

definition IndexByte :: "string \<Rightarrow> char \<Rightarrow> nat option" where
  "IndexByte s c = (if c \<in> set s then Some (length (takeWhile (\<lambda>x. x \<noteq> c) s)) else None)"

definition LastIndexByte :: "string \<Rightarrow> char \<Rightarrow> nat option" where
  "LastIndexByte s c =
     (if c \<in> set s then Some (length s - Suc (length (takeWhile (\<lambda>x. x \<noteq> c) (rev s)))) else None)"

definition SplitHostPort :: "string \<Rightarrow> string + string \<times> string" where
  "SplitHostPort s =
     (case LastIndexByte s CHR '':'' of
        None \<Rightarrow> Inl ''missing port in address''
      | Some i \<Rightarrow>
         (let finish = (\<lambda>host j k.
            if CHR ''['' \<in> set (drop j s) then Inl ''unexpected '[' in address''
            else if CHR '']'' \<in> set (drop k s) then Inl ''unexpected ']' in address''
            else Inr (host, drop (Suc i) s)) in
          if hd s = CHR ''['' then
            (case IndexByte s CHR '']'' of
               None \<Rightarrow> Inl ''missing ']' in address''
             | Some e \<Rightarrow>
                if e + 1 = length s then Inl ''missing port in address''
                else if e + 1 = i then finish (take (e - 1) (drop 1 s)) 1 (e + 1)
                else if s ! (e + 1) = CHR '':'' then Inl ''too many colons in address''
                else Inl ''missing port in address'')
          else if CHR '':'' \<in> set (take i s) then Inl ''too many colons in address''
          else finish (take i s) 0 0))"

definition ParsePrefix :: "string \<Rightarrow> Prefix option" where
  "ParsePrefix s =
     (case LastIndexByte s CHR ''/'' of
        None \<Rightarrow> None
      | Some i \<Rightarrow>
         (let bits = drop (Suc i) s in
          case ParseAddr (take i s) of
            None \<Rightarrow> None
          | Some a \<Rightarrow>
             (if (case a of Addr4 _ \<Rightarrow> False | Addr6 _ z \<Rightarrow> z \<noteq> []) then None
              else if length bits > 1 \<and> \<not> (CHR ''1'' \<le> hd bits \<and> hd bits \<le> CHR ''9'') then None
              else (case ParseInt64 bits of
                      None \<Rightarrow> None
                    | Some n \<Rightarrow>
                       (if n < 0 \<or> n > (case a of Addr4 _ \<Rightarrow> 32 | Addr6 _ _ \<Rightarrow> 128) then None
                        else Some \<lparr> pf_ip = a, pf_bits = nat n \<rparr>)))))"

definition Masked :: "Prefix \<Rightarrow> Prefix" where
  "Masked p = (case addr_Prefix (pf_ip p) (pf_bits p) of None \<Rightarrow> p | Some q \<Rightarrow> q)"

section \<open>Lemmas\<close>

lemma length_byte_bits [simp]: "length (byte_bits b) = 8"
  by (simp add: byte_bits_def)

lemma length_addr_bits [simp]: "length (addr_bits bs) = 8 * length bs"
  by (induction bs) (simp_all add: addr_bits_def)

lemma less_8: "n < 8 \<longleftrightarrow> n = 0 \<or> n = 1 \<or> n = 2 \<or> n = 3 \<or> n = 4 \<or> n = 5 \<or> n = 6 \<or> n = (7::nat)"
  by auto

lemma byte_eq_iff:
  fixes a b :: byte
  shows "a = b \<longleftrightarrow> (\<forall>n<8. bit a n = bit b n)"
  by (auto intro: bit_word_eqI)

lemma byte_bits_inject [simp]: "byte_bits a = byte_bits b \<longleftrightarrow> a = b"
proof
  assume "byte_bits a = byte_bits b"
  then show "a = b" by (intro byte_eq_iff [THEN iffD2]) (simp add: byte_bits_def less_8 all_conj_distrib imp_disjL)
qed simp

lemma addr_bits_append: "addr_bits (xs @ ys) = addr_bits xs @ addr_bits ys"
  by (simp add: addr_bits_def)

lemma addr_bits_inject: "length as = length bs \<Longrightarrow> addr_bits as = addr_bits bs \<longleftrightarrow> as = bs"
  by (induction as bs rule: list_induct2) (auto simp: addr_bits_def)

text \<open>A prefix of whole bytes and the leading bits of the next one.\<close>

lemma take_addr_bits:
  assumes "k < length bs" "r \<le> 8"
  shows "take (8 * k + r) (addr_bits bs) = addr_bits (take k bs) @ take r (byte_bits (bs ! k))"
proof -
  have "addr_bits bs = addr_bits (take k bs) @ byte_bits (bs ! k) @ addr_bits (drop (Suc k) bs)"
    using assms(1) by (subst id_take_nth_drop [of k bs]) (auto simp: addr_bits_append, simp add: addr_bits_def)
  then show ?thesis using assms by simp
qed

lemma in_cidr_bytes:
  assumes "k < length p" "r \<le> 8"
  shows "in_cidr p (8 * k + r) a \<longleftrightarrow>
    length a = length p \<and> take k a = take k p \<and> take r (byte_bits (a ! k)) = take r (byte_bits (p ! k))"
  using assms by (auto simp: in_cidr_def take_addr_bits addr_bits_inject append_eq_append_conv)

lemma parseIPv4Fields_length: "parseIPv4Fields s = Some v \<Longrightarrow> length v = 4"
  by (auto simp: parseIPv4Fields_def split: list.splits option.splits)

lemma groups_length:
  "groups bs e s = Some r \<Longrightarrow> even (length bs) \<Longrightarrow> length bs \<le> 16 \<Longrightarrow> length (fst r) \<le> 16"
proof (induction bs e s rule: groups.induct)
  case (1 bs e s)
  obtain n acc rest where run: "hex_run 0 0 s = (n, acc, rest)" by (metis prod_cases3)
  show ?case
  proof (cases "length bs \<ge> 16")
    case True
    then show ?thesis using 1 by (subst (asm) groups.simps) (auto split: if_splits)
  next
    case False
    then have "length bs + 2 \<le> 16" using 1(4) by presburger
    then show ?thesis
      using 1 False run
      by (subst (asm) (3) groups.simps)
        (auto split: if_splits list.splits dest: parseIPv4Fields_length)
  qed
qed

lemma expand_ellipsis_length: "expand_ellipsis r = Some bs \<Longrightarrow> length (fst r) \<le> 16 \<Longrightarrow> length bs = 16"
  by (auto simp: expand_ellipsis_def split: if_splits option.splits prod.splits)

lemma parseIPv6Bytes_length: "parseIPv6Bytes s = Some bs \<Longrightarrow> length bs = 16"
  by (auto simp: parseIPv6Bytes_def Option.bind_eq_Some_conv split: if_splits
      dest!: groups_length expand_ellipsis_length)

lemma ParseIP_length: "ParseIP s \<noteq> [] \<Longrightarrow> length (ParseIP s) = 16"
  by (auto simp: ParseIP_def ParseAddr_def parseIPv6_def v4InV6Prefix_def Let_def
      split: option.splits Addr.splits if_splits list.splits
      dest: parseIPv4Fields_length parseIPv6Bytes_length)

end
