(* ===== verification/Source_Adapter.thy ===== *)
theory Source_Adapter
  imports Go_Netip Go_Filepath Import_Discovery Auth_Middleware
begin

text \<open>
  \<open>internal/adapters/sources\<close>: the kinds of sources, validation of their configuration and credentials, signed
  page cursors, the origin check, the guard on outgoing connections and the cap on their number; and the guard of
  \<open>internal/adapters/openlibrary/dial.go\<close>.

  \<open>url.Parse\<close>, \<open>ResolveReference\<close> and \<open>URL.String\<close> of package \<open>net/url\<close>, the case folding of package
  \<open>unicode\<close> and the keyed hash are arguments.
\<close>

section \<open>sources.go\<close>

type_synonym Kind = string

definition KindLocalFolder :: Kind where
  "KindLocalFolder = ''local-folder''"

definition KindOPDS :: Kind where
  "KindOPDS = ''opds''"

definition ValidKind :: "string \<Rightarrow> bool" where
  "ValidKind s \<longleftrightarrow> s = KindLocalFolder \<or> s = KindOPDS"

lemma kinds_differ [simp]: "KindLocalFolder \<noteq> KindOPDS" "KindOPDS \<noteq> KindLocalFolder"
  by (simp_all add: KindLocalFolder_def KindOPDS_def)

record ProbeResult =
  pb_Status :: string
  pb_Detail :: string
  pb_Capabilities :: SourceCapabilities
  pb_SearchLinkURL :: string

definition no_capabilities :: SourceCapabilities where
  "no_capabilities = \<lparr> CanList = False, CanSearch = False, CanDownload = False \<rparr>"

definition unreachable :: "string \<Rightarrow> ProbeResult" where
  "unreachable detail =
     \<lparr> pb_Status = ''unreachable'', pb_Detail = detail, pb_Capabilities = no_capabilities, pb_SearchLinkURL = [] \<rparr>"

definition DefaultLimit :: int where
  "DefaultLimit = 20"

definition MaxLimit :: int where
  "MaxLimit = 50"

definition MaxQueryLen :: nat where
  "MaxQueryLen = 200"

definition ClampLimit :: "int \<Rightarrow> int" where
  "ClampLimit limit = (if limit < 1 \<or> limit > MaxLimit then DefaultLimit else limit)"

lemma ClampLimit_bounds: "1 \<le> ClampLimit l" "ClampLimit l \<le> MaxLimit"
  by (auto simp: ClampLimit_def MaxLimit_def DefaultLimit_def)

section \<open>URLs\<close>

text \<open>
  The parts of a parsed URL the code reads, and the functions of \<open>net/url\<close>.  \<open>ul_Resolve base ref\<close> is
  \<open>base.ResolveReference(ref).String()\<close> for two texts that parse.  \<open>url_User\<close> is the name and the password of the
  userinfo, the latter empty when it has none.
\<close>

record URL =
  url_Scheme :: string
  url_Host :: string
  url_Path :: string
  url_RawQuery :: string
  url_Fragment :: string
  url_User :: "(string \<times> string) option"

record url_lib =
  ul_Parse :: "string \<Rightarrow> URL option"
  ul_Resolve :: "string \<Rightarrow> string \<Rightarrow> string"
  ul_EqualFold :: "string \<Rightarrow> string \<Rightarrow> bool"
  ul_lower :: "rune \<Rightarrow> rune"

definition valid_port :: "string \<Rightarrow> bool" where
  "valid_port s \<longleftrightarrow> list_all is_digit s"

text \<open>\<open>URL.Hostname\<close> and \<open>URL.Port\<close>.\<close>

definition url_hostport :: "string \<Rightarrow> string \<times> string" where
  "url_hostport h =
     (let (host, port) =
        (case LastIndexByte h CHR '':'' of
           Some i \<Rightarrow> (if valid_port (drop (Suc i) h) then (take i h, drop (Suc i) h) else (h, []))
         | None \<Rightarrow> (h, [])) in
      (if host \<noteq> [] \<and> hd host = CHR ''['' \<and> last host = CHR '']'' then butlast (tl host) else host, port))"

section \<open>origin.go\<close>

record originParts =
  og_scheme :: string
  og_host :: string
  og_port :: string

definition parseAbsoluteHTTP :: "url_lib \<Rightarrow> string \<Rightarrow> originParts option" where
  "parseAbsoluteHTTP U raw =
     (case ul_Parse U (TrimSpace raw) of
        None \<Rightarrow> None
      | Some u \<Rightarrow>
         (if url_Scheme u \<noteq> ''http'' \<and> url_Scheme u \<noteq> ''https'' then None
          else (case url_hostport (url_Host u) of
            (host, port) \<Rightarrow>
              if host = [] then None
              else Some \<lparr> og_scheme = url_Scheme u, og_host = host,
                og_port = (if port = [] then (if url_Scheme u = ''https'' then ''443'' else ''80'') else port) \<rparr>)))"

definition SameOrigin :: "url_lib \<Rightarrow> string \<Rightarrow> string \<Rightarrow> bool" where
  "SameOrigin U configured candidate =
     (case parseAbsoluteHTTP U configured of
        None \<Rightarrow> False
      | Some c \<Rightarrow>
         (case parseAbsoluteHTTP U candidate of
            None \<Rightarrow> False
          | Some c' \<Rightarrow> og_scheme c = og_scheme c' \<and> ul_EqualFold U (og_host c) (og_host c') \<and> og_port c = og_port c'))"

section \<open>config.go\<close>

definition maxPathLen :: nat where
  "maxPathLen = 4096"

definition maxBaseURLLen :: nat where
  "maxBaseURLLen = 2048"

definition isASCIILetter :: "char \<Rightarrow> bool" where
  "isASCIILetter b \<longleftrightarrow> is_lower b \<or> is_upper b"

definition isAbsolutePath :: "string \<Rightarrow> bool" where
  "isAbsolutePath p \<longleftrightarrow>
     HasPrefix p ''/'' \<or> HasPrefix p [CHR 0x5C, CHR 0x5C]
     \<or> (length p \<ge> 3 \<and> isASCIILetter (p ! 0) \<and> p ! 1 = CHR '':'' \<and> (p ! 2 = CHR 0x5C \<or> p ! 2 = CHR ''/''))"

definition ValidateLocalFolderPath :: "string \<Rightarrow> go_error option" where
  "ValidateLocalFolderPath basePath =
     (if TrimSpace basePath = [] then Some (derr InvalidInput ''config.basePath must not be empty'')
      else if length basePath > maxPathLen then Some (derr InvalidInput ''config.basePath is too long'')
      else if list_ex (\<lambda>r. r = 0 \<or> (r < 32 \<and> r \<noteq> 9)) (runes basePath) then
        Some (derr InvalidInput ''config.basePath contains a control character'')
      else if \<not> isAbsolutePath basePath then Some (derr InvalidInput ''config.basePath must be an absolute path'')
      else None)"

definition ValidateOPDSBaseURL :: "url_lib \<Rightarrow> string \<Rightarrow> go_error option" where
  "ValidateOPDSBaseURL U baseURL =
     (if TrimSpace baseURL = [] then Some (derr InvalidInput ''config.baseUrl must not be empty'')
      else if length baseURL > maxBaseURLLen then Some (derr InvalidInput ''config.baseUrl is too long'')
      else (case ul_Parse U baseURL of
              None \<Rightarrow> Some (derr InvalidInput ''config.baseUrl is not a valid URL'')
            | Some u \<Rightarrow>
               (if url_Scheme u \<noteq> ''http'' \<and> url_Scheme u \<noteq> ''https'' then
                  Some (derr InvalidInput ''config.baseUrl must be an http or https URL'')
                else if url_Host u = [] then Some (derr InvalidInput ''config.baseUrl must include a host'')
                else None)))"

definition IsHTTPS :: "url_lib \<Rightarrow> string \<Rightarrow> bool" where
  "IsHTTPS U baseURL = (case ul_Parse U baseURL of None \<Rightarrow> False | Some u \<Rightarrow> url_Scheme u = ''https'')"

section \<open>credential.go\<close>

record Credential =
  cr_username :: string
  cr_password :: string

definition no_credential :: Credential where
  "no_credential = \<lparr> cr_username = [], cr_password = [] \<rparr>"

definition maxCredentialUsernameLen :: nat where
  "maxCredentialUsernameLen = 255"

definition maxCredentialPasswordLen :: nat where
  "maxCredentialPasswordLen = 1024"

definition hasControlChar :: "string \<Rightarrow> bool" where
  "hasControlChar s = list_ex IsControl (runes s)"

definition NewCredential :: "string \<Rightarrow> string \<Rightarrow> Credential result" where
  "NewCredential username password =
     (if TrimSpace username = [] then Inl (derr InvalidInput ''credential username must not be empty'')
      else if TrimSpace password = [] then Inl (derr InvalidInput ''credential password must not be empty'')
      else if length (runes username) > maxCredentialUsernameLen then
        Inl (derr InvalidInput ''credential username is too long'')
      else if length (runes password) > maxCredentialPasswordLen then
        Inl (derr InvalidInput ''credential password is too long'')
      else if hasControlChar username \<or> hasControlChar password then
        Inl (derr InvalidInput ''credential contains a control character'')
      else Inr \<lparr> cr_username = username, cr_password = password \<rparr>)"

definition cred_IsZero :: "Credential \<Rightarrow> bool" where
  "cred_IsZero c \<longleftrightarrow> cr_username c = [] \<and> cr_password c = []"

definition Reveal :: "Credential \<Rightarrow> string \<times> string" where
  "Reveal c = (cr_username c, cr_password c)"

section \<open>cursor.go\<close>

record Cursor =
  cu_SourceID :: string
  cu_Kind :: Kind
  cu_Position :: string

definition cursor_json :: "Cursor \<Rightarrow> json" where
  "cursor_json c = JObj [(''s'', JStr (cu_SourceID c)), (''k'', JStr (cu_Kind c)), (''p'', JStr (cu_Position c))]"

definition cursor_fields :: "Cursor field list" where
  "cursor_fields =
     [(''s'', str_field (\<lambda>s. cu_SourceID_update (\<lambda>_. s))),
      (''k'', str_field (\<lambda>s. cu_Kind_update (\<lambda>_. s))),
      (''p'', str_field (\<lambda>s. cu_Position_update (\<lambda>_. s)))]"

definition cursorMACLen :: nat where
  "cursorMACLen = 32"

definition cursor_Encode :: "mac \<Rightarrow> string \<Rightarrow> Cursor \<Rightarrow> string" where
  "cursor_Encode mac key c = (let payload = print_json (cursor_json c) in EncodeToString (mac key payload @ payload))"

definition invalid_cursor :: go_error where
  "invalid_cursor = derr InvalidInput ''cursor is invalid''"

definition cursor_Decode :: "mac \<Rightarrow> string \<Rightarrow> string \<Rightarrow> string \<Rightarrow> Cursor result" where
  "cursor_Decode mac key token wantSourceID =
     (case DecodeString token of
        None \<Rightarrow> Inl invalid_cursor
      | Some raw \<Rightarrow>
         (if length raw < cursorMACLen + 1 then Inl invalid_cursor
          else
         (let gotMAC = take cursorMACLen raw; payload = drop cursorMACLen raw in
          if gotMAC \<noteq> mac key payload then Inl invalid_cursor
          else (case Unmarshal cursor_fields \<lparr> cu_SourceID = [], cu_Kind = [], cu_Position = [] \<rparr> payload of
                  None \<Rightarrow> Inl invalid_cursor
                | Some c \<Rightarrow>
                   (if cu_SourceID c \<noteq> wantSourceID then Inl invalid_cursor
                    else if cu_Kind c \<noteq> KindLocalFolder \<and> cu_Kind c \<noteq> KindOPDS then Inl invalid_cursor
                    else Inr c)))))"

definition ForOPDSPosition :: "url_lib \<Rightarrow> Cursor \<Rightarrow> string \<Rightarrow> string result" where
  "ForOPDSPosition U c baseURL =
     (if cu_Kind c \<noteq> KindOPDS then Inl (ErrorsNew ''cursor kind is not opds'')
      else if cu_Position c = [] then Inr []
      else if \<not> SameOrigin U baseURL (cu_Position c) then Inl (derr InvalidInput ''cursor points off-origin'')
      else Inr (cu_Position c))"

section \<open>concurrency.go\<close>

record Semaphore =
  sm_cap :: nat
  sm_held :: nat

definition DefaultOutboundLimit :: nat where
  "DefaultOutboundLimit = 50"

definition NewSemaphore :: "int \<Rightarrow> Semaphore" where
  "NewSemaphore n = \<lparr> sm_cap = (if n \<le> 0 then DefaultOutboundLimit else nat n), sm_held = 0 \<rparr>"

definition TryAcquire :: "Semaphore \<Rightarrow> bool \<times> Semaphore" where
  "TryAcquire s = (if sm_held s < sm_cap s then (True, s\<lparr>sm_held := Suc (sm_held s)\<rparr>) else (False, s))"

definition sem_Release :: "Semaphore \<Rightarrow> Semaphore" where
  "sem_Release s = s\<lparr>sm_held := sm_held s - 1\<rparr>"

definition InFlight :: "Semaphore \<Rightarrow> nat" where
  "InFlight s = sm_held s"

section \<open>dial.go\<close>

definition cgnatPrefix :: Prefix where
  "cgnatPrefix = \<lparr> pf_ip = Addr4 [100, 64, 0, 0], pf_bits = 10 \<rparr>"

definition in_cgnat :: "byte list \<Rightarrow> bool" where
  "in_cgnat ip = (case AddrFromSlice ip of None \<Rightarrow> False | Some a \<Rightarrow> prefix_Contains cgnatPrefix (Unmap a))"

definition IsBlockedDialIP :: "byte list \<Rightarrow> bool \<Rightarrow> bool" where
  "IsBlockedDialIP ip allowPrivate =
     (if ip = [] then True
      else if IsUnspecified ip \<or> IsLinkLocalUnicast ip \<or> IsLinkLocalMulticast ip \<or> IsMulticast ip
        \<or> IsInterfaceLocalMulticast ip then True
      else if in_cgnat ip then True
      else if \<not> allowPrivate \<and> (IsLoopback ip \<or> IsPrivate ip) then True
      else False)"

definition RejectBlockedLiteralHost :: "url_lib \<Rightarrow> string \<Rightarrow> bool \<Rightarrow> go_error option" where
  "RejectBlockedLiteralHost U baseURL allowPrivate =
     (case ul_Parse U baseURL of
        None \<Rightarrow> None
      | Some u \<Rightarrow>
         (let ip = ParseIP (fst (url_hostport (url_Host u))) in
          if ip = [] then None
          else if IsBlockedDialIP ip allowPrivate then
            Some (derr InvalidInput
              ''config.baseUrl points at a non-public address; set SOURCE_ALLOW_PRIVATE_ADDRESSES to allow a source on this machine or your LAN'')
          else None))"

text \<open>The \<open>Control\<close> hook of the guarded dialer: \<open>Some addr\<close> is a \<open>BlockedAddressError\<close>, \<open>None\<close> lets the dial through.\<close>

definition GuardedTransport :: "bool \<Rightarrow> string \<Rightarrow> string option" where
  "GuardedTransport allowPrivate address =
     (case SplitHostPort address of
        Inl _ \<Rightarrow> Some address
      | Inr (host, _) \<Rightarrow>
         (let ip = ParseIP host in
          if ip = [] then Some host
          else if IsBlockedDialIP ip allowPrivate then Some host
          else None))"

section \<open>openlibrary/dial.go\<close>

definition maxRedirectHops :: nat where
  "maxRedirectHops = 5"

definition blockedResolvedIP :: "byte list \<Rightarrow> bool" where
  "blockedResolvedIP ip =
     (if ip = [] then True
      else if IsLoopback ip \<or> IsPrivate ip \<or> IsUnspecified ip \<or> IsLinkLocalUnicast ip \<or> IsLinkLocalMulticast ip
        \<or> IsMulticast ip \<or> IsInterfaceLocalMulticast ip then True
      else in_cgnat ip)"

definition guardedTransport :: "string \<Rightarrow> string option" where
  "guardedTransport address =
     (case SplitHostPort address of
        Inl _ \<Rightarrow> Some address
      | Inr (host, _) \<Rightarrow>
         (let ip = ParseIP host in if ip = [] \<or> blockedResolvedIP ip then Some host else None))"

definition capRedirects :: "'r list \<Rightarrow> go_error option" where
  "capRedirects via =
     (if length via \<ge> maxRedirectHops then
        Some (ErrorsNew ''openlibrary: stopped after 5 redirects'')
      else None)"

section \<open>Cursors\<close>

definition cursor_ok :: "Cursor \<Rightarrow> bool" where
  "cursor_ok c \<longleftrightarrow> Go_Json.valid_utf8 (cu_SourceID c) \<and> Go_Json.valid_utf8 (cu_Position c) \<and> ValidKind (cu_Kind c)"

lemma valid_utf8_kinds: "Go_Json.valid_utf8 KindLocalFolder" "Go_Json.valid_utf8 KindOPDS"
  by (simp_all add: KindLocalFolder_def KindOPDS_def valid_utf8_ascii)

lemma json_ok_cursor: "cursor_ok c \<Longrightarrow> json_ok maxNestingDepth (cursor_json c)"
  using valid_utf8_kinds by (auto simp: cursor_ok_def ValidKind_def cursor_json_def maxNestingDepth_def valid_utf8_ascii)

lemma cursor_names_differ: "distinct (map fold_name [''s'', ''k'', ''p''])"
  by code_simp

lemma cursor_roundtrip:
  assumes "\<And>m. length (mac key m) = cursorMACLen" "cursor_ok c"
  shows "cursor_Decode mac key (cursor_Encode mac key c) (cu_SourceID c) = Inr c"
proof -
  have "Unmarshal cursor_fields z (print_json (cursor_json c)) = Some c" for z
    using cursor_names_differ unfolding Unmarshal_print [OF json_ok_cursor [OF assms(2)]]
    by (simp add: decode_struct_def cursor_json_def cursor_fields_def)
  moreover have "print_json (cursor_json c) \<noteq> []" by (simp add: cursor_json_def)
  ultimately show ?thesis
    using assms by (simp add: cursor_Encode_def cursor_Decode_def Let_def Decode_Encode cursor_ok_def ValidKind_def)
qed

lemma cursor_Encode_nonempty: "cursor_Encode mac key c \<noteq> []"
  by (simp add: cursor_Encode_def Let_def cursor_json_def)

end
