(* ===== verification/Source_Guards.thy ===== *)
theory Source_Guards
  imports Source_Adapter
begin

text \<open>
  What the guards on outgoing connections let through: an address is refused exactly when it lies in one of a
  list of address ranges.
\<close>

section \<open>Ranges\<close>

text \<open>A range in the notation of CIDR; a dotted address stands for its place in the sixteen byte form.\<close>

definition in_range :: "byte list \<Rightarrow> string \<times> nat \<Rightarrow> bool" where
  "in_range ip r =
     (case r of (text, n) \<Rightarrow> in_cidr (ParseIP text) (if CHR '':'' \<in> set text then n else 96 + n) ip)"

definition never_dialled :: "(string \<times> nat) list" where
  "never_dialled =
     [(''0.0.0.0'', 32), (''100.64.0.0'', 10), (''169.254.0.0'', 16), (''224.0.0.0'', 4),
      (''::'', 128), (''fe80::'', 10), (''ff00::'', 8)]"

definition private_ranges :: "(string \<times> nat) list" where
  "private_ranges =
     [(''127.0.0.0'', 8), (''10.0.0.0'', 8), (''172.16.0.0'', 12), (''192.168.0.0'', 16),
      (''::1'', 128), (''fc00::'', 7)]"

section \<open>Bytes\<close>

lemmas address_syntax = ParseIP_def ParseAddr_def parseIPv4Fields_def octet_def dec_value_def hex_value_def
  less_eq_char_def parseIPv6_def parseIPv6Bytes_def expand_ellipsis_def v4InV6Prefix_def

lemma parsed_dotted [simp]:
  "ParseIP ''0.0.0.0'' = v4InV6Prefix @ [0, 0, 0, 0]"
  "ParseIP ''100.64.0.0'' = v4InV6Prefix @ [100, 64, 0, 0]"
  "ParseIP ''169.254.0.0'' = v4InV6Prefix @ [169, 254, 0, 0]"
  "ParseIP ''224.0.0.0'' = v4InV6Prefix @ [224, 0, 0, 0]"
  "ParseIP ''127.0.0.0'' = v4InV6Prefix @ [127, 0, 0, 0]"
  "ParseIP ''10.0.0.0'' = v4InV6Prefix @ [10, 0, 0, 0]"
  "ParseIP ''172.16.0.0'' = v4InV6Prefix @ [172, 16, 0, 0]"
  "ParseIP ''192.168.0.0'' = v4InV6Prefix @ [192, 168, 0, 0]"
  by (simp_all add: address_syntax)

lemma replicate_15: "replicate 15 x = x # replicate 14 x"
  by (simp add: eval_nat_numeral)

lemma parsed_colons [simp]:
  "ParseIP ''::'' = replicate 16 0"
  "ParseIP ''::1'' = replicate 15 0 @ [1]"
  "ParseIP ''fe80::'' = [0xfe, 0x80] @ replicate 14 0"
  "ParseIP ''ff00::'' = 0xff # replicate 15 0"
  "ParseIP ''fc00::'' = 0xfc # replicate 15 0"
  by (simp_all add: address_syntax groups.simps replicate_15 replicate_append_same)

lemma masked_bytes:
  "take 2 (byte_bits b) = take 2 (byte_bits 0x40) \<longleftrightarrow> b AND 0xc0 = 0x40"
  "take 4 (byte_bits b) = take 4 (byte_bits 0xe0) \<longleftrightarrow> b AND 0xf0 = 0xe0"
  "take 4 (byte_bits b) = take 4 (byte_bits 0x10) \<longleftrightarrow> b AND 0xf0 = 0x10"
  "take 2 (byte_bits b) = take 2 (byte_bits 0x80) \<longleftrightarrow> b AND 0xc0 = 0x80"
  "take 7 (byte_bits b) = take 7 (byte_bits 0xfc) \<longleftrightarrow> b AND 0xfe = 0xfc"
  by (simp_all add: byte_eq_iff byte_bits_def bit_simps less_8 all_conj_distrib imp_disjL) blast+


section \<open>The guards\<close>

lemma four_elements: "length xs = 4 \<longleftrightarrow> (\<exists>a b c d. xs = [a, b, c, d])"
  by (auto simp: length_Suc_conv numeral_eq_Suc)

lemma mapped_bytes:
  assumes "length ip = 16" "take 12 ip = v4InV6Prefix"
  obtains a b c d where "ip = v4InV6Prefix @ [a, b, c, d]"
  using assms four_elements [of "drop 12 ip"] append_take_drop_id [of 12 ip] by auto

lemma in_range_v4:
  assumes "ParseIP text = v4InV6Prefix @ p" "length p = 4" "CHR '':'' \<notin> set text" "k < 4" "r \<le> 8"
  shows "in_range (v4InV6Prefix @ ip) (text, 8 * k + r) \<longleftrightarrow>
    length ip = 4 \<and> take k ip = take k p \<and> take r (byte_bits (ip ! k)) = take r (byte_bits (p ! k))"
proof -
  have "96 + (8 * k + r) = 8 * (12 + k) + r" by simp
  then show ?thesis
    using assms in_cidr_bytes [of "12 + k" "v4InV6Prefix @ p" r "v4InV6Prefix @ ip"]
    by (simp add: in_range_def nth_append add.assoc) (simp add: v4InV6Prefix_def add.assoc)
qed

lemma in_range_v6:
  assumes "length (ParseIP text) = 16" "CHR '':'' \<in> set text" "k < 16" "r \<le> 8"
  shows "in_range ip (text, 8 * k + r) \<longleftrightarrow>
    length ip = 16 \<and> take k ip = take k (ParseIP text)
    \<and> take r (byte_bits (ip ! k)) = take r (byte_bits (ParseIP text ! k))"
  using assms by (simp add: in_range_def in_cidr_bytes)

lemma ranges_v4:
  "in_range (v4InV6Prefix @ [a, b, c, d]) (''0.0.0.0'', 32) \<longleftrightarrow> [a, b, c, d] = [0, 0, 0, 0]"
  "in_range (v4InV6Prefix @ [a, b, c, d]) (''100.64.0.0'', 10) \<longleftrightarrow> a = 100 \<and> b AND 0xc0 = 0x40"
  "in_range (v4InV6Prefix @ [a, b, c, d]) (''169.254.0.0'', 16) \<longleftrightarrow> a = 169 \<and> b = 254"
  "in_range (v4InV6Prefix @ [a, b, c, d]) (''224.0.0.0'', 4) \<longleftrightarrow> a AND 0xf0 = 0xe0"
  "in_range (v4InV6Prefix @ [a, b, c, d]) (''127.0.0.0'', 8) \<longleftrightarrow> a = 127"
  "in_range (v4InV6Prefix @ [a, b, c, d]) (''10.0.0.0'', 8) \<longleftrightarrow> a = 10"
  "in_range (v4InV6Prefix @ [a, b, c, d]) (''172.16.0.0'', 12) \<longleftrightarrow> a = 172 \<and> b AND 0xf0 = 0x10"
  "in_range (v4InV6Prefix @ [a, b, c, d]) (''192.168.0.0'', 16) \<longleftrightarrow> a = 192 \<and> b = 168"
  using in_range_v4 [OF parsed_dotted(1), of 3 8] in_range_v4 [OF parsed_dotted(2), of 1 2]
    in_range_v4 [OF parsed_dotted(3), of 1 8] in_range_v4 [OF parsed_dotted(4), of 0 4]
    in_range_v4 [OF parsed_dotted(5), of 0 8] in_range_v4 [OF parsed_dotted(6), of 0 8]
    in_range_v4 [OF parsed_dotted(7), of 1 4] in_range_v4 [OF parsed_dotted(8), of 1 8]
  by (simp_all add: masked_bytes numeral_3_eq_3)

lemma in_cidr_full: "length p = 16 \<Longrightarrow> in_cidr p 128 ip \<longleftrightarrow> ip = p"
  by (auto simp: in_cidr_def addr_bits_inject)

lemma in_range_mapped:
  assumes "in_range ip (text, n)" "ParseIP text = v4InV6Prefix @ p" "length p = 4" "CHR '':'' \<notin> set text"
  shows "take 12 ip = v4InV6Prefix"
proof -
  have "take (96 + n) (addr_bits ip) = take (96 + n) (addr_bits (v4InV6Prefix @ p))"
    and l: "length ip = length (v4InV6Prefix @ p)"
    using assms by (simp_all add: in_range_def in_cidr_def)
  then have "take 96 (addr_bits ip) = take 96 (addr_bits (v4InV6Prefix @ p))"
    by (metis le_add1 min.absorb1 take_take)
  then have "in_cidr (v4InV6Prefix @ p) (8 * 11 + 8) ip" using l by (simp add: in_cidr_def)
  then have "take 11 ip = take 11 v4InV6Prefix" "ip ! 11 = 255" "length ip = 16"
    using assms(3) by (subst (asm) in_cidr_bytes; simp add: v4InV6Prefix_def)+
  then show ?thesis
    using take_Suc_conv_app_nth [of 11 ip] by (simp add: v4InV6Prefix_def)
qed

lemma ranges_v6:
  "in_range ip (''::'', 128) \<longleftrightarrow> ip = replicate 16 0"
  "in_range ip (''::1'', 128) \<longleftrightarrow> ip = replicate 15 0 @ [1]"
  "in_range ip (''fe80::'', 10) \<longleftrightarrow> length ip = 16 \<and> ip ! 0 = 0xfe \<and> ip ! 1 AND 0xc0 = 0x80"
  "in_range ip (''ff00::'', 8) \<longleftrightarrow> length ip = 16 \<and> ip ! 0 = 0xff"
  "in_range ip (''fc00::'', 7) \<longleftrightarrow> length ip = 16 \<and> ip ! 0 AND 0xfe = 0xfc"
  using in_range_v6 [of "''fe80::''" 1 2 ip] in_range_v6 [of "''ff00::''" 0 8 ip] in_range_v6 [of "''fc00::''" 0 7 ip]
  by (auto simp: in_range_def in_cidr_full masked_bytes take_Suc_conv_app_nth)

lemma unmapped_ranges:
  assumes "take 12 ip \<noteq> v4InV6Prefix"
  shows "\<not> in_range ip (''0.0.0.0'', 32)" "\<not> in_range ip (''100.64.0.0'', 10)" "\<not> in_range ip (''169.254.0.0'', 16)"
    "\<not> in_range ip (''224.0.0.0'', 4)" "\<not> in_range ip (''127.0.0.0'', 8)" "\<not> in_range ip (''10.0.0.0'', 8)"
    "\<not> in_range ip (''172.16.0.0'', 12)" "\<not> in_range ip (''192.168.0.0'', 16)"
  using assms in_range_mapped parsed_dotted by fastforce+

lemmas net_predicates = IsUnspecified_def IsLoopback_def IsPrivate_def IsMulticast_def IsInterfaceLocalMulticast_def
  IsLinkLocalMulticast_def IsLinkLocalUnicast_def ip_Equal_def in_cgnat_def AddrFromSlice_def Unmap_def
  prefix_Contains_def cgnatPrefix_def

lemma cgnat_bytes: "in_cidr [100, 64, 0, 0] 10 [a, b, c, d] \<longleftrightarrow> a = 100 \<and> b AND 0xc0 = 0x40"
  using in_cidr_bytes [of 1 "[100, 64, 0, 0]" 2 "[a, b, c, d]"] by (auto simp: masked_bytes)

lemma mapped_parts [simp]:
  "length v4InV6Prefix = 12" "v4InV6Prefix ! 0 = 0" "v4InV6Prefix ! 1 = 0" "v4InV6Prefix ! Suc 0 = 0"
  "v4InV6Prefix ! 10 = 255" "v4InV6Prefix \<noteq> []"
  by (simp_all add: v4InV6Prefix_def)

lemma mapped_not_zeros [simp]:
  "v4InV6Prefix @ xs \<noteq> replicate 16 0" "v4InV6Prefix @ xs \<noteq> replicate 15 0 @ [y]"
  by (auto dest!: arg_cong [of _ _ "\<lambda>l. l ! 10"] simp: nth_append)

lemma To4_mapped [simp]: "To4 (v4InV6Prefix @ [a, b, c, d]) = Some [a, b, c, d]"
  by (simp add: To4_def)

lemma mapped_predicates:
  fixes a b c d :: byte
  defines "ip \<equiv> v4InV6Prefix @ [a, b, c, d]"
  shows "IsUnspecified ip \<longleftrightarrow> [a, b, c, d] = [0, 0, 0, 0]" "IsLoopback ip \<longleftrightarrow> a = 127"
    "IsPrivate ip \<longleftrightarrow> a = 10 \<or> (a = 172 \<and> b AND 0xf0 = 0x10) \<or> (a = 192 \<and> b = 168)"
    "IsMulticast ip \<longleftrightarrow> a AND 0xf0 = 0xe0" "\<not> IsInterfaceLocalMulticast ip"
    "IsLinkLocalMulticast ip \<longleftrightarrow> a = 224 \<and> b = 0 \<and> c = 0" "IsLinkLocalUnicast ip \<longleftrightarrow> a = 169 \<and> b = 254"
    "in_cgnat ip \<longleftrightarrow> a = 100 \<and> b AND 0xc0 = 0x40"
  unfolding ip_def by (simp_all add: net_predicates cgnat_bytes nth_append)

lemma blocked_mapped:
  "IsBlockedDialIP (v4InV6Prefix @ [a, b, c, d]) allow \<longleftrightarrow>
     list_ex (in_range (v4InV6Prefix @ [a, b, c, d])) (never_dialled @ (if allow then [] else private_ranges))"
  (is "?l = ?r")
proof -
  have "?l \<longleftrightarrow> [a, b, c, d] = [0, 0, 0, 0] \<or> (a = 169 \<and> b = 254) \<or> a AND 0xf0 = 0xe0 \<or> (a = 100 \<and> b AND 0xc0 = 0x40)
      \<or> (\<not> allow \<and> (a = 127 \<or> a = 10 \<or> (a = 172 \<and> b AND 0xf0 = 0x10) \<or> (a = 192 \<and> b = 168)))"
    by (auto simp: IsBlockedDialIP_def mapped_predicates)
  also have "\<dots> \<longleftrightarrow> ?r"
    by (auto simp: never_dialled_def private_ranges_def ranges_v4 ranges_v6 nth_append)
  finally show ?thesis .
qed

lemma blocked_unmapped:
  assumes "length ip = 16" "take 12 ip \<noteq> v4InV6Prefix"
  shows "IsBlockedDialIP ip allow \<longleftrightarrow> list_ex (in_range ip) (never_dialled @ (if allow then [] else private_ranges))"
proof -
  have "ip \<noteq> v4InV6Prefix @ [0, 0, 0, 0]" using assms(2) by (auto simp: v4InV6Prefix_def)
  then show ?thesis
    using assms
    by (auto simp: never_dialled_def private_ranges_def unmapped_ranges ranges_v6 IsBlockedDialIP_def net_predicates
        To4_def)
qed

lemma blocked_iff:
  assumes "length ip = 16"
  shows "IsBlockedDialIP ip allow \<longleftrightarrow> list_ex (in_range ip) (never_dialled @ (if allow then [] else private_ranges))"
  using assms blocked_mapped blocked_unmapped mapped_bytes by (cases "take 12 ip = v4InV6Prefix") metis+

text \<open>C25: The guard on the connections of a source lets a dial through exactly when the address is a host and a port
  with an address literal as the host that lies in none of the listed ranges: the unspecified addresses,
  carrier-grade NAT, link-local, multicast and, unless private addresses are allowed, loopback and private
  networks, in any spelling that parses.  The guard of the Open Library client agrees with it without private
  addresses.
\<close>

theorem dial_guards_exact:
  "(GuardedTransport allow address = None \<longleftrightarrow>
     (\<exists>host port. SplitHostPort address = Inr (host, port) \<and> ParseIP host \<noteq> []
        \<and> \<not> list_ex (in_range (ParseIP host)) (never_dialled @ (if allow then [] else private_ranges))))
   \<and> guardedTransport address = GuardedTransport False address"
proof -
  have "blockedResolvedIP ip \<longleftrightarrow> IsBlockedDialIP ip False" for ip
    by (auto simp: blockedResolvedIP_def IsBlockedDialIP_def)
  moreover have "ParseIP h \<noteq> [] \<Longrightarrow> IsBlockedDialIP (ParseIP h) allow \<longleftrightarrow>
      list_ex (in_range (ParseIP h)) (never_dialled @ (if allow then [] else private_ranges))" for h
    by (simp add: ParseIP_length blocked_iff)
  ultimately show ?thesis
    by (auto simp: GuardedTransport_def guardedTransport_def Let_def split: sum.split)
qed

end
