(* ===== verification/Source_Local.thy ===== *)
theory Source_Local
  imports Source_Adapter Library_Query "HOL-Library.List_Lexorder"
begin

text \<open>
  \<open>internal/adapters/sources/local/local.go\<close>: a folder of books as a source.  The file system is the record
  \<open>filesystem\<close>; a call of \<open>os\<close> or \<open>path/filepath\<close> that reads it is one of its fields.
\<close>

section \<open>The file system\<close>

datatype stat_error = ErrPermission | StatFailed

record FileInfo =
  fi_IsDir :: bool
  fi_IsRegular :: bool
  fi_Size :: int

record filesystem =
  fs_Stat :: "string \<Rightarrow> stat_error + FileInfo"
  fs_EvalSymlinks :: "string \<Rightarrow> string option"
  fs_ReadDir :: "string \<Rightarrow> string list option"
  fs_Open :: "string \<Rightarrow> string option"
  fs_OpenDir :: "string \<Rightarrow> bool"
  fs_ReadDir1 :: "string \<Rightarrow> bool"

section \<open>The provider\<close>

definition supportedExtensions :: "(string \<times> string) list" where
  "supportedExtensions =
     [(''.epub'', ''EPUB''), (''.pdf'', ''PDF''), (''.mobi'', ''MOBI''), (''.azw3'', ''AZW3''),
      (''.cbz'', ''CBZ''), (''.cbr'', ''CBR''), (''.fb2'', ''FB2''), (''.djvu'', ''DJVU'')]"

record LocalProvider =
  lp_sourceID :: string
  lp_basePath :: string
  lp_key :: string

definition local_New :: "string \<Rightarrow> string \<Rightarrow> string \<Rightarrow> LocalProvider result" where
  "local_New sourceID basePath key =
     (case ValidateLocalFolderPath basePath of
        Some err \<Rightarrow> Inl err
      | None \<Rightarrow> Inr \<lparr> lp_sourceID = sourceID, lp_basePath = basePath, lp_key = key \<rparr>)"

definition local_Probe :: "filesystem \<Rightarrow> LocalProvider \<Rightarrow> ProbeResult" where
  "local_Probe F p =
     (case fs_Stat F (lp_basePath p) of
        Inl err \<Rightarrow> (if err = ErrPermission then unreachable ''path-not-readable'' else unreachable ''path-not-found'')
      | Inr info \<Rightarrow>
         (if \<not> fi_IsDir info then unreachable ''path-not-found''
          else if \<not> fs_OpenDir F (lp_basePath p) then unreachable ''path-not-readable''
          else if \<not> fs_ReadDir1 F (lp_basePath p) then unreachable ''path-not-readable''
          else \<lparr> pb_Status = ''reachable'', pb_Detail = [],
                 pb_Capabilities = \<lparr> CanList = True, CanSearch = False, CanDownload = True \<rparr>, pb_SearchLinkURL = [] \<rparr>))"

definition format_of :: "(rune \<Rightarrow> rune) \<Rightarrow> string \<Rightarrow> string option" where
  "format_of lower name = map_of supportedExtensions (ToLower lower (path_Ext name))"

definition isSupported :: "(rune \<Rightarrow> rune) \<Rightarrow> string \<Rightarrow> bool" where
  "isSupported lower name \<longleftrightarrow> format_of lower name \<noteq> None"

definition withinRoot :: "string \<Rightarrow> string \<Rightarrow> bool" where
  "withinRoot folder target =
     (if target = folder then True
      else (case Rel folder target of
              None \<Rightarrow> False
            | Some rel \<Rightarrow> rel \<noteq> ''..'' \<and> \<not> HasPrefix rel ''../''))"

definition titleFromFilename :: "string \<Rightarrow> string" where
  "titleFromFilename name =
     (let base = TrimSpace (ReplaceAll (TrimSuffix name (path_Ext name)) ''_'' '' '') in
      if base = [] then name else base)"

definition path_shaped :: "string \<Rightarrow> bool" where
  "path_shaped name \<longleftrightarrow> name = [] \<or> name = ''.'' \<or> name = ''..'' \<or> CHR ''/'' \<in> set name"

definition candidateFor :: "(rune \<Rightarrow> rune) \<Rightarrow> filesystem \<Rightarrow> string \<Rightarrow> string \<Rightarrow> SourceCandidate option" where
  "candidateFor lower F realBase name =
     (if path_shaped name then None
      else (case fs_EvalSymlinks F (path_Join realBase name) of
              None \<Rightarrow> None
            | Some target \<Rightarrow>
               (if \<not> withinRoot realBase target then None
                else (case fs_Stat F target of
                        Inl _ \<Rightarrow> None
                      | Inr info \<Rightarrow>
                         (if \<not> fi_IsRegular info then None
                          else (case NewFileReference name (orEmpty (format_of lower name)) (Some (fi_Size info)) of
                                  Inl _ \<Rightarrow> None
                                | Inr ref \<Rightarrow> Some \<lparr> sn_Title = titleFromFilename name, sn_Author = None,
                                    sn_FileReference = ref, sn_CoverURL = None \<rparr>))))))"

text \<open>The loop of \<open>List\<close>: the items so far, the last name, and whether the page was cut off.\<close>

fun list_loop ::
  "(rune \<Rightarrow> rune) \<Rightarrow> filesystem \<Rightarrow> string \<Rightarrow> nat \<Rightarrow> string \<Rightarrow> string list \<Rightarrow> SourceCandidate list \<Rightarrow> string
   \<Rightarrow> SourceCandidate list \<times> string \<times> bool" where
  "list_loop lower F realBase limit after [] items lastName = (items, lastName, False)"
| "list_loop lower F realBase limit after (name # names) items lastName =
     (if after \<noteq> [] \<and> name \<le> after then list_loop lower F realBase limit after names items lastName
      else if \<not> isSupported lower name then list_loop lower F realBase limit after names items lastName
      else (case candidateFor lower F realBase name of
              None \<Rightarrow> list_loop lower F realBase limit after names items lastName
            | Some cand \<Rightarrow>
               (if length items = limit then (items, lastName, True)
                else list_loop lower F realBase limit after names (items @ [cand]) name)))"

definition source_unavailable :: go_error where
  "source_unavailable = derr Unavailable ''source is unavailable right now''"

definition local_after :: "mac \<Rightarrow> LocalProvider \<Rightarrow> string \<Rightarrow> string result" where
  "local_after mac p cursor =
     (if cursor = [] then Inr []
      else (case cursor_Decode mac (lp_key p) cursor (lp_sourceID p) of
              Inl err \<Rightarrow> Inl err
            | Inr c \<Rightarrow> (if cu_Kind c \<noteq> KindLocalFolder then Inl invalid_cursor else Inr (cu_Position c))))"

definition local_List ::
  "(rune \<Rightarrow> rune) \<Rightarrow> filesystem \<Rightarrow> mac \<Rightarrow> LocalProvider \<Rightarrow> string \<Rightarrow> int \<Rightarrow> CandidatePage result" where
  "local_List lower F mac p cursor limit0 =
     (let limit = ClampLimit limit0 in
      case local_after mac p cursor of
        Inl err \<Rightarrow> Inl err
      | Inr after \<Rightarrow>
     (case fs_EvalSymlinks F (lp_basePath p) of
        None \<Rightarrow> Inl source_unavailable
      | Some realBase \<Rightarrow>
     (case fs_ReadDir F realBase of
        None \<Rightarrow> Inl source_unavailable
      | Some entries \<Rightarrow>
     (case list_loop lower F realBase (nat limit) after (sort entries) [] [] of
        (items, lastName, truncated) \<Rightarrow>
          Inr \<lparr> cp_Items = items,
                cp_NextCursor =
                  (if truncated \<and> lastName \<noteq> [] then
                     Some (cursor_Encode mac (lp_key p)
                       \<lparr> cu_SourceID = lp_sourceID p, cu_Kind = KindLocalFolder, cu_Position = lastName \<rparr>)
                   else None) \<rparr>))))"

definition local_Search :: "LocalProvider \<Rightarrow> string \<Rightarrow> string \<Rightarrow> int \<Rightarrow> CandidatePage result" where
  "local_Search p q cursor limit = Inl (derr Conflict ''this source does not support search'')"

text \<open>\<open>Resolve\<close> answers the path it opened with its contents.\<close>

definition local_Resolve ::
  "(rune \<Rightarrow> rune) \<Rightarrow> filesystem \<Rightarrow> LocalProvider \<Rightarrow> FileReference \<Rightarrow> (string \<times> string) result" where
  "local_Resolve lower F p ref =
     (let name = fr_ReferenceID ref; missing = derr NotFound ''file not found in this source'' in
      if path_shaped name then Inl (derr InvalidInput ''file reference is not valid for this source'')
      else if \<not> isSupported lower name then Inl missing
      else (case fs_EvalSymlinks F (lp_basePath p) of
              None \<Rightarrow> Inl source_unavailable
            | Some realBase \<Rightarrow>
           (case fs_EvalSymlinks F (path_Join realBase name) of
              None \<Rightarrow> Inl missing
            | Some target \<Rightarrow>
               (if \<not> withinRoot realBase target then Inl missing
                else (case fs_Stat F target of
                        Inl _ \<Rightarrow> Inl missing
                      | Inr info \<Rightarrow>
                         (if \<not> fi_IsRegular info then Inl missing
                          else (case fs_Open F target of
                                  None \<Rightarrow> Inl source_unavailable
                                | Some bytes \<Rightarrow> Inr (target, bytes))))))))"

section \<open>Files stay inside the folder\<close>

text \<open>A path below another one, element by element, without a step up.\<close>

definition beneath :: "string \<Rightarrow> string \<Rightarrow> bool" where
  "beneath folder path \<longleftrightarrow>
     (\<exists>rest. clean_elems path = clean_elems folder @ rest \<and> take 1 rest \<noteq> [''..''])"

lemma escaping_rel:
  assumes "rel = join_with CHR ''/'' (''..'' # es)"
  shows "rel = ''..'' \<or> HasPrefix rel ''../''"
  using assms by (cases es) (auto simp: HasPrefix_def)

lemma withinRoot_beneath:
  assumes "withinRoot folder path"
  shows "beneath folder path"
proof (cases "Clean path = Clean folder")
  case True
  then show ?thesis by (auto simp: beneath_def dest: Clean_inj)
next
  case False
  then obtain rel where rel: "Rel folder path = Some rel" "rel \<noteq> ''..''" "\<not> HasPrefix rel ''../''"
    using assms by (auto simp: withinRoot_def split: if_splits option.splits)
  obtain b t where strip: "strip_common (clean_elems folder)
      (if Clean path = ''.'' then [''.''] else clean_elems path) = (b, t)" by fastforce
  have b: "b = []"
    using rel False strip escaping_rel [of rel "replicate (length (tl b)) ''..'' @ t"]
    by (cases b) (auto simp: Rel_def split: if_splits)
  then have r: "rel = join_with CHR ''/'' t"
    using rel(1) False strip by (auto simp: Rel_def split: if_splits)
  have elems: "(if Clean path = ''.'' then [''.''] else clean_elems path) = clean_elems folder @ t"
    using strip b strip_common_prefix by blast
  show ?thesis
  proof (cases "Clean path = ''.''")
    case True
    then have "clean_elems folder = []"
      using elems clean_elems_ok [of folder] by (cases "clean_elems folder") (auto simp: elem_ok_def)
    then show ?thesis using True by (simp add: beneath_def Clean_dot)
  next
    case False
    then have "clean_elems path = clean_elems folder @ t" using elems by simp
    moreover have "take 1 t \<noteq> [''..'']" using rel(2,3) r escaping_rel [of rel] by (cases t) auto
    ultimately show ?thesis unfolding beneath_def by blast
  qed
qed

section \<open>Pages\<close>

text \<open>The files a listing shows after a name, in the order of their names.\<close>

definition shown :: "(rune \<Rightarrow> rune) \<Rightarrow> filesystem \<Rightarrow> string \<Rightarrow> string \<Rightarrow> bool" where
  "shown lower F base name \<longleftrightarrow> isSupported lower name \<and> candidateFor lower F base name \<noteq> None"

definition shown_after ::
  "(rune \<Rightarrow> rune) \<Rightarrow> filesystem \<Rightarrow> string \<Rightarrow> string \<Rightarrow> string list \<Rightarrow> string list" where
  "shown_after lower F base after names = filter (\<lambda>n. (after = [] \<or> after < n) \<and> shown lower F base n) names"

lemma list_loop_eq:
  "length items \<le> limit \<Longrightarrow>
     list_loop lower F base limit after names items name0 =
       (let page = take (limit - length items) (shown_after lower F base after names) in
        (items @ map (\<lambda>n. the (candidateFor lower F base n)) page, last (name0 # page),
         length items + length (shown_after lower F base after names) > limit))"
proof (induction names arbitrary: items name0)
  case (Cons name names)
  show ?case
  proof (cases "(after = [] \<or> after < name) \<and> shown lower F base name")
    case True
    then obtain cand where c: "candidateFor lower F base name = Some cand" "isSupported lower name"
        "\<not> (after \<noteq> [] \<and> name \<le> after)"
      by (auto simp: shown_def dest: leD)
    have s: "shown_after lower F base after (name # names) = name # shown_after lower F base after names"
      using True by (simp add: shown_after_def)
    show ?thesis
    proof (cases "length items = limit")
      case True
      then show ?thesis using c s by auto
    next
      case False
      then have k: "limit - length items = Suc (limit - length (items @ [cand]))" using Cons.prems by simp
      show ?thesis using Cons.IH [of "items @ [cand]" name] Cons.prems False c s by (auto simp: Let_def k)
    qed
  next
    case False
    then have "list_loop lower F base limit after (name # names) items name0 =
        list_loop lower F base limit after names items name0"
      by (auto simp: shown_def not_less)
    moreover have "shown_after lower F base after (name # names) = shown_after lower F base after names"
      using False by (auto simp: shown_after_def)
    ultimately show ?thesis by (simp only: Cons.IH [OF Cons.prems])
  qed
qed (simp add: shown_after_def)

lemma candidateFor_Some:
  assumes "candidateFor lower F base name = Some c"
  shows "fr_ReferenceID (sn_FileReference c) = name" "\<not> path_shaped name"
    "\<exists>path. fs_EvalSymlinks F (path_Join base name) = Some path \<and> beneath base path"
  using assms withinRoot_beneath
  by (auto simp: candidateFor_def NewFileReference_def split: if_splits option.splits sum.splits)

lemma shown_candidate:
  assumes "shown lower F base n"
  shows "fr_ReferenceID (sn_FileReference (the (candidateFor lower F base n))) = n" "\<not> path_shaped n"
    "\<exists>path. fs_EvalSymlinks F (path_Join base n) = Some path \<and> beneath base path" "isSupported lower n"
  using assms candidateFor_Some [of lower F base n] by (auto simp: shown_def)

text \<open>C26: Whatever the file system holds, opening a file reference of a local folder opens only a book file whose
  resolved path lies beneath the resolved folder; and every file a listing shows has a plain name, the extension
  of a book and a resolved path beneath the resolved folder.
\<close>

theorem local_files_stay_inside:
  "(case local_Resolve lower F p ref of
      Inl _ \<Rightarrow> True
    | Inr (path, bytes) \<Rightarrow>
        (\<exists>base. fs_EvalSymlinks F (lp_basePath p) = Some base \<and> beneath base path)
        \<and> isSupported lower (fr_ReferenceID ref) \<and> fs_Open F path = Some bytes)
   \<and> (case local_List lower F mac p cursor limit of
        Inl _ \<Rightarrow> True
      | Inr page \<Rightarrow>
          (\<exists>base. fs_EvalSymlinks F (lp_basePath p) = Some base
             \<and> list_all (\<lambda>item. let name = fr_ReferenceID (sn_FileReference item) in
                  \<not> path_shaped name \<and> isSupported lower name
                  \<and> (\<exists>path. fs_EvalSymlinks F (path_Join base name) = Some path \<and> beneath base path))
                (cp_Items page)))"
proof (intro conjI)
  show "case local_Resolve lower F p ref of Inl _ \<Rightarrow> True
    | Inr (path, bytes) \<Rightarrow>
        (\<exists>base. fs_EvalSymlinks F (lp_basePath p) = Some base \<and> beneath base path)
        \<and> isSupported lower (fr_ReferenceID ref) \<and> fs_Open F path = Some bytes"
    using withinRoot_beneath by (auto simp: local_Resolve_def Let_def split: option.splits sum.splits)
next
  have "list_all (\<lambda>item. let name = fr_ReferenceID (sn_FileReference item) in
      \<not> path_shaped name \<and> isSupported lower name
      \<and> (\<exists>path. fs_EvalSymlinks F (path_Join base name) = Some path \<and> beneath base path))
    (map (\<lambda>n. the (candidateFor lower F base n)) (take k (shown_after lower F base after names)))" for base k after names
    by (auto simp: list_all_iff shown_after_def Let_def shown_candidate dest!: in_set_takeD)
  then show "case local_List lower F mac p cursor limit of Inl _ \<Rightarrow> True
      | Inr page \<Rightarrow>
          (\<exists>base. fs_EvalSymlinks F (lp_basePath p) = Some base
             \<and> list_all (\<lambda>item. let name = fr_ReferenceID (sn_FileReference item) in
                  \<not> path_shaped name \<and> isSupported lower name
                  \<and> (\<exists>path. fs_EvalSymlinks F (path_Join base name) = Some path \<and> beneath base path))
                (cp_Items page))"
    by (auto simp: local_List_def list_loop_eq Let_def split: option.splits sum.splits)
qed

section \<open>Following the cursor\<close>

lemma shown_after_named: "n \<in> set (shown_after lower F base after names) \<Longrightarrow> n \<noteq> []"
  using shown_candidate(2) by (auto simp: shown_after_def path_shaped_def)

lemma shown_after_step:
  assumes "sorted names" "distinct names" "0 < k" "k \<le> length (shown_after lower F base after names)"
  defines "rem \<equiv> shown_after lower F base after names"
  shows "shown_after lower F base (rem ! (k - 1)) names = drop k rem"
proof -
  let ?m = "rem ! (k - 1)"
  have km: "k - 1 < length rem" using assms(3,4) by (simp add: rem_def)
  have m: "?m \<in> set rem" using km by simp
  have split: "rem = take (k - 1) rem @ ?m # drop k rem"
    using km assms(3) id_take_nth_drop [of "k - 1" rem] by simp
  have "sorted_wrt (<) rem"
    using assms(1,2) by (simp add: rem_def shown_after_def strict_sorted_iff sorted_wrt_filter)
  then have "filter ((<) ?m) rem = drop k rem"
    using filter_after [of "(<)" "take (k - 1) rem" ?m "drop k rem"] split by (metis less_not_sym)
  moreover have "?m \<noteq> []" "after = [] \<or> after < ?m"
    using m shown_candidate(2) by (auto simp: rem_def shown_after_def path_shaped_def)
  then have "shown_after lower F base ?m names = filter ((<) ?m) rem"
    by (auto simp: rem_def shown_after_def intro!: filter_cong)
  ultimately show ?thesis by simp
qed

text \<open>A folder as the operating system shows it: its names are distinct and in valid UTF-8.\<close>

definition folder_listed :: "filesystem \<Rightarrow> LocalProvider \<Rightarrow> string \<Rightarrow> string list \<Rightarrow> bool" where
  "folder_listed F p base entries \<longleftrightarrow>
     fs_EvalSymlinks F (lp_basePath p) = Some base \<and> fs_ReadDir F base = Some entries \<and> distinct entries
     \<and> list_all Go_Json.valid_utf8 entries \<and> Go_Json.valid_utf8 (lp_sourceID p)"

lemma local_List_page:
  fixes lower :: "rune \<Rightarrow> rune" and limit :: int
  assumes "folder_listed F p base entries" "local_after mac p c = Inr after"
  defines "rem \<equiv> shown_after lower F base after (sort entries)" and "k \<equiv> nat (ClampLimit limit)"
  shows "\<exists>page. local_List lower F mac p c limit = Inr page
    \<and> cp_Items page = map (\<lambda>n. the (candidateFor lower F base n)) (take k rem)
    \<and> cp_NextCursor page =
        (if k < length rem then
           Some (cursor_Encode mac (lp_key p)
             \<lparr> cu_SourceID = lp_sourceID p, cu_Kind = KindLocalFolder, cu_Position = rem ! (k - 1) \<rparr>)
         else None)"
proof -
  have k: "0 < k" using ClampLimit_bounds(1) [of limit] by (simp add: k_def)
  have "rem ! (k - 1) \<noteq> []" if "k < length rem"
  proof -
    have "rem ! (k - 1) \<in> set rem" using that by (intro nth_mem) simp
    then show ?thesis unfolding rem_def by (rule shown_after_named)
  qed
  moreover have "last ([] # take k rem) = rem ! (k - 1)" if "k < length rem"
    using that k by (auto simp: last_conv_nth)
  moreover have "list_loop lower F base k after (sort entries) [] [] =
      (map (\<lambda>n. the (candidateFor lower F base n)) (take k rem), last ([] # take k rem), k < length rem)"
    by (simp add: list_loop_eq rem_def Let_def)
  moreover have "fs_EvalSymlinks F (lp_basePath p) = Some base" "fs_ReadDir F base = Some entries"
    using assms(1) by (simp_all add: folder_listed_def)
  ultimately show ?thesis
    unfolding local_List_def Let_def assms(2) k_def [symmetric] by (auto simp del: last.simps)
qed

lemma local_listing:
  assumes dir: "folder_listed F p base entries" and sum: "\<And>m. length (mac (lp_key p) m) = cursorMACLen"
  shows "local_after mac p c = Inr after \<Longrightarrow>
    listing (\<lambda>c. local_List lower F mac p c limit) c
      (map (\<lambda>n. the (candidateFor lower F base n)) (shown_after lower F base after (sort entries)))"
proof (induction "length (shown_after lower F base after (sort entries))" arbitrary: c after rule: less_induct)
  case less
  let ?rem = "shown_after lower F base after (sort entries)" and ?k = "nat (ClampLimit limit)"
  let ?cand = "\<lambda>n. the (candidateFor lower F base n)"
  have k: "0 < ?k" using ClampLimit_bounds(1) [of limit] by simp
  obtain page where page: "local_List lower F mac p c limit = Inr page" "cp_Items page = map ?cand (take ?k ?rem)"
      "cp_NextCursor page = (if ?k < length ?rem then Some (cursor_Encode mac (lp_key p)
         \<lparr> cu_SourceID = lp_sourceID p, cu_Kind = KindLocalFolder, cu_Position = ?rem ! (?k - 1) \<rparr>) else None)"
    using local_List_page [OF dir less.prems] by metis
  show ?case
  proof (cases "?k < length ?rem")
    case False
    then show ?thesis using listing.last_page [of "\<lambda>c. local_List lower F mac p c limit" c, OF page(1)] page(2,3) by (simp add: orEmpty_def)
  next
    case True
    let ?cu = "\<lparr> cu_SourceID = lp_sourceID p, cu_Kind = KindLocalFolder, cu_Position = ?rem ! (?k - 1) \<rparr>"
    have "?rem ! (?k - 1) \<in> set ?rem" using True by (intro nth_mem) simp
    then have "cursor_ok ?cu"
      using dir by (auto simp: cursor_ok_def ValidKind_def folder_listed_def shown_after_def list_all_iff)
    then have "local_after mac p (cursor_Encode mac (lp_key p) ?cu) = Inr (?rem ! (?k - 1))"
      using cursor_roundtrip [of mac "lp_key p" ?cu, OF sum] by (simp add: local_after_def cursor_Encode_nonempty)
    moreover have rest: "shown_after lower F base (?rem ! (?k - 1)) (sort entries) = drop ?k ?rem"
      using True k dir by (intro shown_after_step) (auto simp: folder_listed_def)
    ultimately have "listing (\<lambda>c. local_List lower F mac p c limit) (cursor_Encode mac (lp_key p) ?cu)
        (map ?cand (drop ?k ?rem))"
      using less.hyps [of "?rem ! (?k - 1)"] True k by simp
    from listing.more_pages [of "\<lambda>c. local_List lower F mac p c limit" c, OF page(1) _ cursor_Encode_nonempty this] page(2,3) True
    show ?thesis by (simp flip: map_append)
  qed
qed

text \<open>C27: Following the cursors of a local folder, with any page size, ends and shows every book file of the folder
  exactly once, in the order of the names, provided the directory does not change meanwhile and its names are
  valid UTF-8.
\<close>

theorem local_pages_cover_folder:
  assumes "folder_listed F p base entries" "\<And>m. length (mac (lp_key p) m) = cursorMACLen"
  shows "listing (\<lambda>c. local_List lower F mac p c limit) []
      (map (\<lambda>n. the (candidateFor lower F base n)) (filter (shown lower F base) (sort entries)))
    \<and> map (\<lambda>item. fr_ReferenceID (sn_FileReference item))
        (map (\<lambda>n. the (candidateFor lower F base n)) (filter (shown lower F base) (sort entries)))
      = filter (shown lower F base) (sort entries)"
proof
  show "listing (\<lambda>c. local_List lower F mac p c limit) []
      (map (\<lambda>n. the (candidateFor lower F base n)) (filter (shown lower F base) (sort entries)))"
    using local_listing [where c = "[]" and after = "[]" and mac = mac, OF assms] by (simp add: local_after_def shown_after_def)
qed (auto simp: shown_candidate(1) intro!: map_idI)

section \<open>Witness\<close>

definition demo_fs :: filesystem where
  "demo_fs = \<lparr> fs_Stat = (\<lambda>_. Inr \<lparr> fi_IsDir = False, fi_IsRegular = True, fi_Size = 9 \<rparr>), fs_EvalSymlinks = Some,
     fs_ReadDir = (\<lambda>_. Some [''b.pdf'', ''notes'', ''a.epub'']), fs_Open = (\<lambda>_. Some ''book''),
     fs_OpenDir = (\<lambda>_. True), fs_ReadDir1 = (\<lambda>_. True) \<rparr>"

definition demo_folder :: LocalProvider where
  "demo_folder = \<lparr> lp_sourceID = ''s'', lp_basePath = ''/books'', lp_key = ''k'' \<rparr>"

theorem local_pages_cover_folder_witness:
  "listing (\<lambda>c. local_List (\<lambda>r. r) demo_fs (\<lambda>_ _. replicate 32 CHR ''m'') demo_folder c 1) []
     (map (\<lambda>n. the (candidateFor (\<lambda>r. r) demo_fs ''/books'' n))
       (filter (shown (\<lambda>r. r) demo_fs ''/books'') (sort [''b.pdf'', ''notes'', ''a.epub''])))"
proof -
  have "folder_listed demo_fs demo_folder ''/books'' [''b.pdf'', ''notes'', ''a.epub'']"
    by (simp add: folder_listed_def demo_fs_def demo_folder_def valid_utf8_ascii)
  moreover have "length (replicate 32 CHR ''m'') = cursorMACLen" by (simp add: cursorMACLen_def)
  ultimately show ?thesis
    by (rule local_pages_cover_folder [where mac = "\<lambda>_ _. replicate 32 CHR ''m''", THEN conjunct1])
qed

end
