(* ===== verification/Source_Opds.thy ===== *)
theory Source_Opds
  imports Source_Local
begin

text \<open>
  \<open>internal/adapters/sources/opds\<close>: an OPDS catalogue as a source (\<open>client.go\<close>, \<open>atom.go\<close>, \<open>json.go\<close>,
  \<open>opensearch.go\<close>, \<open>feed.go\<close>, \<open>provider.go\<close>).

  The network is the record \<open>web\<close>: the address a request is connected to and what comes back, both after the
  requests sent so far.  The state \<open>outbound\<close> holds the semaphore and the log of the requests that were sent.
  The tokenizer of \<open>encoding/xml\<close> is an argument: it gives the events of a document, an \<open>entry\<close> element as the
  value \<open>DecodeElement\<close> makes of it.
\<close>

section \<open>client.go\<close>

definition maxResponseBytes :: nat where
  "maxResponseBytes = 5 * 1024 * 1024"

record fetchError =
  fe_detail :: string
  fe_msg :: string

definition asDomain :: "fetchError \<Rightarrow> go_error" where
  "asDomain e = derr Unavailable ''source is unavailable right now''"

record http_request =
  hq_url :: string
  hq_auth :: "(string \<times> string) option"
  hq_peer :: string

record transport_error =
  te_timeout :: bool
  te_deadline :: bool
  te_dial :: bool
  te_cancelled :: bool

datatype do_result = DoError transport_error | DoResponse int "string option"

record web =
  wb_peer :: "http_request list \<Rightarrow> string \<Rightarrow> string"
  wb_answer :: "http_request list \<Rightarrow> http_request \<Rightarrow> do_result"

record outbound =
  ob_sem :: "Semaphore option"
  ob_log :: "http_request list"

record httpClient =
  hc_cred :: Credential
  hc_hasAuth :: bool
  hc_allowPrivate :: bool

definition classifyTransportError :: "transport_error \<Rightarrow> fetchError" where
  "classifyTransportError err =
     (if te_timeout err then \<lparr> fe_detail = ''timeout'', fe_msg = ''source timed out'' \<rparr>
      else if te_deadline err then \<lparr> fe_detail = ''timeout'', fe_msg = ''source timed out'' \<rparr>
      else if te_dial err then \<lparr> fe_detail = ''connection-refused'', fe_msg = ''could not connect to the source'' \<rparr>
      else if te_cancelled err then \<lparr> fe_detail = ''timeout'', fe_msg = ''request cancelled'' \<rparr>
      else \<lparr> fe_detail = ''connection-refused'', fe_msg = ''could not reach the source'' \<rparr>)"

definition try_acquire :: "outbound \<Rightarrow> bool \<times> outbound" where
  "try_acquire st =
     (case ob_sem st of
        None \<Rightarrow> (True, st)
      | Some s \<Rightarrow> (case TryAcquire s of (ok, s') \<Rightarrow> (ok, st\<lparr>ob_sem := Some s'\<rparr>)))"

definition release :: "outbound \<Rightarrow> outbound" where
  "release st = st\<lparr>ob_sem := map_option sem_Release (ob_sem st)\<rparr>"

text \<open>
  \<open>hc.Do\<close> without redirects: the guard of the transport decides on the address of the peer; a refused dial is
  a failed dial and nothing is sent.
\<close>

definition hc_Do :: "web \<Rightarrow> httpClient \<Rightarrow> string \<Rightarrow> (string \<times> string) option \<Rightarrow> outbound \<Rightarrow> do_result \<times> outbound" where
  "hc_Do W c url auth st =
     (let peer = wb_peer W (ob_log st) url in
      case GuardedTransport (hc_allowPrivate c) peer of
        Some _ \<Rightarrow>
          (DoError \<lparr> te_timeout = False, te_deadline = False, te_dial = True, te_cancelled = False \<rparr>, st)
      | None \<Rightarrow>
         (let req = \<lparr> hq_url = url, hq_auth = auth, hq_peer = peer \<rparr> in
          (wb_answer W (ob_log st) req, st\<lparr>ob_log := ob_log st @ [req]\<rparr>)))"

definition read_response :: "do_result \<Rightarrow> fetchError + string" where
  "read_response r =
     (case r of
        DoError err \<Rightarrow> Inl (classifyTransportError err)
      | DoResponse status body \<Rightarrow>
         (if status \<ge> 300 \<and> status < 400 then
            Inl \<lparr> fe_detail = ''http-3xx-unsupported'', fe_msg = ''source responded with an unsupported redirect'' \<rparr>
          else if status = 401 \<or> status = 403 then
            Inl \<lparr> fe_detail = ''auth-rejected'', fe_msg = ''source rejected the credential'' \<rparr>
          else if status \<ge> 400 \<and> status < 500 then
            Inl \<lparr> fe_detail = ''http-4xx'', fe_msg = ''source returned a client error'' \<rparr>
          else if status \<ge> 500 then
            Inl \<lparr> fe_detail = ''http-5xx'', fe_msg = ''source returned a server error'' \<rparr>
          else (case body of
                  None \<Rightarrow> Inl \<lparr> fe_detail = ''unparseable-response'', fe_msg = ''could not read the response body'' \<rparr>
                | Some b \<Rightarrow>
                   (if length b > maxResponseBytes then
                      Inl \<lparr> fe_detail = ''unparseable-response'', fe_msg = ''response exceeded the size limit'' \<rparr>
                    else Inr b))))"

definition basic_auth :: "httpClient \<Rightarrow> (string \<times> string) option" where
  "basic_auth c = (if hc_hasAuth c \<and> \<not> cred_IsZero (hc_cred c) then Some (Reveal (hc_cred c)) else None)"

text \<open>
  What a request carries: the client sets the header itself, else \<open>net/http\<close> takes the user and password of
  the URL, if it has them.
\<close>

definition request_auth :: "httpClient \<Rightarrow> URL \<Rightarrow> (string \<times> string) option" where
  "request_auth c u = (case basic_auth c of Some a \<Rightarrow> Some a | None \<Rightarrow> url_User u)"

definition http_get :: "url_lib \<Rightarrow> web \<Rightarrow> httpClient \<Rightarrow> string \<Rightarrow> outbound \<Rightarrow> (fetchError + string) \<times> outbound" where
  "http_get U W c rawURL st =
     (case try_acquire st of
        (False, _) \<Rightarrow> (Inl \<lparr> fe_detail = ''timeout'', fe_msg = ''outbound concurrency cap reached'' \<rparr>, st)
      | (True, st1) \<Rightarrow>
         (case ul_Parse U rawURL of
            None \<Rightarrow> (Inl \<lparr> fe_detail = ''unparseable-response'', fe_msg = ''could not build request'' \<rparr>, release st1)
          | Some u \<Rightarrow>
             (case hc_Do W c rawURL (request_auth c u) st1 of
                (r, st2) \<Rightarrow> (read_response r, release st2))))"

section \<open>feed.go\<close>

definition maxEntriesPerPage :: nat where
  "maxEntriesPerPage = 2000"

definition maxCandidateTitleLen :: nat where
  "maxCandidateTitleLen = 512"

record rawEntry =
  re_id :: string
  re_title :: string
  re_author :: string
  re_acqHref :: string
  re_acqType :: string
  re_coverHref :: string

record parsedFeed =
  fd_entries :: "rawEntry list"
  fd_nextHref :: string
  fd_searchHref :: string
  fd_searchIsDescriptionDoc :: bool

definition no_entry :: rawEntry where
  "no_entry = \<lparr> re_id = [], re_title = [], re_author = [], re_acqHref = [], re_acqType = [], re_coverHref = [] \<rparr>"

definition no_feed :: parsedFeed where
  "no_feed = \<lparr> fd_entries = [], fd_nextHref = [], fd_searchHref = [], fd_searchIsDescriptionDoc = False \<rparr>"

definition mediaTypeFormat :: "(string \<times> string) list" where
  "mediaTypeFormat =
     [(''application/epub+zip'', ''EPUB''), (''application/pdf'', ''PDF''),
      (''application/x-mobipocket-ebook'', ''MOBI''), (''application/vnd.amazon.ebook'', ''AZW3''),
      (''application/vnd.comicbook+zip'', ''CBZ''), (''application/vnd.comicbook-rar'', ''CBR''),
      (''application/x-cbr'', ''CBR''), (''application/x-cbz'', ''CBZ''), (''text/fb2+xml'', ''FB2''),
      (''application/x-fictionbook+xml'', ''FB2''), (''image/vnd.djvu'', ''DJVU'')]"

definition extFormat :: "(string \<times> string) list" where
  "extFormat =
     [(''.epub'', ''EPUB''), (''.pdf'', ''PDF''), (''.mobi'', ''MOBI''), (''.azw3'', ''AZW3''),
      (''.cbz'', ''CBZ''), (''.cbr'', ''CBR''), (''.fb2'', ''FB2''), (''.djvu'', ''DJVU'')]"

definition formatFor :: "url_lib \<Rightarrow> string \<Rightarrow> string \<Rightarrow> string" where
  "formatFor U mediaType href =
     (let mt0 = ToLower (ul_lower U) (TrimSpace mediaType);
          mt = (if CHR '';'' \<in> set mt0 then TrimSpace (takeWhile (\<lambda>c. c \<noteq> CHR '';'') mt0) else mt0) in
      case map_of mediaTypeFormat mt of
        Some f \<Rightarrow> f
      | None \<Rightarrow>
         (case ul_Parse U href of
            None \<Rightarrow> []
          | Some u \<Rightarrow> orEmpty (map_of extFormat (ToLower (ul_lower U) (path_Ext (url_Path u))))))"

definition resolveSameOrigin :: "url_lib \<Rightarrow> string \<Rightarrow> string \<Rightarrow> string" where
  "resolveSameOrigin U baseURL href0 =
     (let href = TrimSpace href0 in
      if href = [] then []
      else if ul_Parse U baseURL = None then []
      else if ul_Parse U href = None then []
      else (let target = ul_Resolve U baseURL href in
            if \<not> SameOrigin U baseURL target then [] else target))"

definition candidateFromEntry :: "url_lib \<Rightarrow> rawEntry \<Rightarrow> string \<Rightarrow> SourceCandidate option" where
  "candidateFromEntry U e baseURL =
     (let title = TrimSpace (re_title e); format = formatFor U (re_acqType e) (re_acqHref e);
          author = TrimSpace (re_author e); cover = resolveSameOrigin U baseURL (re_coverHref e) in
      if ValidateBoundedText ''title'' title maxCandidateTitleLen \<noteq> None then None
      else if re_acqHref e = [] then None
      else if format = [] then None
      else (case NewFileReference (re_acqHref e) format None of
              Inl _ \<Rightarrow> None
            | Inr ref \<Rightarrow>
                Some \<lparr> sn_Title = title,
                  sn_Author = (if author \<noteq> [] \<and> ValidateBoundedText ''author'' author maxCandidateTitleLen = None
                    then Some author else None),
                  sn_FileReference = ref,
                  sn_CoverURL = (if cover \<noteq> [] then Some cover else None) \<rparr>))"

fun normalise_entries :: "url_lib \<Rightarrow> string \<Rightarrow> rawEntry list \<Rightarrow> string set \<Rightarrow> SourceCandidate list" where
  "normalise_entries U baseURL [] seen = []"
| "normalise_entries U baseURL (e # es) seen =
     (let key = (if re_id e = [] then re_acqHref e else re_id e) in
      if key \<noteq> [] \<and> key \<in> seen then normalise_entries U baseURL es seen
      else (let seen' = (if key \<noteq> [] then insert key seen else seen) in
            case candidateFromEntry U e baseURL of
              None \<Rightarrow> normalise_entries U baseURL es seen'
            | Some cand \<Rightarrow> cand # normalise_entries U baseURL es seen'))"

definition normalise :: "url_lib \<Rightarrow> mac \<Rightarrow> parsedFeed \<Rightarrow> string \<Rightarrow> string \<Rightarrow> string \<Rightarrow> CandidatePage" where
  "normalise U mac pf baseURL key sourceID =
     (let upcoming = resolveSameOrigin U baseURL (fd_nextHref pf) in
      \<lparr> cp_Items = normalise_entries U baseURL (fd_entries pf) {},
        cp_NextCursor =
          (if upcoming \<noteq> [] then
             Some (cursor_Encode mac key \<lparr> cu_SourceID = sourceID, cu_Kind = KindOPDS, cu_Position = upcoming \<rparr>)
           else None) \<rparr>)"

section \<open>atom.go\<close>

definition maxXMLDepth :: int where
  "maxXMLDepth = 40"

record atomLink =
  al_Rel :: string
  al_Href :: string
  al_Type :: string

record atomEntry =
  ae_ID :: string
  ae_Title :: string
  ae_Authors :: "string list"
  ae_Links :: "atomLink list"

text \<open>
  What the token loop meets: the start of an element with its attributes, an \<open>entry\<close> element with what
  \<open>DecodeElement\<close> returns for it (\<open>None\<close> is its error), the end of an element, other tokens, an error.
\<close>

datatype xml_event = XStart string "(string \<times> string) list" | XEntry "atomEntry option" | XEnd | XOther | XError

definition attrLink :: "(string \<times> string) list \<Rightarrow> atomLink" where
  "attrLink attrs =
     fold (\<lambda>(n, v) l.
        if n = ''rel'' then l\<lparr>al_Rel := v\<rparr> else if n = ''href'' then l\<lparr>al_Href := v\<rparr>
        else if n = ''type'' then l\<lparr>al_Type := v\<rparr> else l)
      attrs \<lparr> al_Rel = [], al_Href = [], al_Type = [] \<rparr>"

definition applyFeedLink :: "url_lib \<Rightarrow> parsedFeed \<Rightarrow> atomLink \<Rightarrow> parsedFeed" where
  "applyFeedLink U pf l =
     (if ul_EqualFold U (al_Rel l) ''next'' then
        (if fd_nextHref pf = [] then pf\<lparr>fd_nextHref := al_Href l\<rparr> else pf)
      else if ul_EqualFold U (al_Rel l) ''search'' then
        (if fd_searchHref pf = [] then pf\<lparr>fd_searchHref := al_Href l, fd_searchIsDescriptionDoc := True\<rparr> else pf)
      else pf)"

definition atom_link :: "atomLink \<Rightarrow> rawEntry \<Rightarrow> rawEntry" where
  "atom_link l r =
     (if HasPrefix (al_Rel l) ''http://opds-spec.org/acquisition'' then
        (if re_acqHref r = [] then r\<lparr>re_acqHref := al_Href l, re_acqType := al_Type l\<rparr> else r)
      else if al_Rel l = ''http://opds-spec.org/image'' \<or> al_Rel l = ''http://opds-spec.org/cover'' then
        (if re_coverHref r = [] then r\<lparr>re_coverHref := al_Href l\<rparr> else r)
      else if al_Rel l = ''http://opds-spec.org/image/thumbnail'' \<and> re_coverHref r = [] then
        r\<lparr>re_coverHref := al_Href l\<rparr>
      else r)"

definition atomEntryToRaw :: "atomEntry \<Rightarrow> rawEntry" where
  "atomEntryToRaw e =
     fold atom_link (ae_Links e)
       (no_entry\<lparr>re_id := TrimSpace (ae_ID e), re_title := TrimSpace (ae_Title e),
          re_author := (case ae_Authors e of [] \<Rightarrow> [] | a # _ \<Rightarrow> TrimSpace a)\<rparr>)"

fun atom_loop :: "url_lib \<Rightarrow> xml_event list \<Rightarrow> parsedFeed \<Rightarrow> int \<Rightarrow> bool \<Rightarrow> parsedFeed option" where
  "atom_loop U [] pf depth sawFeed = (if \<not> sawFeed then None else Some pf)"
| "atom_loop U (XError # es) pf depth sawFeed = None"
| "atom_loop U (XOther # es) pf depth sawFeed = atom_loop U es pf depth sawFeed"
| "atom_loop U (XEnd # es) pf depth sawFeed =
     (if depth - 1 < 0 then None else atom_loop U es pf (depth - 1) sawFeed)"
| "atom_loop U (XEntry e # es) pf depth sawFeed =
     (if depth + 1 > maxXMLDepth then None
      else if length (fd_entries pf) \<ge> maxEntriesPerPage then None
      else (case e of
              None \<Rightarrow> None
            | Some entry \<Rightarrow>
                atom_loop U es (pf\<lparr>fd_entries := fd_entries pf @ [atomEntryToRaw entry]\<rparr>) depth sawFeed))"
| "atom_loop U (XStart name attrs # es) pf depth sawFeed =
     (if depth + 1 > maxXMLDepth then None
      else if name = ''feed'' then atom_loop U es pf (depth + 1) True
      else if name = ''link'' \<and> depth + 1 \<le> 2 then
        atom_loop U es (applyFeedLink U pf (attrLink attrs)) (depth + 1) sawFeed
      else atom_loop U es pf (depth + 1) sawFeed)"

definition parseAtom :: "url_lib \<Rightarrow> (string \<Rightarrow> xml_event list) \<Rightarrow> string \<Rightarrow> parsedFeed option" where
  "parseAtom U xml body = atom_loop U (xml body) no_feed 0 False"

definition looksLikeXML :: "string \<Rightarrow> bool" where
  "looksLikeXML body \<longleftrightarrow>
     HasPrefix (dropWhile (\<lambda>c. c = CHR '' '' \<or> c = CHR 0x09 \<or> c = CHR 0x0D \<or> c = CHR 0x0A)
       (TrimPrefix body [CHR 0xEF, CHR 0xBB, CHR 0xBF])) ''<''"

section \<open>json.go\<close>

record opds2Link =
  ol_Rel :: json
  ol_Href :: string
  ol_Type :: string
  ol_Templated :: bool

record opds2Pub =
  ob_Title :: string
  ob_Author :: string
  ob_Links :: "opds2Link list"
  ob_Images :: "opds2Link list"

record opds2Feed =
  of_Title :: string
  of_Links :: "opds2Link list"
  of_Publications :: "opds2Pub list"
  of_Navigation :: "opds2Link list"

text \<open>Fields of other kinds than text: a value of any kind, a flag, a nested struct and a list of structs.\<close>

definition any_field :: "(json \<Rightarrow> 'c \<Rightarrow> 'c) \<Rightarrow> json \<Rightarrow> 'c \<Rightarrow> 'c option" where
  "any_field upd v c = Some (upd v c)"

definition bool_field :: "(bool \<Rightarrow> 'c \<Rightarrow> 'c) \<Rightarrow> json \<Rightarrow> 'c \<Rightarrow> 'c option" where
  "bool_field upd v c = (case v of JBool b \<Rightarrow> Some (upd b c) | JNull \<Rightarrow> Some c | _ \<Rightarrow> None)"

definition list_field :: "'e field list \<Rightarrow> 'e \<Rightarrow> ('e list \<Rightarrow> 'c \<Rightarrow> 'c) \<Rightarrow> json \<Rightarrow> 'c \<Rightarrow> 'c option" where
  "list_field fs zero upd v c =
     (case v of
        JNull \<Rightarrow> Some (upd [] c)
      | JArr vs \<Rightarrow> map_option (\<lambda>es. upd es c) (all_Some (map (decode_struct fs zero) vs))
      | _ \<Rightarrow> None)"

definition link_fields :: "opds2Link field list" where
  "link_fields =
     [(''rel'', any_field (\<lambda>v. ol_Rel_update (\<lambda>_. v))), (''href'', str_field (\<lambda>s. ol_Href_update (\<lambda>_. s))),
      (''type'', str_field (\<lambda>s. ol_Type_update (\<lambda>_. s))), (''templated'', bool_field (\<lambda>b. ol_Templated_update (\<lambda>_. b)))]"

definition no_link :: opds2Link where
  "no_link = \<lparr> ol_Rel = JNull, ol_Href = [], ol_Type = [], ol_Templated = False \<rparr>"

text \<open>\<open>opds2Contributor.UnmarshalJSON\<close>: a string, an object with a name, or a list of either.\<close>

fun contributor :: "json \<Rightarrow> string" where
  "contributor (JStr s) = s"
| "contributor (JObj ms) = orEmpty (decode_struct [(''name'', str_field (\<lambda>s _. s))] [] (JObj ms))"
| "contributor (JArr (v # vs)) = contributor v"
| "contributor v = []"

definition metadata_fields :: "opds2Pub field list" where
  "metadata_fields =
     [(''title'', str_field (\<lambda>s. ob_Title_update (\<lambda>_. s))),
      (''author'', \<lambda>v c. Some (ob_Author_update (\<lambda>_. contributor v) c))]"

definition pub_fields :: "opds2Pub field list" where
  "pub_fields =
     [(''metadata'', \<lambda>v c. decode_struct metadata_fields c v),
      (''links'', list_field link_fields no_link (\<lambda>ls. ob_Links_update (\<lambda>_. ls))),
      (''images'', list_field link_fields no_link (\<lambda>ls. ob_Images_update (\<lambda>_. ls)))]"

definition feed_fields :: "opds2Feed field list" where
  "feed_fields =
     [(''metadata'', \<lambda>v c. decode_struct [(''title'', str_field (\<lambda>s. of_Title_update (\<lambda>_. s)))] c v),
      (''links'', list_field link_fields no_link (\<lambda>ls. of_Links_update (\<lambda>_. ls))),
      (''publications'', list_field pub_fields \<lparr> ob_Title = [], ob_Author = [], ob_Links = [], ob_Images = [] \<rparr>
         (\<lambda>ps. of_Publications_update (\<lambda>_. ps))),
      (''navigation'', list_field link_fields no_link (\<lambda>ls. of_Navigation_update (\<lambda>_. ls)))]"

fun relStrings :: "json \<Rightarrow> string list" where
  "relStrings (JStr s) = [s]"
| "relStrings (JArr vs) = concat (map (\<lambda>v. case v of JStr s \<Rightarrow> [s] | _ \<Rightarrow> []) vs)"
| "relStrings _ = []"

definition linkHasRel :: "url_lib \<Rightarrow> opds2Link \<Rightarrow> string \<Rightarrow> bool" where
  "linkHasRel U l want = list_ex (\<lambda>r. r = want \<or> ul_EqualFold U r want) (relStrings (ol_Rel l))"

definition hasRel :: "url_lib \<Rightarrow> opds2Link list \<Rightarrow> string \<Rightarrow> bool" where
  "hasRel U links want = list_ex (\<lambda>l. linkHasRel U l want) links"

definition isAcquisitionRel :: "json \<Rightarrow> bool" where
  "isAcquisitionRel rel =
     list_ex (\<lambda>r. r = ''http://opds-spec.org/acquisition'' \<or> HasPrefix r ''http://opds-spec.org/acquisition/'')
       (relStrings rel)"

definition pub_link :: "opds2Link \<Rightarrow> rawEntry \<Rightarrow> rawEntry" where
  "pub_link l r =
     (if isAcquisitionRel (ol_Rel l) \<and> re_acqHref r = [] then
        r\<lparr>re_acqHref := ol_Href l, re_acqType := ol_Type l\<rparr> else r)"

definition pubToRaw :: "opds2Pub \<Rightarrow> rawEntry" where
  "pubToRaw p =
     (let r = fold pub_link (ob_Links p)
        (no_entry\<lparr>re_title := TrimSpace (ob_Title p), re_author := TrimSpace (ob_Author p)\<rparr>) in
      case ob_Images p of [] \<Rightarrow> r | i # _ \<Rightarrow> r\<lparr>re_coverHref := ol_Href i\<rparr>)"

definition feed_link :: "url_lib \<Rightarrow> opds2Link \<Rightarrow> parsedFeed \<Rightarrow> parsedFeed" where
  "feed_link U l pf =
     (let pf1 = (if linkHasRel U l ''next'' \<and> fd_nextHref pf = [] then pf\<lparr>fd_nextHref := ol_Href l\<rparr> else pf) in
      if linkHasRel U l ''search'' \<and> fd_searchHref pf1 = [] then pf1\<lparr>fd_searchHref := ol_Href l\<rparr> else pf1)"

definition parseOPDS2 :: "url_lib \<Rightarrow> string \<Rightarrow> parsedFeed option" where
  "parseOPDS2 U body =
     (case Unmarshal feed_fields \<lparr> of_Title = [], of_Links = [], of_Publications = [], of_Navigation = [] \<rparr> body of
        None \<Rightarrow> None
      | Some f \<Rightarrow>
         (if \<not> hasRel U (of_Links f) ''self'' then None
          else if length (of_Publications f) > maxEntriesPerPage then None
          else Some ((fold (feed_link U) (of_Links f) no_feed)
                 \<lparr>fd_entries := map pubToRaw (of_Publications f)\<rparr>)))"

section \<open>opensearch.go\<close>

text \<open>The decoder gives the type and the template of every \<open>Url\<close> element, or fails.\<close>

fun best_template :: "url_lib \<Rightarrow> (string \<times> string) list \<Rightarrow> string \<Rightarrow> string" where
  "best_template U [] fallback = fallback"
| "best_template U ((ty, template) # us) fallback =
     (if \<not> str_Contains template ''{searchTerms}'' then best_template U us fallback
      else (let t = ToLower (ul_lower U) ty in
            if str_Contains t ''opds'' \<or> str_Contains t ''atom'' then template
            else best_template U us (if fallback = [] then template else fallback)))"

definition parseOpenSearchTemplate :: "url_lib \<Rightarrow> (string \<Rightarrow> (string \<times> string) list option) \<Rightarrow> string \<Rightarrow> string" where
  "parseOpenSearchTemplate U description body =
     (case description body of None \<Rightarrow> [] | Some urls \<Rightarrow> best_template U urls [])"

section \<open>provider.go\<close>

record opds_env =
  oe_url :: url_lib
  oe_web :: web
  oe_mac :: mac
  oe_xml :: "string \<Rightarrow> xml_event list"
  oe_description :: "string \<Rightarrow> (string \<times> string) list option"

record OpdsProvider =
  op_sourceID :: string
  op_baseURL :: string
  op_client :: httpClient
  op_key :: string
  op_searchTemplate :: string

definition parseFeed :: "opds_env \<Rightarrow> string \<Rightarrow> parsedFeed option" where
  "parseFeed E body =
     (if looksLikeXML body then parseAtom (oe_url E) (oe_xml E) body else parseOPDS2 (oe_url E) body)"

definition opds_get :: "opds_env \<Rightarrow> OpdsProvider \<Rightarrow> string \<Rightarrow> outbound \<Rightarrow> (fetchError + string) \<times> outbound" where
  "opds_get E p url st = http_get (oe_url E) (oe_web E) (op_client p) url st"

definition detectSearch :: "opds_env \<Rightarrow> OpdsProvider \<Rightarrow> parsedFeed \<Rightarrow> outbound \<Rightarrow> string \<times> outbound" where
  "detectSearch E p pf st =
     (if fd_searchHref pf = [] then ([], st)
      else (let target = resolveSameOrigin (oe_url E) (op_baseURL p) (fd_searchHref pf) in
        if target = [] then ([], st)
        else if \<not> fd_searchIsDescriptionDoc pf then (target, st)
        else (case opds_get E p target st of
                (Inl _, st1) \<Rightarrow> ([], st1)
              | (Inr body, st1) \<Rightarrow>
                 (let template = parseOpenSearchTemplate (oe_url E) (oe_description E) body in
                  if template = [] then ([], st1)
                  else (resolveSameOrigin (oe_url E) (op_baseURL p) template, st1)))))"

definition opds_Probe :: "opds_env \<Rightarrow> OpdsProvider \<Rightarrow> outbound \<Rightarrow> ProbeResult \<times> outbound" where
  "opds_Probe E p st =
     (case opds_get E p (op_baseURL p) st of
        (Inl ferr, st1) \<Rightarrow> (unreachable (fe_detail ferr), st1)
      | (Inr body, st1) \<Rightarrow>
         (case parseFeed E body of
            None \<Rightarrow> (unreachable ''unparseable-response'', st1)
          | Some pf \<Rightarrow>
             (case detectSearch E p pf st1 of
                (searchURL, st2) \<Rightarrow>
                  (\<lparr> pb_Status = ''reachable'', pb_Detail = [],
                     pb_Capabilities = \<lparr> CanList = True, CanSearch = searchURL \<noteq> [], CanDownload = True \<rparr>,
                     pb_SearchLinkURL = searchURL \<rparr>, st2))))"

text \<open>The position a cursor names: \<open>Inr []\<close> when it has none.\<close>

definition opds_position :: "opds_env \<Rightarrow> OpdsProvider \<Rightarrow> string \<Rightarrow> string result" where
  "opds_position E p cursor =
     (case cursor_Decode (oe_mac E) (op_key p) cursor (op_sourceID p) of
        Inl err \<Rightarrow> Inl err
      | Inr c \<Rightarrow> ForOPDSPosition (oe_url E) c (op_baseURL p))"

definition empty_page :: CandidatePage where
  "empty_page = \<lparr> cp_Items = [], cp_NextCursor = None \<rparr>"

definition fetch_page :: "opds_env \<Rightarrow> OpdsProvider \<Rightarrow> string \<Rightarrow> outbound \<Rightarrow> CandidatePage result \<times> outbound" where
  "fetch_page E p fetchURL st =
     (case opds_get E p fetchURL st of
        (Inl ferr, st1) \<Rightarrow> (Inl (asDomain ferr), st1)
      | (Inr body, st1) \<Rightarrow>
         (case parseFeed E body of
            None \<Rightarrow> (Inl (derr Unavailable ''source returned an unreadable response''), st1)
          | Some pf \<Rightarrow> (Inr (normalise (oe_url E) (oe_mac E) pf (op_baseURL p) (op_key p) (op_sourceID p)), st1)))"

definition opds_List :: "opds_env \<Rightarrow> OpdsProvider \<Rightarrow> string \<Rightarrow> int \<Rightarrow> outbound \<Rightarrow> CandidatePage result \<times> outbound" where
  "opds_List E p cursor limit st =
     (if cursor = [] then fetch_page E p (op_baseURL p) st
      else (case opds_position E p cursor of
              Inl err \<Rightarrow> (Inl err, st)
            | Inr pos \<Rightarrow> (if pos = [] then (Inr empty_page, st) else fetch_page E p pos st)))"

text \<open>\<open>url.QueryEscape\<close>.\<close>

definition upper_hex :: string where
  "upper_hex = ''0123456789ABCDEF''"

definition escape_byte :: "char \<Rightarrow> string" where
  "escape_byte c =
     (if is_alnum c \<or> c = CHR ''-'' \<or> c = CHR ''_'' \<or> c = CHR ''.'' \<or> c = CHR ''~'' then [c]
      else if c = CHR '' '' then ''+''
      else [CHR ''%'', upper_hex ! (of_char c div 16), upper_hex ! (of_char c mod 16)])"

definition QueryEscape :: "string \<Rightarrow> string" where
  "QueryEscape s = concat (map escape_byte s)"

definition expandSearchTemplate :: "string \<Rightarrow> string \<Rightarrow> string" where
  "expandSearchTemplate template q =
     (let esc = QueryEscape q in
      if str_Contains template ''{searchTerms}'' then ReplaceAll template ''{searchTerms}'' esc
      else if str_Contains template ''{?query}'' then ReplaceAll template ''{?query}'' (''?query='' @ esc)
      else if str_Contains template ''{query}'' then ReplaceAll template ''{query}'' esc
      else template @ (if str_Contains template ''?'' then ''&'' else ''?'') @ ''q='' @ esc)"

definition opds_Search ::
  "opds_env \<Rightarrow> OpdsProvider \<Rightarrow> string \<Rightarrow> string \<Rightarrow> int \<Rightarrow> outbound \<Rightarrow> CandidatePage result \<times> outbound" where
  "opds_Search E p q cursor limit st =
     (if op_searchTemplate p = [] then (Inl (derr Conflict ''this source does not support search''), st)
      else
     (case (if cursor = [] then Inr (Some (expandSearchTemplate (op_searchTemplate p) q))
            else (case opds_position E p cursor of
                    Inl err \<Rightarrow> Inl err
                  | Inr pos \<Rightarrow> Inr (if pos = [] then None else Some pos))) of
        Inl err \<Rightarrow> (Inl err, st)
      | Inr None \<Rightarrow> (Inr empty_page, st)
      | Inr (Some fetchURL) \<Rightarrow>
         (if \<not> SameOrigin (oe_url E) (op_baseURL p) fetchURL then (Inl source_unavailable, st)
          else fetch_page E p fetchURL st)))"

definition opds_Resolve :: "opds_env \<Rightarrow> OpdsProvider \<Rightarrow> FileReference \<Rightarrow> outbound \<Rightarrow> string result \<times> outbound" where
  "opds_Resolve E p ref st =
     (let target = resolveSameOrigin (oe_url E) (op_baseURL p) (fr_ReferenceID ref) in
      if target = [] then (Inl (derr InvalidInput ''file reference is not valid for this source''), st)
      else (case opds_get E p target st of
              (Inl ferr, st1) \<Rightarrow> (Inl (asDomain ferr), st1)
            | (Inr body, st1) \<Rightarrow> (Inr body, st1)))"

section \<open>Requests stay on the origin\<close>

text \<open>
  A request that may be sent for a source: to its base URL or to a URL of the same origin, with the credential of
  the source or, when it has none, the user of the URL, to a peer the guard lets through.
\<close>

definition on_origin :: "opds_env \<Rightarrow> OpdsProvider \<Rightarrow> string \<Rightarrow> bool" where
  "on_origin E p url \<longleftrightarrow> url = op_baseURL p \<or> SameOrigin (oe_url E) (op_baseURL p) url"

definition sent_ok :: "opds_env \<Rightarrow> OpdsProvider \<Rightarrow> http_request \<Rightarrow> bool" where
  "sent_ok E p req \<longleftrightarrow>
     on_origin E p (hq_url req)
     \<and> (\<exists>u. ul_Parse (oe_url E) (hq_url req) = Some u \<and> hq_auth req = request_auth (op_client p) u)
     \<and> GuardedTransport (hc_allowPrivate (op_client p)) (hq_peer req) = None"

definition sends_ok :: "opds_env \<Rightarrow> OpdsProvider \<Rightarrow> outbound \<Rightarrow> outbound \<Rightarrow> bool" where
  "sends_ok E p st st' \<longleftrightarrow>
     ob_sem st' = ob_sem st \<and> (\<exists>new. ob_log st' = ob_log st @ new \<and> list_all (sent_ok E p) new)"

lemma sends_ok_refl [simp]: "sends_ok E p st st"
  by (simp add: sends_ok_def)

lemma sends_ok_trans: "sends_ok E p st st1 \<Longrightarrow> sends_ok E p st1 st2 \<Longrightarrow> sends_ok E p st st2"
  by (auto simp: sends_ok_def)

lemma acquire_release:
  "try_acquire st = (True, st1) \<Longrightarrow> ob_sem st2 = ob_sem st1 \<Longrightarrow> ob_sem (release st2) = ob_sem st"
  "try_acquire st = (True, st1) \<Longrightarrow> ob_log st1 = ob_log st" "ob_log (release st2) = ob_log st2"
  by (auto simp: try_acquire_def release_def TryAcquire_def sem_Release_def split: option.splits if_splits prod.splits)

lemma hc_Do_sends:
  assumes "hc_Do W c url auth st = (r, st')"
  shows "ob_sem st' = ob_sem st"
    "ob_log st' = ob_log st \<or> (\<exists>peer. ob_log st' = ob_log st @ [\<lparr> hq_url = url, hq_auth = auth, hq_peer = peer \<rparr>]
       \<and> GuardedTransport (hc_allowPrivate c) peer = None)"
  using assms by (auto simp: hc_Do_def Let_def split: option.splits)

lemma opds_get_sends:
  assumes "on_origin E p url"
  shows "sends_ok E p st (snd (opds_get E p url st))"
proof (cases "try_acquire st")
  case (Pair ok st1)
  show ?thesis
  proof (cases "ul_Parse (oe_url E) url")
    case None
    then show ?thesis
      using Pair acquire_release(1,2) [of st st1]
      by (cases ok) (simp_all add: opds_get_def http_get_def sends_ok_def acquire_release(3))
  next
    case (Some u)
    obtain r st2 where d: "hc_Do (oe_web E) (op_client p) url (request_auth (op_client p) u) st1 = (r, st2)" by fastforce
    then show ?thesis
      using assms Pair Some hc_Do_sends [OF d] acquire_release(1,2) [of st st1]
      by (cases ok) (auto simp: opds_get_def http_get_def sends_ok_def sent_ok_def acquire_release(3))
  qed
qed

lemma resolved_on_origin: "resolveSameOrigin U base href \<noteq> [] \<Longrightarrow> SameOrigin U base (resolveSameOrigin U base href)"
  by (auto simp: resolveSameOrigin_def Let_def split: if_splits)

lemma detectSearch_sends:
  "sends_ok E p st (snd (detectSearch E p pf st))"
  "fst (detectSearch E p pf st) = [] \<or> SameOrigin (oe_url E) (op_baseURL p) (fst (detectSearch E p pf st))"
proof -
  let ?t = "resolveSameOrigin (oe_url E) (op_baseURL p) (fd_searchHref pf)"
  have "?t \<noteq> [] \<Longrightarrow> sends_ok E p st (snd (opds_get E p ?t st))"
    using resolved_on_origin by (intro opds_get_sends) (auto simp: on_origin_def)
  then show "sends_ok E p st (snd (detectSearch E p pf st))"
    by (auto simp: detectSearch_def Let_def split: prod.splits sum.splits)
  show "fst (detectSearch E p pf st) = [] \<or> SameOrigin (oe_url E) (op_baseURL p) (fst (detectSearch E p pf st))"
    using resolved_on_origin by (auto simp: detectSearch_def Let_def split: prod.splits sum.splits)
qed

lemma Probe_sends:
  "sends_ok E p st (snd (opds_Probe E p st))"
  "pb_SearchLinkURL (fst (opds_Probe E p st)) = []
   \<or> SameOrigin (oe_url E) (op_baseURL p) (pb_SearchLinkURL (fst (opds_Probe E p st)))"
proof -
  obtain r st1 where g: "opds_get E p (op_baseURL p) st = (r, st1)" by fastforce
  have "sends_ok E p st st1" using opds_get_sends [of E p "op_baseURL p" st] g by (simp add: on_origin_def)
  then show "sends_ok E p st (snd (opds_Probe E p st))"
    using g detectSearch_sends(1) sends_ok_trans
    by (auto simp: opds_Probe_def split: sum.splits option.splits prod.splits) (metis snd_conv)
  show "pb_SearchLinkURL (fst (opds_Probe E p st)) = []
   \<or> SameOrigin (oe_url E) (op_baseURL p) (pb_SearchLinkURL (fst (opds_Probe E p st)))"
    using g detectSearch_sends(2)
    by (auto simp: opds_Probe_def unreachable_def split: sum.splits option.splits prod.splits) (metis fst_conv)
qed

definition covers_ok :: "opds_env \<Rightarrow> OpdsProvider \<Rightarrow> CandidatePage \<Rightarrow> bool" where
  "covers_ok E p page \<longleftrightarrow>
     list_all (\<lambda>item. case sn_CoverURL item of None \<Rightarrow> True | Some url \<Rightarrow> SameOrigin (oe_url E) (op_baseURL p) url)
       (cp_Items page)"

lemma normalise_entries_all:
  assumes "\<And>e item. candidateFromEntry U e base = Some item \<Longrightarrow> Q item"
  shows "list_all Q (normalise_entries U base es seen)"
  using assms by (induction es arbitrary: seen) (simp_all add: Let_def split: option.split)

lemma normalise_covers: "covers_ok E p (normalise (oe_url E) mac pf (op_baseURL p) key i)"
  using resolved_on_origin unfolding covers_ok_def normalise_def Let_def
  by (auto simp: candidateFromEntry_def Let_def intro!: normalise_entries_all split: if_splits sum.splits option.split)

lemma empty_page_covers [simp]: "covers_ok E p empty_page"
  by (simp add: covers_ok_def empty_page_def)

lemma fetch_page_sends:
  "on_origin E p url \<Longrightarrow> sends_ok E p st (snd (fetch_page E p url st))"
  "fst (fetch_page E p url st) = Inr page \<Longrightarrow> covers_ok E p page"
proof -
  assume "on_origin E p url"
  from opds_get_sends [OF this, of st] show "sends_ok E p st (snd (fetch_page E p url st))"
    by (auto simp: fetch_page_def split: sum.splits option.splits prod.splits)
next
  show "fst (fetch_page E p url st) = Inr page \<Longrightarrow> covers_ok E p page"
    by (auto simp: fetch_page_def normalise_covers split: sum.splits option.splits prod.splits)
qed

lemma position_on_origin: "opds_position E p cursor = Inr pos \<Longrightarrow> pos \<noteq> [] \<Longrightarrow> on_origin E p pos"
  by (auto simp: opds_position_def ForOPDSPosition_def on_origin_def split: sum.splits if_splits)

lemma List_sends:
  "sends_ok E p st (snd (opds_List E p cursor limit st))"
  "fst (opds_List E p cursor limit st) = Inr page \<Longrightarrow> covers_ok E p page"
  using fetch_page_sends position_on_origin
  by (auto simp: opds_List_def on_origin_def split: sum.splits if_splits)

lemma Search_sends:
  "sends_ok E p st (snd (opds_Search E p q cursor limit st))"
  "fst (opds_Search E p q cursor limit st) = Inr page \<Longrightarrow> covers_ok E p page"
  using fetch_page_sends
  by (auto simp: opds_Search_def on_origin_def split: sum.splits option.splits if_splits)

lemma Resolve_sends: "sends_ok E p st (snd (opds_Resolve E p ref st))"
proof -
  let ?t = "resolveSameOrigin (oe_url E) (op_baseURL p) (fr_ReferenceID ref)"
  have "?t \<noteq> [] \<Longrightarrow> sends_ok E p st (snd (opds_get E p ?t st))"
    using resolved_on_origin by (intro opds_get_sends) (auto simp: on_origin_def)
  then show ?thesis by (auto simp: opds_Resolve_def Let_def split: prod.splits sum.splits)
qed

text \<open>Whatever a catalogue answers and whatever names resolve to, every request an OPDS source sends while it is
  probed, listed, searched or read goes to its base URL or to a URL of the same origin, to an address the guard
  lets through, and carries the source's credential or, when it has none, the user of its URL, if any; every slot of the outbound limit it takes is given
  back.  The search link it reports and the cover addresses it shows are of the same origin.
\<close>

theorem opds_stays_on_origin:
  "sends_ok E p st (snd (opds_Probe E p st)) \<and> sends_ok E p st (snd (opds_List E p cursor limit st))
   \<and> sends_ok E p st (snd (opds_Search E p q cursor limit st)) \<and> sends_ok E p st (snd (opds_Resolve E p ref st))
   \<and> (let link = pb_SearchLinkURL (fst (opds_Probe E p st)) in
       link = [] \<or> SameOrigin (oe_url E) (op_baseURL p) link)
   \<and> (case fst (opds_List E p cursor limit st) of Inl _ \<Rightarrow> True | Inr page \<Rightarrow> covers_ok E p page)
   \<and> (case fst (opds_Search E p q cursor limit st) of Inl _ \<Rightarrow> True | Inr page \<Rightarrow> covers_ok E p page)"
  using Probe_sends List_sends Search_sends Resolve_sends by (simp add: Let_def split: sum.split)

end
