(* ===== verification/Source_Handlers.thy ===== *)
theory Source_Handlers
  imports Source_Opds Source_Guards Http_Reply
begin

text \<open>
  \<open>transport/http/sources.go\<close>: the endpoints of sources, with \<open>adapters/crypto/crypto.go\<close> for stored credentials.

  What the handlers reach through \<open>PoolRef\<close> is the record \<open>source_env\<close>; a request is the record
  \<open>source_request\<close> with what the clock, the identifier generator and the random source return while it is
  handled.  A body comes decoded, \<open>None\<close> when it does not decode.  A handler maps the database and the state
  of outgoing requests to its answer and the states it leaves.
\<close>

section \<open>crypto.go\<close>

record crypto_service =
  cs_aead :: aead
  cs_key :: string

definition ErrDecrypt :: go_error where
  "ErrDecrypt = ErrorsNew ''crypto: credential could not be decrypted''"

definition svc_Encrypt :: "crypto_service \<Rightarrow> string result \<Rightarrow> string \<Rightarrow> (string \<times> string) result" where
  "svc_Encrypt s rand plaintext =
     (case rand of
        Inl err \<Rightarrow> Inl (Wrapf (Msg ''crypto: read nonce: %w'' []) err)
      | Inr nonce \<Rightarrow> Inr (ad_seal (cs_aead s) (cs_key s) nonce plaintext, nonce))"

definition svc_Decrypt :: "crypto_service \<Rightarrow> string \<Rightarrow> string \<Rightarrow> string result" where
  "svc_Decrypt s ciphertext nonce =
     (if length nonce \<noteq> gcm_nonceSize then Inl ErrDecrypt
      else (case ad_open (cs_aead s) (cs_key s) nonce ciphertext of None \<Rightarrow> Inl ErrDecrypt | Some t \<Rightarrow> Inr t))"

section \<open>Requests and answers\<close>

record SourceCrypto =
  sk_Encryptor :: "crypto_service option"
  sk_Codec :: "string option"

record source_env =
  se_opds :: opds_env
  se_fs :: filesystem
  se_crypto :: "SourceCrypto option"
  se_allowPrivate :: bool
  se_removal :: bool

record source_request =
  sq_pathValue :: string
  sq_path :: string
  sq_limit :: string
  sq_cursor :: string
  sq_q :: string
  sq_newID :: string
  sq_nonce :: "string result"
  sq_now :: instant

type_synonym wireSourceCredentialInput = "string \<times> string"

record wireSourceCreate =
  wc_Label :: string
  wc_Kind :: string
  wc_BasePath :: "string option"
  wc_BaseURL :: "string option"
  wc_Credential :: "wireSourceCredentialInput option"

text \<open>In an update the configuration is present or not, with the path and the address it may hold.\<close>

record wireSourceUpdate =
  wu_Label :: "string option"
  wu_Config :: "(string option \<times> string option) option"
  wu_Credential :: "wireSourceCredentialInput option"

record wireSourceHealth =
  wh_Status :: string
  wh_CheckedAt :: "instant option"
  wh_Detail :: "string option"

record wireSource =
  ws_ID :: string
  ws_Label :: string
  ws_Kind :: string
  ws_BasePath :: "string option"
  ws_BaseURL :: "string option"
  ws_HasCredential :: bool
  ws_Health :: wireSourceHealth
  ws_Capabilities :: SourceCapabilities

definition mapSourceToWire :: "SourceRecord \<Rightarrow> wireSource" where
  "mapSourceToWire rec =
     \<lparr> ws_ID = sx_ID rec, ws_Label = sx_Label rec, ws_Kind = sx_Kind rec,
       ws_BasePath = (if sx_Kind rec = KindLocalFolder then Some (sx_ConfigBasePath rec) else None),
       ws_BaseURL = (if sx_Kind rec = KindOPDS then Some (sx_ConfigBaseURL rec) else None),
       ws_HasCredential = HasCredential rec,
       ws_Health = \<lparr> wh_Status = sx_HealthStatus rec, wh_CheckedAt = sx_HealthCheckedAt rec,
         wh_Detail = (if sx_HealthDetail rec \<noteq> [] then Some (sx_HealthDetail rec) else None) \<rparr>,
       ws_Capabilities = sx_Capabilities rec \<rparr>"

definition extractSourceID :: "source_request \<Rightarrow> string" where
  "extractSourceID r =
     (if sq_pathValue r \<noteq> [] then sq_pathValue r
      else if HasPrefix (sq_path r) ''/api/v1/sources/'' then
        takeWhile (\<lambda>c. c \<noteq> CHR ''/'') (TrimPrefix (sq_path r) ''/api/v1/sources/'')
      else [])"

definition hasControlCharInString :: "string \<Rightarrow> bool" where
  "hasControlCharInString s = list_ex IsControl (runes s)"

definition parseLimit :: "string \<Rightarrow> int result" where
  "parseLimit limitStr =
     (if limitStr = [] then Inr DefaultLimit
      else (case ParseInt64 limitStr of
              None \<Rightarrow> Inl (derr InvalidInput ''limit: must be an integer between 1 and 50'')
            | Some l \<Rightarrow>
               (if l < 1 \<or> l > MaxLimit then Inl (derr InvalidInput ''limit: must be an integer between 1 and 50'')
                else Inr l)))"

text \<open>The checked identifier every endpoint of one source starts with.\<close>

definition source_id :: "source_request \<Rightarrow> string option" where
  "source_id r =
     (let i = extractSourceID r in if ValidateBoundedText ''id'' i 100 \<noteq> None then None else Some i)"

abbreviation bad_id :: "'a reply" where
  "bad_id \<equiv> refuse InvalidInput ''id: not a valid source ID''"

section \<open>Providers\<close>

datatype provider = PLocal LocalProvider | POpds OpdsProvider

definition prov_Probe :: "source_env \<Rightarrow> provider \<Rightarrow> outbound \<Rightarrow> ProbeResult \<times> outbound" where
  "prov_Probe E prov st =
     (case prov of PLocal p \<Rightarrow> (local_Probe (se_fs E) p, st) | POpds p \<Rightarrow> opds_Probe (se_opds E) p st)"

definition prov_List :: "source_env \<Rightarrow> provider \<Rightarrow> string \<Rightarrow> int \<Rightarrow> outbound \<Rightarrow> CandidatePage result \<times> outbound" where
  "prov_List E prov cursor limit st =
     (case prov of
        PLocal p \<Rightarrow>
          (local_List (ul_lower (oe_url (se_opds E))) (se_fs E) (oe_mac (se_opds E)) p cursor limit, st)
      | POpds p \<Rightarrow> opds_List (se_opds E) p cursor limit st)"

definition prov_Search ::
  "source_env \<Rightarrow> provider \<Rightarrow> string \<Rightarrow> string \<Rightarrow> int \<Rightarrow> outbound \<Rightarrow> CandidatePage result \<times> outbound" where
  "prov_Search E prov q cursor limit st =
     (case prov of
        PLocal p \<Rightarrow> (local_Search p q cursor limit, st)
      | POpds p \<Rightarrow> opds_Search (se_opds E) p q cursor limit st)"

definition opds_New ::
  "source_env \<Rightarrow> string \<Rightarrow> string \<Rightarrow> string \<Rightarrow> Credential \<Rightarrow> bool \<Rightarrow> string \<Rightarrow> OpdsProvider" where
  "opds_New E sourceID baseURL key cred hasCred template =
     \<lparr> op_sourceID = sourceID, op_baseURL = baseURL,
       op_client = \<lparr> hc_cred = cred, hc_hasAuth = hasCred, hc_allowPrivate = se_allowPrivate E \<rparr>,
       op_key = key, op_searchTemplate = template \<rparr>"

text \<open>
  The crypto bundle with \<open>nil\<close> parts when it is not set.  A provider that is only probed never reads its codec,
  so a missing one is the empty key.
\<close>

definition crypto_of :: "source_env \<Rightarrow> SourceCrypto" where
  "crypto_of E = (case se_crypto E of None \<Rightarrow> \<lparr> sk_Encryptor = None, sk_Codec = None \<rparr> | Some sc \<Rightarrow> sc)"

definition codec_key :: "source_env \<Rightarrow> string" where
  "codec_key E = orEmpty (sk_Codec (crypto_of E))"

definition credential_json :: "Credential \<Rightarrow> json" where
  "credential_json c = JObj [(''username'', JStr (cr_username c)), (''password'', JStr (cr_password c))]"

definition credential_fields :: "wireSourceCredentialInput field list" where
  "credential_fields =
     [(''username'', str_field (\<lambda>s (u, p). (s, p))), (''password'', str_field (\<lambda>s (u, p). (u, s)))]"

text \<open>The credential of a row, \<open>None\<close> when it cannot be read.\<close>

definition open_credential :: "crypto_service \<Rightarrow> SourceRecord \<Rightarrow> Credential option" where
  "open_credential s rec =
     (case svc_Decrypt s (sx_CredentialCiphertext rec) (sx_CredentialNonce rec) of
        Inl _ \<Rightarrow> None
      | Inr pt \<Rightarrow>
         (case Unmarshal credential_fields ([], []) pt of
            None \<Rightarrow> None
          | Some (u, p) \<Rightarrow> (case NewCredential u p of Inl _ \<Rightarrow> None | Inr c \<Rightarrow> Some c)))"

definition stored_credential :: "source_env \<Rightarrow> SourceRecord \<Rightarrow> Credential option" where
  "stored_credential E rec =
     (if \<not> HasCredential rec then Some no_credential
      else (case sk_Encryptor (crypto_of E) of None \<Rightarrow> None | Some s \<Rightarrow> open_credential s rec))"

section \<open>Creating\<close>

text \<open>The path, the address and the credential of a valid body.\<close>

definition create_config :: "source_env \<Rightarrow> wireSourceCreate \<Rightarrow> wireSource reply + string \<times> string \<times> Credential" where
  "create_config E req =
     (if wc_Kind req = KindLocalFolder then
        (case wc_BasePath req of
           None \<Rightarrow> Inl (refuse InvalidInput ''config.basePath must not be empty'')
         | Some basePath \<Rightarrow>
            (case ValidateLocalFolderPath basePath of
               Some err \<Rightarrow> Inl (RText InvalidInput err)
             | None \<Rightarrow>
                (if wc_Credential req \<noteq> None then
                   Inl (refuse InvalidInput ''credential: not supported for local-folder sources'')
                 else Inr (basePath, [], no_credential))))
      else
        (case wc_BaseURL req of
           None \<Rightarrow> Inl (refuse InvalidInput ''config.baseUrl must not be empty'')
         | Some baseURL \<Rightarrow>
            (case ValidateOPDSBaseURL (oe_url (se_opds E)) baseURL of
               Some err \<Rightarrow> Inl (RText InvalidInput err)
             | None \<Rightarrow>
            (case RejectBlockedLiteralHost (oe_url (se_opds E)) baseURL (se_allowPrivate E) of
               Some err \<Rightarrow> Inl (RText InvalidInput err)
             | None \<Rightarrow>
            (case wc_Credential req of
               None \<Rightarrow> Inr ([], baseURL, no_credential)
             | Some (u, p) \<Rightarrow>
                (case NewCredential u p of
                   Inl err \<Rightarrow> Inl (RText InvalidInput err)
                 | Inr c \<Rightarrow> Inr ([], baseURL, c)))))))"

definition seal_credential :: "source_env \<Rightarrow> source_request \<Rightarrow> Credential \<Rightarrow> 'a reply + string \<times> string" where
  "seal_credential E r cred =
     (case sk_Encryptor (crypto_of E) of
        None \<Rightarrow> Inl (refuse Unavailable ''crypto service not ready'')
      | Some s \<Rightarrow>
         (case svc_Encrypt s (sq_nonce r) (print_json (credential_json cred)) of
            Inl err \<Rightarrow> Inl (refuse Internal ''failed to encrypt credential'')
          | Inr sealed \<Rightarrow> Inr sealed))"

definition new_provider ::
  "source_env \<Rightarrow> string \<Rightarrow> string \<Rightarrow> string \<Rightarrow> string \<Rightarrow> Credential \<Rightarrow> bool \<Rightarrow> string \<Rightarrow> provider result" where
  "new_provider E kind sourceID basePath baseURL cred hasCred template =
     (if kind = KindLocalFolder then
        (case local_New sourceID basePath (codec_key E) of Inl err \<Rightarrow> Inl err | Inr p \<Rightarrow> Inr (PLocal p))
      else Inr (POpds (opds_New E sourceID baseURL (codec_key E) cred hasCred template)))"

definition CreateSourceHandler ::
  "source_env \<Rightarrow> source_request \<Rightarrow> wireSourceCreate option \<Rightarrow> database \<Rightarrow> outbound
   \<Rightarrow> wireSource reply \<times> database \<times> outbound" where
  "CreateSourceHandler E r body db st =
     (case body of
        None \<Rightarrow> (refuse InvalidInput ''request body must be a valid JSON object'', db, st)
      | Some req \<Rightarrow>
     (case ValidateBoundedText ''label'' (wc_Label req) 100 of
        Some err \<Rightarrow> (RText InvalidInput err, db, st)
      | None \<Rightarrow>
     (if \<not> ValidKind (wc_Kind req) then (refuse InvalidInput ''kind: must be one of local-folder, opds'', db, st)
      else
     (case create_config E req of
        Inl e \<Rightarrow> (e, db, st)
      | Inr (basePath, baseURL, cred) \<Rightarrow>
     (case new_provider E (wc_Kind req) (sq_newID r) basePath baseURL cred (wc_Credential req \<noteq> None) [] of
        Inl err \<Rightarrow> (RText InvalidInput err, db, st)
      | Inr prov \<Rightarrow>
     (case prov_Probe E prov st of
        (probe, st1) \<Rightarrow>
     (case (if wc_Credential req \<noteq> None then seal_credential E r cred else Inr ([], [])) of
        Inl e \<Rightarrow> (e, db, st1)
      | Inr (ct, nonce) \<Rightarrow>
         (let rec = \<lparr> sx_ID = sq_newID r, sx_Label = wc_Label req, sx_Kind = wc_Kind req,
                sx_ConfigBasePath = basePath, sx_ConfigBaseURL = baseURL, sx_CredentialCiphertext = ct,
                sx_CredentialNonce = nonce, sx_HealthStatus = pb_Status probe, sx_HealthDetail = pb_Detail probe,
                sx_HealthCheckedAt = Some (sq_now r), sx_SearchLinkURL = pb_SearchLinkURL probe,
                sx_Capabilities = pb_Capabilities probe, sx_CreatedAt = sq_now r \<rparr> in
          case source_Create (sq_now r) rec db of
            (Some err, d) \<Rightarrow> (RDomain err, d, st1)
          | (None, d) \<Rightarrow> (ROk 201 (mapSourceToWire rec), d, st1)))))))))"

section \<open>Reading\<close>

definition ListSourcesHandler :: "(string \<Rightarrow> 'k :: linorder) \<Rightarrow> database \<Rightarrow> wireSource list reply" where
  "ListSourcesHandler ck db =
     (case source_List ck db of Inl err \<Rightarrow> RDomain err | Inr recs \<Rightarrow> ROk 200 (map mapSourceToWire recs))"

definition GetSourceHandler :: "source_request \<Rightarrow> database \<Rightarrow> wireSource reply" where
  "GetSourceHandler r db =
     (case source_id r of
        None \<Rightarrow> bad_id
      | Some i \<Rightarrow> (case source_Get db i of Inl err \<Rightarrow> RDomain err | Inr rec \<Rightarrow> ROk 200 (mapSourceToWire rec)))"

section \<open>Updating\<close>

text \<open>The label, the path and the address after a valid update.\<close>

definition update_config ::
  "source_env \<Rightarrow> SourceRecord \<Rightarrow> wireSourceUpdate \<Rightarrow> wireSource reply + string \<times> string \<times> string" where
  "update_config E rec req =
     (case (case wu_Label req of
              None \<Rightarrow> Inr (sx_Label rec)
            | Some l \<Rightarrow> (case ValidateBoundedText ''label'' l 100 of
                          Some err \<Rightarrow> Inl (RText InvalidInput err) | None \<Rightarrow> Inr l)) of
        Inl e \<Rightarrow> Inl e
      | Inr label \<Rightarrow>
     (case wu_Config req of
        None \<Rightarrow> Inr (label, sx_ConfigBasePath rec, sx_ConfigBaseURL rec)
      | Some (path, url) \<Rightarrow>
         (if sx_Kind rec = KindLocalFolder then
            (case path of
               None \<Rightarrow> Inl (refuse InvalidInput ''config.basePath must not be empty'')
             | Some basePath \<Rightarrow>
                (case ValidateLocalFolderPath basePath of
                   Some err \<Rightarrow> Inl (RText InvalidInput err)
                 | None \<Rightarrow> Inr (label, basePath, sx_ConfigBaseURL rec)))
          else if sx_Kind rec = KindOPDS then
            (case url of
               None \<Rightarrow> Inl (refuse InvalidInput ''config.baseUrl must not be empty'')
             | Some baseURL \<Rightarrow>
                (case ValidateOPDSBaseURL (oe_url (se_opds E)) baseURL of
                   Some err \<Rightarrow> Inl (RText InvalidInput err)
                 | None \<Rightarrow>
                (case RejectBlockedLiteralHost (oe_url (se_opds E)) baseURL (se_allowPrivate E) of
                   Some err \<Rightarrow> Inl (RText InvalidInput err)
                 | None \<Rightarrow> Inr (label, sx_ConfigBasePath rec, baseURL))))
          else Inr (label, sx_ConfigBasePath rec, sx_ConfigBaseURL rec))))"

text \<open>
  The credential the source is probed with: the one of the body, which is stored, or the stored one; a stored
  credential that cannot be opened is left out.
\<close>

definition update_credential ::
  "source_env \<Rightarrow> source_request \<Rightarrow> SourceRecord \<Rightarrow> wireSourceUpdate \<Rightarrow> database
   \<Rightarrow> (wireSource reply + Credential \<times> bool) \<times> database" where
  "update_credential E r rec req db =
     (case wu_Credential req of
        Some (u, p) \<Rightarrow>
         (if sx_Kind rec = KindLocalFolder then
            (Inl (refuse InvalidInput ''credential: not supported for local-folder sources''), db)
          else (case NewCredential u p of
                  Inl err \<Rightarrow> (Inl (RText InvalidInput err), db)
                | Inr c \<Rightarrow>
                   (case seal_credential E r c of
                      Inl e \<Rightarrow> (Inl e, db)
                    | Inr (ct, nonce) \<Rightarrow>
                       (case SetCredential (sx_ID rec) ct nonce db of
                          (Some err, d) \<Rightarrow> (Inl (RDomain err), d)
                        | (None, d) \<Rightarrow> (Inr (c, True), d)))))
      | None \<Rightarrow>
         (if sx_Kind rec = KindOPDS \<and> HasCredential rec then
            (Inr ((case sk_Encryptor (crypto_of E) of
                     None \<Rightarrow> no_credential
                   | Some s \<Rightarrow> (case open_credential s rec of None \<Rightarrow> no_credential | Some c \<Rightarrow> c)), True), db)
          else (Inr (no_credential, HasCredential rec), db)))"

definition UpdateSourceHandler ::
  "source_env \<Rightarrow> source_request \<Rightarrow> wireSourceUpdate option \<Rightarrow> database \<Rightarrow> outbound
   \<Rightarrow> wireSource reply \<times> database \<times> outbound" where
  "UpdateSourceHandler E r body db st =
     (case source_id r of
        None \<Rightarrow> (bad_id, db, st)
      | Some i \<Rightarrow>
     (case source_Get db i of
        Inl err \<Rightarrow> (RDomain err, db, st)
      | Inr rec \<Rightarrow>
     (case body of
        None \<Rightarrow> (refuse InvalidInput ''request body must be a valid JSON object'', db, st)
      | Some req \<Rightarrow>
     (case update_config E rec req of
        Inl e \<Rightarrow> (e, db, st)
      | Inr (label, basePath, baseURL) \<Rightarrow>
     (case UpdateConfig i label basePath baseURL db of
        (Some err, d) \<Rightarrow> (RDomain err, d, st)
      | (None, d1) \<Rightarrow>
     (case update_credential E r rec req d1 of
        (Inl e, d2) \<Rightarrow> (e, d2, st)
      | (Inr (cred, hasCred), d2) \<Rightarrow>
     (case new_provider E (sx_Kind rec) i basePath baseURL cred hasCred (sx_SearchLinkURL rec) of
        Inl err \<Rightarrow> (RText InvalidInput err, d2, st)
      | Inr prov \<Rightarrow>
     (case prov_Probe E prov st of
        (probe, st1) \<Rightarrow>
     (case UpdateHealth i (pb_Status probe) (pb_Detail probe) (sq_now r) (pb_Capabilities probe)
             (pb_SearchLinkURL probe) d2 of
        (Some err, d3) \<Rightarrow> (RDomain err, d3, st1)
      | (None, d3) \<Rightarrow>
         (case source_Get d3 i of
            Inl err \<Rightarrow> (RDomain err, d3, st1)
          | Inr rec' \<Rightarrow> (ROk 200 (mapSourceToWire rec'), d3, st1)))))))))))"

section \<open>Deleting\<close>

definition DeleteSourceHandler ::
  "(string \<Rightarrow> 'k :: linorder) \<Rightarrow> source_env \<Rightarrow> source_request \<Rightarrow> database \<Rightarrow> unit reply \<times> database" where
  "DeleteSourceHandler ck E r db =
     (case source_id r of
        None \<Rightarrow> (bad_id, db)
      | Some i \<Rightarrow>
     (case source_Get db i of
        Inl err \<Rightarrow> (RDomain err, db)
      | Inr rec \<Rightarrow>
     (if \<not> se_removal E then (refuse Unavailable ''database not ready'', db)
      else (case RemoveSource InTx (PgSourceRepository (sq_now r)) (PgSourceOfferingRepository ck) db i (sq_now r) of
              (Inl err, d) \<Rightarrow> (RDomain err, d)
            | (Inr _, d) \<Rightarrow> (ROk 204 (), d)))))"

section \<open>Checking health\<close>

definition health_probe :: "source_env \<Rightarrow> string \<Rightarrow> SourceRecord \<Rightarrow> outbound \<Rightarrow> (ProbeResult \<times> outbound) option" where
  "health_probe E i rec st =
     (if sx_Kind rec = KindLocalFolder then
        Some (case local_New i (sx_ConfigBasePath rec) (codec_key E) of
                Inl _ \<Rightarrow> (unreachable ''path-not-found'', st)
              | Inr p \<Rightarrow> prov_Probe E (PLocal p) st)
      else if sx_Kind rec = KindOPDS then
        Some (case stored_credential E rec of
                None \<Rightarrow> (unreachable ''auth-rejected'', st)
              | Some cred \<Rightarrow>
                  prov_Probe E (POpds (opds_New E i (sx_ConfigBaseURL rec) (codec_key E) cred (HasCredential rec)
                    (sx_SearchLinkURL rec))) st)
      else None)"

definition HealthCheckSourceHandler ::
  "source_env \<Rightarrow> source_request \<Rightarrow> database \<Rightarrow> outbound \<Rightarrow> wireSourceHealth reply \<times> database \<times> outbound" where
  "HealthCheckSourceHandler E r db st =
     (case source_id r of
        None \<Rightarrow> (bad_id, db, st)
      | Some i \<Rightarrow>
     (case source_Get db i of
        Inl err \<Rightarrow> (RDomain err, db, st)
      | Inr rec \<Rightarrow>
     (case health_probe E i rec st of
        None \<Rightarrow> (refuse InvalidInput ''unsupported source kind'', db, st)
      | Some (probe, st1) \<Rightarrow>
     (case UpdateHealth i (pb_Status probe) (pb_Detail probe) (sq_now r) (pb_Capabilities probe)
             (pb_SearchLinkURL probe) db of
        (Some err, d) \<Rightarrow> (RDomain err, d, st1)
      | (None, d) \<Rightarrow>
         (ROk 200 \<lparr> wh_Status = pb_Status probe, wh_CheckedAt = Some (sq_now r),
            wh_Detail = (if pb_Detail probe \<noteq> [] then Some (pb_Detail probe) else None) \<rparr>, d, st1)))))"

section \<open>Browsing and searching\<close>

definition open_provider :: "source_env \<Rightarrow> string \<Rightarrow> SourceRecord \<Rightarrow> 'a reply + provider" where
  "open_provider E i rec =
     (case sk_Codec (crypto_of E) of
        None \<Rightarrow> Inl (refuse Unavailable ''source is unavailable right now'')
      | Some key \<Rightarrow>
         (if sx_Kind rec = KindLocalFolder then
            (case local_New i (sx_ConfigBasePath rec) key of
               Inl _ \<Rightarrow> Inl (refuse Unavailable ''source is unavailable right now'')
             | Inr p \<Rightarrow> Inr (PLocal p))
          else if sx_Kind rec = KindOPDS then
            (case stored_credential E rec of
               None \<Rightarrow> Inl (refuse Unavailable ''source is unavailable right now'')
             | Some cred \<Rightarrow>
                 Inr (POpds (opds_New E i (sx_ConfigBaseURL rec) key cred (HasCredential rec) (sx_SearchLinkURL rec))))
          else Inl (refuse InvalidInput ''unsupported source kind'')))"

definition BrowseSourceHandler ::
  "source_env \<Rightarrow> source_request \<Rightarrow> database \<Rightarrow> outbound \<Rightarrow> CandidatePage reply \<times> outbound" where
  "BrowseSourceHandler E r db st =
     (case source_id r of
        None \<Rightarrow> (bad_id, st)
      | Some i \<Rightarrow>
     (case parseLimit (sq_limit r) of
        Inl err \<Rightarrow> (RText InvalidInput err, st)
      | Inr limit \<Rightarrow>
     (case source_Get db i of
        Inl err \<Rightarrow> (RDomain err, st)
      | Inr rec \<Rightarrow>
     (case open_provider E i rec of
        Inl e \<Rightarrow> (e, st)
      | Inr prov \<Rightarrow>
         (case prov_List E prov (sq_cursor r) limit st of
            (Inl err, st1) \<Rightarrow> (RDomain err, st1)
          | (Inr page, st1) \<Rightarrow> (ROk 200 page, st1))))))"

definition query_error :: "string \<Rightarrow> 'a reply option" where
  "query_error q =
     (if TrimSpace q = [] then Some (refuse InvalidInput ''q: search query must be non-empty'')
      else if length (runes q) > MaxQueryLen then Some (refuse InvalidInput ''q: search query is too long'')
      else if hasControlCharInString q then
        Some (refuse InvalidInput ''q: search query contains control characters'')
      else None)"

definition SearchSourceHandler ::
  "source_env \<Rightarrow> source_request \<Rightarrow> database \<Rightarrow> outbound \<Rightarrow> CandidatePage reply \<times> outbound" where
  "SearchSourceHandler E r db st =
     (case source_id r of
        None \<Rightarrow> (bad_id, st)
      | Some i \<Rightarrow>
     (case query_error (sq_q r) of
        Some e \<Rightarrow> (e, st)
      | None \<Rightarrow>
     (case parseLimit (sq_limit r) of
        Inl err \<Rightarrow> (RText InvalidInput err, st)
      | Inr limit \<Rightarrow>
     (case source_Get db i of
        Inl err \<Rightarrow> (RDomain err, st)
      | Inr rec \<Rightarrow>
     (if \<not> CanSearch (sx_Capabilities rec) then (refuse Conflict ''this source does not support search'', st)
      else
     (case open_provider E i rec of
        Inl e \<Rightarrow> (e, st)
      | Inr prov \<Rightarrow>
         (case prov_Search E prov (sq_q r) (sq_cursor r) limit st of
            (Inl err, st1) \<Rightarrow> (RDomain err, st1)
          | (Inr page, st1) \<Rightarrow> (ROk 200 page, st1))))))))"

end
