(* ===== verification/Source_Safety.thy ===== *)
theory Source_Safety
  imports Source_Handlers
begin

text \<open>
  What the endpoints of sources send over the network, and that a credential given for a source is the one its
  later requests carry.
\<close>

section \<open>Outgoing requests\<close>

text \<open>
  Requests on the origin of an address, with one of these credentials at most or, where the URL of the request
  itself has a user, with that one.
\<close>

definition sends_only :: "source_env \<Rightarrow> string \<Rightarrow> (string \<times> string) set \<Rightarrow> outbound \<Rightarrow> outbound \<Rightarrow> bool" where
  "sends_only E base auths st st' \<longleftrightarrow>
     ob_sem st' = ob_sem st
     \<and> (\<exists>new. ob_log st' = ob_log st @ new
          \<and> list_all (\<lambda>req. (hq_url req = base \<or> SameOrigin (oe_url (se_opds E)) base (hq_url req))
              \<and> (\<forall>a. hq_auth req = Some a \<longrightarrow> a \<in> auths
                   \<or> (\<exists>u. ul_Parse (oe_url (se_opds E)) (hq_url req) = Some u \<and> url_User u = Some a))
              \<and> GuardedTransport (se_allowPrivate E) (hq_peer req) = None) new)"

lemma sends_only_refl [simp]: "sends_only E base auths st st"
  by (simp add: sends_only_def)

fun prov_ok :: "source_env \<Rightarrow> string \<Rightarrow> (string \<times> string) set \<Rightarrow> provider \<Rightarrow> bool" where
  "prov_ok E base auths (PLocal p) = True"
| "prov_ok E base auths (POpds p) \<longleftrightarrow>
     op_baseURL p = base \<and> hc_allowPrivate (op_client p) = se_allowPrivate E
     \<and> set_option (basic_auth (op_client p)) \<subseteq> auths"

lemma prov_sends:
  assumes "prov_ok E base auths prov"
  shows "sends_only E base auths st (snd (prov_Probe E prov st))"
    "sends_only E base auths st (snd (prov_List E prov cursor limit st))"
    "sends_only E base auths st (snd (prov_Search E prov q cursor limit st))"
proof -
  have sends: "sends_only E base auths st st'" if "prov = POpds p" "sends_ok (se_opds E) p st st'" for p st'
    using that assms unfolding sends_only_def sends_ok_def sent_ok_def on_origin_def
    by (fastforce simp: list_all_iff request_auth_def split: option.splits)
  show "sends_only E base auths st (snd (prov_Probe E prov st))"
    using sends Probe_sends(1) by (cases prov) (auto simp: prov_Probe_def)
  show "sends_only E base auths st (snd (prov_List E prov cursor limit st))"
    using sends List_sends(1) by (cases prov) (auto simp: prov_List_def)
  show "sends_only E base auths st (snd (prov_Search E prov q cursor limit st))"
    using sends Search_sends(1) by (cases prov) (auto simp: prov_Search_def)
qed

declare prov_ok.simps(2) [simp del]

lemma opds_New_ok:
  "Reveal cred \<in> auths \<or> cred_IsZero cred \<Longrightarrow> prov_ok E base auths (POpds (opds_New E i base key cred has template))"
  by (auto simp: opds_New_def basic_auth_def prov_ok.simps(2))

lemma new_provider_ok:
  assumes "new_provider E kind i path base cred has template = Inr prov" "Reveal cred \<in> auths \<or> cred_IsZero cred"
  shows "prov_ok E base auths prov"
  using assms opds_New_ok by (auto simp: new_provider_def split: if_splits sum.splits)

lemma no_credential_IsZero [simp]: "cred_IsZero no_credential"
  by (simp add: cred_IsZero_def no_credential_def)

definition own_auths :: "source_env \<Rightarrow> SourceRecord \<Rightarrow> (string \<times> string) set" where
  "own_auths E rec = Reveal ` set_option (stored_credential E rec)"

lemma open_provider_ok:
  "open_provider E i rec = Inr prov \<Longrightarrow> prov_ok E (sx_ConfigBaseURL rec) (own_auths E rec) prov"
  by (auto simp: open_provider_def own_auths_def intro!: opds_New_ok split: option.splits if_splits sum.splits)

lemma health_probe_sends:
  assumes "health_probe E i rec st = Some (probe, st')"
  shows "sends_only E (sx_ConfigBaseURL rec) (own_auths E rec) st st'"
proof -
  have "sends_only E (sx_ConfigBaseURL rec) (own_auths E rec) st (snd (prov_Probe E (POpds
      (opds_New E i (sx_ConfigBaseURL rec) (codec_key E) cred (HasCredential rec) (sx_SearchLinkURL rec))) st))"
    if "stored_credential E rec = Some cred" for cred
    using that by (intro prov_sends(1) opds_New_ok) (simp add: own_auths_def)
  moreover have "sends_only E (sx_ConfigBaseURL rec) (own_auths E rec) st (snd (prov_Probe E (PLocal p) st))" for p
    by (rule prov_sends(1)) simp
  ultimately show ?thesis
    using assms by (auto simp: health_probe_def split: if_splits option.splits sum.splits) (metis snd_conv)+
qed

lemma NewCredential_ok: "NewCredential u p = Inr c \<Longrightarrow> Reveal c = (u, p)"
  by (auto simp: NewCredential_def Reveal_def split: if_splits)

section \<open>The endpoints\<close>

lemma Create_sends:
  assumes "CreateSourceHandler E r (Some req) db st = (a, d, st')"
  shows "sends_only E (orEmpty (wc_BaseURL req)) (set_option (wc_Credential req)) st st'"
proof (cases "create_config E req")
  case (Inl e)
  then show ?thesis using assms by (auto simp: CreateSourceHandler_def split: option.splits if_splits)
next
  case (Inr config)
  obtain basePath baseURL cred where c: "config = (basePath, baseURL, cred)" by (cases config)
  have ok: "(baseURL = orEmpty (wc_BaseURL req) \<or> wc_Kind req = KindLocalFolder)
      \<and> (Reveal cred \<in> set_option (wc_Credential req) \<or> cred_IsZero cred)"
    using Inr c NewCredential_ok
    by (auto simp: create_config_def orEmpty_def split: if_splits option.splits sum.splits prod.splits)
  show ?thesis
  proof (cases "new_provider E (wc_Kind req) (sq_newID r) basePath baseURL cred (wc_Credential req \<noteq> None) []")
    case (Inl err)
    then show ?thesis using assms Inr c
      by (auto simp: CreateSourceHandler_def split: option.splits if_splits)
  next
    case (Inr prov)
    have "prov_ok E (orEmpty (wc_BaseURL req)) (set_option (wc_Credential req)) prov"
    proof (cases "wc_Kind req = KindLocalFolder")
      case True
      then show ?thesis using Inr by (auto simp: new_provider_def split: sum.splits)
    next
      case False
      then show ?thesis using ok new_provider_ok [OF Inr] by blast
    qed
    then have "sends_only E (orEmpty (wc_BaseURL req)) (set_option (wc_Credential req)) st (snd (prov_Probe E prov st))"
      by (rule prov_sends(1))
    moreover have "st' = st \<or> st' = snd (prov_Probe E prov st)"
      using assms Inr \<open>create_config E req = Inr config\<close> c
      by (auto simp: CreateSourceHandler_def Let_def split: option.splits if_splits prod.splits sum.splits)
    ultimately show ?thesis by auto
  qed
qed

definition row_sends :: "source_env \<Rightarrow> source_request \<Rightarrow> database \<Rightarrow> outbound \<Rightarrow> outbound \<Rightarrow> bool" where
  "row_sends E r db st st' =
     (case source_id r of
        None \<Rightarrow> st' = st
      | Some i \<Rightarrow>
         (case source_Get db i of
            Inl _ \<Rightarrow> st' = st
          | Inr rec \<Rightarrow> sends_only E (sx_ConfigBaseURL rec) (own_auths E rec) st st'))"

lemma Browse_sends: "row_sends E r db st (snd (BrowseSourceHandler E r db st))"
proof (cases "source_id r")
  case (Some i)
  show ?thesis
  proof (cases "source_Get db i")
    case (Inr rec)
    have "sends_only E (sx_ConfigBaseURL rec) (own_auths E rec) st (snd (prov_List E prov (sq_cursor r) limit st))"
      if "(open_provider E i rec :: CandidatePage reply + provider) = Inr prov" for prov limit
      using open_provider_ok [OF that] by (rule prov_sends(2))
    then show ?thesis
      using Some Inr by (auto simp: row_sends_def BrowseSourceHandler_def split: sum.splits prod.splits) (metis snd_conv)+
  qed (use Some in \<open>auto simp: row_sends_def BrowseSourceHandler_def split: sum.splits\<close>)
qed (simp add: row_sends_def BrowseSourceHandler_def)

lemma Search_endpoint_sends: "row_sends E r db st (snd (SearchSourceHandler E r db st))"
proof (cases "source_id r")
  case (Some i)
  show ?thesis
  proof (cases "source_Get db i")
    case (Inr rec)
    have "sends_only E (sx_ConfigBaseURL rec) (own_auths E rec) st
        (snd (prov_Search E prov (sq_q r) (sq_cursor r) limit st))"
      if "(open_provider E i rec :: CandidatePage reply + provider) = Inr prov" for prov limit
      using open_provider_ok [OF that] by (rule prov_sends(3))
    then show ?thesis
      using Some Inr
      by (auto simp: row_sends_def SearchSourceHandler_def split: sum.splits prod.splits option.splits) (metis snd_conv)+
  qed (use Some in \<open>auto simp: row_sends_def SearchSourceHandler_def split: sum.splits option.splits\<close>)
qed (simp add: row_sends_def SearchSourceHandler_def)

lemma Health_sends: "row_sends E r db st (snd (snd (HealthCheckSourceHandler E r db st)))"
proof (cases "source_id r")
  case (Some i)
  show ?thesis
  proof (cases "source_Get db i")
    case (Inr rec)
    then show ?thesis
      using Some health_probe_sends [of E i rec st]
      by (auto simp: row_sends_def HealthCheckSourceHandler_def split: prod.splits option.splits)
  qed (use Some in \<open>simp add: row_sends_def HealthCheckSourceHandler_def\<close>)
qed (simp add: row_sends_def HealthCheckSourceHandler_def)

text \<open>The address and the credentials of an update: those of the body, else the stored ones.\<close>

definition updated_base :: "SourceRecord \<Rightarrow> wireSourceUpdate \<Rightarrow> string" where
  "updated_base rec req =
     (case wu_Config req of Some (_, Some url) \<Rightarrow> (if sx_Kind rec = KindOPDS then url else sx_ConfigBaseURL rec)
      | _ \<Rightarrow> sx_ConfigBaseURL rec)"

definition updated_auths :: "source_env \<Rightarrow> SourceRecord \<Rightarrow> wireSourceUpdate \<Rightarrow> (string \<times> string) set" where
  "updated_auths E rec req = (case wu_Credential req of Some c \<Rightarrow> {c} | None \<Rightarrow> own_auths E rec)"

lemma update_config_base: "update_config E rec req = Inr (label, path, base) \<Longrightarrow> base = updated_base rec req"
  by (auto simp: update_config_def updated_base_def split: option.splits sum.splits if_splits prod.splits)

lemma update_credential_ok:
  assumes "update_credential E r rec req db = (Inr (cred, has), d)"
  shows "Reveal cred \<in> updated_auths E rec req \<or> cred_IsZero cred"
proof (cases "wu_Credential req")
  case None
  then show ?thesis
    using assms
    by (auto simp: update_credential_def updated_auths_def own_auths_def stored_credential_def
        split: option.splits if_splits)
next
  case (Some c)
  then show ?thesis
    using assms NewCredential_ok
    by (auto simp: update_credential_def updated_auths_def split: prod.splits option.splits if_splits sum.splits)
qed

definition update_sends ::
  "source_env \<Rightarrow> source_request \<Rightarrow> wireSourceUpdate option \<Rightarrow> database \<Rightarrow> outbound \<Rightarrow> outbound \<Rightarrow> bool" where
  "update_sends E r body db st st' =
     (case (source_id r, body) of
        (Some i, Some req) \<Rightarrow>
         (case source_Get db i of
            Inl _ \<Rightarrow> st' = st
          | Inr rec \<Rightarrow> sends_only E (updated_base rec req) (updated_auths E rec req) st st')
      | _ \<Rightarrow> st' = st)"

lemma Update_probes:
  assumes "source_id r = Some i" "source_Get db i = Inr rec" "body = Some req"
    "UpdateSourceHandler E r body db st = (a, d, st')"
  shows "st' = st \<or> (\<exists>label path base d1 cred has d2 prov. update_config E rec req = Inr (label, path, base)
     \<and> update_credential E r rec req d1 = (Inr (cred, has), d2)
     \<and> new_provider E (sx_Kind rec) i path base cred has (sx_SearchLinkURL rec) = Inr prov
     \<and> st' = snd (prov_Probe E prov st))"
proof (cases "update_config E rec req")
  case (Inl e)
  then show ?thesis using assms by (simp add: UpdateSourceHandler_def)
next
  case (Inr c)
  obtain label path base where c: "c = (label, path, base)" by (cases c)
  obtain o1 d1 where u: "UpdateConfig i label path base db = (o1, d1)" by fastforce
  show ?thesis
  proof (cases o1)
    case (Some err)
    then show ?thesis using assms Inr c u by (simp add: UpdateSourceHandler_def)
  next
    case None
    obtain res d2 where k: "update_credential E r rec req d1 = (res, d2)" by fastforce
    show ?thesis
    proof (cases res)
      case (Inl e)
      then show ?thesis using assms Inr c u k None by (simp add: UpdateSourceHandler_def)
    next
      case cred: (Inr ch)
      obtain cred has where ch: "ch = (cred, has)" by (cases ch)
      show ?thesis
      proof (cases "new_provider E (sx_Kind rec) i path base cred has (sx_SearchLinkURL rec)")
        case (Inl e)
        then show ?thesis using assms Inr c u k None cred ch
          by (simp add: UpdateSourceHandler_def)
      next
        case p: (Inr prov)
        have "st' = snd (prov_Probe E prov st)"
          using assms Inr c u k None cred ch p
          by (simp add: UpdateSourceHandler_def split: prod.splits option.splits sum.splits)
        then show ?thesis using Inr c k cred ch p by blast
      qed
    qed
  qed
qed

lemma Update_sends: "update_sends E r body db st (snd (snd (UpdateSourceHandler E r body db st)))"
proof (cases "\<exists>i rec req. source_id r = Some i \<and> source_Get db i = Inr rec \<and> body = Some req")
  case True
  then obtain i rec req where row: "source_id r = Some i" "source_Get db i = Inr rec" "body = Some req" by blast
  obtain a d st' where h: "UpdateSourceHandler E r body db st = (a, d, st')" using prod_cases3 by blast
  have "sends_only E (updated_base rec req) (updated_auths E rec req) st st'"
    using Update_probes [OF row h] prov_sends(1) new_provider_ok update_credential_ok update_config_base
    by (metis sends_only_refl)
  then show ?thesis using row h by (simp add: update_sends_def)
next
  case False
  then show ?thesis
    by (auto simp: update_sends_def UpdateSourceHandler_def split: option.splits sum.splits)
qed

text \<open>C22: The endpoints of sources send requests only to the origin of the source they work on and to addresses
  the guard lets through.  A request carries the source's own credential, or none, or, when it has no other, the
  user and password written in the URL it goes to: a link of a catalogue to itself may name them, and the
  HTTP client sends them.  No request carries a credential stored for another source.  Creating a source uses
  the address and the credential of the body; browsing, searching and checking it those of the stored row; an
  update those of the body or, where the body has none, the stored ones.
\<close>

theorem source_requests_confined:
  "sends_only E (orEmpty (wc_BaseURL req)) (set_option (wc_Credential req)) st
     (snd (snd (CreateSourceHandler E r (Some req) db st)))
   \<and> row_sends E r db st (snd (BrowseSourceHandler E r db st))
   \<and> row_sends E r db st (snd (SearchSourceHandler E r db st))
   \<and> row_sends E r db st (snd (snd (HealthCheckSourceHandler E r db st)))
   \<and> update_sends E r body db st (snd (snd (UpdateSourceHandler E r body db st)))"
  using Create_sends [of E r req db st] Browse_sends Search_endpoint_sends Health_sends Update_sends
  by (cases "CreateSourceHandler E r (Some req) db st") auto

section \<open>Stored credentials\<close>

text \<open>The cipher opens what it sealed with this nonce, and a sealed text is never empty.\<close>

definition seals :: "source_env \<Rightarrow> string \<Rightarrow> bool" where
  "seals E nonce =
     (case sk_Encryptor (crypto_of E) of
        None \<Rightarrow> True
      | Some s \<Rightarrow> (\<forall>t. ad_open (cs_aead s) (cs_key s) nonce (ad_seal (cs_aead s) (cs_key s) nonce t) = Some t
          \<and> ad_seal (cs_aead s) (cs_key s) nonce t \<noteq> []))"

lemma credential_names_differ: "distinct (map fold_name [''username'', ''password''])"
  by code_simp

lemma credential_json_decodes:
  assumes "Go_Json.valid_utf8 (cr_username c)" "Go_Json.valid_utf8 (cr_password c)"
  shows "Unmarshal credential_fields z (print_json (credential_json c)) = Some (cr_username c, cr_password c)"
proof -
  have ok: "json_ok maxNestingDepth (credential_json c)"
    using assms by (simp add: credential_json_def maxNestingDepth_def valid_utf8_ascii)
  show ?thesis
    using credential_names_differ unfolding Unmarshal_print [OF ok]
    by (cases z) (simp add: decode_struct_def credential_json_def credential_fields_def eq_commute)
qed

lemma open_sealed:
  assumes "seal_credential E r cred = Inr (ct, n)" "sq_nonce r = Inr nonce" "length nonce = gcm_nonceSize"
    "seals E nonce" "NewCredential (cr_username cred) (cr_password cred) = Inr cred"
    "Go_Json.valid_utf8 (cr_username cred)" "Go_Json.valid_utf8 (cr_password cred)"
    "sx_CredentialCiphertext rec = ct" "sx_CredentialNonce rec = n"
  shows "stored_credential E rec = Some cred" "HasCredential rec"
proof -
  obtain s where s: "sk_Encryptor (crypto_of E) = Some s" "n = nonce"
      "ct = ad_seal (cs_aead s) (cs_key s) nonce (print_json (credential_json cred))"
    using assms(1,2) by (auto simp: seal_credential_def svc_Encrypt_def split: option.splits sum.splits)
  show "HasCredential rec" using assms(4,8) s by (simp add: HasCredential_def seals_def)
  then show "stored_credential E rec = Some cred"
    using assms(3-9) s credential_json_decodes [of cred]
    by (simp add: stored_credential_def open_credential_def svc_Decrypt_def seals_def)
qed

lemma Create_ok:
  assumes "CreateSourceHandler E r (Some req) db st = (ROk n w, d, st')" "wc_Credential req = Some (u, p)"
  obtains rec cred where "source_Create (sq_now r) rec db = (None, d)" "sx_ID rec = sq_newID r"
    "sx_ConfigBaseURL rec = orEmpty (wc_BaseURL req)" "NewCredential u p = Inr cred"
    "(seal_credential E r cred :: wireSource reply + string \<times> string)
       = Inr (sx_CredentialCiphertext rec, sx_CredentialNonce rec)"
proof (cases "create_config E req")
  case (Inl e)
  then have "a \<noteq> ROk n w" if "create_config E req = Inl a" for a
    using that by (auto simp: create_config_def refuse_def split: if_splits option.splits sum.splits prod.splits)
  then show ?thesis
    using assms(1) Inl by (auto simp: CreateSourceHandler_def refuse_def split: option.splits if_splits)
next
  case (Inr config)
  obtain basePath baseURL cred where c: "config = (basePath, baseURL, cred)" by (cases config)
  have k: "baseURL = orEmpty (wc_BaseURL req)" "NewCredential u p = Inr cred"
    using Inr c assms(2)
    by (auto simp: create_config_def orEmpty_def split: if_splits option.splits sum.splits prod.splits)
  show ?thesis
    using assms Inr c k that
    by (auto simp: CreateSourceHandler_def Let_def refuse_def seal_credential_def
        split: option.splits if_splits prod.splits sum.splits)
qed

text \<open>C23: The credential given when a source is created is the one its later requests carry.  After a successful
  creation the stored row names the given address, and its credential, encrypted and encoded at rest, opens to
  exactly the given user name and password.  The cipher is assumed to open what it sealed.
\<close>

theorem created_credential_roundtrip:
  assumes "db_links db = None" "CreateSourceHandler E r (Some req) db st = (ROk n w, d, st')"
    "wc_Credential req = Some (u, p)" "Go_Json.valid_utf8 u" "Go_Json.valid_utf8 p"
    "sq_nonce r = Inr nonce" "length nonce = gcm_nonceSize" "seals E nonce"
  shows "\<exists>rec. source_Get d (sq_newID r) = Inr rec \<and> sx_ConfigBaseURL rec = orEmpty (wc_BaseURL req)
    \<and> HasCredential rec \<and> own_auths E rec = {(u, p)}"
proof -
  obtain rec cred where k: "source_Create (sq_now r) rec db = (None, d)" "sx_ID rec = sq_newID r"
      "sx_ConfigBaseURL rec = orEmpty (wc_BaseURL req)" "NewCredential u p = Inr cred"
      "(seal_credential E r cred :: wireSource reply + string \<times> string)
         = Inr (sx_CredentialCiphertext rec, sx_CredentialNonce rec)"
    using Create_ok [OF assms(2,3)] by metis
  have cred: "cr_username cred = u" "cr_password cred = p" using NewCredential_ok [OF k(4)] by (simp_all add: Reveal_def)
  obtain rec' where get: "source_Get d (sq_newID r) = Inr rec'" and
      rec': "sx_CredentialCiphertext rec' = sx_CredentialCiphertext rec" "sx_CredentialNonce rec' = sx_CredentialNonce rec"
      "sx_ConfigBaseURL rec' = sx_ConfigBaseURL rec"
    using source_Create_Get [OF assms(1) k(1)] k(2) by simp
  have "stored_credential E rec' = Some cred" "HasCredential rec'"
    using open_sealed [OF k(5) assms(6-8), of rec'] k(4) cred assms(4,5) rec' by simp_all
  then show ?thesis using get rec'(3) k(3) NewCredential_ok [OF k(4)] by (auto simp: own_auths_def)
qed

section \<open>Witness\<close>

definition demo_catalogue :: source_env where
  "demo_catalogue =
     \<lparr> se_opds = \<lparr> oe_url = \<lparr> ul_Parse = (\<lambda>_. Some \<lparr> url_Scheme = ''http'', url_Host = ''h'', url_Path = [],
             url_RawQuery = [], url_Fragment = [], url_User = None \<rparr>),
           ul_Resolve = (\<lambda>base ref. ref), ul_EqualFold = (=), ul_lower = (\<lambda>c. c) \<rparr>,
         oe_web = \<lparr> wb_peer = (\<lambda>_ _. []), wb_answer = (\<lambda>_ _. DoResponse 200 None) \<rparr>,
         oe_mac = (\<lambda>_ m. m), oe_xml = (\<lambda>_. []), oe_description = (\<lambda>_. None) \<rparr>,
       se_fs = demo_fs,
       se_crypto = Some \<lparr> sk_Encryptor = Some \<lparr> cs_aead = \<lparr> ad_seal = (\<lambda>k n t. CHR ''x'' # t),
           ad_open = (\<lambda>k n c. Some (tl c)) \<rparr>, cs_key = ''k'' \<rparr>, sk_Codec = Some ''k'' \<rparr>,
       se_allowPrivate = False, se_removal = True \<rparr>"

definition demo_create :: wireSourceCreate where
  "demo_create = \<lparr> wc_Label = ''books'', wc_Kind = KindOPDS, wc_BasePath = None, wc_BaseURL = Some ''http://h'',
     wc_Credential = Some (''ann'', ''secret'') \<rparr>"

definition demo_source_request :: source_request where
  "demo_source_request = \<lparr> sq_pathValue = [], sq_path = [], sq_limit = [], sq_cursor = [], sq_q = [], sq_newID = ''s'',
     sq_nonce = Inr ''000000000000'', sq_now = 0 \<rparr>"

definition demo_outbound :: outbound where
  "demo_outbound = \<lparr> ob_sem = Some \<lparr> sm_cap = 0, sm_held = 0 \<rparr>, ob_log = [] \<rparr>"

lemma visible_words: "visible ''ann''" "visible ''secret''" "visible ''http://h''" "visible ''books''"
  by (simp_all add: visible_def)

lemma demo_probe: "opds_Probe E p demo_outbound = (unreachable ''timeout'', demo_outbound)"
  by (simp add: opds_Probe_def opds_get_def http_get_def demo_outbound_def try_acquire_def TryAcquire_def)

lemma demo_credential: "NewCredential ''ann'' ''secret'' = Inr \<lparr> cr_username = ''ann'', cr_password = ''secret'' \<rparr>"
  by (simp add: NewCredential_def TrimSpace_visible visible_words hasControlChar_def visible_runes IsControl_def
      between_def maxCredentialUsernameLen_def maxCredentialPasswordLen_def)

lemma demo_config: "create_config demo_catalogue demo_create =
    Inr ([], ''http://h'', \<lparr> cr_username = ''ann'', cr_password = ''secret'' \<rparr>)"
  by (simp add: create_config_def demo_create_def ValidateOPDSBaseURL_def TrimSpace_visible visible_words
      maxBaseURLLen_def demo_catalogue_def RejectBlockedLiteralHost_def url_hostport_def LastIndexByte_def ParseIP_def
      ParseAddr_def demo_credential)

lemma demo_created:
  "\<exists>w d. CreateSourceHandler demo_catalogue demo_source_request (Some demo_create) (empty_database [DefaultLibraryID])
     demo_outbound = (ROk 201 w, d, demo_outbound)"
proof -
  have label: "ValidateBoundedText ''label'' (wc_Label demo_create) 100 = None"
    by (simp add: demo_create_def ValidateBoundedText_printable)
  have kind: "wc_Kind demo_create = KindOPDS" "wc_Credential demo_create \<noteq> None" by (simp_all add: demo_create_def)
  obtain ct nonce where sealed: "(seal_credential demo_catalogue demo_source_request
      \<lparr> cr_username = ''ann'', cr_password = ''secret'' \<rparr> :: wireSource reply + string \<times> string) = Inr (CHR ''x'' # ct, CHR ''0'' # nonce)"
    by (auto simp: seal_credential_def demo_catalogue_def demo_source_request_def svc_Encrypt_def crypto_of_def)
  have stored: "fst (source_Create now rec (empty_database [DefaultLibraryID])) = None"
    if "sx_Kind rec = KindOPDS" "sx_HealthStatus rec = ''unreachable''" "sx_HealthDetail rec = ''timeout''"
      "sx_CredentialCiphertext rec = CHR ''x'' # ct" "sx_CredentialNonce rec = CHR ''0'' # nonce" for now rec
    using that
    by (auto simp: source_Create_def exec_one_up insert_source_def source_checks_def source_row_of_def nilIfEmpty_def
        nullIfEmpty_def statusOrUnknown_def health_details_def KindOPDS_def empty_database_def)
  show ?thesis
    using label kind demo_config sealed stored
    by (simp add: CreateSourceHandler_def ValidKind_def new_provider_def prov_Probe_def demo_probe unreachable_def Let_def
        case_prod_beta)
qed

theorem created_credential_roundtrip_witness:
  "\<exists>w d rec. CreateSourceHandler demo_catalogue demo_source_request (Some demo_create)
       (empty_database [DefaultLibraryID]) demo_outbound = (ROk 201 w, d, demo_outbound)
     \<and> source_Get d ''s'' = Inr rec \<and> sx_ConfigBaseURL rec = ''http://h''
     \<and> own_auths demo_catalogue rec = {(''ann'', ''secret'')}"
proof -
  obtain w d where h: "CreateSourceHandler demo_catalogue demo_source_request (Some demo_create)
      (empty_database [DefaultLibraryID]) demo_outbound = (ROk 201 w, d, demo_outbound)"
    using demo_created by blast
  have "db_links (empty_database [DefaultLibraryID]) = None" by (simp add: empty_database_def)
  from created_credential_roundtrip [OF this h, of "''ann''" "''secret''" "''000000000000''"]
  have "\<exists>rec. source_Get d ''s'' = Inr rec \<and> sx_ConfigBaseURL rec = ''http://h''
     \<and> own_auths demo_catalogue rec = {(''ann'', ''secret'')}"
    by (auto simp: demo_create_def demo_source_request_def gcm_nonceSize_def seals_def demo_catalogue_def crypto_of_def
        orEmpty_def valid_utf8_ascii)
  then show ?thesis using h by blast
qed

end
