(* ===== verification/Catalog_Handlers.thy ===== *)
theory Catalog_Handlers
  imports Library_Query Import_Matching Http_Reply Auth_Middleware
begin

text \<open>
  \<open>transport/http/library.go\<close>, \<open>collections.go\<close> and \<open>leaderboard.go\<close>: the page and the works of a library, its
  collections, and what its members have finished.  A body comes decoded, \<open>None\<close> when it does not decode, a query
  parameter as a string that is empty when it is absent.  \<open>ck\<close> is the database's collation.  The values that the
  handlers copy field by field into wire types are given as they are; an absent next cursor is the empty one.
\<close>

section \<open>library.go\<close>

record library_request =
  lr_limit :: string
  lr_q :: string
  lr_filter :: string
  lr_sort :: string
  lr_cursor :: string

definition em_dash :: string where
  "em_dash = [CHR 0xE2, CHR 0x80, CHR 0x94]"

definition activeLibraryScoped :: "req_context \<Rightarrow> 'a reply + LibraryID" where
  "activeLibraryScoped c =
     (case cx_user c of
        None \<Rightarrow> Inl (refuse Unauthorized ''missing or invalid authorization token'')
      | Some user \<Rightarrow>
         (let activeLib = ActiveLibraryFromContext c in
          if activeLib = [] \<or> \<not> libraryInClaims activeLib (au_Libraries user) then
            Inl (RStatus 403 ''you are not a member of that library'')
          else Inr activeLib))"

text \<open>The checks of the query parameters, in order.\<close>

definition library_limit :: "string \<Rightarrow> int option" where
  "library_limit s =
     (if s = [] then Some 50
      else (case ParseInt64 s of
              None \<Rightarrow> None
            | Some n \<Rightarrow> (if n < 1 \<or> n > 100 then None else Some n)))"

definition cursor_ok :: "(string \<Rightarrow> instant option) \<Rightarrow> string \<Rightarrow> string \<Rightarrow> bool" where
  "cursor_ok tparse order cursor \<longleftrightarrow>
     cursor = []
     \<or> (if order = ''title'' then \<not> isl (DecodeTitleCursor cursor) else \<not> isl (DecodeAddedAtCursor tparse cursor))"

definition library_query ::
  "(string \<Rightarrow> instant option) \<Rightarrow> LibraryID \<Rightarrow> library_request \<Rightarrow> 'a reply + LibraryQuery" where
  "library_query tparse activeLib r =
     (case library_limit (lr_limit r) of
        None \<Rightarrow> Inl (RError InvalidInput
          (Msg (''limit: invalid value %q '' @ em_dash @ '' must be an integer between 1 and 100'') [AStr (lr_limit r)]))
      | Some limit \<Rightarrow>
      if length (runes (lr_q r)) > 200 then Inl (refuse InvalidInput ''q: exceeds maximum length of 200 characters'')
      else if lr_filter r \<notin> set [[], ''owned'', ''wanted'', ''all''] then Inl (RError InvalidInput
          (Msg (''filter: unrecognized value %q '' @ em_dash @ '' must be one of: owned, wanted, all'') [AStr (lr_filter r)]))
      else if lr_sort r \<notin> set [[], ''added_at'', ''title''] then Inl (RError InvalidInput
          (Msg (''sort: unrecognized value %q '' @ em_dash @ '' must be one of: added_at, title'') [AStr (lr_sort r)]))
      else if \<not> cursor_ok tparse (lr_sort r) (lr_cursor r) then Inl (refuse InvalidInput ''invalid cursor'')
      else Inr \<lparr> lq_Cursor = lr_cursor r, lq_Limit = limit, lq_Q = lr_q r,
                 lq_Filter = (if lr_filter r = [] then ''all'' else lr_filter r),
                 lq_Sort = (if lr_sort r = [] then ''added_at'' else lr_sort r), lq_LibraryID = activeLib \<rparr>)"

definition LibraryHandler ::
  "(string \<Rightarrow> 'k :: linorder) \<Rightarrow> text_match \<Rightarrow> (instant \<Rightarrow> string) \<Rightarrow> (string \<Rightarrow> instant option)
   \<Rightarrow> req_context \<Rightarrow> library_request \<Rightarrow> database \<Rightarrow> LibraryPage reply" where
  "LibraryHandler ck tsmatch tfmt tparse c r db =
     (case activeLibraryScoped c of
        Inl err \<Rightarrow> err
      | Inr activeLib \<Rightarrow>
         (case library_query tparse activeLib r of
            Inl err \<Rightarrow> err
          | Inr q \<Rightarrow>
             (case QueryLibrary ck tsmatch tfmt tparse db q of
                Inl err \<Rightarrow> RDomain err
              | Inr page \<Rightarrow> ROk 200 page)))"

definition WorkDetailHandler ::
  "(string \<Rightarrow> 'k :: linorder) \<Rightarrow> req_context \<Rightarrow> string \<Rightarrow> string \<Rightarrow> database \<Rightarrow> WorkDetail reply" where
  "WorkDetailHandler ck c pathValue path db =
     (case activeLibraryScoped c of
        Inl err \<Rightarrow> err
      | Inr activeLib \<Rightarrow>
         (let workID = (if pathValue = [] \<and> HasPrefix path ''/api/v1/works/'' then TrimPrefix path ''/api/v1/works/''
                        else pathValue) in
          if ValidateBoundedText ''id'' workID 100 \<noteq> None then refuse InvalidInput ''id: not a valid work ID''
          else (case FindWorkDetail ck db workID activeLib of
                  Inl err \<Rightarrow> (if CategoryOf err = NotFound then refuse NotFound ''no work with that id'' else RDomain err)
                | Inr detail \<Rightarrow> ROk 200 detail)))"

section \<open>collections.go\<close>

record collection_request =
  cq_id :: string
  cq_workId :: string
  cq_path :: string

record CollectionSummary =
  su_ID :: CollectionID
  su_Name :: string
  su_WorkCount :: nat

definition extractCollectionID :: "collection_request \<Rightarrow> string" where
  "extractCollectionID r =
     (if cq_id r \<noteq> [] then cq_id r
      else if HasPrefix (cq_path r) ''/api/v1/collections/'' then
        takeWhile (\<lambda>c. c \<noteq> CHR ''/'') (TrimPrefix (cq_path r) ''/api/v1/collections/'')
      else [])"

definition extractCollectionAndWorkID :: "collection_request \<Rightarrow> string \<times> string" where
  "extractCollectionAndWorkID r =
     (if cq_id r \<noteq> [] \<and> cq_workId r \<noteq> [] then (cq_id r, cq_workId r)
      else if HasPrefix (cq_path r) ''/api/v1/collections/'' then
        (case split_on CHR ''/'' (TrimPrefix (cq_path r) ''/api/v1/collections/'') of
           a # b # w # _ \<Rightarrow> (if b = ''works'' then (a, w) else (cq_id r, cq_workId r))
         | _ \<Rightarrow> (cq_id r, cq_workId r))
      else (cq_id r, cq_workId r))"

definition bad_collection_id :: "string \<Rightarrow> bool" where
  "bad_collection_id i \<longleftrightarrow> ValidateBoundedText ''id'' i 100 \<noteq> None"

text \<open>\<open>FindAll\<close> of the repository.\<close>

definition collection_FindAll ::
  "(string \<Rightarrow> 'k :: linorder) \<Rightarrow> database \<Rightarrow> LibraryID \<Rightarrow> CollectionSummary list result" where
  "collection_FindAll ck db L =
     (if \<not> connected db then Inl (TranslateError ErrClosed)
      else Inr (map (\<lambda>c. \<lparr> su_ID = co_id c, su_Name = co_name c,
               su_WorkCount = length (filter (\<lambda>m. me_collection_id m = co_id c) (collection_members db)) \<rparr>)
             (sort_key (\<lambda>c. ck (co_name c)) (filter (\<lambda>c. co_library_id c = L) (collections db)))))"

definition ListCollectionsHandler ::
  "(string \<Rightarrow> 'k :: linorder) \<Rightarrow> req_context \<Rightarrow> database \<Rightarrow> CollectionSummary list reply" where
  "ListCollectionsHandler ck c db =
     (case collection_FindAll ck db (ActiveLibraryFromContext c) of Inl err \<Rightarrow> RDomain err | Inr cs \<Rightarrow> ROk 200 cs)"

text \<open>How an error of a repository call on one collection is answered, and how an error's text is inspected.\<close>

definition collection_error :: "go_error \<Rightarrow> 'a reply" where
  "collection_error err =
     (if CategoryOf err = NotFound then refuse NotFound ''no collection with that id'' else RDomain err)"

fun mentions :: "go_error \<Rightarrow> string \<Rightarrow> bool" where
  "mentions (DomainError c (Msg m args) e) word = Contains m word"
| "mentions err word = False"

definition CreateCollectionHandler ::
  "req_context \<Rightarrow> string option \<Rightarrow> CollectionID \<Rightarrow> database \<Rightarrow> CollectionDetail reply \<times> database" where
  "CreateCollectionHandler c body newID db =
     (case body of
        None \<Rightarrow> (refuse InvalidInput ''request body must be a valid JSON object'', db)
      | Some name \<Rightarrow>
         (case ValidateBoundedText ''name'' name 100 of
            Some err \<Rightarrow> (RText InvalidInput err, db)
          | None \<Rightarrow>
             (case NewCollection newID name of
                Inl err \<Rightarrow> (RText InvalidInput err, db)
              | Inr coll \<Rightarrow>
                 (case collection_Save (ActiveLibraryFromContext c) coll db of
                    (Some err, db') \<Rightarrow> (RDomain err, db')
                  | (None, db') \<Rightarrow> (ROk 201 \<lparr> cd_ID = c_id coll, cd_Name = c_name coll, cd_Works = [] \<rparr>, db')))))"

definition GetCollectionHandler ::
  "(string \<Rightarrow> 'k :: linorder) \<Rightarrow> req_context \<Rightarrow> collection_request \<Rightarrow> database \<Rightarrow> CollectionDetail reply" where
  "GetCollectionHandler ck c r db =
     (let collID = extractCollectionID r in
      if bad_collection_id collID then refuse InvalidInput ''id: not a valid collection ID''
      else (case collection_FindDetail ck db (ActiveLibraryFromContext c) collID of
              Inl err \<Rightarrow> collection_error err
            | Inr detail \<Rightarrow> ROk 200 detail))"

text \<open>The answer after a change: the collection as it is now.\<close>

definition changed_collection ::
  "(string \<Rightarrow> 'k :: linorder) \<Rightarrow> req_context \<Rightarrow> CollectionID \<Rightarrow> database \<Rightarrow> CollectionDetail reply" where
  "changed_collection ck c collID db =
     (case collection_FindDetail ck db (ActiveLibraryFromContext c) collID of
        Inl err \<Rightarrow> RDomain err
      | Inr detail \<Rightarrow> ROk 200 detail)"

definition RenameCollectionHandler ::
  "(string \<Rightarrow> 'k :: linorder) \<Rightarrow> req_context \<Rightarrow> collection_request \<Rightarrow> string option \<Rightarrow> database
   \<Rightarrow> CollectionDetail reply \<times> database" where
  "RenameCollectionHandler ck c r body db =
     (let collID = extractCollectionID r in
      if bad_collection_id collID then (refuse InvalidInput ''id: not a valid collection ID'', db)
      else (case body of
              None \<Rightarrow> (refuse InvalidInput ''request body must be a valid JSON object'', db)
            | Some name \<Rightarrow>
               (case ValidateBoundedText ''name'' name 100 of
                  Some err \<Rightarrow> (RText InvalidInput err, db)
                | None \<Rightarrow>
                   (case collection_Rename (ActiveLibraryFromContext c) collID name db of
                      (Some err, db') \<Rightarrow> (collection_error err, db')
                    | (None, db') \<Rightarrow> (changed_collection ck c collID db', db')))))"

definition DeleteCollectionHandler ::
  "req_context \<Rightarrow> collection_request \<Rightarrow> database \<Rightarrow> unit reply \<times> database" where
  "DeleteCollectionHandler c r db =
     (let collID = extractCollectionID r in
      if bad_collection_id collID then (refuse InvalidInput ''id: not a valid collection ID'', db)
      else (case collection_Delete (ActiveLibraryFromContext c) collID db of
              (Some err, db') \<Rightarrow> (collection_error err, db')
            | (None, db') \<Rightarrow> (ROk 204 (), db')))"

definition AddWorkToCollectionHandler ::
  "(string \<Rightarrow> 'k :: linorder) \<Rightarrow> req_context \<Rightarrow> collection_request \<Rightarrow> string option \<Rightarrow> instant \<Rightarrow> database
   \<Rightarrow> CollectionDetail reply \<times> database" where
  "AddWorkToCollectionHandler ck c r body now db =
     (let collID = extractCollectionID r in
      if bad_collection_id collID then (refuse InvalidInput ''id: not a valid collection ID'', db)
      else (case body of
              None \<Rightarrow> (refuse InvalidInput ''request body must be a valid JSON object'', db)
            | Some workID \<Rightarrow>
               (if workID = [] then (refuse InvalidInput ''workId: missing required field'', db)
                else if ValidateBoundedText ''workId'' workID 100 \<noteq> None then
                  (refuse InvalidInput ''workId: not a valid work ID'', db)
                else (case collection_AddMember (ActiveLibraryFromContext c) collID workID now db of
                        (Some err, db') \<Rightarrow>
                          (if CategoryOf err = NotFound \<and> mentions err ''work'' then
                             refuse NotFound ''no work with that id''
                           else collection_error err, db')
                      | (None, db') \<Rightarrow> (changed_collection ck c collID db', db')))))"

definition RemoveWorkFromCollectionHandler ::
  "req_context \<Rightarrow> collection_request \<Rightarrow> database \<Rightarrow> unit reply \<times> database" where
  "RemoveWorkFromCollectionHandler c r db =
     (let (collID, workID) = extractCollectionAndWorkID r in
      if bad_collection_id collID then (refuse InvalidInput ''id: not a valid collection ID'', db)
      else if ValidateBoundedText ''workId'' workID 100 \<noteq> None then
        (refuse InvalidInput ''workId: not a valid work ID'', db)
      else (case collection_RemoveMember (ActiveLibraryFromContext c) collID workID db of
              (Some err, db') \<Rightarrow>
                (if CategoryOf err = NotFound \<and> mentions err ''membership'' then
                   refuse NotFound ''no membership found for that work in this collection''
                 else collection_error err, db')
            | (None, db') \<Rightarrow> (ROk 204 (), db')))"

section \<open>leaderboard.go\<close>

text \<open>
  The rows both queries read: finished in this library.  PostgreSQL orders \<open>NaN\<close> above every number, so the
  condition holds of it too.
\<close>

definition finished_rows :: "LibraryID \<Rightarrow> database \<Rightarrow> progress_row list" where
  "finished_rows L db =
     filter (\<lambda>r. pr_library_id r = Some L \<and> \<not> flt (pr_percentage r) (Fin 100)) (reading_progress db)"

record FinishedUserRef =
  fu_UserID :: UserID
  fu_DisplayName :: string
  fu_FinishedAt :: instant

record FinishedWorkItem =
  fw_WorkID :: WorkID
  fw_FinishedBy :: "FinishedUserRef list"

record LeaderboardItem =
  lb_WorkID :: WorkID
  lb_FinishedCount :: nat

definition capped_limit :: "int \<Rightarrow> int \<Rightarrow> string \<Rightarrow> nat option" where
  "capped_limit dflt cap s =
     (if s = [] then Some (nat dflt)
      else (case ParseInt64 s of
              None \<Rightarrow> None
            | Some n \<Rightarrow> (if n \<le> 0 then None else Some (nat (min n cap)))))"

text \<open>Values in the order of their first occurrence, the order the loop over the rows meets them.\<close>

fun firsts :: "'a list \<Rightarrow> 'a list" where
  "firsts [] = []"
| "firsts (x # xs) = x # filter (\<lambda>y. y \<noteq> x) (firsts xs)"

text \<open>The page of works past the cursor, and the finishers of just these works.\<close>

definition finished_page :: "(string \<Rightarrow> 'k :: linorder) \<Rightarrow> string \<Rightarrow> nat \<Rightarrow> progress_row list \<Rightarrow> WorkID list" where
  "finished_page ck cursor limit rows =
     take limit (sort_key ck (remdups (filter (\<lambda>w. ck cursor < ck w) (map pr_work_id rows))))"

definition finisher_rows ::
  "(string \<Rightarrow> 'k :: linorder) \<Rightarrow> string \<Rightarrow> nat \<Rightarrow> progress_row list \<Rightarrow> progress_row list" where
  "finisher_rows ck cursor limit rows =
     sort_key (\<lambda>r. (ck (pr_work_id r), pr_observed_at r, ck (orEmpty (pr_user_id r))))
       (filter (\<lambda>r. pr_work_id r \<in> set (finished_page ck cursor limit rows)) rows)"

definition finisher :: "database \<Rightarrow> progress_row \<Rightarrow> FinishedUserRef" where
  "finisher db r =
     \<lparr> fu_UserID = orEmpty (pr_user_id r),
       fu_DisplayName = orEmpty (map_option ur_username (List.find (\<lambda>u. Some (ur_id u) = pr_user_id r) (users db))),
       fu_FinishedAt = pr_observed_at r \<rparr>"

text \<open>A row without a user does not scan into a string.\<close>

definition FinishedWorksHandler ::
  "(string \<Rightarrow> 'k :: linorder) \<Rightarrow> req_context \<Rightarrow> string \<Rightarrow> string \<Rightarrow> database
   \<Rightarrow> (FinishedWorkItem list \<times> WorkID option) reply" where
  "FinishedWorksHandler ck c limitParam cursor db =
     (case activeLibraryScoped c of
        Inl err \<Rightarrow> err
      | Inr activeLib \<Rightarrow>
         (case capped_limit 50 200 limitParam of
            None \<Rightarrow> refuse InvalidInput ''invalid limit parameter''
          | Some limit \<Rightarrow>
             (if \<not> connected db then refuse Internal ''failed to query finished works''
              else let rows = finisher_rows ck cursor limit (finished_rows activeLib db);
                       workOrder = firsts (map pr_work_id rows) in
                   if list_ex (\<lambda>r. pr_user_id r = None) rows then refuse Internal ''failed to read finished works row''
                   else ROk 200
                     (map (\<lambda>w. \<lparr> fw_WorkID = w,
                          fw_FinishedBy = map (finisher db) (filter (\<lambda>r. pr_work_id r = w) rows) \<rparr>) workOrder,
                      if length workOrder = limit then Some (last workOrder) else None))))"

definition finished_count :: "progress_row list \<Rightarrow> WorkID \<Rightarrow> nat" where
  "finished_count rows w = length (remdups (List.map_filter pr_user_id (filter (\<lambda>r. pr_work_id r = w) rows)))"

definition LibraryLeaderboardHandler ::
  "(string \<Rightarrow> 'k :: linorder) \<Rightarrow> req_context \<Rightarrow> string \<Rightarrow> database \<Rightarrow> LeaderboardItem list reply" where
  "LibraryLeaderboardHandler ck c limitParam db =
     (case activeLibraryScoped c of
        Inl err \<Rightarrow> err
      | Inr activeLib \<Rightarrow>
         (case capped_limit 20 50 limitParam of
            None \<Rightarrow> refuse InvalidInput ''invalid limit parameter''
          | Some limit \<Rightarrow>
             (if \<not> connected db then refuse Internal ''failed to query leaderboard''
              else let rows = finished_rows activeLib db in
                   ROk 200 (take limit
                     (map (\<lambda>w. \<lparr> lb_WorkID = w, lb_FinishedCount = finished_count rows w \<rparr>)
                       (sort_key (\<lambda>w. (- int (finished_count rows w), ck w)) (remdups (map pr_work_id rows))))))))"

end
