(* ===== verification/Catalog_Access.thy ===== *)
theory Catalog_Access
  imports Catalog_Handlers Reading_Progress
begin

text \<open>
  What the endpoints of \<open>Catalog_Handlers\<close> keep apart: requests of one library do not change what another library
  sees.  The last section shows that the lists of finished books stay empty.
\<close>

section \<open>Requests that change collections\<close>

datatype collection_call =
    Create "string option" CollectionID
  | Rename collection_request "string option"
  | Delete collection_request
  | AddWork collection_request "string option" instant
  | RemoveWork collection_request

fun serve :: "(string \<Rightarrow> 'k :: linorder) \<Rightarrow> req_context \<times> collection_call \<Rightarrow> database \<Rightarrow> database" where
  "serve ck (c, Create body i) db = snd (CreateCollectionHandler c body i db)"
| "serve ck (c, Rename r body) db = snd (RenameCollectionHandler ck c r body db)"
| "serve ck (c, Delete r) db = snd (DeleteCollectionHandler c r db)"
| "serve ck (c, AddWork r body now) db = snd (AddWorkToCollectionHandler ck c r body now db)"
| "serve ck (c, RemoveWork r) db = snd (RemoveWorkFromCollectionHandler c r db)"

text \<open>Everything but the two tables of collections, and their key.\<close>

definition elsewhere :: "database \<Rightarrow> database" where
  "elsewhere db = db\<lparr>collections := [], collection_members := []\<rparr>"

definition keyed :: "database \<Rightarrow> bool" where
  "keyed db \<longleftrightarrow> distinct (map co_id (collections db))"

definition within_collections :: "database \<Rightarrow> database \<Rightarrow> bool" where
  "within_collections db db' \<longleftrightarrow> elsewhere db' = elsewhere db \<and> (keyed db \<longrightarrow> keyed db')"

definition confined :: "statement \<Rightarrow> bool" where
  "confined s \<longleftrightarrow> (\<forall>db db' n. s db = Inr (db', n) \<longrightarrow> within_collections db db')"

lemma within_refl [simp]: "within_collections db db"
  by (simp add: within_collections_def)

lemma within_trans: "within_collections a b \<Longrightarrow> within_collections b c \<Longrightarrow> within_collections a c"
  by (simp add: within_collections_def)

lemma elsewhere_links: "db_links (elsewhere db) = db_links db"
  by (simp add: elsewhere_def)

lemma within_links: "within_collections db db' \<Longrightarrow> db_links db' = db_links db"
  by (metis elsewhere_links within_collections_def)

lemma Exec_within:
  assumes "confined s" "db_links db = None"
  shows "within_collections db (snd (Exec s db))" "db_links (snd (Exec s db)) = None"
proof -
  have "within_collections db (snd (Exec s db)) \<and> db_links (snd (Exec s db)) = None"
  proof (cases "s db")
    case (Inl a)
    then show ?thesis using assms(2) by (simp add: Exec_def tick_steady)
  next
    case (Inr p)
    then obtain d n where p: "s db = Inr (d, n)" by (cases p) simp
    then have "within_collections db d" using assms(1) by (auto simp: confined_def)
    then show ?thesis using p assms(2) within_links [of db d] by (simp add: Exec_def connected_def tick_steady)
  qed
  then show "within_collections db (snd (Exec s db))" "db_links (snd (Exec s db)) = None" by simp_all
qed

lemma Exec_step:
  assumes "Exec s db = (r, d)" "confined s" "db_links db = None"
  shows "within_collections db d" "db_links d = None"
  using Exec_within [OF assms(2,3)] assms(1) by simp_all

lemma exec_all_within:
  assumes "\<forall>s \<in> set ss. confined s" "db_links db = None"
  shows "within_collections db (snd (exec_all ss db))"
  using assms
proof (induction ss arbitrary: db)
  case (Cons s ss)
  obtain r d where e: "Exec s db = (r, d)" by (cases "Exec s db") simp
  have d: "within_collections db d" "db_links d = None" using Exec_within [of s db] Cons.prems e by simp_all
  then show ?case using e Cons.IH [of d] Cons.prems by (auto split: sum.split intro: within_trans)
qed simp

lemma keyed_rename: "co_id \<circ> (\<lambda>r. if P r then r\<lparr>co_name := n\<rparr> else r) = co_id"
  by (simp add: fun_eq_iff)

lemma statements_confined:
  "confined (upsert_collection i name L)" "confined (delete_members i)" "confined (insert_member i m)"
  "confined (delete_members_scoped L i)" "confined (delete_collection L i)"
  by (auto simp: confined_def within_collections_def elsewhere_def keyed_def keyed_rename upsert_collection_def
      delete_members_def insert_member_def delete_members_scoped_def delete_collection_def delete_where_def Let_def
      distinct_map_filter image_iff split: if_splits)

lemma operations_within:
  assumes "db_links db = None"
  shows "within_collections db (snd (collection_Save L c db))"
    and "within_collections db (snd (collection_Delete L i db))"
    and "within_collections db (snd (collection_AddMember L i w t db))"
    and "within_collections db (snd (collection_RemoveMember L i w db))"
    and "within_collections db (snd (collection_Rename L i name db))"
proof -
  have save: "within_collections d (snd (exec_all (delete_members (c_id c) # map (insert_member (c_id c)) (c_members c)) d))"
    if "db_links d = None" for d
    by (rule exec_all_within [OF _ that]) (auto simp: statements_confined)
  obtain r d where e: "Exec (upsert_collection (c_id c) (c_name c) L) db = (r, d)" by fastforce
  note d = Exec_step [OF e statements_confined(1) assms]
  show "within_collections db (snd (collection_Save L c db))"
    using e d save [OF d(2)] by (auto simp: collection_Save_def simp del: exec_all.simps split: sum.split intro: within_trans)
  obtain r d where e: "Exec (delete_members_scoped L i) db = (r, d)" by fastforce
  note d = Exec_step [OF e statements_confined(4) assms]
  show "within_collections db (snd (collection_Delete L i db))"
    using e d Exec_step(1) [OF _ statements_confined(5) d(2)]
    by (auto simp: collection_Delete_def split: sum.split prod.split intro: within_trans)
  have "confined (\<lambda>db. if list_ex (\<lambda>x. me_collection_id x = i \<and> me_work_id x = w) (collection_members db)
       then Inr (db, 0) else insert_member i \<lparr> cm_WorkID = w, cm_AddedAt = t \<rparr> db)"
    using statements_confined(3) [of i "\<lparr> cm_WorkID = w, cm_AddedAt = t \<rparr>"] by (auto simp: confined_def)
  then show "within_collections db (snd (collection_AddMember L i w t db))"
    using exec_all_within [OF _ assms] by (auto simp: collection_AddMember_def exec_one_def simp del: exec_all.simps)
  have "confined (\<lambda>db. Inr (db\<lparr>collection_members := delete_where P (collection_members db)\<rparr>, f db))" for P f
    by (auto simp: confined_def within_collections_def elsewhere_def keyed_def)
  note removed = Exec_step(1) [OF _ this assms]
  show "within_collections db (snd (collection_RemoveMember L i w db))"
    by (auto simp: collection_RemoveMember_def split: sum.split prod.split dest: removed)
  have "confined (\<lambda>db. Inr (db\<lparr>collections := map (\<lambda>r. if in_library L i r then r\<lparr>co_name := name\<rparr> else r)
      (collections db)\<rparr>, f db))" for f
    by (auto simp: confined_def within_collections_def elsewhere_def keyed_def keyed_rename)
  note renamed = Exec_step(1) [OF _ this assms]
  show "within_collections db (snd (collection_Rename L i name db))"
    by (auto simp: collection_Rename_def split: option.split sum.split prod.split dest: renamed)
qed

text \<open>Whatever the request, the handler makes at most one call of the repository, for the active library.\<close>

lemma snd_command [simp]:
  "snd (case p of (None, d) \<Rightarrow> (f d, d) | (Some e, d) \<Rightarrow> (g e d, d)) = snd p"
  by (auto split: prod.split option.split)

lemma serve_cases:
  fixes c :: req_context
  defines "L \<equiv> ActiveLibraryFromContext c"
  obtains "serve ck (c, k) db = db"
  | coll where "serve ck (c, k) db = snd (collection_Save L coll db)"
  | i where "serve ck (c, k) db = snd (collection_Delete L i db)"
  | i w t where "serve ck (c, k) db = snd (collection_AddMember L i w t db)"
  | i w where "serve ck (c, k) db = snd (collection_RemoveMember L i w db)"
  | i n where "serve ck (c, k) db = snd (collection_Rename L i n db)"
proof (cases k)
  case (Create body i)
  then have "serve ck (c, k) db = db \<or> (\<exists>coll. serve ck (c, k) db = snd (collection_Save L coll db))"
    by (auto simp: L_def CreateCollectionHandler_def split: option.split sum.split)
  then show ?thesis using that(1,2) by blast
next
  case (Rename r body)
  then have "serve ck (c, k) db = db \<or> (\<exists>i n. serve ck (c, k) db = snd (collection_Rename L i n db))"
    by (auto simp: L_def RenameCollectionHandler_def Let_def split: option.split)
  then show ?thesis using that(1,6) by blast
next
  case (Delete r)
  then have "serve ck (c, k) db = db \<or> (\<exists>i. serve ck (c, k) db = snd (collection_Delete L i db))"
    by (auto simp: L_def DeleteCollectionHandler_def Let_def)
  then show ?thesis using that(1,3) by blast
next
  case (AddWork r body now)
  then have "serve ck (c, k) db = db \<or> (\<exists>i w t. serve ck (c, k) db = snd (collection_AddMember L i w t db))"
    by (auto simp: L_def AddWorkToCollectionHandler_def Let_def split: option.split)
  then show ?thesis using that(1,4) by blast
next
  case (RemoveWork r)
  then have "serve ck (c, k) db = db \<or> (\<exists>i w. serve ck (c, k) db = snd (collection_RemoveMember L i w db))"
    by (cases "extractCollectionAndWorkID r") (auto simp: L_def RemoveWorkFromCollectionHandler_def)
  then show ?thesis using that(1,5) by blast
qed

lemma serve_within: "db_links db = None \<Longrightarrow> within_collections db (serve ck (c, k) db)"
  by (cases rule: serve_cases [of ck c k db]) (simp_all add: operations_within)

lemma serve_foreign:
  assumes "keyed db"
  shows "foreign (ActiveLibraryFromContext c) (serve ck (c, k) db) = foreign (ActiveLibraryFromContext c) db"
  using assms unfolding keyed_def
  by (cases rule: serve_cases [of ck c k db])
     (simp_all add: foreign_Save foreign_Delete foreign_member_ops foreign_Rename)

text \<open>The view of one library is fixed by what another library may not touch.\<close>

lemma library_view_other:
  assumes "within_collections db db'" "foreign L' db' = foreign L' db" "L \<noteq> L'"
  shows "library_view L db' = library_view L db"
proof -
  have view: "library_view L d =
      (let cs = filter (\<lambda>c. co_library_id c = L) (fst (foreign L' d)) in
       (elsewhere d)\<lparr>library_entries := filter (\<lambda>r. en_library_id r = L) (library_entries (elsewhere d)),
         collections := cs,
         collection_members := filter (\<lambda>m. me_collection_id m \<in> co_id ` set cs) (snd (foreign L' d))\<rparr>)" for d
  proof -
    have "filter (\<lambda>c. co_library_id c = L) (fst (foreign L' d)) = filter (\<lambda>c. co_library_id c = L) (collections d)"
      using assms(3) by (auto simp: foreign_def Let_def intro: filter_cong)
    moreover have "filter (\<lambda>m. me_collection_id m \<in> co_id ` set (filter (\<lambda>c. co_library_id c = L) (collections d)))
          (snd (foreign L' d))
        = filter (\<lambda>m. me_collection_id m \<in> co_id ` set (filter (\<lambda>c. co_library_id c = L) (collections d)))
          (collection_members d)"
      using assms(3) by (auto simp: foreign_def Let_def intro!: filter_cong)
    ultimately show ?thesis by (simp add: library_view_def elsewhere_def Let_def)
  qed
  show ?thesis unfolding view using assms(1,2) by (simp add: within_collections_def)
qed

lemma FindAll_view: "collection_FindAll ck (library_view L db) L = collection_FindAll ck db L"
proof -
  let ?cs = "filter (\<lambda>c. co_library_id c = L) (collections db)"
  have "filter (\<lambda>m. me_collection_id m = co_id c) (filter (\<lambda>m. me_collection_id m \<in> co_id ` set ?cs) (collection_members db))
      = filter (\<lambda>m. me_collection_id m = co_id c) (collection_members db)" if "c \<in> set ?cs" for c
    using that by (auto intro!: filter_cong)
  then show ?thesis
    by (auto simp: collection_FindAll_def library_view_def Let_def connected_def)
qed

section \<open>Libraries do not interfere\<close>

definition serve_all ::
  "(string \<Rightarrow> 'k :: linorder) \<Rightarrow> (req_context \<times> collection_call) list \<Rightarrow> database \<Rightarrow> database" where
  "serve_all ck history db = foldl (\<lambda>d call. serve ck call d) db history"

lemma serve_all_view:
  assumes "db_links db = None" "keyed db" "\<forall>(c, k) \<in> set history. ActiveLibraryFromContext c \<noteq> L"
  shows "library_view L (serve_all ck history db) = library_view L db"
  using assms
proof (induction history arbitrary: db)
  case (Cons call history)
  obtain c k where call: "call = (c, k)" by fastforce
  have w: "within_collections db (serve ck (c, k) db)" by (rule serve_within [OF Cons.prems(1)])
  then have "library_view L (serve_all ck history (serve ck (c, k) db)) = library_view L (serve ck (c, k) db)"
    using Cons within_links [OF w] by (simp add: within_collections_def)
  also have "\<dots> = library_view L db"
    using library_view_other [OF w serve_foreign] Cons.prems call by auto
  finally show ?case by (simp add: serve_all_def call)
qed (simp add: serve_all_def)

lemma DefaultLibraryID_named: "DefaultLibraryID \<noteq> []"
  by (simp add: DefaultLibraryID_def)

lemma ActiveLibrary_named: "ActiveLibraryFromContext c \<noteq> []"
  by (simp add: ActiveLibraryFromContext_def DefaultLibraryID_named)

lemma scoped_library: "activeLibraryScoped c = Inr L \<Longrightarrow> L = ActiveLibraryFromContext c"
  by (auto simp: activeLibraryScoped_def Let_def split: option.splits if_splits)

lemma library_query_scoped: "library_query tparse L r = Inr q \<Longrightarrow> lq_LibraryID q = L"
  by (auto simp: library_query_def split: option.splits if_splits)

lemma answers_view:
  fixes c :: req_context
  defines "L \<equiv> ActiveLibraryFromContext c"
  shows "LibraryHandler ck tsmatch tfmt tparse c r (library_view L db) = LibraryHandler ck tsmatch tfmt tparse c r db"
    and "WorkDetailHandler ck c pathValue path (library_view L db) = WorkDetailHandler ck c pathValue path db"
    and "ListCollectionsHandler ck c (library_view L db) = ListCollectionsHandler ck c db"
proof -
  have page: "QueryLibrary ck tsmatch tfmt tparse (library_view L db) q = QueryLibrary ck tsmatch tfmt tparse db q"
    if "lq_LibraryID q = L" for q
    using that by (intro QueryLibrary_view) (simp add: query_library_id_def L_def ActiveLibrary_named)
  have work: "FindWorkDetail ck (library_view L db) i L = FindWorkDetail ck db i L" for i
    using library_reads_are_scoped [of ck tsmatch tfmt tparse undefined db L i] by (simp add: L_def ActiveLibrary_named)
  show "LibraryHandler ck tsmatch tfmt tparse c r (library_view L db) = LibraryHandler ck tsmatch tfmt tparse c r db"
  proof (cases "activeLibraryScoped c :: LibraryPage reply + LibraryID")
    case (Inr A)
    then show ?thesis
      using page scoped_library [OF Inr] library_query_scoped
      by (fastforce simp: LibraryHandler_def L_def split: sum.split)
  qed (simp add: LibraryHandler_def)
  show "WorkDetailHandler ck c pathValue path (library_view L db) = WorkDetailHandler ck c pathValue path db"
  proof (cases "activeLibraryScoped c :: WorkDetail reply + LibraryID")
    case (Inr A)
    then show ?thesis using work scoped_library [OF Inr] by (simp add: WorkDetailHandler_def L_def Let_def)
  qed (simp add: WorkDetailHandler_def)
  show "ListCollectionsHandler ck c (library_view L db) = ListCollectionsHandler ck c db"
    by (simp add: ListCollectionsHandler_def FindAll_view L_def)
qed

text \<open>C33: Libraries do not interfere.  Whatever requests on collections are served for other libraries, in any
  number and order and with any identifiers in path and body, the library page, the work details and the list of
  collections that a member of this library gets are the same as if none of them had been made.
\<close>

theorem libraries_do_not_interfere:
  assumes "db_links db = None" "distinct (map co_id (collections db))"
    "\<forall>(c', call) \<in> set history. ActiveLibraryFromContext c' \<noteq> ActiveLibraryFromContext c"
  shows "LibraryHandler ck tsmatch tfmt tparse c r (serve_all ck history db) = LibraryHandler ck tsmatch tfmt tparse c r db
    \<and> WorkDetailHandler ck c pathValue path (serve_all ck history db) = WorkDetailHandler ck c pathValue path db
    \<and> ListCollectionsHandler ck c (serve_all ck history db) = ListCollectionsHandler ck c db"
  using serve_all_view [OF assms(1) _ assms(3)] assms(2) unfolding keyed_def by (metis answers_view)

text \<open>A member of library \<open>A\<close> tries to delete and to take over the collection of library \<open>B\<close>.\<close>

definition shared_store :: database where
  "shared_store = (empty_database [''A'', ''B''])\<lparr>collections := [\<lparr> co_id = ''c'', co_name = ''Poems'', co_library_id = ''B'' \<rparr>]\<rparr>"

definition in_active :: "LibraryID \<Rightarrow> req_context" where
  "in_active L = \<lparr> cx_user = None, cx_library = L \<rparr>"

theorem libraries_do_not_interfere_witness:
  "ListCollectionsHandler length (in_active ''B'')
     (serve_all length
       [(in_active ''A'', Delete \<lparr> cq_id = ''c'', cq_workId = [], cq_path = [] \<rparr>), (in_active ''A'', Create (Some ''Mine'') ''c'')]
       shared_store)
   = ROk 200 [\<lparr> su_ID = ''c'', su_Name = ''Poems'', su_WorkCount = 0 \<rparr>]"
proof -
  have "ListCollectionsHandler length (in_active ''B'') shared_store = ROk 200 [\<lparr> su_ID = ''c'', su_Name = ''Poems'', su_WorkCount = 0 \<rparr>]"
    by (simp add: ListCollectionsHandler_def collection_FindAll_def shared_store_def in_active_def ActiveLibraryFromContext_def
        empty_database_def connected_def)
  then show ?thesis
    using libraries_do_not_interfere [of shared_store _ "in_active ''B''" length]
    by (simp add: shared_store_def in_active_def ActiveLibraryFromContext_def empty_database_def)
qed

section \<open>The lists of finished books\<close>

text \<open>
  Both queries of \<open>leaderboard.go\<close> select rows with a percentage of at least 100.  A percentage that \<open>NewPercentage\<close>
  made from a number lies between 0 and 1, with 1 for a finished book, so on a store with such rows only, both lists
  are empty, however many books have been finished.
\<close>

lemma valid_not_finished: "valid_percentage p \<Longrightarrow> flt p (Fin 100)"
  by (cases p) (auto simp: valid_percentage_def)

lemma capped_limit_pos: "capped_limit dflt cap s = Some n \<Longrightarrow> 0 < dflt \<Longrightarrow> 0 < cap \<Longrightarrow> 0 < n"
  by (auto simp: capped_limit_def split: if_splits option.splits)

lemma finished_lists_are_empty:
  assumes "\<forall>r \<in> set (reading_progress db). valid_percentage (pr_percentage r)"
  shows "FinishedWorksHandler ck c limit cursor db = ROk status page \<Longrightarrow> page = ([], None)"
    and "LibraryLeaderboardHandler ck c limit db = ROk status items \<Longrightarrow> items = []"
proof -
  have none: "finished_rows L db = []" for L
    using assms valid_not_finished by (auto simp: finished_rows_def filter_empty_conv)
  show "FinishedWorksHandler ck c limit cursor db = ROk status page \<Longrightarrow> page = ([], None)"
    by (auto simp: FinishedWorksHandler_def none finisher_rows_def refuse_def activeLibraryScoped_def Let_def
        split: if_splits option.splits sum.splits dest: capped_limit_pos)
  show "LibraryLeaderboardHandler ck c limit db = ROk status items \<Longrightarrow> items = []"
    by (auto simp: LibraryLeaderboardHandler_def none refuse_def activeLibraryScoped_def Let_def
        split: if_splits option.splits sum.splits)
qed

end
