(* ===== verification/Server_Config.thy ===== *)
theory Server_Config
  imports Source_Guards
begin

text \<open>
  \<open>internal/config\<close>: the configuration of the server (\<open>config.go\<close>) and the rules for the address it binds
  (\<open>bindaddress.go\<close>).

  The environment, the files, the parser of TOML, \<open>time.ParseDuration\<close>, the printing of floats, \<open>net/url\<close> and
  the packages \<open>crypto/tls\<close> and \<open>crypto/x509\<close> are the record \<open>config_env\<close>.  Errors are a datatype with what
  their messages name.
\<close>

section \<open>Types\<close>

record certificate =
  ct_NotBefore :: instant
  ct_NotAfter :: instant
  ct_names :: "string list"

text \<open>A key pair is the list of its certificates in encoded form.\<close>

type_synonym key_pair = "string list"

record Config =
  cf_DatabaseURL :: string
  cf_LogLevel :: string
  cf_ShutdownGracePeriod :: int
  cf_DBPoolMaxConns :: int
  cf_HTTPMaxBodyBytes :: int
  cf_HTTPReadTimeout :: int
  cf_HTTPWriteTimeout :: int
  cf_HTTPIdleTimeout :: int
  cf_OpenLibraryUserAgent :: string
  cf_BindAddress :: string
  cf_TLSCertFile :: string
  cf_TLSKeyFile :: string
  cf_ACMEEnabled :: bool
  cf_ACMEDomain :: string
  cf_ACMEEmail :: string
  cf_ACMECacheDir :: string
  cf_CORSAllowedOrigins :: "string list"
  cf_TrustedProxyCIDRs :: "Prefix list"
  cf_DevicePairingSecret :: string
  cf_SourceAllowPrivateAddresses :: bool
  cf_DesktopParentPID :: int
  cf_tlsCert :: "(key_pair \<times> certificate) option"
  cf_reachability :: string
  cf_tlsMode :: string
  cf_namedBindHost :: string

definition zero_config :: Config where
  "zero_config =
     \<lparr> cf_DatabaseURL = [], cf_LogLevel = [], cf_ShutdownGracePeriod = 0, cf_DBPoolMaxConns = 0,
       cf_HTTPMaxBodyBytes = 0, cf_HTTPReadTimeout = 0, cf_HTTPWriteTimeout = 0, cf_HTTPIdleTimeout = 0,
       cf_OpenLibraryUserAgent = [], cf_BindAddress = [], cf_TLSCertFile = [], cf_TLSKeyFile = [],
       cf_ACMEEnabled = False, cf_ACMEDomain = [], cf_ACMEEmail = [], cf_ACMECacheDir = [],
       cf_CORSAllowedOrigins = [], cf_TrustedProxyCIDRs = [], cf_DevicePairingSecret = [],
       cf_SourceAllowPrivateAddresses = False, cf_DesktopParentPID = 0, cf_tlsCert = None,
       cf_reachability = [], cf_tlsMode = [], cf_namedBindHost = [] \<rparr>"

datatype toml_value = TString string | TInt int | TFloat string | TBool bool | TOther string

datatype read_error = NotExist | ReadFailed

record config_env =
  ce_LookupEnv :: "string \<Rightarrow> string option"
  ce_readFile :: "string \<Rightarrow> read_error + string"
  ce_userConfigDir :: "string option"
  ce_toml :: "string \<Rightarrow> (string \<times> toml_value) list option"
  ce_FormatFloat :: "string \<Rightarrow> string"
  ce_ParseDuration :: "string \<Rightarrow> int option"
  ce_url :: url_lib
  ce_X509KeyPair :: "string \<Rightarrow> string \<Rightarrow> key_pair option"
  ce_ParseCertificate :: "string \<Rightarrow> certificate option"
  ce_VerifyHostname :: "certificate \<Rightarrow> string \<Rightarrow> bool"
  ce_now :: instant

datatype config_error =
    NoConfigDir
  | NoConfigFile string
  | UnreadableConfig string
  | BadToml string
  | MissingKey string
  | BadValue string
  | NotHostPort
  | HalfPair string
  | AcmeNotPublic string
  | AcmeNoDomain string
  | AcmeOtherDomain string string
  | AcmeAndFiles
  | TLSRequired string
  | UnreadableCert string
  | BadPair
  | NoCertificate
  | BadCertificate
  | CertificateExpired
  | CertificateOtherHost string

section \<open>config.go: parsing\<close>

definition parseLogLevel :: "config_env \<Rightarrow> string \<Rightarrow> string option" where
  "parseLogLevel E raw =
     (let lower = ToLower (ul_lower (ce_url E)) raw in
      if lower \<in> {''debug'', ''info'', ''warn'', ''error''} then Some lower else None)"

definition parseBool :: "string \<Rightarrow> bool option" where
  "parseBool raw =
     (if raw \<in> {''1'', ''t'', ''T'', ''TRUE'', ''true'', ''True''} then Some True
      else if raw \<in> {''0'', ''f'', ''F'', ''FALSE'', ''false'', ''False''} then Some False
      else None)"

definition parseHostPort :: "string \<Rightarrow> string option" where
  "parseHostPort raw = (case SplitHostPort raw of Inl _ \<Rightarrow> None | Inr _ \<Rightarrow> Some raw)"

definition isDefaultPort :: "string \<Rightarrow> string \<Rightarrow> bool" where
  "isDefaultPort scheme port \<longleftrightarrow> (scheme = ''https'' \<and> port = ''443'') \<or> (scheme = ''http'' \<and> port = ''80'')"

text \<open>One entry of the list of origins, in the form a browser sends it.\<close>

definition serialized_origin :: "url_lib \<Rightarrow> string \<Rightarrow> string option" where
  "serialized_origin U entry =
     (case ul_Parse U entry of
        None \<Rightarrow> None
      | Some u \<Rightarrow>
         (case url_hostport (url_Host u) of
            (hostname, port) \<Rightarrow>
              if url_Scheme u \<noteq> ''http'' \<and> url_Scheme u \<noteq> ''https'' then None
              else if hostname = [] then None
              else if url_Path u \<noteq> [] \<or> url_RawQuery u \<noteq> [] \<or> url_Fragment u \<noteq> [] \<or> url_User u \<noteq> None then None
              else (let lower = ToLower (ul_lower U) hostname;
                        host = (if CHR '':'' \<in> set lower then CHR ''['' # lower @ '']'' else lower);
                        port_part = (if port \<noteq> [] \<and> \<not> isDefaultPort (url_Scheme u) port then CHR '':'' # port else []) in
                    Some (url_Scheme u @ ''://'' @ host @ port_part))))"

definition list_entries :: "string \<Rightarrow> string list" where
  "list_entries raw = filter (\<lambda>e. e \<noteq> []) (map TrimSpace (split_on CHR '','' raw))"

definition parseOriginList :: "url_lib \<Rightarrow> string \<Rightarrow> string list option" where
  "parseOriginList U raw = all_Some (map (serialized_origin U) (list_entries raw))"

definition parseCIDRList :: "string \<Rightarrow> Prefix list option" where
  "parseCIDRList raw = all_Some (map (\<lambda>e. map_option Masked (ParsePrefix e)) (list_entries raw))"

section \<open>config.go: fields\<close>

datatype field_category = Required | OptionalDefault | OptionalNoDefault

text \<open>\<open>fs_set\<close> is \<open>parse\<close> followed by \<open>apply\<close>; \<open>fs_default\<close> applies the compiled default.\<close>

record fieldSpec =
  fs_key :: string
  fs_category :: field_category
  fs_set :: "string \<Rightarrow> (Config \<Rightarrow> Config) option"
  fs_default :: "Config \<Rightarrow> Config"

definition field_spec :: "string \<Rightarrow> field_category \<Rightarrow> (string \<Rightarrow> 'v option) \<Rightarrow> ('v \<Rightarrow> Config \<Rightarrow> Config) \<Rightarrow> (Config \<Rightarrow> Config) \<Rightarrow> fieldSpec" where
  "field_spec key c parse app dflt =
     \<lparr> fs_key = key, fs_category = c, fs_set = (\<lambda>raw. map_option app (parse raw)), fs_default = dflt \<rparr>"

abbreviation secs :: "int \<Rightarrow> int" where
  "secs n \<equiv> n * 1000000000"

definition fields :: "config_env \<Rightarrow> fieldSpec list" where
  "fields E =
     [field_spec ''DATABASE_URL'' OptionalNoDefault Some (\<lambda>v. cf_DatabaseURL_update (\<lambda>_. v)) id,
      field_spec ''LOG_LEVEL'' OptionalDefault (parseLogLevel E) (\<lambda>v. cf_LogLevel_update (\<lambda>_. v))
        (cf_LogLevel_update (\<lambda>_. ''info'')),
      field_spec ''SHUTDOWN_GRACE_PERIOD'' OptionalDefault (ce_ParseDuration E) (\<lambda>v. cf_ShutdownGracePeriod_update (\<lambda>_. v))
        (cf_ShutdownGracePeriod_update (\<lambda>_. secs 10)),
      field_spec ''DB_POOL_MAX_CONNS'' OptionalDefault ParseInt64 (\<lambda>v. cf_DBPoolMaxConns_update (\<lambda>_. v))
        (cf_DBPoolMaxConns_update (\<lambda>_. 10)),
      field_spec ''HTTP_MAX_BODY_BYTES'' OptionalDefault ParseInt64 (\<lambda>v. cf_HTTPMaxBodyBytes_update (\<lambda>_. v))
        (cf_HTTPMaxBodyBytes_update (\<lambda>_. 10 * 1024 * 1024)),
      field_spec ''HTTP_READ_TIMEOUT'' OptionalDefault (ce_ParseDuration E) (\<lambda>v. cf_HTTPReadTimeout_update (\<lambda>_. v))
        (cf_HTTPReadTimeout_update (\<lambda>_. secs 15)),
      field_spec ''HTTP_WRITE_TIMEOUT'' OptionalDefault (ce_ParseDuration E) (\<lambda>v. cf_HTTPWriteTimeout_update (\<lambda>_. v))
        (cf_HTTPWriteTimeout_update (\<lambda>_. secs 15)),
      field_spec ''HTTP_IDLE_TIMEOUT'' OptionalDefault (ce_ParseDuration E) (\<lambda>v. cf_HTTPIdleTimeout_update (\<lambda>_. v))
        (cf_HTTPIdleTimeout_update (\<lambda>_. secs 60)),
      field_spec ''OPEN_LIBRARY_USER_AGENT'' Required Some (\<lambda>v. cf_OpenLibraryUserAgent_update (\<lambda>_. v)) id,
      field_spec ''BIND_ADDRESS'' OptionalDefault parseHostPort (\<lambda>v. cf_BindAddress_update (\<lambda>_. v))
        (cf_BindAddress_update (\<lambda>_. ''127.0.0.1:0'')),
      field_spec ''TLS_CERT_FILE'' OptionalNoDefault Some (\<lambda>v. cf_TLSCertFile_update (\<lambda>_. v)) id,
      field_spec ''TLS_KEY_FILE'' OptionalNoDefault Some (\<lambda>v. cf_TLSKeyFile_update (\<lambda>_. v)) id,
      field_spec ''SOURCE_ALLOW_PRIVATE_ADDRESSES'' OptionalDefault parseBool
        (\<lambda>v. cf_SourceAllowPrivateAddresses_update (\<lambda>_. v)) (cf_SourceAllowPrivateAddresses_update (\<lambda>_. False)),
      field_spec ''DESKTOP_PARENT_PID'' OptionalNoDefault ParseInt64 (\<lambda>v. cf_DesktopParentPID_update (\<lambda>_. v)) id,
      field_spec ''ACME_ENABLED'' OptionalDefault parseBool (\<lambda>v. cf_ACMEEnabled_update (\<lambda>_. v))
        (cf_ACMEEnabled_update (\<lambda>_. False)),
      field_spec ''ACME_DOMAIN'' OptionalNoDefault Some (\<lambda>v. cf_ACMEDomain_update (\<lambda>_. v)) id,
      field_spec ''ACME_EMAIL'' OptionalNoDefault Some (\<lambda>v. cf_ACMEEmail_update (\<lambda>_. v)) id,
      field_spec ''ACME_CACHE_DIR'' OptionalNoDefault Some (\<lambda>v. cf_ACMECacheDir_update (\<lambda>_. v)) id,
      field_spec ''CORS_ALLOWED_ORIGINS'' OptionalNoDefault (parseOriginList (ce_url E))
        (\<lambda>v. cf_CORSAllowedOrigins_update (\<lambda>_. v)) id,
      field_spec ''TRUSTED_PROXY_CIDRS'' OptionalNoDefault parseCIDRList (\<lambda>v. cf_TrustedProxyCIDRs_update (\<lambda>_. v)) id,
      field_spec ''DEVICE_PAIRING_SECRET'' OptionalNoDefault Some (\<lambda>v. cf_DevicePairingSecret_update (\<lambda>_. v)) id]"

section \<open>config.go: loading\<close>

definition tomlValueToString :: "config_env \<Rightarrow> toml_value \<Rightarrow> string" where
  "tomlValueToString E v =
     (case v of
        TString s \<Rightarrow> s
      | TInt n \<Rightarrow> FormatInt n
      | TFloat f \<Rightarrow> ce_FormatFloat E f
      | TBool b \<Rightarrow> (if b then ''true'' else ''false'')
      | TOther s \<Rightarrow> s)"

definition loadFileValues :: "config_env \<Rightarrow> string \<Rightarrow> config_error + (string \<times> string) list" where
  "loadFileValues E configPath =
     (case (if configPath \<noteq> [] then Some configPath
            else map_option (\<lambda>dir. path_Join (path_Join dir ''alexandryn'') ''config.toml'') (ce_userConfigDir E)) of
        None \<Rightarrow> Inl NoConfigDir
      | Some path \<Rightarrow>
         (case ce_readFile E path of
            Inl NotExist \<Rightarrow> (if configPath \<noteq> [] then Inl (NoConfigFile path) else Inr [])
          | Inl ReadFailed \<Rightarrow> Inl (UnreadableConfig path)
          | Inr data \<Rightarrow>
             (case ce_toml E data of
                None \<Rightarrow> Inl (BadToml path)
              | Some raw \<Rightarrow> Inr (map (\<lambda>(k, v). (k, tomlValueToString E v)) raw))))"

text \<open>The raw value of a key: the environment, else the file; empty is absent.\<close>

definition raw_value :: "config_env \<Rightarrow> (string \<times> string) list \<Rightarrow> string \<Rightarrow> string" where
  "raw_value E values key =
     (let env = orEmpty (ce_LookupEnv E key) in
      if env \<noteq> [] then env else orEmpty (map_of values (ToLower (ul_lower (ce_url E)) key)))"

fun load_fields :: "config_env \<Rightarrow> (string \<times> string) list \<Rightarrow> fieldSpec list \<Rightarrow> Config \<Rightarrow> config_error + Config" where
  "load_fields E values [] cfg = Inr cfg"
| "load_fields E values (f # fs) cfg =
     (let raw = raw_value E values (fs_key f) in
      if raw = [] then
        (case fs_category f of
           Required \<Rightarrow> Inl (MissingKey (fs_key f))
         | OptionalDefault \<Rightarrow> load_fields E values fs (fs_default f cfg)
         | OptionalNoDefault \<Rightarrow> load_fields E values fs cfg)
      else (case fs_set f raw of
              None \<Rightarrow> Inl (BadValue (fs_key f))
            | Some app \<Rightarrow> load_fields E values fs (app cfg)))"

section \<open>bindaddress.go\<close>

datatype bindClass = classLoopback | classPrivate | classPublic

definition reachability :: "bindClass \<Rightarrow> string" where
  "reachability c = (case c of classLoopback \<Rightarrow> ''loopback'' | classPrivate \<Rightarrow> ''private'' | classPublic \<Rightarrow> ''public'')"

definition classifyBindHost :: "string \<Rightarrow> bindClass" where
  "classifyBindHost host =
     (if host = ''localhost'' then classLoopback
      else (let ip = ParseIP host in
            if ip = [] then classPublic
            else if IsLoopback ip then classLoopback
            else if IsPrivate ip \<or> IsLinkLocalUnicast ip then classPrivate
            else classPublic))"

definition loadAndValidateCert :: "config_env \<Rightarrow> Config \<Rightarrow> string \<Rightarrow> config_error + key_pair \<times> certificate" where
  "loadAndValidateCert E cfg sanHost =
     (case ce_readFile E (cf_TLSCertFile cfg) of
        Inl _ \<Rightarrow> Inl (UnreadableCert (cf_TLSCertFile cfg))
      | Inr certPEM \<Rightarrow>
     (case ce_readFile E (cf_TLSKeyFile cfg) of
        Inl _ \<Rightarrow> Inl (UnreadableCert (cf_TLSKeyFile cfg))
      | Inr keyPEM \<Rightarrow>
     (case ce_X509KeyPair E certPEM keyPEM of
        None \<Rightarrow> Inl BadPair
      | Some [] \<Rightarrow> Inl NoCertificate
      | Some (c # cs) \<Rightarrow>
         (case ce_ParseCertificate E c of
            None \<Rightarrow> Inl BadCertificate
          | Some leaf \<Rightarrow>
             (if ce_now E < ct_NotBefore leaf \<or> ct_NotAfter leaf < ce_now E then Inl CertificateExpired
              else if sanHost \<noteq> [] \<and> \<not> ce_VerifyHostname E leaf sanHost then Inl (CertificateOtherHost sanHost)
              else Inr (c # cs, leaf))))))"

definition serve_static :: "config_env \<Rightarrow> Config \<Rightarrow> string \<Rightarrow> config_error + Config" where
  "serve_static E cfg sanHost =
     (case loadAndValidateCert E cfg sanHost of
        Inl err \<Rightarrow> Inl err
      | Inr cert \<Rightarrow> Inr (cfg\<lparr>cf_tlsCert := Some cert, cf_tlsMode := ''static''\<rparr>))"

definition validateBindAddress :: "config_env \<Rightarrow> Config \<Rightarrow> config_error + Config" where
  "validateBindAddress E cfg0 =
     (case SplitHostPort (cf_BindAddress cfg0) of
        Inl _ \<Rightarrow> Inl NotHostPort
      | Inr (host, _) \<Rightarrow>
     (let cls = classifyBindHost host;
          cfg = cfg0\<lparr>cf_reachability := reachability cls, cf_tlsMode := ''none''\<rparr>;
          hasStaticCert = (cf_TLSCertFile cfg \<noteq> [] \<and> cf_TLSKeyFile cfg \<noteq> []) in
      if (cf_TLSCertFile cfg = []) \<noteq> (cf_TLSKeyFile cfg = []) then
        Inl (HalfPair (if cf_TLSCertFile cfg \<noteq> [] then ''TLS_CERT_FILE'' else ''TLS_KEY_FILE''))
      else if cls \<noteq> classPublic then
        (if cf_ACMEEnabled cfg then Inl (AcmeNotPublic (cf_BindAddress cfg))
         else if hasStaticCert then serve_static E cfg []
         else Inr cfg)
      else
        (let isName = (ParseIP host = []);
             cfg1 = (if isName then cfg\<lparr>cf_namedBindHost := host\<rparr> else cfg) in
         if cf_ACMEEnabled cfg1 then
           (if cf_ACMEDomain cfg1 = [] then Inl (AcmeNoDomain (cf_BindAddress cfg1))
            else if isName \<and> \<not> ul_EqualFold (ce_url E) host (cf_ACMEDomain cfg1) then
              Inl (AcmeOtherDomain host (cf_ACMEDomain cfg1))
            else if hasStaticCert then Inl AcmeAndFiles
            else Inr (cfg1\<lparr>cf_tlsMode := ''acme''\<rparr>))
         else if \<not> hasStaticCert then Inl (TLSRequired (cf_BindAddress cfg1))
         else serve_static E cfg1 (if isName then host else []))))"

definition Load :: "config_env \<Rightarrow> string \<Rightarrow> config_error + Config" where
  "Load E configPath =
     (case loadFileValues E configPath of
        Inl err \<Rightarrow> Inl err
      | Inr values \<Rightarrow>
         (case load_fields E values (fields E) zero_config of
            Inl err \<Rightarrow> Inl err
          | Inr cfg \<Rightarrow> validateBindAddress E cfg))"

section \<open>Plain text stays on local addresses\<close>

definition local_ranges :: "(string \<times> nat) list" where
  "local_ranges =
     [(''127.0.0.0'', 8), (''10.0.0.0'', 8), (''172.16.0.0'', 12), (''192.168.0.0'', 16), (''169.254.0.0'', 16),
      (''::1'', 128), (''fc00::'', 7), (''fe80::'', 10)]"

definition local_host :: "string \<Rightarrow> bool" where
  "local_host host \<longleftrightarrow>
     host = ''localhost'' \<or> (ParseIP host \<noteq> [] \<and> list_ex (in_range (ParseIP host)) local_ranges)"

lemma local_bytes:
  assumes "length ip = 16"
  shows "IsLoopback ip \<or> IsPrivate ip \<or> IsLinkLocalUnicast ip \<longleftrightarrow> list_ex (in_range ip) local_ranges"
proof (cases "take 12 ip = v4InV6Prefix")
  case True
  with assms obtain a b c d where "ip = v4InV6Prefix @ [a, b, c, d]" by (rule mapped_bytes)
  then show ?thesis
    by (auto simp: mapped_predicates local_ranges_def ranges_v4 ranges_v6 nth_append)
next
  case False
  then show ?thesis
    using assms by (auto simp: local_ranges_def unmapped_ranges ranges_v6 net_predicates To4_def)
qed

lemma classifyBindHost_public: "classifyBindHost host = classPublic \<longleftrightarrow> \<not> local_host host"
proof -
  have "ParseIP host \<noteq> [] \<Longrightarrow> IsLoopback (ParseIP host) \<or> IsPrivate (ParseIP host) \<or> IsLinkLocalUnicast (ParseIP host)
      \<longleftrightarrow> list_ex (in_range (ParseIP host)) local_ranges"
    by (rule local_bytes) (simp add: ParseIP_length)
  then show ?thesis by (auto simp: classifyBindHost_def local_host_def Let_def)
qed

lemma load_fields_cert:
  assumes "list_all (\<lambda>f. (\<forall>raw app c. fs_set f raw = Some app \<longrightarrow> cf_tlsCert (app c) = cf_tlsCert c)
      \<and> (\<forall>c. cf_tlsCert (fs_default f c) = cf_tlsCert c)) fs"
    "load_fields E values fs cfg = Inr cfg'"
  shows "cf_tlsCert cfg' = cf_tlsCert cfg"
  using assms
  by (induction fs arbitrary: cfg) (auto simp: Let_def split: if_splits field_category.splits option.splits)

lemma loaded_cert: "load_fields E values (fields E) zero_config = Inr cfg \<Longrightarrow> cf_tlsCert cfg = None"
  by (drule load_fields_cert [rotated]) (auto simp: fields_def field_spec_def zero_config_def)

lemma cert_ok:
  assumes "loadAndValidateCert E cfg sanHost = Inr (pair, leaf)"
  shows "ct_NotBefore leaf \<le> ce_now E \<and> ce_now E \<le> ct_NotAfter leaf \<and> (sanHost = [] \<or> ce_VerifyHostname E leaf sanHost)"
  using assms by (auto simp: loadAndValidateCert_def split: sum.splits option.splits list.splits if_splits)

text \<open>How a configuration serves its address.\<close>

definition serves_safely :: "config_env \<Rightarrow> Config \<Rightarrow> string \<Rightarrow> bool" where
  "serves_safely E cfg host \<longleftrightarrow>
     (cf_tlsMode cfg = ''none'' \<and> local_host host \<and> cf_tlsCert cfg = None)
     \<or> (cf_tlsMode cfg = ''acme'' \<and> \<not> local_host host \<and> cf_tlsCert cfg = None \<and> cf_ACMEDomain cfg \<noteq> []
        \<and> (ParseIP host \<noteq> [] \<or> ul_EqualFold (ce_url E) host (cf_ACMEDomain cfg)))
     \<or> (cf_tlsMode cfg = ''static''
        \<and> (case cf_tlsCert cfg of
             None \<Rightarrow> False
           | Some (pair, leaf) \<Rightarrow>
               ct_NotBefore leaf \<le> ce_now E \<and> ce_now E \<le> ct_NotAfter leaf
               \<and> (local_host host \<or> ParseIP host \<noteq> [] \<or> host = [] \<or> ce_VerifyHostname E leaf host)))"

lemma serve_static_ok:
  assumes "serve_static E cfg san = Inr cfg'" "san = host \<or> local_host host \<or> ParseIP host \<noteq> []"
  shows "serves_safely E cfg' host \<and> cf_BindAddress cfg' = cf_BindAddress cfg"
  using assms cert_ok by (fastforce simp: serve_static_def serves_safely_def split: sum.splits)

lemma validate_ok:
  assumes "validateBindAddress E cfg = Inr cfg'" "cf_tlsCert cfg = None"
  shows "\<exists>host port. SplitHostPort (cf_BindAddress cfg') = Inr (host, port) \<and> serves_safely E cfg' host
    \<and> cf_BindAddress cfg' = cf_BindAddress cfg"
proof -
  obtain host port where split: "SplitHostPort (cf_BindAddress cfg) = Inr (host, port)"
    using assms(1) by (auto simp: validateBindAddress_def split: sum.splits)
  have "serves_safely E cfg' host \<and> cf_BindAddress cfg' = cf_BindAddress cfg"
  proof (cases "local_host host")
    case True
    then show ?thesis
      using assms split classifyBindHost_public [of host]
      by (auto simp: validateBindAddress_def Let_def serves_safely_def split: if_splits dest!: serve_static_ok [where host = host])
  next
    case False
    then show ?thesis
      using assms split classifyBindHost_public [of host]
      by (auto simp: validateBindAddress_def Let_def serves_safely_def split: if_splits
          dest!: serve_static_ok [where host = host])
  qed
  then show ?thesis using split by auto
qed

text \<open>C24: The server never serves a public address in plain text.  Whatever the environment and the configuration
  file hold, a configuration that loads serves plain text only on \<open>localhost\<close> or on an address literal in the
  loopback, private or link-local ranges; in every other case it takes certificates by ACME for a configured domain,
  which equals the host when that is a name, or serves a certificate that is valid now.  That certificate covers
  the host when that is a name other than \<open>localhost\<close>; for an address literal, such as that of all interfaces, and for an empty host
  its names are not compared with anything.
\<close>

theorem load_never_public_plaintext:
  "case Load E configPath of
     Inl _ \<Rightarrow> True
   | Inr cfg \<Rightarrow> (\<exists>host port. SplitHostPort (cf_BindAddress cfg) = Inr (host, port) \<and> serves_safely E cfg host)"
proof (cases "Load E configPath")
  case (Inr cfg)
  then obtain c where "cf_tlsCert c = None" "validateBindAddress E c = Inr cfg"
    by (auto simp: Load_def dest: loaded_cert split: sum.splits)
  then show ?thesis using validate_ok Inr by fastforce
qed simp

end
