(* ===== verification/Http_Guards.thy ===== *)
theory Http_Guards
  imports Server_Config Auth_Password
begin

text \<open>
  The layers of \<open>transport/http\<close> around the handlers: the address a client is known by (\<open>client_ip.go\<close>), rate
  limits by that address (\<open>ratelimit_public.go\<close>), \<open>cors.go\<close>, \<open>origin_validation.go\<close> with \<open>origin_ref.go\<close>, and
  \<open>security_headers.go\<close>.

  A header that is absent reads as the empty string.  A request holds the path in its escaped form, as
  \<open>URL.EscapedPath\<close> gives it.  What a layer adds to the answer is a list of headers.
\<close>

section \<open>Requests\<close>

record http_request =
  ht_Method :: string
  ht_EscapedPath :: string
  ht_Header :: "string \<Rightarrow> string"
  ht_Cookie :: "string option"
  ht_RemoteAddr :: string
  ht_TLS :: bool
  ht_ContentLength :: int

section \<open>client_ip.go\<close>

definition hostOnly :: "string \<Rightarrow> string" where
  "hostOnly remoteAddr =
     (case SplitHostPort remoteAddr of
        Inr (host, _) \<Rightarrow> host
      | Inl _ \<Rightarrow>
         (let bracket = (\<lambda>c. c = CHR ''['' \<or> c = CHR '']'') in
          rev (dropWhile bracket (rev (dropWhile bracket remoteAddr)))))"

definition addrInAny :: "Addr \<Rightarrow> Prefix list \<Rightarrow> bool" where
  "addrInAny a ps = list_ex (\<lambda>p. prefix_Contains p (Unmap a)) ps"

definition lastForwardedHop :: "string \<Rightarrow> Addr option" where
  "lastForwardedHop xff =
     (if xff = [] then None else map_option Unmap (ParseAddr (TrimSpace (last (split_on CHR '','' xff)))))"

definition rateLimitKey :: "Addr \<Rightarrow> string" where
  "rateLimitKey addr =
     (let a = Unmap addr in
      case (if Is6 a then addr_Prefix a 64 else None) of
        Some p \<Rightarrow> prefix_String p
      | None \<Rightarrow> addr_String a)"

definition clientIP :: "Prefix list \<Rightarrow> http_request \<Rightarrow> string" where
  "clientIP trusted r =
     (let host = hostOnly (ht_RemoteAddr r) in
      case ParseAddr host of
        None \<Rightarrow> host
      | Some addr \<Rightarrow>
         rateLimitKey
           (if addrInAny addr trusted then
              (case lastForwardedHop (ht_Header r ''X-Forwarded-For'') of None \<Rightarrow> addr | Some hop \<Rightarrow> hop)
            else addr))"

definition requestIsHTTPS :: "url_lib \<Rightarrow> Prefix list \<Rightarrow> http_request \<Rightarrow> bool" where
  "requestIsHTTPS U trusted r \<longleftrightarrow>
     ht_TLS r
     \<or> (case ParseAddr (hostOnly (ht_RemoteAddr r)) of
          None \<Rightarrow> False
        | Some addr \<Rightarrow>
            addrInAny addr trusted
            \<and> ul_EqualFold U (TrimSpace (takeWhile (\<lambda>c. c \<noteq> CHR '','') (ht_Header r ''X-Forwarded-Proto''))) ''https'')"

section \<open>ratelimit_public.go\<close>

definition HealthProbePath :: "string \<Rightarrow> bool" where
  "HealthProbePath path \<longleftrightarrow> path = ''/healthz'' \<or> path = ''/readyz''"

text \<open>Whether the request goes on, and the limiter's map after it.\<close>

definition PublicRateLimit ::
  "'b bucket_ops \<Rightarrow> Prefix list \<Rightarrow> bool \<Rightarrow> instant \<Rightarrow> http_request \<Rightarrow> 'b ip_map \<Rightarrow> bool \<times> 'b ip_map" where
  "PublicRateLimit B trusted applies now r ips =
     (if \<not> applies then (True, ips) else limiter_Allow B (clientIP trusted r) now ips)"

section \<open>cors.go\<close>

definition cors_headers :: "string list \<Rightarrow> http_request \<Rightarrow> (string \<times> string) list" where
  "cors_headers allowed r =
     (if allowed \<noteq> [] then [(''Vary'', ''Origin'')] else [])
     @ (let origin = ht_Header r ''Origin'' in
        if origin \<noteq> [] \<and> origin \<in> set allowed then
          [(''Access-Control-Allow-Origin'', origin),
           (''Access-Control-Allow-Methods'', ''GET, POST, PATCH, PUT, DELETE, OPTIONS''),
           (''Access-Control-Allow-Headers'', ''Authorization, Content-Type, X-Library-Id''),
           (''Access-Control-Max-Age'', ''600'')]
        else [])"

definition is_preflight :: "http_request \<Rightarrow> bool" where
  "is_preflight r \<longleftrightarrow>
     ht_Method r = ''OPTIONS'' \<and> TrimSpace (ht_Header r ''Access-Control-Request-Method'') \<noteq> []"

section \<open>origin_validation.go\<close>

definition originAllowedFromReferer :: "url_lib \<Rightarrow> URL \<Rightarrow> (string \<Rightarrow> bool) \<Rightarrow> bool" where
  "originAllowedFromReferer U u inSet \<longleftrightarrow>
     url_Scheme u \<noteq> [] \<and> url_Host u \<noteq> [] \<and> inSet (url_Scheme u @ ''://'' @ ToLower (ul_lower U) (url_Host u))"

text \<open>Whether the request passes.  The dynamic origins are \<open>None\<close> until the listener is bound.\<close>

definition LazyOriginValidation :: "url_lib \<Rightarrow> string list \<Rightarrow> string list option \<Rightarrow> http_request \<Rightarrow> bool" where
  "LazyOriginValidation U allowed dynamic r \<longleftrightarrow>
     (let inSet = (\<lambda>x. x \<in> set allowed \<or> (case dynamic of None \<Rightarrow> False | Some ds \<Rightarrow> list_ex (\<lambda>d. d = x) ds));
          origin = ht_Header r ''Origin''; refHeader = ht_Header r ''Referer'' in
      if origin \<noteq> [] then inSet origin
      else if ht_ContentLength r \<noteq> 0 \<and> refHeader \<noteq> [] then
        (case ul_Parse U refHeader of None \<Rightarrow> False | Some u \<Rightarrow> originAllowedFromReferer U u inSet)
      else True)"

section \<open>security_headers.go\<close>

definition quoted :: "string \<Rightarrow> string" where
  "quoted s = CHR 0x27 # s @ [CHR 0x27]"

definition appCSP :: string where
  "appCSP =
     (let self = quoted ''self''; none = quoted ''none'' in
      ''default-src '' @ self
      @ concat (map (\<lambda>d. ''; '' @ d)
         [''script-src '' @ self, ''style-src '' @ self @ '' '' @ quoted ''unsafe-inline'', ''img-src '' @ self @ '' data:'',
          ''font-src '' @ self, ''connect-src '' @ self, ''object-src '' @ none, ''base-uri '' @ none,
          ''frame-ancestors '' @ none, ''form-action '' @ self]))"

definition permissionsPolicy :: string where
  "permissionsPolicy = ''accelerometer=(), autoplay=(), camera=(), clipboard-write=(self), display-capture=(), '' @
     ''encrypted-media=(), fullscreen=(self), geolocation=(), gyroscope=(), magnetometer=(), microphone=(), midi=(), '' @
     ''payment=(), usb=(), xr-spatial-tracking=()''"

definition SecurityHeaders :: "(string \<times> string) list" where
  "SecurityHeaders =
     [(''Content-Security-Policy'', appCSP), (''X-Content-Type-Options'', ''nosniff''), (''X-Frame-Options'', ''DENY''),
      (''Referrer-Policy'', ''no-referrer''), (''Permissions-Policy'', permissionsPolicy)]"

definition HSTS :: "bool \<Rightarrow> (string \<times> string) list" where
  "HSTS tlsInProcess = (if tlsInProcess then [(''Strict-Transport-Security'', ''max-age=31536000'')] else [])"

section \<open>What a client can choose\<close>

lemma split_on_two: "split_on sep (xs @ sep # ys) = split_on sep xs @ split_on sep ys"
proof (induction xs)
  case (Cons x xs)
  then show ?case by (cases "split_on sep xs") simp_all
qed simp

lemma last_split_on: "last (split_on sep (xs @ sep # ys)) = last (split_on sep ys)"
  by (simp add: split_on_two)

lemma mask_byte_0: "mask_byte 0 b = 0"
proof -
  have "drop_bit 8 b = 0" by (rule bit_word_eqI) (simp add: bit_drop_bit_eq)
  then show ?thesis by (simp add: mask_byte_def)
qed

lemma mask_bytes_append:
  "8 * length xs = n \<Longrightarrow> mask_bytes n (xs @ ys) = xs @ replicate (length ys) 0"
proof (rule nth_equalityI)
  fix i
  assume n: "8 * length xs = n" and "i < length (mask_bytes n (xs @ ys))"
  then have i: "i < length xs + length ys" by (simp add: mask_bytes_def)
  then have m: "mask_bytes n (xs @ ys) ! i = mask_byte (n - 8 * i) ((xs @ ys) ! i)" by (simp add: mask_bytes_def)
  show "mask_bytes n (xs @ ys) ! i = (xs @ replicate (length ys) 0) ! i"
  proof (cases "i < length xs")
    case True
    then have "n - 8 * i \<ge> 8" using n by linarith
    then show ?thesis using True m by (simp add: mask_byte_def nth_append)
  next
    case False
    then have "n - 8 * i = 0" using n by linarith
    then show ?thesis using False i m by (simp add: mask_byte_0 nth_append)
  qed
qed (simp add: mask_bytes_def)

lemma rateLimitKey_network:
  assumes "length x = 16" "length y = 16" "take 8 x = take 8 y" "take 12 x \<noteq> v4InV6Prefix" "take 12 y \<noteq> v4InV6Prefix"
  shows "rateLimitKey (Addr6 x z) = rateLimitKey (Addr6 y z')"
proof -
  have "mask_bytes 64 b = take 8 b @ replicate 8 0" if "length b = 16" for b
    using mask_bytes_append [of "take 8 b" 64 "drop 8 b"] that by simp
  then show ?thesis using assms by (simp add: rateLimitKey_def Unmap_def Is6_def addr_Prefix_def)
qed

lemma lastForwardedHop_forged:
  assumes "CHR '','' \<notin> set hop"
  shows "lastForwardedHop (forged @ CHR '','' # hop) = map_option Unmap (ParseAddr (TrimSpace hop))"
  using assms by (simp add: lastForwardedHop_def last_split_on split_on_no_sep)

lemma rateLimitKey_Unmap: "rateLimitKey (Unmap a) = rateLimitKey a"
proof -
  have "Unmap (Unmap a) = Unmap a" by (auto simp: Unmap_def split: Addr.split)
  then show ?thesis by (simp add: rateLimitKey_def)
qed

text \<open>A client cannot choose the address its requests are counted under.  Unless it connects from a trusted
  proxy, no header changes its key.  Behind a trusted proxy only the hop the proxy appended counts, whatever the client
  put in front of it.  And all addresses of one IPv6 network of 64 bits, with any zone, have the same key.
\<close>

theorem client_cannot_choose_its_key:
  assumes "ParseAddr (hostOnly (ht_RemoteAddr r)) = Some a"
  shows "(\<not> addrInAny a trusted \<longrightarrow> clientIP trusted (r\<lparr>ht_Header := h\<rparr>) = rateLimitKey a)
    \<and> (addrInAny a trusted \<and> ht_Header r ''X-Forwarded-For'' = forged @ CHR '','' # hop \<and> CHR '','' \<notin> set hop
      \<and> ParseAddr (TrimSpace hop) = Some b \<longrightarrow> clientIP trusted r = rateLimitKey b)
    \<and> (length x = 16 \<and> length y = 16 \<and> take 8 x = take 8 y \<and> take 12 x \<noteq> v4InV6Prefix \<and> take 12 y \<noteq> v4InV6Prefix
      \<longrightarrow> rateLimitKey (Addr6 x z) = rateLimitKey (Addr6 y z'))"
  using assms rateLimitKey_network
  by (auto simp: clientIP_def Let_def lastForwardedHop_forged rateLimitKey_Unmap)

text \<open>A client forges a hop in front of the one the proxy at \<open>10.0.0.1\<close> appends.\<close>

definition proxied :: http_request where
  "proxied = \<lparr> ht_Method = ''GET'', ht_EscapedPath = ''/healthz'',
     ht_Header = (\<lambda>n. if n = ''X-Forwarded-For'' then ''9.9.9.9,8.8.8.8'' else []), ht_Cookie = None,
     ht_RemoteAddr = ''10.0.0.1:5000'', ht_TLS = False, ht_ContentLength = 0 \<rparr>"

lemma proxied_addr:
  "ParseAddr (hostOnly (ht_RemoteAddr proxied)) = Some (Addr4 [10, 0, 0, 1])"
  "ParseAddr (TrimSpace ''8.8.8.8'') = Some (Addr4 [8, 8, 8, 8])"
  "addrInAny (Addr4 [10, 0, 0, 1]) [\<lparr> pf_ip = Addr4 [10, 0, 0, 0], pf_bits = 8 \<rparr>]"
proof -
  have "hostOnly (ht_RemoteAddr proxied) = ''10.0.0.1''" "ParseAddr ''10.0.0.1'' = Some (Addr4 [10, 0, 0, 1])"
    "ParseAddr ''8.8.8.8'' = Some (Addr4 [8, 8, 8, 8])"
    by code_simp+
  then show "ParseAddr (hostOnly (ht_RemoteAddr proxied)) = Some (Addr4 [10, 0, 0, 1])"
    "ParseAddr (TrimSpace ''8.8.8.8'') = Some (Addr4 [8, 8, 8, 8])"
    by (simp_all add: TrimSpace_visible visible_def)
  show "addrInAny (Addr4 [10, 0, 0, 1]) [\<lparr> pf_ip = Addr4 [10, 0, 0, 0], pf_bits = 8 \<rparr>]"
    by (simp add: addrInAny_def Unmap_def prefix_Contains_def in_cidr_def addr_bits_def byte_bits_def)
qed

theorem client_cannot_choose_its_key_witness:
  "clientIP [\<lparr> pf_ip = Addr4 [10, 0, 0, 0], pf_bits = 8 \<rparr>] proxied = rateLimitKey (Addr4 [8, 8, 8, 8])"
proof -
  have "ht_Header proxied ''X-Forwarded-For'' = ''9.9.9.9'' @ CHR '','' # ''8.8.8.8''" by (simp add: proxied_def)
  then show ?thesis
    using client_cannot_choose_its_key [OF proxied_addr(1), of "[\<lparr> pf_ip = Addr4 [10, 0, 0, 0], pf_bits = 8 \<rparr>]"
        "\<lambda>_. []" "''9.9.9.9''" "''8.8.8.8''"] proxied_addr(2,3) by simp
qed

end
