(* ===== verification/Server_Router.thy ===== *)
theory Server_Router
  imports Http_Guards Device_Sync
begin

text \<open>
  The router of \<open>cmd/server/main.go\<close>: every route with the layers around its handler, the layers around the whole
  router, and the way \<open>http.ServeMux\<close> chooses a route.  A handler is named; the theories of the components model it.

  The path of a request is its escaped form \<open>e\<close>.  \<open>URL.Path\<close>, which the authentication layer reads, is \<open>e\<close>
  unescaped: \<open>EscapedPath\<close> returns a text that unescapes to \<open>Path\<close>, and a request whose path does not unescape is
  refused while it is parsed.  The router matches the escaped form and unescapes each segment on its own.  Panics,
  logging and metrics are left out; the references the lazily started parts fill in are options in the environment.
\<close>

section \<open>Escaped paths\<close>

fun PathUnescape :: "string \<Rightarrow> string option" where
  "PathUnescape [] = Some []"
| "PathUnescape (c # cs) =
     (if c = CHR ''%'' then
        (case cs of
           a # b # rest \<Rightarrow>
             (case (hex_value a, hex_value b) of
                (Some x, Some y) \<Rightarrow> map_option ((#) (char_of (16 * x + y))) (PathUnescape rest)
              | _ \<Rightarrow> None)
         | _ \<Rightarrow> None)
      else map_option ((#) c) (PathUnescape cs))"

definition pathUnescape :: "string \<Rightarrow> string" where
  "pathUnescape s = (case PathUnescape s of None \<Rightarrow> s | Some u \<Rightarrow> u)"

definition cleanPath :: "string \<Rightarrow> string" where
  "cleanPath p0 =
     (if p0 = [] then ''/''
      else (let p = (if hd p0 \<noteq> CHR ''/'' then CHR ''/'' # p0 else p0); np = Clean p in
            if last p = CHR ''/'' \<and> np \<noteq> ''/'' then np @ ''/'' else np))"

section \<open>Patterns\<close>

datatype segment = Lit string | Wild string | Multi string

definition parse_segment :: "string \<Rightarrow> segment" where
  "parse_segment s =
     (if s \<noteq> [] \<and> hd s = CHR ''{'' \<and> last s = CHR ''}'' then
        (let name = butlast (tl s) in
         if 3 \<le> length name \<and> drop (length name - 3) name = ''...'' then Multi (take (length name - 3) name)
         else Wild name)
      else Lit s)"

text \<open>A pattern is an optional method and a path; a final slash stands for everything below.\<close>

definition parse_pattern :: "string \<Rightarrow> string \<times> segment list" where
  "parse_pattern s =
     (let method = takeWhile (\<lambda>c. c \<noteq> CHR '' '') s;
          (m, path) = (if method = s then ([], s) else (method, drop (Suc (length method)) s));
          parts = split_on CHR ''/'' (tl path) in
      (m, if last parts = [] then map parse_segment (butlast parts) @ [Multi []] else map parse_segment parts))"

section \<open>Matching\<close>

definition firstSegment :: "string \<Rightarrow> string \<times> string" where
  "firstSegment path =
     (if path = ''/'' then (''/'', [])
      else (pathUnescape (takeWhile (\<lambda>c. c \<noteq> CHR ''/'') (tl path)), dropWhile (\<lambda>c. c \<noteq> CHR ''/'') (tl path)))"

lemma firstSegment_shorter: "path \<noteq> [] \<Longrightarrow> length (snd (firstSegment path)) < length path"
  using length_dropWhile_le [of "\<lambda>c. c \<noteq> CHR ''/''" "tl path"] by (cases path) (auto simp: firstSegment_def)

text \<open>A node of the routing tree: what is left of the patterns that got there, each with its route.\<close>

type_synonym 'h node = "(segment list \<times> 'h) list"

definition child :: "(segment \<Rightarrow> bool) \<Rightarrow> 'h node \<Rightarrow> 'h node" where
  "child P n = List.map_filter (\<lambda>(ss, h). case ss of [] \<Rightarrow> None | s # rest \<Rightarrow> if P s then Some (rest, h) else None) n"

definition is_wild :: "segment \<Rightarrow> bool" where
  "is_wild s = (case s of Wild _ \<Rightarrow> True | _ \<Rightarrow> False)"

definition is_multi :: "segment \<Rightarrow> bool" where
  "is_multi s = (case s of Multi _ \<Rightarrow> True | _ \<Rightarrow> False)"

function matchPath :: "'h node \<Rightarrow> string \<Rightarrow> 'h option" where
  "matchPath n path =
     (if path = [] then map_option snd (List.find (\<lambda>(ss, h). ss = []) n)
      else (let (seg, rest) = firstSegment path in
            case (if child (\<lambda>s. s = Lit seg) n = [] then None else matchPath (child (\<lambda>s. s = Lit seg) n) rest) of
              Some h \<Rightarrow> Some h
            | None \<Rightarrow>
               (case (if seg = ''/'' \<or> child is_wild n = [] then None else matchPath (child is_wild n) rest) of
                  Some h \<Rightarrow> Some h
                | None \<Rightarrow> map_option snd (List.find (\<lambda>x. True) (child is_multi n)))))"
  by pat_completeness auto
termination
proof (relation "measure (\<lambda>(n, path). length path)", goal_cases)
  case (2 n path x seg rest)
  then show ?case using firstSegment_shorter [of path] by (metis in_measure prod.sel(2) case_prod_conv)
next
  case (3 n path x seg rest)
  then show ?case using firstSegment_shorter [of path] by (metis in_measure prod.sel(2) case_prod_conv)
qed simp

declare matchPath.simps [simp del]

text \<open>The method decides first; \<open>HEAD\<close> also finds the routes of \<open>GET\<close>.\<close>

type_synonym 'h table = "((string \<times> segment list) \<times> 'h) list"

definition with_method :: "string \<Rightarrow> 'h table \<Rightarrow> ((string \<times> segment list) \<times> 'h) node" where
  "with_method m t = map (\<lambda>((m', ss), h). (ss, ((m', ss), h))) (filter (\<lambda>((m', ss), h). m' = m) t)"

definition matchMethodAndPath :: "'h table \<Rightarrow> string \<Rightarrow> string \<Rightarrow> ((string \<times> segment list) \<times> 'h) option" where
  "matchMethodAndPath t method path =
     (case (if method = [] then None else matchPath (with_method method t) path) of
        Some h \<Rightarrow> Some h
      | None \<Rightarrow>
         (case (if method = ''HEAD'' then matchPath (with_method ''GET'' t) path else None) of
            Some h \<Rightarrow> Some h
          | None \<Rightarrow> matchPath (with_method [] t) path))"

definition exactMatch :: "((string \<times> segment list) \<times> 'h) option \<Rightarrow> string \<Rightarrow> bool" where
  "exactMatch n path =
     (case n of
        None \<Rightarrow> False
      | Some ((m, ss), h) \<Rightarrow>
         (if ss = [] \<or> \<not> is_multi (last ss) then True
          else if path \<noteq> [] \<and> last path \<noteq> CHR ''/'' then False
          else length ss = length (filter (\<lambda>c. c = CHR ''/'') path)))"

definition slash_redirect :: "'h table \<Rightarrow> string \<Rightarrow> string \<Rightarrow> bool" where
  "slash_redirect t method path \<longleftrightarrow>
     \<not> exactMatch (matchMethodAndPath t method path) path \<and> (path = [] \<or> last path \<noteq> CHR ''/'')
     \<and> exactMatch (matchMethodAndPath t method (path @ ''/'')) (path @ ''/'')"

datatype 'h dispatch = Redirect | NoRoute | Route 'h

text \<open>\<open>findHandler\<close>: a path that is not clean, or lacks its final slash, is redirected and not served.\<close>

definition findHandler :: "'h table \<Rightarrow> string \<Rightarrow> string \<Rightarrow> ((string \<times> segment list) \<times> 'h) dispatch" where
  "findHandler t method e =
     (let path = (if method = ''CONNECT'' then e else cleanPath e) in
      if slash_redirect t method path then Redirect
      else if path \<noteq> e then Redirect
      else (case matchMethodAndPath t method path of None \<Rightarrow> NoRoute | Some h \<Rightarrow> Route h))"

section \<open>Routes\<close>

datatype limiter = PublicLimiter | PairInitiateLimiter | PairVerifyLimiter

text \<open>The layers around a single handler, outermost first.\<close>

datatype guard = AdminOnly | IngestAuth | SyncMW | OriginValidated | RateLimited limiter

definition routes :: "(string \<times> guard list \<times> string) list" where
  "routes =
     [(''/healthz'', [], ''Healthz''),
      (''/readyz'', [], ''Readyz''),
      (''GET /api/v1/library'', [], ''LibraryHandler''),
      (''GET /api/v1/works/{id}'', [], ''WorkDetailHandler''),
      (''GET /api/v1/collections'', [], ''ListCollectionsHandler''),
      (''POST /api/v1/collections'', [], ''CreateCollectionHandler''),
      (''GET /api/v1/collections/{id}'', [], ''GetCollectionHandler''),
      (''PATCH /api/v1/collections/{id}'', [], ''RenameCollectionHandler''),
      (''DELETE /api/v1/collections/{id}'', [], ''DeleteCollectionHandler''),
      (''POST /api/v1/collections/{id}/works'', [], ''AddWorkToCollectionHandler''),
      (''DELETE /api/v1/collections/{id}/works/{workId}'', [], ''RemoveWorkFromCollectionHandler''),
      (''GET /api/v1/discover'', [], ''DiscoverSearchHandler''),
      (''GET /api/v1/discover/works/{openLibraryId}'', [], ''DiscoverWorkDetailHandler''),
      (''GET /api/v1/discover/covers/{coverId}'', [], ''DiscoverCoverHandler''),
      (''POST /api/v1/sources'', [AdminOnly], ''CreateSourceHandler''),
      (''GET /api/v1/sources'', [AdminOnly], ''ListSourcesHandler''),
      (''GET /api/v1/sources/{id}'', [AdminOnly], ''GetSourceHandler''),
      (''PATCH /api/v1/sources/{id}'', [AdminOnly], ''UpdateSourceHandler''),
      (''DELETE /api/v1/sources/{id}'', [AdminOnly], ''DeleteSourceHandler''),
      (''POST /api/v1/sources/{id}/health-check'', [AdminOnly], ''HealthCheckSourceHandler''),
      (''GET /api/v1/sources/{id}/browse'', [AdminOnly], ''BrowseSourceHandler''),
      (''GET /api/v1/sources/{id}/search'', [AdminOnly], ''SearchSourceHandler''),
      (''POST /api/v1/import/discover'', [IngestAuth], ''ImportDiscoverHandler''),
      (''GET /api/v1/import/candidates'', [IngestAuth], ''ImportCandidatesListHandler''),
      (''POST /api/v1/import/candidates/{id}/confirm'', [IngestAuth], ''ImportCandidateConfirmHandler''),
      (''POST /api/v1/import/candidates/{id}/reject'', [IngestAuth], ''ImportCandidateRejectHandler''),
      (''GET /api/v1/import/candidates/{id}/cover'', [IngestAuth], ''ImportCandidateCoverHandler''),
      (''GET /api/v1/library/editions/{editionId}/reader/content/{path...}'', [], ''ReaderContentHandler''),
      (''POST /api/v1/library/editions/{editionId}/reader/session'', [], ''ReaderSessionHandler''),
      (''GET /api/v1/reading/works/{workId}/progress'', [], ''ReadingProgressGetHandler''),
      (''POST /api/v1/reading/works/{workId}/progress'', [SyncMW], ''ReadingProgressReportHandler''),
      (''GET /api/v1/reading/editions/{editionId}/bookmarks'', [], ''ReadingBookmarksListHandler''),
      (''POST /api/v1/reading/editions/{editionId}/bookmarks'', [SyncMW], ''ReadingBookmarkCreateHandler''),
      (''DELETE /api/v1/reading/bookmarks/{bookmarkId}'', [SyncMW], ''ReadingBookmarkDeleteHandler''),
      (''GET /api/v1/reading/editions/{editionId}/highlights'', [], ''ReadingHighlightsListHandler''),
      (''POST /api/v1/reading/editions/{editionId}/highlights'', [SyncMW], ''ReadingHighlightCreateHandler''),
      (''PATCH /api/v1/reading/highlights/{highlightId}'', [SyncMW], ''ReadingHighlightPatchHandler''),
      (''DELETE /api/v1/reading/highlights/{highlightId}'', [SyncMW], ''ReadingHighlightDeleteHandler''),
      (''GET /api/v1/reading/preferences'', [], ''ReadingPreferencesGetHandler''),
      (''PUT /api/v1/reading/preferences'', [SyncMW], ''ReadingPreferencesPutHandler''),
      (''GET /api/v1/reading/export'', [], ''ReadingExportHandler''),
      (''GET /api/v1/auth/setup/status'', [], ''SetupStatusHandler''),
      (''POST /api/v1/auth/setup'', [OriginValidated], ''SetupHandler''),
      (''POST /api/v1/auth/login'', [OriginValidated], ''LoginHandler''),
      (''POST /api/v1/auth/refresh'', [], ''RefreshHandler''),
      (''POST /api/v1/auth/logout'', [], ''LogoutHandler''),
      (''POST /api/v1/auth/password-reset/request'', [], ''PasswordResetRequestHandler''),
      (''POST /api/v1/auth/password-reset/confirm'', [], ''PasswordResetConfirmHandler''),
      (''POST /api/v1/auth/mfa/totp/setup'', [], ''TOTPSetupHandler''),
      (''POST /api/v1/auth/mfa/totp/confirm'', [], ''TOTPConfirmHandler''),
      (''POST /api/v1/auth/mfa/totp/verify'', [], ''TOTPVerifyHandler''),
      (''POST /api/v1/auth/mfa/totp/disable'', [], ''TOTPDisableHandler''),
      (''GET /api/v1/libraries'', [], ''ListLibrariesHandler''),
      (''POST /api/v1/libraries'', [], ''CreateLibraryHandler''),
      (''GET /api/v1/libraries/{id}'', [], ''GetLibraryHandler''),
      (''PATCH /api/v1/libraries/{id}'', [], ''UpdateLibraryHandler''),
      (''DELETE /api/v1/libraries/{id}'', [], ''DeleteLibraryHandler''),
      (''GET /api/v1/libraries/{id}/members'', [], ''ListMembersHandler''),
      (''POST /api/v1/libraries/{id}/invitations'', [], ''CreateInvitationHandler''),
      (''POST /api/v1/invitations/{token}/accept'', [], ''AcceptInvitationHandler''),
      (''POST /api/v1/network/pair/initiate'', [AdminOnly, RateLimited PairInitiateLimiter], ''InitiatePairingHandler''),
      (''POST /api/v1/network/pair/verify'', [RateLimited PairVerifyLimiter, OriginValidated], ''VerifyPairingHandler''),
      (''GET /api/v1/network/pair/{id}/qr'', [AdminOnly], ''PairingQRHandler''),
      (''GET /api/v1/network/status'', [], ''NetworkStatusHandler''),
      (''GET /api/v1/network/settings'', [AdminOnly], ''GetNetworkSettingsHandler''),
      (''PATCH /api/v1/network/settings'', [AdminOnly], ''UpdateNetworkSettingsHandler''),
      (''DELETE /api/v1/network/pair/{id}'', [AdminOnly], ''DeletePairingHandler''),
      (''GET /api/v1/devices'', [SyncMW], ''ListDevicesHandler''),
      (''DELETE /api/v1/devices/{id}'', [SyncMW], ''RevokeDeviceHandler''),
      (''GET /api/v1/sync/reading'', [SyncMW], ''SyncReadingHandler''),
      (''POST /api/v1/sync/progress'', [SyncMW], ''SyncProgressHandler''),
      (''GET /api/bootstrap'', [], ''BootstrapHandler''),
      (''GET /api/v1/diagnostics'', [AdminOnly], ''DiagnosticsHandler''),
      (''GET /api/v1/activity/events'', [AdminOnly], ''ActivityEventsHandler''),
      (''POST /api/v1/activity/pause-all'', [AdminOnly], ''ActivityPauseAllHandler''),
      (''POST /api/v1/activity/jobs/{id}/cancel'', [AdminOnly], ''ActivityJobCancelHandler''),
      (''POST /api/v1/activity/jobs/{id}/retry'', [AdminOnly], ''ActivityJobRetryHandler''),
      (''POST /api/v1/activity/jobs/clear-completed'', [AdminOnly], ''ActivityClearCompletedHandler''),
      (''GET /api/v1/library/finished'', [], ''FinishedWorksHandler''),
      (''GET /api/v1/library/leaderboard'', [], ''LibraryLeaderboardHandler''),
      (''/api/v1/'', [], ''NotFoundHandler''),
      (''/'', [], ''DefaultStaticHandler'')]"

definition route_table :: "(guard list \<times> string) table" where
  "route_table = map (\<lambda>(p, h). (parse_pattern p, h)) routes"

section \<open>Layers\<close>

record 'b router_env =
  ro_maxBody :: int
  ro_tlsMode :: string
  ro_cors :: "string list"
  ro_trusted :: "Prefix list"
  ro_url :: url_lib
  ro_allowed :: "string list"
  ro_dynamic :: "string list option"
  ro_mac :: mac
  ro_auth :: "(JWTSigner \<times> GrantSigner option) option"
  ro_sync :: bool
  ro_buckets :: "limiter \<Rightarrow> 'b bucket_ops"

record 'b router_state =
  rs_db :: database
  rs_limits :: "limiter \<Rightarrow> 'b ip_map"

definition web_of :: "http_request \<Rightarrow> string \<Rightarrow> web_request" where
  "web_of r path =
     \<lparr> wr_Method = ht_Method r, wr_Path = path, wr_Authorization = ht_Header r ''Authorization'',
       wr_LibraryHeader = ht_Header r ''X-Library-Id'', wr_Cookie = ht_Cookie r \<rparr>"

definition LazyAuthMiddleware :: "'b router_env \<Rightarrow> instant \<Rightarrow> web_request \<Rightarrow> verdict" where
  "LazyAuthMiddleware E now w =
     (if IsPublicPath (wr_Path w) then Pass no_context
      else (case ro_auth E of
              None \<Rightarrow> Reject Unavailable ''database not ready''
            | Some (signer, grants) \<Rightarrow> AuthMiddlewareWithReaderGrants (ro_mac E) signer grants now w))"

definition LazyRequireIngestPermission :: "'b router_env \<Rightarrow> database \<Rightarrow> req_context \<Rightarrow> verdict" where
  "LazyRequireIngestPermission E db c =
     (case cx_user c of
        None \<Rightarrow> Reject Unauthorized ''unauthorized''
      | Some u \<Rightarrow>
         (if au_Role u = RoleAdmin then Pass c
          else if ro_auth E = None then Reject Unavailable ''database not ready''
          else RequireIngestPermission db c))"

definition rate_limit ::
  "'b router_env \<Rightarrow> instant \<Rightarrow> http_request \<Rightarrow> limiter \<Rightarrow> bool \<Rightarrow> 'b router_state \<Rightarrow> bool \<times> 'b router_state" where
  "rate_limit E now r l applies st =
     (case PublicRateLimit (ro_buckets E l) (ro_trusted E) applies now r (rs_limits st l) of
        (ok, ips) \<Rightarrow> (ok, st\<lparr>rs_limits := (rs_limits st)(l := ips)\<rparr>))"

text \<open>The status a refusal is answered with, \<open>None\<close> when the request goes on.\<close>

definition verdict_status :: "verdict \<Rightarrow> nat option" where
  "verdict_status v =
     (case v of Pass _ \<Rightarrow> None | Reject k _ \<Rightarrow> Some (StatusForCategory k) | Forbidden _ \<Rightarrow> Some 403)"

definition run_guard ::
  "'b router_env \<Rightarrow> instant \<Rightarrow> http_request \<Rightarrow> string \<Rightarrow> req_context \<Rightarrow> guard \<Rightarrow> 'b router_state
   \<Rightarrow> nat option \<times> 'b router_state" where
  "run_guard E now r path c g st =
     (case g of
        AdminOnly \<Rightarrow> (verdict_status (RequireRole [RoleAdmin] c), st)
      | IngestAuth \<Rightarrow> (verdict_status (LazyRequireIngestPermission E (rs_db st) c), st)
      | SyncMW \<Rightarrow>
         (if \<not> ro_sync E then (Some (StatusForCategory Unavailable), st)
          else (case SyncMiddleware now c path (ht_Header r ''X-Device-Id'') (rs_db st) of
                  (SReject k _, db) \<Rightarrow> (Some (StatusForCategory k), st\<lparr>rs_db := db\<rparr>)
                | (SPass _, db) \<Rightarrow> (None, st\<lparr>rs_db := db\<rparr>)))
      | OriginValidated \<Rightarrow>
         (if LazyOriginValidation (ro_url E) (ro_allowed E) (ro_dynamic E) r then None else Some 403, st)
      | RateLimited l \<Rightarrow>
         (case rate_limit E now r l True st of (ok, st') \<Rightarrow> (if ok then None else Some 429, st')))"

fun run_guards ::
  "'b router_env \<Rightarrow> instant \<Rightarrow> http_request \<Rightarrow> string \<Rightarrow> req_context \<Rightarrow> guard list \<Rightarrow> 'b router_state
   \<Rightarrow> nat option \<times> 'b router_state" where
  "run_guards E now r path c [] st = (None, st)"
| "run_guards E now r path c (g # gs) st =
     (case run_guard E now r path c g st of
        (Some status, st') \<Rightarrow> (Some status, st')
      | (None, st') \<Rightarrow> run_guards E now r path c gs st')"

datatype outcome =
    Answer nat
  | Handled string req_context

definition serve_route ::
  "'b router_env \<Rightarrow> instant \<Rightarrow> http_request \<Rightarrow> string \<Rightarrow> req_context \<Rightarrow> 'b router_state \<Rightarrow> outcome \<times> 'b router_state" where
  "serve_route E now r path c st =
     (if ht_EscapedPath r = ''*'' then (Answer 400, st)
      else (case findHandler route_table (ht_Method r) (ht_EscapedPath r) of
              Redirect \<Rightarrow> (Answer 301, st)
            | NoRoute \<Rightarrow> (Answer 404, st)
            | Route (_, gs, h) \<Rightarrow>
               (case run_guards E now r path c gs st of
                  (Some status, st') \<Rightarrow> (Answer status, st')
                | (None, st') \<Rightarrow> (Handled h c, st'))))"

text \<open>
  The chain of \<open>newProductionRouter\<close>: the limit on the body, security headers, the limit on health probes, CORS,
  authentication, routing.  The answer comes with the headers the layers it reached have set.
\<close>

definition newProductionRouter ::
  "'b router_env \<Rightarrow> instant \<Rightarrow> http_request \<Rightarrow> 'b router_state \<Rightarrow> (outcome \<times> (string \<times> string) list) \<times> 'b router_state" where
  "newProductionRouter E now r st =
     (case PathUnescape (ht_EscapedPath r) of
        None \<Rightarrow> ((Answer 400, []), st)
      | Some path \<Rightarrow>
         (case verdict_status (Limits (ro_maxBody E) (ht_ContentLength r) no_context) of
            Some status \<Rightarrow> ((Answer status, []), st)
          | None \<Rightarrow>
             (let secure = SecurityHeaders @ HSTS (ro_tlsMode E = ''static'' \<or> ro_tlsMode E = ''acme'') in
              case rate_limit E now r PublicLimiter (HealthProbePath path) st of
                (False, st1) \<Rightarrow> ((Answer 429, secure), st1)
              | (True, st1) \<Rightarrow>
                 (let hs = secure @ cors_headers (ro_cors E) r in
                  if is_preflight r then ((Answer 204, hs), st1)
                  else (case LazyAuthMiddleware E now (web_of r path) of
                          Reject k _ \<Rightarrow> ((Answer (StatusForCategory k), hs), st1)
                        | Forbidden _ \<Rightarrow> ((Answer 403, hs), st1)
                        | Pass c \<Rightarrow>
                           (case serve_route E now r path c st1 of (out, st2) \<Rightarrow> ((out, hs), st2)))))))"

end
