(* ===== verification/Router_Safety.thy ===== *)
theory Router_Safety
  imports Server_Router
begin

text \<open>
  Complete mediation: which requests reach which handlers of \<open>Server_Router\<close>.  The authentication layer decides on the
  unescaped path and the router on the escaped one; the lemmas relate the two, and the table of routes is checked by
  evaluation.
\<close>

section \<open>What a match says of the path\<close>

fun matches :: "segment list \<Rightarrow> string \<Rightarrow> bool" where
  "matches [] p \<longleftrightarrow> p = []"
| "matches (Lit s # ss) p \<longleftrightarrow> p \<noteq> [] \<and> fst (firstSegment p) = s \<and> matches ss (snd (firstSegment p))"
| "matches (Wild s # ss) p \<longleftrightarrow> p \<noteq> [] \<and> matches ss (snd (firstSegment p))"
| "matches (Multi s # ss) p \<longleftrightarrow> p \<noteq> []"

lemma in_child: "(ss, h) \<in> set (child P n) \<longleftrightarrow> (\<exists>s. P s \<and> (s # ss, h) \<in> set n)"
  by (force simp: child_def List.map_filter_def split: list.splits if_splits)

lemma kind_iff: "is_wild s \<longleftrightarrow> (\<exists>w. s = Wild w)" "is_multi s \<longleftrightarrow> (\<exists>w. s = Multi w)"
  by (auto simp: is_wild_def is_multi_def split: segment.splits)

lemma find_mem: "List.find P xs = Some x \<Longrightarrow> x \<in> set xs \<and> P x"
  by (auto simp: find_Some_iff)

lemma matchPath_sound: "matchPath n path = Some h \<Longrightarrow> \<exists>ss. (ss, h) \<in> set n \<and> matches ss path"
proof (induction path arbitrary: n rule: length_induct)
  case (1 path)
  show ?case
  proof (cases "path = []")
    case True
    then show ?thesis using "1.prems" by (auto simp: matchPath.simps dest!: find_mem)
  next
    case False
    obtain seg rest where f: "firstSegment path = (seg, rest)" by fastforce
    have IH: "\<exists>ss. (ss, h) \<in> set m \<and> matches ss rest" if "matchPath m rest = Some h" for m
      using "1.IH" that firstSegment_shorter [OF False] f by auto
    let ?lit = "child (\<lambda>s. s = Lit seg) n"
    consider (lit) "matchPath ?lit rest = Some h" | (wild) "matchPath (child is_wild n) rest = Some h"
      | (multi) x where "List.find (\<lambda>x. True) (child is_multi n) = Some x" "snd x = h"
      using "1.prems" False f by (subst (asm) matchPath.simps) (auto split: option.splits if_splits)
    then show ?thesis
    proof cases
      case lit
      then obtain ss where "(ss, h) \<in> set ?lit" "matches ss rest" using IH by blast
      then show ?thesis using False f by (intro exI [of _ "Lit seg # ss"]) (auto simp: in_child)
    next
      case wild
      then obtain ss where "(ss, h) \<in> set (child is_wild n)" "matches ss rest" using IH by blast
      then obtain w where "(Wild w # ss, h) \<in> set n" by (auto simp: in_child kind_iff)
      then show ?thesis using False f \<open>matches ss rest\<close> by (intro exI [of _ "Wild w # ss"]) auto
    next
      case multi
      then obtain ss where "(ss, h) \<in> set (child is_multi n)" by (cases x) (auto dest!: find_mem)
      then obtain w where "(Multi w # ss, h) \<in> set n" by (auto simp: in_child kind_iff)
      then show ?thesis using False by (intro exI [of _ "Multi w # ss"]) auto
    qed
  qed
qed

lemma matchMethodAndPath_cases:
  assumes "matchMethodAndPath t method path = Some x"
  shows "\<exists>m. matchPath (with_method m t) path = Some x \<and> (m = [] \<or> m = method \<or> m = ''GET'' \<and> method = ''HEAD'')"
proof -
  have "matchPath (with_method method t) path = Some x
      \<or> method = ''HEAD'' \<and> matchPath (with_method ''GET'' t) path = Some x \<or> matchPath (with_method [] t) path = Some x"
    using assms unfolding matchMethodAndPath_def by (simp split: option.splits if_splits)
  then show ?thesis by blast
qed

lemma with_method_mem: "(ss', (m, ss), h) \<in> set (with_method m' t) \<Longrightarrow> ((m, ss), h) \<in> set t \<and> ss' = ss \<and> m = m'"
  by (auto simp: with_method_def)

lemma matchMethodAndPath_sound:
  assumes "matchMethodAndPath t method path = Some ((m, ss), h)"
  shows "((m, ss), h) \<in> set t \<and> matches ss path \<and> (m = [] \<or> m = method \<or> m = ''GET'' \<and> method = ''HEAD'')"
proof -
  from matchMethodAndPath_cases [OF assms] obtain m'
    where m': "matchPath (with_method m' t) path = Some ((m, ss), h)"
      and or: "m' = [] \<or> m' = method \<or> m' = ''GET'' \<and> method = ''HEAD''"
    by (elim exE conjE)
  from matchPath_sound [OF m'] obtain ss' where mem: "(ss', (m, ss), h) \<in> set (with_method m' t)" and "matches ss' path"
    by (elim exE conjE)
  with or with_method_mem [OF mem] show ?thesis by (elim conjE) (intro conjI; simp)
qed

text \<open>The literal beginning of a pattern, and whether it is all of it.\<close>

fun lit_prefix :: "segment list \<Rightarrow> string" where
  "lit_prefix [] = []"
| "lit_prefix (Lit s # ss) = CHR ''/'' # s @ lit_prefix ss"
| "lit_prefix (s # ss) = ''/''"

definition literal :: "segment list \<Rightarrow> bool" where
  "literal ss = list_all (\<lambda>s. case s of Lit _ \<Rightarrow> True | _ \<Rightarrow> False) ss"

definition slashless :: "segment list \<Rightarrow> bool" where
  "slashless ss = list_all (\<lambda>s. case s of Lit l \<Rightarrow> l \<noteq> ''/'' | _ \<Rightarrow> True) ss"

lemma hex_slash [simp]: "hex_value CHR ''/'' = None"
  by code_simp

lemma PathUnescape_append:
  assumes "PathUnescape (xs @ ys) = Some d" "ys = [] \<or> (\<exists>zs. ys = CHR ''/'' # zs)"
  shows "\<exists>a b. PathUnescape xs = Some a \<and> PathUnescape ys = Some b \<and> d = a @ b"
  using assms(1)
proof (induction xs arbitrary: d rule: length_induct)
  case (1 xs)
  have IH: "\<exists>a b. PathUnescape us = Some a \<and> PathUnescape ys = Some b \<and> e = a @ b"
    if "length us < length xs" "PathUnescape (us @ ys) = Some e" for us e
    using "1.IH" that by blast
  consider (Nil) "xs = []" | (plain) c cs where "xs = c # cs" "c \<noteq> CHR ''%''"
    | (short) "xs = ''%''" | (one) a where "xs = [CHR ''%'', a]" | (escape) a b cs where "xs = CHR ''%'' # a # b # cs"
    by (metis list.exhaust)
  then show ?case
  proof cases
    case plain
    then obtain e where e: "PathUnescape (cs @ ys) = Some e" "d = c # e" using "1.prems" by auto
    then show ?thesis using IH [of cs e] plain by auto
  next
    case short
    then show ?thesis using "1.prems" assms(2) by (auto split: list.splits)
  next
    case one
    then show ?thesis using "1.prems" assms(2) by (auto split: option.splits)
  next
    case escape
    then obtain x y e where e: "hex_value a = Some x" "hex_value b = Some y" "PathUnescape (cs @ ys) = Some e"
        "d = char_of (16 * x + y) # e"
      using "1.prems" by (auto split: option.splits)
    then show ?thesis using IH [of cs e] escape by auto
  qed (use "1.prems" in simp)
qed

lemma matches_prefix:
  assumes "matches ss p" "slashless ss" "p = [] \<or> (\<exists>q. p = CHR ''/'' # q)" "PathUnescape p = Some d"
  shows "HasPrefix d (lit_prefix ss)" "literal ss \<Longrightarrow> d = lit_prefix ss"
proof -
  have "HasPrefix d (lit_prefix ss) \<and> (literal ss \<longrightarrow> d = lit_prefix ss)"
    using assms
  proof (induction ss p arbitrary: d rule: matches.induct)
    case (2 s ss p)
    then obtain q where p: "p = CHR ''/'' # q" by auto
    let ?x = "takeWhile (\<lambda>c. c \<noteq> CHR ''/'') q" let ?y = "dropWhile (\<lambda>c. c \<noteq> CHR ''/'') q"
    have "q \<noteq> []" using 2 p by (auto simp: firstSegment_def slashless_def)
    then have f: "firstSegment p = (pathUnescape ?x, ?y)" by (simp add: firstSegment_def p)
    have y: "?y = [] \<or> (\<exists>zs. ?y = CHR ''/'' # zs)" using hd_dropWhile [of "\<lambda>c. c \<noteq> CHR ''/''" q] by (cases ?y) auto
    obtain d' where d': "PathUnescape (?x @ ?y) = Some d'" "d = CHR ''/'' # d'" using 2(5) p by auto
    then obtain a b where "PathUnescape ?x = Some a" "PathUnescape ?y = Some b" "d' = a @ b"
      using PathUnescape_append y by blast
    moreover have "a = s" using 2(2) f calculation(1) by (simp add: pathUnescape_def)
    ultimately show ?case
      using 2 f y d'(2) by (auto simp: slashless_def literal_def HasPrefix_def)
  qed (auto simp: literal_def HasPrefix_def)
  then show "HasPrefix d (lit_prefix ss)" "literal ss \<Longrightarrow> d = lit_prefix ss" by simp_all
qed

lemma Clean_slash: "Clean (CHR ''/'' # q) = CHR ''/'' # join_with CHR ''/'' (clean_elems (CHR ''/'' # q))"
  by (simp add: Clean_def rooted_def Let_def)

lemma cleanPath_slash: "\<exists>q. cleanPath e = CHR ''/'' # q"
  by (cases e) (auto simp: cleanPath_def Clean_slash Let_def)

lemma findHandler_Route:
  assumes "findHandler t method e = Route ((m, ss), h)"
  shows "((m, ss), h) \<in> set t" "matches ss e" "m = [] \<or> m = method \<or> m = ''GET'' \<and> method = ''HEAD''"
    "method \<noteq> ''CONNECT'' \<Longrightarrow> \<exists>q. e = CHR ''/'' # q"
proof -
  have mm: "matchMethodAndPath t method e = Some ((m, ss), h)" and e: "method = ''CONNECT'' \<or> cleanPath e = e"
    using assms by (auto simp: findHandler_def Let_def split: if_splits option.splits)
  show "((m, ss), h) \<in> set t" "matches ss e" "m = [] \<or> m = method \<or> m = ''GET'' \<and> method = ''HEAD''"
    using matchMethodAndPath_sound [OF mm] by blast+
  show "method \<noteq> ''CONNECT'' \<Longrightarrow> \<exists>q. e = CHR ''/'' # q" using e cleanPath_slash [of e] by auto
qed

section \<open>The table\<close>

definition open_handlers :: "string list" where
  "open_handlers =
     [''Healthz'', ''Readyz'', ''SetupStatusHandler'', ''SetupHandler'', ''LoginHandler'', ''RefreshHandler'', ''LogoutHandler'',
      ''PasswordResetRequestHandler'', ''PasswordResetConfirmHandler'', ''TOTPVerifyHandler'', ''VerifyPairingHandler'',
      ''BootstrapHandler'', ''NotFoundHandler'', ''DefaultStaticHandler'']"

definition admin_handlers :: "string list" where
  "admin_handlers =
     [''CreateSourceHandler'', ''ListSourcesHandler'', ''GetSourceHandler'', ''UpdateSourceHandler'', ''DeleteSourceHandler'',
      ''HealthCheckSourceHandler'', ''BrowseSourceHandler'', ''SearchSourceHandler'', ''InitiatePairingHandler'',
      ''PairingQRHandler'', ''GetNetworkSettingsHandler'', ''UpdateNetworkSettingsHandler'', ''DeletePairingHandler'',
      ''DiagnosticsHandler'', ''ActivityEventsHandler'', ''ActivityPauseAllHandler'', ''ActivityJobCancelHandler'',
      ''ActivityJobRetryHandler'', ''ActivityClearCompletedHandler'']"

definition origin_checked :: "string list" where
  "origin_checked = [''SetupHandler'', ''LoginHandler'', ''VerifyPairingHandler'']"

text \<open>May a path that matches the pattern unescape to a given one, or to one below a given directory?\<close>

definition may_be :: "segment list \<Rightarrow> string \<Rightarrow> bool" where
  "may_be ss p = (if literal ss then lit_prefix ss = p else HasPrefix p (lit_prefix ss))"

definition may_be_below :: "segment list \<Rightarrow> string \<Rightarrow> bool" where
  "may_be_below ss p = (HasPrefix (lit_prefix ss) p \<or> \<not> literal ss \<and> HasPrefix p (lit_prefix ss))"

definition route_ok :: "(string \<times> segment list) \<times> guard list \<times> string \<Rightarrow> bool" where
  "route_ok rt =
     (case rt of ((m, ss), gs, h) \<Rightarrow>
        slashless ss \<and> m \<noteq> ''CONNECT'' \<and> m \<noteq> ''HEAD'' \<and> (m = [] \<longrightarrow> h \<in> set open_handlers)
        \<and> (h \<in> set open_handlers \<or> AdminOnly \<in> set gs
           \<or> HasPrefix (lit_prefix ss) ''/api/v1/'' \<and> list_all (\<lambda>p. \<not> may_be ss p) publicAuthPaths)
        \<and> (h \<in> set open_handlers \<or> h = ''ReaderContentHandler'' \<or> m \<noteq> ''GET'' \<or> \<not> may_be_below ss readerEditionsPrefix)
        \<and> (h \<in> set admin_handlers \<longrightarrow> AdminOnly \<in> set gs) \<and> (h \<in> set origin_checked \<longrightarrow> OriginValidated \<in> set gs))"

lemma route_okD:
  assumes "route_ok ((m, ss), gs, h)"
  shows "slashless ss" "m \<noteq> ''CONNECT''" "m \<noteq> ''HEAD''" "m = [] \<Longrightarrow> h \<in> set open_handlers"
    "h \<notin> set open_handlers \<Longrightarrow> AdminOnly \<notin> set gs \<Longrightarrow>
       HasPrefix (lit_prefix ss) ''/api/v1/'' \<and> list_all (\<lambda>p. \<not> may_be ss p) publicAuthPaths"
    "h \<notin> set open_handlers \<Longrightarrow> m = ''GET'' \<Longrightarrow> may_be_below ss readerEditionsPrefix \<Longrightarrow> h = ''ReaderContentHandler''"
    "h \<in> set admin_handlers \<Longrightarrow> AdminOnly \<in> set gs" "h \<in> set origin_checked \<Longrightarrow> OriginValidated \<in> set gs"
  using assms unfolding route_ok_def prod.case by blast+

lemma table_ok: "list_all route_ok route_table"
  by code_simp

text \<open>What the path of a request says of the route it took, and of the layers it has passed.\<close>

lemma route_not_public:
  assumes "HasPrefix (lit_prefix ss) ''/api/v1/''" "list_all (\<lambda>p. \<not> may_be ss p) publicAuthPaths"
    "HasPrefix d (lit_prefix ss)" "literal ss \<Longrightarrow> d = lit_prefix ss"
  shows "\<not> IsPublicPath d"
proof -
  have d: "HasPrefix d ''/api/v1/''" using assms(1,3) by (auto simp: HasPrefix_iff)
  then have "d \<noteq> ''/healthz''" "d \<noteq> ''/readyz''" by (auto simp: HasPrefix_def)
  moreover have "d \<notin> set publicAuthPaths"
    using assms(2-4) by (auto simp: list_all_iff may_be_def split: if_splits)
  ultimately show ?thesis using d by (simp add: IsPublicPath_def)
qed

lemma not_below:
  assumes "\<not> may_be_below ss p" "HasPrefix d (lit_prefix ss)" "literal ss \<Longrightarrow> d = lit_prefix ss"
  shows "\<not> HasPrefix d p"
proof
  assume "HasPrefix d p"
  then have "HasPrefix (lit_prefix ss) p \<or> HasPrefix p (lit_prefix ss)"
    using assms(2) unfolding HasPrefix_iff by (metis append_eq_append_conv2)
  then show False using assms(1,3) \<open>HasPrefix d p\<close> by (auto simp: may_be_below_def)
qed

lemma run_guards_passed:
  assumes "run_guards E now r path c gs st = (None, st')" "g \<in> set gs"
  shows "\<exists>s s'. run_guard E now r path c g s = (None, s')"
  using assms
proof (induction gs arbitrary: st)
  case (Cons g' gs)
  obtain x s where g': "run_guard E now r path c g' st = (x, s)" by fastforce
  then have "x = None" using Cons.prems(1) by (cases x) auto
  then show ?case using Cons g' by (cases "g = g'") auto
qed simp

lemma admin_passed: "run_guard E now r path c AdminOnly s = (None, s') \<Longrightarrow> \<exists>u. cx_user c = Some u \<and> au_Role u = RoleAdmin"
  by (auto simp: run_guard_def verdict_status_def RequireRole_def split: option.splits if_splits)

lemma origin_passed:
  "run_guard E now r path c OriginValidated s = (None, s') \<Longrightarrow>
     LazyOriginValidation (ro_url E) (ro_allowed E) (ro_dynamic E) r"
  by (auto simp: run_guard_def split: if_splits)

text \<open>One of the allowed origins, configured or those of the bound listener.\<close>

definition allowed_origin :: "'b router_env \<Rightarrow> string \<Rightarrow> bool" where
  "allowed_origin E x \<longleftrightarrow> x \<in> set (ro_allowed E) \<or> (\<exists>ds. ro_dynamic E = Some ds \<and> x \<in> set ds)"

lemma origin_allowed:
  assumes "LazyOriginValidation (ro_url E) (ro_allowed E) (ro_dynamic E) r"
  shows "(ht_Header r ''Origin'' \<noteq> [] \<longrightarrow> allowed_origin E (ht_Header r ''Origin''))
    \<and> (ht_Header r ''Origin'' = [] \<and> ht_ContentLength r \<noteq> 0 \<and> ht_Header r ''Referer'' \<noteq> [] \<longrightarrow>
        (\<exists>u. ul_Parse (ro_url E) (ht_Header r ''Referer'') = Some u
           \<and> allowed_origin E (url_Scheme u @ ''://'' @ ToLower (ul_lower (ro_url E)) (url_Host u))))"
  using assms
  by (cases "ro_dynamic E"; cases "ht_Header r ''Origin'' = []"; cases "ul_Parse (ro_url E) (ht_Header r ''Referer'')")
     (auto simp: LazyOriginValidation_def Let_def list_ex_iff allowed_origin_def originAllowedFromReferer_def split: if_splits)

lemma served:
  assumes "newProductionRouter E now r st = ((Handled h c, hs), st')"
  obtains path m ss gs s s' where "PathUnescape (ht_EscapedPath r) = Some path"
    "LazyAuthMiddleware E now (web_of r path) = Pass c"
    "findHandler route_table (ht_Method r) (ht_EscapedPath r) = Route ((m, ss), gs, h)"
    "run_guards E now r path c gs s = (None, s')"
  using assms
  by (auto simp: newProductionRouter_def serve_route_def Let_def
      split: option.splits if_splits prod.splits bool.splits verdict.splits dispatch.splits)

section \<open>Complete mediation\<close>

text \<open>The token a request was authenticated by, and the grant for the content of one edition.\<close>

definition by_token :: "'b router_env \<Rightarrow> instant \<Rightarrow> http_request \<Rightarrow> req_context \<Rightarrow> Claims \<Rightarrow> bool" where
  "by_token E now r c claims \<longleftrightarrow>
     (\<exists>signer grants t. ro_auth E = Some (signer, grants) \<and> ht_Header r ''Authorization'' = ''Bearer '' @ t
        \<and> VerifyAccessToken (ro_mac E) signer t now = Inr claims \<and> cx_user c = Some (user_of_claims claims))"

definition by_grant :: "'b router_env \<Rightarrow> instant \<Rightarrow> http_request \<Rightarrow> req_context \<Rightarrow> ReaderContentClaims \<Rightarrow> bool" where
  "by_grant E now r c claims \<longleftrightarrow>
     (\<exists>signer g v. ro_auth E = Some (signer, Some g) \<and> ht_Cookie r = Some v
        \<and> reader_Verify (ro_mac E) g v now = Inr claims \<and> cx_user c = Some (user_of_grant claims))"

lemma authenticated_pass:
  assumes "LazyAuthMiddleware E now (web_of r path) = Pass c" "\<not> IsPublicPath path"
  obtains claims where "by_token E now r c claims"
  | claims where "by_grant E now r c claims" "ht_Method r = ''GET'' \<or> ht_Method r = ''HEAD''"
      "HasPrefix path readerEditionsPrefix"
proof -
  obtain signer grants where a: "ro_auth E = Some (signer, grants)"
      "AuthMiddlewareWithReaderGrants (ro_mac E) signer grants now (web_of r path) = Pass c"
    using assms by (auto simp: LazyAuthMiddleware_def web_of_def split: option.splits)
  from protected_routes_are_authenticated [OF a(2)] assms(2) that a(1) show ?thesis
    by (auto simp: web_of_def by_token_def by_grant_def readerContentCookiePath_def HasPrefix_iff)
qed

text \<open>C9: Every handler that is not meant for the public is reached only by an authenticated request.  However its
  path is written (escaped, with dots or empty segments), a request that gets past all layers to a handler other than
  the open ones carries a valid access token, and its user is the token's; a handler of the administration is reached
  only with a token of that role.  The one exception is the content of a book, which a valid grant in a cookie opens, and
  nothing else.  Setting up, logging in and pairing a device are open to requests without an \<open>Origin\<close> header, as those
  of programs other than browsers; a request with that header reaches them only when its value is an allowed origin, and
  one without it, but with a body and a \<open>Referer\<close>, only when the origin of the referring page is allowed.
\<close>

theorem router_mediates_access:
  assumes "newProductionRouter E now r st = ((Handled h c, hs), st')"
  shows "(h \<in> set open_handlers
      \<or> (\<exists>claims. by_token E now r c claims \<and> (h \<in> set admin_handlers \<longrightarrow> cl_Role claims = RoleAdmin))
      \<or> h = ''ReaderContentHandler'' \<and> (\<exists>claims. by_grant E now r c claims))
    \<and> (h \<in> set origin_checked \<longrightarrow>
        (ht_Header r ''Origin'' \<noteq> [] \<longrightarrow> allowed_origin E (ht_Header r ''Origin''))
        \<and> (ht_Header r ''Origin'' = [] \<and> ht_ContentLength r \<noteq> 0 \<and> ht_Header r ''Referer'' \<noteq> [] \<longrightarrow>
            (\<exists>u. ul_Parse (ro_url E) (ht_Header r ''Referer'') = Some u
               \<and> allowed_origin E (url_Scheme u @ ''://'' @ ToLower (ul_lower (ro_url E)) (url_Host u)))))"
proof -
  obtain path m ss gs s s' where path: "PathUnescape (ht_EscapedPath r) = Some path"
    and pass: "LazyAuthMiddleware E now (web_of r path) = Pass c"
    and found: "findHandler route_table (ht_Method r) (ht_EscapedPath r) = Route ((m, ss), gs, h)"
    and guards: "run_guards E now r path c gs s = (None, s')"
    using served [OF assms] .
  note f = findHandler_Route [OF found]
  have "route_ok ((m, ss), gs, h)" using table_ok f(1) unfolding list_all_iff by (rule bspec)
  note ok = route_okD [OF this]
  have origin: "LazyOriginValidation (ro_url E) (ro_allowed E) (ro_dynamic E) r" if "h \<in> set origin_checked"
    using run_guards_passed [OF guards ok(8) [OF that]] origin_passed by blast
  have admin: "\<exists>u. cx_user c = Some u \<and> au_Role u = RoleAdmin" if "AdminOnly \<in> set gs"
    using run_guards_passed [OF guards that] admin_passed by blast
  have auth: "(\<exists>claims. by_token E now r c claims \<and> (h \<in> set admin_handlers \<longrightarrow> cl_Role claims = RoleAdmin))
      \<or> h = ''ReaderContentHandler'' \<and> (\<exists>claims. by_grant E now r c claims)" if closed: "h \<notin> set open_handlers"
  proof -
    have m: "m = ht_Method r \<or> m = ''GET'' \<and> ht_Method r = ''HEAD''" using f(3) ok(4) closed by blast
    then have "ht_Method r \<noteq> ''CONNECT''" using ok(2) by auto
    then have p: "HasPrefix path (lit_prefix ss)" "literal ss \<Longrightarrow> path = lit_prefix ss"
      using matches_prefix [OF f(2) ok(1) disjI2 path] f(4) by blast+
    have np: "\<not> IsPublicPath path"
    proof (cases "AdminOnly \<in> set gs")
      case True
      then show ?thesis using admin pass by (auto simp: LazyAuthMiddleware_def web_of_def no_context_def)
    next
      case False
      then show ?thesis using ok(5) [OF closed] p route_not_public by blast
    qed
    from pass np show ?thesis
    proof (cases rule: authenticated_pass)
      case (1 claims)
      have "cl_Role claims = RoleAdmin" if "h \<in> set admin_handlers"
        using 1 admin [OF ok(7) [OF that]] by (auto simp: by_token_def user_of_claims_def)
      then show ?thesis using 1 by blast
    next
      case (2 claims)
      have "m = ''GET''" using m 2(2) ok(3) by auto
      then have "h = ''ReaderContentHandler''" using ok(6) closed not_below [OF _ p] 2(3) by blast
      then show ?thesis using 2(1) by blast
    qed
  qed
  show ?thesis using auth origin_allowed [OF origin] by blast
qed

text \<open>A reader lists the libraries it is a member of.\<close>

definition demo_router :: "unit router_env" where
  "demo_router = \<lparr> ro_maxBody = 1024, ro_tlsMode = ''none'', ro_cors = [], ro_trusted = [], ro_url = undefined,
     ro_allowed = [], ro_dynamic = None, ro_mac = toy_mac, ro_auth = Some (sample_signer, None), ro_sync = True,
     ro_buckets = (\<lambda>_. \<lparr> bucket_new = (), bucket_allow = (\<lambda>t b. (True, b)) \<rparr>) \<rparr>"

definition demo_request :: http_request where
  "demo_request = \<lparr> ht_Method = ''GET'', ht_EscapedPath = ''/api/v1/%6Cibraries'',
     ht_Header = (\<lambda>n. if n = ''Authorization'' then ''Bearer '' @ jwt_Sign toy_mac sample_signer sample_access else []),
     ht_Cookie = None, ht_RemoteAddr = ''192.0.2.7:5000'', ht_TLS = False, ht_ContentLength = 0 \<rparr>"

lemma demo_route:
  "findHandler route_table ''GET'' ''/api/v1/%6Cibraries'' =
     Route ((''GET'', [Lit ''api'', Lit ''v1'', Lit ''libraries'']), [], ''ListLibrariesHandler'')"
  "PathUnescape ''/api/v1/%6Cibraries'' = Some ''/api/v1/libraries''"
  "HealthProbePath ''/api/v1/libraries'' = False"
  by code_simp+

lemma demo_fields:
  "ht_EscapedPath demo_request = ''/api/v1/%6Cibraries''" "ht_Method demo_request = ''GET''" "\<not> is_preflight demo_request"
  "ht_ContentLength demo_request = 0" "ro_maxBody demo_router = 1024"
  by (simp_all add: demo_request_def demo_router_def is_preflight_def)

lemma demo_handled:
  "\<exists>c hs st'. newProductionRouter demo_router 0 demo_request st = ((Handled ''ListLibrariesHandler'' c, hs), st')"
proof -
  let ?a = "''Bearer '' @ jwt_Sign toy_mac sample_signer sample_access"
  have v: "VerifyAccessToken toy_mac sample_signer (jwt_Sign toy_mac sample_signer sample_access) 0
      = Inr (sample_access\<lparr>cl_Issuer := js_issuer sample_signer\<rparr>)"
    using Verify_Sign_access [OF sample_access_ok(2,3)] sample_access_ok(4,5) by (simp add: unix_def)
  have b: "TrimPrefix ?a ''Bearer '' = jwt_Sign toy_mac sample_signer sample_access" "HasPrefix ?a ''Bearer ''"
    by (rule TrimPrefix_append HasPrefix_append)+
  obtain c where "LazyAuthMiddleware demo_router 0 (web_of demo_request ''/api/v1/libraries'') = Pass c"
    using v b demo_paths(1)
    by (simp add: LazyAuthMiddleware_def AuthMiddlewareWithReaderGrants_def bearer_def web_of_def demo_request_def
        demo_router_def sample_access_def)
  then show ?thesis
    using demo_fields demo_route
    by (simp add: newProductionRouter_def serve_route_def Let_def verdict_status_def Limits_def rate_limit_def PublicRateLimit_def
        del: PathUnescape.simps)
qed

definition demo_state :: "unit router_state" where
  "demo_state = \<lparr> rs_db = empty_database [DefaultLibraryID], rs_limits = (\<lambda>l. Map.empty) \<rparr>"

theorem router_mediates_access_witness:
  "\<exists>c hs st' claims. newProductionRouter demo_router 0 demo_request demo_state
       = ((Handled ''ListLibrariesHandler'' c, hs), st') \<and> by_token demo_router 0 demo_request c claims"
proof -
  obtain c hs st' where h: "newProductionRouter demo_router 0 demo_request demo_state
      = ((Handled ''ListLibrariesHandler'' c, hs), st')"
    using demo_handled by blast
  from router_mediates_access [OF h] have "\<exists>claims. by_token demo_router 0 demo_request c claims"
    by (auto simp: open_handlers_def)
  then show ?thesis using h by blast
qed

end
