(* ===== verification/Spec2Isabelle.thy ===== *)
theory Spec2Isabelle
  imports Catalog_Safety Library_Query Postgres_Reading Postgres_Pairing Job_Engine
    Library_Access Import_Handlers Reading_Safety Device_Sync_Safety Pairing_Safety Source_Guards
    Source_Safety Catalog_Access Router_Safety
begin

text \<open>
  A verification development of Alexandryn, a self-hosted server for a family's digital library
  written in Go.  This theory is the root; it imports the components and documents the whole.

  \<^bold>\<open>The program.\<close>  Domain types and services (\<open>internal/domain\<close>) work over repository interfaces.
  The repositories are implemented on PostgreSQL (\<open>internal/persistence/postgres\<close>).  HTTP handlers
  (\<open>internal/transport/http\<close>) authenticate a request, decode it, call services and repositories and
  encode the answer.  Background work goes through a job table with leases (\<open>internal/jobs\<close>).  Tokens,
  passwords and second factors are made and checked in \<open>internal/auth\<close>.

  \<^bold>\<open>How Go is read.\<close>
  \<^item> \<open>Prelude\<close>: instants and durations as whole nanoseconds, \<open>int64\<close> wrap-around written out, a
    result with an error as a sum (\<open>Inl\<close> the error); shared lemmas and the collections \<open>ops\<close> and
    \<open>ok_dest\<close>.
  \<^item> \<open>Go_Text\<close>, \<open>Go_Regexp\<close>, \<open>Go_Strconv\<close>, \<open>Go_Base64\<close>, \<open>Go_Json\<close>, \<open>Go_Float\<close>, \<open>Go_Rounding\<close>,
    \<open>Go_Netip\<close>, \<open>Go_Filepath\<close>: what the sources use of Go's standard library.  Strings are byte lists, \<open>range\<close> decodes UTF-8, the JSON
    decoder is a lexer and a stack machine with the nesting limit, \<open>float64\<close> arithmetic rounds.
  \<^item> A loop that has no measure in the source is a \<open>partial_function\<close> into \<open>option\<close>; \<open>None\<close> means that
    it does not return.  No fuel is used anywhere, and where the code is meant to return this is proved
    (\<open>reachable_operations_return\<close>).
  \<^item> A handler or repository call maps the database to its result and the database it leaves, also
    when it fails half way.

  \<^bold>\<open>Catalogue.\<close>  \<open>Domain_Error\<close>, \<open>Domain_Validate\<close>, \<open>Domain_Catalog\<close>, \<open>Domain_Event\<close> model the value
  types and constructors of \<open>internal/domain\<close> (\<open>errors.go\<close>, \<open>validate.go\<close>, \<open>work.go\<close>, \<open>edition.go\<close>,
  \<open>author.go\<close> and so on).  \<open>Domain_Repository\<close> states the repository interfaces as records of functions
  and, as locales, the laws the services may use.  \<open>Merge_Graph\<close> is the theory of merge chains and
  containment.  \<open>Work_Services\<close> and \<open>Author_Services\<close> model \<open>work_merge_service.go\<close>,
  \<open>work_containment_service.go\<close>, \<open>resolve_work.go\<close> and \<open>author_merge_service.go\<close>; \<open>Library_Services\<close>
  models entries, collections and source removal.  \<open>Catalog_Safety\<close> closes the operations under
  sequencing and failure: over every reachable store merges are acyclic, the operations return, and
  containment stays acyclic under \<open>AddContains\<close>; it also shows the one merge that breaks it.

  \<^bold>\<open>Persistence.\<close>  \<open>Postgres_Store\<close> is the database: a record with one list of rows per table, the
  keys and references of the migrations, statements that succeed or fail with a SQLSTATE, a connection
  that may break after any statement, \<open>TranslateError\<close> and \<open>InTx\<close>.  \<open>Postgres_Catalog\<close>,
  \<open>Postgres_Library\<close>, \<open>Postgres_Reading\<close>, \<open>Postgres_Pairing\<close>, \<open>Postgres_Accounts\<close> model the
  repositories, one definition per method, and interpret the locales of \<open>Domain_Repository\<close> and
  \<open>Library_Services\<close>, so what is proved of the services holds for the stored rows.  \<open>Library_Query\<close> models
  the cursors and the paged library query and shows that following the cursors visits every work once.

  \<^bold>\<open>Reading and devices.\<close>  \<open>Reading_Progress\<close> models reconciliation of progress reports; its
  refinement by rows is in \<open>Postgres_Reading\<close>.  \<open>Device_Pairing\<close> models \<open>device_pairing.go\<close> and
  \<open>internal/pairing/code.go\<close>; \<open>Postgres_Pairing\<close> its encrypted storage and the atomic verification.
  \<open>Postgres_Annotations\<close> models the repositories of bookmarks, highlights and preferences, \<open>Reading_Sync\<close>
  \<open>reading_sync_repository.go\<close> and \<open>reading_export_repository.go\<close>, \<open>Reader_Validate\<close>
  \<open>reader/api/validate.go\<close>, \<open>Reading_Handlers\<close> the endpoints of \<open>reading.go\<close> and \<open>Device_Sync\<close> those of
  \<open>device_sync.go\<close> (\<open>Http_Reply\<close> holds the form of an answer).  \<open>Sync_Safety\<close> shows that every write gets a
  fresh stamp, that following the cursor of the query delivers every row its gate releases, and that no
  answer skips a row exactly when the gate on transactions in flight is a low-water mark; \<open>Reading_Safety\<close> that no endpoint sees or touches the reading data of
  another user; \<open>Device_Sync_Safety\<close> that a push never moves the cursor over an unseen change, and that a
  revoked device stays shut out.  \<open>Pairing_Handlers\<close> models the endpoints of \<open>network.go\<close>, and
  \<open>Pairing_Safety\<close> shows that a used pairing code, and one whose cancellation was written, enrols no
  device, whatever follows.

  \<^bold>\<open>Import.\<close>  \<open>Postgres_Sources\<close> (the source rows), \<open>Import_Candidates\<close> (the staging table),
  \<open>Import_Extract\<close> (clean-up of metadata), \<open>Import_Matching\<close> (matching and scoring), \<open>Import_Service\<close>
  (discovery, the job handler, the confirmations) and \<open>Import_Handlers\<close> (the endpoints).  \<open>Import_Safety\<close>
  shows that a decision, with identifiers new to the catalogue, is carried out whole or not at all, and
  once, and that a job touches no candidate but its own; \<open>Import_Discovery\<close> that a file is staged once.

  \<^bold>\<open>Sources.\<close>  \<open>Source_Adapter\<close> models \<open>adapters/sources\<close> (validation, credentials, signed cursors, the
  outbound limit) and the guards on connections, \<open>Source_Local\<close> the folder provider, \<open>Source_Opds\<close> the OPDS
  client with both feed parsers and the requests it sends, \<open>Source_Handlers\<close> the endpoints of \<open>sources.go\<close>
  and the encryption of stored credentials.  \<open>Source_Guards\<close> shows which addresses the guards block,
  \<open>Source_Local\<close> that no file outside the folder is listed and that pages cover the folder,
  \<open>Source_Safety\<close> that whatever a catalogue answers, the endpoints send requests only to the configured
  origin, with the source's own credential or, without one, with the user and password the URL itself
  names, and that a stored credential reads back unchanged.

  \<^bold>\<open>Requests.\<close>  \<open>Server_Router\<close> models the router of \<open>cmd/server/main.go\<close>: the table of routes, the choice of
  a route by \<open>http.ServeMux\<close> and the layers, which are in \<open>Http_Guards\<close> (\<open>client_ip.go\<close>, \<open>cors.go\<close>,
  \<open>origin_validation.go\<close>, \<open>ratelimit_public.go\<close>, \<open>security_headers.go\<close>) and \<open>Auth_Middleware\<close>.
  \<open>Router_Safety\<close> shows complete mediation: which handlers a request may reach, and as whom.
  \<open>Catalog_Handlers\<close> models the endpoints of \<open>library.go\<close>, \<open>collections.go\<close> and \<open>leaderboard.go\<close>;
  \<open>Catalog_Access\<close> shows that libraries do not interfere, and that the lists of finished books, which
  select a percentage of at least 100, are empty on a store with percentages between 0 and 1.

  \<^bold>\<open>Configuration.\<close>  \<open>Server_Config\<close> models \<open>config.go\<close> and \<open>bindaddress.go\<close> and shows that no
  configuration that loads serves a public address in plain text.

  \<^bold>\<open>Jobs.\<close>  \<open>Job_Model\<close> (states, back-off, error text, registry), \<open>Job_Store\<close> (every statement of
  \<open>store.go\<close>), \<open>Job_Safety\<close> (the protocol of the table as a labelled step relation \<open>job_event\<close>, one rule for
  each operation; a \<open>job_history\<close> lists the jobs handed out, so that starts are counted and not only the
  stored attempts: starts are bounded, a worker that lost its lease is fenced, finished jobs stay
  finished) and
  \<open>Job_Engine\<close> (what a worker writes is a step of that protocol).

  \<^bold>\<open>Accounts and access.\<close>  \<open>Domain_Auth\<close> (users, credentials, tokens, invitations), \<open>Auth_Tokens\<close>
  (\<open>hs256.go\<close>, \<open>jwt.go\<close> and the grants, down to the JSON text), \<open>Auth_Totp\<close> (one-time passwords, recovery
  codes, secret encryption), \<open>Auth_Password\<close> (hash format, rate limiter, identifiers),
  \<open>Auth_Handlers\<close> (every handler of \<open>auth_handlers.go\<close>; \<open>login_reading\<close> is the login over any query for the
  second factor, so that the failure of that query is a case of the model), \<open>Auth_Safety\<close> and \<open>Auth_Sessions\<close> (the locale
  \<open>write_invariant\<close>, interpreted for spent tickets, dead tokens and completed setup, carries an invariant
  through any history of requests), \<open>Auth_Middleware\<close> (\<open>auth_middleware.go\<close>, \<open>limits.go\<close>,
  \<open>library_handlers.go\<close>, the reader's content grant) and \<open>Library_Access\<close> (who joins a library).

  \<^bold>\<open>Parameters.\<close>  Cryptographic primitives (HMAC, SHA-256, AES-GCM, argon2id, HKDF), random bytes, the
  clock, generated identifiers, the token bucket of \<open>golang.org/x/time/rate\<close>, the database's collation,
  \<open>LOWER\<close>, full-text match and JSON normalisation, the case tables of package \<open>unicode\<close>,
  \<open>net/url\<close>, the XML decoder, TOML, X.509 certificates, the network and the file system are arguments.  What a theorem needs of one of them is a named hypothesis of that theorem.

  \<^bold>\<open>Bounds.\<close>  Requests are handled one at a time and each transaction is atomic; interleavings that
  the code has to survive (the lease protocol of jobs) are explicit sequences of steps.  The connection
  may break after any statement.  Several handlers discard the error of a write (the rotation of a refresh
  token, the end of a password reset, the use of an invitation, the cancellation of a pairing); what
  their theorems promise for later requests is stated for the case that the write succeeded, together
  with the fact that it does on a connection that stays up.

  \<^bold>\<open>Not modelled.\<close>  Process start-up, supervision of the database process, logging, metrics and
  network discovery are input and output around the operating system.  The Open Library client and its
  caches and the parsers of book files call third-party libraries.  The remaining HTTP handlers
  (activity, diagnostics, discovery, export, network status), sanitising of book content and the web
  interface are left out.
\<close>

end
